(* ===== verification/Prelude.thy ===== *)
theory Prelude
  imports Main "HOL-Library.AList" "HOL-Library.Product_Lexorder" "HOL-Library.Option_ord"
begin

text \<open>
  What the components of the executor share: JavaScript timestamps and their comparisons, safe
  integers, errors, insertion-ordered \<open>Map\<close>s, JSON values and the generic lemmas about them.

  Conventions of the whole development.
  \<^item> A \<open>throw\<close> (or a rejected promise) of the source is \<^term>\<open>Inl e\<close> with \<open>e\<close> a
    \<open>js_error\<close>; a normal return is \<^term>\<open>Inr v\<close>.
  \<^item> A JavaScript \<open>Map\<close> is an association list with distinct keys: \<open>set\<close> on a present key
    keeps its position and on an absent key appends, which is exactly \<^const>\<open>AList.update\<close>.
  \<^item> A composite key \<open>JSON.stringify([a, b])\<close> is the pair \<open>(a, b)\<close>: the encoding of a list of
    strings is injective.
  \<^item> \<open>structuredClone\<close> is the identity: the values of HOL are not shared or mutated.
\<close>

subsection \<open>Errors and results\<close>

text \<open>The error classes of the standard library, and the module's own classes by name.\<close>

datatype js_error =
    Type_Error string
  | Range_Error string
  | Plain_Error string
  | Named_Error string string

type_synonym 'a result = "js_error + 'a"

definition bind_result :: "'a result \<Rightarrow> ('a \<Rightarrow> 'b result) \<Rightarrow> 'b result" where
  "bind_result r f = (case r of Inl e \<Rightarrow> Inl e | Inr x \<Rightarrow> f x)"

lemma bind_result_simps [simp]:
  "bind_result (Inl e) f = Inl e"
  "bind_result (Inr x) f = f x"
  by (simp_all add: bind_result_def)

lemma bind_result_Inr_iff:
  "bind_result r f = Inr y \<longleftrightarrow> (\<exists>x. r = Inr x \<and> f x = Inr y)"
  by (cases r) simp_all

subsection \<open>Numbers and blank strings\<close>

definition max_safe_integer :: int where
  "max_safe_integer = 9007199254740991"

definition is_safe_integer :: "int \<Rightarrow> bool" where
  "is_safe_integer n \<longleftrightarrow> - max_safe_integer \<le> n \<and> n \<le> max_safe_integer"

text \<open>
  \<open>s.trim().length === 0\<close>: every character is white space (the white space among the first 256
  code points: TAB, LF, VT, FF, CR, SPACE, NBSP).
\<close>

definition js_whitespace :: "char \<Rightarrow> bool" where
  "js_whitespace c \<longleftrightarrow>
     of_char c \<in> {9, 10, 11, 12, 13, 32, 160 :: nat}"

definition blank :: "string \<Rightarrow> bool" where
  "blank s \<longleftrightarrow> list_all js_whitespace s"

lemma blank_Nil [simp]: "blank []"
  by (simp add: blank_def)

subsection \<open>Timestamps\<close>

text \<open>
  The stores keep timestamps as strings and read them with \<open>Date.parse\<close>. A string is represented,
  without loss, by what \<open>Date.parse\<close> says of it: \<open>Iso ms\<close> is the canonical string that
  \<open>toISOString\<close> prints for the instant \<open>ms\<close>, \<open>Loose s ms\<close> any other string \<open>s\<close> that parses to
  \<open>ms\<close>, and \<open>Not_Date s\<close> a string that parses to \<open>NaN\<close>. Equality of timestamps is equality of
  the strings.
\<close>

datatype timestamp = Iso int | Loose string int | Not_Date string

primrec date_parse :: "timestamp \<Rightarrow> int option" where
  "date_parse (Iso ms) = Some ms"
| "date_parse (Loose s ms) = Some ms"
| "date_parse (Not_Date s) = None"

definition valid_time :: "timestamp \<Rightarrow> bool" where
  "valid_time t \<longleftrightarrow> date_parse t \<noteq> None"

text \<open>\<open>new Date(t).toISOString()\<close> throws a \<open>RangeError\<close> on an invalid date.\<close>

definition invalid_time_value :: js_error where
  "invalid_time_value = Range_Error ''Invalid time value''"

definition to_iso :: "timestamp \<Rightarrow> timestamp result" where
  "to_iso t = (case date_parse t of None \<Rightarrow> Inl invalid_time_value | Some ms \<Rightarrow> Inr (Iso ms))"

text \<open>The instant of a valid timestamp (\<open>0\<close> stands for an invalid one and is never relied on).\<close>

definition time_ms :: "timestamp \<Rightarrow> int" where
  "time_ms t = (case date_parse t of None \<Rightarrow> 0 | Some ms \<Rightarrow> ms)"

text \<open>Comparisons of possibly-\<open>NaN\<close> numbers: false as soon as one side is \<open>NaN\<close>.\<close>

definition num_le :: "int option \<Rightarrow> int option \<Rightarrow> bool" where
  "num_le a b = (case a of None \<Rightarrow> False | Some x \<Rightarrow>
     (case b of None \<Rightarrow> False | Some y \<Rightarrow> x \<le> y))"

definition num_less :: "int option \<Rightarrow> int option \<Rightarrow> bool" where
  "num_less a b = (case a of None \<Rightarrow> False | Some x \<Rightarrow>
     (case b of None \<Rightarrow> False | Some y \<Rightarrow> x < y))"

lemma num_le_simps [simp]:
  "num_le (Some x) (Some y) \<longleftrightarrow> x \<le> y" "\<not> num_le None b" "\<not> num_le a None"
  by (simp_all add: num_le_def split: option.splits)

lemma num_less_simps [simp]:
  "num_less (Some x) (Some y) \<longleftrightarrow> x < y" "\<not> num_less None b" "\<not> num_less a None"
  by (simp_all add: num_less_def split: option.splits)

lemma num_le_iff: "num_le a b \<longleftrightarrow> (\<exists>x y. a = Some x \<and> b = Some y \<and> x \<le> y)"
  by (cases a; cases b) simp_all

lemma num_less_iff: "num_less a b \<longleftrightarrow> (\<exists>x y. a = Some x \<and> b = Some y \<and> x < y)"
  by (cases a; cases b) simp_all

lemma num_less_not_le: "num_less a b \<Longrightarrow> \<not> num_le b a"
  by (auto simp: num_le_iff num_less_iff)

lemma valid_time_simps [simp]:
  "valid_time (Iso ms)" "valid_time (Loose s ms)" "\<not> valid_time (Not_Date s)"
  by (simp_all add: valid_time_def)

lemma valid_time_iff: "valid_time t \<longleftrightarrow> (\<exists>ms. date_parse t = Some ms)"
  by (auto simp: valid_time_def)

lemma time_ms_simps [simp]:
  "time_ms (Iso ms) = ms" "time_ms (Loose s ms) = ms"
  "date_parse t = Some x \<Longrightarrow> time_ms t = x"
  by (simp_all add: time_ms_def)

lemma to_iso_Inr_iff: "to_iso t = Inr u \<longleftrightarrow> (\<exists>ms. date_parse t = Some ms \<and> u = Iso ms)"
  by (auto simp: to_iso_def split: option.splits)

lemma to_iso_Inl_iff: "to_iso t = Inl e \<longleftrightarrow> date_parse t = None \<and> e = invalid_time_value"
  by (auto simp: to_iso_def split: option.splits)

lemma to_iso_Iso [simp]: "to_iso (Iso ms) = Inr (Iso ms)"
  by (simp add: to_iso_def)

subsection \<open>Insertion-ordered maps\<close>

abbreviation js_set :: "'k \<Rightarrow> 'v \<Rightarrow> ('k \<times> 'v) list \<Rightarrow> ('k \<times> 'v) list" where
  "js_set \<equiv> AList.update"

abbreviation js_delete :: "'k \<Rightarrow> ('k \<times> 'v) list \<Rightarrow> ('k \<times> 'v) list" where
  "js_delete \<equiv> AList.delete"

abbreviation js_values :: "('k \<times> 'v) list \<Rightarrow> 'v list" where
  "js_values m \<equiv> map snd m"

abbreviation distinct_keys :: "('k \<times> 'v) list \<Rightarrow> bool" where
  "distinct_keys m \<equiv> distinct (map fst m)"

declare AList.update_conv' [simp] AList.delete_conv' [simp]

lemma js_set_new: "map_of m k = None \<Longrightarrow> js_set k v m = m @ [(k, v)]"
  by (induction m) (auto split: if_splits)

lemma js_set_same: "map_of m k = Some v \<Longrightarrow> js_set k v m = m"
  by (induction m) (auto split: if_splits)

lemma map_of_None_keys:
  assumes "map fst m = map fst m'"
  shows "map_of m k = None \<longleftrightarrow> map_of m' k = None"
  using arg_cong[OF assms, of set] by (simp add: map_of_eq_None_iff)

lemma js_set_old_keys: "map_of m k \<noteq> None \<Longrightarrow> map fst (js_set k v m) = map fst m"
  by (induction m) auto

lemma distinct_keys_set [simp, intro]: "distinct_keys m \<Longrightarrow> distinct_keys (js_set k v m)"
  by (rule AList.distinct_update)

lemma distinct_keys_delete [simp, intro]: "distinct_keys m \<Longrightarrow> distinct_keys (js_delete k m)"
  by (rule AList.distinct_delete)

text \<open>Overwriting the value of a present key keeps every field that the new value keeps.\<close>

lemma map_field_set:
  "map_of m k = Some old \<Longrightarrow> f v = f old \<Longrightarrow> map (\<lambda>e. f (snd e)) (js_set k v m) = map (\<lambda>e. f (snd e)) m"
  by (induction m) (auto split: if_splits)

lemma js_values_iff:
  "distinct_keys m \<Longrightarrow> v \<in> set (js_values m) \<longleftrightarrow> (\<exists>k. map_of m k = Some v)"
  by (force dest: map_of_SomeD)

lemma js_values_set:
  "distinct_keys m \<Longrightarrow> v' \<in> set (js_values (js_set k v m)) \<longleftrightarrow>
     v' = v \<or> (\<exists>k'. k' \<noteq> k \<and> map_of m k' = Some v')"
  by (simp only: js_values_iff distinct_keys_set AList.update_conv') (auto split: if_splits)

text \<open>All entries of a map satisfy a predicate.\<close>

definition all_entries :: "('k \<Rightarrow> 'v \<Rightarrow> bool) \<Rightarrow> ('k \<times> 'v) list \<Rightarrow> bool" where
  "all_entries P m \<longleftrightarrow> (\<forall>k v. map_of m k = Some v \<longrightarrow> P k v)"

lemma all_entriesI: "(\<And>k v. map_of m k = Some v \<Longrightarrow> P k v) \<Longrightarrow> all_entries P m"
  by (simp add: all_entries_def)

lemma all_entriesD: "all_entries P m \<Longrightarrow> map_of m k = Some v \<Longrightarrow> P k v"
  by (simp add: all_entries_def)

lemma all_entries_Nil [simp]: "all_entries P []"
  by (simp add: all_entries_def)

lemma all_entries_set [simp, intro]:
  "all_entries P m \<Longrightarrow> P k v \<Longrightarrow> all_entries P (js_set k v m)"
  by (simp add: all_entries_def)

lemma all_entries_delete [simp, intro]: "all_entries P m \<Longrightarrow> all_entries P (js_delete k m)"
  by (auto simp: all_entries_def split: if_splits)

lemma all_entries_mono: "all_entries P m \<Longrightarrow> (\<And>k v. P k v \<Longrightarrow> Q k v) \<Longrightarrow> all_entries Q m"
  by (auto simp: all_entries_def)

text \<open>A JavaScript \<open>Set\<close> is a list in insertion order.\<close>

definition set_add :: "'a \<Rightarrow> 'a list \<Rightarrow> 'a list" where
  "set_add x xs = (if x \<in> set xs then xs else xs @ [x])"

lemma set_set_add [simp]: "set (set_add x xs) = insert x (set xs)"
  by (auto simp: set_add_def)

lemma distinct_set_add [simp]: "distinct (set_add x xs) \<longleftrightarrow> distinct xs"
  by (auto simp: set_add_def)

subsection \<open>Sequence numbers\<close>

text \<open>
  Most stores number their rows with a counter: \<open>numbered f n m\<close> says that the rows stand in the
  map in strictly increasing order of their number \<open>f\<close>, all in \<open>1..n\<close>.
\<close>

definition numbered :: "('v \<Rightarrow> int) \<Rightarrow> int \<Rightarrow> ('k \<times> 'v) list \<Rightarrow> bool" where
  "numbered f n m \<longleftrightarrow> sorted_wrt (<) (map (\<lambda>e. f (snd e)) m) \<and>
     (\<forall>x \<in> set (map (\<lambda>e. f (snd e)) m). 1 \<le> x \<and> x \<le> n) \<and> 0 \<le> n"

lemma numbered_Nil [simp]: "numbered f 0 []"
  by (simp add: numbered_def)

lemma numbered_mono: "numbered f n m \<Longrightarrow> n \<le> n' \<Longrightarrow> numbered f n' m"
  by (auto simp: numbered_def)

lemma numbered_set_old:
  "numbered f n m \<Longrightarrow> map_of m k = Some old \<Longrightarrow> f v = f old \<Longrightarrow> numbered f n (js_set k v m)"
  unfolding numbered_def by (simp add: map_field_set del: set_map)

lemma numbered_set_new:
  "numbered f n m \<Longrightarrow> map_of m k = None \<Longrightarrow> f v = n + 1 \<Longrightarrow> numbered f (n + 1) (js_set k v m)"
  by (fastforce simp: numbered_def js_set_new sorted_wrt_append)

lemma numbered_inj:
  assumes "numbered f n m" "map_of m k = Some v" "map_of m k' = Some v'" "f v = f v'"
  shows "k = k' \<and> v = v'"
  using assms
proof (induction m)
  case Nil
  then show ?case by simp
next
  case (Cons e m)
  have rest: "numbered f n m" and first: "\<And>y. y \<in> set m \<Longrightarrow> f (snd e) < f (snd y)"
    using Cons.prems(1) by (auto simp: numbered_def)
  have mem: "\<And>k v. map_of m k = Some v \<Longrightarrow> f (snd e) < f v"
    using first by (fastforce dest: map_of_SomeD)
  show ?case
    using Cons.IH[OF rest] Cons.prems mem
    by (cases e) (fastforce split: if_splits)
qed

lemma numbered_bounds:
  "numbered f n m \<Longrightarrow> map_of m k = Some v \<Longrightarrow> 1 \<le> f v \<and> f v \<le> n"
  by (force simp: numbered_def dest: map_of_SomeD)

text \<open>Hence sorting the rows by their number changes nothing.\<close>

lemma numbered_sorted_filter:
  assumes "numbered f n m"
  shows "sorted (map f (filter P (js_values m)))"
proof -
  have "sorted (map f (js_values m))"
    using assms by (auto simp: numbered_def sorted_wrt_map o_def intro: sorted_wrt_mono_rel[rotated])
  then show ?thesis by (simp add: sorted_filter)
qed

lemma sort_numbered:
  "numbered f n m \<Longrightarrow> sort_key f (filter P (js_values m)) = filter P (js_values m)"
  by (intro sort_key_id_if_sorted numbered_sorted_filter)

lemma numbered_distinct_filter:
  assumes "numbered f n m"
  shows "sorted_wrt (\<lambda>x y. f x < f y) (filter P (js_values m))"
proof -
  have "sorted_wrt (\<lambda>x y. f x < f y) (js_values m)"
    using assms by (simp add: numbered_def sorted_wrt_map)
  then show ?thesis by (rule sorted_wrt_filter)
qed

text \<open>The prefix of a sorted list holds its smallest elements.\<close>

lemma take_sorted_minimal:
  assumes "sorted (map f xs)" "y \<in> set xs" "y \<notin> set (take n xs)"
  shows "length (take n xs) = n \<and> (\<forall>x \<in> set (take n xs). f x \<le> f y)"
proof -
  have y: "y \<in> set (drop n xs)"
    using assms(2,3) by (metis Un_iff append_take_drop_id set_append)
  then have "n < length xs" by (metis drop_all empty_iff list.set(1) not_le_imp_less)
  moreover have "sorted (map f (take n xs) @ map f (drop n xs))"
    using assms(1) by (simp flip: map_append)
  ultimately show ?thesis using y by (auto simp: sorted_append)
qed

subsection \<open>Slices of arrays\<close>

text \<open>\<open>xs.slice(a, b)\<close>: negative indices count from the end, both ends are clamped to the array.\<close>

definition slice_index :: "int \<Rightarrow> nat \<Rightarrow> nat" where
  "slice_index i len = (if i < 0 then nat (max 0 (int len + i)) else min len (nat i))"

definition js_slice :: "'a list \<Rightarrow> int \<Rightarrow> int \<Rightarrow> 'a list" where
  "js_slice xs a b =
     (let i = slice_index a (length xs); j = slice_index b (length xs) in take (j - i) (drop i xs))"

lemma js_slice_nonneg:
  "0 \<le> a \<Longrightarrow> a \<le> b \<Longrightarrow> js_slice xs a b = take (nat b - nat a) (drop (nat a) xs)"
  by (auto simp: js_slice_def slice_index_def Let_def min_def)

lemma js_slice_subset: "set (js_slice xs a b) \<subseteq> set xs"
  by (auto simp: js_slice_def Let_def dest: in_set_takeD in_set_dropD)

text \<open>\<open>xs.findIndex(p)\<close>, with \<open>-1\<close> as \<^term>\<open>None\<close>.\<close>

fun find_index :: "('a \<Rightarrow> bool) \<Rightarrow> 'a list \<Rightarrow> nat option" where
  "find_index P [] = None"
| "find_index P (x # xs) = (if P x then Some 0 else map_option Suc (find_index P xs))"

lemma find_index_Some:
  "find_index P xs = Some i \<Longrightarrow> i < length xs \<and> P (xs ! i) \<and> (\<forall>j < i. \<not> P (xs ! j))"
  by (induction xs arbitrary: i) (auto simp: less_Suc_eq_0_disj split: if_splits)

lemma find_index_None: "find_index P xs = None \<longleftrightarrow> (\<forall>x \<in> set xs. \<not> P x)"
  by (induction xs) auto

lemma find_index_unique:
  "distinct (map f xs) \<Longrightarrow> i < length xs \<Longrightarrow> find_index (\<lambda>x. f x = f (xs ! i)) xs = Some i"
  by (induction xs arbitrary: i) (auto simp: less_Suc_eq_0_disj)

subsection \<open>JSON values\<close>

text \<open>
  What \<open>JSON.parse\<close> can return. The fields of an object are kept in order, its keys are distinct.
\<close>

datatype json =
    JNull
  | JBool bool
  | JNum int
  | JStr string
  | JArr "json list"
  | JObj "(string \<times> json) list"

text \<open>
  Opaque cursors. A cursor is the \<open>base64url\<close> text of a JSON document; the stores read it with
  \<open>JSON.parse(Buffer.from(cursor, "base64url").toString("utf8"))\<close>. As with timestamps, a cursor
  string is represented without loss by what this decoding says of it: \<open>Encoded j\<close> is the text that
  \<open>Buffer.from(JSON.stringify(j)).toString("base64url")\<close> prints, \<open>Other_Text s j\<close> another string \<open>s\<close>
  that decodes to \<open>j\<close>, and \<open>Garbage s\<close> a string on which the decoding throws.
\<close>

datatype cursor = Encoded json | Other_Text string json | Garbage string

primrec cursor_json :: "cursor \<Rightarrow> json option" where
  "cursor_json (Encoded j) = Some j"
| "cursor_json (Other_Text s j) = Some j"
| "cursor_json (Garbage s) = None"

definition json_field :: "string \<Rightarrow> json \<Rightarrow> json option" where
  "json_field k j = (case j of JObj fs \<Rightarrow> map_of fs k | _ \<Rightarrow> None)"

lemma json_field_JObj [simp]: "json_field k (JObj fs) = map_of fs k"
  by (simp add: json_field_def)

end
