(* ===== verification/Execution_Types.thy ===== *)
theory Execution_Types
  imports Prelude
begin

text \<open>
  The public execution records (\<open>packages/core/src/types/execution.ts\<close>), the closed error taxonomy
  (\<open>packages/core/src/errors.ts\<close>) and the usage contexts a restart needs
  (\<open>apps/executor/src/usage/gate.ts\<close>). The variants of the TypeScript union \<open>ExecutionRecord\<close> differ
  in the fields that come with the status, so the status and these fields are one datatype,
  \<open>exec_outcome\<close>. Durations and counts are integers.
\<close>

subsection \<open>Errors\<close>

datatype tool_error_code =
    Code_Invalid_Input
  | Code_Auth_Missing
  | Code_Auth_Expired
  | Code_Auth_Insufficient_Scope
  | Code_Not_Found
  | Code_Rate_Limited
  | Code_Provider_Unavailable
  | Code_Provider_Error
  | Code_Timeout
  | Code_Not_Supported
  | Code_Execution_Interrupted
  | Code_Execution_Cancelled

fun default_error_retryability :: "tool_error_code \<Rightarrow> bool" where
  "default_error_retryability Code_Invalid_Input = False"
| "default_error_retryability Code_Auth_Missing = False"
| "default_error_retryability Code_Auth_Expired = False"
| "default_error_retryability Code_Auth_Insufficient_Scope = False"
| "default_error_retryability Code_Not_Found = False"
| "default_error_retryability Code_Rate_Limited = True"
| "default_error_retryability Code_Provider_Unavailable = True"
| "default_error_retryability Code_Provider_Error = False"
| "default_error_retryability Code_Timeout = False"
| "default_error_retryability Code_Not_Supported = False"
| "default_error_retryability Code_Execution_Interrupted = False"
| "default_error_retryability Code_Execution_Cancelled = False"

record provider_error_detail =
  pe_toolkit :: string
  pe_status :: "int option"
  pe_code :: "string option"
  pe_request_id :: "string option"
  pe_detail :: "json option"

record normalized_tool_error =
  te_code :: tool_error_code
  te_message :: string
  te_retryable :: bool
  te_retry_after :: "int option"
  te_provider :: "provider_error_detail option"

subsection \<open>Identifiers\<close>

definition ascii_letter :: "char \<Rightarrow> bool" where
  "ascii_letter c \<longleftrightarrow>
     (let n = of_char c :: nat in (65 \<le> n \<and> n \<le> 90) \<or> (97 \<le> n \<and> n \<le> 122))"

definition ascii_digit :: "char \<Rightarrow> bool" where
  "ascii_digit c \<longleftrightarrow> (let n = of_char c :: nat in 48 \<le> n \<and> n \<le> 57)"

text \<open>\<open>ID_SEED_PATTERN = /^[A-Za-z0-9][A-Za-z0-9_-]{0,127}$/\<close>\<close>

fun id_seed_pattern :: "string \<Rightarrow> bool" where
  "id_seed_pattern [] \<longleftrightarrow> False"
| "id_seed_pattern (c # cs) \<longleftrightarrow>
     (ascii_letter c \<or> ascii_digit c) \<and>
     list_all (\<lambda>d. ascii_letter d \<or> ascii_digit d \<or> d = CHR ''_'' \<or> d = CHR ''-'') cs \<and>
     length cs \<le> 127"

text \<open>\<open>uuid\<close> is the text that \<open>randomUUID()\<close> returns, used when there is no seed.\<close>

definition create_prefixed_id :: "string \<Rightarrow> string option \<Rightarrow> string \<Rightarrow> string result" where
  "create_prefixed_id prefix seed uuid =
     (let id_body = (case seed of Some s \<Rightarrow> s | None \<Rightarrow> filter (\<lambda>c. c \<noteq> CHR ''-'') uuid) in
      if \<not> id_seed_pattern id_body
      then Inl (Plain_Error
        ''ID seed must be 1-128 characters using only letters, digits, underscores, or hyphens'')
      else Inr (prefix @ ''_'' @ id_body))"

definition create_execution_id :: "string option \<Rightarrow> string \<Rightarrow> string result" where
  "create_execution_id = create_prefixed_id ''exe''"

definition create_connection_id :: "string option \<Rightarrow> string \<Rightarrow> string result" where
  "create_connection_id = create_prefixed_id ''conn''"

definition create_file_id :: "string option \<Rightarrow> string \<Rightarrow> string result" where
  "create_file_id = create_prefixed_id ''file''"

definition starts_with :: "string \<Rightarrow> string \<Rightarrow> bool" where
  "starts_with p s \<longleftrightarrow> take (length p) s = p"

definition is_execution_id :: "string \<Rightarrow> bool" where
  "is_execution_id v \<longleftrightarrow> starts_with ''exe_'' v \<and> id_seed_pattern (drop 4 v)"

definition is_connection_id :: "string \<Rightarrow> bool" where
  "is_connection_id v \<longleftrightarrow> starts_with ''conn_'' v \<and> id_seed_pattern (drop 5 v)"

definition is_file_id :: "string \<Rightarrow> bool" where
  "is_file_id v \<longleftrightarrow> starts_with ''file_'' v \<and> id_seed_pattern (drop 5 v)"

lemma starts_with_append [simp]: "starts_with p (p @ s)"
  by (simp add: starts_with_def)

lemma create_prefixed_id_Inr:
  "create_prefixed_id prefix seed uuid = Inr i \<longleftrightarrow>
     (let b = (case seed of Some s \<Rightarrow> s | None \<Rightarrow> filter (\<lambda>c. c \<noteq> CHR ''-'') uuid) in
        id_seed_pattern b \<and> i = prefix @ ''_'' @ b)"
  by (auto simp: create_prefixed_id_def Let_def)

lemma create_execution_id_valid: "create_execution_id seed uuid = Inr i \<Longrightarrow> is_execution_id i"
  by (auto simp: create_execution_id_def create_prefixed_id_Inr is_execution_id_def Let_def
      starts_with_def)

subsection \<open>Requests and records\<close>

datatype execution_mode = Mode_Sync | Mode_Async

datatype execution_status =
  St_Pending | St_Running | St_Succeeded | St_Failed | St_Cancelled

record execute_request =
  rq_tool :: string
  rq_user :: string
  rq_connection :: "string option"
  rq_input :: "(string \<times> json) list"
  rq_mode :: execution_mode

record attachment_summary =
  at_count :: int
  at_file_ids :: "string list"

text \<open>
  The last argument of \<open>Out_Cancelled\<close> is \<open>cancellation.dispatchMayHaveBegun\<close>, the integer of the
  terminal variants is \<open>latencyMs\<close>.
\<close>

datatype exec_outcome =
    Out_Pending
  | Out_Running
  | Out_Succeeded json int
  | Out_Failed normalized_tool_error int
  | Out_Cancelled normalized_tool_error int bool

fun outcome_status :: "exec_outcome \<Rightarrow> execution_status" where
  "outcome_status Out_Pending = St_Pending"
| "outcome_status Out_Running = St_Running"
| "outcome_status (Out_Succeeded _ _) = St_Succeeded"
| "outcome_status (Out_Failed _ _) = St_Failed"
| "outcome_status (Out_Cancelled _ _ _) = St_Cancelled"

record execution_record =
  ex_id :: string
  ex_tool :: string
  ex_tool_version :: string
  ex_catalog_version :: string
  ex_user :: string
  ex_created_at :: timestamp
  ex_started_at :: "timestamp option"
  ex_completed_at :: "timestamp option"
  ex_replayed :: bool
  ex_source :: "string option"
  ex_attachments :: "attachment_summary option"
  ex_outcome :: exec_outcome

definition ex_status :: "execution_record \<Rightarrow> execution_status" where
  "ex_status r = outcome_status (ex_outcome r)"

definition terminal_status :: "execution_status \<Rightarrow> bool" where
  "terminal_status s \<longleftrightarrow> s = St_Succeeded \<or> s = St_Failed \<or> s = St_Cancelled"

lemma terminal_status_simps [simp]:
  "\<not> terminal_status St_Pending" "\<not> terminal_status St_Running" "terminal_status St_Succeeded"
  "terminal_status St_Failed" "terminal_status St_Cancelled"
  by (simp_all add: terminal_status_def)

lemma not_terminal_status: "\<not> terminal_status s \<longleftrightarrow> s = St_Pending \<or> s = St_Running"
  by (cases s) simp_all

subsection \<open>Usage contexts\<close>

record usage_report_context =
  ur_project :: string
  ur_execution :: string
  ur_cloud_execution :: "string option"
  ur_idempotency_key :: string
  ur_reservation :: "string option"
  ur_reserved_at :: "timestamp option"

record usage_reservation_handle =
  uh_reservation :: string
  uh_project :: string
  uh_local_execution :: string
  uh_idempotency_key :: string
  uh_cloud_execution :: "string option"
  uh_reserved_at :: "timestamp option"

end
