(* ===== verification/Pagination.thy ===== *)
theory Pagination
  imports Prelude
begin

text \<open>
  Newest-first cursor pages. The execution, delivery, endpoint and subscription stores list their
  rows with the same code: a cursor names the last row of the previous page, the page starts after
  it and has a next cursor exactly when rows remain.
\<close>

definition cursor_after :: "string \<Rightarrow> cursor" where
  "cursor_after i = Encoded (JObj [(''after'', JStr i)])"

text \<open>The decoding of a cursor; \<open>err\<close> is the invalid-cursor error of the store.\<close>

definition id_from_cursor :: "js_error \<Rightarrow> cursor \<Rightarrow> string result" where
  "id_from_cursor err c =
     (case cursor_json c of
        None \<Rightarrow> Inl err
      | Some parsed \<Rightarrow>
          (case json_field ''after'' parsed of
             Some (JStr s) \<Rightarrow> if s = '''' then Inl err else Inr s
           | _ \<Rightarrow> Inl err))"

lemma id_from_cursor_after [simp]:
  "i \<noteq> '''' \<Longrightarrow> id_from_cursor err (cursor_after i) = Inr i"
  by (simp add: id_from_cursor_def cursor_after_def)

text \<open>
  The body that the four \<open>list\<close> methods share, on the filtered rows \<open>all\<close>, newest first: find the
  offset after the cursor, slice, and point to the last row when more remain.
\<close>

definition page_offset ::
    "('a \<Rightarrow> string) \<Rightarrow> js_error \<Rightarrow> 'a list \<Rightarrow> cursor option \<Rightarrow> nat result" where
  "page_offset ident err all cur =
     (case cur of
        None \<Rightarrow> Inr 0
      | Some c \<Rightarrow> bind_result (id_from_cursor err c) (\<lambda>after.
          case find_index (\<lambda>r. ident r = after) all of
            None \<Rightarrow> Inl err
          | Some i \<Rightarrow> Inr (i + 1)))"

definition cursor_page ::
    "('a \<Rightarrow> string) \<Rightarrow> js_error \<Rightarrow> 'a list \<Rightarrow> cursor option \<Rightarrow> int \<Rightarrow>
     ('a list \<times> cursor option) result" where
  "cursor_page ident err all cur limit =
     bind_result (page_offset ident err all cur) (\<lambda>offset.
       let page = js_slice all (int offset) (int offset + limit);
           next_offset = offset + length page in
       Inr (page,
         if next_offset < length all \<and> page \<noteq> [] then Some (cursor_after (ident (last page)))
         else None))"

text \<open>A client that follows the next cursors, with fuel for the number of pages it asks for.\<close>

fun walk_pages ::
    "(cursor option \<Rightarrow> ('a list \<times> cursor option) result) \<Rightarrow> nat \<Rightarrow> cursor option \<Rightarrow> 'a list result"
where
  "walk_pages page 0 cur = Inr []"
| "walk_pages page (Suc n) cur = bind_result (page cur) (\<lambda>(rows, nxt).
     case nxt of
       None \<Rightarrow> Inr rows
     | Some c \<Rightarrow> bind_result (walk_pages page n (Some c)) (\<lambda>more. Inr (rows @ more)))"

lemma cursor_page_from:
  assumes "page_offset ident err all cur = Inr i" "0 < limit" "i \<le> length all"
  shows "cursor_page ident err all cur limit =
    Inr (take (nat limit) (drop i all),
      if i + nat limit < length all then Some (cursor_after (ident (all ! (i + nat limit - 1)))) else None)"
proof -
  have page: "js_slice all (int i) (int i + limit) = take (nat limit) (drop i all)"
    using assms(2) by (simp add: js_slice_nonneg nat_add_distrib)
  have last: "last (take (nat limit) (drop i all)) = all ! (i + nat limit - 1)"
    if "i + nat limit < length all"
    using that assms(2) by (subst last_conv_nth) (auto simp: min_def)
  show ?thesis
    using assms page last by (auto simp: cursor_page_def Let_def min_def)
qed

lemma page_offset_after:
  assumes "distinct (map ident all)" "i < length all" "ident (all ! i) \<noteq> ''''"
  shows "page_offset ident err all (Some (cursor_after (ident (all ! i)))) = Inr (i + 1)"
  using assms by (simp add: page_offset_def find_index_unique)

text \<open>
  What a listing promises its client: in a state that satisfies the invariant the rows have distinct,
  non-empty identifiers, and its pages are the cursor pages of these rows.
\<close>

locale cursor_listing =
  fixes inv :: "'st \<Rightarrow> bool"
    and rows :: "'st \<Rightarrow> 'q \<Rightarrow> 'a list"
    and ident :: "'a \<Rightarrow> string"
    and err :: js_error
    and allowed :: "int \<Rightarrow> bool"
    and list_page :: "'st \<Rightarrow> 'q \<Rightarrow> cursor option \<Rightarrow> int \<Rightarrow> ('a list \<times> cursor option) result"
  assumes idents_distinct: "inv st \<Longrightarrow> distinct (map ident (rows st q))"
    and idents_non_empty: "inv st \<Longrightarrow> r \<in> set (rows st q) \<Longrightarrow> ident r \<noteq> ''''"
    and pages: "allowed n \<Longrightarrow> list_page st q cur n = cursor_page ident err (rows st q) cur n"
begin

lemma page_at:
  assumes "inv st" "allowed n" "0 < n" "i \<le> length (rows st q)"
    and "cur = (if i = 0 then None else Some (cursor_after (ident (rows st q ! (i - 1)))))"
  shows "list_page st q cur n = Inr (take (nat n) (drop i (rows st q)),
    if i + nat n < length (rows st q)
    then Some (cursor_after (ident (rows st q ! (i + nat n - 1)))) else None)"
proof -
  have "page_offset ident err (rows st q) cur = Inr i"
  proof (cases i)
    case 0
    then show ?thesis using assms(5) by (simp add: page_offset_def)
  next
    case (Suc j)
    then show ?thesis
      using assms page_offset_after[OF idents_distinct[OF assms(1)], of j q]
        idents_non_empty[OF assms(1), of "rows st q ! j" q] by simp
  qed
  then show ?thesis
    using assms by (simp add: pages cursor_page_from)
qed

lemma walk_from:
  assumes "inv st" "allowed n" "0 < n" "i \<le> length (rows st q)" "length (rows st q) - i < k"
    and "cur = (if i = 0 then None else Some (cursor_after (ident (rows st q ! (i - 1)))))"
  shows "walk_pages (\<lambda>c. list_page st q c n) k cur = Inr (drop i (rows st q))"
  using assms(4-6)
proof (induction k arbitrary: i cur)
  case 0
  then show ?case by simp
next
  case (Suc k)
  note page = page_at[OF assms(1-3) Suc.prems(1,3)]
  show ?case
  proof (cases "i + nat n < length (rows st q)")
    case False
    then show ?thesis using page by simp
  next
    case True
    have "walk_pages (\<lambda>c. list_page st q c n) k
        (Some (cursor_after (ident (rows st q ! (i + nat n - 1))))) =
        Inr (drop (i + nat n) (rows st q))"
      using Suc.IH[of "i + nat n"] True Suc.prems(2) assms(3) by simp
    moreover have "take (nat n) (drop i (rows st q)) @ drop (i + nat n) (rows st q) =
        drop i (rows st q)"
      by (metis add.commute append_take_drop_id drop_drop)
    ultimately show ?thesis using page True by simp
  qed
qed

text \<open>Following the cursors from the start gives every row once, in order.\<close>

lemma walk_all:
  assumes "inv st" "allowed n" "0 < n" "length (rows st q) < k"
  shows "walk_pages (\<lambda>c. list_page st q c n) k None = Inr (rows st q)"
  using walk_from[OF assms(1-3), of 0 q k None] assms(4) by simp

end

end
