(* ===== verification/Recovery_Pages.thy ===== *)
theory Recovery_Pages
  imports Pagination
begin

text \<open>
  Sequence-cursor pages. The recovery sweep reads unfinished executions, unmaterialized events and
  unfinished deliveries with the same code: the rows past the cursor, sorted by their sequence number,
  cut at the limit, with a next cursor exactly when the page is full.
\<close>

definition past_cursor :: "int option \<Rightarrow> int \<Rightarrow> bool" where
  "past_cursor cur n \<longleftrightarrow> (case cur of None \<Rightarrow> True | Some c \<Rightarrow> c < n)"

lemma past_cursor_simps [simp]: "past_cursor None n" "past_cursor (Some c) n \<longleftrightarrow> c < n"
  by (simp_all add: past_cursor_def)

definition seq_page :: "('a \<Rightarrow> int) \<Rightarrow> 'a list \<Rightarrow> int option \<Rightarrow> int \<Rightarrow> 'a list \<times> int option" where
  "seq_page num rows cur limit =
     (let page = js_slice (sort_key num (filter (\<lambda>r. past_cursor cur (num r)) rows)) 0 limit in
      (page, if int (length page) = limit \<and> page \<noteq> [] then Some (num (last page)) else None))"

text \<open>
  The loops of the sweep: \<open>for (const row of rows) body(row)\<close>, and the \<open>do .. while (cursor !== undefined)\<close>
  around it. The body may write, and may throw in the middle of a page. Fuel bounds the number of pages,
  \<^term>\<open>None\<close> means that it did not suffice.
\<close>

fun for_each :: "('a \<Rightarrow> 's \<Rightarrow> 's \<times> unit result) \<Rightarrow> 'a list \<Rightarrow> 's \<Rightarrow> 's \<times> unit result" where
  "for_each body [] st = (st, Inr ())"
| "for_each body (r # rs) st =
     (case body r st of (st', Inl e) \<Rightarrow> (st', Inl e) | (st', Inr _) \<Rightarrow> for_each body rs st')"

fun sweep ::
    "('s \<Rightarrow> int option \<Rightarrow> ('a list \<times> int option) result) \<Rightarrow> ('a \<Rightarrow> 's \<Rightarrow> 's \<times> unit result) \<Rightarrow> nat \<Rightarrow>
     int option \<Rightarrow> 's \<Rightarrow> ('s \<times> unit result) option" where
  "sweep page body 0 cur st = None"
| "sweep page body (Suc n) cur st =
     (case page st cur of
        Inl e \<Rightarrow> Some (st, Inl e)
      | Inr (rows, nxt) \<Rightarrow>
          (case for_each body rows st of
             (st', Inl e) \<Rightarrow> Some (st', Inl e)
           | (st', Inr _) \<Rightarrow>
               (case nxt of None \<Rightarrow> Some (st', Inr ()) | Some c \<Rightarrow> sweep page body n (Some c) st')))"

lemma for_each_append:
  "for_each body (xs @ ys) st =
     (case for_each body xs st of (st', Inl e) \<Rightarrow> (st', Inl e) | (st', Inr _) \<Rightarrow> for_each body ys st')"
  by (induction xs arbitrary: st) (auto split: prod.splits sum.splits)

lemma for_each_keeps:
  assumes "\<And>r s. P s \<Longrightarrow> r \<in> set rs \<Longrightarrow> P (fst (body r s))" "P st"
  shows "P (fst (for_each body rs st))"
  using assms by (induction rs arbitrary: st) (fastforce split: prod.splits sum.splits)+

text \<open>On rows with strictly increasing numbers the rows past the last one of a prefix are the rest.\<close>

lemma filter_past:
  fixes num :: "'a \<Rightarrow> int"
  assumes "sorted_wrt (\<lambda>x y. num x < num y) rows" "i < length rows"
  shows "filter (\<lambda>r. num (rows ! i) < num r) rows = drop (Suc i) rows"
proof -
  have "\<not> num (rows ! i) < num r" if "r \<in> set (take (Suc i) rows)" for r
  proof -
    obtain j where "j \<le> i" "r = rows ! j"
      using \<open>r \<in> set (take (Suc i) rows)\<close> assms(2) by (auto simp: in_set_conv_nth less_Suc_eq_le)
    then show ?thesis
      using sorted_wrt_nth_less[OF assms(1), of j i] assms(2) by (cases "j = i") auto
  qed
  moreover have "num (rows ! i) < num r" if "r \<in> set (drop (Suc i) rows)" for r
  proof -
    obtain k where "k < length rows - Suc i" "r = drop (Suc i) rows ! k"
      using \<open>r \<in> set (drop (Suc i) rows)\<close> by (auto simp: in_set_conv_nth)
    then show ?thesis
      using sorted_wrt_nth_less[OF assms(1), of i "Suc i + k"] by simp
  qed
  ultimately have "filter (\<lambda>r. num (rows ! i) < num r) (take (Suc i) rows) = []"
    "filter (\<lambda>r. num (rows ! i) < num r) (drop (Suc i) rows) = drop (Suc i) rows"
    by (simp_all add: filter_empty_conv filter_id_conv)
  then have "filter (\<lambda>r. num (rows ! i) < num r) (take (Suc i) rows @ drop (Suc i) rows) =
      drop (Suc i) rows"
    by (simp only: filter_append append_Nil)
  then show ?thesis by simp
qed

lemma sorted_by_unique:
  fixes num :: "'a \<Rightarrow> int"
  assumes "sorted_wrt (\<lambda>x y. num x < num y) xs" "sorted_wrt (\<lambda>x y. num x < num y) ys" "set xs = set ys"
  shows "xs = ys"
proof -
  have "sorted_wrt (<) (map num xs)" "sorted_wrt (<) (map num ys)" using assms(1,2) by (simp_all add: sorted_wrt_map)
  moreover from this have "inj_on num (set xs \<union> set ys)" using assms(3) by (auto simp: strict_sorted_iff distinct_map)
  moreover have "set (map num xs) = set (map num ys)" using assms(3) by simp
  ultimately show ?thesis using strict_sorted_equal map_inj_on by blast
qed

text \<open>
  What a store promises the sweep: in a state that satisfies the invariant its candidates have
  distinct numbers, and its pages are the sequence pages of the candidates.
\<close>

locale recovery_listing =
  fixes inv :: "'st \<Rightarrow> bool"
    and candidates :: "'st \<Rightarrow> 'a list"
    and num :: "'a \<Rightarrow> int"
    and list_page :: "'st \<Rightarrow> int option \<Rightarrow> int \<Rightarrow> ('a list \<times> int option) result"
  assumes distinct_numbers: "inv st \<Longrightarrow> distinct (map num (candidates st))"
    and pages: "inv st \<Longrightarrow> is_safe_integer n \<Longrightarrow> 1 \<le> n \<Longrightarrow>
      list_page st cur n = Inr (seq_page num (candidates st) cur n)"
begin

text \<open>One page, and what is left after it.\<close>

definition rest_after :: "'st \<Rightarrow> int option \<Rightarrow> 'a list" where
  "rest_after st cur = sort_key num (filter (\<lambda>r. past_cursor cur (num r)) (candidates st))"

lemma rest_after_sorted:
  assumes "inv st"
  shows "sorted_wrt (\<lambda>x y. num x < num y) (rest_after st cur)"
proof -
  have "distinct (map num (rest_after st cur))"
    using distinct_numbers[OF assms] by (simp add: rest_after_def distinct_map inj_on_def)
  then have "sorted_wrt (<) (map num (rest_after st cur))"
    by (simp add: rest_after_def strict_sorted_iff)
  then show ?thesis by (simp add: sorted_wrt_map)
qed

lemma rest_after_last:
  assumes "inv st" "i < length (rest_after st cur)"
  shows "rest_after st (Some (num (rest_after st cur ! i))) = drop (Suc i) (rest_after st cur)"
proof -
  let ?rows = "rest_after st cur"
  have past: "past_cursor cur (num (?rows ! i))"
    using nth_mem[OF assms(2)] by (simp add: rest_after_def)
  have "rest_after st (Some (num (?rows ! i))) = filter (\<lambda>r. num (?rows ! i) < num r) ?rows"
  proof -
    have "filter (\<lambda>r. num (?rows ! i) < num r) (candidates st) =
        filter (\<lambda>r. num (?rows ! i) < num r) (filter (\<lambda>r. past_cursor cur (num r)) (candidates st))"
      using past by (auto simp: past_cursor_def intro!: filter_cong split: option.splits)
    then show ?thesis by (simp add: rest_after_def filter_sort)
  qed
  then show ?thesis using filter_past[OF rest_after_sorted[OF assms(1)] assms(2)] by simp
qed

text \<open>A body may remove the row it works on, and rows before it, from the candidates, not later ones.\<close>

definition keeps_later :: "('a \<Rightarrow> 'st \<Rightarrow> 'st \<times> unit result) \<Rightarrow> bool" where
  "keeps_later body \<longleftrightarrow> (\<forall>r st. inv st \<and> r \<in> set (candidates st) \<longrightarrow> inv (fst (body r st)) \<and>
     {x \<in> set (candidates (fst (body r st))). num r < num x} = {x \<in> set (candidates st). num r < num x})"

lemma keeps_laterD:
  assumes "keeps_later body" "inv st" "r \<in> set (candidates st)"
  shows "inv (fst (body r st))"
    and "num r < num x \<Longrightarrow> x \<in> set (candidates (fst (body r st))) \<longleftrightarrow> x \<in> set (candidates st)"
  using assms by (auto simp: keeps_later_def set_eq_iff)

lemma rest_after_unique:
  assumes "inv st" "inv st'" "\<And>x. c < num x \<Longrightarrow> x \<in> set (candidates st') \<longleftrightarrow> x \<in> set (candidates st)"
  shows "rest_after st' (Some c) = rest_after st (Some c)"
  by (rule sorted_by_unique[OF rest_after_sorted[OF assms(2)] rest_after_sorted[OF assms(1)]])
    (use assms(3) in \<open>auto simp: rest_after_def\<close>)

text \<open>The candidates that a loop is still to visit, in order of their numbers.\<close>

definition to_visit :: "'a list \<Rightarrow> 'st \<Rightarrow> bool" where
  "to_visit rs st \<longleftrightarrow> inv st \<and> sorted_wrt (\<lambda>x y. num x < num y) rs \<and> set rs \<subseteq> set (candidates st)"

lemma to_visit_next: "keeps_later body \<Longrightarrow> to_visit (r # rs) st \<Longrightarrow> to_visit rs (fst (body r st))"
  unfolding to_visit_def using keeps_laterD[of body st r] by auto

lemma for_each_later:
  assumes "keeps_later body" "to_visit rs st" "\<forall>r \<in> set rs. num r \<le> c"
  shows "inv (fst (for_each body rs st)) \<and> rest_after (fst (for_each body rs st)) (Some c) = rest_after st (Some c)"
  using assms(2,3)
proof (induction rs arbitrary: st)
  case Nil
  then show ?case by (simp add: to_visit_def)
next
  case (Cons r rs)
  have r: "inv st" "r \<in> set (candidates st)" "num r \<le> c" using Cons.prems by (auto simp: to_visit_def)
  note step = keeps_laterD[OF assms(1) r(1,2)]
  have "rest_after (fst (body r st)) (Some c) = rest_after st (Some c)"
    by (rule rest_after_unique[OF r(1) step(1)]) (use step(2) r(3) in fastforce)
  then show ?case
    using Cons.IH[OF to_visit_next[OF assms(1) Cons.prems(1)]] Cons.prems(2) step(1) by (auto split: prod.splits sum.splits)
qed

text \<open>What every iteration keeps; and what each establishes and the others keep.\<close>

lemma for_each_holds:
  assumes "keeps_later body" "to_visit rs st" "P st"
    and keep: "\<And>r s. inv s \<Longrightarrow> r \<in> set rs \<Longrightarrow> r \<in> set (candidates s) \<Longrightarrow> P s \<Longrightarrow> P (fst (body r s))"
  shows "inv (fst (for_each body rs st)) \<and> P (fst (for_each body rs st))"
  using assms(2-)
proof (induction rs arbitrary: st)
  case Nil
  then show ?case by (simp add: to_visit_def)
next
  case (Cons r rs)
  have r: "inv st" "r \<in> set (candidates st)" using Cons.prems(1) by (auto simp: to_visit_def)
  have "P (fst (body r st))" using Cons.prems(2,3) r by simp
  then have "inv (fst (for_each body rs (fst (body r st)))) \<and> P (fst (for_each body rs (fst (body r st))))"
    using Cons.IH[OF to_visit_next[OF assms(1) Cons.prems(1)]] Cons.prems(3) by simp
  then show ?case
    using \<open>P (fst (body r st))\<close> keeps_laterD(1)[OF assms(1) r] by (auto split: prod.splits sum.splits)
qed

lemma for_each_visits:
  assumes "keeps_later body" "to_visit rs st" "for_each body rs st = (st', Inr ())"
    and est: "\<And>r s s'. inv s \<Longrightarrow> r \<in> set rs \<Longrightarrow> r \<in> set (candidates s) \<Longrightarrow> body r s = (s', Inr ()) \<Longrightarrow> Q r s'"
    and keep: "\<And>q r s. inv s \<Longrightarrow> r \<in> set rs \<Longrightarrow> r \<in> set (candidates s) \<Longrightarrow> q \<in> set rs \<Longrightarrow> num q < num r \<Longrightarrow>
      Q q s \<Longrightarrow> Q q (fst (body r s))"
  shows "\<forall>r \<in> set rs. Q r st'"
  using assms(2-)
proof (induction rs arbitrary: st)
  case (Cons r rs)
  obtain s1 where s1: "body r st = (s1, Inr ())" "for_each body rs s1 = (st', Inr ())"
    using Cons.prems(2) by (auto split: prod.splits sum.splits)
  have r: "inv st" "r \<in> set (candidates st)" using Cons.prems(1) by (auto simp: to_visit_def)
  have visit: "to_visit rs s1" using to_visit_next[OF assms(1) Cons.prems(1)] s1(1) by simp
  have "Q r s1" using Cons.prems(3)[OF r(1) _ r(2) s1(1)] by simp
  moreover have "\<forall>x \<in> set rs. num r < num x" using Cons.prems(1) by (simp add: to_visit_def)
  ultimately have "Q r (fst (for_each body rs s1))"
    using for_each_holds[OF assms(1) visit, of "Q r"] Cons.prems(4) by auto
  moreover have "\<forall>x \<in> set rs. Q x st'"
    by (rule Cons.IH[OF visit s1(2)]) (use Cons.prems(3,4) in auto)
  ultimately show ?case using s1(2) by simp
qed simp

lemma sweep_from:
  assumes body: "keeps_later body" and n: "is_safe_integer n" "1 \<le> n"
  shows "inv st \<Longrightarrow> length (rest_after st cur) < k \<Longrightarrow>
    sweep (\<lambda>s c. list_page s c n) body k cur st = Some (for_each body (rest_after st cur) st)"
proof (induction k arbitrary: st cur)
  case (Suc k)
  let ?rows = "rest_after st cur"
  let ?page = "take (nat n) ?rows"
  have page: "js_slice ?rows 0 n = ?page" using n(2) by (simp add: js_slice_nonneg)
  have list: "list_page st cur n = Inr (?page,
      if int (length ?page) = n \<and> ?page \<noteq> [] then Some (num (last ?page)) else None)"
    using pages[OF Suc.prems(1) n] page by (simp add: seq_page_def rest_after_def Let_def)
  show ?case
  proof (cases "nat n \<le> length ?rows")
    case False
    then show ?thesis
      using list n(2) by (auto split: prod.splits sum.splits)
  next
    case True
    let ?c = "num (last ?page)"
    have last: "last ?page = ?rows ! (nat n - 1)"
      using True n(2) by (subst last_conv_nth) (auto simp: min_def)
    have nxt: "list_page st cur n = Inr (?page, Some ?c)" using list True n(2) by auto
    have rest: "rest_after st (Some ?c) = drop (nat n) ?rows"
      using rest_after_last[OF Suc.prems(1), of "nat n - 1" cur] True n(2) last by simp
    have "num r \<le> ?c" if "r \<in> set ?page" for r
    proof -
      obtain j where j: "j < nat n" "j < length ?rows" "r = ?rows ! j"
        using \<open>r \<in> set ?page\<close> by (auto simp: in_set_conv_nth)
      have bound: "nat n - 1 < length ?rows" using True n(2) by linarith
      show ?thesis
      proof (cases "j = nat n - 1")
        case False
        then have "j < nat n - 1" using j(1) by linarith
        then show ?thesis
          using sorted_wrt_nth_less[OF rest_after_sorted[OF Suc.prems(1), of cur] _ bound] j(3) last
          by (simp add: less_imp_le)
      qed (use j(3) last in simp)
    qed
    moreover have visit: "to_visit ?page st"
      unfolding to_visit_def using Suc.prems(1) rest_after_sorted[OF Suc.prems(1)]
      by (auto simp: rest_after_def sorted_wrt_take dest!: in_set_takeD)
    ultimately have later: "inv (fst (for_each body ?page st))"
      "rest_after (fst (for_each body ?page st)) (Some ?c) = drop (nat n) ?rows"
      using for_each_later[OF body visit, of ?c] rest by auto
    have split: "?rows = ?page @ drop (nat n) ?rows" by simp
    have "for_each body ?rows st = (case for_each body ?page st of (st', Inl e) \<Rightarrow> (st', Inl e)
        | (st', Inr _) \<Rightarrow> for_each body (drop (nat n) ?rows) st')"
      by (subst split) (rule for_each_append)
    moreover have "sweep (\<lambda>s c. list_page s c n) body k (Some ?c) (fst (for_each body ?page st)) =
        Some (for_each body (drop (nat n) ?rows) (fst (for_each body ?page st)))"
      using Suc.IH[OF later(1), of "Some ?c"] later(2) Suc.prems(2) True n(2) by simp
    ultimately show ?thesis using nxt by (auto split: prod.splits sum.splits)
  qed
qed simp

text \<open>The loop ends and visits every candidate once, in order of its number.\<close>

lemma visit_all: "inv st \<Longrightarrow> to_visit (sort_key num (candidates st)) st"
  using rest_after_sorted[of st None] by (simp add: to_visit_def rest_after_def)

lemma sweep_all:
  assumes "keeps_later body" "is_safe_integer n" "1 \<le> n" "inv st" "length (candidates st) < k"
  shows "sweep (\<lambda>s c. list_page s c n) body k None st = Some (for_each body (sort_key num (candidates st)) st)"
  using sweep_from[OF assms(1-4), of None k] assms(5) by (simp add: rest_after_def)

end

end
