(* ===== verification/Execution_Store.thy ===== *)
theory Execution_Store
  imports Execution_Types Recovery_Pages
begin

text \<open>
  The in-memory execution store (\<open>apps/executor/src/store.ts\<close>): allocation with idempotency
  reservations, status updates, cancellation, terminal waiters, restart metadata, listings. Each
  method runs without an \<open>await\<close> between its reads and its writes, so each is one atomic state
  transformer. A pending promise of \<open>waitForTerminal\<close> is a number \<open>w\<close> that its caller supplies; the
  operations that settle promises return which ones they resolve, and with what.
\<close>

subsection \<open>Data\<close>

record idempotency_scope =
  is_key :: string
  is_tool :: string
  is_user :: string
  is_connection :: string
  is_catalog_major :: string

record idempotency_reservation =
  ir_scope :: idempotency_scope
  ir_request_hash :: string
  ir_expires_at :: timestamp

record stored_idempotency = idempotency_reservation +
  si_project :: string
  si_execution :: string
  si_resolved_connection :: "string option"

record resume_context =
  rc_tool :: string
  rc_tool_version :: string
  rc_toolkit_slug :: string
  rc_required_scopes :: "string list"
  rc_concurrency_bucket_key :: string
  rc_concurrency_limit :: "int option"
  rc_usage_report :: "usage_report_context option"
  rc_usage_reservation :: "usage_reservation_handle option"
  rc_trace_parent :: "string option"

record recovery_allocation =
  ra_resume_context :: resume_context
  ra_webhook_event_id :: string

record execution_allocation =
  al_project :: string
  al_record :: execution_record
  al_request :: execute_request
  al_idempotency :: "idempotency_reservation option"
  al_recovery :: "recovery_allocation option"

record stored_execution =
  se_sequence :: int
  se_record :: execution_record
  se_request :: execute_request
  se_idempotency_key :: "string option"
  se_resolved_connection :: "string option"
  se_resume_context :: "resume_context option"
  se_dispatch_started_at :: "timestamp option"
  se_webhook_event_id :: "string option"
  se_webhook_published_at :: "timestamp option"
  se_usage_finalized_at :: "timestamp option"
  se_replay_observed_at :: "timestamp option"

record recoverable_execution =
  rv_sequence :: int
  rv_project :: string
  rv_record :: execution_record
  rv_request :: execute_request
  rv_resume_context :: "resume_context option"
  rv_dispatch_started_at :: "timestamp option"
  rv_webhook_event_id :: "string option"
  rv_webhook_published_at :: "timestamp option"
  rv_usage_finalized_at :: "timestamp option"

record execution_detail =
  dt_record :: execution_record
  dt_project :: string
  dt_input :: "(string \<times> json) list"
  dt_mode :: execution_mode
  dt_connection :: "string option"
  dt_idempotency_key :: "string option"

datatype allocation_result = Alloc_Allocated execution_record | Alloc_Replay execution_record | Alloc_Conflict

datatype allocation_inspection = Inspect_Available | Inspect_Replay execution_record | Inspect_Conflict

datatype cancellation_result =
    Cancelled_Now execution_record
  | Already_Cancelled execution_record
  | Already_Terminal execution_record
  | Cancel_Not_Found

record execution_filters =
  xf_status :: "execution_status option"
  xf_tool :: "string option"
  xf_user :: "string option"

text \<open>\<open>idempotencyStorageKey\<close>: project, tool, user, connection, catalog major, key.\<close>

type_synonym idempotency_key = "string \<times> string \<times> string \<times> string \<times> string \<times> string"

text \<open>A settled promise: which one, and its value.\<close>

type_synonym settlement = "nat \<times> execution_record"

record execution_store =
  executions :: "(string \<times> (string \<times> stored_execution) list) list"
  idempotency :: "(idempotency_key \<times> stored_idempotency) list"
  idempotency_by_execution :: "((string \<times> string) \<times> idempotency_key) list"
  terminal_waiters :: "((string \<times> string) \<times> nat list) list"
  exec_sequence :: int

definition empty_execution_store :: execution_store where
  "empty_execution_store = \<lparr>executions = [], idempotency = [], idempotency_by_execution = [],
     terminal_waiters = [], exec_sequence = 0\<rparr>"

subsection \<open>Helpers of the module\<close>

definition project_execution_record ::
    "execution_record \<Rightarrow> timestamp option \<Rightarrow> execution_record" where
  "project_execution_record record replay_observed_at =
     (if replay_observed_at = None then record else record\<lparr>ex_replayed := True\<rparr>)"

definition cancelled_execution_record ::
    "execution_record \<Rightarrow> timestamp \<Rightarrow> timestamp option \<Rightarrow> execution_record result" where
  "cancelled_execution_record record cancelled_at dispatch_started_at =
     (case date_parse cancelled_at of
        None \<Rightarrow> Inl (Type_Error ''Execution cancellation time must be a timestamp.'')
      | Some completed_at \<Rightarrow>
          let latency_start = (case ex_started_at record of
                None \<Rightarrow> ex_created_at record | Some t \<Rightarrow> t) in
          case date_parse latency_start of
            None \<Rightarrow> Inl (Type_Error ''Execution latency start must be a timestamp.'')
          | Some latency_start_ms \<Rightarrow>
              let dispatch_may_have_begun = (dispatch_started_at \<noteq> None) in
              Inr \<lparr>ex_id = ex_id record, ex_tool = ex_tool record,
                ex_tool_version = ex_tool_version record,
                ex_catalog_version = ex_catalog_version record,
                ex_user = ex_user record, ex_created_at = ex_created_at record,
                ex_started_at = ex_started_at record, ex_completed_at = Some (Iso completed_at),
                ex_replayed = False, ex_source = ex_source record,
                ex_attachments = ex_attachments record,
                ex_outcome = Out_Cancelled
                  \<lparr>te_code = Code_Execution_Cancelled,
                   te_message = (if dispatch_may_have_begun
                     then ''Execution was cancelled after provider dispatch may have begun; upstream work may still complete.''
                     else ''Execution was cancelled before provider dispatch.''),
                   te_retryable = False, te_retry_after = None, te_provider = None\<rparr>
                  (max 0 (completed_at - latency_start_ms)) dispatch_may_have_begun\<rparr>)"

definition idempotency_storage_key :: "string \<Rightarrow> idempotency_scope \<Rightarrow> idempotency_key" where
  "idempotency_storage_key project_id scope =
     (project_id, is_tool scope, is_user scope, is_connection scope, is_catalog_major scope,
      is_key scope)"

definition invalid_execution_cursor :: js_error where
  "invalid_execution_cursor =
     Named_Error ''InvalidExecutionCursorError'' ''Execution cursor is invalid.''"

definition execution_cursor_after :: "string \<Rightarrow> cursor" where
  "execution_cursor_after = cursor_after"

definition execution_id_from_cursor :: "cursor \<Rightarrow> string result" where
  "execution_id_from_cursor = id_from_cursor invalid_execution_cursor"

fun status_text :: "execution_status \<Rightarrow> string" where
  "status_text St_Pending = ''pending''"
| "status_text St_Running = ''running''"
| "status_text St_Succeeded = ''succeeded''"
| "status_text St_Failed = ''failed''"
| "status_text St_Cancelled = ''cancelled''"

definition transition_conflict :: "execution_status \<Rightarrow> execution_status \<Rightarrow> js_error" where
  "transition_conflict previous nxt = Named_Error ''ExecutionTransitionConflictError''
     (''Invalid execution transition: '' @ status_text previous @ '' -> '' @ status_text nxt)"

definition valid_transition :: "execution_status \<Rightarrow> execution_status \<Rightarrow> bool" where
  "valid_transition previous nxt \<longleftrightarrow>
     (previous = St_Pending \<and> (nxt = St_Running \<or> nxt = St_Failed \<or> nxt = St_Cancelled)) \<or>
     (previous = St_Running \<and> (nxt = St_Succeeded \<or> nxt = St_Failed \<or> nxt = St_Cancelled))"

definition same_identity :: "execution_record \<Rightarrow> execution_record \<Rightarrow> bool" where
  "same_identity previous nxt \<longleftrightarrow>
     ex_tool previous = ex_tool nxt \<and> ex_tool_version previous = ex_tool_version nxt \<and>
     ex_catalog_version previous = ex_catalog_version nxt \<and> ex_user previous = ex_user nxt \<and>
     ex_created_at previous = ex_created_at nxt \<and> ex_source previous = ex_source nxt \<and>
     ex_attachments previous = ex_attachments nxt"

definition assert_execution_transition :: "execution_record \<Rightarrow> execution_record \<Rightarrow> unit result" where
  "assert_execution_transition previous nxt =
     (if ex_replayed nxt
      then Inl (Plain_Error ''Execution replay provenance must be persisted through markReplayed.'')
      else if ex_id previous \<noteq> ex_id nxt
      then Inl (Plain_Error ''Execution update changed its execution ID.'')
      else if \<not> same_identity previous nxt
      then Inl (Plain_Error ''Execution identity fields are immutable.'')
      else if \<not> valid_transition (ex_status previous) (ex_status nxt)
      then Inl (transition_conflict (ex_status previous) (ex_status nxt))
      else Inr ())"

definition unknown_execution :: "string \<Rightarrow> js_error" where
  "unknown_execution e = Plain_Error (''Unknown execution ID: '' @ e)"

definition find_execution ::
    "execution_store \<Rightarrow> string \<Rightarrow> string \<Rightarrow> stored_execution option" where
  "find_execution st p e = (case map_of (executions st) p of None \<Rightarrow> None | Some m \<Rightarrow> map_of m e)"

text \<open>An assignment to fields of a stored row, which the maps share by reference.\<close>

definition put_execution ::
    "string \<Rightarrow> string \<Rightarrow> stored_execution \<Rightarrow> execution_store \<Rightarrow> execution_store" where
  "put_execution p e row st = st\<lparr>executions := js_set p
     (js_set e row (case map_of (executions st) p of None \<Rightarrow> [] | Some m \<Rightarrow> m)) (executions st)\<rparr>"

definition project_executions :: "string \<Rightarrow> execution_store \<Rightarrow> execution_store" where
  "project_executions p st =
     (if map_of (executions st) p = None then st\<lparr>executions := js_set p [] (executions st)\<rparr> else st)"

definition projected :: "stored_execution \<Rightarrow> execution_record" where
  "projected row = project_execution_record (se_record row) (se_replay_observed_at row)"

subsection \<open>Allocation\<close>

definition inspect_allocation ::
    "execution_allocation \<Rightarrow> execution_store \<Rightarrow> allocation_inspection result" where
  "inspect_allocation a st =
     (case al_idempotency a of
        None \<Rightarrow> Inr Inspect_Available
      | Some reservation \<Rightarrow>
          (case map_of (idempotency st)
                 (idempotency_storage_key (al_project a) (ir_scope reservation)) of
             None \<Rightarrow> Inr Inspect_Available
           | Some existing \<Rightarrow>
               if num_le (date_parse (ir_expires_at existing))
                         (date_parse (ex_created_at (al_record a)))
               then Inr Inspect_Available
               else if ir_request_hash existing \<noteq> ir_request_hash reservation
               then Inr Inspect_Conflict
               else (case find_execution st (al_project a) (si_execution existing) of
                       None \<Rightarrow> Inl (Plain_Error
                         ''Execution idempotency record references an unknown execution.'')
                     | Some row \<Rightarrow> Inr (Inspect_Replay (projected row)))))"

definition new_stored_execution :: "execution_allocation \<Rightarrow> int \<Rightarrow> stored_execution" where
  "new_stored_execution a n =
     \<lparr>se_sequence = n, se_record = al_record a, se_request = al_request a,
      se_idempotency_key = map_option (\<lambda>r. is_key (ir_scope r)) (al_idempotency a),
      se_resolved_connection = None,
      se_resume_context = map_option ra_resume_context (al_recovery a),
      se_dispatch_started_at = None,
      se_webhook_event_id = map_option ra_webhook_event_id (al_recovery a),
      se_webhook_published_at = None, se_usage_finalized_at = None, se_replay_observed_at = None\<rparr>"

definition reserve :: "execution_allocation \<Rightarrow> idempotency_reservation \<Rightarrow> stored_idempotency" where
  "reserve a r = \<lparr>ir_scope = ir_scope r, ir_request_hash = ir_request_hash r,
     ir_expires_at = ir_expires_at r, si_project = al_project a, si_execution = ex_id (al_record a),
     si_resolved_connection = None\<rparr>"

text \<open>Replace an expired reservation of the key, if any, by the new one.\<close>

definition store_reservation ::
    "execution_allocation \<Rightarrow> idempotency_reservation \<Rightarrow> execution_store \<Rightarrow> execution_store" where
  "store_reservation a r st =
     (let key = idempotency_storage_key (al_project a) (ir_scope r);
          cleaned = (case map_of (idempotency st) key of
            None \<Rightarrow> st
          | Some expired \<Rightarrow> st\<lparr>idempotency := js_delete key (idempotency st),
              idempotency_by_execution := js_delete (si_project expired, si_execution expired)
                (idempotency_by_execution st)\<rparr>) in
      cleaned\<lparr>idempotency := js_set key (reserve a r) (idempotency cleaned),
        idempotency_by_execution := js_set (al_project a, ex_id (al_record a)) key
          (idempotency_by_execution cleaned)\<rparr>)"

text \<open>The answer of an unexpired reservation: conflict, replay, or (a dangling one) none.\<close>

definition reservation_answer ::
    "execution_allocation \<Rightarrow> execution_store \<Rightarrow> allocation_result option" where
  "reservation_answer a st =
     (case al_idempotency a of
        None \<Rightarrow> None
      | Some reservation \<Rightarrow>
          (case map_of (idempotency st)
                 (idempotency_storage_key (al_project a) (ir_scope reservation)) of
             None \<Rightarrow> None
           | Some existing \<Rightarrow>
               if num_less (date_parse (ex_created_at (al_record a)))
                           (date_parse (ir_expires_at existing))
               then if ir_request_hash existing \<noteq> ir_request_hash reservation then Some Alloc_Conflict
                    else map_option (\<lambda>row. Alloc_Replay (projected row))
                           (find_execution st (al_project a) (si_execution existing))
               else None))"

definition allocate_execution ::
    "execution_allocation \<Rightarrow> execution_store \<Rightarrow> (execution_store \<times> allocation_result) result" where
  "allocate_execution a st0 =
     (if ex_replayed (al_record a)
      then Inl (Plain_Error ''Execution replay provenance must be persisted through markReplayed().'')
      else
        let st = project_executions (al_project a) st0 in
        case reservation_answer a st of
          Some answer \<Rightarrow> Inr (st, answer)
        | None \<Rightarrow>
            if find_execution st (al_project a) (ex_id (al_record a)) \<noteq> None
            then Inl (Plain_Error (''Duplicate execution ID: '' @ ex_id (al_record a)))
            else
              let reserved = (case al_idempotency a of
                    None \<Rightarrow> st | Some r \<Rightarrow> store_reservation a r st);
                  n = exec_sequence reserved + 1 in
              Inr (put_execution (al_project a) (ex_id (al_record a)) (new_stored_execution a n)
                     (reserved\<lparr>exec_sequence := n\<rparr>),
                   Alloc_Allocated (al_record a)))"

subsection \<open>Reads\<close>

definition get_execution :: "string \<Rightarrow> string \<Rightarrow> execution_store \<Rightarrow> execution_record option" where
  "get_execution p e st = map_option projected (find_execution st p e)"

definition get_detail :: "string \<Rightarrow> string \<Rightarrow> execution_store \<Rightarrow> execution_detail option" where
  "get_detail p e st = map_option (\<lambda>row.
     \<lparr>dt_record = projected row, dt_project = p, dt_input = rq_input (se_request row),
      dt_mode = rq_mode (se_request row),
      dt_connection = (case se_resolved_connection row of
        Some c \<Rightarrow> Some c | None \<Rightarrow> rq_connection (se_request row)),
      dt_idempotency_key = se_idempotency_key row\<rparr>) (find_execution st p e)"

definition recoverable :: "string \<Rightarrow> stored_execution \<Rightarrow> recoverable_execution" where
  "recoverable p row =
     \<lparr>rv_sequence = se_sequence row, rv_project = p, rv_record = projected row,
      rv_request = se_request row, rv_resume_context = se_resume_context row,
      rv_dispatch_started_at = se_dispatch_started_at row,
      rv_webhook_event_id = se_webhook_event_id row,
      rv_webhook_published_at = se_webhook_published_at row,
      rv_usage_finalized_at = se_usage_finalized_at row\<rparr>"

definition get_recoverable :: "string \<Rightarrow> string \<Rightarrow> execution_store \<Rightarrow> recoverable_execution option" where
  "get_recoverable p e st = map_option (recoverable p) (find_execution st p e)"

definition matches_filters :: "execution_filters \<Rightarrow> execution_record \<Rightarrow> bool" where
  "matches_filters f r \<longleftrightarrow>
     (xf_status f = None \<or> xf_status f = Some (ex_status r)) \<and>
     (xf_tool f = None \<or> xf_tool f = Some (ex_tool r)) \<and>
     (xf_user f = None \<or> xf_user f = Some (ex_user r))"

definition listed_executions :: "string \<Rightarrow> execution_filters \<Rightarrow> execution_store \<Rightarrow> execution_record list"
where
  "listed_executions p f st = filter (matches_filters f) (map projected (rev
     (js_values (case map_of (executions st) p of None \<Rightarrow> [] | Some m \<Rightarrow> m))))"

definition list_executions ::
    "string \<Rightarrow> execution_filters \<Rightarrow> cursor option \<Rightarrow> int \<Rightarrow> execution_store \<Rightarrow>
     (execution_record list \<times> cursor option) result" where
  "list_executions p f cur limit st =
     cursor_page ex_id invalid_execution_cursor (listed_executions p f st) cur limit"

definition usage_required :: "stored_execution \<Rightarrow> bool" where
  "usage_required row \<longleftrightarrow> (case se_resume_context row of None \<Rightarrow> False
     | Some c \<Rightarrow> rc_usage_report c \<noteq> None \<or> rc_usage_reservation c \<noteq> None)"

definition needs_recovery :: "stored_execution \<Rightarrow> bool" where
  "needs_recovery row \<longleftrightarrow>
     ex_status (se_record row) = St_Pending \<or> ex_status (se_record row) = St_Running \<or>
     (se_webhook_event_id row \<noteq> None \<and> se_webhook_published_at row = None) \<or>
     (usage_required row \<and> se_usage_finalized_at row = None)"

definition all_stored :: "execution_store \<Rightarrow> (string \<times> stored_execution) list" where
  "all_stored st = concat (map (\<lambda>(p, m). map (Pair p) (js_values m)) (executions st))"

definition list_recovery_candidates ::
    "int option \<Rightarrow> int \<Rightarrow> execution_store \<Rightarrow> (recoverable_execution list \<times> int option) result" where
  "list_recovery_candidates cur limit st =
     (if \<not> is_safe_integer limit \<or> limit < 1
      then Inl (Range_Error ''Execution recovery limit must be positive.'')
      else
        let candidates = js_slice
              (sort_key (\<lambda>(p, row). se_sequence row)
                (filter (\<lambda>(p, row). past_cursor cur (se_sequence row) \<and> needs_recovery row)
                  (all_stored st))) 0 limit;
            page = List.map_filter (\<lambda>(p, row). get_recoverable p (ex_id (se_record row)) st) candidates in
        Inr (page, if int (length candidates) = limit \<and> page \<noteq> []
                   then Some (rv_sequence (last page)) else None))"

subsection \<open>Updates\<close>

text \<open>\<open>stored.x ??= new Date(t).toISOString()\<close>\<close>

definition set_once :: "timestamp option \<Rightarrow> timestamp \<Rightarrow> timestamp option result" where
  "set_once old t = (case old of Some u \<Rightarrow> Inr (Some u)
     | None \<Rightarrow> bind_result (to_iso t) (\<lambda>u. Inr (Some u)))"

definition mark_replayed ::
    "string \<Rightarrow> string \<Rightarrow> timestamp \<Rightarrow> execution_store \<Rightarrow> (execution_store \<times> bool) result" where
  "mark_replayed p e observed_at st =
     (case find_execution st p e of
        None \<Rightarrow> Inr (st, False)
      | Some row \<Rightarrow> bind_result (set_once (se_replay_observed_at row) observed_at) (\<lambda>t.
          Inr (put_execution p e (row\<lparr>se_replay_observed_at := t\<rparr>) st, True)))"

text \<open>Take the waiters of an execution and resolve each with the record.\<close>

definition settle_waiters ::
    "string \<Rightarrow> string \<Rightarrow> execution_record \<Rightarrow> execution_store \<Rightarrow> execution_store \<times> settlement list" where
  "settle_waiters p e r st =
     (st\<lparr>terminal_waiters := js_delete (p, e) (terminal_waiters st)\<rparr>,
      map (\<lambda>w. (w, r)) (case map_of (terminal_waiters st) (p, e) of None \<Rightarrow> [] | Some ws \<Rightarrow> ws))"

definition update_execution ::
    "string \<Rightarrow> execution_record \<Rightarrow> execution_store \<Rightarrow> (execution_store \<times> settlement list) result" where
  "update_execution p r st =
     (case find_execution st p (ex_id r) of
        None \<Rightarrow> Inl (unknown_execution (ex_id r))
      | Some row \<Rightarrow>
          bind_result (assert_execution_transition (se_record row) r) (\<lambda>_.
            let st' = put_execution p (ex_id r) (row\<lparr>se_record := r\<rparr>) st in
            if terminal_status (ex_status r)
            then Inr (settle_waiters p (ex_id r)
                   (project_execution_record r (se_replay_observed_at row)) st')
            else Inr (st', [])))"

definition cancel_execution ::
    "string \<Rightarrow> string \<Rightarrow> timestamp \<Rightarrow> execution_store \<Rightarrow>
     (execution_store \<times> settlement list \<times> cancellation_result) result" where
  "cancel_execution p e cancelled_at st =
     (case find_execution st p e of
        None \<Rightarrow> Inr (st, [], Cancel_Not_Found)
      | Some row \<Rightarrow>
          if ex_status (se_record row) = St_Cancelled
          then Inr (st, [], Already_Cancelled (projected row))
          else if ex_status (se_record row) = St_Succeeded \<or> ex_status (se_record row) = St_Failed
          then Inr (st, [], Already_Terminal (projected row))
          else
            bind_result (cancelled_execution_record (se_record row) cancelled_at
                (se_dispatch_started_at row)) (\<lambda>cancelled.
            bind_result (assert_execution_transition (se_record row) cancelled) (\<lambda>_.
              let st' = put_execution p e (row\<lparr>se_record := cancelled\<rparr>) st;
                  r = project_execution_record cancelled (se_replay_observed_at row);
                  (st'', settled) = settle_waiters p e r st' in
              Inr (st'', settled, Cancelled_Now r))))"

text \<open>An immediate value, or a promise that joined the waiters of the execution.\<close>

definition wait_for_terminal ::
    "string \<Rightarrow> string \<Rightarrow> nat \<Rightarrow> execution_store \<Rightarrow> (execution_store \<times> settlement list) result" where
  "wait_for_terminal p e w st =
     (case find_execution st p e of
        None \<Rightarrow> Inl (unknown_execution e)
      | Some row \<Rightarrow>
          if terminal_status (ex_status (se_record row)) then Inr (st, [(w, projected row)])
          else Inr (st\<lparr>terminal_waiters := js_set (p, e)
            (set_add w (case map_of (terminal_waiters st) (p, e) of None \<Rightarrow> [] | Some ws \<Rightarrow> ws))
            (terminal_waiters st)\<rparr>, []))"

definition set_resolved_connection ::
    "string \<Rightarrow> string \<Rightarrow> string option \<Rightarrow> execution_store \<Rightarrow> execution_store result" where
  "set_resolved_connection p e connection st =
     (case find_execution st p e of
        None \<Rightarrow> Inl (unknown_execution e)
      | Some row \<Rightarrow>
          let st' = put_execution p e (row\<lparr>se_resolved_connection := connection\<rparr>) st in
          Inr (case map_of (idempotency_by_execution st') (p, e) of
            None \<Rightarrow> st'
          | Some key \<Rightarrow>
              (case map_of (idempotency st') key of
                 None \<Rightarrow> st'
               | Some stored \<Rightarrow>
                   if si_project stored \<noteq> p then st'
                   else st'\<lparr>idempotency := js_set key
                          (stored\<lparr>si_resolved_connection := connection\<rparr>) (idempotency st')\<rparr>)))"

definition immutable_event_id :: js_error where
  "immutable_event_id = Plain_Error ''Execution webhook event identity is immutable.''"

definition set_resume_context ::
    "string \<Rightarrow> string \<Rightarrow> recovery_allocation \<Rightarrow> execution_store \<Rightarrow> (execution_store \<times> bool) result" where
  "set_resume_context p e recovery st =
     (case find_execution st p e of
        None \<Rightarrow> Inr (st, False)
      | Some row \<Rightarrow>
          if se_resume_context row \<noteq> None \<and>
             se_resume_context row \<noteq> Some (ra_resume_context recovery)
          then Inl (Plain_Error ''Execution resume context is immutable.'')
          else if se_webhook_event_id row \<noteq> None \<and>
             se_webhook_event_id row \<noteq> Some (ra_webhook_event_id recovery)
          then Inl immutable_event_id
          else Inr (put_execution p e
            (row\<lparr>se_resume_context := Some (ra_resume_context recovery),
                 se_webhook_event_id := Some (ra_webhook_event_id recovery)\<rparr>) st, True))"

definition set_webhook_event_id ::
    "string \<Rightarrow> string \<Rightarrow> string \<Rightarrow> execution_store \<Rightarrow> (execution_store \<times> bool) result" where
  "set_webhook_event_id p e event_id st =
     (case find_execution st p e of
        None \<Rightarrow> Inr (st, False)
      | Some row \<Rightarrow>
          if se_webhook_event_id row \<noteq> None \<and> se_webhook_event_id row \<noteq> Some event_id
          then Inl immutable_event_id
          else Inr (put_execution p e (row\<lparr>se_webhook_event_id := Some event_id\<rparr>) st, True))"

definition mark_dispatch_started ::
    "string \<Rightarrow> string \<Rightarrow> timestamp \<Rightarrow> execution_store \<Rightarrow> (execution_store \<times> bool) result" where
  "mark_dispatch_started p e dispatched_at st =
     (case find_execution st p e of
        None \<Rightarrow> Inr (st, False)
      | Some row \<Rightarrow>
          if ex_status (se_record row) \<noteq> St_Running then Inr (st, False)
          else if se_dispatch_started_at row \<noteq> None then Inr (st, False)
          else bind_result (to_iso dispatched_at) (\<lambda>t.
            Inr (put_execution p e (row\<lparr>se_dispatch_started_at := Some t\<rparr>) st, True)))"

definition mark_usage_finalized ::
    "string \<Rightarrow> string \<Rightarrow> timestamp \<Rightarrow> execution_store \<Rightarrow> (execution_store \<times> bool) result" where
  "mark_usage_finalized p e finalized_at st =
     (case find_execution st p e of
        None \<Rightarrow> Inr (st, False)
      | Some row \<Rightarrow> bind_result (set_once (se_usage_finalized_at row) finalized_at) (\<lambda>t.
          Inr (put_execution p e (row\<lparr>se_usage_finalized_at := t\<rparr>) st, True)))"

definition mark_webhook_published ::
    "string \<Rightarrow> string \<Rightarrow> timestamp \<Rightarrow> execution_store \<Rightarrow> (execution_store \<times> bool) result" where
  "mark_webhook_published p e published_at st =
     (case find_execution st p e of
        None \<Rightarrow> Inr (st, False)
      | Some row \<Rightarrow>
          if se_webhook_event_id row = None then Inr (st, False)
          else bind_result (set_once (se_webhook_published_at row) published_at) (\<lambda>t.
            Inr (put_execution p e (row\<lparr>se_webhook_published_at := t\<rparr>) st, True)))"

end
