(* ===== verification/Execution_Machine.thy ===== *)
theory Execution_Machine
  imports Execution_Store
begin

text \<open>
  The operations of the execution store as events, the abstract machine of one execution row, and
  the well-formedness invariant of the store: every operation moves rows only along the edges of the
  row machine, and the two idempotency maps stay inverse to each other.
\<close>

subsection \<open>Histories of calls\<close>

datatype exec_op =
    X_Allocate execution_allocation
  | X_Update string execution_record
  | X_Cancel string string timestamp
  | X_Wait string string nat
  | X_Connection string string "string option"
  | X_Replayed string string timestamp
  | X_Resume string string recovery_allocation
  | X_Event string string string
  | X_Dispatch string string timestamp
  | X_Usage string string timestamp
  | X_Published string string timestamp

text \<open>The state and the settled promises after a call; a rejected call leaves the state as it was.\<close>

definition after_call :: "execution_store \<Rightarrow> ('r \<Rightarrow> execution_store \<times> settlement list) \<Rightarrow> 'r result \<Rightarrow>
    execution_store \<times> settlement list" where
  "after_call st f r = (case r of Inl _ \<Rightarrow> (st, []) | Inr x \<Rightarrow> f x)"

fun run_exec_op :: "exec_op \<Rightarrow> execution_store \<Rightarrow> execution_store \<times> settlement list" where
  "run_exec_op (X_Allocate a) st = after_call st (\<lambda>x. (fst x, [])) (allocate_execution a st)"
| "run_exec_op (X_Update p r) st = after_call st id (update_execution p r st)"
| "run_exec_op (X_Cancel p e t) st =
     after_call st (\<lambda>x. (fst x, fst (snd x))) (cancel_execution p e t st)"
| "run_exec_op (X_Wait p e w) st = after_call st id (wait_for_terminal p e w st)"
| "run_exec_op (X_Connection p e c) st =
     after_call st (\<lambda>x. (x, [])) (set_resolved_connection p e c st)"
| "run_exec_op (X_Replayed p e t) st = after_call st (\<lambda>x. (fst x, [])) (mark_replayed p e t st)"
| "run_exec_op (X_Resume p e ra) st = after_call st (\<lambda>x. (fst x, [])) (set_resume_context p e ra st)"
| "run_exec_op (X_Event p e i) st = after_call st (\<lambda>x. (fst x, [])) (set_webhook_event_id p e i st)"
| "run_exec_op (X_Dispatch p e t) st =
     after_call st (\<lambda>x. (fst x, [])) (mark_dispatch_started p e t st)"
| "run_exec_op (X_Usage p e t) st = after_call st (\<lambda>x. (fst x, [])) (mark_usage_finalized p e t st)"
| "run_exec_op (X_Published p e t) st =
     after_call st (\<lambda>x. (fst x, [])) (mark_webhook_published p e t st)"

fun run_exec_ops :: "exec_op list \<Rightarrow> execution_store \<Rightarrow> execution_store" where
  "run_exec_ops [] st = st"
| "run_exec_ops (op # ops) st = run_exec_ops ops (fst (run_exec_op op st))"

fun exec_log :: "exec_op list \<Rightarrow> execution_store \<Rightarrow> settlement list" where
  "exec_log [] st = []"
| "exec_log (op # ops) st = snd (run_exec_op op st) @ exec_log ops (fst (run_exec_op op st))"

lemma run_exec_ops_append:
  "run_exec_ops (ops @ ops') st = run_exec_ops ops' (run_exec_ops ops st)"
  by (induction ops arbitrary: st) simp_all

lemma after_call_simps [simp]:
  "after_call st f (Inl err) = (st, [])" "after_call st f (Inr x) = f x"
  by (simp_all add: after_call_def)

subsection \<open>The row machine\<close>

inductive exec_step :: "stored_execution \<Rightarrow> stored_execution \<Rightarrow> bool" where
  step_record: "ex_id r = ex_id (se_record row) \<Longrightarrow> same_identity (se_record row) r \<Longrightarrow>
    \<not> ex_replayed r \<Longrightarrow> valid_transition (ex_status (se_record row)) (ex_status r) \<Longrightarrow>
    exec_step row (row\<lparr>se_record := r\<rparr>)"
| step_connection: "exec_step row (row\<lparr>se_resolved_connection := c\<rparr>)"
| step_replay: "se_replay_observed_at row = None \<Longrightarrow>
    exec_step row (row\<lparr>se_replay_observed_at := Some (Iso t)\<rparr>)"
| step_usage: "se_usage_finalized_at row = None \<Longrightarrow>
    exec_step row (row\<lparr>se_usage_finalized_at := Some (Iso t)\<rparr>)"
| step_published: "se_webhook_event_id row \<noteq> None \<Longrightarrow> se_webhook_published_at row = None \<Longrightarrow>
    exec_step row (row\<lparr>se_webhook_published_at := Some (Iso t)\<rparr>)"
| step_dispatch: "ex_status (se_record row) = St_Running \<Longrightarrow> se_dispatch_started_at row = None \<Longrightarrow>
    exec_step row (row\<lparr>se_dispatch_started_at := Some (Iso t)\<rparr>)"
| step_resume: "se_resume_context row = None \<or> se_resume_context row = Some c \<Longrightarrow>
    se_webhook_event_id row = None \<or> se_webhook_event_id row = Some i \<Longrightarrow>
    exec_step row (row\<lparr>se_resume_context := Some c, se_webhook_event_id := Some i\<rparr>)"
| step_event: "se_webhook_event_id row = None \<or> se_webhook_event_id row = Some i \<Longrightarrow>
    exec_step row (row\<lparr>se_webhook_event_id := Some i\<rparr>)"

text \<open>What holds of every row.\<close>

definition exec_row_wf :: "string \<Rightarrow> stored_execution \<Rightarrow> bool" where
  "exec_row_wf e row \<longleftrightarrow>
     ex_id (se_record row) = e \<and> \<not> ex_replayed (se_record row) \<and>
     (se_dispatch_started_at row \<noteq> None \<longrightarrow> ex_status (se_record row) \<noteq> St_Pending) \<and>
     (se_webhook_published_at row \<noteq> None \<longrightarrow> se_webhook_event_id row \<noteq> None)"

lemma valid_transition_target: "valid_transition a b \<Longrightarrow> b \<noteq> St_Pending \<and> \<not> terminal_status a"
  by (auto simp: valid_transition_def)

lemma exec_step_wf: "exec_step row row' \<Longrightarrow> exec_row_wf e row \<Longrightarrow> exec_row_wf e row'"
  by (induction rule: exec_step.induct) (auto simp: exec_row_wf_def dest: valid_transition_target)

lemma exec_step_frame:
  "exec_step row row' \<Longrightarrow> se_sequence row' = se_sequence row \<and> se_request row' = se_request row \<and>
     se_idempotency_key row' = se_idempotency_key row \<and>
     ex_id (se_record row') = ex_id (se_record row) \<and> same_identity (se_record row) (se_record row')"
  by (induction rule: exec_step.induct) (simp_all add: same_identity_def)

text \<open>How far a row can go: the promise of the store to its readers.\<close>

definition kept :: "'a option \<Rightarrow> 'a option \<Rightarrow> bool" where
  "kept old new \<longleftrightarrow> old \<noteq> None \<longrightarrow> new = old"

definition status_reaches :: "execution_status \<Rightarrow> execution_status \<Rightarrow> bool" where
  "status_reaches a b \<longleftrightarrow> a = b \<or> a = St_Pending \<or> (a = St_Running \<and> terminal_status b)"

definition row_progress :: "stored_execution \<Rightarrow> stored_execution \<Rightarrow> bool" where
  "row_progress old new \<longleftrightarrow>
     se_sequence new = se_sequence old \<and> se_request new = se_request old \<and>
     se_idempotency_key new = se_idempotency_key old \<and>
     ex_id (se_record new) = ex_id (se_record old) \<and> same_identity (se_record old) (se_record new) \<and>
     status_reaches (ex_status (se_record old)) (ex_status (se_record new)) \<and>
     (terminal_status (ex_status (se_record old)) \<longrightarrow> se_record new = se_record old) \<and>
     kept (se_dispatch_started_at old) (se_dispatch_started_at new) \<and>
     kept (se_webhook_event_id old) (se_webhook_event_id new) \<and>
     kept (se_webhook_published_at old) (se_webhook_published_at new) \<and>
     kept (se_usage_finalized_at old) (se_usage_finalized_at new) \<and>
     kept (se_replay_observed_at old) (se_replay_observed_at new) \<and>
     kept (se_resume_context old) (se_resume_context new)"

lemma row_progress_refl: "row_progress row row"
  by (simp add: row_progress_def same_identity_def status_reaches_def kept_def)

lemma status_reaches_trans: "status_reaches a b \<Longrightarrow> status_reaches b c \<Longrightarrow> status_reaches a c"
  by (auto simp: status_reaches_def)

lemma kept_trans: "kept a b \<Longrightarrow> kept b c \<Longrightarrow> kept a c"
  by (simp add: kept_def)

lemma same_identity_trans: "same_identity a b \<Longrightarrow> same_identity b c \<Longrightarrow> same_identity a c"
  by (simp add: same_identity_def)

lemma row_progress_trans:
  assumes ab: "row_progress a b" and bc: "row_progress b c"
  shows "row_progress a c"
proof -
  note a = ab[unfolded row_progress_def] and b = bc[unfolded row_progress_def]
  have status: "status_reaches (ex_status (se_record a)) (ex_status (se_record c))"
    by (rule status_reaches_trans[of _ "ex_status (se_record b)"]) (simp_all only: a b)
  have terminal: "se_record c = se_record a" if "terminal_status (ex_status (se_record a))"
  proof -
    have "se_record b = se_record a" using a that by simp
    then show ?thesis using b that by simp
  qed
  have same: "same_identity (se_record a) (se_record c)"
    by (rule same_identity_trans[of _ "se_record b"]) (simp_all only: a b)
  show ?thesis
    unfolding row_progress_def
    apply (intro conjI impI)
                apply (simp only: a b)
               apply (simp only: a b)
              apply (simp only: a b)
             apply (simp only: a b)
            apply (rule same)
           apply (rule status)
          apply (rule terminal, assumption)
         apply (rule kept_trans[of _ "se_dispatch_started_at b"]; simp only: a b)
        apply (rule kept_trans[of _ "se_webhook_event_id b"]; simp only: a b)
       apply (rule kept_trans[of _ "se_webhook_published_at b"]; simp only: a b)
      apply (rule kept_trans[of _ "se_usage_finalized_at b"]; simp only: a b)
     apply (rule kept_trans[of _ "se_replay_observed_at b"]; simp only: a b)
    apply (rule kept_trans[of _ "se_resume_context b"]; simp only: a b)
    done
qed

lemma exec_step_progress: "exec_step row row' \<Longrightarrow> row_progress row row'"
proof (induction rule: exec_step.induct)
  case (step_record r row)
  then show ?case
    by (auto simp: row_progress_def same_identity_def status_reaches_def kept_def valid_transition_def)
qed (auto simp: row_progress_def same_identity_def status_reaches_def kept_def)

end
