(* ===== verification/Execution_Invariant.thy ===== *)
theory Execution_Invariant
  imports Execution_Machine
begin

text \<open>
  The shape of every call on the execution store, and the invariant all histories keep: rows sit
  under their own identifier with distinct sequence numbers, and the two idempotency maps are inverse
  to each other and point to existing executions.
\<close>

subsection \<open>Looking up a row after a write\<close>

lemma find_put [simp]:
  "find_execution (put_execution p e row st) p' e' =
     (if p' = p \<and> e' = e then Some row else find_execution st p' e')"
  by (simp add: find_execution_def put_execution_def split: option.splits)

lemma find_same_executions:
  "executions st' = executions st \<Longrightarrow> find_execution st' = find_execution st"
  by (intro ext) (simp add: find_execution_def)

lemma find_project [simp]:
  "find_execution (project_executions p st) = find_execution st"
  by (intro ext) (simp add: find_execution_def project_executions_def)

lemma put_frame [simp]:
  "idempotency (put_execution p e row st) = idempotency st"
  "idempotency_by_execution (put_execution p e row st) = idempotency_by_execution st"
  "terminal_waiters (put_execution p e row st) = terminal_waiters st"
  "exec_sequence (put_execution p e row st) = exec_sequence st"
  by (simp_all add: put_execution_def)

lemma project_frame [simp]:
  "idempotency (project_executions p st) = idempotency st"
  "idempotency_by_execution (project_executions p st) = idempotency_by_execution st"
  "terminal_waiters (project_executions p st) = terminal_waiters st"
  "exec_sequence (project_executions p st) = exec_sequence st"
  by (simp_all add: project_executions_def)

lemma settle_frame [simp]:
  "executions (fst (settle_waiters p e r st)) = executions st"
  "idempotency (fst (settle_waiters p e r st)) = idempotency st"
  "idempotency_by_execution (fst (settle_waiters p e r st)) = idempotency_by_execution st"
  "exec_sequence (fst (settle_waiters p e r st)) = exec_sequence st"
  by (simp_all add: settle_waiters_def)

lemma store_reservation_frame [simp]:
  "executions (store_reservation a r st) = executions st"
  "terminal_waiters (store_reservation a r st) = terminal_waiters st"
  "exec_sequence (store_reservation a r st) = exec_sequence st"
  by (simp_all add: store_reservation_def Let_def split: option.splits)

lemma put_executions_cong:
  "executions st' = executions st \<Longrightarrow>
     executions (put_execution p e row st') = executions (put_execution p e row st)"
  by (simp add: put_execution_def)

lemma put_after_project:
  "executions (put_execution p e row (project_executions p st)) = executions (put_execution p e row st)"
  by (simp add: put_execution_def project_executions_def)

subsection \<open>The shape of a call\<close>

text \<open>A call leaves the rows alone, moves one row along an edge, or allocates.\<close>

definition moves_row :: "execution_store \<Rightarrow> execution_store \<Rightarrow> bool" where
  "moves_row st st' \<longleftrightarrow> exec_sequence st' = exec_sequence st \<and>
     (executions st' = executions st \<or>
      (\<exists>p e row row'. find_execution st p e = Some row \<and> exec_step row row' \<and>
         executions st' = executions (put_execution p e row' st)))"

lemma moves_row_same: "exec_sequence st' = exec_sequence st \<Longrightarrow> executions st' = executions st \<Longrightarrow>
    moves_row st st'"
  by (simp add: moves_row_def)

lemma moves_row_put: "find_execution st p e = Some row \<Longrightarrow> exec_step row row' \<Longrightarrow>
    moves_row st (put_execution p e row' st)"
  by (auto simp: moves_row_def)

lemma moves_row_put_same:
  "find_execution st p e = Some row \<Longrightarrow> exec_step row row' \<Longrightarrow>
   exec_sequence st' = exec_sequence st \<Longrightarrow>
   executions st' = executions (put_execution p e row' st) \<Longrightarrow> moves_row st st'"
  by (auto simp: moves_row_def)

lemma put_same_row:
  assumes "find_execution st p e = Some row"
  shows "executions (put_execution p e row st) = executions st"
proof -
  obtain m where m: "map_of (executions st) p = Some m" "map_of m e = Some row"
    using assms by (auto simp: find_execution_def split: option.splits)
  then show ?thesis by (simp add: put_execution_def js_set_same)
qed

lemma assert_transition_step:
  "assert_execution_transition (se_record row) r = Inr u \<Longrightarrow> exec_step row (row\<lparr>se_record := r\<rparr>)"
  by (rule step_record) (auto simp: assert_execution_transition_def split: if_splits)

lemma update_moves_row:
  assumes "update_execution p r st = Inr (st', ss)"
  shows "moves_row st st'"
proof -
  obtain row where row: "find_execution st p (ex_id r) = Some row"
    and ok: "assert_execution_transition (se_record row) r = Inr ()"
    and ex: "executions st' = executions (put_execution p (ex_id r) (row\<lparr>se_record := r\<rparr>) st)"
      "exec_sequence st' = exec_sequence st"
    using assms
    by (auto simp: update_execution_def Let_def bind_result_Inr_iff settle_waiters_def
        split: option.splits if_splits)
  from moves_row_put_same[OF row assert_transition_step[OF ok] ex(2,1)] show ?thesis .
qed

lemma cancel_moves_row:
  assumes "cancel_execution p e t st = Inr (st', ss, res)"
  shows "moves_row st st'"
proof (cases "find_execution st p e")
  case None
  then show ?thesis using assms by (auto simp: cancel_execution_def intro: moves_row_same)
next
  case (Some row)
  show ?thesis
  proof (cases "terminal_status (ex_status (se_record row))")
    case True
    then show ?thesis
      using assms Some by (auto simp: cancel_execution_def terminal_status_def intro: moves_row_same)
  next
    case False
    then have ns: "ex_status (se_record row) \<noteq> St_Cancelled" "ex_status (se_record row) \<noteq> St_Succeeded"
      "ex_status (se_record row) \<noteq> St_Failed"
      by (simp_all add: terminal_status_def)
    obtain c where ok: "assert_execution_transition (se_record row) c = Inr ()"
      and ex: "executions st' = executions (put_execution p e (row\<lparr>se_record := c\<rparr>) st)"
        "exec_sequence st' = exec_sequence st"
      using assms Some ns
      by (auto simp: cancel_execution_def Let_def bind_result_Inr_iff settle_waiters_def)
    from moves_row_put_same[OF Some assert_transition_step[OF ok] ex(2,1)] show ?thesis .
  qed
qed

lemma set_once_Inr:
  assumes "set_once old t = Inr new"
  obtains (kept) "new = old" | (set) ms where "old = None" "new = Some (Iso ms)"
  using assms by (cases old) (auto simp: set_once_def bind_result_Inr_iff to_iso_Inr_iff)

text \<open>The write-once marks change nothing when the mark is there.\<close>

lemma put_mark_moves_row:
  assumes "find_execution st p e = Some row" "exec_step row row' \<or> row' = row"
  shows "moves_row st (put_execution p e row' st)"
  using assms moves_row_put[OF assms(1)] put_same_row[OF assms(1)] moves_row_same by auto

lemma mark_replayed_moves_row:
  assumes "mark_replayed p e t st = Inr (st', ok)"
  shows "moves_row st st'"
proof (cases "find_execution st p e")
  case None
  then show ?thesis using assms by (simp add: mark_replayed_def moves_row_same)
next
  case (Some row)
  then obtain u where u: "set_once (se_replay_observed_at row) t = Inr u"
    "st' = put_execution p e (row\<lparr>se_replay_observed_at := u\<rparr>) st"
    using assms by (auto simp: mark_replayed_def bind_result_Inr_iff)
  from u(1) show ?thesis
    unfolding u(2) by (cases rule: set_once_Inr) (auto intro: put_mark_moves_row[OF Some] step_replay)
qed

lemma mark_usage_finalized_moves_row:
  assumes "mark_usage_finalized p e t st = Inr (st', ok)"
  shows "moves_row st st'"
proof (cases "find_execution st p e")
  case None
  then show ?thesis using assms by (simp add: mark_usage_finalized_def moves_row_same)
next
  case (Some row)
  then obtain u where u: "set_once (se_usage_finalized_at row) t = Inr u"
    "st' = put_execution p e (row\<lparr>se_usage_finalized_at := u\<rparr>) st"
    using assms by (auto simp: mark_usage_finalized_def bind_result_Inr_iff)
  from u(1) show ?thesis
    unfolding u(2) by (cases rule: set_once_Inr) (auto intro: put_mark_moves_row[OF Some] step_usage)
qed

lemma mark_webhook_published_moves_row:
  assumes "mark_webhook_published p e t st = Inr (st', ok)"
  shows "moves_row st st'"
proof (cases "\<exists>row. find_execution st p e = Some row \<and> se_webhook_event_id row \<noteq> None")
  case False
  then show ?thesis
    using assms by (auto simp: mark_webhook_published_def moves_row_same split: option.splits if_splits)
next
  case True
  then obtain row where row: "find_execution st p e = Some row" and ev: "se_webhook_event_id row \<noteq> None"
    by blast
  then obtain u where u: "set_once (se_webhook_published_at row) t = Inr u"
    "st' = put_execution p e (row\<lparr>se_webhook_published_at := u\<rparr>) st"
    using assms by (auto simp: mark_webhook_published_def bind_result_Inr_iff)
  from u(1) show ?thesis
    unfolding u(2)
    by (cases rule: set_once_Inr) (auto intro: put_mark_moves_row[OF row] step_published[OF ev])
qed

lemma mark_dispatch_started_cases:
  assumes "mark_dispatch_started p e t st = Inr (st', ok)"
  obtains (no) "\<not> ok" "st' = st"
  | (yes) row ms where "ok" "find_execution st p e = Some row"
      "ex_status (se_record row) = St_Running" "se_dispatch_started_at row = None"
      "st' = put_execution p e (row\<lparr>se_dispatch_started_at := Some (Iso ms)\<rparr>) st"
  using assms
  by (auto simp: mark_dispatch_started_def bind_result_Inr_iff to_iso_Inr_iff
      split: option.splits if_splits)

lemma mark_dispatch_started_moves_row:
  "mark_dispatch_started p e t st = Inr (st', ok) \<Longrightarrow> moves_row st st'"
  by (erule mark_dispatch_started_cases) (auto simp: moves_row_same intro: moves_row_put step_dispatch)

lemma set_resume_context_moves_row:
  assumes "set_resume_context p e ra st = Inr (st', ok)"
  shows "moves_row st st'"
proof (cases "find_execution st p e")
  case None
  then show ?thesis using assms by (simp add: set_resume_context_def moves_row_same)
next
  case (Some row)
  let ?row = "row\<lparr>se_resume_context := Some (ra_resume_context ra),
                 se_webhook_event_id := Some (ra_webhook_event_id ra)\<rparr>"
  have st': "st' = put_execution p e ?row st"
    and c: "se_resume_context row = None \<or> se_resume_context row = Some (ra_resume_context ra)"
    and i: "se_webhook_event_id row = None \<or> se_webhook_event_id row = Some (ra_webhook_event_id ra)"
    using assms Some unfolding set_resume_context_def
    by (cases "se_resume_context row"; cases "se_webhook_event_id row"; simp split: if_splits)+
  show ?thesis unfolding st' by (rule moves_row_put[OF Some step_resume[OF c i]])
qed

lemma set_webhook_event_id_moves_row:
  assumes "set_webhook_event_id p e i st = Inr (st', ok)"
  shows "moves_row st st'"
proof (cases "find_execution st p e")
  case None
  then show ?thesis using assms by (simp add: set_webhook_event_id_def moves_row_same)
next
  case (Some row)
  have st': "st' = put_execution p e (row\<lparr>se_webhook_event_id := Some i\<rparr>) st"
    and i: "se_webhook_event_id row = None \<or> se_webhook_event_id row = Some i"
    using assms Some unfolding set_webhook_event_id_def
    by (cases "se_webhook_event_id row"; simp split: if_splits)+
  show ?thesis unfolding st' by (rule moves_row_put[OF Some step_event[OF i]])
qed

lemma set_resolved_connection_Inr:
  assumes "set_resolved_connection p e c st = Inr st'"
  obtains row where "find_execution st p e = Some row"
    "executions st' = executions (put_execution p e (row\<lparr>se_resolved_connection := c\<rparr>) st)"
    "exec_sequence st' = exec_sequence st" "terminal_waiters st' = terminal_waiters st"
    "idempotency_by_execution st' = idempotency_by_execution st"
    "idempotency st' = idempotency st \<or> (\<exists>key si. map_of (idempotency st) key = Some si \<and>
       idempotency st' = js_set key (si\<lparr>si_resolved_connection := c\<rparr>) (idempotency st))"
proof (cases "find_execution st p e")
  case None
  then show ?thesis using assms by (simp add: set_resolved_connection_def)
next
  case (Some row)
  let ?st = "put_execution p e (row\<lparr>se_resolved_connection := c\<rparr>) st"
  note def = set_resolved_connection_def Let_def Some
  show ?thesis
  proof (cases "map_of (idempotency_by_execution st) (p, e)")
    case None
    have "st' = ?st" using assms by (simp add: def None)
    then show ?thesis by (intro that[OF Some]) simp_all
  next
    case key: (Some key)
    show ?thesis
    proof (cases "map_of (idempotency st) key")
      case None
      have "st' = ?st" using assms by (simp add: def key None)
      then show ?thesis by (intro that[OF Some]) simp_all
    next
      case si: (Some si)
      have "st' = (if si_project si \<noteq> p then ?st else ?st\<lparr>idempotency :=
          js_set key (si\<lparr>si_resolved_connection := c\<rparr>) (idempotency ?st)\<rparr>)"
        using assms by (simp add: def key si split: if_splits)
      then have "exec_sequence st' = exec_sequence st" "executions st' = executions ?st"
        "terminal_waiters st' = terminal_waiters st"
        "idempotency_by_execution st' = idempotency_by_execution st"
        "idempotency st' = idempotency st \<or>
          idempotency st' = js_set key (si\<lparr>si_resolved_connection := c\<rparr>) (idempotency st)"
        by simp_all
      with si show ?thesis by (intro that[OF Some]) blast+
    qed
  qed
qed

lemma connection_moves_row:
  assumes "set_resolved_connection p e c st = Inr st'"
  shows "moves_row st st'"
proof -
  obtain row where "find_execution st p e = Some row" "exec_sequence st' = exec_sequence st"
    "executions st' = executions (put_execution p e (row\<lparr>se_resolved_connection := c\<rparr>) st)"
    using assms by (rule set_resolved_connection_Inr)
  then show ?thesis by (rule moves_row_put_same[OF _ step_connection])
qed

lemma wait_for_terminal_Inr:
  assumes "wait_for_terminal p e w st = Inr (st', ss)"
  obtains (now) row where "find_execution st p e = Some row"
      "terminal_status (ex_status (se_record row))" "st' = st" "ss = [(w, projected row)]"
  | (later) row where "find_execution st p e = Some row"
      "\<not> terminal_status (ex_status (se_record row))" "ss = []"
      "st' = st\<lparr>terminal_waiters := js_set (p, e)
            (set_add w (case map_of (terminal_waiters st) (p, e) of None \<Rightarrow> [] | Some ws \<Rightarrow> ws))
            (terminal_waiters st)\<rparr>"
proof (cases "find_execution st p e")
  case None
  then show ?thesis using assms by (simp add: wait_for_terminal_def)
next
  case (Some row)
  show ?thesis
  proof (cases "terminal_status (ex_status (se_record row))")
    case True
    then show ?thesis using assms now[OF Some True] by (simp add: wait_for_terminal_def Some)
  next
    case False
    then show ?thesis using assms later[OF Some False] by (simp add: wait_for_terminal_def Some)
  qed
qed

lemma wait_moves_row:
  assumes "wait_for_terminal p e w st = Inr (st', ss)"
  shows "moves_row st st'"
  using assms by (cases rule: wait_for_terminal_Inr) (simp_all add: moves_row_same)

text \<open>Allocation: the project map appears, and a new row when the answer is \<open>allocated\<close>.\<close>

lemma reservation_answer_project [simp]:
  "reservation_answer a (project_executions p st) = reservation_answer a st"
  by (simp add: reservation_answer_def split: option.splits)

lemma reservation_answer_not_allocated: "reservation_answer a st \<noteq> Some (Alloc_Allocated r)"
  by (auto simp: reservation_answer_def split: option.splits if_splits)

lemma allocate_Inr:
  assumes "allocate_execution a st = Inr (st', res)"
  obtains (answered) "\<not> ex_replayed (al_record a)" "reservation_answer a st = Some res"
      "st' = project_executions (al_project a) st"
  | (allocated) "\<not> ex_replayed (al_record a)" "reservation_answer a st = None"
      "res = Alloc_Allocated (al_record a)"
      "find_execution st (al_project a) (ex_id (al_record a)) = None"
      "st' = (let reserved = (case al_idempotency a of None \<Rightarrow> project_executions (al_project a) st
                | Some r \<Rightarrow> store_reservation a r (project_executions (al_project a) st)) in
         put_execution (al_project a) (ex_id (al_record a))
           (new_stored_execution a (exec_sequence st + 1)) (reserved\<lparr>exec_sequence := exec_sequence st + 1\<rparr>))"
proof (cases "reservation_answer a st")
  case (Some answer)
  then show ?thesis
    using assms answered by (simp add: allocate_execution_def Let_def split: if_splits)
next
  case None
  have fresh: "find_execution st (al_project a) (ex_id (al_record a)) = None"
    "\<not> ex_replayed (al_record a)" "res = Alloc_Allocated (al_record a)"
    using assms by (simp_all add: allocate_execution_def Let_def None split: if_splits)
  show ?thesis
  proof (rule allocated[OF fresh(2) None fresh(3,1)])
    show "st' = (let reserved = (case al_idempotency a of None \<Rightarrow> project_executions (al_project a) st
                | Some r \<Rightarrow> store_reservation a r (project_executions (al_project a) st)) in
         put_execution (al_project a) (ex_id (al_record a))
           (new_stored_execution a (exec_sequence st + 1)) (reserved\<lparr>exec_sequence := exec_sequence st + 1\<rparr>))"
      using assms
      by (cases "al_idempotency a") (simp_all add: allocate_execution_def Let_def None fresh)
  qed
qed

lemma allocate_rows:
  assumes "allocate_execution a st = Inr (st', Alloc_Allocated (al_record a))"
  shows "find_execution st (al_project a) (ex_id (al_record a)) = None"
    "exec_sequence st' = exec_sequence st + 1" "terminal_waiters st' = terminal_waiters st"
    "executions st' = executions (put_execution (al_project a) (ex_id (al_record a))
        (new_stored_execution a (exec_sequence st + 1)) st)"
proof -
  have *: "executions (put_execution p e row (reserved\<lparr>exec_sequence := n\<rparr>)) =
      executions (put_execution p e row st)"
    if "executions reserved = executions (project_executions p st)" for p e row reserved n
    using that put_after_project[of p e row st] by (simp add: put_execution_def)
  from assms show "find_execution st (al_project a) (ex_id (al_record a)) = None"
    "exec_sequence st' = exec_sequence st + 1" "terminal_waiters st' = terminal_waiters st"
    "executions st' = executions (put_execution (al_project a) (ex_id (al_record a))
        (new_stored_execution a (exec_sequence st + 1)) st)"
    by (cases rule: allocate_Inr;
        simp add: reservation_answer_not_allocated Let_def * split: option.splits)+
qed

text \<open>Every call in one lemma.\<close>

lemma run_exec_op_cases:
  obtains (moves) "moves_row st (fst (run_exec_op op st))"
  | (project) a where "op = X_Allocate a"
      "fst (run_exec_op op st) = project_executions (al_project a) st"
  | (allocates) a where "op = X_Allocate a"
      "allocate_execution a st = Inr (fst (run_exec_op op st), Alloc_Allocated (al_record a))"
proof (cases op)
  case (X_Allocate a)
  show ?thesis
  proof (cases "allocate_execution a st")
    case (Inl err)
    then show ?thesis using moves X_Allocate by (simp add: moves_row_same)
  next
    case (Inr x)
    obtain st' res where x: "x = (st', res)" by fastforce
    from Inr[unfolded x] show ?thesis
      using allocates[OF X_Allocate] project[OF X_Allocate] X_Allocate Inr x
      by (cases rule: allocate_Inr) simp_all
  qed
next
  case (X_Update p r)
  then show ?thesis
    using moves update_moves_row[of p r st]
    by (cases "update_execution p r st") (auto simp: moves_row_same)
next
  case (X_Cancel p e t)
  then show ?thesis
    using moves cancel_moves_row[of p e t st]
    by (cases "cancel_execution p e t st") (auto simp: moves_row_same)
next
  case (X_Wait p e w)
  then show ?thesis
    using moves wait_moves_row[of p e w st]
    by (cases "wait_for_terminal p e w st") (auto simp: moves_row_same)
next
  case (X_Connection p e c)
  then show ?thesis
    using moves connection_moves_row[of p e c st]
    by (cases "set_resolved_connection p e c st") (auto simp: moves_row_same)
next
  case (X_Replayed p e t)
  then show ?thesis
    using moves mark_replayed_moves_row[of p e t st]
    by (cases "mark_replayed p e t st") (auto simp: moves_row_same)
next
  case (X_Resume p e ra)
  then show ?thesis
    using moves set_resume_context_moves_row[of p e ra st]
    by (cases "set_resume_context p e ra st") (auto simp: moves_row_same)
next
  case (X_Event p e i)
  then show ?thesis
    using moves set_webhook_event_id_moves_row[of p e i st]
    by (cases "set_webhook_event_id p e i st") (auto simp: moves_row_same)
next
  case (X_Dispatch p e t)
  then show ?thesis
    using moves mark_dispatch_started_moves_row[of p e t st]
    by (cases "mark_dispatch_started p e t st") (auto simp: moves_row_same)
next
  case (X_Usage p e t)
  then show ?thesis
    using moves mark_usage_finalized_moves_row[of p e t st]
    by (cases "mark_usage_finalized p e t st") (auto simp: moves_row_same)
next
  case (X_Published p e t)
  then show ?thesis
    using moves mark_webhook_published_moves_row[of p e t st]
    by (cases "mark_webhook_published p e t st") (auto simp: moves_row_same)
qed

subsection \<open>Rows\<close>

definition project_wf :: "int \<Rightarrow> string \<Rightarrow> (string \<times> stored_execution) list \<Rightarrow> bool" where
  "project_wf n p m \<longleftrightarrow> distinct_keys m \<and> numbered se_sequence n m \<and> all_entries exec_row_wf m"

definition exec_rows_wf :: "execution_store \<Rightarrow> bool" where
  "exec_rows_wf st \<longleftrightarrow> 0 \<le> exec_sequence st \<and> distinct_keys (executions st) \<and>
     all_entries (project_wf (exec_sequence st)) (executions st) \<and>
     (\<forall>p e row p' e' row'. find_execution st p e = Some row \<and> find_execution st p' e' = Some row' \<and>
        se_sequence row = se_sequence row' \<longrightarrow> p = p' \<and> e = e')"

lemma exec_rows_wfI:
  assumes "0 \<le> exec_sequence st" "distinct_keys (executions st)"
    "all_entries (project_wf (exec_sequence st)) (executions st)"
    "\<And>p e row p' e' row'. find_execution st p e = Some row \<Longrightarrow> find_execution st p' e' = Some row' \<Longrightarrow>
        se_sequence row = se_sequence row' \<Longrightarrow> p = p' \<and> e = e'"
  shows "exec_rows_wf st"
  using assms unfolding exec_rows_wf_def by blast

lemma find_execution_Some:
  "find_execution st p e = Some row \<longleftrightarrow>
     (\<exists>m. map_of (executions st) p = Some m \<and> map_of m e = Some row)"
  by (simp add: find_execution_def split: option.splits)

lemma exec_rows_wf_row:
  "exec_rows_wf st \<Longrightarrow> find_execution st p e = Some row \<Longrightarrow> exec_row_wf e row"
  by (auto simp: exec_rows_wf_def find_execution_Some project_wf_def dest!: all_entriesD)

lemma exec_rows_wf_project:
  "exec_rows_wf st \<Longrightarrow> map_of (executions st) p = Some m \<Longrightarrow> project_wf (exec_sequence st) p m"
  unfolding exec_rows_wf_def using all_entriesD[of _ "executions st" p m] by blast

lemma exec_rows_wf_bounds:
  assumes "exec_rows_wf st" "find_execution st p e = Some row"
  shows "1 \<le> se_sequence row \<and> se_sequence row \<le> exec_sequence st"
proof -
  obtain m where m: "map_of (executions st) p = Some m" "map_of m e = Some row"
    using assms(2) by (auto simp: find_execution_Some)
  then have "numbered se_sequence (exec_sequence st) m"
    using exec_rows_wf_project[OF assms(1)] by (simp add: project_wf_def)
  then show ?thesis using m(2) by (rule numbered_bounds)
qed

lemma exec_rows_wf_inj:
  "exec_rows_wf st \<Longrightarrow> find_execution st p e = Some row \<Longrightarrow> find_execution st p' e' = Some row' \<Longrightarrow>
   se_sequence row = se_sequence row' \<Longrightarrow> p = p' \<and> e = e'"
  unfolding exec_rows_wf_def by blast

lemma exec_rows_wf_cong:
  "executions st' = executions st \<Longrightarrow> exec_sequence st' = exec_sequence st \<Longrightarrow>
     exec_rows_wf st' = exec_rows_wf st"
  using find_same_executions[of st' st] by (simp add: exec_rows_wf_def)

text \<open>A written row keeps its sequence number; a new one takes the next.\<close>

lemma exec_rows_wf_put:
  assumes "exec_rows_wf st" "find_execution st p e = Some row" "exec_row_wf e row'"
    "se_sequence row' = se_sequence row"
  shows "exec_rows_wf (put_execution p e row' st)"
proof -
  obtain m where m: "map_of (executions st) p = Some m" "map_of m e = Some row"
    using assms(2) by (auto simp: find_execution_Some)
  have mwf: "project_wf (exec_sequence st) p (js_set e row' m)"
    using exec_rows_wf_project[OF assms(1) m(1)] assms(3) numbered_set_old[OF _ m(2) assms(4)]
    by (simp add: project_wf_def)
  have inj: "p1 = p2 \<and> e1 = e2"
    if h: "find_execution (put_execution p e row' st) p1 e1 = Some r1"
      "find_execution (put_execution p e row' st) p2 e2 = Some r2"
      "se_sequence r1 = se_sequence r2" for p1 e1 r1 p2 e2 r2
  proof -
    obtain r1' where r1: "find_execution st p1 e1 = Some r1'" "se_sequence r1' = se_sequence r1"
      using h(1) assms(2,4) by (cases "p1 = p \<and> e1 = e") auto
    obtain r2' where r2: "find_execution st p2 e2 = Some r2'" "se_sequence r2' = se_sequence r2"
      using h(2) assms(2,4) by (cases "p2 = p \<and> e2 = e") auto
    show ?thesis using exec_rows_wf_inj[OF assms(1) r1(1) r2(1)] r1(2) r2(2) h(3) by simp
  qed
  have ex: "executions (put_execution p e row' st) = js_set p (js_set e row' m) (executions st)"
    using m(1) by (simp add: put_execution_def)
  have base: "0 \<le> exec_sequence st" "distinct_keys (executions st)"
    "all_entries (project_wf (exec_sequence st)) (executions st)"
    using assms(1) by (simp_all add: exec_rows_wf_def)
  show ?thesis
  proof (rule exec_rows_wfI)
    show "p1 = p2 \<and> e1 = e2"
      if "find_execution (put_execution p e row' st) p1 e1 = Some r1"
        "find_execution (put_execution p e row' st) p2 e2 = Some r2"
        "se_sequence r1 = se_sequence r2" for p1 e1 r1 p2 e2 r2
      by (rule inj[OF that])
  qed (simp_all add: ex base mwf)
qed

lemma exec_rows_wf_new:
  assumes wf: "exec_rows_wf st" and new: "find_execution st p e = None" and row: "exec_row_wf e row"
    and seq: "se_sequence row = exec_sequence st + 1"
    and st': "executions st' = executions (put_execution p e row st)"
      "exec_sequence st' = exec_sequence st + 1"
  shows "exec_rows_wf st'"
proof -
  let ?m = "case map_of (executions st) p of None \<Rightarrow> [] | Some m \<Rightarrow> m"
  have nonneg: "0 \<le> exec_sequence st" using wf by (simp add: exec_rows_wf_def)
  have m: "project_wf (exec_sequence st) p ?m" "map_of ?m e = None"
    using new nonneg exec_rows_wf_project[OF wf, of p]
    by (cases "map_of (executions st) p"; simp add: project_wf_def numbered_def find_execution_def)+
  have p: "project_wf (exec_sequence st + 1) p (js_set e row ?m)"
    using m row seq numbered_set_new by (auto simp: project_wf_def)
  have others: "all_entries (project_wf (exec_sequence st + 1)) (executions st)"
    using wf by (auto simp: exec_rows_wf_def project_wf_def elim!: all_entries_mono numbered_mono)
  have find: "find_execution st' = find_execution (put_execution p e row st)"
    by (rule find_same_executions[OF st'(1)])
  have inj: "p1 = p2 \<and> e1 = e2"
    if "find_execution st' p1 e1 = Some r1" "find_execution st' p2 e2 = Some r2"
      "se_sequence r1 = se_sequence r2" for p1 e1 r1 p2 e2 r2
  proof -
    have old: "se_sequence r \<noteq> exec_sequence st + 1" if "find_execution st p' e' = Some r" for p' e' r
      using exec_rows_wf_bounds[OF wf that] by simp
    have cases: "find_execution st p' e' = Some r \<or> (p' = p \<and> e' = e \<and> r = row)"
      if "find_execution st' p' e' = Some r" for p' e' r
      using that unfolding find by (simp split: if_splits)
    show ?thesis
      using cases[OF that(1)] cases[OF that(2)] that(3) old exec_rows_wf_inj[OF wf] seq by metis
  qed
  have ex: "executions st' = js_set p (js_set e row ?m) (executions st)"
    using st'(1) by (simp add: put_execution_def)
  have keys: "distinct_keys (executions st')"
    using wf unfolding ex by (simp add: exec_rows_wf_def)
  have entries: "all_entries (project_wf (exec_sequence st')) (executions st')"
    using p others st'(2) unfolding ex by simp
  show ?thesis
    by (rule exec_rows_wfI[OF _ keys entries inj]) (use nonneg st'(2) in simp)
qed

lemma moves_row_wf:
  assumes "exec_rows_wf st" "moves_row st st'"
  shows "exec_rows_wf st'"
  using assms(2) unfolding moves_row_def
proof (elim conjE disjE exE)
  assume "exec_sequence st' = exec_sequence st" "executions st' = executions st"
  then show ?thesis using exec_rows_wf_cong[of st' st] assms(1) by blast
next
  fix p e row row'
  assume seq: "exec_sequence st' = exec_sequence st" and row: "find_execution st p e = Some row"
    and step: "exec_step row row'" and ex: "executions st' = executions (put_execution p e row' st)"
  have "exec_rows_wf (put_execution p e row' st)"
    using exec_rows_wf_put[OF assms(1) row exec_step_wf[OF step exec_rows_wf_row[OF assms(1) row]]]
      exec_step_frame[OF step] by simp
  moreover have "exec_sequence st' = exec_sequence (put_execution p e row' st)" using seq by simp
  ultimately show ?thesis using exec_rows_wf_cong[OF ex] by blast
qed

lemma project_rows_wf: "exec_rows_wf st \<Longrightarrow> exec_rows_wf (project_executions p st)"
proof -
  assume wf: "exec_rows_wf st"
  have "project_wf (exec_sequence st) p []"
    using wf by (simp add: project_wf_def exec_rows_wf_def numbered_def)
  then have "distinct_keys (executions (project_executions p st))"
    "all_entries (project_wf (exec_sequence st)) (executions (project_executions p st))"
    using wf by (simp_all add: exec_rows_wf_def project_executions_def)
  then show ?thesis using wf unfolding exec_rows_wf_def by simp
qed

text \<open>
  The static type of an allocation: its record is pending and has an \<open>exe_\<close> identifier.
\<close>

definition typed_allocation :: "execution_allocation \<Rightarrow> bool" where
  "typed_allocation a \<longleftrightarrow>
     starts_with ''exe_'' (ex_id (al_record a)) \<and> ex_status (al_record a) = St_Pending"

fun typed_op :: "exec_op \<Rightarrow> bool" where
  "typed_op (X_Allocate a) \<longleftrightarrow> typed_allocation a"
| "typed_op _ \<longleftrightarrow> True"

lemma run_exec_op_rows_wf:
  assumes "exec_rows_wf st"
  shows "exec_rows_wf (fst (run_exec_op op st))"
proof (cases rule: run_exec_op_cases[where op = op and st = st])
  case moves
  then show ?thesis by (rule moves_row_wf[OF assms])
next
  case (project a)
  then show ?thesis using project_rows_wf[OF assms] by simp
next
  case (allocates a)
  have "\<not> ex_replayed (al_record a)"
    using allocates(2) by (rule allocate_Inr)
  then have "exec_row_wf (ex_id (al_record a)) (new_stored_execution a (exec_sequence st + 1))"
    by (simp add: exec_row_wf_def new_stored_execution_def)
  then show ?thesis
    using allocate_rows[OF allocates(2)]
    by (intro exec_rows_wf_new[OF assms]) (simp_all add: new_stored_execution_def)
qed

lemma empty_rows_wf [simp]: "exec_rows_wf empty_execution_store"
  by (simp add: exec_rows_wf_def empty_execution_store_def find_execution_def)

lemma run_exec_ops_rows_wf: "exec_rows_wf st \<Longrightarrow> exec_rows_wf (run_exec_ops ops st)"
  by (induction ops arbitrary: st) (simp_all add: run_exec_op_rows_wf)

subsection \<open>One row over a history\<close>

lemma moves_row_progress:
  assumes "moves_row st st'" "find_execution st p e = Some row"
  shows "\<exists>row'. find_execution st' p e = Some row' \<and> exec_step\<^sup>*\<^sup>* row row'"
  using assms(1) unfolding moves_row_def
proof (elim conjE disjE exE)
  assume "executions st' = executions st"
  then have "find_execution st' = find_execution st" by (rule find_same_executions)
  then show ?thesis using assms(2) by simp
next
  fix p' e' old new
  assume old: "find_execution st p' e' = Some old" "exec_step old new"
    and ex: "executions st' = executions (put_execution p' e' new st)"
  have find: "find_execution st' = find_execution (put_execution p' e' new st)"
    by (rule find_same_executions[OF ex])
  show ?thesis
  proof (cases "p' = p \<and> e' = e")
    case True
    then have "row = old" using old(1) assms(2) by simp
    then show ?thesis unfolding find using True old(2) by auto
  next
    case False
    then show ?thesis unfolding find using assms(2) by auto
  qed
qed

lemma run_exec_op_row:
  assumes "find_execution st p e = Some row"
  shows "\<exists>row'. find_execution (fst (run_exec_op op st)) p e = Some row' \<and> exec_step\<^sup>*\<^sup>* row row'"
proof (cases rule: run_exec_op_cases[where op = op and st = st])
  case moves
  then show ?thesis by (rule moves_row_progress[OF _ assms])
next
  case (project a)
  then show ?thesis using assms by auto
next
  case (allocates a)
  then show ?thesis
    using allocate_rows(1,4)[OF allocates(2)] assms find_same_executions[OF allocate_rows(4)[OF allocates(2)]]
    by auto
qed

lemma run_exec_ops_row:
  "find_execution st p e = Some row \<Longrightarrow>
   \<exists>row'. find_execution (run_exec_ops ops st) p e = Some row' \<and> exec_step\<^sup>*\<^sup>* row row'"
proof (induction ops arbitrary: st row)
  case Nil
  then show ?case by auto
next
  case (Cons op ops)
  then obtain row1 where "find_execution (fst (run_exec_op op st)) p e = Some row1" "exec_step\<^sup>*\<^sup>* row row1"
    using run_exec_op_row by blast
  with Cons.IH show ?case by (fastforce intro: rtranclp_trans)
qed

lemma exec_steps_progress: "exec_step\<^sup>*\<^sup>* row row' \<Longrightarrow> row_progress row row'"
  by (induction rule: rtranclp_induct)
    (blast intro: row_progress_refl row_progress_trans exec_step_progress)+

lemma run_exec_ops_progress:
  "find_execution st p e = Some row \<Longrightarrow>
   \<exists>row'. find_execution (run_exec_ops ops st) p e = Some row' \<and> row_progress row row'"
  using run_exec_ops_row exec_steps_progress by blast

end
