(* ===== verification/Execution_Reservations.thy ===== *)
theory Execution_Reservations
  imports Execution_Invariant
begin

text \<open>
  The idempotency reservations of the execution store over histories of calls: which calls touch
  them, that the two maps stay inverse to each other, and that an unexpired reservation is kept.
\<close>

subsection \<open>Calls that leave the reservations alone\<close>

definition same_reservations :: "execution_store \<Rightarrow> execution_store \<Rightarrow> bool" where
  "same_reservations st st' \<longleftrightarrow> idempotency st' = idempotency st \<and>
     idempotency_by_execution st' = idempotency_by_execution st"

lemma same_reservations_put [simp]:
  "same_reservations st st" "same_reservations st (put_execution p e row st)"
  "same_reservations st (project_executions p st)"
  by (simp_all add: same_reservations_def)

lemma update_reservations:
  "update_execution p r st = Inr (st', ss) \<Longrightarrow> same_reservations st st'"
  by (auto simp: update_execution_def Let_def bind_result_Inr_iff settle_waiters_def
      same_reservations_def split: option.splits if_splits)

lemma cancel_reservations:
  assumes "cancel_execution p e t st = Inr (st', ss, res)"
  shows "same_reservations st st'"
proof (cases "\<exists>row. find_execution st p e = Some row \<and> \<not> terminal_status (ex_status (se_record row))")
  case False
  then have "st' = st"
    using assms by (auto simp: cancel_execution_def terminal_status_def split: option.splits if_splits)
  then show ?thesis by simp
next
  case True
  then obtain row where row: "find_execution st p e = Some row"
    and ns: "ex_status (se_record row) \<noteq> St_Cancelled" "ex_status (se_record row) \<noteq> St_Succeeded"
      "ex_status (se_record row) \<noteq> St_Failed"
    by (auto simp: terminal_status_def)
  then show ?thesis
    using assms
    by (auto simp: cancel_execution_def Let_def bind_result_Inr_iff settle_waiters_def
        same_reservations_def)
qed

lemma wait_reservations: "wait_for_terminal p e w st = Inr (st', ss) \<Longrightarrow> same_reservations st st'"
  by (erule wait_for_terminal_Inr) (simp_all add: same_reservations_def)

lemma mark_reservations:
  "mark_replayed p e t st = Inr (st', ok) \<Longrightarrow> same_reservations st st'"
  "mark_usage_finalized p e t st = Inr (st', ok) \<Longrightarrow> same_reservations st st'"
  "mark_webhook_published p e t st = Inr (st', ok) \<Longrightarrow> same_reservations st st'"
  "mark_dispatch_started p e t st = Inr (st', ok) \<Longrightarrow> same_reservations st st'"
  "set_resume_context p e ra st = Inr (st', ok) \<Longrightarrow> same_reservations st st'"
  "set_webhook_event_id p e i st = Inr (st', ok) \<Longrightarrow> same_reservations st st'"
       apply (auto simp: mark_replayed_def bind_result_Inr_iff split: option.splits)[1]
      apply (auto simp: mark_usage_finalized_def bind_result_Inr_iff split: option.splits)[1]
     apply (auto simp: mark_webhook_published_def bind_result_Inr_iff split: option.splits if_splits)[1]
    apply (auto elim: mark_dispatch_started_cases)[1]
   apply (auto simp: set_resume_context_def split: option.splits if_splits)[1]
  apply (auto simp: set_webhook_event_id_def split: option.splits if_splits)[1]
  done

lemma connection_reservations:
  assumes "set_resolved_connection p e c st = Inr st'"
  obtains (same) "same_reservations st st'"
  | (connected) key si where "map_of (idempotency st) key = Some si"
      "idempotency st' = js_set key (si\<lparr>si_resolved_connection := c\<rparr>) (idempotency st)"
      "idempotency_by_execution st' = idempotency_by_execution st"
proof -
  have "idempotency_by_execution st' = idempotency_by_execution st"
    and "idempotency st' = idempotency st \<or> (\<exists>key si. map_of (idempotency st) key = Some si \<and>
       idempotency st' = js_set key (si\<lparr>si_resolved_connection := c\<rparr>) (idempotency st))"
    using assms by (rule set_resolved_connection_Inr, blast)+
  then show thesis using same connected by (auto simp: same_reservations_def)
qed

lemma run_exec_op_reservations:
  obtains (same) "same_reservations st (fst (run_exec_op op st))"
  | (connected) key si c where "map_of (idempotency st) key = Some si"
      "idempotency (fst (run_exec_op op st)) = js_set key (si\<lparr>si_resolved_connection := c\<rparr>) (idempotency st)"
      "idempotency_by_execution (fst (run_exec_op op st)) = idempotency_by_execution st"
  | (reserved) a r where "op = X_Allocate a" "al_idempotency a = Some r"
      "reservation_answer a st = None"
      "find_execution st (al_project a) (ex_id (al_record a)) = None"
      "idempotency (fst (run_exec_op op st)) = idempotency (store_reservation a r st)"
      "idempotency_by_execution (fst (run_exec_op op st)) =
         idempotency_by_execution (store_reservation a r st)"
      "find_execution (fst (run_exec_op op st)) (al_project a) (ex_id (al_record a)) \<noteq> None"
proof (cases op)
  case (X_Allocate a)
  show ?thesis
  proof (cases "allocate_execution a st")
    case (Inl err)
    then show ?thesis using same X_Allocate by simp
  next
    case (Inr x)
    obtain st' res where x: "x = (st', res)" by fastforce
    have run: "fst (run_exec_op op st) = st'" using X_Allocate Inr x by simp
    have proj: "idempotency (store_reservation a r (project_executions p st)) =
          idempotency (store_reservation a r st)"
        "idempotency_by_execution (store_reservation a r (project_executions p st)) =
          idempotency_by_execution (store_reservation a r st)" for r p
      by (simp_all add: store_reservation_def Let_def split: option.splits)
    from Inr[unfolded x] show ?thesis
    proof (cases rule: allocate_Inr)
      case answered
      then show ?thesis using same run by simp
    next
      case allocated
      show ?thesis
      proof (cases "al_idempotency a")
        case None
        then have "same_reservations st st'"
          using allocated(5) by (simp add: same_reservations_def)
        then show ?thesis using same run by simp
      next
        case (Some r)
        show ?thesis
          by (rule reserved[OF X_Allocate Some allocated(2,4)])
            (simp_all add: run allocated(5) Some proj)
      qed
    qed
  qed
next
  case (X_Connection p e c)
  show ?thesis
  proof (cases "set_resolved_connection p e c st")
    case (Inl err)
    then show ?thesis using same X_Connection by simp
  next
    case (Inr st')
    then have run: "fst (run_exec_op op st) = st'" using X_Connection by simp
    from Inr show ?thesis
      by (cases rule: connection_reservations) (use same connected run in \<open>blast+\<close>)
  qed
next
  case (X_Update p r)
  then show ?thesis
    using same update_reservations[of p r st] by (cases "update_execution p r st") auto
next
  case (X_Cancel p e t)
  then show ?thesis
    using same cancel_reservations[of p e t st] by (cases "cancel_execution p e t st") auto
next
  case (X_Wait p e w)
  then show ?thesis
    using same wait_reservations[of p e w st] by (cases "wait_for_terminal p e w st") auto
next
  case (X_Replayed p e t)
  then show ?thesis
    using same mark_reservations(1)[of p e t st] by (cases "mark_replayed p e t st") auto
next
  case (X_Resume p e ra)
  then show ?thesis
    using same mark_reservations(5)[of p e ra st] by (cases "set_resume_context p e ra st") auto
next
  case (X_Event p e i)
  then show ?thesis
    using same mark_reservations(6)[of p e i st] by (cases "set_webhook_event_id p e i st") auto
next
  case (X_Dispatch p e t)
  then show ?thesis
    using same mark_reservations(4)[of p e t st] by (cases "mark_dispatch_started p e t st") auto
next
  case (X_Usage p e t)
  then show ?thesis
    using same mark_reservations(2)[of p e t st] by (cases "mark_usage_finalized p e t st") auto
next
  case (X_Published p e t)
  then show ?thesis
    using same mark_reservations(3)[of p e t st] by (cases "mark_webhook_published p e t st") auto
qed

subsection \<open>The two maps\<close>

text \<open>The reservation of the key was made by execution \<open>e\<close> of project \<open>p\<close>.\<close>

definition reservation_of :: "execution_store \<Rightarrow> string \<Rightarrow> string \<Rightarrow> idempotency_key \<Rightarrow> bool" where
  "reservation_of st p e key \<longleftrightarrow>
     (\<exists>si. map_of (idempotency st) key = Some si \<and> si_project si = p \<and> si_execution si = e)"

definition reservations_wf :: "execution_store \<Rightarrow> bool" where
  "reservations_wf st \<longleftrightarrow>
     (\<forall>p e key. map_of (idempotency_by_execution st) (p, e) = Some key \<longleftrightarrow> reservation_of st p e key) \<and>
     (\<forall>p e key. reservation_of st p e key \<longrightarrow> find_execution st p e \<noteq> None) \<and>
     (\<forall>key si. map_of (idempotency st) key = Some si \<longrightarrow>
        key = idempotency_storage_key (si_project si) (ir_scope si))"

lemma empty_reservations_wf [simp]: "reservations_wf empty_execution_store"
  by (simp add: reservations_wf_def reservation_of_def empty_execution_store_def)

lemma find_kept:
  "find_execution st p e \<noteq> None \<Longrightarrow> find_execution (fst (run_exec_op op st)) p e \<noteq> None"
  using run_exec_op_row[of st p e _ op] by blast

lemma store_reservation_maps:
  fixes a r st
  defines "key \<equiv> idempotency_storage_key (al_project a) (ir_scope r)"
  shows "map_of (idempotency (store_reservation a r st)) key' =
      (if key' = key then Some (reserve a r) else map_of (idempotency st) key')"
    and "map_of (idempotency_by_execution (store_reservation a r st)) pe =
      (if pe = (al_project a, ex_id (al_record a)) then Some key
       else case map_of (idempotency st) key of
         None \<Rightarrow> map_of (idempotency_by_execution st) pe
       | Some old \<Rightarrow> if pe = (si_project old, si_execution old) then None
           else map_of (idempotency_by_execution st) pe)"
  by (simp_all add: store_reservation_def key_def Let_def split: option.splits)

lemma reservation_of_store:
  assumes "\<And>key'. map_of (idempotency st') key' = map_of (idempotency (store_reservation a r st)) key'"
  shows "reservation_of st' p e key' \<longleftrightarrow>
    (if key' = idempotency_storage_key (al_project a) (ir_scope r)
     then p = al_project a \<and> e = ex_id (al_record a) else reservation_of st p e key')"
  using assms by (auto simp: reservation_of_def store_reservation_maps reserve_def)

lemma reservations_wfI:
  assumes "\<And>p e key. map_of (idempotency_by_execution st) (p, e) = Some key \<longleftrightarrow> reservation_of st p e key"
    "\<And>p e key. reservation_of st p e key \<Longrightarrow> find_execution st p e \<noteq> None"
    "\<And>key si. map_of (idempotency st) key = Some si \<Longrightarrow>
        key = idempotency_storage_key (si_project si) (ir_scope si)"
  shows "reservations_wf st"
  using assms unfolding reservations_wf_def by blast

lemma reservations_wfD:
  assumes "reservations_wf st"
  shows "map_of (idempotency_by_execution st) (p, e) = Some key \<longleftrightarrow> reservation_of st p e key"
    and "reservation_of st p e key \<Longrightarrow> find_execution st p e \<noteq> None"
    and "map_of (idempotency st) key = Some si \<Longrightarrow>
      key = idempotency_storage_key (si_project si) (ir_scope si)"
  using assms unfolding reservations_wf_def by blast+

lemma reservation_of_unique:
  "reservation_of st p e key \<Longrightarrow> reservation_of st p' e' key \<Longrightarrow> p = p' \<and> e = e'"
  by (auto simp: reservation_of_def)

lemma run_exec_op_reservations_wf:
  assumes wf: "reservations_wf st"
  shows "reservations_wf (fst (run_exec_op op st))"
proof (cases rule: run_exec_op_reservations[where op = op and st = st])
  case same
  then have r: "reservation_of (fst (run_exec_op op st)) = reservation_of st"
    by (intro ext) (simp add: reservation_of_def same_reservations_def)
  show ?thesis
    by (rule reservations_wfI)
      (use same reservations_wfD[OF wf] find_kept in \<open>auto simp: same_reservations_def r\<close>)
next
  case (connected key si c)
  then have r: "reservation_of (fst (run_exec_op op st)) p e k = reservation_of st p e k" for p e k
    by (auto simp: reservation_of_def)
  show ?thesis
    by (rule reservations_wfI)
      (use connected reservations_wfD[OF wf] find_kept in \<open>auto simp: r split: if_splits\<close>)
next
  case (reserved a r)
  let ?st = "fst (run_exec_op op st)" and ?key = "idempotency_storage_key (al_project a) (ir_scope r)"
  let ?pe = "(al_project a, ex_id (al_record a))"
  note r = reservation_of_store[of ?st a r st, OF arg_cong[OF reserved(5), of "\<lambda>m. map_of m _"]]
  have fresh: "\<not> reservation_of st (al_project a) (ex_id (al_record a)) k" for k
    using reservations_wfD(2)[OF wf] reserved(4) by blast
  note by_exec = store_reservation_maps(2)[of a r st, folded reserved(6)]
  show ?thesis
  proof (rule reservations_wfI)
    fix p e k
    show "map_of (idempotency_by_execution ?st) (p, e) = Some k \<longleftrightarrow> reservation_of ?st p e k"
    proof (cases "(p, e) = ?pe")
      case True
      then show ?thesis using fresh by (auto simp: by_exec r)
    next
      case other: False
      show ?thesis
      proof (cases "map_of (idempotency st) ?key")
        case None
        then have "\<not> reservation_of st p e ?key" by (simp add: reservation_of_def)
        then show ?thesis using other None reservations_wfD(1)[OF wf] by (auto simp: by_exec r)
      next
        case (Some old)
        then have owner: "reservation_of st p' e' ?key \<longleftrightarrow> p' = si_project old \<and> e' = si_execution old"
          for p' e' by (auto simp: reservation_of_def)
        then have "map_of (idempotency_by_execution st) (si_project old, si_execution old) = Some ?key"
          by (simp add: reservations_wfD(1)[OF wf])
        then show ?thesis
          using other Some owner[of p e] reservations_wfD(1)[OF wf, of p e k] by (auto simp: by_exec r)
      qed
    qed
  next
    fix p e k
    assume "reservation_of ?st p e k"
    then show "find_execution ?st p e \<noteq> None"
      using reserved(7) reservations_wfD(2)[OF wf] find_kept by (auto simp: r split: if_splits)
  next
    fix k si
    assume "map_of (idempotency ?st) k = Some si"
    then show "k = idempotency_storage_key (si_project si) (ir_scope si)"
      using reservations_wfD(3)[OF wf] reserved(5)
      by (auto simp: store_reservation_maps reserve_def split: if_splits)
  qed
qed

end
