(* ===== verification/Execution_Waiters.thy ===== *)
theory Execution_Waiters
  imports Execution_Reservations
begin

text \<open>
  The promises of \<open>waitForTerminal\<close> over histories of calls: a promise stays with its execution
  until a call makes the execution terminal, and that call settles it.
\<close>

definition waiting :: "execution_store \<Rightarrow> string \<Rightarrow> string \<Rightarrow> nat \<Rightarrow> bool" where
  "waiting st p e w \<longleftrightarrow> (\<exists>ws. map_of (terminal_waiters st) (p, e) = Some ws \<and> w \<in> set ws)"

lemma in_waiters:
  "w \<in> set (case map_of (terminal_waiters st) (p, e) of None \<Rightarrow> [] | Some ws \<Rightarrow> ws) \<longleftrightarrow> waiting st p e w"
  by (cases "map_of (terminal_waiters st) (p, e)") (simp_all add: waiting_def)

definition waiters_wf :: "execution_store \<Rightarrow> bool" where
  "waiters_wf st \<longleftrightarrow> all_entries (\<lambda>pe ws. distinct ws \<and>
     (\<exists>row. find_execution st (fst pe) (snd pe) = Some row \<and>
        \<not> terminal_status (ex_status (se_record row)))) (terminal_waiters st)"

lemma waiters_wfD:
  assumes "waiters_wf st" "map_of (terminal_waiters st) (p, e) = Some ws"
  obtains row where "distinct ws" "find_execution st p e = Some row"
    "\<not> terminal_status (ex_status (se_record row))"
  using assms by (force simp: waiters_wf_def dest: all_entriesD)

text \<open>Calls that keep every record.\<close>

definition keeps_records :: "execution_store \<Rightarrow> execution_store \<Rightarrow> bool" where
  "keeps_records st st' \<longleftrightarrow> (\<forall>p e row. find_execution st p e = Some row \<longrightarrow>
     (\<exists>row'. find_execution st' p e = Some row' \<and>
        (terminal_status (ex_status (se_record row')) \<longrightarrow> terminal_status (ex_status (se_record row)))))"

lemma keeps_records_same [simp]: "keeps_records st st"
  by (simp add: keeps_records_def)

lemma keeps_records_find: "find_execution st' = find_execution st \<Longrightarrow> keeps_records st st'"
  by (simp add: keeps_records_def)

lemma keeps_records_put:
  assumes "find_execution st p e = Some row"
    "terminal_status (ex_status (se_record row')) \<Longrightarrow> terminal_status (ex_status (se_record row))"
    "find_execution st' = find_execution (put_execution p e row' st)"
  shows "keeps_records st st'"
  using assms by (simp add: keeps_records_def)

text \<open>What a call does to the waiters.\<close>

definition quiet :: "execution_store \<Rightarrow> execution_store \<Rightarrow> bool" where
  "quiet st st' \<longleftrightarrow> terminal_waiters st' = terminal_waiters st \<and> keeps_records st st'"

lemma quiet_put:
  assumes "find_execution st p e = Some row" "se_record row' = se_record row"
  shows "quiet st (put_execution p e row' st)"
  using keeps_records_put[OF assms(1), of row'] assms(2) by (simp add: quiet_def)

lemma quiet_same [simp]: "quiet st st"
  by (simp add: quiet_def)

lemma mark_quiet:
  "mark_replayed p e t st = Inr (st', ok) \<Longrightarrow> quiet st st'"
  "mark_usage_finalized p e t st = Inr (st', ok) \<Longrightarrow> quiet st st'"
  "mark_webhook_published p e t st = Inr (st', ok) \<Longrightarrow> quiet st st'"
  "mark_dispatch_started p e t st = Inr (st', ok) \<Longrightarrow> quiet st st'"
  "set_resume_context p e ra st = Inr (st', ok) \<Longrightarrow> quiet st st'"
  "set_webhook_event_id p e i st = Inr (st', ok) \<Longrightarrow> quiet st st'"
       apply (auto simp: mark_replayed_def bind_result_Inr_iff intro!: quiet_put split: option.splits)[1]
      apply (auto simp: mark_usage_finalized_def bind_result_Inr_iff intro!: quiet_put
        split: option.splits)[1]
     apply (auto simp: mark_webhook_published_def bind_result_Inr_iff intro!: quiet_put
        split: option.splits if_splits)[1]
    apply (auto elim!: mark_dispatch_started_cases intro!: quiet_put)[1]
   apply (auto simp: set_resume_context_def intro!: quiet_put split: option.splits if_splits)[1]
  apply (auto simp: set_webhook_event_id_def intro!: quiet_put split: option.splits if_splits)[1]
  done

lemma connection_quiet:
  assumes "set_resolved_connection p e c st = Inr st'"
  shows "quiet st st'"
proof -
  obtain row where row: "find_execution st p e = Some row" "terminal_waiters st' = terminal_waiters st"
    "executions st' = executions (put_execution p e (row\<lparr>se_resolved_connection := c\<rparr>) st)"
    using assms by (rule set_resolved_connection_Inr)
  have "keeps_records st st'"
    by (rule keeps_records_put[OF row(1) _ find_same_executions[OF row(3)]]) simp
  then show ?thesis using row(2) by (simp add: quiet_def)
qed

lemma allocate_quiet:
  assumes "allocate_execution a st = Inr (st', res)"
  shows "quiet st st'"
  using assms
proof (cases rule: allocate_Inr)
  case answered
  then show ?thesis by (simp add: quiet_def keeps_records_find)
next
  case allocated
  note rows = allocate_rows[OF assms[unfolded allocated(3)]]
  have "keeps_records st st'"
    using find_same_executions[OF rows(4)] rows(1) by (auto simp: keeps_records_def)
  then show ?thesis using rows(3) by (simp add: quiet_def)
qed

lemma update_waiters:
  assumes "update_execution p r st = Inr (st', ss)"
  obtains (quiet) "quiet st st'" "ss = []"
  | (settles) row' where "find_execution st' p (ex_id r) = Some row'"
      "terminal_status (ex_status (se_record row'))"
      "terminal_waiters st' = js_delete (p, ex_id r) (terminal_waiters st)"
      "ss = map (\<lambda>w. (w, projected row'))
        (case map_of (terminal_waiters st) (p, ex_id r) of None \<Rightarrow> [] | Some ws \<Rightarrow> ws)"
      "\<And>p' e'. (p', e') \<noteq> (p, ex_id r) \<Longrightarrow> find_execution st' p' e' = find_execution st p' e'"
proof -
  obtain row where row: "find_execution st p (ex_id r) = Some row"
    and ok: "assert_execution_transition (se_record row) r = Inr ()"
    using assms by (auto simp: update_execution_def bind_result_Inr_iff split: option.splits)
  let ?st = "put_execution p (ex_id r) (row\<lparr>se_record := r\<rparr>) st"
  show thesis
  proof (cases "terminal_status (ex_status r)")
    case False
    then have "st' = ?st" "ss = []" using assms row ok by (simp_all add: update_execution_def Let_def)
    moreover have "keeps_records st ?st"
      by (rule keeps_records_put[OF row _ refl]) (use False in simp)
    ultimately show thesis using quiet by (simp add: quiet_def)
  next
    case True
    then have st': "(st', ss) = settle_waiters p (ex_id r)
        (project_execution_record r (se_replay_observed_at row)) ?st"
      using assms row ok by (simp add: update_execution_def Let_def)
    then have "executions st' = executions ?st" by (simp add: settle_waiters_def)
    from find_same_executions[OF this] show thesis
      using True st' by (intro settles[of "row\<lparr>se_record := r\<rparr>"])
        (auto simp: settle_waiters_def projected_def)
  qed
qed

lemma cancel_execution_missing:
  "find_execution st p e = None \<Longrightarrow> cancel_execution p e t st = Inr (st, [], Cancel_Not_Found)"
  by (simp add: cancel_execution_def)

lemma cancel_execution_already:
  "find_execution st p e = Some row \<Longrightarrow> ex_status (se_record row) = St_Cancelled \<Longrightarrow>
     cancel_execution p e t st = Inr (st, [], Already_Cancelled (projected row))"
  by (simp add: cancel_execution_def)

lemma cancel_execution_terminal:
  "find_execution st p e = Some row \<Longrightarrow>
     ex_status (se_record row) = St_Succeeded \<or> ex_status (se_record row) = St_Failed \<Longrightarrow>
     cancel_execution p e t st = Inr (st, [], Already_Terminal (projected row))"
  by (elim disjE) (simp_all add: cancel_execution_def)

lemma cancel_execution_open:
  assumes "find_execution st p e = Some row" "\<not> terminal_status (ex_status (se_record row))"
  shows "cancel_execution p e t st =
    bind_result (cancelled_execution_record (se_record row) t (se_dispatch_started_at row)) (\<lambda>c.
    bind_result (assert_execution_transition (se_record row) c) (\<lambda>_.
      let s = settle_waiters p e (projected (row\<lparr>se_record := c\<rparr>))
                (put_execution p e (row\<lparr>se_record := c\<rparr>) st) in
      Inr (fst s, snd s, Cancelled_Now (projected (row\<lparr>se_record := c\<rparr>)))))"
proof -
  have "ex_status (se_record row) = St_Pending \<or> ex_status (se_record row) = St_Running"
    using assms(2) by (simp add: not_terminal_status)
  then show ?thesis
    by (elim disjE) (simp_all add: cancel_execution_def assms(1) projected_def Let_def split_beta)
qed

lemma cancel_execution_cases:
  assumes "cancel_execution p e t st = Inr (st', ss, res)"
  obtains (missing) "find_execution st p e = None" "st' = st" "ss = []" "res = Cancel_Not_Found"
  | (already) row where "find_execution st p e = Some row" "ex_status (se_record row) = St_Cancelled"
      "st' = st" "ss = []" "res = Already_Cancelled (projected row)"
  | (terminal) row where "find_execution st p e = Some row"
      "ex_status (se_record row) = St_Succeeded \<or> ex_status (se_record row) = St_Failed"
      "st' = st" "ss = []" "res = Already_Terminal (projected row)"
  | (cancelled) row c where "find_execution st p e = Some row"
      "\<not> terminal_status (ex_status (se_record row))"
      "cancelled_execution_record (se_record row) t (se_dispatch_started_at row) = Inr c"
      "assert_execution_transition (se_record row) c = Inr ()"
      "(st', ss) = settle_waiters p e (projected (row\<lparr>se_record := c\<rparr>))
         (put_execution p e (row\<lparr>se_record := c\<rparr>) st)"
      "res = Cancelled_Now (projected (row\<lparr>se_record := c\<rparr>))"
proof (cases "find_execution st p e")
  case None
  from missing[OF None] show ?thesis using assms by (simp add: cancel_execution_missing[OF None])
next
  case (Some row)
  show ?thesis
  proof (cases "terminal_status (ex_status (se_record row))")
    case True
    then consider "ex_status (se_record row) = St_Cancelled"
      | "ex_status (se_record row) = St_Succeeded \<or> ex_status (se_record row) = St_Failed"
      unfolding terminal_status_def by blast
    then show ?thesis
    proof cases
      case 1
      from already[OF Some 1] show ?thesis
        using assms by (simp add: cancel_execution_already[OF Some 1])
    next
      case 2
      from terminal[OF Some 2] show ?thesis
        using assms by (simp add: cancel_execution_terminal[OF Some 2])
    qed
  next
    case False
    obtain c where c: "cancelled_execution_record (se_record row) t (se_dispatch_started_at row) = Inr c"
      "assert_execution_transition (se_record row) c = Inr ()"
      using assms unfolding cancel_execution_open[OF Some False] bind_result_Inr_iff by auto
    from cancelled[OF Some False c] show ?thesis
      using assms by (simp add: cancel_execution_open[OF Some False] c Let_def prod_eq_iff)
  qed
qed

lemma cancelled_record:
  assumes "cancelled_execution_record r t d = Inr c"
  shows "ex_id c = ex_id r" "ex_status c = St_Cancelled" "same_identity r c" "\<not> ex_replayed c"
  using assms
  by (auto simp: cancelled_execution_record_def Let_def ex_status_def same_identity_def
      split: option.splits)

lemma cancel_waiters:
  assumes "cancel_execution p e t st = Inr (st', ss, res)"
  obtains (quiet) "quiet st st'" "ss = []"
  | (settles) row' where "find_execution st' p e = Some row'"
      "terminal_status (ex_status (se_record row'))"
      "terminal_waiters st' = js_delete (p, e) (terminal_waiters st)"
      "ss = map (\<lambda>w. (w, projected row'))
        (case map_of (terminal_waiters st) (p, e) of None \<Rightarrow> [] | Some ws \<Rightarrow> ws)"
      "\<And>p' e'. (p', e') \<noteq> (p, e) \<Longrightarrow> find_execution st' p' e' = find_execution st p' e'"
  using assms
proof (cases rule: cancel_execution_cases)
  case (cancelled row c)
  let ?st = "put_execution p e (row\<lparr>se_record := c\<rparr>) st"
  have "executions st' = executions ?st" using cancelled(5) by (simp add: settle_waiters_def)
  from find_same_executions[OF this] show ?thesis
    using cancelled(5) cancelled_record(2)[OF cancelled(3)]
    by (intro settles[of "row\<lparr>se_record := c\<rparr>"]) (auto simp: settle_waiters_def)
qed (use quiet in simp_all)

subsection \<open>Every call\<close>

lemma run_exec_op_waiters:
  obtains (quiet) "quiet st (fst (run_exec_op op st))" "snd (run_exec_op op st) = []"
  | (immediate) p e w row where "op = X_Wait p e w" "fst (run_exec_op op st) = st"
      "snd (run_exec_op op st) = [(w, projected row)]" "find_execution st p e = Some row"
      "terminal_status (ex_status (se_record row))"
  | (joins) p e w row where "op = X_Wait p e w" "snd (run_exec_op op st) = []"
      "find_execution st p e = Some row" "\<not> terminal_status (ex_status (se_record row))"
      "fst (run_exec_op op st) = st\<lparr>terminal_waiters := js_set (p, e)
            (set_add w (case map_of (terminal_waiters st) (p, e) of None \<Rightarrow> [] | Some ws \<Rightarrow> ws))
            (terminal_waiters st)\<rparr>"
  | (settles) p e row where "\<And>p' e' w. op \<noteq> X_Wait p' e' w"
      "find_execution (fst (run_exec_op op st)) p e = Some row"
      "terminal_status (ex_status (se_record row))"
      "terminal_waiters (fst (run_exec_op op st)) = js_delete (p, e) (terminal_waiters st)"
      "snd (run_exec_op op st) = map (\<lambda>w. (w, projected row))
        (case map_of (terminal_waiters st) (p, e) of None \<Rightarrow> [] | Some ws \<Rightarrow> ws)"
      "\<And>p' e'. (p', e') \<noteq> (p, e) \<Longrightarrow>
        find_execution (fst (run_exec_op op st)) p' e' = find_execution st p' e'"
proof (cases op)
  case (X_Update p r)
  show ?thesis
  proof (cases "update_execution p r st")
    case (Inl err)
    then show ?thesis using quiet X_Update by simp
  next
    case (Inr x)
    obtain st' ss where x: "x = (st', ss)" by fastforce
    have run: "fst (run_exec_op op st) = st'" "snd (run_exec_op op st) = ss"
      using X_Update Inr x by simp_all
    from Inr[unfolded x] show ?thesis
    proof (cases rule: update_waiters)
      case quiet': quiet
      then show ?thesis using quiet run by simp
    next
      case (settles row')
      then show ?thesis using that(4)[of p "ex_id r" row'] run X_Update by simp
    qed
  qed
next
  case (X_Cancel p e t)
  show ?thesis
  proof (cases "cancel_execution p e t st")
    case (Inl err)
    then show ?thesis using quiet X_Cancel by simp
  next
    case (Inr x)
    obtain st' ss res where x: "x = (st', ss, res)" by (cases x) auto
    have run: "fst (run_exec_op op st) = st'" "snd (run_exec_op op st) = ss"
      using X_Cancel Inr x by simp_all
    from Inr[unfolded x] show ?thesis
    proof (cases rule: cancel_waiters)
      case quiet': quiet
      then show ?thesis using quiet run by simp
    next
      case (settles row')
      then show ?thesis using that(4)[of p e row'] run X_Cancel by simp
    qed
  qed
next
  case (X_Wait p e w)
  show ?thesis
  proof (cases "wait_for_terminal p e w st")
    case (Inl err)
    then show ?thesis using quiet X_Wait by simp
  next
    case (Inr x)
    obtain st' ss where x: "x = (st', ss)" by fastforce
    have run: "fst (run_exec_op op st) = st'" "snd (run_exec_op op st) = ss"
      using X_Wait Inr x by simp_all
    from Inr[unfolded x] show ?thesis
    proof (cases rule: wait_for_terminal_Inr)
      case (now row)
      then show ?thesis using immediate[OF X_Wait] run by simp
    next
      case (later row)
      then show ?thesis using joins[OF X_Wait] run by simp
    qed
  qed
next
  case (X_Allocate a)
  then show ?thesis
    using quiet allocate_quiet[of a st] by (cases "allocate_execution a st") auto
next
  case (X_Connection p e c)
  then show ?thesis
    using quiet connection_quiet[of p e c st] by (cases "set_resolved_connection p e c st") auto
next
  case (X_Replayed p e t)
  then show ?thesis
    using quiet mark_quiet(1)[of p e t st] by (cases "mark_replayed p e t st") auto
next
  case (X_Resume p e ra)
  then show ?thesis
    using quiet mark_quiet(5)[of p e ra st] by (cases "set_resume_context p e ra st") auto
next
  case (X_Event p e i)
  then show ?thesis
    using quiet mark_quiet(6)[of p e i st] by (cases "set_webhook_event_id p e i st") auto
next
  case (X_Dispatch p e t)
  then show ?thesis
    using quiet mark_quiet(4)[of p e t st] by (cases "mark_dispatch_started p e t st") auto
next
  case (X_Usage p e t)
  then show ?thesis
    using quiet mark_quiet(2)[of p e t st] by (cases "mark_usage_finalized p e t st") auto
next
  case (X_Published p e t)
  then show ?thesis
    using quiet mark_quiet(3)[of p e t st] by (cases "mark_webhook_published p e t st") auto
qed

lemma waiters_wfI:
  assumes "\<And>p e ws. map_of (terminal_waiters st) (p, e) = Some ws \<Longrightarrow> distinct ws \<and>
    (\<exists>row. find_execution st p e = Some row \<and> \<not> terminal_status (ex_status (se_record row)))"
  shows "waiters_wf st"
  using assms by (simp add: waiters_wf_def all_entries_def)

lemma run_exec_op_waiters_wf:
  assumes wf: "waiters_wf st"
  shows "waiters_wf (fst (run_exec_op op st))"
proof (cases rule: run_exec_op_waiters[where op = op and st = st])
  case quiet
  show ?thesis
  proof (rule waiters_wfI)
    fix p e ws
    assume "map_of (terminal_waiters (fst (run_exec_op op st))) (p, e) = Some ws"
    then have "map_of (terminal_waiters st) (p, e) = Some ws" using quiet(1) by (simp add: quiet_def)
    from waiters_wfD[OF wf this] obtain row where row: "distinct ws" "find_execution st p e = Some row"
      "\<not> terminal_status (ex_status (se_record row))" .
    then show "distinct ws \<and> (\<exists>row. find_execution (fst (run_exec_op op st)) p e = Some row \<and>
        \<not> terminal_status (ex_status (se_record row)))"
      using quiet(1) unfolding quiet_def keeps_records_def by blast
  qed
next
  case (immediate p e w row)
  then show ?thesis using wf by simp
next
  case (joins p e w row)
  have "distinct (case map_of (terminal_waiters st) (p, e) of None \<Rightarrow> [] | Some ws \<Rightarrow> ws)"
    by (cases "map_of (terminal_waiters st) (p, e)") (auto elim: waiters_wfD[OF wf])
  moreover have "find_execution (fst (run_exec_op op st)) = find_execution st"
    by (rule find_same_executions) (simp add: joins(5))
  ultimately show ?thesis
    using joins(3,4) wf unfolding waiters_wf_def by (simp add: joins(5))
next
  case (settles p e row)
  show ?thesis
  proof (rule waiters_wfI)
    fix p' e' ws
    assume "map_of (terminal_waiters (fst (run_exec_op op st))) (p', e') = Some ws"
    then have ne: "(p', e') \<noteq> (p, e)" and ws: "map_of (terminal_waiters st) (p', e') = Some ws"
      by (auto simp: settles(4) split: if_splits)
    from waiters_wfD[OF wf ws] obtain row' where "distinct ws" "find_execution st p' e' = Some row'"
      "\<not> terminal_status (ex_status (se_record row'))" .
    with settles(6)[OF ne]
    show "distinct ws \<and> (\<exists>row. find_execution (fst (run_exec_op op st)) p' e' = Some row \<and>
        \<not> terminal_status (ex_status (se_record row)))"
      by simp
  qed
qed

lemma empty_waiters_wf [simp]: "waiters_wf empty_execution_store"
  by (simp add: waiters_wf_def empty_execution_store_def)

lemma run_exec_ops_waiters_wf: "waiters_wf st \<Longrightarrow> waiters_wf (run_exec_ops ops st)"
  by (induction ops arbitrary: st) (simp_all add: run_exec_op_waiters_wf)

subsection \<open>One promise over a history\<close>

definition waits_only :: "execution_store \<Rightarrow> string \<Rightarrow> string \<Rightarrow> nat \<Rightarrow> bool" where
  "waits_only st p e w \<longleftrightarrow> (\<forall>p' e'. waiting st p' e' w \<longleftrightarrow> p' = p \<and> e' = e)"

definition not_waiting :: "execution_store \<Rightarrow> nat \<Rightarrow> bool" where
  "not_waiting st w \<longleftrightarrow> (\<forall>p e. \<not> waiting st p e w)"

definition settlements :: "nat \<Rightarrow> settlement list \<Rightarrow> execution_record list" where
  "settlements w ss = map snd (filter (\<lambda>s. fst s = w) ss)"

lemma settlements_simps [simp]:
  "settlements w [] = []"
  "settlements w (ss @ ss') = settlements w ss @ settlements w ss'"
  "settlements w ((w', r) # ss) = (if w' = w then r # settlements w ss else settlements w ss)"
  by (simp_all add: settlements_def)

lemma settlements_map:
  "distinct ws \<Longrightarrow> settlements w (map (\<lambda>w. (w, r)) ws) = (if w \<in> set ws then [r] else [])"
  by (induction ws) auto

definition waits_for :: "nat \<Rightarrow> exec_op \<Rightarrow> bool" where
  "waits_for w op \<longleftrightarrow> (case op of X_Wait p e w' \<Rightarrow> w' = w | _ \<Rightarrow> False)"

lemma waits_only_step:
  assumes wf: "waiters_wf st" and w: "waits_only st p e w" and op: "\<not> waits_for w op"
  shows "(waits_only (fst (run_exec_op op st)) p e w \<and> settlements w (snd (run_exec_op op st)) = []) \<or>
    (not_waiting (fst (run_exec_op op st)) w \<and>
      (\<exists>row. find_execution (fst (run_exec_op op st)) p e = Some row \<and>
         terminal_status (ex_status (se_record row)) \<and>
         settlements w (snd (run_exec_op op st)) = [projected row]))"
proof (cases rule: run_exec_op_waiters[where op = op and st = st])
  case quiet
  then show ?thesis using w by (simp add: quiet_def waits_only_def waiting_def)
next
  case (immediate p' e' w' row)
  then show ?thesis using w op by (simp add: waits_for_def)
next
  case (joins p' e' w' row)
  have other: "w' \<noteq> w" using op joins(1) by (simp add: waits_for_def)
  have "waiting (fst (run_exec_op op st)) p1 e1 w \<longleftrightarrow> waiting st p1 e1 w" for p1 e1
    using other by (cases "map_of (terminal_waiters st) (p', e')") (auto simp: joins(5) waiting_def)
  then show ?thesis using w joins(2) by (simp add: waits_only_def)
next
  case (settles p' e' row)
  have still: "waiting (fst (run_exec_op op st)) p1 e1 w \<longleftrightarrow>
      (p1, e1) \<noteq> (p', e') \<and> waiting st p1 e1 w" for p1 e1
    by (auto simp: settles(4) waiting_def)
  have dist: "distinct (case map_of (terminal_waiters st) (p', e') of None \<Rightarrow> [] | Some ws \<Rightarrow> ws)"
    by (cases "map_of (terminal_waiters st) (p', e')") (auto elim: waiters_wfD[OF wf])
  have mem: "w \<in> set (case map_of (terminal_waiters st) (p', e') of None \<Rightarrow> [] | Some ws \<Rightarrow> ws) \<longleftrightarrow>
      p' = p \<and> e' = e"
    unfolding in_waiters using w by (simp add: waits_only_def)
  show ?thesis
  proof (cases "p' = p \<and> e' = e")
    case True
    then have "settlements w (snd (run_exec_op op st)) = [projected row]"
      using settlements_map[OF dist] mem by (simp add: settles(5))
    moreover have "not_waiting (fst (run_exec_op op st)) w"
      using w True still by (simp add: not_waiting_def waits_only_def)
    ultimately show ?thesis using settles(2,3) True by blast
  next
    case False
    then have "settlements w (snd (run_exec_op op st)) = []"
      using settlements_map[OF dist] mem by (simp add: settles(5))
    moreover have "waits_only (fst (run_exec_op op st)) p e w"
      using w False still by (auto simp: waits_only_def)
    ultimately show ?thesis by blast
  qed
qed

lemma not_waiting_step:
  assumes wf: "waiters_wf st" and w: "not_waiting st w" and op: "\<not> waits_for w op"
  shows "not_waiting (fst (run_exec_op op st)) w \<and> settlements w (snd (run_exec_op op st)) = []"
proof (cases rule: run_exec_op_waiters[where op = op and st = st])
  case quiet
  then show ?thesis using w by (simp add: quiet_def not_waiting_def waiting_def)
next
  case (immediate p' e' w' row)
  then show ?thesis using w op by (simp add: waits_for_def)
next
  case (joins p' e' w' row)
  have other: "w' \<noteq> w" using op joins(1) by (simp add: waits_for_def)
  have "waiting (fst (run_exec_op op st)) p1 e1 w \<longleftrightarrow> waiting st p1 e1 w" for p1 e1
    using other by (cases "map_of (terminal_waiters st) (p', e')") (auto simp: joins(5) waiting_def)
  then show ?thesis using w joins(2) by (simp add: not_waiting_def)
next
  case (settles p' e' row)
  have dist: "distinct (case map_of (terminal_waiters st) (p', e') of None \<Rightarrow> [] | Some ws \<Rightarrow> ws)"
    by (cases "map_of (terminal_waiters st) (p', e')") (auto elim: waiters_wfD[OF wf])
  have "w \<notin> set (case map_of (terminal_waiters st) (p', e') of None \<Rightarrow> [] | Some ws \<Rightarrow> ws)"
    unfolding in_waiters using w by (simp add: not_waiting_def)
  then have "settlements w (snd (run_exec_op op st)) = []"
    using settlements_map[OF dist] by (simp add: settles(5))
  moreover have "not_waiting (fst (run_exec_op op st)) w"
    using w by (auto simp: not_waiting_def waiting_def settles(4))
  ultimately show ?thesis by blast
qed

lemma not_waiting_log:
  "waiters_wf st \<Longrightarrow> not_waiting st w \<Longrightarrow> list_all (\<lambda>op. \<not> waits_for w op) ops \<Longrightarrow>
     settlements w (exec_log ops st) = []"
  by (induction ops arbitrary: st) (simp_all add: not_waiting_step run_exec_op_waiters_wf)

lemma waits_only_log:
  "waiters_wf st \<Longrightarrow> waits_only st p e w \<Longrightarrow> list_all (\<lambda>op. \<not> waits_for w op) ops \<Longrightarrow>
   (waits_only (run_exec_ops ops st) p e w \<and> settlements w (exec_log ops st) = []) \<or>
   (\<exists>ops1 ops2 row. ops = ops1 @ ops2 \<and> find_execution (run_exec_ops ops1 st) p e = Some row \<and>
      terminal_status (ex_status (se_record row)) \<and> settlements w (exec_log ops st) = [projected row])"
proof (induction ops arbitrary: st)
  case Nil
  then show ?case by simp
next
  case (Cons op ops)
  let ?st = "fst (run_exec_op op st)"
  have wf: "waiters_wf ?st" using Cons.prems(1) by (rule run_exec_op_waiters_wf)
  have op: "\<not> waits_for w op" and ops: "list_all (\<lambda>op. \<not> waits_for w op) ops"
    using Cons.prems(3) by simp_all
  from waits_only_step[OF Cons.prems(1,2) op] show ?case
  proof (elim disjE conjE exE)
    assume still: "waits_only ?st p e w" and none: "settlements w (snd (run_exec_op op st)) = []"
    from Cons.IH[OF wf still ops] show ?case
    proof (elim disjE exE conjE)
      fix ops1 ops2 row
      assume "ops = ops1 @ ops2" "find_execution (run_exec_ops ops1 ?st) p e = Some row"
        "terminal_status (ex_status (se_record row))" "settlements w (exec_log ops ?st) = [projected row]"
      then show ?case using none by (intro disjI2 exI[of _ "op # ops1"] exI[of _ ops2] exI[of _ row]) simp
    qed (use none in simp)
  next
    fix row
    assume settled: "not_waiting ?st w" and row: "find_execution ?st p e = Some row"
      "terminal_status (ex_status (se_record row))" "settlements w (snd (run_exec_op op st)) = [projected row]"
    have "settlements w (exec_log ops ?st) = []" by (rule not_waiting_log[OF wf settled ops])
    then show ?case using row by (intro disjI2 exI[of _ "[op]"] exI[of _ ops] exI[of _ row]) simp
  qed
qed

end
