(* ===== verification/Executions.thy ===== *)
theory Executions
  imports Execution_Waiters
begin

text \<open>
  The contract of the execution store over all histories of calls: invariants, progress of one
  execution, idempotent allocation, single dispatch, settled promises, cancellation, and listings.
\<close>

subsection \<open>Invariants and progress\<close>

lemma run_exec_ops_reservations_wf: "reservations_wf st \<Longrightarrow> reservations_wf (run_exec_ops ops st)"
  by (induction ops arbitrary: st) (simp_all add: run_exec_op_reservations_wf)

text \<open>C13: Every history of calls on the empty store keeps the store well formed: rows lie under their
  own identifier with sequence numbers that are distinct across projects, replay flags stay out of the
  stored records, dispatch marks only lie on executions that left pending, the two idempotency maps
  are inverse to each other and point to existing executions, and promises only wait for executions
  that are not terminal.\<close>

theorem execution_store_invariant:
  "exec_rows_wf (run_exec_ops ops empty_execution_store) \<and>
   reservations_wf (run_exec_ops ops empty_execution_store) \<and>
   waiters_wf (run_exec_ops ops empty_execution_store)"
  by (simp add: run_exec_ops_rows_wf run_exec_ops_reservations_wf run_exec_ops_waiters_wf)

text \<open>C14: An execution only makes progress. Whatever calls follow, its row is still there with the
  same sequence, request and identity fields; its status has only moved along pending, running,
  terminal; a terminal record is never rewritten; and the dispatch, event, publication, usage, replay
  and resume marks are written once.\<close>

theorem execution_only_progresses:
  assumes "find_execution st p e = Some row"
  shows "\<exists>row'. find_execution (run_exec_ops ops st) p e = Some row' \<and> row_progress row row'"
  using assms by (rule run_exec_ops_progress)

subsection \<open>Idempotent allocation\<close>

definition holds_reservation ::
    "execution_store \<Rightarrow> idempotency_key \<Rightarrow> string \<Rightarrow> timestamp \<Rightarrow> string \<Rightarrow> string \<Rightarrow> bool" where
  "holds_reservation st key hash expires p e \<longleftrightarrow> (\<exists>si. map_of (idempotency st) key = Some si \<and>
     ir_request_hash si = hash \<and> ir_expires_at si = expires \<and> si_project si = p \<and> si_execution si = e)"

definition allocation_key :: "execution_allocation \<Rightarrow> idempotency_key option" where
  "allocation_key a = map_option (\<lambda>r. idempotency_storage_key (al_project a) (ir_scope r)) (al_idempotency a)"

text \<open>Allocations with the key are made before its reservation expires.\<close>

definition within_window :: "idempotency_key \<Rightarrow> timestamp \<Rightarrow> exec_op \<Rightarrow> bool" where
  "within_window key expires op \<longleftrightarrow> (case op of
     X_Allocate a \<Rightarrow> allocation_key a \<noteq> Some key \<or>
       num_less (date_parse (ex_created_at (al_record a))) (date_parse expires)
   | _ \<Rightarrow> True)"

lemma holds_answer:
  assumes wf: "reservations_wf st" and h: "holds_reservation st key hash expires p e"
    and r: "al_idempotency a = Some r" "idempotency_storage_key (al_project a) (ir_scope r) = key"
    and t: "num_less (date_parse (ex_created_at (al_record a))) (date_parse expires)"
  shows "al_project a = p \<and> (\<exists>row. find_execution st p e = Some row \<and>
    reservation_answer a st =
      Some (if ir_request_hash r = hash then Alloc_Replay (projected row) else Alloc_Conflict) \<and>
    inspect_allocation a st =
      Inr (if ir_request_hash r = hash then Inspect_Replay (projected row) else Inspect_Conflict))"
proof -
  obtain si where si: "map_of (idempotency st) key = Some si" "ir_request_hash si = hash"
    "ir_expires_at si = expires" "si_project si = p" "si_execution si = e"
    using h by (auto simp: holds_reservation_def)
  have "key = idempotency_storage_key p (ir_scope si)"
    using reservations_wfD(3)[OF wf si(1)] si(4) by simp
  then have p: "al_project a = p" using r(2) by (simp add: idempotency_storage_key_def)
  have "reservation_of st p e key" using si by (auto simp: reservation_of_def)
  then obtain row where row: "find_execution st p e = Some row"
    using reservations_wfD(2)[OF wf] by blast
  have "\<not> num_le (date_parse expires) (date_parse (ex_created_at (al_record a)))"
    using t by (rule num_less_not_le)
  then show ?thesis
    using p row si t r by (simp add: reservation_answer_def inspect_allocation_def)
qed

lemma holds_step:
  assumes wf: "reservations_wf st" and h: "holds_reservation st key hash expires p e"
    and op: "within_window key expires op"
  shows "holds_reservation (fst (run_exec_op op st)) key hash expires p e"
proof (cases rule: run_exec_op_reservations[where op = op and st = st])
  case same
  then show ?thesis using h by (simp add: holds_reservation_def same_reservations_def)
next
  case (connected key' si c)
  then show ?thesis using h by (auto simp: holds_reservation_def)
next
  case (reserved a r)
  have "idempotency_storage_key (al_project a) (ir_scope r) \<noteq> key"
  proof
    assume k: "idempotency_storage_key (al_project a) (ir_scope r) = key"
    then have "num_less (date_parse (ex_created_at (al_record a))) (date_parse expires)"
      using op reserved(1,2) by (simp add: within_window_def allocation_key_def)
    from holds_answer[OF wf h reserved(2) k this] reserved(3) show False by auto
  qed
  then show ?thesis using h by (simp add: holds_reservation_def reserved(5) store_reservation_maps)
qed

lemma holds_ops:
  "reservations_wf st \<Longrightarrow> holds_reservation st key hash expires p e \<Longrightarrow>
   list_all (within_window key expires) ops \<Longrightarrow>
   holds_reservation (run_exec_ops ops st) key hash expires p e"
  by (induction ops arbitrary: st) (simp_all add: holds_step run_exec_op_reservations_wf)

lemma allocated_holds:
  assumes "allocate_execution a st = Inr (st', Alloc_Allocated rec)" "al_idempotency a = Some r"
  shows "holds_reservation st' (idempotency_storage_key (al_project a) (ir_scope r))
    (ir_request_hash r) (ir_expires_at r) (al_project a) (ex_id (al_record a))"
  using assms(1)
proof (cases rule: allocate_Inr)
  case answered
  then show ?thesis using reservation_answer_not_allocated[of a st rec] by simp
next
  case allocated
  then show ?thesis
    using assms(2) by (simp add: holds_reservation_def store_reservation_maps reserve_def Let_def)
qed

lemma project_executions_id:
  "find_execution st p e \<noteq> None \<Longrightarrow> project_executions p st = st"
  by (auto simp: project_executions_def find_execution_def)

text \<open>C15: Allocation is idempotent within the reservation window. After an execution was allocated under
  an idempotency scope, and whatever calls follow in which allocations under the same scope are made
  before the reservation expires, another such allocation creates nothing: with the same request hash
  it replays the original execution as it is now, with another hash it is a conflict; the read-only
  inspection gives the same answer.\<close>

theorem allocation_is_idempotent:
  assumes "reservations_wf st"
    and "allocate_execution a st = Inr (st1, Alloc_Allocated rec)" "al_idempotency a = Some r"
    and "list_all (within_window (idempotency_storage_key (al_project a) (ir_scope r)) (ir_expires_at r)) ops"
    and "\<not> ex_replayed (al_record b)" "al_idempotency b = Some r'" "al_project b = al_project a"
      "ir_scope r' = ir_scope r"
      "num_less (date_parse (ex_created_at (al_record b))) (date_parse (ir_expires_at r))"
  shows "\<exists>current. get_execution (al_project a) (ex_id (al_record a)) (run_exec_ops ops st1) = Some current \<and>
    allocate_execution b (run_exec_ops ops st1) =
      Inr (run_exec_ops ops st1,
        if ir_request_hash r' = ir_request_hash r then Alloc_Replay current else Alloc_Conflict) \<and>
    inspect_allocation b (run_exec_ops ops st1) =
      Inr (if ir_request_hash r' = ir_request_hash r then Inspect_Replay current else Inspect_Conflict)"
proof -
  let ?st = "run_exec_ops ops st1" and ?key = "idempotency_storage_key (al_project a) (ir_scope r)"
  have "reservations_wf (fst (run_exec_op (X_Allocate a) st))"
    by (rule run_exec_op_reservations_wf[OF assms(1)])
  then have wf1: "reservations_wf st1" using assms(2) by simp
  have key: "idempotency_storage_key (al_project b) (ir_scope r') = ?key" using assms(7,8) by simp
  from holds_answer[OF run_exec_ops_reservations_wf[OF wf1]
      holds_ops[OF wf1 allocated_holds[OF assms(2,3)] assms(4)] assms(6) key assms(9)]
  obtain row where row: "find_execution ?st (al_project a) (ex_id (al_record a)) = Some row"
    and ans: "reservation_answer b ?st =
      Some (if ir_request_hash r' = ir_request_hash r then Alloc_Replay (projected row) else Alloc_Conflict)"
    and ins: "inspect_allocation b ?st =
      Inr (if ir_request_hash r' = ir_request_hash r then Inspect_Replay (projected row) else Inspect_Conflict)"
    by auto
  have "project_executions (al_project b) ?st = ?st"
    using row assms(7) project_executions_id[of ?st "al_project a" "ex_id (al_record a)"] by simp
  then show ?thesis
    using row ans ins assms(5) by (simp add: get_execution_def allocate_execution_def)
qed

text \<open>Reservations made with valid timestamps.\<close>

definition timely_op :: "exec_op \<Rightarrow> bool" where
  "timely_op op \<longleftrightarrow> (case op of X_Allocate a \<Rightarrow>
     (case al_idempotency a of None \<Rightarrow> True | Some r \<Rightarrow> valid_time (ir_expires_at r)) | _ \<Rightarrow> True)"

definition timely :: "execution_store \<Rightarrow> bool" where
  "timely st \<longleftrightarrow> (\<forall>key si. map_of (idempotency st) key = Some si \<longrightarrow> valid_time (ir_expires_at si))"

lemma timely_step: "timely st \<Longrightarrow> timely_op op \<Longrightarrow> timely (fst (run_exec_op op st))"
proof (cases rule: run_exec_op_reservations[where op = op and st = st])
  case (reserved a r)
  assume "timely st" "timely_op op"
  then show ?thesis
    using reserved(1,2,5)
    by (auto simp: timely_def timely_op_def reserve_def store_reservation_maps)
qed (auto simp: timely_def same_reservations_def)

lemma timely_ops: "timely st \<Longrightarrow> list_all timely_op ops \<Longrightarrow> timely (run_exec_ops ops st)"
  by (induction ops arbitrary: st) (simp_all add: timely_step)

lemma inspect_answer:
  assumes wf: "reservations_wf st" and t: "timely st" and v: "valid_time (ex_created_at (al_record a))"
  shows "inspect_allocation a st = Inr (case reservation_answer a st of
    None \<Rightarrow> Inspect_Available | Some (Alloc_Replay r) \<Rightarrow> Inspect_Replay r | _ \<Rightarrow> Inspect_Conflict)"
proof (cases "al_idempotency a")
  case None
  then show ?thesis by (simp add: inspect_allocation_def reservation_answer_def)
next
  case (Some r)
  let ?key = "idempotency_storage_key (al_project a) (ir_scope r)"
  show ?thesis
  proof (cases "map_of (idempotency st) ?key")
    case None
    then show ?thesis using Some by (simp add: inspect_allocation_def reservation_answer_def)
  next
    case si: (Some si)
    have p: "si_project si = al_project a"
      using reservations_wfD(3)[OF wf si] by (simp add: idempotency_storage_key_def)
    then have "reservation_of st (al_project a) (si_execution si) ?key"
      using si by (auto simp: reservation_of_def)
    then obtain row where row: "find_execution st (al_project a) (si_execution si) = Some row"
      using reservations_wfD(2)[OF wf] by blast
    obtain c x where c: "date_parse (ex_created_at (al_record a)) = Some c"
      "date_parse (ir_expires_at si) = Some x"
      using t[unfolded timely_def, rule_format, OF si] v by (auto simp: valid_time_iff)
    then show ?thesis
      using Some si row by (simp add: inspect_allocation_def reservation_answer_def)
  qed
qed

text \<open>The preflight agrees with the allocation. In every history whose reservations carry valid
  expiry times, for an allocation with a valid creation time the read-only inspection answers exactly
  what the allocation would: available before an insertion (or a duplicate identifier), the replayed
  record before a replay, conflict before a conflict.\<close>

theorem inspection_predicts_allocation:
  assumes "list_all timely_op ops" "valid_time (ex_created_at (al_record a))"
    "\<not> ex_replayed (al_record a)"
  shows "(case allocate_execution a (run_exec_ops ops empty_execution_store) of
      Inl err \<Rightarrow> err = Plain_Error (''Duplicate execution ID: '' @ ex_id (al_record a)) \<and>
        inspect_allocation a (run_exec_ops ops empty_execution_store) = Inr Inspect_Available
    | Inr (_, Alloc_Allocated _) \<Rightarrow>
        inspect_allocation a (run_exec_ops ops empty_execution_store) = Inr Inspect_Available
    | Inr (_, Alloc_Replay r) \<Rightarrow>
        inspect_allocation a (run_exec_ops ops empty_execution_store) = Inr (Inspect_Replay r)
    | Inr (_, Alloc_Conflict) \<Rightarrow>
        inspect_allocation a (run_exec_ops ops empty_execution_store) = Inr Inspect_Conflict)"
proof -
  let ?st = "run_exec_ops ops empty_execution_store"
  have "timely empty_execution_store" by (simp add: timely_def empty_execution_store_def)
  then have t: "timely ?st" using assms(1) by (rule timely_ops)
  have wf: "reservations_wf ?st" by (simp add: run_exec_ops_reservations_wf)
  note inspect = inspect_answer[OF wf t assms(2)]
  show ?thesis
  proof (cases "allocate_execution a ?st")
    case (Inl err)
    then have "reservation_answer a ?st = None"
      "err = Plain_Error (''Duplicate execution ID: '' @ ex_id (al_record a))"
      using assms(3) by (auto simp: allocate_execution_def Let_def split: option.splits if_splits)
    then show ?thesis using Inl inspect by simp
  next
    case (Inr x)
    obtain st' res where x: "x = (st', res)" by fastforce
    have cases: "(case res of Alloc_Allocated _ \<Rightarrow> reservation_answer a ?st = None
        | _ \<Rightarrow> reservation_answer a ?st = Some res)"
      using Inr[unfolded x] reservation_answer_not_allocated[of a ?st]
      by (cases rule: allocate_Inr) (auto split: allocation_result.splits)
    show ?thesis
      using inspect cases Inr x by (cases res) simp_all
  qed
qed

subsection \<open>Dispatch\<close>

text \<open>At most one worker starts the provider call. Once a call of \<open>markDispatchStarted\<close> has returned
  true, which happens only while the execution is running and unmarked, every later call for this
  execution returns false and changes nothing, whatever calls come in between.\<close>

theorem dispatch_starts_once:
  assumes "mark_dispatch_started p e t st = Inr (st1, True)"
  shows "(\<exists>row. find_execution st p e = Some row \<and> ex_status (se_record row) = St_Running \<and>
      se_dispatch_started_at row = None) \<and>
    mark_dispatch_started p e t' (run_exec_ops ops st1) = Inr (run_exec_ops ops st1, False)"
  using assms
proof (cases rule: mark_dispatch_started_cases)
  case (yes row ms)
  then have "find_execution st1 p e = Some (row\<lparr>se_dispatch_started_at := Some (Iso ms)\<rparr>)" by simp
  from run_exec_ops_progress[OF this, of ops] obtain row' where
    row': "find_execution (run_exec_ops ops st1) p e = Some row'" "se_dispatch_started_at row' = Some (Iso ms)"
    by (auto simp: row_progress_def kept_def)
  then show ?thesis using yes by (simp add: mark_dispatch_started_def)
qed simp

subsection \<open>Promises\<close>

text \<open>A promise of \<open>waitForTerminal\<close> is settled exactly once, with the terminal record. Let a call
  join the waiters of an execution with a fresh promise. In every history that follows, as long as
  the execution is not terminal the promise waits and is settled by no call; once the execution is
  terminal the promise has been settled exactly once, with the record that the execution has (up to
  the replay flag, which is projected from a mark of its own).\<close>

theorem waiter_settles_once:
  assumes wf: "waiters_wf st" and fresh: "not_waiting st w"
    and wait: "wait_for_terminal p e w st = Inr (st1, [])"
    and ops: "list_all (\<lambda>op. \<not> waits_for w op) ops"
  shows "\<exists>row. find_execution (run_exec_ops ops st1) p e = Some row \<and>
    (if terminal_status (ex_status (se_record row))
     then \<exists>r. settlements w (exec_log ops st1) = [r] \<and>
       (r = se_record row \<or> r = (se_record row)\<lparr>ex_replayed := True\<rparr>)
     else waiting (run_exec_ops ops st1) p e w \<and> settlements w (exec_log ops st1) = [])"
proof -
  have wf1: "waiters_wf st1"
    using run_exec_op_waiters_wf[OF wf, of "X_Wait p e w"] wait by simp
  obtain row0 where row0: "find_execution st p e = Some row0"
    and st1: "st1 = st\<lparr>terminal_waiters := js_set (p, e)
            (set_add w (case map_of (terminal_waiters st) (p, e) of None \<Rightarrow> [] | Some ws \<Rightarrow> ws))
            (terminal_waiters st)\<rparr>"
    using wait by (cases rule: wait_for_terminal_Inr) simp_all
  have only: "waits_only st1 p e w"
    using fresh by (auto simp: waits_only_def waiting_def not_waiting_def st1)
  have "find_execution st1 p e = Some row0"
    using row0 find_same_executions[of st1 st] by (simp add: st1)
  from run_exec_ops_progress[OF this] obtain row where
    row: "find_execution (run_exec_ops ops st1) p e = Some row" by blast
  from waits_only_log[OF wf1 only ops] show ?thesis
  proof (elim disjE exE conjE)
    assume "waits_only (run_exec_ops ops st1) p e w" "settlements w (exec_log ops st1) = []"
    moreover from this(1) have w: "waiting (run_exec_ops ops st1) p e w" by (simp add: waits_only_def)
    moreover have "\<not> terminal_status (ex_status (se_record row))"
      using w row run_exec_ops_waiters_wf[OF wf1, of ops]
      by (auto simp: waiting_def elim!: waiters_wfD)
    ultimately show ?thesis using row by simp
  next
    fix ops1 ops2 row1
    assume split: "ops = ops1 @ ops2" and row1: "find_execution (run_exec_ops ops1 st1) p e = Some row1"
      and final: "terminal_status (ex_status (se_record row1))"
      and log: "settlements w (exec_log ops st1) = [projected row1]"
    from run_exec_ops_progress[OF row1, of ops2] row have "row_progress row1 row"
      by (simp add: split run_exec_ops_append)
    then have "se_record row = se_record row1" using final by (simp add: row_progress_def)
    then show ?thesis
      using row final log by (auto simp: projected_def project_execution_record_def)
  qed
qed

subsection \<open>Cancellation\<close>

text \<open>Cancellation is decided by the status alone. For a stored execution and valid timestamps the
  call never fails: a cancelled execution is reported as it is, a succeeded or failed one is left alone,
  and a pending or running one becomes cancelled, with a record that keeps its identity, is not
  retryable, has a non-negative latency, and says that dispatch may have begun exactly when the dispatch
  mark is set; all promises of the execution are settled with this record, and a later cancellation
  reports the same record.\<close>

theorem cancellation_is_decided:
  assumes wf: "exec_rows_wf st" and row: "find_execution st p e = Some row"
    and at: "valid_time t" "valid_time (case ex_started_at (se_record row) of
      None \<Rightarrow> ex_created_at (se_record row) | Some s \<Rightarrow> s)"
  shows "(ex_status (se_record row) = St_Cancelled \<and>
      cancel_execution p e t st = Inr (st, [], Already_Cancelled (projected row))) \<or>
    (ex_status (se_record row) \<in> {St_Succeeded, St_Failed} \<and>
      cancel_execution p e t st = Inr (st, [], Already_Terminal (projected row))) \<or>
    (ex_status (se_record row) \<in> {St_Pending, St_Running} \<and>
      (\<exists>st' c err latency.
        cancel_execution p e t st = Inr (st', map (\<lambda>w. (w, c))
          (case map_of (terminal_waiters st) (p, e) of None \<Rightarrow> [] | Some ws \<Rightarrow> ws), Cancelled_Now c) \<and>
        ex_outcome c = Out_Cancelled err latency (se_dispatch_started_at row \<noteq> None) \<and>
        \<not> te_retryable err \<and> te_code err = Code_Execution_Cancelled \<and> 0 \<le> latency \<and>
        ex_id c = e \<and> same_identity (se_record row) c \<and>
        get_execution p e st' = Some c \<and>
        cancel_execution p e t' st' = Inr (st', [], Already_Cancelled c)))"
proof (cases "terminal_status (ex_status (se_record row))")
  case True
  then consider "ex_status (se_record row) = St_Cancelled" | "ex_status (se_record row) = St_Succeeded"
    | "ex_status (se_record row) = St_Failed" by (auto simp: terminal_status_def)
  then show ?thesis
    by cases (simp_all add: cancel_execution_already[OF row] cancel_execution_terminal[OF row])
next
  case False
  have open': "ex_status (se_record row) \<in> {St_Pending, St_Running}"
    using False by (simp add: not_terminal_status)
  obtain ms s where ms: "date_parse t = Some ms" "date_parse (case ex_started_at (se_record row) of
      None \<Rightarrow> ex_created_at (se_record row) | Some s \<Rightarrow> s) = Some s"
    using at by (auto simp: valid_time_iff)
  then obtain c where c: "cancelled_execution_record (se_record row) t (se_dispatch_started_at row) = Inr c"
    and out: "\<exists>err latency. ex_outcome c = Out_Cancelled err latency (se_dispatch_started_at row \<noteq> None) \<and>
        \<not> te_retryable err \<and> te_code err = Code_Execution_Cancelled \<and> 0 \<le> latency"
    by (simp add: cancelled_execution_record_def Let_def)
  note rec = cancelled_record[OF c]
  have ok: "assert_execution_transition (se_record row) c = Inr ()"
    using rec open' by (auto simp: assert_execution_transition_def valid_transition_def)
  let ?row = "row\<lparr>se_record := c\<rparr>"
  let ?s = "settle_waiters p e (projected ?row) (put_execution p e ?row st)"
  have run: "cancel_execution p e t st = Inr (fst ?s, snd ?s, Cancelled_Now (projected ?row))"
    using c ok by (simp add: cancel_execution_open[OF row False] Let_def)
  have find: "find_execution (fst ?s) p e = Some ?row"
    using find_same_executions[OF settle_frame(1)] by simp
  have proj: "ex_outcome (projected ?row) = ex_outcome c" "ex_id (projected ?row) = ex_id c"
    "same_identity (se_record row) (projected ?row)"
    using rec(3) by (simp_all add: projected_def project_execution_record_def same_identity_def)
  have "ex_id c = e"
    using rec(1) exec_rows_wf_row[OF wf row] by (simp add: exec_row_wf_def)
  moreover have "cancel_execution p e t' (fst ?s) = Inr (fst ?s, [], Already_Cancelled (projected ?row))"
    by (rule cancel_execution_already[OF find]) (use rec(2) in simp)
  moreover have "get_execution p e (fst ?s) = Some (projected ?row)"
    by (simp add: get_execution_def find)
  moreover have "snd ?s = map (\<lambda>w. (w, projected ?row))
      (case map_of (terminal_waiters st) (p, e) of None \<Rightarrow> [] | Some ws \<Rightarrow> ws)"
    by (simp add: settle_waiters_def)
  ultimately show ?thesis
    using run out proj open' by metis
qed

subsection \<open>Listings\<close>

text \<open>Every identifier of the store has the type of an execution identifier.\<close>

definition ids_typed :: "execution_store \<Rightarrow> bool" where
  "ids_typed st \<longleftrightarrow> (\<forall>p e. find_execution st p e \<noteq> None \<longrightarrow> starts_with ''exe_'' e)"

definition listable :: "execution_store \<Rightarrow> bool" where
  "listable st \<longleftrightarrow> exec_rows_wf st \<and> ids_typed st"

lemma projected_id [simp]: "ex_id (projected row) = ex_id (se_record row)"
  by (simp add: projected_def project_execution_record_def)

lemma listed_rows:
  assumes "exec_rows_wf st"
  shows "distinct (map ex_id (listed_executions p f st))"
    and "r \<in> set (listed_executions p f st) \<Longrightarrow> find_execution st p (ex_id r) \<noteq> None"
proof -
  define m where m_def: "m = (case map_of (executions st) p of None \<Rightarrow> [] | Some m \<Rightarrow> m)"
  have listed: "listed_executions p f st = filter (matches_filters f) (map projected (rev (js_values m)))"
    by (simp add: listed_executions_def m_def)
  have m: "distinct_keys m" "all_entries exec_row_wf m"
    using exec_rows_wf_project[OF assms, of p]
    by (cases "map_of (executions st) p"; simp add: project_wf_def m_def)+
  have key: "ex_id (se_record row) = e" if "(e, row) \<in> set m" for e row
    using that m all_entriesD[OF m(2), of e row] by (simp add: exec_row_wf_def)
  have "map (\<lambda>row. ex_id (projected row)) (js_values m) = map fst m"
    using key by auto
  then have "distinct (rev (map (\<lambda>row. ex_id (projected row)) (js_values m)))"
    using m(1) by (simp only: distinct_rev)
  then have "distinct (map (\<lambda>row. ex_id (projected row)) (rev (js_values m)))"
    by (simp only: rev_map)
  then show "distinct (map ex_id (listed_executions p f st))"
    unfolding listed by (simp add: distinct_map_filter o_def)
  assume "r \<in> set (listed_executions p f st)"
  then obtain e row where "(e, row) \<in> set m" "r = projected row"
    unfolding listed by auto
  moreover from this(1) m(1) have "map_of m e = Some row" by simp
  ultimately show "find_execution st p (ex_id r) \<noteq> None"
    using key by (cases "map_of (executions st) p") (auto simp: find_execution_def m_def)
qed

interpretation execution_pages: cursor_listing listable "\<lambda>st (p, f). listed_executions p f st" ex_id
  invalid_execution_cursor "\<lambda>n. True" "\<lambda>st (p, f) cur n. list_executions p f cur n st"
proof
  fix st :: execution_store and q :: "string \<times> execution_filters"
  assume st: "listable st"
  obtain p f where q: "q = (p, f)" by fastforce
  show "distinct (map ex_id (case q of (p, f) \<Rightarrow> listed_executions p f st))"
    using st listed_rows(1) by (simp add: q listable_def)
  fix r
  assume "r \<in> set (case q of (p, f) \<Rightarrow> listed_executions p f st)"
  then have "starts_with ''exe_'' (ex_id r)"
    using st listed_rows(2)[of st r p f] by (auto simp: q listable_def ids_typed_def)
  then show "ex_id r \<noteq> ''''" by (auto simp: starts_with_def)
qed (simp add: list_executions_def split: prod.splits)

lemma run_exec_op_find_new:
  assumes "find_execution st p e = None" "find_execution (fst (run_exec_op op st)) p e = Some row"
  shows "\<exists>a. op = X_Allocate a \<and> p = al_project a \<and> e = ex_id (al_record a)"
proof (cases rule: run_exec_op_cases[where op = op and st = st])
  case moves
  then have "find_execution (fst (run_exec_op op st)) p e = None"
    unfolding moves_row_def
  proof (elim conjE disjE exE)
    assume "executions (fst (run_exec_op op st)) = executions st"
    from find_same_executions[OF this] show ?thesis using assms(1) by simp
  next
    fix p' e' old new
    assume old: "find_execution st p' e' = Some old"
      and "executions (fst (run_exec_op op st)) = executions (put_execution p' e' new st)"
    from find_same_executions[OF this(2)] show ?thesis using assms(1) old by auto
  qed
  then show ?thesis using assms(2) by simp
next
  case (project a)
  then show ?thesis using assms by simp
next
  case (allocates a)
  then show ?thesis
    using assms find_same_executions[OF allocate_rows(4)[OF allocates(2)]] by (auto split: if_splits)
qed

lemma run_exec_op_ids_typed:
  assumes "ids_typed st" "typed_op op"
  shows "ids_typed (fst (run_exec_op op st))"
  unfolding ids_typed_def
proof (intro allI impI)
  fix p e
  assume "find_execution (fst (run_exec_op op st)) p e \<noteq> None"
  then show "starts_with ''exe_'' e"
    using assms run_exec_op_find_new[of st p e op]
    by (cases "find_execution st p e") (auto simp: ids_typed_def typed_allocation_def)
qed

lemma run_exec_ops_listable:
  "listable st \<Longrightarrow> list_all typed_op ops \<Longrightarrow> listable (run_exec_ops ops st)"
  by (induction ops arbitrary: st)
    (simp_all add: listable_def run_exec_op_rows_wf run_exec_op_ids_typed)

text \<open>Following the cursors lists every matching execution once, newest first. In every history of
  well-typed calls, a client that starts without a cursor and follows the next cursors with a positive
  page size reads, within one page more than there are rows, exactly the projected records of the
  project that match the filters, in reverse order of allocation, each once.\<close>

theorem execution_pages_are_complete:
  assumes "list_all typed_op ops" "0 < n"
    "length (listed_executions p f (run_exec_ops ops empty_execution_store)) < fuel"
  shows "walk_pages (\<lambda>c. list_executions p f c n (run_exec_ops ops empty_execution_store)) fuel None =
      Inr (listed_executions p f (run_exec_ops ops empty_execution_store)) \<and>
    distinct (map ex_id (listed_executions p f (run_exec_ops ops empty_execution_store)))"
proof -
  have "listable empty_execution_store"
    unfolding listable_def ids_typed_def
    by (simp add: find_execution_def) (simp add: empty_execution_store_def)
  then have "listable (run_exec_ops ops empty_execution_store)"
    using assms(1) by (rule run_exec_ops_listable)
  then show ?thesis
    using execution_pages.walk_all[of _ n "(p, f)" fuel] assms(2,3) listed_rows(1)
    by (simp add: listable_def)
qed

subsection \<open>Concrete histories\<close>

definition demo_record :: "string \<Rightarrow> int \<Rightarrow> exec_outcome \<Rightarrow> execution_record" where
  "demo_record e created out = \<lparr>ex_id = e, ex_tool = ''mail.send'', ex_tool_version = ''1.0.0'',
     ex_catalog_version = ''1.0.0'', ex_user = ''u'', ex_created_at = Iso created, ex_started_at = None,
     ex_completed_at = None, ex_replayed = False, ex_source = None, ex_attachments = None,
     ex_outcome = out\<rparr>"

definition demo_reservation :: "string \<Rightarrow> idempotency_reservation" where
  "demo_reservation hash = \<lparr>ir_scope = \<lparr>is_key = ''k'', is_tool = ''mail.send'', is_user = ''u'',
     is_connection = ''default'', is_catalog_major = ''1''\<rparr>, ir_request_hash = hash,
     ir_expires_at = Iso 100\<rparr>"

definition demo_allocation :: "string \<Rightarrow> int \<Rightarrow> string \<Rightarrow> execution_allocation" where
  "demo_allocation e created hash = \<lparr>al_project = ''p'', al_record = demo_record e created Out_Pending,
     al_request = \<lparr>rq_tool = ''mail.send'', rq_user = ''u'', rq_connection = None, rq_input = [],
       rq_mode = Mode_Async\<rparr>,
     al_idempotency = Some (demo_reservation hash), al_recovery = None\<rparr>"

definition demo_exec_ops :: "exec_op list" where
  "demo_exec_ops = [X_Allocate (demo_allocation ''exe_1'' 0 ''h''),
     X_Update ''p'' (demo_record ''exe_1'' 0 Out_Running)]"

definition demo_exec :: execution_store where
  "demo_exec = run_exec_ops demo_exec_ops empty_execution_store"

lemma demo_exec_wf:
  "exec_rows_wf demo_exec" "reservations_wf demo_exec" "waiters_wf demo_exec"
  by (simp_all add: demo_exec_def run_exec_ops_rows_wf run_exec_ops_reservations_wf run_exec_ops_waiters_wf)

lemma demo_exec_row:
  "find_execution demo_exec ''p'' ''exe_1'' = Some
     ((new_stored_execution (demo_allocation ''exe_1'' 0 ''h'') 1)
        \<lparr>se_record := demo_record ''exe_1'' 0 Out_Running\<rparr>)"
  by code_simp

lemma execution_only_progresses_witness:
  "\<exists>row'. find_execution (run_exec_ops [X_Cancel ''p'' ''exe_1'' (Iso 5)] demo_exec) ''p'' ''exe_1'' =
     Some row' \<and> se_sequence row' = 1"
  using execution_only_progresses[OF demo_exec_row, of "[X_Cancel ''p'' ''exe_1'' (Iso 5)]"]
  by (auto simp: row_progress_def new_stored_execution_def)

lemma allocation_is_idempotent_witness:
  "\<exists>current. allocate_execution (demo_allocation ''exe_2'' 50 ''h'')
     (run_exec_ops [X_Allocate (demo_allocation ''exe_3'' 20 ''other'')]
        (fst (run_exec_op (X_Allocate (demo_allocation ''exe_1'' 0 ''h'')) empty_execution_store))) =
     Inr (run_exec_ops [X_Allocate (demo_allocation ''exe_3'' 20 ''other'')]
        (fst (run_exec_op (X_Allocate (demo_allocation ''exe_1'' 0 ''h'')) empty_execution_store)),
       Alloc_Replay current)"
proof -
  let ?a = "demo_allocation ''exe_1'' 0 ''h''"
  let ?st1 = "fst (run_exec_op (X_Allocate ?a) empty_execution_store)"
  let ?ops = "[X_Allocate (demo_allocation ''exe_3'' 20 ''other'')]"
  have a: "allocate_execution ?a empty_execution_store = Inr (?st1, Alloc_Allocated (al_record ?a))"
    by code_simp
  have i: "al_idempotency ?a = Some (demo_reservation ''h'')" by (simp add: demo_allocation_def)
  have w: "list_all (within_window (idempotency_storage_key (al_project ?a) (ir_scope (demo_reservation ''h'')))
      (ir_expires_at (demo_reservation ''h''))) ?ops"
    by code_simp
  from allocation_is_idempotent[OF empty_reservations_wf a i w,
      of "demo_allocation ''exe_2'' 50 ''h''" "demo_reservation ''h''"]
  show ?thesis by (auto simp: demo_allocation_def demo_record_def demo_reservation_def)
qed

lemma inspection_predicts_allocation_witness:
  "\<exists>r. inspect_allocation (demo_allocation ''exe_2'' 50 ''h'')
     (run_exec_ops demo_exec_ops empty_execution_store) = Inr (Inspect_Replay r)"
proof -
  let ?b = "demo_allocation ''exe_2'' 50 ''h''" and ?st = "run_exec_ops demo_exec_ops empty_execution_store"
  have "list_all timely_op demo_exec_ops" "valid_time (ex_created_at (al_record ?b))"
    "\<not> ex_replayed (al_record ?b)"
    by code_simp+
  note predicts = inspection_predicts_allocation[OF this]
  have "\<not> isl (allocate_execution ?b ?st) \<and> (case allocate_execution ?b ?st of
      Inr (_, Alloc_Replay r) \<Rightarrow> True | _ \<Rightarrow> False)"
    by code_simp
  then show ?thesis
    using predicts
    by (cases "allocate_execution ?b ?st") (auto split: allocation_result.splits)
qed

lemma dispatch_starts_once_witness:
  "\<exists>st1. mark_dispatch_started ''p'' ''exe_1'' (Iso 3) demo_exec = Inr (st1, True) \<and>
     mark_dispatch_started ''p'' ''exe_1'' (Iso 9) (run_exec_ops [] st1) = Inr (st1, False)"
proof -
  obtain st1 where st1: "mark_dispatch_started ''p'' ''exe_1'' (Iso 3) demo_exec = Inr (st1, True)"
    by (simp add: mark_dispatch_started_def demo_exec_row new_stored_execution_def demo_record_def
        ex_status_def)
  from dispatch_starts_once[OF st1, of "Iso 9" "[]"] st1 show ?thesis by auto
qed

lemma waiter_settles_once_witness:
  "\<exists>r. settlements 7 (exec_log [X_Cancel ''p'' ''exe_1'' (Iso 5)]
     (fst (run_exec_op (X_Wait ''p'' ''exe_1'' 7) demo_exec))) = [r]"
proof -
  let ?st1 = "fst (run_exec_op (X_Wait ''p'' ''exe_1'' 7) demo_exec)"
  let ?ops = "[X_Cancel ''p'' ''exe_1'' (Iso 5)]"
  have w: "wait_for_terminal ''p'' ''exe_1'' 7 demo_exec = Inr (?st1, [])"
    by code_simp
  have f: "not_waiting demo_exec 7"
  proof -
    have "terminal_waiters demo_exec = []" by code_simp
    then show ?thesis by (simp add: not_waiting_def waiting_def)
  qed
  have o: "list_all (\<lambda>op. \<not> waits_for 7 op) ?ops" by code_simp
  have "(case find_execution (run_exec_ops ?ops ?st1) ''p'' ''exe_1'' of None \<Rightarrow> False
      | Some row \<Rightarrow> terminal_status (ex_status (se_record row)))"
    by code_simp
  with waiter_settles_once[OF demo_exec_wf(3) f w o] show ?thesis
    by (auto split: option.splits)
qed

lemma cancellation_is_decided_witness:
  "\<exists>st' ss c. cancel_execution ''p'' ''exe_1'' (Iso 5) demo_exec = Inr (st', ss, Cancelled_Now c) \<and>
     cancel_execution ''p'' ''exe_1'' (Iso 6) st' = Inr (st', [], Already_Cancelled c)"
proof -
  let ?row = "(new_stored_execution (demo_allocation ''exe_1'' 0 ''h'') 1)
        \<lparr>se_record := demo_record ''exe_1'' 0 Out_Running\<rparr>"
  have "valid_time (case ex_started_at (se_record ?row) of
      None \<Rightarrow> ex_created_at (se_record ?row) | Some s \<Rightarrow> s)"
    and "ex_status (se_record ?row) = St_Running"
    by code_simp+
  then show ?thesis
    using cancellation_is_decided[OF demo_exec_wf(1) demo_exec_row, of "Iso 5" "Iso 6"] by auto
qed

lemma execution_pages_are_complete_witness:
  "walk_pages (\<lambda>c. list_executions ''p'' \<lparr>xf_status = None, xf_tool = None, xf_user = None\<rparr> c 1
     (run_exec_ops demo_exec_ops empty_execution_store)) 5 None =
   Inr (listed_executions ''p'' \<lparr>xf_status = None, xf_tool = None, xf_user = None\<rparr>
     (run_exec_ops demo_exec_ops empty_execution_store))"
proof -
  let ?f = "\<lparr>xf_status = None, xf_tool = None, xf_user = None\<rparr> :: execution_filters"
  have t: "list_all typed_op demo_exec_ops" by code_simp
  have l: "length (listed_executions ''p'' ?f (run_exec_ops demo_exec_ops empty_execution_store)) < 5"
    by code_simp
  show ?thesis using execution_pages_are_complete[OF t _ l, of 1] by simp
qed

end
