(* ===== verification/Delivery_Store.thy ===== *)
theory Delivery_Store
  imports Recovery_Pages
begin

text \<open>
  The webhook delivery log (\<open>apps/executor/src/webhooks/delivery-store.ts\<close>): creation (random and
  deterministic), status updates with append-only attempts, listings and the recovery operations.
  Every method is one atomic state transformer. Event types are strings.
\<close>

subsection \<open>Data\<close>

datatype delivery_status = Dl_Pending | Dl_Delivering | Dl_Succeeded | Dl_Failed

record delivery_attempt =
  da_attempt :: int
  da_attempted_at :: timestamp
  da_completed_at :: timestamp
  da_status_code :: "int option"
  da_error :: "string option"

record webhook_delivery =
  wd_id :: string
  wd_endpoint :: string
  wd_event :: string
  wd_event_type :: string
  wd_status :: delivery_status
  wd_attempts :: "delivery_attempt list"
  wd_created_at :: timestamp
  wd_next_retry_at :: "timestamp option"
  wd_completed_at :: "timestamp option"

record create_delivery_input =
  cd_endpoint :: string
  cd_event :: string
  cd_event_type :: string
  cd_created_at :: timestamp

record sequenced_delivery =
  sd_project :: string
  sd_sequence :: int
  sd_delivery :: webhook_delivery

type_synonym delivery_key = "string \<times> string"

record delivery_store =
  deliveries :: "(delivery_key \<times> webhook_delivery) list"
  delivery_sequences :: "(delivery_key \<times> int) list"
  delivery_sequence :: int

definition empty_delivery_store :: delivery_store where
  "empty_delivery_store = \<lparr>deliveries = [], delivery_sequences = [], delivery_sequence = 0\<rparr>"

subsection \<open>Validation\<close>

definition delivery_input_error :: "string \<Rightarrow> js_error" where
  "delivery_input_error = Named_Error ''WebhookDeliveryInputError''"

definition invalid_delivery_cursor :: js_error where
  "invalid_delivery_cursor =
     Named_Error ''InvalidWebhookDeliveryCursorError'' ''Webhook delivery cursor is invalid.''"

definition valid_delivery_transition :: "delivery_status \<Rightarrow> delivery_status \<Rightarrow> bool" where
  "valid_delivery_transition previous nxt \<longleftrightarrow>
     (previous = Dl_Pending \<and> nxt = Dl_Delivering) \<or>
     (previous = Dl_Delivering \<and> (nxt = Dl_Pending \<or> nxt = Dl_Succeeded \<or> nxt = Dl_Failed))"

definition same_delivery_attempt :: "delivery_attempt \<Rightarrow> delivery_attempt \<Rightarrow> bool" where
  "same_delivery_attempt l r \<longleftrightarrow> l = r"

definition validate_create_delivery :: "string \<Rightarrow> create_delivery_input \<Rightarrow> unit result" where
  "validate_create_delivery p inp =
     (if blank p \<or> blank (cd_endpoint inp) \<or> blank (cd_event inp) \<or> \<not> valid_time (cd_created_at inp)
      then Inl (delivery_input_error ''Webhook delivery identity and timestamp are required.'')
      else Inr ())"

definition validate_list_deliveries :: "int \<Rightarrow> unit result" where
  "validate_list_deliveries limit =
     (if \<not> is_safe_integer limit \<or> limit < 1 \<or> limit > 100
      then Inl (delivery_input_error ''Webhook delivery limit must be an integer from 1 through 100.'')
      else Inr ())"

subsection \<open>Operations\<close>

definition put_delivery :: "delivery_key \<Rightarrow> webhook_delivery \<Rightarrow> delivery_store \<Rightarrow> delivery_store" where
  "put_delivery k d st = st\<lparr>deliveries := js_set k d (deliveries st)\<rparr>"

definition new_delivery :: "string \<Rightarrow> create_delivery_input \<Rightarrow> webhook_delivery" where
  "new_delivery i inp = \<lparr>wd_id = i, wd_endpoint = cd_endpoint inp, wd_event = cd_event inp,
     wd_event_type = cd_event_type inp, wd_status = Dl_Pending, wd_attempts = [],
     wd_created_at = cd_created_at inp, wd_next_retry_at = None, wd_completed_at = None\<rparr>"

definition same_delivery_input :: "webhook_delivery \<Rightarrow> create_delivery_input \<Rightarrow> bool" where
  "same_delivery_input existing inp \<longleftrightarrow>
     wd_endpoint existing = cd_endpoint inp \<and> wd_event existing = cd_event inp \<and>
     wd_event_type existing = cd_event_type inp \<and> wd_created_at existing = cd_created_at inp"

definition create_delivery_row ::
    "string \<Rightarrow> string \<Rightarrow> create_delivery_input \<Rightarrow> bool \<Rightarrow> delivery_store \<Rightarrow>
     (delivery_store \<times> sequenced_delivery) result" where
  "create_delivery_row p i inp idempotent st =
     bind_result (validate_create_delivery p inp) (\<lambda>_.
       if blank i then Inl (Plain_Error ''Webhook delivery ID must not be empty.'')
       else case map_of (deliveries st) (p, i) of
         Some existing \<Rightarrow>
           if idempotent \<and> same_delivery_input existing inp
           then (case map_of (delivery_sequences st) (p, i) of
                   None \<Rightarrow> Inl (Plain_Error ''Delivery sequence is missing.'')
                 | Some n \<Rightarrow> Inr (st, \<lparr>sd_project = p, sd_sequence = n, sd_delivery = existing\<rparr>))
           else Inl (Plain_Error (''Duplicate webhook delivery ID: '' @ i))
       | None \<Rightarrow>
           (let delivery = new_delivery i inp; n = delivery_sequence st + 1 in
            Inr (\<lparr>deliveries = js_set (p, i) delivery (deliveries st),
                  delivery_sequences = js_set (p, i) n (delivery_sequences st),
                  delivery_sequence = n\<rparr>,
                 \<lparr>sd_project = p, sd_sequence = n, sd_delivery = delivery\<rparr>)))"

text \<open>\<open>i\<close> is what the identifier factory returns.\<close>

definition create_delivery ::
    "string \<Rightarrow> create_delivery_input \<Rightarrow> string \<Rightarrow> delivery_store \<Rightarrow>
     (delivery_store \<times> webhook_delivery) result" where
  "create_delivery p inp i st =
     (if blank i then Inl (Plain_Error ''Webhook delivery ID factory returned an empty value.'')
      else bind_result (create_delivery_row p i inp False st) (\<lambda>(st', created).
        Inr (st', sd_delivery created)))"

definition create_deterministic ::
    "string \<Rightarrow> string \<Rightarrow> create_delivery_input \<Rightarrow> delivery_store \<Rightarrow>
     (delivery_store \<times> sequenced_delivery) result" where
  "create_deterministic p i inp st = create_delivery_row p i inp True st"

definition get_sequenced :: "string \<Rightarrow> string \<Rightarrow> delivery_store \<Rightarrow> sequenced_delivery option" where
  "get_sequenced p i st =
     (case (map_of (deliveries st) (p, i), map_of (delivery_sequences st) (p, i)) of
        (Some d, Some n) \<Rightarrow> Some \<lparr>sd_project = p, sd_sequence = n, sd_delivery = d\<rparr>
      | _ \<Rightarrow> None)"

definition get_delivery :: "string \<Rightarrow> string \<Rightarrow> delivery_store \<Rightarrow> webhook_delivery option" where
  "get_delivery p i st = map_of (deliveries st) (p, i)"

text \<open>The attempts of the update extend the previous ones by at most one.\<close>

definition attempts_appended :: "delivery_attempt list \<Rightarrow> delivery_attempt list \<Rightarrow> bool" where
  "attempts_appended previous nxt \<longleftrightarrow>
     length previous \<le> length nxt \<and> length nxt \<le> length previous + 1 \<and>
     list_all2 same_delivery_attempt previous (take (length previous) nxt)"

definition appended_valid :: "delivery_attempt list \<Rightarrow> delivery_attempt list \<Rightarrow> bool" where
  "appended_valid previous nxt \<longleftrightarrow>
     (length nxt > length previous \<longrightarrow>
        (nxt \<noteq> [] \<and> da_attempt (last nxt) = int (length nxt) \<and>
         valid_time (da_attempted_at (last nxt)) \<and> valid_time (da_completed_at (last nxt))))"

fun delivery_status_text :: "delivery_status \<Rightarrow> string" where
  "delivery_status_text Dl_Pending = ''pending''"
| "delivery_status_text Dl_Delivering = ''delivering''"
| "delivery_status_text Dl_Succeeded = ''succeeded''"
| "delivery_status_text Dl_Failed = ''failed''"

definition delivery_transition_error :: "delivery_status \<Rightarrow> delivery_status \<Rightarrow> js_error" where
  "delivery_transition_error previous nxt = Plain_Error (''Invalid webhook delivery transition: '' @
     delivery_status_text previous @ '' -> '' @ delivery_status_text nxt)"

definition update_delivery :: "string \<Rightarrow> webhook_delivery \<Rightarrow> delivery_store \<Rightarrow> delivery_store result" where
  "update_delivery p d st =
     (case map_of (deliveries st) (p, wd_id d) of
        None \<Rightarrow> Inl (Plain_Error (''Unknown webhook delivery ID: '' @ wd_id d))
      | Some previous \<Rightarrow>
          if wd_endpoint previous \<noteq> wd_endpoint d \<or> wd_event previous \<noteq> wd_event d \<or>
             wd_event_type previous \<noteq> wd_event_type d \<or> wd_created_at previous \<noteq> wd_created_at d
          then Inl (Plain_Error ''Webhook delivery identity fields are immutable.'')
          else if \<not> valid_delivery_transition (wd_status previous) (wd_status d)
          then Inl (delivery_transition_error (wd_status previous) (wd_status d))
          else if \<not> attempts_appended (wd_attempts previous) (wd_attempts d)
          then Inl (Plain_Error ''Webhook delivery attempts are append-only.'')
          else if \<not> appended_valid (wd_attempts previous) (wd_attempts d)
          then Inl (Plain_Error ''Webhook delivery appended an invalid attempt.'')
          else Inr (put_delivery (p, wd_id d) d st))"

definition endpoint_deliveries :: "string \<Rightarrow> string \<Rightarrow> delivery_store \<Rightarrow> webhook_delivery list" where
  "endpoint_deliveries p endpoint st =
     rev (map snd (filter (\<lambda>(k, d). fst k = p \<and> wd_endpoint d = endpoint) (deliveries st)))"

definition list_deliveries ::
    "string \<Rightarrow> string \<Rightarrow> cursor option \<Rightarrow> int \<Rightarrow> delivery_store \<Rightarrow>
     (webhook_delivery list \<times> cursor option) result" where
  "list_deliveries p endpoint cur limit st =
     bind_result (validate_list_deliveries limit) (\<lambda>_.
       cursor_page wd_id invalid_delivery_cursor (endpoint_deliveries p endpoint st) cur limit)"

definition sequenced_rows :: "delivery_store \<Rightarrow> sequenced_delivery list" where
  "sequenced_rows st = concat (map (\<lambda>(k, d). case map_of (delivery_sequences st) k of
     None \<Rightarrow> [] | Some n \<Rightarrow> [\<lparr>sd_project = fst k, sd_sequence = n, sd_delivery = d\<rparr>])
     (deliveries st))"

definition delivery_unfinished :: "sequenced_delivery \<Rightarrow> bool" where
  "delivery_unfinished row \<longleftrightarrow>
     wd_status (sd_delivery row) = Dl_Pending \<or> wd_status (sd_delivery row) = Dl_Delivering"

definition list_unfinished ::
    "int option \<Rightarrow> int \<Rightarrow> delivery_store \<Rightarrow> (sequenced_delivery list \<times> int option) result" where
  "list_unfinished cur limit st =
     (if \<not> is_safe_integer limit \<or> limit < 1
      then Inl (Range_Error ''Webhook recovery limit must be positive.'')
      else
        let rows = js_slice (sort_key sd_sequence
              (filter (\<lambda>row. past_cursor cur (sd_sequence row) \<and> delivery_unfinished row)
                (sequenced_rows st))) 0 limit in
        Inr (rows, if int (length rows) = limit \<and> rows \<noteq> []
                   then Some (sd_sequence (last rows)) else None))"

definition reset_for_recovery :: "string \<Rightarrow> string \<Rightarrow> delivery_store \<Rightarrow> delivery_store \<times> bool" where
  "reset_for_recovery p i st =
     (case map_of (deliveries st) (p, i) of
        None \<Rightarrow> (st, False)
      | Some d \<Rightarrow>
          if wd_status d \<noteq> Dl_Delivering then (st, False)
          else (put_delivery (p, i)
                  (d\<lparr>wd_next_retry_at := None, wd_completed_at := None, wd_status := Dl_Pending\<rparr>) st, True))"

definition mark_recovery_failed ::
    "string \<Rightarrow> string \<Rightarrow> timestamp \<Rightarrow> delivery_store \<Rightarrow> (delivery_store \<times> bool) result" where
  "mark_recovery_failed p i completed_at st =
     (case map_of (deliveries st) (p, i) of
        None \<Rightarrow> Inr (st, False)
      | Some d \<Rightarrow>
          if wd_status d \<noteq> Dl_Pending \<and> wd_status d \<noteq> Dl_Delivering then Inr (st, False)
          else bind_result (to_iso completed_at) (\<lambda>t.
            Inr (put_delivery (p, i)
                  (d\<lparr>wd_next_retry_at := None, wd_status := Dl_Failed, wd_completed_at := Some t\<rparr>) st,
                 True)))"

end
