(* ===== verification/Deliveries.thy ===== *)
theory Deliveries
  imports Delivery_Store
begin

text \<open>
  The contract of the delivery log over all histories of calls: invariant, progress of one delivery,
  deterministic creation, and listings.
\<close>

subsection \<open>Histories and the row machine\<close>

datatype delivery_op =
    Dop_Create string create_delivery_input string
  | Dop_Deterministic string string create_delivery_input
  | Dop_Update string webhook_delivery
  | Dop_Reset string string
  | Dop_Fail string string timestamp

definition kept_on_error :: "'s \<Rightarrow> ('s \<times> 'r) result \<Rightarrow> 's" where
  "kept_on_error st r = (case r of Inl _ \<Rightarrow> st | Inr x \<Rightarrow> fst x)"

lemma kept_on_error_simps [simp]:
  "kept_on_error st (Inl e) = st" "kept_on_error st (Inr x) = fst x"
  by (simp_all add: kept_on_error_def)

fun run_delivery_op :: "delivery_op \<Rightarrow> delivery_store \<Rightarrow> delivery_store" where
  "run_delivery_op (Dop_Create p inp i) st = kept_on_error st (create_delivery p inp i st)"
| "run_delivery_op (Dop_Deterministic p i inp) st = kept_on_error st (create_deterministic p i inp st)"
| "run_delivery_op (Dop_Update p d) st =
     kept_on_error st (bind_result (update_delivery p d st) (\<lambda>st'. Inr (st', ())))"
| "run_delivery_op (Dop_Reset p i) st = fst (reset_for_recovery p i st)"
| "run_delivery_op (Dop_Fail p i t) st = kept_on_error st (mark_recovery_failed p i t st)"

fun run_delivery_ops :: "delivery_op list \<Rightarrow> delivery_store \<Rightarrow> delivery_store" where
  "run_delivery_ops [] st = st"
| "run_delivery_ops (op # ops) st = run_delivery_ops ops (run_delivery_op op st)"

definition same_delivery_identity :: "webhook_delivery \<Rightarrow> webhook_delivery \<Rightarrow> bool" where
  "same_delivery_identity a b \<longleftrightarrow> wd_id b = wd_id a \<and> wd_endpoint b = wd_endpoint a \<and>
     wd_event b = wd_event a \<and> wd_event_type b = wd_event_type a \<and> wd_created_at b = wd_created_at a"

inductive delivery_step :: "webhook_delivery \<Rightarrow> webhook_delivery \<Rightarrow> bool" where
  step_update: "same_delivery_identity d d' \<Longrightarrow> valid_delivery_transition (wd_status d) (wd_status d') \<Longrightarrow>
    attempts_appended (wd_attempts d) (wd_attempts d') \<Longrightarrow>
    appended_valid (wd_attempts d) (wd_attempts d') \<Longrightarrow> delivery_step d d'"
| step_reset: "wd_status d = Dl_Delivering \<Longrightarrow> delivery_step d
    (d\<lparr>wd_next_retry_at := None, wd_completed_at := None, wd_status := Dl_Pending\<rparr>)"
| step_fail: "wd_status d = Dl_Pending \<or> wd_status d = Dl_Delivering \<Longrightarrow> delivery_step d
    (d\<lparr>wd_next_retry_at := None, wd_status := Dl_Failed, wd_completed_at := Some (Iso t)\<rparr>)"

inductive_cases delivery_step_elim: "delivery_step d d'"

definition attempts_wf :: "delivery_attempt list \<Rightarrow> bool" where
  "attempts_wf xs \<longleftrightarrow> (\<forall>i < length xs. da_attempt (xs ! i) = int i + 1 \<and>
     valid_time (da_attempted_at (xs ! i)) \<and> valid_time (da_completed_at (xs ! i)))"

definition delivery_row_wf :: "delivery_key \<Rightarrow> webhook_delivery \<Rightarrow> bool" where
  "delivery_row_wf k d \<longleftrightarrow> wd_id d = snd k \<and> \<not> blank (snd k) \<and> attempts_wf (wd_attempts d)"

lemma same_delivery_attempt_eq [simp]: "same_delivery_attempt = (=)"
  by (intro ext) (simp add: same_delivery_attempt_def)

lemma attempts_appended_iff:
  "attempts_appended xs ys \<longleftrightarrow> ys = xs \<or> (\<exists>a. ys = xs @ [a])"
proof
  assume "attempts_appended xs ys"
  then have len: "length xs \<le> length ys" "length ys \<le> length xs + 1" and "xs = take (length xs) ys"
    by (auto simp: attempts_appended_def list.rel_eq)
  then have "ys = xs @ drop (length xs) ys" by (metis append_take_drop_id)
  moreover have "length (drop (length xs) ys) \<le> 1" using len by simp
  ultimately show "ys = xs \<or> (\<exists>a. ys = xs @ [a])"
    by (cases "drop (length xs) ys") auto
next
  assume "ys = xs \<or> (\<exists>a. ys = xs @ [a])"
  then show "attempts_appended xs ys"
    by (auto simp: attempts_appended_def list.rel_eq)
qed

lemma attempts_wf_append:
  "attempts_wf xs \<Longrightarrow> attempts_appended xs ys \<Longrightarrow> appended_valid xs ys \<Longrightarrow> attempts_wf ys"
  by (auto simp: attempts_appended_iff appended_valid_def attempts_wf_def nth_append less_Suc_eq)

lemma delivery_step_wf: "delivery_step d d' \<Longrightarrow> delivery_row_wf k d \<Longrightarrow> delivery_row_wf k d'"
  by (induction rule: delivery_step.induct)
    (auto simp: delivery_row_wf_def same_delivery_identity_def intro: attempts_wf_append)

text \<open>What readers of a delivery can rely on.\<close>

definition delivery_terminal :: "delivery_status \<Rightarrow> bool" where
  "delivery_terminal s \<longleftrightarrow> s = Dl_Succeeded \<or> s = Dl_Failed"

definition delivery_progress :: "webhook_delivery \<Rightarrow> webhook_delivery \<Rightarrow> bool" where
  "delivery_progress old new \<longleftrightarrow> same_delivery_identity old new \<and>
     (\<exists>more. wd_attempts new = wd_attempts old @ more) \<and>
     (delivery_terminal (wd_status old) \<longrightarrow> new = old)"

lemma delivery_progress_refl: "delivery_progress d d"
  by (simp add: delivery_progress_def same_delivery_identity_def)

lemma delivery_progress_trans:
  "delivery_progress a b \<Longrightarrow> delivery_progress b c \<Longrightarrow> delivery_progress a c"
  unfolding delivery_progress_def same_delivery_identity_def by auto

lemma delivery_step_progress: "delivery_step d d' \<Longrightarrow> delivery_progress d d'"
proof (induction rule: delivery_step.induct)
  case (step_update d d')
  then show ?case
    by (auto simp: delivery_progress_def attempts_appended_iff valid_delivery_transition_def
        delivery_terminal_def)
qed (auto simp: delivery_progress_def same_delivery_identity_def delivery_terminal_def)

subsection \<open>The invariant and the shape of a call\<close>

definition delivery_store_wf :: "delivery_store \<Rightarrow> bool" where
  "delivery_store_wf st \<longleftrightarrow> distinct_keys (deliveries st) \<and>
     map fst (delivery_sequences st) = map fst (deliveries st) \<and>
     numbered id (delivery_sequence st) (delivery_sequences st) \<and>
     all_entries delivery_row_wf (deliveries st)"

lemma delivery_store_wf_row:
  "delivery_store_wf st \<Longrightarrow> map_of (deliveries st) k = Some d \<Longrightarrow> delivery_row_wf k d"
  unfolding delivery_store_wf_def using all_entriesD[of _ "deliveries st" k d] by blast

lemma empty_delivery_store_wf [simp]: "delivery_store_wf empty_delivery_store"
  by (simp add: delivery_store_wf_def empty_delivery_store_def)

lemma delivery_sequence_exists:
  assumes "delivery_store_wf st"
  shows "map_of (delivery_sequences st) k = None \<longleftrightarrow> map_of (deliveries st) k = None"
proof (rule map_of_None_keys)
  show "map fst (delivery_sequences st) = map fst (deliveries st)"
    using assms unfolding delivery_store_wf_def by (elim conjE)
qed

lemma put_delivery_wf:
  assumes "delivery_store_wf st" "map_of (deliveries st) k = Some d" "delivery_row_wf k d'"
  shows "delivery_store_wf (put_delivery k d' st)"
proof -
  have "map fst (js_set k d' (deliveries st)) = map fst (deliveries st)"
    using js_set_old_keys[of "deliveries st" k d'] assms(2) by simp
  moreover have "distinct_keys (deliveries st)" "all_entries delivery_row_wf (deliveries st)"
    "map fst (delivery_sequences st) = map fst (deliveries st)"
    "numbered id (delivery_sequence st) (delivery_sequences st)"
    using assms(1) unfolding delivery_store_wf_def by blast+
  moreover have "all_entries delivery_row_wf (js_set k d' (deliveries st))"
    by (rule all_entries_set[OF calculation(3) assms(3)])
  ultimately show ?thesis
    unfolding delivery_store_wf_def put_delivery_def by simp
qed

definition add_delivery ::
    "string \<Rightarrow> string \<Rightarrow> create_delivery_input \<Rightarrow> delivery_store \<Rightarrow> delivery_store" where
  "add_delivery p i inp st = \<lparr>deliveries = js_set (p, i) (new_delivery i inp) (deliveries st),
     delivery_sequences = js_set (p, i) (delivery_sequence st + 1) (delivery_sequences st),
     delivery_sequence = delivery_sequence st + 1\<rparr>"

lemma add_delivery_wf:
  assumes "delivery_store_wf st" "map_of (deliveries st) (p, i) = None" "\<not> blank i"
  shows "delivery_store_wf (add_delivery p i inp st)"
proof -
  have none: "map_of (delivery_sequences st) (p, i) = None"
    using delivery_sequence_exists[OF assms(1)] assms(2) by simp
  have "numbered id (delivery_sequence st + 1)
      (js_set (p, i) (delivery_sequence st + 1) (delivery_sequences st))"
    using assms(1) none by (intro numbered_set_new) (simp_all add: delivery_store_wf_def)
  moreover have "map fst (js_set (p, i) (delivery_sequence st + 1) (delivery_sequences st)) =
      map fst (js_set (p, i) (new_delivery i inp) (deliveries st))"
    using assms(1,2) none by (simp add: js_set_new delivery_store_wf_def)
  moreover have "delivery_row_wf (p, i) (new_delivery i inp)"
    using assms(3) by (simp add: delivery_row_wf_def new_delivery_def attempts_wf_def)
  ultimately show ?thesis
    using assms(1) by (simp add: delivery_store_wf_def add_delivery_def)
qed

lemma create_row_cases:
  assumes "create_delivery_row p i inp idem st = Inr (st', row)"
  obtains (existing) d n where "idem" "map_of (deliveries st) (p, i) = Some d" "same_delivery_input d inp"
      "map_of (delivery_sequences st) (p, i) = Some n" "st' = st"
      "row = \<lparr>sd_project = p, sd_sequence = n, sd_delivery = d\<rparr>"
  | (created) "map_of (deliveries st) (p, i) = None" "\<not> blank i" "st' = add_delivery p i inp st"
      "row = \<lparr>sd_project = p, sd_sequence = delivery_sequence st + 1, sd_delivery = new_delivery i inp\<rparr>"
proof -
  have ok: "validate_create_delivery p inp = Inr ()" "\<not> blank i"
    using assms by (auto simp: create_delivery_row_def bind_result_Inr_iff split: if_splits)
  show thesis
  proof (cases "map_of (deliveries st) (p, i)")
    case None
    then show thesis
      using assms ok created[OF None ok(2)]
      by (simp add: create_delivery_row_def Let_def add_delivery_def)
  next
    case (Some d)
    then have same: "idem" "same_delivery_input d inp"
      using assms ok by (simp_all add: create_delivery_row_def split: if_splits)
    obtain n where n: "map_of (delivery_sequences st) (p, i) = Some n"
      using assms ok Some same
      by (cases "map_of (delivery_sequences st) (p, i)") (simp_all add: create_delivery_row_def)
    show thesis
      using assms ok existing[OF same(1) Some same(2) n]
      by (simp add: create_delivery_row_def Some same n)
  qed
qed

lemma run_delivery_op_cases [consumes 1, case_names same step adds]:
  assumes wf: "delivery_store_wf st"
  obtains (same) "run_delivery_op op st = st"
  | (step) k d d' where "map_of (deliveries st) k = Some d" "delivery_step d d'"
      "run_delivery_op op st = put_delivery k d' st"
  | (adds) p i inp where "map_of (deliveries st) (p, i) = None" "\<not> blank i"
      "run_delivery_op op st = add_delivery p i inp st"
proof (cases op)
  case (Dop_Create p inp i)
  show ?thesis
  proof (cases "create_delivery p inp i st")
    case (Inl e)
    then show ?thesis using same Dop_Create by simp
  next
    case (Inr x)
    then obtain row where "create_delivery_row p i inp False st = Inr (fst x, row)"
      by (auto simp: create_delivery_def bind_result_Inr_iff split: if_splits)
    then show ?thesis
      using adds same Dop_Create Inr by (cases rule: create_row_cases) simp_all
  qed
next
  case (Dop_Deterministic p i inp)
  show ?thesis
  proof (cases "create_deterministic p i inp st")
    case (Inl e)
    then show ?thesis using same Dop_Deterministic by simp
  next
    case (Inr x)
    then have "create_delivery_row p i inp True st = Inr (fst x, snd x)"
      by (simp add: create_deterministic_def)
    then show ?thesis
      using adds same Dop_Deterministic Inr by (cases rule: create_row_cases) simp_all
  qed
next
  case (Dop_Update p d)
  show ?thesis
  proof (cases "update_delivery p d st")
    case (Inl e)
    then show ?thesis using same Dop_Update by simp
  next
    case (Inr st')
    obtain old where old: "map_of (deliveries st) (p, wd_id d) = Some old"
      using Inr by (cases "map_of (deliveries st) (p, wd_id d)") (simp_all add: update_delivery_def)
    have "wd_id old = wd_id d"
      using delivery_store_wf_row[OF wf old] by (simp add: delivery_row_wf_def)
    then have "delivery_step old d" "st' = put_delivery (p, wd_id d) d st"
      using Inr by (auto simp: update_delivery_def old same_delivery_identity_def
          intro!: step_update split: if_splits)
    then show ?thesis using step[OF old] Dop_Update Inr by simp
  qed
next
  case (Dop_Reset p i)
  show ?thesis
  proof (cases "map_of (deliveries st) (p, i)")
    case None
    then show ?thesis using same Dop_Reset by (simp add: reset_for_recovery_def)
  next
    case (Some d)
    show ?thesis
      using same step[OF Some step_reset] Dop_Reset
      by (cases "wd_status d = Dl_Delivering") (simp_all add: reset_for_recovery_def Some)
  qed
next
  case (Dop_Fail p i t)
  show ?thesis
  proof (cases "map_of (deliveries st) (p, i)")
    case None
    then show ?thesis using same Dop_Fail by (simp add: mark_recovery_failed_def)
  next
    case (Some d)
    show ?thesis
    proof (cases "wd_status d = Dl_Pending \<or> wd_status d = Dl_Delivering")
      case True
      then have skip: "\<not> (wd_status d \<noteq> Dl_Pending \<and> wd_status d \<noteq> Dl_Delivering)" by simp
      show ?thesis
        using same step[OF Some step_fail[OF True]] Dop_Fail
        by (cases "date_parse t")
          (simp_all add: mark_recovery_failed_def Some to_iso_def skip del: de_Morgan_conj)
    next
      case False
      then show ?thesis using same Dop_Fail by (simp add: mark_recovery_failed_def Some)
    qed
  qed
qed

lemma run_delivery_op_wf:
  assumes "delivery_store_wf st"
  shows "delivery_store_wf (run_delivery_op op st)"
  using assms
proof (cases rule: run_delivery_op_cases[where op = op])
  case (step k d d')
  then show ?thesis
    using put_delivery_wf[OF assms step(1) delivery_step_wf[OF step(2) delivery_store_wf_row[OF assms step(1)]]]
    by simp
qed (use assms add_delivery_wf in simp_all)

lemma run_delivery_ops_wf: "delivery_store_wf st \<Longrightarrow> delivery_store_wf (run_delivery_ops ops st)"
  by (induction ops arbitrary: st) (simp_all add: run_delivery_op_wf)

lemma run_delivery_op_row:
  assumes wf: "delivery_store_wf st" and d: "map_of (deliveries st) k = Some d"
    and n: "map_of (delivery_sequences st) k = Some n"
  shows "\<exists>d'. map_of (deliveries (run_delivery_op op st)) k = Some d' \<and> delivery_progress d d' \<and>
    map_of (delivery_sequences (run_delivery_op op st)) k = Some n"
  using wf
proof (cases rule: run_delivery_op_cases[where op = op])
  case same
  then show ?thesis using d n by (simp add: delivery_progress_refl)
next
  case (step k' old new)
  then show ?thesis
    using d n delivery_step_progress[OF step(2)]
    by (cases "k' = k") (simp_all add: put_delivery_def delivery_progress_refl)
next
  case (adds p i inp)
  then show ?thesis using d n by (auto simp: add_delivery_def delivery_progress_refl)
qed

lemma run_delivery_ops_row:
  "delivery_store_wf st \<Longrightarrow> map_of (deliveries st) k = Some d \<Longrightarrow>
   map_of (delivery_sequences st) k = Some n \<Longrightarrow>
   \<exists>d'. map_of (deliveries (run_delivery_ops ops st)) k = Some d' \<and> delivery_progress d d' \<and>
     map_of (delivery_sequences (run_delivery_ops ops st)) k = Some n"
proof (induction ops arbitrary: st d)
  case Nil
  then show ?case by (simp add: delivery_progress_refl)
next
  case (Cons op ops)
  from run_delivery_op_row[OF Cons.prems, of op] obtain d1 where
    "map_of (deliveries (run_delivery_op op st)) k = Some d1" "delivery_progress d d1"
    "map_of (delivery_sequences (run_delivery_op op st)) k = Some n" by blast
  with Cons.IH[OF run_delivery_op_wf[OF Cons.prems(1)], of op d1] show ?case
    using delivery_progress_trans by fastforce
qed

subsection \<open>Properties\<close>

text \<open>Every history of calls on the empty log keeps it well formed: the two maps have the same
  keys, each delivery lies under its own non-blank identifier, sequence numbers increase with
  insertion, and the attempts of every delivery are numbered from one without gaps and carry valid
  times.\<close>

theorem delivery_store_invariant: "delivery_store_wf (run_delivery_ops ops empty_delivery_store)"
  by (rule run_delivery_ops_wf) simp

text \<open>A delivery only makes progress. Whatever calls follow, it keeps its identity and its sequence
  number, its attempts are only extended, and once it has succeeded or failed nothing about it ever
  changes, not even by the recovery operations.\<close>

theorem delivery_only_progresses:
  assumes "get_sequenced p i (run_delivery_ops ops0 empty_delivery_store) = Some row"
  shows "\<exists>row'. get_sequenced p i (run_delivery_ops ops (run_delivery_ops ops0 empty_delivery_store)) =
      Some row' \<and> sd_sequence row' = sd_sequence row \<and>
    delivery_progress (sd_delivery row) (sd_delivery row')"
proof -
  let ?st = "run_delivery_ops ops0 empty_delivery_store"
  obtain d n where row: "map_of (deliveries ?st) (p, i) = Some d"
    "map_of (delivery_sequences ?st) (p, i) = Some n"
    "row = \<lparr>sd_project = p, sd_sequence = n, sd_delivery = d\<rparr>"
    using assms by (auto simp: get_sequenced_def split: option.splits)
  have "delivery_store_wf ?st" by (rule run_delivery_ops_wf) simp
  from run_delivery_ops_row[OF this row(1,2), of ops] show ?thesis
    by (auto simp: get_sequenced_def row(3))
qed

text \<open>Deterministic creation is idempotent. After a delivery was created under a deterministic
  identifier, whatever calls follow, creating it again with the same input changes nothing and returns
  the delivery as it is now, under the same sequence number.\<close>

theorem deterministic_creation_is_idempotent:
  assumes "delivery_store_wf st" "create_deterministic p i inp st = Inr (st1, row)"
  shows "\<exists>row'. create_deterministic p i inp (run_delivery_ops ops st1) =
      Inr (run_delivery_ops ops st1, row') \<and>
    sd_sequence row' = sd_sequence row \<and> delivery_progress (sd_delivery row) (sd_delivery row')"
proof -
  have create: "create_delivery_row p i inp True st = Inr (st1, row)"
    using assms(2) by (simp add: create_deterministic_def)
  then have valid: "validate_create_delivery p inp = Inr ()" "\<not> blank i"
    by (auto simp: create_delivery_row_def bind_result_Inr_iff split: if_splits)
  have wf1: "delivery_store_wf st1"
    using run_delivery_op_wf[OF assms(1), of "Dop_Deterministic p i inp"] assms(2) by simp
  from create obtain d n where row: "map_of (deliveries st1) (p, i) = Some d"
    "map_of (delivery_sequences st1) (p, i) = Some n"
    "row = \<lparr>sd_project = p, sd_sequence = n, sd_delivery = d\<rparr>" "same_delivery_input d inp"
    by (cases rule: create_row_cases)
      (auto simp: add_delivery_def same_delivery_input_def new_delivery_def)
  from run_delivery_ops_row[OF wf1 row(1,2), of ops] obtain d' where
    d': "map_of (deliveries (run_delivery_ops ops st1)) (p, i) = Some d'" "delivery_progress d d'"
    "map_of (delivery_sequences (run_delivery_ops ops st1)) (p, i) = Some n" by blast
  then have "same_delivery_input d' inp"
    using row(4) by (simp add: same_delivery_input_def delivery_progress_def same_delivery_identity_def)
  then show ?thesis
    using d' valid row(3) by (simp add: create_deterministic_def create_delivery_row_def)
qed

lemma endpoint_deliveries_distinct:
  assumes "delivery_store_wf st"
  shows "distinct (map wd_id (endpoint_deliveries p ep st))"
    and "d \<in> set (endpoint_deliveries p ep st) \<Longrightarrow> wd_id d \<noteq> ''''"
proof -
  let ?rows = "filter (\<lambda>(k, d). fst k = p \<and> wd_endpoint d = ep) (deliveries st)"
  have key: "wd_id d = snd k \<and> \<not> blank (snd k)" if "(k, d) \<in> set (deliveries st)" for k d
  proof -
    have "map_of (deliveries st) k = Some d"
      using that assms by (simp add: delivery_store_wf_def)
    then show ?thesis using delivery_store_wf_row[OF assms] by (simp add: delivery_row_wf_def)
  qed
  have "distinct ?rows" "inj_on (\<lambda>r. wd_id (snd r)) (set ?rows)"
  proof -
    show "distinct ?rows"
      using assms by (auto simp: delivery_store_wf_def distinct_map)
    show "inj_on (\<lambda>r. wd_id (snd r)) (set ?rows)"
    proof (rule inj_onI)
      fix r1 r2
      assume r: "r1 \<in> set ?rows" "r2 \<in> set ?rows" "wd_id (snd r1) = wd_id (snd r2)"
      then have "fst r1 = fst r2"
        using key by (fastforce simp: prod_eq_iff)
      then show "r1 = r2"
        using r assms by (auto simp: delivery_store_wf_def dest: eq_key_imp_eq_value)
    qed
  qed
  then have "distinct (map (\<lambda>r. wd_id (snd r)) ?rows)" by (simp add: distinct_map)
  then have "distinct (rev (map (\<lambda>r. wd_id (snd r)) ?rows))" by (simp only: distinct_rev)
  then show "distinct (map wd_id (endpoint_deliveries p ep st))"
    by (simp add: endpoint_deliveries_def rev_map o_def)
  show "wd_id d \<noteq> ''''" if "d \<in> set (endpoint_deliveries p ep st)"
  proof -
    have "d \<in> snd ` set (deliveries st)"
      using that unfolding endpoint_deliveries_def set_rev set_map set_filter by blast
    then obtain k where "(k, d) \<in> set (deliveries st)" by force
    then have "wd_id d = snd k" "\<not> blank (snd k)" using key by blast+
    then show ?thesis by auto
  qed
qed

interpretation delivery_pages: cursor_listing delivery_store_wf
  "\<lambda>st (p, ep). endpoint_deliveries p ep st" wd_id invalid_delivery_cursor
  "\<lambda>n. is_safe_integer n \<and> 1 \<le> n \<and> n \<le> 100" "\<lambda>st (p, ep) cur n. list_deliveries p ep cur n st"
  by unfold_locales
    (auto simp: list_deliveries_def validate_list_deliveries_def endpoint_deliveries_distinct
      split: prod.splits)

text \<open>Following the cursors lists every delivery of an endpoint once, newest first: in every history
  of calls, a client that follows the next cursors with an allowed page size reads, within one page
  more than there are rows, exactly the deliveries of the endpoint in reverse order of creation.\<close>

theorem delivery_pages_are_complete:
  assumes "1 \<le> n" "n \<le> 100"
    "length (endpoint_deliveries p ep (run_delivery_ops ops empty_delivery_store)) < fuel"
  shows "walk_pages (\<lambda>c. list_deliveries p ep c n (run_delivery_ops ops empty_delivery_store)) fuel None =
      Inr (endpoint_deliveries p ep (run_delivery_ops ops empty_delivery_store)) \<and>
    distinct (map wd_id (endpoint_deliveries p ep (run_delivery_ops ops empty_delivery_store)))"
proof -
  let ?st = "run_delivery_ops ops empty_delivery_store"
  have wf: "delivery_store_wf ?st" by (rule run_delivery_ops_wf) simp
  have "is_safe_integer n" using assms(1,2) by (simp add: is_safe_integer_def max_safe_integer_def)
  then show ?thesis
    using delivery_pages.walk_all[OF wf, of n "(p, ep)" fuel] assms endpoint_deliveries_distinct(1)[OF wf]
    by simp
qed

subsection \<open>Concrete histories\<close>

definition demo_delivery_input :: create_delivery_input where
  "demo_delivery_input = \<lparr>cd_endpoint = ''whe_1'', cd_event = ''evt_1'',
     cd_event_type = ''execution.succeeded'', cd_created_at = Iso 0\<rparr>"

definition demo_delivery_ops :: "delivery_op list" where
  "demo_delivery_ops = [Dop_Deterministic ''p'' ''whd_1'' demo_delivery_input,
     Dop_Create ''p'' (demo_delivery_input\<lparr>cd_event := ''evt_2''\<rparr>) ''whd_2'']"

definition demo_delivery_row :: sequenced_delivery where
  "demo_delivery_row = \<lparr>sd_project = ''p'', sd_sequence = 1,
     sd_delivery = new_delivery ''whd_1'' demo_delivery_input\<rparr>"

lemma delivery_only_progresses_witness:
  "\<exists>row'. get_sequenced ''p'' ''whd_1'' (run_delivery_ops
     [Dop_Update ''p'' ((new_delivery ''whd_1'' demo_delivery_input)\<lparr>wd_status := Dl_Delivering\<rparr>)]
     (run_delivery_ops demo_delivery_ops empty_delivery_store)) = Some row' \<and> sd_sequence row' = 1"
proof -
  have row: "get_sequenced ''p'' ''whd_1'' (run_delivery_ops demo_delivery_ops empty_delivery_store) =
      Some demo_delivery_row"
    by code_simp
  have "sd_sequence demo_delivery_row = 1" by code_simp
  with delivery_only_progresses[OF row] show ?thesis by metis
qed

lemma deterministic_creation_is_idempotent_witness:
  "\<exists>row'. create_deterministic ''p'' ''whd_1'' demo_delivery_input
     (run_delivery_ops [Dop_Fail ''p'' ''whd_1'' (Iso 5)]
       (run_delivery_op (Dop_Deterministic ''p'' ''whd_1'' demo_delivery_input) empty_delivery_store)) =
     Inr (run_delivery_ops [Dop_Fail ''p'' ''whd_1'' (Iso 5)]
       (run_delivery_op (Dop_Deterministic ''p'' ''whd_1'' demo_delivery_input) empty_delivery_store), row')"
proof -
  have c: "create_deterministic ''p'' ''whd_1'' demo_delivery_input empty_delivery_store =
      Inr (run_delivery_op (Dop_Deterministic ''p'' ''whd_1'' demo_delivery_input) empty_delivery_store,
        demo_delivery_row)"
    by code_simp
  from deterministic_creation_is_idempotent[OF empty_delivery_store_wf c] show ?thesis by blast
qed

lemma delivery_pages_are_complete_witness:
  "walk_pages (\<lambda>c. list_deliveries ''p'' ''whe_1'' c 1
     (run_delivery_ops demo_delivery_ops empty_delivery_store)) 5 None =
   Inr (endpoint_deliveries ''p'' ''whe_1'' (run_delivery_ops demo_delivery_ops empty_delivery_store))"
proof -
  have "length (endpoint_deliveries ''p'' ''whe_1''
      (run_delivery_ops demo_delivery_ops empty_delivery_store)) < 5"
    by code_simp
  with delivery_pages_are_complete[of 1] show ?thesis by simp
qed

end
