(* ===== verification/Job_Types.thy ===== *)
theory Job_Types
  imports Prelude
begin

text \<open>
  The serializable jobs of the executor (\<open>apps/executor/src/jobs/types.ts\<close> and the row types of
  \<open>jobs/store.ts\<close>): the three job kinds, their deterministic identifiers, the runtime guard on
  persisted rows, and the validated construction of a job envelope.

  \<open>createHash("sha256").update(JSON.stringify(parts)).digest("hex")\<close> is the parameter
  \<open>digest :: string list \<Rightarrow> string\<close> of the definitions that use it.
\<close>

datatype job_queue_name = Execution_Queue | Webhook_Selection_Queue | Webhook_Delivery_Queue

text \<open>The two strings are the \<open>projectId\<close> and the \<open>executionId\<close>, \<open>eventId\<close> or \<open>deliveryId\<close>.\<close>

datatype executor_job =
    Execution_Run string string
  | Webhook_Select string string
  | Webhook_Deliver string string

datatype safe_job_error_code =
    Handler_Rejected
  | Invalid_Job_Version
  | Invalid_Job_Payload
  | Job_Conflict
  | Lease_Lost
  | Recovery_Unavailable

record job_envelope =
  job_id :: string
  queue_name :: job_queue_name
  description :: executor_job
  group_key :: "string option"
  group_order :: "int option"
  run_after :: timestamp

record submit_job_options =
  opt_run_after :: "timestamp option"
  opt_group_key :: "string option"
  opt_group_order :: "int option"

datatype job_state = Job_Pending | Job_Running | Job_Succeeded | Job_Failed | Job_Cancelled

record stored_job = job_envelope +
  job_seq :: int
  job_state :: job_state
  attempts :: int
  claimed_by :: "string option"
  lease_token :: "string option"
  lease_expires_at :: "timestamp option"
  last_error_code :: "safe_job_error_code option"
  job_created_at :: timestamp
  job_updated_at :: timestamp
  completed_at :: "timestamp option"

subsection \<open>Identity\<close>

definition webhook_selection_group_key :: string where
  "webhook_selection_group_key = ''webhook-selection-v1''"

fun job_identity :: "executor_job \<Rightarrow> string list" where
  "job_identity (Execution_Run p e) = [''execution.run.v1'', p, e]"
| "job_identity (Webhook_Select p e) = [''webhook.select.v1'', p, e]"
| "job_identity (Webhook_Deliver p d) = [''webhook.deliver.v1'', p, d]"

definition executor_job_id :: "(string list \<Rightarrow> string) \<Rightarrow> executor_job \<Rightarrow> string" where
  "executor_job_id digest job = ''job_v1_'' @ digest (job_identity job)"

definition webhook_endpoint_group_key ::
    "(string list \<Rightarrow> string) \<Rightarrow> string \<Rightarrow> string \<Rightarrow> string" where
  "webhook_endpoint_group_key digest project_id endpoint_id =
     ''grp_v1_'' @ digest [project_id, endpoint_id]"

fun queue_name_for_job :: "executor_job \<Rightarrow> job_queue_name" where
  "queue_name_for_job (Execution_Run _ _) = Execution_Queue"
| "queue_name_for_job (Webhook_Select _ _) = Webhook_Selection_Queue"
| "queue_name_for_job (Webhook_Deliver _ _) = Webhook_Delivery_Queue"

fun same_executor_job :: "executor_job \<Rightarrow> executor_job \<Rightarrow> bool" where
  "same_executor_job (Execution_Run p e) (Execution_Run p' e') \<longleftrightarrow> p = p' \<and> e = e'"
| "same_executor_job (Webhook_Select p e) (Webhook_Select p' e') \<longleftrightarrow> p = p' \<and> e = e'"
| "same_executor_job (Webhook_Deliver p d) (Webhook_Deliver p' d') \<longleftrightarrow> p = p' \<and> d = d'"
| "same_executor_job _ _ \<longleftrightarrow> False"

lemma same_executor_job_iff [simp]: "same_executor_job a b \<longleftrightarrow> a = b"
  by (cases a; cases b) auto

lemma job_identity_inj: "job_identity a = job_identity b \<longleftrightarrow> a = b"
  by (cases a; cases b) auto

lemma executor_job_id_inj:
  "inj digest \<Longrightarrow> executor_job_id digest a = executor_job_id digest b \<longleftrightarrow> a = b"
  by (auto simp: executor_job_id_def job_identity_inj dest: injD)

definition same_immutable_job ::
    "'a job_envelope_scheme \<Rightarrow> 'b job_envelope_scheme \<Rightarrow> bool" where
  "same_immutable_job l r \<longleftrightarrow>
     job_id l = job_id r \<and>
     queue_name l = queue_name r \<and>
     same_executor_job (description l) (description r) \<and>
     group_key l = group_key r \<and>
     group_order l = group_order r"

subsection \<open>The runtime guard on persisted descriptions\<close>

definition non_empty_string :: "json option \<Rightarrow> bool" where
  "non_empty_string v = (case v of Some (JStr s) \<Rightarrow> s \<noteq> '''' | _ \<Rightarrow> False)"

fun has_id_payload :: "json \<Rightarrow> string \<Rightarrow> bool" where
  "has_id_payload (JObj fs) id_field \<longleftrightarrow>
     non_empty_string (map_of fs ''projectId'') \<and>
     non_empty_string (map_of fs id_field) \<and>
     length fs = 2"
| "has_id_payload _ _ \<longleftrightarrow> False"

fun is_executor_job :: "json \<Rightarrow> bool" where
  "is_executor_job (JObj fs) =
     (case (map_of fs ''kind'', map_of fs ''payload'') of
        (Some (JStr kind), Some payload) \<Rightarrow>
          if kind = ''execution.run.v1'' then has_id_payload payload ''executionId''
          else if kind = ''webhook.select.v1'' then has_id_payload payload ''eventId''
          else if kind = ''webhook.deliver.v1'' then has_id_payload payload ''deliveryId''
          else False
      | _ \<Rightarrow> False)"
| "is_executor_job _ = False"

text \<open>The JSON row that a description is persisted as.\<close>

fun job_json :: "executor_job \<Rightarrow> json" where
  "job_json (Execution_Run p e) = JObj [(''kind'', JStr ''execution.run.v1''),
     (''payload'', JObj [(''projectId'', JStr p), (''executionId'', JStr e)])]"
| "job_json (Webhook_Select p e) = JObj [(''kind'', JStr ''webhook.select.v1''),
     (''payload'', JObj [(''projectId'', JStr p), (''eventId'', JStr e)])]"
| "job_json (Webhook_Deliver p d) = JObj [(''kind'', JStr ''webhook.deliver.v1''),
     (''payload'', JObj [(''projectId'', JStr p), (''deliveryId'', JStr d)])]"

fun job_ids_non_empty :: "executor_job \<Rightarrow> bool" where
  "job_ids_non_empty (Execution_Run p e) \<longleftrightarrow> p \<noteq> '''' \<and> e \<noteq> ''''"
| "job_ids_non_empty (Webhook_Select p e) \<longleftrightarrow> p \<noteq> '''' \<and> e \<noteq> ''''"
| "job_ids_non_empty (Webhook_Deliver p d) \<longleftrightarrow> p \<noteq> '''' \<and> d \<noteq> ''''"

lemma is_executor_job_json: "is_executor_job (job_json job) \<longleftrightarrow> job_ids_non_empty job"
  by (cases job) (simp_all add: non_empty_string_def)

subsection \<open>Envelopes\<close>

definition create_job_envelope ::
    "(string list \<Rightarrow> string) \<Rightarrow> executor_job \<Rightarrow> submit_job_options \<Rightarrow> int \<Rightarrow> job_envelope result"
where
  "create_job_envelope digest job options now =
     (let run_after_text = (case opt_run_after options of None \<Rightarrow> Iso now | Some t \<Rightarrow> t) in
      case date_parse run_after_text of
        None \<Rightarrow> Inl (Type_Error ''Job runAfter must be a valid timestamp.'')
      | Some run_after_ms \<Rightarrow>
          if (case opt_group_order options of None \<Rightarrow> False
              | Some n \<Rightarrow> \<not> is_safe_integer n \<or> n < 0)
          then Inl (Range_Error ''Job groupOrder must be a non-negative safe integer.'')
          else if opt_group_key options = Some ''''
          then Inl (Type_Error ''Job groupKey must not be empty.'')
          else if (opt_group_key options = None) \<noteq> (opt_group_order options = None)
          then Inl (Type_Error ''Job groupKey and groupOrder must be supplied together.'')
          else Inr
            \<lparr>job_id = executor_job_id digest job,
             queue_name = queue_name_for_job job,
             description = job,
             group_key = opt_group_key options,
             group_order = (if opt_group_key options = None then None else opt_group_order options),
             run_after = Iso run_after_ms\<rparr>)"

lemma create_job_envelope_Inr:
  assumes "create_job_envelope digest job options now = Inr env"
  shows "job_id env = executor_job_id digest job" "queue_name env = queue_name_for_job job"
    "description env = job" "group_key env = opt_group_key options"
    "group_order env = opt_group_order options" "valid_time (run_after env)"
    "(group_key env = None) = (group_order env = None)"
    "run_after env = Iso (time_ms (case opt_run_after options of None \<Rightarrow> Iso now | Some t \<Rightarrow> t))"
  using assms by (auto simp: create_job_envelope_def Let_def split: option.splits if_splits)

lemma create_job_envelope_grouped:
  assumes "n \<ge> 0" "is_safe_integer n" "key \<noteq> ''''" "valid_time t"
  shows "create_job_envelope digest job
           \<lparr>opt_run_after = Some t, opt_group_key = Some key, opt_group_order = Some n\<rparr> now =
         Inr \<lparr>job_id = executor_job_id digest job, queue_name = queue_name_for_job job,
              description = job, group_key = Some key, group_order = Some n,
              run_after = Iso (time_ms t)\<rparr>"
  using assms by (auto simp: create_job_envelope_def valid_time_iff)

text \<open>
  The envelopes the executor builds are in \<^emph>\<open>canonical form\<close>: the identifier is the digest of the
  description, the queue is the one of its kind, the group fields come together.
\<close>

definition canonical_envelope :: "(string list \<Rightarrow> string) \<Rightarrow> 'a job_envelope_scheme \<Rightarrow> bool" where
  "canonical_envelope digest env \<longleftrightarrow>
     job_id env = executor_job_id digest (description env) \<and>
     queue_name env = queue_name_for_job (description env) \<and>
     ((group_key env = None) = (group_order env = None)) \<and> valid_time (run_after env)"

lemma create_job_envelope_canonical:
  "create_job_envelope digest job options now = Inr env \<Longrightarrow> canonical_envelope digest env"
  using create_job_envelope_Inr[of digest job options now env]
  by (simp add: canonical_envelope_def)

end
