(* ===== verification/Job_Store.thy ===== *)
theory Job_Store
  imports Job_Types
begin

text \<open>
  The in-memory job store (\<open>apps/executor/src/jobs/memory-store.ts\<close>), the executable model of the
  lease-fenced queue that the worker, the recovery sweep and the webhook work store share. Each
  method runs without an \<open>await\<close>, so each is one atomic state transformer. The wall clock
  (\<open>new Date()\<close>) and the random lease tokens (\<open>randomUUID()\<close>, \<open>uuid i\<close> being the \<open>i\<close>-th one a
  call draws) are arguments.
\<close>

record job_store =
  jobs :: "(string \<times> stored_job) list"
  job_sequence :: int

definition empty_job_store :: job_store where
  "empty_job_store = \<lparr>jobs = [], job_sequence = 0\<rparr>"

record lease_mutation =
  lm_job_id :: string
  lm_worker_id :: string
  lm_lease_token :: string
  lm_now :: timestamp

datatype ensure_job_result = Job_Inserted stored_job | Job_Existing stored_job | Ensure_Conflict

datatype cancel_pending_result =
    Cancel_Cancelled stored_job
  | Cancel_Already_Cancelled stored_job
  | Cancel_Running stored_job
  | Cancel_Already_Terminal stored_job
  | Cancel_Missing
  | Cancel_Conflict

subsection \<open>The operations\<close>

definition check_timestamp :: "timestamp \<Rightarrow> string \<Rightarrow> int result" where
  "check_timestamp t field = (case date_parse t of
     None \<Rightarrow> Inl (Type_Error (field @ '' must be a timestamp.'')) | Some ms \<Rightarrow> Inr ms)"

definition positive_limit :: "int \<Rightarrow> unit result" where
  "positive_limit n = (if \<not> is_safe_integer n \<or> n < 1
     then Inl (Range_Error ''Job store limit must be a positive safe integer.'') else Inr ())"

definition put_job :: "stored_job \<Rightarrow> job_store \<Rightarrow> job_store" where
  "put_job j st = st\<lparr>jobs := js_set (job_id j) j (jobs st)\<rparr>"

definition new_stored_job :: "job_envelope \<Rightarrow> int \<Rightarrow> timestamp \<Rightarrow> stored_job" where
  "new_stored_job env n now =
     \<lparr>job_id = job_id env, queue_name = queue_name env, description = description env,
      group_key = group_key env, group_order = group_order env, run_after = run_after env,
      job_seq = n, job_state = Job_Pending, attempts = 0,
      claimed_by = None, lease_token = None, lease_expires_at = None, last_error_code = None,
      job_created_at = now, job_updated_at = now, completed_at = None\<rparr>"

definition ensure_job ::
    "job_envelope \<Rightarrow> int \<Rightarrow> job_store \<Rightarrow> (job_store \<times> ensure_job_result) result" where
  "ensure_job env wall st =
     bind_result (check_timestamp (run_after env) ''Job runAfter'') (\<lambda>_.
       case map_of (jobs st) (job_id env) of
         Some existing \<Rightarrow>
           Inr (st, if same_immutable_job existing env then Job_Existing existing else Ensure_Conflict)
       | None \<Rightarrow>
           (let n = job_sequence st + 1;
                stored = new_stored_job env n (Iso wall) in
            Inr (put_job stored (st\<lparr>job_sequence := n\<rparr>), Job_Inserted stored)))"

definition get_job :: "string \<Rightarrow> job_store \<Rightarrow> stored_job option" where
  "get_job k st = map_of (jobs st) k"

definition clear_lease :: "stored_job \<Rightarrow> stored_job" where
  "clear_lease j = j\<lparr>claimed_by := None, lease_token := None, lease_expires_at := None\<rparr>"

definition cancel_pending ::
    "string \<Rightarrow> executor_job \<Rightarrow> timestamp \<Rightarrow> job_store \<Rightarrow> (job_store \<times> cancel_pending_result) result"
where
  "cancel_pending k expected now st =
     bind_result (check_timestamp now ''Job cancellation time'') (\<lambda>_.
       case map_of (jobs st) k of
         None \<Rightarrow> Inr (st, Cancel_Missing)
       | Some current \<Rightarrow>
           if \<not> same_executor_job (description current) expected then Inr (st, Cancel_Conflict)
           else if job_state current = Job_Cancelled then Inr (st, Cancel_Already_Cancelled current)
           else if job_state current = Job_Running then Inr (st, Cancel_Running current)
           else if job_state current = Job_Succeeded \<or> job_state current = Job_Failed
           then Inr (st, Cancel_Already_Terminal current)
           else
             (let cancelled = (clear_lease current)\<lparr>job_state := Job_Cancelled,
                    last_error_code := None, completed_at := Some now, job_updated_at := now\<rparr> in
              Inr (put_job cancelled st, Cancel_Cancelled cancelled)))"

definition lease_expired :: "int \<Rightarrow> job_queue_name list \<Rightarrow> stored_job \<Rightarrow> bool" where
  "lease_expired now queues j \<longleftrightarrow>
     job_state j = Job_Running \<and> queue_name j \<in> set queues \<and>
     (case lease_expires_at j of None \<Rightarrow> False | Some t \<Rightarrow> num_le (date_parse t) (Some now))"

definition expired_job :: "timestamp \<Rightarrow> stored_job \<Rightarrow> stored_job" where
  "expired_job now j = (clear_lease j)\<lparr>job_state := Job_Pending, job_updated_at := now\<rparr>"

definition expire_leases ::
    "job_queue_name list \<Rightarrow> timestamp \<Rightarrow> int \<Rightarrow> job_store \<Rightarrow> (job_store \<times> nat) result" where
  "expire_leases queues now limit st =
     bind_result (positive_limit limit) (\<lambda>_.
     bind_result (check_timestamp now ''Lease expiry time'') (\<lambda>now_ms.
       let expired = take (nat limit)
             (sort_key job_seq (filter (lease_expired now_ms queues) (js_values (jobs st)))) in
       Inr (fold (\<lambda>j. put_job (expired_job now j)) expired st, length expired)))"

definition unfinished :: "stored_job \<Rightarrow> bool" where
  "unfinished j \<longleftrightarrow> job_state j = Job_Pending \<or> job_state j = Job_Running"

text \<open>The condition of \<open>#hasEarlierGroupJob\<close> on one candidate.\<close>

definition earlier_in_group :: "stored_job \<Rightarrow> stored_job \<Rightarrow> bool" where
  "earlier_in_group c j \<longleftrightarrow>
     (case (group_key j, group_order j) of
        (Some key, Some order) \<Rightarrow>
          job_id c \<noteq> job_id j \<and> queue_name c = queue_name j \<and> group_key c = Some key \<and>
          (case group_order c of None \<Rightarrow> False
           | Some c_order \<Rightarrow> c_order < order \<or> (c_order = order \<and> job_seq c < job_seq j))
      | _ \<Rightarrow> False)"

definition has_earlier_group_job :: "stored_job \<Rightarrow> stored_job list \<Rightarrow> bool" where
  "has_earlier_group_job j candidates \<longleftrightarrow> list_ex (\<lambda>c. earlier_in_group c j) candidates"

definition eligible :: "job_queue_name \<Rightarrow> int \<Rightarrow> job_store \<Rightarrow> stored_job \<Rightarrow> bool" where
  "eligible queue now st j \<longleftrightarrow>
     job_state j = Job_Pending \<and> queue_name j = queue \<and>
     num_le (date_parse (run_after j)) (Some now) \<and>
     \<not> has_earlier_group_job j (filter unfinished (js_values (jobs st)))"

definition claim_candidates :: "job_queue_name \<Rightarrow> int \<Rightarrow> int \<Rightarrow> job_store \<Rightarrow> stored_job list" where
  "claim_candidates queue now limit st =
     take (nat limit)
       (sort_key (\<lambda>j. (time_ms (run_after j), job_seq j))
         (filter (eligible queue now st) (js_values (jobs st))))"

record claim_input =
  cl_queue :: job_queue_name
  cl_worker :: string
  cl_now :: timestamp
  cl_lease_expires_at :: timestamp
  cl_limit :: int

definition claimed_job :: "claim_input \<Rightarrow> string \<Rightarrow> stored_job \<Rightarrow> stored_job" where
  "claimed_job inp token j = j\<lparr>job_state := Job_Running, attempts := attempts j + 1,
     claimed_by := Some (cl_worker inp), lease_token := Some token,
     lease_expires_at := Some (cl_lease_expires_at inp), job_updated_at := cl_now inp\<rparr>"

fun claim_each ::
    "claim_input \<Rightarrow> (nat \<Rightarrow> string) \<Rightarrow> nat \<Rightarrow> stored_job list \<Rightarrow> job_store \<Rightarrow> job_store \<times> stored_job list"
where
  "claim_each inp uuid i [] st = (st, [])"
| "claim_each inp uuid i (j # js) st =
     (let claimed = claimed_job inp (uuid i) j;
          (st', rest) = claim_each inp uuid (Suc i) js (put_job claimed st)
      in (st', claimed # rest))"

definition claim_jobs ::
    "claim_input \<Rightarrow> (nat \<Rightarrow> string) \<Rightarrow> job_store \<Rightarrow> (job_store \<times> stored_job list) result" where
  "claim_jobs inp uuid st =
     bind_result (positive_limit (cl_limit inp)) (\<lambda>_.
     bind_result (check_timestamp (cl_now inp) ''Claim time'') (\<lambda>now.
     bind_result (check_timestamp (cl_lease_expires_at inp) ''Lease expiry'') (\<lambda>expiry.
       if expiry \<le> now
       then Inl (Range_Error ''Lease expiry must be later than claim time.'')
       else Inr (claim_each inp uuid 0 (claim_candidates (cl_queue inp) now (cl_limit inp) st) st))))"

definition leased :: "lease_mutation \<Rightarrow> job_store \<Rightarrow> stored_job option result" where
  "leased inp st =
     (case map_of (jobs st) (lm_job_id inp) of
        None \<Rightarrow> Inr None
      | Some current \<Rightarrow>
          if job_state current = Job_Running \<and> claimed_by current = Some (lm_worker_id inp) \<and>
             lease_token current = Some (lm_lease_token inp)
          then (case lease_expires_at current of
                  None \<Rightarrow> Inr None
                | Some expiry \<Rightarrow>
                    bind_result (check_timestamp (lm_now inp) ''Lease mutation time'') (\<lambda>now.
                      Inr (if num_less (Some now) (date_parse expiry) then Some current else None)))
          else Inr None)"

text \<open>The common shape of the fenced mutations: act on the leased job, or return \<open>false\<close>.\<close>

definition with_lease ::
    "lease_mutation \<Rightarrow> (stored_job \<Rightarrow> stored_job) \<Rightarrow> job_store \<Rightarrow> (job_store \<times> bool) result" where
  "with_lease inp change st = bind_result (leased inp st) (\<lambda>current.
     case current of None \<Rightarrow> Inr (st, False) | Some j \<Rightarrow> Inr (put_job (change j) st, True))"

definition later_time :: "timestamp \<Rightarrow> timestamp \<Rightarrow> timestamp" where
  "later_time a b = (if num_less (date_parse b) (date_parse a) then a else b)"

definition renew_lease ::
    "lease_mutation \<Rightarrow> timestamp \<Rightarrow> job_store \<Rightarrow> (job_store \<times> bool) result" where
  "renew_lease inp new_expiry st = bind_result (leased inp st) (\<lambda>current.
     case current of
       None \<Rightarrow> Inr (st, False)
     | Some j \<Rightarrow>
         bind_result (check_timestamp new_expiry ''Lease expiry'') (\<lambda>expiry.
           if num_le (Some expiry) (date_parse (lm_now inp)) then Inr (st, False)
           else (case lease_expires_at j of
                   None \<Rightarrow> Inr (st, False)
                 | Some current_expiry \<Rightarrow>
                     Inr (put_job (j\<lparr>lease_expires_at := Some (later_time new_expiry current_expiry),
                                     job_updated_at := later_time (lm_now inp) (job_updated_at j)\<rparr>) st,
                          True))))"

definition finished_job ::
    "timestamp \<Rightarrow> job_state \<Rightarrow> safe_job_error_code option \<Rightarrow> stored_job \<Rightarrow> stored_job" where
  "finished_job now state code j = (clear_lease j)\<lparr>job_state := state, last_error_code := code,
     completed_at := Some now, job_updated_at := now\<rparr>"

definition finish_job ::
    "lease_mutation \<Rightarrow> job_state \<Rightarrow> safe_job_error_code option \<Rightarrow> job_store \<Rightarrow>
     (job_store \<times> bool) result" where
  "finish_job inp state code = with_lease inp (finished_job (lm_now inp) state code)"

definition complete_job :: "lease_mutation \<Rightarrow> job_store \<Rightarrow> (job_store \<times> bool) result" where
  "complete_job inp = finish_job inp Job_Succeeded None"

definition cancel_claimed :: "lease_mutation \<Rightarrow> job_store \<Rightarrow> (job_store \<times> bool) result" where
  "cancel_claimed inp = finish_job inp Job_Cancelled None"

definition fail_job ::
    "lease_mutation \<Rightarrow> safe_job_error_code \<Rightarrow> job_store \<Rightarrow> (job_store \<times> bool) result" where
  "fail_job inp code = finish_job inp Job_Failed (Some code)"

definition reschedule_job ::
    "lease_mutation \<Rightarrow> timestamp \<Rightarrow> job_store \<Rightarrow> (job_store \<times> bool) result" where
  "reschedule_job inp new_run_after st =
     bind_result (check_timestamp new_run_after ''Job runAfter'') (\<lambda>ms.
       with_lease inp (\<lambda>j. (clear_lease j)\<lparr>job_state := Job_Pending, run_after := Iso ms,
         job_updated_at := lm_now inp, completed_at := None\<rparr>) st)"

definition release_job :: "lease_mutation \<Rightarrow> job_store \<Rightarrow> (job_store \<times> bool) result" where
  "release_job inp = with_lease inp (\<lambda>j. (clear_lease j)\<lparr>job_state := Job_Pending,
     job_updated_at := lm_now inp\<rparr>)"

definition terminal_state :: "job_state \<Rightarrow> bool" where
  "terminal_state s \<longleftrightarrow> s = Job_Succeeded \<or> s = Job_Failed \<or> s = Job_Cancelled"

definition list_attached_terminal :: "string list \<Rightarrow> job_store \<Rightarrow> stored_job list" where
  "list_attached_terminal ids st = concat (map (\<lambda>k. case map_of (jobs st) k of
     None \<Rightarrow> [] | Some j \<Rightarrow> if terminal_state (job_state j) then [j] else []) ids)"

definition reopen_for_recovery ::
    "string \<Rightarrow> executor_job \<Rightarrow> timestamp \<Rightarrow> int \<Rightarrow> job_store \<Rightarrow> (job_store \<times> bool) result" where
  "reopen_for_recovery k expected new_run_after wall st =
     (case map_of (jobs st) k of
        None \<Rightarrow> Inr (st, False)
      | Some current \<Rightarrow>
          if (job_state current \<noteq> Job_Succeeded \<and> job_state current \<noteq> Job_Failed) \<or>
             \<not> same_executor_job (description current) expected
          then Inr (st, False)
          else bind_result (check_timestamp new_run_after ''Recovery runAfter'') (\<lambda>ms.
            Inr (put_job ((clear_lease current)\<lparr>job_state := Job_Pending, run_after := Iso ms,
                   last_error_code := None, completed_at := None, job_updated_at := Iso wall\<rparr>) st,
                 True)))"

end
