(* ===== verification/Job_Machine.thy ===== *)
theory Job_Machine
  imports Job_Store
begin

text \<open>
  The job store as a state machine. A row moves along \<open>job_edge\<close>; every method of the store is a
  sequence of row steps (insert one row, or move one row along one edge), so what the edges keep,
  every history of the store keeps.
\<close>

subsection \<open>Histories\<close>

text \<open>The fenced mutations of a lease holder.\<close>

datatype lease_action =
    Act_Complete
  | Act_Cancel
  | Act_Fail safe_job_error_code
  | Act_Reschedule timestamp
  | Act_Release
  | Act_Renew timestamp

fun run_lease_action ::
    "lease_action \<Rightarrow> lease_mutation \<Rightarrow> job_store \<Rightarrow> (job_store \<times> bool) result" where
  "run_lease_action Act_Complete inp st = complete_job inp st"
| "run_lease_action Act_Cancel inp st = cancel_claimed inp st"
| "run_lease_action (Act_Fail code) inp st = fail_job inp code st"
| "run_lease_action (Act_Reschedule t) inp st = reschedule_job inp t st"
| "run_lease_action Act_Release inp st = release_job inp st"
| "run_lease_action (Act_Renew t) inp st = renew_lease inp t st"

datatype job_op =
    Op_Ensure job_envelope int
  | Op_Cancel_Pending string executor_job timestamp
  | Op_Expire "job_queue_name list" timestamp int
  | Op_Claim claim_input "nat \<Rightarrow> string"
  | Op_Lease lease_action lease_mutation
  | Op_Reopen string executor_job timestamp int

definition state_after :: "(job_store \<times> 'a) result \<Rightarrow> job_store \<Rightarrow> job_store" where
  "state_after r st = (case r of Inl _ \<Rightarrow> st | Inr (st', _) \<Rightarrow> st')"

text \<open>A call that throws leaves the store as it was: every throw precedes the first write.\<close>

fun run_op :: "job_op \<Rightarrow> job_store \<Rightarrow> job_store" where
  "run_op (Op_Ensure env wall) st = state_after (ensure_job env wall st) st"
| "run_op (Op_Cancel_Pending k d now) st = state_after (cancel_pending k d now st) st"
| "run_op (Op_Expire qs now limit) st = state_after (expire_leases qs now limit st) st"
| "run_op (Op_Claim inp uuid) st = state_after (claim_jobs inp uuid st) st"
| "run_op (Op_Lease a inp) st = state_after (run_lease_action a inp st) st"
| "run_op (Op_Reopen k d t wall) st = state_after (reopen_for_recovery k d t wall st) st"

definition run_ops :: "job_op list \<Rightarrow> job_store \<Rightarrow> job_store" where
  "run_ops ops st = fold run_op ops st"

lemma run_ops_simps [simp]:
  "run_ops [] st = st"
  "run_ops (op # ops) st = run_ops ops (run_op op st)"
  by (simp_all add: run_ops_def)

lemma state_after_simps [simp]:
  "state_after (Inl e) st = st" "state_after (Inr (st', r)) st = st'"
  by (simp_all add: state_after_def)

subsection \<open>Edges\<close>

inductive job_edge :: "stored_job \<Rightarrow> stored_job \<Rightarrow> bool" where
  claim_edge: "job_state j = Job_Pending \<Longrightarrow> valid_time (cl_lease_expires_at inp) \<Longrightarrow>
     job_edge j (claimed_job inp token j)"
| renew_edge: "job_state j = Job_Running \<Longrightarrow> lease_expires_at j = Some e \<Longrightarrow>
     e' = e \<or> (valid_time e' \<and> num_less (date_parse e) (date_parse e')) \<Longrightarrow>
     job_edge j (j\<lparr>lease_expires_at := Some e', job_updated_at := u\<rparr>)"
| release_edge: "job_state j = Job_Running \<Longrightarrow>
     job_edge j ((clear_lease j)\<lparr>job_state := Job_Pending, job_updated_at := u\<rparr>)"
| reschedule_edge: "job_state j = Job_Running \<Longrightarrow>
     job_edge j ((clear_lease j)\<lparr>job_state := Job_Pending, run_after := Iso ms,
       job_updated_at := u, completed_at := None\<rparr>)"
| finish_edge: "job_state j = Job_Running \<Longrightarrow> terminal_state s \<Longrightarrow>
     (s = Job_Failed) = (code \<noteq> None) \<Longrightarrow> job_edge j (finished_job now s code j)"
| cancel_edge: "job_state j = Job_Pending \<Longrightarrow>
     job_edge j ((clear_lease j)\<lparr>job_state := Job_Cancelled, last_error_code := None,
       completed_at := Some now, job_updated_at := now\<rparr>)"
| reopen_edge: "job_state j = Job_Succeeded \<or> job_state j = Job_Failed \<Longrightarrow>
     job_edge j ((clear_lease j)\<lparr>job_state := Job_Pending, run_after := Iso ms,
       last_error_code := None, completed_at := None, job_updated_at := u\<rparr>)"

inductive row_step :: "job_store \<Rightarrow> job_store \<Rightarrow> bool" where
  row_insert: "map_of (jobs st) (job_id env) = None \<Longrightarrow> valid_time (run_after env) \<Longrightarrow>
     row_step st (put_job (new_stored_job env (job_sequence st + 1) now)
                          (st\<lparr>job_sequence := job_sequence st + 1\<rparr>))"
| row_change: "map_of (jobs st) (job_id old) = Some old \<Longrightarrow> job_edge old new \<Longrightarrow>
     row_step st (put_job new st)"

inductive_cases row_stepE: "row_step st st'"

text \<open>No edge changes what a job is, and every edge keeps the identity fields.\<close>

lemma job_edge_identity:
  "job_edge j j' \<Longrightarrow> job_id j' = job_id j \<and> queue_name j' = queue_name j \<and>
     description j' = description j \<and> group_key j' = group_key j \<and>
     group_order j' = group_order j \<and> job_seq j' = job_seq j \<and>
     job_created_at j' = job_created_at j"
  by (induction rule: job_edge.induct)
    (simp_all add: claimed_job_def clear_lease_def finished_job_def)

lemma job_edge_states:
  "job_edge j j' \<Longrightarrow> (job_state j, job_state j') \<in>
     {(Job_Pending, Job_Running), (Job_Running, Job_Running), (Job_Running, Job_Pending),
      (Job_Running, Job_Succeeded), (Job_Running, Job_Failed), (Job_Running, Job_Cancelled),
      (Job_Pending, Job_Cancelled), (Job_Succeeded, Job_Pending), (Job_Failed, Job_Pending)}"
  by (induction rule: job_edge.induct)
    (auto simp: claimed_job_def clear_lease_def finished_job_def terminal_state_def)

lemma job_edge_attempts:
  "job_edge j j' \<Longrightarrow> attempts j' =
     attempts j + (if job_state j = Job_Pending \<and> job_state j' = Job_Running then 1 else 0)"
  by (induction rule: job_edge.induct)
    (auto simp: claimed_job_def clear_lease_def finished_job_def terminal_state_def)

subsection \<open>Well-formed stores\<close>

definition job_row_wf :: "string \<Rightarrow> stored_job \<Rightarrow> bool" where
  "job_row_wf k j \<longleftrightarrow>
     job_id j = k \<and> valid_time (run_after j) \<and> 0 \<le> attempts j \<and>
     (claimed_by j \<noteq> None) = (job_state j = Job_Running) \<and>
     (lease_token j \<noteq> None) = (job_state j = Job_Running) \<and>
     (lease_expires_at j \<noteq> None) = (job_state j = Job_Running) \<and>
     pred_option valid_time (lease_expires_at j) \<and>
     (completed_at j \<noteq> None) = terminal_state (job_state j) \<and>
     (last_error_code j \<noteq> None) = (job_state j = Job_Failed)"

definition job_store_wf :: "job_store \<Rightarrow> bool" where
  "job_store_wf st \<longleftrightarrow> distinct_keys (jobs st) \<and> all_entries job_row_wf (jobs st) \<and>
     numbered job_seq (job_sequence st) (jobs st)"

lemma empty_job_store_wf [simp]: "job_store_wf empty_job_store"
  by (simp add: job_store_wf_def empty_job_store_def)

lemma job_store_wf_row: "job_store_wf st \<Longrightarrow> map_of (jobs st) k = Some j \<Longrightarrow> job_row_wf k j"
  by (auto simp: job_store_wf_def all_entries_def)

lemma job_store_wf_id: "job_store_wf st \<Longrightarrow> map_of (jobs st) k = Some j \<Longrightarrow> job_id j = k"
  by (auto dest: job_store_wf_row simp: job_row_wf_def)

lemma job_edge_row_wf: "job_edge j j' \<Longrightarrow> job_row_wf k j \<Longrightarrow> job_row_wf k j'"
  by (induction rule: job_edge.induct)
    (auto simp: job_row_wf_def claimed_job_def clear_lease_def finished_job_def terminal_state_def)

lemma row_step_wf: "row_step st st' \<Longrightarrow> job_store_wf st \<Longrightarrow> job_store_wf st'"
proof (induction rule: row_step.induct)
  case (row_insert st env now)
  have "job_row_wf (job_id env) (new_stored_job env (job_sequence st + 1) now)"
    using row_insert by (simp add: job_row_wf_def new_stored_job_def terminal_state_def)
  with row_insert show ?case
    by (auto simp: job_store_wf_def put_job_def new_stored_job_def intro: numbered_set_new)
next
  case (row_change st old new)
  then have "job_row_wf (job_id old) new"
    by (blast intro: job_edge_row_wf job_store_wf_row)
  with row_change job_edge_identity[of old new] show ?case
    by (auto simp: job_store_wf_def put_job_def intro: numbered_set_old)
qed

lemma row_steps_wf: "row_step\<^sup>*\<^sup>* st st' \<Longrightarrow> job_store_wf st \<Longrightarrow> job_store_wf st'"
  by (induction rule: rtranclp_induct) (auto intro: row_step_wf)

subsection \<open>Every operation is a path of row steps\<close>

lemma put_job_lookup [simp]:
  "map_of (jobs (put_job j st)) = (map_of (jobs st))(job_id j \<mapsto> j)"
  by (simp add: put_job_def)

lemma put_job_sequence [simp]: "job_sequence (put_job j st) = job_sequence st"
  by (simp add: put_job_def)

lemma row_change_at:
  "job_store_wf st \<Longrightarrow> map_of (jobs st) k = Some old \<Longrightarrow> job_edge old new \<Longrightarrow>
     row_step\<^sup>*\<^sup>* st (put_job new st)"
  using job_store_wf_id[of st k old] by (blast intro: row_change)

lemma leased_Some:
  "leased inp st = Inr (Some j) \<Longrightarrow> map_of (jobs st) (lm_job_id inp) = Some j \<and>
     job_state j = Job_Running \<and> claimed_by j = Some (lm_worker_id inp) \<and>
     lease_token j = Some (lm_lease_token inp) \<and>
     (\<exists>e. lease_expires_at j = Some e \<and> num_less (date_parse (lm_now inp)) (date_parse e))"
  by (auto simp: leased_def check_timestamp_def split: option.splits if_splits)

text \<open>The two outcomes of a fenced mutation, and the row it writes.\<close>

lemma with_lease_cases:
  assumes "with_lease inp change st = Inr (st', ok)"
  obtains "\<not> ok" "st' = st"
  | j where "ok" "leased inp st = Inr (Some j)" "st' = put_job (change j) st"
  using assms by (auto simp: with_lease_def bind_result_Inr_iff split: option.splits)

lemma later_time_cases:
  "later_time a b = b \<or> (later_time a b = a \<and> num_less (date_parse b) (date_parse a))"
  by (simp add: later_time_def)

definition lease_outcome ::
    "lease_mutation \<Rightarrow> job_store \<Rightarrow> job_store \<Rightarrow> bool \<Rightarrow> bool" where
  "lease_outcome inp st st' ok \<longleftrightarrow> (\<not> ok \<and> st' = st) \<or>
     (ok \<and> (\<exists>j j'. leased inp st = Inr (Some j) \<and> job_edge j j' \<and> st' = put_job j' st))"

lemma with_lease_outcome:
  assumes "with_lease inp change st = Inr (st', ok)"
    and "\<And>j. job_state j = Job_Running \<Longrightarrow> job_edge j (change j)"
  shows "lease_outcome inp st st' ok"
  using assms(1)
proof (cases rule: with_lease_cases)
  case (2 j)
  with leased_Some[OF 2(2)] assms(2)[of j] show ?thesis by (auto simp: lease_outcome_def)
qed (simp add: lease_outcome_def)

lemma finish_job_outcome:
  "finish_job inp s code st = Inr (st', ok) \<Longrightarrow> terminal_state s \<Longrightarrow>
     (s = Job_Failed) = (code \<noteq> None) \<Longrightarrow> lease_outcome inp st st' ok"
  unfolding finish_job_def by (erule with_lease_outcome) (rule finish_edge)

lemma renew_lease_outcome:
  assumes "renew_lease inp t st = Inr (st', ok)"
  shows "lease_outcome inp st st' ok"
proof (cases "ok")
  case False
  with assms show ?thesis
    by (auto simp: renew_lease_def bind_result_Inr_iff lease_outcome_def split: option.splits if_splits)
next
  case True
  with assms obtain j where l: "leased inp st = Inr (Some j)"
    by (auto simp: renew_lease_def bind_result_Inr_iff split: option.splits)
  with assms True obtain e ms u where j: "leased inp st = Inr (Some j)"
      "lease_expires_at j = Some e" "date_parse t = Some ms"
      "st' = put_job (j\<lparr>lease_expires_at := Some (later_time t e), job_updated_at := u\<rparr>) st"
    by (simp add: renew_lease_def bind_result_Inr_iff check_timestamp_def
        split: option.splits if_splits) blast
  have "job_edge j (j\<lparr>lease_expires_at := Some (later_time t e), job_updated_at := u\<rparr>)"
    using leased_Some[OF j(1)] j(2,3) later_time_cases[of t e]
    by (intro renew_edge) (auto simp: valid_time_iff)
  with j True show ?thesis by (auto simp: lease_outcome_def)
qed

lemma lease_action_outcome:
  assumes "run_lease_action a inp st = Inr (st', ok)"
  shows "lease_outcome inp st st' ok"
proof (cases a)
  case (Act_Renew t)
  with assms show ?thesis by (simp add: renew_lease_outcome)
next
  case (Act_Reschedule t)
  with assms show ?thesis
    by (auto simp: reschedule_job_def bind_result_Inr_iff
        intro: reschedule_edge elim!: with_lease_outcome)
next
  case Act_Release
  with assms show ?thesis
    by (auto simp: release_job_def intro: release_edge elim!: with_lease_outcome)
qed (use assms in \<open>auto simp: complete_job_def cancel_claimed_def fail_job_def terminal_state_def
       intro: finish_job_outcome\<close>)

text \<open>Rows are identified by their identifiers.\<close>

lemma job_values_id:
  "job_store_wf st \<Longrightarrow> j \<in> set (js_values (jobs st)) \<longleftrightarrow> map_of (jobs st) (job_id j) = Some j"
  using js_values_iff[of "jobs st" j] job_store_wf_id[of st]
  by (metis job_store_wf_def)

lemma job_values_distinct:
  assumes "job_store_wf st"
  shows "distinct (js_values (jobs st))" "inj_on job_id (set (js_values (jobs st)))"
proof -
  have "distinct (map job_seq (js_values (jobs st)))"
    using assms by (simp add: job_store_wf_def numbered_def o_def strict_sorted_iff)
  then show "distinct (js_values (jobs st))" by (simp only: distinct_map)
  show "inj_on job_id (set (js_values (jobs st)))"
    using assms by (intro inj_onI) (metis job_values_id option.inject)
qed

lemma distinct_ids_sublist:
  assumes "job_store_wf st" "set js \<subseteq> set (js_values (jobs st))" "distinct js"
  shows "distinct (map job_id js)"
  using assms job_values_distinct(2)[OF assms(1)]
  by (auto simp: distinct_map intro: inj_on_subset)

text \<open>Writing several rows, each along an edge.\<close>

definition write_rows :: "(stored_job \<times> stored_job) list \<Rightarrow> job_store \<Rightarrow> job_store" where
  "write_rows ps st = fold (\<lambda>p. put_job (snd p)) ps st"

lemma write_rows_simps [simp]:
  "write_rows [] st = st" "write_rows (p # ps) st = write_rows ps (put_job (snd p) st)"
  by (simp_all add: write_rows_def)

lemma write_rows_sequence [simp]: "job_sequence (write_rows ps st) = job_sequence st"
  by (induction ps arbitrary: st) simp_all

definition row_edges :: "(stored_job \<times> stored_job) list \<Rightarrow> job_store \<Rightarrow> bool" where
  "row_edges ps st \<longleftrightarrow> distinct (map (\<lambda>p. job_id (fst p)) ps) \<and>
     (\<forall>p \<in> set ps. map_of (jobs st) (job_id (fst p)) = Some (fst p) \<and> job_edge (fst p) (snd p))"

lemma row_edges_ConsD:
  assumes "row_edges (p # ps) st"
  shows "row_edges ps (put_job (snd p) st)" "row_step st (put_job (snd p) st)"
    "job_id (snd p) = job_id (fst p)"
proof -
  have p: "map_of (jobs st) (job_id (fst p)) = Some (fst p)" "job_edge (fst p) (snd p)"
    and notin: "job_id (fst p) \<notin> (\<lambda>p. job_id (fst p)) ` set ps"
    using assms by (auto simp: row_edges_def)
  show id: "job_id (snd p) = job_id (fst p)" using job_edge_identity[OF p(2)] by simp
  show "row_step st (put_job (snd p) st)" by (rule row_change[OF p])
  have "job_id (fst q) \<noteq> job_id (snd p)" if "q \<in> set ps" for q
    using notin id that by (metis image_eqI)
  then show "row_edges ps (put_job (snd p) st)"
    using assms by (simp add: row_edges_def)
qed

lemma write_rows_path: "row_edges ps st \<Longrightarrow> row_step\<^sup>*\<^sup>* st (write_rows ps st)"
proof (induction ps arbitrary: st)
  case (Cons p ps)
  then show ?case
    using row_edges_ConsD[OF Cons.prems] by (auto intro: converse_rtranclp_into_rtranclp)
qed simp

lemma write_rows_other:
  "row_edges ps st \<Longrightarrow> k \<notin> (\<lambda>p. job_id (fst p)) ` set ps \<Longrightarrow>
     map_of (jobs (write_rows ps st)) k = map_of (jobs st) k"
proof (induction ps arbitrary: st)
  case (Cons p ps)
  then show ?case using row_edges_ConsD[OF Cons.prems(1)] by auto
qed simp

lemma write_rows_written:
  "row_edges ps st \<Longrightarrow> p \<in> set ps \<Longrightarrow>
     map_of (jobs (write_rows ps st)) (job_id (fst p)) = Some (snd p)"
proof (induction ps arbitrary: st)
  case (Cons q ps)
  note D = row_edges_ConsD[OF Cons.prems(1)]
  show ?case
  proof (cases "p = q")
    case True
    then have "job_id (fst p) \<notin> (\<lambda>p. job_id (fst p)) ` set ps"
      using Cons.prems(1) by (auto simp: row_edges_def)
    then show ?thesis using write_rows_other[OF D(1)] D(3) True by simp
  next
    case False
    then show ?thesis using Cons.IH[OF D(1)] Cons.prems(2) by auto
  qed
qed simp

subsection \<open>Claims and expiries as row writes\<close>

definition claim_pairs ::
    "claim_input \<Rightarrow> (nat \<Rightarrow> string) \<Rightarrow> nat \<Rightarrow> stored_job list \<Rightarrow> (stored_job \<times> stored_job) list" where
  "claim_pairs inp uuid i js =
     map (\<lambda>(n, j). (j, claimed_job inp (uuid n) j)) (enumerate i js)"

lemma claim_each_eq:
  "claim_each inp uuid i js st =
     (write_rows (claim_pairs inp uuid i js) st, map snd (claim_pairs inp uuid i js))"
  by (induction js arbitrary: i st) (simp_all add: claim_pairs_def Let_def)

lemma claim_pairs_ids [simp]:
  "map (\<lambda>p. job_id (fst p)) (claim_pairs inp uuid i js) = map job_id js"
  by (induction js arbitrary: i) (simp_all add: claim_pairs_def)

lemma claim_pairs_fst [simp]: "map fst (claim_pairs inp uuid i js) = js"
  by (simp add: claim_pairs_def case_prod_beta' o_def)

lemma claim_pairs_length [simp]: "length (claim_pairs inp uuid i js) = length js"
  by (simp add: claim_pairs_def)

lemma claim_pairs_edge:
  assumes "p \<in> set (claim_pairs inp uuid i js)"
  shows "\<exists>n. snd p = claimed_job inp (uuid n) (fst p)" "fst p \<in> set js"
  using assms by (auto simp: claim_pairs_def in_set_enumerate_eq)

lemma claim_candidates_facts:
  assumes "job_store_wf st" "j \<in> set (claim_candidates q now limit st)"
  shows "map_of (jobs st) (job_id j) = Some j" "eligible q now st j"
  using assms by (auto simp: claim_candidates_def dest!: in_set_takeD simp: job_values_id
      simp flip: set_map)

lemma claim_candidates_distinct:
  assumes "job_store_wf st"
  shows "distinct (map job_id (claim_candidates q now limit st))"
proof (rule distinct_ids_sublist[OF assms])
  show "set (claim_candidates q now limit st) \<subseteq> set (js_values (jobs st))"
    by (auto simp: claim_candidates_def dest!: in_set_takeD)
  show "distinct (claim_candidates q now limit st)"
    using job_values_distinct(1)[OF assms] by (simp add: claim_candidates_def distinct_take)
qed

lemma claim_row_edges:
  assumes "job_store_wf st" "valid_time (cl_lease_expires_at inp)"
  shows "row_edges (claim_pairs inp uuid i (claim_candidates q now limit st)) st"
proof -
  let ?ps = "claim_pairs inp uuid i (claim_candidates q now limit st)"
  have "distinct (map (\<lambda>p. job_id (fst p)) ?ps)"
    using claim_candidates_distinct[OF assms(1)] by simp
  moreover have "map_of (jobs st) (job_id (fst p)) = Some (fst p) \<and> job_edge (fst p) (snd p)"
    if "p \<in> set ?ps" for p
    using claim_pairs_edge[OF that] claim_candidates_facts[OF assms(1)] assms(2)
    by (auto intro!: claim_edge simp: eligible_def)
  ultimately show ?thesis unfolding row_edges_def by blast
qed

lemma claim_jobs_Inr:
  assumes "claim_jobs inp uuid st = Inr (st', cs)"
  obtains now expiry where "date_parse (cl_now inp) = Some now"
    "date_parse (cl_lease_expires_at inp) = Some expiry" "now < expiry" "1 \<le> cl_limit inp"
    "st' = write_rows (claim_pairs inp uuid 0
             (claim_candidates (cl_queue inp) now (cl_limit inp) st)) st"
    "cs = map snd (claim_pairs inp uuid 0
             (claim_candidates (cl_queue inp) now (cl_limit inp) st))"
  using assms
  by (auto simp: claim_jobs_def claim_each_eq bind_result_Inr_iff check_timestamp_def
      positive_limit_def split: option.splits if_splits)

definition expiry_pairs ::
    "job_queue_name list \<Rightarrow> timestamp \<Rightarrow> int \<Rightarrow> int \<Rightarrow> job_store \<Rightarrow> (stored_job \<times> stored_job) list" where
  "expiry_pairs queues now now_ms limit st = map (\<lambda>j. (j, expired_job now j)) (take (nat limit)
     (sort_key job_seq (filter (lease_expired now_ms queues) (js_values (jobs st)))))"

lemma expire_leases_Inr:
  assumes "expire_leases queues now limit st = Inr (st', n)"
  obtains now_ms where "date_parse now = Some now_ms" "1 \<le> limit"
    "st' = write_rows (expiry_pairs queues now now_ms limit st) st"
    "n = length (expiry_pairs queues now now_ms limit st)"
  using assms
  by (auto simp: expire_leases_def bind_result_Inr_iff check_timestamp_def positive_limit_def
      Let_def expiry_pairs_def write_rows_def fold_map o_def split: option.splits if_splits)

lemma expiry_row_edges:
  assumes "job_store_wf st"
  shows "row_edges (expiry_pairs queues now now_ms limit st) st"
proof -
  let ?js = "take (nat limit)
     (sort_key job_seq (filter (lease_expired now_ms queues) (js_values (jobs st))))"
  have sub: "set ?js \<subseteq> set (js_values (jobs st))" "\<And>j. j \<in> set ?js \<Longrightarrow> job_state j = Job_Running"
    by (auto dest!: in_set_takeD simp: lease_expired_def)
  have "distinct ?js"
    using job_values_distinct(1)[OF assms] by (simp add: distinct_take)
  then have "distinct (map job_id ?js)" by (rule distinct_ids_sublist[OF assms sub(1)])
  then show ?thesis
    using sub job_values_id[OF assms]
    by (auto simp: row_edges_def expiry_pairs_def o_def expired_job_def intro!: release_edge)
qed

subsection \<open>Refinement: operations to row steps\<close>

lemma ensure_path:
  "ensure_job env wall st = Inr (st', r) \<Longrightarrow> row_step\<^sup>*\<^sup>* st st'"
  by (auto simp: ensure_job_def bind_result_Inr_iff check_timestamp_def Let_def valid_time_iff
      split: option.splits if_splits intro!: r_into_rtranclp row_insert)

lemma cancel_pending_path:
  assumes "job_store_wf st" "cancel_pending k d now st = Inr (st', r)"
  shows "row_step\<^sup>*\<^sup>* st st'"
proof (cases "map_of (jobs st) k")
  case None
  with assms(2) show ?thesis by (auto simp: cancel_pending_def bind_result_Inr_iff)
next
  case (Some j)
  then show ?thesis
    using assms row_change_at[OF assms(1) Some] cancel_edge[of j now]
    by (cases "job_state j")
      (auto simp: cancel_pending_def bind_result_Inr_iff Let_def split: if_splits)
qed

lemma reopen_path:
  assumes "job_store_wf st" "reopen_for_recovery k d t wall st = Inr (st', r)"
  shows "row_step\<^sup>*\<^sup>* st st'"
proof (cases "map_of (jobs st) k")
  case None
  with assms(2) show ?thesis by (auto simp: reopen_for_recovery_def)
next
  case (Some j)
  then show ?thesis
    using assms row_change_at[OF assms(1) Some] reopen_edge[of j]
    by (auto simp: reopen_for_recovery_def bind_result_Inr_iff split: if_splits)
qed

lemma lease_action_path:
  assumes "job_store_wf st" "run_lease_action a inp st = Inr (st', ok)"
  shows "row_step\<^sup>*\<^sup>* st st'"
  using lease_action_outcome[OF assms(2)]
  by (auto simp: lease_outcome_def dest!: leased_Some intro: row_change_at[OF assms(1)])

lemma run_op_path:
  assumes "job_store_wf st"
  shows "row_step\<^sup>*\<^sup>* st (run_op op st)"
proof (cases op)
  case (Op_Claim inp uuid)
  show ?thesis
  proof (cases "claim_jobs inp uuid st")
    case (Inr r)
    then obtain st' cs where r: "claim_jobs inp uuid st = Inr (st', cs)" by (cases r) auto
    then show ?thesis
      using Op_Claim claim_row_edges[OF assms]
      by (auto elim!: claim_jobs_Inr intro!: write_rows_path simp: valid_time_iff)
  qed (use Op_Claim in simp)
next
  case (Op_Expire qs now limit)
  show ?thesis
  proof (cases "expire_leases qs now limit st")
    case (Inr r)
    then obtain st' n where r: "expire_leases qs now limit st = Inr (st', n)" by (cases r) auto
    then show ?thesis
      using Op_Expire expiry_row_edges[OF assms] by (auto elim!: expire_leases_Inr intro!: write_rows_path)
  qed (use Op_Expire in simp)
qed (use assms in \<open>auto simp: state_after_def split: sum.splits prod.splits
       intro: ensure_path cancel_pending_path reopen_path lease_action_path\<close>)

lemma run_op_wf: "job_store_wf st \<Longrightarrow> job_store_wf (run_op op st)"
  by (rule row_steps_wf[OF run_op_path])

lemma run_ops_wf: "job_store_wf st \<Longrightarrow> job_store_wf (run_ops ops st)"
  by (induction ops arbitrary: st) (simp_all add: run_op_wf)

lemma run_ops_path: "job_store_wf st \<Longrightarrow> row_step\<^sup>*\<^sup>* st (run_ops ops st)"
proof (induction ops arbitrary: st)
  case (Cons op ops)
  then show ?case
    using run_op_path[of st op] Cons.IH[OF run_op_wf] by (auto intro: rtranclp_trans)
qed simp

end
