(* ===== verification/Job_Histories.thy ===== *)
theory Job_Histories
  imports Job_Machine
begin

text \<open>
  What one operation of the job store can do to one row, and what follows for whole histories:
  lease fencing, stale tokens, absorbing terminal states, ordered group execution, recovery of
  expired leases.
\<close>

subsection \<open>One operation, one row\<close>

definition holds_lease :: "lease_mutation \<Rightarrow> job_store \<Rightarrow> bool" where
  "holds_lease inp st \<longleftrightarrow> (case map_of (jobs st) (lm_job_id inp) of
     None \<Rightarrow> False
   | Some j \<Rightarrow> job_state j = Job_Running \<and> claimed_by j = Some (lm_worker_id inp) \<and>
       lease_token j = Some (lm_lease_token inp) \<and>
       (case lease_expires_at j of None \<Rightarrow> False
        | Some e \<Rightarrow> num_less (date_parse (lm_now inp)) (date_parse e)))"

lemma leased_holds:
  "leased inp st = Inr (Some j) \<longleftrightarrow> map_of (jobs st) (lm_job_id inp) = Some j \<and> holds_lease inp st"
  by (auto simp: leased_def holds_lease_def check_timestamp_def num_less_iff
      split: option.splits if_splits)

inductive op_edge :: "job_op \<Rightarrow> job_store \<Rightarrow> stored_job \<Rightarrow> stored_job \<Rightarrow> bool" where
  op_cancel: "job_state j = Job_Pending \<Longrightarrow> job_edge j j' \<Longrightarrow> job_state j' = Job_Cancelled \<Longrightarrow>
     op_edge (Op_Cancel_Pending (job_id j) (description j) now) st j j'"
| op_expire: "date_parse now = Some ms \<Longrightarrow> lease_expired ms queues j \<Longrightarrow>
     op_edge (Op_Expire queues now limit) st j (expired_job now j)"
| op_claim: "date_parse (cl_now inp) = Some now \<Longrightarrow> eligible (cl_queue inp) now st j \<Longrightarrow>
     valid_time (cl_lease_expires_at inp) \<Longrightarrow>
     op_edge (Op_Claim inp uuid) st j (claimed_job inp (uuid i) j)"
| op_lease: "lm_job_id inp = job_id j \<Longrightarrow> holds_lease inp st \<Longrightarrow> job_state j = Job_Running \<Longrightarrow>
     job_edge j j' \<Longrightarrow> op_edge (Op_Lease a inp) st j j'"
| op_reopen: "job_state j = Job_Succeeded \<or> job_state j = Job_Failed \<Longrightarrow> job_edge j j' \<Longrightarrow>
     job_state j' = Job_Pending \<Longrightarrow>
     op_edge (Op_Reopen (job_id j) (description j) t wall) st j j'"

inductive_cases op_edgeE: "op_edge op st j j'"
inductive_cases op_edge_claimE: "op_edge (Op_Claim inp uuid) st j j'"

lemma op_edge_job_edge: "op_edge op st j j' \<Longrightarrow> job_edge j j'"
  by (cases rule: op_edge.cases)
    (auto simp: eligible_def expired_job_def lease_expired_def intro: claim_edge release_edge)

text \<open>The write sets of claims and expiries.\<close>

lemma write_rows_row:
  assumes "row_edges ps st" "map_of (jobs st) k = Some j" "job_id j = k"
  shows "map_of (jobs (write_rows ps st)) k = Some j \<or>
    (\<exists>p \<in> set ps. fst p = j \<and> map_of (jobs (write_rows ps st)) k = Some (snd p))"
proof (cases "k \<in> (\<lambda>p. job_id (fst p)) ` set ps")
  case True
  then obtain p where p: "p \<in> set ps" "job_id (fst p) = k" by auto
  then have "fst p = j" using assms by (auto simp: row_edges_def)
  with p write_rows_written[OF assms(1) p(1)] show ?thesis by auto
next
  case False
  with write_rows_other[OF assms(1)] assms(2) show ?thesis by simp
qed

lemma write_rows_absent:
  assumes "row_edges ps st" "map_of (jobs st) k = None"
  shows "map_of (jobs (write_rows ps st)) k = None"
proof -
  have "k \<notin> (\<lambda>p. job_id (fst p)) ` set ps"
    using assms by (auto simp: row_edges_def)
  with write_rows_other[OF assms(1)] assms(2) show ?thesis by simp
qed

lemma expiry_pair:
  "p \<in> set (expiry_pairs queues now ms limit st) \<Longrightarrow>
     snd p = expired_job now (fst p) \<and> lease_expired ms queues (fst p)"
  by (auto simp: expiry_pairs_def dest!: in_set_takeD)

text \<open>The two outcomes of the remaining operations.\<close>

definition cancelled_row :: "timestamp \<Rightarrow> stored_job \<Rightarrow> stored_job" where
  "cancelled_row now j = (clear_lease j)\<lparr>job_state := Job_Cancelled, last_error_code := None,
     completed_at := Some now, job_updated_at := now\<rparr>"

definition reopened_row :: "int \<Rightarrow> int \<Rightarrow> stored_job \<Rightarrow> stored_job" where
  "reopened_row ms wall j = (clear_lease j)\<lparr>job_state := Job_Pending, run_after := Iso ms,
     last_error_code := None, completed_at := None, job_updated_at := Iso wall\<rparr>"

lemma cancel_pending_cases:
  assumes "cancel_pending k d now st = Inr (st', res)"
  shows "st' = st \<or> (\<exists>c. map_of (jobs st) k = Some c \<and> description c = d \<and>
    job_state c = Job_Pending \<and> st' = put_job (cancelled_row now c) st)"
proof (cases "map_of (jobs st) k")
  case None
  with assms show ?thesis by (auto simp: cancel_pending_def bind_result_Inr_iff)
next
  case (Some c)
  with assms show ?thesis
    by (cases "job_state c") (auto simp: cancel_pending_def bind_result_Inr_iff Let_def
        cancelled_row_def split: if_splits)
qed

lemma reopen_cases:
  assumes "reopen_for_recovery k d t wall st = Inr (st', res)"
  shows "st' = st \<or> (\<exists>c ms. map_of (jobs st) k = Some c \<and> description c = d \<and>
    (job_state c = Job_Succeeded \<or> job_state c = Job_Failed) \<and>
    st' = put_job (reopened_row ms wall c) st)"
  using assms
  by (auto simp: reopen_for_recovery_def bind_result_Inr_iff reopened_row_def
      split: option.splits if_splits)

lemma row_ids [simp]:
  "job_id (cancelled_row now j) = job_id j" "job_id (reopened_row ms wall j) = job_id j"
  "job_state (cancelled_row now j) = Job_Cancelled"
  "job_state (reopened_row ms wall j) = Job_Pending"
  by (simp_all add: cancelled_row_def reopened_row_def clear_lease_def)

lemma row_edges_cancel_reopen:
  "job_state j = Job_Pending \<Longrightarrow> job_edge j (cancelled_row now j)"
  "job_state j = Job_Succeeded \<or> job_state j = Job_Failed \<Longrightarrow> job_edge j (reopened_row ms wall j)"
  by (simp_all add: cancelled_row_def reopened_row_def cancel_edge reopen_edge)

text \<open>An existing row is kept or moved along an edge of the operation.\<close>

lemma run_op_row:
  assumes wf: "job_store_wf st" and row: "map_of (jobs st) k = Some j"
  shows "\<exists>j'. map_of (jobs (run_op op st)) k = Some j' \<and> (j' = j \<or> op_edge op st j j')"
proof (cases op)
  case (Op_Ensure env wall)
  with row show ?thesis
    by (auto simp: state_after_def ensure_job_def bind_result_def Let_def new_stored_job_def
        split: sum.splits option.splits if_splits)
next
  case (Op_Cancel_Pending k' d now)
  show ?thesis
  proof (cases "cancel_pending k' d now st")
    case (Inr r)
    obtain st' res where r: "r = (st', res)" by (cases r)
    from cancel_pending_cases[of k' d now st st' res] Inr r
    consider "st' = st" | c where "map_of (jobs st) k' = Some c" "description c = d"
        "job_state c = Job_Pending" "st' = put_job (cancelled_row now c) st"
      by auto
    then show ?thesis
    proof cases
      case 1
      then show ?thesis using Op_Cancel_Pending Inr r row by simp
    next
      case 2
      then have "job_id c = k'" using job_store_wf_id[OF wf] by simp
      with 2 have "op_edge op st c (cancelled_row now c)"
        using Op_Cancel_Pending by (auto intro: op_cancel row_edges_cancel_reopen)
      then show ?thesis
        using Op_Cancel_Pending Inr r row 2 \<open>job_id c = k'\<close> by (cases "k' = k") auto
    qed
  qed (use Op_Cancel_Pending row in simp)
next
  case (Op_Expire queues now limit)
  show ?thesis
  proof (cases "expire_leases queues now limit st")
    case (Inr r)
    obtain st' n where r: "r = (st', n)" by (cases r)
    obtain ms where ms: "date_parse now = Some ms"
        "st' = write_rows (expiry_pairs queues now ms limit st) st"
      using Inr r by (auto elim: expire_leases_Inr)
    from write_rows_row[OF expiry_row_edges[OF wf] row job_store_wf_id[OF wf row]]
    show ?thesis
      using Op_Expire Inr r ms by (fastforce dest: expiry_pair intro: op_expire)
  qed (use Op_Expire row in simp)
next
  case (Op_Claim inp uuid)
  show ?thesis
  proof (cases "claim_jobs inp uuid st")
    case (Inr r)
    obtain st' cs where r: "r = (st', cs)" by (cases r)
    obtain now where now: "date_parse (cl_now inp) = Some now" "valid_time (cl_lease_expires_at inp)"
        "st' = write_rows (claim_pairs inp uuid 0
           (claim_candidates (cl_queue inp) now (cl_limit inp) st)) st"
      using Inr r by (auto elim!: claim_jobs_Inr simp: valid_time_iff)
    from write_rows_row[OF claim_row_edges[OF wf now(2)] row job_store_wf_id[OF wf row]]
    show ?thesis
      using Op_Claim Inr r now claim_candidates_facts[OF wf]
      by (fastforce dest: claim_pairs_edge intro: op_claim)
  qed (use Op_Claim row in simp)
next
  case (Op_Lease a inp)
  show ?thesis
  proof (cases "run_lease_action a inp st")
    case (Inr r)
    obtain st' ok where r: "r = (st', ok)" by (cases r)
    from lease_action_outcome[of a inp st st' ok] Inr r
    have "lease_outcome inp st st' ok" by simp
    then consider "st' = st" | l l' where "leased inp st = Inr (Some l)" "job_edge l l'"
        "st' = put_job l' st"
      by (auto simp: lease_outcome_def)
    then show ?thesis
    proof cases
      case 1
      then show ?thesis using Op_Lease Inr r row by auto
    next
      case 2
      then have l: "map_of (jobs st) (lm_job_id inp) = Some l" "holds_lease inp st"
          "job_state l = Job_Running" "job_id l = lm_job_id inp" "job_id l' = job_id l"
        using leased_Some leased_holds job_store_wf_id[OF wf] job_edge_identity by blast+
      show ?thesis
      proof (cases "k = lm_job_id inp")
        case True
        then have "l = j" using l row by simp
        then show ?thesis
          using Op_Lease Inr r 2 l True by (auto intro: op_lease)
      next
        case False
        then show ?thesis using Op_Lease Inr r 2 l row by auto
      qed
    qed
  qed (use Op_Lease row in simp)
next
  case (Op_Reopen k' d t wall)
  show ?thesis
  proof (cases "reopen_for_recovery k' d t wall st")
    case (Inr r)
    obtain st' res where r: "r = (st', res)" by (cases r)
    from reopen_cases[of k' d t wall st st' res] Inr r
    consider "st' = st" | c ms where "map_of (jobs st) k' = Some c" "description c = d"
        "job_state c = Job_Succeeded \<or> job_state c = Job_Failed"
        "st' = put_job (reopened_row ms wall c) st"
      by auto
    then show ?thesis
    proof cases
      case 1
      then show ?thesis using Op_Reopen Inr r row by simp
    next
      case 2
      then have "job_id c = k'" using job_store_wf_id[OF wf] by simp
      with 2 have "op_edge op st c (reopened_row ms wall c)"
        using Op_Reopen by (auto intro: op_reopen row_edges_cancel_reopen)
      then show ?thesis
        using Op_Reopen Inr r row 2 \<open>job_id c = k'\<close> by (cases "k' = k") auto
    qed
  qed (use Op_Reopen row in simp)
qed

text \<open>A row appears only by \<open>ensure\<close>, in its initial state.\<close>

lemma run_op_new_row:
  assumes wf: "job_store_wf st" and absent: "map_of (jobs st) k = None"
    and row: "map_of (jobs (run_op op st)) k = Some j'"
  shows "\<exists>env wall. op = Op_Ensure env wall \<and> job_id env = k \<and>
    j' = new_stored_job env (job_sequence st + 1) (Iso wall)"
proof (cases op)
  case (Op_Ensure env wall)
  with absent row show ?thesis
    by (auto simp: state_after_def ensure_job_def bind_result_def Let_def new_stored_job_def
        split: sum.splits option.splits if_splits)
next
  case (Op_Claim inp uuid)
  show ?thesis
  proof (cases "claim_jobs inp uuid st")
    case (Inr r)
    obtain st' cs where r: "r = (st', cs)" by (cases r)
    with Inr have "claim_jobs inp uuid st = Inr (st', cs)" by simp
    then show ?thesis
    proof (cases rule: claim_jobs_Inr)
      case (1 now expiry)
      then show ?thesis
        using Op_Claim Inr r row write_rows_absent[OF claim_row_edges[OF wf] absent]
        by (simp add: valid_time_iff)
    qed
  qed (use Op_Claim absent row in simp)
next
  case (Op_Expire queues now limit)
  show ?thesis
  proof (cases "expire_leases queues now limit st")
    case (Inr r)
    obtain st' n where r: "r = (st', n)" by (cases r)
    with Inr have "expire_leases queues now limit st = Inr (st', n)" by simp
    then show ?thesis
    proof (cases rule: expire_leases_Inr)
      case (1 ms)
      then show ?thesis
        using Op_Expire Inr r row write_rows_absent[OF expiry_row_edges[OF wf] absent]
        by simp
    qed
  qed (use Op_Expire absent row in simp)
next
  case (Op_Lease a inp)
  show ?thesis
  proof (cases "run_lease_action a inp st")
    case (Inr r)
    obtain st' ok where r: "r = (st', ok)" by (cases r)
    then have "lease_outcome inp st st' ok" using lease_action_outcome Inr by simp
    then show ?thesis
      using Op_Lease Inr r absent row job_edge_identity job_store_wf_id[OF wf]
      by (auto simp: lease_outcome_def dest!: leased_Some split: if_splits)
  qed (use Op_Lease absent row in simp)
next
  case (Op_Cancel_Pending k' d now)
  show ?thesis
  proof (cases "cancel_pending k' d now st")
    case (Inr r)
    obtain st' res where r: "r = (st', res)" by (cases r)
    then show ?thesis
      using cancel_pending_cases[of k' d now st st' res] Op_Cancel_Pending Inr absent row
        job_store_wf_id[OF wf]
      by (auto split: if_splits)
  qed (use Op_Cancel_Pending absent row in simp)
next
  case (Op_Reopen k' d t wall)
  show ?thesis
  proof (cases "reopen_for_recovery k' d t wall st")
    case (Inr r)
    obtain st' res where r: "r = (st', res)" by (cases r)
    then show ?thesis
      using reopen_cases[of k' d t wall st st' res] Op_Reopen Inr absent row
        job_store_wf_id[OF wf]
      by (auto split: if_splits)
  qed (use Op_Reopen absent row in simp)
qed

end
