(* ===== verification/Job_Queue.thy ===== *)
theory Job_Queue
  imports Job_Histories
begin

text \<open>
  The contract of the durable job queue, proved of the in-memory store for every history of calls:
  refinement to the row machine, lease fencing, stability of identities and of terminal rows,
  claim order, group serialization and crash recovery.
\<close>

subsection \<open>Refinement and invariant\<close>

text \<open>C8: Every history of calls on a fresh store is a path of the abstract row machine (insert a
  pending row with the next sequence number, or move one row along a legal edge of the job state
  graph), and it ends in a well-formed store: keys are distinct and equal to the row's jobId,
  sequence numbers increase in insertion order, exactly the running rows carry a worker, a token
  and a valid lease expiry, exactly the terminal rows a completion time, exactly the failed ones an
  error code.\<close>

theorem job_store_refines_rows:
  "row_step\<^sup>*\<^sup>* empty_job_store (run_ops ops empty_job_store) \<and>
   job_store_wf (run_ops ops empty_job_store)"
  by (simp add: run_ops_path run_ops_wf)

subsection \<open>Lease fencing\<close>

lemma with_lease_holder:
  assumes "holds_lease inp st"
  shows "\<exists>st'. with_lease inp change st = Inr (st', True)"
proof -
  obtain j where "leased inp st = Inr (Some j)"
    using assms leased_holds[of inp st] by (auto simp: holds_lease_def split: option.splits)
  then show ?thesis by (simp add: with_lease_def)
qed

lemma holder_action_succeeds:
  assumes "holds_lease inp st" "a \<in> {Act_Complete, Act_Cancel, Act_Release, Act_Fail code}"
  shows "\<exists>st'. run_lease_action a inp st = Inr (st', True)"
  using assms with_lease_holder[OF assms(1)]
  by (auto simp: complete_job_def cancel_claimed_def fail_job_def release_job_def finish_job_def)

text \<open>C9: A completion, cancellation, failure, release, reschedule or renewal takes effect only for
  the worker that holds the live lease of the job (state running, same worker, same token, expiry
  after \<open>now\<close>); otherwise it reports \<open>false\<close> and leaves the whole store unchanged. In either case
  no other job's row is touched, and for the holder completion, cancellation, failure and release
  do succeed.\<close>

theorem lease_fencing:
  assumes "job_store_wf st" "run_lease_action a inp st = Inr (st', ok)"
  shows "(ok \<longrightarrow> holds_lease inp st) \<and> (\<not> ok \<longrightarrow> st' = st) \<and>
    (\<forall>k. k \<noteq> lm_job_id inp \<longrightarrow> map_of (jobs st') k = map_of (jobs st) k) \<and>
    (holds_lease inp st \<and> a \<in> {Act_Complete, Act_Cancel, Act_Release, Act_Fail code} \<longrightarrow> ok)"
proof (intro conjI impI allI)
  note out = lease_action_outcome[OF assms(2), unfolded lease_outcome_def]
  show "holds_lease inp st" if ok
    using out that by (auto simp: leased_holds)
  show "st' = st" if "\<not> ok"
    using out that by simp
  show "map_of (jobs st') k = map_of (jobs st) k" if "k \<noteq> lm_job_id inp" for k
    using out that job_store_wf_id[OF assms(1)] job_edge_identity
    by (auto dest!: leased_Some)
  show ok if "holds_lease inp st \<and> a \<in> {Act_Complete, Act_Cancel, Act_Release, Act_Fail code}"
    using holder_action_succeeds[of inp st a code] that assms(2) by auto
qed

text \<open>A token a store does not show for a job, and that no later claim draws, stays unknown.\<close>

definition shows_token :: "string \<Rightarrow> string \<Rightarrow> job_store \<Rightarrow> bool" where
  "shows_token k t st \<longleftrightarrow>
     (case map_of (jobs st) k of None \<Rightarrow> False | Some j \<Rightarrow> lease_token j = Some t)"

fun draws_token :: "string \<Rightarrow> job_op \<Rightarrow> bool" where
  "draws_token t (Op_Claim inp uuid) \<longleftrightarrow> (\<exists>i. uuid i = t)"
| "draws_token t _ \<longleftrightarrow> False"

lemma op_edge_token:
  "op_edge op st j j' \<Longrightarrow> \<not> draws_token t op \<Longrightarrow> lease_token j' = Some t \<Longrightarrow> lease_token j = Some t"
  by (cases rule: op_edge.cases)
    (auto simp: claimed_job_def expired_job_def clear_lease_def finished_job_def
      elim!: job_edge.cases)

lemma run_op_shows_token:
  assumes "job_store_wf st" "\<not> shows_token k t st" "\<not> draws_token t op"
  shows "\<not> shows_token k t (run_op op st)"
proof (cases "map_of (jobs st) k")
  case None
  with run_op_new_row[OF assms(1) None, of op] show ?thesis
    by (auto simp: shows_token_def new_stored_job_def split: option.splits)
next
  case (Some j)
  with run_op_row[OF assms(1) Some, of op] assms op_edge_token show ?thesis
    by (fastforce simp: shows_token_def split: option.splits)
qed

lemma run_ops_shows_token:
  "job_store_wf st \<Longrightarrow> \<not> shows_token k t st \<Longrightarrow> \<forall>op \<in> set ops. \<not> draws_token t op \<Longrightarrow>
     \<not> shows_token k t (run_ops ops st)"
  by (induction ops arbitrary: st) (simp_all add: run_op_shows_token run_op_wf)

text \<open>A worker that lost its lease can never act on the job again. Once a job's row no longer
  shows the worker's token (the lease expired and was requeued or claimed anew), then after any
  further history in which no claim draws that same random token, every fenced operation with it
  that returns reports \<open>false\<close> and changes nothing.\<close>

theorem stale_token_is_fenced:
  assumes "job_store_wf st" "\<not> shows_token (lm_job_id inp) (lm_lease_token inp) st"
    and "\<forall>op \<in> set ops. \<not> draws_token (lm_lease_token inp) op"
    and "run_lease_action a inp (run_ops ops st) = Inr (st', ok)"
  shows "\<not> ok \<and> st' = run_ops ops st"
proof -
  have "\<not> holds_lease inp (run_ops ops st)"
    using run_ops_shows_token[OF assms(1-3)]
    by (auto simp: shows_token_def holds_lease_def split: option.splits)
  then show ?thesis
    using lease_action_outcome[OF assms(4)] by (auto simp: lease_outcome_def leased_holds)
qed

subsection \<open>Identities and terminal rows\<close>

text \<open>What a row keeps for ever.\<close>

definition row_preserved :: "stored_job \<Rightarrow> stored_job \<Rightarrow> bool" where
  "row_preserved j j' \<longleftrightarrow>
     job_id j' = job_id j \<and> queue_name j' = queue_name j \<and> description j' = description j \<and>
     group_key j' = group_key j \<and> group_order j' = group_order j \<and> job_seq j' = job_seq j \<and>
     attempts j \<le> attempts j' \<and> (job_state j = Job_Cancelled \<longrightarrow> j' = j)"

lemma row_preserved_refl [simp]: "row_preserved j j"
  by (simp add: row_preserved_def)

lemma row_preserved_trans: "row_preserved a b \<Longrightarrow> row_preserved b c \<Longrightarrow> row_preserved a c"
  by (auto simp: row_preserved_def)

lemma job_edge_preserved: "job_edge j j' \<Longrightarrow> row_preserved j j'"
  using job_edge_identity[of j j'] job_edge_attempts[of j j'] job_edge_states[of j j']
  by (auto simp: row_preserved_def)

lemma run_op_preserved:
  assumes "job_store_wf st" "map_of (jobs st) k = Some j"
  shows "\<exists>j'. map_of (jobs (run_op op st)) k = Some j' \<and> row_preserved j j'"
  using run_op_row[OF assms, of op] by (auto dest!: op_edge_job_edge job_edge_preserved)

lemma run_ops_preserved:
  "job_store_wf st \<Longrightarrow> map_of (jobs st) k = Some j \<Longrightarrow>
     \<exists>j'. map_of (jobs (run_ops ops st)) k = Some j' \<and> row_preserved j j'"
proof (induction ops arbitrary: st j)
  case (Cons op ops)
  obtain j1 where j1: "map_of (jobs (run_op op st)) k = Some j1" "row_preserved j j1"
    using run_op_preserved[OF Cons.prems] by blast
  then show ?case
    using Cons.IH[OF run_op_wf[OF Cons.prems(1)] j1(1)] row_preserved_trans by auto
qed auto

text \<open>No call ever deletes a job or changes what it is: through any history a row keeps its
  jobId, queue, description, group and sequence, its attempt count never decreases, and a cancelled
  row is final: it stays literally the same (not even recovery reopens it).\<close>

theorem job_rows_are_stable:
  assumes "map_of (jobs (run_ops ops empty_job_store)) k = Some j"
  shows "\<exists>j'. map_of (jobs (run_ops (ops @ later) empty_job_store)) k = Some j' \<and>
    job_id j' = job_id j \<and> queue_name j' = queue_name j \<and> description j' = description j \<and>
    group_key j' = group_key j \<and> group_order j' = group_order j \<and> job_seq j' = job_seq j \<and>
    attempts j \<le> attempts j' \<and> (job_state j = Job_Cancelled \<longrightarrow> j' = j)"
  using run_ops_preserved[OF run_ops_wf[OF empty_job_store_wf] assms, of later]
  by (auto simp: run_ops_def row_preserved_def)

subsection \<open>Admission is idempotent\<close>

lemma ensure_result_row:
  assumes "ensure_job env wall st = Inr (st', Job_Inserted j) \<or>
    ensure_job env wall st = Inr (st', Job_Existing j)"
  shows "map_of (jobs st') (job_id env) = Some j \<and> same_immutable_job j env"
  using assms
  by (auto simp: ensure_job_def bind_result_Inr_iff Let_def new_stored_job_def same_immutable_job_def
      split: option.splits if_splits)

text \<open>Admission is idempotent for ever: once \<open>ensure\<close> accepted an envelope (inserting it or
  finding it), then after any further history an \<open>ensure\<close> of the same envelope changes nothing and
  reports the existing row, which still has the envelope's immutable fields; an envelope that reuses
  the jobId with other immutable fields is answered \<open>conflict\<close>, again with no change.\<close>

theorem ensure_is_idempotent:
  assumes "job_store_wf st"
    and "ensure_job env wall st = Inr (st1, Job_Inserted j) \<or>
         ensure_job env wall st = Inr (st1, Job_Existing j)"
  shows "(\<exists>j'. ensure_job env wall' (run_ops ops st1) = Inr (run_ops ops st1, Job_Existing j') \<and>
            same_immutable_job j' env) \<and>
    (valid_time (run_after other) \<and> job_id other = job_id env \<and> \<not> same_immutable_job other env \<longrightarrow>
       ensure_job other wall' (run_ops ops st1) = Inr (run_ops ops st1, Ensure_Conflict))"
proof -
  have valid: "valid_time (run_after env)"
    using assms(2) by (auto simp: ensure_job_def bind_result_Inr_iff check_timestamp_def
        valid_time_iff split: option.splits)
  have "row_step\<^sup>*\<^sup>* st st1" using assms(2) by (auto intro: ensure_path)
  then have "job_store_wf st1" using assms(1) by (rule row_steps_wf)
  moreover have row: "map_of (jobs st1) (job_id env) = Some j" "same_immutable_job j env"
    using ensure_result_row[OF assms(2)] by simp_all
  ultimately obtain j' where j': "map_of (jobs (run_ops ops st1)) (job_id env) = Some j'"
      "row_preserved j j'"
    using run_ops_preserved by blast
  then have same: "same_immutable_job j' env"
    using row(2) by (simp add: same_immutable_job_def row_preserved_def)
  then have "\<not> same_immutable_job j' other"
    if "job_id other = job_id env" "\<not> same_immutable_job other env"
    using that by (auto simp: same_immutable_job_def)
  with j' same valid show ?thesis
    by (auto simp: ensure_job_def check_timestamp_def valid_time_iff)
qed

subsection \<open>Claims\<close>

lemma claim_candidates_minimal:
  assumes "job_store_wf st" "map_of (jobs st) k = Some j" "eligible q now st j"
    and "j \<notin> set (claim_candidates q now limit st)"
  shows "length (claim_candidates q now limit st) = nat limit \<and>
    (\<forall>c \<in> set (claim_candidates q now limit st).
       (time_ms (run_after c), job_seq c) \<le> (time_ms (run_after j), job_seq j))"
proof -
  have "j \<in> set (js_values (jobs st))"
    using job_values_id[OF assms(1)] job_store_wf_id[OF assms(1,2)] assms(2) by simp
  with assms(3,4) show ?thesis
    unfolding claim_candidates_def by (intro take_sorted_minimal) simp_all
qed

lemma claim_pair_row:
  assumes "p \<in> set (claim_pairs inp uuid i js)"
  shows "\<exists>t. snd p = claimed_job inp t (fst p)" "fst p \<in> set js" "job_id (snd p) = job_id (fst p)"
    "run_after (snd p) = run_after (fst p)" "job_seq (snd p) = job_seq (fst p)"
  using claim_pairs_edge[OF assms] by (auto simp: claimed_job_def)

lemma claim_sound:
  assumes wf: "job_store_wf st" and valid: "valid_time (cl_lease_expires_at inp)"
    and p: "p \<in> set (claim_pairs inp uuid 0 (claim_candidates q now limit st))"
    and st': "st' = write_rows (claim_pairs inp uuid 0 (claim_candidates q now limit st)) st"
  shows "map_of (jobs st') (job_id (snd p)) = Some (snd p)"
    "map_of (jobs st) (job_id (snd p)) = Some (fst p)" "eligible q now st (fst p)"
    "map_of (jobs st) k = Some i \<Longrightarrow> unfinished i \<Longrightarrow> \<not> earlier_in_group i (fst p)"
proof -
  note row = claim_pair_row[OF p]
  show "map_of (jobs st') (job_id (snd p)) = Some (snd p)"
    using write_rows_written[OF claim_row_edges[OF wf valid] p] row(3) st' by simp
  show "map_of (jobs st) (job_id (snd p)) = Some (fst p)"
    using claim_candidates_facts(1)[OF wf row(2)] row(3) by simp
  show e: "eligible q now st (fst p)"
    by (rule claim_candidates_facts(2)[OF wf row(2)])
  show "\<not> earlier_in_group i (fst p)" if "map_of (jobs st) k = Some i" "unfinished i"
    using e that job_values_id[OF wf, of i] job_store_wf_id[OF wf that(1)]
    by (auto simp: eligible_def has_earlier_group_job_def list_ex_iff)
qed

lemma claim_complete:
  assumes wf: "job_store_wf st"
    and cs: "cs = map snd (claim_pairs inp uuid 0 (claim_candidates q now limit st))"
    and j: "map_of (jobs st) k = Some j" "eligible q now st j" "\<forall>c \<in> set cs. job_id c \<noteq> k"
  shows "length cs = nat limit"
    "c \<in> set cs \<Longrightarrow> (time_ms (run_after c), job_seq c) \<le> (time_ms (run_after j), job_seq j)"
proof -
  let ?js = "claim_candidates q now limit st"
  let ?ps = "claim_pairs inp uuid 0 ?js"
  have "j \<notin> set ?js"
  proof
    assume "j \<in> set ?js"
    then have "job_id j \<in> set (map (\<lambda>p. job_id (fst p)) ?ps)" by simp
    then obtain p where p: "p \<in> set ?ps" "job_id (fst p) = job_id j"
      by (auto simp del: claim_pairs_ids)
    then have "snd p \<in> set cs" "job_id (snd p) = k"
      using claim_pair_row(3)[OF p(1)] job_store_wf_id[OF wf j(1)] by (simp_all add: cs)
    then show False using j(3) by blast
  qed
  note min = claim_candidates_minimal[OF wf j(1,2) this]
  then show "length cs = nat limit" by (simp add: cs)
  assume "c \<in> set cs"
  then obtain p where p: "p \<in> set ?ps" "c = snd p" by (auto simp: cs)
  then show "(time_ms (run_after c), job_seq c) \<le> (time_ms (run_after j), job_seq j)"
    using min claim_pair_row[OF p(1)] by simp
qed

lemma claim_frame:
  assumes wf: "job_store_wf st" and valid: "valid_time (cl_lease_expires_at inp)"
    and st': "st' = write_rows (claim_pairs inp uuid 0 (claim_candidates q now limit st)) st"
    and cs: "cs = map snd (claim_pairs inp uuid 0 (claim_candidates q now limit st))"
    and k: "\<forall>c \<in> set cs. job_id c \<noteq> k"
  shows "map_of (jobs st') k = map_of (jobs st) k"
proof -
  let ?ps = "claim_pairs inp uuid 0 (claim_candidates q now limit st)"
  have "job_id (fst p) \<noteq> k" if "p \<in> set ?ps" for p
    using k that claim_pair_row(3)[OF that] by (auto simp: cs)
  then have "k \<notin> (\<lambda>p. job_id (fst p)) ` set ?ps" by blast
  then show ?thesis
    unfolding st' by (rule write_rows_other[OF claim_row_edges[OF wf valid]])
qed

text \<open>C10: A claim takes work in order and completely. It returns at most \<open>limit\<close> jobs; each was
  pending in the requested queue, due, and first of its group (no unfinished job of the same queue
  and group has a smaller group order, or the same order and a smaller sequence), and is now running
  under the worker with one more attempt; its row is the returned one. A job that was just as
  eligible and was not taken means that the limit was used up by jobs that are not later than it in
  (runAfter, sequence) order. Every other row is unchanged.\<close>

theorem claim_takes_head_jobs:
  assumes wf: "job_store_wf st" and claim: "claim_jobs inp uuid st = Inr (st', cs)"
    and now: "date_parse (cl_now inp) = Some now"
  shows "length cs \<le> nat (cl_limit inp) \<and>
    (\<forall>c \<in> set cs. map_of (jobs st') (job_id c) = Some c \<and>
       (\<exists>j t. map_of (jobs st) (job_id c) = Some j \<and> c = claimed_job inp t j \<and>
              eligible (cl_queue inp) now st j \<and>
              (\<forall>k i. map_of (jobs st) k = Some i \<and> unfinished i \<longrightarrow> \<not> earlier_in_group i j))) \<and>
    (\<forall>k j. map_of (jobs st) k = Some j \<and> eligible (cl_queue inp) now st j \<and>
       (\<forall>c \<in> set cs. job_id c \<noteq> k) \<longrightarrow>
       length cs = nat (cl_limit inp) \<and>
       (\<forall>c \<in> set cs. (time_ms (run_after c), job_seq c) \<le> (time_ms (run_after j), job_seq j))) \<and>
    (\<forall>k. (\<forall>c \<in> set cs. job_id c \<noteq> k) \<longrightarrow> map_of (jobs st') k = map_of (jobs st) k)"
proof -
  let ?ps = "claim_pairs inp uuid 0 (claim_candidates (cl_queue inp) now (cl_limit inp) st)"
  from claim now have valid: "valid_time (cl_lease_expires_at inp)"
    and st': "st' = write_rows ?ps st" and cs: "cs = map snd ?ps"
    by (auto elim!: claim_jobs_Inr simp: valid_time_iff)
  show ?thesis
  proof (intro conjI ballI allI impI)
    show "length cs \<le> nat (cl_limit inp)" by (simp add: cs claim_candidates_def)
  next
    fix c
    assume "c \<in> set cs"
    then obtain p where p: "p \<in> set ?ps" "c = snd p" by (auto simp: cs)
    note sound = claim_sound[OF wf valid p(1) st']
    show "map_of (jobs st') (job_id c) = Some c" using sound(1) p(2) by simp
    show "\<exists>j t. map_of (jobs st) (job_id c) = Some j \<and> c = claimed_job inp t j \<and>
        eligible (cl_queue inp) now st j \<and>
        (\<forall>k i. map_of (jobs st) k = Some i \<and> unfinished i \<longrightarrow> \<not> earlier_in_group i j)"
      using sound(2-4) claim_pair_row(1)[OF p(1)] p(2) by blast
  next
    fix k j
    assume "map_of (jobs st) k = Some j \<and> eligible (cl_queue inp) now st j \<and>
      (\<forall>c \<in> set cs. job_id c \<noteq> k)"
    note j = this[THEN conjunct1] this[THEN conjunct2, THEN conjunct1]
      this[THEN conjunct2, THEN conjunct2]
    show "length cs = nat (cl_limit inp)" by (rule claim_complete(1)[OF wf cs j])
    fix c
    assume "c \<in> set cs"
    then show "(time_ms (run_after c), job_seq c) \<le> (time_ms (run_after j), job_seq j)"
      by (rule claim_complete(2)[OF wf cs j])
  next
    fix k
    assume "\<forall>c \<in> set cs. job_id c \<noteq> k"
    then show "map_of (jobs st') k = map_of (jobs st) k" by (rule claim_frame[OF wf valid st' cs])
  qed
qed

subsection \<open>Groups\<close>

definition same_group :: "stored_job \<Rightarrow> stored_job \<Rightarrow> bool" where
  "same_group a b \<longleftrightarrow> queue_name a = queue_name b \<and> group_key a \<noteq> None \<and>
     group_key a = group_key b \<and> group_order a \<noteq> None \<and> group_order b \<noteq> None"

text \<open>At most one job of a group is running.\<close>

definition group_exclusive :: "job_store \<Rightarrow> bool" where
  "group_exclusive st \<longleftrightarrow> (\<forall>k k' j j'. map_of (jobs st) k = Some j \<and> map_of (jobs st) k' = Some j' \<and>
     k \<noteq> k' \<and> job_state j = Job_Running \<and> job_state j' = Job_Running \<longrightarrow> \<not> same_group j j')"

text \<open>The inductive strengthening: a running job is the head of its group.\<close>

definition heads_running :: "job_store \<Rightarrow> bool" where
  "heads_running st \<longleftrightarrow> (\<forall>k k' j c. map_of (jobs st) k = Some j \<and> map_of (jobs st) k' = Some c \<and>
     job_state j = Job_Running \<and> unfinished c \<longrightarrow> \<not> earlier_in_group c j)"

text \<open>
  An admission or a reopening is \<^emph>\<open>in order\<close> if it does not put a job before a running one of its
  group. All other calls are.
\<close>

fun in_order :: "job_op \<Rightarrow> job_store \<Rightarrow> bool" where
  "in_order (Op_Ensure env wall) st \<longleftrightarrow> map_of (jobs st) (job_id env) \<noteq> None \<or>
     list_all (\<lambda>r. job_state r = Job_Running \<longrightarrow>
       \<not> earlier_in_group (new_stored_job env (job_sequence st + 1) (Iso wall)) r) (js_values (jobs st))"
| "in_order (Op_Reopen k d t wall) st \<longleftrightarrow> (case map_of (jobs st) k of None \<Rightarrow> True | Some j \<Rightarrow>
     list_all (\<lambda>r. job_state r = Job_Running \<longrightarrow> \<not> earlier_in_group j r) (js_values (jobs st)))"
| "in_order _ st \<longleftrightarrow> True"

fun orderly :: "job_op list \<Rightarrow> job_store \<Rightarrow> bool" where
  "orderly [] st \<longleftrightarrow> True"
| "orderly (op # ops) st \<longleftrightarrow> in_order op st \<and> orderly ops (run_op op st)"

lemma earlier_in_group_total:
  assumes "job_store_wf st" "map_of (jobs st) k = Some a" "map_of (jobs st) k' = Some b"
    and "k \<noteq> k'" "same_group a b"
  shows "earlier_in_group a b \<or> earlier_in_group b a"
proof -
  have ids: "job_id a = k" "job_id b = k'" using job_store_wf_id assms(1-3) by blast+
  have "job_seq a \<noteq> job_seq b"
    using assms numbered_inj[of job_seq "job_sequence st" "jobs st" k a k' b]
    by (auto simp: job_store_wf_def)
  then show ?thesis using assms(4,5) ids by (auto simp: earlier_in_group_def same_group_def)
qed

lemma heads_running_exclusive:
  assumes "job_store_wf st" "heads_running st"
  shows "group_exclusive st"
  unfolding group_exclusive_def
proof (intro allI impI notI)
  fix k k' j j'
  assume h: "map_of (jobs st) k = Some j \<and> map_of (jobs st) k' = Some j' \<and>
    k \<noteq> k' \<and> job_state j = Job_Running \<and> job_state j' = Job_Running"
  moreover assume "same_group j j'"
  ultimately have "earlier_in_group j j' \<or> earlier_in_group j' j"
    using earlier_in_group_total[OF assms(1)] by blast
  then show False using h assms(2) by (auto simp: heads_running_def unfinished_def)
qed

lemma earlier_in_group_cong:
  "row_preserved c c' \<Longrightarrow> row_preserved j j' \<Longrightarrow> earlier_in_group c' j' \<longleftrightarrow> earlier_in_group c j"
  by (simp add: earlier_in_group_def row_preserved_def split: option.splits)

text \<open>How a job comes to be running, and how a row comes to be unfinished, in one call.\<close>

lemma run_op_running:
  assumes wf: "job_store_wf st" and row: "map_of (jobs (run_op op st)) k = Some j'"
    and run: "job_state j' = Job_Running"
  obtains (was) j where "map_of (jobs st) k = Some j" "row_preserved j j'" "job_state j = Job_Running"
  | (claimed) inp uuid now j where "op = Op_Claim inp uuid" "map_of (jobs st) k = Some j"
      "row_preserved j j'" "eligible (cl_queue inp) now st j"
proof (cases "map_of (jobs st) k")
  case None
  then show ?thesis
    using run_op_new_row[OF wf None row] run by (auto simp: new_stored_job_def)
next
  case (Some j)
  with run_op_row[OF wf Some, of op] row have "j' = j \<or> op_edge op st j j'" by simp
  then show ?thesis
  proof
    assume "j' = j"
    then show ?thesis using was[of j] Some run by simp
  next
    assume e: "op_edge op st j j'"
    then have "row_preserved j j'" by (blast dest: op_edge_job_edge job_edge_preserved)
    with e show ?thesis
      using Some run was[of j] claimed[of _ _ j]
      by (cases rule: op_edge.cases) (auto simp: expired_job_def lease_expired_def)
  qed
qed

lemma run_op_unfinished:
  assumes wf: "job_store_wf st" and row: "map_of (jobs (run_op op st)) k = Some c'"
    and unf: "unfinished c'"
  obtains (was) c where "map_of (jobs st) k = Some c" "row_preserved c c'" "unfinished c"
  | (reopened) t wall c where "op = Op_Reopen k (description c) t wall" "map_of (jobs st) k = Some c"
      "row_preserved c c'"
  | (new) env wall where "op = Op_Ensure env wall" "map_of (jobs st) (job_id env) = None"
      "c' = new_stored_job env (job_sequence st + 1) (Iso wall)"
proof (cases "map_of (jobs st) k")
  case None
  then show ?thesis using run_op_new_row[OF wf None row] new by blast
next
  case (Some c)
  with run_op_row[OF wf Some, of op] row have "c' = c \<or> op_edge op st c c'" by simp
  then show ?thesis
  proof
    assume "c' = c"
    then show ?thesis using was[of c] Some unf by simp
  next
    assume e: "op_edge op st c c'"
    then have "row_preserved c c'" by (blast dest: op_edge_job_edge job_edge_preserved)
    with e show ?thesis
      using Some unf was[of c] reopened[of c] job_store_wf_id[OF wf Some]
      by (cases rule: op_edge.cases)
        (auto simp: expired_job_def lease_expired_def eligible_def unfinished_def)
  qed
qed

lemma heads_running_step:
  assumes wf: "job_store_wf st" and heads: "heads_running st" and ord: "in_order op st"
  shows "heads_running (run_op op st)"
  unfolding heads_running_def
proof (intro allI impI notI)
  fix k k' j' c'
  assume h: "map_of (jobs (run_op op st)) k = Some j' \<and> map_of (jobs (run_op op st)) k' = Some c' \<and>
      job_state j' = Job_Running \<and> unfinished c'"
    and early: "earlier_in_group c' j'"
  from h have row: "map_of (jobs (run_op op st)) k = Some j'"
      "map_of (jobs (run_op op st)) k' = Some c'" and run: "job_state j' = Job_Running"
    and unf: "unfinished c'" by simp_all
  show False
  proof (cases rule: run_op_running[OF wf row(1) run])
    case j: (1 j)
    have mem: "j \<in> set (js_values (jobs st))"
      using job_values_id[OF wf] job_store_wf_id[OF wf j(1)] j(1) by simp
    show False
    proof (cases rule: run_op_unfinished[OF wf row(2) unf])
      case (1 c)
      then show False
        using early j heads earlier_in_group_cong[of c c' j j'] by (auto simp: heads_running_def)
    next
      case (2 t wall c)
      then show False
        using early j ord mem earlier_in_group_cong[of c c' j j'] by (auto simp: list_all_iff)
    next
      case (3 env wall)
      then show False
        using early j ord mem earlier_in_group_cong[of c' c' j j'] by (auto simp: list_all_iff)
    qed
  next
    case j: (2 inp uuid now j)
    show False
    proof (cases rule: run_op_unfinished[OF wf row(2) unf])
      case (1 c)
      then have "\<not> earlier_in_group c j"
        using j(4) job_values_id[OF wf, of c] job_store_wf_id[OF wf 1(1)]
        by (auto simp: eligible_def has_earlier_group_job_def list_ex_iff)
      then show False using early j(3) 1(2) earlier_in_group_cong by blast
    qed (use j(1) in simp_all)
  qed
qed

lemma heads_running_orderly:
  "job_store_wf st \<Longrightarrow> heads_running st \<Longrightarrow> orderly ops st \<Longrightarrow> heads_running (run_ops ops st)"
  by (induction ops arbitrary: st) (simp_all add: heads_running_step run_op_wf)

text \<open>C11: Groups serialize. In every history in which no admission or reopening puts a job before
  one of its group that is already running, at most one job of a (queue, group) is running at any
  time, whatever the interleaving of claims of several workers, expiries, renewals and completions.\<close>

theorem groups_are_serialized:
  assumes "orderly ops empty_job_store"
  shows "group_exclusive (run_ops ops empty_job_store)"
proof -
  have "heads_running empty_job_store" by (simp add: heads_running_def empty_job_store_def)
  then show ?thesis
    using assms by (intro heads_running_exclusive run_ops_wf heads_running_orderly) simp_all
qed

subsection \<open>Crash recovery\<close>

lemma expiry_pairs_mem:
  assumes "job_store_wf st" "map_of (jobs st) k = Some j" "lease_expired ms queues j"
    and "length (expiry_pairs queues now ms limit st) < nat limit"
  shows "(j, expired_job now j) \<in> set (expiry_pairs queues now ms limit st)"
proof -
  let ?xs = "sort_key job_seq (filter (lease_expired ms queues) (js_values (jobs st)))"
  have "j \<in> set ?xs"
    using assms job_values_id[OF assms(1), of j] job_store_wf_id[OF assms(1,2)] by simp
  moreover have "take (nat limit) ?xs = ?xs"
    using assms(4) by (simp add: expiry_pairs_def)
  ultimately show ?thesis by (simp add: expiry_pairs_def)
qed

lemma expire_row:
  assumes "job_store_wf st" "map_of (jobs st) k = Some j"
    and "expire_leases queues now limit st = Inr (st', n)" "date_parse now = Some ms"
    and "n < nat limit"
  shows "map_of (jobs st') k =
    Some (if lease_expired ms queues j then expired_job now j else j)"
proof -
  let ?ps = "expiry_pairs queues now ms limit st"
  have st': "st' = write_rows ?ps st" "n = length ?ps"
    using assms(3,4) by (auto elim!: expire_leases_Inr)
  note edges = expiry_row_edges[OF assms(1), of queues now ms limit]
  have id: "job_id j = k" by (rule job_store_wf_id[OF assms(1,2)])
  show ?thesis
  proof (cases "lease_expired ms queues j")
    case True
    then have "(j, expired_job now j) \<in> set ?ps"
      using expiry_pairs_mem[OF assms(1,2)] assms(5) st'(2) by simp
    from write_rows_written[OF edges this] show ?thesis using True st'(1) id by simp
  next
    case False
    from write_rows_row[OF edges assms(2) id] show ?thesis
      using False st'(1) by (auto dest: expiry_pair)
  qed
qed

text \<open>C12: Work of a crashed worker is taken over. If a sweep of expired leases is not cut off by its
  limit, then it makes exactly the jobs whose lease has expired pending again and leaves every other
  row alone; and an expired job that is due and first in its group is then in the result of the next
  claim on its queue whose limit exceeds the number of jobs, with a new attempt, the new worker and
  the new expiry.\<close>

theorem crashed_work_is_taken_over:
  assumes wf: "job_store_wf st"
    and expire: "expire_leases queues now limit st = Inr (st', n)" "date_parse now = Some ms"
      "n < nat limit"
  shows "(\<forall>k j. map_of (jobs st) k = Some j \<longrightarrow>
       map_of (jobs st') k = Some (if lease_expired ms queues j then expired_job now j else j)) \<and>
    (\<forall>k j inp uuid st'' cs cnow. map_of (jobs st) k = Some j \<and> lease_expired ms queues j \<and>
       claim_jobs inp uuid st' = Inr (st'', cs) \<and> date_parse (cl_now inp) = Some cnow \<and>
       eligible (cl_queue inp) cnow st' (expired_job now j) \<and>
       length (jobs st') < nat (cl_limit inp) \<longrightarrow>
       (\<exists>t. claimed_job inp t (expired_job now j) \<in> set cs))"
proof (intro conjI allI impI)
  show row: "map_of (jobs st') k = Some (if lease_expired ms queues j then expired_job now j else j)"
    if "map_of (jobs st) k = Some j" for k j
    by (rule expire_row[OF wf that expire])
  fix k j inp uuid st'' cs cnow
  assume h: "map_of (jobs st) k = Some j \<and> lease_expired ms queues j \<and>
       claim_jobs inp uuid st' = Inr (st'', cs) \<and> date_parse (cl_now inp) = Some cnow \<and>
       eligible (cl_queue inp) cnow st' (expired_job now j) \<and>
       length (jobs st') < nat (cl_limit inp)"
  have wf': "job_store_wf st'"
    using run_op_wf[OF wf, of "Op_Expire queues now limit"] expire(1) by simp
  have j: "map_of (jobs st') k = Some (expired_job now j)" using row h by simp
  let ?ps = "claim_pairs inp uuid 0 (claim_candidates (cl_queue inp) cnow (cl_limit inp) st')"
  have cs: "cs = map snd ?ps" using h by (auto elim!: claim_jobs_Inr)
  have "length cs \<le> length (jobs st')"
  proof -
    have "length cs = length (claim_candidates (cl_queue inp) cnow (cl_limit inp) st')"
      using h by (auto elim!: claim_jobs_Inr)
    also have "\<dots> \<le> length (filter (eligible (cl_queue inp) cnow st') (js_values (jobs st')))"
      by (simp add: claim_candidates_def)
    also have "\<dots> \<le> length (jobs st')"
      using length_filter_le[of _ "js_values (jobs st')"] by simp
    finally show ?thesis .
  qed
  then have "\<not> (\<forall>c \<in> set cs. job_id c \<noteq> k)"
    using claim_complete(1)[OF wf' cs j] h by (metis not_le)
  then obtain p where p: "p \<in> set ?ps" "job_id (snd p) = k" by (auto simp: cs)
  moreover have "fst p = expired_job now j"
    using claim_candidates_facts(1)[OF wf' claim_pair_row(2)[OF p(1)]] claim_pair_row(3)[OF p(1)] p(2) j
    by simp
  ultimately show "\<exists>t. claimed_job inp t (expired_job now j) \<in> set cs"
    using claim_pair_row(1)[OF p(1)] by (force simp: cs)
qed

subsection \<open>Concrete histories\<close>

text \<open>Two deliveries to one endpoint: one queue group, in sequence order.\<close>

definition demo_delivery :: "string \<Rightarrow> executor_job" where
  "demo_delivery d = Webhook_Deliver ''p'' d"

definition demo_env :: "string \<Rightarrow> int \<Rightarrow> job_envelope" where
  "demo_env d n = \<lparr>job_id = executor_job_id concat (demo_delivery d),
     queue_name = queue_name_for_job (demo_delivery d), description = demo_delivery d,
     group_key = Some (webhook_endpoint_group_key concat ''p'' ''e''), group_order = Some n,
     run_after = Iso 0\<rparr>"

definition demo_id :: "string \<Rightarrow> string" where
  "demo_id d = executor_job_id concat (demo_delivery d)"

definition demo_claim :: "int \<Rightarrow> claim_input" where
  "demo_claim now = \<lparr>cl_queue = Webhook_Delivery_Queue, cl_worker = ''w'', cl_now = Iso now,
     cl_lease_expires_at = Iso (now + 10), cl_limit = 4\<rparr>"

definition demo_lease :: "string \<Rightarrow> string \<Rightarrow> int \<Rightarrow> lease_mutation" where
  "demo_lease d t now = \<lparr>lm_job_id = demo_id d, lm_worker_id = ''w'', lm_lease_token = t,
     lm_now = Iso now\<rparr>"

definition demo_ops :: "job_op list" where
  "demo_ops = [Op_Ensure (demo_env ''a'' 1) 0, Op_Ensure (demo_env ''b'' 2) 0,
     Op_Claim (demo_claim 0) (\<lambda>i. ''t1'')]"

definition demo_store :: job_store where
  "demo_store = run_ops demo_ops empty_job_store"

lemma demo_store_wf: "job_store_wf demo_store"
  by (simp add: demo_store_def run_ops_wf)

lemma demo_store_rows:
  "map_of (jobs demo_store) (demo_id ''a'') =
     Some (claimed_job (demo_claim 0) ''t1'' (new_stored_job (demo_env ''a'' 1) 1 (Iso 0)))"
  "map_of (jobs demo_store) (demo_id ''b'') = Some (new_stored_job (demo_env ''b'' 2) 2 (Iso 0))"
  "holds_lease (demo_lease ''a'' ''t1'' 5) demo_store"
  by code_simp+

lemma result_Inr: "\<not> isl r \<Longrightarrow> \<exists>a b. r = Inr (a, b)"
  by (cases r) auto

lemma lease_fencing_witness:
  "\<exists>st'. run_lease_action Act_Complete (demo_lease ''a'' ''t1'' 5) demo_store = Inr (st', True) \<and>
     map_of (jobs st') (demo_id ''b'') = map_of (jobs demo_store) (demo_id ''b'')"
proof -
  obtain st' where r: "run_lease_action Act_Complete (demo_lease ''a'' ''t1'' 5) demo_store = Inr (st', True)"
    using holder_action_succeeds[OF demo_store_rows(3), of Act_Complete] by auto
  have "demo_id ''b'' \<noteq> lm_job_id (demo_lease ''a'' ''t1'' 5)" by code_simp
  with r lease_fencing[OF demo_store_wf r] show ?thesis by blast
qed

definition demo_expired :: job_store where
  "demo_expired = run_op (Op_Expire [Webhook_Delivery_Queue] (Iso 20) 10) demo_store"

lemma stale_token_is_fenced_witness:
  "\<exists>st'. run_lease_action Act_Complete (demo_lease ''a'' ''t1'' 5)
       (run_ops [Op_Claim (demo_claim 21) (\<lambda>i. ''t2'')] demo_expired) = Inr (st', False)"
proof -
  let ?ops = "[Op_Claim (demo_claim 21) (\<lambda>i. ''t2'')]" and ?l = "demo_lease ''a'' ''t1'' 5"
  have "\<not> isl (run_lease_action Act_Complete ?l (run_ops ?ops demo_expired))" by code_simp
  then obtain st' ok where r: "run_lease_action Act_Complete ?l (run_ops ?ops demo_expired) = Inr (st', ok)"
    using result_Inr by blast
  have wf: "job_store_wf demo_expired"
    unfolding demo_expired_def by (rule run_op_wf[OF demo_store_wf])
  have lost: "\<not> shows_token (lm_job_id ?l) (lm_lease_token ?l) demo_expired" by code_simp
  have fresh: "\<forall>op \<in> set ?ops. \<not> draws_token (lm_lease_token ?l) op" by (simp add: demo_lease_def)
  have "ok = False" using stale_token_is_fenced[OF wf lost fresh r] by blast
  with r show ?thesis by blast
qed

lemma job_rows_are_stable_witness:
  "\<exists>j'. map_of (jobs (run_ops (demo_ops @ [Op_Lease Act_Release (demo_lease ''a'' ''t1'' 5)])
       empty_job_store)) (demo_id ''a'') = Some j' \<and> description j' = demo_delivery ''a''"
proof -
  have "description (claimed_job (demo_claim 0) ''t1'' (new_stored_job (demo_env ''a'' 1) 1 (Iso 0))) =
      demo_delivery ''a''"
    by code_simp
  then show ?thesis
    using job_rows_are_stable[OF demo_store_rows(1)[unfolded demo_store_def],
        of "[Op_Lease Act_Release (demo_lease ''a'' ''t1'' 5)]"]
    by auto
qed

lemma ensure_is_idempotent_witness:
  "\<exists>j'. ensure_job (demo_env ''a'' 1) 9 (run_ops [Op_Claim (demo_claim 0) (\<lambda>i. ''t1'')]
       (run_op (Op_Ensure (demo_env ''a'' 1) 0) empty_job_store)) =
     Inr (run_ops [Op_Claim (demo_claim 0) (\<lambda>i. ''t1'')]
       (run_op (Op_Ensure (demo_env ''a'' 1) 0) empty_job_store), Job_Existing j')"
proof -
  have "ensure_job (demo_env ''a'' 1) 0 empty_job_store =
      Inr (run_op (Op_Ensure (demo_env ''a'' 1) 0) empty_job_store,
        Job_Inserted (new_stored_job (demo_env ''a'' 1) 1 (Iso 0)))"
    by (simp add: ensure_job_def demo_env_def empty_job_store_def check_timestamp_def Let_def)
  then show ?thesis
    using ensure_is_idempotent[OF empty_job_store_wf, of "demo_env ''a'' 1" 0] by blast
qed

lemma claim_takes_head_jobs_witness:
  "\<exists>st' c. claim_jobs (demo_claim 0) (\<lambda>i. ''t1'')
       (run_ops [Op_Ensure (demo_env ''a'' 1) 0, Op_Ensure (demo_env ''b'' 2) 0] empty_job_store) =
     Inr (st', [c]) \<and> job_id c = demo_id ''a'' \<and> map_of (jobs st') (job_id c) = Some c"
proof -
  let ?st = "run_ops [Op_Ensure (demo_env ''a'' 1) 0, Op_Ensure (demo_env ''b'' 2) 0] empty_job_store"
  have "\<not> isl (claim_jobs (demo_claim 0) (\<lambda>i. ''t1'') ?st)" by code_simp
  then obtain st' cs where r: "claim_jobs (demo_claim 0) (\<lambda>i. ''t1'') ?st = Inr (st', cs)"
    using result_Inr by blast
  have "map job_id (snd (projr (claim_jobs (demo_claim 0) (\<lambda>i. ''t1'') ?st))) = [demo_id ''a'']"
    by code_simp
  then obtain c where c: "cs = [c]" "job_id c = demo_id ''a''" using r by auto
  have "date_parse (cl_now (demo_claim 0)) = Some 0" by (simp add: demo_claim_def)
  from claim_takes_head_jobs[OF run_ops_wf[OF empty_job_store_wf] r this]
  show ?thesis using r c by auto
qed

lemma groups_are_serialized_witness:
  "group_exclusive (run_ops demo_ops empty_job_store)"
proof -
  have "orderly demo_ops empty_job_store" by code_simp
  then show ?thesis by (rule groups_are_serialized)
qed

lemma crashed_work_is_taken_over_witness:
  "\<exists>st' n. expire_leases [Webhook_Delivery_Queue] (Iso 20) 10 demo_store = Inr (st', n) \<and>
     map_of (jobs st') (demo_id ''b'') = map_of (jobs demo_store) (demo_id ''b'')"
proof -
  let ?r = "expire_leases [Webhook_Delivery_Queue] (Iso 20) 10 demo_store"
  have "\<not> isl ?r" by code_simp
  then obtain st' n where r: "?r = Inr (st', n)" using result_Inr by blast
  have "snd (projr ?r) = 1" by code_simp
  then have "n < nat 10" using r by simp
  note over = crashed_work_is_taken_over[OF demo_store_wf r _ this]
  have "\<not> lease_expired 20 [Webhook_Delivery_Queue] (new_stored_job (demo_env ''b'' 2) 2 (Iso 0))"
    by code_simp
  then show ?thesis using r over[of 20] demo_store_rows(2) by simp
qed

subsection \<open>A reopened job overlaps its group\<close>

lemma group_overlap:
  assumes "job_store_wf st"
    and "list_ex (\<lambda>j. list_ex (\<lambda>j'. job_id j \<noteq> job_id j' \<and> job_state j = Job_Running \<and>
           job_state j' = Job_Running \<and> same_group j j') (js_values (jobs st))) (js_values (jobs st))"
  shows "\<not> group_exclusive st"
  using assms(2) job_values_id[OF assms(1)] unfolding group_exclusive_def list_ex_iff by blast

definition overlap_ops :: "job_op list" where
  "overlap_ops = [Op_Ensure (demo_env ''a'' 1) 0, Op_Ensure (demo_env ''b'' 2) 0,
     Op_Claim (demo_claim 0) (\<lambda>i. ''t1''),
     Op_Lease (Act_Fail Handler_Rejected) (demo_lease ''a'' ''t1'' 1),
     Op_Claim (demo_claim 2) (\<lambda>i. ''t2''),
     Op_Reopen (demo_id ''a'') (demo_delivery ''a'') (Iso 3) 3,
     Op_Claim (demo_claim 3) (\<lambda>i. ''t3'')]"

text \<open>The order condition of the serialization theorem is needed, and recovery can break it: with
  two deliveries of one endpoint group, if the first job fails, the second is claimed, and a recovery
  sweep reopens the first, then the next claim starts the first while the second is still running, so
  two jobs of the group run at the same time.\<close>

theorem reopened_job_overlaps_group:
  "\<not> group_exclusive (run_ops overlap_ops empty_job_store)"
proof (rule group_overlap)
  show "job_store_wf (run_ops overlap_ops empty_job_store)" by (simp add: run_ops_wf)
qed code_simp

end
