(* ===== verification/Webhook_Work.thy ===== *)
theory Webhook_Work
  imports Deliveries Job_Queue
begin

text \<open>
  The durable webhook work (\<open>apps/executor/src/webhooks/work-store.ts\<close> and
  \<open>memory-work-store.ts\<close>): admission of events with their ordered selection job, materialization of an
  event into one delivery per endpoint, summaries, and the recovery listing. The store writes to the
  job store and to the delivery log, so its operations act on the three of them. A call that throws may
  have written before: operations return the state and a result.

  The in-memory stores run each call up to its first \<open>await\<close> of another task in one piece; the calls to
  the job store and the delivery log are such pieces, so that an operation below is what a caller
  observes when no other call runs between its pieces.
\<close>

subsection \<open>Data\<close>

datatype event_source_kind =
    Source_Execution | Source_Trigger | Source_Voice_Session_Event | Source_Voice_Transcript
  | Source_Voice_Observer_Failure

record event_work =
  ew_sequence :: int
  ew_project :: string
  ew_event :: string
  ew_event_type :: string
  ew_source_kind :: event_source_kind
  ew_source :: string
  ew_endpoints :: "string list option"
  ew_created_at :: timestamp
  ew_materialized_at :: "timestamp option"

record event_admission =
  ea_project :: string
  ea_event :: string
  ea_event_type :: string
  ea_source_kind :: event_source_kind
  ea_source :: string
  ea_endpoints :: "string list option"
  ea_created_at :: timestamp
  ea_selection_run_after :: timestamp

datatype ensure_event_result = Event_Inserted | Event_Existing

record delivery_target_summary =
  ts_endpoint :: string
  ts_delivery :: string
  ts_status :: delivery_status

record event_delivery_summary =
  es_event :: string
  es_materialized :: bool
  es_targets :: "delivery_target_summary list"

type_synonym event_key = "string \<times> string"

record work_store =
  work_events :: "(event_key \<times> event_work) list"
  event_deliveries :: "(event_key \<times> string list) list"
  work_sequence :: int

text \<open>The store with the two stores it was constructed over.\<close>

record webhook_system =
  sys_work :: work_store
  sys_deliveries :: delivery_store
  sys_jobs :: job_store

definition empty_work_store :: work_store where
  "empty_work_store = \<lparr>work_events = [], event_deliveries = [], work_sequence = 0\<rparr>"

definition empty_webhook_system :: webhook_system where
  "empty_webhook_system = \<lparr>sys_work = empty_work_store, sys_deliveries = empty_delivery_store,
     sys_jobs = empty_job_store\<rparr>"

subsection \<open>Identity\<close>

definition deterministic_delivery_id ::
    "(string list \<Rightarrow> string) \<Rightarrow> string \<Rightarrow> string \<Rightarrow> string \<Rightarrow> string" where
  "deterministic_delivery_id digest p e endpoint = ''whd_'' @ digest [p, e, endpoint]"

definition same_event :: "event_work \<Rightarrow> event_admission \<Rightarrow> bool" where
  "same_event existing incoming \<longleftrightarrow>
     ew_project existing = ea_project incoming \<and> ew_event existing = ea_event incoming \<and>
     ew_event_type existing = ea_event_type incoming \<and>
     ew_source_kind existing = ea_source_kind incoming \<and> ew_source existing = ea_source incoming \<and>
     ew_endpoints existing = ea_endpoints incoming \<and> ew_created_at existing = ea_created_at incoming"

text \<open>\<open>[...new Set(xs)]\<close>: the first occurrences, in order.\<close>

definition js_unique :: "'a list \<Rightarrow> 'a list" where
  "js_unique xs = fold set_add xs []"

definition validate_summary_input :: "string \<Rightarrow> string list \<Rightarrow> string list result" where
  "validate_summary_input p ids =
     (let uniq = js_unique ids in
      if blank p \<or> length ids > 100 \<or> list_ex blank uniq
      then Inl (Type_Error ''Webhook event summary requires a project and at most 100 event IDs.'')
      else Inr uniq)"

subsection \<open>Admission\<close>

definition ensure_selection_job ::
    "(string list \<Rightarrow> string) \<Rightarrow> event_work \<Rightarrow> timestamp \<Rightarrow> int \<Rightarrow> job_store \<Rightarrow> job_store result" where
  "ensure_selection_job digest event start wall js =
     bind_result (create_job_envelope digest (Webhook_Select (ew_project event) (ew_event event))
         \<lparr>opt_run_after = Some start, opt_group_key = Some webhook_selection_group_key,
          opt_group_order = Some (ew_sequence event)\<rparr> wall) (\<lambda>env.
     bind_result (ensure_job env wall js) (\<lambda>(js', ensured).
       if ensured = Ensure_Conflict
       then Inl (Plain_Error ''Webhook selection job identity conflict.'')
       else Inr js'))"

definition new_event :: "event_admission \<Rightarrow> int \<Rightarrow> event_work" where
  "new_event inp n = \<lparr>ew_sequence = n, ew_project = ea_project inp, ew_event = ea_event inp,
     ew_event_type = ea_event_type inp, ew_source_kind = ea_source_kind inp, ew_source = ea_source inp,
     ew_endpoints = ea_endpoints inp, ew_created_at = ea_created_at inp, ew_materialized_at = None\<rparr>"

definition admission_incomplete :: "event_admission \<Rightarrow> bool" where
  "admission_incomplete inp \<longleftrightarrow>
     ea_project inp = [] \<or> ea_event inp = [] \<or> ea_source inp = [] \<or>
     \<not> valid_time (ea_created_at inp) \<or> \<not> valid_time (ea_selection_run_after inp)"

definition ensure_event ::
    "(string list \<Rightarrow> string) \<Rightarrow> int \<Rightarrow> event_admission \<Rightarrow> webhook_system \<Rightarrow>
     webhook_system \<times> ensure_event_result result" where
  "ensure_event digest wall inp sys =
     (let w = sys_work sys; k = (ea_project inp, ea_event inp) in
      if admission_incomplete inp
      then (sys, Inl (Type_Error ''Webhook event identity, source, and timestamps are required.''))
      else case map_of (work_events w) k of
        Some existing \<Rightarrow>
          if \<not> same_event existing inp
          then (sys, Inl (Plain_Error ''Webhook event identity was reused with different work.''))
          else (case ensure_selection_job digest existing (ea_selection_run_after inp) wall (sys_jobs sys) of
                  Inl err \<Rightarrow> (sys, Inl err)
                | Inr js \<Rightarrow> (sys\<lparr>sys_jobs := js\<rparr>, Inr Event_Existing))
      | None \<Rightarrow>
          let n = work_sequence w + 1; event = new_event inp n;
              w' = w\<lparr>work_events := js_set k event (work_events w), work_sequence := n\<rparr> in
          (case ensure_selection_job digest event (ea_selection_run_after inp) wall (sys_jobs sys) of
             Inl err \<Rightarrow>
               (sys\<lparr>sys_work := w'\<lparr>work_events := js_delete k (work_events w')\<rparr>\<rparr>, Inl err)
           | Inr js \<Rightarrow> (sys\<lparr>sys_work := w', sys_jobs := js\<rparr>, Inr Event_Inserted)))"

definition get_event :: "string \<Rightarrow> string \<Rightarrow> webhook_system \<Rightarrow> event_work option" where
  "get_event p e sys = map_of (work_events (sys_work sys)) (p, e)"

subsection \<open>Materialization\<close>

definition get_materialized ::
    "string \<Rightarrow> string \<Rightarrow> webhook_system \<Rightarrow> sequenced_delivery list result" where
  "get_materialized p e sys =
     (let ids = (case map_of (event_deliveries (sys_work sys)) (p, e) of None \<Rightarrow> [] | Some ids \<Rightarrow> ids);
          complete = List.map_filter (\<lambda>i. get_sequenced p i (sys_deliveries sys)) ids in
      if length complete \<noteq> length ids
      then Inl (Plain_Error ''Webhook event references a missing delivery.'')
      else Inr complete)"

text \<open>The loop over the endpoints: one deterministic delivery each, a repeated endpoint throws.\<close>

fun materialize_each ::
    "(string list \<Rightarrow> string) \<Rightarrow> event_work \<Rightarrow> string \<Rightarrow> string \<Rightarrow> string list \<Rightarrow> string list \<Rightarrow>
     delivery_store \<Rightarrow> delivery_store \<times> sequenced_delivery list result" where
  "materialize_each digest event p e seen [] ds = (ds, Inr [])"
| "materialize_each digest event p e seen (endpoint # endpoints) ds =
     (if endpoint \<in> set seen
      then (ds, Inl (Plain_Error ''Webhook event materialization duplicated an endpoint.''))
      else case create_deterministic p (deterministic_delivery_id digest p e endpoint)
          \<lparr>cd_endpoint = endpoint, cd_event = e, cd_event_type = ew_event_type event,
           cd_created_at = ew_created_at event\<rparr> ds of
        Inl err \<Rightarrow> (ds, Inl err)
      | Inr (ds', created) \<Rightarrow>
          (case materialize_each digest event p e (endpoint # seen) endpoints ds' of
             (ds'', Inl err) \<Rightarrow> (ds'', Inl err)
           | (ds'', Inr rest) \<Rightarrow> (ds'', Inr (created # rest))))"

definition materialize_event ::
    "(string list \<Rightarrow> string) \<Rightarrow> string \<Rightarrow> string \<Rightarrow> string list \<Rightarrow> timestamp \<Rightarrow> webhook_system \<Rightarrow>
     webhook_system \<times> sequenced_delivery list result" where
  "materialize_event digest p e endpoints materialized_at sys =
     (case get_event p e sys of
        None \<Rightarrow> (sys, Inl (Plain_Error ''Unknown webhook event work.''))
      | Some event \<Rightarrow>
          if ew_materialized_at event \<noteq> None then (sys, get_materialized p e sys)
          else (case materialize_each digest event p e [] endpoints (sys_deliveries sys) of
            (ds, Inl err) \<Rightarrow> (sys\<lparr>sys_deliveries := ds\<rparr>, Inl err)
          | (ds, Inr rows) \<Rightarrow>
              let w = sys_work sys;
                  w' = w\<lparr>event_deliveries := js_set (p, e)
                    (map (deterministic_delivery_id digest p e) endpoints) (event_deliveries w)\<rparr> in
              (case to_iso materialized_at of
                 Inl err \<Rightarrow> (sys\<lparr>sys_deliveries := ds, sys_work := w'\<rparr>, Inl err)
               | Inr t \<Rightarrow>
                   (sys\<lparr>sys_deliveries := ds, sys_work := w'\<lparr>work_events :=
                      js_set (p, e) (event\<lparr>ew_materialized_at := Some t\<rparr>) (work_events w')\<rparr>\<rparr>,
                    Inr rows))))"

subsection \<open>Summaries and recovery\<close>

definition target_summary :: "sequenced_delivery \<Rightarrow> delivery_target_summary" where
  "target_summary row = \<lparr>ts_endpoint = wd_endpoint (sd_delivery row),
     ts_delivery = wd_id (sd_delivery row), ts_status = wd_status (sd_delivery row)\<rparr>"

fun summarize_events ::
    "string \<Rightarrow> string list \<Rightarrow> webhook_system \<Rightarrow> event_delivery_summary list result" where
  "summarize_events p [] sys = Inr []"
| "summarize_events p (e # es) sys =
     (case get_event p e sys of
        None \<Rightarrow> summarize_events p es sys
      | Some event \<Rightarrow>
          bind_result (if ew_materialized_at event = None then Inr [] else get_materialized p e sys) (\<lambda>rows.
          bind_result (summarize_events p es sys) (\<lambda>rest.
            Inr (\<lparr>es_event = e, es_materialized = ew_materialized_at event \<noteq> None,
                  es_targets = map target_summary (sort_key sd_sequence rows)\<rparr> # rest))))"

definition get_event_delivery_summaries ::
    "string \<Rightarrow> string list \<Rightarrow> webhook_system \<Rightarrow> event_delivery_summary list result" where
  "get_event_delivery_summaries p ids sys =
     bind_result (validate_summary_input p ids) (\<lambda>uniq. summarize_events p uniq sys)"

definition list_unmaterialized ::
    "int option \<Rightarrow> int \<Rightarrow> webhook_system \<Rightarrow> (event_work list \<times> int option) result" where
  "list_unmaterialized cur limit sys =
     (if \<not> is_safe_integer limit \<or> limit < 1
      then Inl (Range_Error ''Webhook event recovery limit must be positive.'')
      else
        let events = js_slice (sort_key ew_sequence
              (filter (\<lambda>ev. ew_materialized_at ev = None \<and> past_cursor cur (ew_sequence ev))
                (js_values (work_events (sys_work sys))))) 0 limit in
        Inr (events, if int (length events) = limit \<and> events \<noteq> []
                     then Some (ew_sequence (last events)) else None))"

end
