(* ===== verification/Event_Work.thy ===== *)
theory Event_Work
  imports Webhook_Work
begin

text \<open>
  The contract of the webhook work store: over all interleaved histories of the work store, the
  delivery log and the job store, admission and materialization of an event happen once and later calls
  only confirm them.
\<close>

subsection \<open>Histories\<close>

datatype system_op =
    Sop_Ensure int event_admission
  | Sop_Materialize string string "string list" timestamp
  | Sop_Delivery delivery_op
  | Sop_Job job_op

fun run_system_op :: "(string list \<Rightarrow> string) \<Rightarrow> system_op \<Rightarrow> webhook_system \<Rightarrow> webhook_system" where
  "run_system_op digest (Sop_Ensure wall inp) sys = fst (ensure_event digest wall inp sys)"
| "run_system_op digest (Sop_Materialize p e eps t) sys = fst (materialize_event digest p e eps t sys)"
| "run_system_op digest (Sop_Delivery op) sys =
     sys\<lparr>sys_deliveries := run_delivery_op op (sys_deliveries sys)\<rparr>"
| "run_system_op digest (Sop_Job op) sys = sys\<lparr>sys_jobs := run_op op (sys_jobs sys)\<rparr>"

fun run_system_ops :: "(string list \<Rightarrow> string) \<Rightarrow> system_op list \<Rightarrow> webhook_system \<Rightarrow> webhook_system" where
  "run_system_ops digest [] sys = sys"
| "run_system_ops digest (op # ops) sys = run_system_ops digest ops (run_system_op digest op sys)"

lemma run_ops_append: "run_ops (a @ b) st = run_ops b (run_ops a st)"
  by (simp add: run_ops_def)

lemma run_delivery_ops_append:
  "run_delivery_ops (a @ b) st = run_delivery_ops b (run_delivery_ops a st)"
  by (induction a arbitrary: st) simp_all

subsection \<open>What a history keeps\<close>

abbreviation event_of :: "webhook_system \<Rightarrow> event_key \<Rightarrow> event_work option" where
  "event_of sys \<equiv> map_of (work_events (sys_work sys))"

abbreviation ids_of :: "webhook_system \<Rightarrow> event_key \<Rightarrow> string list option" where
  "ids_of sys \<equiv> map_of (event_deliveries (sys_work sys))"

text \<open>An event keeps everything but the time of its materialization, which is written once.\<close>

definition event_progress :: "event_work \<Rightarrow> event_work \<Rightarrow> bool" where
  "event_progress ev ev' \<longleftrightarrow> ev'\<lparr>ew_materialized_at := None\<rparr> = ev\<lparr>ew_materialized_at := None\<rparr> \<and>
     (ew_materialized_at ev \<noteq> None \<longrightarrow> ev' = ev)"

definition event_kept :: "webhook_system \<Rightarrow> webhook_system \<Rightarrow> event_key \<Rightarrow> event_work \<Rightarrow> event_work \<Rightarrow> bool" where
  "event_kept sys sys' k ev ev' \<longleftrightarrow> event_of sys' k = Some ev' \<and> event_progress ev ev' \<and>
     (ew_materialized_at ev \<noteq> None \<longrightarrow> ids_of sys' k = ids_of sys k)"

definition system_extends :: "webhook_system \<Rightarrow> webhook_system \<Rightarrow> bool" where
  "system_extends sys sys' \<longleftrightarrow>
     (\<exists>ops. sys_jobs sys' = run_ops ops (sys_jobs sys)) \<and>
     (\<exists>ops. sys_deliveries sys' = run_delivery_ops ops (sys_deliveries sys)) \<and>
     (\<forall>k ev. event_of sys k = Some ev \<longrightarrow> (\<exists>ev'. event_kept sys sys' k ev ev'))"

lemma event_progress_refl [simp]: "event_progress ev ev"
  by (simp add: event_progress_def)

lemma event_progress_trans: "event_progress a b \<Longrightarrow> event_progress b c \<Longrightarrow> event_progress a c"
  by (auto simp: event_progress_def)

lemma event_progress_fields:
  assumes "event_progress ev ev'"
  shows "ew_sequence ev' = ew_sequence ev" "ew_project ev' = ew_project ev" "ew_event ev' = ew_event ev"
    "ew_event_type ev' = ew_event_type ev" "ew_source_kind ev' = ew_source_kind ev"
    "ew_source ev' = ew_source ev" "ew_endpoints ev' = ew_endpoints ev" "ew_created_at ev' = ew_created_at ev"
  using assms by (cases ev; cases ev'; simp add: event_progress_def)+

lemma event_kept_same:
  "event_of sys k = Some ev \<Longrightarrow> sys_work sys' = sys_work sys \<Longrightarrow> \<exists>ev'. event_kept sys sys' k ev ev'"
  by (auto simp: event_kept_def)

lemma event_kept_trans:
  "event_kept a b k ev ev1 \<Longrightarrow> event_kept b c k ev1 ev2 \<Longrightarrow> event_kept a c k ev ev2"
  unfolding event_kept_def using event_progress_trans[of ev ev1 ev2]
  by (auto simp: event_progress_def)

lemma system_extendsI:
  "sys_jobs sys' = run_ops jops (sys_jobs sys) \<Longrightarrow>
   sys_deliveries sys' = run_delivery_ops dops (sys_deliveries sys) \<Longrightarrow>
   (\<And>k ev. event_of sys k = Some ev \<Longrightarrow> \<exists>ev'. event_kept sys sys' k ev ev') \<Longrightarrow> system_extends sys sys'"
  unfolding system_extends_def by blast

lemma system_extends_refl [simp]: "system_extends sys sys"
  by (rule system_extendsI[of _ "[]" _ "[]"]) (auto intro: event_kept_same)

lemma system_extends_trans:
  assumes "system_extends a b" "system_extends b c"
  shows "system_extends a c"
proof -
  obtain j1 j2 d1 d2 where "sys_jobs b = run_ops j1 (sys_jobs a)" "sys_jobs c = run_ops j2 (sys_jobs b)"
    "sys_deliveries b = run_delivery_ops d1 (sys_deliveries a)"
    "sys_deliveries c = run_delivery_ops d2 (sys_deliveries b)"
    using assms unfolding system_extends_def by blast
  then have "sys_jobs c = run_ops (j1 @ j2) (sys_jobs a)"
    "sys_deliveries c = run_delivery_ops (d1 @ d2) (sys_deliveries a)"
    by (simp_all add: run_ops_append run_delivery_ops_append)
  then show ?thesis
  proof (rule system_extendsI)
    fix k ev
    assume "event_of a k = Some ev"
    then obtain ev1 where 1: "event_kept a b k ev ev1" using assms(1) unfolding system_extends_def by blast
    then have "event_of b k = Some ev1" by (simp add: event_kept_def)
    then obtain ev2 where "event_kept b c k ev1 ev2" using assms(2) unfolding system_extends_def by blast
    with 1 show "\<exists>ev'. event_kept a c k ev ev'" using event_kept_trans by blast
  qed
qed

subsection \<open>Each operation extends the system\<close>

lemma ensure_selection_job_run:
  "ensure_selection_job digest ev t wall js = Inr js' \<Longrightarrow> \<exists>ops. js' = run_ops ops js"
proof -
  assume "ensure_selection_job digest ev t wall js = Inr js'"
  then obtain env r where "ensure_job env wall js = Inr (js', r)"
    by (auto simp: ensure_selection_job_def bind_result_Inr_iff split: if_splits prod.splits)
  then have "js' = run_ops [Op_Ensure env wall] js" by simp
  then show ?thesis by blast
qed

lemma ensure_event_extends: "system_extends sys (fst (ensure_event digest wall inp sys))"
proof (cases "event_of sys (ea_project inp, ea_event inp)")
  case (Some existing)
  show ?thesis
  proof (cases "ensure_selection_job digest existing (ea_selection_run_after inp) wall (sys_jobs sys)")
    case (Inr js)
    then obtain ops where ops: "js = run_ops ops (sys_jobs sys)" using ensure_selection_job_run by blast
    have "system_extends sys (sys\<lparr>sys_jobs := js\<rparr>)"
      by (rule system_extendsI[of _ ops _ "[]"]) (auto simp: ops intro: event_kept_same)
    then show ?thesis using Some Inr by (simp add: ensure_event_def Let_def)
  qed (use Some in \<open>simp add: ensure_event_def Let_def\<close>)
next
  case None
  let ?k = "(ea_project inp, ea_event inp)" and ?ev = "new_event inp (work_sequence (sys_work sys) + 1)"
  have other: "event_of sys k = Some ev \<Longrightarrow> k \<noteq> ?k" for k ev using None by auto
  show ?thesis
  proof (cases "ensure_selection_job digest ?ev (ea_selection_run_after inp) wall (sys_jobs sys)")
    case (Inl err)
    have "system_extends sys (fst (ensure_event digest wall inp sys))"
    proof (rule system_extendsI[of _ "[]" _ "[]"])
      show "\<exists>ev'. event_kept sys (fst (ensure_event digest wall inp sys)) k ev ev'"
        if "event_of sys k = Some ev" for k ev
        using that other[OF that] None Inl
        by (auto simp: ensure_event_def Let_def event_kept_def intro!: exI[of _ ev])
    qed (use None Inl in \<open>simp_all add: ensure_event_def Let_def\<close>)
    then show ?thesis .
  next
    case (Inr js)
    then obtain ops where ops: "js = run_ops ops (sys_jobs sys)" using ensure_selection_job_run by blast
    show ?thesis
    proof (cases "admission_incomplete inp")
      case True
      then show ?thesis by (simp add: ensure_event_def Let_def)
    next
      case False
      show ?thesis
      proof (rule system_extendsI[of _ ops _ "[]"])
        show "\<exists>ev'. event_kept sys (fst (ensure_event digest wall inp sys)) k ev ev'"
          if "event_of sys k = Some ev" for k ev
          using that other[OF that] None Inr False
          by (auto simp: ensure_event_def Let_def event_kept_def intro!: exI[of _ ev])
      qed (use None Inr False in \<open>simp_all add: ensure_event_def Let_def ops\<close>)
    qed
  qed
qed

lemma materialize_each_run:
  "\<exists>ops. fst (materialize_each digest ev p e seen eps ds) = run_delivery_ops ops ds"
proof (induction eps arbitrary: seen ds)
  case Nil
  have "ds = run_delivery_ops [] ds" by simp
  then show ?case by (metis fst_conv materialize_each.simps(1))
next
  case (Cons ep eps)
  let ?inp = "\<lparr>cd_endpoint = ep, cd_event = e, cd_event_type = ew_event_type ev, cd_created_at = ew_created_at ev\<rparr>"
  let ?c = "create_deterministic p (deterministic_delivery_id digest p e ep) ?inp ds"
  have stay: "\<exists>ops. ds = run_delivery_ops ops ds" by (metis run_delivery_ops.simps(1))
  show ?case
  proof (cases "ep \<in> set seen \<or> isl ?c")
    case True
    then show ?thesis using stay by (cases ?c) auto
  next
    case False
    then obtain ds' row where c: "?c = Inr (ds', row)" by (cases ?c) auto
    obtain ops where ops: "fst (materialize_each digest ev p e (ep # seen) eps ds') = run_delivery_ops ops ds'"
      using Cons.IH by blast
    have "fst (materialize_each digest ev p e seen (ep # eps) ds) =
        fst (materialize_each digest ev p e (ep # seen) eps ds')"
      using False c by (auto split: prod.splits sum.splits)
    also have "\<dots> = run_delivery_ops
        (Dop_Deterministic p (deterministic_delivery_id digest p e ep) ?inp # ops) ds"
      using ops c by simp
    finally show ?thesis by blast
  qed
qed

lemma materialize_event_extends: "system_extends sys (fst (materialize_event digest p e eps t sys))"
proof (cases "event_of sys (p, e)")
  case None
  then show ?thesis by (simp add: materialize_event_def get_event_def)
next
  case (Some ev)
  show ?thesis
  proof (cases "ew_materialized_at ev")
    case (Some x)
    then show ?thesis using \<open>event_of sys (p, e) = Some ev\<close> by (simp add: materialize_event_def get_event_def)
  next
    case None
    let ?m = "materialize_each digest ev p e [] eps (sys_deliveries sys)"
    obtain ops where ops: "fst ?m = run_delivery_ops ops (sys_deliveries sys)"
      using materialize_each_run by blast
    show ?thesis
    proof (rule system_extendsI[of _ "[]" _ ops])
      show "sys_jobs (fst (materialize_event digest p e eps t sys)) = run_ops [] (sys_jobs sys)"
        using None Some by (simp add: materialize_event_def get_event_def Let_def split: prod.splits sum.splits)
      show "sys_deliveries (fst (materialize_event digest p e eps t sys)) =
          run_delivery_ops ops (sys_deliveries sys)"
        using None Some ops
        by (auto simp: materialize_event_def get_event_def Let_def split: prod.splits sum.splits)
      show "\<exists>ev'. event_kept sys (fst (materialize_event digest p e eps t sys)) k ev0 ev'"
        if "event_of sys k = Some ev0" for k ev0
      proof (cases "k = (p, e)")
        case True
        then have "ev0 = ev" using that Some by simp
        then show ?thesis
          using True None Some
          by (auto simp: materialize_event_def get_event_def Let_def event_kept_def event_progress_def
              split: prod.splits sum.splits)
      next
        case False
        then show ?thesis
          using that None Some
          by (intro exI[of _ ev0])
            (auto simp: materialize_event_def get_event_def Let_def event_kept_def
              split: prod.splits sum.splits)
      qed
    qed
  qed
qed

lemma run_system_op_extends: "system_extends sys (run_system_op digest op sys)"
proof (cases op)
  case (Sop_Ensure wall inp)
  then show ?thesis using ensure_event_extends by simp
next
  case (Sop_Materialize p e eps t)
  then show ?thesis using materialize_event_extends by simp
next
  case (Sop_Delivery dop)
  show ?thesis
    by (rule system_extendsI[of _ "[]" _ "[dop]"]) (auto simp: Sop_Delivery intro: event_kept_same)
next
  case (Sop_Job jop)
  show ?thesis
    by (rule system_extendsI[of _ "[jop]" _ "[]"]) (auto simp: Sop_Job intro: event_kept_same)
qed

lemma run_system_ops_extends: "system_extends sys (run_system_ops digest ops sys)"
  by (induction ops arbitrary: sys) (auto intro: system_extends_trans run_system_op_extends)

definition system_wf :: "webhook_system \<Rightarrow> bool" where
  "system_wf sys \<longleftrightarrow> job_store_wf (sys_jobs sys) \<and> delivery_store_wf (sys_deliveries sys)"

lemma empty_webhook_system_wf [simp]: "system_wf empty_webhook_system"
  by (simp add: system_wf_def empty_webhook_system_def)

lemma system_extends_wf: "system_extends sys sys' \<Longrightarrow> system_wf sys \<Longrightarrow> system_wf sys'"
  by (auto simp: system_extends_def system_wf_def run_ops_wf run_delivery_ops_wf)

lemma run_system_ops_wf: "system_wf sys \<Longrightarrow> system_wf (run_system_ops digest ops sys)"
  using system_extends_wf run_system_ops_extends by blast

subsection \<open>Admission\<close>

lemma create_selection_envelope:
  assumes "create_job_envelope digest job
      \<lparr>opt_run_after = Some t, opt_group_key = Some key, opt_group_order = Some n\<rparr> wall = Inr env" "valid_time t'"
  shows "\<exists>env'. create_job_envelope digest job
      \<lparr>opt_run_after = Some t', opt_group_key = Some key, opt_group_order = Some n\<rparr> wall' = Inr env' \<and>
    job_id env' = job_id env \<and> valid_time (run_after env') \<and>
    (\<forall>j :: stored_job. same_immutable_job j env' = same_immutable_job j env)"
  using assms
  by (auto simp: create_job_envelope_def Let_def same_immutable_job_def valid_time_iff
      split: option.splits if_splits)

lemma ensure_existing:
  assumes "map_of (jobs js) (job_id env) = Some j" "same_immutable_job j env" "valid_time (run_after env)"
  shows "ensure_job env wall js = Inr (js, Job_Existing j)"
  using assms by (auto simp: ensure_job_def check_timestamp_def valid_time_iff)

text \<open>Once the selection job of an event is there, ensuring it again changes nothing, for ever.\<close>

lemma ensure_selection_again:
  assumes "ensure_selection_job digest ev t wall js = Inr js1" "job_store_wf js" "valid_time t'"
    and "event_progress ev ev'"
  shows "ensure_selection_job digest ev' t' wall' (run_ops ops js1) = Inr (run_ops ops js1)"
proof -
  from assms(1) obtain env r where env:
    "create_job_envelope digest (Webhook_Select (ew_project ev) (ew_event ev))
      \<lparr>opt_run_after = Some t, opt_group_key = Some webhook_selection_group_key,
       opt_group_order = Some (ew_sequence ev)\<rparr> wall = Inr env"
    and r: "ensure_job env wall js = Inr (js1, r)" "r \<noteq> Ensure_Conflict"
    by (auto simp: ensure_selection_job_def bind_result_Inr_iff split: if_splits prod.splits)
  from r obtain j where j: "map_of (jobs js1) (job_id env) = Some j" "same_immutable_job j env"
    using ensure_result_row[of env wall js js1] by (cases r) auto
  have "job_store_wf js1" using row_steps_wf[OF ensure_path[OF r(1)] assms(2)] .
  from run_ops_preserved[OF this j(1), of ops] obtain j' where
    j': "map_of (jobs (run_ops ops js1)) (job_id env) = Some j'" "row_preserved j j'" by blast
  obtain env' where env': "create_job_envelope digest (Webhook_Select (ew_project ev) (ew_event ev))
      \<lparr>opt_run_after = Some t', opt_group_key = Some webhook_selection_group_key,
       opt_group_order = Some (ew_sequence ev)\<rparr> wall' = Inr env'"
    "job_id env' = job_id env" "valid_time (run_after env')" "same_immutable_job j' env' = same_immutable_job j' env"
    using create_selection_envelope[OF env assms(3)] by blast
  have "same_immutable_job j' env"
    using j(2) j'(2) by (simp add: same_immutable_job_def row_preserved_def)
  then have "ensure_job env' wall' (run_ops ops js1) = Inr (run_ops ops js1, Job_Existing j')"
    using j'(1) env' by (intro ensure_existing) simp_all
  then show ?thesis
    using env'(1) event_progress_fields[OF assms(4)] by (simp add: ensure_selection_job_def)
qed

lemma ensure_event_Inr:
  assumes "ensure_event digest wall inp sys = (sys1, Inr r)"
  obtains ev js where "event_of sys1 (ea_project inp, ea_event inp) = Some ev" "same_event ev inp"
    "ensure_selection_job digest ev (ea_selection_run_after inp) wall (sys_jobs sys) = Inr js"
    "sys_jobs sys1 = js" "\<not> admission_incomplete inp"
proof (cases "event_of sys (ea_project inp, ea_event inp)")
  case (Some existing)
  then show thesis
    using assms that[of existing "sys_jobs sys1"]
    by (auto simp: ensure_event_def Let_def split: if_splits sum.splits)
next
  case None
  then show thesis
    using assms that[of "new_event inp (work_sequence (sys_work sys) + 1)" "sys_jobs sys1"]
    by (auto simp: ensure_event_def Let_def same_event_def new_event_def split: if_splits sum.splits)
qed

text \<open>Admission of a webhook event is idempotent. Once an event was admitted, whatever the work
  store, the workers and the delivery log do afterwards, admitting the same event again (with any valid
  start time) succeeds as a replay and changes nothing in any of the three stores: there is one event,
  one sequence number and one selection job for it.\<close>

theorem event_admission_is_idempotent:
  assumes "ensure_event digest wall inp (run_system_ops digest ops0 empty_webhook_system) = (sys1, Inr r)"
    and "valid_time t"
  shows "ensure_event digest wall' (inp\<lparr>ea_selection_run_after := t\<rparr>) (run_system_ops digest ops sys1) =
    (run_system_ops digest ops sys1, Inr Event_Existing)"
proof -
  let ?sys0 = "run_system_ops digest ops0 empty_webhook_system" and ?sys2 = "run_system_ops digest ops sys1"
  have wf: "job_store_wf (sys_jobs ?sys0)" 
    using run_system_ops_wf[OF empty_webhook_system_wf, of digest ops0] by (simp add: system_wf_def)
  from assms(1) obtain ev js where ev: "event_of sys1 (ea_project inp, ea_event inp) = Some ev" "same_event ev inp"
    "ensure_selection_job digest ev (ea_selection_run_after inp) wall (sys_jobs ?sys0) = Inr js"
    "sys_jobs sys1 = js" "\<not> admission_incomplete inp"
    by (rule ensure_event_Inr)
  obtain jops ev' where ext: "sys_jobs ?sys2 = run_ops jops js"
    "event_of ?sys2 (ea_project inp, ea_event inp) = Some ev'" "event_progress ev ev'"
    using run_system_ops_extends[of sys1 digest ops] ev(1,4)
    unfolding system_extends_def event_kept_def by metis
  have "ensure_selection_job digest ev' t wall' (sys_jobs ?sys2) = Inr (sys_jobs ?sys2)"
    unfolding ext(1) by (rule ensure_selection_again[OF ev(3) wf assms(2) ext(3)])
  moreover have "same_event ev' (inp\<lparr>ea_selection_run_after := t\<rparr>)"
    using ev(2) event_progress_fields[OF ext(3)] by (simp add: same_event_def)
  moreover have "\<not> admission_incomplete (inp\<lparr>ea_selection_run_after := t\<rparr>)"
    using ev(5) assms(2) by (simp add: admission_incomplete_def)
  ultimately show ?thesis using ext(2) by (simp add: ensure_event_def Let_def)
qed

subsection \<open>Materialization\<close>

definition row_for :: "(string list \<Rightarrow> string) \<Rightarrow> string \<Rightarrow> string \<Rightarrow> string \<Rightarrow> sequenced_delivery \<Rightarrow> bool" where
  "row_for digest p e ep row \<longleftrightarrow> sd_project row = p \<and> wd_endpoint (sd_delivery row) = ep \<and>
     wd_event (sd_delivery row) = e \<and> wd_id (sd_delivery row) = deterministic_delivery_id digest p e ep"

definition stored_row :: "delivery_store \<Rightarrow> sequenced_delivery \<Rightarrow> sequenced_delivery \<Rightarrow> bool" where
  "stored_row ds row row' \<longleftrightarrow>
     get_sequenced (sd_project row) (wd_id (sd_delivery row)) ds = Some row' \<and>
     sd_project row' = sd_project row \<and> sd_sequence row' = sd_sequence row \<and>
     delivery_progress (sd_delivery row) (sd_delivery row')"

lemma create_stored:
  assumes "create_deterministic p i inp ds = Inr (ds', row)" "delivery_store_wf ds"
  shows "sd_project row = p" "wd_id (sd_delivery row) = i" "wd_endpoint (sd_delivery row) = cd_endpoint inp"
    "wd_event (sd_delivery row) = cd_event inp" "stored_row ds' row row" "delivery_store_wf ds'"
proof -
  from assms(1) have c: "create_delivery_row p i inp True ds = Inr (ds', row)"
    by (simp add: create_deterministic_def)
  have "sd_project row = p \<and> wd_id (sd_delivery row) = i \<and> wd_endpoint (sd_delivery row) = cd_endpoint inp \<and>
    wd_event (sd_delivery row) = cd_event inp \<and> stored_row ds' row row"
    using c
  proof (cases rule: create_row_cases)
    case (existing d n)
    then have "wd_id d = i" using delivery_store_wf_row[OF assms(2)] by (auto simp: delivery_row_wf_def)
    then show ?thesis
      using existing by (simp add: same_delivery_input_def stored_row_def get_sequenced_def delivery_progress_refl)
  next
    case created
    then show ?thesis
      by (simp add: stored_row_def get_sequenced_def delivery_progress_refl add_delivery_def new_delivery_def)
  qed
  then show "sd_project row = p" "wd_id (sd_delivery row) = i" "wd_endpoint (sd_delivery row) = cd_endpoint inp"
    "wd_event (sd_delivery row) = cd_event inp" "stored_row ds' row row" by blast+
  show "delivery_store_wf ds'"
    using run_delivery_op_wf[OF assms(2), of "Dop_Deterministic p i inp"] assms(1) by simp
qed

lemma stored_row_later:
  assumes "stored_row ds row row'" "delivery_store_wf ds"
  shows "\<exists>row''. stored_row (run_delivery_ops ops ds) row row''"
proof -
  let ?k = "(sd_project row, wd_id (sd_delivery row))"
  obtain d n where d: "map_of (deliveries ds) ?k = Some d" "map_of (delivery_sequences ds) ?k = Some n"
    "row' = \<lparr>sd_project = sd_project row, sd_sequence = n, sd_delivery = d\<rparr>"
    "sd_sequence row = n" "delivery_progress (sd_delivery row) d"
    using assms(1) by (auto simp: stored_row_def get_sequenced_def split: option.splits)
  obtain d' where "map_of (deliveries (run_delivery_ops ops ds)) ?k = Some d'" "delivery_progress d d'"
    "map_of (delivery_sequences (run_delivery_ops ops ds)) ?k = Some n"
    using run_delivery_ops_row[OF assms(2) d(1,2)] by blast
  then show ?thesis
    using d(4,5) delivery_progress_trans[of "sd_delivery row" d d'] by (simp add: stored_row_def get_sequenced_def)
qed

lemma materialize_each_Cons_Inr:
  assumes "materialize_each digest ev p e seen (ep # eps) ds = (ds', Inr rows)"
  obtains ds1 row rest where
    "create_deterministic p (deterministic_delivery_id digest p e ep) \<lparr>cd_endpoint = ep, cd_event = e,
       cd_event_type = ew_event_type ev, cd_created_at = ew_created_at ev\<rparr> ds = Inr (ds1, row)"
    "materialize_each digest ev p e (ep # seen) eps ds1 = (ds', Inr rest)" "rows = row # rest"
  using assms by (auto split: if_splits sum.splits prod.splits)

lemma materialize_each_rows:
  "materialize_each digest ev p e seen eps ds = (ds', Inr rows) \<Longrightarrow> delivery_store_wf ds \<Longrightarrow>
     list_all2 (row_for digest p e) eps rows \<and> delivery_store_wf ds' \<and>
     (\<forall>row \<in> set rows. \<exists>row'. stored_row ds' row row')"
proof (induction eps arbitrary: seen ds rows)
  case (Cons ep eps)
  from Cons.prems(1) obtain ds1 row rest where c: "create_deterministic p (deterministic_delivery_id digest p e ep)
      \<lparr>cd_endpoint = ep, cd_event = e, cd_event_type = ew_event_type ev, cd_created_at = ew_created_at ev\<rparr> ds =
      Inr (ds1, row)"
    and rest: "materialize_each digest ev p e (ep # seen) eps ds1 = (ds', Inr rest)" "rows = row # rest"
    by (rule materialize_each_Cons_Inr)
  note row = create_stored[OF c Cons.prems(2)]
  obtain ops where "ds' = run_delivery_ops ops ds1"
    using materialize_each_run[of digest ev p e "ep # seen" eps ds1] rest(1) by auto
  then have "\<exists>row'. stored_row ds' row row'" using stored_row_later[OF row(5,6)] by simp
  then show ?case using Cons.IH[OF rest(1) row(6)] row rest(2) by (simp add: row_for_def)
qed simp

lemma sequenced_list:
  assumes "list_all2 (row_for digest p e) eps rows" "\<forall>row \<in> set rows. \<exists>row'. stored_row ds row row'"
  shows "\<exists>rows'. List.map_filter (\<lambda>i. get_sequenced p i ds)
      (map (deterministic_delivery_id digest p e) eps) = rows' \<and> list_all2 (stored_row ds) rows rows'"
  using assms
proof (induction rule: list_all2_induct)
  case (Cons ep eps row rows)
  then obtain rows' row' where "List.map_filter (\<lambda>i. get_sequenced p i ds)
      (map (deterministic_delivery_id digest p e) eps) = rows'" "list_all2 (stored_row ds) rows rows'"
    "stored_row ds row row'" by auto
  moreover have "get_sequenced p (deterministic_delivery_id digest p e ep) ds = Some row'"
    using Cons.hyps(1) \<open>stored_row ds row row'\<close> by (auto simp: stored_row_def row_for_def)
  ultimately show ?case by (simp add: List.map_filter_simps)
qed (simp add: List.map_filter_simps)

lemma materialize_event_Inr:
  assumes "materialize_event digest p e eps t sys = (sys1, Inr rows)" "get_event p e sys = Some ev"
    "ew_materialized_at ev = None" "delivery_store_wf (sys_deliveries sys)"
  shows "list_all2 (row_for digest p e) eps rows" "delivery_store_wf (sys_deliveries sys1)"
    "\<forall>row \<in> set rows. \<exists>row'. stored_row (sys_deliveries sys1) row row'"
    "ids_of sys1 (p, e) = Some (map (deterministic_delivery_id digest p e) eps)"
    "\<exists>ev1. event_of sys1 (p, e) = Some ev1 \<and> ew_materialized_at ev1 \<noteq> None"
proof -
  obtain ds where m: "materialize_each digest ev p e [] eps (sys_deliveries sys) = (ds, Inr rows)"
    and sys1: "sys_deliveries sys1 = ds" "ids_of sys1 (p, e) = Some (map (deterministic_delivery_id digest p e) eps)"
      "\<exists>ev1. event_of sys1 (p, e) = Some ev1 \<and> ew_materialized_at ev1 \<noteq> None"
    using assms(1-3) by (auto simp: materialize_event_def Let_def split: prod.splits sum.splits)
  show "list_all2 (row_for digest p e) eps rows" "delivery_store_wf (sys_deliveries sys1)"
    "\<forall>row \<in> set rows. \<exists>row'. stored_row (sys_deliveries sys1) row row'"
    using materialize_each_rows[OF m assms(4)] sys1(1) by blast+
  show "ids_of sys1 (p, e) = Some (map (deterministic_delivery_id digest p e) eps)"
    "\<exists>ev1. event_of sys1 (p, e) = Some ev1 \<and> ew_materialized_at ev1 \<noteq> None"
    using sys1(2,3) by blast+
qed

text \<open>An event is materialized once. The first materialization makes one delivery per endpoint, in the
  order of the endpoints, each under its deterministic identifier; whatever happens in the three stores
  afterwards, materializing the event again, with any other list of endpoints, writes nothing and returns
  these very deliveries, under their sequence numbers and as far as they have got.\<close>

theorem event_is_materialized_once:
  assumes "get_event p e (run_system_ops digest ops0 empty_webhook_system) = Some ev"
    and "ew_materialized_at ev = None"
    and "materialize_event digest p e endpoints t (run_system_ops digest ops0 empty_webhook_system) = (sys1, Inr rows)"
  shows "list_all2 (row_for digest p e) endpoints rows \<and>
    (\<exists>rows'. materialize_event digest p e other t' (run_system_ops digest ops sys1) =
        (run_system_ops digest ops sys1, Inr rows') \<and>
      list_all2 (stored_row (sys_deliveries (run_system_ops digest ops sys1))) rows rows')"
proof -
  let ?sys2 = "run_system_ops digest ops sys1"
  have wf: "delivery_store_wf (sys_deliveries (run_system_ops digest ops0 empty_webhook_system))"
    using run_system_ops_wf[OF empty_webhook_system_wf, of digest ops0] by (simp add: system_wf_def)
  note first = materialize_event_Inr[OF assms(3,1,2) wf]
  obtain ev1 where ev1: "event_of sys1 (p, e) = Some ev1" "ew_materialized_at ev1 \<noteq> None" using first(5) by blast
  obtain dops ev2 where ext: "sys_deliveries ?sys2 = run_delivery_ops dops (sys_deliveries sys1)"
    "event_kept sys1 ?sys2 (p, e) ev1 ev2"
    using run_system_ops_extends[of sys1 digest ops] ev1(1) unfolding system_extends_def by blast
  then have ev2: "event_of ?sys2 (p, e) = Some ev1" "ids_of ?sys2 (p, e) = ids_of sys1 (p, e)"
    using ev1(2) by (auto simp: event_kept_def event_progress_def)
  have "\<forall>row \<in> set rows. \<exists>row'. stored_row (sys_deliveries ?sys2) row row'"
    unfolding ext(1) using first(2,3) stored_row_later by blast
  then obtain rows' where rows': "List.map_filter (\<lambda>i. get_sequenced p i (sys_deliveries ?sys2))
      (map (deterministic_delivery_id digest p e) endpoints) = rows'"
    "list_all2 (stored_row (sys_deliveries ?sys2)) rows rows'"
    using sequenced_list[OF first(1)] by blast
  moreover have "length rows' = length endpoints"
    using rows'(2) first(1) by (metis list_all2_lengthD)
  ultimately have "get_materialized p e ?sys2 = Inr rows'"
    using ev2(2) first(4) by (simp add: get_materialized_def)
  then show ?thesis
    using first(1) rows'(2) ev2(1) ev1(2) by (simp add: materialize_event_def get_event_def)
qed

subsection \<open>Concrete histories\<close>

definition demo_digest :: "string list \<Rightarrow> string" where
  "demo_digest parts = concat (map (\<lambda>s. s @ ''/'') parts)"

definition demo_admission :: event_admission where
  "demo_admission = \<lparr>ea_project = ''p'', ea_event = ''evt_1'', ea_event_type = ''execution.succeeded'',
     ea_source_kind = Source_Execution, ea_source = ''exec_1'', ea_endpoints = None, ea_created_at = Iso 5,
     ea_selection_run_after = Iso 6\<rparr>"

definition demo_system :: webhook_system where
  "demo_system = run_system_ops demo_digest [Sop_Ensure 0 demo_admission] empty_webhook_system"

lemma event_admission_is_idempotent_witness:
  "ensure_event demo_digest 9 (demo_admission\<lparr>ea_selection_run_after := Iso 8\<rparr>)
     (run_system_ops demo_digest [Sop_Materialize ''p'' ''evt_1'' [''whe_1''] (Iso 7)] demo_system) =
   (run_system_ops demo_digest [Sop_Materialize ''p'' ''evt_1'' [''whe_1''] (Iso 7)] demo_system,
    Inr Event_Existing)"
proof -
  have "ensure_event demo_digest 0 demo_admission (run_system_ops demo_digest [] empty_webhook_system) =
      (demo_system, Inr Event_Inserted)"
    by code_simp
  then show ?thesis by (rule event_admission_is_idempotent) simp
qed

lemma event_is_materialized_once_witness:
  "\<exists>sys1 rows rows'. materialize_event demo_digest ''p'' ''evt_1'' [''whe_1'', ''whe_2''] (Iso 7) demo_system =
      (sys1, Inr rows) \<and> length rows = 2 \<and>
    materialize_event demo_digest ''p'' ''evt_1'' [] (Iso 9)
      (run_system_ops demo_digest [Sop_Delivery (Dop_Fail ''p'' ''whd_p/evt_1/whe_1/'' (Iso 8))] sys1) =
      (run_system_ops demo_digest [Sop_Delivery (Dop_Fail ''p'' ''whd_p/evt_1/whe_1/'' (Iso 8))] sys1, Inr rows')"
proof -
  let ?m = "materialize_event demo_digest ''p'' ''evt_1'' [''whe_1'', ''whe_2''] (Iso 7) demo_system"
  have sys: "run_system_ops demo_digest [Sop_Ensure 0 demo_admission] empty_webhook_system = demo_system"
    by (simp add: demo_system_def)
  have ev: "get_event ''p'' ''evt_1'' demo_system = Some (new_event demo_admission 1)"
    "ew_materialized_at (new_event demo_admission 1) = None" "\<not> isl (snd ?m)"
    by code_simp+
  then obtain sys1 rows where m: "?m = (sys1, Inr rows)" by (cases ?m; cases "snd ?m") auto
  note once = event_is_materialized_once[of "''p''" "''evt_1''" demo_digest "[Sop_Ensure 0 demo_admission]",
      unfolded sys, OF ev(1,2) m]
  have "length rows = 2" using once[THEN conjunct1] by (auto dest: list_all2_lengthD)
  then show ?thesis using m once by blast
qed

end
