(* ===== verification/Recovery_Sweep.thy ===== *)
theory Recovery_Sweep
  imports Executions Event_Work
begin

text \<open>
  The recovery sweep (\<open>apps/executor/src/jobs/recovery.ts\<close>): it reconciles the execution store, the
  webhook events and the delivery log with the job queue. The callback that reconciles a cancelled
  execution belongs to the engine and is the parameter \<open>ri_reconcile\<close>; it may write to every store, and to
  whatever else it closes over, \<open>rc_other\<close>. One
  reading of the wall clock, \<open>ri_wall\<close>, stamps the job rows that a sweep writes.
\<close>

record 'w recovery_state =
  rc_executions :: execution_store
  rc_system :: webhook_system
  rc_other :: 'w

type_synonym 'w reconciler = "string \<Rightarrow> execution_record \<Rightarrow> 'w recovery_state \<Rightarrow> 'w recovery_state \<times> unit result"

record 'w recovery_input =
  ri_digest :: "string list \<Rightarrow> string"
  ri_wall :: int
  ri_now :: "int option"
  ri_batch_size :: "int option"
  ri_reconcile :: "'w reconciler option"

definition recovery_batch_size :: int where
  "recovery_batch_size = 100"

definition rc_jobs :: "'w recovery_state \<Rightarrow> job_store" where
  "rc_jobs st = sys_jobs (rc_system st)"

definition put_jobs :: "job_store \<Rightarrow> 'w recovery_state \<Rightarrow> 'w recovery_state" where
  "put_jobs js st = st\<lparr>rc_system := (rc_system st)\<lparr>sys_jobs := js\<rparr>\<rparr>"

definition job_identity_conflict :: js_error where
  "job_identity_conflict = Plain_Error ''Recovery found a conflicting deterministic job identity.''"

definition reopen_settled ::
    "job_envelope \<Rightarrow> executor_job \<Rightarrow> int \<Rightarrow> stored_job \<Rightarrow> job_store \<Rightarrow> job_store \<times> unit result" where
  "reopen_settled env job wall row js =
     (if job_state row = Job_Succeeded \<or> job_state row = Job_Failed
      then (case reopen_for_recovery (job_id env) job (run_after env) wall js of
              Inl err \<Rightarrow> (js, Inl err) | Inr (js', _) \<Rightarrow> (js', Inr ()))
      else (js, Inr ()))"

definition ensure_recovery_job ::
    "(string list \<Rightarrow> string) \<Rightarrow> executor_job \<Rightarrow> submit_job_options \<Rightarrow> int \<Rightarrow> job_store \<Rightarrow>
     job_store \<times> unit result" where
  "ensure_recovery_job digest job options wall js =
     (case create_job_envelope digest job options wall of
        Inl err \<Rightarrow> (js, Inl err)
      | Inr env \<Rightarrow>
          (case ensure_job env wall js of
             Inl err \<Rightarrow> (js, Inl err)
           | Inr (js', Ensure_Conflict) \<Rightarrow> (js', Inl job_identity_conflict)
           | Inr (js', Job_Inserted row) \<Rightarrow> reopen_settled env job wall row js'
           | Inr (js', Job_Existing row) \<Rightarrow> reopen_settled env job wall row js'))"

definition on_jobs :: "(job_store \<Rightarrow> job_store \<times> unit result) \<Rightarrow> 'w recovery_state \<Rightarrow> 'w recovery_state \<times> unit result" where
  "on_jobs f st = (case f (rc_jobs st) of (js, r) \<Rightarrow> (put_jobs js st, r))"

definition run_at :: "timestamp \<Rightarrow> submit_job_options" where
  "run_at t = \<lparr>opt_run_after = Some t, opt_group_key = None, opt_group_order = None\<rparr>"

definition cancel_execution_job ::
    "'w recovery_input \<Rightarrow> int \<Rightarrow> executor_job \<Rightarrow> job_store \<Rightarrow> job_store \<times> unit result" where
  "cancel_execution_job inp now job js =
     (case create_job_envelope (ri_digest inp) job (run_at (Iso now)) now of
        Inl err \<Rightarrow> (js, Inl err)
      | Inr env \<Rightarrow>
          (case cancel_pending (job_id env) job (Iso now) js of
             Inl err \<Rightarrow> (js, Inl err)
           | Inr (js', res) \<Rightarrow> (js', if res = Cancel_Conflict then Inl job_identity_conflict else Inr ())))"

definition recover_execution ::
    "'w recovery_input \<Rightarrow> int \<Rightarrow> recoverable_execution \<Rightarrow> 'w recovery_state \<Rightarrow> 'w recovery_state \<times> unit result" where
  "recover_execution inp now c st =
     (let job = Execution_Run (rv_project c) (ex_id (rv_record c)) in
      if ex_status (rv_record c) = St_Cancelled
      then (case ri_reconcile inp of
              None \<Rightarrow> (st, Inl (Plain_Error
                ''Cancelled execution recovery requires a terminal reconciliation target.''))
            | Some reconcile \<Rightarrow>
                (case reconcile (rv_project c) (rv_record c) st of
                   (st', Inl err) \<Rightarrow> (st', Inl err)
                 | (st', Inr _) \<Rightarrow> on_jobs (cancel_execution_job inp now job) st'))
      else on_jobs (ensure_recovery_job (ri_digest inp) job (run_at (Iso now)) (ri_wall inp)) st)"

definition recover_event ::
    "'w recovery_input \<Rightarrow> int \<Rightarrow> event_work \<Rightarrow> 'w recovery_state \<Rightarrow> 'w recovery_state \<times> unit result" where
  "recover_event inp now ev =
     on_jobs (ensure_recovery_job (ri_digest inp) (Webhook_Select (ew_project ev) (ew_event ev))
       \<lparr>opt_run_after = Some (Iso now), opt_group_key = Some webhook_selection_group_key,
        opt_group_order = Some (ew_sequence ev)\<rparr> (ri_wall inp))"

definition delivery_run_after :: "int \<Rightarrow> webhook_delivery \<Rightarrow> timestamp" where
  "delivery_run_after now d =
     (case wd_next_retry_at d of
        None \<Rightarrow> Iso now
      | Some t \<Rightarrow> if num_less (Some now) (date_parse t) then t else Iso now)"

definition recover_delivery ::
    "'w recovery_input \<Rightarrow> int \<Rightarrow> sequenced_delivery \<Rightarrow> 'w recovery_state \<Rightarrow> 'w recovery_state \<times> unit result" where
  "recover_delivery inp now c =
     on_jobs (ensure_recovery_job (ri_digest inp) (Webhook_Deliver (sd_project c) (wd_id (sd_delivery c)))
       \<lparr>opt_run_after = Some (delivery_run_after now (sd_delivery c)),
        opt_group_key = Some (webhook_endpoint_group_key (ri_digest inp) (sd_project c)
          (wd_endpoint (sd_delivery c))),
        opt_group_order = Some (sd_sequence c)\<rparr> (ri_wall inp))"

definition and_then ::
    "('s \<times> unit result) option \<Rightarrow> ('s \<Rightarrow> ('s \<times> unit result) option) \<Rightarrow> ('s \<times> unit result) option" where
  "and_then r f = (case r of None \<Rightarrow> None
     | Some (st, Inl err) \<Rightarrow> Some (st, Inl err) | Some (st, Inr _) \<Rightarrow> f st)"

definition recover_executor_jobs ::
    "'w recovery_input \<Rightarrow> nat \<Rightarrow> 'w recovery_state \<Rightarrow> ('w recovery_state \<times> unit result) option" where
  "recover_executor_jobs inp fuel st =
     (let batch = (case ri_batch_size inp of None \<Rightarrow> recovery_batch_size | Some n \<Rightarrow> n) in
      if \<not> is_safe_integer batch \<or> batch < 1
      then Some (st, Inl (Range_Error ''Recovery batch size must be a positive safe integer.''))
      else case ri_now inp of
        None \<Rightarrow> Some (st, Inl (Plain_Error ''Recovery clock returned an invalid date.''))
      | Some now \<Rightarrow>
          (case expire_leases [Execution_Queue, Webhook_Selection_Queue, Webhook_Delivery_Queue]
                  (Iso now) batch (rc_jobs st) of
             Inl err \<Rightarrow> Some (st, Inl err)
           | Inr (js, _) \<Rightarrow>
               and_then (sweep (\<lambda>s c. list_recovery_candidates c batch (rc_executions s))
                   (recover_execution inp now) fuel None (put_jobs js st)) (\<lambda>st1.
               and_then (sweep (\<lambda>s c. list_unmaterialized c batch (rc_system s))
                   (recover_event inp now) fuel None st1) (\<lambda>st2.
               sweep (\<lambda>s c. list_unfinished c batch (sys_deliveries (rc_system s)))
                   (recover_delivery inp now) fuel None st2))))"

end
