(* ===== verification/Recovery.thy ===== *)
theory Recovery
  imports Recovery_Sweep
begin

text \<open>
  The contract of the recovery sweep: it ends, and afterwards every unfinished execution, unmaterialized
  event and unfinished delivery has its job. The three listings are instances of the one recovery
  listing.
\<close>

subsection \<open>The events\<close>

definition event_row_wf :: "event_key \<Rightarrow> event_work \<Rightarrow> bool" where
  "event_row_wf k ev \<longleftrightarrow> ew_project ev = fst k \<and> ew_event ev = snd k"

definition work_store_wf :: "work_store \<Rightarrow> bool" where
  "work_store_wf w \<longleftrightarrow> distinct_keys (work_events w) \<and> numbered ew_sequence (work_sequence w) (work_events w) \<and>
     all_entries event_row_wf (work_events w)"

lemma js_delete_set_new: "map_of m k = None \<Longrightarrow> js_delete k (js_set k v m) = m"
  by (induction m) (auto split: if_splits)

lemma ensure_event_work_wf:
  assumes "work_store_wf (sys_work sys)"
  shows "work_store_wf (sys_work (fst (ensure_event digest wall inp sys)))"
proof (cases "event_of sys (ea_project inp, ea_event inp)")
  case (Some existing)
  then show ?thesis using assms by (auto simp: ensure_event_def Let_def split: sum.splits)
next
  case None
  let ?w = "sys_work sys" and ?k = "(ea_project inp, ea_event inp)"
  let ?ev = "new_event inp (work_sequence ?w + 1)"
  have n: "numbered ew_sequence (work_sequence ?w) (work_events ?w)" using assms by (simp add: work_store_wf_def)
  have "numbered ew_sequence (work_sequence ?w + 1) (js_set ?k ?ev (work_events ?w))"
    by (rule numbered_set_new[OF n None]) (simp add: new_event_def)
  moreover have "event_row_wf ?k ?ev" by (simp add: event_row_wf_def new_event_def)
  moreover have "numbered ew_sequence (work_sequence ?w + 1) (work_events ?w)"
    by (rule numbered_mono[OF n]) simp
  ultimately show ?thesis
    using assms None
    by (auto simp: ensure_event_def Let_def work_store_wf_def js_delete_set_new split: sum.splits)
qed

lemma materialize_event_work_wf:
  assumes "work_store_wf (sys_work sys)"
  shows "work_store_wf (sys_work (fst (materialize_event digest p e eps t sys)))"
proof (cases "event_of sys (p, e)")
  case (Some ev)
  then have row: "event_row_wf (p, e) ev" using assms by (auto simp: work_store_wf_def dest: all_entriesD)
  have "numbered ew_sequence (work_sequence (sys_work sys))
      (js_set (p, e) (ev\<lparr>ew_materialized_at := m\<rparr>) (work_events (sys_work sys)))" for m
    using assms Some by (intro numbered_set_old[of _ _ _ _ ev]) (simp_all add: work_store_wf_def)
  moreover have "event_row_wf (p, e) (ev\<lparr>ew_materialized_at := m\<rparr>)" for m
    using row by (simp add: event_row_wf_def)
  ultimately show ?thesis
    using assms Some
    by (auto simp: materialize_event_def get_event_def Let_def work_store_wf_def split: sum.splits prod.splits)
qed (use assms in \<open>simp add: materialize_event_def get_event_def\<close>)

lemma run_system_op_work_wf: "work_store_wf (sys_work sys) \<Longrightarrow> work_store_wf (sys_work (run_system_op digest op sys))"
  by (cases op) (simp_all add: ensure_event_work_wf materialize_event_work_wf)

lemma run_system_ops_work_wf: "work_store_wf (sys_work sys) \<Longrightarrow> work_store_wf (sys_work (run_system_ops digest ops sys))"
  by (induction ops arbitrary: sys) (simp_all add: run_system_op_work_wf)

subsection \<open>The three listings\<close>

definition recovery_wf :: "'w recovery_state \<Rightarrow> bool" where
  "recovery_wf st \<longleftrightarrow> exec_rows_wf (rc_executions st) \<and> work_store_wf (sys_work (rc_system st)) \<and>
     delivery_store_wf (sys_deliveries (rc_system st)) \<and> job_store_wf (rc_jobs st)"

definition unfinished_deliveries :: "'w recovery_state \<Rightarrow> sequenced_delivery list" where
  "unfinished_deliveries st = filter delivery_unfinished (sequenced_rows (sys_deliveries (rc_system st)))"

definition unmaterialized_events :: "'w recovery_state \<Rightarrow> event_work list" where
  "unmaterialized_events st =
     filter (\<lambda>ev. ew_materialized_at ev = None) (js_values (work_events (sys_work (rc_system st))))"

definition recovery_executions :: "'w recovery_state \<Rightarrow> recoverable_execution list" where
  "recovery_executions st = map (\<lambda>(p, row). recoverable p row)
     (filter (\<lambda>(p, row). needs_recovery row) (all_stored (rc_executions st)))"

lemma delivery_sequence_inj:
  assumes "delivery_store_wf ds" "map_of (delivery_sequences ds) k = Some n" "map_of (delivery_sequences ds) k' = Some n"
  shows "k = k'"
  using assms numbered_inj[of id "delivery_sequence ds" "delivery_sequences ds" k n k' n]
  by (simp add: delivery_store_wf_def)

lemma delivery_has_sequence:
  assumes "delivery_store_wf ds" "k \<in> set (map fst (deliveries ds))"
  shows "\<exists>n. map_of (delivery_sequences ds) k = Some n"
proof -
  have "map_of (deliveries ds) k \<noteq> None" using assms(2) by (simp add: map_of_eq_None_iff)
  then show ?thesis
    using delivery_sequence_exists[OF assms(1), of k] by (cases "map_of (delivery_sequences ds) k") simp_all
qed

lemma concat_map_single: "(\<And>e. e \<in> set xs \<Longrightarrow> f e = [g e]) \<Longrightarrow> concat (map f xs) = map g xs"
  by (induction xs) auto

lemma sequenced_rows_map:
  assumes "delivery_store_wf ds"
  shows "sequenced_rows ds = map (\<lambda>(k, d). \<lparr>sd_project = fst k, sd_sequence = the (map_of (delivery_sequences ds) k),
     sd_delivery = d\<rparr>) (deliveries ds)"
  unfolding sequenced_rows_def
proof (rule concat_map_single)
  fix e
  assume "e \<in> set (deliveries ds)"
  then have "fst e \<in> set (map fst (deliveries ds))" by simp
  then obtain n where "map_of (delivery_sequences ds) (fst e) = Some n"
    using delivery_has_sequence[OF assms] by blast
  then show "(case e of (k, d) \<Rightarrow> case map_of (delivery_sequences ds) k of None \<Rightarrow> []
      | Some n \<Rightarrow> [\<lparr>sd_project = fst k, sd_sequence = n, sd_delivery = d\<rparr>]) =
    [case e of (k, d) \<Rightarrow> \<lparr>sd_project = fst k, sd_sequence = the (map_of (delivery_sequences ds) k), sd_delivery = d\<rparr>]"
    by (cases e) simp
qed

lemma delivery_numbers_distinct:
  assumes "delivery_store_wf ds"
  shows "distinct (map sd_sequence (sequenced_rows ds))"
proof -
  let ?num = "\<lambda>k. the (map_of (delivery_sequences ds) k)"
  have "inj_on ?num (set (map fst (deliveries ds)))"
  proof (rule inj_onI)
    fix k k'
    assume k: "k \<in> set (map fst (deliveries ds))" "k' \<in> set (map fst (deliveries ds))" "?num k = ?num k'"
    obtain n n' where "map_of (delivery_sequences ds) k = Some n" "map_of (delivery_sequences ds) k' = Some n'"
      using delivery_has_sequence[OF assms] k(1,2) by blast
    then show "k = k'" using delivery_sequence_inj[OF assms] k(3) by simp
  qed
  moreover have "distinct (map fst (deliveries ds))" using assms by (simp add: delivery_store_wf_def)
  ultimately have "distinct (map ?num (map fst (deliveries ds)))" unfolding distinct_map by blast
  then show ?thesis by (simp add: sequenced_rows_map[OF assms] o_def case_prod_beta')
qed

lemma distinct_map_filter: "distinct (map f xs) \<Longrightarrow> distinct (map f (filter P xs))"
  by (simp add: distinct_map inj_on_def)

lemma filter_and_past: "filter (\<lambda>r. past_cursor cur (f r) \<and> P r) xs = filter (\<lambda>r. past_cursor cur (f r)) (filter P xs)"
  "filter (\<lambda>r. P r \<and> past_cursor cur (f r)) xs = filter (\<lambda>r. past_cursor cur (f r)) (filter P xs)"
  unfolding filter_filter by (rule filter_cong; blast)+

interpretation delivery_recovery: recovery_listing recovery_wf unfinished_deliveries sd_sequence
  "\<lambda>st cur n. list_unfinished cur n (sys_deliveries (rc_system st))"
proof
  show "distinct (map sd_sequence (unfinished_deliveries st))" if "recovery_wf st" for st
    using delivery_numbers_distinct that
    by (simp add: recovery_wf_def unfinished_deliveries_def distinct_map_filter)
  show "list_unfinished cur n (sys_deliveries (rc_system st)) = Inr (seq_page sd_sequence (unfinished_deliveries st) cur n)"
    if "recovery_wf st" "is_safe_integer n" "1 \<le> n" for st cur n
    using that(2,3) unfolding list_unfinished_def seq_page_def unfinished_deliveries_def filter_and_past Let_def
    by (simp del: filter_filter)
qed

interpretation event_recovery: recovery_listing recovery_wf unmaterialized_events ew_sequence
  "\<lambda>st cur n. list_unmaterialized cur n (rc_system st)"
proof
  show "distinct (map ew_sequence (unmaterialized_events st))" if "recovery_wf st" for st
  proof -
    have "distinct (map (\<lambda>e. ew_sequence (snd e)) (work_events (sys_work (rc_system st))))"
      using that by (auto simp: recovery_wf_def work_store_wf_def numbered_def strict_sorted_iff)
    then have "distinct (map ew_sequence (js_values (work_events (sys_work (rc_system st)))))"
      by (simp add: o_def)
    then show ?thesis unfolding unmaterialized_events_def by (rule distinct_map_filter)
  qed
  show "list_unmaterialized cur n (rc_system st) = Inr (seq_page ew_sequence (unmaterialized_events st) cur n)"
    if "recovery_wf st" "is_safe_integer n" "1 \<le> n" for st cur n
    using that(2,3) unfolding list_unmaterialized_def seq_page_def unmaterialized_events_def filter_and_past Let_def
    by (simp del: filter_filter)
qed

text \<open>The rows of all projects are the executions that can be found, each once, with distinct numbers.\<close>

lemma in_all_stored:
  assumes "exec_rows_wf es" "(p, row) \<in> set (all_stored es)"
  shows "find_execution es p (ex_id (se_record row)) = Some row"
proof -
  obtain m where m: "(p, m) \<in> set (executions es)" "row \<in> set (js_values m)"
    using assms(2) by (auto simp: all_stored_def)
  then have pm: "map_of (executions es) p = Some m" using assms(1) by (simp add: exec_rows_wf_def)
  then have "project_wf (exec_sequence es) p m" by (rule exec_rows_wf_project[OF assms(1)])
  then obtain e where "map_of m e = Some row" "exec_row_wf e row"
    using m(2) js_values_iff[of m row] by (auto simp: project_wf_def dest: all_entriesD)
  then show ?thesis using pm by (simp add: find_execution_Some exec_row_wf_def)
qed

lemma find_in_all_stored: "find_execution es p e = Some row \<Longrightarrow> (p, row) \<in> set (all_stored es)"
  by (force simp: find_execution_Some all_stored_def dest!: map_of_SomeD)

lemma recovery_executions_iff:
  assumes "exec_rows_wf (rc_executions st)"
  shows "c \<in> set (recovery_executions st) \<longleftrightarrow>
    (\<exists>row. find_execution (rc_executions st) (rv_project c) (ex_id (rv_record c)) = Some row \<and> needs_recovery row \<and>
       c = recoverable (rv_project c) row)"
proof
  assume "c \<in> set (recovery_executions st)"
  then obtain p row where "(p, row) \<in> set (all_stored (rc_executions st))" "needs_recovery row" "c = recoverable p row"
    by (auto simp: recovery_executions_def)
  then show "\<exists>row. find_execution (rc_executions st) (rv_project c) (ex_id (rv_record c)) = Some row \<and> needs_recovery row \<and>
      c = recoverable (rv_project c) row"
    using in_all_stored[OF assms, of p row] by (auto simp: recoverable_def projected_def project_execution_record_def)
next
  assume "\<exists>row. find_execution (rc_executions st) (rv_project c) (ex_id (rv_record c)) = Some row \<and> needs_recovery row \<and>
      c = recoverable (rv_project c) row"
  then show "c \<in> set (recovery_executions st)"
    using find_in_all_stored[of "rc_executions st"] unfolding recovery_executions_def by (fastforce simp: image_iff)
qed

lemma all_stored_distinct:
  assumes "exec_rows_wf es"
  shows "distinct (all_stored es)"
proof -
  have "distinct (concat (map (\<lambda>(p, m). map (Pair p) (js_values m)) xs))"
    if "distinct_keys xs" "\<And>p m. (p, m) \<in> set xs \<Longrightarrow> distinct (js_values m)"
    for xs :: "(string \<times> (string \<times> stored_execution) list) list"
    using that
  proof (induction xs)
    case (Cons x xs)
    obtain p m where x: "x = (p, m)" by (cases x)
    have "distinct (map (Pair p) (js_values m))"
      using Cons.prems(2)[of p m] x by (simp add: distinct_map inj_on_def)
    moreover have "p \<notin> fst ` set xs" using Cons.prems(1) x by simp
    then have "set (map (Pair p) (js_values m)) \<inter> set (concat (map (\<lambda>(p, m). map (Pair p) (js_values m)) xs)) = {}"
      by force
    moreover have "distinct (concat (map (\<lambda>(p, m). map (Pair p) (js_values m)) xs))"
      using Cons by auto
    ultimately show ?case by (simp add: x)
  qed simp
  moreover have "distinct (js_values m)" if "(p, m) \<in> set (executions es)" for p m
  proof -
    have "map_of (executions es) p = Some m" using that assms by (simp add: exec_rows_wf_def)
    then have "numbered se_sequence (exec_sequence es) m"
      using exec_rows_wf_project[OF assms] by (simp add: project_wf_def)
    then have "distinct (map (\<lambda>e. se_sequence (snd e)) m)" by (simp add: numbered_def strict_sorted_iff)
    then have "distinct (map se_sequence (js_values m))" by (simp add: o_def)
    then show ?thesis by (simp only: distinct_map)
  qed
  ultimately show ?thesis using assms by (simp add: all_stored_def exec_rows_wf_def)
qed

lemma stored_numbers_distinct:
  assumes "exec_rows_wf es"
  shows "distinct (map (\<lambda>(p, row). se_sequence row) (all_stored es))"
  unfolding distinct_map
proof (intro conjI all_stored_distinct assms inj_onI)
  fix x y
  assume xy: "x \<in> set (all_stored es)" "y \<in> set (all_stored es)"
    "(case x of (p, row) \<Rightarrow> se_sequence row) = (case y of (p, row) \<Rightarrow> se_sequence row)"
  obtain p row where x: "x = (p, row)" by (cases x)
  obtain p' row' where y: "y = (p', row')" by (cases y)
  have f: "find_execution es p (ex_id (se_record row)) = Some row"
    "find_execution es p' (ex_id (se_record row')) = Some row'"
    using in_all_stored[OF assms xy(1)[unfolded x]] in_all_stored[OF assms xy(2)[unfolded y]] .
  have "se_sequence row = se_sequence row'" using xy(3) unfolding x y by (simp only: prod.case)
  then have "p = p'" "ex_id (se_record row) = ex_id (se_record row')"
    using exec_rows_wf_inj[OF assms f] by blast+
  then have "Some row = Some row'" using f by metis
  then show "x = y" unfolding x y using \<open>p = p'\<close> by (simp only: option.inject)
qed

lemma map_filter_map: "(\<And>x. x \<in> set xs \<Longrightarrow> f x = Some (g x)) \<Longrightarrow> List.map_filter f xs = map g xs"
  by (induction xs) (simp_all add: List.map_filter_simps)

lemma sort_key_map: "sort_key num (map f xs) = map f (sort_key (\<lambda>x. num (f x)) xs)"
proof -
  have "map f (insort_key (\<lambda>x. num (f x)) x xs) = insort_key num (f x) (map f xs)" for x xs
    by (induction xs) auto
  then show ?thesis by (induction xs) (simp_all add: sort_key_simps)
qed

lemma js_slice_map: "js_slice (map f xs) a b = map f (js_slice xs a b)"
  by (simp add: js_slice_def take_map drop_map Let_def)

lemma list_recovery_candidates_page:
  assumes "exec_rows_wf (rc_executions st)" "is_safe_integer n" "1 \<le> n"
  shows "list_recovery_candidates cur n (rc_executions st) = Inr (seq_page rv_sequence (recovery_executions st) cur n)"
proof -
  let ?es = "rc_executions st"
  let ?rows = "sort_key (\<lambda>(p, row). se_sequence row) (filter (\<lambda>(p, row). past_cursor cur (se_sequence row) \<and>
      needs_recovery row) (all_stored ?es))"
  let ?g = "\<lambda>(p, row). recoverable p row"
  have found: "List.map_filter (\<lambda>(p, row). get_recoverable p (ex_id (se_record row)) ?es) (js_slice ?rows 0 n) =
      map ?g (js_slice ?rows 0 n)"
  proof (rule map_filter_map)
    fix x
    assume "x \<in> set (js_slice ?rows 0 n)"
    then have "x \<in> set ?rows" using js_slice_subset[of ?rows 0 n] by blast
    then have mem: "x \<in> set (all_stored ?es)" by simp
    obtain p row where x: "x = (p, row)" by (cases x)
    then have "find_execution ?es p (ex_id (se_record row)) = Some row"
      using in_all_stored[OF assms(1)] mem by blast
    then show "(case x of (p, row) \<Rightarrow> get_recoverable p (ex_id (se_record row)) ?es) = Some (?g x)"
      by (simp add: x get_recoverable_def)
  qed
  have num: "rv_sequence (?g x) = (case x of (p, row) \<Rightarrow> se_sequence row)" for x
    by (cases x) (simp add: recoverable_def)
  have "filter (\<lambda>r. past_cursor cur (rv_sequence r)) (recovery_executions st) =
      map ?g (filter (\<lambda>x. past_cursor cur (case x of (p, row) \<Rightarrow> se_sequence row))
        (filter (\<lambda>(p, row). needs_recovery row) (all_stored ?es)))"
    unfolding recovery_executions_def filter_map o_def num ..
  also have "\<dots> = map ?g (filter (\<lambda>(p, row). past_cursor cur (se_sequence row) \<and> needs_recovery row) (all_stored ?es))"
    unfolding filter_filter by (rule arg_cong[where f = "map ?g"], rule filter_cong) auto
  finally have page: "js_slice (sort_key rv_sequence (filter (\<lambda>r. past_cursor cur (rv_sequence r))
      (recovery_executions st))) 0 n = map ?g (js_slice ?rows 0 n)"
    by (simp add: sort_key_map num js_slice_map)
  show ?thesis
    using assms(2,3) unfolding list_recovery_candidates_def seq_page_def page found Let_def by simp
qed

interpretation execution_recovery: recovery_listing recovery_wf recovery_executions rv_sequence
  "\<lambda>st cur n. list_recovery_candidates cur n (rc_executions st)"
proof
  show "distinct (map rv_sequence (recovery_executions st))" if "recovery_wf st" for st
  proof -
    have "distinct (map (\<lambda>(p, row). se_sequence row) (filter (\<lambda>(p, row). needs_recovery row) (all_stored (rc_executions st))))"
      using that stored_numbers_distinct by (simp add: recovery_wf_def distinct_map_filter)
    moreover have "map rv_sequence (recovery_executions st) =
        map (\<lambda>(p, row). se_sequence row) (filter (\<lambda>(p, row). needs_recovery row) (all_stored (rc_executions st)))"
      by (auto simp: recovery_executions_def recoverable_def)
    ultimately show ?thesis by simp
  qed
  show "list_recovery_candidates cur n (rc_executions st) = Inr (seq_page rv_sequence (recovery_executions st) cur n)"
    if "recovery_wf st" "is_safe_integer n" "1 \<le> n" for st cur n
    by (rule list_recovery_candidates_page) (use that in \<open>simp_all add: recovery_wf_def\<close>)
qed

end
