(* ===== verification/Recovered.thy ===== *)
theory Recovered
  imports Recovery
begin

text \<open>
  What the recovery sweep achieves, with any callback that reconciles cancelled executions locally: it ends; and a
  sweep that returns leaves a live job behind for every unfinished piece of work, and every cancelled execution
  reconciled. \<open>Engine_Recovery\<close> has the engine's callback.
\<close>

subsection \<open>Jobs that are not settled\<close>

text \<open>The row of a description in the job store, when its state is one of \<open>ss\<close>.\<close>

definition job_in :: "job_state set \<Rightarrow> (string list \<Rightarrow> string) \<Rightarrow> executor_job \<Rightarrow> job_store \<Rightarrow> bool" where
  "job_in ss digest job js \<longleftrightarrow> (\<exists>j. map_of (jobs js) (executor_job_id digest job) = Some j \<and>
     description j = job \<and> job_state j \<in> ss)"

abbreviation live :: "(string list \<Rightarrow> string) \<Rightarrow> executor_job \<Rightarrow> job_store \<Rightarrow> bool" where
  "live \<equiv> job_in {Job_Pending, Job_Running}"

abbreviation unsettled :: "(string list \<Rightarrow> string) \<Rightarrow> executor_job \<Rightarrow> job_store \<Rightarrow> bool" where
  "unsettled \<equiv> job_in {Job_Pending, Job_Running, Job_Cancelled}"

lemma unsettled_live: "unsettled digest job js \<longleftrightarrow> live digest job js \<or> job_in {Job_Cancelled} digest job js"
  by (auto simp: job_in_def)

text \<open>
  What recovery does to the job rows: none becomes settled; only jobs in \<open>C\<close> become cancelled, and only jobs in
  \<open>E\<close> pending.
\<close>

definition recovery_path :: "executor_job set \<Rightarrow> executor_job set \<Rightarrow> job_store \<Rightarrow> job_store \<Rightarrow> bool" where
  "recovery_path C E js js' \<longleftrightarrow> (job_store_wf js \<longrightarrow> job_store_wf js' \<and> (\<forall>digest job.
     (unsettled digest job js \<longrightarrow> unsettled digest job js') \<and>
     (job \<notin> C \<longrightarrow> job_in {Job_Cancelled} digest job js' \<longrightarrow> job_in {Job_Cancelled} digest job js) \<and>
     (job \<notin> E \<longrightarrow> job_in {Job_Pending} digest job js' \<longrightarrow> job_in {Job_Pending} digest job js)))"

lemma recovery_path_refl [simp]: "recovery_path C E js js"
  by (simp add: recovery_path_def)

lemma recovery_path_trans: "recovery_path C E a b \<Longrightarrow> recovery_path C E b c \<Longrightarrow> recovery_path C E a c"
  unfolding recovery_path_def by blast

lemma recovery_path_mono: "recovery_path C E js js' \<Longrightarrow> C \<subseteq> C' \<Longrightarrow> E \<subseteq> E' \<Longrightarrow> recovery_path C' E' js js'"
  unfolding recovery_path_def by blast

text \<open>A call that writes one row at most.\<close>

lemma one_row_path:
  assumes "js' = js \<or> (map_of (jobs js) k = None \<or> map_of (jobs js) k = Some c) \<and> jobs js' = js_set k c' (jobs js)"
    and "map_of (jobs js) k = Some c \<Longrightarrow> description c' = description c \<and>
      (job_state c \<notin> {Job_Succeeded, Job_Failed} \<longrightarrow> job_state c' \<notin> {Job_Succeeded, Job_Failed})"
    and "job_state c' = Job_Cancelled \<Longrightarrow> description c' \<in> C" "job_state c' = Job_Pending \<Longrightarrow> description c' \<in> E"
    and "job_store_wf js \<Longrightarrow> job_store_wf js'"
  shows "recovery_path C E js js'"
  unfolding recovery_path_def
proof (intro impI conjI allI)
  fix digest job
  show "unsettled digest job js \<Longrightarrow> unsettled digest job js'"
    using assms(1,2) by (cases "job_state c'") (auto simp: job_in_def)
  show "job \<notin> C \<Longrightarrow> job_in {Job_Cancelled} digest job js' \<Longrightarrow> job_in {Job_Cancelled} digest job js"
    using assms(1,3) by (auto simp: job_in_def split: if_splits)
  show "job \<notin> E \<Longrightarrow> job_in {Job_Pending} digest job js' \<Longrightarrow> job_in {Job_Pending} digest job js"
    using assms(1,4) by (auto simp: job_in_def split: if_splits)
qed (rule assms(5))

lemma ensure_recovery_path:
  assumes "ensure_job env wall js = Inr (js', r)"
  shows "recovery_path {} {description env} js js'"
proof -
  have "js' = js \<or> map_of (jobs js) (job_id env) = None \<and>
      (\<exists>c. jobs js' = js_set (job_id env) c (jobs js) \<and> job_state c = Job_Pending \<and> description c = description env)"
    using assms
    by (auto simp: ensure_job_def bind_result_Inr_iff Let_def new_stored_job_def put_job_def split: option.splits if_splits)
  moreover have "job_store_wf js \<Longrightarrow> job_store_wf js'" using row_steps_wf[OF ensure_path[OF assms]] .
  ultimately show ?thesis by (elim disjE conjE exE) (simp, rule one_row_path, auto)
qed

lemma reopen_recovery_path:
  assumes "reopen_for_recovery k d t wall js = Inr (js', r)"
  shows "recovery_path {} {d} js js'"
proof (cases "job_store_wf js")
  case True
  have wf': "job_store_wf js'" using row_steps_wf[OF reopen_path[OF True assms] True] .
  show ?thesis
  proof (cases "js' = js")
    case False
    then obtain c ms where c: "map_of (jobs js) k = Some c" "description c = d" "js' = put_job (reopened_row ms wall c) js"
      using reopen_cases[OF assms] by blast
    then have "job_id c = k" using job_store_wf_id[OF True] by blast
    then show ?thesis using c wf'
      by (intro one_row_path[where k = k and c = c and c' = "reopened_row ms wall c"])
        (auto simp: put_job_def reopened_row_def clear_lease_def)
  qed simp
qed (simp add: recovery_path_def)

lemma cancel_recovery_path:
  assumes "cancel_pending k d now js = Inr (js', r)"
  shows "recovery_path {d} {} js js'"
proof (cases "job_store_wf js")
  case True
  have wf': "job_store_wf js'" using row_steps_wf[OF cancel_pending_path[OF True assms] True] .
  show ?thesis
  proof (cases "js' = js")
    case False
    then obtain c where c: "map_of (jobs js) k = Some c" "description c = d" "js' = put_job (cancelled_row now c) js"
      using cancel_pending_cases[OF assms] by blast
    then have "job_id c = k" using job_store_wf_id[OF True] by blast
    then show ?thesis using c wf'
      by (intro one_row_path[where k = k and c = c and c' = "cancelled_row now c"])
        (auto simp: put_job_def cancelled_row_def clear_lease_def)
  qed simp
qed (simp add: recovery_path_def)

lemma reopen_settled_path: "recovery_path {} {job} js (fst (reopen_settled env job wall row js))"
  using reopen_recovery_path[of "job_id env" job "run_after env" wall js]
  by (auto simp: reopen_settled_def split: sum.splits)

lemma ensure_recovery_job_path: "recovery_path {} {job} js (fst (ensure_recovery_job digest job options wall js))"
proof (cases "create_job_envelope digest job options wall")
  case (Inr env)
  have job: "description env = job" using create_job_envelope_Inr(3)[OF Inr] by simp
  show ?thesis
  proof (cases "ensure_job env wall js")
    case (Inr x)
    obtain js1 r where x: "x = (js1, r)" by (cases x)
    then have "recovery_path {} {job} js js1" using ensure_recovery_path Inr job by blast
    then show ?thesis
      using \<open>create_job_envelope digest job options wall = Inr env\<close> Inr x
        recovery_path_trans[OF _ reopen_settled_path[of job js1 env wall]]
      by (cases r) (simp_all add: ensure_recovery_job_def)
  qed (use Inr in \<open>simp add: ensure_recovery_job_def\<close>)
qed (simp add: ensure_recovery_job_def)

text \<open>A job that was ensured without an error is not settled.\<close>

lemma ensure_recovery_job_unsettled:
  assumes "ensure_recovery_job digest job options wall js = (js', Inr ())" "job_store_wf js"
  shows "unsettled digest job js'"
proof -
  obtain env where env: "create_job_envelope digest job options wall = Inr env"
    using assms(1) by (cases "create_job_envelope digest job options wall") (simp_all add: ensure_recovery_job_def)
  note id = create_job_envelope_Inr(1,3,6)[OF env]
  obtain js1 r where ensured: "ensure_job env wall js = Inr (js1, r)"
    using assms(1) env by (cases "ensure_job env wall js") (auto simp: ensure_recovery_job_def)
  have "r \<noteq> Ensure_Conflict" using assms(1) env ensured by (auto simp: ensure_recovery_job_def)
  then obtain row where row: "r = Job_Inserted row \<or> r = Job_Existing row" by (cases r) auto
  then have j: "map_of (jobs js1) (job_id env) = Some row" "description row = job"
    using ensure_result_row[of env wall js js1 row] ensured id(2) by (auto simp: same_immutable_job_def)
  have re: "reopen_settled env job wall row js1 = (js', Inr ())"
    using assms(1) env ensured row by (auto simp: ensure_recovery_job_def)
  have "job_store_wf js1" using ensure_recovery_path[OF ensured] assms(2) by (simp add: recovery_path_def)
  then have "job_id row = job_id env" using job_store_wf_id j(1) by blast
  then show ?thesis
    using re j id(1,3)
    by (cases "job_state row") (auto simp: reopen_settled_def job_in_def reopen_for_recovery_def check_timestamp_def
        valid_time_iff clear_lease_def split: if_splits sum.splits)
qed

text \<open>After the job of a cancelled execution was cancelled without an error it is not pending.\<close>

lemma cancel_execution_job_path: "recovery_path {job} {} js (fst (cancel_execution_job inp now job js))"
  using cancel_recovery_path[of _ job "Iso now" js]
  by (auto simp: cancel_execution_job_def split: sum.splits prod.splits)

lemma cancel_execution_job_settles:
  assumes "cancel_execution_job inp now job js = (js', Inr ())" "job_store_wf js"
  shows "\<not> job_in {Job_Pending} (ri_digest inp) job js'"
proof -
  obtain env res where env: "create_job_envelope (ri_digest inp) job (run_at (Iso now)) now = Inr env"
    and cancel: "cancel_pending (job_id env) job (Iso now) js = Inr (js', res)" "res \<noteq> Cancel_Conflict"
    using assms(1) by (auto simp: cancel_execution_job_def split: sum.splits prod.splits if_splits)
  have id: "job_id env = executor_job_id (ri_digest inp) job" using create_job_envelope_Inr(1)[OF env] .
  show ?thesis
  proof (cases "map_of (jobs js) (job_id env)")
    case None
    then show ?thesis using cancel(1) id by (auto simp: cancel_pending_def bind_result_Inr_iff job_in_def)
  next
    case (Some c)
    have "job_id c = job_id env" using job_store_wf_id[OF assms(2) Some] .
    then show ?thesis
      using cancel Some id
      by (cases "job_state c") (auto simp: cancel_pending_def bind_result_Inr_iff job_in_def Let_def put_job_def
          clear_lease_def split: if_splits)
  qed
qed

subsection \<open>The bodies of the loops\<close>

lemma put_jobs_simps [simp]:
  "rc_executions (put_jobs js st) = rc_executions st" "rc_jobs (put_jobs js st) = js"
  "sys_work (rc_system (put_jobs js st)) = sys_work (rc_system st)"
  "sys_deliveries (rc_system (put_jobs js st)) = sys_deliveries (rc_system st)"
  by (simp_all add: put_jobs_def rc_jobs_def)

text \<open>\<open>jobs_only C E st st'\<close>: only the job store has changed, and along a recovery path.\<close>

definition jobs_only :: "executor_job set \<Rightarrow> executor_job set \<Rightarrow> 'w recovery_state \<Rightarrow> 'w recovery_state \<Rightarrow> bool" where
  "jobs_only C E st st' \<longleftrightarrow> rc_executions st' = rc_executions st \<and>
     sys_work (rc_system st') = sys_work (rc_system st) \<and>
     sys_deliveries (rc_system st') = sys_deliveries (rc_system st) \<and> recovery_path C E (rc_jobs st) (rc_jobs st')"

lemma jobs_only_facts:
  assumes "jobs_only C E st st'" "recovery_wf st"
  shows "recovery_wf st'" "unfinished_deliveries st' = unfinished_deliveries st"
    "unmaterialized_events st' = unmaterialized_events st" "recovery_executions st' = recovery_executions st"
  using assms by (auto simp: jobs_only_def recovery_wf_def recovery_path_def unfinished_deliveries_def
      unmaterialized_events_def recovery_executions_def)

lemma on_jobs_only:
  "(\<And>js. recovery_path C E js (fst (f js))) \<Longrightarrow> jobs_only C E st (fst (on_jobs f st))"
  by (auto simp: on_jobs_def jobs_only_def split: prod.splits) (metis fst_conv)

lemma on_jobs_Inr: "on_jobs f st = (st', Inr ()) \<Longrightarrow> f (rc_jobs st) = (rc_jobs st', Inr ())"
  by (auto simp: on_jobs_def split: prod.splits)

definition event_job :: "event_work \<Rightarrow> executor_job" where
  "event_job ev = Webhook_Select (ew_project ev) (ew_event ev)"

definition delivery_job :: "sequenced_delivery \<Rightarrow> executor_job" where
  "delivery_job c = Webhook_Deliver (sd_project c) (wd_id (sd_delivery c))"

definition execution_job :: "recoverable_execution \<Rightarrow> executor_job" where
  "execution_job c = Execution_Run (rv_project c) (ex_id (rv_record c))"

lemma recover_delivery_only: "jobs_only {} {delivery_job c} st (fst (recover_delivery inp now c st))"
  unfolding recover_delivery_def delivery_job_def by (rule on_jobs_only) (rule ensure_recovery_job_path)

lemma recover_event_only: "jobs_only {} {event_job ev} st (fst (recover_event inp now ev st))"
  unfolding recover_event_def event_job_def by (rule on_jobs_only) (rule ensure_recovery_job_path)

text \<open>
  What the sweep relies on of the engine's reconciliation of a cancelled execution that is to be recovered: it
  keeps the stores well formed; to the job store it only adds selection jobs; of the execution store it changes
  no row but the one that it reconciles, and when it succeeds this row needs no more recovery.
\<close>

definition selection_jobs :: "executor_job set" where
  "selection_jobs = {Webhook_Select p e | p e. True}"

definition other_rows_kept :: "recoverable_execution \<Rightarrow> execution_store \<Rightarrow> execution_store \<Rightarrow> bool" where
  "other_rows_kept c es es' \<longleftrightarrow> (\<forall>p e. (p, e) \<noteq> (rv_project c, ex_id (rv_record c)) \<longrightarrow>
     find_execution es' p e = find_execution es p e)"

definition own_row :: "recoverable_execution \<Rightarrow> execution_store \<Rightarrow> stored_execution option" where
  "own_row c es = find_execution es (rv_project c) (ex_id (rv_record c))"

definition reconciled :: "recoverable_execution \<Rightarrow> execution_store \<Rightarrow> bool" where
  "reconciled c es \<longleftrightarrow> (\<exists>row. own_row c es = Some row \<and> ex_status (se_record row) = St_Cancelled \<and> \<not> needs_recovery row)"

definition reconciles_locally :: "'w reconciler \<Rightarrow> bool" where
  "reconciles_locally f \<longleftrightarrow> (\<forall>c st st' res. recovery_wf st \<and> c \<in> set (recovery_executions st) \<and>
       ex_status (rv_record c) = St_Cancelled \<and> f (rv_project c) (rv_record c) st = (st', res) \<longrightarrow>
     recovery_wf st' \<and> recovery_path {} selection_jobs (rc_jobs st) (rc_jobs st') \<and>
     other_rows_kept c (rc_executions st) (rc_executions st') \<and>
     map_option se_sequence (own_row c (rc_executions st')) = Some (rv_sequence c) \<and>
     (res = Inr () \<longrightarrow> reconciled c (rc_executions st')))"

definition engine_ok :: "'w recovery_input \<Rightarrow> bool" where
  "engine_ok inp \<longleftrightarrow> (case ri_reconcile inp of None \<Rightarrow> True | Some f \<Rightarrow> reconciles_locally f)"

text \<open>Later candidates are kept when at most the own row has changed.\<close>

lemma later_candidates:
  assumes "recovery_wf st" "recovery_wf st'" "other_rows_kept c (rc_executions st) (rc_executions st')"
    and "\<And>row. own_row c (rc_executions st) = Some row \<Longrightarrow> se_sequence row \<le> rv_sequence c"
    and "\<And>row. own_row c (rc_executions st') = Some row \<Longrightarrow> se_sequence row \<le> rv_sequence c"
  shows "{x \<in> set (recovery_executions st'). rv_sequence c < rv_sequence x} =
    {x \<in> set (recovery_executions st). rv_sequence c < rv_sequence x}"
proof -
  have iff: "x \<in> set (recovery_executions st') \<longleftrightarrow> x \<in> set (recovery_executions st)" if "rv_sequence c < rv_sequence x" for x
  proof -
    have rows: "exec_rows_wf (rc_executions st)" "exec_rows_wf (rc_executions st')"
      using assms(1,2) by (simp_all add: recovery_wf_def)
    have other: "(rv_project x, ex_id (rv_record x)) \<noteq> (rv_project c, ex_id (rv_record c))"
      if "own_row x es = Some row" "x = recoverable (rv_project x) row" "es = rc_executions st \<or> es = rc_executions st'"
      for es row
    proof
      assume same: "(rv_project x, ex_id (rv_record x)) = (rv_project c, ex_id (rv_record c))"
      have "se_sequence row \<le> rv_sequence c"
        using assms(4,5)[of row] that(1,3) same by (auto simp: own_row_def)
      moreover have "se_sequence row = rv_sequence x" by (subst that(2)) (simp add: recoverable_def)
      ultimately show False using \<open>rv_sequence c < rv_sequence x\<close> by simp
    qed
    show ?thesis
      unfolding recovery_executions_iff[OF rows(1)] recovery_executions_iff[OF rows(2)]
      using other assms(3) unfolding own_row_def other_rows_kept_def by metis
  qed
  then show ?thesis by blast
qed

definition recovery_jobs :: "recoverable_execution \<Rightarrow> executor_job set" where
  "recovery_jobs c = (if ex_status (rv_record c) = St_Cancelled then {execution_job c} else {})"

lemma recover_execution_local:
  assumes ok: "engine_ok inp" and wf: "recovery_wf st" and c: "c \<in> set (recovery_executions st)"
    and run: "recover_execution inp now c st = (st', res)"
  shows "recovery_wf st'"
    "recovery_path (recovery_jobs c) (insert (execution_job c) selection_jobs) (rc_jobs st) (rc_jobs st')"
    "other_rows_kept c (rc_executions st) (rc_executions st')"
    "{x \<in> set (recovery_executions st'). rv_sequence c < rv_sequence x} =
       {x \<in> set (recovery_executions st). rv_sequence c < rv_sequence x}"
    "res = Inr () \<Longrightarrow> ex_status (rv_record c) = St_Cancelled \<Longrightarrow>
       reconciled c (rc_executions st') \<and> \<not> job_in {Job_Pending} (ri_digest inp) (execution_job c) (rc_jobs st')"
    "res = Inr () \<Longrightarrow> ex_status (rv_record c) \<noteq> St_Cancelled \<Longrightarrow>
       unsettled (ri_digest inp) (execution_job c) (rc_jobs st')"
proof -
  let ?path = "recovery_path (recovery_jobs c) (insert (execution_job c) selection_jobs)"
  obtain row where row: "own_row c (rc_executions st) = Some row" "c = recoverable (rv_project c) row"
    using c recovery_executions_iff[of st c] wf by (auto simp: recovery_wf_def own_row_def)
  have seq: "se_sequence row = rv_sequence c" by (subst row(2)) (simp add: recoverable_def)
  have facts: "recovery_wf st' \<and> ?path (rc_jobs st) (rc_jobs st') \<and>
      other_rows_kept c (rc_executions st) (rc_executions st') \<and>
      (\<forall>r. own_row c (rc_executions st') = Some r \<longrightarrow> se_sequence r \<le> rv_sequence c) \<and>
      (res = Inr () \<and> ex_status (rv_record c) = St_Cancelled \<longrightarrow>
        reconciled c (rc_executions st') \<and> \<not> job_in {Job_Pending} (ri_digest inp) (execution_job c) (rc_jobs st')) \<and>
      (res = Inr () \<and> ex_status (rv_record c) \<noteq> St_Cancelled \<longrightarrow>
        unsettled (ri_digest inp) (execution_job c) (rc_jobs st'))"
  proof (cases "ex_status (rv_record c) = St_Cancelled")
    case False
    have eq: "on_jobs (ensure_recovery_job (ri_digest inp) (execution_job c) (run_at (Iso now)) (ri_wall inp)) st = (st', res)"
      using run False by (simp add: recover_execution_def execution_job_def Let_def)
    have "jobs_only {} {execution_job c} st
        (fst (on_jobs (ensure_recovery_job (ri_digest inp) (execution_job c) (run_at (Iso now)) (ri_wall inp)) st))"
      by (rule on_jobs_only) (rule ensure_recovery_job_path)
    then have only: "jobs_only {} {execution_job c} st st'" unfolding eq fst_conv .
    have "res = Inr () \<longrightarrow> unsettled (ri_digest inp) (execution_job c) (rc_jobs st')"
      using on_jobs_Inr[of _ st st'] eq ensure_recovery_job_unsettled wf by (auto simp: recovery_wf_def)
    then show ?thesis
      using False only jobs_only_facts(1)[OF only wf] recovery_path_mono row(1) seq
      by (auto simp: jobs_only_def other_rows_kept_def)
  next
    case True
    show ?thesis
    proof (cases "ri_reconcile inp")
      case None
      then show ?thesis using True run wf row(1) seq by (auto simp: recover_execution_def other_rows_kept_def)
    next
      case (Some f)
      obtain st1 r where f: "f (rv_project c) (rv_record c) st = (st1, r)" by fastforce
      have loc: "recovery_wf st1" "recovery_path {} selection_jobs (rc_jobs st) (rc_jobs st1)"
        "other_rows_kept c (rc_executions st) (rc_executions st1)"
        "map_option se_sequence (own_row c (rc_executions st1)) = Some (rv_sequence c)"
        "r = Inr () \<Longrightarrow> reconciled c (rc_executions st1)"
        using ok[unfolded engine_ok_def Some option.case reconciles_locally_def] wf c True f by blast+
      have path: "?path (rc_jobs st) (rc_jobs st1)" by (rule recovery_path_mono[OF loc(2)]) auto
      show ?thesis
      proof (cases r)
        case (Inl err)
        then show ?thesis using run True Some f loc path by (auto simp: recover_execution_def Let_def)
      next
        case (Inr u)
        have eq: "on_jobs (cancel_execution_job inp now (execution_job c)) st1 = (st', res)"
          using run True Some f Inr by (simp add: recover_execution_def execution_job_def Let_def)
        have "jobs_only {execution_job c} {} st1 (fst (on_jobs (cancel_execution_job inp now (execution_job c)) st1))"
          by (rule on_jobs_only) (rule cancel_execution_job_path)
        then have only: "jobs_only {execution_job c} {} st1 st'" unfolding eq fst_conv .
        have "?path (rc_jobs st1) (rc_jobs st')"
          by (rule recovery_path_mono[of "{execution_job c}" "{}"]) (use only True in \<open>auto simp: jobs_only_def recovery_jobs_def\<close>)
        moreover have "\<not> job_in {Job_Pending} (ri_digest inp) (execution_job c) (rc_jobs st')" if "res = Inr ()"
          by (rule cancel_execution_job_settles[OF on_jobs_Inr[OF eq[unfolded that]]]) (use loc(1) in \<open>simp add: recovery_wf_def\<close>)
        ultimately show ?thesis
          using True loc(3,4,5) Inr only jobs_only_facts(1)[OF only loc(1)] recovery_path_trans[OF path]
          by (auto simp: jobs_only_def)
      qed
    qed
  qed
  then show "recovery_wf st'" "?path (rc_jobs st) (rc_jobs st')" "other_rows_kept c (rc_executions st) (rc_executions st')"
    "res = Inr () \<Longrightarrow> ex_status (rv_record c) = St_Cancelled \<Longrightarrow>
       reconciled c (rc_executions st') \<and> \<not> job_in {Job_Pending} (ri_digest inp) (execution_job c) (rc_jobs st')"
    "res = Inr () \<Longrightarrow> ex_status (rv_record c) \<noteq> St_Cancelled \<Longrightarrow>
       unsettled (ri_digest inp) (execution_job c) (rc_jobs st')"
    by blast+
  show "{x \<in> set (recovery_executions st'). rv_sequence c < rv_sequence x} =
      {x \<in> set (recovery_executions st). rv_sequence c < rv_sequence x}"
    by (rule later_candidates[OF wf]) (use facts row seq in auto)
qed

lemma recover_event_unsettled:
  assumes "recover_event inp now ev st = (st', Inr ())" "recovery_wf st"
  shows "unsettled (ri_digest inp) (event_job ev) (rc_jobs st')"
  using assms ensure_recovery_job_unsettled
  by (auto simp: recover_event_def event_job_def recovery_wf_def dest!: on_jobs_Inr)

lemma recover_delivery_unsettled:
  assumes "recover_delivery inp now c st = (st', Inr ())" "recovery_wf st"
  shows "unsettled (ri_digest inp) (delivery_job c) (rc_jobs st')"
  using assms ensure_recovery_job_unsettled
  by (auto simp: recover_delivery_def delivery_job_def recovery_wf_def dest!: on_jobs_Inr)

subsection \<open>The loops\<close>

lemma delivery_body_keeps: "delivery_recovery.keeps_later (recover_delivery inp now)"
  unfolding delivery_recovery.keeps_later_def by (simp add: jobs_only_facts(1,2)[OF recover_delivery_only])

lemma event_body_keeps: "event_recovery.keeps_later (recover_event inp now)"
  unfolding event_recovery.keeps_later_def by (simp add: jobs_only_facts(1,3)[OF recover_event_only])

lemma execution_body_keeps:
  assumes "engine_ok inp"
  shows "execution_recovery.keeps_later (recover_execution inp now)"
  unfolding execution_recovery.keeps_later_def
proof (intro allI impI, elim conjE)
  fix c and st :: "'a recovery_state"
  assume st: "recovery_wf st" "c \<in> set (recovery_executions st)"
  obtain st' res where run: "recover_execution inp now c st = (st', res)" by fastforce
  show "recovery_wf (fst (recover_execution inp now c st)) \<and>
      {x \<in> set (recovery_executions (fst (recover_execution inp now c st))). rv_sequence c < rv_sequence x} =
      {x \<in> set (recovery_executions st). rv_sequence c < rv_sequence x}"
    unfolding run fst_conv using recover_execution_local(1,4)[OF assms st run] by blast
qed

text \<open>The sweep without pages and cursors: one pass over the candidates of each store.\<close>

definition seq_then :: "'s \<times> unit result \<Rightarrow> ('s \<Rightarrow> 's \<times> unit result) \<Rightarrow> 's \<times> unit result" where
  "seq_then r f = (case r of (st, Inl err) \<Rightarrow> (st, Inl err) | (st, Inr _) \<Rightarrow> f st)"

definition three_passes :: "'w recovery_input \<Rightarrow> int \<Rightarrow> 'w recovery_state \<Rightarrow> 'w recovery_state \<times> unit result" where
  "three_passes inp now st =
     seq_then (for_each (recover_execution inp now) (sort_key rv_sequence (recovery_executions st)) st) (\<lambda>st1.
     seq_then (for_each (recover_event inp now) (sort_key ew_sequence (unmaterialized_events st1)) st1) (\<lambda>st2.
       for_each (recover_delivery inp now) (sort_key sd_sequence (unfinished_deliveries st2)) st2))"

definition single_pass :: "'w recovery_input \<Rightarrow> 'w recovery_state \<Rightarrow> 'w recovery_state \<times> unit result" where
  "single_pass inp st =
     (let batch = (case ri_batch_size inp of None \<Rightarrow> recovery_batch_size | Some n \<Rightarrow> n) in
      if \<not> is_safe_integer batch \<or> batch < 1
      then (st, Inl (Range_Error ''Recovery batch size must be a positive safe integer.''))
      else case ri_now inp of
        None \<Rightarrow> (st, Inl (Plain_Error ''Recovery clock returned an invalid date.''))
      | Some now \<Rightarrow>
          (case expire_leases [Execution_Queue, Webhook_Selection_Queue, Webhook_Delivery_Queue]
                  (Iso now) batch (rc_jobs st) of
             Inl err \<Rightarrow> (st, Inl err)
           | Inr (js, _) \<Rightarrow> three_passes inp now (put_jobs js st)))"

lemma execution_loop_wf:
  assumes "engine_ok inp" "recovery_wf st"
  shows "recovery_wf (fst (for_each (recover_execution inp now) (sort_key rv_sequence (recovery_executions st)) st))"
  using execution_recovery.for_each_holds[OF execution_body_keeps[OF assms(1)] execution_recovery.visit_all[OF assms(2)],
      of "\<lambda>_. True"] by simp

lemma event_loop_wf: "recovery_wf st \<Longrightarrow> recovery_wf (fst (for_each (recover_event inp now) es st))"
  using jobs_only_facts(1)[OF recover_event_only] by (blast intro: for_each_keeps)

lemma delivery_loop_wf: "recovery_wf st \<Longrightarrow> recovery_wf (fst (for_each (recover_delivery inp now) ds st))"
  using jobs_only_facts(1)[OF recover_delivery_only] by (blast intro: for_each_keeps)

lemma and_then_Some: "and_then (Some r) (\<lambda>st. Some (f st)) = Some (seq_then r f)"
  by (cases r; cases "snd r") (simp_all add: and_then_def seq_then_def)

lemma and_then_cong:
  assumes "\<And>st. r = (st, Inr ()) \<Longrightarrow> f st = Some (g st)"
  shows "and_then (Some r) f = Some (seq_then r g)"
  using assms by (cases r; cases "snd r") (auto simp: and_then_def seq_then_def)

lemma passes_by_pages:
  assumes "engine_ok inp" "recovery_wf st" "is_safe_integer batch" "1 \<le> batch"
  shows "\<exists>n. \<forall>fuel \<ge> n.
    and_then (sweep (\<lambda>s c. list_recovery_candidates c batch (rc_executions s))
        (recover_execution inp now) fuel None st) (\<lambda>st1.
    and_then (sweep (\<lambda>s c. list_unmaterialized c batch (rc_system s))
        (recover_event inp now) fuel None st1) (\<lambda>st2.
    sweep (\<lambda>s c. list_unfinished c batch (sys_deliveries (rc_system s)))
        (recover_delivery inp now) fuel None st2)) = Some (three_passes inp now st)"
proof -
  let ?e = "for_each (recover_execution inp now) (sort_key rv_sequence (recovery_executions st)) st"
  let ?v = "\<lambda>s. for_each (recover_event inp now) (sort_key ew_sequence (unmaterialized_events s)) s"
  let ?st1 = "fst ?e"
  let ?st2 = "fst (?v ?st1)"
  define n where "n = Suc (length (recovery_executions st) + length (unmaterialized_events ?st1) +
    length (unfinished_deliveries ?st2))"
  have wf1: "recovery_wf ?st1" and wf2: "recovery_wf ?st2"
    using execution_loop_wf[OF assms(1,2)] event_loop_wf by blast+
  show ?thesis
  proof (intro exI[of _ n] allI impI)
    fix fuel
    assume "n \<le> fuel"
    then have fuel: "length (recovery_executions st) < fuel" "length (unmaterialized_events ?st1) < fuel"
      "length (unfinished_deliveries ?st2) < fuel" by (simp_all add: n_def)
    have e: "sweep (\<lambda>s c. list_recovery_candidates c batch (rc_executions s)) (recover_execution inp now) fuel None st =
        Some ?e"
      by (rule execution_recovery.sweep_all[OF execution_body_keeps[OF assms(1)] assms(3,4,2) fuel(1)])
    have v: "sweep (\<lambda>s c. list_unmaterialized c batch (rc_system s)) (recover_event inp now) fuel None ?st1 =
        Some (?v ?st1)"
      by (rule event_recovery.sweep_all[OF event_body_keeps assms(3,4) wf1 fuel(2)])
    have d: "sweep (\<lambda>s c. list_unfinished c batch (sys_deliveries (rc_system s))) (recover_delivery inp now) fuel None
        ?st2 = Some (for_each (recover_delivery inp now) (sort_key sd_sequence (unfinished_deliveries ?st2)) ?st2)"
      by (rule delivery_recovery.sweep_all[OF delivery_body_keeps assms(3,4) wf2 fuel(3)])
    show "and_then (sweep (\<lambda>s c. list_recovery_candidates c batch (rc_executions s))
        (recover_execution inp now) fuel None st) (\<lambda>st1.
      and_then (sweep (\<lambda>s c. list_unmaterialized c batch (rc_system s))
        (recover_event inp now) fuel None st1) (\<lambda>st2.
      sweep (\<lambda>s c. list_unfinished c batch (sys_deliveries (rc_system s)))
        (recover_delivery inp now) fuel None st2)) = Some (three_passes inp now st)"
      unfolding e three_passes_def
    proof (rule and_then_cong)
      fix st1
      assume 1: "?e = (st1, Inr ())"
      then have "?st1 = st1" by simp
      then show "and_then (sweep (\<lambda>s c. list_unmaterialized c batch (rc_system s)) (recover_event inp now) fuel None st1)
          (\<lambda>st2. sweep (\<lambda>s c. list_unfinished c batch (sys_deliveries (rc_system s)))
            (recover_delivery inp now) fuel None st2) =
        Some (seq_then (?v st1) (\<lambda>st2. for_each (recover_delivery inp now)
            (sort_key sd_sequence (unfinished_deliveries st2)) st2))"
        using v d by (auto intro!: and_then_cong)
    qed
  qed
qed

lemma expired_rows:
  "map_of (jobs (fold (\<lambda>j. put_job (expired_job now j)) xs js)) k = Some j \<Longrightarrow>
     job_state j = Job_Pending \<or> map_of (jobs js) k = Some j"
proof (induction xs arbitrary: js)
  case (Cons x xs)
  then show ?case
    using Cons.IH[of "put_job (expired_job now x) js"] by (auto simp: put_job_def expired_job_def split: if_splits)
qed simp

lemma expire_recovery_path:
  assumes "expire_leases qs t n js = Inr (js', k)"
  shows "recovery_path {} UNIV js js'"
proof -
  have "unsettled digest job js'" if wf: "job_store_wf js" and q: "unsettled digest job js" for digest job
  proof -
    obtain j where j: "map_of (jobs js) (executor_job_id digest job) = Some j" "description j = job"
      "job_state j \<noteq> Job_Succeeded" "job_state j \<noteq> Job_Failed"
      using q by (auto simp: job_in_def)
    have run: "run_op (Op_Expire qs t n) js = js'" using assms by simp
    obtain j' where j': "map_of (jobs js') (executor_job_id digest job) = Some j'"
      "j' = j \<or> op_edge (Op_Expire qs t n) js j j'"
      using run_op_row[OF wf j(1), of "Op_Expire qs t n"] run by auto
    then have "description j' = job \<and> job_state j' \<noteq> Job_Succeeded \<and> job_state j' \<noteq> Job_Failed"
      using j by (auto elim!: op_edge.cases simp: expired_job_def clear_lease_def)
    then show ?thesis using j'(1) by (cases "job_state j'") (auto simp: job_in_def)
  qed
  moreover have "job_in {Job_Cancelled} digest job js' \<Longrightarrow> job_in {Job_Cancelled} digest job js" for digest job
    using assms expired_rows[of t _ js] by (fastforce simp: expire_leases_def bind_result_Inr_iff Let_def job_in_def)
  moreover have "job_store_wf js'" if "job_store_wf js"
    using run_op_wf[OF that, of "Op_Expire qs t n"] assms by simp
  ultimately show ?thesis unfolding recovery_path_def by blast
qed

lemma put_expired:
  assumes "expire_leases qs t n (rc_jobs st) = Inr (js, k)" "recovery_wf st"
  shows "recovery_wf (put_jobs js st)" "recovery_executions (put_jobs js st) = recovery_executions st"
    "recovery_path {} UNIV (rc_jobs st) js"
proof -
  have only: "jobs_only {} UNIV st (put_jobs js st)" using expire_recovery_path[OF assms(1)] by (simp add: jobs_only_def)
  show "recovery_wf (put_jobs js st)" "recovery_executions (put_jobs js st) = recovery_executions st"
    using jobs_only_facts[OF only assms(2)] by blast+
  show "recovery_path {} UNIV (rc_jobs st) js" by (rule expire_recovery_path[OF assms(1)])
qed

subsection \<open>Properties\<close>

lemma recovery_terminates_in:
  assumes "recovery_wf st" "engine_ok inp"
  shows "\<exists>n. \<forall>fuel \<ge> n. recover_executor_jobs inp fuel st = Some (single_pass inp st)"
proof -
  let ?batch = "case ri_batch_size inp of None \<Rightarrow> recovery_batch_size | Some n \<Rightarrow> n"
  show ?thesis
  proof (cases "is_safe_integer ?batch \<and> 1 \<le> ?batch")
    case False
    then show ?thesis by (auto simp: recover_executor_jobs_def single_pass_def Let_def)
  next
    case batch: True
    show ?thesis
    proof (cases "ri_now inp")
      case None
      then show ?thesis using batch by (simp add: recover_executor_jobs_def single_pass_def Let_def)
    next
      case (Some now)
      let ?x = "expire_leases [Execution_Queue, Webhook_Selection_Queue, Webhook_Delivery_Queue] (Iso now) ?batch
          (rc_jobs st)"
      show ?thesis
      proof (cases ?x)
        case (Inl err)
        then show ?thesis using batch Some by (simp add: recover_executor_jobs_def single_pass_def Let_def)
      next
        case (Inr r)
        obtain js k where r: "r = (js, k)" by (cases r)
        have "recovery_wf (put_jobs js st)" using put_expired(1)[of _ _ _ st js k] Inr r assms(1) by blast
        from passes_by_pages[OF assms(2) this conjunct1[OF batch] conjunct2[OF batch], of now]
        show ?thesis using batch Some Inr r by (simp add: recover_executor_jobs_def single_pass_def Let_def)
      qed
    qed
  qed
qed

lemma sweep_more:
  "sweep page body n cur st = Some r \<Longrightarrow> n \<le> m \<Longrightarrow> sweep page body m cur st = Some r"
proof (induction n arbitrary: m cur st)
  case (Suc n)
  then obtain m' where m: "m = Suc m'" "n \<le> m'" by (cases m) auto
  show ?case
  proof (cases "page st cur")
    case (Inl e)
    then show ?thesis using Suc.prems m by simp
  next
    case (Inr x)
    obtain rows nxt where x: "x = (rows, nxt)" by (cases x)
    obtain st' u where b: "for_each body rows st = (st', u)" by (cases "for_each body rows st")
    show ?thesis
    proof (cases u)
      case (Inl e)
      then show ?thesis using Suc.prems(1) m x b \<open>page st cur = Inr x\<close> by auto
    next
      case (Inr v)
      show ?thesis
      proof (cases nxt)
        case None
        then show ?thesis using Suc.prems(1) m \<open>page st cur = Inr x\<close> x b Inr by auto
      next
        case (Some c)
        then have "sweep page body n (Some c) st' = Some r"
          using Suc.prems(1) \<open>page st cur = Inr x\<close> x b Inr by simp
        then have "sweep page body m' (Some c) st' = Some r" using Suc.IH m(2) by blast
        then show ?thesis using m(1) \<open>page st cur = Inr x\<close> x b Inr Some by simp
      qed
    qed
  qed
qed simp

lemma and_then_more:
  assumes "and_then r f = Some x" "\<And>y. r = Some y \<Longrightarrow> r' = Some y" "\<And>st. f st = Some x \<Longrightarrow> f' st = Some x"
  shows "and_then r' f' = Some x"
proof (cases r)
  case (Some y)
  then have r': "r' = Some y" by (rule assms(2))
  obtain st u where y: "y = (st, u)" by (cases y)
  show ?thesis using assms(1,3) by (cases u) (auto simp: Some r' y and_then_def)
qed (use assms(1) in \<open>simp add: and_then_def\<close>)

lemma recover_more:
  assumes "recover_executor_jobs inp n st = Some r" "n \<le> m"
  shows "recover_executor_jobs inp m st = Some r"
proof -
  let ?batch = "case ri_batch_size inp of None \<Rightarrow> recovery_batch_size | Some n \<Rightarrow> n"
  show ?thesis
  proof (cases "is_safe_integer ?batch \<and> 1 \<le> ?batch")
    case batch: True
    show ?thesis
    proof (cases "ri_now inp")
      case (Some now)
      let ?x = "expire_leases [Execution_Queue, Webhook_Selection_Queue, Webhook_Delivery_Queue] (Iso now) ?batch
          (rc_jobs st)"
      show ?thesis
      proof (cases ?x)
        case (Inr y)
        obtain js k where y: "y = (js, k)" by (cases y)
        let ?run = "\<lambda>fuel. and_then (sweep (\<lambda>s c. list_recovery_candidates c ?batch (rc_executions s))
            (recover_execution inp now) fuel None (put_jobs js st)) (\<lambda>st1.
          and_then (sweep (\<lambda>s c. list_unmaterialized c ?batch (rc_system s))
            (recover_event inp now) fuel None st1) (\<lambda>st2.
          sweep (\<lambda>s c. list_unfinished c ?batch (sys_deliveries (rc_system s)))
            (recover_delivery inp now) fuel None st2))"
        have run: "recover_executor_jobs inp fuel st = ?run fuel" for fuel
          using batch Some Inr y by (simp add: recover_executor_jobs_def Let_def)
        show ?thesis
          using assms(1) unfolding run
          by (elim and_then_more) (erule sweep_more[OF _ assms(2)])+
      qed (use assms batch Some in \<open>simp add: recover_executor_jobs_def Let_def\<close>)
    qed (use assms batch in \<open>simp add: recover_executor_jobs_def Let_def\<close>)
  qed (use assms in \<open>auto simp: recover_executor_jobs_def Let_def\<close>)
qed

lemma seq_then_Inr:
  "seq_then r f = (st', Inr ()) \<longleftrightarrow> (\<exists>st. r = (st, Inr ()) \<and> f st = (st', Inr ()))"
  by (cases r; cases "snd r") (auto simp: seq_then_def)

text \<open>The passes over events and deliveries only add to the job store, and no execution jobs.\<close>

definition webhook_jobs :: "executor_job set" where
  "webhook_jobs = {job. \<forall>p e. job \<noteq> Execution_Run p e}"

lemma not_webhook_job [simp]: "execution_job c \<notin> webhook_jobs" "execution_job c \<notin> selection_jobs"
  by (auto simp: webhook_jobs_def execution_job_def selection_jobs_def)

lemma jobs_only_trans: "jobs_only C E a b \<Longrightarrow> jobs_only C E b c \<Longrightarrow> jobs_only C E a c"
  using recovery_path_trans by (auto simp: jobs_only_def)

lemma jobs_only_mono: "jobs_only C E a b \<Longrightarrow> C \<subseteq> C' \<Longrightarrow> E \<subseteq> E' \<Longrightarrow> jobs_only C' E' a b"
  using recovery_path_mono by (auto simp: jobs_only_def)

lemma webhook_loops_only:
  "jobs_only {} webhook_jobs st (fst (for_each (recover_event inp now) es st))"
  "jobs_only {} webhook_jobs st (fst (for_each (recover_delivery inp now) ds st))"
proof -
  have refl: "jobs_only {} webhook_jobs st st" by (simp add: jobs_only_def)
  have "jobs_only {} webhook_jobs s (fst (recover_event inp now ev s))" for s ev
    by (rule jobs_only_mono[OF recover_event_only]) (auto simp: event_job_def webhook_jobs_def)
  then show "jobs_only {} webhook_jobs st (fst (for_each (recover_event inp now) es st))"
    using for_each_keeps[of "jobs_only {} webhook_jobs st"] refl jobs_only_trans by metis
  have "jobs_only {} webhook_jobs s (fst (recover_delivery inp now d s))" for s d
    by (rule jobs_only_mono[OF recover_delivery_only]) (auto simp: delivery_job_def webhook_jobs_def)
  then show "jobs_only {} webhook_jobs st (fst (for_each (recover_delivery inp now) ds st))"
    using for_each_keeps[of "jobs_only {} webhook_jobs st"] refl jobs_only_trans by metis
qed

text \<open>What a pass keeps of the facts that the earlier ones have established.\<close>

lemma jobs_only_keeps:
  assumes "jobs_only {} webhook_jobs st st'" "recovery_wf st"
  shows "unsettled digest job (rc_jobs st) \<Longrightarrow> unsettled digest job (rc_jobs st')"
    "\<not> job_in {Job_Pending} digest (execution_job c) (rc_jobs st) \<Longrightarrow> \<not> job_in {Job_Pending} digest (execution_job c) (rc_jobs st')"
    "job_in {Job_Cancelled} digest job (rc_jobs st') \<Longrightarrow> job_in {Job_Cancelled} digest job (rc_jobs st)"
    "rc_executions st' = rc_executions st"
  using assms not_webhook_job(1)[of c] unfolding jobs_only_def recovery_wf_def recovery_path_def by blast+

lemma event_loop:
  assumes "recovery_wf st" "for_each (recover_event inp now) (sort_key ew_sequence (unmaterialized_events st)) st = (st', Inr ())"
  shows "\<forall>ev \<in> set (unmaterialized_events st). unsettled (ri_digest inp) (event_job ev) (rc_jobs st')"
proof -
  have keep: "unsettled (ri_digest inp) job (rc_jobs (fst (recover_event inp now r s)))"
    if "recovery_wf s" "unsettled (ri_digest inp) job (rc_jobs s)" for job r s
    using recover_event_only[of r s inp now] that by (simp add: jobs_only_def recovery_wf_def recovery_path_def)
  have "\<forall>ev \<in> set (sort_key ew_sequence (unmaterialized_events st)). unsettled (ri_digest inp) (event_job ev) (rc_jobs st')"
    by (rule event_recovery.for_each_visits[OF event_body_keeps event_recovery.visit_all[OF assms(1)] assms(2)])
      (use recover_event_unsettled keep in blast)+
  then show ?thesis by simp
qed

lemma delivery_loop:
  assumes "recovery_wf st" "for_each (recover_delivery inp now) (sort_key sd_sequence (unfinished_deliveries st)) st = (st', Inr ())"
  shows "\<forall>c \<in> set (unfinished_deliveries st). unsettled (ri_digest inp) (delivery_job c) (rc_jobs st')"
proof -
  have keep: "unsettled (ri_digest inp) job (rc_jobs (fst (recover_delivery inp now r s)))"
    if "recovery_wf s" "unsettled (ri_digest inp) job (rc_jobs s)" for job r s
    using recover_delivery_only[of r s inp now] that by (simp add: jobs_only_def recovery_wf_def recovery_path_def)
  have "\<forall>c \<in> set (sort_key sd_sequence (unfinished_deliveries st)). unsettled (ri_digest inp) (delivery_job c) (rc_jobs st')"
    by (rule delivery_recovery.for_each_visits[OF delivery_body_keeps delivery_recovery.visit_all[OF assms(1)] assms(2)])
      (use recover_delivery_unsettled keep in blast)+
  then show ?thesis by simp
qed

text \<open>The executions.\<close>

definition execution_recovered :: "'w recovery_input \<Rightarrow> recoverable_execution \<Rightarrow> 'w recovery_state \<Rightarrow> bool" where
  "execution_recovered inp c st \<longleftrightarrow>
     (if ex_status (rv_record c) = St_Cancelled
      then reconciled c (rc_executions st) \<and> \<not> job_in {Job_Pending} (ri_digest inp) (execution_job c) (rc_jobs st)
      else unsettled (ri_digest inp) (execution_job c) (rc_jobs st))"

lemma candidate_keys:
  assumes "recovery_wf st" "q \<in> set (recovery_executions st)" "r \<in> set (recovery_executions st)"
    and "(rv_project q, ex_id (rv_record q)) = (rv_project r, ex_id (rv_record r))"
  shows "q = r"
  using assms recovery_executions_iff[of st q] recovery_executions_iff[of st r] by (auto simp: recovery_wf_def)

lemma execution_loop:
  assumes wf: "recovery_wf st" and ok: "engine_ok inp"
    and loop: "for_each (recover_execution inp now) (sort_key rv_sequence (recovery_executions st)) st = (st', Inr ())"
  shows "\<forall>c \<in> set (recovery_executions st). execution_recovered inp c st'"
    "recovery_path (\<Union>c \<in> set (recovery_executions st). recovery_jobs c) UNIV (rc_jobs st) (rc_jobs st')"
proof -
  note keeps = execution_body_keeps[OF ok] and visit = execution_recovery.visit_all[OF wf]
  let ?C = "\<Union>c \<in> set (recovery_executions st). recovery_jobs c"
  have est: "execution_recovered inp r s'"
    if "recovery_wf s" "r \<in> set (recovery_executions s)" "recover_execution inp now r s = (s', Inr ())" for r s s'
    using recover_execution_local(5,6)[OF ok that] by (simp add: execution_recovered_def)
  have keep: "execution_recovered inp q (fst (recover_execution inp now r s))"
    if r: "recovery_wf s" "r \<in> set (recovery_executions st)" "r \<in> set (recovery_executions s)"
      "q \<in> set (recovery_executions st)" "rv_sequence q < rv_sequence r" and q: "execution_recovered inp q s" for q r s
  proof -
    obtain s' res where run: "recover_execution inp now r s = (s', res)" by fastforce
    note loc = recover_execution_local(2,3)[OF ok r(1,3) run]
    have key: "(rv_project q, ex_id (rv_record q)) \<noteq> (rv_project r, ex_id (rv_record r))"
      using candidate_keys[OF wf r(4,2)] r(5) by auto
    then have job: "execution_job q \<notin> insert (execution_job r) selection_jobs" "own_row q (rc_executions s') = own_row q (rc_executions s)"
      using loc(2) by (auto simp: execution_job_def selection_jobs_def own_row_def other_rows_kept_def)
    have "reconciled q (rc_executions s) \<Longrightarrow> reconciled q (rc_executions s')" using job(2) by (simp add: reconciled_def)
    moreover have "unsettled d (execution_job q) (rc_jobs s) \<Longrightarrow> unsettled d (execution_job q) (rc_jobs s')"
      "\<not> job_in {Job_Pending} d (execution_job q) (rc_jobs s) \<Longrightarrow> \<not> job_in {Job_Pending} d (execution_job q) (rc_jobs s')" for d
      using loc(1) r(1) job(1) unfolding recovery_wf_def recovery_path_def by blast+
    ultimately show ?thesis using q run by (auto simp: execution_recovered_def)
  qed
  have "\<forall>c \<in> set (sort_key rv_sequence (recovery_executions st)). execution_recovered inp c st'"
    by (rule execution_recovery.for_each_visits[OF keeps visit loop]) (use est keep in auto)
  then show "\<forall>c \<in> set (recovery_executions st). execution_recovered inp c st'" by simp
  have "recovery_path ?C UNIV (rc_jobs st) (rc_jobs (fst (recover_execution inp now r s)))"
    if "recovery_wf s" "r \<in> set (recovery_executions st)" "r \<in> set (recovery_executions s)"
      "recovery_path ?C UNIV (rc_jobs st) (rc_jobs s)" for r s
  proof -
    obtain s' res where run: "recover_execution inp now r s = (s', res)" by fastforce
    have "recovery_path ?C UNIV (rc_jobs s) (rc_jobs s')"
      by (rule recovery_path_mono[OF recover_execution_local(2)[OF ok that(1,3) run]]) (use that(2) in auto)
    then show ?thesis using recovery_path_trans[OF that(4)] run by simp
  qed
  then have "recovery_path ?C UNIV (rc_jobs st) (rc_jobs (fst (for_each (recover_execution inp now)
      (sort_key rv_sequence (recovery_executions st)) st)))"
    using execution_recovery.for_each_holds[OF keeps visit, of "\<lambda>s. recovery_path ?C UNIV (rc_jobs st) (rc_jobs s)"] by simp
  then show "recovery_path ?C UNIV (rc_jobs st) (rc_jobs st')" by (simp add: loop)
qed

text \<open>What a whole sweep leaves behind.\<close>

definition work_recovered :: "'w recovery_input \<Rightarrow> 'w recovery_state \<Rightarrow> 'w recovery_state \<Rightarrow> bool" where
  "work_recovered inp st st' \<longleftrightarrow>
     (let job_left = \<lambda>job. live (ri_digest inp) job (rc_jobs st') \<or> job_in {Job_Cancelled} (ri_digest inp) job (rc_jobs st) in
     (\<forall>c \<in> set (recovery_executions st).
        if ex_status (rv_record c) = St_Cancelled
        then reconciled c (rc_executions st') \<and> \<not> job_in {Job_Pending} (ri_digest inp) (execution_job c) (rc_jobs st')
        else job_left (execution_job c)) \<and>
     (\<forall>ev \<in> set (unmaterialized_events st'). job_left (event_job ev)) \<and>
     (\<forall>c \<in> set (unfinished_deliveries st'). job_left (delivery_job c)))"

lemma three_passes_recover:
  assumes wf: "recovery_wf st" and ok: "engine_ok inp" and run: "three_passes inp now st = (st', Inr ())"
  shows "work_recovered inp st st'"
proof -
  obtain st1 st2 where
    1: "for_each (recover_execution inp now) (sort_key rv_sequence (recovery_executions st)) st = (st1, Inr ())"
    and 2: "for_each (recover_event inp now) (sort_key ew_sequence (unmaterialized_events st1)) st1 = (st2, Inr ())"
    and 3: "for_each (recover_delivery inp now) (sort_key sd_sequence (unfinished_deliveries st2)) st2 = (st', Inr ())"
    using run by (auto simp: three_passes_def seq_then_Inr)
  have wf1: "recovery_wf st1" using execution_loop_wf[OF ok wf] 1 by (metis fst_conv)
  have wf2: "recovery_wf st2" using event_loop_wf[OF wf1] 2 by (metis fst_conv)
  have only2: "jobs_only {} webhook_jobs st1 st2" using webhook_loops_only(1)[of st1] 2 by (metis fst_conv)
  have only3: "jobs_only {} webhook_jobs st2 st'" using webhook_loops_only(2)[of st2] 3 by (metis fst_conv)
  note keep = jobs_only_keeps[OF jobs_only_trans[OF only2 only3] wf1]
  have sources: "unmaterialized_events st' = unmaterialized_events st1" "unfinished_deliveries st' = unfinished_deliveries st2"
    using jobs_only_facts(2,3)[OF only2 wf1] jobs_only_facts(2,3)[OF only3 wf2] by simp_all
  note exec = execution_loop[OF wf ok 1]
  let ?C = "\<Union>c \<in> set (recovery_executions st). recovery_jobs c"
  have left: "live d job (rc_jobs st') \<or> job_in {Job_Cancelled} d job (rc_jobs st)"
    if "unsettled d job (rc_jobs st')" "job \<notin> ?C" for d job
    using that keep(3)[of d job] exec(2) wf unfolding unsettled_live recovery_path_def recovery_wf_def by blast
  have events: "event_job ev \<notin> ?C" "delivery_job d \<notin> ?C" for ev d
    by (auto simp: recovery_jobs_def execution_job_def event_job_def delivery_job_def split: if_splits)
  have "execution_job c \<notin> ?C" if "c \<in> set (recovery_executions st)" "ex_status (rv_record c) \<noteq> St_Cancelled" for c
    using candidate_keys[OF wf that(1)] that(2) by (auto simp: recovery_jobs_def execution_job_def split: if_splits)
  then have "if ex_status (rv_record c) = St_Cancelled
      then reconciled c (rc_executions st') \<and> \<not> job_in {Job_Pending} (ri_digest inp) (execution_job c) (rc_jobs st')
      else live (ri_digest inp) (execution_job c) (rc_jobs st') \<or> job_in {Job_Cancelled} (ri_digest inp) (execution_job c) (rc_jobs st)"
    if "c \<in> set (recovery_executions st)" for c
    using exec(1) that keep(1,2,4) left unfolding execution_recovered_def by (auto split: if_splits)
  moreover have "unsettled (ri_digest inp) (event_job ev) (rc_jobs st')" if "ev \<in> set (unmaterialized_events st')" for ev
    using event_loop[OF wf1 2] that jobs_only_keeps(1)[OF only3 wf2] sources(1) by auto
  moreover have "unsettled (ri_digest inp) (delivery_job d) (rc_jobs st')" if "d \<in> set (unfinished_deliveries st')" for d
    using delivery_loop[OF wf2 3] that sources(2) by auto
  ultimately show ?thesis using left events unfolding work_recovered_def Let_def by blast
qed

lemma single_pass_recovers:
  assumes wf: "recovery_wf st" and ok: "engine_ok inp" and run: "single_pass inp st = (st', Inr ())"
  shows "work_recovered inp st st'"
proof -
  obtain js k now where x: "expire_leases [Execution_Queue, Webhook_Selection_Queue, Webhook_Delivery_Queue] (Iso now)
      (case ri_batch_size inp of None \<Rightarrow> recovery_batch_size | Some n \<Rightarrow> n) (rc_jobs st) = Inr (js, k)"
    "three_passes inp now (put_jobs js st) = (st', Inr ())"
    using run by (auto simp: single_pass_def Let_def split: if_splits option.splits sum.splits prod.splits)
  note put = put_expired[OF x(1) wf]
  have "work_recovered inp (put_jobs js st) st'" by (rule three_passes_recover[OF put(1) ok x(2)])
  moreover have "job_in {Job_Cancelled} d job js \<Longrightarrow> job_in {Job_Cancelled} d job (rc_jobs st)" for d job
    using put(3) wf unfolding recovery_path_def recovery_wf_def by blast
  ultimately show ?thesis unfolding work_recovered_def Let_def put(2) put_jobs_simps(2) by (simp split: if_splits) blast
qed

lemma sweep_recovers:
  assumes "recovery_wf st" "engine_ok inp" "recover_executor_jobs inp fuel st = Some (st', Inr ())"
  shows "work_recovered inp st st'"
proof -
  obtain n where "\<forall>m \<ge> n. recover_executor_jobs inp m st = Some (single_pass inp st)"
    using recovery_terminates_in[OF assms(1,2)] by blast
  then have "recover_executor_jobs inp (max n fuel) st = Some (single_pass inp st)" by simp
  moreover have "recover_executor_jobs inp (max n fuel) st = Some (st', Inr ())"
    by (rule recover_more[OF assms(3)]) simp
  ultimately show ?thesis using single_pass_recovers[OF assms(1,2)] by simp
qed

end
