(* ===== verification/Ssrf.thy ===== *)
theory Ssrf
  imports Prelude
begin

text \<open>
  The egress guard of webhook delivery (\<open>apps/executor/src/webhooks/ssrf.ts\<close>): the parsers of IP
  literals, the classification of addresses, and the guarded lookup that pins a vetted address.
  Octets, bytes and hextets are integers, the bitwise operators are those of HOL. \<open>isIP\<close> of
  \<open>node:net\<close> is the parameter \<open>is_ip\<close>, the resolver is the argument \<open>resolved\<close>.
\<close>

unbundle bit_operations_syntax

subsection \<open>Strings\<close>

fun split_char :: "char \<Rightarrow> string \<Rightarrow> string list" where
  "split_char c [] = [[]]"
| "split_char c (x # xs) =
     (if x = c then [] # split_char c xs
      else (case split_char c xs of [] \<Rightarrow> [[x]] | part # parts \<Rightarrow> (x # part) # parts))"

text \<open>\<open>text.split("::")\<close>: the leftmost occurrences, without overlap.\<close>

fun split_double_colon :: "string \<Rightarrow> string list" where
  "split_double_colon [] = [[]]"
| "split_double_colon [x] = [[x]]"
| "split_double_colon (x # y # xs) =
     (if x = CHR '':'' \<and> y = CHR '':'' then [] # split_double_colon xs
      else (case split_double_colon (y # xs) of [] \<Rightarrow> [[x]] | part # parts \<Rightarrow> (x # part) # parts))"

fun contains_text :: "string \<Rightarrow> string \<Rightarrow> bool" where
  "contains_text p [] \<longleftrightarrow> p = []"
| "contains_text p (x # xs) \<longleftrightarrow> take (length p) (x # xs) = p \<or> contains_text p xs"

definition js_lower :: "char \<Rightarrow> char" where
  "js_lower c = (let n = of_char c :: nat in
     if (65 \<le> n \<and> n \<le> 90) \<or> (192 \<le> n \<and> n \<le> 222 \<and> n \<noteq> 215) then char_of (n + 32) else c)"

definition js_trim :: "string \<Rightarrow> string" where
  "js_trim s = rev (dropWhile js_whitespace (rev (dropWhile js_whitespace s)))"

text \<open>\<open>s.replace(/^\[/u, "").replace(/\]$/u, "")\<close>\<close>

definition strip_brackets :: "string \<Rightarrow> string" where
  "strip_brackets s =
     (let t = (if s \<noteq> [] \<and> hd s = CHR ''['' then tl s else s) in
      if t \<noteq> [] \<and> last t = CHR '']'' then butlast t else t)"

definition last_colon :: "string \<Rightarrow> nat option" where
  "last_colon s = map_option (\<lambda>i. length s - 1 - i) (find_index (\<lambda>c. c = CHR '':'') (rev s))"

subsection \<open>Digits\<close>

definition dec_digit :: "char \<Rightarrow> bool" where
  "dec_digit c \<longleftrightarrow> (let n = of_char c :: nat in 48 \<le> n \<and> n \<le> 57)"

definition hex_digit :: "char \<Rightarrow> bool" where
  "hex_digit c \<longleftrightarrow> (let n = of_char c :: nat in (48 \<le> n \<and> n \<le> 57) \<or> (97 \<le> n \<and> n \<le> 102))"

definition digit_value :: "char \<Rightarrow> int" where
  "digit_value c = (let n = int (of_char c) in if n \<le> 57 then n - 48 else n - 87)"

definition digits_value :: "int \<Rightarrow> string \<Rightarrow> int" where
  "digits_value base s = foldl (\<lambda>n c. base * n + digit_value c) 0 s"

definition digit_char :: "int \<Rightarrow> char" where
  "digit_char d = char_of (if d < 10 then d + 48 else d + 87)"

text \<open>\<open>n.toString(base)\<close> of a number below \<open>base ^ fuel\<close>.\<close>

fun print_digits :: "nat \<Rightarrow> int \<Rightarrow> int \<Rightarrow> string" where
  "print_digits 0 base n = []"
| "print_digits (Suc k) base n =
     (if n < base then [digit_char n] else print_digits k base (n div base) @ [digit_char (n mod base)])"

definition to_hex :: "int \<Rightarrow> string" where
  "to_hex n = print_digits 4 16 n"

definition to_dec :: "int \<Rightarrow> string" where
  "to_dec n = print_digits 3 10 n"

subsection \<open>IPv4\<close>

definition parse_octet :: "string \<Rightarrow> int option" where
  "parse_octet part =
     (if part = [] \<or> length part > 3 \<or> \<not> list_all dec_digit part then None
      else let value = digits_value 10 part in if value > 255 then None else Some value)"

fun parse_octets :: "string list \<Rightarrow> int list option" where
  "parse_octets [] = Some []"
| "parse_octets (part # parts) =
     (case parse_octet part of None \<Rightarrow> None
      | Some v \<Rightarrow> (case parse_octets parts of None \<Rightarrow> None | Some vs \<Rightarrow> Some (v # vs)))"

definition parse_ipv4_octets :: "string \<Rightarrow> (int \<times> int \<times> int \<times> int) option" where
  "parse_ipv4_octets address =
     (let parts = split_char (CHR ''.'') address in
      if length parts \<noteq> 4 then None
      else (case parse_octets parts of
              Some [a, b, c, d] \<Rightarrow> Some (a, b, c, d)
            | _ \<Rightarrow> None))"

definition blocked_octets :: "int \<Rightarrow> int \<Rightarrow> int \<Rightarrow> bool" where
  "blocked_octets a b c \<longleftrightarrow>
     a = 0 \<or> a = 10 \<or> a = 127 \<or>
     (a = 100 \<and> b \<ge> 64 \<and> b \<le> 127) \<or>
     (a = 169 \<and> b = 254) \<or>
     (a = 172 \<and> b \<ge> 16 \<and> b \<le> 31) \<or>
     (a = 192 \<and> b = 0 \<and> c = 0) \<or>
     (a = 192 \<and> b = 0 \<and> c = 2) \<or>
     (a = 192 \<and> b = 88 \<and> c = 99) \<or>
     (a = 192 \<and> b = 168) \<or>
     (a = 198 \<and> (b = 18 \<or> b = 19)) \<or>
     (a = 198 \<and> b = 51 \<and> c = 100) \<or>
     (a = 203 \<and> b = 0 \<and> c = 113) \<or>
     a \<ge> 224"

definition is_blocked_ipv4 :: "string \<Rightarrow> bool" where
  "is_blocked_ipv4 address =
     (case parse_ipv4_octets address of None \<Rightarrow> True | Some (a, b, c, d) \<Rightarrow> blocked_octets a b c)"

subsection \<open>IPv6\<close>

definition parse_hextet :: "string \<Rightarrow> int option" where
  "parse_hextet part =
     (if part = [] \<or> length part > 4 \<or> \<not> list_all hex_digit part then None
      else Some (digits_value 16 part))"

fun parse_hextets :: "string list \<Rightarrow> int list option" where
  "parse_hextets [] = Some []"
| "parse_hextets (part # parts) =
     (case parse_hextet part of None \<Rightarrow> None
      | Some v \<Rightarrow> (case parse_hextets parts of None \<Rightarrow> None | Some vs \<Rightarrow> Some (v # vs)))"

definition parse_groups :: "string \<Rightarrow> int list option" where
  "parse_groups segment = (if segment = [] then Some [] else parse_hextets (split_char (CHR '':'') segment))"

text \<open>Fold an embedded dotted-IPv4 tail into two hextets.\<close>

definition fold_ipv4_tail :: "string \<Rightarrow> string option" where
  "fold_ipv4_tail text =
     (if CHR ''.'' \<notin> set text then Some text
      else case last_colon text of
        None \<Rightarrow> None
      | Some i \<Rightarrow>
          (case parse_ipv4_octets (drop (i + 1) text) of
             None \<Rightarrow> None
           | Some (a, b, c, d) \<Rightarrow>
               Some (take (i + 1) text @ to_hex (push_bit 8 a OR b) @ '':'' @ to_hex (push_bit 8 c OR d))))"

definition expand_groups :: "string \<Rightarrow> int list option" where
  "expand_groups text =
     (let halves = split_double_colon text in
      if length halves > 2 then None
      else case parse_groups (hd halves) of
        None \<Rightarrow> None
      | Some head \<Rightarrow>
          if length halves = 1 then (if length head \<noteq> 8 then None else Some head)
          else (case parse_groups (halves ! 1) of
            None \<Rightarrow> None
          | Some tail \<Rightarrow>
              if length head + length tail > 7 then None
              else Some (head @ replicate (8 - length head - length tail) 0 @ tail)))"

definition group_bytes :: "int list \<Rightarrow> int list" where
  "group_bytes groups = concat (map (\<lambda>g. [drop_bit 8 g AND 255, g AND 255]) groups)"

definition strip_zone :: "string \<Rightarrow> string" where
  "strip_zone text = takeWhile (\<lambda>c. c \<noteq> CHR ''%'') text"

definition ipv6_to_bytes :: "string \<Rightarrow> int list option" where
  "ipv6_to_bytes inp =
     (let text = strip_zone (strip_brackets (map js_lower (js_trim inp))) in
      if text = [] \<or> contains_text '':::'' text then None
      else case fold_ipv4_tail text of
        None \<Rightarrow> None
      | Some folded \<Rightarrow> map_option group_bytes (expand_groups folded))"

definition byte_at :: "int list \<Rightarrow> nat \<Rightarrow> int" where
  "byte_at bytes i = (if i < length bytes then bytes ! i else 0)"

definition zero_between :: "int list \<Rightarrow> nat \<Rightarrow> nat \<Rightarrow> bool" where
  "zero_between bytes i j \<longleftrightarrow> list_all (\<lambda>k. byte_at bytes k = 0) [i..<j]"

definition dotted :: "int \<Rightarrow> int \<Rightarrow> int \<Rightarrow> int \<Rightarrow> string" where
  "dotted a b c d = to_dec a @ ''.'' @ to_dec b @ ''.'' @ to_dec c @ ''.'' @ to_dec d"

definition embedded_ipv4 :: "int list \<Rightarrow> nat \<Rightarrow> string" where
  "embedded_ipv4 bytes i =
     dotted (byte_at bytes i) (byte_at bytes (i + 1)) (byte_at bytes (i + 2)) (byte_at bytes (i + 3))"

definition is_blocked_ipv6 :: "string \<Rightarrow> bool" where
  "is_blocked_ipv6 address =
     (case ipv6_to_bytes address of
        None \<Rightarrow> True
      | Some bytes \<Rightarrow>
          let at = byte_at bytes in
          if zero_between bytes 0 16 then True
          else if zero_between bytes 0 15 \<and> at 15 = 1 then True
          else if zero_between bytes 0 10 \<and> at 10 = 255 \<and> at 11 = 255
          then is_blocked_ipv4 (embedded_ipv4 bytes 12)
          else if zero_between bytes 0 12 then is_blocked_ipv4 (embedded_ipv4 bytes 12)
          else if at 0 = 0 \<and> at 1 = 0x64 \<and> at 2 = 255 \<and> at 3 = 0x9b
          then (if zero_between bytes 4 12 then is_blocked_ipv4 (embedded_ipv4 bytes 12) else True)
          else if at 0 = 0x20 \<and> at 1 = 0x02 then is_blocked_ipv4 (embedded_ipv4 bytes 2)
          else if at 0 = 0x20 \<and> at 1 = 0x01 \<and> at 2 = 0 \<and> at 3 = 0
          then is_blocked_ipv4 (dotted (at 12 XOR 255) (at 13 XOR 255) (at 14 XOR 255) (at 15 XOR 255))
          else if at 0 AND 0xfe = 0xfc then True
          else if at 0 = 0xfe \<and> at 1 AND 0xc0 = 0x80 then True
          else if at 0 = 255 then True
          else False)"

subsection \<open>The guard\<close>

definition is_blocked_address :: "(string \<Rightarrow> nat) \<Rightarrow> string \<Rightarrow> bool" where
  "is_blocked_address is_ip address =
     (let version = is_ip address in
      if version = 4 then is_blocked_ipv4 address
      else if version = 6 then is_blocked_ipv6 address
      else True)"

record lookup_address =
  la_address :: string
  la_family :: nat

datatype lookup_outcome =
    Lookup_Error js_error
  | Lookup_All "lookup_address list"
  | Lookup_One string nat

definition ssrf_error :: "string \<Rightarrow> string option \<Rightarrow> js_error" where
  "ssrf_error hostname address = Named_Error ''WebhookSsrfError'' (case address of
     None \<Rightarrow> ''Webhook host '' @ hostname @ '' did not resolve to a permitted address.''
   | Some a \<Rightarrow> ''Webhook host '' @ hostname @ '' resolved to blocked address '' @ a @ ''.'')"

text \<open>The loop over the resolved addresses: the first entry that must be refused.\<close>

definition refused_entry :: "(string \<Rightarrow> nat) \<Rightarrow> bool \<Rightarrow> lookup_address \<Rightarrow> bool" where
  "refused_entry is_ip allow_private entry \<longleftrightarrow>
     is_ip (la_address entry) = 0 \<or> is_ip (la_address entry) \<noteq> la_family entry \<or>
     (\<not> allow_private \<and> is_blocked_address is_ip (la_address entry))"

definition guarded_lookup ::
    "(string \<Rightarrow> nat) \<Rightarrow> bool \<Rightarrow> bool \<Rightarrow> string \<Rightarrow> lookup_address list result \<Rightarrow> lookup_outcome" where
  "guarded_lookup is_ip allow_private wants_all hostname resolved =
     (case resolved of
        Inl err \<Rightarrow> Lookup_Error err
      | Inr addresses \<Rightarrow>
          if addresses = [] then Lookup_Error (ssrf_error hostname None)
          else (case List.find (refused_entry is_ip allow_private) addresses of
            Some entry \<Rightarrow> Lookup_Error (ssrf_error hostname (Some (la_address entry)))
          | None \<Rightarrow>
              if wants_all then Lookup_All addresses
              else Lookup_One (la_address (hd addresses)) (la_family (hd addresses))))"

record url =
  url_protocol :: string
  url_username :: string
  url_password :: string
  url_hash :: string
  url_hostname :: string
  url_href :: string

text \<open>What the safe fetch does before it opens a socket: reject, or connect with the guarded lookup.\<close>

definition safe_fetch_check ::
    "(string \<Rightarrow> nat) \<Rightarrow> bool \<Rightarrow> bool \<Rightarrow> url \<Rightarrow> unit result" where
  "safe_fetch_check is_ip allow_insecure_http allow_private u =
     (let is_https = (url_protocol u = ''https:'') in
      if \<not> is_https \<and> \<not> (allow_insecure_http \<and> url_protocol u = ''http:'')
      then Inl (ssrf_error (url_hostname u) None)
      else
        let literal_host = strip_brackets (url_hostname u) in
        if \<not> allow_private \<and> is_ip literal_host \<noteq> 0 \<and> is_blocked_address is_ip literal_host
        then Inl (ssrf_error (url_hostname u) (Some literal_host))
        else Inr ())"

lemma ssrf_examples:
  "is_blocked_ipv4 ''192.168.1.1''" "\<not> is_blocked_ipv4 ''8.8.8.8''" "is_blocked_ipv4 ''8.8.8''"
  "is_blocked_ipv6 ''::1''" "is_blocked_ipv6 ''0:0:0:0:0:0:0:1''" "is_blocked_ipv6 ''::ffff:10.0.0.1''"
  "\<not> is_blocked_ipv6 ''::ffff:8.8.8.8''" "\<not> is_blocked_ipv6 ''[2606:4700::1111]''"
  "is_blocked_ipv6 ''fe80::1%eth0''" "is_blocked_ipv6 ''64:ff9b:1::1''" "\<not> is_blocked_ipv6 ''64:FF9B::8.8.8.8''"
  by code_simp+

subsection \<open>Splitting\<close>

lemma split_char_free: "p \<in> set (split_char c s) \<Longrightarrow> c \<notin> set p"
  by (induction s arbitrary: p) (auto split: list.splits if_splits)

lemma split_char_nonempty [simp]: "split_char c s \<noteq> []"
  by (cases s) (auto split: list.splits)

lemma split_char_plain: "c \<notin> set xs \<Longrightarrow> split_char c xs = [xs]"
  by (induction xs) auto

lemma split_char_append: "c \<notin> set xs \<Longrightarrow> split_char c (xs @ c # ys) = xs # split_char c ys"
  by (induction xs) auto

lemma split_char_single: "split_char c s = [a] \<Longrightarrow> s = a"
  by (induction s arbitrary: a) (auto split: list.splits if_splits)

lemma split_char_cons: "split_char c s = a # b # parts \<Longrightarrow> \<exists>rest. s = a @ c # rest \<and> split_char c rest = b # parts"
proof (induction s arbitrary: a)
  case (Cons x s)
  show ?case
  proof (cases "x = c")
    case False
    then obtain part where "split_char c s = part # b # parts" "a = x # part"
      using Cons.prems by (auto split: list.splits)
    then show ?thesis using Cons.IH by simp
  qed (use Cons.prems in simp)
qed simp

end
