(* ===== verification/Webhook_Endpoints.thy ===== *)
theory Webhook_Endpoints
  imports Pagination Ssrf
begin

text \<open>
  The registry of webhook endpoints (\<open>apps/executor/src/webhooks/endpoint-store.ts\<close>, with the event
  names of \<open>packages/core/src/webhooks.ts\<close>): registration, updates, secret rotation, listings.
  The URL parser of the platform and \<open>isIP\<close> are the fields of \<open>endpoint_env\<close>; what the identifier and
  the secret factory return are arguments. The secret of a stored endpoint is the extra field of the
  record extension, so that \<open>publicEndpoint\<close> is the truncation of the record.
\<close>

subsection \<open>Event names\<close>

definition webhook_subscription_event_types :: "string list" where
  "webhook_subscription_event_types =
     [''execution.completed'', ''execution.succeeded'', ''execution.failed'', ''execution.cancelled'',
      ''voice.session.event'', ''voice.transcript.ready'', ''voice.observer.failed'', ''trigger.*'']"

definition lower_alnum :: "char \<Rightarrow> bool" where
  "lower_alnum c \<longleftrightarrow> dec_digit c \<or> (let n = of_char c :: nat in 97 \<le> n \<and> n \<le> 122)"

definition alnum_part :: "string \<Rightarrow> bool" where
  "alnum_part s \<longleftrightarrow> s \<noteq> [] \<and> list_all lower_alnum s"

text \<open>\<open>/^trigger\.[a-z0-9]+(?:-[a-z0-9]+)*\.[a-z][a-z0-9]*(?:_[a-z0-9]+)*$/u\<close>, split at its separators.\<close>

definition trigger_event_pattern :: "string \<Rightarrow> bool" where
  "trigger_event_pattern value =
     (case split_char (CHR ''.'') value of
        [prefix, toolkit, name] \<Rightarrow>
          prefix = ''trigger'' \<and> list_all alnum_part (split_char (CHR ''-'') toolkit) \<and>
          list_all alnum_part (split_char (CHR ''_'') name) \<and> name \<noteq> [] \<and> \<not> dec_digit (hd name)
      | _ \<Rightarrow> False)"

definition is_trigger_event_type :: "string \<Rightarrow> bool" where
  "is_trigger_event_type value \<longleftrightarrow> length value \<le> 71 \<and> trigger_event_pattern value"

definition is_subscription_event_type :: "string \<Rightarrow> bool" where
  "is_subscription_event_type value \<longleftrightarrow>
     value \<in> set webhook_subscription_event_types \<or> is_trigger_event_type value"

subsection \<open>Data\<close>

record webhook_endpoint =
  we_id :: string
  we_url :: string
  we_secret_prefix :: string
  we_events :: "string list"
  we_active :: bool
  we_created_at :: timestamp
  we_updated_at :: timestamp

record stored_endpoint = webhook_endpoint +
  we_secret :: string

record create_endpoint_input =
  cw_url :: string
  cw_events :: "string list"
  cw_active :: bool
  cw_created_at :: timestamp

record update_endpoint_input =
  uw_url :: "string option"
  uw_events :: "string list option"
  uw_active :: "bool option"
  uw_updated_at :: timestamp

record rotated_secret =
  rs_id :: string
  rs_prefix :: string
  rs_secret :: string
  rs_rotated_at :: timestamp

record endpoint_env =
  env_is_ip :: "string \<Rightarrow> nat"
  env_parse_url :: "string \<Rightarrow> url option"
  env_allow_insecure_http :: bool
  env_allow_private_network :: bool

text \<open>\<open>Map<projectId, Map<endpointId, StoredWebhookEndpoint>>\<close>\<close>

type_synonym endpoint_store = "(string \<times> (string \<times> stored_endpoint) list) list"

subsection \<open>Validation\<close>

definition endpoint_input_error :: "string \<Rightarrow> js_error" where
  "endpoint_input_error = Named_Error ''WebhookEndpointInputError''"

definition invalid_webhook_cursor :: js_error where
  "invalid_webhook_cursor = Named_Error ''InvalidWebhookCursorError'' ''Webhook cursor is invalid.''"

definition secret_prefix :: "string \<Rightarrow> string" where
  "secret_prefix secret = take (min (length secret) 14) secret"

definition public_endpoint :: "stored_endpoint \<Rightarrow> webhook_endpoint" where
  "public_endpoint e = webhook_endpoint.truncate e"

definition valid_endpoint_timestamp :: "timestamp \<Rightarrow> string \<Rightarrow> unit result" where
  "valid_endpoint_timestamp value field =
     (if \<not> valid_time value then Inl (endpoint_input_error (field @ '' must be a timestamp.'')) else Inr ())"

definition validate_events :: "string list \<Rightarrow> unit result" where
  "validate_events events =
     (if events = [] then Inl (endpoint_input_error ''Webhook endpoints must subscribe to at least one event.'')
      else if length (remdups events) \<noteq> length events \<or>
              list_ex (\<lambda>e. \<not> is_subscription_event_type e) events
      then Inl (endpoint_input_error ''Webhook endpoint events are invalid or duplicated.'')
      else Inr ())"

definition strip_trailing_dots :: "string \<Rightarrow> string" where
  "strip_trailing_dots s = rev (dropWhile (\<lambda>c. c = CHR ''.'') (rev s))"

definition ends_with :: "string \<Rightarrow> string \<Rightarrow> bool" where
  "ends_with suffix s \<longleftrightarrow> take (length suffix) (rev s) = rev suffix"

definition private_hostname :: "(string \<Rightarrow> nat) \<Rightarrow> string \<Rightarrow> bool" where
  "private_hostname is_ip hostname =
     (let normalized = map js_lower (strip_trailing_dots (strip_brackets hostname)) in
      if normalized = ''localhost'' \<or> ends_with ''.localhost'' normalized \<or> ends_with ''.local'' normalized
      then True
      else let version = is_ip normalized in
        (version = 4 \<and> is_blocked_ipv4 normalized) \<or> (version = 6 \<and> is_blocked_ipv6 normalized))"

definition protocol_allowed :: "endpoint_env \<Rightarrow> url \<Rightarrow> bool" where
  "protocol_allowed env u \<longleftrightarrow> url_protocol u = ''https:'' \<or>
     (env_allow_insecure_http env \<and> url_protocol u = ''http:'')"

definition normalized_url :: "endpoint_env \<Rightarrow> string \<Rightarrow> string result" where
  "normalized_url env value =
     (case env_parse_url env (js_trim value) of
        None \<Rightarrow> Inl (endpoint_input_error ''Webhook URL must be an absolute HTTPS URL.'')
      | Some u \<Rightarrow>
          if \<not> protocol_allowed env u \<or> url_username u \<noteq> [] \<or> url_password u \<noteq> [] \<or> url_hash u \<noteq> []
          then Inl (endpoint_input_error ''Webhook URL must be HTTPS without credentials or a fragment.'')
          else if \<not> env_allow_private_network env \<and> private_hostname (env_is_ip env) (url_hostname u)
          then Inl (endpoint_input_error
                 ''Webhook URL must not target loopback or a literal private address.'')
          else Inr (url_href u))"

definition validate_list_endpoints :: "int \<Rightarrow> unit result" where
  "validate_list_endpoints limit =
     (if \<not> is_safe_integer limit \<or> limit < 1 \<or> limit > 100
      then Inl (endpoint_input_error ''Webhook list limit must be an integer from 1 through 100.'')
      else Inr ())"

subsection \<open>Operations\<close>

definition project_endpoints :: "string \<Rightarrow> endpoint_store \<Rightarrow> (string \<times> stored_endpoint) list" where
  "project_endpoints p st = (case map_of st p of None \<Rightarrow> [] | Some es \<Rightarrow> es)"

text \<open>\<open>#project\<close>: creates the project's map when it is not there.\<close>

definition open_project :: "string \<Rightarrow> endpoint_store \<Rightarrow> endpoint_store" where
  "open_project p st = (case map_of st p of None \<Rightarrow> js_set p [] st | Some _ \<Rightarrow> st)"

definition put_endpoint :: "string \<Rightarrow> stored_endpoint \<Rightarrow> endpoint_store \<Rightarrow> endpoint_store" where
  "put_endpoint p e st = js_set p (js_set (we_id e) e (project_endpoints p st)) st"

definition new_secret :: "string \<Rightarrow> string result" where
  "new_secret secret =
     (if blank secret then Inl (Plain_Error ''Webhook secret factory returned an empty value.'')
      else Inr secret)"

definition new_endpoint :: "string \<Rightarrow> string \<Rightarrow> string \<Rightarrow> create_endpoint_input \<Rightarrow> stored_endpoint" where
  "new_endpoint i u secret inp = \<lparr>we_id = i, we_url = u, we_secret_prefix = secret_prefix secret,
     we_events = cw_events inp, we_active = cw_active inp, we_created_at = cw_created_at inp,
     we_updated_at = cw_created_at inp, we_secret = secret\<rparr>"

text \<open>
  \<open>create\<close>, with what the two factories return. The project's map is opened before the factories are
  asked, so an error of theirs leaves it behind; the result keeps the secret.
\<close>

definition create_endpoint ::
    "endpoint_env \<Rightarrow> string \<Rightarrow> create_endpoint_input \<Rightarrow> string \<Rightarrow> string \<Rightarrow> endpoint_store \<Rightarrow>
     endpoint_store \<times> stored_endpoint result" where
  "create_endpoint env p inp i secret st =
     (if blank p then (st, Inl (endpoint_input_error ''Webhook project ID must not be empty.''))
      else case bind_result (validate_events (cw_events inp)) (\<lambda>_.
                bind_result (valid_endpoint_timestamp (cw_created_at inp) ''Webhook endpoint createdAt'') (\<lambda>_.
                normalized_url env (cw_url inp))) of
        Inl err \<Rightarrow> (st, Inl err)
      | Inr u \<Rightarrow>
          (let opened = open_project p st in
           if blank i then (opened, Inl (Plain_Error ''Webhook endpoint ID factory returned an empty value.''))
           else if map_of (project_endpoints p opened) i \<noteq> None
           then (opened, Inl (Plain_Error (''Duplicate webhook endpoint ID: '' @ i)))
           else case new_secret secret of
             Inl err \<Rightarrow> (opened, Inl err)
           | Inr s \<Rightarrow>
               (put_endpoint p (new_endpoint i u s inp) opened, Inr (new_endpoint i u s inp))))"

definition get_endpoint :: "string \<Rightarrow> string \<Rightarrow> endpoint_store \<Rightarrow> webhook_endpoint option" where
  "get_endpoint p i st = map_option public_endpoint (map_of (project_endpoints p st) i)"

definition get_for_delivery :: "string \<Rightarrow> string \<Rightarrow> endpoint_store \<Rightarrow> stored_endpoint option" where
  "get_for_delivery p i st = map_of (project_endpoints p st) i"

definition endpoint_rows :: "endpoint_store \<Rightarrow> string \<Rightarrow> webhook_endpoint list" where
  "endpoint_rows st p = map public_endpoint (rev (js_values (project_endpoints p st)))"

definition list_endpoints ::
    "string \<Rightarrow> cursor option \<Rightarrow> int \<Rightarrow> endpoint_store \<Rightarrow> (webhook_endpoint list \<times> cursor option) result" where
  "list_endpoints p cur limit st =
     bind_result (validate_list_endpoints limit) (\<lambda>_.
       cursor_page we_id invalid_webhook_cursor (endpoint_rows st p) cur limit)"

definition list_for_delivery :: "string \<Rightarrow> endpoint_store \<Rightarrow> stored_endpoint list" where
  "list_for_delivery p st = js_values (project_endpoints p st)"

definition optional_result :: "'a \<Rightarrow> ('b \<Rightarrow> 'a result) \<Rightarrow> 'b option \<Rightarrow> 'a result" where
  "optional_result d f x = (case x of None \<Rightarrow> Inr d | Some v \<Rightarrow> f v)"

definition or_else :: "'a option \<Rightarrow> 'a \<Rightarrow> 'a" where
  "or_else x d = (case x of None \<Rightarrow> d | Some v \<Rightarrow> v)"

definition update_endpoint ::
    "endpoint_env \<Rightarrow> string \<Rightarrow> string \<Rightarrow> update_endpoint_input \<Rightarrow> endpoint_store \<Rightarrow>
     (endpoint_store \<times> webhook_endpoint option) result" where
  "update_endpoint env p i inp st =
     (case map_of (project_endpoints p st) i of
        None \<Rightarrow> Inr (st, None)
      | Some e \<Rightarrow>
          if uw_url inp = None \<and> uw_events inp = None \<and> uw_active inp = None
          then Inl (endpoint_input_error ''Webhook update must change url, events, or active.'')
          else
            bind_result (valid_endpoint_timestamp (uw_updated_at inp) ''Webhook endpoint updatedAt'') (\<lambda>_.
            bind_result (optional_result () validate_events (uw_events inp)) (\<lambda>_.
            bind_result (optional_result (we_url e) (normalized_url env) (uw_url inp)) (\<lambda>u.
              let updated = e\<lparr>we_url := u, we_events := or_else (uw_events inp) (we_events e),
                    we_active := or_else (uw_active inp) (we_active e),
                    we_updated_at := uw_updated_at inp\<rparr> in
              Inr (js_set p (js_set i updated (project_endpoints p st)) st,
                   Some (public_endpoint updated))))))"

definition rotate_secret ::
    "string \<Rightarrow> string \<Rightarrow> timestamp \<Rightarrow> string \<Rightarrow> endpoint_store \<Rightarrow>
     (endpoint_store \<times> rotated_secret option) result" where
  "rotate_secret p i rotated_at fresh st =
     (case map_of (project_endpoints p st) i of
        None \<Rightarrow> Inr (st, None)
      | Some e \<Rightarrow>
          bind_result (valid_endpoint_timestamp rotated_at ''Webhook secret rotatedAt'') (\<lambda>_.
          bind_result (new_secret fresh) (\<lambda>secret.
            let updated = e\<lparr>we_secret := secret, we_secret_prefix := secret_prefix secret,
                  we_updated_at := rotated_at\<rparr> in
            Inr (js_set p (js_set i updated (project_endpoints p st)) st,
                 Some \<lparr>rs_id = i, rs_prefix = secret_prefix secret, rs_secret = secret,
                       rs_rotated_at = rotated_at\<rparr>))))"

definition delete_endpoint :: "string \<Rightarrow> string \<Rightarrow> endpoint_store \<Rightarrow> endpoint_store \<times> bool" where
  "delete_endpoint p i st =
     (case map_of st p of
        None \<Rightarrow> (st, False)
      | Some es \<Rightarrow>
          let rest = js_delete i es in
          (if rest = [] then js_delete p st else js_set p rest st, map_of es i \<noteq> None))"

end
