(* ===== verification/Tool_Names.thy ===== *)
theory Tool_Names
  imports Webhook_Endpoints
begin

text \<open>
  Canonical and restricted tool names (\<open>packages/core/src/naming.ts\<close>): a canonical name
  \<open>toolkit.action_name\<close> is sent to model providers as \<open>toolkit__action_name\<close> and must come back. The
  regular expressions are read as what their separators split a name into.
\<close>

subsection \<open>Patterns\<close>

definition max_canonical_tool_name_length :: nat where "max_canonical_tool_name_length = 63"
definition max_restricted_tool_name_length :: nat where "max_restricted_tool_name_length = 64"

text \<open>\<open>/^[a-z0-9]+(?:-[a-z0-9]+)*\.[a-z][a-z0-9]*(?:_[a-z0-9]+)*$/\<close>\<close>

definition canonical_tool_name_pattern :: "string \<Rightarrow> bool" where
  "canonical_tool_name_pattern value =
     (case split_char (CHR ''.'') value of
        [toolkit, name] \<Rightarrow>
          list_all alnum_part (split_char (CHR ''-'') toolkit) \<and>
          list_all alnum_part (split_char (CHR ''_'') name) \<and> name \<noteq> [] \<and> \<not> dec_digit (hd name)
      | _ \<Rightarrow> False)"

text \<open>\<open>/^[A-Za-z0-9_-]{1,64}$/\<close>\<close>

definition restricted_char :: "char \<Rightarrow> bool" where
  "restricted_char c \<longleftrightarrow> lower_alnum c \<or> (let n = of_char c :: nat in 65 \<le> n \<and> n \<le> 90) \<or>
     c = CHR ''_'' \<or> c = CHR ''-''"

definition restricted_tool_name_pattern :: "string \<Rightarrow> bool" where
  "restricted_tool_name_pattern s \<longleftrightarrow> s \<noteq> [] \<and> length s \<le> 64 \<and> list_all restricted_char s"

definition is_canonical_tool_name :: "string \<Rightarrow> bool" where
  "is_canonical_tool_name value \<longleftrightarrow>
     length value \<le> max_canonical_tool_name_length \<and> canonical_tool_name_pattern value"

definition validate_canonical_tool_name :: "string \<Rightarrow> string result" where
  "validate_canonical_tool_name name =
     (if \<not> is_canonical_tool_name name then Inl (Plain_Error (''Invalid canonical tool name: '' @ name))
      else Inr name)"

subsection \<open>Conversions\<close>

definition wire_name :: "string \<Rightarrow> string" where
  "wire_name canonical =
     (let dot_index = (case find_index (\<lambda>c. c = CHR ''.'') canonical of None \<Rightarrow> 0 | Some i \<Rightarrow> i) in
      take dot_index canonical @ ''__'' @ drop (dot_index + 1) canonical)"

definition to_restricted_tool_name :: "string \<Rightarrow> string result" where
  "to_restricted_tool_name name =
     bind_result (validate_canonical_tool_name name) (\<lambda>canonical.
       let wire = wire_name canonical in
       if length wire > max_restricted_tool_name_length \<or> \<not> restricted_tool_name_pattern wire
       then Inl (Plain_Error (''Unportable tool name: '' @ name))
       else Inr wire)"

text \<open>\<open>s.split("__")\<close> with \<open>c\<close> for the underscore: the leftmost occurrences, without overlap.\<close>

fun split_pair :: "char \<Rightarrow> string \<Rightarrow> string list" where
  "split_pair c [] = [[]]"
| "split_pair c [x] = [[x]]"
| "split_pair c (x # y # xs) =
     (if x = c \<and> y = c then [] # split_pair c xs
      else (case split_pair c (y # xs) of [] \<Rightarrow> [[x]] | part # parts \<Rightarrow> (x # part) # parts))"

definition unknown_tool_name :: "string \<Rightarrow> js_error" where
  "unknown_tool_name name = Plain_Error (''Unknown tool name: '' @ name)"

definition from_restricted_tool_name :: "string \<Rightarrow> string result" where
  "from_restricted_tool_name name =
     (if \<not> restricted_tool_name_pattern name then Inl (unknown_tool_name name)
      else case split_pair (CHR ''_'') name of
        [toolkit, action] \<Rightarrow>
          (let canonical = toolkit @ ''.'' @ action in
           bind_result (to_restricted_tool_name canonical) (\<lambda>wire.
             if wire \<noteq> name then Inl (unknown_tool_name name) else Inr canonical))
      | _ \<Rightarrow> Inl (unknown_tool_name name))"

subsection \<open>The name map\<close>

record tool_name_map =
  canonical_to_wire :: "(string \<times> string) list"
  wire_to_canonical :: "(string \<times> string) list"

definition add_tool_name :: "string \<Rightarrow> tool_name_map \<Rightarrow> tool_name_map result" where
  "add_tool_name name maps =
     bind_result (validate_canonical_tool_name name) (\<lambda>canonical.
     bind_result (to_restricted_tool_name canonical) (\<lambda>wire.
       if map_of (canonical_to_wire maps) canonical \<noteq> None
       then Inl (Plain_Error (''Canonical tool name collision: '' @ canonical))
       else case map_of (wire_to_canonical maps) wire of
         Some existing \<Rightarrow> Inl (Plain_Error (''Restricted tool name collision: '' @ existing @ '' and '' @
           canonical @ '' both map to '' @ wire))
       | None \<Rightarrow>
           bind_result (from_restricted_tool_name wire) (\<lambda>back.
             if back \<noteq> canonical then Inl (Plain_Error (''Non-reversible tool name: '' @ canonical))
             else Inr \<lparr>canonical_to_wire = js_set canonical wire (canonical_to_wire maps),
                       wire_to_canonical = js_set wire canonical (wire_to_canonical maps)\<rparr>)))"

fun add_tool_names :: "string list \<Rightarrow> tool_name_map \<Rightarrow> tool_name_map result" where
  "add_tool_names [] maps = Inr maps"
| "add_tool_names (name # names) maps =
     bind_result (add_tool_name name maps) (\<lambda>maps'. add_tool_names names maps')"

definition build_name_map :: "string list \<Rightarrow> tool_name_map result" where
  "build_name_map names = add_tool_names names \<lparr>canonical_to_wire = [], wire_to_canonical = []\<rparr>"

subsection \<open>Splitting\<close>

lemma split_char_mem: "x \<in> set s \<Longrightarrow> x = c \<or> (\<exists>p \<in> set (split_char c s). x \<in> set p)"
proof (induction s)
  case (Cons y s)
  then show ?case
    by (cases "split_char c s") (auto split: if_splits)
qed simp

lemma split_char_pair: "split_char c s = [a, b] \<Longrightarrow> s = a @ c # b"
  using split_char_single by (auto dest!: split_char_cons)

lemma find_index_append: "c \<notin> set a \<Longrightarrow> find_index (\<lambda>x. x = c) (a @ c # b) = Some (length a)"
  by (induction a) auto

text \<open>A text whose parts are all non-empty holds no adjacent separators.\<close>

lemma split_pair_plain:
  "list_all (\<lambda>p. p \<noteq> []) (tl (split_char c s)) \<Longrightarrow> split_pair c s = [s]"
proof (induction s rule: split_pair.induct)
  case (3 c x y xs)
  obtain part parts where sp: "split_char c (y # xs) = part # parts"
    using split_char_nonempty[of c "y # xs"] by (cases "split_char c (y # xs)") (simp_all only: list.distinct, blast)
  show ?case
  proof (cases "x = c")
    case True
    then have "list_all (\<lambda>p. p \<noteq> []) (split_char c (y # xs))" using 3 by simp
    then have "y \<noteq> c" "list_all (\<lambda>p. p \<noteq> []) (tl (split_char c (y # xs)))"
      using sp by (auto split: if_splits)
    then show ?thesis using 3 True by simp
  next
    case False
    then have "tl (split_char c (x # y # xs)) = parts" using sp by simp
    then show ?thesis using 3 False sp by simp
  qed
qed simp_all

lemma split_pair_append: "c \<notin> set a \<Longrightarrow> split_pair c (a @ c # c # b) = a # split_pair c b"
proof (induction a)
  case (Cons x a)
  then show ?case by (cases a) auto
qed simp

subsection \<open>Round trips\<close>

lemma alnum_chars:
  assumes "list_all alnum_part (split_char c s)" "x \<in> set s"
  shows "x = c \<or> lower_alnum x"
  using split_char_mem[OF assms(2), of c] assms(1) by (auto simp: list_all_iff alnum_part_def)

lemma lower_alnum_table: "\<not> lower_alnum (CHR ''_'')" "\<not> lower_alnum (CHR ''.'')" "CHR ''_'' \<noteq> CHR ''-''"
  by code_simp+

text \<open>The two halves of a canonical name.\<close>

lemma canonical_halves:
  assumes "canonical_tool_name_pattern v"
  obtains t n where "v = t @ CHR ''.'' # n" "CHR ''.'' \<notin> set t" "CHR ''_'' \<notin> set t"
    "split_pair (CHR ''_'') n = [n]" "list_all restricted_char t" "list_all restricted_char n"
proof -
  obtain t n where sp: "split_char (CHR ''.'') v = [t, n]"
    and t: "list_all alnum_part (split_char (CHR ''-'') t)" and n: "list_all alnum_part (split_char (CHR ''_'') n)"
    using assms by (auto simp: canonical_tool_name_pattern_def split: list.splits)
  have "v = t @ CHR ''.'' # n" by (rule split_char_pair[OF sp])
  moreover have "CHR ''.'' \<notin> set t" using split_char_free[of t _ v] sp by simp
  moreover have "CHR ''_'' \<notin> set t" using alnum_chars[OF t] lower_alnum_table by metis
  moreover have "list_all (\<lambda>p. p \<noteq> []) (tl (split_char (CHR ''_'') n))"
    using n by (cases "split_char (CHR ''_'') n") (auto simp: list_all_iff alnum_part_def)
  then have "split_pair (CHR ''_'') n = [n]" by (rule split_pair_plain)
  moreover have "list_all restricted_char t" "list_all restricted_char n"
    using alnum_chars[OF t] alnum_chars[OF n] by (auto simp: list_all_iff restricted_char_def)
  ultimately show thesis by (rule that)
qed

lemma wire_name_eq: "CHR ''.'' \<notin> set t \<Longrightarrow> wire_name (t @ CHR ''.'' # n) = t @ ''__'' @ n"
  by (simp add: wire_name_def find_index_append)

lemma canonical_wire:
  assumes "is_canonical_tool_name v"
  shows "restricted_tool_name_pattern (wire_name v)" "length (wire_name v) \<le> 64"
    "\<exists>t n. split_pair (CHR ''_'') (wire_name v) = [t, n] \<and> v = t @ ''.'' @ n"
proof -
  obtain t n where v: "v = t @ CHR ''.'' # n" "CHR ''.'' \<notin> set t" "CHR ''_'' \<notin> set t"
    "split_pair (CHR ''_'') n = [n]" "list_all restricted_char t" "list_all restricted_char n"
    using assms canonical_halves unfolding is_canonical_tool_name_def by metis
  have w: "wire_name v = t @ CHR ''_'' # CHR ''_'' # n" using wire_name_eq[OF v(2)] v(1) by simp
  have "length v \<le> 63" using assms by (simp add: is_canonical_tool_name_def max_canonical_tool_name_length_def)
  then show len: "length (wire_name v) \<le> 64" using w v(1) by simp
  have "restricted_char (CHR ''_'')" by (simp add: restricted_char_def)
  then show "restricted_tool_name_pattern (wire_name v)"
    using len w v(5,6) by (simp add: restricted_tool_name_pattern_def)
  show "\<exists>t n. split_pair (CHR ''_'') (wire_name v) = [t, n] \<and> v = t @ ''.'' @ n"
    using split_pair_append[OF v(3), of n] w v(1,4) by simp
qed

lemma to_restricted_iff:
  "to_restricted_tool_name v = Inr w \<longleftrightarrow> is_canonical_tool_name v \<and> w = wire_name v"
  using canonical_wire[of v]
  by (auto simp: to_restricted_tool_name_def validate_canonical_tool_name_def Let_def
      max_restricted_tool_name_length_def)

lemma from_restricted_iff:
  "from_restricted_tool_name w = Inr v \<longleftrightarrow> is_canonical_tool_name v \<and> w = wire_name v"
proof
  assume "from_restricted_tool_name w = Inr v"
  then show "is_canonical_tool_name v \<and> w = wire_name v"
    by (auto simp: from_restricted_tool_name_def Let_def bind_result_Inr_iff to_restricted_iff
        split: if_splits list.splits)
next
  assume v: "is_canonical_tool_name v \<and> w = wire_name v"
  then obtain t n where "split_pair (CHR ''_'') w = [t, n]" "v = t @ ''.'' @ n"
    using canonical_wire(3) by blast
  moreover have "to_restricted_tool_name v = Inr w" using v by (simp add: to_restricted_iff)
  ultimately show "from_restricted_tool_name w = Inr v"
    using canonical_wire(1) v by (simp add: from_restricted_tool_name_def Let_def)
qed

text \<open>C22: The conversions of tool names are inverse to each other. A name has a restricted form exactly
  when it is canonical (the length and character checks of the conversion never fail for such a name),
  and a restricted name is read back as a canonical one exactly when it is that name's restricted form:
  nothing else is accepted, and no two canonical names share a restricted form.\<close>

theorem tool_names_round_trip:
  "((\<exists>wire. to_restricted_tool_name v = Inr wire) \<longleftrightarrow> is_canonical_tool_name v) \<and>
   (from_restricted_tool_name w = Inr v \<longleftrightarrow> to_restricted_tool_name v = Inr w)"
  by (auto simp: to_restricted_iff from_restricted_iff)

lemma wire_name_inj: "is_canonical_tool_name a \<Longrightarrow> is_canonical_tool_name b \<Longrightarrow> wire_name a = wire_name b \<Longrightarrow> a = b"
  by (metis from_restricted_iff sum.inject(2))

definition name_map_of :: "string list \<Rightarrow> tool_name_map" where
  "name_map_of names = \<lparr>canonical_to_wire = map (\<lambda>v. (v, wire_name v)) names,
     wire_to_canonical = map (\<lambda>v. (wire_name v, v)) names\<rparr>"

lemma map_of_pairs: "map_of (map (\<lambda>v. (f v, g v)) xs) k = None \<longleftrightarrow> k \<notin> f ` set xs"
  by (simp add: map_of_eq_None_iff image_image)

lemma add_tool_name_iff:
  assumes "list_all is_canonical_tool_name names"
  shows "add_tool_name v (name_map_of names) = Inr maps \<longleftrightarrow>
    is_canonical_tool_name v \<and> v \<notin> set names \<and> maps = name_map_of (names @ [v])"
proof (cases "is_canonical_tool_name v \<and> v \<notin> set names")
  case True
  have fresh: "wire_name v \<notin> wire_name ` set names"
    using True assms wire_name_inj by (auto simp: list_all_iff)
  have to: "to_restricted_tool_name v = Inr (wire_name v)" "from_restricted_tool_name (wire_name v) = Inr v"
    using True by (simp_all add: to_restricted_iff from_restricted_iff)
  have none: "map_of (canonical_to_wire (name_map_of names)) v = None"
    "map_of (wire_to_canonical (name_map_of names)) (wire_name v) = None"
    using True fresh map_of_pairs[of "\<lambda>v. v" wire_name names v] map_of_pairs[of wire_name "\<lambda>v. v" names "wire_name v"]
    by (simp_all add: name_map_of_def)
  show ?thesis
    using True to none js_set_new[OF none(1)] js_set_new[OF none(2)]
    by (auto simp: add_tool_name_def validate_canonical_tool_name_def name_map_of_def)
next
  case False
  show ?thesis
  proof (cases "is_canonical_tool_name v")
    case True
    then have "map_of (canonical_to_wire (name_map_of names)) v \<noteq> None"
      using False map_of_pairs[of "\<lambda>v. v" wire_name names v] by (simp add: name_map_of_def)
    then show ?thesis
      using False True by (auto simp: add_tool_name_def validate_canonical_tool_name_def bind_result_Inr_iff)
  next
    case not: False
    then show ?thesis using False by (simp add: add_tool_name_def validate_canonical_tool_name_def)
  qed
qed

lemma add_tool_names_iff:
  "list_all is_canonical_tool_name done_names \<Longrightarrow> distinct done_names \<Longrightarrow>
   add_tool_names names (name_map_of done_names) = Inr maps \<longleftrightarrow>
     list_all is_canonical_tool_name names \<and> distinct (done_names @ names) \<and> maps = name_map_of (done_names @ names)"
proof (induction names arbitrary: done_names)
  case (Cons v names)
  show ?case
  proof (cases "is_canonical_tool_name v \<and> v \<notin> set done_names")
    case True
    then have "add_tool_name v (name_map_of done_names) = Inr (name_map_of (done_names @ [v]))"
      using add_tool_name_iff[OF Cons.prems(1), of v "name_map_of (done_names @ [v])"] by blast
    then show ?thesis using Cons.IH[of "done_names @ [v]"] Cons.prems True by auto
  next
    case False
    then have "\<not> (\<exists>m. add_tool_name v (name_map_of done_names) = Inr m)"
      using add_tool_name_iff[OF Cons.prems(1), of v] by blast
    then show ?thesis using False by (auto simp: bind_result_Inr_iff)
  qed
qed auto

text \<open>The name map of a catalog exists exactly when its names are canonical and distinct, and then it
  pairs every name with its restricted form, in both directions and in the order of the tools. Of the
  collision checks of the construction only the one on equal canonical names can ever fire.\<close>

theorem name_map_is_exact:
  "build_name_map names = Inr maps \<longleftrightarrow>
     list_all is_canonical_tool_name names \<and> distinct names \<and>
     maps = \<lparr>canonical_to_wire = map (\<lambda>v. (v, wire_name v)) names,
             wire_to_canonical = map (\<lambda>v. (wire_name v, v)) names\<rparr>"
  using add_tool_names_iff[of "[]" names maps] by (simp add: build_name_map_def name_map_of_def)

end
