(* ===== verification/Task_Queue.thy ===== *)
theory Task_Queue
  imports Job_Store
begin

text \<open>
  What the clients of the task queue share (\<open>apps/executor/src/queue.ts\<close>, \<open>jobs/handlers.ts\<close> and the
  admission half of \<open>submit\<close> in \<open>jobs/worker.ts\<close>): the results of a handler, the errors of the queue,
  readings of a clock, and the durable admission of a job.
\<close>

subsection \<open>Clocks\<close>

text \<open>
  A \<open>Date\<close> is an instant of at most \<open>8.64e15\<close> ms, or invalid. A reading of a clock is \<^term>\<open>None\<close> or
  outside of that range when the clock returns an invalid date.
\<close>

definition max_date :: int where
  "max_date = 8640000000000000"

definition date_in_range :: "int \<Rightarrow> bool" where
  "date_in_range ms \<longleftrightarrow> - max_date \<le> ms \<and> ms \<le> max_date"

definition read_clock :: "string \<Rightarrow> int option \<Rightarrow> int result" where
  "read_clock message reading = (case reading of
     None \<Rightarrow> Inl (Plain_Error message)
   | Some ms \<Rightarrow> if date_in_range ms then Inr ms else Inl (Plain_Error message))"

text \<open>\<open>new Date(ms).toISOString()\<close>\<close>

definition iso_string :: "int \<Rightarrow> timestamp result" where
  "iso_string ms = (if date_in_range ms then Inr (Iso ms) else Inl invalid_time_value)"

lemma read_clock_Inr_iff: "read_clock m r = Inr ms \<longleftrightarrow> r = Some ms \<and> date_in_range ms"
  by (auto simp: read_clock_def split: option.splits)

lemma iso_string_in_range [simp]: "date_in_range ms \<Longrightarrow> iso_string ms = Inr (Iso ms)"
  by (simp add: iso_string_def)

lemma iso_string_Inr_iff: "iso_string ms = Inr t \<longleftrightarrow> date_in_range ms \<and> t = Iso ms"
  by (auto simp: iso_string_def)

subsection \<open>Handlers\<close>

datatype job_handler_result =
    Handler_Complete
  | Handler_Cancelled
  | Handler_Reschedule timestamp
  | Handler_Fail safe_job_error_code

subsection \<open>Submission\<close>

definition queue_not_accepting :: js_error where
  "queue_not_accepting = Named_Error ''QueueNotAcceptingError'' ''The executor queue is not accepting new work.''"

definition queue_job_conflict :: js_error where
  "queue_job_conflict = Named_Error ''QueueJobConflictError''
     ''A deterministic job ID was reused with different immutable fields.''"

definition queue_clock :: "int option \<Rightarrow> int result" where
  "queue_clock = read_clock ''Queue clock returned an invalid date.''"

definition submission_envelope ::
    "(string list \<Rightarrow> string) \<Rightarrow> executor_job \<Rightarrow> submit_job_options \<Rightarrow> int option \<Rightarrow> job_envelope result" where
  "submission_envelope digest job options reading =
     bind_result (queue_clock reading) (\<lambda>now. create_job_envelope digest job options now)"

definition accept_job :: "job_envelope \<Rightarrow> int \<Rightarrow> job_store \<Rightarrow> job_store \<times> stored_job result" where
  "accept_job env wall js = (case ensure_job env wall js of
     Inl err \<Rightarrow> (js, Inl err)
   | Inr (js', Ensure_Conflict) \<Rightarrow> (js', Inl queue_job_conflict)
   | Inr (js', Job_Inserted row) \<Rightarrow> (js', Inr row)
   | Inr (js', Job_Existing row) \<Rightarrow> (js', Inr row))"

text \<open>
  \<open>await queue.submit(job, options).accepted\<close>: what the call throws and what its \<open>accepted\<close> promise
  rejects with are one result.
\<close>

definition submit_job ::
    "(string list \<Rightarrow> string) \<Rightarrow> bool \<Rightarrow> executor_job \<Rightarrow> submit_job_options \<Rightarrow> int option \<Rightarrow> int \<Rightarrow>
     job_store \<Rightarrow> job_store \<times> stored_job result" where
  "submit_job digest accepting job options reading wall js =
     (if \<not> accepting then (js, Inl queue_not_accepting)
      else case submission_envelope digest job options reading of
        Inl err \<Rightarrow> (js, Inl err)
      | Inr env \<Rightarrow> accept_job env wall js)"

end
