(* ===== verification/History.thy ===== *)
theory History
  imports Prelude
begin

text \<open>
  Histories of calls. Every store is proved over all sequences of its calls: an operation that fails keeps
  the state, an invariant kept by each operation holds after every history, and a fact about the state
  that the operations of a history keep holds at its end.
\<close>

locale call_history =
  fixes inv :: "'s \<Rightarrow> bool"
    and step :: "'op \<Rightarrow> 's \<Rightarrow> 's"
    and steps :: "'op list \<Rightarrow> 's \<Rightarrow> 's"
  assumes steps_Nil: "steps [] st = st"
    and steps_Cons: "steps (op # ops) st = steps ops (step op st)"
    and step_inv: "inv st \<Longrightarrow> inv (step op st)"
begin

lemma steps_fold: "steps ops st = fold step ops st"
  by (induction ops arbitrary: st) (simp_all add: steps_Nil steps_Cons)

lemma steps_append: "steps (ops @ ops') st = steps ops' (steps ops st)"
  by (simp add: steps_fold)

lemma steps_inv: "inv st \<Longrightarrow> inv (steps ops st)"
  by (induction ops arbitrary: st) (simp_all add: steps_Nil steps_Cons step_inv)

lemma step_after: "inv st \<Longrightarrow> inv (step op (steps ops st))"
  by (intro step_inv steps_inv)

lemma steps_keep:
  assumes keep: "\<And>op st. inv st \<Longrightarrow> K st \<Longrightarrow> ok op \<Longrightarrow> K (step op st)"
    and "inv st" "K st" "list_all ok ops"
  shows "K (steps ops st)"
  using assms(2-4) by (induction ops arbitrary: st) (simp_all add: steps_Nil steps_Cons keep step_inv)

end

end
