(* ===== verification/Usage_Outbox.thy ===== *)
theory Usage_Outbox
  imports Complex_Main Task_Queue History Execution_Types
begin

text \<open>
  The durable outbox of usage work (\<open>apps/executor/src/usage/outbox.ts\<close>): one row per execution, which is
  either the report of an execution that may have been dispatched or the release of its reservation. The
  order of \<open>localeCompare\<close> is a parameter, \<open>collate\<close>: the place of a string in it (a rational, which
  leaves room for any countable order). \<open>isDeepStrictEqual\<close> on payloads is equality.
\<close>

subsection \<open>Data\<close>

datatype outbox_state = Usage_Pending | Usage_Sent | Usage_Failed

record usage_report_payload =
  up_project :: string
  up_execution :: string
  up_cloud_execution :: "string option"
  up_idempotency_key :: string
  up_occurred_at :: timestamp

record usage_release_payload =
  ul_project :: string
  ul_execution :: string
  ul_reservation :: string
  ul_idempotency_key :: string
  ul_cloud_execution :: "string option"
  ul_reserved_at :: "timestamp option"

text \<open>A report has the dimension \<open>execution\<close> and the quantity 1, a release the operation \<open>release\<close>.\<close>

datatype usage_payload = Usage_Report usage_report_payload | Usage_Release usage_release_payload

fun is_usage_release_payload :: "usage_payload \<Rightarrow> bool" where
  "is_usage_release_payload (Usage_Release _) \<longleftrightarrow> True"
| "is_usage_release_payload (Usage_Report _) \<longleftrightarrow> False"

fun payload_execution :: "usage_payload \<Rightarrow> string" where
  "payload_execution (Usage_Report p) = up_execution p"
| "payload_execution (Usage_Release p) = ul_execution p"

record outbox_record =
  ob_execution :: string
  ob_payload :: usage_payload
  ob_state :: outbox_state
  ob_attempts :: int
  ob_next_retry_at :: timestamp
  ob_created_at :: timestamp
  ob_updated_at :: timestamp
  ob_sent_at :: "timestamp option"

record usage_outbox_failure =
  uf_execution :: string
  uf_next_retry_at :: timestamp

type_synonym usage_outbox = "(string \<times> outbox_record) list"

subsection \<open>Operations\<close>

definition assert_timestamp :: "timestamp \<Rightarrow> string \<Rightarrow> unit result" where
  "assert_timestamp t what = (if valid_time t then Inr () else Inl (Type_Error (what @ '' must be a valid timestamp.'')))"

definition assert_limit :: "int \<Rightarrow> unit result" where
  "assert_limit limit = (if \<not> is_safe_integer limit \<or> limit < 1 \<or> limit > 50
     then Inl (Range_Error ''Usage outbox batch limit must be from 1 through 50.'') else Inr ())"

definition same_usage_payload :: "usage_payload \<Rightarrow> usage_payload \<Rightarrow> bool" where
  "same_usage_payload l r \<longleftrightarrow> l = r"

definition new_outbox_record :: "usage_payload \<Rightarrow> timestamp \<Rightarrow> outbox_record" where
  "new_outbox_record p t = \<lparr>ob_execution = payload_execution p, ob_payload = p, ob_state = Usage_Pending,
     ob_attempts = 0, ob_next_retry_at = t, ob_created_at = t, ob_updated_at = t, ob_sent_at = None\<rparr>"

definition enqueue_usage :: "usage_payload \<Rightarrow> timestamp \<Rightarrow> usage_outbox \<Rightarrow> usage_outbox result" where
  "enqueue_usage p t st =
     bind_result (assert_timestamp t ''Usage outbox enqueue time'') (\<lambda>_.
       case map_of st (payload_execution p) of
         Some existing \<Rightarrow>
           if \<not> same_usage_payload (ob_payload existing) p
           then Inl (Plain_Error (''Usage outbox execution '' @ payload_execution p @ '' has conflicting payloads.''))
           else Inr st
       | None \<Rightarrow> Inr (js_set (payload_execution p) (new_outbox_record p t) st))"

definition get_usage :: "string \<Rightarrow> usage_outbox \<Rightarrow> outbox_record option" where
  "get_usage k st = map_of st k"

definition usage_ready :: "int \<Rightarrow> bool \<Rightarrow> outbox_record \<Rightarrow> bool" where
  "usage_ready now include_deferred r \<longleftrightarrow> ob_state r \<noteq> Usage_Sent \<and>
     (include_deferred \<or> num_le (date_parse (ob_next_retry_at r)) (Some now))"

definition usage_order :: "(string \<Rightarrow> rat) \<Rightarrow> outbox_record \<Rightarrow> int \<times> int \<times> rat" where
  "usage_order collate r = (time_ms (ob_next_retry_at r), time_ms (ob_created_at r), collate (ob_execution r))"

definition list_ready ::
    "(string \<Rightarrow> rat) \<Rightarrow> timestamp \<Rightarrow> int \<Rightarrow> bool \<Rightarrow> usage_outbox \<Rightarrow> outbox_record list result" where
  "list_ready collate now limit include_deferred st =
     bind_result (assert_timestamp now ''Usage outbox read time'') (\<lambda>_.
     bind_result (assert_limit limit) (\<lambda>_.
       Inr (take (nat limit) (sort_key (usage_order collate)
         (filter (usage_ready (time_ms now) include_deferred) (js_values st))))))"

definition sent_record :: "timestamp \<Rightarrow> outbox_record \<Rightarrow> outbox_record" where
  "sent_record t r = r\<lparr>ob_state := Usage_Sent, ob_next_retry_at := t, ob_updated_at := t, ob_sent_at := Some t\<rparr>"

definition mark_one_sent :: "timestamp \<Rightarrow> string \<Rightarrow> usage_outbox \<Rightarrow> usage_outbox" where
  "mark_one_sent t k st = (case map_of st k of
     None \<Rightarrow> st
   | Some r \<Rightarrow> if ob_state r = Usage_Sent then st else js_set k (sent_record t r) st)"

definition mark_sent :: "string list \<Rightarrow> timestamp \<Rightarrow> usage_outbox \<Rightarrow> usage_outbox result" where
  "mark_sent ids t st =
     bind_result (assert_timestamp t ''Usage outbox sent time'') (\<lambda>_. Inr (fold (mark_one_sent t) ids st))"

definition failed_record :: "timestamp \<Rightarrow> timestamp \<Rightarrow> outbox_record \<Rightarrow> outbox_record" where
  "failed_record next t r = r\<lparr>ob_state := Usage_Failed, ob_attempts := ob_attempts r + 1,
     ob_next_retry_at := next, ob_updated_at := t\<rparr>"

definition mark_one_failed :: "timestamp \<Rightarrow> usage_outbox_failure \<Rightarrow> usage_outbox \<Rightarrow> usage_outbox" where
  "mark_one_failed t f st = (case map_of st (uf_execution f) of
     None \<Rightarrow> st
   | Some r \<Rightarrow> if ob_state r = Usage_Sent then st
       else js_set (uf_execution f) (failed_record (uf_next_retry_at f) t r) st)"

text \<open>The loop checks each retry time before its write; a throw keeps the earlier writes.\<close>

fun mark_each_failed ::
    "timestamp \<Rightarrow> usage_outbox_failure list \<Rightarrow> usage_outbox \<Rightarrow> usage_outbox \<times> unit result" where
  "mark_each_failed t [] st = (st, Inr ())"
| "mark_each_failed t (f # fs) st =
     (case assert_timestamp (uf_next_retry_at f) ''Usage outbox retry time'' of
        Inl err \<Rightarrow> (st, Inl err)
      | Inr _ \<Rightarrow> mark_each_failed t fs (mark_one_failed t f st))"

definition mark_failed ::
    "usage_outbox_failure list \<Rightarrow> timestamp \<Rightarrow> usage_outbox \<Rightarrow> usage_outbox \<times> unit result" where
  "mark_failed fs t st = (case assert_timestamp t ''Usage outbox failure time'' of
     Inl err \<Rightarrow> (st, Inl err) | Inr _ \<Rightarrow> mark_each_failed t fs st)"

definition usage_depth :: "usage_outbox \<Rightarrow> nat" where
  "usage_depth st = length (filter (\<lambda>r. ob_state r \<noteq> Usage_Sent) (js_values st))"

subsection \<open>Histories\<close>

datatype usage_op =
    Uop_Enqueue usage_payload timestamp
  | Uop_Sent "string list" timestamp
  | Uop_Failed "usage_outbox_failure list" timestamp

fun run_usage_op :: "usage_op \<Rightarrow> usage_outbox \<Rightarrow> usage_outbox" where
  "run_usage_op (Uop_Enqueue p t) st = (case enqueue_usage p t st of Inl _ \<Rightarrow> st | Inr st' \<Rightarrow> st')"
| "run_usage_op (Uop_Sent ids t) st = (case mark_sent ids t st of Inl _ \<Rightarrow> st | Inr st' \<Rightarrow> st')"
| "run_usage_op (Uop_Failed fs t) st = fst (mark_failed fs t st)"

fun run_usage_ops :: "usage_op list \<Rightarrow> usage_outbox \<Rightarrow> usage_outbox" where
  "run_usage_ops [] st = st"
| "run_usage_ops (op # ops) st = run_usage_ops ops (run_usage_op op st)"

definition usage_row_wf :: "string \<Rightarrow> outbox_record \<Rightarrow> bool" where
  "usage_row_wf k r \<longleftrightarrow> ob_execution r = k \<and> payload_execution (ob_payload r) = k \<and>
     valid_time (ob_next_retry_at r) \<and> valid_time (ob_created_at r) \<and> 0 \<le> ob_attempts r \<and>
     (ob_sent_at r \<noteq> None) = (ob_state r = Usage_Sent) \<and>
     (ob_state r = Usage_Pending \<longrightarrow> ob_attempts r = 0) \<and> (ob_state r = Usage_Failed \<longrightarrow> 1 \<le> ob_attempts r)"

definition usage_outbox_wf :: "usage_outbox \<Rightarrow> bool" where
  "usage_outbox_wf st \<longleftrightarrow> distinct_keys st \<and> all_entries usage_row_wf st"

text \<open>What a row keeps for ever; a sent one keeps everything.\<close>

definition usage_row_kept :: "outbox_record \<Rightarrow> outbox_record \<Rightarrow> bool" where
  "usage_row_kept r r' \<longleftrightarrow> ob_execution r' = ob_execution r \<and> ob_payload r' = ob_payload r \<and>
     ob_created_at r' = ob_created_at r \<and> ob_attempts r \<le> ob_attempts r' \<and> (ob_state r = Usage_Sent \<longrightarrow> r' = r)"

definition usage_kept :: "usage_outbox \<Rightarrow> usage_outbox \<Rightarrow> bool" where
  "usage_kept st st' \<longleftrightarrow> (\<forall>k r. map_of st k = Some r \<longrightarrow> (\<exists>r'. map_of st' k = Some r' \<and> usage_row_kept r r'))"

lemma usage_row_kept_refl [simp]: "usage_row_kept r r"
  by (simp add: usage_row_kept_def)

lemma usage_row_kept_trans: "usage_row_kept a b \<Longrightarrow> usage_row_kept b c \<Longrightarrow> usage_row_kept a c"
  by (auto simp: usage_row_kept_def)

lemma usage_kept_refl [simp]: "usage_kept st st"
  by (simp add: usage_kept_def)

lemma usage_kept_trans: "usage_kept a b \<Longrightarrow> usage_kept b c \<Longrightarrow> usage_kept a c"
  unfolding usage_kept_def by (meson usage_row_kept_trans)

text \<open>A write of one row that is kept.\<close>

definition usage_write :: "usage_outbox \<Rightarrow> usage_outbox \<Rightarrow> bool" where
  "usage_write st st' \<longleftrightarrow> (usage_outbox_wf st \<longrightarrow> usage_outbox_wf st' \<and> usage_kept st st')"

lemma usage_write_refl [simp]: "usage_write st st"
  by (simp add: usage_write_def)

lemma usage_write_trans: "usage_write a b \<Longrightarrow> usage_write b c \<Longrightarrow> usage_write a c"
  by (auto simp: usage_write_def intro: usage_kept_trans)

lemma usage_write_old:
  assumes "map_of st k = Some r" "usage_row_kept r r'" "usage_row_wf k r \<Longrightarrow> usage_row_wf k r'"
  shows "usage_write st (js_set k r' st)"
  using assms by (auto simp: usage_write_def usage_outbox_wf_def usage_kept_def all_entries_def)

lemma usage_write_new:
  assumes "map_of st k = None" "usage_row_wf k r"
  shows "usage_write st (js_set k r st)"
  using assms by (auto simp: usage_write_def usage_outbox_wf_def usage_kept_def all_entries_def)

lemma enqueue_write: "enqueue_usage p t st = Inr st' \<Longrightarrow> usage_write st st'"
  by (auto simp: enqueue_usage_def bind_result_Inr_iff assert_timestamp_def usage_row_wf_def new_outbox_record_def
      split: option.splits if_splits intro!: usage_write_new)

lemma mark_one_sent_write: "valid_time t \<Longrightarrow> usage_write st (mark_one_sent t k st)"
  by (auto simp: mark_one_sent_def usage_row_wf_def usage_row_kept_def sent_record_def split: option.split
      intro!: usage_write_old)

lemma mark_one_failed_write: "valid_time (uf_next_retry_at f) \<Longrightarrow> usage_write st (mark_one_failed t f st)"
  by (auto simp: mark_one_failed_def usage_row_wf_def usage_row_kept_def failed_record_def split: option.split
      intro!: usage_write_old)

lemma mark_sent_write: "mark_sent ids t st = Inr st' \<Longrightarrow> usage_write st st'"
proof -
  have "valid_time t \<Longrightarrow> usage_write st (fold (mark_one_sent t) ids st)" for st
    by (induction ids arbitrary: st) (auto intro: usage_write_trans mark_one_sent_write)
  then show "mark_sent ids t st = Inr st' \<Longrightarrow> usage_write st st'"
    by (auto simp: mark_sent_def bind_result_Inr_iff assert_timestamp_def split: if_splits)
qed

lemma mark_each_failed_write: "usage_write st (fst (mark_each_failed t fs st))"
proof (induction fs arbitrary: st)
  case (Cons f fs)
  show ?case
    using usage_write_trans[OF mark_one_failed_write Cons.IH] by (simp add: assert_timestamp_def)
qed simp

lemma run_usage_op_write: "usage_write st (run_usage_op op st)"
  by (cases op)
    (auto simp: enqueue_write mark_sent_write mark_each_failed_write mark_failed_def split: sum.split)

interpretation usage_history: call_history usage_outbox_wf run_usage_op run_usage_ops
proof unfold_locales
  show "usage_outbox_wf st \<Longrightarrow> usage_outbox_wf (run_usage_op op st)" for op st
    using run_usage_op_write[of st op] by (simp add: usage_write_def)
qed simp_all

lemma empty_outbox_wf [simp]: "usage_outbox_wf []"
  by (simp add: usage_outbox_wf_def)

lemma run_usage_ops_kept: "usage_outbox_wf st \<Longrightarrow> usage_kept st (run_usage_ops ops st)"
proof (induction ops arbitrary: st)
  case (Cons op ops)
  then show ?case
    using run_usage_op_write[of st op] usage_kept_trans by (auto simp: usage_write_def)
qed simp

text \<open>C36: Usage work is recorded once and never lost. After an accepted enqueue of a payload, in any history of
  the outbox and through any later history, the row of its execution is there with that very payload and its
  first enqueue time, its attempts only grow, and once it is marked sent it never changes again; enqueuing the
  payload again changes nothing, and any other payload for the execution is refused.\<close>

theorem usage_work_is_recorded_once:
  assumes "enqueue_usage p t (run_usage_ops ops []) = Inr st" "valid_time t'"
  shows "\<exists>r r'. map_of st (payload_execution p) = Some r \<and>
    map_of (run_usage_ops later st) (payload_execution p) = Some r' \<and> ob_payload r' = p \<and>
    ob_created_at r' = ob_created_at r \<and> ob_attempts r \<le> ob_attempts r' \<and> (ob_state r = Usage_Sent \<longrightarrow> r' = r) \<and>
    enqueue_usage p t' (run_usage_ops later st) = Inr (run_usage_ops later st) \<and>
    (\<forall>q. payload_execution q = payload_execution p \<longrightarrow> q \<noteq> p \<longrightarrow> isl (enqueue_usage q t' (run_usage_ops later st)))"
proof -
  have wf: "usage_outbox_wf st"
    using enqueue_write[OF assms(1)] usage_history.steps_inv[OF empty_outbox_wf, of ops] by (simp add: usage_write_def)
  obtain r where r: "map_of st (payload_execution p) = Some r" "ob_payload r = p"
    using assms(1)
    by (auto simp: enqueue_usage_def bind_result_Inr_iff new_outbox_record_def same_usage_payload_def
        split: option.splits if_splits)
  obtain r' where r': "map_of (run_usage_ops later st) (payload_execution p) = Some r'" "usage_row_kept r r'"
    using run_usage_ops_kept[OF wf, of later] r(1) by (auto simp: usage_kept_def)
  show ?thesis
    using r r' assms(2)
    by (auto simp: usage_row_kept_def enqueue_usage_def assert_timestamp_def same_usage_payload_def)
qed

end
