(* ===== verification/Doubles.thy ===== *)
theory Doubles
  imports Prelude Complex_Main "HOL-Library.Log_Nat"
begin

text \<open>
  JavaScript numbers with a fractional part. A finite double is the rational it stands for, and an
  arithmetic operation of the source is the exact operation followed by the rounding to the nearest double,
  ties to even. Integers below \<open>2 ^ 53\<close> are exact, and rounding respects every bound that is a multiple of
  the unit in the last place.
\<close>

subsection \<open>Double arithmetic\<close>

definition round_even :: "rat \<Rightarrow> int" where
  "round_even q =
     (let f = \<lfloor>q\<rfloor>; d = q - of_int f in
      if d < 1 / 2 then f else if d > 1 / 2 then f + 1 else if even f then f else f + 1)"

text \<open>The \<open>e\<close> with \<open>2 powi e \<le> x < 2 powi (e + 1)\<close>, for a positive \<open>x\<close>.\<close>

definition binary_exponent :: "rat \<Rightarrow> int" where
  "binary_exponent x =
     (let (a, b) = quotient_of x;
          e = bitlen a - bitlen b in
      if 2 powi e \<le> x then e else e - 1)"

text \<open>
  Rounding to 53 significant bits, subnormals included. The magnitudes of the program stay far below
  the overflow threshold.
\<close>

definition double :: "rat \<Rightarrow> rat" where
  "double x =
     (if x = 0 then 0
      else let q = 2 powi (max (binary_exponent \<bar>x\<bar>) (- 1022) - 52) in
           sgn x * of_int (round_even (\<bar>x\<bar> / q)) * q)"

definition number_epsilon :: rat where
  "number_epsilon = 1 / 2 ^ 52"

subsection \<open>Rounding to doubles\<close>

lemma round_even_mono_int:
  assumes "x \<le> of_int n"
  shows "round_even x \<le> n"
proof -
  have "\<lfloor>x\<rfloor> \<le> n" using assms by (simp add: floor_le_iff)
  moreover have "x - of_int \<lfloor>x\<rfloor> = 0" if "\<lfloor>x\<rfloor> = n"
    using assms that of_int_floor_le[of x] by simp
  ultimately show ?thesis
    by (cases "\<lfloor>x\<rfloor> = n") (auto simp: round_even_def Let_def)
qed

lemma round_even_ge_int:
  assumes "of_int n \<le> x"
  shows "n \<le> round_even x"
proof -
  have "n \<le> \<lfloor>x\<rfloor>" using assms by (simp add: le_floor_iff)
  then show ?thesis by (auto simp: round_even_def Let_def)
qed

lemma round_even_int [simp]: "round_even (of_int n) = n"
  using round_even_mono_int[of "of_int n" n] round_even_ge_int[of n "of_int n"] by simp

lemma binary_exponent_bounds:
  assumes "0 < x"
  shows "2 powi (binary_exponent x) \<le> x \<and> x < 2 powi (binary_exponent x + 1)"
proof -
  obtain a b where ab: "quotient_of x = (a, b)" by fastforce
  have b: "0 < b" using quotient_of_denom_pos[OF ab] .
  have x: "x = of_int a / of_int b" using quotient_of_div[OF ab] .
  then have a: "0 < a" using assms b by (simp add: zero_less_divide_iff)
  have bits: "2 powi (bitlen n - 1) \<le> (of_int n :: rat) \<and> (of_int n :: rat) < 2 powi bitlen n" if "0 < n" for n
  proof -
    have "1 \<le> bitlen n" using that by (simp add: bitlen_ge_iff_power)
    moreover have "(of_int (2 ^ nat (bitlen n - 1)) :: rat) \<le> of_int n" "(of_int n :: rat) < of_int (2 ^ nat (bitlen n))"
      using bitlen_bounds[OF that] by (simp_all only: of_int_le_iff of_int_less_iff)
    ultimately show ?thesis by (simp add: power_int_def)
  qed
  let ?e = "bitlen a - bitlen b"
  have upper: "x < 2 powi (?e + 1)"
  proof -
    have "x * of_int b = of_int a" using x b by simp
    also have "\<dots> < 2 powi bitlen a" using bits[OF a] by simp
    also have "\<dots> = 2 powi (?e + 1) * 2 powi (bitlen b - 1)" by (simp flip: power_int_add)
    also have "\<dots> \<le> 2 powi (?e + 1) * of_int b" using bits[OF b] by (intro mult_left_mono) simp_all
    finally show ?thesis using b by simp
  qed
  have lower: "2 powi (?e - 1) \<le> x"
  proof -
    have "(2 :: rat) powi (?e - 1) * of_int b \<le> 2 powi (?e - 1) * 2 powi bitlen b"
      using bits[OF b] by (intro mult_left_mono) simp_all
    also have "\<dots> = 2 powi (bitlen a - 1)" by (simp flip: power_int_add)
    also have "\<dots> \<le> of_int a" using bits[OF a] by simp
    also have "\<dots> = x * of_int b" using x b by simp
    finally show ?thesis using b by simp
  qed
  show ?thesis
    using upper lower by (simp add: binary_exponent_def ab Let_def not_le)
qed

text \<open>The unit in the last place.\<close>

definition ulp :: "rat \<Rightarrow> rat" where
  "ulp x = 2 powi (max (binary_exponent x) (- 1022) - 52)"

lemma ulp_pos: "0 < ulp x"
  by (simp add: ulp_def)

lemma double_pos: "0 < x \<Longrightarrow> double x = of_int (round_even (x / ulp x)) * ulp x"
  by (simp add: double_def ulp_def Let_def)

lemma round_even_nonneg: "0 \<le> x \<Longrightarrow> 0 \<le> round_even x"
  using round_even_ge_int[of 0 x] by simp

lemma double_nonpos:
  assumes "x \<le> 0"
  shows "double x \<le> 0"
proof (cases "x = 0")
  case False
  let ?q = "(2 :: rat) powi (max (binary_exponent \<bar>x\<bar>) (- 1022) - 52)"
  have "0 \<le> of_int (round_even (\<bar>x\<bar> / ?q)) * ?q"
    by (intro mult_nonneg_nonneg) (simp_all add: round_even_nonneg)
  then show ?thesis using assms False by (simp add: double_def Let_def)
qed (simp add: double_def)

text \<open>An integer number of units is a bound that rounding respects.\<close>

lemma double_le:
  assumes "x \<le> of_int m * ulp x" "0 \<le> m"
  shows "double x \<le> of_int m * ulp x"
proof (cases "0 < x")
  case True
  have "x / ulp x \<le> of_int m" using assms(1) ulp_pos by (simp add: pos_divide_le_eq)
  from round_even_mono_int[OF this] show ?thesis
    using True ulp_pos by (simp add: double_pos mult_right_mono)
next
  case False
  then have "double x \<le> 0" by (intro double_nonpos) simp
  moreover have "0 \<le> of_int m * ulp x" using assms(2) ulp_pos[of x] by simp
  ultimately show ?thesis by linarith
qed

lemma double_ge:
  assumes "of_int m * ulp x \<le> x" "0 < x"
  shows "of_int m * ulp x \<le> double x"
proof -
  have "of_int m \<le> x / ulp x" using assms(1) ulp_pos by (simp add: pos_le_divide_eq)
  from round_even_ge_int[OF this] show ?thesis
    using assms(2) ulp_pos by (simp add: double_pos mult_right_mono)
qed

text \<open>Multiples of \<open>2 powi j\<close> are whole numbers of units as soon as the unit is at most \<open>2 powi j\<close>.\<close>

lemma units:
  assumes "max (binary_exponent x) (- 1022) - 52 \<le> j"
  obtains m where "0 \<le> m" "2 powi j = of_int m * ulp x"
proof -
  let ?d = "j - (max (binary_exponent x) (- 1022) - 52)"
  have "2 powi j = (2 :: rat) powi ?d * ulp x" by (simp add: ulp_def flip: power_int_add)
  moreover have "(2 :: rat) powi ?d = of_int (2 ^ nat ?d)" using assms by (simp add: power_int_def)
  ultimately show thesis using that[of "2 ^ nat ?d"] by simp
qed

lemma exponent_less:
  assumes "0 < x" "x < 2 powi j"
  shows "binary_exponent x < j"
proof -
  have less: "(2 :: rat) powi binary_exponent x < 2 powi j"
    using binary_exponent_bounds[OF assms(1)] assms(2) by linarith
  show ?thesis
  proof (rule ccontr)
    assume "\<not> binary_exponent x < j"
    then have "(2 :: rat) powi j \<le> 2 powi binary_exponent x" by (intro power_int_increasing) simp_all
    then show False using less by simp
  qed
qed

lemma whole_units:
  assumes "0 < x" "x < 2 ^ 53" "0 \<le> n"
  obtains m where "0 \<le> m" "of_int n = of_int m * ulp x"
proof -
  have "x < 2 powi 53" using assms(2) by (simp add: power_int_def)
  then have "binary_exponent x < 53" by (rule exponent_less[OF assms(1)])
  then obtain m where "0 \<le> m" "2 powi 0 = of_int m * ulp x" using units[of x 0] by auto
  then show thesis using that[of "n * m"] assms(3) by simp
qed

lemma double_le_int:
  assumes "x \<le> of_int n" "0 \<le> n" "n < 2 ^ 53"
  shows "double x \<le> of_int n"
proof (cases "0 < x")
  case True
  have "of_int n < (2 ^ 53 :: rat)" using assms(3) by (simp flip: of_int_less_iff)
  then have "x < 2 ^ 53" using assms(1) by linarith
  then obtain m where m: "0 \<le> m" "of_int n = of_int m * ulp x" using whole_units[OF True _ assms(2)] by blast
  show ?thesis unfolding m(2) by (rule double_le) (use assms(1) m in simp_all)
next
  case False
  then have "double x \<le> 0" by (intro double_nonpos) simp
  also have "0 \<le> rat_of_int n" using assms(2) by simp
  finally show ?thesis .
qed

lemma double_ge_one:
  assumes "1 \<le> x" "x < 2 ^ 53"
  shows "1 \<le> double x"
proof -
  have x: "0 < x" using assms(1) by simp
  obtain m where m: "of_int 1 = of_int m * ulp x" using whole_units[OF x assms(2), of 1] by auto
  show ?thesis using double_ge[of m x] m assms(1) x by simp
qed

lemma double_int:
  assumes "0 \<le> n" "n < 2 ^ 53"
  shows "double (of_int n) = of_int n"
proof (cases "n = 0")
  case False
  then have pos: "0 < rat_of_int n" using assms(1) by simp
  have small: "rat_of_int n < 2 ^ 53" using assms(2) by (simp flip: of_int_less_iff)
  obtain m where m: "0 \<le> m" "of_int n = of_int m * ulp (of_int n)" using whole_units[OF pos small assms(1)] by blast
  show ?thesis
    using double_le_int[of "of_int n" n] assms double_ge[of m "of_int n"] m(2) pos by simp
qed (simp add: double_def)

lemma double_below_one:
  assumes "x \<le> 1 / 2"
  shows "double x < 1"
proof (cases "0 < x")
  case True
  have "x < 2 powi 0" using assms by simp
  then have "binary_exponent x < 0" by (rule exponent_less[OF True])
  then obtain m where m: "0 \<le> m" "2 powi (- 1) = of_int m * ulp x" using units[of x "- 1"] by auto
  have half: "of_int m * ulp x = 1 / 2" using m(2) by (simp add: power_int_def)
  have "double x \<le> of_int m * ulp x" by (rule double_le) (use assms half m(1) in simp_all)
  then show ?thesis using half by simp
next
  case False
  then have "double x \<le> 0" by (intro double_nonpos) simp
  then show ?thesis by simp
qed

end
