(* ===== verification/Webhook_Signatures.thy ===== *)
theory Webhook_Signatures
  imports Doubles
begin

text \<open>
  Signed webhook requests (\<open>createWebhookSignature\<close> and \<open>verifyWebhookSignature\<close> of
  \<open>packages/core/src/webhooks.ts\<close>). The HMAC of the platform is a parameter \<open>hmac key message\<close> that
  gives lowercase hexadecimal text; messages are strings.
\<close>

subsection \<open>Decimal and hexadecimal text\<close>

definition digit_char :: "nat \<Rightarrow> char" where
  "digit_char d = char_of (48 + d)"

fun nat_text :: "nat \<Rightarrow> string" where
  "nat_text n = (if n < 10 then [digit_char n] else nat_text (n div 10) @ [digit_char (n mod 10)])"

declare nat_text.simps [simp del]

text \<open>\<open>String(n)\<close> of an integer below \<open>10 ^ 21\<close>.\<close>

definition int_text :: "int \<Rightarrow> string" where
  "int_text n = (if n < 0 then CHR ''-'' # nat_text (nat (- n)) else nat_text (nat n))"

definition decimal_char :: "char \<Rightarrow> bool" where
  "decimal_char c \<longleftrightarrow> (let n = of_char c :: nat in 48 \<le> n \<and> n \<le> 57)"

definition decimal_value :: "string \<Rightarrow> nat" where
  "decimal_value s = foldl (\<lambda>v c. 10 * v + (of_char c - 48)) 0 s"

definition hex_digit :: "char \<Rightarrow> nat option" where
  "hex_digit c = (let n = of_char c :: nat in
     if 48 \<le> n \<and> n \<le> 57 then Some (n - 48)
     else if 97 \<le> n \<and> n \<le> 102 then Some (n - 87)
     else if 65 \<le> n \<and> n \<le> 70 then Some (n - 55) else None)"

text \<open>\<open>Buffer.from(s, "hex")\<close>: whole bytes up to the first character that is no digit.\<close>

fun hex_bytes :: "string \<Rightarrow> nat list" where
  "hex_bytes (a # b # s) = (case (hex_digit a, hex_digit b) of
     (Some x, Some y) \<Rightarrow> (16 * x + y) # hex_bytes s | _ \<Rightarrow> [])"
| "hex_bytes _ = []"

definition lower_hex :: "char \<Rightarrow> bool" where
  "lower_hex c \<longleftrightarrow> decimal_char c \<or> (let n = of_char c :: nat in 97 \<le> n \<and> n \<le> 102)"

subsection \<open>Headers\<close>

definition webhook_timestamp_tolerance_ms :: int where "webhook_timestamp_tolerance_ms = 5 * 60 * 1000"
definition webhook_id_header :: string where "webhook_id_header = ''Eyeball-Webhook-Id''"
definition webhook_timestamp_header :: string where "webhook_timestamp_header = ''Eyeball-Webhook-Timestamp''"
definition webhook_signature_header :: string where "webhook_signature_header = ''Eyeball-Webhook-Signature''"
definition webhook_timestamp_header_alias :: string where "webhook_timestamp_header_alias = ''Eyeball-Timestamp''"
definition webhook_signature_header_alias :: string where "webhook_signature_header_alias = ''Eyeball-Signature''"

text \<open>A \<open>Headers\<close> object is what its \<open>get\<close> answers; a plain record has values that may be lists or missing.\<close>

datatype header_value = One_Value string | Many_Values "string list" | No_Value

datatype header_source = Headers_Object "string \<Rightarrow> string option" | Header_Record "(string \<times> header_value) list"

text \<open>\<open>toLowerCase\<close> on the first 256 code points.\<close>

definition lower_char :: "char \<Rightarrow> char" where
  "lower_char c = (let n = of_char c :: nat in
     if (65 \<le> n \<and> n \<le> 90) \<or> (192 \<le> n \<and> n \<le> 222 \<and> n \<noteq> 215) then char_of (n + 32) else c)"

definition to_lower_case :: "string \<Rightarrow> string" where
  "to_lower_case s = map lower_char s"

fun header_in_record :: "string \<Rightarrow> (string \<times> header_value) list \<Rightarrow> string option" where
  "header_in_record expected [] = None"
| "header_in_record expected ((key, v) # rest) =
     (if to_lower_case key \<noteq> expected then header_in_record expected rest
      else case v of
        One_Value s \<Rightarrow> Some s
      | Many_Values [] \<Rightarrow> None
      | Many_Values (s # ss) \<Rightarrow> Some s
      | No_Value \<Rightarrow> None)"

definition header_value_of :: "header_source \<Rightarrow> string \<Rightarrow> string option" where
  "header_value_of headers what = (case headers of
     Headers_Object lookup \<Rightarrow> lookup what
   | Header_Record entries \<Rightarrow> header_in_record (to_lower_case what) entries)"

definition first_header :: "header_source \<Rightarrow> string \<Rightarrow> string \<Rightarrow> string option" where
  "first_header headers what fallback = (case header_value_of headers what of
     Some s \<Rightarrow> Some s | None \<Rightarrow> header_value_of headers fallback)"

subsection \<open>Signing and verification\<close>

type_synonym hmac = "string \<Rightarrow> string \<Rightarrow> string"

definition create_webhook_signature :: "hmac \<Rightarrow> string \<Rightarrow> string \<Rightarrow> string \<Rightarrow> string" where
  "create_webhook_signature hmac payload secret stamp = ''v1='' @ hmac secret (stamp @ ''.'' @ payload)"

text \<open>
  The tolerance and the clock are \<open>None\<close> when they are not finite. The difference of the instants is
  computed in doubles.
\<close>

record verify_options =
  vo_payload :: string
  vo_headers :: header_source
  vo_secret :: string
  vo_tolerance_ms :: "int option"
  vo_now_ms :: "int option"

definition timestamp_shape :: "string \<Rightarrow> bool" where
  "timestamp_shape s \<longleftrightarrow> 1 \<le> length s \<and> length s \<le> 16 \<and> list_all decimal_char s"

definition signature_shape :: "string \<Rightarrow> bool" where
  "signature_shape s \<longleftrightarrow> take 3 s = ''v1='' \<and> length s = 67 \<and> list_all lower_hex (drop 3 s)"

definition timestamp_ms :: "string \<Rightarrow> rat" where
  "timestamp_ms s = double (double (of_nat (decimal_value s)) * 1000)"

definition verify_webhook_signature :: "hmac \<Rightarrow> verify_options \<Rightarrow> bool" where
  "verify_webhook_signature hmac opts =
     (case vo_tolerance_ms opts of
        None \<Rightarrow> False
      | Some tolerance \<Rightarrow>
          if tolerance < 0 \<or> vo_secret opts = [] then False
          else case (first_header (vo_headers opts) webhook_timestamp_header webhook_timestamp_header_alias,
                     first_header (vo_headers opts) webhook_signature_header webhook_signature_header_alias) of
            (Some stamp, Some signature) \<Rightarrow>
              if \<not> timestamp_shape stamp \<or> \<not> signature_shape signature then False
              else (case vo_now_ms opts of
                 None \<Rightarrow> False
               | Some now \<Rightarrow>
                   if \<bar>double (of_int now - timestamp_ms stamp)\<bar> > of_int tolerance then False
                   else hex_bytes (drop 3 (create_webhook_signature hmac (vo_payload opts) (vo_secret opts) stamp)) =
                        hex_bytes (drop 3 signature))
          | _ \<Rightarrow> False)"

subsection \<open>Text and numbers\<close>

lemma digit_char: "d < 10 \<Longrightarrow> of_char (digit_char d) = 48 + d"
  by (simp add: digit_char_def)

lemma digit_char_decimal: "d < 10 \<Longrightarrow> decimal_char (digit_char d)"
  by (simp add: decimal_char_def digit_char Let_def)

lemma nat_text_decimal: "list_all decimal_char (nat_text n)"
proof (induction n rule: nat_text.induct)
  case (1 n)
  then show ?case by (subst nat_text.simps) (simp add: digit_char_decimal)
qed

lemma nat_text_value: "decimal_value (nat_text n) = n"
proof (induction n rule: nat_text.induct)
  case (1 n)
  show ?case
  proof (cases "n < 10")
    case True
    then show ?thesis by (subst nat_text.simps) (simp add: decimal_value_def digit_char)
  next
    case False
    then have "decimal_value (nat_text n) = 10 * decimal_value (nat_text (n div 10)) + n mod 10"
      by (subst nat_text.simps) (simp add: decimal_value_def digit_char)
    then show ?thesis using 1 False by simp
  qed
qed

lemma nat_text_length: "0 < k \<Longrightarrow> n < 10 ^ k \<Longrightarrow> 1 \<le> length (nat_text n) \<and> length (nat_text n) \<le> k"
proof (induction n arbitrary: k rule: nat_text.induct)
  case (1 n)
  show ?case
  proof (cases "n < 10")
    case True
    then show ?thesis using 1(2) by (subst (1 2) nat_text.simps) simp
  next
    case False
    then obtain j where k: "k = Suc j" "0 < j" using 1(2,3) by (cases k; cases "k - 1") auto
    have "n div 10 < 10 ^ j" using 1(3) k(1) by (simp add: less_mult_imp_div_less mult.commute)
    from 1(1)[OF False k(2) this] show ?thesis
      using False k by (subst (1 2) nat_text.simps) simp
  qed
qed

lemma hex_digit_lower: "lower_hex c \<Longrightarrow> \<exists>x < 16. hex_digit c = Some x"
  by (auto simp: lower_hex_def decimal_char_def hex_digit_def Let_def)

lemma hex_digit_inj:
  assumes "lower_hex c" "lower_hex d" "hex_digit c = hex_digit d"
  shows "c = d"
proof -
  define m n :: nat where "m = of_char c" and "n = of_char d"
  have "m = n"
    using assms unfolding lower_hex_def decimal_char_def hex_digit_def Let_def m_def[symmetric] n_def[symmetric]
    by (auto split: if_splits)
  then show ?thesis by (simp add: m_def n_def)
qed

lemma hex_pair_inj:
  assumes "lower_hex a" "lower_hex b" "lower_hex c" "lower_hex d" "hex_bytes (a # b # s) = hex_bytes (c # d # t)"
  shows "a = c \<and> b = d \<and> hex_bytes s = hex_bytes t"
proof -
  obtain x where x: "x < 16" "hex_digit a = Some x" using hex_digit_lower[OF assms(1)] by blast
  obtain y where y: "y < 16" "hex_digit b = Some y" using hex_digit_lower[OF assms(2)] by blast
  obtain u where u: "u < 16" "hex_digit c = Some u" using hex_digit_lower[OF assms(3)] by blast
  obtain v where v: "v < 16" "hex_digit d = Some v" using hex_digit_lower[OF assms(4)] by blast
  have eq: "16 * x + y = 16 * u + v" and rest: "hex_bytes s = hex_bytes t"
    using assms(5) by (simp_all add: x(2) y(2) u(2) v(2))
  have "x = u" using arg_cong[OF eq, of "\<lambda>n. n div 16"] y(1) v(1) by simp
  moreover from this have "y = v" using eq by simp
  ultimately have "a = c" "b = d"
    using hex_digit_inj[OF assms(1,3)] hex_digit_inj[OF assms(2,4)] x(2) y(2) u(2) v(2) by simp_all
  then show ?thesis using rest by simp
qed

lemma hex_bytes_inj:
  assumes "length s = 2 * n" "length t = 2 * n" "list_all lower_hex s" "list_all lower_hex t"
    and "hex_bytes s = hex_bytes t"
  shows "s = t"
  using assms
proof (induction n arbitrary: s t)
  case (Suc n)
  obtain a b s' where s: "s = a # b # s'" using Suc.prems(1) by (auto simp: length_Suc_conv)
  obtain c d t' where t: "t = c # d # t'" using Suc.prems(2) by (auto simp: length_Suc_conv)
  have "a = c \<and> b = d \<and> hex_bytes s' = hex_bytes t'"
    by (rule hex_pair_inj) (use Suc.prems(3-5) in \<open>simp_all only: s t list.pred_inject simp_thms\<close>)
  then show ?case using Suc.IH[of s' t'] Suc.prems(1-4) by (simp add: s t)
qed simp

end
