(* ===== verification/Cloud_Usage.thy ===== *)
theory Cloud_Usage
  imports Usage_Outbox Webhook_Endpoints Webhook_Signatures
begin

text \<open>
  Usage admission (\<open>apps/executor/src/usage/gate.ts\<close>) and the client and the gate of the billing service
  (\<open>apps/executor/src/usage/cloud.ts\<close>). The answer of the service is an argument: \<^term>\<open>None\<close> when the
  request fails, else the response. \<open>as_timestamp\<close> is what \<open>Date.parse\<close> says of a string. Metrics, logs and
  the promises of \<open>onIdle\<close> are left out.
\<close>

subsection \<open>Configuration\<close>

definition default_usage_timeout_ms :: int where "default_usage_timeout_ms = 10000"
definition default_flush_interval_ms :: int where "default_flush_interval_ms = 5000"
definition default_drain_timeout_ms :: int where "default_drain_timeout_ms = 12000"
definition default_alert_after_attempts :: int where "default_alert_after_attempts = 8"
definition max_response_bytes :: int where "max_response_bytes = 64 * 1024"

datatype strict_source = Explicit_Override | Hosted_Default | Self_Hosted_Default

record cloud_usage_configuration =
  cu_base_url :: string
  cu_secret :: string
  cu_strict :: bool
  cu_strict_source :: strict_source
  cu_timeout_ms :: int
  cu_flush_interval_ms :: int
  cu_drain_timeout_ms :: int
  cu_alert_after_attempts :: int

definition required_string :: "json option \<Rightarrow> string option" where
  "required_string v = (case v of Some (JStr s) \<Rightarrow> if blank s then None else Some s | _ \<Rightarrow> None)"

definition cloud_positive_integer :: "int \<Rightarrow> string \<Rightarrow> int result" where
  "cloud_positive_integer v what =
     (if \<not> is_safe_integer v \<or> v < 1 then Inl (Type_Error (what @ '' must be a positive safe integer.'')) else Inr v)"

definition environment_integer :: "(string \<Rightarrow> string option) \<Rightarrow> string \<Rightarrow> int \<Rightarrow> int result" where
  "environment_integer env name fallback =
     (case map_option js_trim (env name) of
        None \<Rightarrow> Inr fallback
      | Some raw \<Rightarrow>
          if raw = [] then Inr fallback
          else if \<not> list_all decimal_char raw then Inl (Type_Error (name @ '' must be an integer.''))
          else cloud_positive_integer (int (decimal_value raw)) name)"

definition usage_strictness :: "(string \<Rightarrow> string option) \<Rightarrow> (bool \<times> strict_source) result" where
  "usage_strictness env =
     (case env ''EYEBALL_USAGE_STRICT'' of
        None \<Rightarrow>
          let hosted = (map_option js_trim (env ''EYEBALL_CREDENTIALS'') = Some ''cloud'') in
          Inr (hosted, if hosted then Hosted_Default else Self_Hosted_Default)
      | Some raw \<Rightarrow>
          let value = js_trim raw in
          if value = ''1'' \<or> value = ''true'' then Inr (True, Explicit_Override)
          else if value = ''0'' \<or> value = ''false'' then Inr (False, Explicit_Override)
          else Inl (Type_Error ''EYEBALL_USAGE_STRICT must be 1, true, 0, or false when set.''))"

definition cloud_usage_configuration_of ::
    "(string \<Rightarrow> string option) \<Rightarrow> cloud_usage_configuration option result" where
  "cloud_usage_configuration_of env =
     (case map_option js_trim (env ''EYEBALL_USAGE_URL'') of
        None \<Rightarrow> Inr None
      | Some base \<Rightarrow>
          if base = [] then Inr None
          else (case map_option js_trim (env ''EYEBALL_INTERNAL_API_SECRET'') of
            None \<Rightarrow> Inl (Type_Error
              ''EYEBALL_INTERNAL_API_SECRET is required when EYEBALL_USAGE_URL is configured.'')
          | Some secret \<Rightarrow>
              if secret = [] then Inl (Type_Error
                ''EYEBALL_INTERNAL_API_SECRET is required when EYEBALL_USAGE_URL is configured.'')
              else
                bind_result (usage_strictness env) (\<lambda>(strict, src).
                bind_result (environment_integer env ''EYEBALL_USAGE_TIMEOUT_MS'' default_usage_timeout_ms) (\<lambda>timeout.
                bind_result (environment_integer env ''EYEBALL_USAGE_FLUSH_INTERVAL_MS'' default_flush_interval_ms) (\<lambda>flush.
                bind_result (environment_integer env ''EYEBALL_USAGE_DRAIN_TIMEOUT_MS'' default_drain_timeout_ms) (\<lambda>drain.
                bind_result (environment_integer env ''EYEBALL_USAGE_ALERT_AFTER_ATTEMPTS'' default_alert_after_attempts)
                  (\<lambda>alert. Inr (Some \<lparr>cu_base_url = base, cu_secret = secret, cu_strict = strict,
                    cu_strict_source = src, cu_timeout_ms = timeout, cu_flush_interval_ms = flush,
                    cu_drain_timeout_ms = drain, cu_alert_after_attempts = alert\<rparr>))))))))"

record cloud_url = url +
  url_search :: string
  url_pathname :: string

definition short_decimal :: "string \<Rightarrow> bool" where
  "short_decimal s \<longleftrightarrow> s \<noteq> [] \<and> length s \<le> 3 \<and> list_all decimal_char s"

definition is_loopback_hostname :: "string \<Rightarrow> bool" where
  "is_loopback_hostname h \<longleftrightarrow> h = ''localhost'' \<or> ends_with ''.localhost'' h \<or> h = ''[::1]'' \<or>
     (case split_char (CHR ''.'') h of
        [a, b, c, d] \<Rightarrow> a = ''127'' \<and> short_decimal b \<and> short_decimal c \<and> short_decimal d
      | _ \<Rightarrow> False)"

definition drop_trailing_slash :: "string \<Rightarrow> string" where
  "drop_trailing_slash s = (if s \<noteq> [] \<and> last s = CHR ''/'' then butlast s else s)"

definition usage_base_url :: "(string \<Rightarrow> cloud_url option) \<Rightarrow> string \<Rightarrow> cloud_url result" where
  "usage_base_url parse_url value =
     (case parse_url value of
        None \<Rightarrow> Inl (Type_Error ''EYEBALL_USAGE_URL must be a valid absolute URL.'')
      | Some u \<Rightarrow>
          if (url_protocol u \<noteq> ''https:'' \<and> \<not> (url_protocol u = ''http:'' \<and> is_loopback_hostname (url_hostname u))) \<or>
             url_username u \<noteq> [] \<or> url_password u \<noteq> [] \<or> url_search u \<noteq> [] \<or> url_hash u \<noteq> []
          then Inl (Type_Error ''EYEBALL_USAGE_URL must use HTTPS without credentials, a query, or a fragment (HTTP is allowed only for loopback development).'')
          else Inr (u\<lparr>url_pathname := drop_trailing_slash (url_pathname u)\<rparr>))"

definition create_cloud_client ::
    "(string \<Rightarrow> cloud_url option) \<Rightarrow> string \<Rightarrow> string \<Rightarrow> int option \<Rightarrow> (cloud_url \<times> int) result" where
  "create_cloud_client parse_url base secret timeout =
     (if length secret < 32
      then Inl (Type_Error ''EYEBALL_INTERNAL_API_SECRET must contain at least 32 characters.'')
      else bind_result (usage_base_url parse_url base) (\<lambda>u.
        bind_result (cloud_positive_integer (case timeout of None \<Rightarrow> default_usage_timeout_ms | Some t \<Rightarrow> t)
          ''Cloud usage request timeout'') (\<lambda>t. Inr (u, t))))"

subsection \<open>Responses\<close>

text \<open>
  \<open>hr_declared\<close> is the finite number in the \<open>Content-Length\<close> header, if any; \<open>hr_text\<close> the byte length of
  the text and what \<open>JSON.parse\<close> makes of it, or \<^term>\<open>None\<close> when reading it fails.
\<close>

record cloud_response =
  hr_ok :: bool
  hr_declared :: "int option"
  hr_text :: "(int \<times> json option) option"

definition cloud_transport_error :: js_error where
  "cloud_transport_error = Named_Error ''CloudUsageTransportError'' ''The cloud usage service is unavailable.''"

definition response_json :: "cloud_response \<Rightarrow> json result" where
  "response_json r =
     (if (case hr_declared r of None \<Rightarrow> False | Some n \<Rightarrow> n > max_response_bytes) then Inl cloud_transport_error
      else case hr_text r of
        None \<Rightarrow> Inl cloud_transport_error
      | Some (n, parsed) \<Rightarrow>
          if n > max_response_bytes then Inl cloud_transport_error
          else (case parsed of None \<Rightarrow> Inl cloud_transport_error | Some v \<Rightarrow> Inr v))"

definition cloud_post :: "cloud_response option \<Rightarrow> json result" where
  "cloud_post answer = (case answer of
     None \<Rightarrow> Inl cloud_transport_error
   | Some r \<Rightarrow> if \<not> hr_ok r then Inl cloud_transport_error else response_json r)"

definition is_json_object :: "json option \<Rightarrow> bool" where
  "is_json_object v = (case v of Some (JObj _) \<Rightarrow> True | _ \<Rightarrow> False)"

definition valid_month :: "json option \<Rightarrow> bool" where
  "valid_month v = (case v of
     Some (JStr s) \<Rightarrow>
       (case split_char (CHR ''-'') s of
          [year, month, day] \<Rightarrow> length year = 4 \<and> list_all decimal_char year \<and>
            length month = 2 \<and> list_all decimal_char month \<and>
            1 \<le> decimal_value month \<and> decimal_value month \<le> 12 \<and> day = ''01''
        | _ \<Rightarrow> False)
   | _ \<Rightarrow> False)"

definition valid_json_timestamp :: "(string \<Rightarrow> timestamp) \<Rightarrow> json option \<Rightarrow> int option" where
  "valid_json_timestamp as_timestamp v = (case v of Some (JStr s) \<Rightarrow> date_parse (as_timestamp s) | _ \<Rightarrow> None)"

record usage_reservation_context =
  uc_project :: string
  uc_execution :: string
  uc_cloud_execution :: "string option"
  uc_idempotency_key :: string
  uc_requested_at :: timestamp

record cloud_usage_reservation =
  cr_id :: string
  cr_idempotency_key :: string
  cr_month :: string
  cr_created_at :: timestamp
  cr_execution :: "string option"

datatype cloud_reservation_result = Cloud_Allowed cloud_usage_reservation | Cloud_Denied "string option"

definition parse_reservation ::
    "(string \<Rightarrow> timestamp) \<Rightarrow> json \<Rightarrow> usage_reservation_context \<Rightarrow> cloud_reservation_result result" where
  "parse_reservation as_timestamp value ctx =
     (case json_field ''allowed'' value of
        Some (JBool False) \<Rightarrow>
          if json_field ''reservation'' value \<noteq> Some JNull \<and> \<not> is_json_object (json_field ''reservation'' value)
          then Inl cloud_transport_error
          else Inr (Cloud_Denied (required_string (json_field ''upgradeMessage'' value)))
      | Some (JBool True) \<Rightarrow>
          if json_field ''projectId'' value \<noteq> Some (JStr (uc_project ctx)) \<or>
             json_field ''dimension'' value \<noteq> Some (JStr ''execution'') \<or>
             json_field ''requested'' value \<noteq> Some (JNum 1)
          then Inl cloud_transport_error
          else (case json_field ''reservation'' value of
            Some (JObj fs) \<Rightarrow>
              (case (required_string (map_of fs ''id''), valid_json_timestamp as_timestamp (map_of fs ''createdAt''),
                     map_of fs ''month'') of
                 (Some i, Some created, Some (JStr month)) \<Rightarrow>
                   if required_string (map_of fs ''idempotencyKey'') \<noteq> Some (uc_idempotency_key ctx) \<or>
                      map_of fs ''projectId'' \<noteq> Some (JStr (uc_project ctx)) \<or>
                      map_of fs ''quantity'' \<noteq> Some (JNum 1) \<or>
                      map_of fs ''state'' \<noteq> Some (JStr ''reserved'') \<or>
                      map_of fs ''executionId'' \<noteq>
                        Some (case uc_cloud_execution ctx of None \<Rightarrow> JNull | Some e \<Rightarrow> JStr e) \<or>
                      \<not> valid_month (map_of fs ''month'')
                   then Inl cloud_transport_error
                   else Inr (Cloud_Allowed \<lparr>cr_id = i, cr_idempotency_key = uc_idempotency_key ctx, cr_month = month,
                     cr_created_at = Iso created, cr_execution = uc_cloud_execution ctx\<rparr>)
               | _ \<Rightarrow> Inl cloud_transport_error)
          | _ \<Rightarrow> Inl cloud_transport_error)
      | _ \<Rightarrow> Inl cloud_transport_error)"

definition parse_report :: "json \<Rightarrow> int \<Rightarrow> (int \<times> int) result" where
  "parse_report value count =
     (case (json_field ''accepted'' value, json_field ''duplicates'' value) of
        (Some (JNum a), Some (JNum d)) \<Rightarrow>
          if \<not> is_safe_integer a \<or> \<not> is_safe_integer d \<or> a < 0 \<or> d < 0 \<or> a + d \<noteq> count
          then Inl cloud_transport_error else Inr (a, d)
      | _ \<Rightarrow> Inl cloud_transport_error)"

subsection \<open>The client\<close>

definition client_reserve ::
    "(string \<Rightarrow> timestamp) \<Rightarrow> usage_reservation_context \<Rightarrow> cloud_response option \<Rightarrow> cloud_reservation_result result" where
  "client_reserve as_timestamp ctx answer =
     bind_result (cloud_post answer) (\<lambda>v. parse_reservation as_timestamp v ctx)"

definition client_release :: "string \<Rightarrow> cloud_response option \<Rightarrow> unit result" where
  "client_release reservation_id answer =
     bind_result (cloud_post answer) (\<lambda>v.
       case json_field ''reservation'' v of
         Some (JObj fs) \<Rightarrow>
           if map_of fs ''id'' \<noteq> Some (JStr reservation_id) \<or>
              (map_of fs ''state'' \<noteq> Some (JStr ''released'') \<and> map_of fs ''state'' \<noteq> Some (JStr ''expired''))
           then Inl cloud_transport_error else Inr ()
       | _ \<Rightarrow> Inl cloud_transport_error)"

definition client_report :: "usage_report_payload list \<Rightarrow> cloud_response option \<Rightarrow> (int \<times> int) result" where
  "client_report payloads answer =
     (if length payloads < 1 \<or> length payloads > 50
      then Inl (Range_Error ''Cloud usage report batches must contain 1-50 events.'')
      else bind_result (cloud_post answer) (\<lambda>v. parse_report v (int (length payloads))))"

subsection \<open>The gate\<close>

datatype usage_admission =
    Usage_Allowed "usage_report_context option" "usage_reservation_handle option"
  | Usage_Denied string

text \<open>\<open>NoopUsageGate.reserve\<close>; its other operations do nothing.\<close>

definition noop_reserve :: usage_admission where
  "noop_reserve = Usage_Allowed None None"

definition usage_gate_unavailable :: js_error where
  "usage_gate_unavailable =
     Named_Error ''UsageGateUnavailableError'' ''Cloud usage admission is temporarily unavailable.''"

definition report_context_of ::
    "usage_reservation_context \<Rightarrow> (string \<times> timestamp) option \<Rightarrow> usage_report_context" where
  "report_context_of ctx reserved = \<lparr>ur_project = uc_project ctx, ur_execution = uc_execution ctx,
     ur_cloud_execution = uc_cloud_execution ctx, ur_idempotency_key = uc_idempotency_key ctx,
     ur_reservation = map_option fst reserved, ur_reserved_at = map_option snd reserved\<rparr>"

definition cloud_gate_reserve ::
    "bool \<Rightarrow> usage_reservation_context \<Rightarrow> cloud_reservation_result result \<Rightarrow> usage_admission result" where
  "cloud_gate_reserve strict ctx answer =
     (case answer of
        Inr (Cloud_Denied message) \<Rightarrow> Inr (Usage_Denied (case message of Some m \<Rightarrow> m | None \<Rightarrow>
          ''Monthly execution quota reached. Upgrade the organization plan or wait for the next UTC month.''))
      | Inr (Cloud_Allowed r) \<Rightarrow> Inr (Usage_Allowed
          (Some (report_context_of ctx (Some (cr_id r, cr_created_at r))))
          (Some \<lparr>uh_reservation = cr_id r, uh_project = uc_project ctx, uh_local_execution = uc_execution ctx,
            uh_idempotency_key = uc_idempotency_key ctx, uh_cloud_execution = uc_cloud_execution ctx,
            uh_reserved_at = Some (cr_created_at r)\<rparr>))
      | Inl err \<Rightarrow>
          if strict then Inl usage_gate_unavailable
          else Inr (Usage_Allowed (Some (report_context_of ctx None)) None))"

definition usage_gate_clock :: "int option \<Rightarrow> int result" where
  "usage_gate_clock = read_clock ''Usage gate clock returned an invalid date.''"

definition terminal_report_payload :: "usage_report_context \<Rightarrow> execution_record \<Rightarrow> usage_payload" where
  "terminal_report_payload ctx r = Usage_Report \<lparr>up_project = ur_project ctx, up_execution = ur_execution ctx,
     up_cloud_execution = ur_cloud_execution ctx, up_idempotency_key = ur_idempotency_key ctx,
     up_occurred_at = (case ur_reserved_at ctx of Some t \<Rightarrow> t
       | None \<Rightarrow> (case ex_completed_at r of Some t \<Rightarrow> t | None \<Rightarrow> ex_created_at r))\<rparr>"

definition release_payload :: "usage_reservation_handle \<Rightarrow> usage_payload" where
  "release_payload h = Usage_Release \<lparr>ul_project = uh_project h, ul_execution = uh_local_execution h,
     ul_reservation = uh_reservation h, ul_idempotency_key = uh_idempotency_key h,
     ul_cloud_execution = uh_cloud_execution h, ul_reserved_at = uh_reserved_at h\<rparr>"

definition gate_enqueue :: "usage_payload \<Rightarrow> int option \<Rightarrow> usage_outbox \<Rightarrow> usage_outbox \<times> unit result" where
  "gate_enqueue p reading outbox =
     (case bind_result (usage_gate_clock reading) (\<lambda>now. enqueue_usage p (Iso now) outbox) of
        Inl err \<Rightarrow> (outbox, Inl err) | Inr outbox' \<Rightarrow> (outbox', Inr ()))"

definition gate_report_terminal ::
    "usage_report_context \<Rightarrow> execution_record \<Rightarrow> int option \<Rightarrow> usage_outbox \<Rightarrow> usage_outbox \<times> unit result" where
  "gate_report_terminal ctx r = gate_enqueue (terminal_report_payload ctx r)"

definition gate_release ::
    "usage_reservation_handle \<Rightarrow> int option \<Rightarrow> usage_outbox \<Rightarrow> usage_outbox \<times> unit result" where
  "gate_release h = gate_enqueue (release_payload h)"

subsection \<open>Admission\<close>

text \<open>
  The contract of the answer, on its JSON: a readable response within the size limit; what a response must say
  to grant the reservation \<open>i\<close>, made at the instant \<open>t\<close>; what it must say to deny one.
\<close>

definition answered :: "cloud_response option \<Rightarrow> json \<Rightarrow> bool" where
  "answered answer v \<longleftrightarrow> (\<exists>r size. answer = Some r \<and> hr_ok r \<and>
     (\<forall>n. hr_declared r = Some n \<longrightarrow> n \<le> 65536) \<and> hr_text r = Some (size, Some v) \<and> size \<le> 65536)"

definition month_texts :: "string list" where
  "month_texts = [''01'', ''02'', ''03'', ''04'', ''05'', ''06'', ''07'', ''08'', ''09'', ''10'', ''11'', ''12'']"

definition first_of_month :: "string \<Rightarrow> bool" where
  "first_of_month s \<longleftrightarrow> (\<exists>year month. s = year @ ''-'' @ month @ ''-01'' \<and> length year = 4 \<and>
     set year \<subseteq> set ''0123456789'' \<and>
     month \<in> set month_texts)"

definition grants ::
    "(string \<Rightarrow> timestamp) \<Rightarrow> usage_reservation_context \<Rightarrow> json \<Rightarrow> string \<Rightarrow> int \<Rightarrow> bool" where
  "grants as_timestamp ctx v i t \<longleftrightarrow>
     json_field ''allowed'' v = Some (JBool True) \<and> json_field ''projectId'' v = Some (JStr (uc_project ctx)) \<and>
     json_field ''dimension'' v = Some (JStr ''execution'') \<and> json_field ''requested'' v = Some (JNum 1) \<and>
     (\<exists>fs month made. json_field ''reservation'' v = Some (JObj fs) \<and> map_of fs ''id'' = Some (JStr i) \<and> \<not> blank i \<and>
        map_of fs ''idempotencyKey'' = Some (JStr (uc_idempotency_key ctx)) \<and> \<not> blank (uc_idempotency_key ctx) \<and>
        map_of fs ''projectId'' = Some (JStr (uc_project ctx)) \<and> map_of fs ''quantity'' = Some (JNum 1) \<and>
        map_of fs ''state'' = Some (JStr ''reserved'') \<and>
        map_of fs ''executionId'' = Some (case uc_cloud_execution ctx of None \<Rightarrow> JNull | Some e \<Rightarrow> JStr e) \<and>
        map_of fs ''month'' = Some (JStr month) \<and> first_of_month month \<and>
        map_of fs ''createdAt'' = Some (JStr made) \<and> date_parse (as_timestamp made) = Some t)"

definition denies :: "json \<Rightarrow> bool" where
  "denies v \<longleftrightarrow> json_field ''allowed'' v = Some (JBool False) \<and>
     (json_field ''reservation'' v = Some JNull \<or> (\<exists>fs. json_field ''reservation'' v = Some (JObj fs)))"

definition denial_message :: "json \<Rightarrow> string" where
  "denial_message v = (case json_field ''upgradeMessage'' v of
     Some (JStr m) \<Rightarrow> if blank m
       then ''Monthly execution quota reached. Upgrade the organization plan or wait for the next UTC month.'' else m
   | _ \<Rightarrow> ''Monthly execution quota reached. Upgrade the organization plan or wait for the next UTC month.'')"

lemma cloud_post_answered: "cloud_post answer = Inr v \<longleftrightarrow> answered answer v"
  by (auto simp: cloud_post_def response_json_def answered_def max_response_bytes_def split: option.splits if_splits)

lemma decimal_chars: "decimal_char c \<longleftrightarrow> c \<in> set ''0123456789''"
proof
  assume d: "decimal_char c"
  define n :: nat where "n = of_char c"
  have c: "c = char_of n" by (simp add: n_def)
  have "48 \<le> n \<and> n \<le> 57" using d by (simp add: decimal_char_def n_def Let_def)
  then have "n \<in> set [48..<58]" unfolding set_upt by simp
  then have "c \<in> char_of ` set [48..<58]" unfolding c by blast
  also have "\<dots> = set ''0123456789''" by code_simp
  finally show "c \<in> set ''0123456789''" .
next
  have "list_all decimal_char ''0123456789''" by code_simp
  then show "c \<in> set ''0123456789'' \<Longrightarrow> decimal_char c" unfolding list_all_iff by blast
qed

lemma decimal_months:
  "length month = 2 \<and> list_all decimal_char month \<and> 1 \<le> decimal_value month \<and> decimal_value month \<le> 12 \<longleftrightarrow>
   month \<in> set month_texts"
proof -
  have table: "list_all (\<lambda>a. list_all (\<lambda>b. 1 \<le> decimal_value [a, b] \<and> decimal_value [a, b] \<le> 12 \<longleftrightarrow>
      [a, b] \<in> set month_texts) ''0123456789'') ''0123456789''"
    by code_simp
  have months: "list_all (\<lambda>m. length m = 2 \<and> list_all decimal_char m) month_texts"
    by code_simp
  show ?thesis
  proof (cases "length month = 2 \<and> list_all decimal_char month")
    case True
    then obtain a b where m: "month = [a, b]" by (auto simp: length_Suc_conv numeral_2_eq_2)
    have "a \<in> set ''0123456789''" "b \<in> set ''0123456789''"
      using True decimal_chars[of a] decimal_chars[of b] unfolding m by (simp_all del: list.set)
    then show ?thesis using table True unfolding m list_all_iff by blast
  next
    case False
    then show ?thesis using months unfolding list_all_iff by blast
  qed
qed

lemma split_char_three: "split_char c s = [x, y, z] \<Longrightarrow> s = x @ c # y @ c # z"
  using split_char_single by (auto dest!: split_char_cons)

lemma valid_month_iff: "valid_month (Some (JStr s)) \<longleftrightarrow> first_of_month s"
proof
  assume "valid_month (Some (JStr s))"
  then obtain year month where *: "split_char (CHR ''-'') s = [year, month, ''01'']" "length year = 4"
    "list_all decimal_char year"
    "length month = 2 \<and> list_all decimal_char month \<and> 1 \<le> decimal_value month \<and> decimal_value month \<le> 12"
    by (auto simp: valid_month_def split: list.splits)
  have "set year \<subseteq> set ''0123456789''" using *(3) decimal_chars by (auto simp: list_all_iff simp del: list.set)
  then show "first_of_month s"
    using split_char_three[OF *(1)] *(2) *(4)[unfolded decimal_months] unfolding first_of_month_def
    by (intro exI[of _ year] exI[of _ month]) simp
next
  assume "first_of_month s"
  then obtain year month where s: "s = year @ CHR ''-'' # month @ CHR ''-'' # ''01''" and y: "length year = 4"
    "set year \<subseteq> set ''0123456789''"
    and m: "month \<in> set month_texts"
    unfolding first_of_month_def by auto
  have ym: "list_all decimal_char year" using y(2) decimal_chars unfolding list_all_iff by blast
  have mm: "length month = 2 \<and> list_all decimal_char month \<and> 1 \<le> decimal_value month \<and> decimal_value month \<le> 12"
    using m decimal_months by blast
  have "\<not> decimal_char (CHR ''-'')" by code_simp
  then have "CHR ''-'' \<notin> set year" "CHR ''-'' \<notin> set month" "CHR ''-'' \<notin> set ''01''"
    using ym mm by (auto simp: list_all_iff)
  then have "split_char (CHR ''-'') s = [year, month, ''01'']" unfolding s by (simp add: split_char_append split_char_plain)
  then show "valid_month (Some (JStr s))" using y(1) ym mm by (simp add: valid_month_def)
qed

lemma parse_reservation_head:
  assumes "parse_reservation as_timestamp v ctx = Inr (Cloud_Allowed r)"
  shows "json_field ''allowed'' v = Some (JBool True)" "json_field ''projectId'' v = Some (JStr (uc_project ctx))"
    "json_field ''dimension'' v = Some (JStr ''execution'')" "json_field ''requested'' v = Some (JNum 1)"
    "\<exists>fs. json_field ''reservation'' v = Some (JObj fs)"
  using assms by (auto simp: parse_reservation_def split: option.splits json.splits bool.splits if_splits)

lemma required_string_Some: "required_string x = Some s \<longleftrightarrow> x = Some (JStr s) \<and> \<not> blank s"
  by (auto simp: required_string_def split: option.splits json.splits)

lemma valid_json_timestamp_Some:
  "valid_json_timestamp as_timestamp x = Some t \<longleftrightarrow> (\<exists>s. x = Some (JStr s) \<and> date_parse (as_timestamp s) = Some t)"
  by (auto simp: valid_json_timestamp_def split: option.splits json.splits)

lemma parse_reservation_body:
  assumes "json_field ''allowed'' v = Some (JBool True)" "json_field ''projectId'' v = Some (JStr (uc_project ctx))"
    "json_field ''dimension'' v = Some (JStr ''execution'')" "json_field ''requested'' v = Some (JNum 1)"
    "json_field ''reservation'' v = Some (JObj fs)"
  shows "parse_reservation as_timestamp v ctx = Inr (Cloud_Allowed r) \<longleftrightarrow>
    (\<exists>i t month made. map_of fs ''id'' = Some (JStr i) \<and> \<not> blank i \<and>
        map_of fs ''idempotencyKey'' = Some (JStr (uc_idempotency_key ctx)) \<and> \<not> blank (uc_idempotency_key ctx) \<and>
        map_of fs ''projectId'' = Some (JStr (uc_project ctx)) \<and> map_of fs ''quantity'' = Some (JNum 1) \<and>
        map_of fs ''state'' = Some (JStr ''reserved'') \<and>
        map_of fs ''executionId'' = Some (case uc_cloud_execution ctx of None \<Rightarrow> JNull | Some e \<Rightarrow> JStr e) \<and>
        map_of fs ''month'' = Some (JStr month) \<and> first_of_month month \<and>
        map_of fs ''createdAt'' = Some (JStr made) \<and> date_parse (as_timestamp made) = Some t \<and>
        r = \<lparr>cr_id = i, cr_idempotency_key = uc_idempotency_key ctx, cr_month = month, cr_created_at = Iso t,
           cr_execution = uc_cloud_execution ctx\<rparr>)"
proof -
  have "parse_reservation as_timestamp v ctx = Inr (Cloud_Allowed r) \<longleftrightarrow>
    (\<exists>i t month. required_string (map_of fs ''id'') = Some i \<and>
       valid_json_timestamp as_timestamp (map_of fs ''createdAt'') = Some t \<and> map_of fs ''month'' = Some (JStr month) \<and>
       required_string (map_of fs ''idempotencyKey'') = Some (uc_idempotency_key ctx) \<and>
       map_of fs ''projectId'' = Some (JStr (uc_project ctx)) \<and> map_of fs ''quantity'' = Some (JNum 1) \<and>
       map_of fs ''state'' = Some (JStr ''reserved'') \<and>
       map_of fs ''executionId'' = Some (case uc_cloud_execution ctx of None \<Rightarrow> JNull | Some e \<Rightarrow> JStr e) \<and>
       valid_month (Some (JStr month)) \<and>
       r = \<lparr>cr_id = i, cr_idempotency_key = uc_idempotency_key ctx, cr_month = month, cr_created_at = Iso t,
           cr_execution = uc_cloud_execution ctx\<rparr>)"
    by (cases "required_string (map_of fs ''id'')"; cases "valid_json_timestamp as_timestamp (map_of fs ''createdAt'')";
      cases "map_of fs ''month''"; cases "the (map_of fs ''month'')")
      (simp_all add: parse_reservation_def assms, auto)
  then show ?thesis unfolding required_string_Some valid_json_timestamp_Some valid_month_iff by blast
qed

lemma parse_reservation_Allowed:
  "(\<exists>month. parse_reservation as_timestamp v ctx = Inr (Cloud_Allowed \<lparr>cr_id = i, cr_idempotency_key = uc_idempotency_key ctx,
      cr_month = month, cr_created_at = Iso t, cr_execution = uc_cloud_execution ctx\<rparr>)) \<longleftrightarrow> grants as_timestamp ctx v i t"
  (is "?parsed \<longleftrightarrow> _")
proof
  assume ?parsed
  then obtain month where *: "parse_reservation as_timestamp v ctx = Inr (Cloud_Allowed \<lparr>cr_id = i,
      cr_idempotency_key = uc_idempotency_key ctx, cr_month = month, cr_created_at = Iso t,
      cr_execution = uc_cloud_execution ctx\<rparr>)" by blast
  note head = parse_reservation_head[OF *]
  then obtain fs where fs: "json_field ''reservation'' v = Some (JObj fs)" by blast
  show "grants as_timestamp ctx v i t"
    using *[unfolded parse_reservation_body[OF head(1-4) fs]] head(1-4) fs unfolding grants_def by auto
next
  assume g: "grants as_timestamp ctx v i t"
  then obtain fs where fs: "json_field ''reservation'' v = Some (JObj fs)" by (auto simp: grants_def)
  have head: "json_field ''allowed'' v = Some (JBool True)" "json_field ''projectId'' v = Some (JStr (uc_project ctx))"
    "json_field ''dimension'' v = Some (JStr ''execution'')" "json_field ''requested'' v = Some (JNum 1)"
    using g by (auto simp: grants_def)
  show ?parsed unfolding parse_reservation_body[OF head fs] using g fs unfolding grants_def by auto
qed

lemma parse_reservation_shape:
  assumes "parse_reservation as_timestamp v ctx = Inr (Cloud_Allowed r)"
  obtains i t month where "r = \<lparr>cr_id = i, cr_idempotency_key = uc_idempotency_key ctx, cr_month = month,
    cr_created_at = Iso t, cr_execution = uc_cloud_execution ctx\<rparr>" "grants as_timestamp ctx v i t"
proof -
  note head = parse_reservation_head[OF assms]
  then obtain fs where fs: "json_field ''reservation'' v = Some (JObj fs)" by blast
  obtain i t month where "r = \<lparr>cr_id = i, cr_idempotency_key = uc_idempotency_key ctx, cr_month = month,
      cr_created_at = Iso t, cr_execution = uc_cloud_execution ctx\<rparr>"
    using assms[unfolded parse_reservation_body[OF head(1-4) fs]] by blast
  then show ?thesis using that assms parse_reservation_Allowed by blast
qed

lemma parse_reservation_Denied:
  "parse_reservation as_timestamp v ctx = Inr (Cloud_Denied m) \<longleftrightarrow> denies v \<and> m = required_string (json_field ''upgradeMessage'' v)"
  by (auto simp: parse_reservation_def denies_def is_json_object_def
      split: option.splits json.splits bool.splits if_splits)

lemma denial_message_of: "denial_message v = (case required_string (json_field ''upgradeMessage'' v) of Some m \<Rightarrow> m | None \<Rightarrow>
    ''Monthly execution quota reached. Upgrade the organization plan or wait for the next UTC month.'')"
  by (simp add: denial_message_def required_string_def split: option.split json.split)text \<open>C37: Admission is exactly what the service says, and fails the configured way. A reservation is handed out if
  and only if there is a readable response that grants it: it allows one execution of the project of the request, and
  its reservation has an id, the idempotency key, the project and the Cloud execution of the request, the quantity 1,
  the state \<open>reserved\<close>, the first day of a month and a valid time; the handle and the report context then carry the
  id and the time of that very reservation. A denial is returned if and only if the response denies, with its
  message. Any other answer (none, unreadable, too large, or with a field that is wrong) is refused by a strict
  gate, and admitted without a reservation but with a report by a gate that is not strict.\<close>

theorem admission_is_what_the_service_says:
  defines "admission strict ctx as_timestamp answer \<equiv>
    cloud_gate_reserve strict ctx (client_reserve as_timestamp ctx answer)"
  shows "(admission strict ctx as_timestamp answer = Inr (Usage_Allowed report (Some handle)) \<longleftrightarrow>
      (\<exists>v i t. answered answer v \<and> grants as_timestamp ctx v i t \<and>
        handle = \<lparr>uh_reservation = i, uh_project = uc_project ctx, uh_local_execution = uc_execution ctx,
          uh_idempotency_key = uc_idempotency_key ctx, uh_cloud_execution = uc_cloud_execution ctx,
          uh_reserved_at = Some (Iso t)\<rparr> \<and>
        report = Some \<lparr>ur_project = uc_project ctx, ur_execution = uc_execution ctx,
          ur_cloud_execution = uc_cloud_execution ctx, ur_idempotency_key = uc_idempotency_key ctx,
          ur_reservation = Some i, ur_reserved_at = Some (Iso t)\<rparr>)) \<and>
    (admission strict ctx as_timestamp answer = Inr (Usage_Denied m) \<longleftrightarrow>
      (\<exists>v. answered answer v \<and> denies v \<and> m = denial_message v)) \<and>
    ((\<nexists>v. answered answer v \<and> (denies v \<or> (\<exists>i t. grants as_timestamp ctx v i t))) \<longrightarrow>
      admission strict ctx as_timestamp answer =
        (if strict then Inl usage_gate_unavailable
         else Inr (Usage_Allowed (Some \<lparr>ur_project = uc_project ctx, ur_execution = uc_execution ctx,
          ur_cloud_execution = uc_cloud_execution ctx, ur_idempotency_key = uc_idempotency_key ctx,
          ur_reservation = None, ur_reserved_at = None\<rparr>) None)))"
proof (cases "client_reserve as_timestamp ctx answer")
  case (Inl err)
  have none: "\<nexists>v. answered answer v \<and> (denies v \<or> (\<exists>i t. grants as_timestamp ctx v i t))"
  proof (rule notI, elim exE conjE)
    fix v
    assume v: "answered answer v" and says: "denies v \<or> (\<exists>i t. grants as_timestamp ctx v i t)"
    have "parse_reservation as_timestamp v ctx = Inl err"
      using v Inl by (simp add: client_reserve_def cloud_post_answered[symmetric])
    moreover from says have "\<exists>res. parse_reservation as_timestamp v ctx = Inr res"
      using parse_reservation_Allowed[of as_timestamp v ctx] parse_reservation_Denied[of as_timestamp v ctx] by blast
    ultimately show False by simp
  qed
  have "admission strict ctx as_timestamp answer =
      (if strict then Inl usage_gate_unavailable else Inr (Usage_Allowed (Some (report_context_of ctx None)) None))"
    by (simp add: admission_def cloud_gate_reserve_def Inl)
  with none show ?thesis by (auto simp: report_context_of_def)
next
  case (Inr res)
  then obtain v where v: "answered answer v" "parse_reservation as_timestamp v ctx = Inr res"
    by (auto simp: client_reserve_def bind_result_Inr_iff cloud_post_answered)
  have unique: "answered answer w \<longleftrightarrow> w = v" for w using v(1) by (auto simp: answered_def)
  show ?thesis
  proof (cases res)
    case (Cloud_Allowed r)
    obtain i t month where r: "r = \<lparr>cr_id = i, cr_idempotency_key = uc_idempotency_key ctx, cr_month = month,
        cr_created_at = Iso t, cr_execution = uc_cloud_execution ctx\<rparr>" and g: "grants as_timestamp ctx v i t"
      using parse_reservation_shape v(2) Cloud_Allowed by blast
    have same: "grants as_timestamp ctx v j u \<longleftrightarrow> j = i \<and> u = t" for j u
      using g by (auto simp: grants_def)
    have "\<not> denies v" using g by (auto simp: grants_def denies_def)
    then show ?thesis
      using r by (auto simp: admission_def cloud_gate_reserve_def Inr Cloud_Allowed unique same report_context_of_def)
  next
    case (Cloud_Denied message)
    then have d: "denies v" "message = required_string (json_field ''upgradeMessage'' v)"
      using v(2) parse_reservation_Denied by auto
    have "\<not> grants as_timestamp ctx v i t" for i t using d(1) by (auto simp: grants_def denies_def)
    then show ?thesis
      using d by (auto simp: admission_def cloud_gate_reserve_def Inr Cloud_Denied unique denial_message_of split: option.split)
  qed
qed

definition demo_reservation_context :: usage_reservation_context where
  "demo_reservation_context = \<lparr>uc_project = ''p'', uc_execution = ''e'', uc_cloud_execution = None,
     uc_idempotency_key = ''k'', uc_requested_at = Iso 0\<rparr>"

definition demo_allowing :: cloud_response where
  "demo_allowing = \<lparr>hr_ok = True, hr_declared = None, hr_text = Some (200, Some (JObj
     [(''allowed'', JBool True), (''projectId'', JStr ''p''), (''dimension'', JStr ''execution''),
      (''requested'', JNum 1), (''reservation'', JObj [(''id'', JStr ''r''), (''idempotencyKey'', JStr ''k''),
        (''projectId'', JStr ''p''), (''quantity'', JNum 1), (''state'', JStr ''reserved''),
        (''executionId'', JNull), (''month'', JStr ''2026-01-01''), (''createdAt'', JStr ''t'')])]))\<rparr>"

definition demo_grant :: "usage_report_context \<times> usage_reservation_handle" where
  "demo_grant =
     (\<lparr>ur_project = ''p'', ur_execution = ''e'', ur_cloud_execution = None, ur_idempotency_key = ''k'',
        ur_reservation = Some ''r'', ur_reserved_at = Some (Iso 5)\<rparr>,
      \<lparr>uh_reservation = ''r'', uh_project = ''p'', uh_local_execution = ''e'', uh_idempotency_key = ''k'',
        uh_cloud_execution = None, uh_reserved_at = Some (Iso 5)\<rparr>)"

lemma admission_is_what_the_service_says_witness:
  "\<exists>v. answered (Some demo_allowing) v \<and> grants (\<lambda>s. Iso 5) demo_reservation_context v ''r'' 5"
proof -
  have "cloud_gate_reserve True demo_reservation_context
     (client_reserve (\<lambda>s. Iso 5) demo_reservation_context (Some demo_allowing)) =
     Inr (Usage_Allowed (Some (fst demo_grant)) (Some (snd demo_grant)))" by code_simp
  then obtain v i t where "answered (Some demo_allowing) v" "grants (\<lambda>s. Iso 5) demo_reservation_context v i t"
    "snd demo_grant = \<lparr>uh_reservation = i, uh_project = uc_project demo_reservation_context,
       uh_local_execution = uc_execution demo_reservation_context,
       uh_idempotency_key = uc_idempotency_key demo_reservation_context,
       uh_cloud_execution = uc_cloud_execution demo_reservation_context, uh_reserved_at = Some (Iso t)\<rparr>"
    using admission_is_what_the_service_says[of True demo_reservation_context "\<lambda>s. Iso 5" "Some demo_allowing"
      "Some (fst demo_grant)" "snd demo_grant" m for m] by blast
  then show ?thesis by (auto simp: demo_grant_def)
qed

end
