(* ===== verification/Endpoints.thy ===== *)
theory Endpoints
  imports Webhook_Endpoints History
begin

text \<open>
  The contract of the endpoint registry over all histories of calls: only vetted targets are stored,
  and the listing is complete.
\<close>

subsection \<open>Histories\<close>

datatype endpoint_op =
    Eop_Create string create_endpoint_input string string
  | Eop_Update string string update_endpoint_input
  | Eop_Rotate string string timestamp string
  | Eop_Delete string string

definition state_or :: "'s \<Rightarrow> ('s \<times> 'r) result \<Rightarrow> 's" where
  "state_or st r = (case r of Inl _ \<Rightarrow> st | Inr x \<Rightarrow> fst x)"

lemma state_or_simps [simp]: "state_or st (Inl e) = st" "state_or st (Inr x) = fst x"
  by (simp_all add: state_or_def)

fun run_endpoint_op :: "endpoint_env \<Rightarrow> endpoint_op \<Rightarrow> endpoint_store \<Rightarrow> endpoint_store" where
  "run_endpoint_op env (Eop_Create p inp i s) st = fst (create_endpoint env p inp i s st)"
| "run_endpoint_op env (Eop_Update p i inp) st = state_or st (update_endpoint env p i inp st)"
| "run_endpoint_op env (Eop_Rotate p i t s) st = state_or st (rotate_secret p i t s st)"
| "run_endpoint_op env (Eop_Delete p i) st = fst (delete_endpoint p i st)"

fun run_endpoint_ops :: "endpoint_env \<Rightarrow> endpoint_op list \<Rightarrow> endpoint_store \<Rightarrow> endpoint_store" where
  "run_endpoint_ops env [] st = st"
| "run_endpoint_ops env (op # ops) st = run_endpoint_ops env ops (run_endpoint_op env op st)"

subsection \<open>The invariant\<close>

text \<open>A stored URL is the serialisation of a parsed URL that passed every check of the registration.\<close>

definition url_vetted :: "endpoint_env \<Rightarrow> string \<Rightarrow> bool" where
  "url_vetted env s \<longleftrightarrow> (\<exists>text u. env_parse_url env text = Some u \<and> url_href u = s \<and>
     protocol_allowed env u \<and> url_username u = [] \<and> url_password u = [] \<and> url_hash u = [] \<and>
     (env_allow_private_network env \<or> \<not> private_hostname (env_is_ip env) (url_hostname u)))"

definition events_ok :: "string list \<Rightarrow> bool" where
  "events_ok events \<longleftrightarrow> events \<noteq> [] \<and> distinct events \<and> list_all is_subscription_event_type events"

definition endpoint_ok :: "endpoint_env \<Rightarrow> string \<Rightarrow> stored_endpoint \<Rightarrow> bool" where
  "endpoint_ok env i e \<longleftrightarrow> we_id e = i \<and> \<not> blank i \<and> url_vetted env (we_url e) \<and> events_ok (we_events e) \<and>
     \<not> blank (we_secret e) \<and> we_secret_prefix e = take 14 (we_secret e) \<and>
     valid_time (we_created_at e) \<and> valid_time (we_updated_at e)"

definition project_ok :: "endpoint_env \<Rightarrow> string \<Rightarrow> (string \<times> stored_endpoint) list \<Rightarrow> bool" where
  "project_ok env p es \<longleftrightarrow> distinct_keys es \<and> all_entries (endpoint_ok env) es"

definition endpoint_store_wf :: "endpoint_env \<Rightarrow> endpoint_store \<Rightarrow> bool" where
  "endpoint_store_wf env st \<longleftrightarrow> distinct_keys st \<and> all_entries (project_ok env) st"

lemma normalized_url_vetted: "normalized_url env v = Inr u \<Longrightarrow> url_vetted env u"
  by (auto simp: normalized_url_def url_vetted_def split: option.splits if_splits)

lemma validate_events_ok: "validate_events events = Inr () \<longleftrightarrow> events_ok events"
  by (auto simp: validate_events_def events_ok_def list_all_iff list_ex_iff
      dest: card_distinct simp: length_remdups_card_conv distinct_card)

lemma valid_endpoint_timestamp_ok [simp]: "valid_endpoint_timestamp t f = Inr () \<longleftrightarrow> valid_time t"
  by (simp add: valid_endpoint_timestamp_def)

lemma secret_prefix_take: "secret_prefix s = take 14 s"
  by (simp add: secret_prefix_def min_def)

lemma new_secret_Inr [simp]: "new_secret s = Inr s' \<longleftrightarrow> \<not> blank s \<and> s' = s"
  by (auto simp: new_secret_def)

lemma project_endpoints_ok: "endpoint_store_wf env st \<Longrightarrow> project_ok env p (project_endpoints p st)"
  by (auto simp: project_endpoints_def endpoint_store_wf_def project_ok_def all_entries_def
      split: option.splits)

lemma put_project_wf:
  "endpoint_store_wf env st \<Longrightarrow> project_ok env p es \<Longrightarrow> endpoint_store_wf env (js_set p es st)"
  unfolding endpoint_store_wf_def by blast

lemma put_endpoint_wf:
  "endpoint_store_wf env st \<Longrightarrow> endpoint_ok env i e \<Longrightarrow>
     endpoint_store_wf env (js_set p (js_set i e (project_endpoints p st)) st)"
  using project_endpoints_ok[of env st p]
  by (intro put_project_wf) (auto simp: project_ok_def)

lemma open_project_wf: "endpoint_store_wf env st \<Longrightarrow> endpoint_store_wf env (open_project p st)"
  by (auto simp: open_project_def intro!: put_project_wf simp: project_ok_def split: option.splits)

lemma create_endpoint_wf:
  assumes "endpoint_store_wf env st"
  shows "endpoint_store_wf env (fst (create_endpoint env p inp i s st))"
proof -
  note opened = open_project_wf[OF assms, of p]
  have "endpoint_ok env i (new_endpoint i u s inp)"
    if "events_ok (cw_events inp)" "valid_time (cw_created_at inp)" "normalized_url env (cw_url inp) = Inr u"
      "\<not> blank i" "\<not> blank s" for u
    using that by (simp add: endpoint_ok_def new_endpoint_def normalized_url_vetted secret_prefix_take)
  then show ?thesis
    using assms opened put_endpoint_wf[OF opened]
    by (auto simp: create_endpoint_def Let_def put_endpoint_def bind_result_Inr_iff validate_events_ok
        new_endpoint_def split: sum.splits)
qed

lemma update_endpoint_wf:
  assumes "endpoint_store_wf env st" "update_endpoint env p i inp st = Inr (st', r)"
  shows "endpoint_store_wf env st'"
proof (cases "map_of (project_endpoints p st) i")
  case (Some e)
  have e: "endpoint_ok env i e"
    using project_endpoints_ok[OF assms(1), of p] Some by (auto simp: project_ok_def dest: all_entriesD)
  from assms(2) Some obtain u where
    ok: "valid_time (uw_updated_at inp)" "optional_result () validate_events (uw_events inp) = Inr ()"
      "optional_result (we_url e) (normalized_url env) (uw_url inp) = Inr u"
    and st': "st' = js_set p (js_set i (e\<lparr>we_url := u, we_events := or_else (uw_events inp) (we_events e),
        we_active := or_else (uw_active inp) (we_active e), we_updated_at := uw_updated_at inp\<rparr>)
        (project_endpoints p st)) st"
    by (auto simp: update_endpoint_def bind_result_Inr_iff Let_def split: if_splits)
  have "url_vetted env u"
    using ok(3) e by (auto simp: optional_result_def endpoint_ok_def dest: normalized_url_vetted
        split: option.splits)
  moreover have "events_ok (or_else (uw_events inp) (we_events e))"
    using ok(2) e by (auto simp: optional_result_def or_else_def endpoint_ok_def validate_events_ok
        split: option.splits)
  ultimately show ?thesis
    unfolding st' using ok(1) e by (intro put_endpoint_wf assms(1)) (simp add: endpoint_ok_def)
qed (use assms in \<open>auto simp: update_endpoint_def\<close>)

lemma rotate_secret_wf:
  assumes "endpoint_store_wf env st" "rotate_secret p i t s st = Inr (st', r)"
  shows "endpoint_store_wf env st'"
proof (cases "map_of (project_endpoints p st) i")
  case (Some e)
  have e: "endpoint_ok env i e"
    using project_endpoints_ok[OF assms(1), of p] Some by (auto simp: project_ok_def dest: all_entriesD)
  have "\<not> blank s" "valid_time t" and st': "st' = js_set p (js_set i (e\<lparr>we_secret := s,
      we_secret_prefix := secret_prefix s, we_updated_at := t\<rparr>) (project_endpoints p st)) st"
    using assms(2) Some by (auto simp: rotate_secret_def bind_result_Inr_iff Let_def)
  then show ?thesis
    unfolding st' using e
    by (intro put_endpoint_wf assms(1)) (simp add: endpoint_ok_def secret_prefix_take)
qed (use assms in \<open>auto simp: rotate_secret_def\<close>)

lemma delete_endpoint_wf:
  assumes "endpoint_store_wf env st"
  shows "endpoint_store_wf env (fst (delete_endpoint p i st))"
proof (cases "map_of st p")
  case (Some es)
  then have "project_ok env p es" using assms by (auto simp: endpoint_store_wf_def dest: all_entriesD)
  then have "project_ok env p (js_delete i es)" by (auto simp: project_ok_def)
  then show ?thesis
    using assms Some
    by (auto simp: delete_endpoint_def Let_def put_project_wf) (auto simp: endpoint_store_wf_def)
qed (use assms in \<open>simp add: delete_endpoint_def\<close>)

lemma run_endpoint_op_wf:
  assumes "endpoint_store_wf env st"
  shows "endpoint_store_wf env (run_endpoint_op env op st)"
proof (cases op)
  case (Eop_Create p inp i s)
  then show ?thesis using create_endpoint_wf[OF assms] by simp
next
  case (Eop_Update p i inp)
  then show ?thesis
    using assms update_endpoint_wf[OF assms, of p i inp] by (auto simp: state_or_def split: sum.splits)
next
  case (Eop_Rotate p i t s)
  then show ?thesis
    using assms rotate_secret_wf[OF assms, of p i t s] by (auto simp: state_or_def split: sum.splits)
next
  case (Eop_Delete p i)
  then show ?thesis using delete_endpoint_wf[OF assms] by simp
qed

interpretation registry: call_history "endpoint_store_wf env" "run_endpoint_op env" "run_endpoint_ops env" for env
  by unfold_locales (simp_all add: run_endpoint_op_wf)

lemma empty_endpoint_store_wf [simp]: "endpoint_store_wf env []"
  by (simp add: endpoint_store_wf_def)

subsection \<open>Properties\<close>

text \<open>C19: Whatever calls are made on the registry, refused ones included, an endpoint it hands to the
  deliverer lies under its own identifier, has a URL that passed every check of the registration
  (HTTPS unless insecure targets are allowed, no credentials or fragment, no loopback or literal private
  host), a non-empty set of distinct known events, a non-blank secret and the prefix of this secret:
  updates and rotations cannot weaken what the creation checked.\<close>

theorem stored_endpoints_are_vetted:
  assumes "get_for_delivery p i (run_endpoint_ops env ops []) = Some e"
  shows "endpoint_ok env i e"
proof -
  have "project_ok env p (project_endpoints p (run_endpoint_ops env ops []))"
    by (intro project_endpoints_ok registry.steps_inv) simp
  then show ?thesis using assms by (auto simp: get_for_delivery_def project_ok_def dest: all_entriesD)
qed

lemma endpoint_rows_distinct:
  assumes "endpoint_store_wf env st"
  shows "distinct (map we_id (endpoint_rows st p))"
    and "r \<in> set (endpoint_rows st p) \<Longrightarrow> we_id r \<noteq> ''''"
proof -
  let ?es = "project_endpoints p st"
  have ok: "project_ok env p ?es" by (rule project_endpoints_ok[OF assms])
  have ids: "we_id (public_endpoint e) = we_id e" for e
    by (simp add: public_endpoint_def webhook_endpoint.defs)
  have key: "we_id e = i \<and> \<not> blank i" if "(i, e) \<in> set ?es" for i e
    using ok that by (auto simp: project_ok_def endpoint_ok_def dest: all_entriesD)
  then have "map we_id (js_values ?es) = map fst ?es" by auto
  then have "map we_id (endpoint_rows st p) = rev (map fst ?es)"
    by (simp add: endpoint_rows_def ids o_def rev_map)
  then show "distinct (map we_id (endpoint_rows st p))" using ok by (simp add: project_ok_def)
  assume "r \<in> set (endpoint_rows st p)"
  then obtain i e where "(i, e) \<in> set ?es" "r = public_endpoint e" by (auto simp: endpoint_rows_def)
  then show "we_id r \<noteq> ''''" using key ids by fastforce
qed

interpretation endpoint_pages: cursor_listing "endpoint_store_wf env" endpoint_rows we_id
  invalid_webhook_cursor "\<lambda>n. is_safe_integer n \<and> 1 \<le> n \<and> n \<le> 100"
  "\<lambda>st p cur n. list_endpoints p cur n st" for env
  by unfold_locales
    (auto simp: list_endpoints_def validate_list_endpoints_def dest: endpoint_rows_distinct)

text \<open>Following the cursors lists every endpoint of a project once, newest first, and nothing that
  the listing returns carries a secret.\<close>

theorem endpoint_pages_are_complete:
  assumes "1 \<le> n" "n \<le> 100" "length (endpoint_rows (run_endpoint_ops env ops []) p) < fuel"
  shows "walk_pages (\<lambda>c. list_endpoints p c n (run_endpoint_ops env ops [])) fuel None =
      Inr (map public_endpoint (rev (list_for_delivery p (run_endpoint_ops env ops []))))"
proof -
  let ?st = "run_endpoint_ops env ops []"
  have wf: "endpoint_store_wf env ?st" by (rule registry.steps_inv) simp
  have "is_safe_integer n" using assms(1,2) by (simp add: is_safe_integer_def max_safe_integer_def)
  then show ?thesis
    using endpoint_pages.walk_all[OF wf, of n p fuel] assms
    by (simp add: endpoint_rows_def list_for_delivery_def)
qed

subsection \<open>Concrete histories\<close>

definition demo_url :: "string \<Rightarrow> url option" where
  "demo_url s = Some \<lparr>url_protocol = ''https:'', url_username = [], url_password = [], url_hash = [],
     url_hostname = s, url_href = ''https://'' @ s\<rparr>"

definition demo_endpoint_env :: endpoint_env where
  "demo_endpoint_env = \<lparr>env_is_ip = (\<lambda>s. 0), env_parse_url = demo_url, env_allow_insecure_http = False,
     env_allow_private_network = False\<rparr>"

definition demo_endpoint_ops :: "endpoint_op list" where
  "demo_endpoint_ops =
     [Eop_Create ''p'' \<lparr>cw_url = '' a.example'', cw_events = [''trigger.*'', ''trigger.git-hub.push_2''],
        cw_active = True, cw_created_at = Iso 0\<rparr> ''whe_1'' ''whsec_0123456789'',
      Eop_Create ''p'' \<lparr>cw_url = ''b.localhost'', cw_events = [''trigger.*''],
        cw_active = True, cw_created_at = Iso 0\<rparr> ''whe_2'' ''whsec_1'',
      Eop_Create ''p'' \<lparr>cw_url = ''c'', cw_events = [''execution.completed''],
        cw_active = True, cw_created_at = Iso 1\<rparr> ''whe_3'' ''whsec_2'',
      Eop_Rotate ''p'' ''whe_1'' (Iso 7) ''whsec_9876543210'']"

definition demo_endpoint :: stored_endpoint where
  "demo_endpoint = \<lparr>we_id = ''whe_1'', we_url = ''https://a.example'', we_secret_prefix = ''whsec_98765432'',
     we_events = [''trigger.*'', ''trigger.git-hub.push_2''], we_active = True,
     we_created_at = Iso 0, we_updated_at = Iso 7, we_secret = ''whsec_9876543210''\<rparr>"

lemma stored_endpoints_are_vetted_witness: "endpoint_ok demo_endpoint_env ''whe_1'' demo_endpoint"
proof -
  have "get_for_delivery ''p'' ''whe_1'' (run_endpoint_ops demo_endpoint_env demo_endpoint_ops []) =
      Some demo_endpoint"
    by code_simp
  then show ?thesis by (rule stored_endpoints_are_vetted)
qed

lemma endpoint_pages_are_complete_witness:
  "walk_pages (\<lambda>c. list_endpoints ''p'' c 1 (run_endpoint_ops demo_endpoint_env demo_endpoint_ops [])) 5 None =
   Inr (map public_endpoint
     (rev (list_for_delivery ''p'' (run_endpoint_ops demo_endpoint_env demo_endpoint_ops []))))"
proof -
  have "length (endpoint_rows (run_endpoint_ops demo_endpoint_env demo_endpoint_ops []) ''p'') < 5"
    by code_simp
  with endpoint_pages_are_complete[of 1] show ?thesis by simp
qed

end
