(* ===== verification/Voice_Sources.thy ===== *)
theory Voice_Sources
  imports Execution_Types History
begin

text \<open>
  The envelopes of webhook events (\<open>packages/core/src/webhooks.ts\<close>) and the store of complete voice
  envelopes (\<open>apps/executor/src/webhooks/voice-source-store.ts\<close> and \<open>memory-voice-source-store.ts\<close>).
  The data of an execution event is the execution record, the data of any other event is JSON.
\<close>

subsection \<open>Events\<close>

datatype event_data = Execution_Data execution_record | Json_Data json

record webhook_event =
  wv_id :: string
  wv_type :: string
  wv_created_at :: timestamp
  wv_project :: string
  wv_data :: event_data

text \<open>\<open>event.data.sessionId\<close>, a string in every voice event.\<close>

definition event_session :: "webhook_event \<Rightarrow> string option" where
  "event_session e = (case wv_data e of
     Json_Data j \<Rightarrow> (case json_field ''sessionId'' j of Some (JStr s) \<Rightarrow> Some s | _ \<Rightarrow> None)
   | Execution_Data r \<Rightarrow> None)"

subsection \<open>Data\<close>

datatype voice_source_kind = Voice_Session_Event | Voice_Transcript | Voice_Observer_Failure

record voice_identity =
  vs_project :: string
  vs_event :: string
  vs_session :: string
  vs_event_type :: string
  vs_kind :: voice_source_kind
  vs_worker_sequence :: "int option"
  vs_envelope :: webhook_event

record voice_source = voice_identity +
  vs_created_at :: timestamp

record voice_admission = voice_identity +
  va_created_at :: "timestamp option"

type_synonym source_key = "string \<times> string"

record voice_source_store =
  voice_sources :: "(source_key \<times> voice_source) list"
  voice_sequences :: "((string \<times> int) \<times> source_key) list"

definition empty_voice_sources :: voice_source_store where
  "empty_voice_sources = \<lparr>voice_sources = [], voice_sequences = []\<rparr>"

subsection \<open>Operations\<close>

definition source_shape_valid :: "voice_admission \<Rightarrow> bool" where
  "source_shape_valid inp \<longleftrightarrow>
     (vs_kind inp = Voice_Session_Event \<and> vs_event_type inp = ''voice.session.event'' \<and> vs_worker_sequence inp \<noteq> None) \<or>
     (vs_kind inp = Voice_Transcript \<and> vs_event_type inp = ''voice.transcript.ready'' \<and> vs_worker_sequence inp = None) \<or>
     (vs_kind inp = Voice_Observer_Failure \<and> vs_event_type inp = ''voice.observer.failed'' \<and> vs_worker_sequence inp = None)"

definition normalize_voice_admission :: "voice_admission \<Rightarrow> voice_source result" where
  "normalize_voice_admission inp =
     (let created_at = (case va_created_at inp of Some t \<Rightarrow> t | None \<Rightarrow> wv_created_at (vs_envelope inp)) in
      if vs_project inp = [] \<or> vs_event inp = [] \<or> vs_session inp = [] \<or>
         wv_project (vs_envelope inp) \<noteq> vs_project inp \<or> wv_id (vs_envelope inp) \<noteq> vs_event inp \<or>
         wv_type (vs_envelope inp) \<noteq> vs_event_type inp \<or> event_session (vs_envelope inp) \<noteq> Some (vs_session inp) \<or>
         \<not> source_shape_valid inp \<or>
         (case vs_worker_sequence inp of None \<Rightarrow> False | Some n \<Rightarrow> \<not> is_safe_integer n \<or> n < 1) \<or>
         \<not> valid_time created_at
      then Inl (Type_Error ''Voice webhook source identity is invalid.'')
      else bind_result (to_iso created_at) (\<lambda>t.
        Inr \<lparr>vs_project = vs_project inp, vs_event = vs_event inp, vs_session = vs_session inp,
             vs_event_type = vs_event_type inp, vs_kind = vs_kind inp,
             vs_worker_sequence = vs_worker_sequence inp, vs_envelope = vs_envelope inp, vs_created_at = t\<rparr>))"

datatype ensure_source_result = Source_Inserted | Source_Existing

definition ensure_source ::
    "voice_admission \<Rightarrow> voice_source_store \<Rightarrow> (voice_source_store \<times> ensure_source_result) result" where
  "ensure_source inp st =
     bind_result (normalize_voice_admission inp) (\<lambda>incoming.
       let storage_key = (vs_project incoming, vs_event incoming) in
       case map_of (voice_sources st) storage_key of
         Some existing \<Rightarrow>
           if existing \<noteq> incoming
           then Inl (Plain_Error ''Voice webhook source identity was reused with different content.'')
           else Inr (st, Source_Existing)
       | None \<Rightarrow>
           (case vs_worker_sequence incoming of
              None \<Rightarrow>
                Inr (st\<lparr>voice_sources := js_set storage_key incoming (voice_sources st)\<rparr>, Source_Inserted)
            | Some n \<Rightarrow>
                let cursor_key = (vs_session incoming, n); prior = map_of (voice_sequences st) cursor_key in
                if prior \<noteq> None \<and> prior \<noteq> Some storage_key
                then Inl (Plain_Error ''Voice webhook worker sequence was reused by another source.'')
                else Inr (\<lparr>voice_sources = js_set storage_key incoming (voice_sources st),
                           voice_sequences = js_set cursor_key storage_key (voice_sequences st)\<rparr>,
                          Source_Inserted)))"

definition get_source :: "string \<Rightarrow> string \<Rightarrow> voice_source_store \<Rightarrow> voice_source option" where
  "get_source p e st = map_of (voice_sources st) (p, e)"

subsection \<open>A worker sequence is owned by one source\<close>

fun run_sources :: "voice_admission list \<Rightarrow> voice_source_store \<Rightarrow> voice_source_store" where
  "run_sources [] st = st"
| "run_sources (inp # inps) st = run_sources inps (case ensure_source inp st of Inl e \<Rightarrow> st | Inr x \<Rightarrow> fst x)"

definition run_source :: "voice_admission \<Rightarrow> voice_source_store \<Rightarrow> voice_source_store" where
  "run_source inp st = (case ensure_source inp st of Inl e \<Rightarrow> st | Inr x \<Rightarrow> fst x)"

text \<open>
  The sequence map lists exactly the sources with a worker sequence, each under its own session and
  number.
\<close>

definition source_row_wf :: "voice_source_store \<Rightarrow> source_key \<Rightarrow> voice_source \<Rightarrow> bool" where
  "source_row_wf st k s \<longleftrightarrow> k = (vs_project s, vs_event s) \<and>
     (\<forall>n. vs_worker_sequence s = Some n \<longrightarrow> map_of (voice_sequences st) (vs_session s, n) = Some k)"

definition voice_sources_wf :: "voice_source_store \<Rightarrow> bool" where
  "voice_sources_wf st \<longleftrightarrow> all_entries (source_row_wf st) (voice_sources st)"

lemma normalize_voice_Inr:
  "normalize_voice_admission inp = Inr s \<Longrightarrow> vs_project s = vs_project inp \<and> vs_event s = vs_event inp"
  by (auto simp: normalize_voice_admission_def Let_def bind_result_Inr_iff split: if_splits)

lemma ensure_source_wf:
  assumes "voice_sources_wf st" "ensure_source inp st = Inr (st', r)"
  shows "voice_sources_wf st' \<and> (\<forall>k s. map_of (voice_sources st) k = Some s \<longrightarrow> map_of (voice_sources st') k = Some s)"
proof -
  obtain s where s: "normalize_voice_admission inp = Inr s"
    using assms(2) by (auto simp: ensure_source_def bind_result_Inr_iff)
  let ?k = "(vs_project s, vs_event s)"
  show ?thesis
  proof (cases "map_of (voice_sources st) ?k")
    case (Some existing)
    then have "st' = st" using assms(2) s by (auto simp: ensure_source_def Let_def split: if_splits)
    then show ?thesis using assms(1) by simp
  next
    case None
    show ?thesis
    proof (cases "vs_worker_sequence s")
      case seq: None
      have "st' = st\<lparr>voice_sources := js_set ?k s (voice_sources st)\<rparr>"
        using assms(2) s None seq by (auto simp: ensure_source_def Let_def)
      then show ?thesis
        using assms(1) None seq by (auto simp: voice_sources_wf_def all_entries_def source_row_wf_def)
    next
      case (Some n)
      let ?prior = "map_of (voice_sequences st) (vs_session s, n)"
      have free: "?prior = None \<or> ?prior = Some ?k"
        and st': "st' = \<lparr>voice_sources = js_set ?k s (voice_sources st),
          voice_sequences = js_set (vs_session s, n) ?k (voice_sequences st)\<rparr>"
        using assms(2) s None Some by (cases ?prior; auto simp: ensure_source_def Let_def split: if_splits)+
      have "source_row_wf st' k' s'" if "map_of (voice_sources st') k' = Some s'" for k' s'
      proof (cases "k' = ?k")
        case True
        then show ?thesis using that Some by (simp add: st' source_row_wf_def)
      next
        case False
        then have old: "source_row_wf st k' s'"
          using that assms(1) by (auto simp: st' voice_sources_wf_def dest: all_entriesD)
        then show ?thesis using free False by (auto simp: source_row_wf_def st')
      qed
      then show ?thesis using None by (auto simp: voice_sources_wf_def all_entries_def st')
    qed
  qed
qed

lemma run_source_wf: "voice_sources_wf st \<Longrightarrow> voice_sources_wf (run_source inp st)"
  using ensure_source_wf[of st inp] by (auto simp: run_source_def split: sum.splits)

lemma empty_voice_sources_wf [simp]: "voice_sources_wf empty_voice_sources"
  by (simp add: voice_sources_wf_def empty_voice_sources_def)

interpretation voice_history: call_history voice_sources_wf run_source run_sources
  by unfold_locales (simp_all add: run_source_wf, simp add: run_source_def)

text \<open>Two stored sources of one session with one worker sequence are the same source.\<close>

lemma worker_sequence_is_owned:
  assumes "get_source p e (run_sources inps empty_voice_sources) = Some s"
    and "get_source p' e' (run_sources inps empty_voice_sources) = Some s'"
    and "vs_session s' = vs_session s" "vs_worker_sequence s = Some n" "vs_worker_sequence s' = Some n"
  shows "s' = s"
proof -
  have "voice_sources_wf (run_sources inps empty_voice_sources)" by (rule voice_history.steps_inv) simp
  then have "source_row_wf (run_sources inps empty_voice_sources) (p, e) s"
    "source_row_wf (run_sources inps empty_voice_sources) (p', e') s'"
    using assms(1,2) by (auto simp: voice_sources_wf_def get_source_def dest: all_entriesD)
  then have "(p, e) = (p', e')" using assms(3-5) by (simp add: source_row_wf_def)
  then show ?thesis using assms(1,2) by simp
qed

end
