(* ===== verification/Webhook_Deliverer.thy ===== *)
theory Webhook_Deliverer
  imports Executions Event_Work Endpoints Voice_Sources Webhook_Signatures Task_Queue
begin

text \<open>
  The webhook deliverer (\<open>apps/executor/src/webhooks/deliverer.ts\<close>): admission of events, selection of
  the endpoints of an event, and the attempts of a delivery over the delivery log, the webhook work store,
  the endpoint registry, the execution store and the job queue.

  The one \<open>await\<close> on the network splits \<open>handleWebhookDeliverJob\<close> into two steps: \<open>begin_delivery\<close> up to
  the request and \<open>finish_delivery\<close> from its outcome on. Other calls may run between the two. The
  arguments \<open>clock i\<close>, \<open>queue_now i\<close> and \<open>wall i\<close> are the \<open>i\<close>-th readings, in a step, of the deliverer's
  clock, of the queue's clock and of the \<open>new Date()\<close> of the job store. Logs and spans are left out.
\<close>

subsection \<open>Data\<close>

record deliverer_config =
  dc_digest :: "string list \<Rightarrow> string"
  dc_hmac :: hmac
  dc_stringify :: "webhook_event \<Rightarrow> string"
  dc_retry_delays :: "int list"
  dc_attempt_timeout :: int

text \<open>
  The stores and the private state of the deliverer. \<open>dv_accepting\<close> is the queue's admission flag,
  \<open>dv_executions\<close> is \<^term>\<open>None\<close> when no execution store was given.
\<close>

record deliverer_state =
  dv_system :: webhook_system
  dv_endpoints :: endpoint_store
  dv_executions :: "execution_store option"
  dv_sources :: voice_source_store
  dv_volatile :: "((string \<times> string) \<times> webhook_event) list"
  dv_accepting :: bool

subsection \<open>Options\<close>

definition default_retry_delays :: "int list" where
  "default_retry_delays = [0, 30000, 2 * 60000, 10 * 60000, 60 * 60000]"

definition default_attempt_timeout :: int where
  "default_attempt_timeout = 10000"

definition valid_retry_delays :: "int list \<Rightarrow> int list result" where
  "valid_retry_delays delays =
     (if delays = [] \<or> hd delays \<noteq> 0 \<or> list_ex (\<lambda>d. \<not> is_safe_integer d \<or> d < 0) delays
      then Inl (Type_Error
        ''Webhook retry delays must start at zero and contain non-negative safe integers.'')
      else Inr delays)"

definition valid_attempt_timeout :: "int \<Rightarrow> int result" where
  "valid_attempt_timeout v =
     (if \<not> is_safe_integer v \<or> v < 1
      then Inl (Type_Error ''Webhook attempt timeout must be a positive safe integer.'')
      else Inr v)"

definition create_deliverer_config ::
    "(string list \<Rightarrow> string) \<Rightarrow> hmac \<Rightarrow> (webhook_event \<Rightarrow> string) \<Rightarrow> int list option \<Rightarrow> int option \<Rightarrow>
     deliverer_config result" where
  "create_deliverer_config digest hmac stringify delays timeout =
     bind_result (valid_retry_delays (or_else delays default_retry_delays)) (\<lambda>ds.
     bind_result (valid_attempt_timeout (or_else timeout default_attempt_timeout)) (\<lambda>t.
       Inr \<lparr>dc_digest = digest, dc_hmac = hmac, dc_stringify = stringify, dc_retry_delays = ds,
            dc_attempt_timeout = t\<rparr>))"

definition deliverer_clock :: "int option \<Rightarrow> int result" where
  "deliverer_clock = read_clock ''Webhook clock returned an invalid date.''"

subsection \<open>Events\<close>

definition starts_with :: "string \<Rightarrow> string \<Rightarrow> bool" where
  "starts_with prefix s \<longleftrightarrow> take (length prefix) s = prefix"

definition subscribed :: "string list \<Rightarrow> string \<Rightarrow> bool" where
  "subscribed events event_type \<longleftrightarrow>
     (if (event_type = ''execution.succeeded'' \<or> event_type = ''execution.failed'' \<or>
          event_type = ''execution.cancelled'') \<and> ''execution.completed'' \<in> set events then True
      else if starts_with ''trigger.'' event_type \<and> ''trigger.*'' \<in> set events then True
      else event_type \<in> set events)"

definition terminal_execution :: "execution_record \<Rightarrow> bool" where
  "terminal_execution r \<longleftrightarrow>
     ex_status r = St_Succeeded \<or> ex_status r = St_Failed \<or> ex_status r = St_Cancelled"

definition execution_event_type :: "execution_record \<Rightarrow> string" where
  "execution_event_type r =
     (if ex_status r = St_Succeeded then ''execution.succeeded''
      else if ex_status r = St_Failed then ''execution.failed'' else ''execution.cancelled'')"

definition event_key :: "webhook_event \<Rightarrow> string \<times> string" where
  "event_key event = (wv_project event, wv_id event)"

text \<open>\<open>#rememberEvent\<close>: whether the event was not there before.\<close>

definition remember_event :: "webhook_event \<Rightarrow> deliverer_state \<Rightarrow> (deliverer_state \<times> bool) result" where
  "remember_event event st =
     (case map_of (dv_volatile st) (event_key event) of
        Some existing \<Rightarrow>
          if existing \<noteq> event
          then Inl (Plain_Error ''Webhook event identity was reused with different data.'')
          else Inr (st, False)
      | None \<Rightarrow> Inr (st\<lparr>dv_volatile := js_set (event_key event) event (dv_volatile st)\<rparr>, True))"

definition forget_event :: "string \<Rightarrow> string \<Rightarrow> deliverer_state \<Rightarrow> deliverer_state" where
  "forget_event p e st = st\<lparr>dv_volatile := js_delete (p, e) (dv_volatile st)\<rparr>"

definition has_voice_source :: "event_source_kind \<Rightarrow> bool" where
  "has_voice_source k \<longleftrightarrow> k = Source_Voice_Session_Event \<or> k = Source_Voice_Transcript \<or>
     k = Source_Voice_Observer_Failure"

definition resolve_event :: "event_work \<Rightarrow> deliverer_state \<Rightarrow> webhook_event option" where
  "resolve_event ew st =
     (case (ew_source_kind ew = Source_Execution, dv_executions st) of
        (True, Some es) \<Rightarrow>
          (case get_execution (ew_project ew) (ew_source ew) es of
             None \<Rightarrow> None
           | Some r \<Rightarrow>
               if \<not> terminal_execution r then None
               else if execution_event_type r \<noteq> ew_event_type ew then None
               else Some \<lparr>wv_id = ew_event ew, wv_type = execution_event_type r,
                 wv_created_at = ew_created_at ew, wv_project = ew_project ew,
                 wv_data = Execution_Data r\<rparr>)
      | _ \<Rightarrow>
          if has_voice_source (ew_source_kind ew)
          then (case get_source (ew_project ew) (ew_event ew) (dv_sources st) of
             None \<Rightarrow> None
           | Some source \<Rightarrow>
               if vs_event_type source \<noteq> ew_event_type ew \<or>
                  wv_type (vs_envelope source) \<noteq> ew_event_type ew \<or>
                  wv_created_at (vs_envelope source) \<noteq> ew_created_at ew
               then None else Some (vs_envelope source))
          else (case map_of (dv_volatile st) (ew_project ew, ew_event ew) of
             None \<Rightarrow> None
           | Some event \<Rightarrow>
               if wv_type event \<noteq> ew_event_type ew \<or> wv_created_at event \<noteq> ew_created_at ew
               then None else Some event))"

definition finished_delivery :: "sequenced_delivery \<Rightarrow> bool" where
  "finished_delivery row \<longleftrightarrow>
     wd_status (sd_delivery row) = Dl_Succeeded \<or> wd_status (sd_delivery row) = Dl_Failed"

definition release_event_if_terminal ::
    "string \<Rightarrow> string \<Rightarrow> deliverer_state \<Rightarrow> deliverer_state result" where
  "release_event_if_terminal p e st =
     bind_result (get_materialized p e (dv_system st)) (\<lambda>rows.
       Inr (if list_all finished_delivery rows then forget_event p e st else st))"

subsection \<open>Admission\<close>

text \<open>
  \<open>#admit\<close> in the order of the code: the event is remembered, the clock is read, the work store admits
  the event, the queue its selection job. Only a failure of the work store forgets the event again.
\<close>

definition submit_selection ::
    "deliverer_config \<Rightarrow> int option \<Rightarrow> int \<Rightarrow> webhook_event \<Rightarrow> timestamp \<Rightarrow> deliverer_state \<Rightarrow>
     deliverer_state \<times> unit result" where
  "submit_selection cfg reading wall event start st =
     (case get_event (wv_project event) (wv_id event) (dv_system st) of
        None \<Rightarrow> (st, Inl (Plain_Error ''Webhook event disappeared after durable admission.''))
      | Some ew \<Rightarrow>
          (case submit_job (dc_digest cfg) (dv_accepting st)
              (Webhook_Select (wv_project event) (wv_id event))
              \<lparr>opt_run_after = Some start, opt_group_key = Some webhook_selection_group_key,
               opt_group_order = Some (ew_sequence ew)\<rparr> reading wall (sys_jobs (dv_system st)) of
             (js, r) \<Rightarrow> (st\<lparr>dv_system := (dv_system st)\<lparr>sys_jobs := js\<rparr>\<rparr>, bind_result r (\<lambda>_. Inr ()))))"

definition event_admission_of ::
    "webhook_event \<Rightarrow> string list option \<Rightarrow> event_source_kind \<Rightarrow> string \<Rightarrow> timestamp \<Rightarrow> event_admission" where
  "event_admission_of event ids kind source start =
     \<lparr>ea_project = wv_project event, ea_event = wv_id event, ea_event_type = wv_type event,
      ea_source_kind = kind, ea_source = source, ea_endpoints = map_option js_unique ids,
      ea_created_at = wv_created_at event, ea_selection_run_after = start\<rparr>"

definition admit_durably ::
    "deliverer_config \<Rightarrow> int option \<Rightarrow> (nat \<Rightarrow> int) \<Rightarrow> webhook_event \<Rightarrow> event_admission \<Rightarrow> bool \<Rightarrow>
     deliverer_state \<Rightarrow> deliverer_state \<times> unit result" where
  "admit_durably cfg reading wall event admission retained st =
     (case ensure_event (dc_digest cfg) (wall 0) admission (dv_system st) of
        (sys, Inl err) \<Rightarrow>
          (if retained then forget_event (wv_project event) (wv_id event) (st\<lparr>dv_system := sys\<rparr>)
           else st\<lparr>dv_system := sys\<rparr>, Inl err)
      | (sys, Inr _) \<Rightarrow>
          submit_selection cfg reading (wall 1) event (ea_selection_run_after admission) (st\<lparr>dv_system := sys\<rparr>))"

definition admit_event ::
    "deliverer_config \<Rightarrow> (nat \<Rightarrow> int option) \<Rightarrow> (nat \<Rightarrow> int option) \<Rightarrow> (nat \<Rightarrow> int) \<Rightarrow> webhook_event \<Rightarrow>
     string list option \<Rightarrow> event_source_kind \<Rightarrow> string \<Rightarrow> deliverer_state \<Rightarrow> deliverer_state \<times> unit result" where
  "admit_event cfg clock queue_now wall event ids kind source st =
     (case (if kind = Source_Execution \<and> dv_executions st \<noteq> None then Inr (st, False)
            else if kind = Source_Trigger \<or> kind = Source_Execution then remember_event event st
            else Inr (st, False)) of
        Inl err \<Rightarrow> (st, Inl err)
      | Inr (st1, retained) \<Rightarrow>
          (case bind_result (deliverer_clock (clock 0)) iso_string of
             Inl err \<Rightarrow> (st1, Inl err)
           | Inr start \<Rightarrow> admit_durably cfg (queue_now 0) wall event
               (event_admission_of event ids kind source start) retained st1))"

text \<open>\<open>created_at ?? this.#now().toISOString()\<close>, with the reading that it takes from \<open>clock\<close>.\<close>

definition created_or_now :: "timestamp option \<Rightarrow> (nat \<Rightarrow> int option) \<Rightarrow> (timestamp \<times> (nat \<Rightarrow> int option)) result" where
  "created_or_now created_at clock =
     (case created_at of
        Some t \<Rightarrow> Inr (t, clock)
      | None \<Rightarrow> bind_result (bind_result (deliverer_clock (clock 0)) iso_string) (\<lambda>t.
          Inr (t, \<lambda>i. clock (Suc i))))"

text \<open>\<open>fresh\<close> is what the factory of event identifiers returns.\<close>

definition enqueue_execution ::
    "deliverer_config \<Rightarrow> (nat \<Rightarrow> int option) \<Rightarrow> (nat \<Rightarrow> int option) \<Rightarrow> (nat \<Rightarrow> int) \<Rightarrow> string \<Rightarrow>
     execution_record \<Rightarrow> string option \<Rightarrow> string \<Rightarrow> deliverer_state \<Rightarrow> deliverer_state \<times> unit result" where
  "enqueue_execution cfg clock queue_now wall p r stable_id fresh st =
     (if \<not> terminal_execution r
      then (st, Inl (Plain_Error ''Only terminal executions can emit webhook events.''))
      else case created_or_now (ex_completed_at r) clock of
        Inl err \<Rightarrow> (st, Inl err)
      | Inr (created_at, clock') \<Rightarrow>
          admit_event cfg clock' queue_now wall
            \<lparr>wv_id = or_else stable_id fresh, wv_type = execution_event_type r, wv_created_at = created_at,
             wv_project = p, wv_data = Execution_Data r\<rparr>
            None Source_Execution (ex_id r) st)"

text \<open>The identifier and the creation time of a voice session event or of a transcript, and all of it as JSON.\<close>

record voice_item =
  vi_id :: string
  vi_created_at :: "timestamp option"
  vi_data :: json

definition session_of :: "webhook_event \<Rightarrow> string" where
  "session_of event = or_else (event_session event) []"

definition data_sequence :: "json \<Rightarrow> int option" where
  "data_sequence j = (case json_field ''sequence'' j of Some (JNum n) \<Rightarrow> Some n | _ \<Rightarrow> None)"

definition source_admission ::
    "webhook_event \<Rightarrow> voice_source_kind \<Rightarrow> int option \<Rightarrow> voice_admission" where
  "source_admission event kind worker_sequence =
     \<lparr>vs_project = wv_project event, vs_event = wv_id event, vs_session = session_of event,
      vs_event_type = wv_type event, vs_kind = kind, vs_worker_sequence = worker_sequence,
      vs_envelope = event, va_created_at = None\<rparr>"

definition admit_voice_event ::
    "deliverer_config \<Rightarrow> (nat \<Rightarrow> int option) \<Rightarrow> (nat \<Rightarrow> int option) \<Rightarrow> (nat \<Rightarrow> int) \<Rightarrow> webhook_event \<Rightarrow>
     voice_source_kind \<Rightarrow> int option \<Rightarrow> string list \<Rightarrow> event_source_kind \<Rightarrow> string \<Rightarrow> deliverer_state \<Rightarrow>
     deliverer_state \<times> unit result" where
  "admit_voice_event cfg clock queue_now wall event kind worker_sequence ids source_kind source st =
     (case ensure_source (source_admission event kind worker_sequence) (dv_sources st) of
        Inl err \<Rightarrow> (st, Inl err)
      | Inr (sources, _) \<Rightarrow>
          admit_event cfg clock queue_now wall event (Some ids) source_kind source (st\<lparr>dv_sources := sources\<rparr>))"

definition enqueue_voice_session_event ::
    "deliverer_config \<Rightarrow> (nat \<Rightarrow> int option) \<Rightarrow> (nat \<Rightarrow> int option) \<Rightarrow> (nat \<Rightarrow> int) \<Rightarrow> string \<Rightarrow> string list \<Rightarrow>
     string \<Rightarrow> timestamp \<Rightarrow> json \<Rightarrow> deliverer_state \<Rightarrow> deliverer_state \<times> unit result" where
  "enqueue_voice_session_event cfg clock queue_now wall p ids i created_at data st =
     admit_voice_event cfg clock queue_now wall
       \<lparr>wv_id = i, wv_type = ''voice.session.event'', wv_created_at = created_at, wv_project = p,
        wv_data = Json_Data data\<rparr>
       Voice_Session_Event (data_sequence data) ids Source_Voice_Session_Event i st"

definition enqueue_voice_transcript ::
    "deliverer_config \<Rightarrow> (nat \<Rightarrow> int option) \<Rightarrow> (nat \<Rightarrow> int option) \<Rightarrow> (nat \<Rightarrow> int) \<Rightarrow> string \<Rightarrow> string list \<Rightarrow>
     string \<Rightarrow> timestamp option \<Rightarrow> json \<Rightarrow> deliverer_state \<Rightarrow> deliverer_state \<times> unit result" where
  "enqueue_voice_transcript cfg clock queue_now wall p ids i created data st =
     (case created_or_now created clock of
        Inl err \<Rightarrow> (st, Inl err)
      | Inr (created_at, clock') \<Rightarrow>
          admit_voice_event cfg clock' queue_now wall
            \<lparr>wv_id = i, wv_type = ''voice.transcript.ready'', wv_created_at = created_at, wv_project = p,
             wv_data = Json_Data data\<rparr>
            Voice_Transcript None ids Source_Voice_Transcript i st)"

definition enqueue_voice_observer_failure ::
    "deliverer_config \<Rightarrow> (nat \<Rightarrow> int option) \<Rightarrow> (nat \<Rightarrow> int option) \<Rightarrow> (nat \<Rightarrow> int) \<Rightarrow> string \<Rightarrow> string list \<Rightarrow>
     string \<Rightarrow> timestamp option \<Rightarrow> json \<Rightarrow> deliverer_state \<Rightarrow> deliverer_state \<times> unit result" where
  "enqueue_voice_observer_failure cfg clock queue_now wall p ids session created data st =
     (case created_or_now created clock of
        Inl err \<Rightarrow> (st, Inl err)
      | Inr (created_at, clock') \<Rightarrow>
          admit_voice_event cfg clock' queue_now wall
            \<lparr>wv_id = ''voice_observer_failed_'' @ session, wv_type = ''voice.observer.failed'',
             wv_created_at = created_at, wv_project = p, wv_data = Json_Data data\<rparr>
            Voice_Observer_Failure None ids Source_Voice_Observer_Failure session st)"

definition enqueue_trigger_event ::
    "deliverer_config \<Rightarrow> (nat \<Rightarrow> int option) \<Rightarrow> (nat \<Rightarrow> int option) \<Rightarrow> (nat \<Rightarrow> int) \<Rightarrow> string \<Rightarrow> string list \<Rightarrow>
     string \<Rightarrow> json \<Rightarrow> timestamp option \<Rightarrow> string option \<Rightarrow> string \<Rightarrow> deliverer_state \<Rightarrow>
     deliverer_state \<times> unit result" where
  "enqueue_trigger_event cfg clock queue_now wall p ids trigger data created stable_id fresh st =
     (case created_or_now created clock of
        Inl err \<Rightarrow> (st, Inl err)
      | Inr (created_at, clock') \<Rightarrow>
          let i = or_else stable_id fresh in
          admit_event cfg clock' queue_now wall
            \<lparr>wv_id = i, wv_type = ''trigger.'' @ trigger, wv_created_at = created_at, wv_project = p,
             wv_data = Json_Data data\<rparr>
            (Some ids) Source_Trigger i st)"

subsection \<open>Selection\<close>

definition selected_endpoints ::
    "string \<Rightarrow> string \<Rightarrow> string list option \<Rightarrow> endpoint_store \<Rightarrow> stored_endpoint list" where
  "selected_endpoints p event_type ids es =
     filter (\<lambda>ep. we_active ep \<and> subscribed (we_events ep) event_type)
       (case ids of
          None \<Rightarrow> list_for_delivery p es
        | Some is \<Rightarrow> List.map_filter (\<lambda>i. get_for_delivery p i es) is)"

text \<open>
  The submissions of one selection. All of them are made before the first rejection is looked at, so a
  failure leaves the later jobs submitted; the result is the error of the first delivery that failed.
  Delivery number \<open>i\<close> takes the \<open>i\<close>-th readings.
\<close>

fun submit_deliveries ::
    "deliverer_config \<Rightarrow> (nat \<Rightarrow> int option) \<Rightarrow> (nat \<Rightarrow> int option) \<Rightarrow> (nat \<Rightarrow> int) \<Rightarrow> bool \<Rightarrow> string \<Rightarrow>
     sequenced_delivery list \<Rightarrow> job_store \<Rightarrow> job_store \<times> unit result" where
  "submit_deliveries cfg clock queue_now wall accepting p [] js = (js, Inr ())"
| "submit_deliveries cfg clock queue_now wall accepting p (row # rows) js =
     (let d = sd_delivery row;
          (js', r) = (case (case wd_next_retry_at d of Some t \<Rightarrow> Inr t
                            | None \<Rightarrow> bind_result (deliverer_clock (clock 0)) iso_string) of
            Inl err \<Rightarrow> (js, Inl err)
          | Inr start \<Rightarrow>
              submit_job (dc_digest cfg) accepting (Webhook_Deliver p (wd_id d))
                \<lparr>opt_run_after = Some start,
                 opt_group_key = Some (webhook_endpoint_group_key (dc_digest cfg) p (wd_endpoint d)),
                 opt_group_order = Some (sd_sequence row)\<rparr> (queue_now 0) (wall 0) js);
          (js'', rest) = submit_deliveries cfg (\<lambda>i. clock (Suc i)) (\<lambda>i. queue_now (Suc i))
            (\<lambda>i. wall (Suc i)) accepting p rows js' in
      (js'', bind_result r (\<lambda>_. rest)))"

definition materialize_selection ::
    "deliverer_config \<Rightarrow> int option \<Rightarrow> event_work \<Rightarrow> string \<Rightarrow> string \<Rightarrow> deliverer_state \<Rightarrow>
     deliverer_state \<times> sequenced_delivery list result" where
  "materialize_selection cfg reading ew p e st =
     (let endpoints = selected_endpoints p (ew_event_type ew) (ew_endpoints ew) (dv_endpoints st) in
      case bind_result (deliverer_clock reading) iso_string of
        Inl err \<Rightarrow> (st, Inl err)
      | Inr t \<Rightarrow>
          (case materialize_event (dc_digest cfg) p e (map we_id endpoints) t (dv_system st) of
             (sys, r) \<Rightarrow> (st\<lparr>dv_system := sys\<rparr>, r)))"

definition submit_selected ::
    "deliverer_config \<Rightarrow> (nat \<Rightarrow> int option) \<Rightarrow> (nat \<Rightarrow> int option) \<Rightarrow> (nat \<Rightarrow> int) \<Rightarrow> string \<Rightarrow>
     sequenced_delivery list \<Rightarrow> deliverer_state \<Rightarrow> deliverer_state \<times> job_handler_result result" where
  "submit_selected cfg clock queue_now wall p rows st =
     (case submit_deliveries cfg clock queue_now wall (dv_accepting st) p rows (sys_jobs (dv_system st)) of
        (js, r) \<Rightarrow> (st\<lparr>dv_system := (dv_system st)\<lparr>sys_jobs := js\<rparr>\<rparr>, bind_result r (\<lambda>_. Inr Handler_Complete)))"

definition handle_select_job ::
    "deliverer_config \<Rightarrow> (nat \<Rightarrow> int option) \<Rightarrow> (nat \<Rightarrow> int option) \<Rightarrow> (nat \<Rightarrow> int) \<Rightarrow> string \<Rightarrow> string \<Rightarrow>
     deliverer_state \<Rightarrow> deliverer_state \<times> job_handler_result result" where
  "handle_select_job cfg clock queue_now wall p e st =
     (case get_event p e (dv_system st) of
        None \<Rightarrow> (st, Inr Handler_Complete)
      | Some ew \<Rightarrow>
          (case get_materialized p e (dv_system st) of
             Inl err \<Rightarrow> (st, Inl err)
           | Inr rows0 \<Rightarrow>
               (case (if ew_materialized_at ew = None then materialize_selection cfg (clock 0) ew p e st
                      else (st, Inr rows0)) of
                  (st1, Inl err) \<Rightarrow> (st1, Inl err)
                | (st1, Inr rows) \<Rightarrow>
                    submit_selected cfg (\<lambda>i. clock (Suc i)) queue_now wall p rows
                      (if rows = [] then forget_event p e st1 else st1))))"

subsection \<open>Delivery\<close>

text \<open>The request of an attempt; \<open>rq_headers\<close> are its webhook headers in the order of the code.\<close>

record webhook_request =
  rq_url :: string
  rq_headers :: "(string \<times> string) list"
  rq_body :: string

text \<open>What an attempt keeps over the request.\<close>

record flight =
  fl_project :: string
  fl_delivery :: webhook_delivery
  fl_attempt :: int
  fl_attempted_at :: int
  fl_request :: webhook_request

datatype begun = Begun_Result job_handler_result | Begun_Flight flight

datatype fetch_outcome = Fetch_Status int | Fetch_Timed_Out | Fetch_Failed

definition without_next_retry :: "webhook_delivery \<Rightarrow> webhook_delivery" where
  "without_next_retry d = d\<lparr>wd_next_retry_at := None\<rparr>"

text \<open>\<open>Math.floor(ms / 1000)\<close>, which doubles compute exactly for the instants of a \<open>Date\<close>.\<close>

definition unix_seconds :: "int \<Rightarrow> int" where
  "unix_seconds ms = ms div 1000"

definition signed_request ::
    "deliverer_config \<Rightarrow> stored_endpoint \<Rightarrow> string \<Rightarrow> webhook_event \<Rightarrow> int \<Rightarrow> webhook_request" where
  "signed_request cfg ep e event attempted_at =
     (let stamp = int_text (unix_seconds attempted_at);
          body = dc_stringify cfg event;
          signature = create_webhook_signature (dc_hmac cfg) body (we_secret ep) stamp in
      \<lparr>rq_url = we_url ep,
       rq_headers = [(''Content-Type'', ''application/json''), (webhook_id_header, e),
         (webhook_timestamp_header, stamp), (webhook_signature_header, signature),
         (webhook_timestamp_header_alias, stamp), (webhook_signature_header_alias, signature)],
       rq_body = body\<rparr>)"

text \<open>The instant one second after the reading, for a handler that has to come back.\<close>

definition retry_soon :: "int option \<Rightarrow> job_handler_result result" where
  "retry_soon reading = bind_result (deliverer_clock reading) (\<lambda>now.
     bind_result (iso_string (now + 1000)) (\<lambda>t. Inr (Handler_Reschedule t)))"

definition abandon_delivery ::
    "string \<Rightarrow> webhook_delivery \<Rightarrow> string \<Rightarrow> int option \<Rightarrow> deliverer_state \<Rightarrow> deliverer_state \<times> begun result" where
  "abandon_delivery p d i reading st =
     (case bind_result (deliverer_clock reading) iso_string of
        Inl err \<Rightarrow> (st, Inl err)
      | Inr t \<Rightarrow>
          (case mark_recovery_failed p i t (sys_deliveries (dv_system st)) of
             Inl err \<Rightarrow> (st, Inl err)
           | Inr (ds, _) \<Rightarrow>
               let st1 = st\<lparr>dv_system := (dv_system st)\<lparr>sys_deliveries := ds\<rparr>\<rparr> in
               (case release_event_if_terminal p (wd_event d) st1 of
                  Inl err \<Rightarrow> (st1, Inl err)
                | Inr st2 \<Rightarrow> (st2, Inr (Begun_Result Handler_Complete)))))"

definition launch_delivery ::
    "deliverer_config \<Rightarrow> string \<Rightarrow> webhook_delivery \<Rightarrow> webhook_event \<Rightarrow> stored_endpoint \<Rightarrow> int option \<Rightarrow>
     deliverer_state \<Rightarrow> deliverer_state \<times> begun result" where
  "launch_delivery cfg p d0 event ep reading st =
     (let d = (without_next_retry d0)\<lparr>wd_status := Dl_Delivering\<rparr> in
      case update_delivery p d (sys_deliveries (dv_system st)) of
        Inl err \<Rightarrow> (st, Inl err)
      | Inr ds \<Rightarrow>
          (let st1 = st\<lparr>dv_system := (dv_system st)\<lparr>sys_deliveries := ds\<rparr>\<rparr> in
           case deliverer_clock reading of
             Inl err \<Rightarrow> (st1, Inl err)
           | Inr attempted_at \<Rightarrow>
               (st1, Inr (Begun_Flight
                  \<lparr>fl_project = p, fl_delivery = d, fl_attempt = int (length (wd_attempts d)) + 1,
                   fl_attempted_at = attempted_at,
                   fl_request = signed_request cfg ep (wd_event d) event attempted_at\<rparr>))))"

definition recover_delivering ::
    "string \<Rightarrow> string \<Rightarrow> webhook_delivery \<Rightarrow> deliverer_state \<Rightarrow> deliverer_state \<times> webhook_delivery" where
  "recover_delivering p i d st =
     (if wd_status d = Dl_Delivering
      then let ds = fst (reset_for_recovery p i (sys_deliveries (dv_system st))) in
        (st\<lparr>dv_system := (dv_system st)\<lparr>sys_deliveries := ds\<rparr>\<rparr>, or_else (get_delivery p i ds) d)
      else (st, d))"

text \<open>\<open>delivery.nextRetryAt !== undefined && Date.parse(delivery.nextRetryAt) > now\<close>\<close>

definition not_yet_due :: "int \<Rightarrow> webhook_delivery \<Rightarrow> timestamp option" where
  "not_yet_due now d = (case wd_next_retry_at d of
     None \<Rightarrow> None
   | Some t \<Rightarrow> if num_less (Some now) (date_parse t) then Some t else None)"

text \<open>The part of the handler from the lookup of the event on; \<open>reading\<close> is the second one of the clock.\<close>

definition attempt_delivery ::
    "deliverer_config \<Rightarrow> int option \<Rightarrow> string \<Rightarrow> string \<Rightarrow> webhook_delivery \<Rightarrow> deliverer_state \<Rightarrow>
     deliverer_state \<times> begun result" where
  "attempt_delivery cfg reading p i d st =
     (let work = get_event p (wd_event d) (dv_system st);
          event = (case work of None \<Rightarrow> None | Some ew \<Rightarrow> resolve_event ew st);
          endpoint = get_for_delivery p (wd_endpoint d) (dv_endpoints st) in
      if (case work of None \<Rightarrow> False | Some ew \<Rightarrow> event = None \<and> has_voice_source (ew_source_kind ew))
      then (st, bind_result (retry_soon reading) (\<lambda>r. Inr (Begun_Result r)))
      else case (event, endpoint) of
        (Some ev, Some ep) \<Rightarrow>
          if we_active ep then launch_delivery cfg p d ev ep reading st
          else abandon_delivery p d i reading st
      | _ \<Rightarrow> abandon_delivery p d i reading st)"

definition begin_delivery ::
    "deliverer_config \<Rightarrow> (nat \<Rightarrow> int option) \<Rightarrow> string \<Rightarrow> string \<Rightarrow> deliverer_state \<Rightarrow>
     deliverer_state \<times> begun result" where
  "begin_delivery cfg clock p i st =
     (case get_delivery p i (sys_deliveries (dv_system st)) of
        None \<Rightarrow> (st, Inr (Begun_Result Handler_Complete))
      | Some d0 \<Rightarrow>
          if wd_status d0 = Dl_Succeeded \<or> wd_status d0 = Dl_Failed
          then (st, Inr (Begun_Result Handler_Complete))
          else (case deliverer_clock (clock 0) of
            Inl err \<Rightarrow> (st, Inl err)
          | Inr now \<Rightarrow>
              (case not_yet_due now d0 of
                 Some t \<Rightarrow> (st, Inr (Begun_Result (Handler_Reschedule t)))
               | None \<Rightarrow> (case recover_delivering p i d0 st of
                   (st1, d) \<Rightarrow> attempt_delivery cfg (clock 1) p i d st1))))"

text \<open>The attempt as it is recorded, and the three ways it moves the delivery.\<close>

definition attempt_error :: "deliverer_config \<Rightarrow> fetch_outcome \<Rightarrow> string option" where
  "attempt_error cfg outcome = (case outcome of
     Fetch_Status _ \<Rightarrow> None
   | Fetch_Timed_Out \<Rightarrow> Some (''Webhook request timed out after '' @ int_text (dc_attempt_timeout cfg) @ ''ms.'')
   | Fetch_Failed \<Rightarrow> Some ''Webhook request failed before receiving an HTTP response.'')"

definition recorded_attempt :: "deliverer_config \<Rightarrow> flight \<Rightarrow> fetch_outcome \<Rightarrow> int \<Rightarrow> delivery_attempt" where
  "recorded_attempt cfg fl outcome finished_at =
     \<lparr>da_attempt = fl_attempt fl, da_attempted_at = Iso (fl_attempted_at fl),
      da_completed_at = Iso finished_at,
      da_status_code = (case outcome of Fetch_Status code \<Rightarrow> Some code | _ \<Rightarrow> None),
      da_error = attempt_error cfg outcome\<rparr>"

definition accepted_by_endpoint :: "fetch_outcome \<Rightarrow> bool" where
  "accepted_by_endpoint outcome = (case outcome of
     Fetch_Status code \<Rightarrow> 200 \<le> code \<and> code < 300 | _ \<Rightarrow> False)"

definition settle_delivery ::
    "string \<Rightarrow> webhook_delivery \<Rightarrow> deliverer_state \<Rightarrow> deliverer_state \<times> job_handler_result result" where
  "settle_delivery p d st =
     (case update_delivery p d (sys_deliveries (dv_system st)) of
        Inl err \<Rightarrow> (st, Inl err)
      | Inr ds \<Rightarrow>
          let st1 = st\<lparr>dv_system := (dv_system st)\<lparr>sys_deliveries := ds\<rparr>\<rparr> in
          (case release_event_if_terminal p (wd_event d) st1 of
             Inl err \<Rightarrow> (st1, Inl err)
           | Inr st2 \<Rightarrow> (st2, Inr Handler_Complete)))"

definition postpone_delivery ::
    "string \<Rightarrow> webhook_delivery \<Rightarrow> int \<Rightarrow> deliverer_state \<Rightarrow> deliverer_state \<times> job_handler_result result" where
  "postpone_delivery p d instant st =
     (case iso_string instant of
        Inl err \<Rightarrow> (st, Inl err)
      | Inr t \<Rightarrow>
          (case update_delivery p (d\<lparr>wd_next_retry_at := Some t\<rparr>) (sys_deliveries (dv_system st)) of
             Inl err \<Rightarrow> (st, Inl err)
           | Inr ds \<Rightarrow> (st\<lparr>dv_system := (dv_system st)\<lparr>sys_deliveries := ds\<rparr>\<rparr>, Inr (Handler_Reschedule t))))"

definition record_outcome ::
    "deliverer_config \<Rightarrow> flight \<Rightarrow> fetch_outcome \<Rightarrow> int \<Rightarrow> deliverer_state \<Rightarrow>
     deliverer_state \<times> job_handler_result result" where
  "record_outcome cfg fl outcome finished_at st =
     (let d = (without_next_retry (fl_delivery fl))\<lparr>wd_attempts := wd_attempts (fl_delivery fl) @
            [recorded_attempt cfg fl outcome finished_at]\<rparr>;
          n = nat (fl_attempt fl) in
      if accepted_by_endpoint outcome
      then settle_delivery (fl_project fl) (d\<lparr>wd_status := Dl_Succeeded, wd_completed_at := Some (Iso finished_at)\<rparr>) st
      else if length (dc_retry_delays cfg) \<le> n
      then settle_delivery (fl_project fl) (d\<lparr>wd_status := Dl_Failed, wd_completed_at := Some (Iso finished_at)\<rparr>) st
      else postpone_delivery (fl_project fl) (d\<lparr>wd_status := Dl_Pending\<rparr>)
        (finished_at + dc_retry_delays cfg ! n) st)"

definition finish_delivery ::
    "deliverer_config \<Rightarrow> (nat \<Rightarrow> int option) \<Rightarrow> flight \<Rightarrow> fetch_outcome \<Rightarrow> deliverer_state \<Rightarrow>
     deliverer_state \<times> job_handler_result result" where
  "finish_delivery cfg clock fl outcome st =
     (case deliverer_clock (clock 0) of
        Inl err \<Rightarrow> (st, Inl err)
      | Inr finished_at \<Rightarrow>
          (case record_outcome cfg fl outcome finished_at st of
             (st1, Inl err) \<Rightarrow> (st1, retry_soon (clock 1))
           | (st1, Inr r) \<Rightarrow> (st1, Inr r)))"

text \<open>The whole handler, when no other call runs between its two steps.\<close>

definition handle_deliver_job ::
    "deliverer_config \<Rightarrow> (nat \<Rightarrow> int option) \<Rightarrow> (nat \<Rightarrow> int option) \<Rightarrow> fetch_outcome \<Rightarrow> string \<Rightarrow> string \<Rightarrow>
     deliverer_state \<Rightarrow> deliverer_state \<times> job_handler_result result" where
  "handle_deliver_job cfg clock clock' outcome p i st =
     (case begin_delivery cfg clock p i st of
        (st1, Inl err) \<Rightarrow> (st1, Inl err)
      | (st1, Inr (Begun_Result r)) \<Rightarrow> (st1, Inr r)
      | (st1, Inr (Begun_Flight fl)) \<Rightarrow> finish_delivery cfg clock' fl outcome st1)"

end
