(* ===== verification/Rate_Limit.thy ===== *)
theory Rate_Limit
  imports Doubles
begin

text \<open>
  The in-memory rate limiter (\<open>InMemoryRateLimiter\<close> of \<open>apps/executor/src/rate-limit.ts\<close>): token
  buckets and fixed windows per key. The numbers of the token bucket are IEEE doubles, which are modelled
  as the rationals they stand for: every arithmetic operation of the source is the exact operation followed
  by the rounding to the nearest double (ties to even). The clock is the argument \<open>now\<close>, in milliseconds.
\<close>

subsection \<open>Policies and states\<close>

record token_policy =
  tp_limit :: int
  tp_interval_ms :: int
  tp_burst :: int

record window_policy =
  wp_limit :: int
  wp_window_ms :: int

datatype rate_policy = Token_Bucket token_policy | Fixed_Window window_policy

record rate_result =
  rr_allowed :: bool
  rr_remaining :: int
  rr_reset_at :: int
  rr_retry_after_ms :: "int option"

text \<open>
  The states carry the policy's signature, a rendering of its numbers separated by colons; it is
  represented by the policy itself.
\<close>

record token_state =
  tk_signature :: token_policy
  tk_tokens :: rat
  tk_updated_at :: int

record window_state =
  ws_signature :: window_policy
  ws_used :: int
  ws_start :: int

datatype rate_state = Token_State token_state | Window_State window_state

type_synonym rate_states = "(string \<times> rate_state) list"

definition positive_safe_integer :: "int \<Rightarrow> string \<Rightarrow> unit result" where
  "positive_safe_integer value what =
     (if \<not> is_safe_integer value \<or> value < 1 then Inl (Range_Error (what @ '' must be a positive safe integer.''))
      else Inr ())"

definition validate_policy :: "rate_policy \<Rightarrow> unit result" where
  "validate_policy policy = (case policy of
     Token_Bucket t \<Rightarrow>
       bind_result (positive_safe_integer (tp_limit t) ''Rate-limit policy limit'') (\<lambda>_.
       bind_result (positive_safe_integer (tp_interval_ms t) ''Rate-limit refill interval'') (\<lambda>_.
       bind_result (positive_safe_integer (tp_burst t) ''Rate-limit burst'') (\<lambda>_.
       if tp_burst t < 1 then Inl (Range_Error ''Rate-limit burst must hold at least one token.'') else Inr ())))
   | Fixed_Window w \<Rightarrow>
       bind_result (positive_safe_integer (wp_limit w) ''Rate-limit policy limit'') (\<lambda>_.
       positive_safe_integer (wp_window_ms w) ''Rate-limit window''))"

subsection \<open>Token buckets\<close>

definition token_refill :: "token_policy \<Rightarrow> rat" where
  "token_refill policy = double (of_int (tp_limit policy) / of_int (tp_interval_ms policy))"

definition current_bucket :: "token_policy \<Rightarrow> int \<Rightarrow> rate_state option \<Rightarrow> token_state" where
  "current_bucket policy now existing =
     (let fresh = \<lparr>tk_signature = policy, tk_tokens = of_int (tp_burst policy), tk_updated_at = now\<rparr> in
      case existing of
        Some (Token_State s) \<Rightarrow> if tk_signature s = policy then s else fresh
      | _ \<Rightarrow> fresh)"

definition refill_bucket :: "token_policy \<Rightarrow> int \<Rightarrow> token_state \<Rightarrow> token_state" where
  "refill_bucket policy now s =
     (let elapsed = max 0 (now - tk_updated_at s) in
      s\<lparr>tk_tokens := min (of_int (tp_burst policy))
                     (double (tk_tokens s + double (of_int elapsed * token_refill policy))),
        tk_updated_at := max (tk_updated_at s) now\<rparr>)"

definition has_token :: "token_state \<Rightarrow> bool" where
  "has_token s \<longleftrightarrow> 1 \<le> double (tk_tokens s + number_epsilon)"

definition take_token :: "token_state \<Rightarrow> token_state" where
  "take_token s = (if has_token s then s\<lparr>tk_tokens := max 0 (double (tk_tokens s - 1))\<rparr> else s)"

definition check_token_bucket ::
    "string \<Rightarrow> token_policy \<Rightarrow> int \<Rightarrow> rate_states \<Rightarrow> rate_states \<times> rate_result" where
  "check_token_bucket key policy now st =
     (let refilled = refill_bucket policy now (current_bucket policy now (map_of st key));
          allowed = has_token refilled;
          s = take_token refilled;
          reset_after = \<lceil>double (max 0 (double (of_int (tp_burst policy) - tk_tokens s)) / token_refill policy)\<rceil> in
      (js_set key (Token_State s) st,
       \<lparr>rr_allowed = allowed,
        rr_remaining = max 0 \<lfloor>double (tk_tokens s + number_epsilon)\<rfloor>,
        rr_reset_at = now + reset_after,
        rr_retry_after_ms = (if allowed then None
          else Some (max 1 \<lceil>double (max 0 (double (1 - tk_tokens s)) / token_refill policy)\<rceil>))\<rparr>))"

subsection \<open>Fixed windows\<close>

definition current_window :: "window_policy \<Rightarrow> int \<Rightarrow> rate_state option \<Rightarrow> window_state" where
  "current_window policy now existing =
     (let start = now div wp_window_ms policy * wp_window_ms policy;
          fresh = \<lparr>ws_signature = policy, ws_used = 0, ws_start = start\<rparr> in
      case existing of
        Some (Window_State s) \<Rightarrow> if ws_signature s = policy \<and> start \<le> ws_start s then s else fresh
      | _ \<Rightarrow> fresh)"

definition check_fixed_window ::
    "string \<Rightarrow> window_policy \<Rightarrow> int \<Rightarrow> rate_states \<Rightarrow> rate_states \<times> rate_result" where
  "check_fixed_window key policy now st =
     (let s = current_window policy now (map_of st key);
          allowed = ws_used s < wp_limit policy;
          s' = (if allowed then s\<lparr>ws_used := ws_used s + 1\<rparr> else s);
          reset_at = ws_start s' + wp_window_ms policy in
      (js_set key (Window_State s') st,
       \<lparr>rr_allowed = allowed, rr_remaining = max 0 (wp_limit policy - ws_used s'), rr_reset_at = reset_at,
        rr_retry_after_ms = (if allowed then None else Some (max 1 (reset_at - now)))\<rparr>))"

subsection \<open>The limiter\<close>

text \<open>\<open>check\<close>; the clock returns \<open>None\<close> for an invalid date.\<close>

definition check_rate ::
    "string \<Rightarrow> rate_policy \<Rightarrow> int option \<Rightarrow> rate_states \<Rightarrow> (rate_states \<times> rate_result) result" where
  "check_rate key policy clock st =
     (if blank key then Inl (Type_Error ''Rate-limit bucket key must not be empty.'')
      else
        bind_result (validate_policy policy) (\<lambda>_.
        case clock of
          None \<Rightarrow> Inl (Plain_Error ''Rate limiter clock returned an invalid date.'')
        | Some now \<Rightarrow> Inr (case policy of
            Token_Bucket t \<Rightarrow> check_token_bucket key t now st
          | Fixed_Window w \<Rightarrow> check_fixed_window key w now st)))"

definition rate_limit_capacity :: "rate_policy \<Rightarrow> int" where
  "rate_limit_capacity policy = (case policy of Token_Bucket t \<Rightarrow> tp_burst t | Fixed_Window w \<Rightarrow> wp_limit w)"

end
