(* ===== verification/Concurrency_Limit.thy ===== *)
theory Concurrency_Limit
  imports Rate_Limit
begin

text \<open>
  The fair semaphore of the executor (\<open>InMemoryToolkitConcurrencyLimiter\<close> of
  \<open>apps/executor/src/rate-limit.ts\<close>). A permit refers to the state object of its bucket and not to its
  key, and an idle bucket is dropped from the map: the state objects, the permits and the promises live in
  heaps of their own, their references are positions in these heaps.
\<close>

subsection \<open>Data\<close>

record concurrency_state =
  cs_active :: int
  cs_limit :: int
  cs_waiters :: "nat list"

record concurrency_permit =
  pm_key :: string
  pm_state :: nat
  pm_released :: bool

record concurrency_limiter =
  cl_states :: "(string \<times> nat) list"
  cl_heap :: "concurrency_state list"
  cl_permits :: "concurrency_permit list"
  cl_promises :: "nat option list"

definition empty_limiter :: concurrency_limiter where
  "empty_limiter = \<lparr>cl_states = [], cl_heap = [], cl_permits = [], cl_promises = []\<rparr>"

subsection \<open>Operations\<close>

text \<open>\<open>#state\<close>: the state object of a bucket, created when the bucket is idle.\<close>

definition bucket_state :: "string \<Rightarrow> int \<Rightarrow> concurrency_limiter \<Rightarrow> (concurrency_limiter \<times> nat) result" where
  "bucket_state key limit st =
     (if blank key then Inl (Type_Error ''Concurrency bucket key must not be empty.'')
      else
        bind_result (positive_safe_integer limit ''Concurrency limit'') (\<lambda>_.
        case map_of (cl_states st) key of
          Some a \<Rightarrow>
            if cs_limit (cl_heap st ! a) \<noteq> limit
            then Inl (Plain_Error (''Concurrency limit changed while bucket '' @ key @ '' was active.''))
            else Inr (st, a)
        | None \<Rightarrow>
            Inr (st\<lparr>cl_heap := cl_heap st @ [\<lparr>cs_active = 0, cs_limit = limit, cs_waiters = []\<rparr>],
                    cl_states := js_set key (length (cl_heap st)) (cl_states st)\<rparr>, length (cl_heap st))))"

definition put_state :: "nat \<Rightarrow> concurrency_state \<Rightarrow> concurrency_limiter \<Rightarrow> concurrency_limiter" where
  "put_state a s st = st\<lparr>cl_heap := (cl_heap st)[a := s]\<rparr>"

text \<open>\<open>#permit\<close>: a new permit, the reference to which is returned.\<close>

definition new_permit :: "string \<Rightarrow> nat \<Rightarrow> concurrency_limiter \<Rightarrow> concurrency_limiter \<times> nat" where
  "new_permit key a st =
     (st\<lparr>cl_permits := cl_permits st @ [\<lparr>pm_key = key, pm_state = a, pm_released = False\<rparr>]\<rparr>,
      length (cl_permits st))"

definition try_acquire :: "string \<Rightarrow> int \<Rightarrow> concurrency_limiter \<Rightarrow> (concurrency_limiter \<times> nat option) result" where
  "try_acquire key limit st =
     bind_result (bucket_state key limit st) (\<lambda>(opened, a).
       let s = cl_heap opened ! a in
       if cs_active s \<ge> limit \<or> cs_waiters s \<noteq> [] then Inr (opened, None)
       else
         let (granted, p) = new_permit key a (put_state a (s\<lparr>cs_active := cs_active s + 1\<rparr>) opened) in
         Inr (granted, Some p))"

text \<open>\<open>acquire\<close> returns a promise of a permit, resolved at once when one is free.\<close>

definition acquire :: "string \<Rightarrow> int \<Rightarrow> concurrency_limiter \<Rightarrow> (concurrency_limiter \<times> nat) result" where
  "acquire key limit st =
     bind_result (try_acquire key limit st) (\<lambda>(tried, immediate).
       case immediate of
         Some p \<Rightarrow> Inr (tried\<lparr>cl_promises := cl_promises tried @ [Some p]\<rparr>, length (cl_promises tried))
       | None \<Rightarrow>
           bind_result (bucket_state key limit tried) (\<lambda>(opened, a).
             let s = cl_heap opened ! a; w = length (cl_promises opened) in
             Inr (put_state a (s\<lparr>cs_waiters := cs_waiters s @ [w]\<rparr>) (opened\<lparr>cl_promises := cl_promises opened @ [None]\<rparr>),
                  w)))"

text \<open>\<open>release\<close> of the permit \<open>i\<close>, a reference that the caller holds.\<close>

definition release :: "nat \<Rightarrow> concurrency_limiter \<Rightarrow> concurrency_limiter" where
  "release i st =
     (if length (cl_permits st) \<le> i \<or> pm_released (cl_permits st ! i) then st
      else
        let permit = cl_permits st ! i; a = pm_state permit; key = pm_key permit; s = cl_heap st ! a;
            marked = st\<lparr>cl_permits := (cl_permits st)[i := permit\<lparr>pm_released := True\<rparr>]\<rparr> in
        case cs_waiters s of
          next_waiter # rest \<Rightarrow>
            let (granted, p) = new_permit key a
                  (put_state a (s\<lparr>cs_active := cs_active s - 1 + 1, cs_waiters := rest\<rparr>) marked) in
            granted\<lparr>cl_promises := (cl_promises granted)[next_waiter := Some p]\<rparr>
        | [] \<Rightarrow>
            let idle = put_state a (s\<lparr>cs_active := cs_active s - 1\<rparr>) marked in
            if cs_active s - 1 = 0 then idle\<lparr>cl_states := js_delete key (cl_states idle)\<rparr> else idle)"

subsection \<open>Histories\<close>

datatype limiter_op =
    Lop_Try string int
  | Lop_Acquire string int
  | Lop_Release nat

fun run_limiter_op :: "limiter_op \<Rightarrow> concurrency_limiter \<Rightarrow> concurrency_limiter" where
  "run_limiter_op (Lop_Try k n) st = (case try_acquire k n st of Inl e \<Rightarrow> st | Inr x \<Rightarrow> fst x)"
| "run_limiter_op (Lop_Acquire k n) st = (case acquire k n st of Inl e \<Rightarrow> st | Inr x \<Rightarrow> fst x)"
| "run_limiter_op (Lop_Release i) st = release i st"

fun run_limiter_ops :: "limiter_op list \<Rightarrow> concurrency_limiter \<Rightarrow> concurrency_limiter" where
  "run_limiter_ops [] st = st"
| "run_limiter_ops (op # ops) st = run_limiter_ops ops (run_limiter_op op st)"

subsection \<open>The view of a bucket\<close>

definition held :: "string \<Rightarrow> concurrency_limiter \<Rightarrow> nat" where
  "held k st = length (filter (\<lambda>p. pm_key p = k \<and> \<not> pm_released p) (cl_permits st))"

definition bucket :: "string \<Rightarrow> concurrency_limiter \<Rightarrow> concurrency_state option" where
  "bucket k st = map_option (\<lambda>a. cl_heap st ! a) (map_of (cl_states st) k)"

definition capacity :: "string \<Rightarrow> concurrency_limiter \<Rightarrow> int" where
  "capacity k st = (case bucket k st of None \<Rightarrow> 0 | Some s \<Rightarrow> cs_limit s)"

definition waiting :: "string \<Rightarrow> concurrency_limiter \<Rightarrow> nat list" where
  "waiting k st = (case bucket k st of None \<Rightarrow> [] | Some s \<Rightarrow> cs_waiters s)"

subsection \<open>The invariant\<close>

text \<open>
  A bucket in the map is in use, by as many permits as it counts, and callers wait only when it is full.
  A permit in use refers to its bucket, buckets do not share their state, and the callers that wait are
  exactly the promises that are not resolved, each in one queue.
\<close>

definition bucket_ok :: "concurrency_limiter \<Rightarrow> string \<Rightarrow> nat \<Rightarrow> bool" where
  "bucket_ok st k a \<longleftrightarrow> a < length (cl_heap st) \<and>
     (let s = cl_heap st ! a in
        cs_active s = int (held k st) \<and> 1 \<le> cs_active s \<and> cs_active s \<le> cs_limit s \<and>
        (cs_waiters s \<noteq> [] \<longrightarrow> cs_active s = cs_limit s) \<and> distinct (cs_waiters s) \<and>
        (\<forall>w \<in> set (cs_waiters s). w < length (cl_promises st) \<and> cl_promises st ! w = None))"

definition permits_ok :: "concurrency_limiter \<Rightarrow> bool" where
  "permits_ok st \<longleftrightarrow> (\<forall>p \<in> set (cl_permits st). \<not> pm_released p \<longrightarrow> map_of (cl_states st) (pm_key p) = Some (pm_state p))"

definition unshared :: "concurrency_limiter \<Rightarrow> bool" where
  "unshared st \<longleftrightarrow> (\<forall>k k' a. map_of (cl_states st) k = Some a \<longrightarrow> map_of (cl_states st) k' = Some a \<longrightarrow> k = k') \<and>
     (\<forall>k k' w. w \<in> set (waiting k st) \<longrightarrow> w \<in> set (waiting k' st) \<longrightarrow> k = k')"

definition promises_ok :: "concurrency_limiter \<Rightarrow> bool" where
  "promises_ok st \<longleftrightarrow> (\<forall>w < length (cl_promises st). cl_promises st ! w = None \<longrightarrow> (\<exists>k. w \<in> set (waiting k st)))"

definition limiter_wf :: "concurrency_limiter \<Rightarrow> bool" where
  "limiter_wf st \<longleftrightarrow> all_entries (bucket_ok st) (cl_states st) \<and> permits_ok st \<and> unshared st \<and> promises_ok st"

end
