(* ===== verification/Concurrency_Laws.thy ===== *)
theory Concurrency_Laws
  imports Concurrency_Limit History
begin

text \<open>
  What the semaphore promises: permits in use never exceed the limit, nobody waits while there is room,
  and a released permit goes to the caller that has waited longest.
\<close>

subsection \<open>What the operations do\<close>

lemma positive_Inr: "positive_safe_integer n f = Inr () \<longleftrightarrow> is_safe_integer n \<and> 1 \<le> n"
  by (auto simp: positive_safe_integer_def)

lemma wf_bucket: "limiter_wf st \<Longrightarrow> map_of (cl_states st) k = Some a \<Longrightarrow> bucket_ok st k a"
  by (auto simp: limiter_wf_def dest: all_entriesD)

lemma try_acquire_Inr:
  assumes "limiter_wf st" "try_acquire k n st = Inr (st', r)"
  obtains
    (opened) "map_of (cl_states st) k = None" "1 \<le> n" "r = Some (length (cl_permits st))"
      "st' = st\<lparr>cl_states := js_set k (length (cl_heap st)) (cl_states st),
               cl_heap := cl_heap st @ [\<lparr>cs_active = 1, cs_limit = n, cs_waiters = []\<rparr>],
               cl_permits := cl_permits st @ [\<lparr>pm_key = k, pm_state = length (cl_heap st), pm_released = False\<rparr>]\<rparr>"
  | (granted) a where "map_of (cl_states st) k = Some a" "cs_limit (cl_heap st ! a) = n"
      "cs_active (cl_heap st ! a) < n" "cs_waiters (cl_heap st ! a) = []" "r = Some (length (cl_permits st))"
      "st' = st\<lparr>cl_heap := (cl_heap st)[a := (cl_heap st ! a)\<lparr>cs_active := cs_active (cl_heap st ! a) + 1\<rparr>],
               cl_permits := cl_permits st @ [\<lparr>pm_key = k, pm_state = a, pm_released = False\<rparr>]\<rparr>"
  | (full) a where "map_of (cl_states st) k = Some a" "cs_limit (cl_heap st ! a) = n"
      "cs_active (cl_heap st ! a) = n" "r = None" "st' = st"
proof (cases "map_of (cl_states st) k")
  case None
  then have "1 \<le> n" "r = Some (length (cl_permits st))"
    "st' = st\<lparr>cl_states := js_set k (length (cl_heap st)) (cl_states st),
             cl_heap := cl_heap st @ [\<lparr>cs_active = 1, cs_limit = n, cs_waiters = []\<rparr>],
             cl_permits := cl_permits st @ [\<lparr>pm_key = k, pm_state = length (cl_heap st), pm_released = False\<rparr>]\<rparr>"
    using assms(2)
    by (auto simp: try_acquire_def bucket_state_def bind_result_Inr_iff Let_def positive_Inr put_state_def
        new_permit_def split: if_splits)
  then show thesis using opened None by blast
next
  case (Some a)
  then have n: "cs_limit (cl_heap st ! a) = n" and run:
    "(if cs_active (cl_heap st ! a) \<ge> n \<or> cs_waiters (cl_heap st ! a) \<noteq> [] then Inr (st, None)
      else let (granted, p) = new_permit k a (put_state a ((cl_heap st ! a)\<lparr>cs_active := cs_active (cl_heap st ! a) + 1\<rparr>) st)
           in Inr (granted, Some p)) = (Inr (st', r) :: (concurrency_limiter \<times> nat option) result)"
    using assms(2) by (auto simp: try_acquire_def bucket_state_def bind_result_Inr_iff Let_def split: if_splits)
  have ok: "cs_active (cl_heap st ! a) \<le> n" "cs_waiters (cl_heap st ! a) \<noteq> [] \<longrightarrow> cs_active (cl_heap st ! a) = n"
    using wf_bucket[OF assms(1) Some] n by (auto simp: bucket_ok_def Let_def)
  show thesis
  proof (cases "cs_active (cl_heap st ! a) < n")
    case True
    then have none: "cs_waiters (cl_heap st ! a) = []" using ok(2) by auto
    have "r = Some (length (cl_permits st))"
      "st' = st\<lparr>cl_heap := (cl_heap st)[a := (cl_heap st ! a)\<lparr>cs_active := cs_active (cl_heap st ! a) + 1\<rparr>],
               cl_permits := cl_permits st @ [\<lparr>pm_key = k, pm_state = a, pm_released = False\<rparr>]\<rparr>"
      using run True none by (simp_all add: new_permit_def put_state_def)
    then show thesis by (rule granted[OF Some n True none])
  next
    case False
    then have "cs_active (cl_heap st ! a) = n" using ok(1) by simp
    moreover have "r = None" "st' = st" using run False by simp_all
    ultimately show thesis by (rule full[OF Some n])
  qed
qed

lemma acquire_Inr:
  assumes "limiter_wf st" "acquire k n st = Inr (st', w)"
  obtains
    (now) tried p where "try_acquire k n st = Inr (tried, Some p)" "w = length (cl_promises tried)"
      "st' = tried\<lparr>cl_promises := cl_promises tried @ [Some p]\<rparr>"
  | (queued) a where "try_acquire k n st = Inr (st, None)" "map_of (cl_states st) k = Some a" "w = length (cl_promises st)"
      "st' = st\<lparr>cl_heap := (cl_heap st)[a := (cl_heap st ! a)\<lparr>cs_waiters := cs_waiters (cl_heap st ! a) @ [w]\<rparr>],
               cl_promises := cl_promises st @ [None]\<rparr>"
proof -
  obtain tried r where tried: "try_acquire k n st = Inr (tried, r)"
    using assms(2) by (auto simp: acquire_def bind_result_Inr_iff)
  show thesis
  proof (cases r)
    case (Some p)
    then show thesis using assms(2) tried now by (auto simp: acquire_def)
  next
    case None
    obtain a where full: "map_of (cl_states st) k = Some a" "cs_limit (cl_heap st ! a) = n" "tried = st"
      using assms(1) tried by (cases rule: try_acquire_Inr) (use None in auto)
    have "bucket_state k n st = Inr (st, a)"
      using tried full by (auto simp: try_acquire_def bucket_state_def bind_result_Inr_iff split: if_splits)
    then show thesis
      using assms(2) tried None full queued[of a] by (auto simp: acquire_def put_state_def Let_def)
  qed
qed

lemma release_cases:
  assumes "limiter_wf st" "i < length (cl_permits st)" "\<not> pm_released (cl_permits st ! i)"
  defines "k \<equiv> pm_key (cl_permits st ! i)" and "a \<equiv> pm_state (cl_permits st ! i)"
  obtains
    (handed) w ws where "map_of (cl_states st) k = Some a" "cs_waiters (cl_heap st ! a) = w # ws"
      "release i st = st\<lparr>cl_heap := (cl_heap st)[a := (cl_heap st ! a)\<lparr>cs_waiters := ws\<rparr>],
         cl_permits := (cl_permits st)[i := (cl_permits st ! i)\<lparr>pm_released := True\<rparr>] @
           [\<lparr>pm_key = k, pm_state = a, pm_released = False\<rparr>],
         cl_promises := (cl_promises st)[w := Some (length (cl_permits st))]\<rparr>"
  | (freed) "map_of (cl_states st) k = Some a" "cs_waiters (cl_heap st ! a) = []"
      "release i st = st\<lparr>cl_heap := (cl_heap st)[a := (cl_heap st ! a)\<lparr>cs_active := cs_active (cl_heap st ! a) - 1\<rparr>],
         cl_permits := (cl_permits st)[i := (cl_permits st ! i)\<lparr>pm_released := True\<rparr>],
         cl_states := (if cs_active (cl_heap st ! a) = 1 then js_delete k (cl_states st) else cl_states st)\<rparr>"
proof -
  have "cl_permits st ! i \<in> set (cl_permits st)" using assms(2) by simp
  then have at: "map_of (cl_states st) k = Some a"
    using assms(1,3) by (auto simp: limiter_wf_def permits_ok_def k_def a_def)
  show thesis
  proof (cases "cs_waiters (cl_heap st ! a)")
    case Nil
    have "release i st = st\<lparr>cl_heap := (cl_heap st)[a := (cl_heap st ! a)\<lparr>cs_active := cs_active (cl_heap st ! a) - 1\<rparr>],
         cl_permits := (cl_permits st)[i := (cl_permits st ! i)\<lparr>pm_released := True\<rparr>],
         cl_states := (if cs_active (cl_heap st ! a) = 1 then js_delete k (cl_states st) else cl_states st)\<rparr>"
      using assms(2,3) Nil unfolding a_def k_def
      by (simp add: release_def Let_def put_state_def)
    then show thesis using freed at Nil by blast
  next
    case (Cons w ws)
    have "release i st = st\<lparr>cl_heap := (cl_heap st)[a := (cl_heap st ! a)\<lparr>cs_waiters := ws\<rparr>],
         cl_permits := (cl_permits st)[i := (cl_permits st ! i)\<lparr>pm_released := True\<rparr>] @
           [\<lparr>pm_key = k, pm_state = a, pm_released = False\<rparr>],
         cl_promises := (cl_promises st)[w := Some (length (cl_permits st))]\<rparr>"
      using assms(2,3) Cons unfolding a_def k_def
      by (simp add: release_def Let_def put_state_def new_permit_def)
    then show thesis using handed at Cons by blast
  qed
qed

subsection \<open>The invariant\<close>

lemma count_update:
  "i < length xs \<Longrightarrow> length (filter P (xs[i := y])) + (if P (xs ! i) then 1 else 0) =
     length (filter P xs) + (if P y then 1 else 0)"
proof (induction xs arbitrary: i)
  case (Cons x xs)
  show ?case
  proof (cases i)
    case (Suc j)
    have "j < length xs" using Cons.prems Suc by simp
    then show ?thesis using Cons.IH[of j] by (simp add: Suc)
  qed simp
qed simp

lemma waiting_eq: "waiting k st = (case map_of (cl_states st) k of None \<Rightarrow> [] | Some a \<Rightarrow> cs_waiters (cl_heap st ! a))"
  by (simp add: waiting_def bucket_def split: option.splits)

lemma wf_unshared: "limiter_wf st \<Longrightarrow> map_of (cl_states st) k = Some a \<Longrightarrow> map_of (cl_states st) k' = Some a \<Longrightarrow> k = k'"
  by (auto simp: limiter_wf_def unshared_def)

lemma wf_one_queue: "limiter_wf st \<Longrightarrow> w \<in> set (waiting k st) \<Longrightarrow> w \<in> set (waiting k' st) \<Longrightarrow> k = k'"
  by (auto simp: limiter_wf_def unshared_def)

lemma wf_waiting:
  assumes "limiter_wf st" "w \<in> set (waiting k st)"
  shows "w < length (cl_promises st) \<and> cl_promises st ! w = None"
proof (cases "map_of (cl_states st) k")
  case (Some a)
  then show ?thesis using assms wf_bucket[OF assms(1) Some] by (simp add: waiting_eq bucket_ok_def Let_def)
qed (use assms in \<open>simp add: waiting_eq\<close>)

text \<open>A permit that names a key keeps its bucket alive.\<close>

lemma idle_bucket:
  assumes "limiter_wf st" "map_of (cl_states st) k = None"
  shows "held k st = 0"
proof -
  have "filter (\<lambda>p. pm_key p = k \<and> \<not> pm_released p) (cl_permits st) = []"
    using assms by (auto simp: limiter_wf_def permits_ok_def filter_empty_conv)
  then show ?thesis by (simp add: held_def)
qed

text \<open>
  Buckets that an operation does not touch: the number of their permits and their state stay, and so do
  the promises in their queues.
\<close>

lemma bucket_ok_frame:
  assumes "bucket_ok st k a" "held k st' = held k st" "cl_heap st' ! a = cl_heap st ! a"
    "length (cl_heap st) \<le> length (cl_heap st')" "length (cl_promises st) \<le> length (cl_promises st')"
    "\<And>w. w \<in> set (cs_waiters (cl_heap st ! a)) \<Longrightarrow> cl_promises st' ! w = cl_promises st ! w"
  shows "bucket_ok st' k a"
  using assms unfolding bucket_ok_def Let_def by fastforce

lemma wf_I:
  assumes "\<And>k a. map_of (cl_states st) k = Some a \<Longrightarrow> bucket_ok st k a"
    and "\<And>p. p \<in> set (cl_permits st) \<Longrightarrow> \<not> pm_released p \<Longrightarrow> map_of (cl_states st) (pm_key p) = Some (pm_state p)"
    and "\<And>k k' a. map_of (cl_states st) k = Some a \<Longrightarrow> map_of (cl_states st) k' = Some a \<Longrightarrow> k = k'"
    and "\<And>k k' w. w \<in> set (waiting k st) \<Longrightarrow> w \<in> set (waiting k' st) \<Longrightarrow> k = k'"
    and "\<And>w. w < length (cl_promises st) \<Longrightarrow> cl_promises st ! w = None \<Longrightarrow> \<exists>k. w \<in> set (waiting k st)"
  shows "limiter_wf st"
  using assms unfolding limiter_wf_def permits_ok_def unshared_def promises_ok_def all_entries_def by blast

lemma wf_pending: "limiter_wf st \<Longrightarrow> w < length (cl_promises st) \<Longrightarrow> cl_promises st ! w = None \<Longrightarrow> \<exists>k. w \<in> set (waiting k st)"
  by (auto simp: limiter_wf_def promises_ok_def)

lemma wf_permit: "limiter_wf st \<Longrightarrow> p \<in> set (cl_permits st) \<Longrightarrow> \<not> pm_released p \<Longrightarrow>
    map_of (cl_states st) (pm_key p) = Some (pm_state p)"
  by (auto simp: limiter_wf_def permits_ok_def)

lemma wf_address: "limiter_wf st \<Longrightarrow> map_of (cl_states st) k = Some a \<Longrightarrow> a < length (cl_heap st)"
  using wf_bucket by (fastforce simp: bucket_ok_def)

lemma open_bucket_wf:
  assumes wf: "limiter_wf st" and idle: "map_of (cl_states st) k = None" and n: "1 \<le> n"
    and st': "cl_states st' = js_set k (length (cl_heap st)) (cl_states st)"
      "cl_heap st' = cl_heap st @ [\<lparr>cs_active = 1, cs_limit = n, cs_waiters = []\<rparr>]"
      "cl_permits st' = cl_permits st @ [\<lparr>pm_key = k, pm_state = length (cl_heap st), pm_released = False\<rparr>]"
      "cl_promises st' = cl_promises st"
  shows "limiter_wf st'"
proof -
  let ?a = "length (cl_heap st)"
  have states: "map_of (cl_states st') k' = (if k' = k then Some ?a else map_of (cl_states st) k')" for k'
    by (simp add: st'(1))
  have heap: "cl_heap st' ! a = cl_heap st ! a" if "map_of (cl_states st) k' = Some a" for k' a
    using wf_address[OF wf that] by (simp add: st'(2) nth_append)
  have wait: "waiting k' st' = waiting k' st" for k'
  proof (cases "map_of (cl_states st) k'")
    case None
    then show ?thesis by (simp add: waiting_eq states st'(2))
  next
    case (Some a)
    then have "k' \<noteq> k" using idle by auto
    then show ?thesis using Some heap[OF Some] by (simp add: waiting_eq states)
  qed
  have count: "held k' st' = (if k' = k then 1 else held k' st)" for k'
    using idle_bucket[OF wf idle] by (simp add: held_def st'(3))
  show ?thesis
  proof (rule wf_I)
    fix k' a assume at: "map_of (cl_states st') k' = Some a"
    show "bucket_ok st' k' a"
    proof (cases "k' = k")
      case True
      have "a = ?a" using at states True by simp
      moreover have "cl_heap st' ! ?a = \<lparr>cs_active = 1, cs_limit = n, cs_waiters = []\<rparr>"
        "length (cl_heap st') = Suc ?a"
        by (simp_all add: st'(2))
      ultimately show ?thesis
        using True n count by (simp add: bucket_ok_def)
    next
      case False
      then have old: "map_of (cl_states st) k' = Some a" using at states by simp
      show ?thesis
        by (rule bucket_ok_frame[OF wf_bucket[OF wf old]])
          (use heap[OF old] in \<open>simp_all add: False count st'(4)\<close>, simp add: st'(2))
    qed
  next
    fix p assume p: "p \<in> set (cl_permits st')" "\<not> pm_released p"
    show "map_of (cl_states st') (pm_key p) = Some (pm_state p)"
    proof (cases "p \<in> set (cl_permits st)")
      case True
      note old = wf_permit[OF wf True p(2)]
      then have "pm_key p \<noteq> k" using idle by auto
      then show ?thesis using old states by simp
    next
      case False
      then show ?thesis using p(1) by (simp add: st'(3) states)
    qed
  next
    fix k1 k2 a assume at: "map_of (cl_states st') k1 = Some a" "map_of (cl_states st') k2 = Some a"
    show "k1 = k2"
      using at wf_unshared[OF wf, of k1 a k2] wf_address[OF wf, of k1 a] wf_address[OF wf, of k2 a]
      by (simp add: states split: if_splits)
  next
    fix k1 k2 w assume "w \<in> set (waiting k1 st')" "w \<in> set (waiting k2 st')"
    then show "k1 = k2" using wf_one_queue[OF wf] wait by simp
  next
    fix w assume "w < length (cl_promises st')" "cl_promises st' ! w = None"
    then show "\<exists>k. w \<in> set (waiting k st')" using wf_pending[OF wf] wait by (simp add: st'(4))
  qed
qed

text \<open>The other operations change one bucket that is open.\<close>

lemma change_bucket_wf:
  assumes wf: "limiter_wf st" and at: "map_of (cl_states st) k = Some a"
    and states: "cl_states st' = cl_states st"
    and heap: "cl_heap st' = (cl_heap st)[a := s]"
    and held: "\<And>k'. k' \<noteq> k \<Longrightarrow> held k' st' = held k' st"
    and bucket: "bucket_ok st' k a"
    and permits: "\<And>p. p \<in> set (cl_permits st') \<Longrightarrow> \<not> pm_released p \<Longrightarrow>
      p \<in> set (cl_permits st) \<or> p = \<lparr>pm_key = k, pm_state = a, pm_released = False\<rparr>"
    and promises: "length (cl_promises st) \<le> length (cl_promises st')"
      "\<And>w. w < length (cl_promises st) \<Longrightarrow> w \<notin> set (waiting k st) \<Longrightarrow> cl_promises st' ! w = cl_promises st ! w"
    and queued: "\<And>w. w \<in> set (cs_waiters s) \<Longrightarrow> w \<in> set (waiting k st) \<or> length (cl_promises st) \<le> w"
    and pending: "\<And>w. w < length (cl_promises st') \<Longrightarrow> cl_promises st' ! w = None \<Longrightarrow>
      w \<in> set (cs_waiters s) \<or> w < length (cl_promises st) \<and> cl_promises st ! w = None \<and> w \<notin> set (waiting k st)"
  shows "limiter_wf st'"
proof -
  have a: "a < length (cl_heap st)" by (rule wf_address[OF wf at])
  have own: "waiting k st' = cs_waiters s" using at a by (simp add: waiting_eq states heap)
  have other: "cl_heap st' ! a' = cl_heap st ! a'" if "map_of (cl_states st) k' = Some a'" "k' \<noteq> k" for k' a'
  proof -
    have "a' \<noteq> a" using wf_unshared[OF wf that(1), of k] at that(2) by auto
    then show ?thesis by (simp add: heap)
  qed
  have wait: "waiting k' st' = waiting k' st" if "k' \<noteq> k" for k'
  proof (cases "map_of (cl_states st) k'")
    case None
    then show ?thesis by (simp add: waiting_eq states)
  next
    case (Some a')
    then show ?thesis using other[OF Some that] by (simp add: waiting_eq states)
  qed
  show ?thesis
  proof (rule wf_I)
    fix k' a' assume at': "map_of (cl_states st') k' = Some a'"
    show "bucket_ok st' k' a'"
    proof (cases "k' = k")
      case True
      then show ?thesis using at' at bucket by (simp add: states)
    next
      case False
      then have old: "map_of (cl_states st) k' = Some a'" using at' states by simp
      have queue: "cs_waiters (cl_heap st ! a') = waiting k' st" using old by (simp add: waiting_eq)
      show ?thesis
      proof (rule bucket_ok_frame[OF wf_bucket[OF wf old]])
        fix w assume "w \<in> set (cs_waiters (cl_heap st ! a'))"
        then have w: "w \<in> set (waiting k' st)" by (simp add: queue)
        then have "w \<notin> set (waiting k st)" using wf_one_queue[OF wf w, of k] False by auto
        then show "cl_promises st' ! w = cl_promises st ! w" using promises(2) wf_waiting[OF wf w] by simp
      next
        show "held k' st' = held k' st" by (rule held[OF False])
        show "cl_heap st' ! a' = cl_heap st ! a'" by (rule other[OF old False])
        show "length (cl_heap st) \<le> length (cl_heap st')" by (simp add: heap)
        show "length (cl_promises st) \<le> length (cl_promises st')" by (rule promises(1))
      qed
    qed
  next
    fix p assume "p \<in> set (cl_permits st')" "\<not> pm_released p"
    then consider "p \<in> set (cl_permits st)" | "p = \<lparr>pm_key = k, pm_state = a, pm_released = False\<rparr>"
      using permits by blast
    then show "map_of (cl_states st') (pm_key p) = Some (pm_state p)"
    proof cases
      case 1
      then show ?thesis using wf_permit[OF wf 1 \<open>\<not> pm_released p\<close>] by (simp add: states)
    next
      case 2
      then show ?thesis using at by (simp add: states)
    qed
  next
    fix k1 k2 a' assume "map_of (cl_states st') k1 = Some a'" "map_of (cl_states st') k2 = Some a'"
    then show "k1 = k2" unfolding states by (rule wf_unshared[OF wf])
  next
    fix k1 k2 w assume w: "w \<in> set (waiting k1 st')" "w \<in> set (waiting k2 st')"
    have once: "w \<notin> set (waiting k' st)" if "w \<in> set (cs_waiters s)" "k' \<noteq> k" for k'
    proof
      assume k': "w \<in> set (waiting k' st)"
      have "\<not> length (cl_promises st) \<le> w" using wf_waiting[OF wf k'] by simp
      then have "w \<in> set (waiting k st)" using queued[OF that(1)] by simp
      then show False using wf_one_queue[OF wf k', of k] that(2) by simp
    qed
    show "k1 = k2"
    proof (cases "k1 = k")
      case True
      then have "w \<in> set (cs_waiters s)" using w(1) own by simp
      then show ?thesis using once[of k2] w(2) wait[of k2] True by (cases "k2 = k") simp_all
    next
      case False
      then have one: "w \<in> set (waiting k1 st)" using w(1) wait[of k1] by simp
      then have "k2 \<noteq> k" using once[of k1] w(2) own False by auto
      then show ?thesis using wf_one_queue[OF wf one, of k2] w(2) wait[of k2] by simp
    qed
  next
    fix w assume "w < length (cl_promises st')" "cl_promises st' ! w = None"
    from pending[OF this] show "\<exists>k. w \<in> set (waiting k st')"
    proof
      assume "w \<in> set (cs_waiters s)"
      then show ?thesis by (intro exI[of _ k]) (simp add: own)
    next
      assume old: "w < length (cl_promises st) \<and> cl_promises st ! w = None \<and> w \<notin> set (waiting k st)"
      then obtain k' where k': "w \<in> set (waiting k' st)" using wf_pending[OF wf] by blast
      then have "k' \<noteq> k" using old by auto
      then show ?thesis using k' wait[of k'] by (intro exI[of _ k']) simp
    qed
  qed
qed

lemma grant_wf:
  assumes wf: "limiter_wf st" and at: "map_of (cl_states st) k = Some a"
    and room: "cs_active (cl_heap st ! a) < cs_limit (cl_heap st ! a)" "cs_waiters (cl_heap st ! a) = []"
    and st': "cl_states st' = cl_states st"
      "cl_heap st' = (cl_heap st)[a := (cl_heap st ! a)\<lparr>cs_active := cs_active (cl_heap st ! a) + 1\<rparr>]"
      "cl_permits st' = cl_permits st @ [\<lparr>pm_key = k, pm_state = a, pm_released = False\<rparr>]"
      "cl_promises st' = cl_promises st"
  shows "limiter_wf st'"
proof (rule change_bucket_wf[OF wf at st'(1,2)])
  have queue: "waiting k st = []" using at room(2) by (simp add: waiting_eq)
  show "held k' st' = held k' st" if "k' \<noteq> k" for k' using that by (simp add: held_def st'(3))
  have "held k st' = held k st + 1" by (simp add: held_def st'(3))
  then show "bucket_ok st' k a"
    using wf_bucket[OF wf at] room by (simp add: bucket_ok_def Let_def st'(2,4))
qed (use st'(3) room(2) at in \<open>auto simp: st'(4) waiting_eq\<close>)

lemma try_acquire_wf:
  assumes "limiter_wf st" "try_acquire k n st = Inr (st', r)"
  shows "limiter_wf st'"
  using assms
proof (cases rule: try_acquire_Inr)
  case opened
  show ?thesis by (rule open_bucket_wf[OF assms(1) opened(1,2)]) (simp_all add: opened(4))
next
  case (granted a)
  have "cs_active (cl_heap st ! a) < cs_limit (cl_heap st ! a)" using granted(2,3) by simp
  then show ?thesis by (rule grant_wf[OF assms(1) granted(1) _ granted(4)]) (simp_all add: granted(6))
next
  case full
  then show ?thesis using assms(1) by simp
qed

lemma new_promise_wf:
  assumes wf: "limiter_wf st"
  shows "limiter_wf (st\<lparr>cl_promises := cl_promises st @ [Some p]\<rparr>)" (is "limiter_wf ?st")
proof -
  have wait: "waiting k ?st = waiting k st" for k by (simp add: waiting_eq split: option.splits)
  show ?thesis
  proof (rule wf_I)
    fix k a assume "map_of (cl_states ?st) k = Some a"
    then have at: "map_of (cl_states st) k = Some a" by simp
    have queue: "cs_waiters (cl_heap st ! a) = waiting k st" using at by (simp add: waiting_eq)
    show "bucket_ok ?st k a"
    proof (rule bucket_ok_frame[OF wf_bucket[OF wf at]])
      fix w assume "w \<in> set (cs_waiters (cl_heap st ! a))"
      then have "w < length (cl_promises st)" using wf_waiting[OF wf, of w k] by (simp add: queue)
      then show "cl_promises ?st ! w = cl_promises st ! w" by (simp add: nth_append)
    qed (simp_all add: held_def)
  next
    fix q assume "q \<in> set (cl_permits ?st)" "\<not> pm_released q"
    then show "map_of (cl_states ?st) (pm_key q) = Some (pm_state q)" using wf_permit[OF wf, of q] by simp
  next
    fix k1 k2 a assume "map_of (cl_states ?st) k1 = Some a" "map_of (cl_states ?st) k2 = Some a"
    then show "k1 = k2" using wf_unshared[OF wf, of k1 a k2] by simp
  next
    fix k1 k2 w assume "w \<in> set (waiting k1 ?st)" "w \<in> set (waiting k2 ?st)"
    then show "k1 = k2" using wf_one_queue[OF wf, of w k1 k2] wait by simp
  next
    fix w assume "w < length (cl_promises ?st)" "cl_promises ?st ! w = None"
    then have "w < length (cl_promises st)" "cl_promises st ! w = None"
      by (auto simp: nth_append less_Suc_eq split: if_splits)
    then show "\<exists>k. w \<in> set (waiting k ?st)" using wf_pending[OF wf, of w] wait by simp
  qed
qed

lemma acquire_wf:
  assumes "limiter_wf st" "acquire k n st = Inr (st', w)"
  shows "limiter_wf st'"
  using assms
proof (cases rule: acquire_Inr)
  case (now tried p)
  then show ?thesis using new_promise_wf[OF try_acquire_wf[OF assms(1) now(1)]] by simp
next
  case (queued a)
  have full: "cs_active (cl_heap st ! a) = cs_limit (cl_heap st ! a)"
    using assms(1) queued(1) by (cases rule: try_acquire_Inr) (use queued(2) in auto)
  note ok = wf_bucket[OF assms(1) queued(2)]
  show ?thesis
  proof (rule change_bucket_wf[OF assms(1) queued(2)])
    show "cl_heap st' = (cl_heap st)[a := (cl_heap st ! a)\<lparr>cs_waiters := cs_waiters (cl_heap st ! a) @ [w]\<rparr>]"
      by (simp add: queued(4))
    have "held k st' = held k st" by (simp add: held_def queued(4))
    then show "bucket_ok st' k a"
      using ok full unfolding bucket_ok_def Let_def queued(4) queued(3)
      by (auto simp: nth_append)
  next
    fix v assume "v < length (cl_promises st')" "cl_promises st' ! v = None"
    then show "v \<in> set (cs_waiters ((cl_heap st ! a)\<lparr>cs_waiters := cs_waiters (cl_heap st ! a) @ [w]\<rparr>)) \<or>
        v < length (cl_promises st) \<and> cl_promises st ! v = None \<and> v \<notin> set (waiting k st)"
      using queued(2) by (auto simp: queued(3,4) nth_append less_Suc_eq waiting_eq split: if_splits)
  qed (use queued(2) in \<open>auto simp: queued(3,4) held_def nth_append waiting_eq\<close>)
qed

lemma release_held:
  assumes "i < length (cl_permits st)" "\<not> pm_released (cl_permits st ! i)" "pm_key (cl_permits st ! i) = k"
    and "cl_permits st' = (cl_permits st)[i := (cl_permits st ! i)\<lparr>pm_released := True\<rparr>]"
  shows "held k' st = (if k' = k then Suc (held k' st') else held k' st')"
  using count_update[OF assms(1), of "\<lambda>p. pm_key p = k' \<and> \<not> pm_released p" "(cl_permits st ! i)\<lparr>pm_released := True\<rparr>"]
    assms(2,3)
  by (auto simp: held_def assms(4))

lemma handoff_wf:
  assumes wf: "limiter_wf st" and at: "map_of (cl_states st) k = Some a" and queue: "cs_waiters (cl_heap st ! a) = w # ws"
    and i: "i < length (cl_permits st)" "\<not> pm_released (cl_permits st ! i)" "pm_key (cl_permits st ! i) = k"
    and st': "cl_states st' = cl_states st"
      "cl_heap st' = (cl_heap st)[a := (cl_heap st ! a)\<lparr>cs_waiters := ws\<rparr>]"
      "cl_permits st' = (cl_permits st)[i := (cl_permits st ! i)\<lparr>pm_released := True\<rparr>] @
           [\<lparr>pm_key = k, pm_state = a, pm_released = False\<rparr>]"
      "cl_promises st' = (cl_promises st)[w := Some (length (cl_permits st))]"
  shows "limiter_wf st' \<and> waiting k st' = ws \<and> (\<forall>k'. held k' st' = held k' st)"
proof -
  let ?freed = "st\<lparr>cl_permits := (cl_permits st)[i := (cl_permits st ! i)\<lparr>pm_released := True\<rparr>]\<rparr>"
  note ok = wf_bucket[OF wf at]
  have a: "a < length (cl_heap st)" by (rule wf_address[OF wf at])
  have wait: "waiting k st = w # ws" using at queue by (simp add: waiting_eq)
  have fresh: "w \<notin> set ws" "distinct ws" using ok queue by (simp_all add: bucket_ok_def Let_def)
  have w: "w < length (cl_promises st)" using wf_waiting[OF wf, of w k] wait by simp
  have held: "held k' st' = held k' st" for k'
  proof -
    have "held k' st' = held k' ?freed + (if k' = k then 1 else 0)" by (simp add: held_def st'(3))
    then show ?thesis using release_held[OF i, of ?freed k'] by simp
  qed
  have "limiter_wf st'"
  proof (rule change_bucket_wf[OF wf at st'(1,2)])
    show "bucket_ok st' k a"
    proof -
      have "\<forall>v \<in> set ws. (cl_promises st)[w := Some (length (cl_permits st))] ! v = cl_promises st ! v"
        using fresh(1) by (metis nth_list_update_neq)
      then show ?thesis using ok queue fresh w held[of k] by (simp add: bucket_ok_def Let_def st'(2,4))
    qed
  next
    fix p assume p: "p \<in> set (cl_permits st')" "\<not> pm_released p"
    show "p \<in> set (cl_permits st) \<or> p = \<lparr>pm_key = k, pm_state = a, pm_released = False\<rparr>"
      using p set_update_subset_insert[of "cl_permits st" i "(cl_permits st ! i)\<lparr>pm_released := True\<rparr>"]
      by (auto simp: st'(3))
  next
    fix v assume v: "v < length (cl_promises st')" "cl_promises st' ! v = None"
    then have "v \<noteq> w" using w by (auto simp: st'(4))
    then show "v \<in> set (cs_waiters ((cl_heap st ! a)\<lparr>cs_waiters := ws\<rparr>)) \<or>
        v < length (cl_promises st) \<and> cl_promises st ! v = None \<and> v \<notin> set (waiting k st)"
      using v by (auto simp: st'(4) wait)
  qed (use held w in \<open>auto simp: st'(4) wait\<close>)
  moreover have "waiting k st' = ws" using at a by (simp add: waiting_eq st'(1,2))
  ultimately show ?thesis using held by blast
qed

lemma free_wf:
  assumes wf: "limiter_wf st" and at: "map_of (cl_states st) k = Some a" and queue: "cs_waiters (cl_heap st ! a) = []"
    and i: "i < length (cl_permits st)" "\<not> pm_released (cl_permits st ! i)" "pm_key (cl_permits st ! i) = k"
    and more: "cs_active (cl_heap st ! a) \<noteq> 1"
    and st': "cl_states st' = cl_states st"
      "cl_heap st' = (cl_heap st)[a := (cl_heap st ! a)\<lparr>cs_active := cs_active (cl_heap st ! a) - 1\<rparr>]"
      "cl_permits st' = (cl_permits st)[i := (cl_permits st ! i)\<lparr>pm_released := True\<rparr>]"
      "cl_promises st' = cl_promises st"
  shows "limiter_wf st'"
proof (rule change_bucket_wf[OF wf at st'(1,2)])
  note held = release_held[OF i st'(3)]
  have a: "a < length (cl_heap st)" by (rule wf_address[OF wf at])
  show "held k' st' = held k' st" if "k' \<noteq> k" for k' using held[of k'] that by simp
  show "bucket_ok st' k a"
    using wf_bucket[OF wf at] queue more a held[of k] by (simp add: bucket_ok_def Let_def st'(2,4))
next
  fix p assume "p \<in> set (cl_permits st')" "\<not> pm_released p"
  then show "p \<in> set (cl_permits st) \<or> p = \<lparr>pm_key = k, pm_state = a, pm_released = False\<rparr>"
    using set_update_subset_insert[of "cl_permits st" i "(cl_permits st ! i)\<lparr>pm_released := True\<rparr>"]
    by (auto simp: st'(3))
qed (use queue at in \<open>auto simp: st'(4) waiting_eq\<close>)

lemma close_bucket_wf:
  assumes wf: "limiter_wf st" and at: "map_of (cl_states st) k = Some a" and queue: "cs_waiters (cl_heap st ! a) = []"
    and i: "i < length (cl_permits st)" "\<not> pm_released (cl_permits st ! i)" "pm_key (cl_permits st ! i) = k"
    and last: "cs_active (cl_heap st ! a) = 1"
    and st': "cl_states st' = js_delete k (cl_states st)"
      "cl_heap st' = (cl_heap st)[a := (cl_heap st ! a)\<lparr>cs_active := cs_active (cl_heap st ! a) - 1\<rparr>]"
      "cl_permits st' = (cl_permits st)[i := (cl_permits st ! i)\<lparr>pm_released := True\<rparr>]"
      "cl_promises st' = cl_promises st"
  shows "limiter_wf st'"
proof -
  note held = release_held[OF i st'(3)]
  have none: "held k st' = 0" using wf_bucket[OF wf at] last held[of k] by (simp add: bucket_ok_def Let_def)
  have states: "map_of (cl_states st') k' = (if k' = k then None else map_of (cl_states st) k')" for k'
    by (simp add: st'(1))
  have heap: "cl_heap st' ! a' = cl_heap st ! a'" if "map_of (cl_states st) k' = Some a'" "k' \<noteq> k" for k' a'
  proof -
    have "a' \<noteq> a" using wf_unshared[OF wf that(1), of k] at that(2) by auto
    then show ?thesis by (simp add: st'(2))
  qed
  have wait: "waiting k' st' = waiting k' st" for k'
  proof (cases "k' = k")
    case True
    then show ?thesis using at queue by (simp add: waiting_eq states)
  next
    case False
    show ?thesis
    proof (cases "map_of (cl_states st) k'")
      case (Some a')
      then show ?thesis using heap[OF Some False] False by (simp add: waiting_eq states)
    qed (simp add: waiting_eq states)
  qed
  show ?thesis
  proof (rule wf_I)
    fix k' a' assume "map_of (cl_states st') k' = Some a'"
    then have k': "k' \<noteq> k" and old: "map_of (cl_states st) k' = Some a'" by (simp_all add: states split: if_splits)
    show "bucket_ok st' k' a'"
    proof (rule bucket_ok_frame[OF wf_bucket[OF wf old]])
      show "held k' st' = held k' st" using held[of k'] k' by simp
      show "cl_heap st' ! a' = cl_heap st ! a'" by (rule heap[OF old k'])
    qed (simp_all add: st'(2,4))
  next
    fix p assume p: "p \<in> set (cl_permits st')" "\<not> pm_released p"
    then have "p \<in> set (cl_permits st)"
      using set_update_subset_insert[of "cl_permits st" i "(cl_permits st ! i)\<lparr>pm_released := True\<rparr>"]
      by (auto simp: st'(3))
    moreover have "pm_key p \<noteq> k"
    proof
      assume "pm_key p = k"
      then show False using none p unfolding held_def length_0_conv filter_empty_conv by blast
    qed
    ultimately show "map_of (cl_states st') (pm_key p) = Some (pm_state p)"
      using wf_permit[OF wf _ p(2)] by (simp add: states)
  next
    fix k1 k2 a' assume "map_of (cl_states st') k1 = Some a'" "map_of (cl_states st') k2 = Some a'"
    then show "k1 = k2" using wf_unshared[OF wf, of k1 a' k2] by (simp add: states split: if_splits)
  next
    fix k1 k2 w assume "w \<in> set (waiting k1 st')" "w \<in> set (waiting k2 st')"
    then show "k1 = k2" using wf_one_queue[OF wf, of w k1 k2] by (simp add: wait)
  next
    fix w assume "w < length (cl_promises st')" "cl_promises st' ! w = None"
    then show "\<exists>k. w \<in> set (waiting k st')" using wf_pending[OF wf, of w] by (simp add: st'(4) wait)
  qed
qed

lemma release_wf:
  assumes wf: "limiter_wf st"
  shows "limiter_wf (release i st)"
proof (cases "i < length (cl_permits st) \<and> \<not> pm_released (cl_permits st ! i)")
  case True
  then have i: "i < length (cl_permits st)" "\<not> pm_released (cl_permits st ! i)" by simp_all
  let ?a = "pm_state (cl_permits st ! i)"
  show ?thesis
    using wf i
  proof (cases rule: release_cases)
    case (handed w ws)
    have "limiter_wf (release i st) \<and> waiting (pm_key (cl_permits st ! i)) (release i st) = ws \<and>
        (\<forall>k'. held k' (release i st) = held k' st)"
      by (rule handoff_wf[OF wf handed(1,2) i refl]) (simp_all add: handed(3))
    then show ?thesis ..
  next
    case freed
    show ?thesis
    proof (cases "cs_active (cl_heap st ! ?a) = 1")
      case True
      show ?thesis by (rule close_bucket_wf[OF wf freed(1,2) i refl True]) (simp_all add: freed(3) True)
    next
      case False
      show ?thesis by (rule free_wf[OF wf freed(1,2) i refl False]) (simp_all add: freed(3) False)
    qed
  qed
qed (use assms in \<open>auto simp: release_def\<close>)

lemma run_limiter_op_wf:
  assumes "limiter_wf st"
  shows "limiter_wf (run_limiter_op op st)"
proof (cases op)
  case (Lop_Try k n)
  then show ?thesis using assms try_acquire_wf[OF assms, of k n] by (auto split: sum.splits)
next
  case (Lop_Acquire k n)
  then show ?thesis using assms acquire_wf[OF assms, of k n] by (auto split: sum.splits)
qed (use assms release_wf in simp)

interpretation semaphore: call_history limiter_wf run_limiter_op run_limiter_ops
  by unfold_locales (simp_all add: run_limiter_op_wf)

lemma empty_limiter_wf [simp]: "limiter_wf empty_limiter"
  by (rule wf_I) (simp_all add: empty_limiter_def waiting_eq)

subsection \<open>Bounded concurrency\<close>

text \<open>C24:
  The semaphore is safe and wastes nothing. In every state that acquisitions and releases (repeated ones
  included) can reach, the permits in use on a key never exceed the limit of its bucket, a key that has no
  bucket has no permit in use, callers wait on a key only when all its permits are in use, and every
  promise that is not resolved is in the queue of such a key; a permit that is granted under some limit is
  one of at most that many.
\<close>

theorem concurrency_is_bounded:
  fixes ops :: "limiter_op list"
  defines "st \<equiv> run_limiter_ops ops empty_limiter"
  shows "int (held k st) \<le> capacity k st \<and>
    (waiting k st \<noteq> [] \<longrightarrow> int (held k st) = capacity k st) \<and>
    (w < length (cl_promises st) \<and> cl_promises st ! w = None \<longrightarrow>
       (\<exists>k'. w \<in> set (waiting k' st) \<and> 1 \<le> held k' st \<and> int (held k' st) = capacity k' st)) \<and>
    (\<forall>n st' p. try_acquire k n st = Inr (st', Some p) \<longrightarrow> int (held k st') \<le> n)"
proof -
  have wf: "limiter_wf st" by (simp add: st_def semaphore.steps_inv)
  have used: "1 \<le> held k st \<and> int (held k st) \<le> cs_limit (cl_heap st ! a) \<and>
      (waiting k st \<noteq> [] \<longrightarrow> int (held k st) = cs_limit (cl_heap st ! a)) \<and> capacity k st = cs_limit (cl_heap st ! a)"
    if "limiter_wf st" "map_of (cl_states st) k = Some a" for st k a
  proof -
    note ok = wf_bucket[OF that, unfolded bucket_ok_def Let_def]
    have "cs_active (cl_heap st ! a) = int (held k st)" "1 \<le> cs_active (cl_heap st ! a)"
      "cs_active (cl_heap st ! a) \<le> cs_limit (cl_heap st ! a)"
      "cs_waiters (cl_heap st ! a) \<noteq> [] \<longrightarrow> cs_active (cl_heap st ! a) = cs_limit (cl_heap st ! a)"
      using ok by blast+
    moreover have "waiting k st = cs_waiters (cl_heap st ! a)" "capacity k st = cs_limit (cl_heap st ! a)"
      using that(2) by (simp_all add: capacity_def bucket_def waiting_eq)
    ultimately show ?thesis by simp
  qed
  have bounds: "int (held k st) \<le> capacity k st \<and> (waiting k st \<noteq> [] \<longrightarrow> 1 \<le> held k st \<and> int (held k st) = capacity k st)"
    if "limiter_wf st" for k st
  proof (cases "map_of (cl_states st) k")
    case None
    then show ?thesis using idle_bucket[OF that None] by (simp add: capacity_def bucket_def waiting_eq)
  next
    case (Some a)
    then show ?thesis using used[OF that Some] by simp
  qed
  have waits: "\<exists>k'. w \<in> set (waiting k' st) \<and> 1 \<le> held k' st \<and> int (held k' st) = capacity k' st"
    if "w < length (cl_promises st)" "cl_promises st ! w = None"
  proof -
    from wf_pending[OF wf that] obtain k' where k': "w \<in> set (waiting k' st)" by blast
    then have "waiting k' st \<noteq> []" by auto
    then show ?thesis using bounds[OF wf, of k'] k' by blast
  qed
  have limit: "int (held k st') \<le> n" if run: "try_acquire k n st = Inr (st', Some p)" for n st' p
  proof -
    have wf': "limiter_wf st'" by (rule try_acquire_wf[OF wf run])
    from wf run have "\<exists>a. map_of (cl_states st') k = Some a \<and> cs_limit (cl_heap st' ! a) = n"
    proof (cases rule: try_acquire_Inr)
      case (granted a)
      then show ?thesis using wf_address[OF wf granted(1)] by simp
    qed auto
    then show ?thesis using used[OF wf'] bounds[OF wf', of k] by auto
  qed
  show ?thesis using bounds[OF wf, of k] waits limit by blast
qed

definition demo_limiter_ops :: "limiter_op list" where
  "demo_limiter_ops = [Lop_Acquire ''a'' 2, Lop_Try ''a'' 2, Lop_Acquire ''a'' 2, Lop_Acquire ''b'' 1,
     Lop_Release 2, Lop_Try ''a'' 3, Lop_Acquire ''a'' 2]"

lemma concurrency_is_bounded_witness:
  "let st = run_limiter_ops demo_limiter_ops empty_limiter in
     waiting ''a'' st = [1, 3] \<and> int (held ''a'' st) = capacity ''a'' st \<and>
     (\<exists>k'. 3 \<in> set (waiting k' st) \<and> 1 \<le> held k' st)"
proof -
  let ?st = "run_limiter_ops demo_limiter_ops empty_limiter"
  have shape: "waiting ''a'' ?st = [1, 3]" "length (cl_promises ?st) = 4" "cl_promises ?st ! 3 = None"
    by code_simp+
  show ?thesis
    unfolding Let_def using concurrency_is_bounded[of "''a''" demo_limiter_ops 3] shape by auto
qed

subsection \<open>Waiting callers are served in order\<close>

text \<open>C27:
  A released permit goes to the caller that has waited longest. In a reachable state, releasing a permit
  in use on a key on which \<open>w\<close> waits first resolves exactly the promise \<open>w\<close>, with a new permit on
  the same key, leaves the other callers waiting in their order, and changes neither the number of permits
  in use on any key nor any other promise; releasing the same permit again changes nothing.
\<close>

theorem release_serves_the_first_waiter:
  assumes "i < length (cl_permits (run_limiter_ops ops empty_limiter))"
    and "\<not> pm_released (cl_permits (run_limiter_ops ops empty_limiter) ! i)"
    and "waiting (pm_key (cl_permits (run_limiter_ops ops empty_limiter) ! i)) (run_limiter_ops ops empty_limiter) = w # ws"
  defines "st \<equiv> run_limiter_ops ops empty_limiter"
  defines "st' \<equiv> release i st" and "k \<equiv> pm_key (cl_permits st ! i)" and "p \<equiv> length (cl_permits st)"
  shows "cl_promises st ! w = None \<and> cl_promises st' = (cl_promises st)[w := Some p] \<and>
    pm_key (cl_permits st' ! p) = k \<and> \<not> pm_released (cl_permits st' ! p) \<and>
    waiting k st' = ws \<and> (\<forall>k'. held k' st' = held k' st) \<and> release i st' = st'"
proof -
  have wf: "limiter_wf st" by (simp add: st_def semaphore.steps_inv)
  have i: "i < length (cl_permits st)" "\<not> pm_released (cl_permits st ! i)" and queue: "waiting k st = w # ws"
    using assms(1-3) by (simp_all add: st_def k_def)
  have open_promise: "cl_promises st ! w = None" using wf_waiting[OF wf, of w k] queue by simp
  from wf i show ?thesis
  proof (cases rule: release_cases)
    case (handed v vs)
    have at: "map_of (cl_states st) k = Some (pm_state (cl_permits st ! i))" using handed(1) by (simp add: k_def)
    then have v: "v = w" "vs = ws" using queue handed(2) by (simp_all add: waiting_eq)
    have eff: "cl_permits st' = (cl_permits st)[i := (cl_permits st ! i)\<lparr>pm_released := True\<rparr>] @
           [\<lparr>pm_key = k, pm_state = pm_state (cl_permits st ! i), pm_released = False\<rparr>]"
      "cl_promises st' = (cl_promises st)[w := Some p]"
      by (simp_all add: st'_def handed(3) k_def p_def v)
    have after: "waiting k st' = ws \<and> (\<forall>k'. held k' st' = held k' st)"
      using handoff_wf[OF wf handed(1,2) i refl, of st'] by (simp add: st'_def handed(3) k_def v)
    have "release i st' = st'" using i(1) by (simp add: release_def eff(1) nth_append)
    then show ?thesis using eff after open_promise by (simp add: nth_append p_def)
  next
    case freed
    then show ?thesis using queue by (simp add: waiting_eq k_def)
  qed
qed

lemma release_serves_the_first_waiter_witness:
  "let st = run_limiter_ops demo_limiter_ops empty_limiter; st' = release 0 st in
     waiting ''a'' st = [1, 3] \<and> cl_promises st' ! 1 = Some 3 \<and> waiting ''a'' st' = [3] \<and> held ''a'' st' = 2"
proof -
  let ?st = "run_limiter_ops demo_limiter_ops empty_limiter"
  have shape: "0 < length (cl_permits ?st)" "\<not> pm_released (cl_permits ?st ! 0)" "pm_key (cl_permits ?st ! 0) = ''a''"
    "waiting ''a'' ?st = [1, 3]" "length (cl_permits ?st) = 3" "length (cl_promises ?st) = 4" "held ''a'' ?st = 2"
    by code_simp+
  then have "waiting (pm_key (cl_permits ?st ! 0)) ?st = [1, 3]" by simp
  note served = release_serves_the_first_waiter[OF shape(1,2) this]
  show ?thesis
    unfolding Let_def using served shape by simp
qed

end
