(* ===== verification/Engine_Types.thy ===== *)
theory Engine_Types
  imports Executions Tool_Names Cloud_Usage Webhook_Deliverer Concurrency_Laws
begin

text \<open>
  The data and the pure functions of the execution engine (\<open>apps/executor/src/engine.ts\<close>): what can be
  thrown, tools and provider manifests (\<open>core/src/types/tool.ts\<close>), the environment of an engine, parsing
  and validation of a request, identities derived from it, checks of a credential, and the summary of
  attached files (\<open>execution-provenance.ts\<close>). The catalog, the schema validators, the URL parser, the
  hash functions and \<open>localeCompare\<close> are fields of the environment.
\<close>

subsection \<open>Errors\<close>

text \<open>
  What a step of an execution can throw: an \<open>EyeballError\<close>, given by its \<open>toJSON()\<close>; a
  \<open>CredentialProviderError\<close>; the wrapper of an unexpected failure of the credential provider; the fence of
  another worker's dispatch; the reason of an abort signal; any other error.
\<close>

datatype thrown =
    Th_Eyeball normalized_tool_error
  | Th_Credential tool_error_code string bool "int option"
  | Th_Unexpected_Credential
  | Th_Fenced
  | Th_Aborted
  | Th_Js js_error

record rate_limit_metadata =
  rm_limit :: int
  rm_remaining :: int
  rm_reset_at :: int

text \<open>\<open>ExecutionRequestError\<close> with its HTTP status, or anything else that reaches the caller of \<open>execute\<close>.\<close>

datatype engine_error =
    Request_Error int normalized_tool_error "rate_limit_metadata option"
  | Thrown thrown

definition internal :: "js_error \<Rightarrow> engine_error" where
  "internal e = Thrown (Th_Js e)"

text \<open>\<open>new EyeballError({ code, message })\<close>\<close>

definition eyeball_error :: "tool_error_code \<Rightarrow> string \<Rightarrow> normalized_tool_error" where
  "eyeball_error code message = \<lparr>te_code = code, te_message = message,
     te_retryable = default_error_retryability code, te_retry_after = None, te_provider = None\<rparr>"

definition invalid_request :: "string \<Rightarrow> engine_error" where
  "invalid_request message = Request_Error 422 (eyeball_error Code_Invalid_Input message) None"

definition conflicting_request :: "string \<Rightarrow> engine_error" where
  "conflicting_request message = Request_Error 409 (eyeball_error Code_Invalid_Input message) None"

definition not_supported :: "string \<Rightarrow> engine_error" where
  "not_supported message = Request_Error 422 (eyeball_error Code_Not_Supported message) None"

definition not_found :: "string \<Rightarrow> engine_error" where
  "not_found message = Request_Error 404 (eyeball_error Code_Not_Found message) None"

definition normalized_error :: "thrown \<Rightarrow> normalized_tool_error" where
  "normalized_error err = (case err of
     Th_Eyeball e \<Rightarrow> e
   | Th_Credential code message retryable retry_after \<Rightarrow>
       \<lparr>te_code = code, te_message = message, te_retryable = retryable, te_retry_after = retry_after,
        te_provider = None\<rparr>
   | _ \<Rightarrow> \<lparr>te_code = Code_Provider_Error,
       te_message = ''Execution failed because an internal component returned an unexpected error.'',
       te_retryable = False, te_retry_after = None, te_provider = None\<rparr>)"

definition is_transition_conflict :: "thrown \<Rightarrow> bool" where
  "is_transition_conflict err \<longleftrightarrow> (case err of
     Th_Js (Named_Error name _) \<Rightarrow> name = ''ExecutionTransitionConflictError'' | _ \<Rightarrow> False)"

subsection \<open>Tools, manifests and credentials\<close>

record tool_definition =
  td_name :: string
  td_toolkit :: string
  td_capability :: string
  td_version :: string
  td_read_only :: bool
  td_async :: bool
  td_has_output_schema :: bool

datatype auth_class = Auth_OAuth2 | Auth_Api_Key | Auth_Basic | Auth_None

record provider_manifest =
  mf_toolkit :: string
  mf_auth_class :: auth_class
  mf_base_url :: string
  mf_base_url_override :: "string option"
  mf_max_concurrent :: "int option"

text \<open>A resolved credential without its secret, which only the adapters read.\<close>

record resolved_credential =
  cd_type :: auth_class
  cd_connection :: "string option"
  cd_expires_at :: "timestamp option"
  cd_scopes :: "string list option"

record schema_issue =
  sc_instance_path :: string
  sc_message :: string

subsection \<open>The environment of an engine\<close>

text \<open>
  \<open>en_effective_scopes\<close> gives the required scopes, \<open>en_adapters\<close> the toolkits of the adapter registry.
  \<open>en_json_digest\<close> is the hexadecimal SHA-256 of \<open>JSON.stringify\<close>, \<open>en_digest64\<close> the \<open>base64url\<close> one of
  the \<open>JSON.stringify\<close> of a list of strings, \<open>en_hex_digest\<close> the hexadecimal one of a string.
\<close>

record engine_env =
  en_get_tool :: "string \<Rightarrow> tool_definition option"
  en_get_manifest :: "string \<Rightarrow> provider_manifest option"
  en_effective_scopes :: "string \<Rightarrow> string list option"
  en_catalog_version :: string
  en_validate_input :: "tool_definition \<Rightarrow> (string \<times> json) list \<Rightarrow> schema_issue list + (string \<times> json) list"
  en_validate_output :: "tool_definition \<Rightarrow> json \<Rightarrow> json option"
  en_adapters :: "string list"
  en_parse_url :: "string \<Rightarrow> cloud_url option"
  en_variables :: "string \<Rightarrow> string option"
  en_collate :: "string \<Rightarrow> rat"
  en_json_digest :: "json \<Rightarrow> string"
  en_digest64 :: "string list \<Rightarrow> string"
  en_hex_digest :: "string \<Rightarrow> string"
  en_usage_enabled :: bool
  en_usage_strict :: bool
  en_as_timestamp :: "string \<Rightarrow> timestamp"
  en_retention_ms :: int
  en_deliverer :: deliverer_config

definition day_ms :: int where
  "day_ms = 24 * 60 * 60 * 1000"

text \<open>\<open>#idempotencyRetentionMs\<close> from the option of the constructor.\<close>

definition retention_of :: "int option \<Rightarrow> int" where
  "retention_of explicit = max day_ms (or_else explicit day_ms)"

definition engine_clock :: "int option \<Rightarrow> int result" where
  "engine_clock = read_clock ''Executor clock returned an invalid date.''"

definition require_adapter :: "engine_env \<Rightarrow> string \<Rightarrow> thrown + unit" where
  "require_adapter env toolkit =
     (if toolkit \<in> set (en_adapters env) then Inr ()
      else Inl (Th_Eyeball (eyeball_error Code_Not_Supported
        (''Toolkit '' @ toolkit @ '' is not supported by this executor.''))))"

subsection \<open>Requests\<close>

record execute_command =
  cm_project :: string
  cm_request :: json
  cm_idempotency_key :: "string option"
  cm_execution :: "string option"
  cm_source :: "string option"

record parsed_request =
  pq_tool :: string
  pq_user :: string
  pq_connection :: "string option"
  pq_input :: "(string \<times> json) list"
  pq_mode :: "execution_mode option"

definition execute_request_keys :: "string list" where
  "execute_request_keys = [''tool'', ''userId'', ''connectionId'', ''input'', ''mode'']"

definition canonical_tool_name :: "string \<Rightarrow> engine_error + string" where
  "canonical_tool_name value =
     (if is_canonical_tool_name value then Inr value
      else case from_restricted_tool_name value of
        Inl e \<Rightarrow> Inl (invalid_request ''tool must be a canonical dotted or reversible restricted tool name.'')
      | Inr name \<Rightarrow> Inr name)"

definition parse_mode :: "json option \<Rightarrow> engine_error + execution_mode option" where
  "parse_mode v =
     (if v = None then Inr None
      else if v = Some (JStr ''sync'') then Inr (Some Mode_Sync)
      else if v = Some (JStr ''async'') then Inr (Some Mode_Async)
      else Inl (invalid_request ''mode must be either \"sync\" or \"async\".''))"

definition parse_connection :: "json option \<Rightarrow> engine_error + string option" where
  "parse_connection v = (case v of
     None \<Rightarrow> Inr None
   | Some (JStr c) \<Rightarrow> if is_connection_id c then Inr (Some c)
       else Inl (invalid_request ''connectionId must be a valid conn_* identifier.'')
   | _ \<Rightarrow> Inl (invalid_request ''connectionId must be a valid conn_* identifier.''))"

definition bind_engine :: "'e + 'a \<Rightarrow> ('a \<Rightarrow> 'e + 'b) \<Rightarrow> 'e + 'b" where
  "bind_engine r f = (case r of Inl e \<Rightarrow> Inl e | Inr x \<Rightarrow> f x)"

lemma bind_engine_simps [simp]: "bind_engine (Inl e) f = Inl e" "bind_engine (Inr x) f = f x"
  by (simp_all add: bind_engine_def)

lemma bind_engine_Inr_iff: "bind_engine r f = Inr y \<longleftrightarrow> (\<exists>x. r = Inr x \<and> f x = Inr y)"
  by (cases r) simp_all

definition engine_result :: "'a result \<Rightarrow> engine_error + 'a" where
  "engine_result r = (case r of Inl e \<Rightarrow> Inl (internal e) | Inr x \<Rightarrow> Inr x)"

lemma engine_result_simps [simp]: "engine_result (Inl e) = Inl (internal e)" "engine_result (Inr x) = Inr x"
  by (simp_all add: engine_result_def)

definition parse_execute_request :: "json \<Rightarrow> engine_error + parsed_request" where
  "parse_execute_request value =
     (case value of
        JObj fs \<Rightarrow>
          (case List.find (\<lambda>(k, v). k \<notin> set execute_request_keys) fs of
             Some (k, v) \<Rightarrow> Inl (invalid_request (''Unknown execute request field: '' @ k @ ''.''))
           | None \<Rightarrow>
               (case map_of fs ''tool'' of
                  Some (JStr tool) \<Rightarrow>
                    (case map_of fs ''userId'' of
                       Some (JStr user) \<Rightarrow>
                         if blank user then Inl (invalid_request ''userId must be a non-empty string.'')
                         else
                           (case map_of fs ''input'' of
                              Some (JObj inp) \<Rightarrow>
                                bind_engine (parse_mode (map_of fs ''mode'')) (\<lambda>mode.
                                bind_engine (parse_connection (map_of fs ''connectionId'')) (\<lambda>connection.
                                bind_engine (canonical_tool_name tool) (\<lambda>name.
                                  Inr \<lparr>pq_tool = name, pq_user = user, pq_connection = connection,
                                    pq_input = inp, pq_mode = mode\<rparr>)))
                            | _ \<Rightarrow> Inl (invalid_request ''input must be a JSON object.''))
                     | _ \<Rightarrow> Inl (invalid_request ''userId must be a non-empty string.''))
                | _ \<Rightarrow> Inl (invalid_request ''tool must be a qualified tool name.'')))
      | _ \<Rightarrow> Inl (invalid_request ''The execute request must be a JSON object.''))"

definition validation_message :: "schema_issue list \<Rightarrow> string" where
  "validation_message issues = (case issues of
     [] \<Rightarrow> ''Canonical input is invalid.''
   | issue # rest \<Rightarrow>
       (let location = (if sc_instance_path issue = [] then ''input'' else ''input'' @ sc_instance_path issue);
            remaining = int (length rest) in
        ''Canonical input is invalid at '' @ location @ '': '' @ sc_message issue @
        (if remaining = 0 then []
         else '' ('' @ int_text remaining @ '' more issue'' @ (if remaining = 1 then [] else ''s'') @ '').'')))"

subsection \<open>Voice sessions\<close>

definition lower_hex :: "char \<Rightarrow> bool" where
  "lower_hex c \<longleftrightarrow> (let n = of_char c :: nat in (48 \<le> n \<and> n \<le> 57) \<or> (97 \<le> n \<and> n \<le> 102))"

definition voice_session_execution_binding :: "engine_env \<Rightarrow> string \<Rightarrow> string" where
  "voice_session_execution_binding env session = take 32 (en_hex_digest env session)"

definition is_voice_session_execution_id :: "engine_env \<Rightarrow> string \<Rightarrow> string \<Rightarrow> bool" where
  "is_voice_session_execution_id env execution session \<longleftrightarrow>
     (let prefix = ''exe_voice_'' @ voice_session_execution_binding env session;
          rest = drop (length prefix) execution in
      take (length prefix) execution = prefix \<and> length rest = 32 \<and> list_all lower_hex rest)"

subsection \<open>Validation\<close>

record validated_request =
  vq_request :: execute_request
  vq_tool :: tool_definition
  vq_manifest :: provider_manifest
  vq_scopes :: "string list"

definition voice_source_mismatch :: "engine_env \<Rightarrow> execute_command \<Rightarrow> bool" where
  "voice_source_mismatch env command \<longleftrightarrow> (case cm_source command of
     None \<Rightarrow> False
   | Some session \<Rightarrow> (case cm_execution command of
       None \<Rightarrow> True | Some e \<Rightarrow> \<not> is_voice_session_execution_id env e session))"

definition validate_command :: "engine_env \<Rightarrow> execute_command \<Rightarrow> engine_error + validated_request" where
  "validate_command env command =
     (if blank (cm_project command)
      then Inl (invalid_request ''Authenticated project ID must not be empty.'')
      else bind_engine (parse_execute_request (cm_request command)) (\<lambda>request.
        let unsupported = Inl (not_supported (''Tool '' @ pq_tool request @ '' is not supported.'')) in
        case en_get_tool env (pq_tool request) of
          None \<Rightarrow> unsupported
        | Some tool \<Rightarrow>
            (case (en_get_manifest env (td_toolkit tool), en_effective_scopes env (td_name tool)) of
               (Some manifest, Some scopes) \<Rightarrow>
                 (case en_validate_input env tool (pq_input request) of
                    Inl issues \<Rightarrow> Inl (invalid_request (validation_message issues))
                  | Inr inp \<Rightarrow>
                      (let mode = or_else (pq_mode request) (if td_async tool then Mode_Async else Mode_Sync) in
                       if td_async tool \<and> mode = Mode_Sync
                       then Inl (invalid_request (''Tool '' @ td_name tool @
                         '' is async by nature and does not accept sync mode.''))
                       else if cm_idempotency_key command = Some []
                       then Inl (invalid_request ''Idempotency-Key must not be empty.'')
                       else if (case cm_execution command of None \<Rightarrow> False | Some e \<Rightarrow> \<not> is_execution_id e)
                       then Inl (invalid_request ''The reserved execution ID is invalid.'')
                       else if \<not> td_read_only tool \<and> cm_idempotency_key command = None
                       then Inl (invalid_request (''Idempotency-Key is required for mutating tool '' @
                         td_name tool @ ''.''))
                       else if voice_source_mismatch env command
                       then Inl (invalid_request
                         ''Voice-session source does not match the reserved child execution.'')
                       else Inr \<lparr>vq_request = \<lparr>rq_tool = pq_tool request, rq_user = pq_user request,
                           rq_connection = pq_connection request, rq_input = inp, rq_mode = mode\<rparr>,
                         vq_tool = tool, vq_manifest = manifest, vq_scopes = scopes\<rparr>))
             | _ \<Rightarrow> unsupported)))"

subsection \<open>Attached files\<close>

definition attachment_array_operations :: "string list" where
  "attachment_array_operations =
     [''send_email'', ''reply_to_email'', ''create_draft'', ''send_message'', ''reply_to_message'']"

definition canonical_operation :: "tool_definition \<Rightarrow> string" where
  "canonical_operation tool = (case find_index (\<lambda>c. c = CHR ''.'') (td_name tool) of
     None \<Rightarrow> td_name tool | Some i \<Rightarrow> drop (i + 1) (td_name tool))"

definition file_id_of :: "json option \<Rightarrow> string option" where
  "file_id_of v = (case v of Some (JStr s) \<Rightarrow> if is_file_id s then Some s else None | _ \<Rightarrow> None)"

definition file_id_from_reference :: "json \<Rightarrow> string option" where
  "file_id_from_reference v = file_id_of (json_field ''fileId'' v)"

definition attachment_candidates :: "tool_definition \<Rightarrow> (string \<times> json) list \<Rightarrow> string list" where
  "attachment_candidates tool inp =
     (let operation = canonical_operation tool in
      case (if (td_capability tool = ''email'' \<and> operation \<in> set attachment_array_operations) \<or>
               (td_capability tool = ''messaging_chat'' \<and> operation \<in> set attachment_array_operations)
            then map_of inp ''attachments'' else None) of
        Some (JArr references) \<Rightarrow> List.map_filter file_id_from_reference references
      | _ \<Rightarrow>
          if td_capability tool = ''file_storage_docs'' \<and> operation = ''upload_file''
          then (case file_id_of (map_of inp ''fileId'') of None \<Rightarrow> [] | Some f \<Rightarrow> [f])
          else [])"

definition execution_attachment_summary ::
    "tool_definition \<Rightarrow> (string \<times> json) list \<Rightarrow> attachment_summary option" where
  "execution_attachment_summary tool inp =
     (let ids = js_unique (attachment_candidates tool inp) in
      if ids = [] then None else Some \<lparr>at_count = int (length ids), at_file_ids = ids\<rparr>)"

subsection \<open>Identities\<close>

fun canonicalize :: "(string \<Rightarrow> rat) \<Rightarrow> json \<Rightarrow> json" where
  "canonicalize collate (JArr xs) = JArr (map (canonicalize collate) xs)"
| "canonicalize collate (JObj fs) =
     JObj (map (\<lambda>(k, v). (k, canonicalize collate v)) (sort_key (\<lambda>e. collate (fst e)) fs))"
| "canonicalize collate v = v"

definition request_json :: "execute_request \<Rightarrow> json" where
  "request_json r = JObj (
     [(''tool'', JStr (rq_tool r)), (''userId'', JStr (rq_user r))] @
     (case rq_connection r of None \<Rightarrow> [] | Some c \<Rightarrow> [(''connectionId'', JStr c)]) @
     [(''input'', JObj (rq_input r)),
      (''mode'', JStr (case rq_mode r of Mode_Sync \<Rightarrow> ''sync'' | Mode_Async \<Rightarrow> ''async''))])"

definition hash_request :: "engine_env \<Rightarrow> execute_request \<Rightarrow> string" where
  "hash_request env r = en_json_digest env (canonicalize (en_collate env) (request_json r))"

text \<open>\<open>catalogVersion.split(".", 1)[0]\<close>\<close>

definition catalog_major :: "engine_env \<Rightarrow> string" where
  "catalog_major env = takeWhile (\<lambda>c. c \<noteq> CHR ''.'') (en_catalog_version env)"

definition derive_usage_idempotency_key ::
    "engine_env \<Rightarrow> string \<Rightarrow> string \<Rightarrow> execute_request \<Rightarrow> string option \<Rightarrow> string" where
  "derive_usage_idempotency_key env project execution request key =
     ''usage_'' @ en_digest64 env (case key of
       None \<Rightarrow> [''usage-v1'', project, execution]
     | Some k \<Rightarrow> [''usage-v1'', project, rq_tool request, rq_user request,
         or_else (rq_connection request) ''default'', catalog_major env, k, hash_request env request])"

definition derive_execution_webhook_event_id :: "engine_env \<Rightarrow> string \<Rightarrow> string \<Rightarrow> string" where
  "derive_execution_webhook_event_id env project execution =
     ''evt_'' @ en_digest64 env [''execution.webhook.v1'', project, execution]"

definition idempotency_reservation_of ::
    "engine_env \<Rightarrow> execute_request \<Rightarrow> string \<Rightarrow> int \<Rightarrow> idempotency_reservation result" where
  "idempotency_reservation_of env request key created_at =
     bind_result (iso_string (created_at + en_retention_ms env)) (\<lambda>expires_at. Inr
       \<lparr>ir_scope = \<lparr>is_key = key, is_tool = rq_tool request, is_user = rq_user request,
          is_connection = or_else (rq_connection request) ''default'', is_catalog_major = catalog_major env\<rparr>,
        ir_request_hash = hash_request env request, ir_expires_at = expires_at\<rparr>)"

definition bucket_key_of :: "string \<Rightarrow> tool_definition \<Rightarrow> string" where
  "bucket_key_of project tool = project @ '':'' @ td_toolkit tool"

subsection \<open>Checks before a dispatch\<close>

definition trimmed_variable :: "engine_env \<Rightarrow> string option \<Rightarrow> string option" where
  "trimmed_variable env name = (case name of None \<Rightarrow> None
     | Some n \<Rightarrow> map_option js_trim (en_variables env n))"

definition resolve_base_url :: "engine_env \<Rightarrow> provider_manifest \<Rightarrow> thrown + string" where
  "resolve_base_url env manifest =
     (let override = trimmed_variable env (mf_base_url_override manifest);
          candidate = (case override of None \<Rightarrow> mf_base_url manifest
            | Some v \<Rightarrow> if v = [] then mf_base_url manifest else v);
          invalid = Inl (Th_Eyeball (eyeball_error Code_Provider_Error
            (''The configured '' @ mf_toolkit manifest @ '' base URL is invalid.''))) in
      case en_parse_url env candidate of
        None \<Rightarrow> invalid
      | Some u \<Rightarrow>
          if (url_protocol u \<noteq> ''https:'' \<and> url_protocol u \<noteq> ''http:'') \<or> url_username u \<noteq> [] \<or>
             url_password u \<noteq> [] \<or> url_search u \<noteq> [] \<or> url_hash u \<noteq> []
          then invalid else Inr (url_href u))"

definition validate_credential ::
    "resolved_credential \<Rightarrow> execute_request \<Rightarrow> provider_manifest \<Rightarrow> string list \<Rightarrow> int \<Rightarrow> thrown + unit" where
  "validate_credential credential request manifest scopes now =
     (if cd_type credential \<noteq> mf_auth_class manifest
      then Inl (Th_Eyeball (eyeball_error Code_Auth_Missing (''No usable '' @ mf_toolkit manifest @
        '' credential matches the required auth class.'')))
      else if rq_connection request \<noteq> None \<and> cd_connection credential \<noteq> rq_connection request
      then Inl (Th_Eyeball (eyeball_error Code_Auth_Missing
        ''No usable connection exists for this project, user, and toolkit.''))
      else if (case cd_expires_at credential of None \<Rightarrow> False
          | Some t \<Rightarrow> (case date_parse t of None \<Rightarrow> True | Some ms \<Rightarrow> ms \<le> now))
      then Inl (Th_Eyeball (eyeball_error Code_Auth_Expired
        (''The selected '' @ mf_toolkit manifest @ '' credential is expired.'')))
      else if list_ex (\<lambda>s. s \<notin> set (or_else (cd_scopes credential) [])) scopes
      then Inl (Th_Eyeball (eyeball_error Code_Auth_Insufficient_Scope
        (''The selected '' @ mf_toolkit manifest @ '' credential lacks a required scope.'')))
      else Inr ())"

definition validate_tool_output :: "engine_env \<Rightarrow> tool_definition \<Rightarrow> json \<Rightarrow> thrown + json" where
  "validate_tool_output env tool output =
     (if \<not> td_has_output_schema tool then Inr output
      else case en_validate_output env tool output of
        None \<Rightarrow> Inl (Th_Eyeball ((eyeball_error Code_Provider_Error
          (''Adapter output for '' @ td_name tool @ '' violated the canonical output schema.''))
          \<lparr>te_provider := Some \<lparr>pe_toolkit = td_toolkit tool, pe_status = None, pe_code = None,
             pe_request_id = None, pe_detail = None\<rparr>\<rparr>))
      | Some v \<Rightarrow> Inr v)"

subsection \<open>Answers\<close>

record execute_response =
  xr_execution :: string
  xr_tool :: string
  xr_tool_version :: string
  xr_catalog_version :: string
  xr_outcome :: exec_outcome

record execute_outcome =
  xo_status_code :: int
  xo_response :: execute_response
  xo_replayed :: bool

definition execute_response_of :: "execution_record \<Rightarrow> execute_response" where
  "execute_response_of r = \<lparr>xr_execution = ex_id r, xr_tool = ex_tool r, xr_tool_version = ex_tool_version r,
     xr_catalog_version = ex_catalog_version r, xr_outcome = ex_outcome r\<rparr>"

definition outcome_of :: "execution_record \<Rightarrow> bool \<Rightarrow> execute_outcome" where
  "outcome_of r replayed = \<lparr>xo_status_code = (if terminal_status (ex_status r) then 200 else 202),
     xo_response = execute_response_of r, xo_replayed = replayed\<rparr>"

end
