(* ===== verification/Engine_State.thy ===== *)
theory Engine_State
  imports Engine_Types
begin

text \<open>
  The state of the execution engine (\<open>apps/executor/src/engine.ts\<close>) and the effects that its operations
  share: the gate, the reconciliation of a terminal execution, the failure of interrupted work, the
  submission and the cancellation of a job. An operation that may write before it throws returns a state
  and a result.
\<close>

subsection \<open>State\<close>

text \<open>
  A call of \<open>#runAllocated\<close> in flight, and what it waits for: a permit of the concurrency limiter (the
  promise), its credential, or the adapter. \<open>er_record\<close> is its parameter \<open>pending\<close>, \<open>er_started_at\<close> the
  date \<open>startedAt\<close>, \<open>er_aborted\<close> the state of its abort signal.
\<close>

datatype run_phase = Ph_Permit nat | Ph_Credentials | Ph_Dispatched

datatype run_owner = For_Call nat | For_Job

record engine_run =
  er_project :: string
  er_record :: execution_record
  er_request :: execute_request
  er_tool :: tool_definition
  er_manifest :: provider_manifest
  er_scopes :: "string list"
  er_bucket :: string
  er_limit :: "int option"
  er_report :: "usage_report_context option"
  er_reservation :: "usage_reservation_handle option"
  er_event :: "string option"
  er_permit :: "nat option"
  er_started_at :: int
  er_aborted :: bool
  er_phase :: run_phase
  er_owner :: run_owner

text \<open>A call of \<open>execute\<close> that has a permit, a pending record and perhaps a reservation of its key.\<close>

record prepared_execution =
  pp_command :: execute_command
  pp_valid :: validated_request
  pp_permit :: "nat option"
  pp_pending :: execution_record
  pp_idempotency :: "idempotency_reservation option"

text \<open>A call of \<open>execute\<close> in flight waits for admission, for its run, or for the record of a replay.\<close>

datatype engine_call =
    Call_Reserving prepared_execution
  | Call_Running nat
  | Call_Waiting nat execute_command execution_mode

text \<open>What an adapter is called with.\<close>

record provider_dispatch =
  dp_project :: string
  dp_execution :: string
  dp_tool :: tool_definition
  dp_request :: execute_request
  dp_scopes :: "string list"
  dp_manifest :: provider_manifest
  dp_credential :: resolved_credential
  dp_base_url :: string
  dp_checked_at :: int

text \<open>
  \<open>es_deliverer\<close> holds the queue, the endpoints and the events; its execution store is \<open>es_store\<close>. The last
  four components record what is visible outside: the calls of adapters, resolved promises of
  \<open>waitForTerminal\<close> by project and number, replies to callers of \<open>execute\<close>, and answers of execution jobs (\<^term>\<open>None\<close> when the
  handler rejects).
\<close>

record engine_state =
  es_store :: execution_store
  es_limiter :: concurrency_limiter
  es_outbox :: usage_outbox
  es_deliverer :: deliverer_state
  es_runs :: "(nat \<times> engine_run) list"
  es_calls :: "(nat \<times> engine_call) list"
  es_next :: nat
  es_dispatches :: "provider_dispatch list"
  es_settled :: "((string \<times> nat) \<times> execution_record) list"
  es_replies :: "(nat \<times> (engine_error + execute_outcome)) list"
  es_answers :: "(string \<times> string \<times> job_handler_result option) list"

definition empty_engine :: "deliverer_state \<Rightarrow> engine_state" where
  "empty_engine dv = \<lparr>es_store = empty_execution_store, es_limiter = empty_limiter, es_outbox = [],
     es_deliverer = dv, es_runs = [], es_calls = [], es_next = 0, es_dispatches = [], es_settled = [],
     es_replies = [], es_answers = []\<rparr>"

text \<open>
  The readings of clocks and the identifiers that a step gets: the engine's clock, the gate's, the
  deliverer's, the queue's, the wall clock of the job store, \<open>context.now()\<close> of a job. \<open>after_reads k\<close> is
  what is left after \<open>k\<close> readings of each.
\<close>

record engine_time =
  tm_clock :: "nat \<Rightarrow> int option"
  tm_gate :: "nat \<Rightarrow> int option"
  tm_deliverer :: "nat \<Rightarrow> int option"
  tm_queue :: "nat \<Rightarrow> int option"
  tm_wall :: "nat \<Rightarrow> int"
  tm_job :: "nat \<Rightarrow> timestamp"
  tm_execution_id :: string
  tm_event_id :: string

definition after_reads :: "nat \<Rightarrow> engine_time \<Rightarrow> engine_time" where
  "after_reads k tm = tm\<lparr>tm_clock := \<lambda>i. tm_clock tm (i + k), tm_gate := \<lambda>i. tm_gate tm (i + k),
     tm_deliverer := \<lambda>i. tm_deliverer tm (i + k), tm_queue := \<lambda>i. tm_queue tm (i + k),
     tm_wall := \<lambda>i. tm_wall tm (i + k), tm_job := \<lambda>i. tm_job tm (i + k)\<rparr>"

definition engine_now :: "nat \<Rightarrow> engine_time \<Rightarrow> int result" where
  "engine_now i tm = engine_clock (tm_clock tm i)"

subsection \<open>Calls on the parts\<close>

definition store_call :: "engine_state \<Rightarrow> (execution_store \<times> 'a) result \<Rightarrow> engine_state \<times> 'a result" where
  "store_call st r = (case r of Inl e \<Rightarrow> (st, Inl e) | Inr (es, x) \<Rightarrow> (st\<lparr>es_store := es\<rparr>, Inr x))"

definition then_call ::
    "engine_state \<times> ('e + 'a) \<Rightarrow> ('a \<Rightarrow> engine_state \<Rightarrow> engine_state \<times> ('e + 'b)) \<Rightarrow> engine_state \<times> ('e + 'b)"
where
  "then_call r f = (case r of (st, Inl e) \<Rightarrow> (st, Inl e) | (st, Inr x) \<Rightarrow> f x st)"

lemma then_call_simps [simp]: "then_call (st, Inl e) f = (st, Inl e)" "then_call (st, Inr x) f = f x st"
  by (simp_all add: then_call_def)

lemma store_call_simps [simp]:
  "store_call st (Inl e) = (st, Inl e)" "store_call st (Inr (es, x)) = (st\<lparr>es_store := es\<rparr>, Inr x)"
  by (simp_all add: store_call_def)

definition settle :: "string \<Rightarrow> settlement list \<Rightarrow> engine_state \<Rightarrow> engine_state" where
  "settle p ss st = st\<lparr>es_settled := es_settled st @ map (\<lambda>(w, r). ((p, w), r)) ss\<rparr>"

definition update_record ::
    "string \<Rightarrow> execution_record \<Rightarrow> engine_state \<Rightarrow> engine_state \<times> unit result" where
  "update_record p r st = then_call (store_call st (update_execution p r (es_store st)))
     (\<lambda>ss st. (settle p ss st, Inr ()))"

definition report_usage ::
    "engine_env \<Rightarrow> usage_report_context \<Rightarrow> execution_record \<Rightarrow> int option \<Rightarrow> engine_state \<Rightarrow>
     engine_state \<times> unit result" where
  "report_usage env ctx r reading st =
     (if en_usage_enabled env
      then case gate_report_terminal ctx r reading (es_outbox st) of (ob, res) \<Rightarrow> (st\<lparr>es_outbox := ob\<rparr>, res)
      else (st, Inr ()))"

definition release_usage ::
    "engine_env \<Rightarrow> usage_reservation_handle \<Rightarrow> int option \<Rightarrow> engine_state \<Rightarrow> engine_state \<times> unit result" where
  "release_usage env h reading st =
     (if en_usage_enabled env
      then case gate_release h reading (es_outbox st) of (ob, res) \<Rightarrow> (st\<lparr>es_outbox := ob\<rparr>, res)
      else (st, Inr ()))"

definition release_reservation ::
    "engine_env \<Rightarrow> usage_reservation_handle option \<Rightarrow> int option \<Rightarrow> engine_state \<Rightarrow> engine_state \<times> unit result"
where
  "release_reservation env h reading st = (case h of None \<Rightarrow> (st, Inr ()) | Some h \<Rightarrow> release_usage env h reading st)"

definition release_permit :: "nat option \<Rightarrow> engine_state \<Rightarrow> engine_state" where
  "release_permit p st = (case p of None \<Rightarrow> st | Some i \<Rightarrow> st\<lparr>es_limiter := release i (es_limiter st)\<rparr>)"

definition enqueue_terminal ::
    "engine_env \<Rightarrow> engine_time \<Rightarrow> string \<Rightarrow> execution_record \<Rightarrow> string \<Rightarrow> engine_state \<Rightarrow>
     engine_state \<times> unit result" where
  "enqueue_terminal env tm p r event st =
     (case enqueue_execution (en_deliverer env) (tm_deliverer tm) (tm_queue tm) (tm_wall tm) p r (Some event)
         (tm_event_id tm) ((es_deliverer st)\<lparr>dv_executions := Some (es_store st)\<rparr>) of
        (dv, res) \<Rightarrow> (st\<lparr>es_deliverer := dv\<rparr>, res))"

text \<open>\<open>#submitExecutionJob\<close>\<close>

definition submit_execution_job ::
    "engine_env \<Rightarrow> engine_time \<Rightarrow> string \<Rightarrow> string \<Rightarrow> engine_state \<Rightarrow> engine_state \<times> unit result" where
  "submit_execution_job env tm p e st =
     (let dv = es_deliverer st; sys = dv_system dv in
      case submit_job (dc_digest (en_deliverer env)) (dv_accepting dv) (Execution_Run p e)
          \<lparr>opt_run_after = None, opt_group_key = None, opt_group_order = None\<rparr>
          (tm_queue tm 0) (tm_wall tm 0) (sys_jobs sys) of
        (js, r) \<Rightarrow> (st\<lparr>es_deliverer := dv\<lparr>dv_system := sys\<lparr>sys_jobs := js\<rparr>\<rparr>\<rparr>, bind_result r (\<lambda>_. Inr ())))"

subsection \<open>Reconciliation of a terminal execution\<close>

record reconcile_input =
  ri_project :: string
  ri_record :: execution_record
  ri_report :: "usage_report_context option"
  ri_reservation :: "usage_reservation_handle option"
  ri_event :: "string option"

definition resume_report :: "resume_context option \<Rightarrow> usage_report_context option" where
  "resume_report c = Option.bind c rc_usage_report"

definition resume_reservation :: "resume_context option \<Rightarrow> usage_reservation_handle option" where
  "resume_reservation c = Option.bind c rc_usage_reservation"

text \<open>What the code passes to \<open>reconcileTerminalExecution\<close> for a row that it has just read.\<close>

definition reconcile_stored :: "recoverable_execution \<Rightarrow> reconcile_input" where
  "reconcile_stored rv = \<lparr>ri_project = rv_project rv, ri_record = rv_record rv,
     ri_report = resume_report (rv_resume_context rv),
     ri_reservation = resume_reservation (rv_resume_context rv), ri_event = rv_webhook_event_id rv\<rparr>"

definition settled_record :: "reconcile_input \<Rightarrow> recoverable_execution option \<Rightarrow> execution_record" where
  "settled_record inp stored = (case stored of
     Some s \<Rightarrow> if terminal_status (ex_status (rv_record s)) then rv_record s else ri_record inp
   | None \<Rightarrow> ri_record inp)"

definition dispatch_may_have_begun :: "execution_record \<Rightarrow> recoverable_execution option \<Rightarrow> bool" where
  "dispatch_may_have_begun r stored = (case ex_outcome r of
     Out_Succeeded _ _ \<Rightarrow> True
   | Out_Cancelled _ _ begun \<Rightarrow> begun
   | _ \<Rightarrow> (case stored of None \<Rightarrow> False | Some s \<Rightarrow> rv_dispatch_started_at s \<noteq> None))"

definition report_of_reservation :: "usage_reservation_handle \<Rightarrow> usage_report_context" where
  "report_of_reservation h = \<lparr>ur_project = uh_project h, ur_execution = uh_local_execution h,
     ur_cloud_execution = uh_cloud_execution h, ur_idempotency_key = uh_idempotency_key h,
     ur_reservation = Some (uh_reservation h), ur_reserved_at = uh_reserved_at h\<rparr>"

definition usage_report_for ::
    "reconcile_input \<Rightarrow> recoverable_execution option \<Rightarrow> bool \<Rightarrow> usage_report_context option" where
  "usage_report_for inp stored begun = (case ri_report inp of
     Some r \<Rightarrow> Some r
   | None \<Rightarrow> (case Option.bind stored (\<lambda>s. resume_report (rv_resume_context s)) of
       Some r \<Rightarrow> Some r
     | None \<Rightarrow> if begun then map_option report_of_reservation (ri_reservation inp) else None))"

definition usage_reservation_for ::
    "reconcile_input \<Rightarrow> recoverable_execution option \<Rightarrow> usage_reservation_handle option" where
  "usage_reservation_for inp stored = (case ri_reservation inp of
     Some h \<Rightarrow> Some h
   | None \<Rightarrow> Option.bind stored (\<lambda>s. resume_reservation (rv_resume_context s)))"

definition record_usage ::
    "engine_env \<Rightarrow> engine_time \<Rightarrow> reconcile_input \<Rightarrow> recoverable_execution option \<Rightarrow> execution_record \<Rightarrow>
     engine_state \<Rightarrow> engine_state \<times> unit result" where
  "record_usage env tm inp stored r st =
     (let begun = dispatch_may_have_begun r stored in
      case (begun, usage_report_for inp stored begun, usage_reservation_for inp stored) of
        (True, Some ctx, _) \<Rightarrow> report_usage env ctx r (tm_gate tm 0) st
      | (False, _, Some h) \<Rightarrow> release_usage env h (tm_gate tm 0) st
      | _ \<Rightarrow> (st, Inr ()))"

definition finalize_usage ::
    "engine_env \<Rightarrow> engine_time \<Rightarrow> reconcile_input \<Rightarrow> recoverable_execution option \<Rightarrow> execution_record \<Rightarrow>
     engine_state \<Rightarrow> engine_state \<times> unit result" where
  "finalize_usage env tm inp stored r st =
     (if Option.bind stored rv_usage_finalized_at \<noteq> None then (st, Inr ())
      else then_call (record_usage env tm inp stored r st) (\<lambda>_ st1.
        case engine_now 0 tm of
          Inl err \<Rightarrow> (st1, Inl err)
        | Inr now \<Rightarrow> then_call (store_call st1
              (mark_usage_finalized (ri_project inp) (ex_id r) (Iso now) (es_store st1))) (\<lambda>_ st2. (st2, Inr ()))))"

definition publish_event ::
    "engine_env \<Rightarrow> engine_time \<Rightarrow> reconcile_input \<Rightarrow> recoverable_execution option \<Rightarrow> execution_record \<Rightarrow>
     engine_state \<Rightarrow> engine_state \<times> unit result" where
  "publish_event env tm inp stored r st =
     (case (case ri_event inp of Some i \<Rightarrow> Some i | None \<Rightarrow> Option.bind stored rv_webhook_event_id) of
        None \<Rightarrow> (st, Inr ())
      | Some event \<Rightarrow>
          if Option.bind stored rv_webhook_published_at \<noteq> None then (st, Inr ())
          else then_call (enqueue_terminal env tm (ri_project inp) r event st) (\<lambda>_ st1.
            case engine_now 1 tm of
              Inl err \<Rightarrow> (st1, Inl err)
            | Inr now \<Rightarrow> then_call (store_call st1
                  (mark_webhook_published (ri_project inp) (ex_id r) (Iso now) (es_store st1)))
                (\<lambda>_ st2. (st2, Inr ()))))"

text \<open>\<open>#reconcileTerminalExecutionEffects\<close>\<close>

definition reconcile_terminal ::
    "engine_env \<Rightarrow> engine_time \<Rightarrow> reconcile_input \<Rightarrow> engine_state \<Rightarrow> engine_state \<times> unit result" where
  "reconcile_terminal env tm inp st =
     (let stored = get_recoverable (ri_project inp) (ex_id (ri_record inp)) (es_store st);
          r = settled_record inp stored in
      then_call (finalize_usage env tm inp stored r st) (\<lambda>_ st1. publish_event env tm inp stored r st1))"

definition reconcile_row ::
    "engine_env \<Rightarrow> engine_time \<Rightarrow> recoverable_execution \<Rightarrow> engine_state \<Rightarrow> engine_state \<times> unit result" where
  "reconcile_row env tm rv = reconcile_terminal env tm (reconcile_stored rv)"

subsection \<open>Interrupted work\<close>

text \<open>\<open>Math.max(0, completedAt - Date.parse(startedAt))\<close> for a valid \<open>startedAt\<close>.\<close>

definition latency_ms :: "int \<Rightarrow> timestamp \<Rightarrow> int" where
  "latency_ms done_at started_at = max 0 (done_at - time_ms started_at)"

definition interrupted_record :: "execution_record \<Rightarrow> bool \<Rightarrow> int \<Rightarrow> execution_record" where
  "interrupted_record r begun done_at =
     (let started_at = (if ex_status r = St_Running then or_else (ex_started_at r) (ex_created_at r)
            else ex_created_at r) in
      r\<lparr>ex_replayed := False, ex_started_at := Some started_at, ex_completed_at := Some (Iso done_at),
        ex_outcome := Out_Failed
          \<lparr>te_code = Code_Execution_Interrupted,
           te_message = (if begun
             then ''Execution was interrupted after provider dispatch may have begun. Its external outcome is unknown and it was not replayed automatically.''
             else ''Execution could not be resumed safely after interruption and was not dispatched automatically.''),
           te_retryable = False, te_retry_after = None, te_provider = None\<rparr>
          (latency_ms done_at started_at)\<rparr>)"

definition fail_interrupted ::
    "engine_env \<Rightarrow> engine_time \<Rightarrow> recoverable_execution \<Rightarrow> string \<Rightarrow> bool \<Rightarrow> engine_state \<Rightarrow>
     engine_state \<times> unit result" where
  "fail_interrupted env tm rv event begun st =
     (let p = rv_project rv; e = ex_id (rv_record rv) in
      then_call (store_call st (set_webhook_event_id p e event (es_store st))) (\<lambda>_ st1.
      case engine_now 0 tm of
        Inl err \<Rightarrow> (st1, Inl err)
      | Inr done_at \<Rightarrow>
          (let terminal = interrupted_record (rv_record rv) begun done_at in
           then_call (update_record p terminal st1) (\<lambda>_ st2.
             reconcile_terminal env (after_reads 1 tm)
               ((reconcile_stored rv)\<lparr>ri_record := terminal, ri_event := Some event\<rparr>) st2))))"

definition event_id_of :: "engine_env \<Rightarrow> recoverable_execution \<Rightarrow> string" where
  "event_id_of env rv = or_else (rv_webhook_event_id rv)
     (derive_execution_webhook_event_id env (rv_project rv) (ex_id (rv_record rv)))"

text \<open>\<open>#reconstructResumeContext\<close>\<close>

definition reconstruct_resume_context :: "engine_env \<Rightarrow> recoverable_execution \<Rightarrow> resume_context option" where
  "reconstruct_resume_context env rv =
     (case en_get_tool env (ex_tool (rv_record rv)) of
        None \<Rightarrow> None
      | Some tool \<Rightarrow>
          (case (en_get_manifest env (td_toolkit tool), en_effective_scopes env (ex_tool (rv_record rv))) of
             (Some manifest, Some scopes) \<Rightarrow>
               if td_version tool \<noteq> ex_tool_version (rv_record rv) then None
               else Some \<lparr>rc_tool = td_name tool, rc_tool_version = td_version tool,
                 rc_toolkit_slug = td_toolkit tool, rc_required_scopes = scopes,
                 rc_concurrency_bucket_key = bucket_key_of (rv_project rv) tool,
                 rc_concurrency_limit = mf_max_concurrent manifest, rc_usage_report = None,
                 rc_usage_reservation = None, rc_trace_parent = None\<rparr>
           | _ \<Rightarrow> None))"

end
