(* ===== verification/Engine_Run.thy ===== *)
theory Engine_Run
  imports Engine_State
begin

text \<open>
  \<open>#runAllocated\<close> and \<open>runExecutionJob\<close> of \<open>apps/executor/src/engine.ts\<close>. A run is cut at its three
  \<open>await\<close>s on other parties: the permit, the credential provider, the adapter. Between two of them it is one
  step. The two nested \<open>try\<close> statements are \<open>inner_catch\<close> and \<open>outer_catch\<close>; \<open>run_end\<close> is the \<open>finally\<close>
  and what the caller does next.
\<close>

subsection \<open>Answers\<close>

definition reply :: "nat \<Rightarrow> engine_error + execute_outcome \<Rightarrow> engine_state \<Rightarrow> engine_state" where
  "reply c r st = st\<lparr>es_calls := js_delete c (es_calls st), es_replies := es_replies st @ [(c, r)]\<rparr>"

definition answer_job :: "string \<Rightarrow> string \<Rightarrow> job_handler_result option \<Rightarrow> engine_state \<Rightarrow> engine_state" where
  "answer_job p e a st = st\<lparr>es_answers := es_answers st @ [(p, e, a)]\<rparr>"

text \<open>One second after \<open>context.now()\<close>; \<^term>\<open>None\<close> when the sum is no date and the handler rejects.\<close>

definition reschedule :: "engine_time \<Rightarrow> nat \<Rightarrow> job_handler_result option" where
  "reschedule tm k = (case date_parse (tm_job tm k) of
     None \<Rightarrow> None
   | Some now \<Rightarrow> (case iso_string (now + 1000) of Inl e \<Rightarrow> None | Inr t \<Rightarrow> Some (Handler_Reschedule t)))"

text \<open>The same inside of the \<open>try\<close> of the handler, whose \<open>catch\<close> tries once more.\<close>

definition reschedule_inside :: "engine_time \<Rightarrow> job_handler_result option" where
  "reschedule_inside tm = (case reschedule tm 0 of Some a \<Rightarrow> Some a | None \<Rightarrow> reschedule tm 1)"

definition terminal_answer :: "execution_record \<Rightarrow> job_handler_result" where
  "terminal_answer r = (if ex_status r = St_Cancelled then Handler_Cancelled else Handler_Complete)"

subsection \<open>The end of a run\<close>

definition job_end ::
    "engine_env \<Rightarrow> engine_time \<Rightarrow> string \<Rightarrow> string \<Rightarrow> thrown + unit \<Rightarrow> engine_state \<Rightarrow> engine_state" where
  "job_end env tm p e res st =
     (case res of
        Inr () \<Rightarrow>
          answer_job p e (Some (case get_execution p e (es_store st) of
            Some r \<Rightarrow> terminal_answer r | None \<Rightarrow> Handler_Complete)) st
      | Inl err \<Rightarrow>
          (case get_recoverable p e (es_store st) of
             Some latest \<Rightarrow>
               if terminal_status (ex_status (rv_record latest))
               then (case reconcile_row env tm latest st of
                   (st1, Inl e1) \<Rightarrow> answer_job p e (reschedule tm 0) st1
                 | (st1, Inr ()) \<Rightarrow> answer_job p e (Some (terminal_answer (rv_record latest))) st1)
               else answer_job p e (reschedule_inside tm) st
           | None \<Rightarrow> answer_job p e (reschedule_inside tm) st))"

definition call_end :: "nat \<Rightarrow> string \<Rightarrow> string \<Rightarrow> thrown + unit \<Rightarrow> engine_state \<Rightarrow> engine_state" where
  "call_end c p e res st =
     (case res of
        Inl err \<Rightarrow> reply c (Inl (Thrown err)) st
      | Inr () \<Rightarrow>
          (case get_execution p e (es_store st) of
             None \<Rightarrow> reply c (Inl (internal (Plain_Error
               ''Allocated execution disappeared from the execution store.''))) st
           | Some r \<Rightarrow> reply c (Inr \<lparr>xo_status_code = 200, xo_response = execute_response_of r,
               xo_replayed = False\<rparr>) st))"

definition run_id :: "engine_run \<Rightarrow> string" where
  "run_id run = ex_id (er_record run)"

definition run_end ::
    "engine_env \<Rightarrow> engine_time \<Rightarrow> nat \<Rightarrow> engine_run \<Rightarrow> thrown + unit \<Rightarrow> engine_state \<Rightarrow> engine_state" where
  "run_end env tm i run res st =
     (let st1 = release_permit (er_permit run) st;
          st2 = st1\<lparr>es_runs := js_delete i (es_runs st1)\<rparr> in
      case er_owner run of
        For_Job \<Rightarrow> job_end env tm (er_project run) (run_id run) res st2
      | For_Call c \<Rightarrow> call_end c (er_project run) (run_id run) res st2)"

subsection \<open>Records of a run\<close>

definition running_record :: "engine_run \<Rightarrow> execution_record" where
  "running_record run = (er_record run)\<lparr>ex_started_at := Some (Iso (er_started_at run)),
     ex_completed_at := None, ex_replayed := False, ex_outcome := Out_Running\<rparr>"

definition failed_run_record :: "engine_run \<Rightarrow> normalized_tool_error \<Rightarrow> int \<Rightarrow> execution_record" where
  "failed_run_record run err done_at = (running_record run)\<lparr>ex_completed_at := Some (Iso done_at),
     ex_outcome := Out_Failed err (max 0 (done_at - er_started_at run))\<rparr>"

definition succeeded_run_record :: "engine_run \<Rightarrow> json \<Rightarrow> int \<Rightarrow> execution_record" where
  "succeeded_run_record run output done_at = (running_record run)\<lparr>ex_completed_at := Some (Iso done_at),
     ex_outcome := Out_Succeeded output (max 0 (done_at - er_started_at run))\<rparr>"

definition run_input :: "engine_run \<Rightarrow> execution_record \<Rightarrow> reconcile_input" where
  "run_input run terminal = \<lparr>ri_project = er_project run, ri_record = terminal, ri_report = er_report run,
     ri_reservation = er_reservation run, ri_event = er_event run\<rparr>"

subsection \<open>The two catches\<close>

text \<open>\<open>attempted\<close> and \<open>finalized\<close> are \<open>dispatchAttempted\<close> and \<open>usageFinalized\<close>; \<open>dispatchFenced\<close> holds of \<^term>\<open>Th_Fenced\<close>.\<close>

definition rethrow ::
    "engine_env \<Rightarrow> engine_time \<Rightarrow> nat \<Rightarrow> engine_run \<Rightarrow> thrown \<Rightarrow> bool \<Rightarrow> bool \<Rightarrow> engine_state \<Rightarrow> engine_state" where
  "rethrow env tm i run err attempted finalized st =
     (if \<not> attempted \<and> err \<noteq> Th_Fenced \<and> \<not> finalized
      then (case release_reservation env (er_reservation run) (tm_gate tm 0) st of
          (st1, Inl e) \<Rightarrow> run_end env (after_reads 3 tm) i run (Inl (Th_Js e)) st1
        | (st1, Inr ()) \<Rightarrow> run_end env (after_reads 3 tm) i run (Inl err) st1)
      else run_end env (after_reads 3 tm) i run (Inl err) st)"

definition outer_catch ::
    "engine_env \<Rightarrow> engine_time \<Rightarrow> nat \<Rightarrow> engine_run \<Rightarrow> thrown \<Rightarrow> bool \<Rightarrow> bool \<Rightarrow> engine_state \<Rightarrow> engine_state" where
  "outer_catch env tm i run err attempted finalized st =
     (case (if is_transition_conflict err \<or> err = Th_Fenced \<or> er_aborted run
            then get_recoverable (er_project run) (run_id run) (es_store st) else None) of
        Some winner \<Rightarrow>
          if ex_status (rv_record winner) = St_Cancelled
          then (case reconcile_row env tm winner st of
              (st1, Inl e) \<Rightarrow> run_end env (after_reads 3 tm) i run (Inl (Th_Js e)) st1
            | (st1, Inr ()) \<Rightarrow> run_end env (after_reads 3 tm) i run (Inr ()) st1)
          else rethrow env tm i run err attempted finalized st
      | None \<Rightarrow> rethrow env tm i run err attempted finalized st)"

definition inner_catch ::
    "engine_env \<Rightarrow> engine_time \<Rightarrow> nat \<Rightarrow> engine_run \<Rightarrow> thrown \<Rightarrow> bool \<Rightarrow> engine_state \<Rightarrow> engine_state" where
  "inner_catch env tm i run err attempted st =
     (if err = Th_Fenced then outer_catch env (after_reads 4 tm) i run err attempted False st
      else case engine_now 0 tm of
        Inl e \<Rightarrow> outer_catch env (after_reads 4 tm) i run (Th_Js e) attempted False st
      | Inr done_at \<Rightarrow>
          (let terminal = failed_run_record run (normalized_error err) done_at in
           case update_record (er_project run) terminal st of
             (st1, Inl e) \<Rightarrow> outer_catch env (after_reads 4 tm) i run (Th_Js e) attempted False st1
           | (st1, Inr ()) \<Rightarrow>
               (case reconcile_terminal env (after_reads 1 tm) (run_input run terminal) st1 of
                  (st2, Inl e) \<Rightarrow> outer_catch env (after_reads 4 tm) i run (Th_Js e) attempted False st2
                | (st2, Inr ()) \<Rightarrow>
                    if err = Th_Unexpected_Credential
                    then outer_catch env (after_reads 4 tm) i run err attempted True st2
                    else run_end env (after_reads 7 tm) i run (Inr ()) st2)))"

subsection \<open>The steps of a run\<close>

text \<open>\<open>startedAt\<close>, from the record when the execution is already running.\<close>

definition run_start :: "engine_time \<Rightarrow> engine_run \<Rightarrow> int result" where
  "run_start tm run =
     (if ex_status (er_record run) = St_Running
      then (case date_parse (or_else (ex_started_at (er_record run)) (ex_created_at (er_record run))) of
          None \<Rightarrow> Inl invalid_time_value | Some ms \<Rightarrow> Inr ms)
      else engine_now 0 tm)"

definition mark_running :: "engine_run \<Rightarrow> engine_state \<Rightarrow> engine_state \<times> unit result" where
  "mark_running run st =
     (if ex_status (er_record run) = St_Pending
      then update_record (er_project run) (running_record run) st else (st, Inr ()))"

definition put_run :: "nat \<Rightarrow> engine_run \<Rightarrow> engine_state \<Rightarrow> engine_state" where
  "put_run i run st = st\<lparr>es_runs := js_set i run (es_runs st)\<rparr>"

definition run_permitted :: "engine_env \<Rightarrow> engine_time \<Rightarrow> nat \<Rightarrow> engine_run \<Rightarrow> engine_state \<Rightarrow> engine_state" where
  "run_permitted env tm i run0 st =
     (if er_aborted run0 then outer_catch env (after_reads 1 tm) i run0 Th_Aborted False False st
      else case run_start tm run0 of
        Inl e \<Rightarrow> outer_catch env (after_reads 1 tm) i run0 (Th_Js e) False False st
      | Inr started \<Rightarrow>
          (let run = run0\<lparr>er_started_at := started\<rparr> in
           case mark_running run st of
             (st1, Inl e) \<Rightarrow> outer_catch env (after_reads 1 tm) i run (Th_Js e) False False st1
           | (st1, Inr ()) \<Rightarrow>
               (case require_adapter env (td_toolkit (er_tool run)) of
                  Inl err \<Rightarrow> inner_catch env (after_reads 1 tm) i run err False st1
                | Inr () \<Rightarrow> put_run i (run\<lparr>er_phase := Ph_Credentials\<rparr>) st1)))"

text \<open>The start: register the run and get a permit, the reserved one of a synchronous call or a new one.\<close>

definition run_begin ::
    "engine_env \<Rightarrow> engine_time \<Rightarrow> nat \<Rightarrow> engine_run \<Rightarrow> nat option \<Rightarrow> engine_state \<Rightarrow> engine_state" where
  "run_begin env tm i run reserved st =
     (case reserved of
        Some p \<Rightarrow> run_permitted env tm i (run\<lparr>er_permit := Some p\<rparr>) st
      | None \<Rightarrow>
          (case er_limit run of
             None \<Rightarrow> run_permitted env tm i (run\<lparr>er_permit := None\<rparr>) st
           | Some n \<Rightarrow>
               (case acquire (er_bucket run) n (es_limiter st) of
                  Inl e \<Rightarrow> outer_catch env (after_reads 1 tm) i (run\<lparr>er_permit := None\<rparr>) (Th_Js e) False False st
                | Inr (limiter, w) \<Rightarrow>
                    (case cl_promises limiter ! w of
                       Some p \<Rightarrow> run_permitted env tm i (run\<lparr>er_permit := Some p\<rparr>) (st\<lparr>es_limiter := limiter\<rparr>)
                     | None \<Rightarrow> put_run i (run\<lparr>er_permit := None, er_phase := Ph_Permit w\<rparr>)
                         (st\<lparr>es_limiter := limiter\<rparr>)))))"

text \<open>The promise of the permit is resolved.\<close>

definition step_permit :: "engine_env \<Rightarrow> engine_time \<Rightarrow> nat \<Rightarrow> engine_state \<Rightarrow> engine_state" where
  "step_permit env tm i st =
     (case map_of (es_runs st) i of
        None \<Rightarrow> st
      | Some run \<Rightarrow>
          (case er_phase run of
             Ph_Permit w \<Rightarrow>
               (case cl_promises (es_limiter st) ! w of
                  None \<Rightarrow> st
                | Some p \<Rightarrow> run_permitted env tm i (run\<lparr>er_permit := Some p\<rparr>) st)
           | _ \<Rightarrow> st))"

definition credential_failure :: "thrown \<Rightarrow> thrown" where
  "credential_failure err = (case err of
     Th_Eyeball e \<Rightarrow> err | Th_Credential c m r a \<Rightarrow> err | _ \<Rightarrow> Th_Unexpected_Credential)"

text \<open>From the validated credential to the call of the adapter.\<close>

definition dispatch ::
    "engine_env \<Rightarrow> engine_time \<Rightarrow> nat \<Rightarrow> engine_run \<Rightarrow> resolved_credential \<Rightarrow> int \<Rightarrow> engine_state \<Rightarrow> engine_state" where
  "dispatch env tm i run credential checked_at st =
     (if er_aborted run then inner_catch env (after_reads 2 tm) i run Th_Aborted False st
      else case engine_now 1 tm of
        Inl e \<Rightarrow> inner_catch env (after_reads 2 tm) i run (Th_Js e) False st
      | Inr now \<Rightarrow>
          (case mark_dispatch_started (er_project run) (run_id run) (Iso now) (es_store st) of
             Inl e \<Rightarrow> inner_catch env (after_reads 2 tm) i run (Th_Js e) False st
           | Inr (es, marked) \<Rightarrow>
               if \<not> marked then inner_catch env (after_reads 2 tm) i run Th_Fenced False (st\<lparr>es_store := es\<rparr>)
               else case resolve_base_url env (er_manifest run) of
                 Inl err \<Rightarrow> inner_catch env (after_reads 2 tm) i run err True (st\<lparr>es_store := es\<rparr>)
               | Inr url \<Rightarrow> put_run i (run\<lparr>er_phase := Ph_Dispatched\<rparr>)
                   (st\<lparr>es_store := es, es_dispatches := es_dispatches st @
                      [\<lparr>dp_project = er_project run, dp_execution = run_id run, dp_tool = er_tool run,
                        dp_request = er_request run, dp_scopes = er_scopes run, dp_manifest = er_manifest run,
                        dp_credential = credential, dp_base_url = url, dp_checked_at = checked_at\<rparr>]\<rparr>)))"

definition run_credentials ::
    "engine_env \<Rightarrow> engine_time \<Rightarrow> nat \<Rightarrow> engine_run \<Rightarrow> thrown + resolved_credential \<Rightarrow> engine_state \<Rightarrow> engine_state" where
  "run_credentials env tm i run outcome st =
     (case outcome of
        Inl err \<Rightarrow> inner_catch env (after_reads 2 tm) i run (credential_failure err) False st
      | Inr credential \<Rightarrow>
          (case set_resolved_connection (er_project run) (run_id run) (cd_connection credential) (es_store st) of
             Inl e \<Rightarrow> inner_catch env (after_reads 2 tm) i run (Th_Js e) False st
           | Inr es \<Rightarrow>
               (let st1 = st\<lparr>es_store := es\<rparr> in
                case engine_now 0 tm of
                  Inl e \<Rightarrow> inner_catch env (after_reads 2 tm) i run (Th_Js e) False st1
                | Inr now \<Rightarrow>
                    (case validate_credential credential (er_request run) (er_manifest run) (er_scopes run) now of
                       Inl err \<Rightarrow> inner_catch env (after_reads 2 tm) i run err False st1
                     | Inr () \<Rightarrow> dispatch env tm i run credential now st1))))"

definition step_credentials ::
    "engine_env \<Rightarrow> engine_time \<Rightarrow> nat \<Rightarrow> thrown + resolved_credential \<Rightarrow> engine_state \<Rightarrow> engine_state" where
  "step_credentials env tm i outcome st =
     (case map_of (es_runs st) i of
        None \<Rightarrow> st
      | Some run \<Rightarrow> if er_phase run = Ph_Credentials then run_credentials env tm i run outcome st else st)"

definition run_adapter ::
    "engine_env \<Rightarrow> engine_time \<Rightarrow> nat \<Rightarrow> engine_run \<Rightarrow> thrown + json \<Rightarrow> engine_state \<Rightarrow> engine_state" where
  "run_adapter env tm i run outcome st =
     (case bind_engine outcome (validate_tool_output env (er_tool run)) of
        Inl err \<Rightarrow> inner_catch env (after_reads 1 tm) i run err True st
      | Inr output \<Rightarrow>
          (case engine_now 0 tm of
             Inl e \<Rightarrow> inner_catch env (after_reads 1 tm) i run (Th_Js e) True st
           | Inr done_at \<Rightarrow>
               (let terminal = succeeded_run_record run output done_at in
                case update_record (er_project run) terminal st of
                  (st1, Inl e) \<Rightarrow> inner_catch env (after_reads 1 tm) i run (Th_Js e) True st1
                | (st1, Inr ()) \<Rightarrow>
                    (case reconcile_terminal env (after_reads 1 tm) (run_input run terminal) st1 of
                       (st2, Inl e) \<Rightarrow> outer_catch env (after_reads 4 tm) i run (Th_Js e) True False st2
                     | (st2, Inr ()) \<Rightarrow> run_end env (after_reads 4 tm) i run (Inr ()) st2))))"

definition step_adapter ::
    "engine_env \<Rightarrow> engine_time \<Rightarrow> nat \<Rightarrow> thrown + json \<Rightarrow> engine_state \<Rightarrow> engine_state" where
  "step_adapter env tm i outcome st =
     (case map_of (es_runs st) i of
        None \<Rightarrow> st
      | Some run \<Rightarrow> if er_phase run = Ph_Dispatched then run_adapter env tm i run outcome st else st)"

subsection \<open>Execution jobs\<close>

definition job_interrupted ::
    "engine_env \<Rightarrow> engine_time \<Rightarrow> recoverable_execution \<Rightarrow> bool \<Rightarrow> engine_state \<Rightarrow> engine_state" where
  "job_interrupted env tm rv begun st =
     (case fail_interrupted env tm rv (event_id_of env rv) begun st of
        (st1, Inl e) \<Rightarrow> answer_job (rv_project rv) (ex_id (rv_record rv)) (reschedule tm 0) st1
      | (st1, Inr ()) \<Rightarrow> answer_job (rv_project rv) (ex_id (rv_record rv)) (Some Handler_Complete) st1)"

definition job_run :: "recoverable_execution \<Rightarrow> resume_context \<Rightarrow> tool_definition \<Rightarrow> provider_manifest \<Rightarrow> engine_run" where
  "job_run rv resume tool manifest =
     \<lparr>er_project = rv_project rv, er_record = rv_record rv, er_request = rv_request rv, er_tool = tool,
      er_manifest = manifest, er_scopes = rc_required_scopes resume, er_bucket = rc_concurrency_bucket_key resume,
      er_limit = rc_concurrency_limit resume, er_report = rc_usage_report resume,
      er_reservation = rc_usage_reservation resume, er_event = rv_webhook_event_id rv, er_permit = None,
      er_started_at = 0, er_aborted = False, er_phase = Ph_Credentials, er_owner = For_Job\<rparr>"

text \<open>
  From the second reading of the row on. A resume context has version 1 by its type, so the test of the
  version is always passed.
\<close>

definition job_continue ::
    "engine_env \<Rightarrow> engine_time \<Rightarrow> bool \<Rightarrow> recoverable_execution \<Rightarrow> engine_state \<Rightarrow> engine_state" where
  "job_continue env tm aborted rv st =
     (let p = rv_project rv; r = rv_record rv; e = ex_id r in
      if ex_status r = St_Running \<and> rv_dispatch_started_at rv \<noteq> None
      then job_interrupted env tm rv True st
      else if aborted then answer_job p e (reschedule_inside tm) st
      else case rv_resume_context rv of
        None \<Rightarrow> answer_job p e (Some (Handler_Fail Invalid_Job_Version)) st
      | Some resume \<Rightarrow>
          (case (en_get_tool env (rc_tool resume), en_get_manifest env (rc_toolkit_slug resume)) of
             (Some tool, Some manifest) \<Rightarrow>
               if td_version tool \<noteq> rc_tool_version resume \<or> td_toolkit tool \<noteq> rc_toolkit_slug resume \<or>
                  ex_tool_version r \<noteq> rc_tool_version resume
               then job_interrupted env tm rv False st
               else if ex_status r \<noteq> St_Pending \<and> ex_status r \<noteq> St_Running
               then answer_job p e (Some Handler_Complete) st
               else run_begin env tm (es_next st) (job_run rv resume tool manifest) None
                 (st\<lparr>es_next := Suc (es_next st)\<rparr>)
           | _ \<Rightarrow> job_interrupted env tm rv False st))"

definition run_execution_job ::
    "engine_env \<Rightarrow> engine_time \<Rightarrow> bool \<Rightarrow> string \<Rightarrow> string \<Rightarrow> engine_state \<Rightarrow> engine_state" where
  "run_execution_job env tm aborted p e st =
     (if \<not> is_execution_id e then answer_job p e (Some Handler_Complete) st
      else case get_recoverable p e (es_store st) of
        None \<Rightarrow> answer_job p e (Some Handler_Complete) st
      | Some rv \<Rightarrow>
          if terminal_status (ex_status (rv_record rv))
          then (case reconcile_row env tm rv st of
              (st1, Inl err) \<Rightarrow> answer_job p e (reschedule tm 0) st1
            | (st1, Inr ()) \<Rightarrow> answer_job p e (Some (terminal_answer (rv_record rv))) st1)
          else if rv_resume_context rv \<noteq> None then job_continue env tm aborted rv st
          else if ex_status (rv_record rv) = St_Running then job_interrupted env tm rv True st
          else case (reconstruct_resume_context env rv, en_usage_enabled env) of
            (Some resume, False) \<Rightarrow>
              (case set_resume_context p e \<lparr>ra_resume_context = resume, ra_webhook_event_id = event_id_of env rv\<rparr>
                  (es_store st) of
                 Inl err \<Rightarrow> answer_job p e (reschedule tm 0) st
               | Inr (es, _) \<Rightarrow>
                   job_continue env tm aborted (or_else (get_recoverable p e es) rv) (st\<lparr>es_store := es\<rparr>))
          | _ \<Rightarrow> job_interrupted env tm rv False st)"

subsection \<open>Cancellation and abort signals\<close>

definition abort_runs :: "string \<Rightarrow> string \<Rightarrow> engine_state \<Rightarrow> engine_state" where
  "abort_runs p e st = st\<lparr>es_runs := map (\<lambda>(i, run).
     (i, if er_project run = p \<and> run_id run = e then run\<lparr>er_aborted := True\<rparr> else run)) (es_runs st)\<rparr>"

text \<open>The signal of a job, when its worker loses the lease or stops.\<close>

definition abort_job :: "nat \<Rightarrow> engine_state \<Rightarrow> engine_state" where
  "abort_job i st = (case map_of (es_runs st) i of
     None \<Rightarrow> st
   | Some run \<Rightarrow> if er_owner run = For_Job then put_run i (run\<lparr>er_aborted := True\<rparr>) st else st)"

definition cancel_job :: "engine_env \<Rightarrow> engine_time \<Rightarrow> string \<Rightarrow> string \<Rightarrow> engine_state \<Rightarrow> engine_state \<times> unit result" where
  "cancel_job env tm p e st =
     (let job = Execution_Run p e; dv = es_deliverer st; sys = dv_system dv in
      case engine_now 0 tm of
        Inl err \<Rightarrow> (st, Inl err)
      | Inr now \<Rightarrow>
          (case cancel_pending (executor_job_id (dc_digest (en_deliverer env)) job) job (Iso now) (sys_jobs sys) of
             Inl err \<Rightarrow> (st, Inl err)
           | Inr (js, r) \<Rightarrow> (st\<lparr>es_deliverer := dv\<lparr>dv_system := sys\<lparr>sys_jobs := js\<rparr>\<rparr>\<rparr>,
               if r = Cancel_Conflict
               then Inl (Plain_Error ''Execution cancellation found a conflicting deterministic queue job.'')
               else Inr ())))"

definition after_cancellation ::
    "engine_env \<Rightarrow> engine_time \<Rightarrow> string \<Rightarrow> execution_record \<Rightarrow> engine_state \<Rightarrow>
     engine_state \<times> (engine_error + execution_record)" where
  "after_cancellation env tm p r st =
     (case then_call (reconcile_terminal env tm \<lparr>ri_project = p, ri_record = r, ri_report = None,
             ri_reservation = None, ri_event = None\<rparr> (abort_runs p (ex_id r) st))
           (\<lambda>_ st1. cancel_job env (after_reads 3 tm) p (ex_id r) st1) of
        (st1, Inl err) \<Rightarrow> (st1, Inl (internal err))
      | (st1, Inr ()) \<Rightarrow> (st1, Inr r))"

definition status_conflict :: "execution_record \<Rightarrow> engine_error" where
  "status_conflict r = conflicting_request
     (''Execution is already in terminal status '' @ [CHR 39] @ status_text (ex_status r) @ [CHR 39] @ ''.'')"

definition cancel_engine ::
    "engine_env \<Rightarrow> engine_time \<Rightarrow> string \<Rightarrow> string \<Rightarrow> engine_state \<Rightarrow>
     engine_state \<times> (engine_error + execution_record)" where
  "cancel_engine env tm p e st =
     (if \<not> is_execution_id e then (st, Inl (not_found ''Execution was not found.''))
      else case engine_now 0 tm of
        Inl err \<Rightarrow> (st, Inl (internal err))
      | Inr now \<Rightarrow>
          (case cancel_execution p e (Iso now) (es_store st) of
             Inl err \<Rightarrow> (st, Inl (internal err))
           | Inr (es, ss, res) \<Rightarrow>
               (let st1 = settle p ss (st\<lparr>es_store := es\<rparr>) in
                case res of
                  Cancel_Not_Found \<Rightarrow> (st1, Inl (not_found ''Execution was not found.''))
                | Already_Terminal r \<Rightarrow> (st1, Inl (status_conflict r))
                | Cancelled_Now r \<Rightarrow> after_cancellation env (after_reads 1 tm) p r st1
                | Already_Cancelled r \<Rightarrow> after_cancellation env (after_reads 1 tm) p r st1)))"

end
