(* ===== verification/Engine_Calls.thy ===== *)
theory Engine_Calls
  imports Engine_Run
begin

text \<open>
  \<open>execute\<close> of \<open>apps/executor/src/engine.ts\<close>: admission of a command by idempotency key, concurrency limit
  and usage service, its allocation, and then a synchronous run, a job, or the replay of an earlier
  execution. A call is cut where it waits for the usage service, for its run, or for the end of the
  execution that it replays. The last section has the histories of an engine: every step of every call,
  run and job, cancellations, abort signals and restarts of the process.
\<close>

subsection \<open>Preparation\<close>

text \<open>The \<open>finally\<close> of a call that ends before its run.\<close>

definition finish_call ::
    "nat \<Rightarrow> nat option \<Rightarrow> engine_error + execute_outcome \<Rightarrow> engine_state \<Rightarrow> engine_state" where
  "finish_call c permit r st = reply c r (release_permit permit st)"

definition concurrency_rejection :: "tool_definition \<Rightarrow> int \<Rightarrow> int \<Rightarrow> engine_error" where
  "concurrency_rejection tool limit now = Request_Error 429
     \<lparr>te_code = Code_Rate_Limited,
      te_message = ''The '' @ td_toolkit tool @ '' concurrency limit is currently full.'',
      te_retryable = True, te_retry_after = Some 1, te_provider = None\<rparr>
     (Some \<lparr>rm_limit = limit, rm_remaining = 0, rm_reset_at = now + 1 * 1000\<rparr>)"

definition take_permit ::
    "engine_time \<Rightarrow> string \<Rightarrow> validated_request \<Rightarrow> engine_state \<Rightarrow>
     engine_state \<times> (engine_error + nat option)" where
  "take_permit tm project v st =
     (case (rq_mode (vq_request v), mf_max_concurrent (vq_manifest v)) of
        (Mode_Sync, Some limit) \<Rightarrow>
          (case try_acquire (bucket_key_of project (vq_tool v)) limit (es_limiter st) of
             Inl err \<Rightarrow> (st, Inl (internal err))
           | Inr (limiter, Some p) \<Rightarrow> (st\<lparr>es_limiter := limiter\<rparr>, Inr (Some p))
           | Inr (limiter, None) \<Rightarrow> (st\<lparr>es_limiter := limiter\<rparr>,
               case engine_now 0 tm of
                 Inl err \<Rightarrow> Inl (internal err)
               | Inr now \<Rightarrow> Inl (concurrency_rejection (vq_tool v) limit now)))
      | _ \<Rightarrow> (st, Inr None))"

definition pending_record ::
    "engine_env \<Rightarrow> engine_time \<Rightarrow> execute_command \<Rightarrow> validated_request \<Rightarrow> timestamp \<Rightarrow> execution_record" where
  "pending_record env tm command v created_at =
     \<lparr>ex_id = or_else (cm_execution command) (tm_execution_id tm), ex_tool = td_name (vq_tool v),
      ex_tool_version = td_version (vq_tool v), ex_catalog_version = en_catalog_version env,
      ex_user = rq_user (vq_request v), ex_created_at = created_at, ex_started_at = None,
      ex_completed_at = None, ex_replayed = False, ex_source = cm_source command,
      ex_attachments = execution_attachment_summary (vq_tool v) (rq_input (vq_request v)),
      ex_outcome = Out_Pending\<rparr>"

definition prepare_execution ::
    "engine_env \<Rightarrow> engine_time \<Rightarrow> execute_command \<Rightarrow> validated_request \<Rightarrow> nat option \<Rightarrow>
     engine_error + prepared_execution" where
  "prepare_execution env tm command v permit =
     bind_engine (engine_result (engine_now 1 tm)) (\<lambda>created_at.
     bind_engine (case cm_idempotency_key command of
         None \<Rightarrow> Inr None
       | Some key \<Rightarrow> (case idempotency_reservation_of env (vq_request v) key created_at of
           Inl err \<Rightarrow> Inl (internal err) | Inr r \<Rightarrow> Inr (Some r))) (\<lambda>idem.
       Inr \<lparr>pp_command = command, pp_valid = v, pp_permit = permit,
         pp_pending = pending_record env tm command v (Iso created_at), pp_idempotency = idem\<rparr>))"

definition allocation_of :: "prepared_execution \<Rightarrow> recovery_allocation option \<Rightarrow> execution_allocation" where
  "allocation_of pp recovery = \<lparr>al_project = cm_project (pp_command pp), al_record = pp_pending pp,
     al_request = vq_request (pp_valid pp), al_idempotency = pp_idempotency pp, al_recovery = recovery\<rparr>"

definition resume_context_of ::
    "prepared_execution \<Rightarrow> usage_report_context option \<Rightarrow> usage_reservation_handle option \<Rightarrow> resume_context" where
  "resume_context_of pp report reservation =
     (let tool = vq_tool (pp_valid pp) in
      \<lparr>rc_tool = td_name tool, rc_tool_version = td_version tool, rc_toolkit_slug = td_toolkit tool,
       rc_required_scopes = vq_scopes (pp_valid pp),
       rc_concurrency_bucket_key = bucket_key_of (cm_project (pp_command pp)) tool,
       rc_concurrency_limit = mf_max_concurrent (vq_manifest (pp_valid pp)),
       rc_usage_report = report, rc_usage_reservation = reservation, rc_trace_parent = None\<rparr>)"

definition reservation_context_of :: "engine_env \<Rightarrow> prepared_execution \<Rightarrow> usage_reservation_context" where
  "reservation_context_of env pp =
     (let command = pp_command pp; e = ex_id (pp_pending pp) in
      \<lparr>uc_project = cm_project command, uc_execution = e,
       uc_cloud_execution = (if cm_idempotency_key command = None \<or> cm_execution command \<noteq> None
         then Some e else None),
       uc_idempotency_key = derive_usage_idempotency_key env (cm_project command) e
         (vq_request (pp_valid pp)) (cm_idempotency_key command),
       uc_requested_at = ex_created_at (pp_pending pp)\<rparr>)"

subsection \<open>After the allocation\<close>

definition sync_run ::
    "nat \<Rightarrow> prepared_execution \<Rightarrow> usage_report_context option \<Rightarrow> usage_reservation_handle option \<Rightarrow> string \<Rightarrow>
     execution_record \<Rightarrow> engine_run" where
  "sync_run c pp report reservation event r =
     (let v = pp_valid pp in
      \<lparr>er_project = cm_project (pp_command pp), er_record = r, er_request = vq_request v, er_tool = vq_tool v,
       er_manifest = vq_manifest v, er_scopes = vq_scopes v,
       er_bucket = bucket_key_of (cm_project (pp_command pp)) (vq_tool v),
       er_limit = mf_max_concurrent (vq_manifest v), er_report = report, er_reservation = reservation,
       er_event = Some event, er_permit = None, er_started_at = 0, er_aborted = False,
       er_phase = Ph_Credentials, er_owner = For_Call c\<rparr>)"

text \<open>A new execution: a job for the asynchronous mode, a run for the synchronous one.\<close>

definition start_execution ::
    "engine_env \<Rightarrow> engine_time \<Rightarrow> nat \<Rightarrow> prepared_execution \<Rightarrow> usage_report_context option \<Rightarrow>
     usage_reservation_handle option \<Rightarrow> string \<Rightarrow> execution_record \<Rightarrow> engine_state \<Rightarrow> engine_state" where
  "start_execution env tm c pp report reservation event r st =
     (case rq_mode (vq_request (pp_valid pp)) of
        Mode_Async \<Rightarrow>
          (case submit_execution_job env tm (cm_project (pp_command pp)) (ex_id r) st of
             (st1, Inl err) \<Rightarrow> finish_call c (pp_permit pp) (Inl (internal err)) st1
           | (st1, Inr ()) \<Rightarrow> finish_call c (pp_permit pp) (Inr \<lparr>xo_status_code = 202,
               xo_response = execute_response_of r, xo_replayed = False\<rparr>) st1)
      | Mode_Sync \<Rightarrow>
          (let i = es_next st in
           run_begin env tm i (sync_run c pp report reservation event r) (pp_permit pp)
             (st\<lparr>es_next := Suc i, es_calls := js_set c (Call_Running i) (es_calls st)\<rparr>)))"

text \<open>The record of a replay is at hand: reconcile it when terminal, make sure of its job, and reply.\<close>

definition finish_replay ::
    "engine_env \<Rightarrow> engine_time \<Rightarrow> nat \<Rightarrow> string \<Rightarrow> execution_mode \<Rightarrow> execution_record \<Rightarrow> engine_state \<Rightarrow> engine_state"
where
  "finish_replay env tm c p mode r st =
     (case (if terminal_status (ex_status r)
            then (case get_recoverable p (ex_id r) (es_store st) of
                None \<Rightarrow> (st, Inr ())
              | Some rv \<Rightarrow> reconcile_terminal env tm ((reconcile_stored rv)\<lparr>ri_record :=
                  (if terminal_status (ex_status (rv_record rv)) then rv_record rv else r)\<rparr>) st)
            else if mode = Mode_Async then submit_execution_job env tm p (ex_id r) st
            else (st, Inr ())) of
        (st1, Inl err) \<Rightarrow> reply c (Inl (internal err)) st1
      | (st1, Inr ()) \<Rightarrow> reply c (Inr (outcome_of r True)) st1)"

definition replay_execution ::
    "engine_env \<Rightarrow> engine_time \<Rightarrow> nat \<Rightarrow> execute_command \<Rightarrow> execution_mode \<Rightarrow> execution_record \<Rightarrow>
     engine_state \<Rightarrow> engine_state" where
  "replay_execution env tm c command mode r st =
     (if (case cm_execution command of None \<Rightarrow> False | Some e \<Rightarrow> ex_id r \<noteq> e)
      then reply c (Inl (conflicting_request
        ''Reserved execution ID does not match the existing idempotent execution.'')) st
      else case engine_now 0 tm of
        Inl err \<Rightarrow> reply c (Inl (internal err)) st
      | Inr now \<Rightarrow>
          (case mark_replayed (cm_project command) (ex_id r) (Iso now) (es_store st) of
             Inl err \<Rightarrow> reply c (Inl (internal err)) st
           | Inr (es, marked) \<Rightarrow>
               (let st1 = st\<lparr>es_store := es\<rparr> in
                if \<not> marked then reply c (Inl (internal (Plain_Error
                  ''Idempotent replay execution disappeared before provenance was persisted.''))) st1
                else if mode = Mode_Sync \<and> \<not> terminal_status (ex_status r)
                then (let w = es_next st1 in
                  case wait_for_terminal (cm_project command) (ex_id r) w es of
                    Inl err \<Rightarrow> reply c (Inl (internal err)) st1
                  | Inr (es1, ss) \<Rightarrow> (settle (cm_project command) ss st1)\<lparr>es_store := es1, es_next := Suc w,
                      es_calls := js_set c (Call_Waiting w command mode) (es_calls st1)\<rparr>)
                else finish_replay env (after_reads 1 tm) c (cm_project command) mode r st1)))"

text \<open>The promise of \<open>waitForTerminal\<close> is resolved.\<close>

definition step_waited :: "engine_env \<Rightarrow> engine_time \<Rightarrow> nat \<Rightarrow> engine_state \<Rightarrow> engine_state" where
  "step_waited env tm c st =
     (case map_of (es_calls st) c of
        Some (Call_Waiting w command mode) \<Rightarrow>
          (case map_of (es_settled st) (cm_project command, w) of
             None \<Rightarrow> st
           | Some r \<Rightarrow> finish_replay env tm c (cm_project command) mode r st)
      | _ \<Rightarrow> st)"

definition key_conflict :: engine_error where
  "key_conflict = conflicting_request ''Idempotency-Key was already used with different request parameters.''"

text \<open>What follows the answer of \<open>allocate\<close>, or of an inspection that already had one.\<close>

definition allocated ::
    "engine_env \<Rightarrow> engine_time \<Rightarrow> nat \<Rightarrow> prepared_execution \<Rightarrow> usage_report_context option \<Rightarrow>
     usage_reservation_handle option \<Rightarrow> string \<Rightarrow> allocation_result \<Rightarrow> engine_state \<Rightarrow> engine_state" where
  "allocated env tm c pp report reservation event allocation st =
     (case allocation of
        Alloc_Allocated r \<Rightarrow> start_execution env tm c pp report reservation event r st
      | Alloc_Conflict \<Rightarrow>
          (case release_reservation env reservation (tm_gate tm 0) st of
             (st1, Inl err) \<Rightarrow> finish_call c (pp_permit pp) (Inl (internal err)) st1
           | (st1, Inr ()) \<Rightarrow> finish_call c (pp_permit pp) (Inl key_conflict) st1)
      | Alloc_Replay r \<Rightarrow>
          (case release_reservation env reservation (tm_gate tm 0) st of
             (st1, Inl err) \<Rightarrow> finish_call c (pp_permit pp) (Inl (internal err)) st1
           | (st1, Inr ()) \<Rightarrow> replay_execution env tm c (pp_command pp)
               (rq_mode (vq_request (pp_valid pp))) r (release_permit (pp_permit pp) st1)))"

definition allocate_call ::
    "engine_env \<Rightarrow> engine_time \<Rightarrow> nat \<Rightarrow> prepared_execution \<Rightarrow> usage_report_context option \<Rightarrow>
     usage_reservation_handle option \<Rightarrow> engine_state \<Rightarrow> engine_state" where
  "allocate_call env tm c pp report reservation st =
     (let event = derive_execution_webhook_event_id env (cm_project (pp_command pp)) (ex_id (pp_pending pp)) in
      case allocate_execution (allocation_of pp (Some \<lparr>ra_resume_context = resume_context_of pp report reservation,
          ra_webhook_event_id = event\<rparr>)) (es_store st) of
        Inl err \<Rightarrow>
          (case release_reservation env reservation (tm_gate tm 0) st of
             (st1, Inl err1) \<Rightarrow> finish_call c (pp_permit pp) (Inl (internal err1)) st1
           | (st1, Inr ()) \<Rightarrow> finish_call c (pp_permit pp) (Inl (internal err)) st1)
      | Inr (es, allocation) \<Rightarrow>
          allocated env tm c pp report reservation event allocation (st\<lparr>es_store := es\<rparr>))"

text \<open>An inspection that is not \<open>available\<close> stands for the allocation, without any reservation.\<close>

definition inspected ::
    "engine_env \<Rightarrow> engine_time \<Rightarrow> nat \<Rightarrow> prepared_execution \<Rightarrow> allocation_inspection \<Rightarrow>
     (engine_state \<Rightarrow> engine_state) \<Rightarrow> engine_state \<Rightarrow> engine_state" where
  "inspected env tm c pp inspection available st =
     (case inspection of
        Inspect_Available \<Rightarrow> available st
      | Inspect_Replay r \<Rightarrow> allocated env tm c pp None None [] (Alloc_Replay r) st
      | Inspect_Conflict \<Rightarrow> allocated env tm c pp None None [] Alloc_Conflict st)"

definition inspect_call ::
    "engine_env \<Rightarrow> engine_time \<Rightarrow> nat \<Rightarrow> prepared_execution \<Rightarrow> (engine_state \<Rightarrow> engine_state) \<Rightarrow> engine_state \<Rightarrow>
     engine_state" where
  "inspect_call env tm c pp available st =
     (if pp_idempotency pp = None then available st
      else case inspect_allocation (allocation_of pp None) (es_store st) of
        Inl err \<Rightarrow> finish_call c (pp_permit pp) (Inl (internal err)) st
      | Inr inspection \<Rightarrow> inspected env tm c pp inspection available st)"

subsection \<open>The steps of a call\<close>

definition execute_begin ::
    "engine_env \<Rightarrow> engine_time \<Rightarrow> execute_command \<Rightarrow> engine_state \<Rightarrow> engine_state" where
  "execute_begin env tm command st0 =
     (let c = es_next st0; st = st0\<lparr>es_next := Suc c\<rparr> in
      case validate_command env command of
        Inl err \<Rightarrow> reply c (Inl err) st
      | Inr v \<Rightarrow>
          (case take_permit tm (cm_project command) v st of
             (st1, Inl err) \<Rightarrow> reply c (Inl err) st1
           | (st1, Inr permit) \<Rightarrow>
               (case prepare_execution env tm command v permit of
                  Inl err \<Rightarrow> finish_call c permit (Inl err) st1
                | Inr pp \<Rightarrow>
                    if en_usage_enabled env
                    then inspect_call env (after_reads 2 tm) c pp
                      (\<lambda>st2. st2\<lparr>es_calls := js_set c (Call_Reserving pp) (es_calls st2)\<rparr>) st1
                    else allocate_call env (after_reads 2 tm) c pp None None st1)))"

definition admission_failure :: "js_error \<Rightarrow> engine_error" where
  "admission_failure err =
     (if err = usage_gate_unavailable
      then Request_Error 429 \<lparr>te_code = Code_Rate_Limited,
        te_message = ''Cloud usage admission is temporarily unavailable.'', te_retryable = True,
        te_retry_after = None, te_provider = None\<rparr> None
      else internal err)"

definition quota_rejection :: "string \<Rightarrow> engine_error" where
  "quota_rejection message = Request_Error 429 \<lparr>te_code = Code_Rate_Limited, te_message = message,
     te_retryable = False, te_retry_after = None, te_provider = None\<rparr> None"

text \<open>The exchange with the usage service is over, with this response or none.\<close>

definition step_reserved ::
    "engine_env \<Rightarrow> engine_time \<Rightarrow> nat \<Rightarrow> cloud_response option \<Rightarrow> engine_state \<Rightarrow> engine_state" where
  "step_reserved env tm c response st =
     (case map_of (es_calls st) c of
        Some (Call_Reserving pp) \<Rightarrow>
          (let context = reservation_context_of env pp in
           case cloud_gate_reserve (en_usage_strict env) context
               (client_reserve (en_as_timestamp env) context response) of
             Inl err \<Rightarrow> finish_call c (pp_permit pp) (Inl (admission_failure err)) st
           | Inr (Usage_Denied message) \<Rightarrow> inspect_call env tm c pp
               (finish_call c (pp_permit pp) (Inl (quota_rejection message))) st
           | Inr (Usage_Allowed report reservation) \<Rightarrow> allocate_call env tm c pp report reservation st)
      | _ \<Rightarrow> st)"

subsection \<open>Reads\<close>

definition get_engine_execution ::
    "string \<Rightarrow> string \<Rightarrow> engine_state \<Rightarrow> engine_error + execution_record" where
  "get_engine_execution p e st =
     (if \<not> is_execution_id e then Inl (not_found ''Execution was not found.'')
      else case get_execution p e (es_store st) of
        None \<Rightarrow> Inl (not_found ''Execution was not found.'') | Some r \<Rightarrow> Inr r)"

definition get_engine_detail ::
    "string \<Rightarrow> string \<Rightarrow> engine_state \<Rightarrow> engine_error + execution_detail" where
  "get_engine_detail p e st =
     (if \<not> is_execution_id e then Inl (not_found ''Execution was not found.'')
      else case get_detail p e (es_store st) of
        None \<Rightarrow> Inl (not_found ''Execution was not found.'') | Some d \<Rightarrow> Inr d)"

definition list_engine_executions ::
    "string \<Rightarrow> execution_filters \<Rightarrow> cursor option \<Rightarrow> int option \<Rightarrow> engine_state \<Rightarrow>
     engine_error + (execution_record list \<times> cursor option)" where
  "list_engine_executions p f cur limit st =
     (let n = or_else limit 20 in
      if n < 1 \<or> 100 < n then Inl (invalid_request ''limit must be an integer from 1 through 100.'')
      else case list_executions p f cur n (es_store st) of
        Inl err \<Rightarrow> if err = invalid_execution_cursor then Inl (invalid_request ''Execution cursor is invalid.'')
          else Inl (internal err)
      | Inr page \<Rightarrow> Inr page)"

subsection \<open>Histories\<close>

text \<open>
  \<open>En_Outbox\<close> is a call of the flusher on the usage outbox. \<open>En_Queue\<close> stands for anything that the worker
  and the deliverer do to the queue, the endpoints and the events: it replaces their state by any other.
\<close>

text \<open>A restart of the process loses what is not stored: runs, calls, permits, waiters, volatile events.\<close>

definition restart_engine :: "engine_state \<Rightarrow> engine_state" where
  "restart_engine st = st\<lparr>es_store := (es_store st)\<lparr>terminal_waiters := []\<rparr>, es_limiter := empty_limiter,
     es_deliverer := (es_deliverer st)\<lparr>dv_volatile := []\<rparr>, es_runs := [], es_calls := []\<rparr>"

datatype engine_op =
    En_Execute engine_time execute_command
  | En_Reserved engine_time nat "cloud_response option"
  | En_Waited engine_time nat
  | En_Job engine_time bool string string
  | En_Permit engine_time nat
  | En_Credentials engine_time nat "thrown + resolved_credential"
  | En_Adapter engine_time nat "thrown + json"
  | En_Abort nat
  | En_Cancel engine_time string string
  | En_Outbox usage_op
  | En_Queue deliverer_state
  | En_Restart

fun run_engine_op :: "engine_env \<Rightarrow> engine_op \<Rightarrow> engine_state \<Rightarrow> engine_state" where
  "run_engine_op env (En_Execute tm command) st = execute_begin env tm command st"
| "run_engine_op env (En_Reserved tm c response) st = step_reserved env tm c response st"
| "run_engine_op env (En_Waited tm c) st = step_waited env tm c st"
| "run_engine_op env (En_Job tm aborted p e) st = run_execution_job env tm aborted p e st"
| "run_engine_op env (En_Permit tm i) st = step_permit env tm i st"
| "run_engine_op env (En_Credentials tm i outcome) st = step_credentials env tm i outcome st"
| "run_engine_op env (En_Adapter tm i outcome) st = step_adapter env tm i outcome st"
| "run_engine_op env (En_Abort i) st = abort_job i st"
| "run_engine_op env (En_Cancel tm p e) st = fst (cancel_engine env tm p e st)"
| "run_engine_op env (En_Outbox op) st = st\<lparr>es_outbox := run_usage_op op (es_outbox st)\<rparr>"
| "run_engine_op env (En_Queue dv) st = st\<lparr>es_deliverer := dv\<rparr>"
| "run_engine_op env En_Restart st = restart_engine st"

fun run_engine_ops :: "engine_env \<Rightarrow> engine_op list \<Rightarrow> engine_state \<Rightarrow> engine_state" where
  "run_engine_ops env [] st = st"
| "run_engine_ops env (op # ops) st = run_engine_ops env ops (run_engine_op env op st)"

end
