(* ===== verification/Engine_Laws.thy ===== *)
theory Engine_Laws
  imports Engine_Calls
begin

text \<open>
  The invariant of the execution engine and the relations between the states before and after an effect
  that keep it: \<open>calm\<close> effects answer no job; \<open>good\<close> ones may, and then only acknowledge finished work.
\<close>

subsection \<open>The invariant\<close>

definition begun :: "stored_execution \<Rightarrow> bool" where
  "begun row \<longleftrightarrow> se_dispatch_started_at row \<noteq> None"

definition row_terminal :: "stored_execution \<Rightarrow> bool" where
  "row_terminal row \<longleftrightarrow> terminal_status (ex_status (se_record row))"

text \<open>What the outcome of a record says of its dispatch.\<close>

definition outcome_ok :: "stored_execution \<Rightarrow> bool" where
  "outcome_ok row \<longleftrightarrow> (case ex_outcome (se_record row) of
     Out_Pending \<Rightarrow> \<not> begun row
   | Out_Succeeded _ _ \<Rightarrow> begun row
   | Out_Cancelled _ _ b \<Rightarrow> b = begun row
   | _ \<Rightarrow> True)"

definition in_outbox :: "usage_payload \<Rightarrow> usage_outbox \<Rightarrow> bool" where
  "in_outbox p ob \<longleftrightarrow> (\<exists>r. map_of ob (payload_execution p) = Some r \<and> ob_payload r = p)"

text \<open>The usage work that a terminal row asks for: its report when a dispatch has begun, else its release.\<close>

definition usage_settled :: "usage_outbox \<Rightarrow> stored_execution \<Rightarrow> bool" where
  "usage_settled ob row \<longleftrightarrow>
     (begun row \<longrightarrow> (\<forall>ctx. resume_report (se_resume_context row) = Some ctx \<longrightarrow>
        in_outbox (terminal_report_payload ctx (se_record row)) ob)) \<and>
     (\<not> begun row \<longrightarrow> (\<forall>h. resume_reservation (se_resume_context row) = Some h \<longrightarrow>
        in_outbox (release_payload h) ob))"

definition row_ok :: "engine_env \<Rightarrow> usage_outbox \<Rightarrow> string \<Rightarrow> stored_execution \<Rightarrow> bool" where
  "row_ok env ob e row \<longleftrightarrow> ex_id (se_record row) = e \<and> \<not> ex_replayed (se_record row) \<and> outcome_ok row \<and>
     (se_usage_finalized_at row \<noteq> None \<longrightarrow> row_terminal row \<and> (en_usage_enabled env \<longrightarrow> usage_settled ob row))"

definition run_ok :: "execution_store \<Rightarrow> engine_run \<Rightarrow> bool" where
  "run_ok es run \<longleftrightarrow> (\<exists>row c. find_execution es (er_project run) (run_id run) = Some row \<and>
     se_request row = er_request run \<and> se_resume_context row = Some c \<and>
     td_version (er_tool run) = ex_tool_version (se_record row) \<and>
     er_report run = rc_usage_report c \<and> er_reservation run = rc_usage_reservation c \<and>
     (er_phase run = Ph_Dispatched \<longrightarrow> begun row))"

text \<open>
  What is stored comes from a call of \<open>execute\<close>, one of the calls \<open>Q\<close>: its command passes validation, and the record
  has the tool of this validation, the voice session of the command, its reserved identifier or else the one that
  was drawn for the call, and the time of the call.
\<close>

type_synonym execute_calls = "(engine_time \<times> execute_command) set"

definition accepted ::
    "engine_env \<Rightarrow> engine_time \<Rightarrow> execute_command \<Rightarrow> validated_request \<Rightarrow> execution_record \<Rightarrow> bool" where
  "accepted env tm command v r \<longleftrightarrow> validate_command env command = Inr v \<and>
     ex_tool r = td_name (vq_tool v) \<and> ex_tool_version r = td_version (vq_tool v) \<and>
     ex_catalog_version r = en_catalog_version env \<and>
     ex_user r = rq_user (vq_request v) \<and> ex_source r = cm_source command \<and>
     ex_attachments r = execution_attachment_summary (vq_tool v) (rq_input (vq_request v)) \<and>
     ex_id r = or_else (cm_execution command) (tm_execution_id tm) \<and>
     (\<exists>now. engine_now 1 tm = Inr now \<and> ex_created_at r = Iso now)"

definition admitted :: "execute_calls \<Rightarrow> engine_env \<Rightarrow> string \<Rightarrow> stored_execution \<Rightarrow> bool" where
  "admitted Q env p row \<longleftrightarrow> (\<exists>tm command v. (tm, command) \<in> Q \<and> accepted env tm command v (se_record row) \<and>
     cm_project command = p \<and> se_request row = vq_request v \<and> se_idempotency_key row = cm_idempotency_key command)"

definition prepared_ok :: "execute_calls \<Rightarrow> engine_env \<Rightarrow> prepared_execution \<Rightarrow> bool" where
  "prepared_ok Q env pp \<longleftrightarrow> ex_outcome (pp_pending pp) = Out_Pending \<and> \<not> ex_replayed (pp_pending pp) \<and>
     (\<exists>tm. (tm, pp_command pp) \<in> Q \<and> accepted env tm (pp_command pp) (pp_valid pp) (pp_pending pp)) \<and>
     map_option (\<lambda>r. is_key (ir_scope r)) (pp_idempotency pp) = cm_idempotency_key (pp_command pp)"

definition call_ok :: "execute_calls \<Rightarrow> engine_env \<Rightarrow> engine_call \<Rightarrow> bool" where
  "call_ok Q env call \<longleftrightarrow> (case call of Call_Reserving pp \<Rightarrow> prepared_ok Q env pp | _ \<Rightarrow> True)"

definition dispatch_key :: "provider_dispatch \<Rightarrow> string \<times> string" where
  "dispatch_key d = (dp_project d, dp_execution d)"

definition dispatch_ok :: "execution_store \<Rightarrow> provider_dispatch \<Rightarrow> bool" where
  "dispatch_ok es d \<longleftrightarrow>
     (\<exists>row. find_execution es (dp_project d) (dp_execution d) = Some row \<and> begun row \<and>
        se_request row = dp_request d \<and> ex_tool_version (se_record row) = td_version (dp_tool d)) \<and>
     validate_credential (dp_credential d) (dp_request d) (dp_manifest d) (dp_scopes d) (dp_checked_at d) = Inr ()"

definition settled_ok :: "execution_store \<Rightarrow> (string \<times> nat) \<times> execution_record \<Rightarrow> bool" where
  "settled_ok es x \<longleftrightarrow> (\<exists>row. find_execution es (fst (fst x)) (ex_id (snd x)) = Some row \<and> row_terminal row)"

definition engine_inv :: "execute_calls \<Rightarrow> engine_env \<Rightarrow> engine_state \<Rightarrow> bool" where
  "engine_inv Q env st \<longleftrightarrow> usage_outbox_wf (es_outbox st) \<and>
     (\<forall>p e row. find_execution (es_store st) p e = Some row \<longrightarrow> row_ok env (es_outbox st) e row) \<and>
     (\<forall>p e row. find_execution (es_store st) p e = Some row \<longrightarrow> admitted Q env p row) \<and>
     (\<forall>run \<in> snd ` set (es_runs st). run_ok (es_store st) run) \<and>
     (\<forall>call \<in> snd ` set (es_calls st). call_ok Q env call) \<and>
     (\<forall>x \<in> set (es_settled st). settled_ok (es_store st) x) \<and>
     (\<forall>d \<in> set (es_dispatches st). dispatch_ok (es_store st) d) \<and> distinct (map dispatch_key (es_dispatches st))"

lemma engine_inv_row: "engine_inv Q env st \<Longrightarrow> find_execution (es_store st) p e = Some row \<Longrightarrow>
    row_ok env (es_outbox st) e row"
  by (simp add: engine_inv_def)

lemma empty_engine_inv: "engine_inv Q env (empty_engine dv)"
  by (simp add: engine_inv_def empty_engine_def find_execution_def empty_execution_store_def)

subsection \<open>Progress of the rows\<close>

definition rows_progress :: "execution_store \<Rightarrow> execution_store \<Rightarrow> bool" where
  "rows_progress es es' \<longleftrightarrow> (\<forall>p e row. find_execution es p e = Some row \<longrightarrow>
     (\<exists>row'. find_execution es' p e = Some row' \<and> row_progress row row'))"

lemma rows_progress_refl [simp]: "rows_progress es es"
  by (auto simp: rows_progress_def row_progress_refl)

lemma rows_progress_trans: "rows_progress a b \<Longrightarrow> rows_progress b c \<Longrightarrow> rows_progress a c"
  unfolding rows_progress_def by (meson row_progress_trans)

lemma rows_progressE:
  assumes "rows_progress es es'" "find_execution es p e = Some row"
  obtains row' where "find_execution es' p e = Some row'" "row_progress row row'"
  using assms unfolding rows_progress_def by blast

lemma moves_row_rows_progress: "moves_row es es' \<Longrightarrow> rows_progress es es'"
  unfolding rows_progress_def using moves_row_progress exec_steps_progress by blast

lemma progress_begun: "row_progress row row' \<Longrightarrow> begun row \<Longrightarrow> begun row'"
  by (auto simp: row_progress_def kept_def begun_def)

lemma progress_resume: "row_progress row row' \<Longrightarrow> se_resume_context row = Some c \<Longrightarrow> se_resume_context row' = Some c"
  by (auto simp: row_progress_def kept_def)

lemma progress_request: "row_progress row row' \<Longrightarrow> se_request row' = se_request row"
  by (simp add: row_progress_def)

lemma progress_version: "row_progress row row' \<Longrightarrow> ex_tool_version (se_record row') = ex_tool_version (se_record row)"
  by (simp add: row_progress_def same_identity_def)

lemma progress_admitted: "row_progress row row' \<Longrightarrow> admitted Q env p row \<Longrightarrow> admitted Q env p row'"
  unfolding admitted_def accepted_def row_progress_def same_identity_def by metis

lemma moves_row_back:
  assumes "moves_row es es'" "find_execution es' p e = Some row'"
  shows "\<exists>row. find_execution es p e = Some row \<and> row_progress row row'"
  using assms(1) unfolding moves_row_def
proof (elim conjE disjE exE)
  assume "executions es' = executions es"
  then have "find_execution es' = find_execution es" by (rule find_same_executions)
  then show ?thesis using assms(2) row_progress_refl by auto
next
  fix q f old new
  assume old: "find_execution es q f = Some old" "exec_step old new"
    and ex: "executions es' = executions (put_execution q f new es)"
  have "find_execution es' = find_execution (put_execution q f new es)" by (rule find_same_executions[OF ex])
  then show ?thesis
    using old assms(2) exec_step_progress[OF old(2)] row_progress_refl by (auto split: if_splits)
qed

lemma progress_terminal: "row_progress row row' \<Longrightarrow> row_terminal row \<Longrightarrow> se_record row' = se_record row"
  by (auto simp: row_progress_def row_terminal_def)

lemma run_ok_progress: "run_ok es run \<Longrightarrow> rows_progress es es' \<Longrightarrow> run_ok es' run"
  unfolding run_ok_def by (fastforce elim!: rows_progressE dest: progress_begun progress_resume progress_request progress_version)

lemma dispatch_ok_progress: "dispatch_ok es d \<Longrightarrow> rows_progress es es' \<Longrightarrow> dispatch_ok es' d"
  unfolding dispatch_ok_def by (fastforce elim!: rows_progressE dest: progress_begun progress_request progress_version)

lemma settled_ok_progress: "settled_ok es x \<Longrightarrow> rows_progress es es' \<Longrightarrow> settled_ok es' x"
  unfolding settled_ok_def by (fastforce elim!: rows_progressE dest: progress_terminal simp: row_terminal_def)

lemma in_outbox_kept: "in_outbox p ob \<Longrightarrow> usage_kept ob ob' \<Longrightarrow> in_outbox p ob'"
  unfolding in_outbox_def usage_kept_def usage_row_kept_def by metis

lemma row_ok_outbox: "row_ok env ob e row \<Longrightarrow> usage_kept ob ob' \<Longrightarrow> row_ok env ob' e row"
  unfolding row_ok_def usage_settled_def using in_outbox_kept by blast

lemma run_ok_cong:
  assumes "run_ok es run" "er_project run' = er_project run" "er_record run' = er_record run"
    "er_request run' = er_request run" "er_tool run' = er_tool run" "er_report run' = er_report run" "er_reservation run' = er_reservation run"
    "er_phase run' = Ph_Dispatched \<Longrightarrow> er_phase run = Ph_Dispatched"
  shows "run_ok es run'"
  using assms by (auto simp: run_ok_def run_id_def)

lemma unit_case [simp]: "(case u of () \<Rightarrow> x) = x"
  by (induct u) (rule unit.case)

subsection \<open>Calm and good effects\<close>

definition calm :: "execute_calls \<Rightarrow> engine_env \<Rightarrow> engine_state \<Rightarrow> engine_state \<Rightarrow> bool" where
  "calm Q env st st' \<longleftrightarrow> (engine_inv Q env st \<longrightarrow>
     engine_inv Q env st' \<and> rows_progress (es_store st) (es_store st') \<and> es_answers st' = es_answers st)"

text \<open>Finished work: terminal, its usage recorded, and its event published if it has one.\<close>

definition finished_row :: "stored_execution \<Rightarrow> bool" where
  "finished_row row \<longleftrightarrow> row_terminal row \<and> se_usage_finalized_at row \<noteq> None \<and>
     (se_webhook_event_id row \<noteq> None \<longrightarrow> se_webhook_published_at row \<noteq> None)"

definition finished :: "engine_state \<Rightarrow> string \<Rightarrow> string \<Rightarrow> bool" where
  "finished st p e \<longleftrightarrow> (\<forall>row. find_execution (es_store st) p e = Some row \<longrightarrow> finished_row row)"

definition acknowledges :: "job_handler_result option \<Rightarrow> bool" where
  "acknowledges a \<longleftrightarrow> a = Some Handler_Complete \<or> a = Some Handler_Cancelled"

definition answers_ok :: "engine_state \<Rightarrow> engine_state \<Rightarrow> bool" where
  "answers_ok st st' \<longleftrightarrow> (\<exists>news. es_answers st' = es_answers st @ news \<and>
     (\<forall>(p, e, a) \<in> set news. acknowledges a \<and> is_execution_id e \<longrightarrow> finished st' p e))"

definition good :: "execute_calls \<Rightarrow> engine_env \<Rightarrow> engine_state \<Rightarrow> engine_state \<Rightarrow> bool" where
  "good Q env st st' \<longleftrightarrow>
     (engine_inv Q env st \<longrightarrow> engine_inv Q env st' \<and> rows_progress (es_store st) (es_store st') \<and> answers_ok st st')"

lemma calm_refl [simp]: "calm Q env st st"
  by (simp add: calm_def)

lemma calm_trans [trans]: "calm Q env a b \<Longrightarrow> calm Q env b c \<Longrightarrow> calm Q env a c"
  unfolding calm_def using rows_progress_trans by (metis)

lemma calm_good: "calm Q env st st' \<Longrightarrow> good Q env st st'"
  by (auto simp: calm_def good_def answers_ok_def)

lemma calm_good_trans: "calm Q env a b \<Longrightarrow> good Q env b c \<Longrightarrow> good Q env a c"
  unfolding calm_def good_def answers_ok_def by (auto intro: rows_progress_trans)

lemma calmD: "calm Q env st st' \<Longrightarrow> engine_inv Q env st \<Longrightarrow> engine_inv Q env st'"
  "calm Q env st st' \<Longrightarrow> engine_inv Q env st \<Longrightarrow> rows_progress (es_store st) (es_store st')"
  by (simp_all add: calm_def)

lemma calm_run_ok: "calm Q env st st' \<Longrightarrow> engine_inv Q env st \<Longrightarrow> run_ok (es_store st) run \<Longrightarrow> run_ok (es_store st') run"
  using calmD(2) run_ok_progress by blast

lemma calm_then: "calm Q env st (fst r) \<Longrightarrow> (\<And>x st1. r = (st1, Inr x) \<Longrightarrow> calm Q env st1 (fst (f x st1))) \<Longrightarrow>
    calm Q env st (fst (then_call r f))"
  by (auto simp: then_call_def split: prod.splits sum.splits intro: calm_trans)

text \<open>A good step may be proved under the invariant of the state that it starts in.\<close>

lemma goodI: "(engine_inv Q env st \<Longrightarrow> good Q env st st') \<Longrightarrow> good Q env st st'"
  by (auto simp: good_def)

lemma calmI: "(engine_inv Q env st \<Longrightarrow> calm Q env st st') \<Longrightarrow> calm Q env st st'"
  by (auto simp: calm_def)

subsection \<open>Effects that keep the invariant\<close>

text \<open>Everything but the rows, the outbox, the runs, the calls and the dispatches is free.\<close>

lemma calm_frame:
  assumes "es_answers st' = es_answers st" "find_execution (es_store st') = find_execution (es_store st)"
    "es_outbox st' = es_outbox st" "es_dispatches st' = es_dispatches st" "es_settled st' = es_settled st"
    "\<And>run. run \<in> snd ` set (es_runs st') \<Longrightarrow> engine_inv Q env st \<Longrightarrow> run_ok (es_store st) run"
    "\<And>call. call \<in> snd ` set (es_calls st') \<Longrightarrow> engine_inv Q env st \<Longrightarrow> call_ok Q env call"
  shows "calm Q env st st'"
proof -
  have "run_ok (es_store st') = run_ok (es_store st)" "dispatch_ok (es_store st') = dispatch_ok (es_store st)"
    "settled_ok (es_store st') = settled_ok (es_store st)"
    "rows_progress (es_store st) (es_store st')"
    using assms(2) by (auto simp: run_ok_def dispatch_ok_def settled_ok_def rows_progress_def row_progress_refl fun_eq_iff)
  then show ?thesis
    using assms unfolding calm_def by (simp add: engine_inv_def)
qed

lemma calm_same:
  assumes "es_answers st' = es_answers st" "es_store st' = es_store st" "es_outbox st' = es_outbox st"
    "es_dispatches st' = es_dispatches st" "es_settled st' = es_settled st" "es_runs st' = es_runs st"
    "es_calls st' = es_calls st"
  shows "calm Q env st st'"
  by (rule calm_frame) (use assms in \<open>auto simp: engine_inv_def\<close>)

lemma calm_outbox:
  assumes "usage_write (es_outbox st) ob"
  shows "calm Q env st (st\<lparr>es_outbox := ob\<rparr>)"
proof -
  have "row_ok env ob e row"
    if "usage_outbox_wf (es_outbox st)" "row_ok env (es_outbox st) e row" for e row
    using that assms row_ok_outbox by (auto simp: usage_write_def)
  then show ?thesis
    using assms by (auto simp: calm_def engine_inv_def usage_write_def)
qed

text \<open>The write of one row.\<close>

lemma calm_row:
  assumes moves: "moves_row (es_store st) es"
    and rows: "\<And>p e row'. engine_inv Q env st \<Longrightarrow> find_execution es p e = Some row' \<Longrightarrow> row_ok env (es_outbox st) e row'"
  shows "calm Q env st (st\<lparr>es_store := es\<rparr>)"
proof -
  have progress: "rows_progress (es_store st) es" by (rule moves_row_rows_progress[OF moves])
  have admitted: "admitted Q env p row'" if inv: "engine_inv Q env st" and f: "find_execution es p e = Some row'" for p e row'
  proof -
    obtain row where "find_execution (es_store st) p e = Some row" "row_progress row row'"
      using moves_row_back[OF moves f] by blast
    then show ?thesis using inv progress_admitted by (auto simp: engine_inv_def)
  qed
  have "engine_inv Q env (st\<lparr>es_store := es\<rparr>)" if inv: "engine_inv Q env st"
    using inv rows[OF inv] admitted[OF inv] run_ok_progress[OF _ progress] dispatch_ok_progress[OF _ progress]
      settled_ok_progress[OF _ progress]
    unfolding engine_inv_def by simp
  then show ?thesis using progress by (simp add: calm_def)
qed

lemma calm_put_row:
  assumes es: "executions es = executions (put_execution p e row' (es_store st))" "exec_sequence es = exec_sequence (es_store st)"
    and row: "find_execution (es_store st) p e = Some row" and step: "exec_step row row' \<or> row' = row"
    and ok: "engine_inv Q env st \<Longrightarrow> row_ok env (es_outbox st) e row \<Longrightarrow> row_ok env (es_outbox st) e row'"
  shows "calm Q env st (st\<lparr>es_store := es\<rparr>)"
proof (rule calm_row)
  show "moves_row (es_store st) es"
    using step moves_row_put_same[OF row _ es(2,1)] put_same_row[OF row] es by (auto intro: moves_row_same)
  fix p1 e1 row1
  assume inv: "engine_inv Q env st" and f: "find_execution es p1 e1 = Some row1"
  have "find_execution es = find_execution (put_execution p e row' (es_store st))"
    by (rule find_same_executions[OF es(1)])
  then show "row_ok env (es_outbox st) e1 row1"
    using f ok[OF inv engine_inv_row[OF inv row]] engine_inv_row[OF inv, of p1 e1] by (auto split: if_splits)
qed

text \<open>A mark that says nothing of the record, the dispatch and the usage work.\<close>

lemma row_ok_same:
  "se_record row' = se_record row \<Longrightarrow> se_dispatch_started_at row' = se_dispatch_started_at row \<Longrightarrow>
   se_usage_finalized_at row' = se_usage_finalized_at row \<Longrightarrow> se_resume_context row' = se_resume_context row \<Longrightarrow>
   row_ok env ob e row' = row_ok env ob e row"
  by (simp add: row_ok_def outcome_ok_def usage_settled_def begun_def row_terminal_def cong: exec_outcome.case_cong)

lemma row_ok_open: "row_ok env ob e row \<Longrightarrow> \<not> row_terminal row \<Longrightarrow> se_usage_finalized_at row = None"
  by (auto simp: row_ok_def)

end
