(* ===== verification/Engine_Effects.thy ===== *)
theory Engine_Effects
  imports Engine_Laws
begin

text \<open>
  The shared effects of the engine keep its invariant, and a reconciliation that succeeds leaves finished
  work: its usage is in the outbox, and its event is published.
\<close>

subsection \<open>Effects on one part\<close>

lemma calm_release_permit [simp]: "calm Q env st (release_permit p st)"
  by (rule calm_same) (simp_all add: release_permit_def split: option.split)

lemma calm_same_store: "es_store st = es \<Longrightarrow> calm Q env st (st\<lparr>es_store := es\<rparr>)"
  by (rule calm_same) simp_all

lemma calm_enqueue_terminal [simp]: "calm Q env st (fst (enqueue_terminal env' tm p r event st))"
  by (rule calm_same) (simp_all add: enqueue_terminal_def split: prod.split)

lemma calm_submit [simp]: "calm Q env st (fst (submit_execution_job env' tm p e st))"
  by (rule calm_same) (simp_all add: submit_execution_job_def Let_def split: prod.split)

lemma calm_cancel_job [simp]: "calm Q env st (fst (cancel_job env' tm p e st))"
  by (rule calm_same) (simp_all add: cancel_job_def Let_def split: prod.split sum.split)

lemma calm_settle:
  assumes "\<And>w r. (w, r) \<in> set ss \<Longrightarrow> engine_inv Q env st \<Longrightarrow>
    \<exists>row. find_execution (es_store st) p (ex_id r) = Some row \<and> row_terminal row"
  shows "calm Q env st (settle p ss st)"
  using assms by (fastforce simp: calm_def settle_def engine_inv_def settled_ok_def)

subsection \<open>Updates of a record\<close>

lemma update_execution_Inr:
  assumes "update_execution p r es = Inr (es', ss)"
  obtains row where "find_execution es p (ex_id r) = Some row"
    "assert_execution_transition (se_record row) r = Inr ()"
    "executions es' = executions (put_execution p (ex_id r) (row\<lparr>se_record := r\<rparr>) es)"
    "exec_sequence es' = exec_sequence es"
    "\<And>w r'. (w, r') \<in> set ss \<Longrightarrow> ex_id r' = ex_id r \<and> terminal_status (ex_status r)"
proof -
  obtain row where row: "find_execution es p (ex_id r) = Some row"
    using assms by (auto simp: update_execution_def split: option.splits)
  moreover have "assert_execution_transition (se_record row) r = Inr ()"
    using assms row by (auto simp: update_execution_def bind_result_Inr_iff)
  moreover have "executions es' = executions (put_execution p (ex_id r) (row\<lparr>se_record := r\<rparr>) es)"
    "exec_sequence es' = exec_sequence es"
    using assms row by (auto simp: update_execution_def Let_def bind_result_Inr_iff settle_waiters_def split: if_splits)
  moreover have "ex_id r' = ex_id r \<and> terminal_status (ex_status r)" if "(w, r') \<in> set ss" for w r'
    using assms row that
    by (auto simp: update_execution_def Let_def bind_result_Inr_iff settle_waiters_def project_execution_record_def
        split: if_splits)
  ultimately show ?thesis by (rule that)
qed

lemma find_put_cong:
  "executions es' = executions (put_execution p e row es) \<Longrightarrow>
   find_execution es' p' e' = (if p' = p \<and> e' = e then Some row else find_execution es p' e')"
  using find_same_executions[of es' "put_execution p e row es"] by simp

lemma calm_update:
  assumes ok: "\<And>row. engine_inv Q env st \<Longrightarrow> find_execution (es_store st) p (ex_id r) = Some row \<Longrightarrow>
    outcome_ok (row\<lparr>se_record := r\<rparr>)"
  shows "calm Q env st (fst (update_record p r st))"
proof (cases "update_execution p r (es_store st)")
  case (Inl e)
  then show ?thesis by (simp add: update_record_def)
next
  case (Inr x)
  obtain es ss where x: "x = (es, ss)" by fastforce
  obtain row where row: "find_execution (es_store st) p (ex_id r) = Some row"
      "assert_execution_transition (se_record row) r = Inr ()"
    and es: "executions es = executions (put_execution p (ex_id r) (row\<lparr>se_record := r\<rparr>) (es_store st))"
      "exec_sequence es = exec_sequence (es_store st)"
    and ss: "\<And>w r'. (w, r') \<in> set ss \<Longrightarrow> ex_id r' = ex_id r \<and> terminal_status (ex_status r)"
    using update_execution_Inr Inr[unfolded x] by blast
  have "row_ok env (es_outbox st) (ex_id r) (row\<lparr>se_record := r\<rparr>)"
    if "engine_inv Q env st" "row_ok env (es_outbox st) (ex_id r) row"
  proof -
    have "\<not> row_terminal row" "\<not> ex_replayed r"
      using row(2) by (auto simp: assert_execution_transition_def row_terminal_def valid_transition_def split: if_splits)
    then show ?thesis using ok[OF that(1) row(1)] row_ok_open[OF that(2)] by (simp add: row_ok_def)
  qed
  then have "calm Q env st (st\<lparr>es_store := es\<rparr>)"
    by (rule calm_put_row[OF es row(1) disjI1[OF assert_transition_step[OF row(2)]]])
  also have "calm Q env (st\<lparr>es_store := es\<rparr>) (settle p ss (st\<lparr>es_store := es\<rparr>))"
    by (rule calm_settle) (auto simp: find_put_cong[OF es(1)] row_terminal_def dest: ss)
  finally show ?thesis using Inr x by (simp add: update_record_def)
qed

lemma update_record_Inr:
  assumes "update_record p r st = (st', Inr ())"
  obtains row where "find_execution (es_store st) p (ex_id r) = Some row"
    "\<And>p' e'. find_execution (es_store st') p' e' =
       (if p' = p \<and> e' = ex_id r then Some (row\<lparr>se_record := r\<rparr>) else find_execution (es_store st) p' e')"
proof (cases "update_execution p r (es_store st)")
  case (Inl e)
  then show ?thesis using assms by (simp add: update_record_def)
next
  case (Inr x)
  obtain es ss where x: "x = (es, ss)" by fastforce
  have es: "es_store st' = es" using assms Inr x by (auto simp: update_record_def settle_def)
  obtain row where "find_execution (es_store st) p (ex_id r) = Some row"
    "executions es = executions (put_execution p (ex_id r) (row\<lparr>se_record := r\<rparr>) (es_store st))"
    using update_execution_Inr Inr[unfolded x] by blast
  then show ?thesis using that find_put_cong es by blast
qed

subsection \<open>The gate\<close>

lemma enqueue_in_outbox:
  assumes "usage_outbox_wf ob" "enqueue_usage p t ob = Inr ob'"
  shows "in_outbox p ob'"
  using assms(2)
  by (auto simp: enqueue_usage_def in_outbox_def bind_result_Inr_iff same_usage_payload_def new_outbox_record_def
      split: option.splits if_splits)

lemma gate_enqueue_cases:
  assumes "gate_enqueue p reading ob = (ob', res)"
  shows "usage_write ob ob'" "usage_outbox_wf ob \<Longrightarrow> res = Inr () \<Longrightarrow> in_outbox p ob'"
  using assms enqueue_write enqueue_in_outbox
  by (fastforce simp: gate_enqueue_def bind_result_Inr_iff split: sum.splits)+

lemma calm_report_usage [simp]: "calm Q env st (fst (report_usage env' ctx r reading st))"
  using gate_enqueue_cases(1)
  by (fastforce simp: report_usage_def gate_report_terminal_def split: prod.splits intro!: calm_outbox)

lemma calm_release_usage [simp]: "calm Q env st (fst (release_usage env' h reading st))"
  using gate_enqueue_cases(1)
  by (fastforce simp: release_usage_def gate_release_def split: prod.splits intro!: calm_outbox)

lemma calm_release_reservation [simp]: "calm Q env st (fst (release_reservation env' h reading st))"
  by (simp add: release_reservation_def split: option.split)

lemma report_usage_Inr:
  "report_usage env ctx r reading st = (st', Inr ()) \<Longrightarrow> en_usage_enabled env \<Longrightarrow> usage_outbox_wf (es_outbox st) \<Longrightarrow>
     in_outbox (terminal_report_payload ctx r) (es_outbox st')"
  using gate_enqueue_cases(2)
  by (fastforce simp: report_usage_def gate_report_terminal_def split: prod.splits)

lemma release_usage_Inr:
  "release_usage env h reading st = (st', Inr ()) \<Longrightarrow> en_usage_enabled env \<Longrightarrow> usage_outbox_wf (es_outbox st) \<Longrightarrow>
     in_outbox (release_payload h) (es_outbox st')"
  using gate_enqueue_cases(2)
  by (fastforce simp: release_usage_def gate_release_def split: prod.splits)

lemma gate_store [simp]:
  "es_store (fst (report_usage env ctx r reading st)) = es_store st"
  "es_store (fst (release_usage env h reading st)) = es_store st"
  by (simp_all add: report_usage_def release_usage_def split: prod.split)

lemma deliverer_store [simp]: "es_store (fst (enqueue_terminal env tm p r event st)) = es_store st"
  by (simp add: enqueue_terminal_def split: prod.split)

subsection \<open>Reconciliation\<close>

text \<open>What the callers of a reconciliation guarantee: the row is terminal, and what they pass is what it says.\<close>

definition agrees :: "'a option \<Rightarrow> 'a option \<Rightarrow> bool" where
  "agrees a b \<longleftrightarrow> a = None \<or> a = b"

definition input_ok :: "execution_store \<Rightarrow> reconcile_input \<Rightarrow> bool" where
  "input_ok es inp \<longleftrightarrow> (\<forall>row. find_execution es (ri_project inp) (ex_id (ri_record inp)) = Some row \<longrightarrow>
     row_terminal row \<and> agrees (ri_report inp) (resume_report (se_resume_context row)) \<and>
     agrees (ri_reservation inp) (resume_reservation (se_resume_context row)))"

lemma projected_simps [simp]:
  "ex_outcome (projected row) = ex_outcome (se_record row)" "ex_status (projected row) = ex_status (se_record row)"
  "ex_completed_at (projected row) = ex_completed_at (se_record row)"
  "ex_created_at (projected row) = ex_created_at (se_record row)"
  by (simp_all add: projected_def project_execution_record_def ex_status_def)

lemma payload_projected [simp]: "terminal_report_payload ctx (projected row) = terminal_report_payload ctx (se_record row)"
  by (simp add: terminal_report_payload_def projected_simps cong: option.case_cong)

lemma begun_of_terminal:
  "outcome_ok row \<Longrightarrow> row_terminal row \<Longrightarrow> dispatch_may_have_begun (projected row) (Some (recoverable p row)) = begun row"
  by (auto simp: outcome_ok_def row_terminal_def dispatch_may_have_begun_def begun_def recoverable_def ex_status_def
      split: exec_outcome.splits option.splits)

lemma calm_record_usage [simp]: "calm Q env st (fst (record_usage env' tm inp stored r st))"
  by (simp add: record_usage_def Let_def split: bool.split option.split prod.split)

lemma record_usage_store [simp]: "es_store (fst (record_usage env tm inp stored r st)) = es_store st"
  by (simp add: record_usage_def Let_def split: bool.split option.split prod.split)

lemma record_usage_settles:
  assumes rec: "record_usage env tm inp (Some (recoverable p row)) (projected row) st = (st', Inr ())"
    and row: "outcome_ok row" "row_terminal row" and enabled: "en_usage_enabled env" "usage_outbox_wf (es_outbox st)"
    and agree: "agrees (ri_report inp) (resume_report (se_resume_context row))"
      "agrees (ri_reservation inp) (resume_reservation (se_resume_context row))"
  shows "usage_settled (es_outbox st') row"
proof -
  note b = begun_of_terminal[OF row, of p]
  have report: "usage_report_for inp (Some (recoverable p row)) bg = Some ctx"
    if "resume_report (se_resume_context row) = Some ctx" for ctx bg
    using agree(1) that by (auto simp: usage_report_for_def agrees_def recoverable_def)
  have reservation: "usage_reservation_for inp (Some (recoverable p row)) = Some h"
    if "resume_reservation (se_resume_context row) = Some h" for h
    using agree(2) that by (auto simp: usage_reservation_for_def agrees_def recoverable_def)
  show ?thesis
  proof (cases "begun row")
    case True
    then show ?thesis
      using rec report report_usage_Inr[OF _ enabled] by (fastforce simp: usage_settled_def record_usage_def b Let_def)
  next
    case False
    then show ?thesis
      using rec reservation release_usage_Inr[OF _ enabled]
      by (fastforce simp: usage_settled_def record_usage_def b Let_def)
  qed
qed

lemma mark_usage_Inr:
  assumes "mark_usage_finalized p e (Iso now) es = Inr (es', ok)" "find_execution es p e = Some row"
  obtains u where "u \<noteq> None" "se_usage_finalized_at row \<noteq> None \<longrightarrow> u = se_usage_finalized_at row"
    "es' = put_execution p e (row\<lparr>se_usage_finalized_at := u\<rparr>) es"
  using assms
  by (cases "se_usage_finalized_at row") (auto simp: mark_usage_finalized_def set_once_def)

lemma mark_published_Inr:
  assumes "mark_webhook_published p e (Iso now) es = Inr (es', ok)" "find_execution es p e = Some row"
  obtains row' where "executions es' = executions (put_execution p e row' es)" "exec_sequence es' = exec_sequence es"
    "row' = row \<or> exec_step row row'"
    "se_record row' = se_record row" "se_dispatch_started_at row' = se_dispatch_started_at row"
    "se_usage_finalized_at row' = se_usage_finalized_at row" "se_resume_context row' = se_resume_context row"
    "se_webhook_event_id row' = se_webhook_event_id row"
    "se_webhook_event_id row \<noteq> None \<Longrightarrow> se_webhook_published_at row' \<noteq> None"
proof (cases "se_webhook_event_id row = None \<or> se_webhook_published_at row \<noteq> None")
  case True
  have "es' = es \<or> es' = put_execution p e row es"
  proof (cases "se_webhook_published_at row")
    case None
    then show ?thesis using assms True by (auto simp: mark_webhook_published_def)
  next
    case (Some t)
    then have same: "row\<lparr>se_webhook_published_at := Some t\<rparr> = row" by (cases row) simp
    have "es' = es \<or> es' = put_execution p e (row\<lparr>se_webhook_published_at := Some t\<rparr>) es"
      using assms Some by (auto simp: mark_webhook_published_def set_once_def split: if_splits)
    then show ?thesis unfolding same .
  qed
  then have "executions es' = executions (put_execution p e row es)" "exec_sequence es' = exec_sequence es"
    using put_same_row[OF assms(2)] by auto
  then show ?thesis using that[of row] True by auto
next
  case False
  have "exec_step row (row\<lparr>se_webhook_published_at := Some (Iso now)\<rparr>)"
    by (rule step_published) (use False in auto)
  with False show ?thesis
    using assms that[of "row\<lparr>se_webhook_published_at := Some (Iso now)\<rparr>"]
    by (auto simp: mark_webhook_published_def set_once_def)
qed

lemma settled_record_id: "find_execution es p e = Some row \<Longrightarrow> row_terminal row \<Longrightarrow> ri_project inp = p \<Longrightarrow>
    ex_id (ri_record inp) = e \<Longrightarrow>
    settled_record inp (get_recoverable p e es) = projected row"
  by (simp add: settled_record_def get_recoverable_def recoverable_def row_terminal_def)

text \<open>The usage work of a terminal row.\<close>

lemma finalize_usage_row:
  assumes row: "find_execution (es_store st) p e = Some row" "row_terminal row" and p: "ri_project inp = p"
    and id: "ex_id (se_record row) = e"
    and agree: "agrees (ri_report inp) (resume_report (se_resume_context row))"
      "agrees (ri_reservation inp) (resume_reservation (se_resume_context row))"
  shows "calm Q env st (fst (finalize_usage env tm inp (Some (recoverable p row)) (projected row) st))" (is ?calm)
    and "finalize_usage env tm inp (Some (recoverable p row)) (projected row) st = (st', Inr ()) \<Longrightarrow>
      \<exists>row'. find_execution (es_store st') p e = Some row' \<and> se_usage_finalized_at row' \<noteq> None \<and>
        row' = row\<lparr>se_usage_finalized_at := se_usage_finalized_at row'\<rparr>" (is "?eq \<Longrightarrow> ?done")
proof -
  let ?rec = "record_usage env tm inp (Some (recoverable p row)) (projected row) st"
  have mark: "calm Q env st1 (st1\<lparr>es_store := es\<rparr>) \<and> find_execution es p e = Some row'"
    if st1: "?rec = (st1, Inr ())" "mark_usage_finalized p e (Iso now) (es_store st1) = Inr (es, ok)"
      "se_usage_finalized_at row = None" "row' = row\<lparr>se_usage_finalized_at := Some (Iso now)\<rparr>" and inv: "engine_inv Q env st"
    for st1 es ok now row'
  proof -
    have s: "es_store st1 = es_store st" using record_usage_store[of env tm inp _ _ st] st1(1) by (metis fst_conv)
    have f: "find_execution (es_store st1) p e = Some row" using row s by simp
    have es: "es = put_execution p e row' (es_store st1)"
      using st1(2-4) f by (auto simp: mark_usage_finalized_def set_once_def)
    have ok: "row_ok env (es_outbox st1) e row'" if "row_ok env (es_outbox st1) e row"
    proof -
      have "outcome_ok row" using engine_inv_row[OF inv row(1)] by (simp add: row_ok_def)
      then have "en_usage_enabled env \<Longrightarrow> usage_settled (es_outbox st1) row"
        using record_usage_settles[OF st1(1)] row(2) inv agree by (simp add: engine_inv_def)
      then show ?thesis
        using that row(2) st1(4)
        by (simp add: row_ok_def outcome_ok_def begun_def usage_settled_def row_terminal_def cong: exec_outcome.case_cong)
    qed
    have "exec_step row row'" unfolding st1(4) by (rule step_usage) (rule st1(3))
    then have "calm Q env st1 (st1\<lparr>es_store := es\<rparr>)"
      by (intro calm_put_row[OF _ _ f, of _ row']) (use es ok in auto)
    then show ?thesis using es by simp
  qed
  have id': "ex_id (projected row) = e" using id by simp
  show ?calm
  proof (rule calmI)
    assume inv: "engine_inv Q env st"
    show ?calm
    proof (cases "se_usage_finalized_at row")
      case (Some t)
      then show ?thesis by (simp add: finalize_usage_def recoverable_def)
    next
      case None
      then show ?thesis
        using mark[OF _ _ None _ inv] p id'
        by (auto simp: finalize_usage_def recoverable_def[of p row, unfolded None] store_call_def split: sum.split prod.split intro!: calm_then)
    qed
  qed
  assume ?eq
  then show ?done
  proof (cases "se_usage_finalized_at row")
    case None
    obtain st1 now es ok where r: "?rec = (st1, Inr ())" "mark_usage_finalized p e (Iso now) (es_store st1) = Inr (es, ok)" "st' = st1\<lparr>es_store := es\<rparr>"
      using \<open>?eq\<close> None p id' by (auto simp: finalize_usage_def recoverable_def then_call_def store_call_def split: prod.splits sum.splits)
    have s: "es_store st1 = es_store st" using record_usage_store[of env tm inp _ _ st] r(1) by (metis fst_conv)
    show ?thesis
      using r(2,3) s row(1) None by (auto simp: mark_usage_finalized_def set_once_def)
  qed (use row in \<open>auto simp: finalize_usage_def recoverable_def\<close>)
qed

text \<open>The publication of its event.\<close>

lemma publish_event_row:
  assumes row: "find_execution (es_store st) p e = Some row" and p: "ri_project inp = p"
    and id: "ex_id (se_record row) = e" and rv: "rv_webhook_event_id rv = se_webhook_event_id row"
      "rv_webhook_published_at rv = se_webhook_published_at row"
  shows "calm Q env st (fst (publish_event env tm inp (Some rv) (projected row) st))" (is ?calm)
    and "publish_event env tm inp (Some rv) (projected row) st = (st', Inr ()) \<Longrightarrow>
      \<exists>row'. find_execution (es_store st') p e = Some row' \<and> se_record row' = se_record row \<and>
        se_usage_finalized_at row' = se_usage_finalized_at row \<and> se_webhook_event_id row' = se_webhook_event_id row \<and>
        (se_webhook_event_id row \<noteq> None \<longrightarrow> se_webhook_published_at row' \<noteq> None)" (is "?eq \<Longrightarrow> ?done")
proof -
  have id': "ex_id (projected row) = e" using id by simp
  let ?enq = "\<lambda>i. enqueue_terminal env tm p (projected row) i st"
  have store: "es_store st1 = es_store st" if "?enq i = (st1, x)" for i st1 x
    using deliverer_store[of env tm p "projected row" i st] that by simp
  have mark: "calm Q env st1 (st1\<lparr>es_store := es\<rparr>)"
    if "?enq i = (st1, Inr ())" "mark_webhook_published p e (Iso now) (es_store st1) = Inr (es, ok)" for i st1 now es ok
  proof -
    have f: "find_execution (es_store st1) p e = Some row" using row store[OF that(1)] by simp
    from mark_published_Inr[OF that(2) f] obtain row' where
      "executions es = executions (put_execution p e row' (es_store st1))" "exec_sequence es = exec_sequence (es_store st1)"
      "row' = row \<or> exec_step row row'" "se_record row' = se_record row"
      "se_dispatch_started_at row' = se_dispatch_started_at row"
      "se_usage_finalized_at row' = se_usage_finalized_at row" "se_resume_context row' = se_resume_context row" by metis
    then show ?thesis by (intro calm_put_row[OF _ _ f, of _ row']) (auto simp: row_ok_same[of row' row])
  qed
  have enq: "calm Q env st (fst (?enq i))" for i by simp
  show ?calm
  proof (cases "(case ri_event inp of Some i \<Rightarrow> Some i | None \<Rightarrow> rv_webhook_event_id rv)")
    case (Some i)
    have step: "calm Q env st1 (fst (case engine_now 1 tm of Inl err \<Rightarrow> (st1, Inl err)
        | Inr now \<Rightarrow> then_call (store_call st1 (mark_webhook_published p e (Iso now) (es_store st1)))
            (\<lambda>_ st2. (st2, Inr ()))))" if "?enq i = (st1, Inr ())" for st1
      using mark[OF that] by (auto simp: store_call_def then_call_def split: sum.split)
    have ev: "(case ri_event inp of Some i \<Rightarrow> Some i | None \<Rightarrow> Option.bind (Some rv) rv_webhook_event_id) = Some i"
      using Some by (cases "ri_event inp") simp_all
    have "calm Q env st (fst (then_call (?enq i) (\<lambda>_ st1. case engine_now 1 tm of Inl err \<Rightarrow> (st1, Inl err)
        | Inr now \<Rightarrow> then_call (store_call st1 (mark_webhook_published p e (Iso now) (es_store st1)))
            (\<lambda>_ st2. (st2, Inr ())))))"
      by (rule calm_then[OF enq], rule step) simp
    then show ?thesis
      unfolding publish_event_def ev option.case p id'
      by (simp only: fst_conv calm_refl split: if_split) simp
  qed (auto simp: publish_event_def split: option.splits)
  assume ?eq
  show ?done
  proof (cases "(case ri_event inp of Some i \<Rightarrow> Some i | None \<Rightarrow> se_webhook_event_id row) = None \<or> se_webhook_published_at row \<noteq> None")
    case True
    then have "st' = st \<and> (se_webhook_event_id row \<noteq> None \<longrightarrow> se_webhook_published_at row \<noteq> None)"
      using \<open>?eq\<close> rv by (auto simp: publish_event_def split: option.splits)
    then show ?thesis using row by auto
  next
    case False
    obtain i st1 now es ok where r: "?enq i = (st1, Inr ())"
        "mark_webhook_published p e (Iso now) (es_store st1) = Inr (es, ok)" "st' = st1\<lparr>es_store := es\<rparr>"
      using \<open>?eq\<close> False rv p id'
      by (auto simp: publish_event_def then_call_def store_call_def split: option.splits prod.splits sum.splits)
    have f: "find_execution (es_store st1) p e = Some row" using row store[OF r(1)] by simp
    from mark_published_Inr[OF r(2) f] obtain row' where row':
      "executions es = executions (put_execution p e row' (es_store st1))" "se_record row' = se_record row"
      "se_usage_finalized_at row' = se_usage_finalized_at row" "se_webhook_event_id row' = se_webhook_event_id row"
      "se_webhook_event_id row \<noteq> None \<Longrightarrow> se_webhook_published_at row' \<noteq> None" by metis
    then show ?thesis using r(3) find_put_cong[OF row'(1)] by simp
  qed
qed

text \<open>Without a row both effects leave the store alone.\<close>

lemma reconcile_missing:
  assumes "find_execution (es_store st) (ri_project inp) (ex_id r) = None"
  shows "calm Q env st (fst (finalize_usage env tm inp None r st))" "calm Q env st (fst (publish_event env tm inp None r st))"
    "es_store (fst (finalize_usage env tm inp None r st)) = es_store st"
    "es_store (fst (publish_event env tm inp None r st)) = es_store st"
proof -
  have u: "mark_usage_finalized (ri_project inp) (ex_id r) t (es_store st) = Inr (es_store st, False)"
    "mark_webhook_published (ri_project inp) (ex_id r) t (es_store st) = Inr (es_store st, False)" for t
    using assms by (simp_all add: mark_usage_finalized_def mark_webhook_published_def)
  have rec: "es_store st1 = es_store st" if "record_usage env tm inp None r st = (st1, x)" for st1 x
    using record_usage_store[of env tm inp None r st] that by simp
  have enq: "es_store st1 = es_store st" if "enqueue_terminal env tm (ri_project inp) r i st = (st1, x)" for i st1 x
    using deliverer_store[of env tm "ri_project inp" r i st] that by simp
  show "calm Q env st (fst (finalize_usage env tm inp None r st))"
    by (auto simp: finalize_usage_def u store_call_def split: sum.split prod.split intro!: calm_then calm_same_store dest!: rec)
  show "calm Q env st (fst (publish_event env tm inp None r st))"
    by (auto simp: publish_event_def u store_call_def split: option.split sum.split prod.split intro!: calm_then calm_same_store dest!: enq)
  show "es_store (fst (finalize_usage env tm inp None r st)) = es_store st"
    by (auto simp: finalize_usage_def then_call_def u store_call_def split: sum.split prod.split dest: rec)
  show "es_store (fst (publish_event env tm inp None r st)) = es_store st"
    by (auto simp: publish_event_def then_call_def u store_call_def split: option.split sum.split prod.split dest: enq)
qed

text \<open>Together: a reconciliation keeps the invariant, and when it succeeds the work is finished.\<close>

lemma recoverable_simps [simp]:
  "rv_project (recoverable p row) = p" "rv_record (recoverable p row) = projected row"
  "rv_request (recoverable p row) = se_request row" "rv_resume_context (recoverable p row) = se_resume_context row"
  "rv_dispatch_started_at (recoverable p row) = se_dispatch_started_at row"
  "rv_webhook_event_id (recoverable p row) = se_webhook_event_id row"
  "rv_webhook_published_at (recoverable p row) = se_webhook_published_at row"
  "rv_usage_finalized_at (recoverable p row) = se_usage_finalized_at row"
  by (simp_all add: recoverable_def)

lemma reconcile_effect:
  assumes inv: "engine_inv Q env st" and ok: "input_ok (es_store st) inp"
    and eq: "reconcile_terminal env tm inp st = (st', res)"
  shows "calm Q env st st'" "res = Inr () \<Longrightarrow> finished st' (ri_project inp) (ex_id (ri_record inp))"
proof -
  define p e where "p = ri_project inp" and "e = ex_id (ri_record inp)"
  have "calm Q env st st' \<and> (res = Inr () \<longrightarrow> finished st' p e)"
  proof (cases "find_execution (es_store st) p e")
    case None
    let ?fin = "finalize_usage env tm inp None (ri_record inp) st"
    have *: "calm Q env st (fst ?fin)" "es_store (fst ?fin) = es_store st"
      using reconcile_missing[of st inp "ri_record inp"] None p_def e_def by auto
    have pub: "calm Q env st1 (fst (publish_event env tm inp None (ri_record inp) st1)) \<and>
        es_store (fst (publish_event env tm inp None (ri_record inp) st1)) = es_store st" if "?fin = (st1, Inr ())" for st1
      using reconcile_missing[of st1 inp "ri_record inp"] None p_def e_def *(2) that by auto
    have st': "(st', res) = then_call ?fin (\<lambda>_. publish_event env tm inp None (ri_record inp))"
      using eq None p_def e_def by (simp add: reconcile_terminal_def get_recoverable_def settled_record_def Let_def)
    have "calm Q env st st' \<and> es_store st' = es_store st"
    proof (cases "?fin")
      case (Pair st1 x)
      note c1 = *[unfolded Pair fst_conv]
      show ?thesis
      proof (cases x)
        case (Inl err)
        then show ?thesis using st' c1 Pair by simp
      next
        case (Inr u)
        then have "publish_event env tm inp None (ri_record inp) st1 = (st', res)" using st' Pair by simp
        then show ?thesis using pub[of st1] Pair Inr c1(1) calm_trans by (metis fst_conv old.unit.exhaust)
      qed
    qed
    then show ?thesis using None by (simp add: finished_def)
  next
    case (Some row)
    have t: "row_terminal row" "agrees (ri_report inp) (resume_report (se_resume_context row))"
      "agrees (ri_reservation inp) (resume_reservation (se_resume_context row))"
      using ok Some p_def e_def by (auto simp: input_ok_def)
    have id: "ex_id (se_record row) = e" using engine_inv_row[OF inv Some] by (simp add: row_ok_def)
    let ?rv = "recoverable p row"
    let ?fin = "finalize_usage env tm inp (Some ?rv) (projected row) st"
    have st': "(st', res) = then_call ?fin (\<lambda>_. publish_event env tm inp (Some ?rv) (projected row))"
      using eq Some t(1) settled_record_id[OF Some t(1) p_def[symmetric] e_def[symmetric]] p_def e_def
      by (simp add: reconcile_terminal_def get_recoverable_def Let_def)
    note fin = finalize_usage_row[OF Some t(1) p_def[symmetric] id t(2,3)]
    show ?thesis
    proof (cases "?fin")
      case (Pair st1 x)
      have c1: "calm Q env st st1" using fin(1)[of Q env tm] unfolding Pair by simp
      show ?thesis
      proof (cases x)
        case (Inl err)
        then show ?thesis using st' c1 Pair by simp
      next
        case (Inr u)
        obtain row1 where row1: "find_execution (es_store st1) p e = Some row1" "se_usage_finalized_at row1 \<noteq> None"
          "row1 = row\<lparr>se_usage_finalized_at := se_usage_finalized_at row1\<rparr>"
          using fin(2)[of env tm st1] Pair Inr by auto
        have proj: "projected row1 = projected row" "ex_id (se_record row1) = e" "row_terminal row1"
          "se_webhook_event_id row1 = se_webhook_event_id row" "se_webhook_published_at row1 = se_webhook_published_at row"
          using id t(1) arg_cong[OF row1(3), of projected] arg_cong[OF row1(3), of se_record]
            arg_cong[OF row1(3), of se_webhook_event_id] arg_cong[OF row1(3), of se_webhook_published_at]
          by (simp_all add: projected_def row_terminal_def)
        note pub = publish_event_row[OF row1(1) p_def[symmetric] proj(2), where rv = ?rv and env = env and tm = tm]
        have st2: "publish_event env tm inp (Some ?rv) (projected row1) st1 = (st', res)"
          using st' Pair Inr proj(1) by simp
        have "calm Q env st1 st'" using pub(1) st2 proj by simp
        moreover have "finished st' p e" if "res = Inr ()"
          using pub(2)[of st'] st2 that row1(2) proj by (auto simp: finished_def finished_row_def row_terminal_def)
        ultimately show ?thesis using c1 calm_trans by blast
      qed
    qed
  qed
  then show "calm Q env st st'" "res = Inr () \<Longrightarrow> finished st' (ri_project inp) (ex_id (ri_record inp))"
    by (simp_all add: p_def e_def)
qed

lemma calm_reconcile:
  assumes "engine_inv Q env st \<Longrightarrow> input_ok (es_store st) inp"
  shows "calm Q env st (fst (reconcile_terminal env tm inp st))"
  by (rule calmI) (use assms reconcile_effect(1) in \<open>metis prod.collapse\<close>)

lemma input_ok_stored:
  "find_execution es p e = Some row \<Longrightarrow> row_terminal row \<Longrightarrow> ex_id (se_record row) = e \<Longrightarrow>
   input_ok es (reconcile_stored (recoverable p row))"
  by (simp add: input_ok_def reconcile_stored_def agrees_def)

end
