(* ===== verification/Engine_Steps.thy ===== *)
theory Engine_Steps
  imports Engine_Effects
begin

text \<open>
  Every step of a run, of an execution job and of a cancellation keeps the invariant of the engine and
  acknowledges finished work only.
\<close>

subsection \<open>Marks on a row\<close>

lemma set_event_id_Inr:
  assumes "set_webhook_event_id p e i es = Inr (es', ok)" "find_execution es p e = Some row"
  shows "es' = put_execution p e (row\<lparr>se_webhook_event_id := Some i\<rparr>) es"
    "exec_step row (row\<lparr>se_webhook_event_id := Some i\<rparr>)"
  using assms by (auto simp: set_webhook_event_id_def split: if_splits intro!: step_event)

lemma calm_event_id:
  assumes "set_webhook_event_id p e i (es_store st) = Inr (es', ok)"
  shows "calm Q env st (st\<lparr>es_store := es'\<rparr>)"
proof (cases "find_execution (es_store st) p e")
  case None
  then show ?thesis using assms by (auto simp: set_webhook_event_id_def intro: calm_same_store)
next
  case (Some row)
  let ?row = "row\<lparr>se_webhook_event_id := Some i\<rparr>"
  show ?thesis
    by (rule calm_put_row[OF _ _ Some, of _ ?row])
      (use set_event_id_Inr[OF assms Some] in \<open>auto simp: row_ok_same[of ?row row]\<close>)
qed

lemma calm_resume_context:
  assumes "set_resume_context p e ra (es_store st) = Inr (es', ok)"
    "find_execution (es_store st) p e = Some row" "\<not> row_terminal row"
  shows "calm Q env st (st\<lparr>es_store := es'\<rparr>)"
proof (rule calm_row)
  show "moves_row (es_store st) es'" by (rule set_resume_context_moves_row[OF assms(1)])
  fix p1 e1 row1
  assume inv: "engine_inv Q env st" and f: "find_execution es' p1 e1 = Some row1"
  let ?row = "row\<lparr>se_resume_context := Some (ra_resume_context ra), se_webhook_event_id := Some (ra_webhook_event_id ra)\<rparr>"
  have es': "es' = put_execution p e ?row (es_store st)"
    using assms(1,2) by (auto simp: set_resume_context_def split: if_splits)
  have "row_ok env (es_outbox st) e ?row"
    using engine_inv_row[OF inv assms(2)] assms(3)
    by (auto simp: row_ok_def outcome_ok_def begun_def row_terminal_def cong: exec_outcome.case_cong)
  then show "row_ok env (es_outbox st) e1 row1"
    using f es' engine_inv_row[OF inv] by (auto split: if_splits)
qed

lemma calm_connection:
  assumes "set_resolved_connection p e c (es_store st) = Inr es'"
  shows "calm Q env st (st\<lparr>es_store := es'\<rparr>)"
proof (rule set_resolved_connection_Inr[OF assms])
  fix row :: stored_execution
  let ?row = "row\<lparr>se_resolved_connection := c\<rparr>"
  assume "find_execution (es_store st) p e = Some row"
    "executions es' = executions (put_execution p e ?row (es_store st))" "exec_sequence es' = exec_sequence (es_store st)"
  then show ?thesis
    by (intro calm_put_row[where row' = ?row and row = row]) (auto simp: row_ok_same[of ?row row] intro: step_connection)
qed

lemma calm_replayed:
  assumes "mark_replayed p e t (es_store st) = Inr (es', ok)"
  shows "calm Q env st (st\<lparr>es_store := es'\<rparr>)"
proof (cases "find_execution (es_store st) p e")
  case None
  then show ?thesis using assms by (auto simp: mark_replayed_def intro: calm_same_store)
next
  case (Some row)
  then obtain u where u: "set_once (se_replay_observed_at row) t = Inr u"
    and es': "es' = put_execution p e (row\<lparr>se_replay_observed_at := u\<rparr>) (es_store st)"
    using assms by (auto simp: mark_replayed_def bind_result_Inr_iff)
  let ?row = "row\<lparr>se_replay_observed_at := u\<rparr>"
  have ok: "row_ok env (es_outbox st) e ?row = row_ok env (es_outbox st) e row" by (rule row_ok_same) simp_all
  from u have "exec_step row ?row \<or> ?row = row"
    by (cases rule: set_once_Inr) (auto intro: step_replay)
  then show ?thesis by (intro calm_put_row[OF _ _ Some, of _ ?row]) (auto simp: es' ok)
qed

subsection \<open>Interrupted work\<close>

lemma interrupted_record_simps [simp]:
  "ex_id (interrupted_record r b t) = ex_id r" "ex_status (interrupted_record r b t) = St_Failed"
  by (simp_all add: interrupted_record_def ex_status_def Let_def)

lemma outcome_ok_failed: "ex_outcome r = Out_Failed e n \<Longrightarrow> outcome_ok (row\<lparr>se_record := r\<rparr>)"
  by (simp add: outcome_ok_def)

lemma interrupted_outcome: "\<exists>e n. ex_outcome (interrupted_record r b t) = Out_Failed e n"
  by (simp add: interrupted_record_def Let_def)

lemma fail_interrupted_effect:
  assumes inv: "engine_inv Q env st" and row: "find_execution (es_store st) p e = Some row"
    and eq: "fail_interrupted env tm (recoverable p row) event b st = (st', res)"
  shows "calm Q env st st'" "res = Inr () \<Longrightarrow> finished st' p e"
proof -
  have id: "ex_id (se_record row) = e" using engine_inv_row[OF inv row] by (simp add: row_ok_def)
  let ?t = "\<lambda>now. interrupted_record (projected row) b now"
  let ?inp = "\<lambda>now. (reconcile_stored (recoverable p row))\<lparr>ri_record := ?t now, ri_event := Some event\<rparr>"
  have "calm Q env st st' \<and> (res = Inr () \<longrightarrow> finished st' p e)"
  proof (cases "set_webhook_event_id p e event (es_store st)")
    case (Inl err)
    then show ?thesis using eq id by (auto simp: fail_interrupted_def Let_def)
  next
    case (Inr x)
    obtain es ok where x: "x = (es, ok)" by fastforce
    let ?st1 = "st\<lparr>es_store := es\<rparr>"
    have c1: "calm Q env st ?st1" by (rule calm_event_id) (use Inr x in simp)
    have row1: "find_execution (es_store ?st1) p e = Some (row\<lparr>se_webhook_event_id := Some event\<rparr>)"
      using set_event_id_Inr(1)[OF Inr[unfolded x] row] by simp
    show ?thesis
    proof (cases "engine_now 0 tm")
      case (Inl err)
      then show ?thesis using eq id Inr x c1 by (auto simp: fail_interrupted_def Let_def)
    next
      case (Inr now)
      obtain st2 y where upd: "update_record p (?t now) ?st1 = (st2, y)" by fastforce
      have c2: "calm Q env ?st1 st2"
        using calm_update[of Q env ?st1 p "?t now"] outcome_ok_failed interrupted_outcome[of "projected row" b now] upd by fastforce
      have eq2: "(case y of Inl err \<Rightarrow> (st2, Inl err)
          | Inr u \<Rightarrow> reconcile_terminal env (after_reads 1 tm) (?inp now) st2) = (st', res)"
        using eq id \<open>set_webhook_event_id p e event (es_store st) = Inr x\<close> x Inr upd
        by (cases y) (auto simp: fail_interrupted_def Let_def then_call_def)
      show ?thesis
      proof (cases y)
        case (Inl err)
        then show ?thesis using eq2 calm_trans[OF c1 c2] by auto
      next
        case (Inr u)
        have inv2: "engine_inv Q env st2" using calmD(1)[OF calm_trans[OF c1 c2] inv] .
        have upd': "update_record p (?t now) ?st1 = (st2, Inr ())" using upd Inr by simp
        obtain row2 where "find_execution (es_store ?st1) p (ex_id (?t now)) = Some row2"
          "find_execution (es_store st2) p (ex_id (?t now)) = Some (row2\<lparr>se_record := ?t now\<rparr>)"
          by (rule update_record_Inr[OF upd']) simp
        then have row2: "find_execution (es_store ?st1) p e = Some row2"
          "find_execution (es_store st2) p e = Some (row2\<lparr>se_record := ?t now\<rparr>)"
          using id by simp_all
        have ok: "input_ok (es_store st2) (?inp now)"
          using row2 row1 id by (simp add: input_ok_def reconcile_stored_def row_terminal_def agrees_def)
        have rec: "reconcile_terminal env (after_reads 1 tm) (?inp now) st2 = (st', res)" using eq2 Inr by simp
        note r = reconcile_effect[OF inv2 ok rec]
        have "calm Q env st2 st'" "res = Inr () \<longrightarrow> finished st' p e"
          using r id by (simp_all add: reconcile_stored_def)
        then show ?thesis using c1 c2 calm_trans by blast
      qed
    qed
  qed
  then show "calm Q env st st'" "res = Inr () \<Longrightarrow> finished st' p e" by simp_all
qed

subsection \<open>Answers, replies and the end of a run\<close>

lemma delete_subset: "set (js_delete k m) \<subseteq> set m"
  by (auto simp: AList.delete_eq)

lemma good_answer:
  assumes "engine_inv Q env st \<Longrightarrow> acknowledges a \<Longrightarrow> is_execution_id e \<Longrightarrow> finished st p e"
  shows "good Q env st (answer_job p e a st)"
proof -
  have "engine_inv Q env (answer_job p e a st) = engine_inv Q env st" "es_store (answer_job p e a st) = es_store st"
    by (simp_all add: engine_inv_def answer_job_def)
  then show ?thesis
    using assms by (auto simp: good_def answers_ok_def answer_job_def finished_def)
qed

lemma calm_reply [simp]: "calm Q env st (reply c r st)"
  by (rule calm_frame) (use delete_subset in \<open>fastforce simp: reply_def engine_inv_def\<close>)+

lemma calm_delete_run [simp]: "calm Q env st (st\<lparr>es_runs := js_delete i (es_runs st)\<rparr>)"
  by (rule calm_frame) (use delete_subset in \<open>fastforce simp: engine_inv_def\<close>)+

lemma not_acknowledged [simp]:
  "\<not> acknowledges (reschedule tm k)" "\<not> acknowledges (reschedule_inside tm)" "\<not> acknowledges (Some (Handler_Fail c))"
  by (auto simp: acknowledges_def reschedule_def reschedule_inside_def split: option.splits sum.splits)

lemma finished_missing: "find_execution (es_store st) p e = None \<Longrightarrow> finished st p e"
  by (simp add: finished_def)

lemma reconcile_row_effect:
  assumes inv: "engine_inv Q env st" and row: "find_execution (es_store st) p e = Some row" "row_terminal row"
    and eq: "reconcile_row env tm (recoverable p row) st = (st', res)"
  shows "calm Q env st st'" "res = Inr () \<Longrightarrow> finished st' p e"
proof -
  have id: "ex_id (se_record row) = e" using engine_inv_row[OF inv row(1)] by (simp add: row_ok_def)
  note * = reconcile_effect[OF inv input_ok_stored[OF row id] eq[unfolded reconcile_row_def]]
  show "calm Q env st st'" "res = Inr () \<Longrightarrow> finished st' p e"
    using * id by (simp_all add: reconcile_stored_def)
qed

lemma recoverable_eq: "get_recoverable p e es = Some rv \<longleftrightarrow> (\<exists>row. find_execution es p e = Some row \<and> rv = recoverable p row)"
  by (auto simp: get_recoverable_def)

lemma good_job_end:
  assumes fin: "engine_inv Q env st \<Longrightarrow> res = Inr () \<Longrightarrow> finished st p e"
  shows "good Q env st (job_end env tm p e res st)"
proof (rule goodI)
  assume inv: "engine_inv Q env st"
  show ?thesis
  proof (cases res)
    case (Inr u)
    then show ?thesis using fin[OF inv] by (auto simp: job_end_def intro!: good_answer)
  next
    case (Inl err)
    show ?thesis
    proof (cases "get_recoverable p e (es_store st)")
      case None
      then show ?thesis using Inl by (auto simp: job_end_def intro!: good_answer)
    next
      case (Some rv)
      then obtain row where row: "find_execution (es_store st) p e = Some row" "rv = recoverable p row"
        by (auto simp: recoverable_eq)
      show ?thesis
      proof (cases "row_terminal row")
        case False
        then show ?thesis using Inl Some row by (auto simp: job_end_def row_terminal_def intro!: good_answer)
      next
        case True
        obtain st1 x where eq: "reconcile_row env tm rv st = (st1, x)" by fastforce
        note r = reconcile_row_effect[OF inv row(1) True eq[unfolded row(2)]]
        have "good Q env st1 (case x of Inl e1 \<Rightarrow> answer_job p e (reschedule tm 0) st1
            | Inr u \<Rightarrow> answer_job p e (Some (terminal_answer (rv_record rv))) st1)"
          using r(2) by (cases x) (auto intro!: good_answer)
        from calm_good_trans[OF r(1) this] show ?thesis
          using Inl Some row(2) True eq by (cases x) (simp_all add: job_end_def row_terminal_def)
      qed
    qed
  qed
qed

lemma calm_call_end [simp]: "calm Q env st (call_end c p e res st)"
  by (simp add: call_end_def split: sum.split option.split)

lemma good_run_end:
  assumes fin: "engine_inv Q env st \<Longrightarrow> res = Inr () \<Longrightarrow> finished st (er_project run) (run_id run)"
  shows "good Q env st (run_end env tm i run res st)"
proof (rule goodI)
  assume inv: "engine_inv Q env st"
  let ?st1 = "release_permit (er_permit run) st"
  let ?st2 = "?st1\<lparr>es_runs := js_delete i (es_runs ?st1)\<rparr>"
  have c: "calm Q env st ?st2" by (rule calm_trans[OF calm_release_permit calm_delete_run])
  have store: "es_store ?st2 = es_store st" by (simp add: release_permit_def split: option.split)
  have "good Q env ?st2 (case er_owner run of
      For_Job \<Rightarrow> job_end env tm (er_project run) (run_id run) res ?st2
    | For_Call c \<Rightarrow> call_end c (er_project run) (run_id run) res ?st2)"
  proof (cases "er_owner run")
    case For_Job
    have "good Q env ?st2 (job_end env tm (er_project run) (run_id run) res ?st2)"
      by (rule good_job_end) (use fin[OF inv] store in \<open>simp add: finished_def\<close>)
    then show ?thesis using For_Job by simp
  qed (simp add: calm_good)
  then show ?thesis using calm_good_trans[OF c] by (simp add: run_end_def Let_def)
qed

subsection \<open>The catches\<close>

lemma good_after:
  assumes "engine_inv Q env st \<Longrightarrow> calm Q env st st1" "\<And>x. engine_inv Q env st1 \<Longrightarrow> good Q env st1 (f x)"
  shows "good Q env st (f x)"
  using assms by (metis calmD(1) calm_good_trans goodI)

lemma good_rethrow: "good Q env st (rethrow env tm i run err attempted finalized st)"
proof -
  obtain st1 x where eq: "release_reservation env (er_reservation run) (tm_gate tm 0) st = (st1, x)" by fastforce
  have c: "calm Q env st st1" using calm_release_reservation[of Q env st env] eq by (metis fst_conv)
  have "good Q env st1 (run_end env t i run (Inl err') st1)" for t err' by (rule good_run_end) simp
  then have "good Q env st (run_end env t i run (Inl err') st1)" for t err' using calm_good_trans[OF c] by blast
  moreover have "good Q env st (run_end env t i run (Inl err') st)" for t err' by (rule good_run_end) simp
  ultimately show ?thesis by (auto simp: rethrow_def eq split: sum.split)
qed

lemma good_outer_catch: "good Q env st (outer_catch env tm i run err attempted finalized st)"
proof (rule goodI)
  assume inv: "engine_inv Q env st"
  let ?p = "er_project run" and ?e = "run_id run"
  show ?thesis
  proof (cases "\<exists>row. find_execution (es_store st) ?p ?e = Some row \<and> ex_status (se_record row) = St_Cancelled \<and>
      (is_transition_conflict err \<or> err = Th_Fenced \<or> er_aborted run)")
    case False
    then show ?thesis
      using good_rethrow by (auto simp: outer_catch_def get_recoverable_def split: option.split)
  next
    case True
    then obtain row where row: "find_execution (es_store st) ?p ?e = Some row" "ex_status (se_record row) = St_Cancelled"
      and c: "is_transition_conflict err \<or> err = Th_Fenced \<or> er_aborted run" by blast
    have t: "row_terminal row" by (simp add: row_terminal_def row(2))
    obtain st1 x where eq: "reconcile_row env tm (recoverable ?p row) st = (st1, x)" by fastforce
    note r = reconcile_row_effect[OF inv row(1) t eq]
    have "good Q env st1 (case x of Inl e \<Rightarrow> run_end env (after_reads 3 tm) i run (Inl (Th_Js e)) st1
        | Inr u \<Rightarrow> run_end env (after_reads 3 tm) i run (Inr ()) st1)"
      using r(2) by (cases x) (auto intro!: good_run_end)
    from calm_good_trans[OF r(1) this] show ?thesis
      using c row eq by (cases x) (simp_all add: outer_catch_def get_recoverable_def)
  qed
qed

lemma run_record_simps [simp]:
  "ex_id (running_record run) = run_id run" "ex_id (failed_run_record run e t) = run_id run"
  "ex_id (succeeded_run_record run v t) = run_id run"
  "ex_outcome (running_record run) = Out_Running"
  "ex_outcome (failed_run_record run e t) = Out_Failed e (max 0 (t - er_started_at run))"
  "ex_outcome (succeeded_run_record run v t) = Out_Succeeded v (max 0 (t - er_started_at run))"
  by (simp_all add: running_record_def failed_run_record_def succeeded_run_record_def run_id_def)

text \<open>After the update to a terminal record the run may reconcile.\<close>

lemma run_update_effect:
  assumes inv: "engine_inv Q env st" and run: "run_ok (es_store st) run" and r: "ex_id r = run_id run"
    "terminal_status (ex_status r)"
    and ok: "\<And>row. find_execution (es_store st) (er_project run) (run_id run) = Some row \<Longrightarrow> outcome_ok (row\<lparr>se_record := r\<rparr>)"
    and eq: "update_record (er_project run) r st = (st1, x)"
  shows "calm Q env st st1" "x = Inr () \<Longrightarrow> input_ok (es_store st1) (run_input run r)"
proof -
  show c: "calm Q env st st1" using calm_update[of Q env st "er_project run" r] ok r(1) eq by simp
  assume x: "x = Inr ()"
  obtain row c where row: "find_execution (es_store st) (er_project run) (run_id run) = Some row"
    "se_resume_context row = Some c" "er_report run = rc_usage_report c" "er_reservation run = rc_usage_reservation c"
    using run by (auto simp: run_ok_def)
  obtain row1 where "find_execution (es_store st) (er_project run) (run_id run) = Some row1"
    "find_execution (es_store st1) (er_project run) (run_id run) = Some (row1\<lparr>se_record := r\<rparr>)"
    using update_record_Inr[of "er_project run" r st st1] eq x r(1) by metis
  then show "input_ok (es_store st1) (run_input run r)"
    using row r by (simp add: input_ok_def run_input_def row_terminal_def agrees_def resume_report_def resume_reservation_def)
qed

lemma good_inner_catch:
  assumes run: "run_ok (es_store st) run"
  shows "good Q env st (inner_catch env tm i run err attempted st)"
proof (rule goodI)
  assume inv: "engine_inv Q env st"
  show ?thesis
  proof (cases "err = Th_Fenced \<or> (\<exists>e. engine_now 0 tm = Inl e)")
    case True
    then show ?thesis using good_outer_catch by (auto simp: inner_catch_def split: sum.split)
  next
    case False
    then obtain now where now: "err \<noteq> Th_Fenced" "engine_now 0 tm = Inr now" by (cases "engine_now 0 tm") auto
    let ?r = "failed_run_record run (normalized_error err) now"
    obtain st1 x where upd: "update_record (er_project run) ?r st = (st1, x)" by fastforce
    have t: "ex_id ?r = run_id run" "terminal_status (ex_status ?r)" by (simp_all add: ex_status_def)
    note u = run_update_effect[OF inv run t _ upd]
    have c1: "calm Q env st st1" by (rule u(1)) (simp add: outcome_ok_def)
    have inv1: "engine_inv Q env st1" by (rule calmD(1)[OF c1 inv])
    show ?thesis
    proof (cases x)
      case (Inl e)
      then show ?thesis
        using now upd calm_good_trans[OF c1 good_outer_catch] by (simp add: inner_catch_def Let_def)
    next
      case (Inr w)
      have ok: "input_ok (es_store st1) (run_input run ?r)" by (rule u(2)) (use Inr in \<open>simp_all add: outcome_ok_def\<close>)
      obtain st2 y where rec: "reconcile_terminal env (after_reads 1 tm) (run_input run ?r) st1 = (st2, y)" by fastforce
      note r = reconcile_effect[OF inv1 ok rec]
      have "good Q env st2 (case y of Inl e \<Rightarrow> outer_catch env (after_reads 4 tm) i run (Th_Js e) attempted False st2
         | Inr u \<Rightarrow> if err = Th_Unexpected_Credential
            then outer_catch env (after_reads 4 tm) i run err attempted True st2
            else run_end env (after_reads 7 tm) i run (Inr ()) st2)"
        using r(2) good_outer_catch by (cases y) (auto simp: run_input_def intro!: good_run_end)
      from calm_good_trans[OF calm_trans[OF c1 r(1)] this] show ?thesis
        using now upd Inr rec by (cases y) (simp_all add: inner_catch_def Let_def)
    qed
  qed
qed

subsection \<open>The steps of a run\<close>

lemma set_js_set: "set (js_set k v m) \<subseteq> insert (k, v) (set m)"
  by (induction m) auto

lemma calm_put_run:
  assumes "engine_inv Q env st \<Longrightarrow> run_ok (es_store st) run"
  shows "calm Q env st (put_run i run st)"
  by (rule calm_frame) (use assms in \<open>auto simp: put_run_def engine_inv_def dest!: subsetD[OF set_js_set]\<close>)

lemma good_run_permitted:
  assumes run: "run_ok (es_store st) run" and phase: "er_phase run \<noteq> Ph_Dispatched"
  shows "good Q env st (run_permitted env tm i run st)"
proof (rule goodI)
  assume inv: "engine_inv Q env st"
  show ?thesis
  proof (cases "er_aborted run \<or> (\<exists>e. run_start tm run = Inl e)")
    case True
    then show ?thesis using good_outer_catch by (auto simp: run_permitted_def split: sum.split)
  next
    case False
    then obtain started where s: "\<not> er_aborted run" "run_start tm run = Inr started" by (cases "run_start tm run") auto
    let ?run = "run\<lparr>er_started_at := started\<rparr>"
    obtain st1 x where m: "mark_running ?run st = (st1, x)" by fastforce
    have c: "calm Q env st st1"
      using calm_update[of Q env st "er_project run" "running_record ?run"] m
      by (fastforce simp: mark_running_def outcome_ok_def split: if_splits)
    have ok: "run_ok (es_store st1) ?run"
      using calm_run_ok[OF c inv run] by (rule run_ok_cong) simp_all
    then have "run_ok (es_store st1) (?run\<lparr>er_phase := Ph_Credentials\<rparr>)" by (rule run_ok_cong) simp_all
    then have "good Q env st1 (case x of Inl e \<Rightarrow> outer_catch env (after_reads 1 tm) i ?run (Th_Js e) False False st1
       | Inr u \<Rightarrow> (case require_adapter env (td_toolkit (er_tool ?run)) of
            Inl err \<Rightarrow> inner_catch env (after_reads 1 tm) i ?run err False st1
          | Inr u \<Rightarrow> put_run i (?run\<lparr>er_phase := Ph_Credentials\<rparr>) st1))"
      using good_outer_catch good_inner_catch[OF ok] by (auto split: sum.split intro!: calm_good[OF calm_put_run])
    from calm_good_trans[OF c this] show ?thesis
      using s m by (cases x; cases "require_adapter env (td_toolkit (er_tool run))") (simp_all add: run_permitted_def Let_def)
  qed
qed

lemma calm_limiter [simp]: "calm Q env st (st\<lparr>es_limiter := l\<rparr>)"
  by (rule calm_same) simp_all

lemma good_run_begin:
  assumes run: "run_ok (es_store st) run" and phase: "er_phase run = Ph_Credentials"
  shows "good Q env st (run_begin env tm i run reserved st)"
proof -
  have ok: "run_ok (es_store (st\<lparr>es_limiter := l\<rparr>)) (run\<lparr>er_permit := p\<rparr>)" for l p
    using run by (simp add: run_ok_def run_id_def)
  have permitted: "good Q env st (run_permitted env tm i (run\<lparr>er_permit := p\<rparr>) (st\<lparr>es_limiter := l\<rparr>))" for l p
    by (rule calm_good_trans[OF calm_limiter good_run_permitted[OF ok]]) (simp add: phase)
  have permitted': "good Q env st (run_permitted env tm i (run\<lparr>er_permit := p\<rparr>) st)" for p
    using permitted[of p "es_limiter st"] by simp
  have wait: "good Q env st (put_run i (run\<lparr>er_permit := None, er_phase := Ph_Permit w\<rparr>) (st\<lparr>es_limiter := l\<rparr>))" for w l
    by (rule calm_good_trans[OF calm_limiter calm_good[OF calm_put_run]]) (use run in \<open>auto simp: run_ok_def run_id_def\<close>)
  show ?thesis
    using permitted permitted' wait good_outer_catch
    by (auto simp: run_begin_def split: option.split sum.split prod.split)
qed

lemma run_in_state: "engine_inv Q env st \<Longrightarrow> map_of (es_runs st) i = Some run \<Longrightarrow> run_ok (es_store st) run"
  by (force simp: engine_inv_def dest: map_of_SomeD)

lemma good_refl [simp]: "good Q env st st"
  by (rule calm_good) simp

lemma good_step_permit: "good Q env st (step_permit env tm i st)"
proof (rule goodI)
  assume inv: "engine_inv Q env st"
  show ?thesis
  proof (cases "map_of (es_runs st) i")
    case (Some run)
    have "run_ok (es_store st) (run\<lparr>er_permit := p\<rparr>)" for p
      using run_in_state[OF inv Some] by (rule run_ok_cong) simp_all
    then show ?thesis
      using Some good_run_permitted by (auto simp: step_permit_def split: run_phase.split option.split)
  qed (simp add: step_permit_def)
qed

text \<open>The only step that calls an adapter: its row had no dispatch before.\<close>

lemma good_dispatch:
  assumes run: "run_ok (es_store st) run"
    and valid: "validate_credential credential (er_request run) (er_manifest run) (er_scopes run) checked_at = Inr ()"
  shows "good Q env st (dispatch env tm i run credential checked_at st)"
proof (rule goodI)
  assume inv: "engine_inv Q env st"
  let ?p = "er_project run" and ?e = "run_id run"
  show ?thesis
  proof (cases "er_aborted run \<or> (\<exists>e. engine_now 1 tm = Inl e)")
    case True
    then show ?thesis using good_inner_catch[OF run] by (auto simp: dispatch_def split: sum.split)
  next
    case False
    then obtain now where now: "\<not> er_aborted run" "engine_now 1 tm = Inr now" by (cases "engine_now 1 tm") auto
    show ?thesis
    proof (cases "mark_dispatch_started ?p ?e (Iso now) (es_store st)")
      case (Inl e)
      then show ?thesis using now good_inner_catch[OF run] by (simp add: dispatch_def)
    next
      case (Inr x)
      obtain es marked where x: "x = (es, marked)" by fastforce
      show ?thesis
      proof (cases marked)
        case False
        then have "es = es_store st"
          using Inr x by (auto simp: mark_dispatch_started_def bind_result_Inr_iff split: option.splits if_splits)
        then show ?thesis using now Inr x False good_inner_catch[OF run] by (simp add: dispatch_def)
      next
        case True
        obtain row ms where row: "find_execution (es_store st) ?p ?e = Some row"
          "ex_status (se_record row) = St_Running" "se_dispatch_started_at row = None"
          and es: "es = put_execution ?p ?e (row\<lparr>se_dispatch_started_at := Some (Iso ms)\<rparr>) (es_store st)"
          using mark_dispatch_started_cases[OF Inr[unfolded x]] True by blast
        let ?row = "row\<lparr>se_dispatch_started_at := Some (Iso ms)\<rparr>"
        have open_row: "\<not> row_terminal row" "outcome_ok ?row"
          using row(2) by (auto simp: row_terminal_def outcome_ok_def ex_status_def split: exec_outcome.splits)
        have c: "calm Q env st (st\<lparr>es_store := es\<rparr>)"
        proof (rule calm_put_row[OF _ _ row(1), of _ ?row])
          show "exec_step row ?row \<or> ?row = row" using step_dispatch[OF row(2,3)] by blast
          show "row_ok env (es_outbox st) ?e ?row" if "row_ok env (es_outbox st) ?e row"
            using row_ok_open[OF that open_row(1)] open_row(2) that by (simp add: row_ok_def)
        qed (simp_all add: es)
        have ok: "run_ok es run" using calm_run_ok[OF c inv run] by simp
        show ?thesis
        proof (cases "resolve_base_url env (er_manifest run)")
          case (Inl err)
          have "good Q env (st\<lparr>es_store := es\<rparr>) (inner_catch env (after_reads 2 tm) i run err True (st\<lparr>es_store := es\<rparr>))"
            by (rule good_inner_catch) (simp add: ok)
          from calm_good_trans[OF c this] show ?thesis
            using now \<open>mark_dispatch_started ?p ?e (Iso now) (es_store st) = Inr x\<close> x True Inl by (simp add: dispatch_def)
        next
          case (Inr url)
          let ?d = "\<lparr>dp_project = ?p, dp_execution = ?e, dp_tool = er_tool run, dp_request = er_request run,
            dp_scopes = er_scopes run, dp_manifest = er_manifest run, dp_credential = credential, dp_base_url = url,
            dp_checked_at = checked_at\<rparr>"
          let ?st = "st\<lparr>es_store := es, es_dispatches := es_dispatches st @ [?d]\<rparr>"
          have inv1: "engine_inv Q env (st\<lparr>es_store := es\<rparr>)" by (rule calmD(1)[OF c inv])
          have "dispatch_ok es ?d"
            using run row(1) valid es by (auto simp: dispatch_ok_def run_ok_def begun_def)
          moreover have "dispatch_key ?d \<notin> set (map dispatch_key (es_dispatches st))"
          proof
            assume "dispatch_key ?d \<in> set (map dispatch_key (es_dispatches st))"
            then obtain d where "d \<in> set (es_dispatches st)" "dp_project d = ?p" "dp_execution d = ?e"
              by (auto simp: dispatch_key_def)
            then have "begun row" using inv row(1) by (fastforce simp: engine_inv_def dispatch_ok_def)
            then show False using row(3) by (simp add: begun_def)
          qed
          ultimately have inv2: "engine_inv Q env ?st"
            using inv1 by (auto simp: engine_inv_def)
          then have c2: "good Q env st ?st"
            using calmD(2)[OF c inv] by (simp add: good_def answers_ok_def)
          have "run_ok es (run\<lparr>er_phase := Ph_Dispatched\<rparr>)"
            using ok es by (auto simp: run_ok_def run_id_def begun_def)
          then have c3: "calm Q env ?st (put_run i (run\<lparr>er_phase := Ph_Dispatched\<rparr>) ?st)" by (intro calm_put_run) simp
          have "good Q env st (put_run i (run\<lparr>er_phase := Ph_Dispatched\<rparr>) ?st)"
            using c2 c3 inv inv2 rows_progress_trans unfolding good_def calm_def answers_ok_def
            by (fastforce simp: put_run_def)
          then show ?thesis
            using now \<open>mark_dispatch_started ?p ?e (Iso now) (es_store st) = Inr x\<close> x True Inr by (simp add: dispatch_def)
        qed
      qed
    qed
  qed
qed

end
