(* ===== verification/Engine_Histories.thy ===== *)
theory Engine_Histories
  imports Engine_Steps History
begin

text \<open>The remaining steps, and the histories of an engine: \<open>good\<close> holds of every call of \<open>run_engine_op\<close>.\<close>

subsection \<open>Credentials and adapters\<close>

lemma good_run_credentials:
  assumes run: "run_ok (es_store st) run"
  shows "good Q env st (run_credentials env tm i run outcome st)"
proof (rule goodI)
  assume inv: "engine_inv Q env st"
  note catch = good_inner_catch[OF run]
  show ?thesis
  proof (cases outcome)
    case (Inl err)
    then show ?thesis using catch by (simp add: run_credentials_def)
  next
    case (Inr credential)
    show ?thesis
    proof (cases "set_resolved_connection (er_project run) (run_id run) (cd_connection credential) (es_store st)")
      case (Inl e)
      then show ?thesis using catch \<open>outcome = Inr credential\<close> by (simp add: run_credentials_def)
    next
      case (Inr es)
      let ?st1 = "st\<lparr>es_store := es\<rparr>"
      have c: "calm Q env st ?st1" by (rule calm_connection[OF Inr])
      have ok: "run_ok (es_store ?st1) run" by (rule calm_run_ok[OF c inv run])
      have "good Q env ?st1 (case engine_now 0 tm of
           Inl e \<Rightarrow> inner_catch env (after_reads 2 tm) i run (Th_Js e) False ?st1
         | Inr now \<Rightarrow> (case validate_credential credential (er_request run) (er_manifest run) (er_scopes run) now of
             Inl err \<Rightarrow> inner_catch env (after_reads 2 tm) i run err False ?st1
           | Inr () \<Rightarrow> dispatch env tm i run credential now ?st1))"
        using good_inner_catch[OF ok] good_dispatch[OF ok] by (auto split: sum.split)
      from calm_good_trans[OF c this] show ?thesis
        using \<open>outcome = Inr credential\<close> Inr by (simp add: run_credentials_def Let_def)
    qed
  qed
qed

lemma good_step_credentials: "good Q env st (step_credentials env tm i outcome st)"
  by (rule goodI) (auto simp: step_credentials_def split: option.split intro!: good_run_credentials run_in_state)

lemma good_run_adapter:
  assumes run: "run_ok (es_store st) run" and phase: "er_phase run = Ph_Dispatched"
  shows "good Q env st (run_adapter env tm i run outcome st)"
proof (rule goodI)
  assume inv: "engine_inv Q env st"
  note catch = good_inner_catch[OF run]
  show ?thesis
  proof (cases "(\<exists>err. bind_engine outcome (validate_tool_output env (er_tool run)) = Inl err) \<or> (\<exists>e. engine_now 0 tm = Inl e)")
    case True
    then show ?thesis using catch by (auto simp: run_adapter_def split: sum.split)
  next
    case False
    then obtain val now where o: "bind_engine outcome (validate_tool_output env (er_tool run)) = Inr val"
      "engine_now 0 tm = Inr now" by (metis obj_sumE)
    let ?r = "succeeded_run_record run val now"
    obtain st1 x where upd: "update_record (er_project run) ?r st = (st1, x)" by fastforce
    have t: "ex_id ?r = run_id run" "terminal_status (ex_status ?r)" by (simp_all add: ex_status_def)
    have out: "outcome_ok (row\<lparr>se_record := ?r\<rparr>)"
      if "find_execution (es_store st) (er_project run) (run_id run) = Some row" for row
      using run phase that by (auto simp: run_ok_def outcome_ok_def begun_def)
    note u = run_update_effect[OF inv run t out upd]
    show ?thesis
    proof (cases x)
      case (Inl e)
      have "good Q env st1 (inner_catch env (after_reads 1 tm) i run (Th_Js e) True st1)"
        by (rule good_inner_catch) (rule calm_run_ok[OF u(1) inv run])
      from calm_good_trans[OF u(1) this] show ?thesis using o upd Inl by (simp add: run_adapter_def Let_def)
    next
      case (Inr w)
      have ok: "input_ok (es_store st1) (run_input run ?r)" using u(2) Inr by simp
      obtain st2 y where rec: "reconcile_terminal env (after_reads 1 tm) (run_input run ?r) st1 = (st2, y)" by fastforce
      note r = reconcile_effect[OF calmD(1)[OF u(1) inv] ok rec]
      have "good Q env st2 (case y of Inl e \<Rightarrow> outer_catch env (after_reads 4 tm) i run (Th_Js e) True False st2
         | Inr u \<Rightarrow> run_end env (after_reads 4 tm) i run (Inr ()) st2)"
        using r(2) good_outer_catch by (cases y) (auto simp: run_input_def intro!: good_run_end)
      from calm_good_trans[OF calm_trans[OF u(1) r(1)] this] show ?thesis
        using o upd Inr rec by (cases y) (simp_all add: run_adapter_def Let_def)
    qed
  qed
qed

lemma good_step_adapter: "good Q env st (step_adapter env tm i outcome st)"
  by (rule goodI) (auto simp: step_adapter_def split: option.split intro!: good_run_adapter run_in_state)

subsection \<open>Execution jobs\<close>

lemma good_job_interrupted:
  assumes row: "find_execution (es_store st) p e = Some row"
  shows "good Q env st (job_interrupted env tm (recoverable p row) b st)"
proof (rule goodI)
  assume inv: "engine_inv Q env st"
  have id: "ex_id (se_record row) = e" using engine_inv_row[OF inv row] by (simp add: row_ok_def)
  obtain st1 x where eq: "fail_interrupted env tm (recoverable p row) (event_id_of env (recoverable p row)) b st = (st1, x)"
    by fastforce
  note r = fail_interrupted_effect[OF inv row eq]
  have "good Q env st1 (case x of Inl err \<Rightarrow> answer_job p e (reschedule tm 0) st1
      | Inr u \<Rightarrow> answer_job p e (Some Handler_Complete) st1)"
    using r(2) by (cases x) (auto intro!: good_answer)
  from calm_good_trans[OF r(1) this] show ?thesis
    using eq id by (cases x) (simp_all add: job_interrupted_def)
qed

lemma projected_tool_version [simp]: "ex_tool_version (projected row) = ex_tool_version (se_record row)"
  by (simp add: projected_def project_execution_record_def)

lemma good_job_continue:
  assumes row: "find_execution (es_store st) p e = Some row" and open_row: "\<not> row_terminal row"
  shows "good Q env st (job_continue env tm aborted (recoverable p row) st)"
proof (rule goodI)
  assume inv: "engine_inv Q env st"
  have id: "ex_id (se_record row) = e" using engine_inv_row[OF inv row] by (simp add: row_ok_def)
  have status: "ex_status (se_record row) = St_Pending \<or> ex_status (se_record row) = St_Running"
    using open_row by (simp add: row_terminal_def not_terminal_status)
  note interrupted = good_job_interrupted[OF row]
  have start: "good Q env st (run_begin env tm i (job_run (recoverable p row) c tool manifest) None (st\<lparr>es_next := n\<rparr>))"
    if "se_resume_context row = Some c" "td_version tool = ex_tool_version (se_record row)" for i c tool manifest n
  proof (rule calm_good_trans[OF calm_same good_run_begin])
    show "run_ok (es_store (st\<lparr>es_next := n\<rparr>)) (job_run (recoverable p row) c tool manifest)"
      using row id that by (simp add: run_ok_def run_id_def job_run_def)
  qed (simp_all add: job_run_def)
  show ?thesis
    using status
    by (auto simp: job_continue_def Let_def id split: option.split intro!: good_answer interrupted start)
qed

lemma good_run_execution_job: "good Q env st (run_execution_job env tm aborted p e st)"
proof (rule goodI)
  assume inv: "engine_inv Q env st"
  show ?thesis
  proof (cases "is_execution_id e")
    case False
    then show ?thesis by (auto simp: run_execution_job_def intro!: good_answer)
  next
    case valid: True
    show ?thesis
    proof (cases "find_execution (es_store st) p e")
      case None
      then show ?thesis by (auto simp: run_execution_job_def get_recoverable_def finished_missing intro!: good_answer)
    next
      case (Some row)
      let ?rv = "recoverable p row"
      have id: "ex_id (se_record row) = e" using engine_inv_row[OF inv Some] by (simp add: row_ok_def)
      have rv: "get_recoverable p e (es_store st) = Some ?rv" by (simp add: get_recoverable_def Some)
      show ?thesis
      proof (cases "row_terminal row")
        case True
        obtain st1 x where eq: "reconcile_row env tm ?rv st = (st1, x)" by fastforce
        note r = reconcile_row_effect[OF inv Some True eq]
        have "good Q env st1 (case x of Inl err \<Rightarrow> answer_job p e (reschedule tm 0) st1
          | Inr u \<Rightarrow> answer_job p e (Some (terminal_answer (rv_record ?rv))) st1)"
          using r(2) by (cases x) (auto intro!: good_answer)
        from calm_good_trans[OF r(1) this] show ?thesis
          using valid rv eq True by (cases x) (simp_all add: run_execution_job_def row_terminal_def)
      next
        case open_row: False
        note interrupted = good_job_interrupted[OF Some]
        have resumed: "good Q env st (job_continue env tm aborted (or_else (get_recoverable p e es) ?rv) (st\<lparr>es_store := es\<rparr>))"
          if "set_resume_context p e ra (es_store st) = Inr (es, ok)" for ra es ok
        proof -
          let ?row = "row\<lparr>se_resume_context := Some (ra_resume_context ra), se_webhook_event_id := Some (ra_webhook_event_id ra)\<rparr>"
          have row': "find_execution es p e = Some ?row"
            using that Some by (auto simp: set_resume_context_def split: if_splits)
          have "good Q env (st\<lparr>es_store := es\<rparr>) (job_continue env tm aborted (recoverable p ?row) (st\<lparr>es_store := es\<rparr>))"
            by (rule good_job_continue[of _ p e]) (use row' open_row in \<open>simp_all add: row_terminal_def\<close>)
          then show ?thesis
            using calm_good_trans[OF calm_resume_context[OF that Some open_row]] row'
            by (simp add: get_recoverable_def or_else_def)
        qed
        show ?thesis
        proof (cases "se_resume_context row")
          case (Some c)
          then show ?thesis
            using good_job_continue[OF \<open>find_execution (es_store st) p e = Some row\<close> open_row] valid rv open_row
            by (simp add: run_execution_job_def row_terminal_def)
        next
          case None
          then show ?thesis
            using valid rv open_row
            by (auto simp: run_execution_job_def row_terminal_def split: option.split bool.split sum.split
                intro!: good_answer interrupted resumed)
        qed
      qed
    qed
  qed
qed

subsection \<open>Cancellation\<close>

lemma calm_abort_runs: "calm Q env st (abort_runs p e st)"
proof (rule calm_frame)
  fix run
  assume "run \<in> snd ` set (es_runs (abort_runs p e st))" "engine_inv Q env st"
  then obtain run0 where "run_ok (es_store st) run0" "run = run0 \<or> run = run0\<lparr>er_aborted := True\<rparr>"
    by (auto simp: abort_runs_def engine_inv_def split: if_splits)
  then show "run_ok (es_store st) run" by (auto simp: run_ok_def run_id_def)
qed (auto simp: abort_runs_def engine_inv_def)

lemma calm_abort_job: "calm Q env st (abort_job i st)"
proof (cases "map_of (es_runs st) i")
  case (Some run)
  have "engine_inv Q env st \<Longrightarrow> run_ok (es_store st) (run\<lparr>er_aborted := True\<rparr>)"
    using run_in_state[OF _ Some] by (rule run_ok_cong) simp_all
  then show ?thesis using Some by (auto simp: abort_job_def intro: calm_put_run)
qed (simp add: abort_job_def)

lemma calm_after_cancellation:
  assumes "find_execution (es_store st) p e = Some row" "row_terminal row" "ex_id r = e"
  shows "calm Q env st (fst (after_cancellation env tm p r st))"
proof -
  let ?st1 = "abort_runs p (ex_id r) st"
  let ?inp = "\<lparr>ri_project = p, ri_record = r, ri_report = None, ri_reservation = None, ri_event = None\<rparr>"
  have "input_ok (es_store ?st1) ?inp" using assms by (simp add: input_ok_def agrees_def abort_runs_def)
  then have "calm Q env ?st1 (fst (reconcile_terminal env tm ?inp ?st1))" by (rule calm_reconcile)
  then have c: "calm Q env ?st1 (fst (then_call (reconcile_terminal env tm ?inp ?st1)
      (\<lambda>_ st1. cancel_job env (after_reads 3 tm) p (ex_id r) st1)))" (is "calm Q env _ (fst ?res)")
    by (rule calm_then) simp
  have "fst (after_cancellation env tm p r st) = fst ?res"
    unfolding after_cancellation_def by (cases ?res; cases "snd ?res") simp_all
  then show ?thesis using calm_trans[OF calm_abort_runs c] by simp
qed

lemma settle_waiters_ids: "(w, r') \<in> set (snd (settle_waiters p e r es)) \<Longrightarrow> r' = r"
  by (auto simp: settle_waiters_def)

lemma cancelled_record_outcome:
  assumes "cancelled_execution_record r t d = Inr c"
  shows "\<exists>err n. ex_outcome c = Out_Cancelled err n (d \<noteq> None)" "ex_id c = ex_id r" "\<not> ex_replayed c"
  using assms by (auto simp: cancelled_execution_record_def Let_def split: option.splits)

text \<open>The ways a cancellation ends, and the row that it leaves.\<close>

lemma cancel_execution_effect:
  assumes inv: "engine_inv Q env st" and eq: "cancel_execution p e t (es_store st) = Inr (es, ss, res)"
  shows "calm Q env st (settle p ss (st\<lparr>es_store := es\<rparr>))"
    and "res = Cancelled_Now r \<or> res = Already_Cancelled r \<Longrightarrow>
      \<exists>row. find_execution es p e = Some row \<and> row_terminal row \<and> ex_id r = e"
proof -
  have "calm Q env st (settle p ss (st\<lparr>es_store := es\<rparr>)) \<and> (\<forall>r. res = Cancelled_Now r \<or> res = Already_Cancelled r \<longrightarrow>
      (\<exists>row. find_execution es p e = Some row \<and> row_terminal row \<and> ex_id r = e))"
  proof (cases "\<exists>row c. find_execution (es_store st) p e = Some row \<and> \<not> row_terminal row \<and>
      cancelled_execution_record (se_record row) t (se_dispatch_started_at row) = Inr c")
    case False
    then have "es = es_store st" "ss = []"
      and res: "res = Cancelled_Now r \<or> res = Already_Cancelled r \<Longrightarrow>
        \<exists>row. find_execution (es_store st) p e = Some row \<and> row_terminal row \<and> r = projected row" for r
      using eq by (auto simp: cancel_execution_def bind_result_Inr_iff row_terminal_def terminal_status_def
          split: option.splits if_splits)
    moreover have "ex_id (projected row) = e" if "find_execution (es_store st) p e = Some row" for row
      using engine_inv_row[OF inv that] by (simp add: row_ok_def)
    ultimately show ?thesis by (fastforce simp: settle_def)
  next
    case True
    then obtain row c where row: "find_execution (es_store st) p e = Some row" "\<not> row_terminal row"
      and c: "cancelled_execution_record (se_record row) t (se_dispatch_started_at row) = Inr c" by blast
    note c' = cancelled_record_outcome[OF c]
    have id: "ex_id (se_record row) = e" using engine_inv_row[OF inv row(1)] by (simp add: row_ok_def)
    have t: "terminal_status (ex_status c)" using c'(1) by (auto simp: ex_status_def)
    let ?row = "row\<lparr>se_record := c\<rparr>"
    have ns: "ex_status (se_record row) \<noteq> St_Cancelled" "\<not> (ex_status (se_record row) = St_Succeeded \<or> ex_status (se_record row) = St_Failed)"
      using row(2) by (auto simp: row_terminal_def terminal_status_def)
    have ok: "assert_execution_transition (se_record row) c = Inr ()"
      and es: "executions es = executions (put_execution p e ?row (es_store st))" "exec_sequence es = exec_sequence (es_store st)"
      and ss: "ss = snd (settle_waiters p e (project_execution_record c (se_replay_observed_at row)) (put_execution p e ?row (es_store st)))"
      and res: "res = Cancelled_Now (project_execution_record c (se_replay_observed_at row))"
      using eq row(1) ns c by (auto simp: cancel_execution_def bind_result_Inr_iff Let_def settle_waiters_def)
    have calm1: "calm Q env st (st\<lparr>es_store := es\<rparr>)"
    proof (rule calm_put_row[OF es row(1) disjI1[OF assert_transition_step[OF ok]]])
      assume r: "row_ok env (es_outbox st) e row"
      show "row_ok env (es_outbox st) e ?row"
        using row_ok_open[OF r row(2)] c' id r by (auto simp: row_ok_def outcome_ok_def begun_def)
    qed
    have "find_execution es p e = Some ?row" by (simp add: find_put_cong[OF es(1)])
    moreover have "row_terminal ?row" using t by (simp add: row_terminal_def)
    moreover have "ex_id (project_execution_record c x) = e" for x
      using c'(2) id by (simp add: project_execution_record_def)
    moreover have "calm Q env (st\<lparr>es_store := es\<rparr>) (settle p ss (st\<lparr>es_store := es\<rparr>))"
      by (rule calm_settle) (use ss calculation settle_waiters_ids in \<open>fastforce\<close>)
    ultimately show ?thesis using res calm_trans[OF calm1] by auto
  qed
  then show "calm Q env st (settle p ss (st\<lparr>es_store := es\<rparr>))"
    "res = Cancelled_Now r \<or> res = Already_Cancelled r \<Longrightarrow>
      \<exists>row. find_execution es p e = Some row \<and> row_terminal row \<and> ex_id r = e" by blast+
qed

lemma calm_cancel_engine: "calm Q env st (fst (cancel_engine env tm p e st))"
proof (rule calmI)
  assume inv: "engine_inv Q env st"
  show ?thesis
  proof (cases "is_execution_id e \<and> (\<exists>now. engine_now 0 tm = Inr now)")
    case False
    then show ?thesis by (auto simp: cancel_engine_def split: sum.split)
  next
    case True
    then obtain now where now: "is_execution_id e" "engine_now 0 tm = Inr now" by blast
    show ?thesis
    proof (cases "cancel_execution p e (Iso now) (es_store st)")
      case (Inl err)
      then show ?thesis using now by (simp add: cancel_engine_def)
    next
      case (Inr x)
      obtain es ss res where x: "x = (es, ss, res)" using prod_cases3 by blast
      let ?st1 = "settle p ss (st\<lparr>es_store := es\<rparr>)"
      note c = cancel_execution_effect[OF inv Inr[unfolded x]]
      have after: "calm Q env ?st1 (fst (after_cancellation env (after_reads 1 tm) p r ?st1))"
        if "res = Cancelled_Now r \<or> res = Already_Cancelled r" for r
        using c(2)[OF that] calm_after_cancellation[of ?st1 p e] by (auto simp: settle_def)
      have "calm Q env ?st1 (fst (case res of
           Cancel_Not_Found \<Rightarrow> (?st1, Inl (not_found ''Execution was not found.''))
         | Already_Terminal r \<Rightarrow> (?st1, Inl (status_conflict r))
         | Cancelled_Now r \<Rightarrow> after_cancellation env (after_reads 1 tm) p r ?st1
         | Already_Cancelled r \<Rightarrow> after_cancellation env (after_reads 1 tm) p r ?st1))"
        using after by (auto split: cancellation_result.split)
      from calm_trans[OF c(1) this] show ?thesis using now Inr x by (cases res) (simp_all add: cancel_engine_def Let_def)
    qed
  qed
qed

subsection \<open>Calls of \<open>execute\<close>\<close>

lemma calm_finish_call [simp]: "calm Q env st (finish_call c permit r st)"
  unfolding finish_call_def by (rule calm_trans[OF calm_release_permit calm_reply])

definition replay_ok :: "execution_store \<Rightarrow> string \<Rightarrow> execution_record \<Rightarrow> bool" where
  "replay_ok es p r \<longleftrightarrow> (\<exists>row. find_execution es p (ex_id r) = Some row \<and>
     (terminal_status (ex_status r) \<longrightarrow> row_terminal row))"

lemma replay_ok_progress: "replay_ok es p r \<Longrightarrow> rows_progress es es' \<Longrightarrow> replay_ok es' p r"
  unfolding replay_ok_def by (fastforce elim!: rows_progressE dest: progress_terminal simp: row_terminal_def)

lemma calm_finish_replay:
  assumes ok: "replay_ok (es_store st) p r"
  shows "calm Q env st (finish_replay env tm c p mode r st)"
proof (rule calmI)
  assume inv: "engine_inv Q env st"
  obtain row where row: "find_execution (es_store st) p (ex_id r) = Some row"
    and t: "terminal_status (ex_status r) \<Longrightarrow> row_terminal row" using ok by (auto simp: replay_ok_def)
  have id: "ex_id (se_record row) = ex_id r" using engine_inv_row[OF inv row] by (simp add: row_ok_def)
  let ?inp = "(reconcile_stored (recoverable p row))\<lparr>ri_record := projected row\<rparr>"
  have "?inp = reconcile_stored (recoverable p row)" by (simp add: reconcile_stored_def)
  then have rec: "terminal_status (ex_status r) \<Longrightarrow> calm Q env st (fst (reconcile_terminal env tm ?inp st))"
    using input_ok_stored[OF row t id] by (intro calm_reconcile) simp
  define res where "res = (if terminal_status (ex_status r) then reconcile_terminal env tm ?inp st
    else if mode = Mode_Async then submit_execution_job env tm p (ex_id r) st else (st, Inr ()))"
  have "calm Q env st (fst res)" unfolding res_def using rec by simp
  moreover have "finish_replay env tm c p mode r st = (case res of
      (st1, Inl err) \<Rightarrow> reply c (Inl (internal err)) st1 | (st1, Inr ()) \<Rightarrow> reply c (Inr (outcome_of r True)) st1)"
    using row t by (simp add: finish_replay_def res_def get_recoverable_def row_terminal_def)
  ultimately show ?thesis
    by (cases res; cases "snd res") (auto intro: calm_trans[OF _ calm_reply])
qed

lemma calm_calls:
  assumes "call_ok Q env call"
  shows "calm Q env st (st\<lparr>es_next := n, es_calls := js_set c call (es_calls st)\<rparr>)"
  by (rule calm_frame) (use assms in \<open>auto simp: engine_inv_def dest!: subsetD[OF set_js_set]\<close>)

lemma calm_wait:
  assumes "wait_for_terminal p e w (es_store st) = Inr (es, ss)"
  shows "calm Q env st ((settle p ss st)\<lparr>es_store := es\<rparr>)"
proof (rule calmI)
  assume inv: "engine_inv Q env st"
  show ?thesis
    using assms
  proof (cases rule: wait_for_terminal_Inr)
    case (now row)
    have "ex_id (projected row) = e" using engine_inv_row[OF inv now(1)] by (simp add: row_ok_def)
    then have "calm Q env st (settle p ss st)"
      by (intro calm_settle) (use now in \<open>auto simp: row_terminal_def\<close>)
    then show ?thesis using now(3) by (simp add: settle_def)
  next
    case (later row)
    then show ?thesis
      by (intro calm_frame) (auto simp: settle_def engine_inv_def find_execution_def fun_eq_iff)
  qed
qed

lemma calm_replay_execution:
  assumes ok: "replay_ok (es_store st) (cm_project command) r"
  shows "calm Q env st (replay_execution env tm c command mode r st)"
proof (rule calmI)
  assume inv: "engine_inv Q env st"
  show ?thesis
  proof (cases "(case cm_execution command of None \<Rightarrow> False | Some e \<Rightarrow> ex_id r \<noteq> e) \<or> (\<exists>e. engine_now 0 tm = Inl e)")
    case True
    then show ?thesis by (auto simp: replay_execution_def split: sum.split)
  next
    case False
    then obtain now where now: "\<not> (case cm_execution command of None \<Rightarrow> False | Some e \<Rightarrow> ex_id r \<noteq> e)"
      "engine_now 0 tm = Inr now" by (cases "engine_now 0 tm") auto
    show ?thesis
    proof (cases "mark_replayed (cm_project command) (ex_id r) (Iso now) (es_store st)")
      case (Inl err)
      then show ?thesis using now by (simp add: replay_execution_def)
    next
      case (Inr x)
      obtain es marked where x: "x = (es, marked)" by fastforce
      let ?st1 = "st\<lparr>es_store := es\<rparr>"
      have c: "calm Q env st ?st1" by (rule calm_replayed) (use Inr x in simp)
      have ok1: "replay_ok (es_store ?st1) (cm_project command) r"
        using replay_ok_progress[OF ok calmD(2)[OF c inv]] .
      have wait: "calm Q env ?st1 ((settle (cm_project command) ss ?st1)\<lparr>es_store := es1, es_next := n,
          es_calls := js_set c (Call_Waiting w command mode) (es_calls st)\<rparr>)"
        if "wait_for_terminal (cm_project command) (ex_id r) w es = Inr (es1, ss)" for w es1 ss n
      proof -
        let ?st2 = "(settle (cm_project command) ss ?st1)\<lparr>es_store := es1\<rparr>"
        have "calm Q env ?st1 ?st2" using calm_wait[of "cm_project command" "ex_id r" w ?st1] that by simp
        moreover have "calm Q env ?st2 (?st2\<lparr>es_next := n, es_calls := js_set c (Call_Waiting w command mode) (es_calls ?st2)\<rparr>)"
          by (rule calm_calls) (simp add: call_ok_def)
        ultimately show ?thesis using calm_trans by (fastforce simp: settle_def)
      qed
      have "calm Q env ?st1 (if \<not> marked then reply c (Inl (internal (Plain_Error
            ''Idempotent replay execution disappeared before provenance was persisted.''))) ?st1
          else if mode = Mode_Sync \<and> \<not> terminal_status (ex_status r)
          then (case wait_for_terminal (cm_project command) (ex_id r) (es_next ?st1) es of
              Inl err \<Rightarrow> reply c (Inl (internal err)) ?st1
            | Inr (es1, ss) \<Rightarrow> (settle (cm_project command) ss ?st1)\<lparr>es_store := es1, es_next := Suc (es_next ?st1),
                es_calls := js_set c (Call_Waiting (es_next ?st1) command mode) (es_calls ?st1)\<rparr>)
          else finish_replay env (after_reads 1 tm) c (cm_project command) mode r ?st1)"
        using wait calm_finish_replay[OF ok1] by (auto split: sum.split)
      from calm_trans[OF c this] show ?thesis using now Inr x
        unfolding replay_execution_def Let_def by (simp cong: sum.case_cong)
    qed
  qed
qed

lemma good_step_waited: "good Q env st (step_waited env tm c st)"
proof (rule goodI)
  assume inv: "engine_inv Q env st"
  have "calm Q env st (finish_replay env tm c (cm_project command) mode r st)"
    if "map_of (es_settled st) (cm_project command, w) = Some r" for w command mode r
  proof -
    have "settled_ok (es_store st) ((cm_project command, w), r)"
      using inv map_of_SomeD[OF that] by (auto simp: engine_inv_def)
    then show ?thesis by (intro calm_finish_replay) (auto simp: settled_ok_def replay_ok_def)
  qed
  then show ?thesis by (auto simp: step_waited_def split: option.split engine_call.split intro!: calm_good)
qed

text \<open>Prepared calls.\<close>

lemma prepare_ok:
  assumes call: "(tm, command) \<in> Q" and valid: "validate_command env command = Inr v"
    and prepared: "prepare_execution env tm command v permit = Inr pp"
  shows "prepared_ok Q env pp"
proof -
  obtain created idem where c: "engine_now 1 tm = Inr created"
    and idem: "idem = None \<and> cm_idempotency_key command = None \<or>
      (\<exists>key r. cm_idempotency_key command = Some key \<and> idempotency_reservation_of env (vq_request v) key created = Inr r \<and>
        idem = Some r)"
    and pp: "pp = \<lparr>pp_command = command, pp_valid = v, pp_permit = permit,
      pp_pending = pending_record env tm command v (Iso created), pp_idempotency = idem\<rparr>"
    using prepared
    by (auto simp: prepare_execution_def bind_engine_Inr_iff engine_result_def split: sum.splits option.splits)
  have "map_option (\<lambda>r. is_key (ir_scope r)) idem = cm_idempotency_key command"
    using idem by (auto simp: idempotency_reservation_of_def bind_result_Inr_iff)
  then show ?thesis using call valid c
    by (auto simp: pp prepared_ok_def pending_record_def accepted_def intro!: exI[of _ tm])
qed

lemma calm_take_permit: "calm Q env st (fst (take_permit tm p v st))"
  by (rule calm_same) (simp_all add: take_permit_def split: execution_mode.split option.split sum.split prod.split)

text \<open>What \<open>allocate\<close> and its preview answer.\<close>

lemma reservation_answer_replay:
  assumes "engine_inv Q env st" "reservation_answer a (es_store st) = Some (Alloc_Replay r)"
  shows "replay_ok (es_store st) (al_project a) r"
proof -
  obtain e row where row: "find_execution (es_store st) (al_project a) e = Some row" "r = projected row"
    using assms(2) by (auto simp: reservation_answer_def split: option.splits if_splits)
  have "ex_id r = e" using engine_inv_row[OF assms(1) row(1)] row(2) by (simp add: row_ok_def)
  then show ?thesis using row by (simp add: replay_ok_def row_terminal_def)
qed

lemma inspect_replay:
  assumes "engine_inv Q env st" "inspect_allocation a (es_store st) = Inr (Inspect_Replay r)"
  shows "replay_ok (es_store st) (al_project a) r"
proof -
  obtain e row where row: "find_execution (es_store st) (al_project a) e = Some row" "r = projected row"
    using assms(2) by (auto simp: inspect_allocation_def split: option.splits if_splits)
  have "ex_id r = e" using engine_inv_row[OF assms(1) row(1)] row(2) by (simp add: row_ok_def)
  then show ?thesis using row by (simp add: replay_ok_def row_terminal_def)
qed

lemma calm_allocate:
  assumes alloc: "allocate_execution a (es_store st) = Inr (es, res)"
    and new: "ex_outcome (al_record a) = Out_Pending"
      "\<And>n. admitted Q env (al_project a) (new_stored_execution a n)"
  shows "calm Q env st (st\<lparr>es_store := es\<rparr>)"
    and "engine_inv Q env st \<Longrightarrow> res = Alloc_Replay r \<Longrightarrow> replay_ok es (al_project a) r"
    and "res = Alloc_Allocated r \<Longrightarrow> r = al_record a \<and> find_execution es (al_project a) (ex_id r) =
      Some (new_stored_execution a (exec_sequence (es_store st) + 1))"
proof -
  have "calm Q env st (st\<lparr>es_store := es\<rparr>) \<and>
      (engine_inv Q env st \<longrightarrow> (\<forall>r. res = Alloc_Replay r \<longrightarrow> replay_ok es (al_project a) r)) \<and>
      (\<forall>r. res = Alloc_Allocated r \<longrightarrow> r = al_record a \<and> find_execution es (al_project a) (ex_id r) =
      Some (new_stored_execution a (exec_sequence (es_store st) + 1)))"
    using alloc
  proof (cases rule: allocate_Inr)
    case answered
    then have "calm Q env st (st\<lparr>es_store := es\<rparr>)" by (intro calm_frame) (auto simp: engine_inv_def)
    then show ?thesis
      using answered reservation_answer_replay[of Q env st a] reservation_answer_not_allocated[of a "es_store st"]
      by (auto simp: replay_ok_def)
  next
    case allocated
    let ?p = "al_project a" and ?e = "ex_id (al_record a)" and ?row = "new_stored_execution a (exec_sequence (es_store st) + 1)"
    note rows = allocate_rows[OF alloc[unfolded allocated(3)]]
    have find: "find_execution es p e = (if p = ?p \<and> e = ?e then Some ?row else find_execution (es_store st) p e)" for p e
      by (rule find_put_cong[OF rows(4)])
    have progress: "rows_progress (es_store st) es"
      using rows(1) by (auto simp: rows_progress_def find row_progress_refl)
    have "row_ok env (es_outbox st) ?e ?row"
      using new(1) allocated(1) by (simp add: row_ok_def new_stored_execution_def outcome_ok_def begun_def)
    then have "engine_inv Q env (st\<lparr>es_store := es\<rparr>)" if "engine_inv Q env st"
      using that run_ok_progress[OF _ progress] dispatch_ok_progress[OF _ progress] settled_ok_progress[OF _ progress]
        new(2) unfolding engine_inv_def by (auto simp: find)
    then show ?thesis using progress allocated(3) by (simp add: calm_def find)
  qed
  then show "calm Q env st (st\<lparr>es_store := es\<rparr>)"
    "engine_inv Q env st \<Longrightarrow> res = Alloc_Replay r \<Longrightarrow> replay_ok es (al_project a) r"
    "res = Alloc_Allocated r \<Longrightarrow> r = al_record a \<and> find_execution es (al_project a) (ex_id r) =
      Some (new_stored_execution a (exec_sequence (es_store st) + 1))" by blast+
qed

end
