(* ===== verification/Engine_Invariant.thy ===== *)
theory Engine_Invariant
  imports Engine_Histories
begin

text \<open>
  The calls of \<open>execute\<close> up to their run keep the engine's invariant, and so does every step of every
  history of an engine (the locale of \<open>History\<close>).
\<close>

subsection \<open>From the allocation to the run\<close>

lemma release_reservation_store [simp]: "es_store (fst (release_reservation env h reading st)) = es_store st"
  by (simp add: release_reservation_def release_usage_def split: option.split prod.split)

lemma release_permit_store [simp]: "es_store (release_permit p st) = es_store st"
  by (simp add: release_permit_def split: option.split)

lemma good_start_execution:
  assumes row: "find_execution (es_store st) (cm_project (pp_command pp)) (ex_id r) =
      Some (new_stored_execution (allocation_of pp (Some ra)) n)"
    and version: "ex_tool_version (pp_pending pp) = td_version (vq_tool (pp_valid pp))"
    and ra: "ra_resume_context ra = resume_context_of pp report reservation"
  shows "good Q env st (start_execution env tm c pp report reservation event r st)"
proof (cases "rq_mode (vq_request (pp_valid pp))")
  case Mode_Sync
  let ?run = "sync_run c pp report reservation event r" and ?i = "es_next st"
  let ?st1 = "st\<lparr>es_next := Suc ?i, es_calls := js_set c (Call_Running ?i) (es_calls st)\<rparr>"
  have c: "calm Q env st ?st1" by (rule calm_calls) (simp add: call_ok_def)
  have "run_ok (es_store ?st1) ?run"
    using row ra version by (simp add: run_ok_def run_id_def sync_run_def Let_def new_stored_execution_def allocation_of_def
      resume_context_of_def)
  then have "good Q env ?st1 (run_begin env tm ?i ?run (pp_permit pp) ?st1)"
    by (rule good_run_begin) (simp add: sync_run_def Let_def)
  from calm_good_trans[OF c this] show ?thesis using Mode_Sync by (simp add: start_execution_def Let_def)
next
  case Mode_Async
  obtain st1 x where s: "submit_execution_job env tm (cm_project (pp_command pp)) (ex_id r) st = (st1, x)" by fastforce
  have c: "calm Q env st st1" using calm_submit[of Q env st env] s by (metis fst_conv)
  show ?thesis
    using Mode_Async s by (cases x) (auto simp: start_execution_def intro!: calm_good intro: calm_trans[OF c])
qed

lemma good_replay_after:
  assumes "replay_ok (es_store st) (cm_project (pp_command pp)) r"
  shows "good Q env st (allocated env tm c pp report reservation event (Alloc_Replay r) st)"
proof -
  obtain st1 x where s: "release_reservation env reservation (tm_gate tm 0) st = (st1, x)" by fastforce
  have c: "calm Q env st st1" and st1: "es_store st1 = es_store st"
    using calm_release_reservation[of Q env st env] release_reservation_store[of env] s by (metis fst_conv)+
  have "calm Q env (release_permit (pp_permit pp) st1) (replay_execution env tm c (pp_command pp)
      (rq_mode (vq_request (pp_valid pp))) r (release_permit (pp_permit pp) st1))"
    by (rule calm_replay_execution) (simp add: st1 assms)
  then have "calm Q env st1 (replay_execution env tm c (pp_command pp)
      (rq_mode (vq_request (pp_valid pp))) r (release_permit (pp_permit pp) st1))"
    using calm_trans[OF calm_release_permit] by blast
  then show ?thesis
    using s by (cases x) (auto simp: allocated_def intro!: calm_good intro: calm_trans[OF c])
qed

lemma calm_conflict: "calm Q env st (allocated env tm c pp report reservation event Alloc_Conflict st)"
proof -
  obtain st1 x where s: "release_reservation env reservation (tm_gate tm 0) st = (st1, x)" by fastforce
  have c: "calm Q env st st1" using calm_release_reservation[of Q env st env] s by (metis fst_conv)
  show ?thesis using s by (cases x) (auto simp: allocated_def intro: calm_trans[OF c])
qed

lemma good_allocate_call:
  assumes pp: "prepared_ok Q env pp"
  shows "good Q env st (allocate_call env tm c pp report reservation st)"
proof (rule goodI)
  assume inv: "engine_inv Q env st"
  let ?event = "derive_execution_webhook_event_id env (cm_project (pp_command pp)) (ex_id (pp_pending pp))"
  let ?ra = "\<lparr>ra_resume_context = resume_context_of pp report reservation, ra_webhook_event_id = ?event\<rparr>"
  let ?a = "allocation_of pp (Some ?ra)"
  show ?thesis
  proof (cases "allocate_execution ?a (es_store st)")
    case (Inl err)
    obtain st1 x where s: "release_reservation env reservation (tm_gate tm 0) st = (st1, x)" by fastforce
    have c: "calm Q env st st1" using calm_release_reservation[of Q env st env] s by (metis fst_conv)
    show ?thesis
      using Inl s by (cases x) (auto simp: allocate_call_def Let_def intro!: calm_good intro: calm_trans[OF c])
  next
    case (Inr x)
    obtain es allocation where x: "x = (es, allocation)" by fastforce
    have project: "al_project ?a = cm_project (pp_command pp)" by (simp add: allocation_of_def)
    have new: "ex_outcome (al_record ?a) = Out_Pending"
      using pp by (simp add: allocation_of_def prepared_ok_def)
    have admitted: "admitted Q env (cm_project (pp_command pp)) (new_stored_execution ?a n)" for n
      using pp unfolding admitted_def prepared_ok_def new_stored_execution_def allocation_of_def by auto
    note a = calm_allocate[OF Inr[unfolded x], unfolded project, OF new admitted]
    have version: "ex_tool_version (pp_pending pp) = td_version (vq_tool (pp_valid pp))"
      using pp by (auto simp: prepared_ok_def accepted_def)
    have "good Q env (st\<lparr>es_store := es\<rparr>) (allocated env tm c pp report reservation ?event allocation (st\<lparr>es_store := es\<rparr>))"
    proof (cases allocation)
      case (Alloc_Allocated r)
      show ?thesis
        using a(3)[OF Alloc_Allocated] Alloc_Allocated
        by (auto simp: allocated_def intro!: good_start_execution version)
    next
      case (Alloc_Replay r)
      show ?thesis using a(2)[OF inv Alloc_Replay] Alloc_Replay by (auto intro!: good_replay_after)
    next
      case Alloc_Conflict
      show ?thesis using calm_conflict Alloc_Conflict by (auto intro!: calm_good)
    qed
    from calm_good_trans[OF a(1) this] show ?thesis using Inr x by (simp add: allocate_call_def Let_def)
  qed
qed

lemma good_inspect_call:
  assumes "good Q env st (available st)"
  shows "good Q env st (inspect_call env tm c pp available st)"
proof (rule goodI)
  assume inv: "engine_inv Q env st"
  show ?thesis
  proof (cases "pp_idempotency pp = None")
    case False
    show ?thesis
    proof (cases "inspect_allocation (allocation_of pp None) (es_store st)")
      case (Inl err)
      then show ?thesis using False by (auto simp: inspect_call_def intro!: calm_good)
    next
      case (Inr inspection)
      have "good Q env st (inspected env tm c pp inspection available st)"
      proof (cases inspection)
        case (Inspect_Replay r)
        have "replay_ok (es_store st) (al_project (allocation_of pp None)) r"
          using inspect_replay[OF inv] Inr Inspect_Replay by simp
        then show ?thesis using Inspect_Replay
          by (auto simp: inspected_def allocation_of_def intro!: good_replay_after)
      qed (auto simp: inspected_def assms intro!: calm_good calm_conflict)
      then show ?thesis using False Inr by (auto simp: inspect_call_def)
    qed
  qed (simp add: inspect_call_def assms)
qed

lemma good_execute_begin:
  assumes call: "(tm, command) \<in> Q"
  shows "good Q env st (execute_begin env tm command st)"
proof -
  let ?c = "es_next st" and ?st = "st\<lparr>es_next := Suc (es_next st)\<rparr>"
  have c0: "calm Q env st ?st" by (rule calm_same) simp_all
  show ?thesis
  proof (cases "validate_command env command")
    case (Inl err)
    then show ?thesis by (auto simp: execute_begin_def Let_def intro!: calm_good calm_trans[OF c0])
  next
    case (Inr v)
    obtain st1 x where take: "take_permit tm (cm_project command) v ?st = (st1, x)" by fastforce
    have c1: "calm Q env st st1" using calm_trans[OF c0 calm_take_permit] take by (metis fst_conv)
    have reserving: "good Q env st1 (st1\<lparr>es_calls := js_set ?c (Call_Reserving pp) (es_calls st1)\<rparr>)"
      if "prepare_execution env tm command v permit = Inr pp" for permit pp
    proof -
      have "call_ok Q env (Call_Reserving pp)" using prepare_ok[OF call \<open>validate_command env command = Inr v\<close> that] by (simp add: call_ok_def)
      then show ?thesis using calm_calls[where st = st1 and n = "es_next st1" and c = ?c] by (auto intro!: calm_good)
    qed
    show ?thesis
    proof (cases x)
      case (Inl err)
      then show ?thesis using \<open>validate_command env command = Inr v\<close> take
        by (auto simp: execute_begin_def Let_def intro!: calm_good calm_trans[OF c1])
    next
      case x: (Inr permit)
      have "good Q env st1 (case prepare_execution env tm command v permit of
          Inl err \<Rightarrow> finish_call ?c permit (Inl err) st1
        | Inr pp \<Rightarrow> if en_usage_enabled env
            then inspect_call env (after_reads 2 tm) ?c pp
              (\<lambda>st2. st2\<lparr>es_calls := js_set ?c (Call_Reserving pp) (es_calls st2)\<rparr>) st1
            else allocate_call env (after_reads 2 tm) ?c pp None None st1)"
        using reserving prepare_ok[OF call Inr]
        by (auto split: sum.split intro!: calm_good[OF calm_finish_call] good_inspect_call good_allocate_call)
      from calm_good_trans[OF c1 this] show ?thesis
        using Inr x take by (simp add: execute_begin_def Let_def)
    qed
  qed
qed

lemma good_step_reserved: "good Q env st (step_reserved env tm c response st)"
proof (rule goodI)
  assume inv: "engine_inv Q env st"
  have pp: "prepared_ok Q env pp" if "map_of (es_calls st) c = Some (Call_Reserving pp)" for pp
  proof -
    have "call_ok Q env (Call_Reserving pp)" using inv map_of_SomeD[OF that] by (force simp: engine_inv_def)
    then show ?thesis by (simp add: call_ok_def)
  qed
  have "good Q env st (finish_call c p r st)" for p r by (simp add: calm_good)
  then show ?thesis
    using good_allocate_call[OF pp] good_inspect_call
    by (auto simp: step_reserved_def Let_def split: option.split engine_call.split sum.split usage_admission.split)
qed

subsection \<open>Histories\<close>

lemma calm_restart: "calm Q env st (restart_engine st)"
  by (rule calm_frame) (simp_all add: restart_engine_def find_execution_def fun_eq_iff)

lemma calm_usage_op: "calm Q env st (st\<lparr>es_outbox := run_usage_op op (es_outbox st)\<rparr>)"
  by (rule calm_outbox) (rule run_usage_op_write)

lemma calm_queue: "calm Q env st (st\<lparr>es_deliverer := dv\<rparr>)"
  by (rule calm_same) simp_all

text \<open>The calls of \<open>execute\<close> in a history.\<close>

definition execute_calls_of :: "engine_op list \<Rightarrow> execute_calls" where
  "execute_calls_of ops = {(tm, command). En_Execute tm command \<in> set ops}"

definition call_within :: "execute_calls \<Rightarrow> engine_op \<Rightarrow> bool" where
  "call_within Q op \<longleftrightarrow> (case op of En_Execute tm command \<Rightarrow> (tm, command) \<in> Q | _ \<Rightarrow> True)"

lemma good_engine_op: "call_within Q op \<Longrightarrow> good Q env st (run_engine_op env op st)"
  by (cases op)
    (simp_all add: good_execute_begin good_step_reserved good_step_waited good_run_execution_job good_step_permit
      good_step_credentials good_step_adapter calm_good calm_abort_job calm_cancel_engine calm_restart calm_usage_op
      calm_queue call_within_def)

lemma good_engine_step: "good UNIV env st (run_engine_op env op st)"
  by (rule good_engine_op) (simp add: call_within_def split: engine_op.split)

interpretation engine_history: call_history "engine_inv UNIV env" "run_engine_op env" "run_engine_ops env" for env
  by unfold_locales (use good_engine_step in \<open>auto simp: good_def\<close>)

lemma engine_history_inv: "engine_inv UNIV env (run_engine_ops env ops (empty_engine dv))"
  by (rule engine_history.steps_inv[OF empty_engine_inv])

lemma engine_history_accepted:
  "engine_inv (execute_calls_of ops) env (run_engine_ops env ops (empty_engine dv))"
proof (rule engine_history.steps_keep)
  show "engine_inv (execute_calls_of ops) env (run_engine_op env op st)"
    if "engine_inv (execute_calls_of ops) env st" "call_within (execute_calls_of ops) op" for op st
    using good_engine_op[OF that(2)] that(1) by (simp add: good_def)
  show "list_all (call_within (execute_calls_of ops)) ops"
    by (auto simp: list_all_iff call_within_def execute_calls_of_def split: engine_op.split)
qed (rule empty_engine_inv)+

lemma engine_ops_progress:
  "engine_inv UNIV env st \<Longrightarrow> rows_progress (es_store st) (es_store (run_engine_ops env ops st))"
proof (induction ops arbitrary: st)
  case (Cons op ops)
  have "engine_inv UNIV env (run_engine_op env op st)" "rows_progress (es_store st) (es_store (run_engine_op env op st))"
    using good_engine_step Cons.prems by (auto simp: good_def)
  then show ?case using Cons.IH rows_progress_trans by fastforce
qed simp

end
