(* ===== verification/Delivery_Attempts.thy ===== *)
theory Delivery_Attempts
  imports Webhook_Deliverer
begin

text \<open>
  The attempts of a delivery over all interleavings of the deliverer's steps, the requests in flight, and
  the other components: no delivery is attempted more often than the retry schedule has entries, and no
  attempt starts before the delay after the previous one has passed.
\<close>

abbreviation log_of :: "deliverer_state \<Rightarrow> delivery_store" where
  "log_of st \<equiv> sys_deliveries (dv_system st)"

subsection \<open>Histories\<close>

text \<open>
  The readings of the clock in a step are a list. \<open>Vop_Others\<close> is any change of the stores that the
  deliverer only reads, \<open>Vop_Jobs\<close> any calls on the job store, \<open>Vop_Restart\<close> the end of the process over
  stores that survive it; \<open>Vop_Reset\<close> and \<open>Vop_Fail\<close> are the
  recovery operations of the delivery log, called from elsewhere.
\<close>

datatype deliverer_op =
    Vop_Admit "int option list" "nat \<Rightarrow> int option" "nat \<Rightarrow> int" webhook_event "string list option"
      event_source_kind string
  | Vop_Select "int option list" "nat \<Rightarrow> int option" "nat \<Rightarrow> int" string string
  | Vop_Begin "int option list" string string
  | Vop_Finish "int option list" nat fetch_outcome
  | Vop_Reset string string
  | Vop_Fail string string timestamp
  | Vop_Others endpoint_store "execution_store option" voice_source_store bool
  | Vop_Jobs "job_op list"
  | Vop_Restart

type_synonym flying = "deliverer_state \<times> flight list"

definition clock_of :: "int option list \<Rightarrow> nat \<Rightarrow> int option" where
  "clock_of cs i = (if i < length cs then cs ! i else None)"

definition with_log :: "delivery_store \<Rightarrow> deliverer_state \<Rightarrow> deliverer_state" where
  "with_log ds st = st\<lparr>dv_system := (dv_system st)\<lparr>sys_deliveries := ds\<rparr>\<rparr>"

fun run_deliverer_op :: "deliverer_config \<Rightarrow> deliverer_op \<Rightarrow> flying \<Rightarrow> flying" where
  "run_deliverer_op cfg (Vop_Admit cs q w event ids kind source) (st, fls) =
     (fst (admit_event cfg (clock_of cs) q w event ids kind source st), fls)"
| "run_deliverer_op cfg (Vop_Select cs q w p e) (st, fls) =
     (fst (handle_select_job cfg (clock_of cs) q w p e st), fls)"
| "run_deliverer_op cfg (Vop_Begin cs p i) (st, fls) =
     (case begin_delivery cfg (clock_of cs) p i st of
        (st', Inr (Begun_Flight fl)) \<Rightarrow> (st', fls @ [fl])
      | (st', _) \<Rightarrow> (st', fls))"
| "run_deliverer_op cfg (Vop_Finish cs i outcome) (st, fls) =
     (if i < length fls
      then (fst (finish_delivery cfg (clock_of cs) (fls ! i) outcome st), take i fls @ drop (Suc i) fls)
      else (st, fls))"
| "run_deliverer_op cfg (Vop_Reset p i) (st, fls) =
     (with_log (fst (reset_for_recovery p i (log_of st))) st, fls)"
| "run_deliverer_op cfg (Vop_Fail p i t) (st, fls) =
     (with_log (kept_on_error (log_of st) (mark_recovery_failed p i t (log_of st))) st, fls)"
| "run_deliverer_op cfg (Vop_Others eps exs sources accepting) (st, fls) =
     (st\<lparr>dv_endpoints := eps, dv_executions := exs, dv_sources := sources, dv_accepting := accepting\<rparr>, fls)"
| "run_deliverer_op cfg (Vop_Jobs jops) (st, fls) =
     (st\<lparr>dv_system := (dv_system st)\<lparr>sys_jobs := run_ops jops (sys_jobs (dv_system st))\<rparr>\<rparr>, fls)"
| "run_deliverer_op cfg Vop_Restart (st, fls) = (st\<lparr>dv_volatile := []\<rparr>, [])"

fun run_deliverer_ops :: "deliverer_config \<Rightarrow> deliverer_op list \<Rightarrow> flying \<Rightarrow> flying" where
  "run_deliverer_ops cfg [] x = x"
| "run_deliverer_ops cfg (op # ops) x = run_deliverer_ops cfg ops (run_deliverer_op cfg op x)"

fun op_clock :: "deliverer_op \<Rightarrow> int option list" where
  "op_clock (Vop_Admit cs q w event ids kind source) = cs"
| "op_clock (Vop_Select cs q w p e) = cs"
| "op_clock (Vop_Begin cs p i) = cs"
| "op_clock (Vop_Finish cs i outcome) = cs"
| "op_clock _ = []"

definition readings :: "deliverer_op \<Rightarrow> int list" where
  "readings op = List.map_filter id (op_clock op)"

text \<open>The readings of a history in the order of time.\<close>

definition history_readings :: "deliverer_op list \<Rightarrow> int list" where
  "history_readings ops = concat (map readings ops)"

lemma history_readings_simps [simp]:
  "history_readings [] = []" "history_readings (op # ops) = readings op @ history_readings ops"
  by (simp_all add: history_readings_def)

subsection \<open>The invariant of a row\<close>

definition due_ms :: "int list \<Rightarrow> delivery_attempt list \<Rightarrow> int" where
  "due_ms delays xs = time_ms (da_completed_at (last xs)) + delays ! length xs"

definition spaced :: "bool \<Rightarrow> int list \<Rightarrow> delivery_attempt list \<Rightarrow> bool" where
  "spaced timed delays xs \<longleftrightarrow> (\<forall>i. timed \<longrightarrow> Suc i < length xs \<longrightarrow>
     time_ms (da_completed_at (xs ! i)) + delays ! Suc i \<le> time_ms (da_attempted_at (xs ! Suc i)))"

definition open_delivery :: "webhook_delivery \<Rightarrow> bool" where
  "open_delivery d \<longleftrightarrow> wd_status d = Dl_Pending \<or> wd_status d = Dl_Delivering"

definition due_by :: "bool \<Rightarrow> int list \<Rightarrow> int \<Rightarrow> webhook_delivery \<Rightarrow> bool" where
  "due_by timed delays T d \<longleftrightarrow> \<not> timed \<or> wd_attempts d = [] \<or> (case wd_next_retry_at d of
     None \<Rightarrow> due_ms delays (wd_attempts d) \<le> T
   | Some t \<Rightarrow> t = Iso (due_ms delays (wd_attempts d)))"

definition paced :: "bool \<Rightarrow> int list \<Rightarrow> int \<Rightarrow> webhook_delivery \<Rightarrow> bool" where
  "paced timed delays T d \<longleftrightarrow>
     length (wd_attempts d) \<le> length delays \<and> spaced timed delays (wd_attempts d) \<and>
     (open_delivery d \<longrightarrow> length (wd_attempts d) < length delays \<and> due_by timed delays T d) \<and>
     (wd_status d = Dl_Delivering \<longrightarrow> wd_next_retry_at d = None)"

definition flight_paced :: "bool \<Rightarrow> int list \<Rightarrow> flight \<Rightarrow> bool" where
  "flight_paced timed delays fl \<longleftrightarrow>
     length (wd_attempts (fl_delivery fl)) < length delays \<and>
     fl_attempt fl = int (length (wd_attempts (fl_delivery fl))) + 1 \<and>
     (\<not> timed \<or> wd_attempts (fl_delivery fl) = [] \<or> due_ms delays (wd_attempts (fl_delivery fl)) \<le> fl_attempted_at fl)"

definition log_paced :: "bool \<Rightarrow> int list \<Rightarrow> int \<Rightarrow> delivery_store \<Rightarrow> bool" where
  "log_paced timed delays T ds \<longleftrightarrow> all_entries (\<lambda>k. paced timed delays T) (deliveries ds)"

fun all_paced :: "bool \<Rightarrow> int list \<Rightarrow> int \<Rightarrow> flying \<Rightarrow> bool" where
  "all_paced timed delays T (st, fls) \<longleftrightarrow> log_paced timed delays T (log_of st) \<and> list_all (flight_paced timed delays) fls"

lemma due_by_mono: "due_by timed delays T d \<Longrightarrow> T \<le> T' \<Longrightarrow> due_by timed delays T' d"
  by (auto simp: due_by_def split: option.splits)

lemma paced_mono: "paced timed delays T d \<Longrightarrow> T \<le> T' \<Longrightarrow> paced timed delays T' d"
  by (auto simp: paced_def intro: due_by_mono)

lemma log_paced_mono: "log_paced timed delays T ds \<Longrightarrow> T \<le> T' \<Longrightarrow> log_paced timed delays T' ds"
  by (auto simp: log_paced_def elim!: all_entries_mono intro: paced_mono)

lemma log_pacedD: "log_paced timed delays T ds \<Longrightarrow> map_of (deliveries ds) k = Some d \<Longrightarrow> paced timed delays T d"
  using all_entriesD[of "\<lambda>k. paced timed delays T" "deliveries ds" k d] by (simp add: log_paced_def)

lemma log_paced_put:
  "log_paced timed delays T ds \<Longrightarrow> paced timed delays T d \<Longrightarrow> log_paced timed delays T (put_delivery k d ds)"
  by (simp add: log_paced_def put_delivery_def)

lemma spaced_Nil [simp]: "spaced timed delays []"
  by (simp add: spaced_def)

lemma spaced_snoc:
  assumes "spaced timed delays xs" "\<not> timed \<or> xs = [] \<or> due_ms delays xs \<le> time_ms (da_attempted_at a)"
  shows "spaced timed delays (xs @ [a])"
  unfolding spaced_def
proof (intro allI impI)
  fix i assume i: timed "Suc i < length (xs @ [a])"
  show "time_ms (da_completed_at ((xs @ [a]) ! i)) + delays ! Suc i \<le> time_ms (da_attempted_at ((xs @ [a]) ! Suc i))"
  proof (cases "Suc i < length xs")
    case True
    then show ?thesis using assms(1) i(1) by (simp add: spaced_def nth_append)
  next
    case False
    then have len: "length xs = Suc i" using i by simp
    then have "last xs = xs ! i" using last_conv_nth[of xs] by (cases "xs = []") auto
    then show ?thesis using assms(2) len i(1) by (auto simp: due_ms_def nth_append)
  qed
qed

lemma new_delivery_paced: "delays \<noteq> [] \<Longrightarrow> paced timed delays T (new_delivery i inp)"
  by (simp add: paced_def new_delivery_def due_by_def)

subsection \<open>Calls on the log\<close>

lemma update_delivery_InrD:
  assumes "update_delivery p d ds = Inr ds'"
  obtains prev where "map_of (deliveries ds) (p, wd_id d) = Some prev"
    "ds' = put_delivery (p, wd_id d) d ds" "attempts_appended (wd_attempts prev) (wd_attempts d)"
    "valid_delivery_transition (wd_status prev) (wd_status d)"
  using assms by (auto simp: update_delivery_def split: option.splits if_splits)

lemma create_deterministic_paced:
  assumes "create_deterministic p i inp ds = Inr (ds', row)" "log_paced timed delays T ds" "delays \<noteq> []"
  shows "log_paced timed delays T ds'"
proof -
  from assms(1) have "create_delivery_row p i inp True ds = Inr (ds', row)"
    by (simp add: create_deterministic_def)
  then show ?thesis
  proof (cases rule: create_row_cases)
    case created
    then show ?thesis
      using assms(2,3) new_delivery_paced by (simp add: log_paced_def add_delivery_def)
  qed (use assms(2) in simp)
qed

lemma materialize_each_paced:
  "log_paced timed delays T ds \<Longrightarrow> delays \<noteq> [] \<Longrightarrow>
     log_paced timed delays T (fst (materialize_each digest ev p e seen eps ds))"
proof (induction eps arbitrary: seen ds)
  case (Cons ep eps)
  let ?c = "create_deterministic p (deterministic_delivery_id digest p e ep) \<lparr>cd_endpoint = ep, cd_event = e,
    cd_event_type = ew_event_type ev, cd_created_at = ew_created_at ev\<rparr> ds"
  show ?case
  proof (cases "ep \<in> set seen \<or> isl ?c")
    case False
    then obtain ds1 row where c: "?c = Inr (ds1, row)" by (cases ?c) auto
    have "log_paced timed delays T (fst (materialize_each digest ev p e (ep # seen) eps ds1))"
      by (rule Cons.IH[OF create_deterministic_paced[OF c Cons.prems] Cons.prems(2)])
    then show ?thesis using False c by (auto split: sum.splits prod.splits)
  qed (use Cons.prems in \<open>auto split: sum.splits\<close>)
qed simp

lemma materialize_event_paced:
  assumes "log_paced timed delays T (sys_deliveries sys)" "delays \<noteq> []"
  shows "log_paced timed delays T (sys_deliveries (fst (materialize_event digest p e eps t sys)))"
proof (cases "get_event p e sys")
  case (Some ev)
  show ?thesis
    using materialize_each_paced[OF assms, of digest ev p e "[]" eps] assms(1)
    by (auto simp: materialize_event_def Some Let_def split: sum.splits prod.splits)
qed (use assms in \<open>simp add: materialize_event_def\<close>)

lemma reset_paced:
  assumes "log_paced timed delays T ds" "delays \<noteq> []"
  shows "log_paced timed delays T (fst (reset_for_recovery p i ds))"
proof (cases "map_of (deliveries ds) (p, i)")
  case (Some d)
  have "paced timed delays T (d\<lparr>wd_next_retry_at := None, wd_completed_at := None, wd_status := Dl_Pending\<rparr>)"
    if "wd_status d = Dl_Delivering"
    using log_pacedD[OF assms(1) Some] that by (auto simp: paced_def open_delivery_def due_by_def)
  then show ?thesis using assms(1) log_paced_put by (simp add: reset_for_recovery_def Some)
qed (use assms in \<open>simp add: reset_for_recovery_def\<close>)

lemma mark_failed_paced:
  assumes "log_paced timed delays T ds" "mark_recovery_failed p i t ds = Inr (ds', b)"
  shows "log_paced timed delays T ds'"
proof (cases "map_of (deliveries ds) (p, i)")
  case (Some d)
  have "paced timed delays T (d\<lparr>wd_next_retry_at := None, wd_status := Dl_Failed, wd_completed_at := c\<rparr>)" for c
    using log_pacedD[OF assms(1) Some] by (auto simp: paced_def open_delivery_def)
  then show ?thesis
    using assms log_paced_put
    by (auto simp: mark_recovery_failed_def Some bind_result_Inr_iff split: if_splits)
qed (use assms in \<open>simp add: mark_recovery_failed_def\<close>)

subsection \<open>The steps of the deliverer\<close>

lemma ensure_event_log [simp]:
  "sys_deliveries (fst (ensure_event digest wall inp sys)) = sys_deliveries sys"
  by (auto simp: ensure_event_def Let_def split: option.splits sum.splits)

lemma remember_event_system:
  "remember_event event st = Inr (st', b) \<Longrightarrow> dv_system st' = dv_system st"
  by (auto simp: remember_event_def split: option.splits if_splits)

lemma forget_event_system [simp]: "dv_system (forget_event p e st) = dv_system st"
  by (simp add: forget_event_def)

lemma submit_selection_log [simp]: "log_of (fst (submit_selection cfg r w event start st)) = log_of st"
  by (simp add: submit_selection_def split: option.split prod.split)

lemma admit_durably_log [simp]: "log_of (fst (admit_durably cfg r w event a retained st)) = log_of st"
  using ensure_event_log[of "dc_digest cfg" "w 0" a "dv_system st"]
  by (auto simp: admit_durably_def simp del: ensure_event_log split: prod.split sum.split)

lemma admit_event_log [simp]:
  "log_of (fst (admit_event cfg clock q w event ids kind source st)) = log_of st"
  by (auto simp: admit_event_def dest: remember_event_system split: sum.split if_splits)

lemma submit_selected_log [simp]: "log_of (fst (submit_selected cfg clock q w p rows st)) = log_of st"
  by (simp add: submit_selected_def split: prod.split)

lemma materialize_selection_paced:
  assumes "log_paced timed delays T (log_of st)" "delays \<noteq> []"
  shows "log_paced timed delays T (log_of (fst (materialize_selection cfg reading ew p e st)))"
proof (cases "bind_result (deliverer_clock reading) iso_string")
  case (Inr t)
  let ?eps = "map we_id (selected_endpoints p (ew_event_type ew) (ew_endpoints ew) (dv_endpoints st))"
  show ?thesis
    using materialize_event_paced[OF assms, of "dc_digest cfg" p e ?eps t] Inr
    by (cases "materialize_event (dc_digest cfg) p e ?eps t (dv_system st)")
      (simp add: materialize_selection_def Let_def)
qed (use assms in \<open>simp add: materialize_selection_def\<close>)

lemma handle_select_paced:
  assumes "log_paced timed delays T (log_of st)" "delays \<noteq> []"
  shows "log_paced timed delays T (log_of (fst (handle_select_job cfg clock q w p e st)))"
  using materialize_selection_paced[OF assms, of cfg "clock 0" _ p e] assms(1)
  by (auto simp: handle_select_job_def split: option.split sum.split prod.split) (metis fst_conv)+

lemma release_event_log:
  "release_event_if_terminal p e st = Inr st' \<Longrightarrow> log_of st' = log_of st"
  by (auto simp: release_event_if_terminal_def bind_result_Inr_iff split: if_splits)

lemma recover_delivering_paced:
  assumes "recover_delivering p i d st = (st', d')" "log_paced timed delays T (log_of st)" "delays \<noteq> []"
    and "get_delivery p i (log_of st) = Some d"
  shows "log_paced timed delays T (log_of st')" "get_delivery p i (log_of st') = Some d'"
    "wd_attempts d' = wd_attempts d" "wd_status d' = Dl_Pending \<or> d' = d \<and> wd_status d \<noteq> Dl_Delivering"
proof -
  show "log_paced timed delays T (log_of st')"
    using assms(1,2) reset_paced[OF assms(2,3), of p i] by (auto simp: recover_delivering_def Let_def split: if_splits)
  show "get_delivery p i (log_of st') = Some d'" "wd_attempts d' = wd_attempts d"
    "wd_status d' = Dl_Pending \<or> d' = d \<and> wd_status d \<noteq> Dl_Delivering"
    using assms(1,4)
    by (auto simp: recover_delivering_def Let_def reset_for_recovery_def get_delivery_def put_delivery_def
        or_else_def split: if_splits)
qed

lemma abandon_paced:
  assumes "log_paced timed delays T (log_of st)" "abandon_delivery p d i reading st = (st', r)"
  shows "log_paced timed delays T (log_of st') \<and> r \<noteq> Inr (Begun_Flight fl)"
proof (cases "bind_result (deliverer_clock reading) iso_string")
  case (Inr t)
  show ?thesis
  proof (cases "mark_recovery_failed p i t (log_of st)")
    case marked: (Inr x)
    let ?st1 = "st\<lparr>dv_system := (dv_system st)\<lparr>sys_deliveries := fst x\<rparr>\<rparr>"
    have ds: "log_paced timed delays T (log_of ?st1)"
      using mark_failed_paced[OF assms(1), of p i t "fst x" "snd x"] marked by simp
    show ?thesis
      using assms(2) ds release_event_log[of p "wd_event d" ?st1 st']
      by (cases "release_event_if_terminal p (wd_event d) ?st1")
        (auto simp: abandon_delivery_def Inr marked Let_def split: prod.splits)
  qed (use assms in \<open>auto simp: abandon_delivery_def Inr\<close>)
qed (use assms in \<open>auto simp: abandon_delivery_def\<close>)

text \<open>A row that may be launched at the instant \<open>now\<close>.\<close>

definition launchable :: "bool \<Rightarrow> int list \<Rightarrow> int \<Rightarrow> webhook_delivery \<Rightarrow> bool" where
  "launchable timed delays now d \<longleftrightarrow> spaced timed delays (wd_attempts d) \<and> length (wd_attempts d) < length delays \<and>
     (\<not> timed \<or> wd_attempts d = [] \<or> due_ms delays (wd_attempts d) \<le> now)"

lemma launch_paced:
  assumes "log_paced timed delays T (log_of st)" "launchable timed delays now d"
    and "launch_delivery cfg p d event ep reading st = (st', r)"
    and "\<And>ms. timed \<Longrightarrow> reading = Some ms \<Longrightarrow> now \<le> ms" "timed \<Longrightarrow> now \<le> T"
  shows "log_paced timed delays T (log_of st') \<and> (\<forall>fl. r = Inr (Begun_Flight fl) \<longrightarrow> flight_paced timed delays fl)"
proof -
  let ?d = "(without_next_retry d)\<lparr>wd_status := Dl_Delivering\<rparr>"
  have "paced timed delays T ?d"
    using assms(2,5) by (auto simp: launchable_def paced_def due_by_def open_delivery_def without_next_retry_def)
  then have "log_paced timed delays T ds" if "update_delivery p ?d (log_of st) = Inr ds" for ds
    using that assms(1) by (auto elim!: update_delivery_InrD intro: log_paced_put)
  moreover have "flight_paced timed delays fl" if "fl_delivery fl = ?d" "fl_attempt fl = int (length (wd_attempts ?d)) + 1"
    "deliverer_clock reading = Inr (fl_attempted_at fl)" for fl
    using assms(2,4) that
    by (fastforce simp: launchable_def flight_paced_def without_next_retry_def deliverer_clock_def read_clock_Inr_iff)
  ultimately show ?thesis
    using assms(1,3) by (auto simp: launch_delivery_def Let_def split: sum.splits)
qed

lemma attempt_delivery_cases:
  obtains (retry) "attempt_delivery cfg reading p i d st =
      (st, bind_result (retry_soon reading) (\<lambda>r. Inr (Begun_Result r)))"
  | (launch) ew ev ep where "get_event p (wd_event d) (dv_system st) = Some ew" "resolve_event ew st = Some ev"
      "get_for_delivery p (wd_endpoint d) (dv_endpoints st) = Some ep" "we_active ep"
      "attempt_delivery cfg reading p i d st = launch_delivery cfg p d ev ep reading st"
  | (abandon) "attempt_delivery cfg reading p i d st = abandon_delivery p d i reading st"
proof (cases "get_event p (wd_event d) (dv_system st)")
  case None
  show thesis by (rule abandon) (simp add: attempt_delivery_def Let_def None)
next
  case (Some ew)
  note ew = Some
  show thesis
  proof (cases "resolve_event ew st")
    case None
    show thesis
    proof (cases "has_voice_source (ew_source_kind ew)")
      case True
      then show thesis by (intro retry) (simp add: attempt_delivery_def Let_def ew None)
    next
      case False
      then show thesis by (intro abandon) (simp add: attempt_delivery_def Let_def ew None)
    qed
  next
    case (Some ev)
    note ev = Some
    show thesis
    proof (cases "get_for_delivery p (wd_endpoint d) (dv_endpoints st)")
      case None
      show thesis by (rule abandon) (simp add: attempt_delivery_def Let_def ew ev None)
    next
      case (Some ep)
      show thesis
      proof (cases "we_active ep")
        case True
        then show thesis by (intro launch[OF ew ev Some]) (simp_all add: attempt_delivery_def Let_def ew ev Some)
      next
        case False
        then show thesis by (intro abandon) (simp add: attempt_delivery_def Let_def ew ev Some)
      qed
    qed
  qed
qed

lemma attempt_delivery_paced:
  assumes "log_paced timed delays T (log_of st)" "launchable timed delays now d"
    and "attempt_delivery cfg reading p i d st = (st', r)"
    and "\<And>ms. timed \<Longrightarrow> reading = Some ms \<Longrightarrow> now \<le> ms" "timed \<Longrightarrow> now \<le> T"
  shows "log_paced timed delays T (log_of st') \<and> (\<forall>fl. r = Inr (Begun_Flight fl) \<longrightarrow> flight_paced timed delays fl)"
proof (cases rule: attempt_delivery_cases[of cfg reading p i d st])
  case retry
  then show ?thesis using assms(1,3) by (auto simp: bind_result_Inr_iff)
next
  case (launch ew ev ep)
  then have "launch_delivery cfg p d ev ep reading st = (st', r)" using assms(3) by simp
  from launch_paced[OF assms(1,2) this assms(4,5)] show ?thesis .
next
  case abandon
  then have "abandon_delivery p d i reading st = (st', r)" using assms(3) by simp
  then show ?thesis using abandon_paced[OF assms(1)] by blast
qed

lemma clock_of_two:
  assumes "clock_of cs 0 = Some a" "clock_of cs 1 = Some b" "sorted (List.map_filter id cs)"
  shows "a \<le> b"
  using assms by (cases cs; cases "tl cs")
    (auto simp: clock_of_def List.map_filter_simps split: if_splits)

lemma clock_of_mem: "clock_of cs i = Some ms \<Longrightarrow> ms \<in> set (List.map_filter id cs)"
  by (force simp: clock_of_def List.map_filter_def split: if_splits dest: nth_mem)

lemma begin_delivery_paced:
  assumes "log_paced timed delays T (log_of st)" "delays \<noteq> []"
    and "begin_delivery cfg (clock_of cs) p i st = (st', r)"
    and "timed \<Longrightarrow> sorted (List.map_filter id cs)"
    and "timed \<Longrightarrow> \<forall>ms \<in> set (List.map_filter id cs). T \<le> ms \<and> ms \<le> T'" "T \<le> T'"
  shows "log_paced timed delays T' (log_of st') \<and> (\<forall>fl. r = Inr (Begun_Flight fl) \<longrightarrow> flight_paced timed delays fl)"
proof -
  have later: "log_paced timed delays T' (log_of st)" by (rule log_paced_mono[OF assms(1,6)])
  show ?thesis
  proof (cases "get_delivery p i (log_of st)")
    case (Some d0)
    note d0 = Some
    show ?thesis
    proof (cases "open_delivery d0 \<and> \<not> isl (deliverer_clock (clock_of cs 0))")
      case True
      then obtain now where now: "clock_of cs 0 = Some now" "deliverer_clock (clock_of cs 0) = Inr now"
        by (cases "deliverer_clock (clock_of cs 0)") (auto simp: deliverer_clock_def read_clock_Inr_iff)
      obtain st1 d where rec: "recover_delivering p i d0 st = (st1, d)"
        by (cases "recover_delivering p i d0 st")
      have busy: "\<not> (wd_status d0 = Dl_Succeeded \<or> wd_status d0 = Dl_Failed)"
        using True by (auto simp: open_delivery_def)
      note r = recover_delivering_paced[OF rec later assms(2) d0]
      have T: "timed \<Longrightarrow> T \<le> now" "timed \<Longrightarrow> now \<le> T'" "\<And>ms. timed \<Longrightarrow> clock_of cs 1 = Some ms \<Longrightarrow> now \<le> ms"
        using assms(4,5) clock_of_mem[OF now(1)] clock_of_two[OF now(1)] by auto
      show ?thesis
      proof (cases "not_yet_due now d0")
        case None
        have "paced timed delays T d0"
          using log_pacedD[OF assms(1), of "(p, i)" d0] d0 by (simp add: get_delivery_def)
        then have "launchable timed delays now d"
          using None True T(1) r(3)
          by (auto simp: launchable_def paced_def due_by_def not_yet_due_def split: option.splits if_splits)
        then show ?thesis
          using attempt_delivery_paced[OF r(1) _ _ T(3) T(2)] assms(3) d0 busy now(2) None rec
          by (simp add: begin_delivery_def)
      qed (use assms(3) d0 busy now(2) later in \<open>auto simp: begin_delivery_def\<close>)
    next
      case False
      then show ?thesis
        using assms(3) d0 later by (auto simp: begin_delivery_def open_delivery_def split: sum.splits if_splits)
          (metis delivery_status.exhaust)+
    qed
  qed (use assms(3) later in \<open>auto simp: begin_delivery_def\<close>)
qed

lemma settle_paced:
  assumes "log_paced timed delays T (log_of st)" "settle_delivery p d st = (st', r)"
    and "\<And>prev. paced timed delays T prev \<Longrightarrow> attempts_appended (wd_attempts prev) (wd_attempts d) \<Longrightarrow> paced timed delays T d"
  shows "log_paced timed delays T (log_of st')"
proof (cases "update_delivery p d (log_of st)")
  case (Inr ds)
  obtain prev where prev: "map_of (deliveries (log_of st)) (p, wd_id d) = Some prev"
    "ds = put_delivery (p, wd_id d) d (log_of st)" "attempts_appended (wd_attempts prev) (wd_attempts d)"
    using Inr by (rule update_delivery_InrD)
  let ?st1 = "st\<lparr>dv_system := (dv_system st)\<lparr>sys_deliveries := ds\<rparr>\<rparr>"
  have "log_paced timed delays T (log_of ?st1)"
    using assms(3)[OF log_pacedD[OF assms(1) prev(1)] prev(3)] log_paced_put[OF assms(1)] by (simp add: prev(2))
  then show ?thesis
    using assms(2) release_event_log[of p "wd_event d" ?st1 st'] Inr
    by (cases "release_event_if_terminal p (wd_event d) ?st1") (auto simp: settle_delivery_def Let_def)
qed (use assms in \<open>auto simp: settle_delivery_def\<close>)

lemma postpone_paced:
  assumes "log_paced timed delays T (log_of st)" "postpone_delivery p d instant st = (st', r)"
    and "\<And>prev. paced timed delays T prev \<Longrightarrow> attempts_appended (wd_attempts prev) (wd_attempts d) \<Longrightarrow>
      paced timed delays T (d\<lparr>wd_next_retry_at := Some (Iso instant)\<rparr>)"
  shows "log_paced timed delays T (log_of st')"
proof (cases "update_delivery p (d\<lparr>wd_next_retry_at := Some (Iso instant)\<rparr>) (log_of st)")
  case (Inr ds)
  let ?d = "d\<lparr>wd_next_retry_at := Some (Iso instant)\<rparr>"
  obtain prev where prev: "map_of (deliveries (log_of st)) (p, wd_id ?d) = Some prev"
    "ds = put_delivery (p, wd_id ?d) ?d (log_of st)" "attempts_appended (wd_attempts prev) (wd_attempts ?d)"
    using Inr by (rule update_delivery_InrD)
  have "paced timed delays T ?d" using assms(3)[OF log_pacedD[OF assms(1) prev(1)]] prev(3) by simp
  then have "log_paced timed delays T ds" using log_paced_put[OF assms(1)] by (simp add: prev(2))
  then show ?thesis
    using assms(1,2) Inr by (auto simp: postpone_delivery_def iso_string_def split: if_splits)
qed (use assms in \<open>auto simp: postpone_delivery_def iso_string_def split: if_splits\<close>)

text \<open>The recorded attempt follows the attempts of the flight, whatever the log has recorded meanwhile.\<close>

lemma recorded_spaced:
  assumes "flight_paced timed delays fl" "paced timed delays T prev"
    and "attempts_appended (wd_attempts prev) (wd_attempts (fl_delivery fl) @ [recorded_attempt cfg fl outcome ms])"
  shows "spaced timed delays (wd_attempts (fl_delivery fl) @ [recorded_attempt cfg fl outcome ms])"
proof -
  have "spaced timed delays (wd_attempts prev)" using assms(2) by (simp add: paced_def)
  moreover have "wd_attempts prev = wd_attempts (fl_delivery fl) @ [recorded_attempt cfg fl outcome ms] \<or>
      wd_attempts prev = wd_attempts (fl_delivery fl)"
    using assms(3) by (auto simp: attempts_appended_iff)
  moreover have "time_ms (da_attempted_at (recorded_attempt cfg fl outcome ms)) = fl_attempted_at fl"
    by (simp add: recorded_attempt_def)
  ultimately show ?thesis
    using assms(1) by (auto simp: flight_paced_def intro: spaced_snoc)
qed

lemma record_outcome_paced:
  assumes "log_paced timed delays T (log_of st)" "flight_paced timed delays fl" "dc_retry_delays cfg = delays"
    and "record_outcome cfg fl outcome ms st = (st', r)"
  shows "log_paced timed delays T (log_of st')"
proof -
  let ?xs = "wd_attempts (fl_delivery fl)" and ?a = "recorded_attempt cfg fl outcome ms"
  have n: "nat (fl_attempt fl) = Suc (length ?xs)" "length ?xs < length delays"
    using assms(2) by (auto simp: flight_paced_def)
  have settled: "paced timed delays T d" if "wd_attempts d = ?xs @ [?a]" "wd_status d = Dl_Succeeded \<or> wd_status d = Dl_Failed"
    "paced timed delays T prev" "attempts_appended (wd_attempts prev) (wd_attempts d)" for d prev
    using that recorded_spaced[OF assms(2) that(3), of cfg outcome ms] n(2) by (auto simp: paced_def open_delivery_def)
  have again: "paced timed delays T (d\<lparr>wd_next_retry_at := Some (Iso (ms + delays ! Suc (length ?xs)))\<rparr>)"
    if "wd_attempts d = ?xs @ [?a]" "wd_status d = Dl_Pending" "\<not> length delays \<le> Suc (length ?xs)"
    "paced timed delays T prev" "attempts_appended (wd_attempts prev) (wd_attempts d)" for d prev
    using that recorded_spaced[OF assms(2) that(4), of cfg outcome ms]
    by (auto simp: paced_def due_by_def due_ms_def recorded_attempt_def)
  show ?thesis
    using assms(4) unfolding record_outcome_def Let_def assms(3) n(1)
    by (auto split: if_splits elim!: settle_paced[OF assms(1)] postpone_paced[OF assms(1)] intro: settled again
        simp del: length_append)
qed

lemma finish_delivery_paced:
  assumes "log_paced timed delays T (log_of st)" "flight_paced timed delays fl" "dc_retry_delays cfg = delays"
  shows "log_paced timed delays T (log_of (fst (finish_delivery cfg clock fl outcome st)))"
proof (cases "deliverer_clock (clock 0)")
  case (Inr ms)
  show ?thesis
    using record_outcome_paced[OF assms, of outcome ms "fst (record_outcome cfg fl outcome ms st)"] Inr
    by (auto simp: finish_delivery_def split: prod.splits sum.splits)
qed (use assms in \<open>simp add: finish_delivery_def\<close>)

subsection \<open>Histories keep the pace\<close>

lemma run_deliverer_op_paced:
  assumes "all_paced timed delays T x" "delays \<noteq> []" "dc_retry_delays cfg = delays"
    and "timed \<Longrightarrow> sorted (readings op)" "timed \<Longrightarrow> \<forall>ms \<in> set (readings op). T \<le> ms \<and> ms \<le> T'" "T \<le> T'"
  shows "all_paced timed delays T' (run_deliverer_op cfg op x)"
proof -
  obtain st fls where x: "x = (st, fls)" by (cases x)
  have inv: "log_paced timed delays T (log_of st)" "list_all (flight_paced timed delays) fls" using assms(1) x by simp_all
  note later = log_paced_mono[OF _ assms(6)]
  show ?thesis
  proof (cases op)
    case (Vop_Begin cs p i)
    obtain st' r where b: "begin_delivery cfg (clock_of cs) p i st = (st', r)"
      by (cases "begin_delivery cfg (clock_of cs) p i st")
    have "log_paced timed delays T' (log_of st') \<and> (\<forall>fl. r = Inr (Begun_Flight fl) \<longrightarrow> flight_paced timed delays fl)"
      by (rule begin_delivery_paced[OF inv(1) assms(2) b _ _ assms(6)])
        (use assms(4,5) Vop_Begin in \<open>simp_all add: readings_def\<close>)
    then show ?thesis using inv(2) x Vop_Begin b by (auto split: sum.splits begun.splits)
  next
    case (Vop_Finish cs i outcome)
    have "flight_paced timed delays (fls ! i)" if "i < length fls" using inv(2) that by (simp add: list_all_length)
    then show ?thesis
      using finish_delivery_paced[OF later[OF inv(1)] _ assms(3)] later[OF inv(1)] inv(2) x Vop_Finish
      by (auto simp: list_all_iff dest: in_set_takeD in_set_dropD)
  next
    case (Vop_Fail p i t)
    show ?thesis
      using mark_failed_paced[OF later[OF inv(1)], of p i t] later[OF inv(1)] inv(2) x Vop_Fail
      by (cases "mark_recovery_failed p i t (log_of st)") (auto simp: with_log_def)
  qed (use later inv x reset_paced[OF inv(1) assms(2)] handle_select_paced[OF inv(1) assms(2)] in
      \<open>simp_all add: with_log_def\<close>)
qed

lemma run_deliverer_ops_timed:
  "all_paced True delays T x \<Longrightarrow> delays \<noteq> [] \<Longrightarrow> dc_retry_delays cfg = delays \<Longrightarrow>
     sorted (history_readings ops) \<Longrightarrow> \<forall>ms \<in> set (history_readings ops). T \<le> ms \<Longrightarrow>
     \<exists>T'. all_paced True delays T' (run_deliverer_ops cfg ops x)"
proof (induction ops arbitrary: x T)
  case (Cons op ops)
  define T' where "T' = (if readings op = [] then T else last (readings op))"
  have sorted: "sorted (readings op)" "sorted (history_readings ops)"
    and order: "\<forall>a \<in> set (readings op). \<forall>b \<in> set (history_readings ops). a \<le> b"
    using Cons.prems(4) by (auto simp: sorted_append)
  have up: "\<forall>ms \<in> set (readings op). ms \<le> T'"
    using sorted(1) by (cases "readings op" rule: rev_cases) (auto simp: T'_def sorted_append)
  have T': "T \<le> T'" "\<forall>ms \<in> set (history_readings ops). T' \<le> ms"
    using Cons.prems(5) order by (auto simp: T'_def)
  have "all_paced True delays T' (run_deliverer_op cfg op x)"
    by (rule run_deliverer_op_paced[OF Cons.prems(1,2,3) sorted(1) _ T'(1)]) (use Cons.prems(5) up in simp)
  from Cons.IH[OF this Cons.prems(2,3) sorted(2) T'(2)] show ?case by simp
qed auto

text \<open>Without any assumption on the clock the bounds on the number of attempts remain.\<close>

lemma run_deliverer_ops_untimed:
  "all_paced False delays T x \<Longrightarrow> delays \<noteq> [] \<Longrightarrow> dc_retry_delays cfg = delays \<Longrightarrow>
     all_paced False delays T (run_deliverer_ops cfg ops x)"
  by (induction ops arbitrary: x) (simp_all add: run_deliverer_op_paced)

definition fresh_deliverer :: deliverer_state where
  "fresh_deliverer = \<lparr>dv_system = empty_webhook_system, dv_endpoints = [], dv_executions = None,
     dv_sources = empty_voice_sources, dv_volatile = [], dv_accepting = True\<rparr>"

definition run_deliverer :: "deliverer_config \<Rightarrow> deliverer_op list \<Rightarrow> deliverer_state" where
  "run_deliverer cfg ops = fst (run_deliverer_ops cfg ops (fresh_deliverer, []))"

lemma fresh_paced: "all_paced timed delays T (fresh_deliverer, [])"
  by (simp add: fresh_deliverer_def empty_webhook_system_def empty_delivery_store_def log_paced_def)

lemma config_delays:
  assumes "create_deliverer_config digest hmac stringify delays timeout = Inr cfg"
  shows "dc_retry_delays cfg \<noteq> []" "\<forall>d \<in> set (dc_retry_delays cfg). 0 \<le> d" "dc_retry_delays cfg ! 0 = 0"
  using assms by (auto simp: create_deliverer_config_def valid_retry_delays_def bind_result_Inr_iff
      list_ex_iff hd_conv_nth not_less split: if_splits)

subsection \<open>The schedule of the attempts\<close>

text \<open>C26: Whatever is admitted, selected, begun and finished, in whatever order and with whatever clock,
  outcomes, recoveries and changes of the other stores, a delivery has at most as many attempts as the
  retry schedule has delays, and one that is still pending or delivering has fewer.\<close>

theorem attempts_are_bounded:
  assumes "create_deliverer_config digest hmac stringify delays timeout = Inr cfg"
    and "get_delivery p i (log_of (run_deliverer cfg ops)) = Some d"
  shows "length (wd_attempts d) \<le> length (dc_retry_delays cfg) \<and>
    (open_delivery d \<longrightarrow> length (wd_attempts d) < length (dc_retry_delays cfg))"
proof -
  obtain st fls where run: "run_deliverer_ops cfg ops (fresh_deliverer, []) = (st, fls)" by fastforce
  have "all_paced False (dc_retry_delays cfg) 0 (st, fls)"
    using run_deliverer_ops_untimed[OF fresh_paced config_delays(1)[OF assms(1)] refl, of 0 ops] run by simp
  then have "paced False (dc_retry_delays cfg) 0 d"
    using assms(2) run log_pacedD[of False "dc_retry_delays cfg" 0 "log_of st" "(p, i)" d]
    by (simp add: run_deliverer_def get_delivery_def)
  then show ?thesis by (simp add: paced_def)
qed

text \<open>C27: With a clock that never runs backwards no attempt starts early: each attempt after the first
  starts no sooner than its delay of the schedule after the completion of the one before it, also when the
  process was interrupted between, the delivery was reset by a recovery, or two handlers raced.\<close>

theorem retries_keep_their_distance:
  assumes "create_deliverer_config digest hmac stringify delays timeout = Inr cfg"
    and "sorted (history_readings ops)"
    and "get_delivery p i (log_of (run_deliverer cfg ops)) = Some d"
    and "Suc k < length (wd_attempts d)"
  shows "time_ms (da_completed_at (wd_attempts d ! k)) + dc_retry_delays cfg ! Suc k
    \<le> time_ms (da_attempted_at (wd_attempts d ! Suc k))"
proof -
  obtain st fls where run: "run_deliverer_ops cfg ops (fresh_deliverer, []) = (st, fls)" by fastforce
  define T where "T = (if history_readings ops = [] then 0 else hd (history_readings ops))"
  have "\<forall>ms \<in> set (history_readings ops). T \<le> ms"
    using assms(2) by (cases "history_readings ops") (auto simp: T_def)
  then obtain T' where "all_paced True (dc_retry_delays cfg) T' (st, fls)"
    using run_deliverer_ops_timed[OF fresh_paced config_delays(1)[OF assms(1)] refl assms(2)] run by force
  then have "paced True (dc_retry_delays cfg) T' d"
    using assms(3) run log_pacedD[of True "dc_retry_delays cfg" T' "log_of st" "(p, i)" d]
    by (simp add: run_deliverer_def get_delivery_def)
  then show ?thesis using assms(4) by (simp add: paced_def spaced_def)
qed

subsection \<open>A concrete history\<close>

definition demo_hmac :: hmac where
  "demo_hmac key message = replicate 64 (CHR ''a'')"

definition demo_config :: deliverer_config where
  "demo_config = \<lparr>dc_digest = demo_digest, dc_hmac = demo_hmac, dc_stringify = wv_id,
     dc_retry_delays = [0, 1000, 5000], dc_attempt_timeout = 10000\<rparr>"

definition demo_endpoint :: stored_endpoint where
  "demo_endpoint = \<lparr>we_id = ''whe_1'', we_url = ''https://example.com/'', we_secret_prefix = ''s'',
     we_events = [''trigger.*''], we_active = True, we_created_at = Iso 0, we_updated_at = Iso 0,
     we_secret = ''secret''\<rparr>"

definition demo_event :: webhook_event where
  "demo_event = \<lparr>wv_id = ''evt_1'', wv_type = ''trigger.mail.received'', wv_created_at = Iso 5,
     wv_project = ''p'', wv_data = Json_Data JNull\<rparr>"

text \<open>An event for one endpoint; the first attempt is refused, the second one, after a crash, succeeds.\<close>

definition demo_attempt_ops :: "deliverer_op list" where
  "demo_attempt_ops =
     [Vop_Others [(''p'', [(''whe_1'', demo_endpoint)])] None empty_voice_sources True,
      Vop_Admit [Some 10] (\<lambda>_. Some 10) (\<lambda>_. 10) demo_event (Some [''whe_1'']) Source_Trigger ''evt_1'',
      Vop_Select [Some 20, Some 21] (\<lambda>_. Some 20) (\<lambda>_. 20) ''p'' ''evt_1'',
      Vop_Begin [Some 30, Some 31] ''p'' ''whd_p/evt_1/whe_1/'',
      Vop_Finish [Some 40] 0 (Fetch_Status 500),
      Vop_Begin [Some 1040, Some 1041] ''p'' ''whd_p/evt_1/whe_1/'',
      Vop_Begin [Some 1100, Some 1101] ''p'' ''whd_p/evt_1/whe_1/'',
      Vop_Finish [Some 1200] 1 (Fetch_Status 200)]"

lemma demo_config_valid:
  "create_deliverer_config demo_digest demo_hmac wv_id (Some [0, 1000, 5000]) None = Inr demo_config"
  by (simp add: create_deliverer_config_def or_else_def valid_retry_delays_def valid_attempt_timeout_def
      is_safe_integer_def max_safe_integer_def default_attempt_timeout_def demo_config_def)

lemma demo_attempt_row:
  "\<exists>d. get_delivery ''p'' ''whd_p/evt_1/whe_1/'' (log_of (run_deliverer demo_config demo_attempt_ops)) = Some d \<and>
     wd_status d = Dl_Succeeded \<and> length (wd_attempts d) = 2"
proof -
  have "case get_delivery ''p'' ''whd_p/evt_1/whe_1/'' (log_of (run_deliverer demo_config demo_attempt_ops)) of
      None \<Rightarrow> False | Some d \<Rightarrow> wd_status d = Dl_Succeeded \<and> length (wd_attempts d) = 2"
    by code_simp
  then show ?thesis by (auto split: option.splits)
qed

lemma attempts_are_bounded_witness:
  "\<exists>d. get_delivery ''p'' ''whd_p/evt_1/whe_1/'' (log_of (run_deliverer demo_config demo_attempt_ops)) = Some d \<and>
     length (wd_attempts d) \<le> 3"
  using demo_attempt_row attempts_are_bounded[OF demo_config_valid] by (fastforce simp: demo_config_def)

lemma demo_clock_sorted: "sorted (history_readings demo_attempt_ops)"
  by code_simp

lemma retries_keep_their_distance_witness:
  "\<exists>d. get_delivery ''p'' ''whd_p/evt_1/whe_1/'' (log_of (run_deliverer demo_config demo_attempt_ops)) = Some d \<and>
     time_ms (da_completed_at (wd_attempts d ! 0)) + 1000 \<le> time_ms (da_attempted_at (wd_attempts d ! Suc 0))"
proof -
  obtain d where d: "get_delivery ''p'' ''whd_p/evt_1/whe_1/'' (log_of (run_deliverer demo_config demo_attempt_ops)) = Some d"
    "length (wd_attempts d) = 2"
    using demo_attempt_row by blast
  then show ?thesis
    using retries_keep_their_distance[OF demo_config_valid demo_clock_sorted d(1), of 0] by (simp add: demo_config_def)
qed

end
