(* ===== verification/Engine_Examples.thy ===== *)
theory Engine_Examples
  imports Engine_Invariant Delivery_Attempts
begin

text \<open>
  A concrete engine: a catalog of one tool that writes, one provider, a usage service that admits, and
  histories of one execution that the witnesses of the engine's properties evaluate.
\<close>

definition sample_tool :: tool_definition where
  "sample_tool = \<lparr>td_name = ''mail.send'', td_toolkit = ''mail'', td_capability = ''email'', td_version = ''1'',
     td_read_only = False, td_async = False, td_has_output_schema = False\<rparr>"

definition sample_manifest :: provider_manifest where
  "sample_manifest = \<lparr>mf_toolkit = ''mail'', mf_auth_class = Auth_OAuth2, mf_base_url = ''https://mail.test'',
     mf_base_url_override = None, mf_max_concurrent = Some 1\<rparr>"

definition sample_url :: cloud_url where
  "sample_url = \<lparr>url_protocol = ''https:'', url_username = [], url_password = [], url_hash = [],
     url_hostname = ''mail.test'', url_href = ''https://mail.test/'', url_search = [], url_pathname = ''/''\<rparr>"

definition sample_env :: "bool \<Rightarrow> engine_env" where
  "sample_env usage = \<lparr>en_get_tool = (\<lambda>n. if n = ''mail.send'' then Some sample_tool else None),
     en_get_manifest = (\<lambda>t. if t = ''mail'' then Some sample_manifest else None),
     en_effective_scopes = (\<lambda>n. if n = ''mail.send'' then Some [''send''] else None),
     en_catalog_version = ''1.0'', en_validate_input = (\<lambda>_. Inr), en_validate_output = (\<lambda>_. Some),
     en_adapters = [''mail''], en_parse_url = (\<lambda>_. Some sample_url), en_variables = (\<lambda>_. None),
     en_collate = (\<lambda>_. 0), en_json_digest = (\<lambda>_. ''h''), en_digest64 = concat, en_hex_digest = id,
     en_usage_enabled = usage, en_usage_strict = True, en_as_timestamp = (\<lambda>_. Iso 5), en_retention_ms = day_ms,
     en_deliverer = demo_config\<rparr>"

definition at_time :: "int \<Rightarrow> engine_time" where
  "at_time t = \<lparr>tm_clock = (\<lambda>_. Some t), tm_gate = (\<lambda>_. Some t), tm_deliverer = (\<lambda>_. Some t),
     tm_queue = (\<lambda>_. Some t), tm_wall = (\<lambda>_. t), tm_job = (\<lambda>_. Iso t), tm_execution_id = ''exe_a'',
     tm_event_id = ''evt_b''\<rparr>"

definition sample_command :: "string \<Rightarrow> string \<Rightarrow> execute_command" where
  "sample_command mode key = \<lparr>cm_project = ''p'', cm_request = JObj [(''tool'', JStr ''mail.send''),
     (''userId'', JStr ''u''), (''input'', JObj []), (''mode'', JStr mode)], cm_idempotency_key = Some key,
     cm_execution = None, cm_source = None\<rparr>"

definition sample_admission :: "string \<Rightarrow> cloud_response" where
  "sample_admission key = \<lparr>hr_ok = True, hr_declared = None, hr_text = Some (200, Some (JObj
     [(''allowed'', JBool True), (''projectId'', JStr ''p''), (''dimension'', JStr ''execution''),
      (''requested'', JNum 1), (''reservation'', JObj [(''id'', JStr (''r'' @ key)),
        (''idempotencyKey'', JStr (''usage_usage-v1pmail.sendudefault1'' @ key @ ''h'')),
        (''projectId'', JStr ''p''), (''quantity'', JNum 1), (''state'', JStr ''reserved''),
        (''executionId'', JNull), (''month'', JStr ''2026-01-01''), (''createdAt'', JStr ''t'')])]))\<rparr>"

definition sample_credential :: resolved_credential where
  "sample_credential = \<lparr>cd_type = Auth_OAuth2, cd_connection = None, cd_expires_at = None, cd_scopes = Some [''send'']\<rparr>"

text \<open>Admitted, queued, run by a job, dispatched, succeeded.\<close>

definition sample_ops :: "engine_op list" where
  "sample_ops = [En_Execute (at_time 10) (sample_command ''async'' ''k''), En_Reserved (at_time 20) 0 (Some (sample_admission ''k'')),
     En_Job (at_time 30) False ''p'' ''exe_a'', En_Credentials (at_time 40) 1 (Inr sample_credential)]"

definition sample_success :: engine_op where
  "sample_success = En_Adapter (at_time 50) 1 (Inr JNull)"

definition sample_engine :: "bool \<Rightarrow> engine_op list \<Rightarrow> engine_state" where
  "sample_engine usage ops = run_engine_ops (sample_env usage) ops (empty_engine fresh_deliverer)"

text \<open>
  A reservation that is released too early: the job waits for the permit of a synchronous call when its worker
  loses it. Once the permit is there, the outer \<open>catch\<close> releases the reservation of an execution that stays
  pending, and the job is tried again: the tool is called and succeeds, but its usage report contradicts the
  release in the outbox, so that reconciliation fails each time and the job is never acknowledged.
\<close>

definition early_release_ops :: "engine_op list" where
  "early_release_ops = take 2 sample_ops @
     [En_Execute (at_time 22) (sample_command ''sync'' ''l''), En_Job (at_time 24) False ''p'' ''exe_a'', En_Abort 2,
      En_Reserved (at_time 26) 1 None, En_Permit (at_time 28) 2,
      En_Job (at_time 30) False ''p'' ''exe_a'', En_Credentials (at_time 40) 3 (Inr sample_credential),
      En_Adapter (at_time 50) 3 (Inr JNull)]"

end
