(* ===== verification/Engine_Recovery.thy ===== *)
theory Engine_Recovery
  imports Recovered Engine_Examples
begin

text \<open>
  The recovery sweep as \<open>apps/executor/src/runtime.ts\<close> runs it at boot: cancelled executions are reconciled by
  \<open>reconcileTerminalExecution\<close> of the engine, which has the project and the record and nothing else. The sweep
  and the engine share the execution store and the webhook stores; \<open>rc_other\<close> holds the rest of the engine.
\<close>

subsection \<open>The callback\<close>

definition engine_of :: "engine_state recovery_state \<Rightarrow> engine_state" where
  "engine_of st = (rc_other st)\<lparr>es_store := rc_executions st,
     es_deliverer := (es_deliverer (rc_other st))\<lparr>dv_system := rc_system st\<rparr>\<rparr>"

definition recovery_of :: "engine_state \<Rightarrow> engine_state recovery_state" where
  "recovery_of st = \<lparr>rc_executions = es_store st, rc_system = dv_system (es_deliverer st), rc_other = st\<rparr>"

text \<open>Each call of the callback has the readings of clocks that \<open>tm\<close> gives for its execution.\<close>

definition reconcile_cancelled :: "engine_env \<Rightarrow> (string \<Rightarrow> string \<Rightarrow> engine_time) \<Rightarrow> engine_state reconciler" where
  "reconcile_cancelled env tm p r st =
     (case reconcile_terminal env (tm p (ex_id r)) \<lparr>ri_project = p, ri_record = r, ri_report = None,
         ri_reservation = None, ri_event = None\<rparr> (engine_of st) of
        (st', res) \<Rightarrow> (recovery_of st', res))"

subsection \<open>What it leaves alone\<close>

text \<open>On the webhook stores: events and selection jobs may be added.\<close>

definition system_path :: "webhook_system \<Rightarrow> webhook_system \<Rightarrow> bool" where
  "system_path sys sys' \<longleftrightarrow> (work_store_wf (sys_work sys) \<longrightarrow> work_store_wf (sys_work sys')) \<and>
     sys_deliveries sys' = sys_deliveries sys \<and> recovery_path {} selection_jobs (sys_jobs sys) (sys_jobs sys')"

lemma system_path_refl [simp]: "system_path sys sys"
  by (simp add: system_path_def)

lemma system_path_trans: "system_path a b \<Longrightarrow> system_path b c \<Longrightarrow> system_path a c"
  unfolding system_path_def using recovery_path_trans by metis

lemma selection_job [simp]: "Webhook_Select p e \<in> selection_jobs"
  by (auto simp: selection_jobs_def)

lemma submit_job_path:
  "recovery_path {} {job} js (fst (submit_job digest accepting job opts reading wall js))"
proof -
  have "recovery_path {} {job} js (fst (accept_job env wall js))" if "description env = job" for env
    using ensure_recovery_path[of env wall js] that
    by (auto simp: accept_job_def split: sum.split ensure_job_result.split)
  moreover have "description env = job" if "submission_envelope digest job opts reading = Inr env" for env
    using that by (auto simp: submission_envelope_def bind_result_Inr_iff dest: create_job_envelope_Inr(3) split: option.splits)
  ultimately show ?thesis by (auto simp: submit_job_def split: sum.split)
qed

lemma submit_selection_path: "system_path (dv_system st) (dv_system (fst (submit_selection cfg reading wall event start st)))"
proof (cases "get_event (wv_project event) (wv_id event) (dv_system st)")
  case (Some ew)
  let ?s = "submit_job (dc_digest cfg) (dv_accepting st) (Webhook_Select (wv_project event) (wv_id event))
      \<lparr>opt_run_after = Some start, opt_group_key = Some webhook_selection_group_key,
       opt_group_order = Some (ew_sequence ew)\<rparr> reading wall (sys_jobs (dv_system st))"
  have "recovery_path {} selection_jobs (sys_jobs (dv_system st)) (fst ?s)"
    by (rule recovery_path_mono[OF submit_job_path]) simp_all
  then show ?thesis using Some by (cases ?s) (simp add: submit_selection_def system_path_def)
qed (simp add: submit_selection_def)

lemma ensure_event_path: "system_path sys (fst (ensure_event digest wall inp sys))"
proof -
  have "recovery_path {} selection_jobs js js'" if "ensure_selection_job digest ev start wall js = Inr js'" for ev start js js'
  proof -
    from that obtain env r where env: "description env = Webhook_Select (ew_project ev) (ew_event ev)"
      and "ensure_job env wall js = Inr (js', r)"
      by (auto simp: ensure_selection_job_def bind_result_Inr_iff dest!: create_job_envelope_Inr(3) split: if_splits)
    then show ?thesis using recovery_path_mono[OF ensure_recovery_path[of env wall js js' r]] by simp
  qed
  then have "recovery_path {} selection_jobs (sys_jobs sys) (sys_jobs (fst (ensure_event digest wall inp sys)))"
    by (auto simp: ensure_event_def Let_def split: option.split sum.split)
  moreover have "sys_deliveries (fst (ensure_event digest wall inp sys)) = sys_deliveries sys"
    by (simp add: ensure_event_def Let_def split: option.split sum.split)
  ultimately show ?thesis using ensure_event_work_wf by (simp add: system_path_def)
qed

lemma admit_event_path: "system_path (dv_system st) (dv_system (fst (admit_event cfg clock q w event ids kind source st)))"
proof -
  have durably: "system_path (dv_system st1) (dv_system (fst (admit_durably cfg r wall event a retained st1)))"
    for r wall a retained st1
  proof (cases "ensure_event (dc_digest cfg) (wall 0) a (dv_system st1)")
    case (Pair sys res)
    have "system_path (dv_system st1) sys" using ensure_event_path[of "dv_system st1"] Pair by (metis fst_conv)
    then show ?thesis
      using Pair system_path_trans[OF _ submit_selection_path[of "st1\<lparr>dv_system := sys\<rparr>", simplified]]
      by (cases res) (simp_all add: admit_durably_def)
  qed
  then show ?thesis
    by (auto simp: admit_event_def dest!: remember_event_system split: sum.split if_splits) metis+
qed

lemma enqueue_terminal_path:
  "system_path (dv_system (es_deliverer st)) (dv_system (es_deliverer (fst (enqueue_terminal env tm p r event st))))"
proof -
  have path: "system_path (dv_system dv) (dv_system (fst (enqueue_execution cfg clock q w p r i fresh dv)))" for cfg clock q w i fresh dv
    using admit_event_path by (auto simp: enqueue_execution_def split: sum.split)
  obtain dv res where eq: "enqueue_execution (en_deliverer env) (tm_deliverer tm) (tm_queue tm) (tm_wall tm) p r (Some event)
      (tm_event_id tm) ((es_deliverer st)\<lparr>dv_executions := Some (es_store st)\<rparr>) = (dv, res)" by fastforce
  have "system_path (dv_system (es_deliverer st)) (dv_system dv)"
    using path[of "(es_deliverer st)\<lparr>dv_executions := Some (es_store st)\<rparr>" "en_deliverer env"] eq by (simp, metis fst_conv)
  then show ?thesis by (simp add: enqueue_terminal_def eq)
qed

text \<open>On the executions: only the marks of the row \<open>(p, e)\<close> may change.\<close>

definition row_only :: "string \<Rightarrow> string \<Rightarrow> execution_store \<Rightarrow> execution_store \<Rightarrow> bool" where
  "row_only p e es es' \<longleftrightarrow> (exec_rows_wf es \<longrightarrow> exec_rows_wf es') \<and>
     (\<forall>p' e'. (p', e') \<noteq> (p, e) \<longrightarrow> find_execution es' p' e' = find_execution es p' e') \<and>
     map_option se_sequence (find_execution es' p e) = map_option se_sequence (find_execution es p e)"

lemma row_only_refl [simp]: "row_only p e es es"
  by (simp add: row_only_def)

lemma row_only_trans: "row_only p e a b \<Longrightarrow> row_only p e b c \<Longrightarrow> row_only p e a c"
  by (auto simp: row_only_def)

lemma mark_row_only:
  "mark_usage_finalized p e t es = Inr (es', ok) \<Longrightarrow> row_only p e es es'"
  "mark_webhook_published p e t es = Inr (es', ok) \<Longrightarrow> row_only p e es es'"
  unfolding row_only_def
  using moves_row_wf mark_usage_finalized_moves_row mark_webhook_published_moves_row
  by (auto simp: mark_usage_finalized_def mark_webhook_published_def bind_result_Inr_iff split: option.splits if_splits)

definition engine_path :: "string \<Rightarrow> string \<Rightarrow> engine_state \<Rightarrow> engine_state \<Rightarrow> bool" where
  "engine_path p e st st' \<longleftrightarrow> row_only p e (es_store st) (es_store st') \<and>
     system_path (dv_system (es_deliverer st)) (dv_system (es_deliverer st'))"

lemma engine_path_trans: "engine_path p e a b \<Longrightarrow> engine_path p e b c \<Longrightarrow> engine_path p e a c"
  unfolding engine_path_def using row_only_trans system_path_trans by metis

lemma engine_path_then:
  "engine_path p e st (fst r) \<Longrightarrow> (\<And>x st1. r = (st1, Inr x) \<Longrightarrow> engine_path p e st1 (fst (f x st1))) \<Longrightarrow>
   engine_path p e st (fst (then_call r f))"
  using engine_path_trans by (cases r; cases "snd r") fastforce+

lemma record_usage_deliverer [simp]: "es_deliverer (fst (record_usage env tm inp stored r st)) = es_deliverer st"
  by (simp add: record_usage_def report_usage_def release_usage_def Let_def split: bool.split option.split prod.split)

lemma marked_path:
  "engine_path p e st (fst (then_call (store_call st (mark_usage_finalized p e t (es_store st))) (\<lambda>_ st2. (st2, Inr ()))))"
  "engine_path p e st (fst (then_call (store_call st (mark_webhook_published p e t (es_store st))) (\<lambda>_ st2. (st2, Inr ()))))"
  using mark_row_only[of p e t "es_store st"]
  by (auto simp: engine_path_def store_call_def then_call_def split: sum.split prod.split)

lemma finalize_usage_path: "engine_path (ri_project inp) (ex_id r) st (fst (finalize_usage env tm inp stored r st))"
proof (cases "Option.bind stored rv_usage_finalized_at = None")
  case True
  have "engine_path (ri_project inp) (ex_id r) st (fst (record_usage env tm inp stored r st))" by (simp add: engine_path_def)
  moreover have "engine_path (ri_project inp) (ex_id r) st1 st1" for st1 by (simp add: engine_path_def)
  ultimately show ?thesis
    using True by (auto simp: finalize_usage_def marked_path split: sum.split intro!: engine_path_then)
qed (simp add: finalize_usage_def engine_path_def)

lemma publish_event_path: "engine_path (ri_project inp) (ex_id r) st (fst (publish_event env tm inp stored r st))"
proof -
  have enq: "engine_path (ri_project inp) (ex_id r) st (fst (enqueue_terminal env tm (ri_project inp) r i st))" for i
    using enqueue_terminal_path by (simp add: engine_path_def)
  have same: "engine_path (ri_project inp) (ex_id r) st1 st1" for st1 by (simp add: engine_path_def)
  show ?thesis
    by (auto simp: publish_event_def marked_path same split: option.split sum.split intro!: engine_path_then enq)
qed

subsection \<open>What it achieves\<close>

text \<open>The engine's reconciliation of a cancelled row, from the record of the row alone.\<close>

lemma reconcile_cancelled_row:
  assumes row: "find_execution (es_store st) p e = Some row" "row_terminal row" and id: "ex_id (se_record row) = e"
    and eq: "reconcile_terminal env tm \<lparr>ri_project = p, ri_record = projected row, ri_report = None, ri_reservation = None,
      ri_event = None\<rparr> st = (st', res)"
  shows "engine_path p e st st'"
    and "res = Inr () \<Longrightarrow> finished st' p e \<and> (\<exists>row'. find_execution (es_store st') p e = Some row' \<and> se_record row' = se_record row)"
proof -
  let ?inp = "\<lparr>ri_project = p, ri_record = projected row, ri_report = None, ri_reservation = None, ri_event = None\<rparr>"
  let ?rv = "recoverable p row"
  have id': "ex_id (projected row) = e" using id by simp
  have st': "(st', res) = then_call (finalize_usage env tm ?inp (Some ?rv) (projected row) st)
      (\<lambda>_. publish_event env tm ?inp (Some ?rv) (projected row))"
    using eq row id by (simp add: reconcile_terminal_def get_recoverable_def settled_record_def row_terminal_def Let_def)
  have "engine_path p e st (fst (then_call (finalize_usage env tm ?inp (Some ?rv) (projected row) st)
      (\<lambda>_. publish_event env tm ?inp (Some ?rv) (projected row))))"
    using finalize_usage_path[of ?inp "projected row"] publish_event_path[of ?inp "projected row"] id'
    by (intro engine_path_then) simp_all
  then show "engine_path p e st st'" by (simp add: st'[symmetric])
  assume "res = Inr ()"
  then obtain st1 where st1: "finalize_usage env tm ?inp (Some ?rv) (projected row) st = (st1, Inr ())"
    "publish_event env tm ?inp (Some ?rv) (projected row) st1 = (st', Inr ())"
    using st' by (auto simp: then_call_def split: prod.splits sum.splits)
  obtain row1 where row1: "find_execution (es_store st1) p e = Some row1" "se_usage_finalized_at row1 \<noteq> None"
    "row1 = row\<lparr>se_usage_finalized_at := se_usage_finalized_at row1\<rparr>"
    using finalize_usage_row(2)[OF row _ id, of ?inp env tm st1] st1(1) by (auto simp: agrees_def)
  have proj: "projected row1 = projected row" "ex_id (se_record row1) = e" "row_terminal row1"
    "se_webhook_event_id row1 = se_webhook_event_id row" "se_webhook_published_at row1 = se_webhook_published_at row"
    "se_record row1 = se_record row"
    using id row(2) arg_cong[OF row1(3), of projected] arg_cong[OF row1(3), of se_record]
      arg_cong[OF row1(3), of se_webhook_event_id] arg_cong[OF row1(3), of se_webhook_published_at]
    by (simp_all add: projected_def row_terminal_def)
  obtain row' where "find_execution (es_store st') p e = Some row'" "se_record row' = se_record row1"
    "se_usage_finalized_at row' = se_usage_finalized_at row1" "se_webhook_event_id row' = se_webhook_event_id row1"
    "se_webhook_event_id row1 \<noteq> None \<longrightarrow> se_webhook_published_at row' \<noteq> None"
    using publish_event_row(2)[OF row1(1) _ proj(2), of ?inp ?rv env tm st'] st1(2) proj by auto
  then show "finished st' p e \<and> (\<exists>row'. find_execution (es_store st') p e = Some row' \<and> se_record row' = se_record row)"
    using row1(2) proj(3,6) by (auto simp: finished_def finished_row_def row_terminal_def)
qed

lemma finished_needs_nothing: "finished_row row \<Longrightarrow> \<not> needs_recovery row"
  by (auto simp: finished_row_def row_terminal_def needs_recovery_def)

lemma engine_of_simps [simp]: "es_store (engine_of st) = rc_executions st" "dv_system (es_deliverer (engine_of st)) = rc_system st"
  by (simp_all add: engine_of_def)

lemma recovery_of_simps [simp]: "rc_executions (recovery_of st) = es_store st" "rc_system (recovery_of st) = dv_system (es_deliverer st)"
  "rc_jobs (recovery_of st) = sys_jobs (dv_system (es_deliverer st))"
  by (simp_all add: recovery_of_def rc_jobs_def)

lemma reconcile_cancelled_local: "reconciles_locally (reconcile_cancelled env tm)"
  unfolding reconciles_locally_def
proof (intro allI impI, elim conjE)
  fix c :: recoverable_execution and st st' :: "engine_state recovery_state" and res
  assume wf: "recovery_wf st" and c: "c \<in> set (recovery_executions st)" "ex_status (rv_record c) = St_Cancelled"
    and run: "reconcile_cancelled env tm (rv_project c) (rv_record c) st = (st', res)"
  have rows: "exec_rows_wf (rc_executions st)" using wf by (simp add: recovery_wf_def)
  obtain row where row: "find_execution (rc_executions st) (rv_project c) (ex_id (rv_record c)) = Some row"
    "c = recoverable (rv_project c) row"
    using c(1) recovery_executions_iff[OF rows] by blast
  have proj: "rv_record c = projected row" by (subst row(2)) simp
  have id: "ex_id (se_record row) = ex_id (rv_record c)" by (simp add: proj)
  have status: "ex_status (se_record row) = St_Cancelled" using c(2) by (simp add: proj)
  obtain en where en: "reconcile_terminal env (tm (rv_project c) (ex_id (rv_record c)))
      \<lparr>ri_project = rv_project c, ri_record = projected row, ri_report = None, ri_reservation = None, ri_event = None\<rparr>
      (engine_of st) = (en, res)" "st' = recovery_of en"
    using run by (auto simp: reconcile_cancelled_def proj split: prod.splits)
  note r = reconcile_cancelled_row[of "engine_of st", simplified, OF row(1) _ id en(1)]
  have final: "row_terminal row" by (simp add: row_terminal_def status)
  have path: "engine_path (rv_project c) (ex_id (rv_record c)) (engine_of st) en" by (rule r(1)[OF final])
  have seq: "se_sequence row = rv_sequence c" by (subst row(2)) (simp add: recoverable_def)
  have "recovery_wf st'"
    using wf path unfolding en(2) recovery_wf_def engine_path_def row_only_def system_path_def recovery_path_def
    by (simp add: rc_jobs_def)
  moreover have "recovery_path {} selection_jobs (rc_jobs st) (rc_jobs st')"
    using path by (simp add: en(2) engine_path_def system_path_def rc_jobs_def)
  moreover have "other_rows_kept c (rc_executions st) (rc_executions st')"
    using path by (simp add: en(2) engine_path_def row_only_def other_rows_kept_def)
  moreover have "map_option se_sequence (own_row c (rc_executions st')) = Some (rv_sequence c)"
    using path row(1) seq by (simp add: en(2) engine_path_def row_only_def own_row_def)
  moreover have "reconciled c (rc_executions st')" if "res = Inr ()"
    using r(2)[OF final that] status finished_needs_nothing
    by (auto simp: en(2) reconciled_def own_row_def finished_def)
  ultimately show "recovery_wf st' \<and> recovery_path {} selection_jobs (rc_jobs st) (rc_jobs st') \<and>
     other_rows_kept c (rc_executions st) (rc_executions st') \<and>
     map_option se_sequence (own_row c (rc_executions st')) = Some (rv_sequence c) \<and>
     (res = Inr () \<longrightarrow> reconciled c (rc_executions st'))" by blast
qed

lemma engine_callback_ok: "ri_reconcile inp = Some (reconcile_cancelled env tm) \<Longrightarrow> engine_ok inp"
  by (simp add: engine_ok_def reconcile_cancelled_local)

subsection \<open>Properties\<close>

text \<open>C20: The recovery sweep of a booting executor ends, whatever the stores hold: with any page size there is a number
  of pages after which the loops have stopped, and the result is that of a single pass over the candidates of each
  store in order of their sequence numbers. Pages and cursors lose no candidate and visit none twice, although the
  sweep changes the stores that it pages over: the engine's callback takes the cancelled executions that it
  reconciles out of the candidates and admits new events.\<close>

theorem recovery_sweep_terminates:
  assumes "recovery_wf st" "ri_reconcile inp = Some (reconcile_cancelled env tm)"
  shows "\<exists>n. \<forall>fuel \<ge> n. recover_executor_jobs inp fuel st = Some (single_pass inp st)"
  by (rule recovery_terminates_in[OF assms(1) engine_callback_ok[OF assms(2)]])

text \<open>C21: A recovery sweep that returns has left nothing behind. Every cancelled execution that was to be recovered
  has been reconciled: its usage is finalized, its event, if it has one, is published, it needs no more recovery, and
  its job is not pending. For every other execution that was to be recovered, for every event that is not
  materialized afterwards and for every delivery that is pending or delivering afterwards, the job with the
  deterministic identifier exists, describes this work and is pending or running, unless this very job had been
  cancelled before the sweep, which recovery leaves as it is. A job that had succeeded or failed was reopened, and no
  later step of the sweep settles or cancels it again.\<close>

theorem recovery_leaves_nothing_behind:
  assumes "recovery_wf st" "ri_reconcile inp = Some (reconcile_cancelled env tm)"
    and "recover_executor_jobs inp fuel st = Some (st', Inr ())"
  shows "let job_left = \<lambda>job. live (ri_digest inp) job (rc_jobs st') \<or> job_in {Job_Cancelled} (ri_digest inp) job (rc_jobs st) in
    (\<forall>c \<in> set (recovery_executions st).
       if ex_status (rv_record c) = St_Cancelled
       then (\<exists>row. find_execution (rc_executions st') (rv_project c) (ex_id (rv_record c)) = Some row \<and>
           ex_status (se_record row) = St_Cancelled \<and> \<not> needs_recovery row) \<and>
         \<not> job_in {Job_Pending} (ri_digest inp) (Execution_Run (rv_project c) (ex_id (rv_record c))) (rc_jobs st')
       else job_left (Execution_Run (rv_project c) (ex_id (rv_record c)))) \<and>
    (\<forall>ev \<in> set (unmaterialized_events st'). job_left (Webhook_Select (ew_project ev) (ew_event ev))) \<and>
    (\<forall>d \<in> set (unfinished_deliveries st'). job_left (Webhook_Deliver (sd_project d) (wd_id (sd_delivery d))))"
  using sweep_recovers[OF assms(1) engine_callback_ok[OF assms(2)] assms(3)]
  unfolding work_recovered_def reconciled_def own_row_def execution_job_def event_job_def delivery_job_def .

subsection \<open>A concrete sweep\<close>

text \<open>
  A running and a cancelled execution, the latter with a pending job and an event that is not published; an event
  that is not materialized, one that is, and two deliveries of which one was given up. No job was ever made of the
  running execution, and the selection job of the first event has been completed by a worker.
\<close>

definition demo_recovery_exec_ops :: "exec_op list" where
  "demo_recovery_exec_ops = demo_exec_ops @
     [X_Allocate ((demo_allocation ''exe_2'' 1 ''h'')\<lparr>al_idempotency := None\<rparr>),
      X_Event ''p'' ''exe_2'' ''evt_9'', X_Cancel ''p'' ''exe_2'' (Iso 3)]"

definition demo_recovery_ops :: "system_op list" where
  "demo_recovery_ops =
     [Sop_Ensure 0 demo_admission,
      Sop_Ensure 0 (demo_admission\<lparr>ea_event := ''evt_2''\<rparr>),
      Sop_Materialize ''p'' ''evt_2'' [''whe_1'', ''whe_2''] (Iso 7),
      Sop_Job (Op_Claim \<lparr>cl_queue = Webhook_Selection_Queue, cl_worker = ''w'', cl_now = Iso 8,
        cl_lease_expires_at = Iso 9, cl_limit = 1\<rparr> (\<lambda>i. ''t'')),
      Sop_Job (Op_Lease Act_Complete \<lparr>lm_job_id = executor_job_id demo_digest (Webhook_Select ''p'' ''evt_1''),
        lm_worker_id = ''w'', lm_lease_token = ''t'', lm_now = Iso 8\<rparr>),
      Sop_Delivery (Dop_Fail ''p'' ''whd_p/evt_2/whe_1/'' (Iso 8)),
      Sop_Job (Op_Ensure \<lparr>job_id = executor_job_id demo_digest (Execution_Run ''p'' ''exe_2''), queue_name = Execution_Queue,
        description = Execution_Run ''p'' ''exe_2'', group_key = None, group_order = None, run_after = Iso 2\<rparr> 2)]"

definition demo_recovery :: "engine_state recovery_state" where
  "demo_recovery = \<lparr>rc_executions = run_exec_ops demo_recovery_exec_ops empty_execution_store,
     rc_system = run_system_ops demo_digest demo_recovery_ops empty_webhook_system, rc_other = empty_engine fresh_deliverer\<rparr>"

definition demo_recovery_input :: "engine_state recovery_input" where
  "demo_recovery_input = \<lparr>ri_digest = demo_digest, ri_wall = 20, ri_now = Some 10, ri_batch_size = Some 1,
     ri_reconcile = Some (reconcile_cancelled (sample_env True) (\<lambda>_ _. at_time 15))\<rparr>"

lemma reachable_recovery_wf:
  "recovery_wf \<lparr>rc_executions = run_exec_ops xs empty_execution_store,
     rc_system = run_system_ops digest ops empty_webhook_system, rc_other = w\<rparr>"
proof -
  have "work_store_wf (sys_work empty_webhook_system)"
    by (simp add: empty_webhook_system_def empty_work_store_def work_store_wf_def)
  then show ?thesis
    using run_system_ops_wf[OF empty_webhook_system_wf, of digest ops]
    by (simp add: recovery_wf_def run_exec_ops_rows_wf rc_jobs_def system_wf_def run_system_ops_work_wf)
qed

lemma demo_recovery_ok: "recovery_wf demo_recovery"
  "ri_reconcile demo_recovery_input = Some (reconcile_cancelled (sample_env True) (\<lambda>_ _. at_time 15))"
  by (simp_all add: demo_recovery_def reachable_recovery_wf demo_recovery_input_def)

lemma recovery_sweep_terminates_witness:
  "\<exists>n. \<forall>fuel \<ge> n. recover_executor_jobs demo_recovery_input fuel demo_recovery =
     Some (single_pass demo_recovery_input demo_recovery)"
  by (rule recovery_sweep_terminates[OF demo_recovery_ok])

lemma job_in_code: "job_in ss digest job js \<longleftrightarrow> (case map_of (jobs js) (executor_job_id digest job) of None \<Rightarrow> False
    | Some j \<Rightarrow> description j = job \<and> job_state j \<in> ss)"
  by (simp add: job_in_def split: option.split)

text \<open>The sweep reconciles the cancelled execution, and its job is no longer pending.\<close>

lemma recovery_leaves_nothing_behind_witness:
  "\<exists>st' row. recover_executor_jobs demo_recovery_input 5 demo_recovery = Some (st', Inr ()) \<and>
     job_in {Job_Pending} demo_digest (Execution_Run ''p'' ''exe_2'') (rc_jobs demo_recovery) \<and>
     \<not> job_in {Job_Pending} demo_digest (Execution_Run ''p'' ''exe_2'') (rc_jobs st') \<and>
     find_execution (rc_executions st') ''p'' ''exe_2'' = Some row \<and> \<not> needs_recovery row"
proof -
  have "(case recover_executor_jobs demo_recovery_input 5 demo_recovery of Some (_, Inr _) \<Rightarrow> True | _ \<Rightarrow> False)"
    by code_simp
  then obtain st' where run: "recover_executor_jobs demo_recovery_input 5 demo_recovery = Some (st', Inr ())"
    by (auto split: option.splits prod.splits sum.splits)
  have "\<exists>c \<in> set (recovery_executions demo_recovery). ex_status (rv_record c) = St_Cancelled \<and> rv_project c = ''p'' \<and>
      ex_id (rv_record c) = ''exe_2''" by code_simp
  moreover have "job_in {Job_Pending} demo_digest (Execution_Run ''p'' ''exe_2'') (rc_jobs demo_recovery)"
    unfolding job_in_code by code_simp
  ultimately show ?thesis
    using recovery_leaves_nothing_behind[OF demo_recovery_ok run] run
    by (fastforce simp: demo_recovery_input_def Let_def)
qed

end
