(* ===== verification/Address_Guard.thy ===== *)
theory Address_Guard
  imports Ssrf
begin

text \<open>
  What the egress guard promises: the classifications agree with the CIDR blocks they stand for,
  every legal spelling of an address has the same class, and no connection goes to a blocked address.
\<close>

subsection \<open>Numbers of bytes\<close>

definition bytes_ok :: "int list \<Rightarrow> bool" where
  "bytes_ok bs \<longleftrightarrow> list_all (\<lambda>b. 0 \<le> b \<and> b \<le> 255) bs"

definition bytes_number :: "int list \<Rightarrow> int" where
  "bytes_number bs = foldl (\<lambda>n b. 256 * n + b) 0 bs"

lemma foldl_bytes:
  "foldl (\<lambda>n b. 256 * n + b) m bs = m * 256 ^ length bs + bytes_number bs" for m :: int
proof (induction bs arbitrary: m)
  case Nil
  then show ?case by (simp add: bytes_number_def)
next
  case (Cons b bs)
  have "bytes_number (b # bs) = foldl (\<lambda>n b. 256 * n + b) b bs"
    by (simp add: bytes_number_def)
  also have "\<dots> = b * 256 ^ length bs + bytes_number bs" by (rule Cons.IH)
  finally have num: "bytes_number (b # bs) = b * 256 ^ length bs + bytes_number bs" .
  have "foldl (\<lambda>n b. 256 * n + b) m (b # bs) = (256 * m + b) * 256 ^ length bs + bytes_number bs"
    using Cons.IH[of "256 * m + b"] by simp
  then show ?case unfolding num by (simp add: distrib_right)
qed

lemma bytes_number_append:
  "bytes_number (xs @ ys) = bytes_number xs * 256 ^ length ys + bytes_number ys"
  using foldl_bytes[of "bytes_number xs" ys] by (simp add: bytes_number_def)

lemma bytes_number_Nil [simp]: "bytes_number [] = 0"
  by (simp add: bytes_number_def)

lemma bytes_number_single [simp]: "bytes_number [b] = b"
  by (simp add: bytes_number_def)

lemma bytes_number_bounds:
  "bytes_ok bs \<Longrightarrow> 0 \<le> bytes_number bs \<and> bytes_number bs < 256 ^ length bs"
proof (induction bs rule: rev_induct)
  case Nil
  then show ?case by (simp add: bytes_number_def)
next
  case (snoc b bs)
  then have "0 \<le> bytes_number bs" "bytes_number bs + 1 \<le> 256 ^ length bs" "0 \<le> b" "b \<le> 255"
    by (auto simp: bytes_ok_def)
  moreover from this have "256 * (bytes_number bs + 1) \<le> 256 * 256 ^ length bs" by simp
  ultimately show ?case
    by (simp add: bytes_number_append)
qed

lemma bytes_number_div:
  assumes "bytes_ok ys"
  shows "bytes_number (xs @ ys) div 256 ^ length ys = bytes_number xs"
    and "bytes_number (xs @ ys) mod 256 ^ length ys = bytes_number ys"
  using bytes_number_bounds[OF assms] by (simp_all add: bytes_number_append)

lemma bytes_number_inj:
  assumes "bytes_ok xs" "bytes_ok ys" "length xs = length ys"
  shows "bytes_number xs = bytes_number ys \<longleftrightarrow> xs = ys"
  using assms(3,1,2)
proof (induction xs ys rule: rev_induct2)
  case 1
  then show ?case by simp
next
  case (4 x xs y ys)
  have ok: "bytes_ok xs" "bytes_ok ys" "bytes_ok [x]" "bytes_ok [y]"
    using 4 by (simp_all add: bytes_ok_def)
  have "xs = ys \<and> x = y" if eq: "bytes_number (xs @ [x]) = bytes_number (ys @ [y])"
  proof -
    have "bytes_number xs = bytes_number ys"
      using bytes_number_div(1)[OF ok(3), of xs] bytes_number_div(1)[OF ok(4), of ys] eq by simp
    moreover have "x = y"
      using bytes_number_div(2)[OF ok(3), of xs] bytes_number_div(2)[OF ok(4), of ys] eq
      by (simp del: mod_pos_pos_trivial)
    ultimately show ?thesis using 4 ok by simp
  qed
  then show ?case by auto
qed simp_all

text \<open>Membership in a CIDR block: the first \<open>len\<close> of \<open>bits\<close> bits agree with those of the base.\<close>

definition in_cidr :: "nat \<Rightarrow> int \<Rightarrow> int \<Rightarrow> nat \<Rightarrow> bool" where
  "in_cidr bits n base len \<longleftrightarrow> n div 2 ^ (bits - len) = base div 2 ^ (bits - len)"

subsection \<open>IPv4 classes\<close>

definition ipv4_number :: "int \<Rightarrow> int \<Rightarrow> int \<Rightarrow> int \<Rightarrow> int" where
  "ipv4_number a b c d = bytes_number [a, b, c, d]"

text \<open>The blocked blocks in CIDR notation.\<close>

definition blocked_ipv4_blocks :: "(int \<times> nat) list" where
  "blocked_ipv4_blocks =
    [(ipv4_number 0 0 0 0, 8), (ipv4_number 10 0 0 0, 8), (ipv4_number 127 0 0 0, 8),
     (ipv4_number 100 64 0 0, 10), (ipv4_number 169 254 0 0, 16), (ipv4_number 172 16 0 0, 12),
     (ipv4_number 192 0 0 0, 24), (ipv4_number 192 0 2 0, 24), (ipv4_number 192 88 99 0, 24),
     (ipv4_number 192 168 0 0, 16), (ipv4_number 198 18 0 0, 15), (ipv4_number 198 51 100 0, 24),
     (ipv4_number 203 0 113 0, 24), (ipv4_number 224 0 0 0, 4), (ipv4_number 240 0 0 0, 4)]"

definition blocked_ipv4_number :: "int \<Rightarrow> bool" where
  "blocked_ipv4_number n \<longleftrightarrow> list_ex (\<lambda>(base, len). in_cidr 32 n base len) blocked_ipv4_blocks"

lemma ipv4_number_div:
  assumes "bytes_ok [a, b, c, d]"
  shows "ipv4_number a b c d div 16777216 = bytes_number [a]"
    and "ipv4_number a b c d div 65536 = bytes_number [a, b]"
    and "ipv4_number a b c d div 256 = bytes_number [a, b, c]"
  using bytes_number_div(1)[of "[b, c, d]" "[a]"] bytes_number_div(1)[of "[c, d]" "[a, b]"]
    bytes_number_div(1)[of "[d]" "[a, b, c]"] assms
  by (simp_all add: ipv4_number_def bytes_ok_def)

lemma ipv4_number_div_parts:
  assumes "bytes_ok [a, b, c, d]"
  shows "ipv4_number a b c d div 4194304 = 4 * a + b div 64"
    and "ipv4_number a b c d div 1048576 = 16 * a + b div 16"
    and "ipv4_number a b c d div 131072 = 128 * a + b div 2"
    and "ipv4_number a b c d div 268435456 = a div 16"
proof -
  let ?n = "ipv4_number a b c d"
  have two: "?n div 65536 = 256 * a + b"
    unfolding ipv4_number_div(2)[OF assms] by (simp add: bytes_number_def)
  have 64: "?n div (65536 * 64) = (256 * a + b) div 64"
    unfolding two[symmetric] by (rule zdiv_zmult2_eq) simp
  have 16: "?n div (65536 * 16) = (256 * a + b) div 16"
    unfolding two[symmetric] by (rule zdiv_zmult2_eq) simp
  have 2: "?n div (65536 * 2) = (256 * a + b) div 2"
    unfolding two[symmetric] by (rule zdiv_zmult2_eq) simp
  have 1: "?n div (16777216 * 16) = bytes_number [a] div 16"
    unfolding ipv4_number_div(1)[OF assms, symmetric] by (rule zdiv_zmult2_eq) simp
  have "(256 * a + b) div 64 = 4 * a + b div 64"
    using div_mult_self2[of 64 b "4 * a"] by (simp add: add.commute)
  then show "?n div 4194304 = 4 * a + b div 64" using 64 by simp
  have "(256 * a + b) div 16 = 16 * a + b div 16"
    using div_mult_self2[of 16 b "16 * a"] by (simp add: add.commute)
  then show "?n div 1048576 = 16 * a + b div 16" using 16 by simp
  have "(256 * a + b) div 2 = 128 * a + b div 2"
    using div_mult_self2[of 2 b "128 * a"] by (simp add: add.commute)
  then show "?n div 131072 = 128 * a + b div 2" using 2 by simp
  show "?n div 268435456 = a div 16" using 1 by simp
qed

lemma high_part_eq:
  fixes a a' b b' :: int
  assumes "0 \<le> b" "b < k" "0 \<le> b'" "b' < k"
  shows "k * a + b = k * a' + b' \<longleftrightarrow> a = a' \<and> b = b'"
proof
  assume eq: "k * a + b = k * a' + b'"
  have "(k * a + b) div k = a" "(k * a' + b') div k = a'" using assms by simp_all
  then show "a = a' \<and> b = b'" using eq by auto
qed simp

lemma in_cidr_ipv4:
  assumes n: "bytes_ok [a, b, c, d]" and m: "bytes_ok [a', b', c', d']"
  shows "in_cidr 32 (ipv4_number a b c d) (ipv4_number a' b' c' d') 8 \<longleftrightarrow> a = a'"
    and "in_cidr 32 (ipv4_number a b c d) (ipv4_number a' b' c' d') 16 \<longleftrightarrow> a = a' \<and> b = b'"
    and "in_cidr 32 (ipv4_number a b c d) (ipv4_number a' b' c' d') 24 \<longleftrightarrow> a = a' \<and> b = b' \<and> c = c'"
    and "in_cidr 32 (ipv4_number a b c d) (ipv4_number a' b' c' d') 10 \<longleftrightarrow>
      a = a' \<and> b div 64 = b' div 64"
    and "in_cidr 32 (ipv4_number a b c d) (ipv4_number a' b' c' d') 12 \<longleftrightarrow>
      a = a' \<and> b div 16 = b' div 16"
    and "in_cidr 32 (ipv4_number a b c d) (ipv4_number a' b' c' d') 15 \<longleftrightarrow>
      a = a' \<and> b div 2 = b' div 2"
    and "in_cidr 32 (ipv4_number a b c d) (ipv4_number a' b' c' d') 4 \<longleftrightarrow> a div 16 = a' div 16"
proof -
  have ok: "bytes_ok [a, b, c]" "bytes_ok [a', b', c']" "bytes_ok [a, b]" "bytes_ok [a', b']"
    using n m by (simp_all add: bytes_ok_def)
  have r: "0 \<le> b" "b \<le> 255" "0 \<le> b'" "b' \<le> 255" using n m by (simp_all add: bytes_ok_def)
  note div = ipv4_number_div[OF n] ipv4_number_div[OF m]
    ipv4_number_div_parts[OF n] ipv4_number_div_parts[OF m]
  show "in_cidr 32 (ipv4_number a b c d) (ipv4_number a' b' c' d') 8 \<longleftrightarrow> a = a'"
    by (simp add: in_cidr_def div)
  show "in_cidr 32 (ipv4_number a b c d) (ipv4_number a' b' c' d') 16 \<longleftrightarrow> a = a' \<and> b = b'"
    using bytes_number_inj[OF ok(3,4)] by (simp add: in_cidr_def div)
  show "in_cidr 32 (ipv4_number a b c d) (ipv4_number a' b' c' d') 24 \<longleftrightarrow> a = a' \<and> b = b' \<and> c = c'"
    using bytes_number_inj[OF ok(1,2)] by (simp add: in_cidr_def div)
  show "in_cidr 32 (ipv4_number a b c d) (ipv4_number a' b' c' d') 10 \<longleftrightarrow>
      a = a' \<and> b div 64 = b' div 64"
    using high_part_eq[of "b div 64" 4 "b' div 64" a a'] r by (simp add: in_cidr_def div)
  show "in_cidr 32 (ipv4_number a b c d) (ipv4_number a' b' c' d') 12 \<longleftrightarrow>
      a = a' \<and> b div 16 = b' div 16"
    using high_part_eq[of "b div 16" 16 "b' div 16" a a'] r by (simp add: in_cidr_def div)
  show "in_cidr 32 (ipv4_number a b c d) (ipv4_number a' b' c' d') 15 \<longleftrightarrow>
      a = a' \<and> b div 2 = b' div 2"
    using high_part_eq[of "b div 2" 128 "b' div 2" a a'] r by (simp add: in_cidr_def div)
  show "in_cidr 32 (ipv4_number a b c d) (ipv4_number a' b' c' d') 4 \<longleftrightarrow> a div 16 = a' div 16"
    by (simp add: in_cidr_def div)
qed

lemma octet_ranges:
  fixes a b :: int
  assumes "0 \<le> a" "a \<le> 255" "0 \<le> b" "b \<le> 255"
  shows "b div 64 = 1 \<longleftrightarrow> b \<ge> 64 \<and> b \<le> 127" "b div 16 = 1 \<longleftrightarrow> b \<ge> 16 \<and> b \<le> 31"
    "b div 2 = 9 \<longleftrightarrow> b = 18 \<or> b = 19" "a div 16 = 14 \<or> a div 16 = 15 \<longleftrightarrow> a \<ge> 224"
  using assms by presburger+

lemma blocked_octets_number:
  assumes "bytes_ok [a, b, c, d]"
  shows "blocked_octets a b c \<longleftrightarrow> blocked_ipv4_number (ipv4_number a b c d)"
proof -
  have r: "0 \<le> a" "a \<le> 255" "0 \<le> b" "b \<le> 255"
    using assms by (simp_all add: bytes_ok_def)
  let ?n = "ipv4_number a b c d"
  note block = in_cidr_ipv4[OF assms]
  have blocks:
    "in_cidr 32 ?n (ipv4_number 0 0 0 0) 8 \<longleftrightarrow> a = 0"
    "in_cidr 32 ?n (ipv4_number 10 0 0 0) 8 \<longleftrightarrow> a = 10"
    "in_cidr 32 ?n (ipv4_number 127 0 0 0) 8 \<longleftrightarrow> a = 127"
    "in_cidr 32 ?n (ipv4_number 100 64 0 0) 10 \<longleftrightarrow> a = 100 \<and> b div 64 = 1"
    "in_cidr 32 ?n (ipv4_number 169 254 0 0) 16 \<longleftrightarrow> a = 169 \<and> b = 254"
    "in_cidr 32 ?n (ipv4_number 172 16 0 0) 12 \<longleftrightarrow> a = 172 \<and> b div 16 = 1"
    "in_cidr 32 ?n (ipv4_number 192 0 0 0) 24 \<longleftrightarrow> a = 192 \<and> b = 0 \<and> c = 0"
    "in_cidr 32 ?n (ipv4_number 192 0 2 0) 24 \<longleftrightarrow> a = 192 \<and> b = 0 \<and> c = 2"
    "in_cidr 32 ?n (ipv4_number 192 88 99 0) 24 \<longleftrightarrow> a = 192 \<and> b = 88 \<and> c = 99"
    "in_cidr 32 ?n (ipv4_number 192 168 0 0) 16 \<longleftrightarrow> a = 192 \<and> b = 168"
    "in_cidr 32 ?n (ipv4_number 198 18 0 0) 15 \<longleftrightarrow> a = 198 \<and> b div 2 = 9"
    "in_cidr 32 ?n (ipv4_number 198 51 100 0) 24 \<longleftrightarrow> a = 198 \<and> b = 51 \<and> c = 100"
    "in_cidr 32 ?n (ipv4_number 203 0 113 0) 24 \<longleftrightarrow> a = 203 \<and> b = 0 \<and> c = 113"
    "in_cidr 32 ?n (ipv4_number 224 0 0 0) 4 \<longleftrightarrow> a div 16 = 14"
    "in_cidr 32 ?n (ipv4_number 240 0 0 0) 4 \<longleftrightarrow> a div 16 = 15"
    by (simp_all add: block bytes_ok_def)
  have "blocked_ipv4_number ?n \<longleftrightarrow> a = 0 \<or> a = 10 \<or> a = 127 \<or>
      (a = 100 \<and> b div 64 = 1) \<or> (a = 169 \<and> b = 254) \<or> (a = 172 \<and> b div 16 = 1) \<or>
      (a = 192 \<and> b = 0 \<and> c = 0) \<or> (a = 192 \<and> b = 0 \<and> c = 2) \<or> (a = 192 \<and> b = 88 \<and> c = 99) \<or>
      (a = 192 \<and> b = 168) \<or> (a = 198 \<and> b div 2 = 9) \<or> (a = 198 \<and> b = 51 \<and> c = 100) \<or>
      (a = 203 \<and> b = 0 \<and> c = 113) \<or> a div 16 = 14 \<or> a div 16 = 15"
    unfolding blocked_ipv4_number_def blocked_ipv4_blocks_def
    by (simp only: list_ex_Cons_iff list_ex_Nil_iff prod.case blocks simp_thms)
  then show ?thesis
    unfolding octet_ranges(1-3)[OF r] octet_ranges(4)[OF r] blocked_octets_def by (simp only:)
qed

subsection \<open>IPv4 literals\<close>

lemma octet_text:
  assumes "0 \<le> a" "a \<le> 255"
  shows "parse_octet (to_dec a) = Some a" "CHR ''.'' \<notin> set (to_dec a)"
proof -
  have "list_all (\<lambda>a. parse_octet (to_dec a) = Some a \<and> CHR ''.'' \<notin> set (to_dec a)) (map int [0..<256])"
    by code_simp
  moreover have "a \<in> set (map int [0..<256])"
    using assms by (auto simp: image_iff intro!: bexI[of _ "nat a"])
  ultimately show "parse_octet (to_dec a) = Some a" "CHR ''.'' \<notin> set (to_dec a)"
    unfolding list_all_iff by blast+
qed

lemma parse_dotted:
  assumes "bytes_ok [a, b, c, d]"
  shows "parse_ipv4_octets (dotted a b c d) = Some (a, b, c, d)"
  using assms
  by (simp add: bytes_ok_def parse_ipv4_octets_def dotted_def split_char_append split_char_plain octet_text)

lemma foldl_digits_nonneg:
  "0 \<le> base \<Longrightarrow> list_all (\<lambda>c. 0 \<le> digit_value c) s \<Longrightarrow> 0 \<le> n \<Longrightarrow>
     0 \<le> foldl (\<lambda>n c. base * n + digit_value c) n s" for n :: int
  by (induction s arbitrary: n) auto

lemma digit_value_nonneg: "dec_digit c \<Longrightarrow> 0 \<le> digit_value c" "hex_digit c \<Longrightarrow> 0 \<le> digit_value c"
  by (auto simp: dec_digit_def hex_digit_def digit_value_def Let_def)

lemma parse_octet_range: "parse_octet part = Some v \<Longrightarrow> 0 \<le> v \<and> v \<le> 255"
  using foldl_digits_nonneg[of 10 part 0] digit_value_nonneg(1)
  by (auto simp: parse_octet_def digits_value_def Let_def list_all_iff split: if_splits)

lemma parse_octets_range: "parse_octets parts = Some vs \<Longrightarrow> bytes_ok vs"
  by (induction parts arbitrary: vs)
    (auto simp: bytes_ok_def split: option.splits dest: parse_octet_range)

lemma parse_ipv4_range: "parse_ipv4_octets s = Some (a, b, c, d) \<Longrightarrow> bytes_ok [a, b, c, d]"
  by (auto simp: parse_ipv4_octets_def Let_def dest!: parse_octets_range
      split: if_splits option.splits list.splits)

lemma blocked_dotted:
  "bytes_ok [a, b, c, d] \<Longrightarrow>
     is_blocked_ipv4 (dotted a b c d) = blocked_ipv4_number (ipv4_number a b c d)"
  by (simp add: is_blocked_ipv4_def parse_dotted blocked_octets_number)

text \<open>The IPv4 classifier is the table of CIDR blocks. A string that does not parse as a dotted quad
  is blocked; any other string is blocked exactly when the 32-bit number it denotes lies in one of the
  fifteen blocks (0/8, 10/8, 127/8, 100.64/10, 169.254/16, 172.16/12, 192.0.0/24, 192.0.2/24,
  192.88.99/24, 192.168/16, 198.18/15, 198.51.100/24, 203.0.113/24, 224/4, 240/4). The canonical text
  of every quad parses back to it.\<close>

theorem ipv4_classes_are_cidr_blocks:
  "(is_blocked_ipv4 s \<longleftrightarrow> (case parse_ipv4_octets s of None \<Rightarrow> True
      | Some (a, b, c, d) \<Rightarrow> blocked_ipv4_number (ipv4_number a b c d))) \<and>
   (bytes_ok [a, b, c, d] \<longrightarrow> parse_ipv4_octets (dotted a b c d) = Some (a, b, c, d))"
  using blocked_octets_number[OF parse_ipv4_range]
  by (auto simp: is_blocked_ipv4_def parse_dotted split: option.splits)

lemma ipv4_classes_are_cidr_blocks_witness:
  "parse_ipv4_octets (dotted 198 51 100 7) = Some (198, 51, 100, 7)"
  using ipv4_classes_are_cidr_blocks[of "[]" 198 51 100 7] by (simp add: bytes_ok_def)

subsection \<open>IPv6 classes\<close>

definition blocked_ipv6_number :: "int \<Rightarrow> bool" where
  "blocked_ipv6_number n =
    (if in_cidr 128 n 0 128 \<or> in_cidr 128 n 1 128 then True
     else if in_cidr 128 n (0xffff * 2 ^ 32) 96 \<or> in_cidr 128 n 0 96
     then blocked_ipv4_number (n mod 2 ^ 32)
     else if in_cidr 128 n (0x64ff9b * 2 ^ 96) 32
     then in_cidr 128 n (0x64ff9b * 2 ^ 96) 96 \<longrightarrow> blocked_ipv4_number (n mod 2 ^ 32)
     else if in_cidr 128 n (0x2002 * 2 ^ 112) 16 then blocked_ipv4_number (n div 2 ^ 80 mod 2 ^ 32)
     else if in_cidr 128 n (0x2001 * 2 ^ 112) 32 then blocked_ipv4_number (2 ^ 32 - 1 - n mod 2 ^ 32)
     else in_cidr 128 n (0xfc00 * 2 ^ 112) 7 \<or> in_cidr 128 n (0xfe80 * 2 ^ 112) 10 \<or>
       in_cidr 128 n (0xff00 * 2 ^ 112) 8)"

lemma power_256: "(2::int) ^ (8 * k) = 256 ^ k"
  by (simp add: power_mult)

lemma in_cidr_prefix:
  assumes "bytes_ok xs" "bytes_ok ys" "length xs = 16" "length ys = 16" "k \<le> 16"
  shows "in_cidr 128 (bytes_number xs) (bytes_number ys) (8 * k) \<longleftrightarrow> take k xs = take k ys"
proof -
  have sub: "128 - 8 * k = 8 * (16 - k)" using assms(5) by simp
  have div: "bytes_number zs div 2 ^ (128 - 8 * k) = bytes_number (take k zs)"
    if "bytes_ok zs" "length zs = 16" for zs
  proof -
    have "bytes_ok (drop k zs)" using that by (auto simp: bytes_ok_def list_all_iff dest: in_set_dropD)
    from bytes_number_div(1)[OF this, of "take k zs"] show ?thesis
      using that by (simp add: sub power_256)
  qed
  have "bytes_ok (take k xs)" "bytes_ok (take k ys)"
    using assms(1,2) by (auto simp: bytes_ok_def list_all_iff dest: in_set_takeD)
  then show ?thesis
    using bytes_number_inj[of "take k xs" "take k ys"] assms by (simp add: in_cidr_def div)
qed

lemma take_bytes:
  "length bs = 16 \<Longrightarrow> zero_between bs 0 k \<longleftrightarrow> (\<forall>i < k. i < 16 \<longrightarrow> bs ! i = 0)"
  by (auto simp: zero_between_def byte_at_def list_all_iff)

lemma and_xor_bytes:
  fixes b :: int
  assumes "0 \<le> b" "b \<le> 255"
  shows "b AND 0xfe = 0xfc \<longleftrightarrow> b div 2 = 126" "b AND 0xc0 = 0x80 \<longleftrightarrow> b div 64 = 2"
    "b XOR 255 = 255 - b"
proof -
  have "list_all (\<lambda>b. ((b AND 0xfe = 0xfc) = (b div 2 = 126)) \<and> ((b AND 0xc0 = 0x80) = (b div 64 = 2)) \<and>
      b XOR 255 = 255 - b) (map int [0..<256])"
    by code_simp
  moreover have "b \<in> set (map int [0..<256])"
    using assms by (auto simp: image_iff intro!: bexI[of _ "nat b"])
  ultimately show "b AND 0xfe = 0xfc \<longleftrightarrow> b div 2 = 126" "b AND 0xc0 = 0x80 \<longleftrightarrow> b div 64 = 2"
    "b XOR 255 = 255 - b"
    unfolding list_all_iff by blast+
qed

lemma two_bytes: "bytes_number [b0, b1] = 256 * b0 + b1"
  by (simp add: bytes_number_def)

lemma cidr_powers: "(2::int) ^ (128 - 7) = 256 ^ 15 * 2" "(0xfc00 * 2 ^ 112 :: int) div (256 ^ 15 * 2) = 126"
  "(2::int) ^ (128 - 10) = 256 ^ 14 * 64" "(0xfe80 * 2 ^ 112 :: int) div (256 ^ 14 * 64) = 4 * 254 + 2"
  by code_simp+

lemma cidr_bits:
  assumes "bytes_ok (b0 # b1 # bs)" "length bs = 14"
  shows "in_cidr 128 (bytes_number (b0 # b1 # bs)) (0xfc00 * 2 ^ 112) 7 \<longleftrightarrow> b0 div 2 = 126"
    and "in_cidr 128 (bytes_number (b0 # b1 # bs)) (0xfe80 * 2 ^ 112) 10 \<longleftrightarrow> b0 = 0xfe \<and> b1 div 64 = 2"
proof -
  let ?n = "bytes_number (b0 # b1 # bs)"
  have ok: "bytes_ok (b1 # bs)" "bytes_ok bs" and r: "0 \<le> b1" "b1 \<le> 255"
    using assms by (simp_all add: bytes_ok_def)
  have len: "length (b1 # bs) = 15" using assms(2) by simp
  have one: "?n div 256 ^ 15 = b0"
    using bytes_number_div(1)[OF ok(1), of "[b0]"] unfolding len by (simp only: append.simps bytes_number_single)
  have two: "?n div 256 ^ 14 = 256 * b0 + b1"
    using bytes_number_div(1)[OF ok(2), of "[b0, b1]"] unfolding assms(2) two_bytes
    by (simp only: append.simps)
  have "?n div (256 ^ 15 * 2) = ?n div 256 ^ 15 div 2" by (rule zdiv_zmult2_eq) simp
  then have "?n div (256 ^ 15 * 2) = b0 div 2" unfolding one .
  then show "in_cidr 128 ?n (0xfc00 * 2 ^ 112) 7 \<longleftrightarrow> b0 div 2 = 126"
    unfolding in_cidr_def cidr_powers by (simp only:)
  have "?n div (256 ^ 14 * 64) = ?n div 256 ^ 14 div 64" by (rule zdiv_zmult2_eq) simp
  then have "?n div (256 ^ 14 * 64) = (256 * b0 + b1) div 64" unfolding two .
  also have "\<dots> = 4 * b0 + b1 div 64"
    using div_mult_self2[of 64 b1 "4 * b0"] by (simp add: add.commute)
  finally have "?n div (256 ^ 14 * 64) = 4 * b0 + b1 div 64" .
  then have "in_cidr 128 ?n (0xfe80 * 2 ^ 112) 10 \<longleftrightarrow> 4 * b0 + b1 div 64 = 4 * 254 + 2"
    unfolding in_cidr_def cidr_powers by (simp only:)
  then show "in_cidr 128 ?n (0xfe80 * 2 ^ 112) 10 \<longleftrightarrow> b0 = 0xfe \<and> b1 div 64 = 2"
    using high_part_eq[of "b1 div 64" 4 2 b0 254] r by simp
qed

definition blocked_bytes :: "int list \<Rightarrow> bool" where
  "blocked_bytes bytes \<longleftrightarrow> (let at = byte_at bytes in
          if zero_between bytes 0 16 then True
          else if zero_between bytes 0 15 \<and> at 15 = 1 then True
          else if zero_between bytes 0 10 \<and> at 10 = 255 \<and> at 11 = 255
          then is_blocked_ipv4 (embedded_ipv4 bytes 12)
          else if zero_between bytes 0 12 then is_blocked_ipv4 (embedded_ipv4 bytes 12)
          else if at 0 = 0 \<and> at 1 = 0x64 \<and> at 2 = 255 \<and> at 3 = 0x9b
          then (if zero_between bytes 4 12 then is_blocked_ipv4 (embedded_ipv4 bytes 12) else True)
          else if at 0 = 0x20 \<and> at 1 = 0x02 then is_blocked_ipv4 (embedded_ipv4 bytes 2)
          else if at 0 = 0x20 \<and> at 1 = 0x01 \<and> at 2 = 0 \<and> at 3 = 0
          then is_blocked_ipv4 (dotted (at 12 XOR 255) (at 13 XOR 255) (at 14 XOR 255) (at 15 XOR 255))
          else if at 0 AND 0xfe = 0xfc then True
          else if at 0 = 0xfe \<and> at 1 AND 0xc0 = 0x80 then True
          else if at 0 = 255 then True
          else False)"

lemma verdict_skeleton:
  "(if A then True else if B then True else if C then X else if D then X
    else if E then (if F then X else True) else if G then Y else if H then Z
    else if I then True else if J then True else if K then True else False) =
   (if A \<or> B then True else if C \<or> D then X else if E then (E \<and> F \<longrightarrow> X) else if G then Y
    else if H then Z else I \<or> J \<or> K)"
  by (cases A; cases B; cases C; cases D; simp)

lemma blocked_bytes_number:
  assumes ok: "bytes_ok [b0, b1, b2, b3, b4, b5, b6, b7, b8, b9, b10, b11, b12, b13, b14, b15]"
  shows "blocked_bytes [b0, b1, b2, b3, b4, b5, b6, b7, b8, b9, b10, b11, b12, b13, b14, b15] =
    blocked_ipv6_number
      (bytes_number [b0, b1, b2, b3, b4, b5, b6, b7, b8, b9, b10, b11, b12, b13, b14, b15])"
proof -
  let ?bs = "[b0, b1, b2, b3, b4, b5, b6, b7, b8, b9, b10, b11, b12, b13, b14, b15]"
  let ?n = "bytes_number ?bs"
  have prefix: "in_cidr 128 ?n (bytes_number ys) (8 * k) \<longleftrightarrow> take k ?bs = take k ys"
    if "bytes_ok ys" "length ys = 16" "k \<le> 16" for ys k
    using in_cidr_prefix[OF ok that(1) _ that(2,3)] by simp
  have bases: "0 = bytes_number [0, 0, 0, 0, 0, 0, 0, 0, 0, 0, 0, 0, 0, 0, 0, 0]"
    "1 = bytes_number [0, 0, 0, 0, 0, 0, 0, 0, 0, 0, 0, 0, 0, 0, 0, 1]"
    "0xffff * 2 ^ 32 = bytes_number [0, 0, 0, 0, 0, 0, 0, 0, 0, 0, 255, 255, 0, 0, 0, 0]"
    "0x64ff9b * 2 ^ 96 = bytes_number [0, 0x64, 255, 0x9b, 0, 0, 0, 0, 0, 0, 0, 0, 0, 0, 0, 0]"
    "0x2002 * 2 ^ 112 = bytes_number [0x20, 2, 0, 0, 0, 0, 0, 0, 0, 0, 0, 0, 0, 0, 0, 0]"
    "0x2001 * 2 ^ 112 = bytes_number [0x20, 1, 0, 0, 0, 0, 0, 0, 0, 0, 0, 0, 0, 0, 0, 0]"
    "0xff00 * 2 ^ 112 = bytes_number [255, 0, 0, 0, 0, 0, 0, 0, 0, 0, 0, 0, 0, 0, 0, 0]"
    by code_simp+
  have cidr:
    "in_cidr 128 ?n 0 128 \<longleftrightarrow> ?bs = [0, 0, 0, 0, 0, 0, 0, 0, 0, 0, 0, 0, 0, 0, 0, 0]"
    "in_cidr 128 ?n 1 128 \<longleftrightarrow> ?bs = [0, 0, 0, 0, 0, 0, 0, 0, 0, 0, 0, 0, 0, 0, 0, 1]"
    "in_cidr 128 ?n (0xffff * 2 ^ 32) 96 \<longleftrightarrow> take 12 ?bs = [0, 0, 0, 0, 0, 0, 0, 0, 0, 0, 255, 255]"
    "in_cidr 128 ?n 0 96 \<longleftrightarrow> take 12 ?bs = [0, 0, 0, 0, 0, 0, 0, 0, 0, 0, 0, 0]"
    "in_cidr 128 ?n (0x64ff9b * 2 ^ 96) 32 \<longleftrightarrow> take 4 ?bs = [0, 0x64, 255, 0x9b]"
    "in_cidr 128 ?n (0x64ff9b * 2 ^ 96) 96 \<longleftrightarrow>
       take 12 ?bs = [0, 0x64, 255, 0x9b, 0, 0, 0, 0, 0, 0, 0, 0]"
    "in_cidr 128 ?n (0x2002 * 2 ^ 112) 16 \<longleftrightarrow> take 2 ?bs = [0x20, 2]"
    "in_cidr 128 ?n (0x2001 * 2 ^ 112) 32 \<longleftrightarrow> take 4 ?bs = [0x20, 1, 0, 0]"
    "in_cidr 128 ?n (0xff00 * 2 ^ 112) 8 \<longleftrightarrow> take 1 ?bs = [255]"
    using prefix[of "[0, 0, 0, 0, 0, 0, 0, 0, 0, 0, 0, 0, 0, 0, 0, 0]" 16, folded bases]
      prefix[of "[0, 0, 0, 0, 0, 0, 0, 0, 0, 0, 0, 0, 0, 0, 0, 1]" 16, folded bases]
      prefix[of "[0, 0, 0, 0, 0, 0, 0, 0, 0, 0, 255, 255, 0, 0, 0, 0]" 12, folded bases]
      prefix[of "[0, 0, 0, 0, 0, 0, 0, 0, 0, 0, 0, 0, 0, 0, 0, 0]" 12, folded bases]
      prefix[of "[0, 0x64, 255, 0x9b, 0, 0, 0, 0, 0, 0, 0, 0, 0, 0, 0, 0]" 4, folded bases]
      prefix[of "[0, 0x64, 255, 0x9b, 0, 0, 0, 0, 0, 0, 0, 0, 0, 0, 0, 0]" 12, folded bases]
      prefix[of "[0x20, 2, 0, 0, 0, 0, 0, 0, 0, 0, 0, 0, 0, 0, 0, 0]" 2, folded bases]
      prefix[of "[0x20, 1, 0, 0, 0, 0, 0, 0, 0, 0, 0, 0, 0, 0, 0, 0]" 4, folded bases]
      prefix[of "[255, 0, 0, 0, 0, 0, 0, 0, 0, 0, 0, 0, 0, 0, 0, 0]" 1, folded bases]
    by (simp_all add: bytes_ok_def del: mult_numeral_left_semiring_numeral)
  have at: "byte_at ?bs 0 = b0" "byte_at ?bs 1 = b1" "byte_at ?bs 2 = b2" "byte_at ?bs 3 = b3"
    "byte_at ?bs 4 = b4" "byte_at ?bs 5 = b5" "byte_at ?bs 6 = b6" "byte_at ?bs 7 = b7"
    "byte_at ?bs 8 = b8" "byte_at ?bs 9 = b9" "byte_at ?bs 10 = b10" "byte_at ?bs 11 = b11"
    "byte_at ?bs 12 = b12" "byte_at ?bs 13 = b13" "byte_at ?bs 14 = b14" "byte_at ?bs 15 = b15"
    by (simp_all add: byte_at_def)
  have upts: "[0..<16] = [0, 1, 2, 3, 4, 5, 6, 7, 8, 9, 10, 11, 12, 13, 14, 15]"
    "[0..<15] = [0, 1, 2, 3, 4, 5, 6, 7, 8, 9, 10, 11, 12, 13, 14]"
    "[0..<12] = [0, 1, 2, 3, 4, 5, 6, 7, 8, 9, 10, 11]" "[0..<10] = [0, 1, 2, 3, 4, 5, 6, 7, 8, 9]"
    "[4..<12] = [4, 5, 6, 7, 8, 9, 10, 11]"
    by code_simp+
  note zero = zero_between_def upts list.pred_inject at
  have r: "bytes_ok [b2, b3, b4, b5]" "bytes_ok [b12, b13, b14, b15]"
    "bytes_ok [b6, b7, b8, b9, b10, b11, b12, b13, b14, b15]"
    "bytes_ok [255 - b12, 255 - b13, 255 - b14, 255 - b15]"
    using ok by (simp_all add: bytes_ok_def)
  have tail: "?n mod 2 ^ 32 = ipv4_number b12 b13 b14 b15"
    using bytes_number_div(2)[OF r(2), of "[b0, b1, b2, b3, b4, b5, b6, b7, b8, b9, b10, b11]"]
    by (simp add: ipv4_number_def)
  have mid: "?n div 2 ^ 80 mod 2 ^ 32 = ipv4_number b2 b3 b4 b5"
    using bytes_number_div(1)[OF r(3), of "[b0, b1, b2, b3, b4, b5]"] bytes_number_div(2)[OF r(1), of "[b0, b1]"]
    by (simp add: ipv4_number_def)
  have flip: "2 ^ 32 - 1 - ?n mod 2 ^ 32 = ipv4_number (255 - b12) (255 - b13) (255 - b14) (255 - b15)"
    unfolding tail by (simp add: ipv4_number_def bytes_number_def)
  have b: "0 \<le> b0" "b0 \<le> 255" "0 \<le> b1" "b1 \<le> 255" "0 \<le> b12" "b12 \<le> 255" "0 \<le> b13" "b13 \<le> 255"
    "0 \<le> b14" "b14 \<le> 255" "0 \<le> b15" "b15 \<le> 255"
    using ok by (simp_all add: bytes_ok_def)
  have bits: "in_cidr 128 ?n (0xfc00 * 2 ^ 112) 7 \<longleftrightarrow> b0 AND 0xfe = 0xfc"
    "in_cidr 128 ?n (0xfe80 * 2 ^ 112) 10 \<longleftrightarrow> b0 = 0xfe \<and> b1 AND 0xc0 = 0x80"
    using cidr_bits[OF ok] and_xor_bytes(1)[OF b(1,2)] and_xor_bytes(2)[OF b(3,4)] by simp_all
  have conds:
    "in_cidr 128 ?n 0 128 \<longleftrightarrow> zero_between ?bs 0 16"
    "in_cidr 128 ?n 1 128 \<longleftrightarrow> zero_between ?bs 0 15 \<and> b15 = 1"
    "in_cidr 128 ?n (0xffff * 2 ^ 32) 96 \<longleftrightarrow> zero_between ?bs 0 10 \<and> b10 = 255 \<and> b11 = 255"
    "in_cidr 128 ?n 0 96 \<longleftrightarrow> zero_between ?bs 0 12"
    "in_cidr 128 ?n (0x64ff9b * 2 ^ 96) 32 \<longleftrightarrow> b0 = 0 \<and> b1 = 0x64 \<and> b2 = 255 \<and> b3 = 0x9b"
    "in_cidr 128 ?n (0x64ff9b * 2 ^ 96) 96 \<longleftrightarrow>
       (b0 = 0 \<and> b1 = 0x64 \<and> b2 = 255 \<and> b3 = 0x9b) \<and> zero_between ?bs 4 12"
    "in_cidr 128 ?n (0x2002 * 2 ^ 112) 16 \<longleftrightarrow> b0 = 0x20 \<and> b1 = 2"
    "in_cidr 128 ?n (0x2001 * 2 ^ 112) 32 \<longleftrightarrow> b0 = 0x20 \<and> b1 = 1 \<and> b2 = 0 \<and> b3 = 0"
    "in_cidr 128 ?n (0xff00 * 2 ^ 112) 8 \<longleftrightarrow> b0 = 255"
    unfolding cidr zero by simp_all
  have verdicts: "is_blocked_ipv4 (embedded_ipv4 ?bs 12) = blocked_ipv4_number (?n mod 2 ^ 32)"
    "is_blocked_ipv4 (embedded_ipv4 ?bs 2) = blocked_ipv4_number (?n div 2 ^ 80 mod 2 ^ 32)"
    "is_blocked_ipv4 (dotted (b12 XOR 255) (b13 XOR 255) (b14 XOR 255) (b15 XOR 255)) =
       blocked_ipv4_number (2 ^ 32 - 1 - ?n mod 2 ^ 32)"
    unfolding mid flip
    unfolding tail and_xor_bytes(3)[OF b(5,6)] and_xor_bytes(3)[OF b(7,8)]
      and_xor_bytes(3)[OF b(9,10)] and_xor_bytes(3)[OF b(11,12)] blocked_dotted[OF r(4)]
    by (simp_all add: embedded_ipv4_def at blocked_dotted[OF r(1)] blocked_dotted[OF r(2)])
  show ?thesis
    unfolding blocked_bytes_def blocked_ipv6_number_def Let_def at conds bits verdicts
    by (rule verdict_skeleton)
qed

text \<open>What the parser of IPv6 literals returns: sixteen bytes.\<close>

lemma parse_hextets_range:
  "parse_hextets parts = Some gs \<Longrightarrow> list_all (\<lambda>g. 0 \<le> g) gs \<and> length gs = length parts"
  by (induction parts arbitrary: gs)
    (auto simp: parse_hextet_def digits_value_def list_all_iff digit_value_nonneg
      intro!: foldl_digits_nonneg split: option.splits if_splits)

lemma group_bytes_ok: "bytes_ok (group_bytes gs)"
proof (induction gs)
  case Nil
  then show ?case by (simp add: bytes_ok_def group_bytes_def)
next
  case (Cons g gs)
  have "0 \<le> x AND 255 \<and> x AND 255 \<le> 255" for x :: int
    using AND_upper2[of 255 x] by simp
  with Cons show ?case by (simp add: bytes_ok_def group_bytes_def)
qed

lemma group_bytes_length: "length (group_bytes gs) = 2 * length gs"
  by (induction gs) (simp_all add: group_bytes_def)

lemma expand_groups_length: "expand_groups text = Some gs \<Longrightarrow> length gs = 8"
  by (auto simp: expand_groups_def Let_def split: if_splits option.splits)

lemma ipv6_to_bytes_ok:
  "ipv6_to_bytes s = Some bs \<Longrightarrow> bytes_ok bs \<and> length bs = 16"
  by (auto simp: ipv6_to_bytes_def Let_def group_bytes_ok group_bytes_length
      dest!: expand_groups_length split: if_splits option.splits)

lemma sixteen:
  assumes "length bs = 16"
  obtains b0 b1 b2 b3 b4 b5 b6 b7 b8 b9 b10 b11 b12 b13 b14 b15 where
    "bs = [b0, b1, b2, b3, b4, b5, b6, b7, b8, b9, b10, b11, b12, b13, b14, b15]"
  using assms by (auto simp: numeral_eq_Suc length_Suc_conv)

text \<open>C16: The IPv6 classifier is the table of CIDR blocks. A string that is not an IPv6 literal is
  blocked. Any other is read as a 128-bit number, and it is blocked exactly when that number is ::, ::1,
  in fc00::/7, fe80::/10 or ff00::/8; or embeds a blocked IPv4 number: in the last 32 bits for
  ::ffff:0:0/96, ::/96 and 64:ff9b::/96, in bits 16 to 47 for 2002::/16, in the complemented last
  32 bits for 2001::/32; or lies in the rest of 64:ff9b::/32.\<close>

theorem ipv6_classes_are_cidr_blocks:
  "is_blocked_ipv6 s \<longleftrightarrow> (case ipv6_to_bytes s of None \<Rightarrow> True
     | Some bytes \<Rightarrow> blocked_ipv6_number (bytes_number bytes))"
proof (cases "ipv6_to_bytes s")
  case None
  then show ?thesis by (simp add: is_blocked_ipv6_def)
next
  case (Some bytes)
  then have ok: "bytes_ok bytes" "length bytes = 16" using ipv6_to_bytes_ok by blast+
  from ok(2) obtain b0 b1 b2 b3 b4 b5 b6 b7 b8 b9 b10 b11 b12 b13 b14 b15 where
    bs: "bytes = [b0, b1, b2, b3, b4, b5, b6, b7, b8, b9, b10, b11, b12, b13, b14, b15]"
    by (rule sixteen)
  have "is_blocked_ipv6 s = blocked_bytes bytes"
    unfolding is_blocked_ipv6_def blocked_bytes_def Some by (simp only: option.case)
  then show ?thesis using blocked_bytes_number[OF ok(1)[unfolded bs]] Some bs by simp
qed

end
