(* ===== verification/Address_Spelling.thy ===== *)
theory Address_Spelling
  imports Address_Guard
begin

text \<open>
  Every legal spelling of an IPv6 address has the same class: hextets in any letter case with or without leading
  zeros, any run of zero groups written as \<open>::\<close>, a dotted IPv4 tail, brackets, a zone. Then the guarded lookup and the
  safe fetch, over the two classifiers.
\<close>

subsection \<open>Colons\<close>

fun no_double :: "string \<Rightarrow> bool" where
  "no_double (x # y # xs) \<longleftrightarrow> \<not> (x = CHR '':'' \<and> y = CHR '':'') \<and> no_double (y # xs)"
| "no_double _ \<longleftrightarrow> True"

definition inner :: "string \<Rightarrow> bool" where
  "inner s \<longleftrightarrow> no_double s \<and> (s \<noteq> [] \<longrightarrow> hd s \<noteq> CHR '':'' \<and> last s \<noteq> CHR '':'')"

lemma no_double_Cons: "no_double (x # xs) \<longleftrightarrow> (x = CHR '':'' \<longrightarrow> xs = [] \<or> hd xs \<noteq> CHR '':'') \<and> no_double xs"
  by (cases xs) auto

lemma no_double_plain: "CHR '':'' \<notin> set s \<Longrightarrow> no_double s"
  by (induction s) (auto simp: no_double_Cons)

lemma no_double_append:
  "no_double xs \<Longrightarrow> no_double ys \<Longrightarrow> xs = [] \<or> ys = [] \<or> last xs \<noteq> CHR '':'' \<or> hd ys \<noteq> CHR '':'' \<Longrightarrow>
     no_double (xs @ ys)"
  by (induction xs) (auto simp: no_double_Cons hd_append split: if_splits)

lemma split_double_plain: "no_double s \<Longrightarrow> split_double_colon s = [s]"
  by (induction s rule: split_double_colon.induct) auto

lemma split_double_append:
  "no_double xs \<Longrightarrow> xs = [] \<or> last xs \<noteq> CHR '':'' \<Longrightarrow>
     split_double_colon (xs @ CHR '':'' # CHR '':'' # ys) = xs # split_double_colon ys"
proof (induction xs rule: split_double_colon.induct)
  case (2 x)
  then show ?case by simp
qed auto

lemma contains_plain: "no_double s \<Longrightarrow> \<not> contains_text '':::'' s"
proof (induction s)
  case (Cons x xs)
  then show ?case by (cases xs) (auto simp: no_double_Cons)
qed simp

lemma contains_append:
  assumes "inner ys"
  shows "no_double xs \<Longrightarrow> xs = [] \<or> last xs \<noteq> CHR '':'' \<Longrightarrow>
    \<not> contains_text '':::'' (xs @ CHR '':'' # CHR '':'' # ys)"
proof (induction xs)
  case Nil
  have "ys = [] \<or> hd ys \<noteq> CHR '':''" "\<not> contains_text '':::'' ys"
    using assms contains_plain by (auto simp: inner_def)
  then show ?case by (cases ys) auto
next
  case (Cons x xs)
  then show ?case by (cases xs) (auto simp: no_double_Cons split: if_splits)
qed

fun join_colons :: "string list \<Rightarrow> string" where
  "join_colons [] = []"
| "join_colons [part] = part"
| "join_colons (part # parts) = part @ '':'' @ join_colons parts"

lemma join_colons_Cons: "parts \<noteq> [] \<Longrightarrow> join_colons (part # parts) = part @ CHR '':'' # join_colons parts"
  by (cases parts) auto

lemma join_set: "c \<in> set (join_colons parts) \<Longrightarrow> c = CHR '':'' \<or> (\<exists>part \<in> set parts. c \<in> set part)"
  by (induction parts rule: join_colons.induct) auto

lemma join_map: "f (CHR '':'') = CHR '':'' \<Longrightarrow> map f (join_colons parts) = join_colons (map (map f) parts)"
  by (induction parts rule: join_colons.induct) auto

definition plain_part :: "string \<Rightarrow> bool" where
  "plain_part part \<longleftrightarrow> part \<noteq> [] \<and> CHR '':'' \<notin> set part"

lemma inner_join: "list_all plain_part parts \<Longrightarrow> inner (join_colons parts)"
proof (induction parts rule: join_colons.induct)
  case (2 part)
  then show ?case
    by (auto simp: inner_def plain_part_def no_double_plain) (metis hd_in_set, metis last_in_set)
next
  case (3 part v va)
  then have IH: "inner (join_colons (v # va))" and part: "part \<noteq> []" "CHR '':'' \<notin> set part" "v \<noteq> []"
    by (auto simp: plain_part_def)
  have ne: "join_colons (v # va) \<noteq> []" using part(3) by (cases va) auto
  have ends: "hd part \<noteq> CHR '':''" "last part \<noteq> CHR '':''"
    using part by (metis hd_in_set, metis last_in_set)
  define rest where "rest = join_colons (v # va)"
  have rest: "rest \<noteq> []" "hd rest \<noteq> CHR '':''" "last rest \<noteq> CHR '':''" "no_double rest"
    using IH ne by (auto simp: rest_def inner_def simp del: join_colons.simps)
  have "no_double (CHR '':'' # rest)" using rest by (simp add: no_double_Cons)
  then have "no_double (part @ CHR '':'' # rest)"
    using no_double_append[OF no_double_plain[OF part(2)]] ends by simp
  moreover have "join_colons (part # v # va) = part @ CHR '':'' # rest" by (simp add: rest_def)
  ultimately show ?case using part ends rest by (simp add: inner_def hd_append del: join_colons.simps)
qed (simp add: inner_def)

lemma split_join:
  "list_all plain_part parts \<Longrightarrow> parts \<noteq> [] \<Longrightarrow> split_char (CHR '':'') (join_colons parts) = parts"
proof (induction parts rule: join_colons.induct)
  case (2 part)
  then show ?case by (simp add: plain_part_def split_char_plain)
next
  case (3 part v va)
  then have "split_char (CHR '':'') (join_colons (v # va)) = v # va" "CHR '':'' \<notin> set part"
    by (auto simp: plain_part_def simp del: join_colons.simps)
  then show ?case using split_char_append[of "CHR '':''" part "join_colons (v # va)"] by simp
qed simp

subsection \<open>Hextets\<close>

text \<open>
  Numerals, independently of the parser: a digit is worth its place in an alphabet, a numeral the sum of its
  digits by position.
\<close>

definition digit_of :: "string \<Rightarrow> char \<Rightarrow> int \<Rightarrow> bool" where
  "digit_of alphabet c d \<longleftrightarrow> (\<exists>i < length alphabet. alphabet ! i = c \<and> d = int i)"

definition hex_digit_of :: "char \<Rightarrow> int \<Rightarrow> bool" where
  "hex_digit_of c d \<longleftrightarrow> digit_of ''0123456789abcdef'' c d \<or> digit_of ''0123456789ABCDEF'' c d"

definition place_value :: "int \<Rightarrow> int list \<Rightarrow> int" where
  "place_value base ds = (\<Sum>i < length ds. ds ! i * base ^ (length ds - 1 - i))"

definition hextet_text :: "string \<Rightarrow> int \<Rightarrow> bool" where
  "hextet_text part g \<longleftrightarrow> (\<exists>ds. list_all2 hex_digit_of part ds \<and> 1 \<le> length ds \<and> length ds \<le> 4 \<and> g = place_value 16 ds)"

definition octet_spelled :: "string \<Rightarrow> int \<Rightarrow> bool" where
  "octet_spelled part n \<longleftrightarrow> (\<exists>ds. list_all2 (digit_of ''0123456789'') part ds \<and> 1 \<le> length ds \<and> length ds \<le> 3 \<and>
     n = place_value 10 ds \<and> n \<le> 255)"

lemma place_value_snoc: "place_value base (ds @ [d]) = base * place_value base ds + d"
proof -
  have "(ds @ [d]) ! i * base ^ (length ds - i) = base * (ds ! i * base ^ (length ds - 1 - i))" if "i < length ds" for i
  proof -
    have "length ds - i = Suc (length ds - 1 - i)" using that by simp
    then show ?thesis using that by (simp add: nth_append)
  qed
  then have "(\<Sum>i < length ds. (ds @ [d]) ! i * base ^ (length ds - i)) = base * place_value base ds"
    unfolding place_value_def sum_distrib_left by (intro sum.cong) auto
  then show ?thesis unfolding place_value_def by simp
qed

lemma digits_place_value: "digits_value base s = place_value base (map digit_value s)"
proof (induction s rule: rev_induct)
  case Nil
  show ?case by (simp add: digits_value_def place_value_def)
next
  case (snoc c s)
  then show ?case unfolding map_append list.map place_value_snoc by (simp add: digits_value_def)
qed

definition reads_hex :: "char \<Rightarrow> int \<Rightarrow> bool" where
  "reads_hex c d \<longleftrightarrow> hex_digit (js_lower c) \<and> digit_value (js_lower c) = d"

lemma read_digits:
  "reads_hex (CHR ''0'') 0"
  "reads_hex (CHR ''1'') 1"
  "reads_hex (CHR ''2'') 2"
  "reads_hex (CHR ''3'') 3"
  "reads_hex (CHR ''4'') 4"
  "reads_hex (CHR ''5'') 5"
  "reads_hex (CHR ''6'') 6"
  "reads_hex (CHR ''7'') 7"
  "reads_hex (CHR ''8'') 8"
  "reads_hex (CHR ''9'') 9"
  by (simp_all add: reads_hex_def hex_digit_def js_lower_def digit_value_def)

lemma read_lower:
  "reads_hex (CHR ''a'') 10"
  "reads_hex (CHR ''b'') 11"
  "reads_hex (CHR ''c'') 12"
  "reads_hex (CHR ''d'') 13"
  "reads_hex (CHR ''e'') 14"
  "reads_hex (CHR ''f'') 15"
  by (simp_all add: reads_hex_def hex_digit_def js_lower_def digit_value_def)

lemma read_upper:
  "reads_hex (CHR ''A'') 10"
  "reads_hex (CHR ''B'') 11"
  "reads_hex (CHR ''C'') 12"
  "reads_hex (CHR ''D'') 13"
  "reads_hex (CHR ''E'') 14"
  "reads_hex (CHR ''F'') 15"
  by (simp_all add: reads_hex_def hex_digit_def js_lower_def digit_value_def)

lemma read_tables:
  "list_all2 reads_hex ''0123456789abcdef'' (map int [0..<16])"
  "list_all2 reads_hex ''0123456789ABCDEF'' (map int [0..<16])"
  "list_all2 reads_hex ''0123456789'' (map int [0..<10])"
  "list_all (\<lambda>c. dec_digit (js_lower c)) ''0123456789''"
  by (simp_all add: upt_rec read_digits read_lower read_upper dec_digit_def js_lower_def)

lemma print_table: "map digit_char (map int [0..<16]) = ''0123456789abcdef''" "map js_lower ''0123456789abcdef'' = ''0123456789abcdef''"
  by (simp_all add: upt_rec digit_char_def char_of_eq_iff take_bit_eq_mod js_lower_def)

lemma hex_digit_read: "hex_digit_of c d \<Longrightarrow> hex_digit (js_lower c) \<and> digit_value (js_lower c) = d \<and> 0 \<le> d \<and> d < 16"
  using list_all2_nthD[OF read_tables(1)] list_all2_nthD[OF read_tables(2)]
  by (fastforce simp: hex_digit_of_def digit_of_def reads_hex_def simp del: nth_Cons_numeral)

lemma dec_digit_read: "digit_of ''0123456789'' c d \<Longrightarrow> dec_digit (js_lower c) \<and> digit_value (js_lower c) = d \<and> 0 \<le> d"
  using list_all2_nthD[OF read_tables(3)] read_tables(4)
  by (fastforce simp: digit_of_def reads_hex_def list_all_length)

lemma digit_char_read:
  assumes "0 \<le> d" "d < 16"
  shows "hex_digit_of (digit_char d) d" "js_lower (digit_char d) = digit_char d"
proof -
  have d: "nat d < 16" "int (nat d) = d" using assms by auto
  have "map digit_char (map int [0..<16]) ! nat d = digit_char d" using d by simp
  then have c: "digit_char d = ''0123456789abcdef'' ! nat d" by (simp only: print_table)
  then show "hex_digit_of (digit_char d) d" unfolding hex_digit_of_def digit_of_def using d by (intro disjI1 exI[of _ "nat d"]) simp
  have "map js_lower ''0123456789abcdef'' ! nat d = js_lower (''0123456789abcdef'' ! nat d)" using d(1) by (intro nth_map) simp
  then show "js_lower (digit_char d) = digit_char d" unfolding c by (simp only: print_table)
qed

lemma hex_digits_read:
  "list_all2 hex_digit_of part ds \<Longrightarrow> list_all hex_digit (map js_lower part) \<and> map digit_value (map js_lower part) = ds \<and>
     list_all (\<lambda>d. 0 \<le> d \<and> d < 16) ds"
  by (induction rule: list_all2_induct) (auto dest: hex_digit_read)

lemma dec_digits_read:
  "list_all2 (digit_of ''0123456789'') part ds \<Longrightarrow> list_all dec_digit (map js_lower part) \<and> map digit_value (map js_lower part) = ds \<and>
     list_all (\<lambda>d. 0 \<le> d) ds"
  by (induction rule: list_all2_induct) (auto dest: dec_digit_read)

lemma place_value_bounds:
  "0 < base \<Longrightarrow> list_all (\<lambda>d. 0 \<le> d \<and> d < base) ds \<Longrightarrow> 0 \<le> place_value base ds \<and> place_value base ds < base ^ length ds"
proof (induction ds rule: rev_induct)
  case (snoc d ds)
  then have "place_value base ds + 1 \<le> base ^ length ds" by simp
  then have "base * (place_value base ds + 1) \<le> base * base ^ length ds" using snoc.prems(1) by (intro mult_left_mono) auto
  then show ?case using snoc unfolding place_value_snoc by (auto simp: algebra_simps)
qed (simp add: place_value_def)

lemma place_value_nonneg: "0 < base \<Longrightarrow> list_all (\<lambda>d. 0 \<le> d) ds \<Longrightarrow> 0 \<le> place_value base ds"
  by (induction ds rule: rev_induct) (auto simp: place_value_snoc, simp add: place_value_def)

lemma hextet_parse: "hextet_text part g \<Longrightarrow> parse_hextet (map js_lower part) = Some g"
  using hex_digits_read by (fastforce simp: hextet_text_def parse_hextet_def digits_place_value dest: list_all2_lengthD)

lemma hextet_bounds: "hextet_text part g \<Longrightarrow> 0 \<le> g \<and> g < 65536"
proof -
  assume "hextet_text part g"
  then obtain ds where ds: "list_all2 hex_digit_of part ds" "length ds \<le> 4" "g = place_value 16 ds"
    by (auto simp: hextet_text_def)
  have "(16::int) ^ length ds \<le> 16 ^ 4" using ds(2) by (intro power_increasing) auto
  then show ?thesis using place_value_bounds[of 16 ds] hex_digits_read[OF ds(1)] ds(3) by simp
qed

lemma octet_parse: "octet_spelled part n \<Longrightarrow> parse_octet (map js_lower part) = Some n \<and> 0 \<le> n \<and> n \<le> 255"
  using dec_digits_read place_value_nonneg
  by (fastforce simp: octet_spelled_def parse_octet_def digits_place_value dest: list_all2_lengthD)

lemma to_hex_text:
  assumes "0 \<le> n" "n < 65536"
  shows "hextet_text (to_hex n) n"
proof -
  have digit: "hex_digit_of (digit_char (m mod 16)) (m mod 16)" for m by (rule digit_char_read(1)) auto
  have small: "hex_digit_of (digit_char m) m" if "0 \<le> m" "m < 16" for m using digit_char_read(1) that by blast
  have shape: "hextet_text s v" if "list_all2 hex_digit_of s ds" "ds \<noteq> []" "length ds \<le> 4" "v = place_value 16 ds" for s ds v
    using that unfolding hextet_text_def by (intro exI[of _ ds]) (auto simp: Suc_le_eq)
  have vals: "place_value 16 [a] = a" "place_value 16 [a, b] = 16 * a + b" "place_value 16 [a, b, c] = 256 * a + 16 * b + c"
    "place_value 16 [a, b, c, d] = 4096 * a + 256 * b + 16 * c + d" for a b c d
    by (simp_all add: place_value_def lessThan_Suc numeral_2_eq_2 numeral_3_eq_3)
  have unroll: "to_hex m = (if m < 16 then [digit_char m] else if m div 16 < 16 then [digit_char (m div 16), digit_char (m mod 16)]
      else if m div 16 div 16 < 16
      then [digit_char (m div 16 div 16), digit_char (m div 16 mod 16), digit_char (m mod 16)]
      else if m div 16 div 16 div 16 < 16
      then [digit_char (m div 16 div 16 div 16), digit_char (m div 16 div 16 mod 16), digit_char (m div 16 mod 16),
        digit_char (m mod 16)]
      else to_hex m)" for m
    by (simp add: to_hex_def eval_nat_numeral)
  have parts: "n = 16 * (n div 16) + n mod 16" "n = 256 * (n div 16 div 16) + 16 * (n div 16 mod 16) + n mod 16"
    "n = 4096 * (n div 16 div 16 div 16) + 256 * (n div 16 div 16 mod 16) + 16 * (n div 16 mod 16) + n mod 16"
    using div_mult_mod_eq[of n 16] div_mult_mod_eq[of "n div 16" 16] div_mult_mod_eq[of "n div 16 div 16" 16] by linarith+
  have "0 \<le> n mod 16" "0 \<le> n div 16 mod 16" "0 \<le> n div 16 div 16 mod 16" by simp_all
  then have small3: "n div 16 div 16 div 16 < 16" using parts(3) assms by linarith
  have nonneg: "0 \<le> n div 16" "0 \<le> n div 16 div 16" "0 \<le> n div 16 div 16 div 16" "n div 16 div 16 div 16 < 16"
    using assms small3 by (simp_all add: pos_imp_zdiv_nonneg_iff)
  consider "n < 16" | "\<not> n < 16" "n div 16 < 16" | "\<not> n < 16" "\<not> n div 16 < 16" "n div 16 div 16 < 16"
    | "\<not> n < 16" "\<not> n div 16 < 16" "\<not> n div 16 div 16 < 16" by blast
  then show ?thesis
  proof cases
    case 1
    then have "to_hex n = [digit_char n]" by (subst unroll) (simp only: if_True)
    then show ?thesis using small[OF assms(1) 1] by (intro shape[of _ "[n]"]) (simp_all add: vals)
  next
    case 2
    then have "to_hex n = [digit_char (n div 16), digit_char (n mod 16)]" by (subst unroll) (simp only: if_True if_False)
    then show ?thesis using small[OF nonneg(1) 2(2)] digit
      by (intro shape[of _ "[n div 16, n mod 16]", OF _ _ _ parts(1)[folded vals(2)]]) simp_all
  next
    case 3
    then have "to_hex n = [digit_char (n div 16 div 16), digit_char (n div 16 mod 16), digit_char (n mod 16)]"
      by (subst unroll) (simp only: if_True if_False)
    then show ?thesis using small[OF nonneg(2) 3(3)] digit
      by (intro shape[of _ "[n div 16 div 16, n div 16 mod 16, n mod 16]", OF _ _ _ parts(2)[folded vals(3)]]) simp_all
  next
    case 4
    then have "to_hex n = [digit_char (n div 16 div 16 div 16), digit_char (n div 16 div 16 mod 16),
        digit_char (n div 16 mod 16), digit_char (n mod 16)]"
      using nonneg(4) by (subst unroll) (simp only: if_True if_False)
    then show ?thesis using small[OF nonneg(3,4)] digit
      by (intro shape[of _ "[n div 16 div 16 div 16, n div 16 div 16 mod 16, n div 16 mod 16, n mod 16]",
          OF _ _ _ parts(3)[folded vals(4)]]) simp_all
  qed
qed

definition syntax_char :: "char \<Rightarrow> bool" where
  "syntax_char c \<longleftrightarrow> js_whitespace c \<or> c = CHR ''['' \<or> c = CHR '']'' \<or> c = CHR ''%''"

lemma range_enum: "a \<le> n \<Longrightarrow> n \<le> b \<Longrightarrow> n \<in> set [a..<Suc b]" for n :: nat
  by auto

lemma hex_letters:
  assumes "hex_digit (js_lower c)"
  shows "c \<in> set ''0123456789abcdefABCDEF''"
proof -
  define n :: nat where "n = of_char c"
  have c: "c = char_of n" by (simp add: n_def)
  have "n < 256" by (simp add: n_def)
  then have "(48 \<le> n \<and> n \<le> 57) \<or> (97 \<le> n \<and> n \<le> 102) \<or> (65 \<le> n \<and> n \<le> 70)"
    using assms unfolding c hex_digit_def js_lower_def Let_def
    by (auto split: if_splits)
  then have "n \<in> set [48..<Suc 57] \<or> n \<in> set [97..<Suc 102] \<or> n \<in> set [65..<Suc 70]"
    using range_enum by blast
  then have "c \<in> char_of ` (set [48..<Suc 57] \<union> set [97..<Suc 102] \<union> set [65..<Suc 70])"
    unfolding c by blast
  also have "\<dots> = set ''0123456789abcdefABCDEF''" by code_simp
  finally show ?thesis .
qed

lemma letter_table:
  "list_all (\<lambda>c. \<not> syntax_char c \<and> \<not> syntax_char (js_lower c) \<and> c \<noteq> CHR '':'' \<and> js_lower c \<noteq> CHR '':'' \<and> js_lower c \<noteq> CHR ''.'')
     ''0123456789abcdefABCDEF''"
  by code_simp

lemma hex_chars:
  assumes "hex_digit (js_lower c)"
  shows "\<not> syntax_char c" "\<not> syntax_char (js_lower c)" "c \<noteq> CHR '':''" "js_lower c \<noteq> CHR '':''" "js_lower c \<noteq> CHR ''.''"
  using letter_table hex_letters[OF assms] unfolding list_all_iff by blast+

lemma hextet_chars:
  assumes "hextet_text part g" "c \<in> set part"
  shows "hex_digit (js_lower c)"
  using hextet_parse[OF assms(1)] assms(2) by (auto simp: parse_hextet_def list_all_iff split: if_splits)

lemma hextet_nonempty: "hextet_text part g \<Longrightarrow> part \<noteq> []"
  by (auto simp: hextet_text_def)

lemma hextet_plain: "hextet_text part g \<Longrightarrow> plain_part (map js_lower part)"
  using hex_chars(4) hextet_chars hextet_nonempty by (fastforce simp: plain_part_def)

lemma hextets_plain: "list_all2 hextet_text parts gs \<Longrightarrow> list_all plain_part (map (map js_lower) parts)"
  by (induction rule: list_all2_induct) (auto dest: hextet_plain)

lemma hextets_parse: "list_all2 hextet_text parts gs \<Longrightarrow> parse_hextets (map (map js_lower) parts) = Some gs"
  by (induction rule: list_all2_induct) (auto dest: hextet_parse)

lemma parse_groups_join:
  assumes "list_all2 hextet_text parts gs"
  shows "parse_groups (join_colons (map (map js_lower) parts)) = Some gs"
proof (cases "parts = []")
  case True
  then show ?thesis using assms by (simp add: parse_groups_def)
next
  case False
  let ?parts = "map (map js_lower) parts"
  have "join_colons ?parts \<noteq> []"
    using False hextets_plain[OF assms] by (cases parts; cases "tl parts") (auto simp: plain_part_def)
  then show ?thesis
    using split_join[OF hextets_plain[OF assms]] hextets_parse[OF assms] False
    by (simp add: parse_groups_def)
qed

lemma letter_colon: "\<not> syntax_char (CHR '':'')" "\<not> syntax_char (js_lower (CHR '':''))" "js_lower (CHR '':'') = CHR '':''"
  by code_simp+

lemma letter_dot: "\<not> syntax_char (CHR ''.'')" "\<not> syntax_char (js_lower (CHR ''.''))" "js_lower (CHR ''.'') = CHR ''.''"
  by code_simp+

lemma letter_percent: "\<not> js_whitespace (CHR ''%'')" "js_lower (CHR ''%'') = CHR ''%''"
  by code_simp+

lemma letter_brackets: "\<not> js_whitespace (CHR ''['')" "\<not> js_whitespace (CHR '']'')"
  "js_lower (CHR ''['') = CHR ''[''" "js_lower (CHR '']'') = CHR '']''"
  by code_simp+

subsection \<open>Literals\<close>

lemma join_map_lower: "map js_lower (join_colons parts) = join_colons (map (map js_lower) parts)"
  by (simp add: join_map letter_colon)

lemma join_snoc: "parts \<noteq> [] \<Longrightarrow> join_colons (parts @ [q]) = join_colons parts @ CHR '':'' # q"
  by (induction parts rule: join_colons.induct) auto

text \<open>
  The grammar of the literals: hextets, the last two of which may be a dotted quad of decimal octets; eight groups
  separated by colons, or a head and a tail around one \<open>::\<close> that stands for the zero groups left out; around
  them white space, a zone and a pair of brackets.
\<close>

definition quad_text :: "string \<Rightarrow> int list \<Rightarrow> bool" where
  "quad_text q ns \<longleftrightarrow> (\<exists>a b c d. q = a @ ''.'' @ b @ ''.'' @ c @ ''.'' @ d \<and> list_all2 octet_spelled [a, b, c, d] ns)"

inductive tail_text :: "string list \<Rightarrow> int list \<Rightarrow> bool" where
  hextets: "list_all2 hextet_text parts gs \<Longrightarrow> tail_text parts gs"
| quad: "list_all2 hextet_text parts gs \<Longrightarrow> quad_text q [a, b, c, d] \<Longrightarrow>
    tail_text (parts @ [q]) (gs @ [256 * a + b, 256 * c + d])"

inductive body_spells :: "string \<Rightarrow> int list \<Rightarrow> bool" where
  full: "tail_text parts gs \<Longrightarrow> length gs = 8 \<Longrightarrow> body_spells (join_colons parts) gs"
| compressed: "list_all2 hextet_text hs hg \<Longrightarrow> tail_text ts tg \<Longrightarrow> length hg + length tg \<le> 7 \<Longrightarrow>
    body_spells (join_colons hs @ ''::'' @ join_colons ts) (hg @ replicate (8 - length hg - length tg) 0 @ tg)"

definition spells :: "string \<Rightarrow> int list \<Rightarrow> bool" where
  "spells s gs \<longleftrightarrow> (\<exists>body zone before after. body_spells body gs \<and> (zone = [] \<or> hd zone = CHR ''%'') \<and>
     list_all js_whitespace (before @ after) \<and>
     (s = before @ body @ zone @ after \<or> s = before @ ''['' @ body @ zone @ '']'' @ after))"

definition body_char :: "char \<Rightarrow> bool" where
  "body_char c \<longleftrightarrow> hex_digit (js_lower c) \<or> c = CHR '':'' \<or> c = CHR ''.''"

lemma body_plain: "body_char c \<Longrightarrow> \<not> syntax_char c \<and> \<not> syntax_char (js_lower c)"
  using hex_chars(1,2) letter_colon letter_dot unfolding body_char_def by blast

lemma octet_chars:
  assumes "octet_spelled part n" "c \<in> set part"
  shows "hex_digit (js_lower c)"
proof -
  have "dec_digit (js_lower c)"
    using octet_parse[OF assms(1)] assms(2) by (auto simp: parse_octet_def list_all_iff split: if_splits)
  then show ?thesis by (auto simp: dec_digit_def hex_digit_def Let_def)
qed

lemma quad_chars: "quad_text q ns \<Longrightarrow> c \<in> set q \<Longrightarrow> hex_digit (js_lower c) \<or> c = CHR ''.''"
  using octet_chars by (auto simp: quad_text_def list_all2_Cons1)

lemma quad_plain:
  assumes "quad_text q ns"
  shows "plain_part (map js_lower q)" "CHR ''.'' \<in> set (map js_lower q)"
proof -
  have "CHR ''.'' \<in> set q" using assms by (auto simp: quad_text_def)
  then have "js_lower (CHR ''.'') \<in> set (map js_lower q)" by simp
  then show "CHR ''.'' \<in> set (map js_lower q)" by (simp add: letter_dot)
  have "js_lower c \<noteq> CHR '':''" if "c \<in> set q" for c
    using quad_chars[OF assms that] hex_chars(4) letter_dot by auto
  then have "CHR '':'' \<notin> set (map js_lower q)" unfolding set_map image_iff by metis
  then show "plain_part (map js_lower q)" using \<open>CHR ''.'' \<in> set q\<close> by (auto simp: plain_part_def)
qed

lemma octet_no_dot: "octet_spelled part n \<Longrightarrow> CHR ''.'' \<notin> set (map js_lower part)"
  using octet_chars hex_chars(5) by fastforce

lemma quad_parse:
  assumes "quad_text q [a, b, c, d]"
  shows "parse_ipv4_octets (map js_lower q) = Some (a, b, c, d)" "0 \<le> a \<and> a \<le> 255" "0 \<le> b \<and> b \<le> 255"
    "0 \<le> c \<and> c \<le> 255" "0 \<le> d \<and> d \<le> 255"
proof -
  obtain w x y z where q: "q = w @ ''.'' @ x @ ''.'' @ y @ ''.'' @ z"
    and o: "octet_spelled w a" "octet_spelled x b" "octet_spelled y c" "octet_spelled z d"
    using assms by (auto simp: quad_text_def)
  note parts = o[THEN octet_parse] and dots = o[THEN octet_no_dot]
  have "map js_lower q = map js_lower w @ CHR ''.'' # map js_lower x @ CHR ''.'' # map js_lower y @ CHR ''.'' # map js_lower z"
    by (simp add: q letter_dot)
  then have "split_char (CHR ''.'') (map js_lower q) = [map js_lower w, map js_lower x, map js_lower y, map js_lower z]"
    using dots by (simp only: split_char_append split_char_plain not_False_eq_True)
  then show "parse_ipv4_octets (map js_lower q) = Some (a, b, c, d)" using parts by (simp add: parse_ipv4_octets_def)
qed (use assms octet_parse in \<open>auto simp: quad_text_def\<close>)

lemma tail_chars: "tail_text parts gs \<Longrightarrow> c \<in> set (join_colons parts) \<Longrightarrow> body_char c"
proof (induction rule: tail_text.induct)
  case (hextets parts gs)
  then show ?case using join_set[OF hextets(2)] hextet_chars unfolding body_char_def
    by (fastforce simp: list_all2_conv_all_nth in_set_conv_nth)
next
  case (quad parts gs q a b c' d)
  then show ?case using join_set[OF quad(3)] hextet_chars quad_chars[OF quad(2)] unfolding body_char_def
    by (fastforce simp: list_all2_conv_all_nth in_set_conv_nth)
qed

lemma tail_plain: "tail_text parts gs \<Longrightarrow> list_all plain_part (map (map js_lower) parts)"
  by (induction rule: tail_text.induct) (simp_all add: hextets_plain quad_plain)

lemma body_chars: "body_spells body gs \<Longrightarrow> c \<in> set body \<Longrightarrow> body_char c"
proof (induction rule: body_spells.induct)
  case (compressed hs hg ts tg)
  then show ?case using tail_chars[OF tail_text.hextets[OF compressed(1)]] tail_chars[OF compressed(2)]
    by (auto simp: body_char_def)
qed (rule tail_chars)

lemma join_nonempty: "list_all plain_part parts \<Longrightarrow> parts \<noteq> [] \<Longrightarrow> join_colons parts \<noteq> []"
  by (cases parts; cases "tl parts") (auto simp: plain_part_def)

lemma body_nonempty: "body_spells body gs \<Longrightarrow> body \<noteq> []"
proof (induction rule: body_spells.induct)
  case (full parts gs)
  then have "parts \<noteq> []" by (auto elim: tail_text.cases)
  then show ?case using join_nonempty[OF tail_plain[OF full(1)]] join_map_lower[of parts] by auto
qed simp

subsection \<open>The frame of a literal\<close>

lemma js_trim_frame:
  assumes "list_all js_whitespace before" "x \<noteq> []" "\<not> js_whitespace (hd x)" "\<not> js_whitespace (last x)"
  shows "js_trim (before @ x @ rest) = x @ rev (dropWhile js_whitespace (rev rest))"
proof -
  have drop: "dropWhile p (xs @ ys) = dropWhile p xs @ ys" if "ys \<noteq> []" "\<not> p (hd ys)" for p and xs ys :: string
    using that by (induction xs) (auto simp: neq_Nil_conv)
  have "dropWhile js_whitespace (before @ x @ rest) = x @ rest"
    using drop[of "x @ rest" js_whitespace before] assms by (simp add: list_all_iff dropWhile_eq_Nil_conv[THEN iffD2])
  moreover have "dropWhile js_whitespace (rev rest @ rev x) = dropWhile js_whitespace (rev rest) @ rev x"
    by (rule drop) (use assms in \<open>simp_all add: hd_rev\<close>)
  ultimately show ?thesis by (simp add: js_trim_def)
qed

lemma zone_kept:
  assumes "zone = [] \<or> hd zone = CHR ''%''" "list_all js_whitespace after"
  defines "z \<equiv> rev (dropWhile js_whitespace (rev (zone @ after)))"
  shows "z = [] \<or> hd z = CHR ''%''"
proof (cases zone)
  case Nil
  then show ?thesis using assms(2) by (simp add: z_def dropWhile_eq_Nil_conv list_all_iff)
next
  case (Cons x xs)
  have snoc: "dropWhile js_whitespace (ys @ [x]) = dropWhile js_whitespace ys @ [x]" for ys
    using Cons assms(1) letter_percent by (induction ys) auto
  show ?thesis using snoc[of "rev after @ rev xs"] Cons assms(1) by (simp add: z_def)
qed

lemma strip_open:
  assumes "b \<noteq> []" "\<And>c. c \<in> set b \<Longrightarrow> \<not> syntax_char c" "z = [] \<or> hd z = CHR ''%''"
  shows "strip_zone (strip_brackets (b @ z)) = b"
proof -
  have ends: "hd b \<noteq> CHR ''[''" "last b \<noteq> CHR '']''"
    using assms(2)[OF hd_in_set[OF assms(1)]] assms(2)[OF last_in_set[OF assms(1)]] by (auto simp: syntax_char_def)
  have "\<exists>z'. strip_brackets (b @ z) = b @ z' \<and> (z' = [] \<or> hd z' = CHR ''%'')"
    using assms(1,3) ends by (cases z rule: rev_cases) (auto simp: strip_brackets_def Let_def butlast_append hd_append split: if_splits)
  then obtain z' where z': "strip_brackets (b @ z) = b @ z'" "z' = [] \<or> hd z' = CHR ''%''" by blast
  show ?thesis
    using z' assms(2) by (cases z') (auto simp: strip_zone_def takeWhile_append syntax_char_def)
qed

lemma strip_bracketed:
  assumes "\<And>c. c \<in> set b \<Longrightarrow> \<not> syntax_char c" "z = [] \<or> hd z = CHR ''%''"
  shows "strip_zone (strip_brackets (CHR ''['' # b @ z @ [CHR '']''])) = b"
proof -
  have "strip_brackets (CHR ''['' # b @ z @ [CHR '']'']) = b @ z" by (simp add: strip_brackets_def butlast_append)
  then show ?thesis
    using assms by (cases z) (auto simp: strip_zone_def takeWhile_append syntax_char_def)
qed

lemma frame_stripped:
  assumes "body \<noteq> []" "\<And>c. c \<in> set body \<Longrightarrow> body_char c" "zone = [] \<or> hd zone = CHR ''%''"
    "list_all js_whitespace (before @ after)"
    "s = before @ body @ zone @ after \<or> s = before @ ''['' @ body @ zone @ '']'' @ after"
  shows "strip_zone (strip_brackets (map js_lower (js_trim s))) = map js_lower body"
proof -
  have plain: "\<not> syntax_char c" if "c \<in> set (map js_lower body)" for c
    using that assms(2) body_plain by auto
  have zone: "map js_lower z = [] \<or> hd (map js_lower z) = CHR ''%''" if "z = [] \<or> hd z = CHR ''%''" for z
    using that letter_percent by (cases z) auto
  from assms(5) show ?thesis
  proof
    assume s: "s = before @ body @ zone @ after"
    define z where "z = rev (dropWhile js_whitespace (rev (zone @ after)))"
    have "\<not> js_whitespace (hd body)" "\<not> js_whitespace (last body)"
      using body_plain[OF assms(2)[OF hd_in_set[OF assms(1)]]] body_plain[OF assms(2)[OF last_in_set[OF assms(1)]]]
      by (auto simp: syntax_char_def)
    then have "js_trim s = body @ z"
      unfolding s z_def using assms(1,4) by (intro js_trim_frame) simp_all
    moreover have "z = [] \<or> hd z = CHR ''%''" unfolding z_def using assms(3,4) by (intro zone_kept) simp_all
    ultimately show ?thesis using strip_open[of "map js_lower body" "map js_lower z"] plain zone assms(1) by simp
  next
    assume s: "s = before @ ''['' @ body @ zone @ '']'' @ after"
    have "dropWhile js_whitespace (rev after) = []" using assms(4) by (simp add: dropWhile_eq_Nil_conv list_all_iff)
    then have "js_trim s = CHR ''['' # body @ zone @ [CHR '']'']"
      using js_trim_frame[of before "CHR ''['' # body @ zone @ [CHR '']'']" after] assms(4) letter_brackets unfolding s by simp
    then show ?thesis
      using strip_bracketed[of "map js_lower body" "map js_lower zone"] plain zone[OF assms(3)] letter_brackets by simp
  qed
qed

subsection \<open>The dotted tail\<close>

lemma find_index_reversed: "CHR '':'' \<notin> set lq \<Longrightarrow> last_colon (pre @ CHR '':'' # lq) = Some (length pre)"
proof -
  have first: "CHR '':'' \<notin> set xs \<Longrightarrow> find_index (\<lambda>x. x = CHR '':'') (xs @ CHR '':'' # ys) = Some (length xs)" for xs ys
    by (induction xs) auto
  assume "CHR '':'' \<notin> set lq"
  then have "find_index (\<lambda>x. x = CHR '':'') (rev lq @ CHR '':'' # rev pre) = Some (length lq)"
    using first[of "rev lq"] by simp
  then show ?thesis by (simp add: last_colon_def)
qed

lemma octets_joined: "0 \<le> b \<Longrightarrow> b \<le> 255 \<Longrightarrow> push_bit 8 a OR b = 256 * a + b" for a b :: int
proof -
  assume b: "0 \<le> b" "b \<le> 255"
  have "take_bit 8 b = b" using b by (simp add: take_bit_eq_mod)
  then have "push_bit 8 a OR b = push_bit 8 a + b"
    using take_bit_int_eq_self_iff by (intro disjunctive_add[symmetric]) (metis bit_push_bit_iff bit_take_bit_iff not_le)
  then show "push_bit 8 a OR b = 256 * a + b" by (simp add: push_bit_eq_mult)
qed

lemma fold_quad:
  assumes "quad_text q [a, b, c, d]"
  shows "fold_ipv4_tail (pre @ CHR '':'' # map js_lower q) =
     Some (pre @ CHR '':'' # to_hex (256 * a + b) @ CHR '':'' # to_hex (256 * c + d))"
  using quad_plain[OF assms] quad_parse[OF assms] find_index_reversed[of "map js_lower q" pre]
  by (simp add: fold_ipv4_tail_def plain_part_def octets_joined)

lemma to_hex_lower: "0 \<le> n \<Longrightarrow> map js_lower (to_hex n) = to_hex n"
proof -
  have "0 \<le> n \<Longrightarrow> map js_lower (print_digits k 16 n) = print_digits k 16 n" for k
    by (induction k arbitrary: n) (simp_all add: digit_char_read)
  then show "0 \<le> n \<Longrightarrow> map js_lower (to_hex n) = to_hex n" by (simp add: to_hex_def)
qed

lemma tail_folds:
  assumes "tail_text ts tg" "CHR ''.'' \<notin> set pre" "2 \<le> length ts \<or> (\<exists>p. pre = p @ [CHR '':''])"
  shows "\<exists>ts'. list_all2 hextet_text ts' tg \<and>
    fold_ipv4_tail (pre @ join_colons (map (map js_lower) ts)) = Some (pre @ join_colons (map (map js_lower) ts'))"
  using assms
proof cases
  case hextets
  have "c \<noteq> CHR ''.''" if "c \<in> set (join_colons (map (map js_lower) ts))" for c
    using join_set[OF that] hextets hextet_chars hex_chars(5)
    by (fastforce simp: list_all2_conv_all_nth in_set_conv_nth)
  then have "fold_ipv4_tail (pre @ join_colons (map (map js_lower) ts)) = Some (pre @ join_colons (map (map js_lower) ts))"
    using assms(2) by (auto simp: fold_ipv4_tail_def)
  then show ?thesis using hextets by blast
next
  case (quad parts gs q a b c d)
  note octets = quad_parse(2-5)[OF quad(4)]
  let ?new = "parts @ [to_hex (256 * a + b), to_hex (256 * c + d)]" and ?lower = "map (map js_lower)"
  have new: "list_all2 hextet_text ?new tg"
    unfolding quad(2) using quad(3) octets by (intro list_all2_appendI) (simp_all add: to_hex_text)
  have low: "map js_lower (to_hex (256 * a + b)) = to_hex (256 * a + b)" "map js_lower (to_hex (256 * c + d)) = to_hex (256 * c + d)"
    using octets by (simp_all add: to_hex_lower)
  have two: "join_colons (xs @ [x, y]) = join_colons (xs @ [x]) @ CHR '':'' # y" for xs x y
    using join_snoc[of "xs @ [x]" y] by simp
  show ?thesis
  proof (cases "parts = []")
    case True
    then obtain p where "pre = p @ [CHR '':'']" using assms(3) quad(1) by auto
    then show ?thesis
      using fold_quad[OF quad(4), of p] new low True quad(1) by (intro exI[of _ ?new]) simp
  next
    case False
    then show ?thesis
      using fold_quad[OF quad(4), of "pre @ join_colons (?lower parts)"] new low quad(1)
      by (intro exI[of _ ?new]) (simp add: two join_snoc)
  qed
qed

subsection \<open>Spellings\<close>

lemma expand_full:
  assumes "list_all2 hextet_text parts gs" "length gs = 8"
  shows "expand_groups (join_colons (map (map js_lower) parts)) = Some gs"
proof -
  have "no_double (join_colons (map (map js_lower) parts))"
    using inner_join[OF hextets_plain[OF assms(1)]] by (simp add: inner_def)
  then show ?thesis
    using parse_groups_join[OF assms(1)] assms(2) by (auto simp: expand_groups_def split_double_plain Let_def)
qed

lemma expand_compressed:
  assumes "list_all2 hextet_text hs hg" "list_all2 hextet_text ts tg" "length hg + length tg \<le> 7"
  shows "expand_groups (join_colons (map (map js_lower) hs) @ CHR '':'' # CHR '':'' # join_colons (map (map js_lower) ts)) =
    Some (hg @ replicate (8 - length hg - length tg) 0 @ tg)"
proof -
  let ?h = "join_colons (map (map js_lower) hs)" and ?t = "join_colons (map (map js_lower) ts)"
  have "inner ?h" "inner ?t" using assms(1,2) hextets_plain inner_join by blast+
  then have h: "no_double ?h" "?h = [] \<or> last ?h \<noteq> CHR '':''" and t: "no_double ?t" by (auto simp: inner_def)
  show ?thesis
    using parse_groups_join[OF assms(1)] parse_groups_join[OF assms(2)] assms(3)
    by (simp add: expand_groups_def Let_def split_double_append[OF h] split_double_plain[OF t])
qed

lemma tail_length: "tail_text parts gs \<Longrightarrow> length gs \<le> length parts + 1"
  by (induction rule: tail_text.induct) (auto dest: list_all2_lengthD)

lemma body_read:
  assumes "body_spells body gs"
  shows "\<not> contains_text '':::'' (map js_lower body) \<and>
    (\<exists>folded. fold_ipv4_tail (map js_lower body) = Some folded \<and> expand_groups folded = Some gs)"
  using assms
proof cases
  case (full parts)
  obtain parts' where parts': "list_all2 hextet_text parts' gs"
    "fold_ipv4_tail (map js_lower body) = Some (join_colons (map (map js_lower) parts'))"
    using tail_folds[OF full(2), of "[]"] tail_length[OF full(2)] full(1,3) by (auto simp: join_map_lower)
  have "inner (map js_lower body)" unfolding full(1) join_map_lower by (rule inner_join[OF tail_plain[OF full(2)]])
  then show ?thesis using contains_plain parts' expand_full[OF parts'(1) full(3)] by (simp add: inner_def)
next
  case (compressed hs hg ts tg)
  let ?h = "join_colons (map (map js_lower) hs)" and ?t = "join_colons (map (map js_lower) ts)"
  have body: "map js_lower body = ?h @ CHR '':'' # CHR '':'' # ?t"
    unfolding compressed(1) by (simp add: join_map_lower letter_colon)
  have h: "inner ?h" by (rule inner_join[OF hextets_plain[OF compressed(3)]])
  have t: "inner ?t" by (rule inner_join[OF tail_plain[OF compressed(4)]])
  have "c \<noteq> CHR ''.''" if "c \<in> set ?h" for c
    using join_set[OF that] compressed(3) hextet_chars hex_chars(5)
    by (fastforce simp: list_all2_conv_all_nth in_set_conv_nth)
  then obtain ts' where ts': "list_all2 hextet_text ts' tg"
    "fold_ipv4_tail (map js_lower body) = Some (?h @ CHR '':'' # CHR '':'' # join_colons (map (map js_lower) ts'))"
    using tail_folds[OF compressed(4), of "?h @ ''::''"] unfolding body by fastforce
  have "\<not> contains_text '':::'' (map js_lower body)"
    unfolding body using h by (intro contains_append[OF t]) (auto simp: inner_def)
  then show ?thesis using ts' expand_compressed[OF compressed(3) ts'(1) compressed(5)] compressed(2) by simp
qed

lemma tail_bounds: "tail_text parts gs \<Longrightarrow> list_all (\<lambda>g. 0 \<le> g \<and> g < 65536) gs"
proof (induction rule: tail_text.induct)
  case (hextets parts gs)
  then show ?case by (induction rule: list_all2_induct) (auto dest: hextet_bounds)
next
  case (quad parts gs q a b c d)
  from quad(1) have "list_all (\<lambda>g. 0 \<le> g \<and> g < 65536) gs" by (induction rule: list_all2_induct) (auto dest: hextet_bounds)
  then show ?case using quad_parse(2-5)[OF quad(2)] by auto
qed

lemma body_bounds: "body_spells body gs \<Longrightarrow> list_all (\<lambda>g. 0 \<le> g \<and> g < 65536) gs"
proof (induction rule: body_spells.induct)
  case (compressed hs hg ts tg)
  then show ?case using tail_bounds[OF tail_text.hextets[OF compressed(1)]] tail_bounds[OF compressed(2)]
    by (auto simp: list_all_iff)
qed (rule tail_bounds)

lemma group_bytes_split:
  assumes "list_all (\<lambda>g. 0 \<le> g \<and> g < 65536) gs"
  shows "group_bytes gs = concat (map (\<lambda>g. [g div 256, g mod 256]) gs)"
proof -
  have "drop_bit 8 g AND 255 = g div 256 \<and> g AND 255 = g mod 256" if "0 \<le> g" "g < 65536" for g :: int
  proof -
    have "(x AND 255) = x mod 256" for x :: int using take_bit_eq_mask[of 8 x] by (simp add: take_bit_eq_mod mask_eq_exp_minus_1)
    moreover have "drop_bit 8 g = g div 256" by (simp add: drop_bit_eq_div)
    moreover have "g div 256 < 256" using that by simp
    ultimately show ?thesis using that by simp
  qed
  then show ?thesis using assms unfolding group_bytes_def by (intro arg_cong[of _ _ concat] map_cong) (auto simp: list_all_iff)
qed

text \<open>C17: Every spelling of an IPv6 address is read as the sixteen bytes it denotes: groups of one to four
  hexadecimal digits in either letter case and with or without leading zeros, \<open>::\<close> for any run of zero groups, a
  dotted IPv4 tail for the last two groups, a pair of brackets, a zone and white space around it. So a blocked address
  cannot be spelled around the guard.\<close>

theorem ipv6_spelling_is_irrelevant:
  assumes "spells s gs"
  shows "ipv6_to_bytes s = Some (concat (map (\<lambda>g. [g div 256, g mod 256]) gs))"
proof -
  obtain body zone before after where s: "body_spells body gs" "zone = [] \<or> hd zone = CHR ''%''"
    "list_all js_whitespace (before @ after)"
    "s = before @ body @ zone @ after \<or> s = before @ ''['' @ body @ zone @ '']'' @ after"
    using assms unfolding spells_def by blast
  have stripped: "strip_zone (strip_brackets (map js_lower (js_trim s))) = map js_lower body"
    using body_nonempty[OF s(1)] body_chars[OF s(1)] s(2-4) by (rule frame_stripped)
  show ?thesis
    unfolding ipv6_to_bytes_def Let_def stripped group_bytes_split[OF body_bounds[OF s(1)], symmetric]
    using body_read[OF s(1)] body_nonempty[OF s(1)] by auto
qed

lemma sample_numerals:
  "octet_spelled ''010'' 10" "octet_spelled ''0'' 0" "octet_spelled ''1'' 1"
  "hextet_text ''64'' 0x64" "hextet_text ''FF9B'' 0xff9b"
proof -
  have dec: "digit_of ''0123456789'' (CHR ''0'') 0" "digit_of ''0123456789'' (CHR ''1'') 1"
    unfolding digit_of_def by (rule exI[of _ 0], simp, rule exI[of _ 1], simp)
  have hex: "hex_digit_of (CHR ''6'') 6" "hex_digit_of (CHR ''4'') 4" "hex_digit_of (CHR ''9'') 9"
    "hex_digit_of (CHR ''F'') 15" "hex_digit_of (CHR ''B'') 11"
    unfolding hex_digit_of_def digit_of_def
    by (rule disjI2, rule exI[of _ 6], simp, rule disjI2, rule exI[of _ 4], simp, rule disjI2, rule exI[of _ 9], simp,
        rule disjI2, rule exI[of _ 15], simp, rule disjI2, rule exI[of _ 11], simp)
  show "octet_spelled ''010'' 10" "octet_spelled ''0'' 0" "octet_spelled ''1'' 1"
    using dec unfolding octet_spelled_def
    by (intro exI[of _ "[0, 1, 0]"], simp add: place_value_def numeral_3_eq_3, intro exI[of _ "[0]"], simp add: place_value_def,
        intro exI[of _ "[1]"], simp add: place_value_def)
  show "hextet_text ''64'' 0x64" "hextet_text ''FF9B'' 0xff9b"
    using hex unfolding hextet_text_def
    by (intro exI[of _ "[6, 4]"], simp add: place_value_def numeral_2_eq_2,
        intro exI[of _ "[15, 15, 9, 11]"], simp add: place_value_def eval_nat_numeral)
qed

lemma ipv6_spelling_is_irrelevant_witness:
  "ipv6_to_bytes '' [64:FF9B::010.0.0.1%eth0]'' =
     Some [0, 0x64, 0xff, 0x9b, 0, 0, 0, 0, 0, 0, 0, 0, 10, 0, 0, 1]"
proof -
  have "quad_text ''010.0.0.1'' [10, 0, 0, 1]"
    unfolding quad_text_def using sample_numerals
    by (intro exI[of _ "''010''"] exI[of _ "''0''"] exI[of _ "''0''"] exI[of _ "''1''"]) simp
  then have tail: "tail_text ([] @ [''010.0.0.1'']) ([] @ [256 * 10 + 0, 256 * 0 + 1])" by (intro tail_text.quad) simp_all
  have head: "list_all2 hextet_text [''64'', ''FF9B''] [0x64, 0xff9b]" by (simp add: sample_numerals)
  have "body_spells (join_colons [''64'', ''FF9B''] @ ''::'' @ join_colons ([] @ [''010.0.0.1'']))
      ([0x64, 0xff9b] @ replicate (8 - length [0x64::int, 0xff9b] - length ([] @ [256 * 10 + 0, 256 * 0 + 1::int])) 0 @
       ([] @ [256 * 10 + 0, 256 * 0 + 1]))"
    by (rule body_spells.compressed[OF head tail]) simp
  then have "body_spells ''64:FF9B::010.0.0.1'' [0x64, 0xff9b, 0, 0, 0, 0, 0xa00, 1]" by (simp add: eval_nat_numeral)
  then have "spells '' [64:FF9B::010.0.0.1%eth0]'' [0x64, 0xff9b, 0, 0, 0, 0, 0xa00, 1]"
    unfolding spells_def
    by (intro exI[of _ "''64:FF9B::010.0.0.1''"] exI[of _ "''%eth0''"] exI[of _ "'' ''"] exI[of _ "[]"])
      (simp add: js_whitespace_def)
  from ipv6_spelling_is_irrelevant[OF this] show ?thesis by simp
qed

subsection \<open>The guarded lookup\<close>

definition vetted :: "(string \<Rightarrow> nat) \<Rightarrow> lookup_address \<Rightarrow> bool" where
  "vetted is_ip entry \<longleftrightarrow>
     is_ip (la_address entry) = la_family entry \<and> la_family entry \<noteq> 0 \<and>
     \<not> is_blocked_address is_ip (la_address entry)"

lemma not_refused: "\<not> refused_entry is_ip False entry \<longleftrightarrow> vetted is_ip entry"
  by (auto simp: refused_entry_def vetted_def)

text \<open>C18: With the private-address switch off, the lookup that the socket uses hands out an address
  only when every address the resolver returned is a literal of its family and is public, and what it
  hands out is one of these very addresses: a name that resolves to a mix of public and blocked
  addresses is refused as a whole, and so cannot be rebound after the check.\<close>

theorem guarded_lookup_hands_out_vetted:
  assumes "guarded_lookup is_ip False wants_all hostname resolved = outcome"
    and "\<not> (\<exists>err. outcome = Lookup_Error err)"
  shows "\<exists>addresses. resolved = Inr addresses \<and> addresses \<noteq> [] \<and> list_all (vetted is_ip) addresses \<and>
    outcome = (if wants_all then Lookup_All addresses
               else Lookup_One (la_address (hd addresses)) (la_family (hd addresses)))"
proof (cases resolved)
  case (Inr addresses)
  then have ne: "addresses \<noteq> []" and none: "List.find (refused_entry is_ip False) addresses = None"
    using assms by (auto simp: guarded_lookup_def split: if_splits option.splits)
  have "list_all (vetted is_ip) addresses"
    using none by (simp add: find_None_iff list_all_iff not_refused)
  then show ?thesis using assms(1) Inr ne none by (auto simp: guarded_lookup_def)
qed (use assms in \<open>auto simp: guarded_lookup_def\<close>)

definition sample_is_ip :: "string \<Rightarrow> nat" where
  "sample_is_ip s = (if CHR '':'' \<in> set s then 6 else if CHR ''.'' \<in> set s then 4 else 0)"

lemma guarded_lookup_hands_out_vetted_witness:
  "list_all (vetted sample_is_ip) [\<lparr>la_address = ''8.8.8.8'', la_family = 4\<rparr>] \<and>
   guarded_lookup sample_is_ip False False ''a'' (Inr [\<lparr>la_address = ''8.8.8.8'', la_family = 4\<rparr>]) =
     Lookup_One ''8.8.8.8'' 4"
proof -
  have eq: "guarded_lookup sample_is_ip False False ''a'' (Inr [\<lparr>la_address = ''8.8.8.8'', la_family = 4\<rparr>]) =
     Lookup_One ''8.8.8.8'' 4"
    by code_simp
  from guarded_lookup_hands_out_vetted[OF eq] eq show ?thesis by auto
qed

end
