(* ===== verification/Trigger_Events.thy ===== *)
theory Trigger_Events
  imports Tool_Names Execution_Types
begin

text \<open>
  The metadata history of trigger arrivals (\<open>apps/executor/src/triggers/event-store.ts\<close>, with the
  identifiers of \<open>packages/core/src/triggers.ts\<close>): validated appends, the filtered and cursored listing,
  the sweep of expired arrivals. The fields that the code checks against their literal types are kept as
  strings, so that the checks can fail.
\<close>

subsection \<open>Identifiers\<close>

definition is_trigger_subscription_id :: "string \<Rightarrow> bool" where
  "is_trigger_subscription_id value \<longleftrightarrow> starts_with ''trgsub_'' value \<and> id_seed_pattern (drop 7 value)"

definition is_trigger_event_arrival_id :: "string \<Rightarrow> bool" where
  "is_trigger_event_arrival_id value \<longleftrightarrow> starts_with ''trgevt_'' value \<and> id_seed_pattern (drop 7 value)"

definition seeded_id :: "string \<Rightarrow> string \<Rightarrow> string option \<Rightarrow> string \<Rightarrow> string result" where
  "seeded_id what prefix seed uuid =
     (let id_body = (case seed of Some s \<Rightarrow> s | None \<Rightarrow> filter (\<lambda>c. c \<noteq> CHR ''-'') uuid) in
      if \<not> id_seed_pattern id_body
      then Inl (Plain_Error (what @
        '' ID seed must be 1-128 characters using letters, digits, underscores, or hyphens.''))
      else Inr (prefix @ id_body))"

definition create_trigger_subscription_id :: "string option \<Rightarrow> string \<Rightarrow> string result" where
  "create_trigger_subscription_id = seeded_id ''Trigger subscription'' ''trgsub_''"

definition create_trigger_event_arrival_id :: "string option \<Rightarrow> string \<Rightarrow> string result" where
  "create_trigger_event_arrival_id = seeded_id ''Trigger event arrival'' ''trgevt_''"

subsection \<open>Data\<close>

record append_trigger_event =
  te_arrival :: string
  te_event :: string
  te_subscription :: string
  te_trigger :: string
  te_mode :: string
  te_received_at :: timestamp
  te_occurred_at :: timestamp
  te_dedup :: string
  te_admission :: string
  te_endpoints :: "string list"
  te_expires_at :: timestamp

record trigger_event = append_trigger_event +
  te_sequence :: int
  te_project :: string

record list_trigger_events =
  lt_cursor :: "cursor option"
  lt_limit :: int
  lt_now :: timestamp
  lt_subscription :: "string option"
  lt_trigger :: "string option"

record trigger_cursor =
  tc_after :: string
  tc_subscription :: "string option"
  tc_trigger :: "string option"

record trigger_event_store =
  trigger_events :: "(string \<times> trigger_event) list"
  trigger_sequence :: int

definition empty_trigger_event_store :: trigger_event_store where
  "empty_trigger_event_store = \<lparr>trigger_events = [], trigger_sequence = 0\<rparr>"

subsection \<open>Errors and timestamps\<close>

definition trigger_event_error :: "string \<Rightarrow> js_error" where
  "trigger_event_error = Named_Error ''TriggerEventStoreError''"

definition invalid_trigger_event_cursor :: js_error where
  "invalid_trigger_event_cursor = Named_Error ''InvalidTriggerEventCursorError'' ''Trigger event cursor is invalid.''"

definition event_timestamp :: "timestamp \<Rightarrow> string \<Rightarrow> int result" where
  "event_timestamp value field = (case date_parse value of
     None \<Rightarrow> Inl (trigger_event_error (field @ '' must be a valid timestamp.''))
   | Some ms \<Rightarrow> Inr ms)"

definition normalized_timestamp :: "timestamp \<Rightarrow> string \<Rightarrow> timestamp result" where
  "normalized_timestamp value field = bind_result (event_timestamp value field) (\<lambda>ms. Inr (Iso ms))"

definition require :: "bool \<Rightarrow> string \<Rightarrow> unit result" where
  "require ok message = (if ok then Inr () else Inl (trigger_event_error message))"

subsection \<open>Validation\<close>

definition validate_trigger_list :: "list_trigger_events \<Rightarrow> unit result" where
  "validate_trigger_list inp =
     bind_result (require (is_safe_integer (lt_limit inp) \<and> 1 \<le> lt_limit inp \<and> lt_limit inp \<le> 100)
       ''Trigger event list limit must be an integer from 1 through 100.'') (\<lambda>_.
     bind_result (event_timestamp (lt_now inp) ''Trigger event list now'') (\<lambda>_.
     bind_result (require (pred_option is_trigger_subscription_id (lt_subscription inp))
       ''Trigger event subscriptionId filter is invalid.'') (\<lambda>_.
     require (pred_option is_canonical_tool_name (lt_trigger inp)) ''Trigger event trigger filter is invalid.'')))"

definition validate_trigger_sweep :: "int \<Rightarrow> timestamp \<Rightarrow> unit result" where
  "validate_trigger_sweep limit now =
     bind_result (require (is_safe_integer limit \<and> 1 \<le> limit)
       ''Trigger event sweep limit must be a positive safe integer.'') (\<lambda>_.
     bind_result (event_timestamp now ''Trigger event sweep now'') (\<lambda>_. Inr ()))"

definition validate_trigger_append :: "string \<Rightarrow> append_trigger_event \<Rightarrow> unit result" where
  "validate_trigger_append p inp =
     bind_result (require (\<not> blank p) ''Trigger event projectId is required.'') (\<lambda>_.
     bind_result (require (is_trigger_event_arrival_id (te_arrival inp)) ''Trigger event arrivalId is invalid.'') (\<lambda>_.
     bind_result (require (\<not> blank (te_event inp)) ''Trigger event eventId is required.'') (\<lambda>_.
     bind_result (require (is_trigger_subscription_id (te_subscription inp))
       ''Trigger event subscriptionId is invalid.'') (\<lambda>_.
     bind_result (require (is_canonical_tool_name (te_trigger inp)) ''Trigger event trigger is invalid.'') (\<lambda>_.
     bind_result (require (te_mode inp \<in> {''push'', ''polling''}) ''Trigger event deliveryMode is invalid.'') (\<lambda>_.
     bind_result (require (te_dedup inp \<in> {''accepted'', ''duplicate''}) ''Trigger event dedupStatus is invalid.'') (\<lambda>_.
     bind_result (require (te_admission inp \<in> {''admitted'', ''failed'', ''not_enqueued''})
       ''Trigger event deliveryAdmissionStatus is invalid.'') (\<lambda>_.
     bind_result (require (\<not> ((te_dedup inp = ''duplicate'' \<and> te_admission inp \<noteq> ''not_enqueued'') \<or>
                               (te_dedup inp = ''accepted'' \<and> te_admission inp = ''not_enqueued'')))
       ''Trigger event dedup and admission statuses are inconsistent.'') (\<lambda>_.
     bind_result (event_timestamp (te_received_at inp) ''Trigger event receivedAt'') (\<lambda>received_at.
     bind_result (event_timestamp (te_occurred_at inp) ''Trigger event occurredAt'') (\<lambda>_.
     bind_result (event_timestamp (te_expires_at inp) ''Trigger event expiresAt'') (\<lambda>expires_at.
     bind_result (require (received_at < expires_at) ''Trigger event expiresAt must be after receivedAt.'') (\<lambda>_.
     require (\<not> list_ex blank (te_endpoints inp) \<and> distinct (te_endpoints inp))
       ''Trigger event requested endpoint IDs must be distinct non-empty strings.'')))))))))))))"

definition stored_trigger_event :: "string \<Rightarrow> int \<Rightarrow> append_trigger_event \<Rightarrow> trigger_event result" where
  "stored_trigger_event p n inp =
     bind_result (validate_trigger_append p inp) (\<lambda>_.
     bind_result (normalized_timestamp (te_received_at inp) ''Trigger event receivedAt'') (\<lambda>received_at.
     bind_result (normalized_timestamp (te_occurred_at inp) ''Trigger event occurredAt'') (\<lambda>occurred_at.
     bind_result (normalized_timestamp (te_expires_at inp) ''Trigger event expiresAt'') (\<lambda>expires_at.
       Inr \<lparr>te_arrival = te_arrival inp, te_event = te_event inp, te_subscription = te_subscription inp,
            te_trigger = te_trigger inp, te_mode = te_mode inp, te_received_at = received_at,
            te_occurred_at = occurred_at, te_dedup = te_dedup inp, te_admission = te_admission inp,
            te_endpoints = te_endpoints inp, te_expires_at = expires_at,
            te_sequence = n, te_project = p\<rparr>))))"

subsection \<open>Cursors\<close>

fun opt_json :: "string option \<Rightarrow> json" where
  "opt_json None = JNull"
| "opt_json (Some s) = JStr s"

definition trigger_cursor_after :: "string \<Rightarrow> string option \<Rightarrow> string option \<Rightarrow> cursor" where
  "trigger_cursor_after arrival sub trig = Encoded (JObj
     [(''after'', JStr arrival), (''subscriptionId'', opt_json sub), (''trigger'', opt_json trig)])"

text \<open>A field that is \<open>null\<close> or a string that satisfies the check.\<close>

definition nullable :: "(string \<Rightarrow> bool) \<Rightarrow> json option \<Rightarrow> string option option" where
  "nullable ok v = (case v of
     Some JNull \<Rightarrow> Some None
   | Some (JStr s) \<Rightarrow> if ok s then Some (Some s) else None
   | _ \<Rightarrow> None)"

text \<open>
  The strict decoding. The check that re-encoding the decoded bytes gives back the text, and the check
  of the alphabet, are implied by the last one: the text must be the encoding of the parsed value.
\<close>

definition trigger_cursor_from :: "cursor \<Rightarrow> trigger_cursor result" where
  "trigger_cursor_from c =
     (case cursor_json c of
        Some (JObj fs) \<Rightarrow>
          if length fs \<noteq> 3 then Inl invalid_trigger_event_cursor
          else (case (map_of fs ''after'', nullable is_trigger_subscription_id (map_of fs ''subscriptionId''),
                      nullable is_canonical_tool_name (map_of fs ''trigger'')) of
            (Some (JStr after), Some sub, Some trig) \<Rightarrow>
              if \<not> is_trigger_event_arrival_id after \<or> trigger_cursor_after after sub trig \<noteq> c
              then Inl invalid_trigger_event_cursor
              else Inr \<lparr>tc_after = after, tc_subscription = sub, tc_trigger = trig\<rparr>
          | _ \<Rightarrow> Inl invalid_trigger_event_cursor)
      | _ \<Rightarrow> Inl invalid_trigger_event_cursor)"

subsection \<open>Operations\<close>

definition append_event ::
    "string \<Rightarrow> append_trigger_event \<Rightarrow> trigger_event_store \<Rightarrow> (trigger_event_store \<times> trigger_event) result" where
  "append_event p inp st =
     bind_result (stored_trigger_event p (trigger_sequence st + 1) inp) (\<lambda>candidate.
       case map_of (trigger_events st) (te_arrival candidate) of
         Some existing \<Rightarrow>
           if existing \<noteq> candidate\<lparr>te_sequence := te_sequence existing\<rparr>
           then Inl (trigger_event_error ''Trigger event arrivalId was reused with different metadata.'')
           else Inr (st, existing)
       | None \<Rightarrow>
           Inr (\<lparr>trigger_events = js_set (te_arrival candidate) candidate (trigger_events st),
                 trigger_sequence = trigger_sequence st + 1\<rparr>, candidate))"

definition trigger_matches :: "list_trigger_events \<Rightarrow> trigger_event \<Rightarrow> bool" where
  "trigger_matches inp e \<longleftrightarrow>
     (lt_subscription inp = None \<or> Some (te_subscription e) = lt_subscription inp) \<and>
     (lt_trigger inp = None \<or> Some (te_trigger e) = lt_trigger inp)"

text \<open>The newest arrival first, by receipt and then by sequence number.\<close>

definition project_events :: "string \<Rightarrow> trigger_event_store \<Rightarrow> trigger_event list" where
  "project_events p st = sort_key (\<lambda>e. (- time_ms (te_received_at e), - te_sequence e))
     (filter (\<lambda>e. te_project e = p) (js_values (trigger_events st)))"

definition trigger_offset :: "list_trigger_events \<Rightarrow> trigger_event list \<Rightarrow> nat result" where
  "trigger_offset inp events =
     (case lt_cursor inp of
        None \<Rightarrow> Inr 0
      | Some text \<Rightarrow>
          bind_result (trigger_cursor_from text) (\<lambda>c.
            if tc_subscription c \<noteq> lt_subscription inp \<or> tc_trigger c \<noteq> lt_trigger inp
            then Inl invalid_trigger_event_cursor
            else (case find_index (\<lambda>e. te_arrival e = tc_after c \<and> trigger_matches inp e) events of
                    None \<Rightarrow> Inl invalid_trigger_event_cursor
                  | Some anchor \<Rightarrow> Inr (anchor + 1))))"

definition list_trigger_page ::
    "string \<Rightarrow> list_trigger_events \<Rightarrow> trigger_event_store \<Rightarrow> (trigger_event list \<times> cursor option) result" where
  "list_trigger_page p inp st =
     bind_result (validate_trigger_list inp) (\<lambda>_.
     bind_result (trigger_offset inp (project_events p st)) (\<lambda>offset.
       let now = date_parse (lt_now inp);
           live = filter (\<lambda>e. num_less now (date_parse (te_expires_at e)) \<and> trigger_matches inp e)
                    (drop offset (project_events p st));
           page = js_slice live 0 (lt_limit inp) in
       Inr (page, if int (length live) > lt_limit inp \<and> page \<noteq> []
                  then Some (trigger_cursor_after (te_arrival (last page)) (lt_subscription inp) (lt_trigger inp))
                  else None)))"

definition expired_events :: "int \<Rightarrow> timestamp \<Rightarrow> trigger_event_store \<Rightarrow> (string \<times> trigger_event) list" where
  "expired_events limit now st =
     js_slice (sort_key (\<lambda>(k, e). (time_ms (te_expires_at e), te_sequence e))
       (filter (\<lambda>(k, e). num_le (date_parse (te_expires_at e)) (date_parse now)) (trigger_events st))) 0 limit"

definition sweep_expired :: "int \<Rightarrow> timestamp \<Rightarrow> trigger_event_store \<Rightarrow> (trigger_event_store \<times> nat) result" where
  "sweep_expired limit now st =
     bind_result (validate_trigger_sweep limit now) (\<lambda>_.
       let expired = expired_events limit now st in
       Inr (st\<lparr>trigger_events := fold (\<lambda>(k, e). js_delete k) expired (trigger_events st)\<rparr>, length expired))"

end
