(* ===== verification/Trigger_History.thy ===== *)
theory Trigger_History
  imports Trigger_Events History
begin

text \<open>
  The contract of the arrival history: an arrival is recorded once, and the sweep removes a bounded
  number of expired arrivals, the earliest to expire first.
\<close>

subsection \<open>Histories\<close>

datatype trigger_op =
    Top_Append string append_trigger_event
  | Top_Sweep int timestamp

fun run_trigger_op :: "trigger_op \<Rightarrow> trigger_event_store \<Rightarrow> trigger_event_store" where
  "run_trigger_op (Top_Append p inp) st = (case append_event p inp st of Inl e \<Rightarrow> st | Inr x \<Rightarrow> fst x)"
| "run_trigger_op (Top_Sweep limit now) st = (case sweep_expired limit now st of Inl e \<Rightarrow> st | Inr x \<Rightarrow> fst x)"

fun run_trigger_ops :: "trigger_op list \<Rightarrow> trigger_event_store \<Rightarrow> trigger_event_store" where
  "run_trigger_ops [] st = st"
| "run_trigger_ops (op # ops) st = run_trigger_ops ops (run_trigger_op op st)"

definition trigger_row_wf :: "string \<Rightarrow> trigger_event \<Rightarrow> bool" where
  "trigger_row_wf k e \<longleftrightarrow> te_arrival e = k \<and> valid_time (te_received_at e) \<and> valid_time (te_expires_at e)"

definition trigger_store_wf :: "trigger_event_store \<Rightarrow> bool" where
  "trigger_store_wf st \<longleftrightarrow> distinct_keys (trigger_events st) \<and> all_entries trigger_row_wf (trigger_events st)"

lemma empty_trigger_store_wf [simp]: "trigger_store_wf empty_trigger_event_store"
  by (simp add: trigger_store_wf_def empty_trigger_event_store_def)

lemma trigger_store_row: "trigger_store_wf st \<Longrightarrow> map_of (trigger_events st) k = Some e \<Longrightarrow> trigger_row_wf k e"
  by (auto simp: trigger_store_wf_def dest: all_entriesD)

lemma require_Inr [simp]: "require ok msg = Inr u \<longleftrightarrow> ok"
  by (simp add: require_def)

lemma event_timestamp_Inr [simp]: "event_timestamp t f = Inr ms \<longleftrightarrow> date_parse t = Some ms"
  by (auto simp: event_timestamp_def split: option.splits)

lemma normalized_timestamp_Inr [simp]:
  "normalized_timestamp t f = Inr u \<longleftrightarrow> (\<exists>ms. date_parse t = Some ms \<and> u = Iso ms)"
  by (auto simp: normalized_timestamp_def bind_result_Inr_iff)

lemma stored_trigger_event_Inr:
  assumes "stored_trigger_event p n inp = Inr e"
  shows "te_arrival e = te_arrival inp" "te_sequence e = n" "te_project e = p"
    "date_parse (te_expires_at e) = date_parse (te_expires_at inp)" "trigger_row_wf (te_arrival inp) e"
    "stored_trigger_event p m inp = Inr (e\<lparr>te_sequence := m\<rparr>)"
  using assms by (auto simp: stored_trigger_event_def bind_result_Inr_iff trigger_row_wf_def)

subsection \<open>Deleting a list of keys\<close>

lemma fold_delete: "fold (\<lambda>(k, e). js_delete k) xs m = filter (\<lambda>x. fst x \<notin> fst ` set xs) m"
proof (induction xs arbitrary: m)
  case (Cons x xs)
  obtain k e where x: "x = (k, e)" by (cases x)
  have "js_delete k m = filter (\<lambda>y. fst y \<noteq> k) m"
    by (auto simp: AList.delete_eq intro!: filter_cong)
  then show ?case using Cons.IH by (simp add: x)
qed simp

lemma distinct_map_filter_keys: "distinct_keys m \<Longrightarrow> distinct_keys (filter P m)"
  by (simp add: distinct_map inj_on_def)

lemma map_of_filter_keys: "map_of (filter (\<lambda>x. P (fst x)) m) k = (if P k then map_of m k else None)"
  by (induction m) auto

lemma sweep_expired_Inr:
  assumes "sweep_expired limit now st = Inr (st', n)"
  obtains "1 \<le> limit" "valid_time now" "n = length (expired_events limit now st)"
    "trigger_sequence st' = trigger_sequence st"
    "trigger_events st' = filter (\<lambda>x. fst x \<notin> fst ` set (expired_events limit now st)) (trigger_events st)"
  using assms
  by (auto simp: sweep_expired_def validate_trigger_sweep_def bind_result_Inr_iff Let_def fold_delete valid_time_iff)

definition expired_at :: "timestamp \<Rightarrow> trigger_event \<Rightarrow> bool" where
  "expired_at now e \<longleftrightarrow> num_le (date_parse (te_expires_at e)) (date_parse now)"

definition expiry_key :: "trigger_event \<Rightarrow> int \<times> int" where
  "expiry_key e = (time_ms (te_expires_at e), te_sequence e)"

definition all_expired :: "timestamp \<Rightarrow> trigger_event_store \<Rightarrow> (string \<times> trigger_event) list" where
  "all_expired now st = sort_key (\<lambda>x. expiry_key (snd x)) (filter (\<lambda>x. expired_at now (snd x)) (trigger_events st))"

lemma expired_events_take: "1 \<le> limit \<Longrightarrow> expired_events limit now st = take (nat limit) (all_expired now st)"
  by (simp add: expired_events_def all_expired_def js_slice_nonneg expired_at_def expiry_key_def case_prod_beta')

lemma all_expired_set: "x \<in> set (all_expired now st) \<longleftrightarrow> x \<in> set (trigger_events st) \<and> expired_at now (snd x)"
  by (auto simp: all_expired_def)

lemma append_event_Inr:
  assumes "append_event p inp st = Inr (st', e)"
  obtains (old) c where "stored_trigger_event p (trigger_sequence st + 1) inp = Inr c" "st' = st"
      "map_of (trigger_events st) (te_arrival inp) = Some e" "e = c\<lparr>te_sequence := te_sequence e\<rparr>"
  | (new) "stored_trigger_event p (trigger_sequence st + 1) inp = Inr e"
      "map_of (trigger_events st) (te_arrival inp) = None"
      "st' = \<lparr>trigger_events = js_set (te_arrival inp) e (trigger_events st),
              trigger_sequence = trigger_sequence st + 1\<rparr>"
proof -
  obtain c where c: "stored_trigger_event p (trigger_sequence st + 1) inp = Inr c"
    using assms by (auto simp: append_event_def bind_result_Inr_iff)
  note arrival = stored_trigger_event_Inr(1)[OF c]
  show thesis
  proof (cases "map_of (trigger_events st) (te_arrival inp)")
    case None
    then show thesis using assms c arrival new by (auto simp: append_event_def)
  next
    case (Some x)
    then show thesis using assms c arrival old[OF c] by (auto simp: append_event_def split: if_splits)
  qed
qed

lemma run_trigger_op_wf:
  assumes "trigger_store_wf st"
  shows "trigger_store_wf (run_trigger_op op st)"
proof (cases op)
  case (Top_Append p inp)
  show ?thesis
  proof (cases "append_event p inp st")
    case (Inr x)
    then have "append_event p inp st = Inr (fst x, snd x)" by simp
    then have "trigger_store_wf (fst x)"
    proof (cases rule: append_event_Inr)
      case new
      then show ?thesis
        using assms stored_trigger_event_Inr(5)[OF new(1)] by (auto simp: trigger_store_wf_def)
    qed (use assms in simp)
    then show ?thesis using Top_Append Inr by simp
  qed (use Top_Append assms in simp)
next
  case (Top_Sweep limit now)
  show ?thesis
  proof (cases "sweep_expired limit now st")
    case (Inr x)
    then have "sweep_expired limit now st = Inr (fst x, snd x)" by simp
    then have "trigger_store_wf (fst x)"
    proof (cases rule: sweep_expired_Inr)
      case 1
      have "distinct_keys (trigger_events (fst x))"
        using assms 1(5) by (simp add: trigger_store_wf_def distinct_map_filter_keys)
      then show ?thesis
        using assms 1(5) map_of_filter_keys[of "\<lambda>k. k \<notin> fst ` set (expired_events limit now st)" "trigger_events st"]
        by (auto simp: trigger_store_wf_def all_entries_def split: if_splits)
    qed
    then show ?thesis using Top_Sweep Inr by simp
  qed (use Top_Sweep assms in simp)
qed

interpretation arrivals: call_history trigger_store_wf run_trigger_op run_trigger_ops
  by unfold_locales (simp_all add: run_trigger_op_wf)

subsection \<open>An arrival is recorded once\<close>

definition sweeps_before :: "int \<Rightarrow> trigger_op list \<Rightarrow> bool" where
  "sweeps_before expiry = list_all (\<lambda>op. case op of
     Top_Append p inp \<Rightarrow> True
   | Top_Sweep limit now \<Rightarrow> num_less (date_parse now) (Some expiry))"

lemma all_expired_rows: "x \<in> set (expired_events limit now st) \<Longrightarrow> 1 \<le> limit \<Longrightarrow>
    x \<in> set (trigger_events st) \<and> expired_at now (snd x)"
  by (auto simp: expired_events_take all_expired_set dest!: in_set_takeD)

lemma run_trigger_op_keeps:
  assumes "trigger_store_wf st" "map_of (trigger_events st) k = Some e" "date_parse (te_expires_at e) = Some expiry"
    "sweeps_before expiry [op]"
  shows "map_of (trigger_events (run_trigger_op op st)) k = Some e"
proof (cases op)
  case (Top_Append p inp)
  show ?thesis
  proof (cases "append_event p inp st")
    case (Inr x)
    then have "append_event p inp st = Inr (fst x, snd x)" by simp
    then show ?thesis
      by (cases rule: append_event_Inr) (use assms Top_Append Inr in auto)
  qed (use Top_Append assms in simp)
next
  case (Top_Sweep limit now)
  show ?thesis
  proof (cases "sweep_expired limit now st")
    case (Inr x)
    then have "sweep_expired limit now st = Inr (fst x, snd x)" by simp
    then have "map_of (trigger_events (fst x)) k = Some e"
    proof (cases rule: sweep_expired_Inr)
      case 1
      have live: "\<not> expired_at now e"
        using assms(3,4) Top_Sweep by (auto simp: sweeps_before_def expired_at_def num_le_iff num_less_iff)
      have "k \<notin> fst ` set (expired_events limit now st)"
      proof
        assume "k \<in> fst ` set (expired_events limit now st)"
        then obtain e' where e': "(k, e') \<in> set (expired_events limit now st)" by auto
        note row = all_expired_rows[OF e' 1(1)]
        have "map_of (trigger_events st) k = Some e'"
          using row assms(1) by (auto simp: trigger_store_wf_def intro: map_of_is_SomeI)
        then show False using row assms(2) live by simp
      qed
      then show ?thesis
        using assms(2) 1(5) map_of_filter_keys[of "\<lambda>k. k \<notin> fst ` set (expired_events limit now st)" "trigger_events st"]
        by simp
    qed
    then show ?thesis using Top_Sweep Inr by simp
  qed (use Top_Sweep assms in simp)
qed

lemma run_trigger_ops_keep:
  assumes "trigger_store_wf st" "map_of (trigger_events st) k = Some e"
    "date_parse (te_expires_at e) = Some expiry" "sweeps_before expiry ops"
  shows "map_of (trigger_events (run_trigger_ops ops st)) k = Some e"
proof (rule arrivals.steps_keep[where ok = "\<lambda>op. sweeps_before expiry [op]"])
  show "list_all (\<lambda>op. sweeps_before expiry [op]) ops"
    using assms(4) by (simp add: sweeps_before_def)
qed (use assms run_trigger_op_keeps in auto)

lemma append_event_records:
  assumes "append_event p inp st = Inr (st1, e)"
  shows "map_of (trigger_events st1) (te_arrival inp) = Some e \<and>
    stored_trigger_event p m inp = Inr (e\<lparr>te_sequence := m\<rparr>) \<and>
    date_parse (te_expires_at e) = date_parse (te_expires_at inp)"
  using assms
proof (cases rule: append_event_Inr)
  case (old c)
  note c = stored_trigger_event_Inr(4,6)[OF old(1)]
  have "e\<lparr>te_sequence := m\<rparr> = c\<lparr>te_sequence := m\<rparr>" by (subst old(4)) simp
  moreover have "te_expires_at e = te_expires_at c" by (subst old(4)) simp
  ultimately show ?thesis using c(1) c(2)[of m] old(2,3) by simp
next
  case new
  show ?thesis using stored_trigger_event_Inr(4)[OF new(1)] stored_trigger_event_Inr(6)[OF new(1), of m] new(3) by simp
qed

lemma append_event_replay:
  assumes "map_of (trigger_events st) (te_arrival inp) = Some e"
    "\<And>m. stored_trigger_event p m inp = Inr (e\<lparr>te_sequence := m\<rparr>)"
  shows "append_event p inp st = Inr (st, e)"
  using assms stored_trigger_event_Inr(1)[OF assms(2)] by (simp add: append_event_def)

text \<open>C23:
  An arrival is recorded once. After an append has returned \<open>e\<close> in some reachable state, whatever further
  appends happened since and whatever sweeps ran before the arrival's expiry, the same append again
  changes nothing and returns the same record, with the same sequence number; and any other append that
  uses the same arrival identifier either fails or returns that record without writing.
\<close>

theorem arrival_is_recorded_once:
  assumes "append_event p inp (run_trigger_ops before empty_trigger_event_store) = Inr (st1, e)"
    and "date_parse (te_expires_at inp) = Some expiry" and "sweeps_before expiry ops"
  shows "append_event p inp (run_trigger_ops ops st1) = Inr (run_trigger_ops ops st1, e) \<and>
    (\<forall>p' inp' st2 e'. te_arrival inp' = te_arrival inp \<longrightarrow>
       append_event p' inp' (run_trigger_ops ops st1) = Inr (st2, e') \<longrightarrow>
       st2 = run_trigger_ops ops st1 \<and> e' = e)"
proof -
  have "st1 = run_trigger_op (Top_Append p inp) (run_trigger_ops before empty_trigger_event_store)"
    using assms(1) by simp
  then have wf: "trigger_store_wf st1"
    by (simp only: arrivals.step_after empty_trigger_store_wf)
  note recorded = append_event_records[OF assms(1)]
  have row: "map_of (trigger_events (run_trigger_ops ops st1)) (te_arrival inp) = Some e"
    using run_trigger_ops_keep[OF wf _ _ assms(3)] recorded assms(2) by auto
  have "st2 = run_trigger_ops ops st1 \<and> e' = e"
    if "te_arrival inp' = te_arrival inp" "append_event p' inp' (run_trigger_ops ops st1) = Inr (st2, e')"
    for p' inp' st2 e'
    using that(2) by (cases rule: append_event_Inr) (use that(1) row in simp_all)
  then show ?thesis
    using append_event_replay[OF row] recorded by blast
qed

definition demo_arrival :: "string \<Rightarrow> int \<Rightarrow> append_trigger_event" where
  "demo_arrival key expiry = \<lparr>te_arrival = ''trgevt_'' @ key, te_event = ''evt'', te_subscription = ''trgsub_a'',
     te_trigger = ''mail.message_received'', te_mode = ''push'', te_received_at = Iso 1, te_occurred_at = Iso 1,
     te_dedup = ''accepted'', te_admission = ''admitted'', te_endpoints = [], te_expires_at = Iso expiry\<rparr>"

definition demo_arrivals :: trigger_event_store where
  "demo_arrivals = run_trigger_ops [Top_Append ''p'' (demo_arrival ''a'' 30), Top_Append ''p'' (demo_arrival ''b'' 20),
     Top_Append ''p'' (demo_arrival ''c'' 90)] empty_trigger_event_store"

lemma arrival_is_recorded_once_witness:
  "\<exists>st1 e. append_event ''p'' (demo_arrival ''d'' 50) demo_arrivals = Inr (st1, e) \<and>
     (let st = run_trigger_ops [Top_Sweep 5 (Iso 40), Top_Append ''p'' (demo_arrival ''f'' 60)] st1 in
      append_event ''p'' (demo_arrival ''d'' 50) st = Inr (st, e) \<and> length (trigger_events st) = 3)"
proof -
  let ?ops = "[Top_Sweep 5 (Iso 40), Top_Append ''p'' (demo_arrival ''f'' 60)]"
  obtain st1 e where run: "append_event ''p'' (demo_arrival ''d'' 50) demo_arrivals = Inr (st1, e)"
    and three: "length (trigger_events (run_trigger_ops ?ops st1)) = 3"
  proof -
    have "case append_event ''p'' (demo_arrival ''d'' 50) demo_arrivals of Inl x \<Rightarrow> False
          | Inr (st1, e) \<Rightarrow> length (trigger_events (run_trigger_ops ?ops st1)) = 3" by code_simp
    then show thesis using that by (auto split: sum.splits prod.splits)
  qed
  have expiry: "date_parse (te_expires_at (demo_arrival ''d'' 50)) = Some 50" and sweeps: "sweeps_before 50 ?ops"
    by code_simp+
  note again = arrival_is_recorded_once[OF run[unfolded demo_arrivals_def] expiry sweeps]
  show ?thesis
    unfolding Let_def using run three conjunct1[OF again] by blast
qed

subsection \<open>The sweep is bounded and removes the earliest expired arrivals\<close>

lemma all_expired_distinct: "trigger_store_wf st \<Longrightarrow> distinct (map fst (all_expired now st))"
  by (simp add: all_expired_def trigger_store_wf_def distinct_map inj_on_def)

lemma length_filter_keys:
  assumes "distinct_keys m" "ks \<subseteq> set (map fst m)"
  shows "length (filter (\<lambda>x. fst x \<notin> ks) m) + card ks = length m"
proof -
  have "fst ` {x \<in> set m. fst x \<in> ks} = ks" using assms(2) by auto
  moreover have "inj_on fst {x \<in> set m. fst x \<in> ks}"
    by (rule inj_on_subset[of fst "set m"]) (use assms(1) in \<open>auto simp: distinct_map\<close>)
  ultimately have "card ks = card {x \<in> set m. fst x \<in> ks}" by (metis card_image)
  also have "\<dots> = length (filter (\<lambda>x. fst x \<in> ks) m)"
    using assms(1) distinct_card[of "filter (\<lambda>x. fst x \<in> ks) m"] by (simp add: distinct_map)
  finally show ?thesis using sum_length_filter_compl[of "\<lambda>x. fst x \<in> ks" m] by simp
qed

lemma swept_keys:
  assumes "trigger_store_wf st" "sweep_expired limit now st = Inr (st', n)"
  defines "ks \<equiv> fst ` set (expired_events limit now st)"
  shows "map_of (trigger_events st') k = (if k \<in> ks then None else map_of (trigger_events st) k)"
    "length (trigger_events st') + n = length (trigger_events st)"
proof -
  from assms(2) have limit: "1 \<le> limit" and n: "n = length (expired_events limit now st)"
    and rows: "trigger_events st' = filter (\<lambda>x. fst x \<notin> ks) (trigger_events st)"
    by (auto elim!: sweep_expired_Inr simp: ks_def)
  show "map_of (trigger_events st') k = (if k \<in> ks then None else map_of (trigger_events st) k)"
    using rows map_of_filter_keys[of "\<lambda>k. k \<notin> ks" "trigger_events st"] by simp
  have "distinct (map fst (expired_events limit now st))"
    using all_expired_distinct[OF assms(1)] limit by (simp add: expired_events_take take_map[symmetric])
  from distinct_card[OF this] have card: "card ks = n" by (simp add: ks_def n)
  have "ks \<subseteq> set (map fst (trigger_events st))"
    using all_expired_rows limit by (fastforce simp: ks_def)
  then show "length (trigger_events st') + n = length (trigger_events st)"
    using length_filter_keys assms(1) card rows by (fastforce simp: trigger_store_wf_def)
qed

text \<open>The rows taken by the sweep against the expired rows that it leaves.\<close>

lemma swept_are_earliest:
  assumes "trigger_store_wf st" "1 \<le> limit"
    and "map_of (trigger_events st) k' = Some e'" "expired_at now e'"
    and "k' \<notin> fst ` set (expired_events limit now st)"
  shows "int (length (expired_events limit now st)) = limit \<and>
    (\<forall>x \<in> set (expired_events limit now st). expiry_key (snd x) \<le> expiry_key e')"
proof -
  have row: "(k', e') \<in> set (all_expired now st)"
    using assms(3,4) by (auto simp: all_expired_set dest: map_of_SomeD)
  have left: "(k', e') \<notin> set (take (nat limit) (all_expired now st))"
    using assms(2,5) by (force simp: expired_events_take)
  have "sorted (map (\<lambda>x. expiry_key (snd x)) (all_expired now st))"
    unfolding all_expired_def by (rule sorted_sort_key)
  from take_sorted_minimal[OF this row left] show ?thesis
    using assms(2) by (simp add: expired_events_take)
qed

text \<open>C27:
  The sweep is bounded and fair. A successful sweep of a reachable store deletes at most \<open>limit\<close> arrivals,
  leaves every other arrival as it was, deletes only arrivals that have expired by \<open>now\<close>, and deletes
  them in the order of their expiry (then of their number): no expired arrival that it leaves comes before
  one that it deleted. If it leaves an expired arrival, it has deleted exactly \<open>limit\<close>.
\<close>

theorem sweep_removes_only_expired:
  assumes "sweep_expired limit now (run_trigger_ops ops empty_trigger_event_store) = Inr (st', n)"
  defines "st \<equiv> run_trigger_ops ops empty_trigger_event_store"
  shows "int n \<le> limit \<and> length (trigger_events st') + n = length (trigger_events st) \<and>
    (\<forall>k e. map_of (trigger_events st') k = Some e \<longrightarrow> map_of (trigger_events st) k = Some e) \<and>
    (\<forall>k e. map_of (trigger_events st) k = Some e \<and> map_of (trigger_events st') k = None \<longrightarrow>
       expired_at now e \<and>
       (\<forall>k' e'. map_of (trigger_events st') k' = Some e' \<and> expired_at now e' \<longrightarrow> expiry_key e \<le> expiry_key e')) \<and>
    ((\<exists>k e. map_of (trigger_events st') k = Some e \<and> expired_at now e) \<longrightarrow> int n = limit)"
proof -
  have wf: "trigger_store_wf st" by (simp add: st_def arrivals.steps_inv)
  have run: "sweep_expired limit now st = Inr (st', n)" using assms by simp
  from run have limit: "1 \<le> limit" and n: "n = length (expired_events limit now st)"
    by (auto elim!: sweep_expired_Inr)
  note keys = swept_keys[OF wf run]
  have deleted: "\<exists>x \<in> set (expired_events limit now st). snd x = e \<and> expired_at now e"
    if "map_of (trigger_events st) k = Some e" "k \<in> fst ` set (expired_events limit now st)" for k e
  proof -
    from that(2) obtain x where x: "x \<in> set (expired_events limit now st)" "k = fst x" by auto
    note row = all_expired_rows[OF x(1) limit]
    have "map_of (trigger_events st) k = Some (snd x)"
      using row wf x(2) by (auto simp: trigger_store_wf_def intro: map_of_is_SomeI)
    then show ?thesis using that(1) x(1) row by auto
  qed
  let ?left = "\<lambda>k e. map_of (trigger_events st') k = Some e"
  have kept: "map_of (trigger_events st) k = Some e \<and> k \<notin> fst ` set (expired_events limit now st)" if "?left k e" for k e
    using that keys(1)[of k] by (simp split: if_splits)
  have lost: "k \<in> fst ` set (expired_events limit now st)"
    if "map_of (trigger_events st) k = Some e" "map_of (trigger_events st') k = None" for k e
    using that keys(1)[of k] by (simp split: if_splits)
  have earliest: "int n = limit \<and> (\<forall>x \<in> set (expired_events limit now st). expiry_key (snd x) \<le> expiry_key e)"
    if "?left k e" "expired_at now e" for k e
    unfolding n using swept_are_earliest[OF wf limit conjunct1[OF kept] that(2) conjunct2[OF kept]] that(1) by blast
  have "int n \<le> limit" using limit n by (simp add: expired_events_take)
  moreover have "expired_at now e \<and> (\<forall>k' e'. ?left k' e' \<and> expired_at now e' \<longrightarrow> expiry_key e \<le> expiry_key e')"
    if "map_of (trigger_events st) k = Some e" "map_of (trigger_events st') k = None" for k e
    using deleted[OF that(1) lost[OF that]] earliest by blast
  ultimately show ?thesis
    using keys(2) kept earliest by blast
qed

lemma sweep_removes_only_expired_witness:
  "\<exists>st'. sweep_expired 1 (Iso 40) demo_arrivals = Inr (st', 1) \<and>
     map fst (trigger_events st') = [''trgevt_a'', ''trgevt_c''] \<and>
     length (trigger_events st') + 1 = length (trigger_events demo_arrivals)"
proof -
  obtain st' where run: "sweep_expired 1 (Iso 40) demo_arrivals = Inr (st', 1)"
    and left: "map fst (trigger_events st') = [''trgevt_a'', ''trgevt_c'']"
  proof -
    have "case sweep_expired 1 (Iso 40) demo_arrivals of Inl x \<Rightarrow> False
          | Inr (st', n) \<Rightarrow> n = 1 \<and> map fst (trigger_events st') = [''trgevt_a'', ''trgevt_c'']" by code_simp
    then show thesis using that by (auto split: sum.splits prod.splits)
  qed
  have "length (trigger_events st') + 1 = length (trigger_events demo_arrivals)"
    using sweep_removes_only_expired[OF run[unfolded demo_arrivals_def], folded demo_arrivals_def] by (elim conjE)
  then show ?thesis using run left by auto
qed

end
