(* ===== verification/Trigger_State.thy ===== *)
theory Trigger_State
  imports History
begin

text \<open>
  The polling and deduplication state of triggers
  (\<open>InMemoryTriggerStateStore\<close> of \<open>apps/executor/src/triggers/state-store.ts\<close>): cursors per
  subscription and the claims on provider events, each with its expiry. The main result is that a provider
  event is claimed once per retention window.
\<close>

subsection \<open>Data\<close>

record trigger_state =
  ts_subscription :: string
  ts_cursor :: "string option"
  ts_next_poll_at :: "timestamp option"
  ts_updated_at :: timestamp

record trigger_state_store =
  trigger_states :: "(string \<times> trigger_state) list"
  trigger_claims :: "(string \<times> (string \<times> int) list) list"

definition empty_trigger_states :: trigger_state_store where
  "empty_trigger_states = \<lparr>trigger_states = [], trigger_claims = []\<rparr>"

subsection \<open>Operations\<close>

definition valid_trigger_timestamp :: "timestamp \<Rightarrow> string \<Rightarrow> int result" where
  "valid_trigger_timestamp value field = (case date_parse value of
     None \<Rightarrow> Inl (Plain_Error (field @ '' must be a valid timestamp.''))
   | Some ms \<Rightarrow> Inr ms)"

definition get_trigger_state :: "string \<Rightarrow> trigger_state_store \<Rightarrow> trigger_state option" where
  "get_trigger_state sub st = map_of (trigger_states st) sub"

definition put_trigger_state :: "trigger_state \<Rightarrow> trigger_state_store \<Rightarrow> trigger_state_store result" where
  "put_trigger_state s st =
     bind_result (valid_trigger_timestamp (ts_updated_at s) ''Trigger state updatedAt'') (\<lambda>_.
     bind_result (case ts_next_poll_at s of
         None \<Rightarrow> Inr 0 | Some t \<Rightarrow> valid_trigger_timestamp t ''Trigger state nextPollAt'') (\<lambda>_.
     Inr (st\<lparr>trigger_states := js_set (ts_subscription s) s (trigger_states st)\<rparr>)))"

definition delete_trigger_state :: "string \<Rightarrow> trigger_state_store \<Rightarrow> trigger_state_store" where
  "delete_trigger_state sub st =
     \<lparr>trigger_states = js_delete sub (trigger_states st), trigger_claims = js_delete sub (trigger_claims st)\<rparr>"

definition live_claims :: "int \<Rightarrow> (string \<times> int) list \<Rightarrow> (string \<times> int) list" where
  "live_claims now_ms claims = filter (\<lambda>(k, expiry). \<not> expiry \<le> now_ms) claims"

text \<open>\<open>this.#claims.get(subscriptionId) ?? new Map()\<close>.\<close>

definition claims_of :: "trigger_state_store \<Rightarrow> string \<Rightarrow> (string \<times> int) list" where
  "claims_of st sub = (case map_of (trigger_claims st) sub of None \<Rightarrow> [] | Some c \<Rightarrow> c)"

definition claim_provider_event ::
    "string \<Rightarrow> string \<Rightarrow> timestamp \<Rightarrow> timestamp \<Rightarrow> trigger_state_store \<Rightarrow> (trigger_state_store \<times> bool) result" where
  "claim_provider_event sub ev now expires_at st =
     (if ev = [] then Inl (Plain_Error ''Provider event ID must not be empty.'')
      else
        bind_result (valid_trigger_timestamp now ''Dedup claim now'') (\<lambda>now_ms.
        bind_result (valid_trigger_timestamp expires_at ''Dedup claim expiresAt'') (\<lambda>expires_at_ms.
          if expires_at_ms \<le> now_ms then Inl (Plain_Error ''Dedup claim expiry must be later than now.'')
          else
            let claims = live_claims now_ms (claims_of st sub);
                existing = map_of claims ev in
            if existing \<noteq> None \<and> now_ms < the existing
            then Inr (st\<lparr>trigger_claims := js_set sub claims (trigger_claims st)\<rparr>, False)
            else Inr (st\<lparr>trigger_claims := js_set sub (js_set ev expires_at_ms claims) (trigger_claims st)\<rparr>, True))))"

subsection \<open>Histories\<close>

datatype state_op =
    Sop_Put trigger_state
  | Sop_Delete string
  | Sop_Claim string string timestamp timestamp

fun run_state_op :: "state_op \<Rightarrow> trigger_state_store \<Rightarrow> trigger_state_store" where
  "run_state_op (Sop_Put s) st = (case put_trigger_state s st of Inl e \<Rightarrow> st | Inr st' \<Rightarrow> st')"
| "run_state_op (Sop_Delete sub) st = delete_trigger_state sub st"
| "run_state_op (Sop_Claim sub ev now expires_at) st =
     (case claim_provider_event sub ev now expires_at st of Inl e \<Rightarrow> st | Inr x \<Rightarrow> fst x)"

fun run_state_ops :: "state_op list \<Rightarrow> trigger_state_store \<Rightarrow> trigger_state_store" where
  "run_state_ops [] st = st"
| "run_state_ops (op # ops) st = run_state_ops ops (run_state_op op st)"

text \<open>The claim on an event that is still alive at an instant.\<close>

definition live_claim :: "trigger_state_store \<Rightarrow> string \<Rightarrow> string \<Rightarrow> int \<Rightarrow> bool" where
  "live_claim st sub ev now_ms \<longleftrightarrow> (\<exists>expiry. map_of (claims_of st sub) ev = Some expiry \<and> now_ms < expiry)"

lemma valid_trigger_timestamp_Inr [simp]:
  "valid_trigger_timestamp t f = Inr ms \<longleftrightarrow> date_parse t = Some ms"
  by (auto simp: valid_trigger_timestamp_def split: option.splits)

lemma map_of_live_claims:
  "distinct_keys c \<Longrightarrow> map_of (live_claims now_ms c) k =
     (case map_of c k of None \<Rightarrow> None | Some x \<Rightarrow> if x \<le> now_ms then None else Some x)"
proof (induction c)
  case (Cons a c)
  then show ?case by (cases a) (auto simp: live_claims_def map_of_eq_None_iff split: option.splits)
qed (simp add: live_claims_def)

lemma distinct_live_claims: "distinct_keys c \<Longrightarrow> distinct_keys (live_claims now_ms c)"
  by (simp add: live_claims_def distinct_map inj_on_def)

text \<open>What a claim does, in terms of the claims of each subscription.\<close>

lemma claim_provider_event_Inr:
  assumes "claim_provider_event sub ev now expires_at st = Inr (st', won)"
    and "distinct_keys (claims_of st sub)"
  obtains now_ms expiry where "date_parse now = Some now_ms" "date_parse expires_at = Some expiry" "now_ms < expiry"
    "won = (\<not> live_claim st sub ev now_ms)"
    "\<And>s. claims_of st' s = (if s = sub
        then (if won then js_set ev expiry (live_claims now_ms (claims_of st sub))
              else live_claims now_ms (claims_of st sub))
        else claims_of st s)"
proof -
  obtain now_ms expiry where t: "date_parse now = Some now_ms" "date_parse expires_at = Some expiry" "now_ms < expiry"
    and ev: "ev \<noteq> []"
    using assms(1) by (auto simp: claim_provider_event_def bind_result_Inr_iff split: if_splits)
  let ?live = "live_claims now_ms (claims_of st sub)"
  have alive: "live_claim st sub ev now_ms \<longleftrightarrow> map_of ?live ev \<noteq> None \<and> now_ms < the (map_of ?live ev)"
    by (auto simp: live_claim_def map_of_live_claims[OF assms(2)] split: option.splits)
  have "Inr (st', won) = (if live_claim st sub ev now_ms
      then Inr (st\<lparr>trigger_claims := js_set sub ?live (trigger_claims st)\<rparr>, False)
      else Inr (st\<lparr>trigger_claims := js_set sub (js_set ev expiry ?live) (trigger_claims st)\<rparr>, True) :: (trigger_state_store \<times> bool) result)"
    using assms(1) t ev unfolding alive by (simp add: claim_provider_event_def valid_trigger_timestamp_def Let_def)
  then have "won = (\<not> live_claim st sub ev now_ms)"
    "\<And>s. claims_of st' s = (if s = sub then (if won then js_set ev expiry ?live else ?live) else claims_of st s)"
    by (auto simp: claims_of_def split: if_splits)
  then show thesis using that t by blast
qed

definition claims_wf :: "trigger_state_store \<Rightarrow> bool" where
  "claims_wf st \<longleftrightarrow> distinct_keys (trigger_claims st) \<and> (\<forall>sub. distinct_keys (claims_of st sub))"

lemma claims_wf_keys: "claims_wf st \<Longrightarrow> distinct_keys (claims_of st sub)"
  by (simp add: claims_wf_def)

lemma put_keeps_claims: "put_trigger_state s st = Inr st' \<Longrightarrow> trigger_claims st' = trigger_claims st"
  by (auto simp: put_trigger_state_def bind_result_Inr_iff)

lemma run_state_op_claims_wf:
  assumes "claims_wf st"
  shows "claims_wf (run_state_op op st)"
proof (cases op)
  case (Sop_Put s)
  then show ?thesis
    using assms by (auto simp: claims_wf_def claims_of_def put_keeps_claims split: sum.splits)
next
  case (Sop_Delete sub)
  then show ?thesis
    using assms by (auto simp: claims_wf_def claims_of_def delete_trigger_state_def split: option.splits)
next
  case (Sop_Claim sub ev now expires_at)
  show ?thesis
  proof (cases "claim_provider_event sub ev now expires_at st")
    case (Inr x)
    then have run: "claim_provider_event sub ev now expires_at st = Inr (fst x, snd x)" by simp
    then have "distinct_keys (claims_of (fst x) s)" for s
      by (cases rule: claim_provider_event_Inr)
        (use assms in \<open>simp_all add: claims_wf_def distinct_live_claims\<close>)
    moreover have "distinct_keys (trigger_claims (fst x))"
      using run assms
      by (auto simp: claim_provider_event_def bind_result_Inr_iff Let_def claims_wf_def split: if_splits)
    ultimately show ?thesis using Sop_Claim Inr by (simp add: claims_wf_def)
  qed (use Sop_Claim assms in simp)
qed

interpretation claims: call_history claims_wf run_state_op run_state_ops
  by unfold_locales (simp_all add: run_state_op_claims_wf)

lemma empty_claims_wf [simp]: "claims_wf empty_trigger_states"
  by (simp add: claims_wf_def claims_of_def empty_trigger_states_def)

text \<open>
  Calls inside a claim's window: the subscription is not deleted, and every claim on one of its events
  reads a clock before the expiry.
\<close>

fun op_in_window :: "string \<Rightarrow> int \<Rightarrow> state_op \<Rightarrow> bool" where
  "op_in_window sub expiry (Sop_Put s) = True"
| "op_in_window sub expiry (Sop_Delete s) = (s \<noteq> sub)"
| "op_in_window sub expiry (Sop_Claim s ev now e) = (s = sub \<longrightarrow> num_less (date_parse now) (Some expiry))"

lemma run_state_op_keeps_claim:
  assumes "claims_wf st" "map_of (claims_of st sub) ev = Some expiry" "op_in_window sub expiry op"
  shows "map_of (claims_of (run_state_op op st) sub) ev = Some expiry"
proof (cases op)
  case (Sop_Put s)
  then show ?thesis using assms(2) by (auto simp: claims_of_def put_keeps_claims split: sum.splits)
next
  case (Sop_Delete s)
  then show ?thesis using assms(2,3) by (simp add: claims_of_def delete_trigger_state_def)
next
  case (Sop_Claim s e now expires_at)
  show ?thesis
  proof (cases "claim_provider_event s e now expires_at st")
    case (Inr x)
    then have "claim_provider_event s e now expires_at st = Inr (fst x, snd x)" by simp
    from this claims_wf_keys[OF assms(1)] have "map_of (claims_of (fst x) sub) ev = Some expiry"
    proof (cases rule: claim_provider_event_Inr)
      case (1 now_ms e')
      have "now_ms < expiry" if "s = sub" using assms(3) Sop_Claim 1(1) that by simp
      then show ?thesis
        using 1(4,5) assms(2) map_of_live_claims[OF claims_wf_keys[OF assms(1)], of now_ms sub ev]
        by (auto simp: live_claim_def)
    qed
    then show ?thesis using Sop_Claim Inr by simp
  qed (use Sop_Claim assms in simp)
qed

lemma run_state_ops_keep_claim:
  "claims_wf st \<Longrightarrow> map_of (claims_of st sub) ev = Some expiry \<Longrightarrow> list_all (op_in_window sub expiry) ops \<Longrightarrow>
   map_of (claims_of (run_state_ops ops st) sub) ev = Some expiry"
  by (rule claims.steps_keep[where ok = "op_in_window sub expiry"]) (simp_all add: run_state_op_keeps_claim)

subsection \<open>A provider event is claimed once\<close>

text \<open>C28:
  A provider event is claimed once per retention window. After a claim on an event of a subscription has
  succeeded in a reachable store, whatever happens inside its window (claims on any event, polls of any
  subscription, deletions of other subscriptions), a later valid claim on the same event succeeds exactly
  when its clock has reached the expiry of the first.
\<close>

theorem provider_event_claimed_once:
  assumes "claim_provider_event sub ev now expires_at (run_state_ops before empty_trigger_states) = Inr (st1, True)"
    and "date_parse expires_at = Some expiry" and "list_all (op_in_window sub expiry) ops"
    and "date_parse now' = Some now_ms" and "date_parse expires_at' = Some expiry'" and "now_ms < expiry'"
  shows "\<exists>st2. claim_provider_event sub ev now' expires_at' (run_state_ops ops st1) = Inr (st2, expiry \<le> now_ms)"
proof -
  let ?st = "run_state_ops before empty_trigger_states" and ?st2 = "run_state_ops ops st1"
  have wf: "claims_wf ?st" by (simp add: claims.steps_inv)
  have "st1 = run_state_op (Sop_Claim sub ev now expires_at) ?st" using assms(1) by simp
  then have wf1: "claims_wf st1" using wf by (simp only: run_state_op_claims_wf)
  have "map_of (claims_of st1 sub) ev = Some expiry"
    using assms(1) by (cases rule: claim_provider_event_Inr) (use assms(2) wf in \<open>simp_all add: claims_wf_keys\<close>)
  then have "map_of (claims_of ?st2 sub) ev = Some expiry"
    by (rule run_state_ops_keep_claim[OF wf1 _ assms(3)])
  then have alive: "live_claim ?st2 sub ev now_ms \<longleftrightarrow> \<not> expiry \<le> now_ms"
    by (auto simp: live_claim_def)
  have "ev \<noteq> []" using assms(1) by (auto simp: claim_provider_event_def)
  then have "\<exists>r. claim_provider_event sub ev now' expires_at' ?st2 = Inr r"
    using assms(4-6) by (auto simp add: claim_provider_event_def Let_def valid_trigger_timestamp_def intro: exI[of _ True] exI[of _ False])
  then obtain st2 won where run: "claim_provider_event sub ev now' expires_at' ?st2 = Inr (st2, won)"
    by auto
  have "claims_wf ?st2" using wf1 by (rule claims.steps_inv)
  note distinct = claims_wf_keys[OF this]
  from run distinct have "won = (\<not> live_claim ?st2 sub ev now_ms)"
    by (cases rule: claim_provider_event_Inr) (use assms(4) in auto)
  then show ?thesis using run alive by auto
qed

lemma provider_event_claimed_once_witness:
  "\<exists>st1 st2 st3.
     claim_provider_event ''s'' ''e'' (Iso 0) (Iso 50) empty_trigger_states = Inr (st1, True) \<and>
     (let st = run_state_ops [Sop_Claim ''s'' ''f'' (Iso 30) (Iso 60), Sop_Delete ''t'', Sop_Claim ''s'' ''e'' (Iso 40) (Iso 90)] st1 in
      claim_provider_event ''s'' ''e'' (Iso 49) (Iso 99) st = Inr (st2, False) \<and>
      claim_provider_event ''s'' ''e'' (Iso 50) (Iso 100) st = Inr (st3, True))"
proof -
  let ?ops = "[Sop_Claim ''s'' ''f'' (Iso 30) (Iso 60), Sop_Delete ''t'', Sop_Claim ''s'' ''e'' (Iso 40) (Iso 90)]"
  obtain st1 where run: "claim_provider_event ''s'' ''e'' (Iso 0) (Iso 50) (run_state_ops [] empty_trigger_states) = Inr (st1, True)"
    by (auto simp: claim_provider_event_def valid_trigger_timestamp_def Let_def claims_of_def
        empty_trigger_states_def live_claims_def)
  have window: "list_all (op_in_window ''s'' 50) ?ops" by simp
  note once = provider_event_claimed_once[OF run _ window]
  have "\<exists>st2. claim_provider_event ''s'' ''e'' (Iso 49) (Iso 99) (run_state_ops ?ops st1) = Inr (st2, False)"
    using once[of "Iso 49" 49 "Iso 99" 99] by simp
  moreover have "\<exists>st3. claim_provider_event ''s'' ''e'' (Iso 50) (Iso 100) (run_state_ops ?ops st1) = Inr (st3, True)"
    using once[of "Iso 50" 50 "Iso 100" 100] by simp
  ultimately show ?thesis unfolding Let_def using run by (simp only: run_state_ops.simps(1)) blast
qed

end
