(* ===== verification/Trigger_Subscriptions.thy ===== *)
theory Trigger_Subscriptions
  imports Pagination
begin

text \<open>
  The registry of trigger subscriptions (\<open>InMemoryTriggerSubscriptionStore\<close> of
  \<open>apps/executor/src/triggers/subscription-store.ts\<close>), which keeps two indexes of the same rows: a map
  per project and a map over all identifiers. The main result is that the two indexes together behave as
  one table of subscriptions.
\<close>

subsection \<open>Data\<close>

datatype subscription_status = Subscription_Active | Subscription_Paused

record trigger_subscription =
  tsub_id :: string
  tsub_project :: string
  tsub_user :: string
  tsub_trigger :: string
  tsub_connection :: "string option"
  tsub_endpoint_ids :: "string list"
  tsub_filters :: "json option"
  tsub_poll_interval :: "int option"
  tsub_status :: subscription_status
  tsub_created_at :: timestamp
  tsub_updated_at :: timestamp

record stored_subscription = trigger_subscription +
  tsub_secret_hash :: "string option"

record subscription_store =
  sub_projects :: "(string \<times> (string \<times> stored_subscription) list) list"
  sub_by_id :: "(string \<times> stored_subscription) list"

definition empty_subscription_store :: subscription_store where
  "empty_subscription_store = \<lparr>sub_projects = [], sub_by_id = []\<rparr>"

definition subscription_store_error :: "string \<Rightarrow> js_error" where
  "subscription_store_error = Named_Error ''TriggerSubscriptionStoreError''"

definition invalid_subscription_cursor :: js_error where
  "invalid_subscription_cursor =
     Named_Error ''InvalidTriggerSubscriptionCursorError'' ''Trigger subscription cursor is invalid.''"

definition public_subscription :: "stored_subscription \<Rightarrow> trigger_subscription" where
  "public_subscription s = trigger_subscription.truncate s"

definition validate_subscription_list :: "int \<Rightarrow> unit result" where
  "validate_subscription_list limit =
     (if \<not> is_safe_integer limit \<or> limit < 1 \<or> limit > 100
      then Inl (subscription_store_error
        ''Trigger subscription list limit must be an integer from 1 through 100.'')
      else Inr ())"

subsection \<open>Operations\<close>

definition project_subscriptions :: "string \<Rightarrow> subscription_store \<Rightarrow> (string \<times> stored_subscription) list" where
  "project_subscriptions p st = (case map_of (sub_projects st) p of None \<Rightarrow> [] | Some m \<Rightarrow> m)"

definition create_subscription ::
    "stored_subscription \<Rightarrow> subscription_store \<Rightarrow> (subscription_store \<times> trigger_subscription) result" where
  "create_subscription s st =
     (if map_of (sub_by_id st) (tsub_id s) \<noteq> None
      then Inl (Plain_Error (''Duplicate trigger subscription ID: '' @ tsub_id s))
      else Inr (\<lparr>sub_projects = js_set (tsub_project s)
                    (js_set (tsub_id s) s (project_subscriptions (tsub_project s) st)) (sub_projects st),
                 sub_by_id = js_set (tsub_id s) s (sub_by_id st)\<rparr>,
                public_subscription s))"

definition get_subscription :: "string \<Rightarrow> string \<Rightarrow> subscription_store \<Rightarrow> trigger_subscription option" where
  "get_subscription p i st =
     map_option public_subscription (Option.bind (map_of (sub_projects st) p) (\<lambda>m. map_of m i))"

definition get_internal :: "string \<Rightarrow> subscription_store \<Rightarrow> stored_subscription option" where
  "get_internal i st = map_of (sub_by_id st) i"

definition subscription_rows :: "string \<Rightarrow> string option \<Rightarrow> subscription_store \<Rightarrow> stored_subscription list" where
  "subscription_rows p user st =
     rev (filter (\<lambda>s. user = None \<or> Some (tsub_user s) = user) (js_values (project_subscriptions p st)))"

definition list_subscriptions ::
    "string \<Rightarrow> cursor option \<Rightarrow> int \<Rightarrow> string option \<Rightarrow> subscription_store \<Rightarrow>
     (trigger_subscription list \<times> cursor option) result" where
  "list_subscriptions p cur limit user st =
     bind_result (validate_subscription_list limit) (\<lambda>_.
     bind_result (cursor_page tsub_id invalid_subscription_cursor (subscription_rows p user st) cur limit)
       (\<lambda>(rows, nxt). Inr (map public_subscription rows, nxt)))"

definition list_active :: "subscription_store \<Rightarrow> stored_subscription list" where
  "list_active st = filter (\<lambda>s. tsub_status s = Subscription_Active) (js_values (sub_by_id st))"

definition rotate_ingest_secret ::
    "string \<Rightarrow> string \<Rightarrow> string \<Rightarrow> timestamp \<Rightarrow> subscription_store \<Rightarrow>
     subscription_store \<times> trigger_subscription option" where
  "rotate_ingest_secret p i hash now st =
     (case map_of (sub_projects st) p of
        None \<Rightarrow> (st, None)
      | Some m \<Rightarrow>
          (case map_of m i of
             None \<Rightarrow> (st, None)
           | Some current \<Rightarrow>
               if tsub_secret_hash current = None then (st, None)
               else
                 let rotated = current\<lparr>tsub_secret_hash := Some hash, tsub_updated_at := now\<rparr> in
                 (\<lparr>sub_projects = js_set p (js_set i rotated m) (sub_projects st),
                   sub_by_id = js_set i rotated (sub_by_id st)\<rparr>, Some (public_subscription rotated))))"

definition delete_subscription :: "string \<Rightarrow> string \<Rightarrow> subscription_store \<Rightarrow> subscription_store \<times> bool" where
  "delete_subscription p i st =
     (case map_of (sub_projects st) p of
        None \<Rightarrow> (st, False)
      | Some m \<Rightarrow>
          if map_of m i = None then (st, False)
          else
            let rest = js_delete i m in
            (\<lparr>sub_projects = (if rest = [] then js_delete p (sub_projects st) else js_set p rest (sub_projects st)),
              sub_by_id = js_delete i (sub_by_id st)\<rparr>, True))"

subsection \<open>Calls and replies\<close>

datatype sub_op =
    Sub_Create stored_subscription
  | Sub_Get string string
  | Sub_Get_Internal string
  | Sub_List string "cursor option" int "string option"
  | Sub_List_Active
  | Sub_Rotate string string string timestamp
  | Sub_Delete string string

datatype sub_reply =
    Reply_Error js_error
  | Reply_Row "trigger_subscription option"
  | Reply_Internal "stored_subscription option"
  | Reply_Page "trigger_subscription list" "cursor option"
  | Reply_Rows "stored_subscription list"
  | Reply_Flag bool

fun call_sub :: "sub_op \<Rightarrow> subscription_store \<Rightarrow> subscription_store \<times> sub_reply" where
  "call_sub (Sub_Create s) st = (case create_subscription s st of
     Inl e \<Rightarrow> (st, Reply_Error e) | Inr (st', r) \<Rightarrow> (st', Reply_Row (Some r)))"
| "call_sub (Sub_Get p i) st = (st, Reply_Row (get_subscription p i st))"
| "call_sub (Sub_Get_Internal i) st = (st, Reply_Internal (get_internal i st))"
| "call_sub (Sub_List p cur limit user) st = (st, case list_subscriptions p cur limit user st of
     Inl e \<Rightarrow> Reply_Error e | Inr (rows, nxt) \<Rightarrow> Reply_Page rows nxt)"
| "call_sub Sub_List_Active st = (st, Reply_Rows (list_active st))"
| "call_sub (Sub_Rotate p i hash now) st = (case rotate_ingest_secret p i hash now st of
     (st', r) \<Rightarrow> (st', Reply_Row r))"
| "call_sub (Sub_Delete p i) st = (case delete_subscription p i st of (st', b) \<Rightarrow> (st', Reply_Flag b))"

subsection \<open>The specification: one table\<close>

text \<open>
  One table of subscriptions in the order of their creation. A call on a project sees the rows of this
  project and no others.
\<close>

type_synonym sub_table = "stored_subscription list"

definition row_at :: "string \<Rightarrow> string \<Rightarrow> sub_table \<Rightarrow> stored_subscription option" where
  "row_at p i t = find (\<lambda>s. tsub_id s = i \<and> tsub_project s = p) t"

definition replace_row :: "string \<Rightarrow> stored_subscription \<Rightarrow> sub_table \<Rightarrow> sub_table" where
  "replace_row i new t = map (\<lambda>s. if tsub_id s = i then new else s) t"

fun call_table :: "sub_op \<Rightarrow> sub_table \<Rightarrow> sub_table \<times> sub_reply" where
  "call_table (Sub_Create s) t =
     (if tsub_id s \<in> tsub_id ` set t
      then (t, Reply_Error (Plain_Error (''Duplicate trigger subscription ID: '' @ tsub_id s)))
      else (t @ [s], Reply_Row (Some (public_subscription s))))"
| "call_table (Sub_Get p i) t = (t, Reply_Row (map_option public_subscription (row_at p i t)))"
| "call_table (Sub_Get_Internal i) t = (t, Reply_Internal (find (\<lambda>s. tsub_id s = i) t))"
| "call_table (Sub_List p cur limit user) t =
     (t, case bind_result (validate_subscription_list limit) (\<lambda>_. cursor_page tsub_id invalid_subscription_cursor
            (rev (filter (\<lambda>s. tsub_project s = p \<and> (user = None \<or> Some (tsub_user s) = user)) t)) cur limit) of
       Inl e \<Rightarrow> Reply_Error e | Inr (rows, nxt) \<Rightarrow> Reply_Page (map public_subscription rows) nxt)"
| "call_table Sub_List_Active t = (t, Reply_Rows (filter (\<lambda>s. tsub_status s = Subscription_Active) t))"
| "call_table (Sub_Rotate p i hash now) t =
     (case row_at p i t of
        None \<Rightarrow> (t, Reply_Row None)
      | Some s \<Rightarrow>
          if tsub_secret_hash s = None then (t, Reply_Row None)
          else let new = s\<lparr>tsub_secret_hash := Some hash, tsub_updated_at := now\<rparr> in
               (replace_row i new t, Reply_Row (Some (public_subscription new))))"
| "call_table (Sub_Delete p i) t =
     (if row_at p i t = None then (t, Reply_Flag False) else (filter (\<lambda>s. tsub_id s \<noteq> i) t, Reply_Flag True))"

fun replies :: "(sub_op \<Rightarrow> 's \<Rightarrow> 's \<times> sub_reply) \<Rightarrow> sub_op list \<Rightarrow> 's \<Rightarrow> sub_reply list" where
  "replies call [] st = []"
| "replies call (op # ops) st = (case call op st of (st', r) \<Rightarrow> r # replies call ops st')"

subsection \<open>The two indexes as a table\<close>

definition index_of :: "sub_table \<Rightarrow> (string \<times> stored_subscription) list" where
  "index_of t = map (\<lambda>s. (tsub_id s, s)) t"

definition indexes :: "subscription_store \<Rightarrow> sub_table \<Rightarrow> bool" where
  "indexes st t \<longleftrightarrow> sub_by_id st = index_of t \<and> distinct (map tsub_id t) \<and>
     (\<forall>p. project_subscriptions p st = index_of (filter (\<lambda>s. tsub_project s = p) t))"

lemma map_of_index [simp]: "map_of (index_of t) i = find (\<lambda>s. tsub_id s = i) t"
  by (induction t) (auto simp: index_of_def)

lemma find_filter: "find P (filter Q t) = find (\<lambda>s. P s \<and> Q s) t"
  by (induction t) auto

lemma values_index [simp]: "js_values (index_of t) = t"
  by (simp add: index_of_def o_def)

lemma index_Nil [simp]: "index_of t = [] \<longleftrightarrow> t = []"
  by (simp add: index_of_def)

lemma index_new: "tsub_id s \<notin> tsub_id ` set t \<Longrightarrow> js_set (tsub_id s) s (index_of t) = index_of (t @ [s])"
  by (induction t) (auto simp: index_of_def)

lemma index_delete: "js_delete i (index_of t) = index_of (filter (\<lambda>s. tsub_id s \<noteq> i) t)"
  by (induction t) (auto simp: index_of_def AList.delete_eq)

lemma replace_absent: "i \<notin> tsub_id ` set t \<Longrightarrow> replace_row i new t = t"
  by (induction t) (auto simp: replace_row_def)

lemma index_replace:
  "distinct (map tsub_id t) \<Longrightarrow> i \<in> tsub_id ` set t \<Longrightarrow> tsub_id new = i \<Longrightarrow>
   js_set i new (index_of t) = index_of (replace_row i new t)"
proof (induction t)
  case (Cons s t)
  show ?case
  proof (cases "tsub_id s = i")
    case True
    then have "replace_row i new t = t" using Cons.prems(1) by (intro replace_absent) auto
    then show ?thesis using True Cons.prems(3) by (simp add: index_of_def replace_row_def)
  next
    case False
    then have "js_set i new (index_of t) = index_of (replace_row i new t)"
      using Cons.prems by (intro Cons.IH) auto
    then show ?thesis using False by (simp add: index_of_def replace_row_def)
  qed
qed simp

lemma row_at_Some:
  assumes "row_at p i t = Some s"
  shows "s \<in> set t" "tsub_id s = i" "tsub_project s = p"
  using assms by (auto simp: row_at_def find_Some_iff)

lemma same_id: "distinct (map tsub_id t) \<Longrightarrow> s \<in> set t \<Longrightarrow> s' \<in> set t \<Longrightarrow> tsub_id s' = tsub_id s \<Longrightarrow> s' = s"
  by (auto simp: distinct_map dest: inj_onD)

lemma same_project:
  assumes "distinct (map tsub_id t)" "row_at p i t = Some s" "x \<in> set t" "tsub_id x = i"
  shows "tsub_project x = p"
proof -
  note s = row_at_Some[OF assms(2)]
  have "x = s" by (rule same_id[OF assms(1) s(1) assms(3)]) (simp add: assms(4) s(2))
  then show ?thesis using s(3) by simp
qed

lemma indexes_empty: "indexes empty_subscription_store []"
  by (simp add: indexes_def empty_subscription_store_def project_subscriptions_def index_of_def)

lemma indexes_row:
  assumes "indexes st t"
  shows "Option.bind (map_of (sub_projects st) p) (\<lambda>m. map_of m i) = row_at p i t"
proof -
  have "Option.bind (map_of (sub_projects st) p) (\<lambda>m. map_of m i) = map_of (project_subscriptions p st) i"
    by (auto simp: project_subscriptions_def split: option.splits)
  also have "\<dots> = row_at p i t"
    using assms by (simp add: indexes_def row_at_def find_filter)
  finally show ?thesis .
qed

lemma indexes_open:
  assumes "indexes st t" "row_at p i t \<noteq> None"
  shows "map_of (sub_projects st) p = Some (index_of (filter (\<lambda>s. tsub_project s = p) t))"
proof (cases "map_of (sub_projects st) p")
  case None
  then show ?thesis using assms(2) indexes_row[OF assms(1), of p i] by simp
next
  case (Some m)
  then have "project_subscriptions p st = m" by (simp add: project_subscriptions_def)
  then show ?thesis using assms(1) Some by (simp add: indexes_def)
qed

lemma project_subscriptions_set:
  "project_subscriptions p' \<lparr>sub_projects = js_set p m ps, sub_by_id = b\<rparr> =
     (if p' = p then m else project_subscriptions p' \<lparr>sub_projects = ps, sub_by_id = b'\<rparr>)"
  by (simp add: project_subscriptions_def)

lemma project_subscriptions_any:
  "project_subscriptions p' \<lparr>sub_projects = sub_projects st, sub_by_id = b\<rparr> = project_subscriptions p' st"
  by (simp add: project_subscriptions_def)

lemma indexes_create:
  assumes "indexes st t" "tsub_id s \<notin> tsub_id ` set t"
  shows "indexes \<lparr>sub_projects = js_set (tsub_project s)
                    (js_set (tsub_id s) s (project_subscriptions (tsub_project s) st)) (sub_projects st),
                 sub_by_id = js_set (tsub_id s) s (sub_by_id st)\<rparr> (t @ [s])"
proof -
  have "js_set (tsub_id s) s (index_of (filter (\<lambda>x. tsub_project x = tsub_project s) t)) =
      index_of (filter (\<lambda>x. tsub_project x = tsub_project s) t @ [s])"
    using assms(2) by (intro index_new) auto
  then show ?thesis
    using assms
    by (simp add: indexes_def index_new project_subscriptions_set[where b' = "sub_by_id st"] project_subscriptions_any)
qed

lemma indexes_rotate:
  assumes st: "indexes st t" and row: "row_at p i t = Some s"
    and new: "tsub_id new = i" "tsub_project new = p"
  shows "indexes \<lparr>sub_projects = js_set p (js_set i new (index_of (filter (\<lambda>s. tsub_project s = p) t))) (sub_projects st),
                 sub_by_id = js_set i new (sub_by_id st)\<rparr> (replace_row i new t)"
proof -
  note s = row_at_Some[OF row]
  have ids: "distinct (map tsub_id t)" using st by (simp add: indexes_def)
  note only = same_project[OF ids row]
  have same_ids: "map tsub_id (replace_row i new t) = map tsub_id t"
    using new(1) by (simp add: replace_row_def)
  have own: "filter (\<lambda>x. tsub_project x = p) (replace_row i new t) = replace_row i new (filter (\<lambda>x. tsub_project x = p) t)"
    unfolding replace_row_def filter_map
    by (intro arg_cong[of _ _ "map _"] filter_cong) (use only s new in auto)
  have other: "filter (\<lambda>x. tsub_project x = p') (replace_row i new t) = filter (\<lambda>x. tsub_project x = p') t" if "p' \<noteq> p" for p'
  proof -
    have "filter (\<lambda>x. tsub_project x = p') (replace_row i new t) =
        replace_row i new (filter (\<lambda>x. tsub_project x = p') t)"
      unfolding replace_row_def filter_map
      by (intro arg_cong[of _ _ "map _"] filter_cong) (use only s new that in auto)
    also have "\<dots> = filter (\<lambda>x. tsub_project x = p') t"
      by (rule replace_absent) (use only s that in auto)
    finally show ?thesis .
  qed
  have "js_set i new (index_of (filter (\<lambda>s. tsub_project s = p) t)) =
      index_of (replace_row i new (filter (\<lambda>s. tsub_project s = p) t))"
    by (rule index_replace) (use ids s new in \<open>auto simp: distinct_map_filter\<close>)
  moreover have "js_set i new (index_of t) = index_of (replace_row i new t)"
    by (rule index_replace) (use ids s new in auto)
  ultimately show ?thesis
    using st same_ids ids own other
    by (simp add: indexes_def project_subscriptions_set[where b' = "sub_by_id st"] project_subscriptions_any)
qed

lemma indexes_delete:
  assumes st: "indexes st t" and row: "row_at p i t = Some s"
  defines "rest \<equiv> js_delete i (index_of (filter (\<lambda>s. tsub_project s = p) t))"
  shows "indexes \<lparr>sub_projects = (if rest = [] then js_delete p (sub_projects st) else js_set p rest (sub_projects st)),
                 sub_by_id = js_delete i (sub_by_id st)\<rparr> (filter (\<lambda>s. tsub_id s \<noteq> i) t)"
proof -
  note s = row_at_Some[OF row]
  have ids: "distinct (map tsub_id t)" using st by (simp add: indexes_def)
  have rest: "rest = index_of (filter (\<lambda>x. tsub_project x = p) (filter (\<lambda>x. tsub_id x \<noteq> i) t))"
    by (simp add: rest_def index_delete conj_commute)
  have other: "filter (\<lambda>x. tsub_project x = p') (filter (\<lambda>x. tsub_id x \<noteq> i) t) = filter (\<lambda>x. tsub_project x = p') t"
    if "p' \<noteq> p" for p'
    unfolding filter_filter by (rule filter_cong) (use same_project[OF ids row] that in auto)
  have "project_subscriptions p' \<lparr>sub_projects = (if rest = [] then js_delete p (sub_projects st)
      else js_set p rest (sub_projects st)), sub_by_id = js_delete i (sub_by_id st)\<rparr> =
      (if p' = p then rest else project_subscriptions p' st)" for p'
    by (simp add: project_subscriptions_def)
  then show ?thesis
    using st ids other rest by (simp add: indexes_def index_delete distinct_map_filter)
qed

subsection \<open>The store implements the table\<close>

definition simulates :: "sub_op \<Rightarrow> subscription_store \<Rightarrow> sub_table \<Rightarrow> bool" where
  "simulates op st t \<longleftrightarrow> indexes (fst (call_sub op st)) (fst (call_table op t)) \<and>
     snd (call_sub op st) = snd (call_table op t)"

lemma simulate_create:
  assumes "indexes st t" shows "simulates (Sub_Create s) st t"
proof (cases "tsub_id s \<in> tsub_id ` set t")
  case True
  then have "find (\<lambda>x. tsub_id x = tsub_id s) t \<noteq> None" by (auto simp: find_None_iff)
  then show ?thesis
    using assms True by (auto simp: simulates_def create_subscription_def indexes_def)
next
  case False
  then have "find (\<lambda>x. tsub_id x = tsub_id s) t = None"
    unfolding find_None_iff by (blast intro: image_eqI sym)
  then have none: "map_of (sub_by_id st) (tsub_id s) = None" using assms by (simp add: indexes_def)
  show ?thesis
    using indexes_create[OF assms False] none False by (simp add: simulates_def create_subscription_def)
qed

lemma simulate_rotate:
  assumes "indexes st t" shows "simulates (Sub_Rotate p i hash now) st t"
proof (cases "row_at p i t")
  case None
  then have "Option.bind (map_of (sub_projects st) p) (\<lambda>m. map_of m i) = None"
    using indexes_row[OF assms] by simp
  then show ?thesis
    using None assms by (auto simp: simulates_def rotate_ingest_secret_def split: option.splits)
next
  case (Some s)
  have rows: "map_of (sub_projects st) p = Some (index_of (filter (\<lambda>s. tsub_project s = p) t))"
    by (rule indexes_open[OF assms, of p i]) (simp add: Some)
  have row: "find (\<lambda>x. tsub_id x = i) (filter (\<lambda>s. tsub_project s = p) t) = Some s"
    using Some by (simp add: row_at_def find_filter)
  note s = row_at_Some[OF Some]
  show ?thesis
    using assms Some rows row indexes_rotate[OF assms Some, of "s\<lparr>tsub_secret_hash := Some hash, tsub_updated_at := now\<rparr>"] s
    by (simp add: simulates_def rotate_ingest_secret_def Let_def)
qed

lemma simulate_delete:
  assumes "indexes st t" shows "simulates (Sub_Delete p i) st t"
proof (cases "row_at p i t")
  case None
  then have "Option.bind (map_of (sub_projects st) p) (\<lambda>m. map_of m i) = None"
    using indexes_row[OF assms] by simp
  then show ?thesis
    using None assms by (auto simp: simulates_def delete_subscription_def split: option.splits)
next
  case (Some s)
  have rows: "map_of (sub_projects st) p = Some (index_of (filter (\<lambda>s. tsub_project s = p) t))"
    by (rule indexes_open[OF assms, of p i]) (simp add: Some)
  have row: "find (\<lambda>x. tsub_id x = i) (filter (\<lambda>s. tsub_project s = p) t) = Some s"
    using Some by (simp add: row_at_def find_filter)
  show ?thesis
    using Some rows row indexes_delete[OF assms Some]
    by (simp add: simulates_def delete_subscription_def Let_def)
qed

lemma simulate_list:
  assumes "indexes st t" shows "simulates (Sub_List p cur limit user) st t"
proof -
  have "subscription_rows p user st =
      rev (filter (\<lambda>s. tsub_project s = p \<and> (user = None \<or> Some (tsub_user s) = user)) t)"
    using assms by (simp add: subscription_rows_def indexes_def conj_commute)
  then show ?thesis
    using assms
    by (cases "validate_subscription_list limit")
      (auto simp: simulates_def list_subscriptions_def bind_result_def split: sum.splits)
qed

lemma simulate: "indexes st t \<Longrightarrow> simulates op st t"
proof (cases op)
  case (Sub_Get p i)
  assume "indexes st t"
  then show ?thesis using indexes_row by (simp add: Sub_Get simulates_def get_subscription_def)
next
  case Sub_List_Active
  assume "indexes st t"
  then show ?thesis by (simp add: Sub_List_Active simulates_def list_active_def indexes_def)
next
  case (Sub_Get_Internal i)
  assume "indexes st t"
  then show ?thesis by (simp add: Sub_Get_Internal simulates_def get_internal_def indexes_def)
qed (simp_all add: simulate_create simulate_rotate simulate_delete simulate_list)

lemma replies_simulated: "indexes st t \<Longrightarrow> replies call_sub ops st = replies call_table ops t"
proof (induction ops arbitrary: st t)
  case (Cons op ops)
  have "simulates op st t" by (rule simulate[OF Cons.prems])
  then show ?case
    using Cons.IH[of "fst (call_sub op st)" "fst (call_table op t)"]
    by (simp add: simulates_def case_prod_beta)
qed simp

text \<open>C25:
  The registry with its two indexes is one table. Whatever calls are made from the empty registry, the
  replies (rows, pages with their cursors, flags and errors) are exactly those of a single table of
  subscriptions in creation order, where a call on a project reaches only the rows of that project, a
  rotation changes one row in place and a deletion removes it from every view.
\<close>

theorem subscription_store_is_one_table:
  "replies call_sub ops empty_subscription_store = replies call_table ops []"
  by (rule replies_simulated[OF indexes_empty])

end
