(* ===== verification/Rate_Windows.thy ===== *)
theory Rate_Windows
  imports Rate_Limit
begin

text \<open>
  What a fixed window promises: in every window, the requests of a key are admitted up to the limit and
  no further, whatever the other keys do.
\<close>

subsection \<open>Sequences of requests\<close>

type_synonym rate_request = "string \<times> rate_policy \<times> int"

text \<open>The requests that were answered, with their key, instant and verdict.\<close>

fun admissions :: "rate_request list \<Rightarrow> rate_states \<Rightarrow> (string \<times> int \<times> bool) list" where
  "admissions [] st = []"
| "admissions ((k, policy, now) # reqs) st =
     (case check_rate k policy (Some now) st of
        Inl e \<Rightarrow> admissions reqs st
      | Inr (st', r) \<Rightarrow> (k, now, rr_allowed r) # admissions reqs st')"

lemma check_rate_other:
  assumes "check_rate k policy (Some now) st = Inr (st', r)" "k' \<noteq> k"
  shows "map_of st' k' = map_of st k'"
  using assms
  by (auto simp: check_rate_def bind_result_Inr_iff check_token_bucket_def check_fixed_window_def Let_def
      split: if_splits rate_policy.splits)

definition of_key :: "string \<Rightarrow> rate_request list \<Rightarrow> rate_request list" where
  "of_key k reqs = filter (\<lambda>(k', policy, now). k' = k) reqs"

definition in_window :: "window_policy \<Rightarrow> int \<Rightarrow> int \<Rightarrow> bool" where
  "in_window w n now \<longleftrightarrow> now div wp_window_ms w = n"

definition requested :: "string \<Rightarrow> window_policy \<Rightarrow> int \<Rightarrow> rate_request list \<Rightarrow> nat" where
  "requested k w n reqs = length (filter (\<lambda>(k', policy, now). k' = k \<and> in_window w n now) reqs)"

definition admitted :: "string \<Rightarrow> window_policy \<Rightarrow> int \<Rightarrow> (string \<times> int \<times> bool) list \<Rightarrow> nat" where
  "admitted k w n verdicts = length (filter (\<lambda>(k', now, allowed). k' = k \<and> in_window w n now \<and> allowed) verdicts)"

text \<open>The requests of the key all use the window \<open>w\<close>, in the order of a clock that does not go back.\<close>

definition window_requests :: "string \<Rightarrow> window_policy \<Rightarrow> rate_request list \<Rightarrow> bool" where
  "window_requests k w reqs \<longleftrightarrow>
     list_all (\<lambda>(k', policy, now). policy = Fixed_Window w) (of_key k reqs) \<and>
     sorted (map (\<lambda>(k', policy, now). now) (of_key k reqs))"

lemma window_requests_Cons:
  "window_requests k w ((k', policy, now) # reqs) \<longleftrightarrow>
     (if k' = k then policy = Fixed_Window w \<and> window_requests k w reqs \<and>
        (\<forall>(k'', p, t) \<in> set reqs. k'' = k \<longrightarrow> now \<le> t)
      else window_requests k w reqs)"
  by (auto simp: window_requests_def of_key_def)

subsection \<open>What remains of a window\<close>

text \<open>The admissions left in window \<open>n\<close>, given the state of the key.\<close>

definition room :: "window_policy \<Rightarrow> int \<Rightarrow> rate_state option \<Rightarrow> nat" where
  "room w n s = (case s of
     Some (Window_State s) \<Rightarrow> if ws_start s = n * wp_window_ms w then nat (wp_limit w - ws_used s) else nat (wp_limit w)
   | _ \<Rightarrow> nat (wp_limit w))"

text \<open>The state of a key that has only been used with \<open>w\<close>, up to window \<open>m\<close>.\<close>

definition window_reached :: "window_policy \<Rightarrow> int \<Rightarrow> rate_state option \<Rightarrow> bool" where
  "window_reached w m s \<longleftrightarrow> s = None \<or>
     (\<exists>x. s = Some (Window_State x) \<and> ws_signature x = w \<and> ws_start x \<le> m * wp_window_ms w \<and>
          0 \<le> ws_used x \<and> ws_used x \<le> wp_limit w)"

lemma check_fixed_window_step:
  assumes "0 < wp_window_ms w" "0 < wp_limit w" "window_reached w (now div wp_window_ms w) (map_of st k)"
  defines "m \<equiv> now div wp_window_ms w"
  defines "out \<equiv> check_fixed_window k w now st"
  shows "window_reached w m (map_of (fst out) k)"
    "rr_allowed (snd out) \<longleftrightarrow> 0 < room w m (map_of st k)"
    "room w m (map_of (fst out) k) = room w m (map_of st k) - 1"
    "m < n \<Longrightarrow> room w n (map_of (fst out) k) = nat (wp_limit w) \<and> room w n (map_of st k) = nat (wp_limit w)"
proof -
  let ?s = "current_window w now (map_of st k)"
  have s: "ws_signature ?s = w" "ws_start ?s = m * wp_window_ms w" "0 \<le> ws_used ?s" "ws_used ?s \<le> wp_limit w"
    "room w m (map_of st k) = nat (wp_limit w - ws_used ?s)"
    using assms(2,3) by (auto simp: current_window_def window_reached_def room_def m_def Let_def)
  have st': "map_of (fst out) k = Some (Window_State (if ws_used ?s < wp_limit w then ?s\<lparr>ws_used := ws_used ?s + 1\<rparr> else ?s))"
    "rr_allowed (snd out) \<longleftrightarrow> ws_used ?s < wp_limit w"
    by (simp_all add: out_def check_fixed_window_def Let_def)
  show "window_reached w m (map_of (fst out) k)" using s st' by (simp add: window_reached_def)
  show "rr_allowed (snd out) \<longleftrightarrow> 0 < room w m (map_of st k)" using s st' by simp
  show "room w m (map_of (fst out) k) = room w m (map_of st k) - 1"
    unfolding s(5) using s(1-4) st' by (simp add: room_def nat_diff_distrib' nat_add_distrib)
  assume later: "m < n"
  then have "m * wp_window_ms w < n * wp_window_ms w" using assms(1) by simp
  then show "room w n (map_of (fst out) k) = nat (wp_limit w) \<and> room w n (map_of st k) = nat (wp_limit w)"
    using s(2) st' assms(3) by (auto simp: room_def window_reached_def m_def)
qed

lemma window_reached_mono:
  assumes "window_reached w m s" "0 < wp_window_ms w" "m \<le> m'"
  shows "window_reached w m' s"
proof -
  have "m * wp_window_ms w \<le> m' * wp_window_ms w" using assms(2,3) by simp
  then show ?thesis using assms(1) by (force simp: window_reached_def)
qed

lemma check_window_rate:
  assumes "\<not> blank k" "validate_policy (Fixed_Window w) = Inr ()"
  shows "check_rate k (Fixed_Window w) (Some now) st = Inr (check_fixed_window k w now st)"
  using assms by (simp add: check_rate_def)

lemma valid_window: "validate_policy (Fixed_Window w) = Inr () \<Longrightarrow> 0 < wp_window_ms w \<and> 0 < wp_limit w"
  by (auto simp: validate_policy_def positive_safe_integer_def bind_result_Inr_iff split: if_splits)

lemma admitted_from:
  assumes ok: "\<not> blank k" "validate_policy (Fixed_Window w) = Inr ()"
    and "window_requests k w reqs" "window_reached w m (map_of st k)"
    and "\<forall>(k', p, t) \<in> set reqs. k' = k \<longrightarrow> m \<le> t div wp_window_ms w"
  shows "admitted k w n (admissions reqs st) = min (room w n (map_of st k)) (requested k w n reqs)"
  using assms(3-5)
proof (induction reqs arbitrary: st m)
  case (Cons req reqs)
  obtain k' policy now where req: "req = (k', policy, now)" by (cases req)
  note pos = valid_window[OF ok(2)]
  show ?case
  proof (cases "k' = k")
    case False
    have tail: "window_requests k w reqs" using Cons.prems(1) False by (simp add: req window_requests_Cons)
    have later: "\<forall>(k', p, t) \<in> set reqs. k' = k \<longrightarrow> m \<le> t div wp_window_ms w" using Cons.prems(3) by simp
    show ?thesis
    proof (cases "check_rate k' policy (Some now) st")
      case (Inl e)
      then show ?thesis
        using Cons.IH[OF tail Cons.prems(2) later] False
        by (simp add: req requested_def)
    next
      case (Inr x)
      then have "map_of (fst x) k = map_of st k"
        using check_rate_other[of k' policy now st "fst x" "snd x"] False by simp
      then show ?thesis
        using Cons.IH[OF tail, of m "fst x"] Cons.prems(2) later False Inr
        by (cases x) (simp add: req requested_def admitted_def)
    qed
  next
    case True
    let ?m = "now div wp_window_ms w" and ?out = "check_fixed_window k w now st"
    have tail: "window_requests k w reqs" and w: "policy = Fixed_Window w"
      and later: "\<forall>(k', p, t) \<in> set reqs. k' = k \<longrightarrow> now \<le> t"
      using Cons.prems(1) True by (auto simp: req window_requests_Cons)
    have "m \<le> ?m" using Cons.prems(3) True by (simp add: req)
    then have reached: "window_reached w ?m (map_of st k)"
      using Cons.prems(2) pos window_reached_mono by blast
    note step = check_fixed_window_step[OF conjunct1[OF pos] conjunct2[OF pos] reached]
    have "\<forall>(k', p, t) \<in> set reqs. k' = k \<longrightarrow> ?m \<le> t div wp_window_ms w"
      using later pos by (auto intro: zdiv_mono1)
    note IH = Cons.IH[OF tail step(1) this]
    have run: "admissions (req # reqs) st = (k, now, rr_allowed (snd ?out)) # admissions reqs (fst ?out)"
      by (cases ?out) (simp add: req True w check_window_rate[OF ok])
    have none: "requested k w n reqs = 0" if "n < ?m"
      using later that pos zdiv_mono1[of now _ "wp_window_ms w"]
      by (fastforce simp: requested_def in_window_def filter_empty_conv)
    consider "n = ?m" | "?m < n" | "n < ?m" by linarith
    then show ?thesis
    proof cases
      case 1
      then show ?thesis
        using run IH step(2,3) by (auto simp: req True admitted_def requested_def in_window_def)
    next
      case 2
      then show ?thesis
        using run IH step(4) by (auto simp: req True admitted_def requested_def in_window_def)
    next
      case 3
      then show ?thesis
        using run IH none by (auto simp: req True admitted_def requested_def in_window_def)
    qed
  qed
qed (simp add: admitted_def requested_def)

text \<open>C33:
  A fixed window admits exactly its limit. For a valid policy and a key whose requests all use it in the
  order of the clock, and whatever requests other keys make in between, the number of requests admitted in
  any window is the smaller of the limit and the number of requests made in that window: never more than
  the limit, and none refused while there is room.
\<close>

theorem fixed_window_admits_limit:
  assumes "\<not> blank k" "validate_policy (Fixed_Window w) = Inr ()" "window_requests k w reqs"
  shows "admitted k w n (admissions reqs []) = min (nat (wp_limit w)) (requested k w n reqs)"
proof -
  obtain m where "\<forall>(k', p, t) \<in> set reqs. k' = k \<longrightarrow> m \<le> t div wp_window_ms w"
  proof
    show "\<forall>(k', p, t) \<in> set reqs. k' = k \<longrightarrow>
        Min ((\<lambda>(k', p, t). t div wp_window_ms w) ` set reqs) \<le> t div wp_window_ms w"
      by (auto intro!: Min_le rev_image_eqI)
  qed
  then show ?thesis
    using admitted_from[OF assms, of m "[]" n] by (simp add: window_reached_def room_def)
qed

definition demo_window :: window_policy where
  "demo_window = \<lparr>wp_limit = 2, wp_window_ms = 10\<rparr>"

definition demo_requests :: "rate_request list" where
  "demo_requests = [(''a'', Fixed_Window demo_window, 11), (''b'', Fixed_Window demo_window, 12),
     (''a'', Fixed_Window demo_window, 14), (''b'', Token_Bucket \<lparr>tp_limit = 1, tp_interval_ms = 3, tp_burst = 2\<rparr>, 15),
     (''a'', Fixed_Window demo_window, 19), (''a'', Fixed_Window demo_window, 20)]"

lemma fixed_window_admits_limit_witness:
  "admitted ''a'' demo_window 1 (admissions demo_requests []) = 2 \<and>
   requested ''a'' demo_window 1 demo_requests = 3 \<and>
   admitted ''a'' demo_window 2 (admissions demo_requests []) = 1"
proof -
  have ok: "\<not> blank ''a''" "validate_policy (Fixed_Window demo_window) = Inr ()"
    "window_requests ''a'' demo_window demo_requests"
    by code_simp+
  have asked: "requested ''a'' demo_window 1 demo_requests = 3" "requested ''a'' demo_window 2 demo_requests = 1"
    by code_simp+
  show ?thesis
    using fixed_window_admits_limit[OF ok, of 1] fixed_window_admits_limit[OF ok, of 2] asked
    by (simp add: demo_window_def)
qed

end
