(* ===== verification/Rate_Bursts.thy ===== *)
theory Rate_Bursts
  imports Rate_Windows
begin

text \<open>
  What a token bucket promises in spite of the rounding of its doubles: while the clock stands still (or
  goes back) it admits at most its burst, and a fresh bucket admits exactly its burst.
\<close>

subsection \<open>A bucket while the clock stands still\<close>

definition admitted_verdicts :: "string \<Rightarrow> (string \<times> int \<times> bool) list \<Rightarrow> nat" where
  "admitted_verdicts k verdicts = length (filter (\<lambda>(k', now, allowed). k' = k \<and> allowed) verdicts)"

text \<open>The requests of the key use the bucket \<open>p\<close>, at instants up to \<open>t\<close>.\<close>

definition burst_requests :: "string \<Rightarrow> token_policy \<Rightarrow> int \<Rightarrow> rate_request list \<Rightarrow> bool" where
  "burst_requests k p t reqs \<longleftrightarrow> list_all (\<lambda>(k', policy, now). k' = k \<longrightarrow> policy = Token_Bucket p \<and> now \<le> t) reqs"

lemma valid_bucket: "validate_policy (Token_Bucket p) = Inr () \<Longrightarrow> 1 \<le> tp_burst p \<and> tp_burst p < 2 ^ 53"
  by (auto simp: validate_policy_def positive_safe_integer_def bind_result_Inr_iff is_safe_integer_def
      max_safe_integer_def split: if_splits)

lemma has_token_iff:
  assumes "0 \<le> c" "c < 2 ^ 53" "tk_tokens s \<le> of_int c"
  shows "has_token s \<Longrightarrow> 1 \<le> c"
    and "tk_tokens s = of_int c \<Longrightarrow> 1 \<le> c \<Longrightarrow> has_token s"
proof -
  show "1 \<le> c" if "has_token s"
  proof (rule ccontr)
    assume "\<not> 1 \<le> c"
    then have "tk_tokens s + number_epsilon \<le> 1 / 2" using assms by (simp add: number_epsilon_def)
    then show False using that double_below_one by (simp add: has_token_def not_le[symmetric])
  qed
  show "has_token s" if "tk_tokens s = of_int c" "1 \<le> c"
  proof -
    have "rat_of_int c \<le> rat_of_int (2 ^ 53 - 1)" using assms(2) by (simp only: of_int_le_iff)
    then have "tk_tokens s + number_epsilon < 2 ^ 53" using that(1) by (simp add: number_epsilon_def)
    moreover have "1 \<le> tk_tokens s + number_epsilon" using that by (simp add: number_epsilon_def add_increasing2)
    ultimately show ?thesis by (simp add: has_token_def double_ge_one)
  qed
qed

text \<open>The bucket of the key holds at most \<open>c\<close> tokens, exactly \<open>c\<close> if \<open>exact\<close>, and is not older than \<open>t\<close>.\<close>

definition bucket_holds :: "bool \<Rightarrow> token_policy \<Rightarrow> int \<Rightarrow> int \<Rightarrow> token_state \<Rightarrow> bool" where
  "bucket_holds exact p t c s \<longleftrightarrow> tk_signature s = p \<and> t \<le> tk_updated_at s \<and> tk_tokens s \<le> of_int c \<and>
     (exact \<longrightarrow> tk_tokens s = of_int c)"

lemma take_token_holds:
  assumes "bucket_holds exact p t c s" "0 \<le> c" "c < 2 ^ 53"
  shows "has_token s \<Longrightarrow> 1 \<le> c" "exact \<Longrightarrow> 1 \<le> c \<Longrightarrow> has_token s"
    and "bucket_holds exact p t (if has_token s then c - 1 else c) (take_token s)"
proof -
  note tokens = has_token_iff[OF assms(2,3), of s]
  show one: "has_token s \<Longrightarrow> 1 \<le> c" and "exact \<Longrightarrow> 1 \<le> c \<Longrightarrow> has_token s"
    using assms(1) tokens by (auto simp: bucket_holds_def)
  show "bucket_holds exact p t (if has_token s then c - 1 else c) (take_token s)"
  proof (cases "has_token s")
    case True
    have c: "1 \<le> c" using one True .
    have "double (tk_tokens s - 1) \<le> of_int (c - 1)"
      by (rule double_le_int) (use assms c in \<open>simp_all add: bucket_holds_def\<close>)
    moreover have "double (tk_tokens s - 1) = of_int (c - 1)" if exact
      using double_int[of "c - 1"] assms that c by (simp add: bucket_holds_def)
    moreover have "0 \<le> rat_of_int c - 1" using c by simp
    ultimately show ?thesis using assms(1) True by (auto simp: bucket_holds_def take_token_def)
  qed (use assms(1) in \<open>simp add: take_token_def\<close>)
qed

lemma refill_holds:
  assumes "bucket_holds exact p t c s" "now \<le> t" "0 \<le> c" "c \<le> tp_burst p" "c < 2 ^ 53"
  shows "bucket_holds exact p t c (refill_bucket p now s)"
proof -
  have "max 0 (now - tk_updated_at s) = 0" using assms(1,2) by (simp add: bucket_holds_def)
  moreover have "double (tk_tokens s) \<le> of_int c"
    by (rule double_le_int) (use assms in \<open>simp_all add: bucket_holds_def\<close>)
  moreover have "double (tk_tokens s) = of_int c" if exact
    using double_int[OF assms(3,5)] assms(1) that by (simp add: bucket_holds_def)
  moreover have "double 0 = 0" by (simp add: double_def)
  ultimately show ?thesis
    using assms(1,4) by (auto simp: bucket_holds_def refill_bucket_def Let_def min_def)
qed

lemma check_bucket_rate:
  assumes "\<not> blank k" "validate_policy (Token_Bucket p) = Inr ()"
  shows "check_rate k (Token_Bucket p) (Some now) st = Inr (check_token_bucket k p now st)"
  using assms by (simp add: check_rate_def)

lemma check_token_bucket_step:
  assumes "bucket_holds exact p t c (refill_bucket p now (current_bucket p now (map_of st k)))" "0 \<le> c" "c < 2 ^ 53"
  shows "rr_allowed (snd (check_token_bucket k p now st)) \<Longrightarrow> 1 \<le> c"
    "exact \<Longrightarrow> 1 \<le> c \<Longrightarrow> rr_allowed (snd (check_token_bucket k p now st))"
    "\<exists>s. map_of (fst (check_token_bucket k p now st)) k = Some (Token_State s) \<and>
       bucket_holds exact p t (if rr_allowed (snd (check_token_bucket k p now st)) then c - 1 else c) s"
  using take_token_holds[OF assms] by (simp_all add: check_token_bucket_def Let_def)

lemma burst_from:
  assumes ok: "\<not> blank k" "validate_policy (Token_Bucket p) = Inr ()"
    and "burst_requests k p t reqs" "map_of st k = Some (Token_State s)" "bucket_holds exact p t c s"
    "0 \<le> c" "c \<le> tp_burst p"
  shows "admitted_verdicts k (admissions reqs st) \<le> min (nat c) (length (of_key k reqs)) \<and>
    (exact \<longrightarrow> admitted_verdicts k (admissions reqs st) = min (nat c) (length (of_key k reqs)))"
  using assms(3-7)
proof (induction reqs arbitrary: st s c)
  case Nil
  then show ?case by (simp add: admitted_verdicts_def of_key_def)
next
  case (Cons req reqs)
  obtain k' policy now where req: "req = (k', policy, now)" by (cases req)
  have tail: "burst_requests k p t reqs" using Cons.prems(1) by (simp add: burst_requests_def req)
  have small: "c < 2 ^ 53" using Cons.prems(5) valid_bucket[OF ok(2)] by simp
  show ?case
  proof (cases "k' = k")
    case False
    show ?thesis
    proof (cases "check_rate k' policy (Some now) st")
      case (Inl e)
      then show ?thesis
        using Cons.IH[OF tail Cons.prems(2-5)] False by (simp add: req of_key_def)
    next
      case (Inr x)
      then have "map_of (fst x) k = Some (Token_State s)"
        using check_rate_other[of k' policy now st "fst x" "snd x"] False Cons.prems(2) by simp
      then show ?thesis
        using Cons.IH[OF tail _ Cons.prems(3-5)] False Inr
        by (cases x) (simp add: req of_key_def admitted_verdicts_def)
    qed
  next
    case True
    have now: "policy = Token_Bucket p" "now \<le> t" using Cons.prems(1) True by (simp_all add: burst_requests_def req)
    let ?out = "check_token_bucket k p now st"
    have cur: "current_bucket p now (map_of st k) = s"
      using Cons.prems(2,3) by (simp add: current_bucket_def bucket_holds_def Let_def)
    have holds: "bucket_holds exact p t c (refill_bucket p now (current_bucket p now (map_of st k)))"
      unfolding cur by (rule refill_holds[OF Cons.prems(3) now(2) Cons.prems(4,5) small])
    note step = check_token_bucket_step[OF holds Cons.prems(4) small]
    obtain s' where s': "map_of (fst ?out) k = Some (Token_State s')"
      "bucket_holds exact p t (if rr_allowed (snd ?out) then c - 1 else c) s'"
      using step(3) by blast
    have run: "admissions (req # reqs) st = (k, now, rr_allowed (snd ?out)) # admissions reqs (fst ?out)"
      by (cases ?out) (simp add: req True now(1) check_bucket_rate[OF ok])
    have len: "length (of_key k (req # reqs)) = Suc (length (of_key k reqs))" by (simp add: of_key_def req True)
    show ?thesis
    proof (cases "rr_allowed (snd ?out)")
      case allowed: True
      have c: "1 \<le> c" by (rule step(1)[OF allowed])
      have "bucket_holds exact p t (c - 1) s'" using s'(2) allowed by simp
      from Cons.IH[OF tail s'(1) this] c Cons.prems(5) show ?thesis
        unfolding run len using allowed by (auto simp: admitted_verdicts_def)
    next
      case refused: False
      have none: "exact \<Longrightarrow> c = 0" using step(2) refused Cons.prems(4) by fastforce
      have "bucket_holds exact p t c s'" using s'(2) refused by simp
      from Cons.IH[OF tail s'(1) this Cons.prems(4,5)] show ?thesis
        unfolding run len using refused none by (auto simp: admitted_verdicts_def)
    qed
  qed
qed

lemma refilled_bucket:
  assumes "validate_policy (Token_Bucket p) = Inr ()"
  shows "bucket_holds (existing = None) p t (tp_burst p) (refill_bucket p t (current_bucket p t existing))"
proof (cases existing)
  case None
  have "bucket_holds True p t (tp_burst p) (current_bucket p t None)"
    by (simp add: current_bucket_def bucket_holds_def Let_def)
  from refill_holds[OF this] show ?thesis using valid_bucket[OF assms] None by simp
next
  case (Some x)
  have "tk_signature (current_bucket p t existing) = p"
    by (auto simp: current_bucket_def Let_def split: option.splits rate_state.splits)
  then show ?thesis using Some by (simp add: bucket_holds_def refill_bucket_def Let_def)
qed

text \<open>C25:
  The burst of a token bucket is a hard bound, rounding included. From any state of the limiter, when a
  key is used with a valid bucket at some instant and then at instants that are not later (a clock that
  stands still or goes back), among requests of other keys, at most \<open>burst\<close> of its requests are
  admitted; and for a key that was not in use the number admitted is exactly the smaller of the burst and
  the number of requests.
\<close>

theorem burst_is_a_hard_bound:
  assumes "\<not> blank k" "validate_policy (Token_Bucket p) = Inr ()" "burst_requests k p t reqs"
  defines "all \<equiv> (k, Token_Bucket p, t) # reqs"
  shows "admitted_verdicts k (admissions all st) \<le> nat (tp_burst p) \<and>
    (map_of st k = None \<longrightarrow>
       admitted_verdicts k (admissions all st) = min (nat (tp_burst p)) (length (of_key k all)))"
proof -
  let ?out = "check_token_bucket k p t st" and ?new = "map_of st k = None"
  have burst: "1 \<le> tp_burst p" "tp_burst p < 2 ^ 53" using valid_bucket[OF assms(2)] by simp_all
  have "0 \<le> tp_burst p" using burst(1) by simp
  note step = check_token_bucket_step[OF refilled_bucket[OF assms(2)] this burst(2), where k = k and st = st and now = t]
  let ?c = "if rr_allowed (snd ?out) then tp_burst p - 1 else tp_burst p"
  obtain s where s: "map_of (fst ?out) k = Some (Token_State s)" "bucket_holds ?new p t ?c s"
    using step(3) by blast
  have "0 \<le> ?c" "?c \<le> tp_burst p" using burst(1) by simp_all
  note rest = burst_from[OF assms(1-3) s this]
  have run: "admissions all st = (k, t, rr_allowed (snd ?out)) # admissions reqs (fst ?out)"
    by (cases ?out) (simp add: all_def check_bucket_rate[OF assms(1,2)])
  have len: "length (of_key k all) = Suc (length (of_key k reqs))" by (simp add: of_key_def all_def)
  show ?thesis
  proof (cases "rr_allowed (snd ?out)")
    case True
    then show ?thesis using rest burst(1) unfolding run len by (auto simp: admitted_verdicts_def)
  next
    case False
    then have "\<not> ?new" using step(2) burst(1) by blast
    then show ?thesis using False rest unfolding run len by (auto simp: admitted_verdicts_def)
  qed
qed

definition demo_bucket :: token_policy where
  "demo_bucket = \<lparr>tp_limit = 7, tp_interval_ms = 60000, tp_burst = 2\<rparr>"

lemma burst_is_a_hard_bound_witness:
  "admitted_verdicts ''a'' (admissions ((''a'', Token_Bucket demo_bucket, 9) #
     [(''a'', Token_Bucket demo_bucket, 9), (''b'', Fixed_Window demo_window, 9), (''a'', Token_Bucket demo_bucket, 3)]) []) = 2"
proof -
  let ?reqs = "[(''a'', Token_Bucket demo_bucket, 9), (''b'', Fixed_Window demo_window, 9), (''a'', Token_Bucket demo_bucket, 3)]"
  have ok: "\<not> blank ''a''" "validate_policy (Token_Bucket demo_bucket) = Inr ()"
    "burst_requests ''a'' demo_bucket 9 ?reqs"
    by code_simp+
  show ?thesis
    using burst_is_a_hard_bound[OF ok, of "[]"] by (simp add: demo_bucket_def of_key_def)
qed

end
