(* ===== verification/Deliverer_Stores.thy ===== *)
theory Deliverer_Stores
  imports Delivery_Attempts
begin

text \<open>
  The deliverer against its stores: every step of it is a sequence of calls on the webhook work store, the
  delivery log and the job store, so that what those promise over all histories holds for the deliverer;
  and every event refers to deliveries that exist.
\<close>

subsection \<open>Steps are sequences of store calls\<close>

definition store_calls :: "(string list \<Rightarrow> string) \<Rightarrow> webhook_system \<Rightarrow> webhook_system \<Rightarrow> bool" where
  "store_calls digest sys sys' \<longleftrightarrow> (\<exists>ops. sys' = run_system_ops digest ops sys)"

lemma run_system_ops_append:
  "run_system_ops digest (a @ b) sys = run_system_ops digest b (run_system_ops digest a sys)"
  by (induction a arbitrary: sys) simp_all

lemma store_calls_refl [simp]: "store_calls digest sys sys"
  unfolding store_calls_def by (rule exI[of _ "[]"]) simp

lemma store_calls_trans:
  "store_calls digest a b \<Longrightarrow> store_calls digest b c \<Longrightarrow> store_calls digest a c"
  unfolding store_calls_def using run_system_ops_append by metis

lemma store_call: "store_calls digest sys (run_system_op digest op sys)"
  unfolding store_calls_def by (rule exI[of _ "[op]"]) simp

lemma delivery_call:
  "run_delivery_op op (sys_deliveries sys) = ds \<Longrightarrow> store_calls digest sys (sys\<lparr>sys_deliveries := ds\<rparr>)"
  using store_call[of digest sys "Sop_Delivery op"] by simp

lemma job_calls: "store_calls digest sys (sys\<lparr>sys_jobs := run_ops ops (sys_jobs sys)\<rparr>)"
proof (induction ops arbitrary: sys)
  case (Cons op ops)
  have "store_calls digest sys (sys\<lparr>sys_jobs := run_op op (sys_jobs sys)\<rparr>)"
    using store_call[of digest sys "Sop_Job op"] by simp
  from store_calls_trans[OF this Cons.IH] show ?case by simp
qed simp

lemma submit_job_calls:
  assumes "submit_job digest accepting job opts reading wall js = (js', r)"
  shows "\<exists>ops. js' = run_ops ops js"
proof -
  have "\<exists>ops. js' = run_ops ops js" if "accept_job env wall js = (js', r)" for env
  proof (cases "ensure_job env wall js")
    case (Inr x)
    then have "js' = run_ops [Op_Ensure env wall] js"
      using that by (auto simp: accept_job_def split: prod.splits ensure_job_result.splits)
    then show ?thesis by blast
  qed (use that in \<open>auto simp: accept_job_def intro: exI[of _ "[]"]\<close>)
  moreover have "\<exists>ops. js = run_ops ops js" by (rule exI[of _ "[]"]) simp
  ultimately show ?thesis using assms by (auto simp: submit_job_def split: if_splits sum.splits)
qed

lemma submit_deliveries_calls:
  "\<exists>ops. fst (submit_deliveries cfg clock q w accepting p rows js) = run_ops ops js"
proof (induction rows arbitrary: clock q w js)
  case Nil
  have "js = run_ops [] js" by simp
  then show ?case by (metis fst_conv submit_deliveries.simps(1))
next
  case (Cons row rows)
  let ?d = "sd_delivery row"
  let ?start = "case wd_next_retry_at ?d of Some t \<Rightarrow> Inr t
    | None \<Rightarrow> bind_result (deliverer_clock (clock 0)) iso_string"
  let ?one = "case ?start of Inl err \<Rightarrow> (js, Inl err)
    | Inr start \<Rightarrow> submit_job (dc_digest cfg) accepting (Webhook_Deliver p (wd_id ?d))
        \<lparr>opt_run_after = Some start,
         opt_group_key = Some (webhook_endpoint_group_key (dc_digest cfg) p (wd_endpoint ?d)),
         opt_group_order = Some (sd_sequence row)\<rparr> (q 0) (w 0) js"
  obtain js1 r where one: "?one = (js1, r)" by fastforce
  have "\<exists>ops. js1 = run_ops ops js"
  proof (cases ?start)
    case (Inl err)
    then show ?thesis using one by (auto intro: exI[of _ "[]"])
  next
    case (Inr start)
    then show ?thesis using one submit_job_calls by simp
  qed
  then obtain ops1 where ops1: "js1 = run_ops ops1 js" by blast
  obtain ops2 where "fst (submit_deliveries cfg (\<lambda>i. clock (Suc i)) (\<lambda>i. q (Suc i)) (\<lambda>i. w (Suc i)) accepting p
      rows js1) = run_ops ops2 js1" using Cons.IH by blast
  then have "fst (submit_deliveries cfg clock q w accepting p (row # rows) js) = run_ops ops2 (run_ops ops1 js)"
    using one by (auto simp: Let_def ops1 split: prod.split)
  then show ?case by (metis run_ops_append)
qed

lemma admit_event_calls:
  "store_calls (dc_digest cfg) (dv_system st) (dv_system (fst (admit_event cfg clock q w event ids kind source st)))"
proof -
  have selection: "store_calls (dc_digest cfg) (dv_system st1) (dv_system (fst (submit_selection cfg r n event start st1)))"
    for r n start st1
  proof (cases "get_event (wv_project event) (wv_id event) (dv_system st1)")
    case (Some ew)
    obtain js res where js: "submit_job (dc_digest cfg) (dv_accepting st1)
        (Webhook_Select (wv_project event) (wv_id event))
        \<lparr>opt_run_after = Some start, opt_group_key = Some webhook_selection_group_key,
         opt_group_order = Some (ew_sequence ew)\<rparr> r n (sys_jobs (dv_system st1)) = (js, res)" by fastforce
    show ?thesis
      using submit_job_calls[OF js] job_calls by (auto simp: submit_selection_def Some js)
  qed (simp add: submit_selection_def)
  have durably: "store_calls (dc_digest cfg) (dv_system st1)
      (dv_system (fst (admit_durably cfg r w event a retained st1)))" for r a retained st1
  proof (cases "ensure_event (dc_digest cfg) (w 0) a (dv_system st1)")
    case (Pair sys res)
    then have sys: "store_calls (dc_digest cfg) (dv_system st1) sys"
      using store_call[of "dc_digest cfg" "dv_system st1" "Sop_Ensure (w 0) a"] by simp
    show ?thesis
    proof (cases res)
      case (Inr x)
      then show ?thesis
        using Pair store_calls_trans[OF sys selection[of "st1\<lparr>dv_system := sys\<rparr>", simplified]]
        by (simp add: admit_durably_def)
    qed (use Pair sys in \<open>simp add: admit_durably_def\<close>)
  qed
  have same: "dv_system st1 = dv_system st" if "remember_event event st = Inr (st1, b)" for st1 b
    by (rule remember_event_system[OF that])
  show ?thesis
    using durably by (auto simp: admit_event_def dest!: same split: sum.split if_splits) metis+
qed

lemma handle_select_calls:
  "store_calls (dc_digest cfg) (dv_system st) (dv_system (fst (handle_select_job cfg clock q w p e st)))"
proof -
  have materialize: "store_calls (dc_digest cfg) (dv_system st) (dv_system (fst (materialize_selection cfg r ew p e st)))"
    for r ew
  proof (cases "bind_result (deliverer_clock r) iso_string")
    case (Inr t)
    let ?eps = "map we_id (selected_endpoints p (ew_event_type ew) (ew_endpoints ew) (dv_endpoints st))"
    show ?thesis
      using store_call[of "dc_digest cfg" "dv_system st" "Sop_Materialize p e ?eps t"] Inr
      by (cases "materialize_event (dc_digest cfg) p e ?eps t (dv_system st)")
        (simp add: materialize_selection_def Let_def)
  qed (simp add: materialize_selection_def)
  have submit: "store_calls (dc_digest cfg) (dv_system st1) (dv_system (fst (submit_selected cfg c q w p rows st1)))"
    for c rows st1
    using submit_deliveries_calls[of cfg c q w "dv_accepting st1" p rows "sys_jobs (dv_system st1)"] job_calls
    by (cases "submit_deliveries cfg c q w (dv_accepting st1) p rows (sys_jobs (dv_system st1))")
      (auto simp: submit_selected_def)
  have both: "store_calls (dc_digest cfg) (dv_system st) (dv_system (fst (submit_selected cfg c q w p rows st2)))"
    if "store_calls (dc_digest cfg) (dv_system st) (dv_system st1)" "dv_system st2 = dv_system st1" for c rows st1 st2
    using store_calls_trans[OF that(1) submit[of st2 c rows, unfolded that(2)]] .
  show ?thesis
  proof (cases "get_event p e (dv_system st)")
    case (Some ew)
    show ?thesis
    proof (cases "get_materialized p e (dv_system st)")
      case (Inr rows0)
      obtain st1 sel where sel: "(if ew_materialized_at ew = None then materialize_selection cfg (clock 0) ew p e st
          else (st, Inr rows0)) = (st1, sel)" by fastforce
      have "store_calls (dc_digest cfg) (dv_system st) (dv_system st1)"
        using sel materialize[of "clock 0" ew] by (auto split: if_splits)
      then show ?thesis
        by (cases sel) (simp_all add: handle_select_job_def Some Inr sel both)
    qed (simp add: handle_select_job_def Some)
  qed (simp add: handle_select_job_def)
qed

lemma release_event_system:
  "release_event_if_terminal p e st = Inr st' \<Longrightarrow> dv_system st' = dv_system st"
  by (auto simp: release_event_if_terminal_def bind_result_Inr_iff split: if_splits)

lemma update_calls:
  assumes "update_delivery p d (sys_deliveries sys) = Inr ds"
  shows "store_calls digest sys (sys\<lparr>sys_deliveries := ds\<rparr>)"
  by (rule delivery_call[of "Dop_Update p d"]) (simp add: assms)

lemma abandon_calls: "store_calls digest (dv_system st) (dv_system (fst (abandon_delivery p d i reading st)))"
proof (cases "bind_result (deliverer_clock reading) iso_string")
  case (Inr t)
  show ?thesis
  proof (cases "mark_recovery_failed p i t (log_of st)")
    case marked: (Inr x)
    have "store_calls digest (dv_system st) ((dv_system st)\<lparr>sys_deliveries := fst x\<rparr>)"
      by (rule delivery_call[of "Dop_Fail p i t"]) (simp add: marked)
    then show ?thesis
      by (cases x) (auto simp: abandon_delivery_def Inr marked Let_def dest!: release_event_system split: sum.split)
  qed (simp add: abandon_delivery_def Inr)
qed (simp add: abandon_delivery_def)

lemma launch_calls: "store_calls digest (dv_system st) (dv_system (fst (launch_delivery cfg p d ev ep reading st)))"
  by (auto simp: launch_delivery_def Let_def intro: update_calls split: sum.split)

lemma attempt_calls: "store_calls digest (dv_system st) (dv_system (fst (attempt_delivery cfg reading p i d st)))"
  by (cases rule: attempt_delivery_cases[of cfg reading p i d st]) (simp_all add: launch_calls abandon_calls)

lemma recover_calls: "store_calls digest (dv_system st) (dv_system (fst (recover_delivering p i d st)))"
  by (auto simp: recover_delivering_def Let_def intro!: delivery_call[of "Dop_Reset p i"])

lemma begin_calls: "store_calls digest (dv_system st) (dv_system (fst (begin_delivery cfg clock p i st)))"
proof -
  have "store_calls digest (dv_system st) (dv_system (fst (attempt_delivery cfg r p i d st1)))"
    if "recover_delivering p i d0 st = (st1, d)" for r d0 st1 d
    using store_calls_trans[OF recover_calls[of digest st p i d0] attempt_calls] that by (metis fst_conv)
  then show ?thesis by (auto simp: begin_delivery_def split: option.split sum.split prod.split)
qed

lemma settle_calls: "store_calls digest (dv_system st) (dv_system (fst (settle_delivery p d st)))"
  by (auto simp: settle_delivery_def Let_def intro: update_calls dest!: release_event_system split: sum.split)

lemma postpone_calls: "store_calls digest (dv_system st) (dv_system (fst (postpone_delivery p d t st)))"
  by (auto simp: postpone_delivery_def Let_def intro: update_calls split: sum.split)

lemma finish_calls: "store_calls digest (dv_system st) (dv_system (fst (finish_delivery cfg clock fl outcome st)))"
proof -
  have "store_calls digest (dv_system st) (dv_system (fst (record_outcome cfg fl outcome ms st)))" for ms
    by (simp add: record_outcome_def Let_def settle_calls postpone_calls)
  then show ?thesis
    by (auto simp: finish_delivery_def split: sum.split prod.split) (metis fst_conv)+
qed

lemma run_deliverer_op_calls:
  "store_calls (dc_digest cfg) (dv_system (fst x)) (dv_system (fst (run_deliverer_op cfg op x)))"
proof -
  obtain st fls where x: "x = (st, fls)" by (cases x)
  show ?thesis
  proof (cases op)
    case (Vop_Begin cs p i)
    then show ?thesis
      using begin_calls[of "dc_digest cfg" st cfg "clock_of cs" p i] x
      by (auto split: prod.split sum.split begun.split)
  next
    case (Vop_Fail p i t)
    then show ?thesis
      using x by (simp add: with_log_def) (rule delivery_call[of "Dop_Fail p i t"], simp)
  next
    case (Vop_Reset p i)
    then show ?thesis
      using x by (simp add: with_log_def) (rule delivery_call[of "Dop_Reset p i"], simp)
  qed (use x in \<open>simp_all add: admit_event_calls handle_select_calls finish_calls job_calls\<close>)
qed

lemma run_deliverer_ops_calls:
  "store_calls (dc_digest cfg) (dv_system (fst x)) (dv_system (fst (run_deliverer_ops cfg ops x)))"
proof (induction ops arbitrary: x)
  case (Cons op ops)
  from store_calls_trans[OF run_deliverer_op_calls Cons.IH] show ?case by simp
qed simp

subsection \<open>Events refer to deliveries that exist\<close>

definition refs_exist :: "webhook_system \<Rightarrow> bool" where
  "refs_exist sys \<longleftrightarrow> all_entries (\<lambda>k ids. \<forall>i \<in> set ids.
     map_of (deliveries (sys_deliveries sys)) (fst k, i) \<noteq> None) (event_deliveries (sys_work sys))"

definition system_sound :: "webhook_system \<Rightarrow> bool" where
  "system_sound sys \<longleftrightarrow> delivery_store_wf (sys_deliveries sys) \<and> refs_exist sys"

lemma empty_system_sound [simp]: "system_sound empty_webhook_system"
  by (simp add: system_sound_def refs_exist_def empty_webhook_system_def empty_work_store_def)

lemma row_stays:
  assumes "delivery_store_wf ds" "map_of (deliveries ds) k \<noteq> None"
  shows "map_of (deliveries (run_delivery_ops ops ds)) k \<noteq> None"
proof -
  obtain d where d: "map_of (deliveries ds) k = Some d" using assms(2) by blast
  moreover obtain n where "map_of (delivery_sequences ds) k = Some n"
    using delivery_sequence_exists[OF assms(1), of k] assms(2) by (cases "map_of (delivery_sequences ds) k") auto
  ultimately show ?thesis using run_delivery_ops_row[OF assms(1), of k d n ops] by auto
qed

lemma materialize_each_exist:
  "materialize_each digest ev p e seen eps ds = (ds', Inr rows) \<Longrightarrow> delivery_store_wf ds \<Longrightarrow>
     \<forall>ep \<in> set eps. map_of (deliveries ds') (p, deterministic_delivery_id digest p e ep) \<noteq> None"
proof (induction eps arbitrary: seen ds rows)
  case (Cons ep eps)
  from Cons.prems(1) obtain ds1 row rest where c: "create_deterministic p (deterministic_delivery_id digest p e ep)
      \<lparr>cd_endpoint = ep, cd_event = e, cd_event_type = ew_event_type ev, cd_created_at = ew_created_at ev\<rparr> ds =
      Inr (ds1, row)"
    and rest: "materialize_each digest ev p e (ep # seen) eps ds1 = (ds', Inr rest)" "rows = row # rest"
    by (rule materialize_each_Cons_Inr)
  note row = create_stored[OF c Cons.prems(2)]
  have "map_of (deliveries ds1) (p, deterministic_delivery_id digest p e ep) \<noteq> None"
    using row(1,2,5) by (auto simp: stored_row_def get_sequenced_def split: option.splits)
  moreover obtain ops where "ds' = run_delivery_ops ops ds1"
    using materialize_each_run[of digest ev p e "ep # seen" eps ds1] rest(1) by auto
  ultimately have "map_of (deliveries ds') (p, deterministic_delivery_id digest p e ep) \<noteq> None"
    using row_stays[OF row(6)] by simp
  then show ?case using Cons.IH[OF rest(1) row(6)] by simp
qed simp

lemma refs_existI:
  assumes "refs_exist sys" "delivery_store_wf (sys_deliveries sys)"
    and "sys_deliveries sys' = run_delivery_ops ops (sys_deliveries sys)"
    and "event_deliveries (sys_work sys') = event_deliveries (sys_work sys) \<or>
      (\<exists>k ids. event_deliveries (sys_work sys') = js_set k ids (event_deliveries (sys_work sys)) \<and>
        (\<forall>i \<in> set ids. map_of (deliveries (sys_deliveries sys')) (fst k, i) \<noteq> None))"
  shows "refs_exist sys'"
proof -
  have "all_entries (\<lambda>k ids. \<forall>i \<in> set ids. map_of (deliveries (sys_deliveries sys')) (fst k, i) \<noteq> None)
      (event_deliveries (sys_work sys))"
    using assms(1) row_stays[OF assms(2)]
    unfolding refs_exist_def assms(3) by (elim all_entries_mono) blast
  then show ?thesis using assms(4) unfolding refs_exist_def by (elim disjE exE conjE) simp_all
qed

lemma materialize_event_sound:
  assumes "system_sound sys"
  shows "system_sound (fst (materialize_event digest p e eps t sys))"
proof -
  let ?sys' = "fst (materialize_event digest p e eps t sys)"
  obtain dops where dops: "sys_deliveries ?sys' = run_delivery_ops dops (sys_deliveries sys)"
    using materialize_event_extends[of sys digest p e eps t] by (auto simp: system_extends_def)
  have wf: "delivery_store_wf (sys_deliveries sys)" "refs_exist sys" using assms by (simp_all add: system_sound_def)
  have "event_deliveries (sys_work ?sys') = event_deliveries (sys_work sys) \<or>
      (\<exists>k ids. event_deliveries (sys_work ?sys') = js_set k ids (event_deliveries (sys_work sys)) \<and>
        (\<forall>i \<in> set ids. map_of (deliveries (sys_deliveries ?sys')) (fst k, i) \<noteq> None))"
  proof (cases "get_event p e sys")
    case (Some ev)
    show ?thesis
    proof (cases "ew_materialized_at ev")
      case None
      obtain ds r where m: "materialize_each digest ev p e [] eps (sys_deliveries sys) = (ds, r)" by fastforce
      show ?thesis
      proof (cases r)
        case (Inr rows)
        then have "\<forall>i \<in> set (map (deterministic_delivery_id digest p e) eps). map_of (deliveries ds) (p, i) \<noteq> None"
          using materialize_each_exist[OF _ wf(1)] m by simp
        then have "\<exists>k ids. event_deliveries (sys_work ?sys') = js_set k ids (event_deliveries (sys_work sys)) \<and>
            (\<forall>i \<in> set ids. map_of (deliveries (sys_deliveries ?sys')) (fst k, i) \<noteq> None)"
          by (intro exI[of _ "(p, e)"] exI[of _ "map (deterministic_delivery_id digest p e) eps"])
            (cases "to_iso t", simp_all add: materialize_event_def Some None m Inr Let_def)
        then show ?thesis by blast
      qed (simp add: materialize_event_def Some None m)
    qed (simp add: materialize_event_def Some)
  qed (simp add: materialize_event_def)
  then have "refs_exist ?sys'" by (rule refs_existI[OF wf(2,1) dops])
  then show ?thesis using run_delivery_ops_wf[OF wf(1)] dops by (simp add: system_sound_def)
qed

lemma ensure_event_ids [simp]:
  "event_deliveries (sys_work (fst (ensure_event digest wall inp sys))) = event_deliveries (sys_work sys)"
  by (simp add: ensure_event_def Let_def split: option.split sum.split)

lemma run_system_op_sound:
  assumes "system_sound sys"
  shows "system_sound (run_system_op digest op sys)"
proof (cases op)
  case (Sop_Ensure wall inp)
  then show ?thesis using assms by (simp add: system_sound_def refs_exist_def)
next
  case (Sop_Materialize p e eps t)
  then show ?thesis using materialize_event_sound[OF assms] by simp
next
  case (Sop_Delivery dop)
  have "refs_exist (sys\<lparr>sys_deliveries := run_delivery_op dop (sys_deliveries sys)\<rparr>)"
    by (rule refs_existI[of sys _ "[dop]"]) (use assms in \<open>simp_all add: system_sound_def\<close>)
  then show ?thesis using assms Sop_Delivery run_delivery_op_wf by (simp add: system_sound_def)
next
  case (Sop_Job jop)
  then show ?thesis using assms by (simp add: system_sound_def refs_exist_def)
qed

interpretation webhook_stores: call_history system_sound "run_system_op digest" "run_system_ops digest"
  for digest
  by unfold_locales (simp_all add: run_system_op_sound)

lemma store_calls_sound: "store_calls digest sys sys' \<Longrightarrow> system_sound sys \<Longrightarrow> system_sound sys'"
  unfolding store_calls_def using webhook_stores.steps_inv by blast

lemma get_materialized_sound:
  assumes "system_sound sys"
  obtains rows where "get_materialized p e sys = Inr rows"
proof -
  let ?ids = "case ids_of sys (p, e) of None \<Rightarrow> [] | Some ids \<Rightarrow> ids"
  have exist: "get_sequenced p i (sys_deliveries sys) \<noteq> None" if "i \<in> set ?ids" for i
  proof -
    from that obtain ids where ids: "ids_of sys (p, e) = Some ids" "i \<in> set ids"
      by (cases "ids_of sys (p, e)") auto
    then have d: "map_of (deliveries (sys_deliveries sys)) (p, i) \<noteq> None"
      using assms by (force simp: system_sound_def refs_exist_def dest: all_entriesD)
    then show ?thesis
      using delivery_sequence_exists[of "sys_deliveries sys" "(p, i)"] assms
      by (auto simp: system_sound_def get_sequenced_def split: option.splits)
  qed
  have "length (List.map_filter (\<lambda>i. get_sequenced p i (sys_deliveries sys)) is) = length is"
    if "set is \<subseteq> set ?ids" for "is"
    using that exist by (induction "is") (auto simp: List.map_filter_simps split: option.splits)
  then show thesis using that by (auto simp: get_materialized_def Let_def)
qed

text \<open>The deliverer touches its three stores through their operations only: the stores after any
  history of the deliverer, with handlers that fail half way and requests in flight, are the stores after
  some history of their own calls. What the work store, the delivery log and the job store promise over
  all histories therefore holds for every run of the deliverer.\<close>

theorem deliverer_refines_stores:
  "\<exists>sops. dv_system (run_deliverer cfg ops) = run_system_ops (dc_digest cfg) sops empty_webhook_system"
  using run_deliverer_ops_calls[of cfg "(fresh_deliverer, [])" ops]
  by (simp add: store_calls_def run_deliverer_def fresh_deliverer_def)

end
