(* ===== verification/Delivery_Runs.thy ===== *)
theory Delivery_Runs
  imports Deliverer_Stores
begin

text \<open>
  What the runs of one delivery job do: a run that is due, with an event that resolves and an active
  endpoint, records exactly one attempt; and after as many due runs as the schedule has delays the delivery
  is finished, successful exactly when one of the requests was accepted.
\<close>

subsection \<open>A run that is due\<close>

text \<open>The run at three readings of the clock: when it starts, before the request and after it.\<close>

record delivery_run =
  dr_start :: int
  dr_attempted :: int
  dr_completed :: int
  dr_outcome :: fetch_outcome

definition run_clock :: "delivery_run \<Rightarrow> nat \<Rightarrow> int option" where
  "run_clock r i = (if i = 0 then Some (dr_start r) else Some (dr_attempted r))"

definition run_delivery ::
    "deliverer_config \<Rightarrow> string \<Rightarrow> string \<Rightarrow> delivery_run \<Rightarrow> deliverer_state \<Rightarrow>
     deliverer_state \<times> job_handler_result result" where
  "run_delivery cfg p i r =
     handle_deliver_job cfg (run_clock r) (\<lambda>_. Some (dr_completed r)) (dr_outcome r) p i"

definition run_in_range :: "int list \<Rightarrow> delivery_run \<Rightarrow> bool" where
  "run_in_range delays r \<longleftrightarrow> date_in_range (dr_start r) \<and> date_in_range (dr_attempted r) \<and>
     date_in_range (dr_completed r) \<and> (\<forall>delay \<in> set delays. date_in_range (dr_completed r + delay))"

definition attempt_of :: "deliverer_config \<Rightarrow> webhook_delivery \<Rightarrow> delivery_run \<Rightarrow> delivery_attempt" where
  "attempt_of cfg d r = \<lparr>da_attempt = int (length (wd_attempts d)) + 1, da_attempted_at = Iso (dr_attempted r),
     da_completed_at = Iso (dr_completed r),
     da_status_code = (case dr_outcome r of Fetch_Status code \<Rightarrow> Some code | _ \<Rightarrow> None),
     da_error = attempt_error cfg (dr_outcome r)\<rparr>"

text \<open>The delivery after a run, and the result of the handler.\<close>

definition attempted ::
    "deliverer_config \<Rightarrow> webhook_delivery \<Rightarrow> delivery_run \<Rightarrow> webhook_delivery \<Rightarrow> job_handler_result \<Rightarrow> bool" where
  "attempted cfg d r d' res \<longleftrightarrow>
     same_delivery_identity d d' \<and> wd_attempts d' = wd_attempts d @ [attempt_of cfg d r] \<and>
     (if accepted_by_endpoint (dr_outcome r) \<or> length (dc_retry_delays cfg) \<le> length (wd_attempts d')
      then wd_status d' = (if accepted_by_endpoint (dr_outcome r) then Dl_Succeeded else Dl_Failed) \<and>
        wd_next_retry_at d' = None \<and> wd_completed_at d' = Some (Iso (dr_completed r)) \<and> res = Handler_Complete
      else wd_status d' = Dl_Pending \<and>
        wd_next_retry_at d' = Some (Iso (dr_completed r + dc_retry_delays cfg ! length (wd_attempts d'))) \<and>
        res = Handler_Reschedule (Iso (dr_completed r + dc_retry_delays cfg ! length (wd_attempts d'))))"

text \<open>What the handler looks up, and what it finds.\<close>

definition deliverable :: "string \<Rightarrow> webhook_delivery \<Rightarrow> deliverer_state \<Rightarrow> bool" where
  "deliverable p d st \<longleftrightarrow>
     (case get_event p (wd_event d) (dv_system st) of
        None \<Rightarrow> False | Some ew \<Rightarrow> resolve_event ew st \<noteq> None) \<and>
     (case get_for_delivery p (wd_endpoint d) (dv_endpoints st) of None \<Rightarrow> False | Some ep \<Rightarrow> we_active ep)"

definition due :: "delivery_run \<Rightarrow> webhook_delivery \<Rightarrow> bool" where
  "due r d \<longleftrightarrow> open_delivery d \<and> not_yet_due (dr_start r) d = None"

text \<open>Two states that differ in one row of the delivery log and in the remembered events only.\<close>

definition same_but_row :: "delivery_key \<Rightarrow> deliverer_state \<Rightarrow> deliverer_state \<Rightarrow> bool" where
  "same_but_row k st st' \<longleftrightarrow> sys_work (dv_system st') = sys_work (dv_system st) \<and>
     sys_jobs (dv_system st') = sys_jobs (dv_system st) \<and> dv_endpoints st' = dv_endpoints st \<and>
     dv_executions st' = dv_executions st \<and> dv_sources st' = dv_sources st \<and> dv_accepting st' = dv_accepting st \<and>
     (\<forall>k'. k' \<noteq> k \<longrightarrow> map_of (deliveries (log_of st')) k' = map_of (deliveries (log_of st)) k')"

lemma update_accepted:
  assumes "map_of (deliveries ds) (p, wd_id d) = Some prev" "same_delivery_identity prev d"
    and "valid_delivery_transition (wd_status prev) (wd_status d)"
    and "attempts_appended (wd_attempts prev) (wd_attempts d)" "appended_valid (wd_attempts prev) (wd_attempts d)"
  shows "update_delivery p d ds = Inr (put_delivery (p, wd_id d) d ds)"
  using assms by (simp add: update_delivery_def same_delivery_identity_def)

lemma attempts_appended_same [simp]: "attempts_appended xs xs"
  by (simp add: attempts_appended_iff)

lemma appended_valid_same [simp]: "appended_valid xs xs"
  by (simp add: appended_valid_def)

text \<open>The state and the flight in which the request is made.\<close>

definition in_flight ::
    "string \<Rightarrow> string \<Rightarrow> webhook_delivery \<Rightarrow> deliverer_state \<Rightarrow> deliverer_state \<Rightarrow> webhook_delivery \<Rightarrow> bool" where
  "in_flight p i d st st1 dl \<longleftrightarrow> same_but_row (p, i) st st1 \<and> get_delivery p i (log_of st1) = Some dl \<and>
     same_delivery_identity d dl \<and> wd_attempts dl = wd_attempts d \<and> wd_status dl = Dl_Delivering \<and>
     wd_next_retry_at dl = None \<and> dv_volatile st1 = dv_volatile st"

lemma recover_due:
  assumes "get_delivery p i (log_of st) = Some d" "open_delivery d" "recover_delivering p i d st = (st0, d0)"
  shows "same_but_row (p, i) st st0" "dv_volatile st0 = dv_volatile st" "get_delivery p i (log_of st0) = Some d0"
    "same_delivery_identity d d0" "wd_attempts d0 = wd_attempts d" "wd_status d0 = Dl_Pending"
proof -
  have d: "map_of (deliveries (log_of st)) (p, i) = Some d" using assms(1) by (simp add: get_delivery_def)
  show "same_but_row (p, i) st st0" "dv_volatile st0 = dv_volatile st" "get_delivery p i (log_of st0) = Some d0"
    "same_delivery_identity d d0" "wd_attempts d0 = wd_attempts d" "wd_status d0 = Dl_Pending"
    using assms(2,3) d
    by (cases "wd_status d";
        fastforce simp: recover_delivering_def Let_def reset_for_recovery_def get_delivery_def put_delivery_def
          or_else_def same_but_row_def same_delivery_identity_def open_delivery_def)+
qed

lemma resolve_event_same:
  "same_but_row k st st' \<Longrightarrow> dv_volatile st' = dv_volatile st \<Longrightarrow> resolve_event ew st' = resolve_event ew st"
  unfolding same_but_row_def resolve_event_def by (elim conjE) (simp only:)

lemma deliverableE:
  assumes "deliverable p d st"
  obtains ew ev ep where "get_event p (wd_event d) (dv_system st) = Some ew" "resolve_event ew st = Some ev"
    "get_for_delivery p (wd_endpoint d) (dv_endpoints st) = Some ep" "we_active ep"
  using assms by (auto simp: deliverable_def split: option.splits)

lemma deliverable_same:
  assumes "deliverable p d st" "same_but_row k st st'" "dv_volatile st' = dv_volatile st" "same_delivery_identity d d'"
  shows "deliverable p d' st'"
  using assms(1)
proof (rule deliverableE)
  fix ew ev ep
  assume found: "get_event p (wd_event d) (dv_system st) = Some ew" "resolve_event ew st = Some ev"
    "get_for_delivery p (wd_endpoint d) (dv_endpoints st) = Some ep" "we_active ep"
  have same: "wd_event d' = wd_event d" "wd_endpoint d' = wd_endpoint d" "dv_endpoints st' = dv_endpoints st"
    "sys_work (dv_system st') = sys_work (dv_system st)"
    using assms(2,4) by (simp_all add: same_but_row_def same_delivery_identity_def)
  have "get_event p (wd_event d) (dv_system st') = Some ew" using found(1) same(4) by (simp add: get_event_def)
  then show ?thesis
    using found(2-4) same(1-3) resolve_event_same[OF assms(2,3)] by (simp add: deliverable_def)
qed

lemma attempt_launches:
  assumes "get_event p (wd_event d) (dv_system st) = Some ew" "resolve_event ew st = Some ev"
    "get_for_delivery p (wd_endpoint d) (dv_endpoints st) = Some ep" "we_active ep"
  shows "attempt_delivery cfg reading p i d st = launch_delivery cfg p d ev ep reading st"
  by (simp add: attempt_delivery_def Let_def assms)

lemma begin_delivery_attempts:
  assumes "get_delivery p i (log_of st) = Some d" "due r d" "date_in_range (dr_start r)"
    and "recover_delivering p i d st = (st0, d0)"
  shows "begin_delivery cfg (run_clock r) p i st = attempt_delivery cfg (Some (dr_attempted r)) p i d0 st0"
proof -
  have "\<not> (wd_status d = Dl_Succeeded \<or> wd_status d = Dl_Failed)" "not_yet_due (dr_start r) d = None"
    using assms(2) by (auto simp: due_def open_delivery_def)
  moreover have "deliverer_clock (run_clock r 0) = Inr (dr_start r)" "run_clock r 1 = Some (dr_attempted r)"
    using assms(3) by (simp_all add: run_clock_def deliverer_clock_def read_clock_def)
  ultimately show ?thesis using assms(1,4) by (simp add: begin_delivery_def)
qed

lemma begin_delivery_due:
  assumes "system_sound (dv_system st)" "get_delivery p i (log_of st) = Some d" "deliverable p d st" "due r d"
    and "date_in_range (dr_start r)" "date_in_range (dr_attempted r)"
  obtains st1 dl fl where "begin_delivery cfg (run_clock r) p i st = (st1, Inr (Begun_Flight fl))"
    "in_flight p i d st st1 dl" "fl_project fl = p" "fl_delivery fl = dl"
    "fl_attempt fl = int (length (wd_attempts d)) + 1" "fl_attempted_at fl = dr_attempted r"
proof -
  have id: "wd_id d = i"
    using assms(1,2) delivery_store_wf_row[of "log_of st" "(p, i)" d]
    by (simp add: system_sound_def get_delivery_def delivery_row_wf_def)
  obtain st0 d0 where rec: "recover_delivering p i d st = (st0, d0)" by fastforce
  have "open_delivery d" using assms(4) by (simp add: due_def)
  note st0 = recover_due[OF assms(2) this rec]
  have same: "wd_id d0 = i" using st0(4) id by (simp add: same_delivery_identity_def)
  obtain ew ev ep where found: "get_event p (wd_event d0) (dv_system st0) = Some ew" "resolve_event ew st0 = Some ev"
    "get_for_delivery p (wd_endpoint d0) (dv_endpoints st0) = Some ep" "we_active ep"
    using deliverable_same[OF assms(3) st0(1,2,4)] by (rule deliverableE)
  let ?dl = "(without_next_retry d0)\<lparr>wd_status := Dl_Delivering\<rparr>"
  have dl: "same_delivery_identity d0 ?dl" "wd_attempts ?dl = wd_attempts d0" "wd_id ?dl = i"
    by (simp_all add: without_next_retry_def same_delivery_identity_def same)
  have upd: "update_delivery p ?dl (log_of st0) = Inr (put_delivery (p, i) ?dl (log_of st0))"
    using update_accepted[of "log_of st0" p ?dl d0] st0(3,6) dl
    by (simp add: get_delivery_def valid_delivery_transition_def)
  let ?st1 = "st0\<lparr>dv_system := (dv_system st0)\<lparr>sys_deliveries := put_delivery (p, i) ?dl (log_of st0)\<rparr>\<rparr>"
  let ?fl = "\<lparr>fl_project = p, fl_delivery = ?dl, fl_attempt = int (length (wd_attempts ?dl)) + 1,
    fl_attempted_at = dr_attempted r, fl_request = signed_request cfg ep (wd_event ?dl) ev (dr_attempted r)\<rparr>"
  have launch: "launch_delivery cfg p d0 ev ep (Some (dr_attempted r)) st0 = (?st1, Inr (Begun_Flight ?fl))"
    using upd assms(6) by (simp add: launch_delivery_def Let_def deliverer_clock_def read_clock_def)
  have started: "begin_delivery cfg (run_clock r) p i st = (?st1, Inr (Begun_Flight ?fl))"
    using begin_delivery_attempts[OF assms(2,4,5) rec] attempt_launches[OF found] launch by simp
  have flying: "in_flight p i d st ?st1 ?dl"
    using st0 dl
    by (simp add: in_flight_def same_but_row_def get_delivery_def put_delivery_def same_delivery_identity_def
        without_next_retry_def)
  show thesis by (rule that[OF started flying]) (simp_all add: st0(5) dl(2))
qed

subsection \<open>The outcome of the request\<close>

lemma same_but_row_trans: "same_but_row k a b \<Longrightarrow> same_but_row k b c \<Longrightarrow> same_but_row k a c"
  by (simp add: same_but_row_def)

lemma release_event_same:
  "release_event_if_terminal p e st = Inr st' \<Longrightarrow> same_but_row k st st' \<and> log_of st' = log_of st"
  by (auto simp: release_event_if_terminal_def bind_result_Inr_iff same_but_row_def forget_event_def split: if_splits)

lemma settle_delivery_runs:
  assumes "system_sound (dv_system st)" "update_delivery p d (log_of st) = Inr (put_delivery (p, i) d (log_of st))"
  obtains st' where "settle_delivery p d st = (st', Inr Handler_Complete)" "same_but_row (p, i) st st'"
    "get_delivery p i (log_of st') = Some d"
proof -
  let ?st1 = "st\<lparr>dv_system := (dv_system st)\<lparr>sys_deliveries := put_delivery (p, i) d (log_of st)\<rparr>\<rparr>"
  have "system_sound (dv_system ?st1)"
    using store_calls_sound[OF update_calls[OF assms(2)] assms(1)] by simp
  then obtain rows where "get_materialized p (wd_event d) (dv_system ?st1) = Inr rows"
    by (rule get_materialized_sound)
  then obtain st2 where st2: "release_event_if_terminal p (wd_event d) ?st1 = Inr st2"
    by (simp add: release_event_if_terminal_def)
  have "same_but_row (p, i) st ?st1" by (simp add: same_but_row_def put_delivery_def)
  then have "same_but_row (p, i) st st2" "get_delivery p i (log_of st2) = Some d"
    using release_event_same[OF st2, of "(p, i)"] same_but_row_trans
    by (blast, simp add: get_delivery_def put_delivery_def)
  then show thesis using that assms(2) st2 by (simp add: settle_delivery_def Let_def)
qed

lemma postpone_delivery_runs:
  assumes "date_in_range t" "wd_id d = i"
    and "update_delivery p (d\<lparr>wd_next_retry_at := Some (Iso t)\<rparr>) (log_of st) =
      Inr (put_delivery (p, i) (d\<lparr>wd_next_retry_at := Some (Iso t)\<rparr>) (log_of st))"
  obtains st' where "postpone_delivery p d t st = (st', Inr (Handler_Reschedule (Iso t)))"
    "same_but_row (p, i) st st'" "dv_volatile st' = dv_volatile st"
    "get_delivery p i (log_of st') = Some (d\<lparr>wd_next_retry_at := Some (Iso t)\<rparr>)"
proof -
  let ?d = "d\<lparr>wd_next_retry_at := Some (Iso t)\<rparr>"
  let ?st1 = "st\<lparr>dv_system := (dv_system st)\<lparr>sys_deliveries := put_delivery (p, i) ?d (log_of st)\<rparr>\<rparr>"
  have "postpone_delivery p d t st = (?st1, Inr (Handler_Reschedule (Iso t)))"
    using assms by (simp add: postpone_delivery_def)
  then show thesis by (rule that) (simp_all add: same_but_row_def put_delivery_def get_delivery_def)
qed

lemma due_run:
  assumes "system_sound (dv_system st)" "get_delivery p i (log_of st) = Some d" "deliverable p d st" "due r d"
    and "run_in_range (dc_retry_delays cfg) r"
  shows "\<exists>st' d' res. run_delivery cfg p i r st = (st', Inr res) \<and> get_delivery p i (log_of st') = Some d' \<and>
    attempted cfg d r d' res \<and> same_but_row (p, i) st st' \<and>
    (open_delivery d' \<longrightarrow> dv_volatile st' = dv_volatile st)"
proof -
  have range: "date_in_range (dr_start r)" "date_in_range (dr_attempted r)" "date_in_range (dr_completed r)"
    using assms(5) by (simp_all add: run_in_range_def)
  obtain st1 dl fl where fl: "begin_delivery cfg (run_clock r) p i st = (st1, Inr (Begun_Flight fl))"
    "in_flight p i d st st1 dl" "fl_project fl = p" "fl_delivery fl = dl"
    "fl_attempt fl = int (length (wd_attempts d)) + 1" "fl_attempted_at fl = dr_attempted r"
    by (rule begin_delivery_due[OF assms(1-4) range(1,2)])
  have dl: "same_but_row (p, i) st st1" "get_delivery p i (log_of st1) = Some dl" "same_delivery_identity d dl"
    "wd_attempts dl = wd_attempts d" "wd_status dl = Dl_Delivering" "wd_next_retry_at dl = None"
    "dv_volatile st1 = dv_volatile st"
    using fl(2) unfolding in_flight_def by blast+
  have sound: "system_sound (dv_system st1)"
    using store_calls_sound[OF begin_calls[of "dc_digest cfg" st cfg "run_clock r" p i] assms(1)] fl(1) by simp
  have id: "wd_id dl = i"
    using sound dl(2) delivery_store_wf_row[of "log_of st1" "(p, i)" dl]
    by (simp add: system_sound_def get_delivery_def delivery_row_wf_def)
  have a: "recorded_attempt cfg fl (dr_outcome r) (dr_completed r) = attempt_of cfg d r"
    by (simp add: recorded_attempt_def attempt_of_def fl(5,6))
  have n: "nat (fl_attempt fl) = Suc (length (wd_attempts d))" by (simp add: fl(5))
  have upd: "update_delivery p d' (log_of st1) = Inr (put_delivery (p, i) d' (log_of st1))"
    if "same_delivery_identity dl d'" "wd_attempts d' = wd_attempts d @ [attempt_of cfg d r]"
      "wd_status d' = Dl_Succeeded \<or> wd_status d' = Dl_Failed \<or> wd_status d' = Dl_Pending" for d'
    using update_accepted[of "log_of st1" p d' dl] that dl(2,4,5) id
    by (auto simp: get_delivery_def same_delivery_identity_def valid_delivery_transition_def attempts_appended_iff
        appended_valid_def attempt_of_def)
  let ?dn = "(without_next_retry dl)\<lparr>wd_attempts := wd_attempts d @ [attempt_of cfg d r]\<rparr>"
  have finish: "run_delivery cfg p i r st = (case record_outcome cfg fl (dr_outcome r) (dr_completed r) st1 of
      (st2, Inl err) \<Rightarrow> (st2, retry_soon (Some (dr_completed r))) | (st2, Inr res) \<Rightarrow> (st2, Inr res))"
    using fl(1) range(3)
    by (simp add: run_delivery_def handle_deliver_job_def finish_delivery_def deliverer_clock_def read_clock_def)
  show ?thesis
  proof (cases "accepted_by_endpoint (dr_outcome r) \<or> length (dc_retry_delays cfg) \<le> Suc (length (wd_attempts d))")
    case True
    let ?d' = "?dn\<lparr>wd_status := if accepted_by_endpoint (dr_outcome r) then Dl_Succeeded else Dl_Failed,
      wd_completed_at := Some (Iso (dr_completed r))\<rparr>"
    have "same_delivery_identity dl ?d'" by (simp add: same_delivery_identity_def without_next_retry_def)
    then have "update_delivery p ?d' (log_of st1) = Inr (put_delivery (p, i) ?d' (log_of st1))" by (rule upd) simp_all
    then obtain st2 where st2: "settle_delivery p ?d' st1 = (st2, Inr Handler_Complete)" "same_but_row (p, i) st1 st2"
      "get_delivery p i (log_of st2) = Some ?d'"
      by (rule settle_delivery_runs[OF sound])
    have "record_outcome cfg fl (dr_outcome r) (dr_completed r) st1 = (st2, Inr Handler_Complete)"
      using True st2(1) unfolding record_outcome_def Let_def a n fl(3,4) dl(4) by auto
    then have run: "run_delivery cfg p i r st = (st2, Inr Handler_Complete)" using finish by simp
    have att: "attempted cfg d r ?d' Handler_Complete"
      using True dl(3) by (auto simp: attempted_def same_delivery_identity_def without_next_retry_def)
    have "\<not> open_delivery ?d'" by (simp add: open_delivery_def)
    then show ?thesis using run att st2(3) same_but_row_trans[OF dl(1) st2(2)] by blast
  next
    case False
    let ?t = "dr_completed r + dc_retry_delays cfg ! Suc (length (wd_attempts d))"
    let ?dp = "?dn\<lparr>wd_status := Dl_Pending\<rparr>" and ?d' = "?dn\<lparr>wd_status := Dl_Pending, wd_next_retry_at := Some (Iso ?t)\<rparr>"
    have t: "date_in_range ?t" using False assms(5) by (simp add: run_in_range_def)
    have "update_delivery p (?dp\<lparr>wd_next_retry_at := Some (Iso ?t)\<rparr>) (log_of st1) =
        Inr (put_delivery (p, i) (?dp\<lparr>wd_next_retry_at := Some (Iso ?t)\<rparr>) (log_of st1))"
      by (rule upd) (simp_all add: same_delivery_identity_def without_next_retry_def)
    moreover have "wd_id ?dp = i" by (simp add: without_next_retry_def id)
    ultimately obtain st2 where st2: "postpone_delivery p ?dp ?t st1 = (st2, Inr (Handler_Reschedule (Iso ?t)))"
      "same_but_row (p, i) st1 st2" "dv_volatile st2 = dv_volatile st1"
      "get_delivery p i (log_of st2) = Some (?dp\<lparr>wd_next_retry_at := Some (Iso ?t)\<rparr>)"
      using postpone_delivery_runs[OF t] by blast
    have "record_outcome cfg fl (dr_outcome r) (dr_completed r) st1 = (st2, Inr (Handler_Reschedule (Iso ?t)))"
      using False st2(1) unfolding record_outcome_def Let_def a n fl(3,4) dl(4) by simp
    then have run: "run_delivery cfg p i r st = (st2, Inr (Handler_Reschedule (Iso ?t)))" using finish by simp
    have att: "attempted cfg d r (?dp\<lparr>wd_next_retry_at := Some (Iso ?t)\<rparr>) (Handler_Reschedule (Iso ?t))"
      using False dl(3) by (auto simp: attempted_def same_delivery_identity_def without_next_retry_def)
    show ?thesis using run att st2(3,4) dl(7) same_but_row_trans[OF dl(1) st2(2)] by auto
  qed
qed


subsection \<open>Every delivery ends\<close>

fun run_deliveries ::
    "deliverer_config \<Rightarrow> string \<Rightarrow> string \<Rightarrow> delivery_run list \<Rightarrow> deliverer_state \<Rightarrow> deliverer_state" where
  "run_deliveries cfg p i [] st = st"
| "run_deliveries cfg p i (r # rs) st = run_deliveries cfg p i rs (fst (run_delivery cfg p i r st))"

text \<open>Each run comes when the delivery is due, as long as it is not finished.\<close>

fun runs_due ::
    "deliverer_config \<Rightarrow> string \<Rightarrow> string \<Rightarrow> delivery_run list \<Rightarrow> deliverer_state \<Rightarrow> bool" where
  "runs_due cfg p i [] st \<longleftrightarrow> True"
| "runs_due cfg p i (r # rs) st \<longleftrightarrow>
     (case get_delivery p i (log_of st) of
        None \<Rightarrow> True
      | Some d \<Rightarrow> \<not> open_delivery d \<or> (due r d \<and> run_in_range (dc_retry_delays cfg) r)) \<and>
     runs_due cfg p i rs (fst (run_delivery cfg p i r st))"

lemma run_delivery_finished:
  assumes "get_delivery p i (log_of st) = Some d" "\<not> open_delivery d"
  shows "run_delivery cfg p i r st = (st, Inr Handler_Complete)"
proof -
  have "wd_status d = Dl_Succeeded \<or> wd_status d = Dl_Failed"
    using assms(2) by (cases "wd_status d") (simp_all add: open_delivery_def)
  then show ?thesis using assms(1) by (simp add: run_delivery_def handle_deliver_job_def begin_delivery_def)
qed

lemma run_deliveries_finished:
  "get_delivery p i (log_of st) = Some d \<Longrightarrow> \<not> open_delivery d \<Longrightarrow> run_deliveries cfg p i rs st = st"
  by (induction rs) (simp_all add: run_delivery_finished)

lemma run_delivery_sound:
  assumes "system_sound (dv_system st)"
  shows "system_sound (dv_system (fst (run_delivery cfg p i r st)))"
proof -
  obtain st1 res where b: "begin_delivery cfg (run_clock r) p i st = (st1, res)" by fastforce
  have one: "system_sound (dv_system st1)"
    using store_calls_sound[OF begin_calls[of "dc_digest cfg" st cfg "run_clock r" p i] assms] b by simp
  then have "system_sound (dv_system (fst (finish_delivery cfg c fl o' st1)))" for c fl o'
    using store_calls_sound[OF finish_calls[of "dc_digest cfg"]] by blast
  with one show ?thesis
    by (simp add: run_delivery_def handle_deliver_job_def b split: sum.split begun.split)
qed

lemma attempted_unfinished:
  assumes "attempted cfg d r d' res"
  shows "open_delivery d' \<longleftrightarrow> \<not> accepted_by_endpoint (dr_outcome r) \<and>
      Suc (length (wd_attempts d)) < length (dc_retry_delays cfg)"
    and "\<not> open_delivery d' \<Longrightarrow> wd_status d' = (if accepted_by_endpoint (dr_outcome r) then Dl_Succeeded else Dl_Failed)"
    and "same_delivery_identity d d'" "length (wd_attempts d') = Suc (length (wd_attempts d))"
  using assms by (auto simp: attempted_def open_delivery_def split: if_splits)

lemma runs_due_Cons:
  assumes "system_sound (dv_system st)" "get_delivery p i (log_of st) = Some d" "deliverable p d st" "due r d"
    and "run_in_range (dc_retry_delays cfg) r"
    and "\<And>st' d' res. system_sound (dv_system st') \<Longrightarrow> get_delivery p i (log_of st') = Some d' \<Longrightarrow>
      attempted cfg d r d' res \<Longrightarrow> (open_delivery d' \<Longrightarrow> deliverable p d' st') \<Longrightarrow> runs_due cfg p i rs st'"
  shows "runs_due cfg p i (r # rs) st"
proof -
  obtain st' d' res where run: "run_delivery cfg p i r st = (st', Inr res)" "get_delivery p i (log_of st') = Some d'"
    "attempted cfg d r d' res" "same_but_row (p, i) st st'" "open_delivery d' \<Longrightarrow> dv_volatile st' = dv_volatile st"
    using due_run[OF assms(1-5)] by blast
  have sound: "system_sound (dv_system st')" using run_delivery_sound[OF assms(1), of cfg p i r] run(1) by simp
  have "deliverable p d' st'" if "open_delivery d'"
    by (rule deliverable_same[OF assms(3) run(4) run(5)[OF that] attempted_unfinished(3)[OF run(3)]])
  then have "runs_due cfg p i rs st'" by (rule assms(6)[OF sound run(2,3)])
  then show ?thesis using assms(2,4,5) run(1) by simp
qed

text \<open>C29: A deliverable delivery ends. A delivery that is pending or delivering is deliverable when its event
  resolves (from the execution store, a voice source or the memory of the deliverer) and its endpoint exists and
  is active. As many due runs of a deliverable delivery as the retry schedule has delays left finish it, for any
  outcomes of the requests: it has succeeded exactly when one of the requests that the schedule allows was
  accepted, and has failed otherwise; further runs change nothing. Each run comes at or after the next retry time
  and its clock readings are in the range of a date. Without the condition there is no such bound: a run whose
  event or endpoint cannot be used makes no attempt, it reschedules the job or gives the delivery up.\<close>

theorem delivery_ends:
  assumes "system_sound (dv_system st)" "get_delivery p i (log_of st) = Some d" "open_delivery d" "deliverable p d st"
    and "length (wd_attempts d) < length (dc_retry_delays cfg)"
    and "length (dc_retry_delays cfg) - length (wd_attempts d) \<le> length rs" "runs_due cfg p i rs st"
  shows "\<exists>d'. get_delivery p i (log_of (run_deliveries cfg p i rs st)) = Some d' \<and>
    wd_status d' = (if list_ex (\<lambda>r. accepted_by_endpoint (dr_outcome r))
        (take (length (dc_retry_delays cfg) - length (wd_attempts d)) rs) then Dl_Succeeded else Dl_Failed)"
  using assms
proof (induction rs arbitrary: st d)
  case (Cons r rs)
  let ?n = "length (dc_retry_delays cfg) - length (wd_attempts d)"
  have due: "due r d" "run_in_range (dc_retry_delays cfg) r" "runs_due cfg p i rs (fst (run_delivery cfg p i r st))"
    using Cons.prems(2,3,7) by simp_all
  obtain st1 d1 res where run: "run_delivery cfg p i r st = (st1, Inr res)" "get_delivery p i (log_of st1) = Some d1"
    "attempted cfg d r d1 res" "same_but_row (p, i) st st1" "open_delivery d1 \<Longrightarrow> dv_volatile st1 = dv_volatile st"
    using due_run[OF Cons.prems(1,2,4) due(1,2)] by blast
  note d1 = attempted_unfinished[OF run(3)]
  have n: "?n = Suc (length (dc_retry_delays cfg) - length (wd_attempts d1))"
    using Cons.prems(5) d1(4) by simp
  show ?case
  proof (cases "open_delivery d1")
    case True
    have "system_sound (dv_system st1)" using run_delivery_sound[OF Cons.prems(1), of cfg p i r] run(1) by simp
    moreover have "deliverable p d1 st1" by (rule deliverable_same[OF Cons.prems(4) run(4) run(5)[OF True] d1(3)])
    moreover have "length (wd_attempts d1) < length (dc_retry_delays cfg)"
      "length (dc_retry_delays cfg) - length (wd_attempts d1) \<le> length rs" "runs_due cfg p i rs st1"
      using True d1(1,4) n Cons.prems(6) due(3) run(1) by simp_all
    ultimately show ?thesis using Cons.IH[of st1 d1] run(1,2) True d1(1) n by simp
  next
    case False
    then have "get_delivery p i (log_of (run_deliveries cfg p i (r # rs) st)) = Some d1"
      using run_deliveries_finished[OF run(2)] run(1,2) by simp
    moreover have "?n = 1" if "\<not> accepted_by_endpoint (dr_outcome r)" using that False d1(1,4) n Cons.prems(5) by simp
    ultimately show ?thesis using d1(2)[OF False] n by (cases "accepted_by_endpoint (dr_outcome r)") simp_all
  qed
qed simp

subsection \<open>A concrete delivery\<close>

definition demo_row :: webhook_delivery where
  "demo_row = \<lparr>wd_id = ''whd_p/evt_1/whe_1/'', wd_endpoint = ''whe_1'', wd_event = ''evt_1'',
     wd_event_type = ''trigger.mail.received'', wd_status = Dl_Pending, wd_attempts = [], wd_created_at = Iso 5,
     wd_next_retry_at = None, wd_completed_at = None\<rparr>"

definition demo_work :: event_work where
  "demo_work = \<lparr>ew_sequence = 1, ew_project = ''p'', ew_event = ''evt_1'', ew_event_type = ''trigger.mail.received'',
     ew_source_kind = Source_Trigger, ew_source = ''evt_1'', ew_endpoints = Some [''whe_1''], ew_created_at = Iso 5,
     ew_materialized_at = Some (Iso 20)\<rparr>"

definition demo_selected :: deliverer_state where
  "demo_selected = fresh_deliverer\<lparr>
     dv_system :=
       \<lparr>sys_work = \<lparr>work_events = [((''p'', ''evt_1''), demo_work)],
          event_deliveries = [((''p'', ''evt_1''), [''whd_p/evt_1/whe_1/''])], work_sequence = 1\<rparr>,
        sys_deliveries = \<lparr>deliveries = [((''p'', ''whd_p/evt_1/whe_1/''), demo_row)],
          delivery_sequences = [((''p'', ''whd_p/evt_1/whe_1/''), 1)], delivery_sequence = 1\<rparr>,
        sys_jobs = empty_job_store\<rparr>,
     dv_endpoints := [(''p'', [(''whe_1'', demo_endpoint)])],
     dv_volatile := [((''p'', ''evt_1''), demo_event)]\<rparr>"

definition demo_runs :: "delivery_run list" where
  "demo_runs =
     [\<lparr>dr_start = 30, dr_attempted = 31, dr_completed = 40, dr_outcome = Fetch_Status 500\<rparr>,
      \<lparr>dr_start = 1040, dr_attempted = 1041, dr_completed = 11041, dr_outcome = Fetch_Timed_Out\<rparr>,
      \<lparr>dr_start = 16041, dr_attempted = 16042, dr_completed = 16050, dr_outcome = Fetch_Status 204\<rparr>]"

lemma demo_selected_sound: "system_sound (dv_system demo_selected)"
  by (auto simp: system_sound_def delivery_store_wf_def refs_exist_def demo_selected_def fresh_deliverer_def
      all_entries_def delivery_row_wf_def attempts_wf_def demo_row_def numbered_def blank_def js_whitespace_def
      split: if_splits)

lemma demo_selected_facts:
  "get_delivery ''p'' ''whd_p/evt_1/whe_1/'' (log_of demo_selected) = Some demo_row"
  "deliverable ''p'' demo_row demo_selected" "due (hd demo_runs) demo_row"
  "run_in_range (dc_retry_delays demo_config) (hd demo_runs)"
  by code_simp+

lemma demo_runs_due: "runs_due demo_config ''p'' ''whd_p/evt_1/whe_1/'' demo_runs demo_selected"
proof -
  let ?r0 = "demo_runs ! 0" and ?r1 = "demo_runs ! 1" and ?r2 = "demo_runs ! 2"
  have range: "run_in_range (dc_retry_delays demo_config) ?r1" "run_in_range (dc_retry_delays demo_config) ?r2"
    by code_simp+
  have next1: "wd_attempts d = [attempt_of demo_config demo_row ?r0] \<and> open_delivery d \<and> due ?r1 d"
    if "attempted demo_config demo_row ?r0 d res" for d res
    using that by (auto simp: attempted_def demo_row_def demo_config_def demo_runs_def accepted_by_endpoint_def
        due_def open_delivery_def not_yet_due_def)
  have next2: "open_delivery d' \<and> due ?r2 d'" if "attempted demo_config d ?r1 d' res" "length (wd_attempts d) = 1" for d d' res
    using that by (auto simp: attempted_def demo_config_def demo_runs_def accepted_by_endpoint_def
        due_def open_delivery_def not_yet_due_def)
  have "runs_due demo_config ''p'' ''whd_p/evt_1/whe_1/'' [?r0, ?r1, ?r2] demo_selected"
  proof (rule runs_due_Cons[OF demo_selected_sound demo_selected_facts(1,2)])
    fix st1 d1 res1
    assume 1: "system_sound (dv_system st1)" "get_delivery ''p'' ''whd_p/evt_1/whe_1/'' (log_of st1) = Some d1"
      "attempted demo_config demo_row ?r0 d1 res1" "open_delivery d1 \<Longrightarrow> deliverable ''p'' d1 st1"
    note n1 = next1[OF 1(3)]
    show "runs_due demo_config ''p'' ''whd_p/evt_1/whe_1/'' [?r1, ?r2] st1"
    proof (rule runs_due_Cons[OF 1(1,2)])
      fix st2 d2 res2
      assume 2: "get_delivery ''p'' ''whd_p/evt_1/whe_1/'' (log_of st2) = Some d2"
        "attempted demo_config d1 ?r1 d2 res2"
      show "runs_due demo_config ''p'' ''whd_p/evt_1/whe_1/'' [?r2] st2"
        using 2(1) next2[OF 2(2)] n1 range(2) by simp
    qed (use n1 1(4) range(1) in simp_all)
  qed (use demo_selected_facts in \<open>simp_all add: demo_runs_def\<close>)
  then show ?thesis by (simp add: demo_runs_def)
qed


lemma delivery_ends_witness:
  "\<exists>d'. get_delivery ''p'' ''whd_p/evt_1/whe_1/''
       (log_of (run_deliveries demo_config ''p'' ''whd_p/evt_1/whe_1/'' demo_runs demo_selected)) = Some d' \<and>
     wd_status d' = Dl_Succeeded"
proof -
  have "open_delivery demo_row" "length (wd_attempts demo_row) < length (dc_retry_delays demo_config)"
    "length (dc_retry_delays demo_config) - length (wd_attempts demo_row) \<le> length demo_runs"
    by (simp_all add: demo_row_def open_delivery_def demo_config_def demo_runs_def)
  from delivery_ends[OF demo_selected_sound demo_selected_facts(1) this(1) demo_selected_facts(2) this(2,3) demo_runs_due]
  show ?thesis by (simp add: demo_row_def demo_config_def demo_runs_def accepted_by_endpoint_def)
qed

end
