(* ===== verification/Signed_Requests.thy ===== *)
theory Signed_Requests
  imports Delivery_Runs
begin

text \<open>
  The requests of the deliverer against the verification that receivers run
  (\<open>verifyWebhookSignature\<close>): a sent request verifies under the endpoint's secret within the tolerance,
  and another body, secret or timestamp only with an equal HMAC.
\<close>

lemma double_minus: "double (- x) = - double x"
  by (simp add: double_def Let_def)

lemma double_small_int:
  assumes "- (2 ^ 53) < n" "n < 2 ^ 53"
  shows "double (of_int n) = of_int n"
proof (cases "0 \<le> n")
  case False
  then have "double (of_int (- n)) = of_int (- n)" using assms by (intro double_int) simp_all
  then show ?thesis by (simp add: double_minus)
qed (use assms double_int in simp)

subsection \<open>Timestamps\<close>

lemma unix_seconds_bounds:
  assumes "0 \<le> ms" "date_in_range ms"
  shows "0 \<le> unix_seconds ms" "unix_seconds ms < 10 ^ 16" "unix_seconds ms * 1000 \<le> ms" "ms < unix_seconds ms * 1000 + 1000"
  using assms by (auto simp: unix_seconds_def date_in_range_def max_date_def)

lemma unix_text:
  assumes "0 \<le> ms" "date_in_range ms"
  shows "timestamp_shape (int_text (unix_seconds ms))"
    "timestamp_ms (int_text (unix_seconds ms)) = of_int (unix_seconds ms * 1000)"
proof -
  note b = unix_seconds_bounds[OF assms]
  let ?n = "nat (unix_seconds ms)"
  have shown: "int_text (unix_seconds ms) = nat_text ?n" using b(1) by (simp add: int_text_def)
  have "?n < 10 ^ 16" using b(1,2) by simp
  then show "timestamp_shape (int_text (unix_seconds ms))"
    using nat_text_length[of 16 ?n] nat_text_decimal[of ?n] by (simp add: shown timestamp_shape_def)
  have small: "unix_seconds ms * 1000 < 2 ^ 53" "unix_seconds ms < 2 ^ 53"
    using b(3) assms by (simp_all add: date_in_range_def max_date_def)
  have "double (of_nat (decimal_value (nat_text ?n))) = of_int (unix_seconds ms)"
    using double_int[OF b(1) small(2)] b(1) by (simp add: nat_text_value of_nat_nat)
  moreover have "double (of_int (unix_seconds ms * 1000)) = of_int (unix_seconds ms * 1000)"
    using b(1) small(1) by (intro double_int) simp_all
  ultimately show "timestamp_ms (int_text (unix_seconds ms)) = of_int (unix_seconds ms * 1000)"
    by (simp add: timestamp_ms_def shown)
qed

subsection \<open>Verification of a signed request\<close>

text \<open>What SHA-256 gives as hexadecimal text.\<close>

definition hex_hmac :: "hmac \<Rightarrow> bool" where
  "hex_hmac hmac \<longleftrightarrow> (\<forall>key message. length (hmac key message) = 64 \<and> list_all lower_hex (hmac key message))"

definition received_headers :: "webhook_request \<Rightarrow> header_source" where
  "received_headers rq = Header_Record (map (\<lambda>(k, v). (k, One_Value v)) (rq_headers rq))"

lemma signature_shape_created: "hex_hmac hmac \<Longrightarrow> signature_shape (create_webhook_signature hmac body key stamp)"
  by (simp add: hex_hmac_def signature_shape_def create_webhook_signature_def)

lemma signature_bytes_eq:
  assumes "hex_hmac hmac"
  shows "hex_bytes (drop 3 (create_webhook_signature hmac body key stamp)) =
      hex_bytes (drop 3 (create_webhook_signature hmac body' key' stamp')) \<longleftrightarrow>
    hmac key (stamp @ ''.'' @ body) = hmac key' (stamp' @ ''.'' @ body')"
proof -
  have "hmac key (stamp @ ''.'' @ body) = hmac key' (stamp' @ ''.'' @ body')"
    if "hex_bytes (hmac key (stamp @ ''.'' @ body)) = hex_bytes (hmac key' (stamp' @ ''.'' @ body'))"
    by (rule hex_bytes_inj[of _ 32]) (use assms that in \<open>simp_all add: hex_hmac_def\<close>)
  then show ?thesis by (auto simp: create_webhook_signature_def)
qed

lemma sent_headers:
  assumes "rq = signed_request cfg ep e event t"
  shows "first_header (received_headers rq) webhook_timestamp_header webhook_timestamp_header_alias =
      Some (int_text (unix_seconds t))"
    and "first_header (received_headers rq) webhook_signature_header webhook_signature_header_alias =
      Some (create_webhook_signature (dc_hmac cfg) (dc_stringify cfg event) (we_secret ep) (int_text (unix_seconds t)))"
  by (simp_all add: assms first_header_def received_headers_def signed_request_def Let_def header_value_of_def
      to_lower_case_def lower_char_def webhook_id_header_def webhook_timestamp_header_def
      webhook_signature_header_def webhook_timestamp_header_alias_def webhook_signature_header_alias_def)

lemma signed_request_verifies:
  assumes "hex_hmac (dc_hmac cfg)" "0 \<le> t" "date_in_range t" "0 \<le> now" "date_in_range now"
    and "rq = signed_request cfg ep e event t"
  shows "verify_webhook_signature (dc_hmac cfg) \<lparr>vo_payload = body, vo_headers = received_headers rq,
      vo_secret = secret, vo_tolerance_ms = Some tolerance, vo_now_ms = Some now\<rparr> \<longleftrightarrow>
    secret \<noteq> [] \<and> 0 \<le> tolerance \<and> \<bar>now - unix_seconds t * 1000\<bar> \<le> tolerance \<and>
    dc_hmac cfg secret (int_text (unix_seconds t) @ ''.'' @ body) =
      dc_hmac cfg (we_secret ep) (int_text (unix_seconds t) @ ''.'' @ rq_body rq)"
proof -
  let ?s = "int_text (unix_seconds t)"
  note b = unix_seconds_bounds[OF assms(2,3)]
  have "\<bar>now - unix_seconds t * 1000\<bar> < 2 ^ 53"
    using b(1,3) assms(2-5) by (auto simp: date_in_range_def max_date_def)
  then have diff: "double (of_int now - timestamp_ms ?s) = of_int (now - unix_seconds t * 1000)"
    using double_small_int[of "now - unix_seconds t * 1000"] by (simp add: unix_text(2)[OF assms(2,3)])
  have far: "\<bar>double (of_int now - timestamp_ms ?s)\<bar> > of_int tolerance \<longleftrightarrow> tolerance < \<bar>now - unix_seconds t * 1000\<bar>"
    unfolding diff by (simp only: of_int_less_iff flip: of_int_abs)
  have body: "rq_body rq = dc_stringify cfg event" by (simp add: assms(6) signed_request_def Let_def)
  let ?opts = "\<lparr>vo_payload = body, vo_headers = received_headers rq, vo_secret = secret,
    vo_tolerance_ms = Some tolerance, vo_now_ms = Some now\<rparr>"
  show ?thesis
  proof (cases "tolerance < 0 \<or> secret = []")
    case True
    then show ?thesis by (auto simp: verify_webhook_signature_def)
  next
    case False
    have "verify_webhook_signature (dc_hmac cfg) ?opts \<longleftrightarrow>
        \<not> \<bar>double (of_int now - timestamp_ms ?s)\<bar> > of_int tolerance \<and>
        hex_bytes (drop 3 (create_webhook_signature (dc_hmac cfg) body secret ?s)) =
          hex_bytes (drop 3 (create_webhook_signature (dc_hmac cfg) (dc_stringify cfg event) (we_secret ep) ?s))"
      using False unix_text(1)[OF assms(2,3)] signature_shape_created[OF assms(1)]
      by (simp add: verify_webhook_signature_def sent_headers[OF assms(6)] del: of_int_less_iff)
    then show ?thesis using False far signature_bytes_eq[OF assms(1)] body by auto
  qed
qed

text \<open>Where the request of a flight comes from.\<close>

lemma begin_delivery_request:
  assumes "begin_delivery cfg clock p i st = (st', Inr (Begun_Flight fl))"
  obtains ep ev where "get_for_delivery p (wd_endpoint (fl_delivery fl)) (dv_endpoints st) = Some ep" "we_active ep"
    "fl_request fl = signed_request cfg ep (wd_event (fl_delivery fl)) ev (fl_attempted_at fl)"
    "date_in_range (fl_attempted_at fl)"
proof -
  obtain d0 st1 d where rec: "recover_delivering p i d0 st = (st1, d)"
    and att: "attempt_delivery cfg (clock 1) p i d st1 = (st', Inr (Begun_Flight fl))"
    using assms by (auto simp: begin_delivery_def split: option.splits if_splits sum.splits prod.splits)
  have eps: "dv_endpoints st1 = dv_endpoints st" using rec by (auto simp: recover_delivering_def Let_def split: if_splits)
  show thesis
  proof (cases rule: attempt_delivery_cases[of cfg "clock 1" p i d st1])
    case retry
    then show ?thesis using att by (auto simp: bind_result_Inr_iff)
  next
    case (launch ew ev ep)
    then have "launch_delivery cfg p d ev ep (clock 1) st1 = (st', Inr (Begun_Flight fl))" using att by simp
    then have fl: "fl_delivery fl = (without_next_retry d)\<lparr>wd_status := Dl_Delivering\<rparr>"
      "fl_request fl = signed_request cfg ep (wd_event (fl_delivery fl)) ev (fl_attempted_at fl)"
      "date_in_range (fl_attempted_at fl)"
      by (auto simp: launch_delivery_def Let_def deliverer_clock_def read_clock_Inr_iff split: sum.splits)
    have "wd_endpoint (fl_delivery fl) = wd_endpoint d" by (simp add: fl(1) without_next_retry_def)
    then show ?thesis using launch(3,4) fl(2,3) that eps by simp
  next
    case abandon
    then show ?thesis
      using att by (auto simp: abandon_delivery_def Let_def split: sum.splits)
  qed
qed

text \<open>C30: A request that the deliverer sends goes to the URL of an active endpoint of the delivery and is
  authentic: a receiver that verifies a body against its headers accepts exactly within the tolerance
  around the second of the attempt, with a non-empty secret, and when the HMAC of timestamp and body under
  the receiver's secret is the one of the sent body under the endpoint's secret. The sent body under the
  endpoint's own secret is such a body; another body or secret is one only by a collision of the HMAC.\<close>

theorem sent_request_is_authentic:
  assumes "hex_hmac (dc_hmac cfg)" "begin_delivery cfg clock p i st = (st', Inr (Begun_Flight fl))"
    and "0 \<le> fl_attempted_at fl" "0 \<le> now" "date_in_range now"
  shows "\<exists>ep. get_for_delivery p (wd_endpoint (fl_delivery fl)) (dv_endpoints st) = Some ep \<and> we_active ep \<and>
    rq_url (fl_request fl) = we_url ep \<and>
    (\<forall>body secret tolerance.
      verify_webhook_signature (dc_hmac cfg) \<lparr>vo_payload = body, vo_headers = received_headers (fl_request fl),
        vo_secret = secret, vo_tolerance_ms = Some tolerance, vo_now_ms = Some now\<rparr> =
      (secret \<noteq> [] \<and> 0 \<le> tolerance \<and> \<bar>now - unix_seconds (fl_attempted_at fl) * 1000\<bar> \<le> tolerance \<and>
       dc_hmac cfg secret (int_text (unix_seconds (fl_attempted_at fl)) @ ''.'' @ body) =
         dc_hmac cfg (we_secret ep) (int_text (unix_seconds (fl_attempted_at fl)) @ ''.'' @ rq_body (fl_request fl))))"
  using assms(2)
proof (rule begin_delivery_request)
  fix ep ev
  assume ep: "get_for_delivery p (wd_endpoint (fl_delivery fl)) (dv_endpoints st) = Some ep" "we_active ep"
    and rq: "fl_request fl = signed_request cfg ep (wd_event (fl_delivery fl)) ev (fl_attempted_at fl)"
    and range: "date_in_range (fl_attempted_at fl)"
  have "rq_url (fl_request fl) = we_url ep" by (simp add: rq signed_request_def Let_def)
  then show ?thesis
    using ep signed_request_verifies[OF assms(1,3) range assms(4,5) rq] by auto
qed

text \<open>A concrete request, with an HMAC that depends on the parity of the lengths only.\<close>

definition parity_hmac :: hmac where
  "parity_hmac key message = replicate 63 (CHR ''0'') @ [if even (length key + length message) then CHR ''a'' else CHR ''b'']"

lemma parity_hmac_hex: "hex_hmac parity_hmac"
  by (simp add: hex_hmac_def parity_hmac_def list_all_iff lower_hex_def decimal_char_def Let_def)

definition signing_config :: deliverer_config where
  "signing_config = demo_config\<lparr>dc_hmac := parity_hmac\<rparr>"

lemma sent_request_is_authentic_witness:
  "\<exists>st' fl (ep :: stored_endpoint). begin_delivery signing_config (run_clock (hd demo_runs)) ''p'' ''whd_p/evt_1/whe_1/'' demo_selected =
     (st', Inr (Begun_Flight fl)) \<and> rq_url (fl_request fl) = we_url ep \<and> we_active ep"
proof -
  have hmac: "hex_hmac (dc_hmac signing_config)" by (simp add: signing_config_def parity_hmac_hex)
  have t: "dr_attempted (hd demo_runs) = 31" "date_in_range (dr_start (hd demo_runs))"
    "date_in_range (dr_attempted (hd demo_runs))"
    by (simp_all add: demo_runs_def date_in_range_def max_date_def)
  show ?thesis
  proof (rule begin_delivery_due[OF demo_selected_sound demo_selected_facts(1-3) t(2,3), of signing_config])
    fix st1 dl fl
    assume fl: "begin_delivery signing_config (run_clock (hd demo_runs)) ''p'' ''whd_p/evt_1/whe_1/'' demo_selected =
      (st1, Inr (Begun_Flight fl))" "fl_attempted_at fl = dr_attempted (hd demo_runs)"
    have "0 \<le> fl_attempted_at fl" "(0 :: int) \<le> 3000" "date_in_range 3000"
      by (simp_all add: fl(2) t(1) date_in_range_def max_date_def)
    from sent_request_is_authentic[OF hmac fl(1) this]
    have "\<exists>ep :: stored_endpoint. rq_url (fl_request fl) = we_url ep \<and> we_active ep"
      by (elim exE conjE) (rule exI, rule conjI, assumption, assumption)
    then show ?thesis using fl(1) by metis
  qed
qed

end
