(* ===== verification/Webhook_Selection.thy ===== *)
theory Webhook_Selection
  imports Deliverer_Stores
begin

text \<open>
  The selection of an event: a selection job that completes has given the event one delivery for every
  active and subscribed endpoint, and every such delivery its job in the queue, ordered in the group of the
  endpoint.
\<close>

subsection \<open>Submitted jobs\<close>

lemma submit_job_row:
  assumes "submit_job digest accepting job opts reading wall js = (js', Inr row)"
  shows "get_job (executor_job_id digest job) js' = Some row" "description row = job"
    "group_key row = opt_group_key opts" "group_order row = opt_group_order opts"
proof -
  obtain now env where env: "create_job_envelope digest job opts now = Inr env" "accept_job env wall js = (js', Inr row)"
    using assms by (auto simp: submit_job_def submission_envelope_def bind_result_Inr_iff split: if_splits sum.splits)
  have "map_of (jobs js') (job_id env) = Some row \<and> same_immutable_job row env"
    using env(2)
    by (auto simp: accept_job_def intro!: ensure_result_row split: sum.splits prod.splits ensure_job_result.splits)
  then show "get_job (executor_job_id digest job) js' = Some row" "description row = job"
    "group_key row = opt_group_key opts" "group_order row = opt_group_order opts"
    using create_job_envelope_Inr[OF env(1)] by (simp_all add: get_job_def same_immutable_job_def)
qed

definition delivery_job :: "(string list \<Rightarrow> string) \<Rightarrow> string \<Rightarrow> sequenced_delivery \<Rightarrow> job_store \<Rightarrow> bool" where
  "delivery_job digest p row js \<longleftrightarrow>
     (case get_job (executor_job_id digest (Webhook_Deliver p (wd_id (sd_delivery row)))) js of
        None \<Rightarrow> False
      | Some j \<Rightarrow> description j = Webhook_Deliver p (wd_id (sd_delivery row)) \<and>
          group_key j = Some (webhook_endpoint_group_key digest p (wd_endpoint (sd_delivery row))) \<and>
          group_order j = Some (sd_sequence row))"

lemma delivery_job_stays:
  assumes "delivery_job digest p row js" "job_store_wf js"
  shows "delivery_job digest p row (run_ops ops js)"
proof -
  let ?k = "executor_job_id digest (Webhook_Deliver p (wd_id (sd_delivery row)))"
  obtain j where j: "map_of (jobs js) ?k = Some j" using assms(1) by (auto simp: delivery_job_def get_job_def split: option.splits)
  obtain j' where "map_of (jobs (run_ops ops js)) ?k = Some j'" "row_preserved j j'"
    using run_ops_preserved[OF assms(2) j] by blast
  then show ?thesis using assms(1) j by (simp add: delivery_job_def get_job_def row_preserved_def)
qed

lemma submit_deliveries_jobs:
  "submit_deliveries cfg clock q w accepting p rows js = (js', Inr u) \<Longrightarrow> job_store_wf js \<Longrightarrow>
     \<forall>row \<in> set rows. delivery_job (dc_digest cfg) p row js'"
proof (induction rows arbitrary: clock q w js)
  case (Cons row rows)
  let ?d = "sd_delivery row"
  let ?start = "case wd_next_retry_at ?d of Some t \<Rightarrow> Inr t
    | None \<Rightarrow> bind_result (deliverer_clock (clock 0)) iso_string"
  let ?one = "case ?start of Inl err \<Rightarrow> (js, Inl err)
    | Inr start \<Rightarrow> submit_job (dc_digest cfg) accepting (Webhook_Deliver p (wd_id ?d))
        \<lparr>opt_run_after = Some start,
         opt_group_key = Some (webhook_endpoint_group_key (dc_digest cfg) p (wd_endpoint ?d)),
         opt_group_order = Some (sd_sequence row)\<rparr> (q 0) (w 0) js"
  obtain js1 r where one: "?one = (js1, r)" by fastforce
  have rest: "r = Inr (projr r)"
    "submit_deliveries cfg (\<lambda>i. clock (Suc i)) (\<lambda>i. q (Suc i)) (\<lambda>i. w (Suc i)) accepting p rows js1 = (js', Inr u)"
    using Cons.prems(1) one by (auto simp: Let_def bind_result_Inr_iff split: prod.splits)
  then obtain start where submit: "submit_job (dc_digest cfg) accepting (Webhook_Deliver p (wd_id ?d))
      \<lparr>opt_run_after = Some start, opt_group_key = Some (webhook_endpoint_group_key (dc_digest cfg) p (wd_endpoint ?d)),
       opt_group_order = Some (sd_sequence row)\<rparr> (q 0) (w 0) js = (js1, Inr (projr r))"
    using one by (cases ?start) auto
  have here: "delivery_job (dc_digest cfg) p row js1" using submit_job_row[OF submit] by (simp add: delivery_job_def)
  obtain ops1 where ops1: "js1 = run_ops ops1 js" using submit_job_calls[OF submit] by blast
  then have wf: "job_store_wf js1" using run_ops_wf[OF Cons.prems(2)] by simp
  obtain ops2 where "js' = run_ops ops2 js1"
    using submit_deliveries_calls[of cfg "\<lambda>i. clock (Suc i)" "\<lambda>i. q (Suc i)" "\<lambda>i. w (Suc i)" accepting p rows js1]
      rest(2) by auto
  then have "delivery_job (dc_digest cfg) p row js'" using delivery_job_stays[OF here wf] by simp
  then show ?case using Cons.IH[OF rest(2) wf] by simp
qed simp

subsection \<open>Completed selections\<close>

lemma run_deliverer_stores:
  obtains sops where "dv_system (run_deliverer cfg ops) = run_system_ops (dc_digest cfg) sops empty_webhook_system"
  using run_deliverer_ops_calls[of cfg "(fresh_deliverer, [])" ops]
  by (auto simp: store_calls_def run_deliverer_def fresh_deliverer_def)

lemma stored_rows_endpoints:
  "list_all2 (row_for digest p e) eps rows \<Longrightarrow> list_all2 (stored_row ds) rows rows' \<Longrightarrow>
     map (\<lambda>row. wd_endpoint (sd_delivery row)) rows' = eps"
proof (induction arbitrary: rows' rule: list_all2_induct)
  case (Cons ep eps row rows)
  then obtain row' rest where "rows' = row' # rest" "stored_row ds row row'" "list_all2 (stored_row ds) rows rest"
    by (auto simp: list_all2_Cons1)
  moreover from this have "map (\<lambda>row. wd_endpoint (sd_delivery row)) rest = eps" using Cons.IH[of rest] by blast
  ultimately show ?case
    using Cons.hyps(1)
    by (simp add: row_for_def stored_row_def delivery_progress_def same_delivery_identity_def)
qed simp

lemma stored_rows_jobs:
  "list_all2 (stored_row ds) rows rows' \<Longrightarrow> \<forall>row \<in> set rows. delivery_job digest p row js \<Longrightarrow>
     \<forall>row \<in> set rows'. delivery_job digest p row js"
proof (induction rule: list_all2_induct)
  case (Cons row rows row' rows')
  have "wd_id (sd_delivery row') = wd_id (sd_delivery row)" "sd_sequence row' = sd_sequence row"
    "wd_endpoint (sd_delivery row') = wd_endpoint (sd_delivery row)"
    using Cons.hyps(1) by (simp_all add: stored_row_def delivery_progress_def same_delivery_identity_def)
  then have "delivery_job digest p row' js = delivery_job digest p row js" unfolding delivery_job_def by (simp only:)
  then show ?case using Cons by simp
qed simp

lemma map_filter_mem: "x \<in> set xs \<Longrightarrow> f x = Some y \<Longrightarrow> y \<in> set (List.map_filter f xs)"
  by (force simp: List.map_filter_def)

lemma selected_complete:
  assumes "get_for_delivery p i es = Some ep" "we_active ep" "subscribed (we_events ep) ty"
    and "case ids of None \<Rightarrow> True | Some is \<Rightarrow> i \<in> set is"
  shows "ep \<in> set (selected_endpoints p ty ids es)"
proof (cases ids)
  case None
  have "ep \<in> set (js_values (project_endpoints p es))"
    using assms(1) by (force simp: get_for_delivery_def dest: map_of_SomeD)
  then show ?thesis using None assms(2,3) by (simp add: selected_endpoints_def list_for_delivery_def)
next
  case (Some "is")
  then show ?thesis
    using assms map_filter_mem[of i "is" "\<lambda>i. get_for_delivery p i es" ep] by (simp add: selected_endpoints_def)
qed

text \<open>C31: A selection that completes reaches every subscriber: when the handler of a selection job ends
  without an error on an event that was not materialized, every active endpoint of the project whose
  subscription matches the event (and, for an event with a list of endpoints, that is on the list) has been
  selected; the event's deliveries are exactly one for each selected endpoint, in their order; and each of
  them has its job in the queue, in the group of its endpoint and at its place in it.\<close>

theorem event_reaches_every_subscriber:
  assumes "get_event p e (dv_system (run_deliverer cfg ops)) = Some ew" "ew_materialized_at ew = None"
    and "handle_select_job cfg clock q w p e (run_deliverer cfg ops) = (st', Inr Handler_Complete)"
  defines "selected \<equiv> selected_endpoints p (ew_event_type ew) (ew_endpoints ew) (dv_endpoints (run_deliverer cfg ops))"
  shows "(\<forall>i ep. get_for_delivery p i (dv_endpoints (run_deliverer cfg ops)) = Some ep \<longrightarrow> we_active ep \<longrightarrow>
      subscribed (we_events ep) (ew_event_type ew) \<longrightarrow>
      (case ew_endpoints ew of None \<Rightarrow> True | Some is \<Rightarrow> i \<in> set is) \<longrightarrow> ep \<in> set selected) \<and>
    (\<exists>rows. get_materialized p e (dv_system st') = Inr rows \<and>
      map (\<lambda>row. wd_endpoint (sd_delivery row)) rows = map we_id selected \<and>
      (\<forall>row \<in> set rows. delivery_job (dc_digest cfg) p row (sys_jobs (dv_system st'))))"
proof -
  let ?st = "run_deliverer cfg ops"
  obtain sops where sops: "dv_system ?st = run_system_ops (dc_digest cfg) sops empty_webhook_system"
    by (rule run_deliverer_stores)
  have wf: "system_wf (dv_system ?st)" unfolding sops by (rule run_system_ops_wf) simp
  then have ds: "delivery_store_wf (sys_deliveries (dv_system ?st))" by (simp add: system_wf_def)
  obtain st1 rows where m: "materialize_selection cfg (clock 0) ew p e ?st = (st1, Inr rows)"
    and submit: "submit_selected cfg (\<lambda>i. clock (Suc i)) q w p rows (if rows = [] then forget_event p e st1 else st1) =
      (st', Inr Handler_Complete)"
    using assms(1-3) by (auto simp: handle_select_job_def split: sum.splits prod.splits)
  obtain t sys where sys: "materialize_event (dc_digest cfg) p e (map we_id selected) t (dv_system ?st) = (sys, Inr rows)"
    "st1 = ?st\<lparr>dv_system := sys\<rparr>"
    using m by (auto simp: materialize_selection_def Let_def selected_def split: sum.splits prod.splits)
  note first = materialize_event_Inr[OF sys(1) assms(1,2) ds]
  have jobs: "sys_jobs sys = sys_jobs (dv_system ?st)"
    using sys(1) assms(1,2) by (auto simp: materialize_event_def Let_def split: prod.splits sum.splits)
  let ?st2 = "if rows = [] then forget_event p e st1 else st1"
  have st2: "dv_system ?st2 = sys" by (simp add: sys(2))
  obtain js u where js: "submit_deliveries cfg (\<lambda>i. clock (Suc i)) q w (dv_accepting ?st2) p rows (sys_jobs sys) = (js, Inr u)"
    "dv_system st' = sys\<lparr>sys_jobs := js\<rparr>"
    using submit by (auto simp: submit_selected_def st2 bind_result_Inr_iff simp del: if_split split: prod.splits)
  obtain rows' where rows': "List.map_filter (\<lambda>i. get_sequenced p i (sys_deliveries sys))
      (map (deterministic_delivery_id (dc_digest cfg) p e) (map we_id selected)) = rows'"
    "list_all2 (stored_row (sys_deliveries sys)) rows rows'"
    using sequenced_list[OF first(1,3)] by blast
  have "length rows' = length selected" using list_all2_lengthD[OF rows'(2)] list_all2_lengthD[OF first(1)] by simp
  then have got: "get_materialized p e (dv_system st') = Inr rows'"
    using first(4) rows'(1) by (simp add: get_materialized_def js(2))
  have "\<forall>row \<in> set rows. delivery_job (dc_digest cfg) p row js"
    by (rule submit_deliveries_jobs[OF js(1)]) (use wf jobs in \<open>simp add: system_wf_def\<close>)
  from stored_rows_jobs[OF rows'(2) this] have queued: "\<forall>row \<in> set rows'. delivery_job (dc_digest cfg) p row js" .
  show ?thesis
  proof (rule conjI)
    show "\<exists>rows. get_materialized p e (dv_system st') = Inr rows \<and>
        map (\<lambda>row. wd_endpoint (sd_delivery row)) rows = map we_id selected \<and>
        (\<forall>row \<in> set rows. delivery_job (dc_digest cfg) p row (sys_jobs (dv_system st')))"
      by (rule exI[of _ rows']) (use got queued stored_rows_endpoints[OF first(1) rows'(2)] in \<open>simp add: js(2)\<close>)
  qed (use selected_complete in \<open>auto simp: selected_def\<close>)
qed

lemma demo_admitted:
  "get_event ''p'' ''evt_1'' (dv_system (run_deliverer demo_config (take 2 demo_attempt_ops))) =
     Some \<lparr>ew_sequence = 1, ew_project = ''p'', ew_event = ''evt_1'', ew_event_type = ''trigger.mail.received'',
       ew_source_kind = Source_Trigger, ew_source = ''evt_1'', ew_endpoints = Some [''whe_1''],
       ew_created_at = Iso 5, ew_materialized_at = None\<rparr>"
  by code_simp

lemma demo_selection_completes:
  "\<exists>st'. handle_select_job demo_config (\<lambda>_. Some 20) (\<lambda>_. Some 20) (\<lambda>_. 20) ''p'' ''evt_1''
     (run_deliverer demo_config (take 2 demo_attempt_ops)) = (st', Inr Handler_Complete)"
proof -
  have "case handle_select_job demo_config (\<lambda>_. Some 20) (\<lambda>_. Some 20) (\<lambda>_. 20) ''p'' ''evt_1''
      (run_deliverer demo_config (take 2 demo_attempt_ops)) of (_, Inr Handler_Complete) \<Rightarrow> True | _ \<Rightarrow> False"
    by code_simp
  then show ?thesis by (auto split: prod.splits sum.splits job_handler_result.splits)
qed

lemma event_reaches_every_subscriber_witness:
  "\<exists>st' rows. handle_select_job demo_config (\<lambda>_. Some 20) (\<lambda>_. Some 20) (\<lambda>_. 20) ''p'' ''evt_1''
     (run_deliverer demo_config (take 2 demo_attempt_ops)) = (st', Inr Handler_Complete) \<and>
   get_materialized ''p'' ''evt_1'' (dv_system st') = Inr rows \<and>
   (\<forall>row \<in> set rows. delivery_job demo_digest ''p'' row (sys_jobs (dv_system st')))"
proof -
  obtain st' where st': "handle_select_job demo_config (\<lambda>_. Some 20) (\<lambda>_. Some 20) (\<lambda>_. 20) ''p'' ''evt_1''
     (run_deliverer demo_config (take 2 demo_attempt_ops)) = (st', Inr Handler_Complete)"
    using demo_selection_completes by blast
  have "dc_digest demo_config = demo_digest" by (simp add: demo_config_def)
  then show ?thesis
    using event_reaches_every_subscriber[OF demo_admitted _ st', THEN conjunct2] st' by (simp only: event_work.simps) blast
qed

end
