(* ===== verification/Job_Worker.thy ===== *)
theory Job_Worker
  imports Task_Queue Job_Queue History
begin

text \<open>
  The worker of the queue (\<open>apps/executor/src/jobs/worker.ts\<close>): submissions and their completion
  promises, the polls that expire, observe and claim, the handlers in flight with their heartbeats, and the
  settlement of their results. A step is what runs between two \<open>await\<close>s; timers decide only when the steps
  \<open>expire_step\<close>, \<open>observe_attached\<close>, \<open>claim_step\<close> and \<open>renew_run\<close> happen, and \<open>run_once\<close> is one poll whose
  steps follow each other. Polls exclude each other (\<open>#tick\<close>).
\<close>

subsection \<open>Options\<close>

record worker_config =
  wc_worker :: string
  wc_concurrency :: "job_queue_name \<Rightarrow> int"
  wc_lease_ms :: int
  wc_heartbeat_ms :: int
  wc_poll_ms :: int
  wc_durable :: bool

record worker_options =
  wo_worker :: string
  wo_execution :: "int option"
  wo_selection :: "int option"
  wo_delivery :: "int option"
  wo_lease_ms :: "int option"
  wo_heartbeat_ms :: "int option"
  wo_poll_ms :: "int option"
  wo_durable :: "bool option"

definition default_lease_ms :: int where "default_lease_ms = 30000"
definition default_heartbeat_ms :: int where "default_heartbeat_ms = 10000"
definition default_poll_ms :: int where "default_poll_ms = 100"

definition all_queues :: "job_queue_name list" where
  "all_queues = [Execution_Queue, Webhook_Selection_Queue, Webhook_Delivery_Queue]"

definition or_default :: "'a option \<Rightarrow> 'a \<Rightarrow> 'a" where
  "or_default x d = (case x of None \<Rightarrow> d | Some v \<Rightarrow> v)"

definition positive_integer :: "int \<Rightarrow> string \<Rightarrow> int result" where
  "positive_integer v what =
     (if \<not> is_safe_integer v \<or> v < 1 then Inl (Range_Error (what @ '' must be a positive safe integer.''))
      else Inr v)"

definition valid_duration :: "int \<Rightarrow> string \<Rightarrow> int result" where
  "valid_duration v what =
     (if \<not> is_safe_integer v \<or> v < 1 then Inl (Range_Error (what @ '' must be a positive safe integer.''))
      else Inr v)"

text \<open>The constructor; \<open>wo_worker\<close> is the given worker id, or what \<open>randomUUID\<close> returned.\<close>

definition create_worker_config :: "worker_options \<Rightarrow> worker_config result" where
  "create_worker_config opts =
     (if wo_worker opts = [] then Inl (Type_Error ''Worker ID must not be empty.'')
      else
        bind_result (positive_integer (or_default (wo_execution opts) 4) ''Execution concurrency'') (\<lambda>e.
        bind_result (positive_integer (or_default (wo_selection opts) 1) ''Webhook selection concurrency'') (\<lambda>s.
        bind_result (positive_integer (or_default (wo_delivery opts) 4) ''Webhook delivery concurrency'') (\<lambda>d.
        bind_result (valid_duration (or_default (wo_lease_ms opts) default_lease_ms) ''Lease duration'') (\<lambda>lease.
        bind_result (valid_duration (or_default (wo_heartbeat_ms opts) default_heartbeat_ms) ''Heartbeat interval'') (\<lambda>beat.
        bind_result (valid_duration (or_default (wo_poll_ms opts) default_poll_ms) ''Poll interval'') (\<lambda>poll.
          if beat \<ge> lease
          then Inl (Range_Error ''Heartbeat interval must be shorter than the lease duration.'')
          else Inr \<lparr>wc_worker = wo_worker opts,
            wc_concurrency = (\<lambda>q. case q of Execution_Queue \<Rightarrow> e | Webhook_Selection_Queue \<Rightarrow> s
              | Webhook_Delivery_Queue \<Rightarrow> d),
            wc_lease_ms = lease, wc_heartbeat_ms = beat, wc_poll_ms = poll,
            wc_durable = or_default (wo_durable opts) False\<rparr>)))))))"

subsection \<open>State\<close>

text \<open>
  A completion promise is its number; \<open>wk_settled\<close> lists the promises with the job they stand for, in the
  order of their settlement. \<open>wk_active\<close> is the key set of \<open>#active\<close>, \<open>wk_runs\<close> the handlers in flight.
\<close>

datatype completion = Completed | Rejected js_error

record worker_run =
  rn_job :: stored_job
  rn_lost :: bool

type_synonym run_key = "job_queue_name \<times> string"

record worker_state =
  wk_jobs :: job_store
  wk_bound :: bool
  wk_started :: bool
  wk_accepting :: bool
  wk_claiming :: bool
  wk_active :: "run_key list"
  wk_runs :: "worker_run list"
  wk_attached :: "(string \<times> nat) list"
  wk_settled :: "(nat \<times> string \<times> completion) list"
  wk_promises :: nat
  wk_idle :: "nat list"
  wk_idle_done :: "nat list"

definition new_worker :: "job_store \<Rightarrow> worker_state" where
  "new_worker js = \<lparr>wk_jobs = js, wk_bound = False, wk_started = False, wk_accepting = True, wk_claiming = False,
     wk_active = [], wk_runs = [], wk_attached = [], wk_settled = [], wk_promises = 0, wk_idle = [],
     wk_idle_done = []\<rparr>"

subsection \<open>Settlement\<close>

definition queue_handoff :: js_error where
  "queue_handoff = Named_Error ''QueueHandoffError''
     ''Durable job ownership was handed off during local shutdown.''"

fun error_code_text :: "safe_job_error_code \<Rightarrow> string" where
  "error_code_text Handler_Rejected = ''handler_rejected''"
| "error_code_text Invalid_Job_Version = ''invalid_job_version''"
| "error_code_text Invalid_Job_Payload = ''invalid_job_payload''"
| "error_code_text Job_Conflict = ''job_conflict''"
| "error_code_text Lease_Lost = ''lease_lost''"
| "error_code_text Recovery_Unavailable = ''recovery_unavailable''"

text \<open>\<open>QueueJobFailedError\<close> carries its code; the message is always the same.\<close>

definition queue_job_failed :: "safe_job_error_code option \<Rightarrow> js_error" where
  "queue_job_failed code = Named_Error ''QueueJobFailedError'' (error_code_text (or_default code Handler_Rejected))"

definition resolve_idle :: "worker_state \<Rightarrow> worker_state" where
  "resolve_idle st =
     (if wk_attached st \<noteq> [] \<or> wk_active st \<noteq> [] then st
      else st\<lparr>wk_idle := [], wk_idle_done := wk_idle_done st @ wk_idle st\<rparr>)"

definition settle_promise :: "string \<Rightarrow> nat \<Rightarrow> completion \<Rightarrow> worker_state \<Rightarrow> worker_state" where
  "settle_promise k n c st =
     resolve_idle (st\<lparr>wk_attached := js_delete k (wk_attached st), wk_settled := wk_settled st @ [(n, k, c)]\<rparr>)"

definition completion_of :: "job_state \<Rightarrow> safe_job_error_code option \<Rightarrow> completion" where
  "completion_of s code =
     (if s = Job_Succeeded \<or> s = Job_Cancelled then Completed else Rejected (queue_job_failed code))"

definition settle_terminal ::
    "string \<Rightarrow> job_state \<Rightarrow> safe_job_error_code option \<Rightarrow> worker_state \<Rightarrow> worker_state" where
  "settle_terminal k s code st =
     (if s \<noteq> Job_Succeeded \<and> s \<noteq> Job_Failed \<and> s \<noteq> Job_Cancelled then st
      else case map_of (wk_attached st) k of
        None \<Rightarrow> st
      | Some n \<Rightarrow> settle_promise k n (completion_of s code) st)"

subsection \<open>Lifecycle\<close>

definition bind_handlers :: "worker_state \<Rightarrow> worker_state \<times> unit result" where
  "bind_handlers st =
     (if wk_started st then (st, Inl (Plain_Error ''Queue handlers must be bound before start.''))
      else (st\<lparr>wk_bound := True\<rparr>, Inr ()))"

definition start_worker :: "worker_state \<Rightarrow> worker_state \<times> unit result" where
  "start_worker st =
     (if \<not> wk_bound st
      then (st, Inl (Plain_Error ''Every executor job handler must be bound before start.''))
      else if wk_started st then (st, Inr ())
      else (st\<lparr>wk_started := True, wk_claiming := True\<rparr>, Inr ()))"

text \<open>\<open>checkReadiness\<close>; the in-memory store is always ready.\<close>

definition check_readiness :: "worker_state \<Rightarrow> unit result" where
  "check_readiness st =
     (if \<not> wk_started st \<or> \<not> wk_accepting st \<or> \<not> wk_claiming st
      then Inl (Plain_Error ''The executor queue is not accepting work.'') else Inr ())"

definition stop_claiming :: "worker_state \<Rightarrow> worker_state" where
  "stop_claiming st = st\<lparr>wk_accepting := False, wk_claiming := False\<rparr>"

text \<open>\<open>onIdle\<close>, as the waiter \<open>w\<close>.\<close>

definition on_idle :: "nat \<Rightarrow> worker_state \<Rightarrow> worker_state" where
  "on_idle w st =
     (if wk_attached st = [] \<and> wk_active st = [] then st\<lparr>wk_idle_done := wk_idle_done st @ [w]\<rparr>
      else st\<lparr>wk_idle := set_add w (wk_idle st)\<rparr>)"

text \<open>
  \<open>handoffPending\<close>. A durable worker gives up its promises at once; the other one claims until it is idle:
  \<open>handoff_pending\<close> is its part up to \<open>await this.onIdle()\<close>, \<open>handoff_idle\<close> the part after it.
\<close>

definition handoff_pending :: "worker_config \<Rightarrow> nat \<Rightarrow> worker_state \<Rightarrow> worker_state" where
  "handoff_pending cfg w st =
     (if \<not> wc_durable cfg then on_idle w (st\<lparr>wk_claiming := True\<rparr>)
      else resolve_idle (st\<lparr>wk_attached := [],
        wk_settled := wk_settled st @ map (\<lambda>(k, n). (n, k, Rejected queue_handoff)) (wk_attached st)\<rparr>))"

definition handoff_idle :: "worker_state \<Rightarrow> worker_state" where
  "handoff_idle st = st\<lparr>wk_claiming := False\<rparr>"

subsection \<open>Submission\<close>

text \<open>The promise of a job is the attached one, if there is one; a failed admission rejects it.\<close>

definition worker_submit ::
    "(string list \<Rightarrow> string) \<Rightarrow> executor_job \<Rightarrow> submit_job_options \<Rightarrow> int option \<Rightarrow> int \<Rightarrow> worker_state \<Rightarrow>
     worker_state \<times> nat result" where
  "worker_submit digest job options reading wall st =
     (if \<not> wk_accepting st then (st, Inl queue_not_accepting)
      else case submission_envelope digest job options reading of
        Inl err \<Rightarrow> (st, Inl err)
      | Inr env \<Rightarrow>
          let k = job_id env; n = or_default (map_of (wk_attached st) k) (wk_promises st);
              st1 = st\<lparr>wk_attached := js_set k n (wk_attached st),
                wk_promises := (if map_of (wk_attached st) k = None then wk_promises st + 1 else wk_promises st)\<rparr> in
          (case accept_job env wall (wk_jobs st1) of
             (js, Inl err) \<Rightarrow> (settle_promise k n (Rejected err) (st1\<lparr>wk_jobs := js\<rparr>), Inr n)
           | (js, Inr row) \<Rightarrow>
               (settle_terminal (job_id row) (job_state row) (last_error_code row) (st1\<lparr>wk_jobs := js\<rparr>), Inr n)))"

subsection \<open>Polls\<close>

definition expire_step :: "int \<Rightarrow> worker_state \<Rightarrow> worker_state" where
  "expire_step now st = st\<lparr>wk_jobs := state_after (expire_leases all_queues (Iso now) 1000 (wk_jobs st)) (wk_jobs st)\<rparr>"

definition observe_attached :: "worker_state \<Rightarrow> worker_state" where
  "observe_attached st =
     fold (\<lambda>row. settle_terminal (job_id row) (job_state row) (last_error_code row))
       (list_attached_terminal (map fst (wk_attached st)) (wk_jobs st)) st"

definition run_key_of :: "stored_job \<Rightarrow> run_key" where
  "run_key_of j = (queue_name j, job_id j)"

definition active_in :: "job_queue_name \<Rightarrow> worker_state \<Rightarrow> int" where
  "active_in q st = int (length (filter (\<lambda>k. fst k = q) (wk_active st)))"

definition begin_run :: "stored_job \<Rightarrow> worker_state \<Rightarrow> worker_state" where
  "begin_run j st = st\<lparr>wk_active := set_add (run_key_of j) (wk_active st),
     wk_runs := wk_runs st @ [\<lparr>rn_job = j, rn_lost = False\<rparr>]\<rparr>"

definition claim_step ::
    "worker_config \<Rightarrow> job_queue_name \<Rightarrow> int \<Rightarrow> (nat \<Rightarrow> string) \<Rightarrow> worker_state \<Rightarrow> worker_state \<times> unit result" where
  "claim_step cfg q now uuid st =
     (let available = wc_concurrency cfg q - active_in q st in
      if available < 1 then (st, Inr ())
      else case iso_string (now + wc_lease_ms cfg) of
        Inl err \<Rightarrow> (st, Inl err)
      | Inr expiry \<Rightarrow>
          (case claim_jobs \<lparr>cl_queue = q, cl_worker = wc_worker cfg, cl_now = Iso now,
              cl_lease_expires_at = expiry, cl_limit = available\<rparr> uuid (wk_jobs st) of
             Inl err \<Rightarrow> (st, Inl err)
           | Inr (js, claimed) \<Rightarrow> (fold begin_run claimed (st\<lparr>wk_jobs := js\<rparr>), Inr ())))"

fun claim_queues ::
    "worker_config \<Rightarrow> int \<Rightarrow> (job_queue_name \<Rightarrow> nat \<Rightarrow> string) \<Rightarrow> job_queue_name list \<Rightarrow> worker_state \<Rightarrow>
     worker_state \<times> unit result" where
  "claim_queues cfg now uuid [] st = (st, Inr ())"
| "claim_queues cfg now uuid (q # qs) st =
     (case claim_step cfg q now (uuid q) st of
        (st', Inl err) \<Rightarrow> (st', Inl err)
      | (st', Inr _) \<Rightarrow> claim_queues cfg now uuid qs st')"

definition run_once ::
    "worker_config \<Rightarrow> int option \<Rightarrow> (job_queue_name \<Rightarrow> nat \<Rightarrow> string) \<Rightarrow> worker_state \<Rightarrow>
     worker_state \<times> unit result" where
  "run_once cfg reading uuid st =
     (if \<not> wk_bound st then (st, Inl (Plain_Error ''Queue handlers are not bound.''))
      else case queue_clock reading of
        Inl err \<Rightarrow> (st, Inl err)
      | Inr now \<Rightarrow>
          let st1 = observe_attached (expire_step now st) in
          if \<not> wk_claiming st1 then (st1, Inr ()) else claim_queues cfg now uuid all_queues st1)"

subsection \<open>Handlers in flight\<close>

definition run_mutation :: "worker_config \<Rightarrow> stored_job \<Rightarrow> int \<Rightarrow> lease_mutation" where
  "run_mutation cfg j now = \<lparr>lm_job_id = job_id j, lm_worker_id = wc_worker cfg,
     lm_lease_token = or_default (lease_token j) [], lm_now = Iso now\<rparr>"

text \<open>A heartbeat. Every failure of the renewal loses the lease.\<close>

definition renew_run :: "worker_config \<Rightarrow> nat \<Rightarrow> int option \<Rightarrow> worker_state \<Rightarrow> worker_state" where
  "renew_run cfg i reading st =
     (if length (wk_runs st) \<le> i then st
      else
        let run = wk_runs st ! i;
            renewed = bind_result (queue_clock reading) (\<lambda>now.
              bind_result (iso_string (now + wc_lease_ms cfg)) (\<lambda>expiry.
                renew_lease (run_mutation cfg (rn_job run) now) expiry (wk_jobs st))) in
        (case renewed of
           Inr (js, True) \<Rightarrow> st\<lparr>wk_jobs := js\<rparr>
         | Inr (js, False) \<Rightarrow> st\<lparr>wk_jobs := js, wk_runs := (wk_runs st)[i := run\<lparr>rn_lost := True\<rparr>]\<rparr>
         | Inl err \<Rightarrow> st\<lparr>wk_runs := (wk_runs st)[i := run\<lparr>rn_lost := True\<rparr>]\<rparr>))"

text \<open>The guard on the claimed row, and what the dispatch makes of the handler's return or rejection (\<^term>\<open>None\<close>).\<close>

definition dispatchable :: "stored_job \<Rightarrow> bool" where
  "dispatchable j \<longleftrightarrow> is_executor_job (job_json (description j)) \<and> queue_name_for_job (description j) = queue_name j"

definition dispatch_result :: "stored_job \<Rightarrow> job_handler_result option \<Rightarrow> job_handler_result" where
  "dispatch_result j outcome =
     (if \<not> dispatchable j then Handler_Fail Invalid_Job_Version
      else case outcome of None \<Rightarrow> Handler_Fail Handler_Rejected | Some r \<Rightarrow> r)"

fun persist_result :: "lease_mutation \<Rightarrow> job_handler_result \<Rightarrow> job_store \<Rightarrow> (job_store \<times> bool) result" where
  "persist_result inp Handler_Complete js = complete_job inp js"
| "persist_result inp Handler_Cancelled js = cancel_claimed inp js"
| "persist_result inp (Handler_Reschedule t) js = reschedule_job inp t js"
| "persist_result inp (Handler_Fail code) js = fail_job inp code js"

fun settle_result :: "string \<Rightarrow> job_handler_result \<Rightarrow> worker_state \<Rightarrow> worker_state" where
  "settle_result k Handler_Complete st = settle_terminal k Job_Succeeded None st"
| "settle_result k Handler_Cancelled st = settle_terminal k Job_Cancelled None st"
| "settle_result k (Handler_Reschedule t) st = st"
| "settle_result k (Handler_Fail code) st = settle_terminal k Job_Failed (Some code) st"

text \<open>
  The end of \<open>#run\<close>, and the \<open>finally\<close> of \<open>#begin\<close>. The clock is read for the lease mutation and again for the
  logged duration: when that second reading is invalid the row is written and its promise is not settled here.
\<close>

definition persist_run ::
    "worker_config \<Rightarrow> worker_run \<Rightarrow> job_handler_result option \<Rightarrow> int option \<times> int option \<Rightarrow> worker_state \<Rightarrow>
     worker_state" where
  "persist_run cfg run outcome readings st =
     (let j = rn_job run; r = dispatch_result j outcome in
      if rn_lost run then st
      else case queue_clock (fst readings) of
        Inl err \<Rightarrow> st
      | Inr now \<Rightarrow>
          (case persist_result (run_mutation cfg j now) r (wk_jobs st) of
             Inl err \<Rightarrow> st
           | Inr (js, False) \<Rightarrow> st\<lparr>wk_jobs := js\<rparr>
           | Inr (js, True) \<Rightarrow>
               (case queue_clock (snd readings) of
                  Inl err \<Rightarrow> st\<lparr>wk_jobs := js\<rparr>
                | Inr _ \<Rightarrow> settle_result (job_id j) r (st\<lparr>wk_jobs := js\<rparr>))))"

definition end_run :: "nat \<Rightarrow> run_key \<Rightarrow> worker_state \<Rightarrow> worker_state" where
  "end_run i k st = resolve_idle (st\<lparr>wk_active := filter (\<lambda>k'. k' \<noteq> k) (wk_active st),
     wk_runs := take i (wk_runs st) @ drop (Suc i) (wk_runs st)\<rparr>)"

definition finish_run ::
    "worker_config \<Rightarrow> nat \<Rightarrow> job_handler_result option \<Rightarrow> int option \<times> int option \<Rightarrow> worker_state \<Rightarrow>
     worker_state" where
  "finish_run cfg i outcome readings st =
     (if length (wk_runs st) \<le> i then st
      else end_run i (run_key_of (rn_job (wk_runs st ! i)))
        (persist_run cfg (wk_runs st ! i) outcome readings st))"

end
