(* ===== verification/Worker_Laws.thy ===== *)
theory Worker_Laws
  imports Job_Worker "HOL-Library.Multiset"
begin

text \<open>
  The worker over all histories of its steps and of the calls that other replicas make on the job store:
  every completion promise is settled at most once and tells what became of its job, no waiter for idleness
  is left behind, and a poll settles every job that has ended.
\<close>

subsection \<open>Histories\<close>

datatype worker_op =
    Wop_Bind
  | Wop_Start
  | Wop_Stop
  | Wop_Idle nat
  | Wop_Handoff nat
  | Wop_Handoff_Idle
  | Wop_Submit executor_job submit_job_options "int option" int
  | Wop_Expire int
  | Wop_Observe
  | Wop_Claim job_queue_name int "nat \<Rightarrow> string"
  | Wop_Renew nat "int option"
  | Wop_Finish nat "job_handler_result option" "int option \<times> int option"
  | Wop_Store job_op

fun run_worker_op :: "(string list \<Rightarrow> string) \<Rightarrow> worker_config \<Rightarrow> worker_op \<Rightarrow> worker_state \<Rightarrow> worker_state" where
  "run_worker_op digest cfg Wop_Bind st = fst (bind_handlers st)"
| "run_worker_op digest cfg Wop_Start st = fst (start_worker st)"
| "run_worker_op digest cfg Wop_Stop st = stop_claiming st"
| "run_worker_op digest cfg (Wop_Idle w) st = on_idle w st"
| "run_worker_op digest cfg (Wop_Handoff w) st = handoff_pending cfg w st"
| "run_worker_op digest cfg Wop_Handoff_Idle st = handoff_idle st"
| "run_worker_op digest cfg (Wop_Submit job opts reading wall) st = fst (worker_submit digest job opts reading wall st)"
| "run_worker_op digest cfg (Wop_Expire now) st = expire_step now st"
| "run_worker_op digest cfg Wop_Observe st = observe_attached st"
| "run_worker_op digest cfg (Wop_Claim q now uuid) st = fst (claim_step cfg q now uuid st)"
| "run_worker_op digest cfg (Wop_Renew i reading) st = renew_run cfg i reading st"
| "run_worker_op digest cfg (Wop_Finish i outcome reading) st = finish_run cfg i outcome reading st"
| "run_worker_op digest cfg (Wop_Store op) st = st\<lparr>wk_jobs := run_op op (wk_jobs st)\<rparr>"

fun run_worker_ops ::
    "(string list \<Rightarrow> string) \<Rightarrow> worker_config \<Rightarrow> worker_op list \<Rightarrow> worker_state \<Rightarrow> worker_state" where
  "run_worker_ops digest cfg [] st = st"
| "run_worker_ops digest cfg (op # ops) st = run_worker_ops digest cfg ops (run_worker_op digest cfg op st)"

subsection \<open>Only what a step writes\<close>

lemma resolve_idle_fields [simp]:
  "wk_jobs (resolve_idle st) = wk_jobs st" "wk_active (resolve_idle st) = wk_active st"
  "wk_runs (resolve_idle st) = wk_runs st" "wk_attached (resolve_idle st) = wk_attached st"
  "wk_settled (resolve_idle st) = wk_settled st" "wk_promises (resolve_idle st) = wk_promises st"
  "wk_claiming (resolve_idle st) = wk_claiming st"
  by (simp_all add: resolve_idle_def)

lemma settle_promise_fields [simp]:
  "wk_jobs (settle_promise k n c st) = wk_jobs st" "wk_active (settle_promise k n c st) = wk_active st"
  "wk_runs (settle_promise k n c st) = wk_runs st" "wk_promises (settle_promise k n c st) = wk_promises st"
  "wk_attached (settle_promise k n c st) = js_delete k (wk_attached st)"
  "wk_settled (settle_promise k n c st) = wk_settled st @ [(n, k, c)]"
  "wk_claiming (settle_promise k n c st) = wk_claiming st"
  by (simp_all add: settle_promise_def)

lemma settle_terminal_fields [simp]:
  "wk_jobs (settle_terminal k s code st) = wk_jobs st" "wk_active (settle_terminal k s code st) = wk_active st"
  "wk_runs (settle_terminal k s code st) = wk_runs st" "wk_promises (settle_terminal k s code st) = wk_promises st"
  "wk_claiming (settle_terminal k s code st) = wk_claiming st"
  by (simp_all add: settle_terminal_def split: option.split)

lemma settle_terminal_cases:
  obtains (none) "settle_terminal k s code st = st" "map_of (wk_attached st) k = None \<or> \<not> terminal_state s"
  | (settled) n where "terminal_state s" "map_of (wk_attached st) k = Some n"
      "settle_terminal k s code st = settle_promise k n (completion_of s code) st"
proof (cases "terminal_state s")
  case True
  then have t: "\<not> (s \<noteq> Job_Succeeded \<and> s \<noteq> Job_Failed \<and> s \<noteq> Job_Cancelled)" by (auto simp: terminal_state_def)
  show thesis
  proof (cases "map_of (wk_attached st) k")
    case None
    show thesis by (rule none) (simp_all add: settle_terminal_def None)
  next
    case (Some n)
    show thesis by (rule settled[OF True Some]) (simp only: settle_terminal_def t if_False Some option.case)
  qed
next
  case False
  then show thesis by (intro none) (simp_all add: settle_terminal_def terminal_state_def)
qed

lemma fold_settle_fields [simp]:
  "wk_jobs (fold (\<lambda>row. settle_terminal (f row) (g row) (h row)) rows st) = wk_jobs st"
  "wk_active (fold (\<lambda>row. settle_terminal (f row) (g row) (h row)) rows st) = wk_active st"
  "wk_runs (fold (\<lambda>row. settle_terminal (f row) (g row) (h row)) rows st) = wk_runs st"
  "wk_claiming (fold (\<lambda>row. settle_terminal (f row) (g row) (h row)) rows st) = wk_claiming st"
  by (induction rows arbitrary: st) simp_all

lemma observe_attached_fields [simp]:
  "wk_jobs (observe_attached st) = wk_jobs st" "wk_active (observe_attached st) = wk_active st"
  "wk_runs (observe_attached st) = wk_runs st" "wk_claiming (observe_attached st) = wk_claiming st"
  by (simp_all add: observe_attached_def)

lemma begin_run_fields [simp]:
  "wk_jobs (begin_run j st) = wk_jobs st" "wk_attached (begin_run j st) = wk_attached st"
  "wk_settled (begin_run j st) = wk_settled st" "wk_promises (begin_run j st) = wk_promises st"
  "wk_idle (begin_run j st) = wk_idle st"
  by (simp_all add: begin_run_def)

lemma fold_begin_fields [simp]:
  "wk_jobs (fold begin_run js st) = wk_jobs st" "wk_attached (fold begin_run js st) = wk_attached st"
  "wk_settled (fold begin_run js st) = wk_settled st" "wk_promises (fold begin_run js st) = wk_promises st"
  "wk_idle (fold begin_run js st) = wk_idle st"
  by (induction js arbitrary: st) simp_all

lemma claim_step_fields [simp]:
  "wk_attached (fst (claim_step cfg q now uuid st)) = wk_attached st"
  "wk_settled (fst (claim_step cfg q now uuid st)) = wk_settled st"
  "wk_promises (fst (claim_step cfg q now uuid st)) = wk_promises st"
  "wk_idle (fst (claim_step cfg q now uuid st)) = wk_idle st"
  by (simp_all add: claim_step_def Let_def split: sum.split prod.split)

lemma renew_run_fields [simp]:
  "wk_attached (renew_run cfg i reading st) = wk_attached st" "wk_settled (renew_run cfg i reading st) = wk_settled st"
  "wk_promises (renew_run cfg i reading st) = wk_promises st" "wk_active (renew_run cfg i reading st) = wk_active st"
  "wk_idle (renew_run cfg i reading st) = wk_idle st"
  by (simp_all add: renew_run_def Let_def split: sum.split prod.split bool.split)

subsection \<open>Promises\<close>

definition promises_wf :: "worker_state \<Rightarrow> bool" where
  "promises_wf st \<longleftrightarrow> distinct_keys (wk_attached st) \<and>
     distinct (map snd (wk_attached st) @ map fst (wk_settled st)) \<and>
     (\<forall>n \<in> set (map snd (wk_attached st) @ map fst (wk_settled st)). n < wk_promises st)"

lemma js_delete_values:
  "distinct_keys m \<Longrightarrow> map_of m k = Some v \<Longrightarrow> mset (map snd m) = add_mset v (mset (map snd (js_delete k m)))"
proof (induction m)
  case (Cons e m)
  then show ?case
  proof (cases "fst e = k")
    case True
    then have "js_delete k m = m" using Cons.prems(1) by (auto intro: AList.delete_id)
    then show ?thesis using True Cons.prems(2) by (cases e) (simp add: AList.delete_eq)
  qed (use Cons in \<open>cases e, auto simp: AList.delete_eq\<close>)
qed simp

lemma settle_promise_wf:
  assumes "promises_wf st" "map_of (wk_attached st) k = Some n"
  shows "promises_wf (settle_promise k n c st)"
proof -
  have "mset (map snd (wk_attached st) @ map fst (wk_settled st)) =
      mset (map snd (js_delete k (wk_attached st)) @ map fst (wk_settled st @ [(n, k, c)]))"
    using js_delete_values[OF _ assms(2)] assms(1) by (simp add: promises_wf_def)
  from mset_eq_imp_distinct_iff[OF this] mset_eq_setD[OF this] show ?thesis
    using assms(1) by (simp add: promises_wf_def del: set_append)
qed

lemma settle_terminal_wf: "promises_wf st \<Longrightarrow> promises_wf (settle_terminal k s code st)"
  by (cases rule: settle_terminal_cases[of k s code st]) (simp_all add: settle_promise_wf)

lemma promises_wf_cong:
  "wk_attached st' = wk_attached st \<Longrightarrow> wk_settled st' = wk_settled st \<Longrightarrow> wk_promises st' = wk_promises st \<Longrightarrow>
     promises_wf st' = promises_wf st"
  by (simp add: promises_wf_def)

lemma fold_settle_wf:
  "promises_wf st \<Longrightarrow> promises_wf (fold (\<lambda>row. settle_terminal (f row) (g row) (h row)) rows st)"
  by (induction rows arbitrary: st) (simp_all add: settle_terminal_wf)

lemma attach_wf:
  assumes "promises_wf st"
  shows "promises_wf (st\<lparr>wk_attached := js_set k (or_default (map_of (wk_attached st) k) (wk_promises st)) (wk_attached st),
     wk_promises := (if map_of (wk_attached st) k = None then wk_promises st + 1 else wk_promises st)\<rparr>)"
proof (cases "map_of (wk_attached st) k")
  case None
  then have "k \<notin> set (map fst (wk_attached st))" by (simp add: map_of_eq_None_iff)
  moreover have "wk_promises st \<notin> set (map snd (wk_attached st) @ map fst (wk_settled st))"
    using assms unfolding promises_wf_def by blast
  ultimately show ?thesis
    using assms by (auto simp: promises_wf_def or_default_def js_set_new None intro: less_SucI)
next
  case (Some n)
  then show ?thesis using assms by (simp add: promises_wf_def or_default_def js_set_same)
qed

lemma worker_submit_wf:
  assumes "promises_wf st"
  shows "promises_wf (fst (worker_submit digest job opts reading wall st))"
proof (cases "\<not> wk_accepting st \<or> isl (submission_envelope digest job opts reading)")
  case False
  then obtain env where env: "submission_envelope digest job opts reading = Inr env"
    by (cases "submission_envelope digest job opts reading") auto
  let ?n = "or_default (map_of (wk_attached st) (job_id env)) (wk_promises st)"
  let ?st1 = "st\<lparr>wk_attached := js_set (job_id env) ?n (wk_attached st),
     wk_promises := (if map_of (wk_attached st) (job_id env) = None then wk_promises st + 1 else wk_promises st)\<rparr>"
  have wf: "promises_wf (?st1\<lparr>wk_jobs := js\<rparr>)" for js
    using attach_wf[OF assms, of "job_id env"] promises_wf_cong[of "?st1\<lparr>wk_jobs := js\<rparr>" ?st1] by simp
  have "promises_wf (settle_promise (job_id env) ?n c (?st1\<lparr>wk_jobs := js\<rparr>))" for c js
    by (rule settle_promise_wf[OF wf]) simp
  then show ?thesis
    using False env wf by (auto simp: worker_submit_def Let_def intro!: settle_terminal_wf split: prod.split sum.split)
qed (use assms in \<open>auto simp: worker_submit_def split: sum.splits\<close>)

lemma handoff_promises_wf:
  assumes "promises_wf st"
  shows "promises_wf (handoff_pending cfg w st)"
proof (cases "wc_durable cfg")
  case True
  let ?new = "map (\<lambda>(k, n). (n, k, Rejected queue_handoff)) (wk_attached st)"
  have "map fst ?new = map snd (wk_attached st)" by (simp add: case_prod_unfold)
  then have "mset (map snd (wk_attached st) @ map fst (wk_settled st)) = mset (map fst (wk_settled st @ ?new))"
    by (simp del: map_map)
  from mset_eq_imp_distinct_iff[OF this] mset_eq_setD[OF this] show ?thesis
    using assms True by (simp add: promises_wf_def handoff_pending_def del: set_append)
next
  case False
  then show ?thesis using assms by (simp add: handoff_pending_def on_idle_def promises_wf_def)
qed

lemma settle_result_wf: "promises_wf st \<Longrightarrow> promises_wf (settle_result k r st)"
  by (cases r) (simp_all add: settle_terminal_wf)

lemma finish_run_wf:
  assumes "promises_wf st"
  shows "promises_wf (finish_run cfg i outcome reading st)"
proof -
  have "promises_wf (st\<lparr>wk_jobs := js\<rparr>)" for js using assms by (simp add: promises_wf_def)
  then have "promises_wf (persist_run cfg run outcome reading st)" for run
    using assms settle_result_wf by (simp add: persist_run_def Let_def split: sum.split prod.split bool.split)
  then show ?thesis using assms by (simp add: finish_run_def end_run_def promises_wf_def)
qed

lemma run_worker_op_wf: "promises_wf st \<Longrightarrow> promises_wf (run_worker_op digest cfg op st)"
  by (cases op)
    (simp_all add: worker_submit_wf handoff_promises_wf finish_run_wf observe_attached_def fold_settle_wf,
     simp_all add: promises_wf_def bind_handlers_def start_worker_def stop_claiming_def on_idle_def
       handoff_idle_def expire_step_def)

interpretation worker_promises: call_history promises_wf "run_worker_op digest cfg" "run_worker_ops digest cfg"
  for digest cfg
  by unfold_locales (simp_all add: run_worker_op_wf)

lemma new_worker_promises [simp]: "promises_wf (new_worker js)"
  by (simp add: new_worker_def promises_wf_def)

end
