(* ===== verification/Worker_Settlement.thy ===== *)
theory Worker_Settlement
  imports Worker_Laws
begin

text \<open>
  What the completion promises of the worker say: every step of the worker acts on the job store as calls of
  its operations, and a promise is settled with the outcome that the durable row shows.
\<close>

subsection \<open>A step acts on the store by its operations\<close>

text \<open>The new store is the old one after some calls, all of which satisfy \<open>P\<close>.\<close>

definition calls_store :: "(job_op \<Rightarrow> bool) \<Rightarrow> job_store \<Rightarrow> job_store \<Rightarrow> bool" where
  "calls_store P js js' \<longleftrightarrow> (\<exists>ops. list_all P ops \<and> js' = run_ops ops js)"

lemma calls_store_refl [simp]: "calls_store P js js"
  unfolding calls_store_def by (rule exI[of _ "[]"]) simp

lemma calls_store_op: "P op \<Longrightarrow> js' = run_op op js \<Longrightarrow> calls_store P js js'"
  unfolding calls_store_def by (rule exI[of _ "[op]"]) simp

lemma calls_store_wf: "calls_store P js js' \<Longrightarrow> job_store_wf js \<Longrightarrow> job_store_wf js'"
  by (auto simp: calls_store_def run_ops_wf)

text \<open>The calls a worker makes on its own, and the ones it makes for its clients.\<close>

definition own_calls :: "(job_op \<Rightarrow> bool) \<Rightarrow> bool" where
  "own_calls P \<longleftrightarrow> (\<forall>inp uuid. P (Op_Claim inp uuid)) \<and> (\<forall>a inp. P (Op_Lease a inp)) \<and>
     (\<forall>qs now limit. P (Op_Expire qs now limit))"

fun client_calls :: "(string list \<Rightarrow> string) \<Rightarrow> (job_op \<Rightarrow> bool) \<Rightarrow> worker_op \<Rightarrow> bool" where
  "client_calls digest P (Wop_Submit job opts reading wall) \<longleftrightarrow>
     (\<forall>env. submission_envelope digest job opts reading = Inr env \<longrightarrow> P (Op_Ensure env wall))"
| "client_calls digest P (Wop_Store op) \<longleftrightarrow> P op"
| "client_calls digest P _ \<longleftrightarrow> True"

lemma own_callsD:
  assumes "own_calls P"
  shows "P (Op_Claim inp uuid)" "P (Op_Lease a inp')" "P (Op_Expire qs now limit)"
  using assms by (simp_all add: own_calls_def)

lemma accept_job_store: "fst (accept_job env wall js) = run_op (Op_Ensure env wall) js"
  by (auto simp: accept_job_def state_after_def split: sum.splits prod.splits ensure_job_result.splits)

lemma persist_result_store:
  "persist_result inp r js = Inr (js', ok) \<Longrightarrow> \<exists>a. js' = run_op (Op_Lease a inp) js"
proof (cases r)
  case Handler_Complete
  then show "persist_result inp r js = Inr (js', ok) \<Longrightarrow> ?thesis" by (intro exI[of _ Act_Complete]) simp
next
  case Handler_Cancelled
  then show "persist_result inp r js = Inr (js', ok) \<Longrightarrow> ?thesis" by (intro exI[of _ Act_Cancel]) simp
next
  case (Handler_Reschedule t)
  then show "persist_result inp r js = Inr (js', ok) \<Longrightarrow> ?thesis" by (intro exI[of _ "Act_Reschedule t"]) simp
next
  case (Handler_Fail code)
  then show "persist_result inp r js = Inr (js', ok) \<Longrightarrow> ?thesis" by (intro exI[of _ "Act_Fail code"]) simp
qed

lemma claim_step_store:
  assumes "own_calls P"
  shows "calls_store P (wk_jobs st) (wk_jobs (fst (claim_step cfg q now uuid st)))"
proof -
  have "calls_store P (wk_jobs st) js" if "claim_jobs inp uuid (wk_jobs st) = Inr (js, cs)" for inp js cs
    using own_callsD[OF assms] that by (intro calls_store_op[of P "Op_Claim inp uuid"]) simp_all
  then show ?thesis by (auto simp: claim_step_def Let_def split: sum.split prod.split)
qed

lemma renew_run_store:
  assumes "own_calls P"
  shows "calls_store P (wk_jobs st) (wk_jobs (renew_run cfg i reading st))"
proof -
  have "calls_store P (wk_jobs st) js" if "renew_lease inp e (wk_jobs st) = Inr (js, ok)" for inp e js ok
    using own_callsD[OF assms] that by (intro calls_store_op[of P "Op_Lease (Act_Renew e) inp"]) simp_all
  then show ?thesis
    by (fastforce simp: renew_run_def Let_def bind_result_Inr_iff split: sum.split prod.split bool.split)
qed

lemma settle_result_jobs [simp]: "wk_jobs (settle_result k r st) = wk_jobs st"
  by (cases r) simp_all

lemma persist_run_store:
  assumes "own_calls P"
  shows "calls_store P (wk_jobs st) (wk_jobs (persist_run cfg run outcome reading st))"
proof -
  have "calls_store P (wk_jobs st) js" if r: "persist_result inp r (wk_jobs st) = Inr (js, ok)" for inp r js ok
  proof -
    obtain a where "js = run_op (Op_Lease a inp) (wk_jobs st)" using persist_result_store[OF r] by blast
    then show ?thesis by (rule calls_store_op[of P, OF own_callsD(2)[OF assms]])
  qed
  then show ?thesis by (auto simp: persist_run_def Let_def split: sum.split prod.split bool.split)
qed

lemma worker_submit_store:
  assumes "client_calls digest P (Wop_Submit job opts reading wall)"
  shows "calls_store P (wk_jobs st) (wk_jobs (fst (worker_submit digest job opts reading wall st)))"
proof -
  have "calls_store P (wk_jobs st) js"
    if "accept_job env wall (wk_jobs st) = (js, r)" "submission_envelope digest job opts reading = Inr env" for env js r
    using accept_job_store[of env wall "wk_jobs st"] that assms by (intro calls_store_op[of P "Op_Ensure env wall"]) simp_all
  then show ?thesis by (auto simp: worker_submit_def Let_def split: sum.split prod.split)
qed

lemma worker_op_store:
  assumes "own_calls P" "client_calls digest P op"
  shows "calls_store P (wk_jobs st) (wk_jobs (run_worker_op digest cfg op st))"
proof (cases op)
  case (Wop_Expire now)
  have "wk_jobs (expire_step now st) = run_op (Op_Expire all_queues (Iso now) 1000) (wk_jobs st)"
    by (simp add: expire_step_def)
  from calls_store_op[of P, OF own_callsD(3)[OF assms(1)] this] show ?thesis using Wop_Expire by simp
next
  case (Wop_Submit job opts reading wall)
  then show ?thesis using worker_submit_store[of digest P] assms(2) by simp
next
  case (Wop_Store jop)
  then show ?thesis using calls_store_op[of P jop] assms(2) by simp
next
  case (Wop_Finish i outcome reading)
  then show ?thesis using persist_run_store[OF assms(1)] by (simp add: finish_run_def end_run_def)
qed (simp_all add: claim_step_store[OF assms(1)] renew_run_store[OF assms(1)],
    simp_all add: bind_handlers_def start_worker_def stop_claiming_def on_idle_def handoff_pending_def handoff_idle_def)

lemma any_calls [simp]: "own_calls (\<lambda>_. True)" "client_calls digest (\<lambda>_. True) op"
  by (simp add: own_calls_def) (cases op, simp_all)

lemma worker_op_store_wf: "job_store_wf (wk_jobs st) \<Longrightarrow> job_store_wf (wk_jobs (run_worker_op digest cfg op st))"
  by (rule calls_store_wf[OF worker_op_store[of "\<lambda>_. True"]]) simp_all

interpretation worker_stores: call_history "\<lambda>st. job_store_wf (wk_jobs st)"
    "run_worker_op digest cfg" "run_worker_ops digest cfg" for digest cfg
  by unfold_locales (simp_all add: worker_op_store_wf)

subsection \<open>What a settlement says\<close>

definition row_outcome :: "job_store \<Rightarrow> string \<Rightarrow> completion \<Rightarrow> bool" where
  "row_outcome js k c \<longleftrightarrow> (case map_of (jobs js) k of None \<Rightarrow> False
     | Some row \<Rightarrow> terminal_state (job_state row) \<and> c = completion_of (job_state row) (last_error_code row))"

fun refused :: "(string list \<Rightarrow> string) \<Rightarrow> worker_op \<Rightarrow> job_store \<Rightarrow> string \<Rightarrow> completion \<Rightarrow> bool" where
  "refused digest (Wop_Handoff w) js k c \<longleftrightarrow> c = Rejected queue_handoff"
| "refused digest (Wop_Submit job opts reading wall) js k c \<longleftrightarrow>
     (case submission_envelope digest job opts reading of Inl err \<Rightarrow> False
      | Inr env \<Rightarrow> k = job_id env \<and> (case snd (accept_job env wall js) of Inl err \<Rightarrow> c = Rejected err
          | Inr row \<Rightarrow> False))"
| "refused digest _ js k c \<longleftrightarrow> False"

text \<open>The settlements a step adds, each of them an attached promise that satisfies \<open>P\<close>.\<close>

definition settles :: "(string \<Rightarrow> completion \<Rightarrow> bool) \<Rightarrow> worker_state \<Rightarrow> worker_state \<Rightarrow> bool" where
  "settles P st st' \<longleftrightarrow> (\<exists>new. wk_settled st' = wk_settled st @ new \<and> (\<forall>(n, k, c) \<in> set new. P k c))"

lemma settles_refl [intro]: "wk_settled st' = wk_settled st \<Longrightarrow> settles P st st'"
  unfolding settles_def by (rule exI[of _ "[]"]) simp

lemma settles_one: "wk_settled st' = wk_settled st @ [(n, k, c)] \<Longrightarrow> P k c \<Longrightarrow> settles P st st'"
  unfolding settles_def by (rule exI[of _ "[(n, k, c)]"]) simp

lemma settles_trans: "settles P st st1 \<Longrightarrow> settles P st1 st2 \<Longrightarrow> settles P st st2"
  unfolding settles_def by (elim exE conjE) (rule_tac x = "new @ newa" in exI, auto)

lemma settles_mono: "settles P st st' \<Longrightarrow> (\<And>k c. P k c \<Longrightarrow> Q k c) \<Longrightarrow> settles Q st st'"
  unfolding settles_def by fastforce

lemma settle_terminal_settles:
  assumes "terminal_state s \<Longrightarrow> P k (completion_of s code)"
  shows "settles P st (settle_terminal k s code st)"
proof (cases rule: settle_terminal_cases[of k s code st])
  case (settled n)
  then show ?thesis using assms by (auto intro: settles_one)
qed auto

lemma fold_settle_settles:
  assumes "\<And>row. row \<in> set rows \<Longrightarrow> terminal_state (g row) \<Longrightarrow> P (f row) (completion_of (g row) (h row))"
  shows "settles P st (fold (\<lambda>row. settle_terminal (f row) (g row) (h row)) rows st)"
  using assms
proof (induction rows arbitrary: st)
  case (Cons row rows)
  have "settles P st (settle_terminal (f row) (g row) (h row) st)"
    using Cons.prems by (intro settle_terminal_settles) simp
  then show ?case using Cons by (auto intro: settles_trans)
qed auto

lemma attached_terminal_rows:
  assumes "job_store_wf js" "row \<in> set (list_attached_terminal ids js)"
  shows "map_of (jobs js) (job_id row) = Some row" "terminal_state (job_state row)"
proof -
  obtain k where "map_of (jobs js) k = Some row" "terminal_state (job_state row)"
    using assms(2) by (auto simp: list_attached_terminal_def split: option.splits if_splits)
  then show "map_of (jobs js) (job_id row) = Some row" "terminal_state (job_state row)"
    using job_store_wf_id[OF assms(1)] by auto
qed

lemma observe_settles:
  assumes "job_store_wf (wk_jobs st)"
  shows "settles (row_outcome (wk_jobs st)) st (observe_attached st)"
  unfolding observe_attached_def
  using attached_terminal_rows[OF assms] by (intro fold_settle_settles) (auto simp: row_outcome_def)

lemma accept_job_row:
  assumes "accept_job env wall js = (js', Inr row)"
  shows "map_of (jobs js') (job_id env) = Some row" "job_id row = job_id env"
proof -
  have "ensure_job env wall js = Inr (js', Job_Inserted row) \<or> ensure_job env wall js = Inr (js', Job_Existing row)"
    using assms by (auto simp: accept_job_def split: sum.splits prod.splits ensure_job_result.splits)
  from ensure_result_row[OF this]
  show "map_of (jobs js') (job_id env) = Some row" "job_id row = job_id env"
    by (simp_all add: same_immutable_job_def)
qed

lemma submit_settles:
  fixes job opts reading wall digest cfg st
  defines "op \<equiv> Wop_Submit job opts reading wall"
  defines "st' \<equiv> run_worker_op digest cfg op st"
  shows "settles (\<lambda>k c. row_outcome (wk_jobs st') k c \<or> refused digest op (wk_jobs st) k c) st st'"
proof (cases "\<not> wk_accepting st \<or> isl (submission_envelope digest job opts reading)")
  case False
  then obtain env where env: "submission_envelope digest job opts reading = Inr env"
    by (cases "submission_envelope digest job opts reading") auto
  let ?n = "or_default (map_of (wk_attached st) (job_id env)) (wk_promises st)"
  let ?st1 = "st\<lparr>wk_attached := js_set (job_id env) ?n (wk_attached st),
     wk_promises := (if map_of (wk_attached st) (job_id env) = None then wk_promises st + 1 else wk_promises st)\<rparr>"
  obtain js r where acc: "accept_job env wall (wk_jobs st) = (js, r)" by fastforce
  show ?thesis
  proof (cases r)
    case (Inl err)
    then have "wk_settled st' = wk_settled st @ [(?n, job_id env, Rejected err)]"
      using False env acc by (simp add: st'_def op_def worker_submit_def Let_def)
    then show ?thesis by (rule settles_one) (simp add: op_def env acc Inl)
  next
    case (Inr row)
    note row = accept_job_row[of env wall "wk_jobs st" js row]
    have st': "st' = settle_terminal (job_id row) (job_state row) (last_error_code row) (?st1\<lparr>wk_jobs := js\<rparr>)"
      using False env acc Inr by (simp add: st'_def op_def worker_submit_def Let_def)
    then have "settles (row_outcome js) (?st1\<lparr>wk_jobs := js\<rparr>) st'"
      using row acc Inr by (auto intro!: settle_terminal_settles simp: row_outcome_def)
    moreover have "wk_jobs st' = js" using st' by simp
    ultimately show ?thesis by (auto simp: settles_def)
  qed
qed (auto simp: st'_def op_def worker_submit_def settles_def split: sum.splits)

text \<open>The rows that the results of a handler leave behind.\<close>

lemma persist_result_row:
  assumes wf: "job_store_wf js" and "persist_result inp r js = Inr (js', True)"
  shows "\<exists>row. map_of (jobs js') (lm_job_id inp) = Some row \<and>
    (case r of Handler_Complete \<Rightarrow> job_state row = Job_Succeeded \<and> last_error_code row = None
     | Handler_Cancelled \<Rightarrow> job_state row = Job_Cancelled \<and> last_error_code row = None
     | Handler_Reschedule t \<Rightarrow> job_state row = Job_Pending
     | Handler_Fail code \<Rightarrow> job_state row = Job_Failed \<and> last_error_code row = Some code)"
proof -
  have written: "map_of (jobs js'') (lm_job_id inp) = Some (f j)"
    if "with_lease inp f js = Inr (js'', True)" "leased inp js = Inr (Some j)" "job_id (f j) = job_id j"
    for f js'' j
    using that leased_Some[OF that(2)] job_store_wf_id[OF wf] by (auto simp: with_lease_def)
  have row: "\<exists>j. leased inp js = Inr (Some j)" if "with_lease inp f js = Inr (js'', True)" for f js''
    using that by (auto elim: with_lease_cases)
  show ?thesis
    using assms(2) row written
    by (cases r)
      (fastforce simp: complete_job_def cancel_claimed_def fail_job_def finish_job_def reschedule_job_def
        bind_result_Inr_iff finished_job_def clear_lease_def)+
qed

lemma settle_result_settles:
  assumes "\<exists>row. map_of (jobs js) k = Some row \<and>
    (case r of Handler_Complete \<Rightarrow> job_state row = Job_Succeeded \<and> last_error_code row = None
     | Handler_Cancelled \<Rightarrow> job_state row = Job_Cancelled \<and> last_error_code row = None
     | Handler_Reschedule t \<Rightarrow> job_state row = Job_Pending
     | Handler_Fail code \<Rightarrow> job_state row = Job_Failed \<and> last_error_code row = Some code)"
  shows "settles (row_outcome js) st (settle_result k r st)"
  using assms by (cases r) (auto intro!: settle_terminal_settles simp: row_outcome_def)

lemma persist_run_settles:
  assumes "job_store_wf (wk_jobs st)"
  shows "settles (row_outcome (wk_jobs (persist_run cfg run outcome reading st))) st (persist_run cfg run outcome reading st)"
proof -
  have "settles (row_outcome js) st (settle_result (job_id (rn_job run)) r (st\<lparr>wk_jobs := js\<rparr>))"
    if "persist_result (run_mutation cfg (rn_job run) now) r (wk_jobs st) = Inr (js, True)" for js now r
    using settle_result_settles[of js "job_id (rn_job run)" r "st\<lparr>wk_jobs := js\<rparr>"]
      persist_result_row[OF assms that] by (simp add: run_mutation_def settles_def)
  then show ?thesis
    by (auto simp: persist_run_def Let_def split: sum.split prod.split bool.split)
qed

lemma worker_op_settles:
  assumes "job_store_wf (wk_jobs st)"
  shows "settles (\<lambda>k c. row_outcome (wk_jobs (run_worker_op digest cfg op st)) k c \<or> refused digest op (wk_jobs st) k c)
    st (run_worker_op digest cfg op st)"
proof (cases op)
  case (Wop_Submit job opts reading wall)
  then show ?thesis using submit_settles by blast
next
  case (Wop_Handoff w)
  then show ?thesis by (auto simp: handoff_pending_def on_idle_def settles_def)
next
  case Wop_Observe
  then show ?thesis using settles_mono[OF observe_settles[OF assms]] by simp
next
  case (Wop_Finish i outcome reading)
  show ?thesis
  proof (cases "length (wk_runs st) \<le> i")
    case False
    let ?st = "persist_run cfg (wk_runs st ! i) outcome reading st"
    have "settles (row_outcome (wk_jobs ?st)) st ?st" by (rule persist_run_settles[OF assms])
    then show ?thesis using False Wop_Finish by (auto simp: finish_run_def end_run_def settles_def)
  qed (use Wop_Finish in \<open>auto simp: finish_run_def\<close>)
qed (auto simp: bind_handlers_def start_worker_def stop_claiming_def on_idle_def handoff_idle_def expire_step_def)

text \<open>C32: A completion promise settles once and tells the truth. After any history of submissions, polls,
  claims, heartbeats, handler ends, hand-offs and foreign calls on the job store, the next step of the worker
  settles only promises that were not settled before, each of them once; it resolves one exactly with the
  outcome of the terminal row that the store holds for its job after the step, unless the step is the hand-off
  of a durable worker, which rejects with \<open>QueueHandoffError\<close>, or a submission whose admission failed, which
  rejects with the error of that admission.\<close>

theorem completions_settle_once_and_truly:
  fixes digest cfg op ops
  assumes "job_store_wf js"
  defines "st \<equiv> run_worker_ops digest cfg ops (new_worker js)"
  defines "st' \<equiv> run_worker_op digest cfg op st"
  shows "distinct (map fst (wk_settled st')) \<and>
    (\<exists>new. wk_settled st' = wk_settled st @ new \<and>
       (\<forall>(n, k, c) \<in> set new. row_outcome (wk_jobs st') k c \<or> refused digest op (wk_jobs st) k c))"
proof -
  have "job_store_wf (wk_jobs st)"
    unfolding st_def by (rule worker_stores.steps_inv) (simp add: new_worker_def assms(1))
  from worker_op_settles[OF this] have "settles (\<lambda>k c. row_outcome (wk_jobs st') k c \<or>
      refused digest op (wk_jobs st) k c) st st'" by (simp add: st'_def)
  moreover have "promises_wf st'" unfolding st'_def st_def by (rule worker_promises.step_after) simp
  ultimately show ?thesis by (simp add: settles_def promises_wf_def)
qed

end
