(* ===== verification/Worker_Polls.thy ===== *)
theory Worker_Polls
  imports Worker_Settlement
begin

text \<open>
  Polls and idleness: a poll settles the promise of every job that has ended, whoever ended it, and a waiter
  for idleness is released as soon as nothing is attached or active.
\<close>

subsection \<open>A poll settles what has ended\<close>

lemma settle_terminal_attached:
  "map_of (wk_attached (settle_terminal k s code st)) k' =
     (if k' = k \<and> terminal_state s then None else map_of (wk_attached st) k')"
  by (cases rule: settle_terminal_cases[of k s code st]) auto

lemma settle_terminal_adds:
  "map_of (wk_attached st) k = Some n \<Longrightarrow> terminal_state s \<Longrightarrow>
     (n, k, completion_of s code) \<in> set (wk_settled (settle_terminal k s code st))"
  by (cases rule: settle_terminal_cases[of k s code st]) auto

lemma fold_settle_keeps:
  "x \<in> set (wk_settled st) \<Longrightarrow>
     x \<in> set (wk_settled (fold (\<lambda>row. settle_terminal (f row) (g row) (h row)) rows st))"
proof (induction rows arbitrary: st)
  case (Cons row rows)
  have "x \<in> set (wk_settled (settle_terminal (f row) (g row) (h row) st))"
    using Cons.prems by (cases rule: settle_terminal_cases[of "f row" "g row" "h row" st]) auto
  then show ?case using Cons.IH by simp
qed simp

lemma fold_settle_attached:
  "map_of (wk_attached (fold (\<lambda>row. settle_terminal (f row) (g row) (h row)) rows st)) k =
     (if \<exists>row \<in> set rows. f row = k \<and> terminal_state (g row) then None else map_of (wk_attached st) k)"
  by (induction rows arbitrary: st) (auto simp: settle_terminal_attached)

lemma fold_settle_settled:
  assumes "row \<in> set rows" "f row = k" "terminal_state (g row)" "map_of (wk_attached st) k = Some n"
  shows "\<exists>row' \<in> set rows. f row' = k \<and> terminal_state (g row') \<and> (n, k, completion_of (g row') (h row')) \<in>
    set (wk_settled (fold (\<lambda>row. settle_terminal (f row) (g row) (h row)) rows st))"
  using assms
proof (induction rows arbitrary: st)
  case (Cons r rows)
  show ?case
  proof (cases "f r = k \<and> terminal_state (g r)")
    case True
    then have "(n, k, completion_of (g r) (h r)) \<in> set (wk_settled (settle_terminal (f r) (g r) (h r) st))"
      using settle_terminal_adds[OF Cons.prems(4)] by simp
    from fold_settle_keeps[OF this] True show ?thesis by auto
  next
    case False
    then have "map_of (wk_attached (settle_terminal (f r) (g r) (h r) st)) k = Some n"
      using Cons.prems(4) by (auto simp: settle_terminal_attached)
    moreover have "row \<in> set rows" using False Cons.prems(1-3) by auto
    ultimately show ?thesis using Cons.IH[OF _ Cons.prems(2,3)] by auto
  qed
qed simp

lemma observe_attached_settles:
  assumes wf: "job_store_wf (wk_jobs st)" and att: "map_of (wk_attached st) k = Some n"
    and row: "map_of (jobs (wk_jobs st)) k = Some row" "terminal_state (job_state row)"
  shows "(n, k, completion_of (job_state row) (last_error_code row)) \<in> set (wk_settled (observe_attached st))"
    "map_of (wk_attached (observe_attached st)) k = None"
proof -
  let ?rows = "list_attached_terminal (map fst (wk_attached st)) (wk_jobs st)"
  have id: "job_id row = k" by (rule job_store_wf_id[OF wf row(1)])
  have "k \<in> set (map fst (wk_attached st))" using att by (auto dest: map_of_SomeD intro: rev_image_eqI)
  then have mem: "row \<in> set ?rows" using row by (force simp: list_attached_terminal_def)
  obtain r' where r': "r' \<in> set ?rows" "job_id r' = k" "(n, k, completion_of (job_state r') (last_error_code r')) \<in>
      set (wk_settled (observe_attached st))"
    using fold_settle_settled[where f = job_id and g = job_state and h = last_error_code, OF mem id row(2) att]
    unfolding observe_attached_def by blast
  then have "r' = row" using attached_terminal_rows(1)[OF wf r'(1)] row(1) by simp
  then show "(n, k, completion_of (job_state row) (last_error_code row)) \<in> set (wk_settled (observe_attached st))"
    using r'(3) by simp
  show "map_of (wk_attached (observe_attached st)) k = None"
    using mem id row(2) by (auto simp: observe_attached_def fold_settle_attached)
qed

lemma op_edge_terminal:
  "op_edge op st j j' \<Longrightarrow> terminal_state (job_state j) \<Longrightarrow> \<exists>k d t w. op = Op_Reopen k d t w"
  by (cases rule: op_edge.cases)
    (auto simp: terminal_state_def lease_expired_def eligible_def elim!: job_edge.cases)

lemma terminal_row_kept:
  assumes "job_store_wf st" "map_of (jobs st) k = Some j" "terminal_state (job_state j)"
    and "\<And>k' d t w. op \<noteq> Op_Reopen k' d t w"
  shows "map_of (jobs (run_op op st)) k = Some j"
  using run_op_row[OF assms(1,2), of op] op_edge_terminal[OF _ assms(3)] assms(4) by blast

lemma claim_queues_fields [simp]:
  "wk_attached (fst (claim_queues cfg now uuid qs st)) = wk_attached st"
  "wk_settled (fst (claim_queues cfg now uuid qs st)) = wk_settled st"
proof (induction qs arbitrary: st)
  case (Cons q qs)
  {
    case 1
    show ?case using Cons(1) claim_step_fields(1)[of cfg q now "uuid q" st]
      by (auto split: prod.splits sum.splits simp del: claim_step_fields)
  next
    case 2
    show ?case using Cons(2) claim_step_fields(2)[of cfg q now "uuid q" st]
      by (auto split: prod.splits sum.splits simp del: claim_step_fields)
  }
qed simp_all

text \<open>A poll delivers every ended job. After one poll of a worker whose handlers are bound, with a valid
  clock, the completion promise of every attached job whose row is terminal in the store (ended by this worker,
  by another one or by a cancellation) has been settled with the outcome of that row and is no longer attached.\<close>

theorem poll_settles_ended_jobs:
  assumes "job_store_wf (wk_jobs st)" "wk_bound st" "queue_clock reading = Inr now"
    and "map_of (wk_attached st) k = Some n"
    and "map_of (jobs (wk_jobs st)) k = Some row" "terminal_state (job_state row)"
  shows "(n, k, completion_of (job_state row) (last_error_code row)) \<in> set (wk_settled (fst (run_once cfg reading uuid st))) \<and>
    map_of (wk_attached (fst (run_once cfg reading uuid st))) k = None"
proof -
  let ?op = "Op_Expire all_queues (Iso now) 1000" and ?st = "expire_step now st"
  have js: "wk_jobs ?st = run_op ?op (wk_jobs st)" by (simp add: expire_step_def)
  have "job_store_wf (wk_jobs ?st)" unfolding js by (rule run_op_wf[OF assms(1)])
  moreover have "map_of (wk_attached ?st) k = Some n" using assms(4) by (simp add: expire_step_def)
  moreover have "map_of (jobs (wk_jobs ?st)) k = Some row"
    unfolding js by (rule terminal_row_kept[OF assms(1,5,6)]) simp
  ultimately show ?thesis
    using observe_attached_settles[of ?st k n row] assms(2,3,6) by (simp add: run_once_def Let_def)
qed

subsection \<open>Idleness\<close>

definition idle_wf :: "worker_state \<Rightarrow> bool" where
  "idle_wf st \<longleftrightarrow> (wk_attached st = [] \<and> wk_active st = [] \<longrightarrow> wk_idle st = [])"

lemma resolve_idle_wf [simp]: "idle_wf (resolve_idle st)"
  by (auto simp: idle_wf_def resolve_idle_def)

lemma settle_promise_idle [simp]: "idle_wf (settle_promise k n c st)"
  by (simp add: settle_promise_def)

lemma settle_terminal_idle: "idle_wf st \<Longrightarrow> idle_wf (settle_terminal k s code st)"
  by (cases rule: settle_terminal_cases[of k s code st]) simp_all

lemma fold_settle_idle:
  "idle_wf st \<Longrightarrow> idle_wf (fold (\<lambda>row. settle_terminal (f row) (g row) (h row)) rows st)"
  by (induction rows arbitrary: st) (simp_all add: settle_terminal_idle)

lemma begin_run_active: "wk_active (begin_run j st) \<noteq> []"
  by (simp add: begin_run_def set_add_def) force

lemma fold_begin_idle: "idle_wf st \<Longrightarrow> idle_wf (fold begin_run js st)"
proof (induction js arbitrary: st)
  case (Cons j js)
  have "idle_wf (begin_run j st)" using begin_run_active by (simp add: idle_wf_def)
  then show ?case using Cons.IH by simp
qed simp

lemma idle_wf_jobs [simp]: "idle_wf (st\<lparr>wk_jobs := js\<rparr>) = idle_wf st"
  by (simp add: idle_wf_def)

lemma claim_step_idle: "idle_wf st \<Longrightarrow> idle_wf (fst (claim_step cfg q now uuid st))"
  by (auto simp: claim_step_def Let_def fold_begin_idle split: sum.split prod.split)

lemma renew_run_idle: "idle_wf st \<Longrightarrow> idle_wf (renew_run cfg i reading st)"
  by (simp add: idle_wf_def)

lemma submit_idle:
  assumes "idle_wf st"
  shows "idle_wf (fst (worker_submit digest job opts reading wall st))"
proof -
  have new: "js_set k n m \<noteq> []" for k n and m :: "(string \<times> nat) list" by (cases m) auto
  have "idle_wf (settle_terminal k s c st')" if "wk_attached st' \<noteq> []" for k s c st'
    using that by (intro settle_terminal_idle) (simp add: idle_wf_def)
  then show ?thesis using assms new by (auto simp: worker_submit_def Let_def split: sum.split prod.split)
qed

lemma run_worker_op_idle: "idle_wf st \<Longrightarrow> idle_wf (run_worker_op digest cfg op st)"
proof (cases op)
  case (Wop_Finish i outcome reading)
  then show "idle_wf st \<Longrightarrow> ?thesis" by (simp add: finish_run_def end_run_def)
next
  case Wop_Observe
  then show "idle_wf st \<Longrightarrow> ?thesis" by (simp add: observe_attached_def fold_settle_idle)
next
  case (Wop_Handoff w)
  then show "idle_wf st \<Longrightarrow> ?thesis" by (auto simp: handoff_pending_def on_idle_def idle_wf_def resolve_idle_def)
qed (simp_all add: claim_step_idle renew_run_idle submit_idle,
    auto simp: idle_wf_def bind_handlers_def start_worker_def stop_claiming_def on_idle_def handoff_idle_def
      expire_step_def)

interpretation worker_idle: call_history idle_wf "run_worker_op digest cfg" "run_worker_ops digest cfg"
  for digest cfg
  by unfold_locales (simp_all add: run_worker_op_idle)

subsection \<open>Waiters\<close>

definition waiters :: "worker_state \<Rightarrow> nat set" where
  "waiters st = set (wk_idle st) \<union> set (wk_idle_done st)"

lemma waiters_resolve [simp]: "waiters (resolve_idle st) = waiters st"
  by (auto simp: waiters_def resolve_idle_def)

lemma waiters_settle [simp]: "waiters (settle_promise k n c st) = waiters st"
  by (simp add: settle_promise_def) (simp add: waiters_def)

lemma waiters_terminal [simp]: "waiters (settle_terminal k s code st) = waiters st"
  by (cases rule: settle_terminal_cases[of k s code st]) simp_all

lemma waiters_fold [simp]:
  "waiters (fold (\<lambda>row. settle_terminal (f row) (g row) (h row)) rows st) = waiters st"
  by (induction rows arbitrary: st) simp_all

lemma waiters_begin [simp]: "waiters (fold begin_run js st) = waiters st"
  by (induction js arbitrary: st) (simp_all, simp add: begin_run_def waiters_def)

lemma waiters_fields [simp]:
  "waiters (st\<lparr>wk_jobs := js\<rparr>) = waiters st" "waiters (st\<lparr>wk_runs := rs\<rparr>) = waiters st"
  "waiters (st\<lparr>wk_active := as\<rparr>) = waiters st" "waiters (st\<lparr>wk_attached := m\<rparr>) = waiters st"
  "waiters (st\<lparr>wk_promises := p\<rparr>) = waiters st" "waiters (st\<lparr>wk_claiming := b\<rparr>) = waiters st"
  "waiters (st\<lparr>wk_settled := ss\<rparr>) = waiters st" "waiters (st\<lparr>wk_started := b\<rparr>) = waiters st"
  "waiters (st\<lparr>wk_accepting := b\<rparr>) = waiters st" "waiters (st\<lparr>wk_bound := b\<rparr>) = waiters st"
  by (simp_all add: waiters_def)

lemma waiters_result [simp]: "waiters (settle_result k r st) = waiters st"
  by (cases r) simp_all

lemma waiters_persist [simp]: "waiters (persist_run cfg run outcome reading st) = waiters st"
  by (simp add: persist_run_def Let_def split: sum.split prod.split bool.split)

lemma waiters_op:
  "waiters (run_worker_op digest cfg op st) \<supseteq> waiters st"
  "op = Wop_Idle w \<Longrightarrow> w \<in> waiters (run_worker_op digest cfg op st)"
  by (cases op)
    (simp_all add: finish_run_def end_run_def observe_attached_def worker_submit_def claim_step_def renew_run_def
       expire_step_def bind_handlers_def start_worker_def stop_claiming_def handoff_idle_def handoff_pending_def
       Let_def split: sum.split prod.split bool.split,
     auto simp: waiters_def on_idle_def)

lemma waiters_ops:
  "w \<in> waiters st \<or> Wop_Idle w \<in> set ops \<Longrightarrow> w \<in> waiters (run_worker_ops digest cfg ops st)"
proof (induction ops arbitrary: st)
  case (Cons op ops)
  then have "w \<in> waiters (run_worker_op digest cfg op st) \<or> Wop_Idle w \<in> set ops"
    using waiters_op(1)[of st digest cfg op] waiters_op(2)[of op w digest cfg st] by auto
  then show ?case using Cons.IH by simp
qed simp

text \<open>No caller of \<open>onIdle\<close> is forgotten. After any history of the worker in which the waiter \<open>w\<close> called
  \<open>onIdle\<close>, either \<open>w\<close> has been released, or it is still registered and something is still attached or active;
  so it is released by the step that detaches the last promise or ends the last active job.\<close>

theorem idle_waiters_are_released:
  fixes digest cfg ops js
  assumes "Wop_Idle w \<in> set ops"
  defines "st \<equiv> run_worker_ops digest cfg ops (new_worker js)"
  shows "w \<in> set (wk_idle_done st) \<or> (w \<in> set (wk_idle st) \<and> (wk_attached st \<noteq> [] \<or> wk_active st \<noteq> []))"
proof -
  have "idle_wf st"
    unfolding st_def by (rule worker_idle.steps_inv) (simp add: idle_wf_def new_worker_def)
  moreover have "w \<in> waiters st" unfolding st_def using assms(1) by (intro waiters_ops) simp
  ultimately show ?thesis by (auto simp: idle_wf_def waiters_def)
qed

end
