(* ===== verification/Worker_Concurrency.thy ===== *)
theory Worker_Concurrency
  imports Worker_Polls
begin

text \<open>
  The handlers the worker has in flight: what they are called with, how many there are per queue, and when the
  set \<open>#active\<close> that the concurrency limit, \<open>onIdle\<close> and \<open>drainOwned\<close> count by is the set of them.
\<close>

subsection \<open>Claims\<close>

definition run_key :: "worker_run \<Rightarrow> run_key" where
  "run_key r = run_key_of (rn_job r)"

lemma fold_begin_runs:
  "wk_runs (fold begin_run cs st) = wk_runs st @ map (\<lambda>j. \<lparr>rn_job = j, rn_lost = False\<rparr>) cs"
  "wk_active (fold begin_run cs st) = fold set_add (map run_key_of cs) (wk_active st)"
  by (induction cs arbitrary: st) (simp_all add: begin_run_def)

text \<open>What a claim of the worker does, when it does something.\<close>

lemma claim_step_cases:
  obtains (nothing) "fst (claim_step cfg q now uuid st) = st"
  | (claimed) inp js cs where "claim_jobs inp uuid (wk_jobs st) = Inr (js, cs)" "cl_queue inp = q"
      "cl_limit inp = wc_concurrency cfg q - active_in q st" "date_parse (cl_now inp) = Some now"
      "fst (claim_step cfg q now uuid st) = fold begin_run cs (st\<lparr>wk_jobs := js\<rparr>)"
proof (cases "wc_concurrency cfg q - active_in q st < 1 \<or> isl (iso_string (now + wc_lease_ms cfg))")
  case False
  then obtain e where e: "iso_string (now + wc_lease_ms cfg) = Inr e" by (cases "iso_string (now + wc_lease_ms cfg)") auto
  let ?inp = "\<lparr>cl_queue = q, cl_worker = wc_worker cfg, cl_now = Iso now, cl_lease_expires_at = e,
    cl_limit = wc_concurrency cfg q - active_in q st\<rparr>"
  show thesis
  proof (cases "claim_jobs ?inp uuid (wk_jobs st)")
    case (Inl err)
    show thesis by (rule nothing) (use False e Inl in \<open>simp add: claim_step_def Let_def\<close>)
  next
    case (Inr r)
    obtain js cs where r: "r = (js, cs)" by (cases r)
    show thesis
      by (rule claimed[of ?inp js cs]) (use False e Inr r in \<open>simp_all add: claim_step_def Let_def\<close>)
  qed
next
  case True
  show thesis by (rule nothing) (use True in \<open>auto simp: claim_step_def Let_def split: sum.splits\<close>)
qed

lemma claimed_rows:
  assumes wf: "job_store_wf st" and "claim_jobs inp uuid st = Inr (st', cs)" "date_parse (cl_now inp) = Some now"
  shows "length cs \<le> nat (cl_limit inp)" "distinct (map job_id cs)"
    "c \<in> set cs \<Longrightarrow> \<exists>j t. map_of (jobs st) (job_id c) = Some j \<and> c = claimed_job inp t j \<and>
       job_state j = Job_Pending \<and> queue_name j = cl_queue inp"
proof -
  show "length cs \<le> nat (cl_limit inp)"
    using assms by (auto elim!: claim_jobs_Inr simp: claim_candidates_def)
  have "map job_id cs = map job_id (claim_candidates (cl_queue inp) now (cl_limit inp) st)"
  proof -
    let ?ps = "claim_pairs inp uuid 0 (claim_candidates (cl_queue inp) now (cl_limit inp) st)"
    have "map (\<lambda>p. job_id (snd p)) ?ps = map (\<lambda>p. job_id (fst p)) ?ps"
      using claim_pair_row(3) by (intro map_cong) auto
    then show ?thesis using assms(2,3) by (auto elim!: claim_jobs_Inr simp: o_def)
  qed
  then show "distinct (map job_id cs)" using claim_candidates_distinct[OF wf] by simp
  assume "c \<in> set cs"
  then obtain p where p: "p \<in> set (claim_pairs inp uuid 0 (claim_candidates (cl_queue inp) now (cl_limit inp) st))"
      "c = snd p"
    using assms(2,3) by (auto elim!: claim_jobs_Inr)
  then show "\<exists>j t. map_of (jobs st) (job_id c) = Some j \<and> c = claimed_job inp t j \<and>
      job_state j = Job_Pending \<and> queue_name j = cl_queue inp"
    using claim_pair_row[OF p(1)] claim_candidates_facts[OF wf claim_pair_row(2)[OF p(1)]]
    by (auto simp: eligible_def)
qed

lemma claimed_job_same [simp]:
  "job_id (claimed_job inp t j) = job_id j" "queue_name (claimed_job inp t j) = queue_name j"
  "description (claimed_job inp t j) = description j"
  by (simp_all add: claimed_job_def)

subsection \<open>What handlers are called with\<close>

lemma dispatchable_iff:
  "dispatchable j \<longleftrightarrow> job_ids_non_empty (description j) \<and> queue_name_for_job (description j) = queue_name j"
  by (simp add: dispatchable_def is_executor_job_json)

definition typed_rows :: "job_store \<Rightarrow> bool" where
  "typed_rows js \<longleftrightarrow> (\<forall>k j. map_of (jobs js) k = Some j \<longrightarrow> dispatchable j)"

fun typed_job_op :: "job_op \<Rightarrow> bool" where
  "typed_job_op (Op_Ensure env wall) \<longleftrightarrow> job_ids_non_empty (description env) \<and>
     queue_name env = queue_name_for_job (description env)"
| "typed_job_op _ \<longleftrightarrow> True"

fun typed_op :: "worker_op \<Rightarrow> bool" where
  "typed_op (Wop_Submit job opts reading wall) \<longleftrightarrow> job_ids_non_empty job"
| "typed_op (Wop_Store op) \<longleftrightarrow> typed_job_op op"
| "typed_op _ \<longleftrightarrow> True"

lemma row_preserved_dispatchable: "row_preserved j j' \<Longrightarrow> dispatchable j' = dispatchable j"
  by (simp add: row_preserved_def dispatchable_iff)

lemma run_op_typed:
  assumes "job_store_wf js" "typed_rows js" "typed_job_op op"
  shows "typed_rows (run_op op js)"
  unfolding typed_rows_def
proof (intro allI impI)
  fix k j'
  assume row: "map_of (jobs (run_op op js)) k = Some j'"
  show "dispatchable j'"
  proof (cases "map_of (jobs js) k")
    case None
    from run_op_new_row[OF assms(1) None row] show ?thesis
      using assms(3) by (auto simp: new_stored_job_def dispatchable_iff)
  next
    case (Some j)
    then have "dispatchable j" using assms(2) by (auto simp: typed_rows_def)
    moreover obtain j'' where "map_of (jobs (run_op op js)) k = Some j''" "row_preserved j j''"
      using run_op_preserved[OF assms(1) Some, of op] by blast
    ultimately show ?thesis using row row_preserved_dispatchable by simp
  qed
qed

lemma run_ops_typed:
  "job_store_wf js \<Longrightarrow> typed_rows js \<Longrightarrow> list_all typed_job_op ops \<Longrightarrow> typed_rows (run_ops ops js)"
  by (induction ops arbitrary: js) (simp_all add: run_op_typed run_op_wf)

definition typed_worker :: "worker_state \<Rightarrow> bool" where
  "typed_worker st \<longleftrightarrow> typed_rows (wk_jobs st) \<and> (\<forall>r \<in> set (wk_runs st). dispatchable (rn_job r))"

lemma typed_rows_calls:
  assumes "calls_store typed_job_op js js'" "job_store_wf js" "typed_rows js"
  shows "typed_rows js'"
  using assms run_ops_typed by (auto simp: calls_store_def)

lemma typed_own_calls: "own_calls typed_job_op"
  by (simp add: own_calls_def)

lemma typed_client_calls: "typed_op op \<Longrightarrow> client_calls digest typed_job_op op"
  by (cases op) (auto simp: submission_envelope_def bind_result_Inr_iff create_job_envelope_Inr)

text \<open>Only a claim adds runs, and what it adds are typed rows.\<close>

lemma persist_run_runs [simp]:
  "wk_runs (persist_run cfg run outcome reading st) = wk_runs st"
  "wk_active (persist_run cfg run outcome reading st) = wk_active st"
proof -
  have [simp]: "wk_runs (settle_result k r st') = wk_runs st'" "wk_active (settle_result k r st') = wk_active st'"
    for k r st' by (cases r; simp)+
  show "wk_runs (persist_run cfg run outcome reading st) = wk_runs st"
    "wk_active (persist_run cfg run outcome reading st) = wk_active st"
    by (simp_all add: persist_run_def Let_def split: sum.split prod.split bool.split)
qed

lemma runs_of_op:
  assumes "r \<in> set (wk_runs (run_worker_op digest cfg op st))"
  obtains r0 where "r0 \<in> set (wk_runs st)" "rn_job r = rn_job r0"
  | q now uuid where "op = Wop_Claim q now uuid"
proof (cases op)
  case (Wop_Renew i reading)
  have "rn_job r \<in> rn_job ` set (wk_runs st)"
    using assms Wop_Renew
    by (auto simp: renew_run_def Let_def split: sum.splits prod.splits bool.splits if_splits
        dest!: set_mp[OF set_update_subset_insert])
  then show thesis using that(1) by auto
next
  case (Wop_Finish i outcome reading)
  then have "r \<in> set (wk_runs st)"
    using assms by (auto simp: finish_run_def end_run_def split: if_splits dest: in_set_takeD in_set_dropD)
  then show thesis using that(1) by auto
next
  case (Wop_Submit job opts reading wall)
  then have "r \<in> set (wk_runs st)"
    using assms by (auto simp: worker_submit_def Let_def split: if_splits sum.splits prod.splits)
  then show thesis using that(1) by auto
qed (use assms that in \<open>auto simp: bind_handlers_def start_worker_def stop_claiming_def on_idle_def
      handoff_pending_def handoff_idle_def expire_step_def split: if_splits\<close>)

lemma typed_step:
  assumes wf: "job_store_wf (wk_jobs st)" and typed: "typed_worker st" and op: "typed_op op"
  shows "typed_worker (run_worker_op digest cfg op st)"
  unfolding typed_worker_def
proof (intro conjI ballI)
  show "typed_rows (wk_jobs (run_worker_op digest cfg op st))"
    using typed_rows_calls[OF worker_op_store[OF typed_own_calls typed_client_calls[OF op]] wf] typed
    by (simp add: typed_worker_def)
  fix r
  assume r: "r \<in> set (wk_runs (run_worker_op digest cfg op st))"
  then show "dispatchable (rn_job r)"
  proof (cases rule: runs_of_op)
    case (1 r0)
    then show ?thesis using typed by (simp add: typed_worker_def)
  next
    case (2 q now uuid)
    show ?thesis
    proof (cases rule: claim_step_cases[of cfg q now uuid st])
      case nothing
      then show ?thesis using r 2 typed by (simp add: typed_worker_def)
    next
      case (claimed inp js cs)
      then have "r \<in> set (wk_runs st) \<or> rn_job r \<in> set cs" using r 2 by (auto simp: fold_begin_runs)
      moreover have "dispatchable c" if "c \<in> set cs" for c
        using claimed_rows(3)[OF wf claimed(1,4) that] typed
        by (force simp: typed_worker_def typed_rows_def dispatchable_iff)
      ultimately show ?thesis using typed by (auto simp: typed_worker_def)
    qed
  qed
qed

text \<open>C33: Well-typed jobs reach their handler. Let the store start with rows that have non-empty identifiers
  and the queue of their kind, and let every job submitted, here or through another replica, have non-empty
  identifiers (the queue is the one of the kind by construction). Then at every time each handler in flight is
  called with a description that passes the runtime guard and with the queue of that description, and what the
  worker settles is the handler's own result: \<open>invalid_job_version\<close> is unreachable.\<close>

theorem well_typed_jobs_reach_their_handler:
  fixes digest cfg ops js
  assumes "job_store_wf js" "typed_rows js" "list_all typed_op ops"
  defines "st \<equiv> run_worker_ops digest cfg ops (new_worker js)"
  shows "\<forall>r \<in> set (wk_runs st). is_executor_job (job_json (description (rn_job r))) \<and>
    queue_name_for_job (description (rn_job r)) = queue_name (rn_job r) \<and>
    dispatch_result (rn_job r) (Some result) = result"
proof -
  have "job_store_wf (wk_jobs (new_worker js))" "typed_worker (new_worker js)"
    using assms(1,2) by (simp_all add: new_worker_def typed_worker_def)
  from worker_stores.steps_keep[of typed_worker typed_op, OF typed_step this assms(3)]
  have "typed_worker st" by (simp add: st_def)
  then show ?thesis by (auto simp: typed_worker_def dispatch_result_def dispatchable_def)
qed

subsection \<open>How many handlers are in flight\<close>

definition in_flight :: "job_queue_name \<Rightarrow> worker_state \<Rightarrow> int" where
  "in_flight q st = int (length (filter (\<lambda>r. queue_name (rn_job r) = q) (wk_runs st)))"

definition tracked :: "worker_state \<Rightarrow> bool" where
  "tracked st \<longleftrightarrow> wk_active st = map run_key (wk_runs st) \<and> distinct (map run_key (wk_runs st))"

definition holds_row :: "job_store \<Rightarrow> worker_run \<Rightarrow> bool" where
  "holds_row js r \<longleftrightarrow> (case map_of (jobs js) (job_id (rn_job r)) of None \<Rightarrow> False
     | Some row \<Rightarrow> job_state row = Job_Running)"

text \<open>Claims happen only while the row of every handler in flight is still running: heartbeats are in time.\<close>

fun heartbeats_in_time ::
    "(string list \<Rightarrow> string) \<Rightarrow> worker_config \<Rightarrow> worker_op list \<Rightarrow> worker_state \<Rightarrow> bool" where
  "heartbeats_in_time digest cfg [] st \<longleftrightarrow> True"
| "heartbeats_in_time digest cfg (op # ops) st \<longleftrightarrow>
     (case op of Wop_Claim q now uuid \<Rightarrow> list_all (holds_row (wk_jobs st)) (wk_runs st) | _ \<Rightarrow> True) \<and>
     heartbeats_in_time digest cfg ops (run_worker_op digest cfg op st)"

lemma tracked_in_flight: "tracked st \<Longrightarrow> in_flight q st = active_in q st"
  by (simp add: tracked_def in_flight_def active_in_def run_key_def run_key_of_def filter_map o_def)

lemma fold_set_add: "distinct (xs @ ys) \<Longrightarrow> fold set_add ys xs = xs @ ys"
  by (induction ys arbitrary: xs) (simp_all add: set_add_def)

lemma length_fold_set_add:
  "length (filter P (fold set_add ys xs)) \<le> length (filter P xs) + length ys"
proof (induction ys arbitrary: xs)
  case (Cons y ys)
  have "length (filter P (set_add y xs)) \<le> Suc (length (filter P xs))" by (simp add: set_add_def)
  then show ?case using Cons[of "set_add y xs"] by simp
qed simp

lemma filter_remove_nth:
  "i < length xs \<Longrightarrow> distinct (map f xs) \<Longrightarrow>
     filter (\<lambda>k. k \<noteq> f (xs ! i)) (map f xs) = map f (take i xs @ drop (Suc i) xs)"
proof (induction xs arbitrary: i)
  case (Cons x xs)
  then show ?case
  proof (cases i)
    case 0
    have "f x \<notin> set (map f xs)" using Cons.prems(2) by simp
    then have "\<forall>k \<in> set (map f xs). k \<noteq> f x" by metis
    then have "filter (\<lambda>k. k \<noteq> f x) (map f xs) = map f xs" by (simp only: filter_True)
    then show ?thesis using 0 by simp
  next
    case (Suc n)
    then have "f x \<noteq> f (xs ! n)" using Cons.prems by (metis Suc_less_eq distinct.simps(2) length_Cons length_map list.simps(9) nth_map nth_mem)
    then show ?thesis using Suc Cons by auto
  qed
qed simp

lemma claim_tracked:
  assumes wf: "job_store_wf (wk_jobs st)" and t: "tracked st" and held: "list_all (holds_row (wk_jobs st)) (wk_runs st)"
  shows "tracked (fst (claim_step cfg q now uuid st))"
proof (cases rule: claim_step_cases[of cfg q now uuid st])
  case (claimed inp js cs)
  note rows = claimed_rows[OF wf claimed(1,4)]
  have "run_key_of c \<notin> set (wk_active st)" if "c \<in> set cs" for c
  proof
    assume "run_key_of c \<in> set (wk_active st)"
    then obtain r where r: "r \<in> set (wk_runs st)" "job_id (rn_job r) = job_id c"
      using t by (auto simp: tracked_def run_key_def run_key_of_def)
    then show False using held rows(3)[OF that] by (force simp: list_all_iff holds_row_def)
  qed
  then have "set (wk_active st) \<inter> set (map run_key_of cs) = {}" by (simp only: set_map) blast
  moreover have "distinct (map run_key_of cs)"
    using rows(2) by (auto simp: distinct_map run_key_of_def inj_on_def)
  ultimately have d: "distinct (wk_active st @ map run_key_of cs)" using t by (simp only: tracked_def distinct_append)
  from fold_set_add[OF this] d show ?thesis
    using t claimed(5) by (simp add: tracked_def fold_begin_runs run_key_def o_def)
qed (use t in simp)

lemma tracked_cong: "wk_active st' = wk_active st \<Longrightarrow> map run_key (wk_runs st') = map run_key (wk_runs st) \<Longrightarrow>
    tracked st' = tracked st"
  by (simp add: tracked_def)

lemma renew_run_keys: "map run_key (wk_runs (renew_run cfg i reading st)) = map run_key (wk_runs st)"
proof -
  have "map run_key ((wk_runs st)[i := (wk_runs st ! i)\<lparr>rn_lost := True\<rparr>]) = map run_key (wk_runs st)"
    by (simp add: map_update run_key_def) (metis list_update_id list_update_beyond map_update nth_map run_key_def not_le)
  then show ?thesis by (simp add: renew_run_def Let_def split: sum.split prod.split bool.split)
qed

lemma end_run_tracked:
  assumes "tracked st" "i < length (wk_runs st)"
  shows "tracked (end_run i (run_key (wk_runs st ! i)) st)"
proof -
  have runs: "wk_active st = map run_key (wk_runs st)" and d: "distinct (map run_key (wk_runs st))"
    using assms(1) by (simp_all add: tracked_def)
  let ?rest = "filter (\<lambda>k. k \<noteq> run_key (wk_runs st ! i)) (map run_key (wk_runs st))"
  have "?rest = map run_key (take i (wk_runs st) @ drop (Suc i) (wk_runs st))"
    by (rule filter_remove_nth[OF assms(2) d])
  moreover have "distinct ?rest" using d by (rule distinct_filter)
  ultimately show ?thesis unfolding tracked_def end_run_def by (simp add: runs del: map_append)
qed

lemma other_steps_runs:
  assumes "\<And>q now uuid. op \<noteq> Wop_Claim q now uuid" "\<And>i reading. op \<noteq> Wop_Renew i reading"
    "\<And>i outcome reading. op \<noteq> Wop_Finish i outcome reading"
  shows "wk_active (run_worker_op digest cfg op st) = wk_active st" "wk_runs (run_worker_op digest cfg op st) = wk_runs st"
  using assms
  by (cases op; auto simp: worker_submit_def Let_def bind_handlers_def start_worker_def stop_claiming_def on_idle_def
      handoff_pending_def handoff_idle_def expire_step_def split: sum.split prod.split)+

lemma tracked_step:
  assumes wf: "job_store_wf (wk_jobs st)" and t: "tracked st"
    and held: "case op of Wop_Claim q now uuid \<Rightarrow> list_all (holds_row (wk_jobs st)) (wk_runs st) | _ \<Rightarrow> True"
  shows "tracked (run_worker_op digest cfg op st)"
proof (cases op)
  case (Wop_Claim q now uuid)
  then show ?thesis using claim_tracked[OF wf t] held by simp
next
  case (Wop_Renew i reading)
  then show ?thesis using t tracked_cong[of "renew_run cfg i reading st" st] renew_run_keys by simp
next
  case (Wop_Finish i outcome reading)
  have "tracked (persist_run cfg run outcome reading st)" for run using t by (simp add: tracked_def)
  then show ?thesis
    using Wop_Finish t end_run_tracked[of "persist_run cfg (wk_runs st ! i) outcome reading st" i]
    by (simp add: finish_run_def run_key_def)
qed (use t other_steps_runs[of op digest cfg st] in \<open>simp_all only: tracked_def worker_op.distinct simp_thms\<close>)

lemma tracked_history:
  "job_store_wf (wk_jobs st) \<Longrightarrow> tracked st \<Longrightarrow> heartbeats_in_time digest cfg ops st \<Longrightarrow>
     tracked (run_worker_ops digest cfg ops st)"
proof (induction ops arbitrary: st)
  case (Cons op ops)
  have "tracked (run_worker_op digest cfg op st)"
    by (rule tracked_step[OF Cons.prems(1,2)]) (use Cons.prems(3) in simp)
  then show ?case using Cons.IH Cons.prems(1,3) by (simp add: worker_op_store_wf)
qed simp

text \<open>The number of active keys never exceeds the limit.\<close>

definition active_bounded :: "worker_config \<Rightarrow> worker_state \<Rightarrow> bool" where
  "active_bounded cfg st \<longleftrightarrow> (\<forall>q. active_in q st \<le> wc_concurrency cfg q)"

lemma active_in_cong: "wk_active st' = wk_active st \<Longrightarrow> active_in q st' = active_in q st"
  by (simp add: active_in_def)

lemma claim_active:
  assumes wf: "job_store_wf (wk_jobs st)" and b: "active_bounded cfg st"
  shows "active_bounded cfg (fst (claim_step cfg q now uuid st))"
  unfolding active_bounded_def
proof (intro allI)
  fix q'
  show "active_in q' (fst (claim_step cfg q now uuid st)) \<le> wc_concurrency cfg q'"
  proof (cases rule: claim_step_cases[of cfg q now uuid st])
    case nothing
    then show ?thesis using b by (simp add: active_bounded_def)
  next
    case (claimed inp js cs)
    note rows = claimed_rows[OF wf claimed(1,4)]
    let ?keys = "map run_key_of cs"
    have q: "fst k = q" if "k \<in> set ?keys" for k
      using that rows(3) claimed(2) by (force simp: run_key_of_def)
    have active: "wk_active (fst (claim_step cfg q now uuid st)) = fold set_add ?keys (wk_active st)"
      using claimed(5) by (simp add: fold_begin_runs)
    show ?thesis
    proof (cases "q' = q")
      case True
      have "length (filter (\<lambda>k. fst k = q) (fold set_add ?keys (wk_active st))) \<le>
          length (filter (\<lambda>k. fst k = q) (wk_active st)) + length cs"
        using length_fold_set_add[of "\<lambda>k. fst k = q" ?keys "wk_active st"] by simp
      then have "active_in q (fst (claim_step cfg q now uuid st)) \<le> active_in q st + int (length cs)"
        using active by (simp add: active_in_def)
      moreover have "int (length cs) \<le> max 0 (wc_concurrency cfg q - active_in q st)"
        using rows(1) claimed(3) by linarith
      moreover have "active_in q st \<le> wc_concurrency cfg q" using b by (simp add: active_bounded_def)
      ultimately show ?thesis unfolding True by linarith
    next
      case False
      have "filter (\<lambda>k. fst k = q') (fold set_add ks as) = filter (\<lambda>k. fst k = q') as" if "\<forall>k \<in> set ks. fst k = q"
        for ks as using that False by (induction ks arbitrary: as) (auto simp: set_add_def)
      from this[of ?keys "wk_active st"] have "active_in q' (fst (claim_step cfg q now uuid st)) = active_in q' st"
        using q active by (simp add: active_in_def)
      then show ?thesis using b by (simp add: active_bounded_def)
    qed
  qed
qed

lemma active_step:
  assumes wf: "job_store_wf (wk_jobs st)" and b: "active_bounded cfg st"
  shows "active_bounded cfg (run_worker_op digest cfg op st)"
proof (cases op)
  case (Wop_Claim q now uuid)
  then show ?thesis using claim_active[OF wf b] by simp
next
  case (Wop_Finish i outcome reading)
  have shorter: "length (filter P (filter Q xs)) \<le> length (filter P xs)" for P Q and xs :: "run_key list"
    by (induction xs) auto
  have "active_in q (end_run i k (persist_run cfg run outcome reading st)) \<le> active_in q st" for q k run
    using shorter by (simp add: active_in_def end_run_def)
  then have "active_in q (finish_run cfg i outcome reading st) \<le> active_in q st" for q
    by (simp add: finish_run_def)
  then show ?thesis
    using b Wop_Finish by (auto simp: active_bounded_def intro: order_trans)
qed (use b other_steps_runs(1)[of op digest cfg st] in \<open>simp_all add: active_bounded_def active_in_def\<close>)

interpretation worker_bounds: call_history "\<lambda>st. job_store_wf (wk_jobs st) \<and> active_bounded cfg st"
    "run_worker_op digest cfg" "run_worker_ops digest cfg" for digest cfg
  by unfold_locales (simp_all add: worker_op_store_wf active_step)

lemma positive_integer_Inr_iff:
  "positive_integer v what = Inr n \<longleftrightarrow> n = v \<and> is_safe_integer v \<and> 1 \<le> v"
  "valid_duration v what = Inr n \<longleftrightarrow> n = v \<and> is_safe_integer v \<and> 1 \<le> v"
  by (auto simp: positive_integer_def valid_duration_def)

lemma create_worker_config_limits:
  assumes "create_worker_config options = Inr cfg"
  shows "1 \<le> wc_concurrency cfg q" "1 \<le> wc_heartbeat_ms cfg" "wc_heartbeat_ms cfg < wc_lease_ms cfg"
  using assms
  by (auto simp: create_worker_config_def bind_result_Inr_iff positive_integer_Inr_iff split: if_splits
      job_queue_name.split)

text \<open>C34: Concurrency is bounded. In every history of a worker that its constructor accepted the set \<open>#active\<close> holds at
  most the configured number of keys of each queue. If moreover every claim finds the rows of the handlers in
  flight still running (the heartbeats come in time), then \<open>#active\<close> is exactly the keys of the handlers in
  flight, each once: no job has two handlers in this worker, at most the configured number of handlers of each
  queue is in flight, and what \<open>onIdle\<close> and \<open>drainOwned\<close> wait for is all of them.\<close>

theorem handlers_in_flight_are_bounded:
  fixes digest cfg ops js
  assumes "create_worker_config options = Inr cfg" "job_store_wf js"
  defines "st \<equiv> run_worker_ops digest cfg ops (new_worker js)"
  shows "active_in q st \<le> wc_concurrency cfg q \<and>
    (heartbeats_in_time digest cfg ops (new_worker js) \<longrightarrow>
       in_flight q st \<le> wc_concurrency cfg q \<and> distinct (map run_key (wk_runs st)) \<and>
       set (wk_active st) = run_key ` set (wk_runs st))"
proof -
  have "job_store_wf (wk_jobs st) \<and> active_bounded cfg st"
    unfolding st_def using create_worker_config_limits(1)[OF assms(1)] assms(2)
    by (intro worker_bounds.steps_inv) (auto simp: new_worker_def active_bounded_def active_in_def intro: order_trans[of 0 1])
  moreover have "tracked st" if "heartbeats_in_time digest cfg ops (new_worker js)"
    unfolding st_def using that assms(2)
    by (intro tracked_history) (simp_all add: new_worker_def tracked_def)
  ultimately show ?thesis
    using tracked_in_flight[of st q] by (auto simp: active_bounded_def) (auto simp: tracked_def)
qed

end
