(* ===== verification/Worker_Examples.thy ===== *)
theory Worker_Examples
  imports Worker_Concurrency
begin

text \<open>
  Concrete histories of the worker: one ordinary life of a job, and the history in which a handler outlives
  its lease.
\<close>

definition demo_worker :: worker_config where
  "demo_worker = \<lparr>wc_worker = ''w'', wc_concurrency = (\<lambda>q. 2), wc_lease_ms = 10, wc_heartbeat_ms = 5,
     wc_poll_ms = 1, wc_durable = False\<rparr>"

definition demo_options :: worker_options where
  "demo_options = \<lparr>wo_worker = ''w'', wo_execution = Some 2, wo_selection = Some 2, wo_delivery = Some 2,
     wo_lease_ms = Some 10, wo_heartbeat_ms = Some 5, wo_poll_ms = Some 1, wo_durable = None\<rparr>"

lemma demo_worker_options: "create_worker_config demo_options = Inr demo_worker"
  by (simp add: create_worker_config_def demo_options_def demo_worker_def or_default_def positive_integer_def
      valid_duration_def is_safe_integer_def max_safe_integer_def fun_eq_iff split: job_queue_name.split)

definition demo_job :: "string \<Rightarrow> job_envelope" where
  "demo_job k = \<lparr>job_id = k, queue_name = Webhook_Delivery_Queue, description = Webhook_Deliver ''p'' k,
     group_key = None, group_order = None, run_after = Iso 0\<rparr>"

definition no_options :: submit_job_options where
  "no_options = \<lparr>opt_run_after = None, opt_group_key = None, opt_group_order = None\<rparr>"

subsection \<open>A handler that outlives its lease\<close>

definition outliving_ops :: "worker_op list" where
  "outliving_ops = [Wop_Bind, Wop_Start, Wop_Store (Op_Ensure (demo_job ''a'') 0),
     Wop_Claim Webhook_Delivery_Queue 0 (\<lambda>i. ''t1''), Wop_Expire 20,
     Wop_Claim Webhook_Delivery_Queue 20 (\<lambda>i. ''t2''), Wop_Idle 7, Wop_Finish 0 (Some Handler_Complete) (Some 21, Some 21)]"

definition outliving_more :: "worker_op list" where
  "outliving_more = [Wop_Store (Op_Ensure (demo_job ''b'') 0), Wop_Store (Op_Ensure (demo_job ''c'') 0),
     Wop_Claim Webhook_Delivery_Queue 21 (\<lambda>i. ''t3'')]"

definition outlived :: worker_state where
  "outlived = run_worker_ops concat demo_worker outliving_ops (new_worker empty_job_store)"

text \<open>A handler that outlives its lease hides its successor. If a lease runs out while its handler is
  still running, the same worker may claim the job again; both handlers share one key of \<open>#active\<close>, and the
  end of the first removes it. Then the worker reports idleness and \<open>drainOwned\<close> returns while the second
  handler is in flight, and the next claim goes over the limit: with a concurrency of two, three handlers run.\<close>

theorem outlived_lease_hides_a_handler:
  "wk_active outlived = [] \<and> wk_idle_done outlived = [7] \<and> in_flight Webhook_Delivery_Queue outlived = 1 \<and>
   wc_concurrency demo_worker Webhook_Delivery_Queue = 2 \<and>
   in_flight Webhook_Delivery_Queue (run_worker_ops concat demo_worker outliving_more outlived) = 3"
  by code_simp

subsection \<open>The life of a job\<close>

definition life_ops :: "worker_op list" where
  "life_ops = [Wop_Bind, Wop_Start, Wop_Submit (Webhook_Deliver ''p'' ''a'') no_options (Some 0) 0, Wop_Idle 7,
     Wop_Claim Webhook_Delivery_Queue 0 (\<lambda>i. ''t1'')]"

definition life :: worker_state where
  "life = run_worker_ops concat demo_worker life_ops (new_worker empty_job_store)"

definition life_end :: worker_op where
  "life_end = Wop_Finish 0 (Some Handler_Complete) (Some 5, Some 6)"

definition life_id :: string where
  "life_id = executor_job_id concat (Webhook_Deliver ''p'' ''a'')"

lemma life_settled: "wk_settled (run_worker_op concat demo_worker life_end life) = [(0, life_id, Completed)]"
  by code_simp

lemma completions_settle_once_and_truly_witness:
  "row_outcome (wk_jobs (run_worker_op concat demo_worker life_end life)) life_id Completed"
proof -
  have none: "wk_settled life = []" by code_simp
  have refused: "\<not> refused concat life_end (wk_jobs life) life_id Completed" by (simp add: life_end_def)
  show ?thesis
    using completions_settle_once_and_truly[OF empty_job_store_wf, of concat demo_worker life_end life_ops]
      life_settled none refused
    by (simp add: life_def)
qed

text \<open>A second worker that shares the store and has the same job attached learns of its end by its poll.\<close>

definition watcher :: worker_state where
  "watcher = (new_worker (wk_jobs (run_worker_op concat demo_worker life_end life)))
     \<lparr>wk_bound := True, wk_attached := [(life_id, 3)], wk_promises := 4\<rparr>"

lemma poll_settles_ended_jobs_witness:
  "(3, life_id, Completed) \<in> set (wk_settled (fst (run_once demo_worker (Some 6) (\<lambda>q i. ''t'') watcher)))"
proof -
  have "job_store_wf (wk_jobs life)"
    unfolding life_def by (rule worker_stores.steps_inv) (simp add: new_worker_def)
  then have wf: "job_store_wf (wk_jobs watcher)"
    using worker_op_store_wf[of life concat demo_worker life_end] by (simp add: watcher_def new_worker_def)
  obtain row where row: "map_of (jobs (wk_jobs watcher)) life_id = Some row"
    and succ: "job_state row = Job_Succeeded"
  proof -
    have "(case map_of (jobs (wk_jobs watcher)) life_id of None \<Rightarrow> False | Some row \<Rightarrow> job_state row = Job_Succeeded)"
      by code_simp
    then show thesis using that by (auto split: option.splits)
  qed
  have clock: "queue_clock (Some 6) = Inr 6"
    by (simp add: queue_clock_def read_clock_def date_in_range_def max_date_def)
  have "wk_bound watcher" "map_of (wk_attached watcher) life_id = Some 3" by (simp_all add: watcher_def)
  from poll_settles_ended_jobs[OF wf this(1) clock this(2) row] show ?thesis
    using succ by (simp add: terminal_state_def completion_of_def)
qed

lemma idle_waiters_are_released_witness:
  "7 \<in> set (wk_idle_done (run_worker_ops concat demo_worker (life_ops @ [life_end]) (new_worker empty_job_store)))"
proof -
  have idle: "Wop_Idle 7 \<in> set (life_ops @ [life_end])" by (simp add: life_ops_def)
  have "wk_attached (run_worker_ops concat demo_worker (life_ops @ [life_end]) (new_worker empty_job_store)) = []"
    "wk_active (run_worker_ops concat demo_worker (life_ops @ [life_end]) (new_worker empty_job_store)) = []"
    by code_simp+
  then show ?thesis using idle_waiters_are_released[OF idle, of concat demo_worker empty_job_store] by simp
qed

lemma well_typed_jobs_reach_their_handler_witness:
  "length (wk_runs life) = 1 \<and>
   dispatch_result (rn_job (hd (wk_runs life))) (Some Handler_Complete) = Handler_Complete"
proof -
  have one: "length (wk_runs life) = 1" by code_simp
  then have "hd (wk_runs life) \<in> set (wk_runs life)" by (cases "wk_runs life") simp_all
  moreover have "typed_rows empty_job_store" by (simp add: typed_rows_def empty_job_store_def)
  moreover have "list_all typed_op life_ops" by (simp add: life_ops_def)
  ultimately show ?thesis
    using well_typed_jobs_reach_their_handler[of empty_job_store life_ops concat demo_worker Handler_Complete] one
    by (simp add: life_def)
qed

lemma handlers_in_flight_are_bounded_witness:
  "in_flight Webhook_Delivery_Queue life = 1 \<and> set (wk_active life) = run_key ` set (wk_runs life)"
proof -
  have "in_flight Webhook_Delivery_Queue life = 1" by code_simp
  moreover have "heartbeats_in_time concat demo_worker life_ops (new_worker empty_job_store)" by code_simp
  ultimately show ?thesis
    using handlers_in_flight_are_bounded[OF demo_worker_options empty_job_store_wf, of Webhook_Delivery_Queue concat life_ops]
    by (simp add: life_def)
qed

end
