(* ===== verification/Usage_Flusher.thy ===== *)
theory Usage_Flusher
  imports Usage_Outbox
begin

text \<open>
  The flusher of the usage outbox (\<open>apps/executor/src/usage/flusher.ts\<close>). A flush is two steps: \<open>flush_begin\<close>
  selects a batch, \<open>flush_end\<close> settles it after the answers of the billing service, which are the arguments
  \<open>report\<close> and \<open>release\<close>; other calls on the outbox may come between. A flush in progress is shared by
  everyone who asks for one. Metrics and logs are left out.
\<close>

definition max_batch_size :: int where "max_batch_size = 50"
definition max_backoff_ms :: int where "max_backoff_ms = 60 * 60000"

definition retry_delay_ms :: "int \<Rightarrow> int" where
  "retry_delay_ms attempt = min max_backoff_ms (1000 * 2 ^ nat (min (attempt - 1) 12))"

record flush_result =
  fr_selected :: nat
  fr_sent :: nat
  fr_failed :: nat

text \<open>\<open>fl_timer\<close> is the delay of the scheduled timer, \<open>fl_batch\<close> the batch of the flush in progress.\<close>

record usage_flusher =
  fl_outbox :: usage_outbox
  fl_started :: bool
  fl_timer :: "int option"
  fl_batch :: "outbox_record list option"

definition usage_flusher_intervals :: "int option \<Rightarrow> int option \<Rightarrow> (int \<times> int) result" where
  "usage_flusher_intervals interval alert =
     (let i = (case interval of None \<Rightarrow> 5000 | Some v \<Rightarrow> v); a = (case alert of None \<Rightarrow> 8 | Some v \<Rightarrow> v) in
      if \<not> is_safe_integer i \<or> i < 1 then Inl (Range_Error ''Usage outbox flush interval must be a positive safe integer.'')
      else if \<not> is_safe_integer a \<or> a < 1
      then Inl (Range_Error ''Usage outbox alert attempt threshold must be a positive safe integer.'')
      else Inr (i, a))"

definition usage_clock :: "int option \<Rightarrow> int result" where
  "usage_clock = read_clock ''Usage outbox clock returned an invalid date.''"

definition schedule_flush :: "int \<Rightarrow> usage_flusher \<Rightarrow> usage_flusher" where
  "schedule_flush delay st = (if fl_started st then st\<lparr>fl_timer := Some delay\<rparr> else st)"

definition start_flusher :: "usage_flusher \<Rightarrow> usage_flusher" where
  "start_flusher st = (if fl_started st then st else schedule_flush 0 (st\<lparr>fl_started := True\<rparr>))"

definition stop_flusher :: "usage_flusher \<Rightarrow> usage_flusher" where
  "stop_flusher st = st\<lparr>fl_started := False, fl_timer := None\<rparr>"

text \<open>\<^term>\<open>None\<close> is a flush in progress, a result a flush that had nothing to do.\<close>

definition flush_begin ::
    "(string \<Rightarrow> rat) \<Rightarrow> bool \<Rightarrow> int option \<Rightarrow> usage_flusher \<Rightarrow> usage_flusher \<times> flush_result option result" where
  "flush_begin collate include_deferred reading st =
     (if fl_batch st \<noteq> None then (st, Inr None)
      else case bind_result (usage_clock reading) (\<lambda>now.
          list_ready collate (Iso now) max_batch_size include_deferred (fl_outbox st)) of
        Inl err \<Rightarrow> (st, Inl err)
      | Inr records \<Rightarrow>
          if records = [] then (st, Inr (Some \<lparr>fr_selected = 0, fr_sent = 0, fr_failed = 0\<rparr>))
          else (st\<lparr>fl_batch := Some records\<rparr>, Inr None))"

fun report_payload :: "outbox_record \<Rightarrow> usage_report_payload list" where
  "report_payload r = (case ob_payload r of Usage_Report p \<Rightarrow> [p] | Usage_Release _ \<Rightarrow> [])"

definition is_usage_report_record :: "outbox_record \<Rightarrow> bool" where
  "is_usage_report_record r \<longleftrightarrow> \<not> is_usage_release_payload (ob_payload r)"

definition is_usage_release_record :: "outbox_record \<Rightarrow> bool" where
  "is_usage_release_record r \<longleftrightarrow> is_usage_release_payload (ob_payload r)"

definition release_accepted :: "(usage_release_payload \<Rightarrow> bool) \<Rightarrow> outbox_record \<Rightarrow> bool" where
  "release_accepted release r = (case ob_payload r of Usage_Report _ \<Rightarrow> False | Usage_Release p \<Rightarrow> release p)"

text \<open>The reports of a batch go in one request, every release in its own.\<close>

definition flush_outcomes ::
    "(usage_report_payload list \<Rightarrow> bool) \<Rightarrow> (usage_release_payload \<Rightarrow> bool) \<Rightarrow> outbox_record list \<Rightarrow>
     outbox_record list \<times> outbox_record list" where
  "flush_outcomes report release records =
     (let reports = filter is_usage_report_record records; releases = filter is_usage_release_record records;
          reported = report (concat (map report_payload reports)) in
      ((if reported then reports else []) @ filter (release_accepted release) releases,
       (if reported then [] else reports) @ filter (\<lambda>r. \<not> release_accepted release r) releases))"

fun retry_failures :: "int \<Rightarrow> outbox_record list \<Rightarrow> usage_outbox_failure list result" where
  "retry_failures completed [] = Inr []"
| "retry_failures completed (r # rs) =
     bind_result (iso_string (completed + retry_delay_ms (ob_attempts r + 1))) (\<lambda>t.
     bind_result (retry_failures completed rs) (\<lambda>fs.
       Inr (\<lparr>uf_execution = ob_execution r, uf_next_retry_at = t\<rparr> # fs)))"

definition settle_batch ::
    "int \<Rightarrow> outbox_record list \<Rightarrow> outbox_record list \<Rightarrow> usage_outbox \<Rightarrow> usage_outbox \<times> unit result" where
  "settle_batch completed sent failed outbox =
     (case mark_sent (map ob_execution sent) (Iso completed) outbox of
        Inl err \<Rightarrow> (outbox, Inl err)
      | Inr outbox1 \<Rightarrow>
          (case retry_failures completed failed of
             Inl err \<Rightarrow> (outbox1, Inl err)
           | Inr fs \<Rightarrow> mark_failed fs (Iso completed) outbox1))"

definition flush_end ::
    "(usage_report_payload list \<Rightarrow> bool) \<Rightarrow> (usage_release_payload \<Rightarrow> bool) \<Rightarrow> int option \<Rightarrow> usage_flusher \<Rightarrow>
     usage_flusher \<times> flush_result result" where
  "flush_end report release reading st =
     (let records = (case fl_batch st of None \<Rightarrow> [] | Some rs \<Rightarrow> rs); st1 = st\<lparr>fl_batch := None\<rparr>;
          (sent, failed) = flush_outcomes report release records in
      case usage_clock reading of
        Inl err \<Rightarrow> (st1, Inl err)
      | Inr completed \<Rightarrow>
          (case settle_batch completed sent failed (fl_outbox st) of
             (outbox, Inl err) \<Rightarrow> (st1\<lparr>fl_outbox := outbox\<rparr>, Inl err)
           | (outbox, Inr _) \<Rightarrow> (st1\<lparr>fl_outbox := outbox\<rparr>,
               Inr \<lparr>fr_selected = length records, fr_sent = length sent, fr_failed = length failed\<rparr>)))"

text \<open>The end of a scheduled flush: at once again after a full batch, else after the interval.\<close>

definition after_flush :: "int \<Rightarrow> flush_result result \<Rightarrow> usage_flusher \<Rightarrow> usage_flusher" where
  "after_flush interval r st = (case r of
     Inl _ \<Rightarrow> schedule_flush interval st
   | Inr res \<Rightarrow> schedule_flush (if int (fr_sent res) = max_batch_size then 0 else interval) st)"

subsection \<open>Draining\<close>

text \<open>
  A round of \<open>drain\<close>: the reading of the loop condition, whether the flush ends before the deadline, its two
  clock readings and the answers of the service. The rounds of a list are those the clock leaves time for.
\<close>

record drain_round =
  dr_now :: int
  dr_in_time :: bool
  dr_begin :: "int option"
  dr_end :: "int option"
  dr_report :: "usage_report_payload list \<Rightarrow> bool"
  dr_release :: "usage_release_payload \<Rightarrow> bool"

definition flush_round ::
    "(string \<Rightarrow> rat) \<Rightarrow> drain_round \<Rightarrow> usage_flusher \<Rightarrow> usage_flusher \<times> flush_result option result" where
  "flush_round collate r st =
     (case flush_begin collate True (dr_begin r) st of
        (st1, Inl err) \<Rightarrow> (st1, Inl err)
      | (st1, Inr (Some res)) \<Rightarrow> (st1, Inr (Some res))
      | (st1, Inr None) \<Rightarrow>
          if \<not> dr_in_time r then (st1, Inr None)
          else (case flush_end (dr_report r) (dr_release r) (dr_end r) st1 of
            (st2, Inl err) \<Rightarrow> (st2, Inl err) | (st2, Inr res) \<Rightarrow> (st2, Inr (Some res))))"

fun drain_rounds ::
    "(string \<Rightarrow> rat) \<Rightarrow> int \<Rightarrow> drain_round list \<Rightarrow> usage_flusher \<Rightarrow> usage_flusher \<times> bool result" where
  "drain_rounds collate deadline [] st = (st, Inr (usage_depth (fl_outbox st) = 0))"
| "drain_rounds collate deadline (r # rs) st =
     (if deadline \<le> dr_now r then (st, Inr (usage_depth (fl_outbox st) = 0))
      else case flush_round collate r st of
        (st1, Inl err) \<Rightarrow> (st1, Inl err)
      | (st1, Inr None) \<Rightarrow> (st1, Inr (usage_depth (fl_outbox st1) = 0))
      | (st1, Inr (Some res)) \<Rightarrow>
          if fr_failed res > 0 then (st1, Inr (usage_depth (fl_outbox st1) = 0))
          else if usage_depth (fl_outbox st1) = 0 then (st1, Inr True)
          else if fr_selected res = 0 then (st1, Inr (usage_depth (fl_outbox st1) = 0))
          else drain_rounds collate deadline rs st1)"

definition drain_usage ::
    "(string \<Rightarrow> rat) \<Rightarrow> int \<Rightarrow> int \<Rightarrow> drain_round list \<Rightarrow> usage_flusher \<Rightarrow> usage_flusher \<times> bool result" where
  "drain_usage collate start timeout rs st =
     (if \<not> is_safe_integer timeout \<or> timeout < 1
      then (st, Inl (Range_Error ''Usage outbox drain timeout must be a positive safe integer.''))
      else drain_rounds collate (start + timeout) rs (stop_flusher st))"

end
