(* ===== verification/Usage_Laws.thy ===== *)
theory Usage_Laws
  imports Usage_Flusher
begin

text \<open>
  What the flusher does to the outbox: the retry delays, the effect of one flush whatever happens between the
  selection of its batch and its end, and that draining empties the outbox when the service accepts.
\<close>

subsection \<open>Retry delays\<close>

lemma retry_delay_bounds:
  "1000 \<le> retry_delay_ms n" "retry_delay_ms n \<le> 3600000"
proof -
  have "(1::int) \<le> 2 ^ nat (min (n - 1) 12)" by simp
  then show "1000 \<le> retry_delay_ms n" by (simp add: retry_delay_ms_def max_backoff_ms_def)
qed (simp add: retry_delay_ms_def max_backoff_ms_def)

lemma retry_delay_doubles:
  assumes "1 \<le> n"
  shows "retry_delay_ms (n + 1) = min 3600000 (2 * retry_delay_ms n)"
proof (cases "n \<le> 12")
  case True
  then have "nat n = Suc (nat (n - 1))" using assms by simp
  then show ?thesis using True by (simp add: retry_delay_ms_def max_backoff_ms_def min_def)
next
  case False
  then show ?thesis by (simp add: retry_delay_ms_def max_backoff_ms_def)
qed

subsection \<open>Batches\<close>

lemma distinct_map_filter_rows: "distinct (map f xs) \<Longrightarrow> distinct (map f (filter P xs))"
  by (simp add: distinct_map) (auto intro: inj_on_subset)

lemma outbox_values:
  assumes "usage_outbox_wf st"
  shows "r \<in> set (js_values st) \<longleftrightarrow> map_of st (ob_execution r) = Some r"
proof -
  have "distinct_keys st" using assms by (simp only: usage_outbox_wf_def)
  moreover have "map_of st k = Some r \<Longrightarrow> ob_execution r = k" for k
    using assms by (simp add: usage_outbox_wf_def all_entries_def usage_row_wf_def)
  ultimately show ?thesis using js_values_iff by metis
qed

lemma outbox_executions:
  assumes "usage_outbox_wf st"
  shows "map ob_execution (js_values st) = map fst st"
proof -
  have "ob_execution (snd e) = fst e" if "e \<in> set st" for e
    using assms that by (cases e) (auto simp: usage_outbox_wf_def all_entries_def usage_row_wf_def)
  then show ?thesis by simp
qed

lemma list_ready_batch:
  assumes wf: "usage_outbox_wf st" and sel: "list_ready collate (Iso now) limit deferred st = Inr rs"
  shows "distinct (map ob_execution rs)" "int (length rs) \<le> limit"
    "r \<in> set rs \<Longrightarrow> map_of st (ob_execution r) = Some r \<and> usage_ready now deferred r"
    "map_of st k = Some r \<Longrightarrow> usage_ready now deferred r \<Longrightarrow> r \<notin> set rs \<Longrightarrow> int (length rs) = limit \<and>
       (\<forall>c \<in> set rs. usage_order collate c \<le> usage_order collate r)"
proof -
  let ?ready = "filter (usage_ready now deferred) (js_values st)"
  let ?sorted = "sort_key (usage_order collate) ?ready"
  have rs: "rs = take (nat limit) ?sorted" "1 \<le> limit"
    using sel by (auto simp: list_ready_def bind_result_Inr_iff assert_limit_def split: if_splits)
  have "distinct (map ob_execution (js_values st))"
    unfolding outbox_executions[OF wf] using wf by (simp only: usage_outbox_wf_def)
  then have inj: "inj_on ob_execution (set (js_values st))" "distinct (js_values st)"
    by (simp_all only: distinct_map)
  have "distinct (map ob_execution ?sorted)"
    using inj by (auto simp: distinct_map intro: inj_on_subset)
  then show "distinct (map ob_execution rs)" by (simp add: rs take_map[symmetric] distinct_take)
  show "int (length rs) \<le> limit" using rs(2) by (simp add: rs(1))
  show "map_of st (ob_execution r) = Some r \<and> usage_ready now deferred r" if "r \<in> set rs"
    using that outbox_values[OF wf, of r] by (auto simp: rs(1) dest!: in_set_takeD simp del: set_map)
  assume r: "map_of st k = Some r" "usage_ready now deferred r" "r \<notin> set rs"
  then have "r \<in> set ?sorted"
    using wf js_values_iff[of st r] by (auto simp: usage_outbox_wf_def simp del: set_map)
  from take_sorted_minimal[OF _ this, of "usage_order collate" "nat limit"] r(3)
  show "int (length rs) = limit \<and> (\<forall>c \<in> set rs. usage_order collate c \<le> usage_order collate r)"
    using rs by (simp add: rs(1))
qed

subsection \<open>The end of a flush\<close>

lemma fold_mark_sent:
  "map_of (fold (mark_one_sent t) ids st) k =
     (if k \<in> set ids then map_option (\<lambda>r. if ob_state r = Usage_Sent then r else sent_record t r) (map_of st k)
      else map_of st k)"
proof (induction ids arbitrary: st)
  case (Cons i ids)
  show ?case
    by (simp add: Cons.IH) (auto simp: mark_one_sent_def sent_record_def split: option.splits)
qed simp

lemma mark_each_failed_other:
  "k \<notin> uf_execution ` set fs \<Longrightarrow> map_of (fst (mark_each_failed t fs st)) k = map_of st k"
proof (induction fs arbitrary: st)
  case (Cons f fs)
  then show ?case by (auto simp: assert_timestamp_def mark_one_failed_def split: option.splits)
qed simp

lemma mark_each_failed_row:
  assumes "distinct (map uf_execution fs)" "f \<in> set fs" "\<forall>g \<in> set fs. valid_time (uf_next_retry_at g)"
  shows "map_of (fst (mark_each_failed t fs st)) (uf_execution f) =
    map_option (\<lambda>r. if ob_state r = Usage_Sent then r else failed_record (uf_next_retry_at f) t r)
      (map_of st (uf_execution f))"
  using assms
proof (induction fs arbitrary: st)
  case (Cons g fs)
  show ?case
  proof (cases "f = g")
    case True
    then have "uf_execution f \<notin> uf_execution ` set fs" using Cons.prems(1) by simp
    from mark_each_failed_other[OF this] show ?thesis
      using True Cons.prems(3) by (auto simp: assert_timestamp_def mark_one_failed_def split: option.split)
  next
    case False
    then have f: "f \<in> set fs" using Cons.prems(2) by simp
    moreover have "uf_execution g \<notin> uf_execution ` set fs" using Cons.prems(1) by simp
    ultimately have "uf_execution f \<noteq> uf_execution g" by (metis image_eqI)
    note this f
    then show ?thesis
      using Cons by (auto simp: assert_timestamp_def mark_one_failed_def split: option.split)
  qed
qed simp

lemma mark_each_failed_ok:
  "\<forall>g \<in> set fs. valid_time (uf_next_retry_at g) \<Longrightarrow> snd (mark_each_failed t fs st) = Inr ()"
  by (induction fs arbitrary: st) (simp_all add: assert_timestamp_def)

lemma retry_failures_Inr:
  "retry_failures completed rs = Inr fs \<Longrightarrow> fs = map (\<lambda>r. \<lparr>uf_execution = ob_execution r,
     uf_next_retry_at = Iso (completed + retry_delay_ms (ob_attempts r + 1))\<rparr>) rs"
  by (induction rs arbitrary: fs) (auto simp: bind_result_Inr_iff iso_string_Inr_iff)

definition accepted_by_service ::
    "(usage_report_payload list \<Rightarrow> bool) \<Rightarrow> (usage_release_payload \<Rightarrow> bool) \<Rightarrow> outbox_record list \<Rightarrow> outbox_record \<Rightarrow> bool"
where
  "accepted_by_service report release rs r = (case ob_payload r of
     Usage_Report p \<Rightarrow> report (concat (map report_payload (filter is_usage_report_record rs)))
   | Usage_Release p \<Rightarrow> release p)"

lemma flush_outcomes_sets:
  "set (fst (flush_outcomes report release rs)) = {r \<in> set rs. accepted_by_service report release rs r}"
  "set (snd (flush_outcomes report release rs)) = {r \<in> set rs. \<not> accepted_by_service report release rs r}"
  by (auto simp: flush_outcomes_def Let_def accepted_by_service_def is_usage_report_record_def is_usage_release_record_def
      release_accepted_def split: usage_payload.splits)

lemma flush_outcomes_distinct:
  assumes "distinct (map ob_execution rs)"
  shows "distinct (map ob_execution (snd (flush_outcomes report release rs)))"
proof -
  have d: "distinct rs" "inj_on ob_execution (set rs)" using assms by (simp_all only: distinct_map)
  have "distinct (snd (flush_outcomes report release rs))"
    using d(1) by (auto simp: flush_outcomes_def Let_def is_usage_report_record_def is_usage_release_record_def)
  moreover have "inj_on ob_execution (set (snd (flush_outcomes report release rs)))"
    using d(2) by (rule inj_on_subset) (auto simp: flush_outcomes_sets)
  ultimately show ?thesis by (simp add: distinct_map)
qed

text \<open>What a flush makes of the row that its outcome finds.\<close>

definition settled_usage :: "int \<Rightarrow> bool \<Rightarrow> outbox_record \<Rightarrow> outbox_record \<Rightarrow> outbox_record" where
  "settled_usage completed accepted r row =
     (if ob_state row = Usage_Sent then row
      else if accepted then sent_record (Iso completed) row
      else failed_record (Iso (completed + retry_delay_ms (ob_attempts r + 1))) (Iso completed) row)"

lemma settle_batch_rows:
  assumes d: "distinct (map ob_execution rs)"
    and settle: "settle_batch completed (fst (flush_outcomes report release rs))
      (snd (flush_outcomes report release rs)) st = (st', Inr ())"
  shows "r \<in> set rs \<Longrightarrow> map_of st' (ob_execution r) =
      map_option (settled_usage completed (accepted_by_service report release rs r) r) (map_of st (ob_execution r))"
    "k \<notin> ob_execution ` set rs \<Longrightarrow> map_of st' k = map_of st k"
proof -
  let ?sent = "fst (flush_outcomes report release rs)" and ?failed = "snd (flush_outcomes report release rs)"
  let ?st1 = "fold (mark_one_sent (Iso completed)) (map ob_execution ?sent) st"
  obtain fs where fs: "retry_failures completed ?failed = Inr fs"
    and st': "st' = fst (mark_each_failed (Iso completed) fs ?st1)"
    using settle by (auto simp: settle_batch_def mark_sent_def mark_failed_def assert_timestamp_def split: sum.splits
        dest: arg_cong[of _ _ fst])
  note fs = retry_failures_Inr[OF fs]
  have exec: "map uf_execution fs = map ob_execution ?failed" by (simp add: fs)
  then have fexec: "uf_execution ` set fs = ob_execution ` set ?failed" using arg_cong[of _ _ set] by (metis set_map)
  have inj: "a = b" if "a \<in> set rs" "b \<in> set rs" "ob_execution a = ob_execution b" for a b
    using d that by (auto simp: distinct_map dest: inj_onD)
  show "map_of st' k = map_of st k" if k: "k \<notin> ob_execution ` set rs"
  proof -
    have a: "k \<notin> uf_execution ` set fs" using k by (auto simp: fexec flush_outcomes_sets)
    have "k \<notin> set (map ob_execution ?sent)" using k by (auto simp: flush_outcomes_sets)
    then show ?thesis unfolding st' mark_each_failed_other[OF a] fold_mark_sent by (simp only: if_False)
  qed
  assume r: "r \<in> set rs"
  show "map_of st' (ob_execution r) =
      map_option (settled_usage completed (accepted_by_service report release rs r) r) (map_of st (ob_execution r))"
  proof (cases "accepted_by_service report release rs r")
    case True
    have a: "ob_execution r \<notin> uf_execution ` set fs"
      using True inj[OF _ r] by (auto simp: fexec flush_outcomes_sets)
    have "ob_execution r \<in> set (map ob_execution ?sent)"
      using True r by (auto simp: flush_outcomes_sets)
    then have "map_of st' (ob_execution r) =
        map_option (\<lambda>x. if ob_state x = Usage_Sent then x else sent_record (Iso completed) x) (map_of st (ob_execution r))"
      unfolding st' mark_each_failed_other[OF a] fold_mark_sent by (simp only: if_True)
    moreover have "settled_usage completed True r =
        (\<lambda>x. if ob_state x = Usage_Sent then x else sent_record (Iso completed) x)"
      by (simp add: settled_usage_def fun_eq_iff)
    ultimately show ?thesis using True by simp
  next
    case False
    let ?f = "\<lparr>uf_execution = ob_execution r, uf_next_retry_at = Iso (completed + retry_delay_ms (ob_attempts r + 1))\<rparr>"
    have mem: "?f \<in> set fs" using False r by (auto simp: fs flush_outcomes_sets)
    have "ob_execution r \<notin> set (map ob_execution ?sent)"
      using False inj[OF _ r] by (auto simp: flush_outcomes_sets)
    then have mid: "map_of ?st1 (ob_execution r) = map_of st (ob_execution r)" by (simp only: fold_mark_sent if_False)
    have "distinct (map uf_execution fs)" unfolding exec by (rule flush_outcomes_distinct[OF d])
    then have "map_of st' (ob_execution r) = map_option (\<lambda>x. if ob_state x = Usage_Sent then x
        else failed_record (Iso (completed + retry_delay_ms (ob_attempts r + 1))) (Iso completed) x)
        (map_of st (ob_execution r))"
      using mark_each_failed_row[OF _ mem, of "Iso completed" ?st1, unfolded usage_outbox_failure.select_convs mid]
      unfolding st' by (simp add: fs)
    moreover have "settled_usage completed False r = (\<lambda>x. if ob_state x = Usage_Sent then x
        else failed_record (Iso (completed + retry_delay_ms (ob_attempts r + 1))) (Iso completed) x)"
      by (simp add: settled_usage_def fun_eq_iff)
    ultimately show ?thesis using False by simp
  qed
qed

lemma flush_begin_batch:
  assumes "flush_begin collate deferred reading st = (st1, Inr None)" "fl_batch st = None"
  obtains now rs where "usage_clock reading = Inr now" "list_ready collate (Iso now) 50 deferred (fl_outbox st) = Inr rs"
    "rs \<noteq> []" "st1 = st\<lparr>fl_batch := Some rs\<rparr>"
  using assms by (auto simp: flush_begin_def bind_result_Inr_iff max_batch_size_def split: sum.splits if_splits)

lemma flush_end_Inr:
  assumes "flush_end report release reading st = (st', Inr res)" "fl_batch st = Some rs"
  obtains completed where "usage_clock reading = Inr completed"
    "settle_batch completed (fst (flush_outcomes report release rs)) (snd (flush_outcomes report release rs)) (fl_outbox st) =
       (fl_outbox st', Inr ())"
    "fr_selected res = length rs" "fr_failed res = length (snd (flush_outcomes report release rs))"
    "fl_batch st' = None"
  using assms by (auto simp: flush_end_def Let_def split: sum.splits prod.splits)

text \<open>C35: A flush settles exactly its batch. The batch holds at most 50 unsent, due rows, the earliest ones in
  (retry time, enqueue time, id) order. Whatever calls reach the outbox before the service has answered, the end
  of the flush then marks sent each row of the batch that the service accepted (the reports all together, every
  release on its own), puts off each other row of the batch by its retry delay with one more attempt, leaves
  the rows alone that were sent meanwhile, and touches no other row.\<close>

theorem flush_settles_its_batch:
  assumes wf: "usage_outbox_wf (fl_outbox st)" and idle: "fl_batch st = None"
    and start: "flush_begin collate deferred reading st = (st1, Inr None)"
    and finish: "flush_end report release reading' (st1\<lparr>fl_outbox := run_usage_ops ops (fl_outbox st)\<rparr>) = (st2, Inr res)"
  shows "\<exists>now completed rs. usage_clock reading = Inr now \<and> usage_clock reading' = Inr completed \<and> length rs \<le> 50 \<and>
    (\<forall>r \<in> set rs. map_of (fl_outbox st) (ob_execution r) = Some r \<and> usage_ready now deferred r) \<and>
    (\<forall>k r. map_of (fl_outbox st) k = Some r \<and> usage_ready now deferred r \<and> r \<notin> set rs \<longrightarrow> length rs = 50 \<and>
       (\<forall>c \<in> set rs. usage_order collate c \<le> usage_order collate r)) \<and>
    (\<forall>r \<in> set rs. map_of (fl_outbox st2) (ob_execution r) =
       map_option (settled_usage completed (accepted_by_service report release rs r) r)
         (map_of (run_usage_ops ops (fl_outbox st)) (ob_execution r))) \<and>
    (\<forall>k. k \<notin> ob_execution ` set rs \<longrightarrow>
       map_of (fl_outbox st2) k = map_of (run_usage_ops ops (fl_outbox st)) k)"
proof -
  obtain now rs where now: "usage_clock reading = Inr now"
    and sel: "list_ready collate (Iso now) 50 deferred (fl_outbox st) = Inr rs" and st1: "st1 = st\<lparr>fl_batch := Some rs\<rparr>"
    by (rule flush_begin_batch[OF start idle])
  have batch: "fl_batch (st1\<lparr>fl_outbox := run_usage_ops ops (fl_outbox st)\<rparr>) = Some rs" by (simp add: st1)
  obtain completed where done': "usage_clock reading' = Inr completed"
    and settle: "settle_batch completed (fst (flush_outcomes report release rs)) (snd (flush_outcomes report release rs))
      (run_usage_ops ops (fl_outbox st)) = (fl_outbox st2, Inr ())"
    by (rule flush_end_Inr[OF finish batch]) simp
  note b = list_ready_batch[OF wf sel]
  show ?thesis
    by (rule exI[of _ now], rule exI[of _ completed], rule exI[of _ rs])
      (use now done' b(2-4) settle_batch_rows[OF b(1) settle] in \<open>auto simp: of_nat_le_iff[symmetric]\<close>)
qed

subsection \<open>Draining\<close>

definition unsent :: "usage_outbox \<Rightarrow> string set" where
  "unsent st = {k. \<exists>r. map_of st k = Some r \<and> ob_state r \<noteq> Usage_Sent}"

lemma usage_depth_unsent:
  assumes "usage_outbox_wf st"
  shows "usage_depth st = card (unsent st)"
proof -
  let ?rows = "filter (\<lambda>r. ob_state r \<noteq> Usage_Sent) (js_values st)"
  have "distinct (map ob_execution (js_values st))"
    unfolding outbox_executions[OF assms] using assms by (simp only: usage_outbox_wf_def)
  then have "distinct (map ob_execution ?rows)" by (rule distinct_map_filter_rows)
  moreover have "set (map ob_execution ?rows) = unsent st"
  proof -
    have "map_of st k = Some r \<Longrightarrow> ob_execution r = k" for k r
      using assms by (simp add: usage_outbox_wf_def all_entries_def usage_row_wf_def)
    moreover have "set ?rows = {r. map_of st (ob_execution r) = Some r \<and> ob_state r \<noteq> Usage_Sent}"
      using outbox_values[OF assms] by auto
    ultimately show ?thesis unfolding unsent_def set_map by (auto simp: image_iff) 
  qed
  ultimately show ?thesis by (metis distinct_card length_map usage_depth_def)
qed

lemma finite_unsent [simp]: "finite (unsent st)"
proof -
  have "unsent st \<subseteq> fst ` set st" by (force simp: unsent_def dest: map_of_SomeD)
  then show ?thesis by (rule finite_subset) simp
qed

text \<open>A round in time with valid clocks and a service that accepts.\<close>

definition good_round :: "int \<Rightarrow> drain_round \<Rightarrow> bool" where
  "good_round deadline r \<longleftrightarrow> dr_now r < deadline \<and> dr_in_time r \<and> \<not> isl (usage_clock (dr_begin r)) \<and>
     \<not> isl (usage_clock (dr_end r)) \<and> dr_report r = (\<lambda>_. True) \<and> dr_release r = (\<lambda>_. True)"

lemma accepting_outcomes:
  "snd (flush_outcomes (\<lambda>_. True) (\<lambda>_. True) rs) = []"
proof -
  have "set (snd (flush_outcomes (\<lambda>_. True) (\<lambda>_. True) rs)) = {}"
    by (auto simp: flush_outcomes_sets accepted_by_service_def split: usage_payload.splits)
  then show ?thesis by simp
qed

lemma settle_batch_wf: "usage_outbox_wf st \<Longrightarrow> settle_batch completed sent failed st = (st', Inr ()) \<Longrightarrow> usage_outbox_wf st'"
proof -
  assume wf: "usage_outbox_wf st" and s: "settle_batch completed sent failed st = (st', Inr ())"
  obtain st1 fs where 1: "mark_sent (map ob_execution sent) (Iso completed) st = Inr st1"
    and 2: "mark_failed fs (Iso completed) st1 = (st', Inr ())"
    using s by (auto simp: settle_batch_def split: sum.splits)
  have "usage_outbox_wf st1" using mark_sent_write[OF 1] wf by (simp add: usage_write_def)
  from usage_history.step_inv[OF this, of "Uop_Failed fs (Iso completed)"] show "usage_outbox_wf st'" using 2 by simp
qed

text \<open>One good round sends its batch: the unsent rows that remain are the others.\<close>

lemma good_round_sends:
  assumes wf: "usage_outbox_wf (fl_outbox st)" and idle: "fl_batch st = None" and good: "good_round deadline r"
  obtains st' rs where "flush_round collate r st = (st', Inr (Some rs))" "fr_failed rs = 0" "fl_batch st' = None"
    "usage_outbox_wf (fl_outbox st')" "fl_started st' = fl_started st"
    "card (unsent (fl_outbox st')) = card (unsent (fl_outbox st)) - 50"
    "fr_selected rs = 0 \<Longrightarrow> unsent (fl_outbox st) = {}"
    "usage_kept (fl_outbox st) (fl_outbox st')"
proof -
  obtain now completed where clocks: "usage_clock (dr_begin r) = Inr now" "usage_clock (dr_end r) = Inr completed"
    using good by (auto simp: good_round_def isl_def dest: meta_spec) (metis sum.exhaust_sel)
  obtain rs where sel: "list_ready collate (Iso now) 50 True (fl_outbox st) = Inr rs"
    by (simp add: list_ready_def assert_timestamp_def assert_limit_def is_safe_integer_def max_safe_integer_def)
  note b = list_ready_batch[OF wf sel]
  have subset: "ob_execution ` set rs \<subseteq> unsent (fl_outbox st)"
    using b(3) by (auto simp: unsent_def usage_ready_def)
  have ids: "card (ob_execution ` set rs) = length rs"
    using b(1) by (metis distinct_card length_map set_map)
  have rest: "unsent (fl_outbox st) - ob_execution ` set rs \<noteq> {} \<Longrightarrow> length rs = 50"
  proof -
    assume "unsent (fl_outbox st) - ob_execution ` set rs \<noteq> {}"
    then obtain k x where x: "map_of (fl_outbox st) k = Some x" "ob_state x \<noteq> Usage_Sent" "k \<notin> ob_execution ` set rs"
      by (auto simp: unsent_def)
    moreover have "ob_execution x = k"
      using wf x(1) by (simp add: usage_outbox_wf_def all_entries_def usage_row_wf_def)
    ultimately have "x \<notin> set rs" "usage_ready now True x" by (auto simp: usage_ready_def)
    with b(4)[OF x(1)] show "length rs = 50" by simp
  qed
  have card: "card (unsent (fl_outbox st) - ob_execution ` set rs) = card (unsent (fl_outbox st)) - 50"
  proof -
    have "card (unsent (fl_outbox st) - ob_execution ` set rs) = card (unsent (fl_outbox st)) - length rs"
      using card_Diff_subset[OF _ subset] ids by simp
    moreover have "length rs \<le> 50" using b(2) by simp
    moreover have "card (unsent (fl_outbox st)) \<le> length rs" if "length rs \<noteq> 50"
      using that rest card_Diff_subset[OF _ subset] ids by (metis Diff_eq_empty_iff card_mono finite_imageI finite_set)
    ultimately show ?thesis by (cases "length rs = 50") auto
  qed
  show thesis
  proof (cases "rs = []")
    case True
    have "unsent (fl_outbox st) = {}" using rest True by auto
    moreover have "flush_round collate r st = (st, Inr (Some \<lparr>fr_selected = 0, fr_sent = 0, fr_failed = 0\<rparr>))"
      using True idle clocks sel by (simp add: flush_round_def flush_begin_def max_batch_size_def)
    ultimately show thesis using that[of st] wf idle by simp
  next
    case False
    obtain sent where batch: "flush_outcomes (\<lambda>_. True) (\<lambda>_. True) rs = (sent, [])"
      using accepting_outcomes[of rs] by (metis prod.collapse)
    obtain out where settle: "settle_batch completed sent [] (fl_outbox st) = (out, Inr ())"
      by (simp add: settle_batch_def mark_sent_def assert_timestamp_def mark_failed_def)
    let ?st = "st\<lparr>fl_batch := None, fl_outbox := out\<rparr>"
    have "flush_round collate r st = (?st, Inr (Some \<lparr>fr_selected = length rs, fr_sent = length sent, fr_failed = 0\<rparr>))"
      using False idle clocks sel settle batch good
      by (simp add: flush_round_def flush_begin_def max_batch_size_def flush_end_def good_round_def Let_def)
    moreover have "unsent out = unsent (fl_outbox st) - ob_execution ` set rs"
    proof -
      note rows = settle_batch_rows[OF b(1), of completed "\<lambda>_. True" "\<lambda>_. True" "fl_outbox st" out,
          unfolded batch fst_conv snd_conv, OF settle]
      have "k \<notin> unsent out" if k: "k \<in> ob_execution ` set rs" for k
      proof -
        obtain x where x: "x \<in> set rs" "k = ob_execution x" using k by blast
        have "accepted_by_service (\<lambda>_. True) (\<lambda>_. True) rs x"
          by (simp add: accepted_by_service_def split: usage_payload.split)
        then have "map_of out k = Some (settled_usage completed True x x)"
          using rows(1)[OF x(1)] b(3)[OF x(1)] x(2) by simp
        then show ?thesis by (simp add: unsent_def settled_usage_def sent_record_def)
      qed
      moreover have "k \<in> unsent out \<longleftrightarrow> k \<in> unsent (fl_outbox st)" if "k \<notin> ob_execution ` set rs" for k
        using rows(2)[OF that] by (simp add: unsent_def)
      ultimately show ?thesis by blast
    qed
    moreover have "usage_kept (fl_outbox st) out"
    proof -
      obtain st1 where 1: "mark_sent (map ob_execution sent) (Iso completed) (fl_outbox st) = Inr st1" and "out = st1"
        using settle by (auto simp: settle_batch_def mark_failed_def assert_timestamp_def split: sum.splits)
      then show ?thesis using mark_sent_write[OF 1] wf by (simp add: usage_write_def)
    qed
    ultimately show thesis
      using that[of ?st] False card settle_batch_wf[OF wf settle] by simp
  qed
qed

text \<open>Draining sends everything. If the service accepts and the clock leaves time for one round per 50
  unsent rows, then \<open>drain\<close> answers true, every row of the outbox is sent, and no row was lost or given another
  payload; the flusher is stopped.\<close>

theorem drain_sends_everything:
  assumes "usage_outbox_wf (fl_outbox st)" "fl_batch st = None" "is_safe_integer timeout" "1 \<le> timeout"
    and "list_all (good_round (start + timeout)) rs" "usage_depth (fl_outbox st) \<le> 50 * length rs"
  shows "\<exists>st'. drain_usage collate start timeout rs st = (st', Inr True) \<and> usage_depth (fl_outbox st') = 0 \<and>
    usage_kept (fl_outbox st) (fl_outbox st') \<and> \<not> fl_started st'"
proof -
  have "\<exists>st'. drain_rounds collate deadline rs st = (st', Inr True) \<and> unsent (fl_outbox st') = {} \<and>
      usage_outbox_wf (fl_outbox st') \<and> usage_kept (fl_outbox st) (fl_outbox st') \<and> fl_started st' = fl_started st"
    if "usage_outbox_wf (fl_outbox st)" "fl_batch st = None" "list_all (good_round deadline) rs"
      "card (unsent (fl_outbox st)) \<le> 50 * length rs" for st deadline
    using that
  proof (induction rs arbitrary: st)
    case Nil
    then have "unsent (fl_outbox st) = {}" by simp
    then show ?case using Nil usage_depth_unsent[OF Nil(1)] by auto
  next
    case (Cons r rs)
    have good: "good_round deadline r" using Cons.prems(3) by simp
    from good_round_sends[OF Cons.prems(1,2) good, of collate]
    obtain st' res where st': "flush_round collate r st = (st', Inr (Some res))" "fr_failed res = 0" "fl_batch st' = None"
      "usage_outbox_wf (fl_outbox st')" "fl_started st' = fl_started st"
      "card (unsent (fl_outbox st')) = card (unsent (fl_outbox st)) - 50"
      "fr_selected res = 0 \<Longrightarrow> unsent (fl_outbox st) = {}" "usage_kept (fl_outbox st) (fl_outbox st')" by blast
    have early: "\<not> deadline \<le> dr_now r" using good by (simp add: good_round_def)
    show ?case
    proof (cases "unsent (fl_outbox st') = {}")
      case True
      then show ?thesis using st' early usage_depth_unsent[OF st'(4)] by (intro exI[of _ st']) simp
    next
      case False
      then have "fr_selected res \<noteq> 0" using st'(6,7) by auto
      moreover have "usage_depth (fl_outbox st') \<noteq> 0" using False usage_depth_unsent[OF st'(4)] by simp
      ultimately have "drain_rounds collate deadline (r # rs) st = drain_rounds collate deadline rs st'"
        using st'(1,2) early by simp
      moreover have "card (unsent (fl_outbox st')) \<le> 50 * length rs" using st'(6) Cons.prems(4) by simp
      ultimately show ?thesis
        using Cons.IH[OF st'(4,3)] Cons.prems(3) st'(5,8) by (auto intro: usage_kept_trans)
    qed
  qed
  from this[of "stop_flusher st" "start + timeout"] show ?thesis
    using assms usage_depth_unsent[OF assms(1)]
    by (auto simp: drain_usage_def stop_flusher_def usage_depth_unsent)
qed

subsection \<open>A concrete outbox\<close>

definition demo_report :: "string \<Rightarrow> usage_payload" where
  "demo_report e = Usage_Report \<lparr>up_project = ''p'', up_execution = e, up_cloud_execution = None,
     up_idempotency_key = e, up_occurred_at = Iso 0\<rparr>"

definition demo_release :: "string \<Rightarrow> usage_payload" where
  "demo_release e = Usage_Release \<lparr>ul_project = ''p'', ul_execution = e, ul_reservation = ''r'',
     ul_idempotency_key = e, ul_cloud_execution = None, ul_reserved_at = None\<rparr>"

definition demo_outbox :: usage_outbox where
  "demo_outbox = run_usage_ops [Uop_Enqueue (demo_report ''a'') (Iso 1), Uop_Enqueue (demo_release ''b'') (Iso 2)] []"

definition demo_flusher :: usage_flusher where
  "demo_flusher = \<lparr>fl_outbox = demo_outbox, fl_started = True, fl_timer = None, fl_batch = None\<rparr>"

lemma demo_outbox_wf: "usage_outbox_wf demo_outbox"
  unfolding demo_outbox_def by (rule usage_history.steps_inv) simp

lemma usage_work_is_recorded_once_witness:
  "isl (enqueue_usage (demo_release ''a'') (Iso 9) (run_usage_ops [Uop_Sent [''a''] (Iso 5)] demo_outbox))"
proof -
  have "enqueue_usage (demo_report ''a'') (Iso 1)
      (run_usage_ops [Uop_Enqueue (demo_report ''a'') (Iso 1), Uop_Enqueue (demo_release ''b'') (Iso 2)] []) = Inr demo_outbox"
    unfolding demo_outbox_def by code_simp
  note kept = usage_work_is_recorded_once[OF this, of "Iso 9" "[Uop_Sent [''a''] (Iso 5)]"]
  have "payload_execution (demo_release ''a'') = payload_execution (demo_report ''a'')"
    "demo_release ''a'' \<noteq> demo_report ''a''" by (simp_all add: demo_report_def demo_release_def)
  with kept show ?thesis by (simp del: run_usage_ops.simps) blast
qed

definition demo_flushing :: usage_flusher where
  "demo_flushing = fst (flush_begin (\<lambda>_. 0) False (Some 5) demo_flusher)"

definition demo_flushed :: usage_flusher where
  "demo_flushed = fst (flush_end (\<lambda>_. True) (\<lambda>_. False) (Some 8)
     (demo_flushing\<lparr>fl_outbox := run_usage_ops [] (fl_outbox demo_flusher)\<rparr>))"

lemma flush_settles_its_batch_witness:
  "\<exists>rs. length rs \<le> 50 \<and> (\<forall>r \<in> set rs. map_of (fl_outbox demo_flushed) (ob_execution r) =
     map_option (settled_usage 8 (accepted_by_service (\<lambda>_. True) (\<lambda>_. False) rs r) r)
       (map_of (run_usage_ops [] (fl_outbox demo_flusher)) (ob_execution r)))"
proof -
  let ?b = "flush_begin (\<lambda>_. 0) False (Some 5) demo_flusher"
  let ?e = "flush_end (\<lambda>_. True) (\<lambda>_. False) (Some 8)
      (demo_flushing\<lparr>fl_outbox := run_usage_ops [] (fl_outbox demo_flusher)\<rparr>)"
  have "snd ?b = Inr None" by code_simp
  then have start: "?b = (demo_flushing, Inr None)" unfolding demo_flushing_def by (metis prod.collapse)
  have "\<not> isl (snd ?e)" by code_simp
  then obtain res where "snd ?e = Inr res" by (cases "snd ?e") auto
  then have finish: "?e = (demo_flushed, Inr res)" unfolding demo_flushed_def by (metis prod.collapse)
  have wf: "usage_outbox_wf (fl_outbox demo_flusher)" "fl_batch demo_flusher = None"
    using demo_outbox_wf by (simp_all add: demo_flusher_def)
  have clock: "usage_clock (Some 8) = Inr 8"
    by (simp add: usage_clock_def read_clock_def date_in_range_def max_date_def)
  from flush_settles_its_batch[OF wf start finish] show ?thesis
    unfolding clock sum.inject by (elim exE conjE) (rule exI, rule conjI, assumption, simp only:)
qed

definition demo_round :: drain_round where
  "demo_round = \<lparr>dr_now = 10, dr_in_time = True, dr_begin = Some 10, dr_end = Some 11, dr_report = (\<lambda>_. True),
     dr_release = (\<lambda>_. True)\<rparr>"

lemma drain_sends_everything_witness:
  "usage_depth demo_outbox = 2 \<and> snd (drain_usage (\<lambda>_. 0) 5 1000 [demo_round] demo_flusher) = Inr True"
proof -
  have depth: "usage_depth demo_outbox = 2" by code_simp
  have good: "list_all (good_round (5 + 1000)) [demo_round]"
    by (simp add: good_round_def demo_round_def usage_clock_def read_clock_def date_in_range_def max_date_def)
  have st: "usage_outbox_wf (fl_outbox demo_flusher)" "fl_batch demo_flusher = None"
    using demo_outbox_wf by (simp_all add: demo_flusher_def)
  have t: "is_safe_integer 1000" "(1::int) \<le> 1000" by (simp_all add: is_safe_integer_def max_safe_integer_def)
  have "usage_depth (fl_outbox demo_flusher) \<le> 50 * length [demo_round]" using depth by (simp add: demo_flusher_def)
  from drain_sends_everything[OF st t good this, of "\<lambda>_. 0"] depth show ?thesis by auto
qed

end
