(* ===== verification/Engine_Properties.thy ===== *)
theory Engine_Properties
  imports Engine_Examples
begin

text \<open>
  What the execution engine promises over every history of its calls, jobs, cancellations, aborts and
  restarts: on the calls of providers, on cancellations, on usage, on acknowledged jobs, and on what is
  stored. All follows from its invariant.
\<close>

abbreviation engine_after :: "engine_env \<Rightarrow> engine_op list \<Rightarrow> deliverer_state \<Rightarrow> engine_state" where
  "engine_after env ops dv \<equiv> run_engine_ops env ops (empty_engine dv)"

lemma engine_after_inv: "engine_inv UNIV env (engine_after env ops dv)"
  by (rule engine_history_inv)

lemma engine_after_row: "find_execution (es_store (engine_after env ops dv)) p e = Some row \<Longrightarrow>
    row_ok env (es_outbox (engine_after env ops dv)) e row"
  using engine_inv_row[OF engine_after_inv] .

lemma engine_after_append: "engine_after env (ops @ ops') dv = run_engine_ops env ops' (engine_after env ops dv)"
  by (rule engine_history.steps_append)

text \<open>C1: a provider is called at most once for an execution, whatever retries, restarts and concurrent jobs
  there are; only with the request of its stored execution, with the version of the tool that it was admitted
  with, after its dispatch was recorded, and with a credential that passes every check at that time.
\<close>

theorem provider_calls_are_unique_and_checked:
  "distinct (map dispatch_key (es_dispatches (engine_after env ops dv))) \<and>
   list_all (\<lambda>d.
     (case find_execution (es_store (engine_after env ops dv)) (dp_project d) (dp_execution d) of
        None \<Rightarrow> False
      | Some row \<Rightarrow> se_dispatch_started_at row \<noteq> None \<and> se_request row = dp_request d \<and>
          ex_tool_version (se_record row) = td_version (dp_tool d)) \<and>
     validate_credential (dp_credential d) (dp_request d) (dp_manifest d) (dp_scopes d) (dp_checked_at d) = Inr ())
   (es_dispatches (engine_after env ops dv))"
  using engine_after_inv[of env ops dv]
  by (auto simp: engine_inv_def list_all_iff dispatch_ok_def begun_def split: option.split)

lemma engine_after_progress:
  assumes "find_execution (es_store (engine_after env ops dv)) p e = Some row"
  obtains row' where "find_execution (es_store (engine_after env (ops @ ops') dv)) p e = Some row'" "row_progress row row'"
  using rows_progressE[OF engine_ops_progress[OF engine_after_inv] assms] engine_after_append by metis

lemma dispatched_begun:
  assumes "(p, e) \<in> set (map dispatch_key (es_dispatches (engine_after env ops dv)))"
  shows "\<exists>row. find_execution (es_store (engine_after env ops dv)) p e = Some row \<and> begun row"
  using assms engine_after_inv[of env ops dv] by (auto simp: engine_inv_def dispatch_ok_def dispatch_key_def)

text \<open>C4: cancellation tells the truth: an execution that is recorded as cancelled before its provider dispatch has
  not been sent to a provider, and is not after any further history.
\<close>

theorem cancellation_tells_the_truth:
  assumes "find_execution (es_store (engine_after env ops dv)) p e = Some row"
    and "ex_outcome (se_record row) = Out_Cancelled err ms False"
  shows "(p, e) \<notin> set (map dispatch_key (es_dispatches (engine_after env (ops @ ops') dv)))"
proof
  assume "(p, e) \<in> set (map dispatch_key (es_dispatches (engine_after env (ops @ ops') dv)))"
  then obtain row' where row': "find_execution (es_store (engine_after env (ops @ ops') dv)) p e = Some row'" "begun row'"
    using dispatched_begun by blast
  moreover have "row_terminal row" using assms(2) by (simp add: row_terminal_def ex_status_def)
  ultimately have "se_record row' = se_record row"
    using engine_after_progress[OF assms(1)] progress_terminal by (metis option.inject)
  then show False using engine_after_row[OF row'(1)] row'(2) assms(2) by (simp add: row_ok_def outcome_ok_def)
qed

text \<open>The job of an execution runs while it is cancelled; then its credential arrives.\<close>

definition cancel_ops :: "engine_op list" where
  "cancel_ops = take 3 sample_ops @ [En_Cancel (at_time 35) ''p'' ''exe_a'']"

definition cancelled_early :: "stored_execution option \<Rightarrow> bool" where
  "cancelled_early row \<longleftrightarrow> (case row of None \<Rightarrow> False
     | Some r \<Rightarrow> (case ex_outcome (se_record r) of Out_Cancelled _ _ b \<Rightarrow> \<not> b | _ \<Rightarrow> False))"

lemma cancellation_tells_the_truth_witness:
  "(''p'', ''exe_a'') \<notin> set (map dispatch_key (es_dispatches
     (engine_after (sample_env True) (cancel_ops @ [drop 3 sample_ops ! 0]) fresh_deliverer)))"
proof -
  have "cancelled_early (find_execution (es_store (engine_after (sample_env True) cancel_ops fresh_deliverer)) ''p'' ''exe_a'')"
    by code_simp
  then obtain row err ms where
    "find_execution (es_store (engine_after (sample_env True) cancel_ops fresh_deliverer)) ''p'' ''exe_a'' = Some row"
    "ex_outcome (se_record row) = Out_Cancelled err ms False"
    by (auto simp: cancelled_early_def split: option.splits exec_outcome.splits)
  from cancellation_tells_the_truth[OF this] show ?thesis .
qed

text \<open>C3: usage is settled by what happened: when the usage of an execution is finalized, the execution is terminal
  and, with a usage service, the outbox holds its report if its dispatch had begun, and else the release of
  its reservation.
\<close>

theorem usage_matches_dispatch:
  assumes "find_execution (es_store (engine_after env ops dv)) p e = Some row"
    and "se_usage_finalized_at row \<noteq> None" and "en_usage_enabled env"
  shows "terminal_status (ex_status (se_record row)) \<and>
    (case (se_dispatch_started_at row, resume_report (se_resume_context row),
        resume_reservation (se_resume_context row)) of
      (Some _, Some report, _) \<Rightarrow> in_outbox (terminal_report_payload report (se_record row))
        (es_outbox (engine_after env ops dv))
    | (None, _, Some reservation) \<Rightarrow> in_outbox (release_payload reservation) (es_outbox (engine_after env ops dv))
    | _ \<Rightarrow> True)"
  using engine_after_row[OF assms(1)] assms(2,3)
  by (auto simp: row_ok_def row_terminal_def usage_settled_def begun_def split: option.split)

definition usage_final :: "stored_execution option \<Rightarrow> bool" where
  "usage_final row \<longleftrightarrow> (case row of None \<Rightarrow> False | Some r \<Rightarrow> se_usage_finalized_at r \<noteq> None \<and>
     se_dispatch_started_at r \<noteq> None \<and> resume_report (se_resume_context r) \<noteq> None)"

lemma usage_matches_dispatch_witness:
  "\<exists>row report. find_execution (es_store (engine_after (sample_env True) (sample_ops @ [sample_success]) fresh_deliverer))
      ''p'' ''exe_a'' = Some row \<and> in_outbox (terminal_report_payload report (se_record row))
      (es_outbox (engine_after (sample_env True) (sample_ops @ [sample_success]) fresh_deliverer))"
proof -
  let ?st = "engine_after (sample_env True) (sample_ops @ [sample_success]) fresh_deliverer"
  have "usage_final (find_execution (es_store ?st) ''p'' ''exe_a'')" by code_simp
  then obtain row t report where row: "find_execution (es_store ?st) ''p'' ''exe_a'' = Some row"
    "se_usage_finalized_at row \<noteq> None" "se_dispatch_started_at row = Some t"
    "resume_report (se_resume_context row) = Some report"
    by (auto simp: usage_final_def split: option.splits)
  from usage_matches_dispatch[OF row(1,2)] show ?thesis using row by (auto simp: sample_env_def)
qed

text \<open>C2: a job that a step acknowledges, as complete or as cancelled, has finished work: its execution, if there
  is one, is terminal, its usage is finalized, and its webhook event is published. Whatever is not finished is
  answered with a later time, a failure of the job, or an error of its handler.
\<close>

theorem acknowledged_jobs_are_finished:
  assumes "(p, e, Some answer) \<in> set (drop (length (es_answers (engine_after env ops dv)))
      (es_answers (engine_after env (ops @ [op]) dv)))"
    and "answer = Handler_Complete \<or> answer = Handler_Cancelled" "is_execution_id e"
    and "find_execution (es_store (engine_after env (ops @ [op]) dv)) p e = Some row"
  shows "terminal_status (ex_status (se_record row)) \<and> se_usage_finalized_at row \<noteq> None \<and>
    (se_webhook_event_id row = None \<or> se_webhook_published_at row \<noteq> None)"
proof -
  have "answers_ok (engine_after env ops dv) (engine_after env (ops @ [op]) dv)"
    using good_engine_step[of env "engine_after env ops dv" op] engine_after_inv
    by (simp add: good_def engine_after_append)
  then have "finished (engine_after env (ops @ [op]) dv) p e"
    using assms(1-3) by (auto simp: answers_ok_def acknowledges_def)
  then show ?thesis using assms(4) by (auto simp: finished_def finished_row_def row_terminal_def)
qed

definition sample_acknowledged :: bool where
  "sample_acknowledged \<longleftrightarrow>
     drop (length (es_answers (engine_after (sample_env True) sample_ops fresh_deliverer)))
       (es_answers (engine_after (sample_env True) (sample_ops @ [sample_success]) fresh_deliverer)) =
       [(''p'', ''exe_a'', Some Handler_Complete)] \<and>
     find_execution (es_store (engine_after (sample_env True) (sample_ops @ [sample_success]) fresh_deliverer))
       ''p'' ''exe_a'' \<noteq> None"

lemma acknowledged_jobs_are_finished_witness:
  "\<exists>row. find_execution (es_store (engine_after (sample_env True) (sample_ops @ [sample_success]) fresh_deliverer))
     ''p'' ''exe_a'' = Some row \<and> se_usage_finalized_at row \<noteq> None"
proof -
  have "sample_acknowledged" by code_simp
  then obtain row where ack: "drop (length (es_answers (engine_after (sample_env True) sample_ops fresh_deliverer)))
      (es_answers (engine_after (sample_env True) (sample_ops @ [sample_success]) fresh_deliverer)) =
      [(''p'', ''exe_a'', Some Handler_Complete)]"
    and row: "find_execution (es_store (engine_after (sample_env True) (sample_ops @ [sample_success]) fresh_deliverer))
      ''p'' ''exe_a'' = Some row" unfolding sample_acknowledged_def by blast
  have "is_execution_id ''exe_a''" by code_simp
  with acknowledged_jobs_are_finished[of "''p''" "''exe_a''" Handler_Complete "sample_env True" sample_ops
      fresh_deliverer sample_success row] ack row show ?thesis by simp
qed

text \<open>The checks that a result has passed.\<close>

lemma passed_if: "(if b then Inl e else r) = Inr y \<longleftrightarrow> \<not> b \<and> r = Inr y"
  by simp

lemma passed_option: "(case x of None \<Rightarrow> Inl e | Some a \<Rightarrow> f a) = Inr y \<longleftrightarrow> (\<exists>a. x = Some a \<and> f a = Inr y)"
  by (cases x) simp_all

lemma passed_sum: "(case x of Inl e \<Rightarrow> Inl (g e) | Inr a \<Rightarrow> f a) = Inr y \<longleftrightarrow> (\<exists>a. x = Inr a \<and> f a = Inr y)"
  by (cases x) simp_all

lemmas passed = passed_if passed_option passed_sum bind_engine_Inr_iff

lemma validate_command_Inr:
  assumes "validate_command env command = Inr v"
  shows "en_get_tool env (rq_tool (vq_request v)) = Some (vq_tool v)"
    "td_read_only (vq_tool v) \<or> cm_idempotency_key command \<noteq> None"
    "\<not> (td_async (vq_tool v) \<and> rq_mode (vq_request v) = Mode_Sync)"
proof -
  obtain request :: parsed_request and tool manifest scopes inp where "en_get_tool env (pq_tool request) = Some tool"
    and "\<not> (td_async tool \<and> or_else (pq_mode request) (if td_async tool then Mode_Async else Mode_Sync) = Mode_Sync)"
    and "\<not> (\<not> td_read_only tool \<and> cm_idempotency_key command = None)"
    and "\<lparr>vq_request = \<lparr>rq_tool = pq_tool request, rq_user = pq_user request, rq_connection = pq_connection request,
        rq_input = inp, rq_mode = or_else (pq_mode request) (if td_async tool then Mode_Async else Mode_Sync)\<rparr>,
      vq_tool = tool, vq_manifest = manifest, vq_scopes = scopes\<rparr> = v"
    using assms unfolding validate_command_def Let_def prod.case passed sum.inject
    by (elim exE conjE) (rule that; assumption)
  then show "en_get_tool env (rq_tool (vq_request v)) = Some (vq_tool v)"
    "td_read_only (vq_tool v) \<or> cm_idempotency_key command \<noteq> None"
    "\<not> (td_async (vq_tool v) \<and> rq_mode (vq_request v) = Mode_Sync)" by auto
qed

text \<open>C6: what is stored was asked for and accepted: behind every stored execution there is a call of \<open>execute\<close> in
  the history, for the very project that holds it, whose command passes validation. The execution has the identifier
  that the command reserved, or else the one drawn for that call, and the time of that call; the row has the request
  of that validation, its tool from the catalog with its version and the version of the catalog, its user, its voice
  session, its attachments and its idempotency key. An execution of a tool that is not read-only has an idempotency
  key, and one of a tool that is async by nature is asynchronous.
\<close>

theorem stored_executions_were_accepted:
  assumes "find_execution (es_store (engine_after env ops dv)) p e = Some row"
  shows "\<exists>tm command v now. En_Execute tm command \<in> set ops \<and> cm_project command = p \<and>
    validate_command env command = Inr v \<and> e = or_else (cm_execution command) (tm_execution_id tm) \<and>
    engine_now 1 tm = Inr now \<and> ex_created_at (se_record row) = Iso now \<and>
    se_request row = vq_request v \<and> se_idempotency_key row = cm_idempotency_key command \<and>
    ex_tool (se_record row) = td_name (vq_tool v) \<and> ex_tool_version (se_record row) = td_version (vq_tool v) \<and>
    ex_catalog_version (se_record row) = en_catalog_version env \<and> ex_user (se_record row) = rq_user (vq_request v) \<and>
    ex_source (se_record row) = cm_source command \<and>
    ex_attachments (se_record row) = execution_attachment_summary (vq_tool v) (rq_input (vq_request v)) \<and>
    en_get_tool env (rq_tool (se_request row)) = Some (vq_tool v) \<and>
    (td_read_only (vq_tool v) \<or> se_idempotency_key row \<noteq> None) \<and>
    (\<not> td_async (vq_tool v) \<or> rq_mode (se_request row) = Mode_Async)"
proof -
  have "admitted (execute_calls_of ops) env p row"
    using engine_history_accepted[of ops env dv] assms by (simp add: engine_inv_def)
  moreover have "ex_id (se_record row) = e" using engine_after_row[OF assms] by (simp add: row_ok_def)
  ultimately obtain tm command v where call: "En_Execute tm command \<in> set ops"
    and ok: "accepted env tm command v (se_record row)"
    and row: "cm_project command = p" "se_request row = vq_request v" "se_idempotency_key row = cm_idempotency_key command"
      "ex_id (se_record row) = e"
    by (auto simp: admitted_def execute_calls_of_def)
  have valid: "validate_command env command = Inr v" using ok by (simp add: accepted_def)
  have "\<not> td_async (vq_tool v) \<or> rq_mode (vq_request v) = Mode_Async"
    using validate_command_Inr(3)[OF valid] execution_mode.exhaust by blast
  then show ?thesis
    using call ok row validate_command_Inr(1,2)[OF valid] unfolding accepted_def
    by (intro exI[of _ tm] exI[of _ command] exI[of _ v]) auto
qed

lemma stored_executions_were_accepted_witness:
  "\<exists>row. find_execution (es_store (engine_after (sample_env True) sample_ops fresh_deliverer)) ''p'' ''exe_a'' = Some row \<and>
     se_idempotency_key row = Some ''k'' \<and> ex_created_at (se_record row) = Iso 10"
proof -
  have "find_execution (es_store (engine_after (sample_env True) sample_ops fresh_deliverer)) ''p'' ''exe_a'' \<noteq> None"
    by code_simp
  then obtain row where
    row: "find_execution (es_store (engine_after (sample_env True) sample_ops fresh_deliverer)) ''p'' ''exe_a'' = Some row" by blast
  from stored_executions_were_accepted[OF row] obtain tm command now where
    "En_Execute tm command \<in> set sample_ops" "engine_now 1 tm = Inr now" "ex_created_at (se_record row) = Iso now"
    "se_idempotency_key row = cm_idempotency_key command" by blast
  moreover from this(1) have "tm = at_time 10" "command = sample_command ''async'' ''k''" by (auto simp: sample_ops_def)
  moreover have "engine_now 1 (at_time 10) = Inr 10" by code_simp
  ultimately show ?thesis using row by (simp add: sample_command_def)
qed

subsection \<open>Interrupted work\<close>

text \<open>What reconciliation and the failure of interrupted work leave alone.\<close>

lemma then_call_keeps:
  assumes "K (fst r) = K st" "\<And>x st1. K (fst (f x st1)) = K st1"
  shows "K (fst (then_call r f)) = K st"
  using assms by (cases r; cases "snd r") auto

lemma store_call_frame [simp]: "es_dispatches (fst (store_call st r)) = es_dispatches st"
  "es_runs (fst (store_call st r)) = es_runs st"
  by (simp_all add: store_call_def split: sum.split)

lemma record_usage_frame [simp]: "es_dispatches (fst (record_usage env tm inp stored r st)) = es_dispatches st"
  "es_runs (fst (record_usage env tm inp stored r st)) = es_runs st"
  by (simp_all add: record_usage_def report_usage_def release_usage_def Let_def
      split: bool.split option.split prod.split)

lemma enqueue_terminal_frame [simp]: "es_dispatches (fst (enqueue_terminal env tm p r e st)) = es_dispatches st"
  "es_runs (fst (enqueue_terminal env tm p r e st)) = es_runs st"
  by (simp_all add: enqueue_terminal_def split: prod.split)

lemma finalize_usage_frame [simp]: "es_dispatches (fst (finalize_usage env tm inp stored r st)) = es_dispatches st"
  "es_runs (fst (finalize_usage env tm inp stored r st)) = es_runs st"
  unfolding finalize_usage_def by (auto intro!: then_call_keeps split: sum.split)

lemma publish_event_frame [simp]: "es_dispatches (fst (publish_event env tm inp stored r st)) = es_dispatches st"
  "es_runs (fst (publish_event env tm inp stored r st)) = es_runs st"
  unfolding publish_event_def by (auto intro!: then_call_keeps split: sum.split option.split)

lemma reconcile_frame [simp]: "es_dispatches (fst (reconcile_terminal env tm inp st)) = es_dispatches st"
  "es_runs (fst (reconcile_terminal env tm inp st)) = es_runs st"
  unfolding reconcile_terminal_def Let_def by (auto intro!: then_call_keeps)

lemma update_record_frame [simp]: "es_dispatches (fst (update_record p r st)) = es_dispatches st"
  "es_runs (fst (update_record p r st)) = es_runs st"
  unfolding update_record_def by (auto intro!: then_call_keeps simp: settle_def)

lemma fail_interrupted_frame [simp]: "es_dispatches (fst (fail_interrupted env tm rv event b st)) = es_dispatches st"
  "es_runs (fst (fail_interrupted env tm rv event b st)) = es_runs st"
  unfolding fail_interrupted_def Let_def by (auto intro!: then_call_keeps split: sum.split)

lemma answer_job_frame [simp]: "es_dispatches (answer_job p e a st) = es_dispatches st"
  "es_runs (answer_job p e a st) = es_runs st" "es_store (answer_job p e a st) = es_store st"
  by (simp_all add: answer_job_def)

lemma fail_interrupted_record:
  assumes inv: "engine_inv UNIV env st" and row: "find_execution (es_store st) p e = Some row"
    and running: "ex_status (se_record row) = St_Running" and now: "engine_now 0 tm = Inr now"
  shows "\<exists>row'. find_execution (es_store (fst (fail_interrupted env tm (recoverable p row)
      (event_id_of env (recoverable p row)) b st))) p e = Some row' \<and>
    se_record row' = interrupted_record (projected row) b now"
proof -
  let ?rv = "recoverable p row" and ?t = "interrupted_record (projected row) b now"
  let ?event = "event_id_of env ?rv"
  have id: "ex_id (se_record row) = e" using engine_inv_row[OF inv row] by (simp add: row_ok_def)
  let ?es = "put_execution p e (row\<lparr>se_webhook_event_id := Some ?event\<rparr>) (es_store st)"
  have set_id: "set_webhook_event_id p e ?event (es_store st) = Inr (?es, True)"
    using row by (auto simp: set_webhook_event_id_def event_id_of_def or_else_def split: option.split)
  let ?st1 = "st\<lparr>es_store := ?es\<rparr>"
  have c1: "calm UNIV env st ?st1" by (rule calm_event_id[OF set_id])
  have row1: "find_execution ?es p e = Some (row\<lparr>se_webhook_event_id := Some ?event\<rparr>)" by simp
  have "assert_execution_transition (se_record row) ?t = Inr ()"
    using running
    by (simp add: assert_execution_transition_def interrupted_record_def Let_def projected_def
      project_execution_record_def same_identity_def valid_transition_def ex_status_def)
  moreover have "terminal_status (ex_status ?t)" by (simp add: interrupted_record_def Let_def ex_status_def)
  ultimately obtain ss es2 where upd: "update_execution p ?t ?es = Inr (es2, ss)"
    using row1 id by (simp add: update_execution_def Let_def) (metis surj_pair)
  let ?st2 = "settle p ss (?st1\<lparr>es_store := es2\<rparr>)"
  have upd': "update_record p ?t ?st1 = (?st2, Inr ())" using upd by (simp add: update_record_def)
  have c2: "calm UNIV env ?st1 ?st2"
    using calm_update[of UNIV env ?st1 p ?t] outcome_ok_failed interrupted_outcome[of "projected row" b now] upd' by fastforce
  obtain row2 where "find_execution (es_store ?st1) p (ex_id ?t) = Some row2"
    and f: "find_execution (es_store ?st2) p (ex_id ?t) = Some (row2\<lparr>se_record := ?t\<rparr>)"
    by (rule update_record_Inr[OF upd']) simp
  have inv2: "engine_inv UNIV env ?st2" using calmD(1)[OF calm_trans[OF c1 c2] inv] .
  let ?inp = "(reconcile_stored ?rv)\<lparr>ri_record := ?t, ri_event := Some ?event\<rparr>"
  have ok: "input_ok (es_store ?st2) ?inp"
    using f \<open>find_execution (es_store ?st1) p (ex_id ?t) = Some row2\<close> row1 id
    by (auto simp: input_ok_def reconcile_stored_def row_terminal_def agrees_def)
  obtain st3 res where rec: "reconcile_terminal env (after_reads 1 tm) ?inp ?st2 = (st3, res)" by fastforce
  have "rows_progress (es_store ?st2) (es_store st3)"
    using calmD(2)[OF reconcile_effect(1)[OF inv2 ok rec] inv2] .
  then obtain row3 where row3: "find_execution (es_store st3) p e = Some row3" "row_progress (row2\<lparr>se_record := ?t\<rparr>) row3"
    using f id by (auto elim: rows_progressE)
  then have "se_record row3 = ?t"
    using progress_terminal[OF row3(2)] by (simp add: row_terminal_def interrupted_record_def Let_def ex_status_def)
  moreover have "fst (fail_interrupted env tm ?rv ?event b st) = st3"
    using id set_id now upd' rec by (simp add: fail_interrupted_def Let_def)
  ultimately show ?thesis using row3(1) by blast
qed

text \<open>C5: interrupted work is not tried again: a job that finds its execution running with a dispatch that may have
  begun marks it failed with EXECUTION_INTERRUPTED, calls no provider, and starts no run.
\<close>

theorem interrupted_work_is_not_replayed:
  assumes "find_execution (es_store (engine_after env ops dv)) p e = Some row" "is_execution_id e"
    and "ex_status (se_record row) = St_Running" "se_dispatch_started_at row = Some started"
    and "engine_now 0 tm = Inr now"
  shows "(case find_execution (es_store (engine_after env (ops @ [En_Job tm aborted p e]) dv)) p e of
       None \<Rightarrow> False
     | Some row' \<Rightarrow> (case ex_outcome (se_record row') of
         Out_Failed err _ \<Rightarrow> te_code err = Code_Execution_Interrupted \<and> \<not> te_retryable err | _ \<Rightarrow> False)) \<and>
    es_dispatches (engine_after env (ops @ [En_Job tm aborted p e]) dv) = es_dispatches (engine_after env ops dv) \<and>
    es_runs (engine_after env (ops @ [En_Job tm aborted p e]) dv) = es_runs (engine_after env ops dv)"
proof -
  let ?st = "engine_after env ops dv" and ?rv = "recoverable p row"
  have id: "ex_id (se_record row) = e" using engine_after_row[OF assms(1)] by (simp add: row_ok_def)
  have status: "ex_status (projected row) = St_Running" using assms(3) by simp
  have job: "run_engine_ops env [En_Job tm aborted p e] ?st = job_interrupted env tm ?rv True ?st"
    using assms status id
    by (simp add: run_execution_job_def get_recoverable_def job_continue_def Let_def split: option.split)
  obtain st1 x where f: "fail_interrupted env tm ?rv (event_id_of env ?rv) True ?st = (st1, x)" by fastforce
  have frame: "es_dispatches st1 = es_dispatches ?st" "es_runs st1 = es_runs ?st"
    using fail_interrupted_frame[of env tm ?rv "event_id_of env ?rv" True ?st] f by simp_all
  obtain row' where "find_execution (es_store st1) p e = Some row'" "se_record row' = interrupted_record (projected row) True now"
    using fail_interrupted_record[OF engine_after_inv assms(1,3,5), of True] f by auto
  then show ?thesis
    unfolding engine_after_append job using frame f
    by (cases x) (simp_all add: job_interrupted_def interrupted_record_def Let_def)
qed

text \<open>The process stops between the dispatch and the answer of the provider; the job is claimed again.\<close>

definition interrupted_ops :: "engine_op list" where
  "interrupted_ops = sample_ops @ [En_Restart]"

definition dispatched_row :: "stored_execution option \<Rightarrow> bool" where
  "dispatched_row row \<longleftrightarrow> (case row of None \<Rightarrow> False
     | Some r \<Rightarrow> ex_status (se_record r) = St_Running \<and> se_dispatch_started_at r \<noteq> None)"

lemma interrupted_work_is_not_replayed_witness:
  "length (es_dispatches (engine_after (sample_env True)
     (interrupted_ops @ [En_Job (at_time 100) False ''p'' ''exe_a'']) fresh_deliverer)) = 1"
proof -
  let ?st = "engine_after (sample_env True) interrupted_ops fresh_deliverer"
  have "dispatched_row (find_execution (es_store ?st) ''p'' ''exe_a'')" by code_simp
  then obtain row t where row: "find_execution (es_store ?st) ''p'' ''exe_a'' = Some row"
    "ex_status (se_record row) = St_Running" "se_dispatch_started_at row = Some t"
    by (auto simp: dispatched_row_def split: option.splits)
  have "is_execution_id ''exe_a''" by code_simp
  moreover have "engine_now 0 (at_time 100) = Inr 100" by code_simp
  moreover have "length (es_dispatches ?st) = 1" by code_simp
  ultimately show ?thesis
    using interrupted_work_is_not_replayed[OF row(1) _ row(2,3), of "at_time 100" 100 False] by (simp only: simp_thms)
qed

subsection \<open>A release that contradicts the report\<close>

text \<open>C7: a release that was recorded too early is never made good: when the outbox holds a release for an execution
  whose dispatch has begun, its usage is not finalized, and a job of the terminal execution changes nothing but
  that it is answered with a later time, each time it is run.
\<close>

theorem early_release_blocks_the_job:
  assumes "find_execution (es_store (engine_after env ops dv)) p e = Some row" "is_execution_id e"
    and "terminal_status (ex_status (se_record row))" "se_dispatch_started_at row = Some started"
    and "en_usage_enabled env" "resume_report (se_resume_context row) = Some ctx"
    and "map_of (es_outbox (engine_after env ops dv)) (ur_execution ctx) = Some entry" "ob_payload entry = Usage_Release rel"
  shows "se_usage_finalized_at row = None \<and>
    engine_after env (ops @ [En_Job tm aborted p e]) dv = answer_job p e (reschedule tm 0) (engine_after env ops dv)"
proof -
  let ?st = "engine_after env ops dv" and ?rv = "recoverable p row"
  have ok: "row_ok env (es_outbox ?st) e row" by (rule engine_after_row[OF assms(1)])
  have open_usage: "se_usage_finalized_at row = None"
  proof (rule ccontr)
    assume "se_usage_finalized_at row \<noteq> None"
    then have "in_outbox (terminal_report_payload ctx (se_record row)) (es_outbox ?st)"
      using ok assms(4-6) by (simp add: row_ok_def usage_settled_def begun_def)
    then show False using assms(7,8) by (auto simp: in_outbox_def terminal_report_payload_def)
  qed
  have id: "ex_id (se_record row) = e" using ok by (simp add: row_ok_def)
  have begun: "dispatch_may_have_begun (projected row) (Some ?rv)"
    using ok assms(3,4)
    by (auto simp: dispatch_may_have_begun_def row_ok_def outcome_ok_def begun_def ex_status_def recoverable_def
        split: exec_outcome.splits)
  have refused: "isl (enqueue_usage (terminal_report_payload ctx (projected row)) t (es_outbox ?st))" for t
    using assms(7,8)
    by (cases "assert_timestamp t ''Usage outbox enqueue time''")
      (simp_all add: enqueue_usage_def terminal_report_payload_def same_usage_payload_def isl_def)
  have "\<exists>err. gate_report_terminal ctx (projected row) reading (es_outbox ?st) = (es_outbox ?st, Inl err)" for reading
  proof (cases "usage_gate_clock reading")
    case (Inr b)
    obtain err where "enqueue_usage (terminal_report_payload ctx (projected row)) (Iso b) (es_outbox ?st) = Inl err"
      using refused[of "Iso b"] by (auto simp: isl_def)
    then show ?thesis using Inr by (simp add: gate_report_terminal_def gate_enqueue_def)
  qed (simp add: gate_report_terminal_def gate_enqueue_def)
  then obtain err where "gate_report_terminal ctx (projected row) (tm_gate tm 0) (es_outbox ?st) = (es_outbox ?st, Inl err)"
    by blast
  then have err: "report_usage env ctx (projected row) (tm_gate tm 0) ?st = (?st, Inl err)"
    using assms(5) by (simp add: report_usage_def)
  have "reconcile_row env tm ?rv ?st = (?st, Inl err)"
    using open_usage begun err assms(1,3,6) id
    by (simp add: reconcile_row_def reconcile_terminal_def Let_def reconcile_stored_def get_recoverable_def
      settled_record_def finalize_usage_def record_usage_def usage_report_for_def)
  then show ?thesis
    using open_usage assms(1-3) by (simp add: engine_after_append run_execution_job_def get_recoverable_def)
qed

definition blocked_row :: "usage_outbox \<Rightarrow> stored_execution option \<Rightarrow> bool" where
  "blocked_row ob row \<longleftrightarrow> (case row of None \<Rightarrow> False
     | Some r \<Rightarrow> terminal_status (ex_status (se_record r)) \<and> se_dispatch_started_at r \<noteq> None \<and>
         (case resume_report (se_resume_context r) of None \<Rightarrow> False
          | Some ctx \<Rightarrow> (case map_of ob (ur_execution ctx) of None \<Rightarrow> False
            | Some entry \<Rightarrow> (case ob_payload entry of Usage_Release _ \<Rightarrow> True | _ \<Rightarrow> False))))"

lemma early_release_blocks_the_job_witness:
  "engine_after (sample_env True) (early_release_ops @ [En_Job (at_time 100) False ''p'' ''exe_a'']) fresh_deliverer =
     answer_job ''p'' ''exe_a'' (Some (Handler_Reschedule (Iso 1100)))
       (engine_after (sample_env True) early_release_ops fresh_deliverer)"
proof -
  let ?st = "engine_after (sample_env True) early_release_ops fresh_deliverer"
  have "(case ?st of st \<Rightarrow> blocked_row (es_outbox st) (find_execution (es_store st) ''p'' ''exe_a''))" by code_simp
  then obtain row t ctx entry rel where row: "find_execution (es_store ?st) ''p'' ''exe_a'' = Some row"
    "terminal_status (ex_status (se_record row))" "se_dispatch_started_at row = Some t"
    "resume_report (se_resume_context row) = Some ctx" "map_of (es_outbox ?st) (ur_execution ctx) = Some entry"
    "ob_payload entry = Usage_Release rel"
    by (auto simp: blocked_row_def split: option.splits usage_payload.splits)
  have "is_execution_id ''exe_a''" by code_simp
  moreover have "en_usage_enabled (sample_env True)" by code_simp
  moreover have "reschedule (at_time 100) 0 = Some (Handler_Reschedule (Iso 1100))" by code_simp
  ultimately show ?thesis
    using early_release_blocks_the_job[OF row(1) _ row(2,3) _ row(4-6), of "at_time 100" False] by (simp only: simp_thms)
qed

end
