(* ===== verification/Staged_Files.thy ===== *)
theory Staged_Files
  imports Engine_Types Pagination "HOL-Library.Word"
begin

text \<open>
  Staged files: the in-memory store of \<open>apps/executor/src/staged-files.ts\<close> and the operations of the engine
  on it (\<open>stageFile\<close>, \<open>getFile\<close>, \<open>getFileMetadata\<close>, \<open>listFiles\<close> of \<open>engine.ts\<close>). A read may evict an
  expired file, so reads return the state as well.
\<close>

subsection \<open>Files\<close>

definition default_file_ttl_ms :: int where
  "default_file_ttl_ms = 60 * 60 * 1000"

definition default_max_file_size_bytes :: int where
  "default_max_file_size_bytes = 25 * 1024 * 1024"

record staged_file_metadata =
  fm_file :: string
  fm_name :: string
  fm_mime :: string
  fm_size :: int
  fm_expires_at :: timestamp

record stored_file =
  sf_meta :: staged_file_metadata
  sf_content :: "8 word list"
  sf_created_at :: timestamp
  sf_owner :: "string option"

text \<open>A stored file with its project and its sequence number; keys are pairs of project and identifier.\<close>

record stored_entry = stored_file +
  sf_project :: string
  sf_sequence :: int

record file_store =
  fs_files :: "((string \<times> string) \<times> stored_entry) list"
  fs_sequence :: int

definition empty_file_store :: file_store where
  "empty_file_store = \<lparr>fs_files = [], fs_sequence = 0\<rparr>"

definition invalid_file_cursor :: js_error where
  "invalid_file_cursor = Named_Error ''InvalidFileCursorError'' ''File cursor is invalid.''"

definition file_timestamp :: "timestamp \<Rightarrow> string \<Rightarrow> int result" where
  "file_timestamp t label = (case date_parse t of
     None \<Rightarrow> Inl (Type_Error (label @ '' must be a valid ISO timestamp.'')) | Some ms \<Rightarrow> Inr ms)"

definition validate_file_list_input :: "int \<Rightarrow> timestamp \<Rightarrow> unit result" where
  "validate_file_list_input limit now =
     (if \<not> is_safe_integer limit \<or> limit < 1 \<or> 100 < limit
      then Inl (Range_Error ''File list limit must be an integer from 1 through 100.'')
      else bind_result (file_timestamp now ''File list now'') (\<lambda>_. Inr ()))"

definition validate_sweep_input :: "int \<Rightarrow> timestamp \<Rightarrow> unit result" where
  "validate_sweep_input limit now =
     (if \<not> is_safe_integer limit \<or> limit < 1
      then Inl (Range_Error ''File sweep limit must be a positive safe integer.'')
      else bind_result (file_timestamp now ''File sweep now'') (\<lambda>_. Inr ()))"

definition file_cursor_after :: "string \<Rightarrow> cursor" where
  "file_cursor_after = cursor_after"

text \<open>The decoded object has one key, \<open>after\<close>, with a \<open>file_*\<close> identifier.\<close>

definition file_id_from_cursor :: "cursor \<Rightarrow> string result" where
  "file_id_from_cursor c = (case cursor_json c of
     Some (JObj [(k, JStr s)]) \<Rightarrow> if k = ''after'' \<and> is_file_id s then Inr s else Inl invalid_file_cursor
   | _ \<Rightarrow> Inl invalid_file_cursor)"

subsection \<open>The store\<close>

definition put_file :: "string \<Rightarrow> stored_file \<Rightarrow> file_store \<Rightarrow> file_store result" where
  "put_file project file st =
     (let key = (project, fm_file (sf_meta file)) in
      if map_of (fs_files st) key \<noteq> None
      then Inl (Plain_Error (''Duplicate staged-file ID: '' @ fm_file (sf_meta file)))
      else bind_result (file_timestamp (sf_created_at file) ''Staged-file createdAt'') (\<lambda>_.
        bind_result (file_timestamp (fm_expires_at (sf_meta file)) ''Staged-file expiresAt'') (\<lambda>_.
        let n = fs_sequence st + 1 in
        Inr \<lparr>fs_files = js_set key (stored_file.extend (stored_file.truncate file)
            \<lparr>sf_project = project, sf_sequence = n\<rparr>) (fs_files st),
          fs_sequence = n\<rparr>)))"

definition expired_by :: "int \<Rightarrow> stored_entry \<Rightarrow> bool" where
  "expired_by now e \<longleftrightarrow> num_le (date_parse (fm_expires_at (sf_meta e))) (Some now)"

definition readable_by :: "string option \<Rightarrow> stored_entry \<Rightarrow> bool" where
  "readable_by requester e \<longleftrightarrow> sf_owner e = None \<or> sf_owner e = requester"

text \<open>The body that \<open>get\<close> and \<open>getMetadata\<close> share; they differ in the label and in what they copy.\<close>

definition read_file ::
    "string \<Rightarrow> string \<Rightarrow> string \<Rightarrow> timestamp \<Rightarrow> string option \<Rightarrow> file_store \<Rightarrow>
     file_store \<times> stored_entry option result" where
  "read_file label project f now requester st =
     (case map_of (fs_files st) (project, f) of
        None \<Rightarrow> (st, Inr None)
      | Some e \<Rightarrow>
          (case file_timestamp now label of
             Inl err \<Rightarrow> (st, Inl err)
           | Inr t \<Rightarrow>
               if expired_by t e then (st\<lparr>fs_files := js_delete (project, f) (fs_files st)\<rparr>, Inr None)
               else if \<not> readable_by requester e then (st, Inr None)
               else (st, Inr (Some e))))"

definition get_stored_file ::
    "string \<Rightarrow> string \<Rightarrow> timestamp \<Rightarrow> string option \<Rightarrow> file_store \<Rightarrow>
     file_store \<times> (staged_file_metadata \<times> 8 word list) option result" where
  "get_stored_file project f now requester st =
     (case read_file ''File read now'' project f now requester st of
        (st1, r) \<Rightarrow> (st1, bind_result r (\<lambda>e. Inr (map_option (\<lambda>e. (sf_meta e, sf_content e)) e))))"

definition get_stored_metadata ::
    "string \<Rightarrow> string \<Rightarrow> timestamp \<Rightarrow> string option \<Rightarrow> file_store \<Rightarrow>
     file_store \<times> staged_file_metadata option result" where
  "get_stored_metadata project f now requester st =
     (case read_file ''File metadata read now'' project f now requester st of
        (st1, r) \<Rightarrow> (st1, bind_result r (\<lambda>e. Inr (map_option sf_meta e))))"

definition ordered_files :: "string \<Rightarrow> file_store \<Rightarrow> stored_entry list" where
  "ordered_files project st =
     sort_key (\<lambda>e. (- time_ms (sf_created_at e), - sf_sequence e))
       (filter (\<lambda>e. sf_project e = project) (js_values (fs_files st)))"

definition file_offset :: "stored_entry list \<Rightarrow> cursor option \<Rightarrow> nat result" where
  "file_offset ordered cur = (case cur of
     None \<Rightarrow> Inr 0
   | Some c \<Rightarrow> bind_result (file_id_from_cursor c) (\<lambda>after.
       case find_index (\<lambda>e. fm_file (sf_meta e) = after) ordered of
         None \<Rightarrow> Inl invalid_file_cursor | Some i \<Rightarrow> Inr (i + 1)))"

definition list_stored_files ::
    "string \<Rightarrow> cursor option \<Rightarrow> int \<Rightarrow> timestamp \<Rightarrow> file_store \<Rightarrow>
     (staged_file_metadata list \<times> cursor option) result" where
  "list_stored_files project cur limit now st =
     bind_result (validate_file_list_input limit now) (\<lambda>_.
     let t = time_ms now; ordered = ordered_files project st in
     bind_result (file_offset ordered cur) (\<lambda>offset.
     let live = filter (\<lambda>e. \<not> expired_by t e) (drop offset ordered);
         files = map sf_meta (js_slice live 0 limit) in
     Inr (files, if int (length live) > limit \<and> files \<noteq> []
       then Some (file_cursor_after (fm_file (last files))) else None)))"

definition expired_files :: "int \<Rightarrow> int \<Rightarrow> file_store \<Rightarrow> ((string \<times> string) \<times> stored_entry) list" where
  "expired_files limit t st =
     js_slice (sort_key (\<lambda>(k, e). (time_ms (fm_expires_at (sf_meta e)), sf_sequence e))
       (filter (\<lambda>(k, e). expired_by t e) (fs_files st))) 0 limit"

definition sweep_files :: "int \<Rightarrow> timestamp \<Rightarrow> file_store \<Rightarrow> (file_store \<times> int) result" where
  "sweep_files limit now st =
     bind_result (validate_sweep_input limit now) (\<lambda>_.
     let gone = expired_files limit (time_ms now) st in
     Inr (st\<lparr>fs_files := fold (\<lambda>(k, _). js_delete k) gone (fs_files st)\<rparr>, int (length gone)))"

subsection \<open>Staging\<close>

text \<open>
  The engine's options: \<open>Buffer.byteLength\<close>, the lifetime and the size limit. \<open>positiveIntegerConfig\<close> gets
  the number that the environment variable converts to (\<^term>\<open>Some None\<close>: not an integer).
\<close>

record file_env =
  fe_byte_length :: "string \<Rightarrow> nat"
  fe_ttl_ms :: int
  fe_max_bytes :: int

definition positive_integer_config :: "int option \<Rightarrow> int option option \<Rightarrow> int \<Rightarrow> string \<Rightarrow> int result" where
  "positive_integer_config explicit encoded fallback name =
     (let value = (case explicit of Some n \<Rightarrow> Some n
        | None \<Rightarrow> (case encoded of None \<Rightarrow> Some fallback | Some n \<Rightarrow> n)) in
      case value of
        None \<Rightarrow> Inl (Type_Error (name @ '' must be a positive safe integer.''))
      | Some n \<Rightarrow> if \<not> is_safe_integer n \<or> n < 1
          then Inl (Type_Error (name @ '' must be a positive safe integer.'')) else Inr n)"

definition create_file_env ::
    "(string \<Rightarrow> nat) \<Rightarrow> int option \<Rightarrow> int option option \<Rightarrow> int option \<Rightarrow> int option option \<Rightarrow> file_env result" where
  "create_file_env byte_length ttl env_ttl max_bytes env_max =
     bind_result (positive_integer_config ttl env_ttl default_file_ttl_ms ''fileTtlMs'') (\<lambda>t.
     bind_result (positive_integer_config max_bytes env_max default_max_file_size_bytes ''maxFileSizeBytes'') (\<lambda>m.
       Inr \<lparr>fe_byte_length = byte_length, fe_ttl_ms = t, fe_max_bytes = m\<rparr>))"

record stage_file_input =
  si_name :: string
  si_mime :: string
  si_content :: "8 word list"

definition single_line :: "string \<Rightarrow> bool" where
  "single_line s \<longleftrightarrow> list_all (\<lambda>c. c \<noteq> CHR 0x00 \<and> c \<noteq> CHR 0x0D \<and> c \<noteq> CHR 0x0A) s"

text \<open>\<open>^[^\s/;]+\/[^\s;]+(?:\s*;.*)?$\<close> of a text without line breaks.\<close>

definition mime_pattern :: "string \<Rightarrow> bool" where
  "mime_pattern s =
     (let plain = (\<lambda>c. \<not> js_whitespace c \<and> c \<noteq> CHR '';'');
          top = takeWhile (\<lambda>c. plain c \<and> c \<noteq> CHR ''/'') s;
          rest = drop (length top) s;
          sub = takeWhile plain (tl rest);
          tail = drop (length sub) (tl rest) in
      top \<noteq> [] \<and> rest \<noteq> [] \<and> hd rest = CHR ''/'' \<and> sub \<noteq> [] \<and>
      (tail = [] \<or> (case dropWhile js_whitespace tail of [] \<Rightarrow> False | c # _ \<Rightarrow> c = CHR '';'')))"

definition file_name_ok :: "file_env \<Rightarrow> string \<Rightarrow> bool" where
  "file_name_ok env name \<longleftrightarrow> name \<noteq> [] \<and> fe_byte_length env name \<le> 255 \<and> single_line name"

definition mime_type_ok :: "string \<Rightarrow> bool" where
  "mime_type_ok mime \<longleftrightarrow> mime \<noteq> [] \<and> length mime \<le> 255 \<and> single_line mime \<and> mime_pattern mime"

definition stage_file ::
    "file_env \<Rightarrow> int option \<Rightarrow> string \<Rightarrow> string \<Rightarrow> stage_file_input \<Rightarrow> string option \<Rightarrow> file_store \<Rightarrow>
     file_store \<times> (engine_error + staged_file_metadata)" where
  "stage_file env reading fresh project inp owner st =
     (let name = js_trim (si_name inp); mime = js_trim (si_mime inp); size = int (length (si_content inp)) in
      if blank project then (st, Inl (invalid_request ''Authenticated project ID must not be empty.''))
      else if \<not> file_name_ok env name
      then (st, Inl (invalid_request ''name must be 1-255 UTF-8 bytes without nulls or line breaks.''))
      else if \<not> mime_type_ok mime then (st, Inl (invalid_request ''mimeType must be a valid MIME type.''))
      else if fe_max_bytes env < size
      then (st, Inl (Request_Error 413 (eyeball_error Code_Invalid_Input
        (''File content exceeds the '' @ int_text (fe_max_bytes env) @ ''-byte staging limit.'')) None))
      else if \<not> is_file_id fresh
      then (st, Inl (internal (Plain_Error ''File ID factory returned an invalid file_* identifier.'')))
      else case engine_clock reading of
        Inl err \<Rightarrow> (st, Inl (internal err))
      | Inr now \<Rightarrow>
          (case iso_string (now + fe_ttl_ms env) of
             Inl err \<Rightarrow> (st, Inl (internal (Plain_Error
               ''Configured staged-file TTL exceeds the supported date range.'')))
           | Inr expires_at \<Rightarrow>
               (let meta = \<lparr>fm_file = fresh, fm_name = name, fm_mime = mime, fm_size = size,
                  fm_expires_at = expires_at\<rparr> in
                case put_file project \<lparr>sf_meta = meta, sf_content = si_content inp, sf_created_at = Iso now,
                    sf_owner = owner\<rparr> st of
                  Inl err \<Rightarrow> (st, Inl (internal err))
                | Inr st1 \<Rightarrow> (st1, Inr meta))))"

definition file_not_found :: engine_error where
  "file_not_found = not_found ''Staged file was not found or has expired.''"

text \<open>The check that follows a read of the store.\<close>

definition recheck_expiry :: "timestamp \<Rightarrow> int \<Rightarrow> 'a \<Rightarrow> engine_error + 'a" where
  "recheck_expiry expires_at now x = (case date_parse expires_at of
     None \<Rightarrow> Inl (internal (Plain_Error ''File store returned an invalid expiry timestamp.''))
   | Some ms \<Rightarrow> if ms \<le> now then Inl file_not_found else Inr x)"

definition get_file ::
    "int option \<Rightarrow> string \<Rightarrow> string \<Rightarrow> string option \<Rightarrow> file_store \<Rightarrow>
     file_store \<times> (engine_error + staged_file_metadata \<times> 8 word list)" where
  "get_file reading project f requester st =
     (if \<not> is_file_id f then (st, Inl file_not_found)
      else case engine_clock reading of
        Inl err \<Rightarrow> (st, Inl (internal err))
      | Inr now \<Rightarrow>
          (case get_stored_file project f (Iso now) requester st of
             (st1, Inl err) \<Rightarrow> (st1, Inl (internal err))
           | (st1, Inr None) \<Rightarrow> (st1, Inl file_not_found)
           | (st1, Inr (Some file)) \<Rightarrow> (st1, recheck_expiry (fm_expires_at (fst file)) now file)))"

definition get_file_metadata ::
    "int option \<Rightarrow> string \<Rightarrow> string \<Rightarrow> string option \<Rightarrow> file_store \<Rightarrow>
     file_store \<times> (engine_error + staged_file_metadata)" where
  "get_file_metadata reading project f requester st =
     (if \<not> is_file_id f then (st, Inl file_not_found)
      else case engine_clock reading of
        Inl err \<Rightarrow> (st, Inl (internal err))
      | Inr now \<Rightarrow>
          (case get_stored_metadata project f (Iso now) requester st of
             (st1, Inl err) \<Rightarrow> (st1, Inl (internal err))
           | (st1, Inr None) \<Rightarrow> (st1, Inl file_not_found)
           | (st1, Inr (Some meta)) \<Rightarrow> (st1, recheck_expiry (fm_expires_at meta) now meta)))"

definition list_files ::
    "int option \<Rightarrow> string \<Rightarrow> cursor option \<Rightarrow> int option \<Rightarrow> file_store \<Rightarrow>
     engine_error + staged_file_metadata list \<times> cursor option" where
  "list_files reading project cur limit st =
     (let n = or_else limit 100 in
      if n < 1 \<or> 100 < n then Inl (invalid_request ''limit must be an integer from 1 through 100.'')
      else case engine_clock reading of
        Inl err \<Rightarrow> Inl (internal err)
      | Inr now \<Rightarrow>
          (case list_stored_files project cur n (Iso now) st of
             Inl err \<Rightarrow> if err = invalid_file_cursor then Inl (invalid_request ''File cursor is invalid.'')
               else Inl (internal err)
           | Inr (files, nxt) \<Rightarrow>
               if list_ex (\<lambda>m. \<not> num_le (Some (now + 1)) (date_parse (fm_expires_at m))) files
               then Inl (internal (Plain_Error ''File store returned invalid or expired metadata.''))
               else Inr (files, nxt)))"

subsection \<open>Histories\<close>

datatype file_op =
    File_Stage "int option" string string stage_file_input "string option"
  | File_Read "int option" string string "string option"
  | File_Metadata "int option" string string "string option"
  | File_Sweep int timestamp

fun run_file_op :: "file_env \<Rightarrow> file_op \<Rightarrow> file_store \<Rightarrow> file_store" where
  "run_file_op env (File_Stage reading fresh project inp owner) st = fst (stage_file env reading fresh project inp owner st)"
| "run_file_op env (File_Read reading project f requester) st = fst (get_file reading project f requester st)"
| "run_file_op env (File_Metadata reading project f requester) st = fst (get_file_metadata reading project f requester st)"
| "run_file_op env (File_Sweep limit now) st = (case sweep_files limit now st of Inl err \<Rightarrow> st | Inr (st1, n) \<Rightarrow> st1)"

fun run_file_ops :: "file_env \<Rightarrow> file_op list \<Rightarrow> file_store \<Rightarrow> file_store" where
  "run_file_ops env [] st = st"
| "run_file_ops env (op # ops) st = run_file_ops env ops (run_file_op env op st)"

end
