(* ===== verification/File_Laws.thy ===== *)
theory File_Laws
  imports Staged_Files History
begin

text \<open>
  What the staged files promise over every history of uploads, reads and sweeps: a file is read by its
  owner only and with the bytes that were staged, it stays readable until its expiry, and a listing has
  every live file once.
\<close>

subsection \<open>The invariant\<close>

definition file_entry_wf :: "string \<times> string \<Rightarrow> stored_entry \<Rightarrow> bool" where
  "file_entry_wf k e \<longleftrightarrow> sf_project e = fst k \<and> fm_file (sf_meta e) = snd k \<and> is_file_id (snd k)"

definition file_store_wf :: "file_store \<Rightarrow> bool" where
  "file_store_wf st \<longleftrightarrow> distinct_keys (fs_files st) \<and> all_entries file_entry_wf (fs_files st)"

text \<open>The entry that an upload leaves.\<close>

definition staged_entry :: "file_env \<Rightarrow> int \<Rightarrow> string \<Rightarrow> stage_file_input \<Rightarrow> stored_entry \<Rightarrow> bool" where
  "staged_entry env now f inp e \<longleftrightarrow>
     sf_meta e = \<lparr>fm_file = f, fm_name = js_trim (si_name inp), fm_mime = js_trim (si_mime inp),
       fm_size = int (length (si_content inp)), fm_expires_at = Iso (now + fe_ttl_ms env)\<rparr> \<and>
     sf_content e = si_content inp \<and> sf_created_at e = Iso now"

lemma put_file_Inr:
  assumes "put_file p file st = Inr st'"
  shows "map_of (fs_files st) (p, fm_file (sf_meta file)) = None"
    "\<exists>e. fs_files st' = js_set (p, fm_file (sf_meta file)) e (fs_files st) \<and> sf_project e = p \<and>
       sf_meta e = sf_meta file \<and> sf_content e = sf_content file \<and> sf_created_at e = sf_created_at file \<and>
       sf_owner e = sf_owner file"
  using assms
  by (auto simp: put_file_def Let_def bind_result_Inr_iff stored_file.defs split: if_splits)

lemma stage_file_cases:
  assumes "stage_file env reading fresh p inp owner st = (st', r)"
  obtains (refused) err where "r = Inl err" "st' = st"
  | (staged) now e where "reading = Some now" "is_file_id fresh" "r = Inr (sf_meta e)" "staged_entry env now fresh inp e"
      "sf_project e = p" "sf_owner e = owner" "map_of (fs_files st) (p, fresh) = None"
      "fs_files st' = js_set (p, fresh) e (fs_files st)" "js_trim (si_mime inp) \<noteq> []"
proof (cases r)
  case (Inl err)
  have "st' = st"
    using assms Inl by (auto simp: stage_file_def Let_def split: if_splits sum.splits)
  then show ?thesis using Inl refused by blast
next
  case (Inr meta)
  let ?size = "int (length (si_content inp))"
  obtain now expires_at where now: "engine_clock reading = Inr now" "iso_string (now + fe_ttl_ms env) = Inr expires_at"
    and id: "is_file_id fresh" and mime: "mime_type_ok (js_trim (si_mime inp))"
    and meta: "meta = \<lparr>fm_file = fresh, fm_name = js_trim (si_name inp), fm_mime = js_trim (si_mime inp),
      fm_size = ?size, fm_expires_at = expires_at\<rparr>"
    and put: "put_file p \<lparr>sf_meta = meta, sf_content = si_content inp, sf_created_at = Iso now, sf_owner = owner\<rparr> st = Inr st'"
    using assms Inr by (auto simp: stage_file_def Let_def split: if_splits sum.splits)
  have "reading = Some now" "expires_at = Iso (now + fe_ttl_ms env)"
    using now by (auto simp: engine_clock_def read_clock_Inr_iff iso_string_def split: if_splits)
  moreover obtain e where "fs_files st' = js_set (p, fresh) e (fs_files st)" "sf_project e = p" "sf_meta e = meta"
    "sf_content e = si_content inp" "sf_created_at e = Iso now" "sf_owner e = owner"
    using put_file_Inr(2)[OF put] meta by auto
  moreover have "map_of (fs_files st) (p, fresh) = None" using put_file_Inr(1)[OF put] meta by simp
  ultimately show ?thesis
    using staged[of now e] Inr id mime meta by (simp add: staged_entry_def mime_type_ok_def)
qed

text \<open>A read or a sweep only takes expired files away.\<close>

definition only_evicts :: "(int \<Rightarrow> bool) \<Rightarrow> file_store \<Rightarrow> file_store \<Rightarrow> bool" where
  "only_evicts time st st' \<longleftrightarrow> (file_store_wf st \<longrightarrow> file_store_wf st') \<and>
     (\<forall>k e. map_of (fs_files st') k = Some e \<longrightarrow> map_of (fs_files st) k = Some e) \<and>
     (\<forall>k e. map_of (fs_files st) k = Some e \<longrightarrow> map_of (fs_files st') k = Some e \<or> (\<exists>t. time t \<and> expired_by t e))"

lemma only_evictsD:
  "only_evicts time st st' \<Longrightarrow> file_store_wf st \<Longrightarrow> file_store_wf st'"
  "only_evicts time st st' \<Longrightarrow> map_of (fs_files st') k = Some e \<Longrightarrow> map_of (fs_files st) k = Some e"
  "only_evicts time st st' \<Longrightarrow> map_of (fs_files st) k = Some e \<Longrightarrow>
     map_of (fs_files st') k = Some e \<or> (\<exists>t. time t \<and> expired_by t e)"
  unfolding only_evicts_def by blast+

lemma only_evicts_mono: "only_evicts time st st' \<Longrightarrow> (\<And>t. time t \<Longrightarrow> time' t) \<Longrightarrow> only_evicts time' st st'"
  unfolding only_evicts_def by blast

lemma only_evicts_refl [simp]: "only_evicts time st st"
  by (simp add: only_evicts_def)

lemma read_file_evicts: "only_evicts (\<lambda>t. date_parse now = Some t) st (fst (read_file label p f now requester st))"
  by (auto simp: read_file_def file_timestamp_def only_evicts_def file_store_wf_def AList.delete_conv'
      simp del: map_of_eq_Some_iff split: option.split if_splits)

lemma delete_keys:
  "map_of (fold (\<lambda>(k, _). js_delete k) gone m) k = (if k \<in> fst ` set gone then None else map_of m k)"
  "distinct_keys m \<Longrightarrow> distinct_keys (fold (\<lambda>(k, _). js_delete k) gone m)"
  "all_entries P m \<Longrightarrow> all_entries P (fold (\<lambda>(k, _). js_delete k) gone m)"
  by (induction gone arbitrary: m) (auto simp: AList.delete_conv' split: prod.splits)

lemma sweep_evicts:
  assumes "distinct_keys (fs_files st)" "sweep_files limit now st = Inr (st', n)"
  shows "only_evicts (\<lambda>t. date_parse now = Some t) st st'"
proof -
  let ?gone = "expired_files limit (time_ms now) st"
  have t: "date_parse now = Some (time_ms now)"
    using assms(2)
    by (cases "date_parse now")
      (auto simp: sweep_files_def validate_sweep_input_def file_timestamp_def bind_result_Inr_iff split: if_splits)
  have st': "st' = st\<lparr>fs_files := fold (\<lambda>(k, _). js_delete k) ?gone (fs_files st)\<rparr>"
    using assms(2) unfolding sweep_files_def Let_def bind_result_Inr_iff by blast
  have gone: "expired_by (time_ms now) e \<and> (k, e) \<in> set (fs_files st)" if "(k, e) \<in> set ?gone" for k e
    using that by (auto simp: expired_files_def dest!: subsetD[OF js_slice_subset])
  have kept: "k \<notin> fst ` set ?gone \<or> expired_by (time_ms now) e" if "map_of (fs_files st) k = Some e" for k e
  proof (cases "k \<in> fst ` set ?gone")
    case True
    then obtain e' where e': "(k, e') \<in> set ?gone" by force
    then show ?thesis
      using gone[OF e'] eq_key_imp_eq_value[OF assms(1)] map_of_SomeD[OF that] by blast
  qed simp
  note files = delete_keys(1)[of ?gone "fs_files st"]
  show ?thesis
    unfolding only_evicts_def
  proof (intro conjI allI impI)
    show "file_store_wf st'" if "file_store_wf st"
      using that unfolding file_store_wf_def st' by (simp add: delete_keys)
    show "map_of (fs_files st) k = Some e" if "map_of (fs_files st') k = Some e" for k e
      using that files unfolding st' by (simp split: if_splits del: map_of_eq_Some_iff)
    show "map_of (fs_files st') k = Some e \<or> (\<exists>x. date_parse now = Some x \<and> expired_by x e)"
      if "map_of (fs_files st) k = Some e" for k e
    proof (cases "expired_by (time_ms now) e")
      case True
      then show ?thesis using t by blast
    next
      case False
      then have "k \<notin> fst ` set ?gone" using kept[OF that] by blast
      then show ?thesis using files[of k] that unfolding st' by (simp del: map_of_eq_Some_iff)
    qed
  qed
qed

subsection \<open>Histories\<close>

text \<open>The times at which an operation looks.\<close>

fun looks_at :: "file_op \<Rightarrow> int \<Rightarrow> bool" where
  "looks_at (File_Read reading project f requester) t \<longleftrightarrow> reading = Some t"
| "looks_at (File_Metadata reading project f requester) t \<longleftrightarrow> reading = Some t"
| "looks_at (File_Sweep limit now) t \<longleftrightarrow> date_parse now = Some t"
| "looks_at (File_Stage reading fresh project inp owner) t \<longleftrightarrow> False"

lemma get_file_read:
  "fst (get_file reading p f requester st) = st \<or> (\<exists>now. reading = Some now \<and>
     fst (get_file reading p f requester st) = fst (read_file ''File read now'' p f (Iso now) requester st))"
  by (auto simp: get_file_def get_stored_file_def engine_clock_def read_clock_def split: option.split sum.split prod.split)

lemma get_metadata_read:
  "fst (get_file_metadata reading p f requester st) = st \<or> (\<exists>now. reading = Some now \<and>
     fst (get_file_metadata reading p f requester st) = fst (read_file ''File metadata read now'' p f (Iso now) requester st))"
  by (auto simp: get_file_metadata_def get_stored_metadata_def engine_clock_def read_clock_def
      split: option.split sum.split prod.split)

text \<open>A step keeps the invariant, evicts at the times that it looks at, or stages.\<close>

lemma run_file_op_cases:
  assumes "file_store_wf st"
  obtains (evicts) "only_evicts (looks_at op) st (run_file_op env op st)"
  | (stages) now fresh p inp owner e where "op = File_Stage (Some now) fresh p inp owner" "is_file_id fresh"
      "staged_entry env now fresh inp e" "sf_project e = p" "sf_owner e = owner"
      "map_of (fs_files st) (p, fresh) = None" "fs_files (run_file_op env op st) = js_set (p, fresh) e (fs_files st)"
proof (cases op)
  case (File_Stage reading fresh p inp owner)
  obtain st' r where s: "stage_file env reading fresh p inp owner st = (st', r)" by fastforce
  from s show ?thesis
  proof (cases rule: stage_file_cases)
    case refused
    then show ?thesis using evicts s File_Stage by simp
  next
    case (staged now e)
    then show ?thesis using stages s File_Stage by simp
  qed
next
  case (File_Read reading p f requester)
  have "only_evicts (looks_at op) st (fst (get_file reading p f requester st))"
    using get_file_read[of reading p f requester st]
  proof (elim disjE exE conjE)
    fix now
    assume "reading = Some now" and *: "fst (get_file reading p f requester st) = fst (read_file ''File read now'' p f (Iso now) requester st)"
    then show ?thesis unfolding * by (intro only_evicts_mono[OF read_file_evicts]) (simp add: File_Read)
  qed simp
  then show ?thesis using evicts File_Read by simp
next
  case (File_Metadata reading p f requester)
  have "only_evicts (looks_at op) st (fst (get_file_metadata reading p f requester st))"
    using get_metadata_read[of reading p f requester st]
  proof (elim disjE exE conjE)
    fix now
    assume "reading = Some now" and *: "fst (get_file_metadata reading p f requester st) = fst (read_file ''File metadata read now'' p f (Iso now) requester st)"
    then show ?thesis unfolding * by (intro only_evicts_mono[OF read_file_evicts]) (simp add: File_Metadata)
  qed simp
  then show ?thesis using evicts File_Metadata by simp
next
  case (File_Sweep limit now)
  have keys: "distinct_keys (fs_files st)" using assms by (simp add: file_store_wf_def)
  have "only_evicts (looks_at op) st (run_file_op env op st)"
  proof (cases "sweep_files limit now st")
    case (Inr x)
    obtain st' n where "x = (st', n)" by fastforce
    then show ?thesis using Inr File_Sweep only_evicts_mono[OF sweep_evicts[OF keys, of limit now st' n]] by simp
  qed (simp add: File_Sweep)
  then show ?thesis by (rule evicts)
qed

lemma run_file_op_wf: "file_store_wf st \<Longrightarrow> file_store_wf (run_file_op env op st)"
proof -
  assume wf: "file_store_wf st"
  from wf show ?thesis
  proof (cases rule: run_file_op_cases[where op = op and env = env])
    case evicts
    then show ?thesis using only_evictsD(1) wf by blast
  next
    case (stages now fresh p inp owner e)
    then have "file_entry_wf (p, fresh) e" by (simp add: file_entry_wf_def staged_entry_def)
    then show ?thesis using wf stages by (simp add: file_store_wf_def)
  qed
qed

interpretation file_history: call_history file_store_wf "run_file_op env" "run_file_ops env" for env
  by unfold_locales (simp_all add: run_file_op_wf)

lemma empty_file_store_wf [simp]: "file_store_wf empty_file_store"
  by (simp add: file_store_wf_def empty_file_store_def)

lemma run_file_ops_wf: "file_store_wf (run_file_ops env ops empty_file_store)"
  by (rule file_history.steps_inv) simp

text \<open>Whatever is stored was staged by an operation of the history.\<close>

definition came_from :: "file_env \<Rightarrow> file_op list \<Rightarrow> string \<Rightarrow> string \<Rightarrow> stored_entry \<Rightarrow> bool" where
  "came_from env ops p f e \<longleftrightarrow> (\<exists>now inp. File_Stage (Some now) f p inp (sf_owner e) \<in> set ops \<and>
     staged_entry env now f inp e)"

lemma stored_came_from:
  assumes "file_store_wf st" "map_of (fs_files (run_file_ops env ops st)) (p, f) = Some e"
  shows "map_of (fs_files st) (p, f) = Some e \<or> came_from env ops p f e"
  using assms
proof (induction ops arbitrary: st)
  case (Cons op ops)
  from Cons.IH[OF run_file_op_wf[OF Cons.prems(1)], of env op] Cons.prems(2)
  consider "map_of (fs_files (run_file_op env op st)) (p, f) = Some e" | "came_from env ops p f e" by auto
  then show ?case
  proof cases
    case 1
    from Cons.prems(1) show ?thesis
    proof (cases rule: run_file_op_cases[where op = op and env = env])
      case evicts
      then show ?thesis using 1 only_evictsD(2) by blast
    next
      case (stages now fresh p' inp owner e')
      then show ?thesis using 1
        by (auto simp: AList.update_conv' came_from_def simp del: map_of_eq_Some_iff split: if_splits)
    qed
  qed (auto simp: came_from_def)
qed simp

text \<open>A file stays as long as nothing looks at its expiry or later.\<close>

definition before_expiry :: "stored_entry \<Rightarrow> file_op \<Rightarrow> bool" where
  "before_expiry e op \<longleftrightarrow> (\<forall>t. looks_at op t \<longrightarrow> \<not> expired_by t e)"

lemma stored_stays:
  assumes "file_store_wf st" "map_of (fs_files st) k = Some e" "list_all (before_expiry e) ops"
  shows "map_of (fs_files (run_file_ops env ops st)) k = Some e"
proof (rule file_history.steps_keep[where ok = "before_expiry e"])
  fix op st
  assume wf: "file_store_wf st" and e: "map_of (fs_files st) k = Some e" and ok: "before_expiry e op"
  from wf show "map_of (fs_files (run_file_op env op st)) k = Some e"
  proof (cases rule: run_file_op_cases[where op = op and env = env])
    case evicts
    then show ?thesis using e ok only_evictsD(3)[OF evicts e] by (auto simp: before_expiry_def)
  next
    case (stages now fresh p inp owner e')
    then show ?thesis using e by (auto simp: AList.update_conv' simp del: map_of_eq_Some_iff)
  qed
qed (use assms in simp_all)

subsection \<open>Reading\<close>

lemma get_file_Inr:
  assumes "get_file reading p f requester st = (st', Inr (meta, content))"
  obtains now e where "reading = Some now" "map_of (fs_files st) (p, f) = Some e" "readable_by requester e"
    "\<not> expired_by now e" "meta = sf_meta e" "content = sf_content e" "st' = st"
proof -
  obtain now where r: "reading = Some now" "engine_clock reading = Inr now"
    using assms by (auto simp: get_file_def engine_clock_def read_clock_Inr_iff split: if_splits sum.splits)
  then show ?thesis
    using assms that
    by (auto simp: get_file_def get_stored_file_def read_file_def file_timestamp_def recheck_expiry_def expired_by_def
      split: if_splits option.splits)
qed

lemma get_file_live:
  assumes "map_of (fs_files st) (p, f) = Some e" "file_store_wf st" "readable_by requester e"
    "date_in_range now" "fm_expires_at (sf_meta e) = Iso t" "now < t"
  shows "get_file (Some now) p f requester st = (st, Inr (sf_meta e, sf_content e))"
proof -
  have "is_file_id f"
    using assms(1,2) by (auto simp: file_store_wf_def file_entry_wf_def all_entries_def dest: map_of_SomeD)
  then show ?thesis
    using assms by (simp add: get_file_def get_stored_file_def read_file_def file_timestamp_def recheck_expiry_def
      expired_by_def num_le_def engine_clock_def read_clock_def del: map_of_eq_Some_iff)
qed

text \<open>C38: Staged files are isolated: after any history of uploads, reads, metadata reads and sweeps, what a read
  hands out was staged by an upload of the very project under this identifier, byte for byte, has not expired,
  and either had no owner or has the requester as its owner.\<close>

theorem staged_files_are_isolated:
  assumes "snd (get_file (Some now) p f requester (run_file_ops env ops empty_file_store)) = Inr (meta, content)"
  shows "\<exists>staged_at inp owner. File_Stage (Some staged_at) f p inp owner \<in> set ops \<and> content = si_content inp \<and>
    meta = \<lparr>fm_file = f, fm_name = js_trim (si_name inp), fm_mime = js_trim (si_mime inp),
      fm_size = int (length (si_content inp)), fm_expires_at = Iso (staged_at + fe_ttl_ms env)\<rparr> \<and>
    now < staged_at + fe_ttl_ms env \<and> (owner = None \<or> owner = requester)"
proof -
  let ?st = "run_file_ops env ops empty_file_store"
  obtain st' where "get_file (Some now) p f requester ?st = (st', Inr (meta, content))"
    using assms by (metis prod.collapse)
  then obtain e where e: "map_of (fs_files ?st) (p, f) = Some e" "readable_by requester e" "\<not> expired_by now e"
    "meta = sf_meta e" "content = sf_content e" by (rule get_file_Inr) auto
  have "map_of (fs_files empty_file_store) (p, f) = None" by (simp add: empty_file_store_def)
  then have "came_from env ops p f e" using stored_came_from[OF empty_file_store_wf e(1)] by auto
  then show ?thesis
    using e by (fastforce simp: came_from_def staged_entry_def readable_by_def expired_by_def num_le_def)
qed

text \<open>C39: A staged file stays readable: once an upload succeeded, its owner reads exactly its bytes and metadata,
  whatever is uploaded, read and swept in between, as long as nobody has looked at the store at its expiry or
  later; and the read changes nothing.\<close>

theorem staged_file_stays_readable:
  assumes "stage_file env reading f p inp owner (run_file_ops env ops empty_file_store) = (st, Inr meta)"
    and "list_all (\<lambda>op. \<not> (\<exists>t \<ge> time_ms (fm_expires_at meta). looks_at op t)) later"
    and "now < time_ms (fm_expires_at meta)" "date_in_range now"
  shows "get_file (Some now) p f owner (run_file_ops env later st) = (run_file_ops env later st, Inr (meta, si_content inp))"
  using assms(1)
proof (cases rule: stage_file_cases)
  case (staged staged_at e)
  let ?st0 = "run_file_ops env ops empty_file_store"
  have run: "run_file_op env (File_Stage reading f p inp owner) ?st0 = st" using assms(1) by simp
  have wf: "file_store_wf st" using run_file_op_wf[OF run_file_ops_wf, of env "File_Stage reading f p inp owner" env ops] run by simp
  have meta: "meta = sf_meta e" "fm_expires_at (sf_meta e) = Iso (staged_at + fe_ttl_ms env)"
    using staged by (auto simp: staged_entry_def)
  have "map_of (fs_files st) (p, f) = Some e" using staged by (simp add: AList.update_conv' del: map_of_eq_Some_iff)
  moreover have "list_all (before_expiry e) later"
    using assms(2) meta by (auto simp: list_all_iff before_expiry_def expired_by_def num_le_def)
  ultimately have "map_of (fs_files (run_file_ops env later st)) (p, f) = Some e" by (rule stored_stays[OF wf])
  then have "get_file (Some now) p f owner (run_file_ops env later st) =
      (run_file_ops env later st, Inr (sf_meta e, sf_content e))"
    by (rule get_file_live[OF _ file_history.steps_inv[OF wf]])
      (use staged assms(3,4) meta in \<open>simp_all add: readable_by_def\<close>)
  then show ?thesis using staged meta by (simp add: staged_entry_def)
qed simp

subsection \<open>Listings\<close>

definition live_files :: "string \<Rightarrow> int \<Rightarrow> file_store \<Rightarrow> stored_entry list" where
  "live_files p now st = filter (\<lambda>e. \<not> expired_by now e) (ordered_files p st)"

abbreviation file_id :: "stored_entry \<Rightarrow> string" where
  "file_id e \<equiv> fm_file (sf_meta e)"

lemma stored_key:
  assumes "file_store_wf st" "(k, e) \<in> set (fs_files st)"
  shows "k = (sf_project e, file_id e)" "is_file_id (file_id e)"
proof -
  have "map_of (fs_files st) k = Some e" using assms by (simp add: file_store_wf_def)
  then have "file_entry_wf k e" using assms(1) all_entriesD by (auto simp: file_store_wf_def simp del: map_of_eq_Some_iff)
  then show "k = (sf_project e, file_id e)" "is_file_id (file_id e)" by (auto simp: file_entry_wf_def prod_eq_iff)
qed

lemma set_ordered_files:
  assumes "file_store_wf st"
  shows "e \<in> set (ordered_files p st) \<longleftrightarrow> map_of (fs_files st) (p, file_id e) = Some e"
proof -
  have "map_of (fs_files st) (p, file_id e) = Some e \<longleftrightarrow> ((p, file_id e), e) \<in> set (fs_files st)"
    using assms by (simp add: file_store_wf_def)
  moreover have "e \<in> set (ordered_files p st) \<longleftrightarrow> sf_project e = p \<and> (\<exists>k. (k, e) \<in> set (fs_files st))"
    by (force simp: ordered_files_def)
  ultimately show ?thesis using stored_key(1)[OF assms] by blast
qed

lemma ordered_file_id: "file_store_wf st \<Longrightarrow> e \<in> set (ordered_files p st) \<Longrightarrow> is_file_id (file_id e)"
  using stored_key(2) by (auto simp: ordered_files_def)

lemma ordered_files_distinct:
  assumes "file_store_wf st"
  shows "distinct (map file_id (ordered_files p st))"
proof -
  let ?key = "\<lambda>e. (sf_project e, file_id e)" and ?vals = "filter (\<lambda>e. sf_project e = p) (js_values (fs_files st))"
  have "map fst (fs_files st) = map ?key (js_values (fs_files st))"
    unfolding map_map by (rule map_cong[OF refl]) (use stored_key(1)[OF assms] in \<open>auto simp: prod_eq_iff\<close>)
  then have "distinct (map ?key (js_values (fs_files st)))" using assms unfolding file_store_wf_def by metis
  then have "distinct (map ?key ?vals)" by (rule distinct_map_filter)
  then have "distinct ?vals" "inj_on ?key (set ?vals)" unfolding distinct_map by blast+
  moreover have "inj_on file_id (set ?vals)" using calculation(2) by (auto simp: inj_on_def)
  ultimately show ?thesis unfolding ordered_files_def distinct_map by simp
qed

text \<open>The position of the last row of a page among all rows.\<close>

lemma filter_nth_split:
  "n < length (filter P xs) \<Longrightarrow> \<exists>i. i < length xs \<and> xs ! i = filter P xs ! n \<and>
     filter P (drop (Suc i) xs) = drop (Suc n) (filter P xs)"
proof (induction xs arbitrary: n)
  case (Cons x xs)
  show ?case
  proof (cases "P x \<and> n = 0")
    case True
    then show ?thesis by (intro exI[of _ 0]) simp
  next
    case False
    define k where "k = (if P x then n - 1 else n)"
    have "k < length (filter P xs)" using Cons.prems False by (auto simp: k_def split: if_splits)
    then obtain i where "i < length xs" "xs ! i = filter P xs ! k" "filter P (drop (Suc i) xs) = drop (Suc k) (filter P xs)"
      using Cons.IH by blast
    then show ?thesis using False by (intro exI[of _ "Suc i"]) (auto simp: k_def nth_Cons' drop_Cons')
  qed
qed simp

lemma file_cursor_round_trip: "is_file_id i \<Longrightarrow> file_id_from_cursor (file_cursor_after i) = Inr i"
  by (simp add: file_id_from_cursor_def file_cursor_after_def cursor_after_def)

lemma list_walk_from:
  assumes wf: "file_store_wf st" and n: "1 \<le> n" "n \<le> 100" and i: "i \<le> length (ordered_files p st)"
    and fuel: "length (filter (\<lambda>e. \<not> expired_by now e) (drop i (ordered_files p st))) < fuel"
    and cur: "file_offset (ordered_files p st) cur = Inr i"
  shows "walk_pages (\<lambda>c. list_stored_files p c n (Iso now) st) fuel cur =
    Inr (map sf_meta (filter (\<lambda>e. \<not> expired_by now e) (drop i (ordered_files p st))))"
  using i fuel cur
proof (induction fuel arbitrary: i cur)
  case (Suc fuel)
  let ?all = "ordered_files p st" and ?P = "\<lambda>e. \<not> expired_by now e"
  let ?live = "filter ?P (drop i ?all)"
  have safe: "is_safe_integer n" using n by (simp add: is_safe_integer_def max_safe_integer_def)
  have slice: "js_slice ?live 0 n = take (nat n) ?live" using n by (simp add: js_slice_nonneg)
  have page: "list_stored_files p cur n (Iso now) st = Inr (map sf_meta (take (nat n) ?live),
      if int (length ?live) > n \<and> take (nat n) ?live \<noteq> []
      then Some (file_cursor_after (fm_file (last (map sf_meta (take (nat n) ?live))))) else None)"
    using n safe Suc.prems(3)
    by (simp add: list_stored_files_def validate_file_list_input_def file_timestamp_def Let_def slice)
  show ?case
  proof (cases "int (length ?live) > n")
    case False
    then show ?thesis using page n by simp
  next
    case True
    define k where "k = nat n - 1"
    have k: "nat n = Suc k" "k < length ?live" using n True by (auto simp: k_def)
    obtain j where j: "j < length (drop i ?all)" "drop i ?all ! j = ?live ! k"
      "filter ?P (drop (Suc j) (drop i ?all)) = drop (Suc k) ?live"
      using filter_nth_split[OF k(2)] by blast
    let ?e = "?all ! (i + j)"
    have e: "?e = ?live ! k" "i + j < length ?all" using j(1,2) by auto
    have last: "last (map sf_meta (take (nat n) ?live)) = sf_meta ?e"
      using k e(1) by (simp add: take_Suc_conv_app_nth)
    have id: "is_file_id (fm_file (sf_meta ?e))"
      by (rule ordered_file_id[OF wf nth_mem[OF e(2)]])
    have "find_index (\<lambda>x. fm_file (sf_meta x) = fm_file (sf_meta ?e)) ?all = Some (i + j)"
      by (rule find_index_unique[OF ordered_files_distinct[OF wf] e(2)])
    then have cur: "file_offset ?all (Some (file_cursor_after (fm_file (sf_meta ?e)))) = Inr (Suc (i + j))"
      using file_cursor_round_trip[OF id] by (simp add: file_offset_def)
    have rest: "filter ?P (drop (Suc (i + j)) ?all) = drop (nat n) ?live"
      using j(3) k(1) by (simp add: add.commute)
    have "walk_pages (\<lambda>c. list_stored_files p c n (Iso now) st) fuel (Some (file_cursor_after (fm_file (sf_meta ?e)))) =
        Inr (map sf_meta (drop (nat n) ?live))"
      using Suc.IH[OF _ _ cur] e(2) rest Suc.prems(2) k by simp
    moreover have "map sf_meta (take (nat n) ?live) @ map sf_meta (drop (nat n) ?live) = map sf_meta ?live"
      by (simp flip: map_append)
    moreover have "take (nat n) ?live \<noteq> []" using k by (cases ?live) auto
    ultimately show ?thesis using page True last by simp
  qed
qed simp

text \<open>C40: A listing has every live file: following the cursors with any allowed page size lists exactly the files
  of the project that are not expired at that time, each once, the newest first.\<close>

theorem file_pages_are_complete:
  assumes "1 \<le> n" "n \<le> 100" "length (live_files p now (run_file_ops env ops empty_file_store)) < fuel"
  shows "walk_pages (\<lambda>c. list_stored_files p c n (Iso now) (run_file_ops env ops empty_file_store)) fuel None =
      Inr (map sf_meta (live_files p now (run_file_ops env ops empty_file_store))) \<and>
    distinct (map fm_file (map sf_meta (live_files p now (run_file_ops env ops empty_file_store)))) \<and>
    (\<forall>f. f \<in> set (map fm_file (map sf_meta (live_files p now (run_file_ops env ops empty_file_store)))) \<longleftrightarrow>
      (case map_of (fs_files (run_file_ops env ops empty_file_store)) (p, f) of
         None \<Rightarrow> False | Some e \<Rightarrow> \<not> expired_by now e))"
proof -
  let ?st = "run_file_ops env ops empty_file_store"
  have wf: "file_store_wf ?st" by (rule run_file_ops_wf)
  have "walk_pages (\<lambda>c. list_stored_files p c n (Iso now) ?st) fuel None = Inr (map sf_meta (live_files p now ?st))"
    using list_walk_from[OF wf assms(1,2), of 0 p now fuel None] assms(3) by (simp add: live_files_def file_offset_def)
  moreover have "distinct (map fm_file (map sf_meta (live_files p now ?st)))"
    using ordered_files_distinct[OF wf, of p] by (simp add: live_files_def distinct_map_filter comp_def)
  moreover have "f \<in> set (map fm_file (map sf_meta (live_files p now ?st))) \<longleftrightarrow>
      (case map_of (fs_files ?st) (p, f) of None \<Rightarrow> False | Some e \<Rightarrow> \<not> expired_by now e)" for f
  proof -
    have id: "file_id e = f" if "map_of (fs_files ?st) (p, f) = Some e" for e
      using stored_key(1)[OF wf map_of_SomeD[OF that]] by simp
    have "f \<in> set (map fm_file (map sf_meta (live_files p now ?st))) \<longleftrightarrow>
        (\<exists>e. e \<in> set (ordered_files p ?st) \<and> \<not> expired_by now e \<and> file_id e = f)"
      by (auto simp: live_files_def)
    also have "\<dots> \<longleftrightarrow> (\<exists>e. map_of (fs_files ?st) (p, f) = Some e \<and> \<not> expired_by now e)"
      unfolding set_ordered_files[OF wf] using id by metis
    finally show ?thesis by (simp split: option.split del: map_of_eq_Some_iff)
  qed
  ultimately show ?thesis by blast
qed

subsection \<open>A concrete history\<close>

definition sample_files :: file_env where
  "sample_files = \<lparr>fe_byte_length = length, fe_ttl_ms = 1000, fe_max_bytes = 10\<rparr>"

definition sample_upload :: stage_file_input where
  "sample_upload = \<lparr>si_name = '' note.txt '', si_mime = ''text/plain; charset=utf-8'', si_content = [104, 105]\<rparr>"

definition sample_file_ops :: "file_op list" where
  "sample_file_ops = [File_Stage (Some 5) ''file_a'' ''p'' sample_upload (Some ''u''),
     File_Read (Some 6) ''p'' ''file_a'' (Some ''v''), File_Stage (Some 7) ''file_b'' ''p'' sample_upload None]"

lemma staged_files_are_isolated_witness:
  "\<exists>staged_at inp owner. File_Stage (Some staged_at) ''file_a'' ''p'' inp owner \<in> set sample_file_ops \<and>
     (owner = None \<or> owner = Some ''u'')"
proof -
  let ?r = "snd (get_file (Some 8) ''p'' ''file_a'' (Some ''u'') (run_file_ops sample_files sample_file_ops empty_file_store))"
  have "\<not> isl ?r" by code_simp
  then obtain meta content where "?r = Inr (meta, content)" by (cases ?r) auto
  from staged_files_are_isolated[OF this] show ?thesis by blast
qed

definition sample_later :: "file_op list" where
  "sample_later = [File_Sweep 10 (Iso 900), File_Read (Some 950) ''p'' ''file_a'' None]"

lemma staged_file_stays_readable_witness:
  "\<exists>st meta. snd (get_file (Some 1000) ''p'' ''file_a'' (Some ''u'') (run_file_ops sample_files sample_later st)) =
     Inr (meta, [104, 105])"
proof -
  let ?r = "stage_file sample_files (Some 5) ''file_a'' ''p'' sample_upload (Some ''u'')
    (run_file_ops sample_files [] empty_file_store)"
  have "(case snd ?r of Inl _ \<Rightarrow> False | Inr meta \<Rightarrow> fm_expires_at meta = Iso 1005)" by code_simp
  then obtain st meta where r: "?r = (st, Inr meta)" and meta: "fm_expires_at meta = Iso 1005"
    by (cases ?r; cases "snd ?r") auto
  have "get_file (Some 1000) ''p'' ''file_a'' (Some ''u'') (run_file_ops sample_files sample_later st) =
      (run_file_ops sample_files sample_later st, Inr (meta, si_content sample_upload))"
    by (rule staged_file_stays_readable[OF r]) (auto simp: meta sample_later_def date_in_range_def max_date_def)
  then show ?thesis by (intro exI[of _ st] exI[of _ meta]) (simp add: sample_upload_def)
qed

lemma file_pages_are_complete_witness:
  "walk_pages (\<lambda>c. list_stored_files ''p'' c 1 (Iso 8) (run_file_ops sample_files sample_file_ops empty_file_store)) 5 None =
    Inr (map sf_meta (live_files ''p'' 8 (run_file_ops sample_files sample_file_ops empty_file_store)))"
proof -
  have "length (live_files ''p'' 8 (run_file_ops sample_files sample_file_ops empty_file_store)) < 5" by code_simp
  from file_pages_are_complete[OF _ _ this, of 1] show ?thesis by simp
qed

end
