(* ===== verification/Spec2Isabelle.thy ===== *)
theory Spec2Isabelle
  imports Engine_Recovery Address_Spelling Trigger_History Trigger_State Trigger_Subscriptions Rate_Bursts Concurrency_Laws
    Signed_Requests Webhook_Selection Worker_Examples Usage_Laws Cloud_Usage Engine_Properties File_Laws
begin

text \<open>
  The executor of Eyeball (\<open>apps/executor/src\<close>) and the parts of \<open>packages/core/src\<close> that it rests on.
  The executor admits tool executions, keeps their records, runs them and all webhook work as jobs of a
  lease-fenced queue, delivers signed webhook events with retries, keeps trigger subscriptions and their
  events, and limits the rate and the concurrency of requests. Its stores have in-memory and PostgreSQL
  implementations of the same interfaces; the in-memory ones are modelled.

  \<^bold>\<open>Conventions.\<close> A \<open>throw\<close> or rejected promise is \<open>Inl\<close> of a \<open>js_error\<close>, a return is \<open>Inr\<close>. A method
  without an inner \<open>await\<close> on other work is one atomic transformer of the state; a method that may write
  before it throws returns a state and a result. Clocks, random identifiers and factories are arguments,
  SHA-256, HMAC, \<open>JSON.stringify\<close> of an event, the URL parser and \<open>isIP\<close> are parameters of the definitions
  that use them. A \<open>Map\<close> is an association list in insertion order, a \<open>Set\<close> a list without repetition, a
  key \<open>JSON.stringify([a, b])\<close> the pair. A timestamp or a cursor is represented by what decoding says of
  it. Numbers are integers with the checks of \<open>Number.isSafeInteger\<close> written out; where the code computes
  with fractions, as in the token bucket and in signature verification, they are rationals rounded to
  doubles after every operation (\<open>Doubles\<close>). Sorts are stable. Histories are lists of calls in which a
  failing call keeps what it wrote before it failed.

  \<^bold>\<open>Theories and code.\<close>
  \<^item> \<open>Prelude\<close>: results, timestamps, maps, slices, JSON. \<open>History\<close>: the locale \<open>call_history\<close> for
    invariants over all histories of calls, interpreted on the stores below. \<open>Pagination\<close> and
    \<open>Recovery_Pages\<close>: the locales \<open>cursor_listing\<close> and \<open>recovery_listing\<close> for the paged listings.
  \<^item> Jobs (\<open>jobs/types.ts\<close>, \<open>jobs/store.ts\<close>, \<open>jobs/memory-store.ts\<close>): \<open>Job_Types\<close> (identities, envelopes, the
    guard on persisted rows), \<open>Job_Store\<close> (every method of the in-memory store), \<open>Job_Machine\<close> and
    \<open>Job_Histories\<close> (the state machine of a row and its simulation by the calls), \<open>Job_Queue\<close>: refinement,
    lease fencing, claims in group order, serialized groups, takeover of crashed work, and a finding.
  \<^item> The worker (\<open>jobs/worker.ts\<close>, \<open>queue.ts\<close>): \<open>Task_Queue\<close> (what clients see of the queue), \<open>Job_Worker\<close> (the
    worker as steps between awaits), \<open>Worker_Laws\<close> (histories of steps; promises settle once),
    \<open>Worker_Settlement\<close> (a step acts on the job store by its calls, and a promise tells the outcome of its
    row), \<open>Worker_Polls\<close> (polls and idleness), \<open>Worker_Concurrency\<close> (typed dispatch, bounds on the handlers
    in flight), \<open>Worker_Examples\<close> (concrete histories, among them a handler that outlives its lease).
  \<^item> Executions (\<open>store.ts\<close>, \<open>types/execution.ts\<close>, \<open>errors.ts\<close>): \<open>Execution_Types\<close>, \<open>Execution_Store\<close>,
    \<open>Execution_Machine\<close>, \<open>Execution_Invariant\<close>, \<open>Execution_Reservations\<close>, \<open>Execution_Waiters\<close>, \<open>Executions\<close>:
    the lifecycle of a record, idempotent allocation, cancellation, waiters, listings.
  \<^item> Webhooks (\<open>webhooks/\<close>, \<open>core/src/webhooks.ts\<close>): \<open>Delivery_Store\<close> and \<open>Deliveries\<close> (the log of
    deliveries), \<open>Ssrf\<close>, \<open>Address_Guard\<close>, \<open>Address_Spelling\<close> (the address guard and its lookup; the parser is
    compared with a grammar of IPv6 literals that gives them their value by place values, with brackets, zones
    and dotted tails),
    \<open>Webhook_Endpoints\<close> and \<open>Endpoints\<close> (the registry), \<open>Webhook_Work\<close> and \<open>Event_Work\<close> (durable events and
    their materialization), \<open>Voice_Sources\<close>, \<open>Webhook_Signatures\<close> (signing and verification).
  \<^item> The deliverer (\<open>webhooks/deliverer.ts\<close>): \<open>Webhook_Deliverer\<close>, where \<open>handleWebhookDeliverJob\<close> is split at its request into \<open>begin_delivery\<close> and
    \<open>finish_delivery\<close>. \<open>Delivery_Attempts\<close>: bounds and spacing of the attempts over all interleavings of
    steps, requests in flight, recoveries and restarts. \<open>Deliverer_Stores\<close>: the deliverer refines the
    histories of its stores. \<open>Delivery_Runs\<close>: the effect of one due run and the end of a delivery whose event
    resolves and whose endpoint stays active.
    \<open>Signed_Requests\<close>: sent requests against the receiver's verification. \<open>Webhook_Selection\<close>: an event
    reaches every subscriber.
  \<^item> Recovery (\<open>jobs/recovery.ts\<close>): \<open>Recovery_Sweep\<close>, \<open>Recovery\<close>, \<open>Recovered\<close>: the paged sweep over the
    execution store, the events and the deliveries, that it ends, and that it leaves a live job for all
    unfinished work and every cancelled execution reconciled, for any callback that changes the row it is given
    and adds selection jobs only. \<open>Engine_Recovery\<close> has the callback of \<open>runtime.ts\<close>, the engine's
    \<open>reconcile_terminal\<close> on the stores that sweep and engine share (\<open>rc_other\<close> holds the rest of the engine),
    proves that it is such a callback, and states both results for it. Each of its calls has its own readings of
    clocks. The recursion over the pages carries fuel; a number of pages that is enough always exists.
  \<^item> Triggers (\<open>triggers/\<close>, \<open>core/src/triggers.ts\<close>): \<open>Trigger_Events\<close>, \<open>Trigger_History\<close>, \<open>Trigger_State\<close>,
    \<open>Trigger_Subscriptions\<close>: arrivals, claims of provider events, subscriptions.
  \<^item> Limits (\<open>rate-limit.ts\<close>): \<open>Doubles\<close>, \<open>Rate_Limit\<close>, \<open>Rate_Windows\<close>, \<open>Rate_Bursts\<close>,
    \<open>Concurrency_Limit\<close>, \<open>Concurrency_Laws\<close>.
  \<^item> Tool names (\<open>core/src/naming.ts\<close>): \<open>Tool_Names\<close>.
  \<^item> Usage (\<open>usage/\<close>): \<open>Usage_Outbox\<close> (the outbox of reports and releases and its histories), \<open>Usage_Flusher\<close>
    (a flush split at its requests, the drain with fuel for its deadline), \<open>Usage_Laws\<close> (what a flush settles,
    the retry delay, when a drain ends empty), \<open>Cloud_Usage\<close> (configuration, validation of the answers of the
    usage service, admission: when an answer grants or denies is stated on the fields of its JSON body).

  \<^item> The execution engine (\<open>engine.ts\<close>, \<open>execution-provenance.ts\<close>): \<open>Engine_Types\<close> (errors, parsing and
    validation of a request, identities, checks of a credential; the catalog, the schemas and the hashes are
    fields of its environment), \<open>Engine_State\<close> (the state and the shared effects: usage, reconciliation,
    interrupted work), \<open>Engine_Run\<close> (\<open>#runAllocated\<close>, cut at the permit, the credential provider and the
    adapter, with its two \<open>catch\<close>es and its \<open>finally\<close>; \<open>runExecutionJob\<close>; cancellation), \<open>Engine_Calls\<close>
    (\<open>execute\<close>, cut at the usage service and at \<open>waitForTerminal\<close>; histories of all steps, with abort signals
    and restarts). A step gets its readings of clocks in an \<open>engine_time\<close>; \<open>after_reads\<close> passes on the rest.
    \<open>Engine_Laws\<close> has the invariant and two relations of an effect's states: a \<open>calm\<close> effect answers no job, a
    \<open>good\<close> one acknowledges finished work only. \<open>Engine_Effects\<close>, \<open>Engine_Steps\<close>, \<open>Engine_Histories\<close> and
    \<open>Engine_Invariant\<close> prove every step good; \<open>Engine_Examples\<close> has concrete histories, \<open>Engine_Properties\<close>
    what follows for providers, cancellations, usage, jobs and stored executions, each of which is traced to the
    call of \<open>execute\<close> in the history that made it.
  \<^item> Staged files (\<open>staged-files.ts\<close> and the file operations of \<open>engine.ts\<close>): \<open>Staged_Files\<close>, \<open>File_Laws\<close>.

  \<^bold>\<open>How the parts interact.\<close> The engine admits an execution into the execution store and submits its job; the
  worker calls \<open>runExecutionJob\<close>; the end of an execution goes to the usage outbox and to the deliverer. The work store, the delivery log and the job store form the
  \<open>webhook_system\<close>, which the deliverer and the recovery sweep act on; the deliverer resolves an event from
  the execution store, the voice sources or its own volatile map. The job store hands out work under
  leases to workers; several workers share one store, which the histories of a worker account for by
  arbitrary calls on the store between its steps.

  \<^bold>\<open>Not modelled.\<close> The HTTP routes, the trigger adapters and the voice observer; in the engine, the defaults of its
  constructor and the merging of concurrent reconciliations of one execution, which its steps
  do not interleave; logs, metrics and spans, which no state depends on; the SQL text of the
  PostgreSQL stores; generated catalogs, toolkits and user interfaces. Interleavings are those of whole
  steps: a step of an in-memory store or handler is observed as a caller sees it when no other call runs
  between its inner \<open>await\<close>s on the in-memory stores.
\<close>

end
